(* ===== verification/Tarsus_Prelude.thy ===== *)
theory Tarsus_Prelude
  imports Main "HOL-Library.Word" "HOL-Library.Char_ord" "HOL-Library.List_Lexorder"
begin

text \<open>
  Shared vocabulary of the development. A Go byte is a \<^typ>\<open>char\<close> (both have 256 values), a
  Go \<open>string\<close> and a Go \<open>[]byte\<close> are lists of them, so that \<open>[]byte(s)\<close> is the identity and
  \<open>strings.Compare\<close> and \<open>bytes.Compare\<close> are the lexicographic order of the library. A nil
  slice is told apart from an empty one by \<open>option\<close> only where the code tests for nil.

  A Go function that returns an error is a function into \<open>go_error + 'a\<close>; one that also
  changes state is a function from a state to such a result paired with the state left behind,
  because Go handlers can fail after they have written something. The combinators below are
  the early return (\<open>fail_if\<close>), the error check after a call (\<open>bindR\<close>, \<open>bindS\<close>) and their
  inversion rules, which the component proofs use through the collections
  \<open>result_inv\<close>, \<open>op_inv\<close> and \<open>pres_intro\<close>.
\<close>

type_synonym bytes = string
type_synonym u8 = "8 word"
type_synonym u16 = "16 word"
type_synonym u32 = "32 word"
type_synonym u64 = "64 word"

datatype go_error =
    ErrMsg string
  | ErrWrap string go_error
  | DsNotFound
  | RoutingNotFound
  | ErrNotFound
  | ErrConflict
  | ErrLocked
  | ErrCertificationRequired
  | ErrTupleNotFound
  | ErrInvalidTuplePattern
  | ErrTupleCASConflict
  | ErrLockHeldByAnother
  | ErrLockTimeout
  | ErrStaleWriteFence
  | ErrFetchCountTooLarge
  | ErrIBLTMessageTooShort
  | ErrUnexpectedEOF
  | ErrReusedNonce
  | ErrDuplicateMessageHash
  | ErrExpiredTimestamp
  | ErrPermissionDenied
  | ErrStaleTupleAuthority
  | ErrTupleAuthority u64 string
  | ErrTupleApplication string

type_synonym 'a result = "go_error + 'a"
type_synonym ('s, 'a) op = "'s \<Rightarrow> 'a result \<times> 's"

text \<open>\<open>errors.Is\<close>: the sentinel itself, or an error that wraps it.\<close>

primrec errors_Is :: "go_error \<Rightarrow> go_error \<Rightarrow> bool" where
  "errors_Is (ErrMsg m) t \<longleftrightarrow> t = ErrMsg m"
| "errors_Is (ErrWrap m e) t \<longleftrightarrow> t = ErrWrap m e \<or> errors_Is e t"
| "errors_Is DsNotFound t \<longleftrightarrow> t = DsNotFound"
| "errors_Is RoutingNotFound t \<longleftrightarrow> t = RoutingNotFound"
| "errors_Is ErrNotFound t \<longleftrightarrow> t = ErrNotFound"
| "errors_Is ErrConflict t \<longleftrightarrow> t = ErrConflict"
| "errors_Is ErrLocked t \<longleftrightarrow> t = ErrLocked"
| "errors_Is ErrCertificationRequired t \<longleftrightarrow> t = ErrCertificationRequired"
| "errors_Is ErrTupleNotFound t \<longleftrightarrow> t = ErrTupleNotFound"
| "errors_Is ErrInvalidTuplePattern t \<longleftrightarrow> t = ErrInvalidTuplePattern"
| "errors_Is ErrTupleCASConflict t \<longleftrightarrow> t = ErrTupleCASConflict"
| "errors_Is ErrLockHeldByAnother t \<longleftrightarrow> t = ErrLockHeldByAnother"
| "errors_Is ErrLockTimeout t \<longleftrightarrow> t = ErrLockTimeout"
| "errors_Is ErrStaleWriteFence t \<longleftrightarrow> t = ErrStaleWriteFence"
| "errors_Is ErrFetchCountTooLarge t \<longleftrightarrow> t = ErrFetchCountTooLarge"
| "errors_Is ErrIBLTMessageTooShort t \<longleftrightarrow> t = ErrIBLTMessageTooShort"
| "errors_Is ErrUnexpectedEOF t \<longleftrightarrow> t = ErrUnexpectedEOF"
| "errors_Is ErrReusedNonce t \<longleftrightarrow> t = ErrReusedNonce"
| "errors_Is ErrDuplicateMessageHash t \<longleftrightarrow> t = ErrDuplicateMessageHash"
| "errors_Is ErrExpiredTimestamp t \<longleftrightarrow> t = ErrExpiredTimestamp"
| "errors_Is ErrPermissionDenied t \<longleftrightarrow> t = ErrPermissionDenied"
| "errors_Is ErrStaleTupleAuthority t \<longleftrightarrow> t = ErrStaleTupleAuthority"
| "errors_Is (ErrTupleAuthority e w) t \<longleftrightarrow> t = ErrTupleAuthority e w \<or> t = ErrStaleTupleAuthority"
| "errors_Is (ErrTupleApplication m) t \<longleftrightarrow> t = ErrTupleApplication m"

named_theorems result_inv
named_theorems op_inv
named_theorems pres_intro

subsection \<open>Pure results\<close>

definition fail_if :: "bool \<Rightarrow> go_error \<Rightarrow> 'a result \<Rightarrow> 'a result" where
  "fail_if c e k = (if c then Inl e else k)"

definition bindR :: "'a result \<Rightarrow> ('a \<Rightarrow> 'b result) \<Rightarrow> 'b result" where
  "bindR m k = (case m of Inl e \<Rightarrow> Inl e | Inr x \<Rightarrow> k x)"

definition is_ok :: "'a result \<Rightarrow> bool" where
  "is_ok r = (case r of Inl _ \<Rightarrow> False | Inr _ \<Rightarrow> True)"

definition result_or_nil :: "'a result \<Rightarrow> 'a option" where
  "result_or_nil r = (case r of Inl _ \<Rightarrow> None | Inr x \<Rightarrow> Some x)"

text \<open>\<open>fmt.Errorf("...: %w", err)\<close>.\<close>

definition wrapR :: "string \<Rightarrow> 'a result \<Rightarrow> 'a result" where
  "wrapR m r = (case r of Inl e \<Rightarrow> Inl (ErrWrap m e) | Inr x \<Rightarrow> Inr x)"

lemma wrapR_simps [simp]:
  "wrapR m (Inl e) = Inl (ErrWrap m e)"
  "wrapR m (Inr x) = Inr x"
  by (simp_all add: wrapR_def)

lemma wrapR_Inr [result_inv]: "wrapR m r = Inr x \<longleftrightarrow> r = Inr x"
  by (cases r) simp_all

lemma fail_if_simps [simp]:
  "fail_if True e k = Inl e"
  "fail_if False e k = k"
  by (simp_all add: fail_if_def)

lemma bindR_simps [simp]:
  "bindR (Inl e) k = Inl e"
  "bindR (Inr x) k = k x"
  by (simp_all add: bindR_def)

lemma is_ok_simps [simp]:
  "is_ok (Inl e) = False"
  "is_ok (Inr x) = True"
  by (simp_all add: is_ok_def)

lemma result_or_nil_simps [simp]:
  "result_or_nil (Inl e) = None"
  "result_or_nil (Inr x) = Some x"
  by (simp_all add: result_or_nil_def)

lemma result_or_nil_Some [simp]: "result_or_nil r = Some x \<longleftrightarrow> r = Inr x"
  by (cases r) simp_all

lemma is_ok_iff: "is_ok r \<longleftrightarrow> (\<exists>x. r = Inr x)"
  by (cases r) auto

lemma fail_if_Inr [result_inv]: "fail_if c e k = Inr x \<longleftrightarrow> \<not> c \<and> k = Inr x"
  by (simp add: fail_if_def)

lemma bindR_Inr [result_inv]: "bindR m k = Inr x \<longleftrightarrow> (\<exists>y. m = Inr y \<and> k y = Inr x)"
  by (cases m) auto

lemma fail_if_Inl: "fail_if c e k = Inl e' \<longleftrightarrow> c \<and> e' = e \<or> \<not> c \<and> k = Inl e'"
  by (auto simp: fail_if_def)

lemma bindR_Inl: "bindR m k = Inl e \<longleftrightarrow> m = Inl e \<or> (\<exists>y. m = Inr y \<and> k y = Inl e)"
  by (cases m) auto

subsection \<open>Operations on a state\<close>

definition retS :: "'a \<Rightarrow> ('s, 'a) op" where
  "retS x s = (Inr x, s)"

definition failS :: "go_error \<Rightarrow> ('s, 'a) op" where
  "failS e s = (Inl e, s)"

definition liftR :: "'a result \<Rightarrow> ('s, 'a) op" where
  "liftR r s = (r, s)"

definition bindS :: "('s, 'a) op \<Rightarrow> ('a \<Rightarrow> ('s, 'b) op) \<Rightarrow> ('s, 'b) op" where
  "bindS m k s = (case m s of (Inl e, t) \<Rightarrow> (Inl e, t) | (Inr x, t) \<Rightarrow> k x t)"

text \<open>A call whose error the code looks at instead of returning it.\<close>

definition tryS :: "('s, 'a) op \<Rightarrow> ('a result \<Rightarrow> ('s, 'b) op) \<Rightarrow> ('s, 'b) op" where
  "tryS m k s = (case m s of (r, t) \<Rightarrow> k r t)"

definition fail_ifS :: "bool \<Rightarrow> go_error \<Rightarrow> ('s, 'a) op \<Rightarrow> ('s, 'a) op" where
  "fail_ifS c e k = (if c then failS e else k)"

definition readS :: "('s \<Rightarrow> 'a) \<Rightarrow> ('a \<Rightarrow> ('s, 'b) op) \<Rightarrow> ('s, 'b) op" where
  "readS f k s = k (f s) s"

lemma retS_inv [op_inv]: "retS x s = (r, t) \<longleftrightarrow> r = Inr x \<and> t = s"
  by (auto simp: retS_def)

lemma failS_inv [op_inv]: "failS e s = (r, t) \<longleftrightarrow> r = Inl e \<and> t = s"
  by (auto simp: failS_def)

lemma liftR_inv [op_inv]: "liftR q s = (r, t) \<longleftrightarrow> q = r \<and> t = s"
  by (auto simp: liftR_def)

lemma bindS_Inr [op_inv]:
  "bindS m k s = (Inr x, t) \<longleftrightarrow> (\<exists>y u. m s = (Inr y, u) \<and> k y u = (Inr x, t))"
  by (auto simp: bindS_def split: prod.splits sum.splits)

lemma bindS_Inl:
  "bindS m k s = (Inl e, t) \<longleftrightarrow>
     m s = (Inl e, t) \<or> (\<exists>y u. m s = (Inr y, u) \<and> k y u = (Inl e, t))"
  by (auto simp: bindS_def split: prod.splits sum.splits)

lemma bindS_E:
  assumes "bindS m k s = (r, t)"
  obtains (failed) e where "m s = (Inl e, t)" "r = Inl e"
  | (passed) x u where "m s = (Inr x, u)" "k x u = (r, t)"
  using assms by (auto simp: bindS_def split: prod.splits sum.splits)

lemma tryS_inv [op_inv]:
  "tryS m k s = (r, t) \<longleftrightarrow> (\<exists>q u. m s = (q, u) \<and> k q u = (r, t))"
  by (auto simp: tryS_def split: prod.splits)

lemma fail_ifS_Inr [op_inv]:
  "fail_ifS c e k s = (Inr x, t) \<longleftrightarrow> \<not> c \<and> k s = (Inr x, t)"
  by (simp add: fail_ifS_def failS_def)

lemma readS_inv [op_inv]: "readS f k s = (r, t) \<longleftrightarrow> k (f s) s = (r, t)"
  by (simp add: readS_def)

lemma case_sum_op [op_inv]:
  "(case x of Inl e \<Rightarrow> f e | Inr y \<Rightarrow> g y) s = (Inr z, t) \<longleftrightarrow>
     (\<exists>e. x = Inl e \<and> f e s = (Inr z, t)) \<or> (\<exists>y. x = Inr y \<and> g y s = (Inr z, t))"
  by (cases x) auto

lemma fail_ifS_simps [simp]:
  "fail_ifS True e k = failS e"
  "fail_ifS False e k = k"
  by (simp_all add: fail_ifS_def)

lemma bindS_eval [simp]:
  "bindS (retS x) k s = k x s"
  "bindS (failS e) k s = (Inl e, s)"
  "bindS (liftR (Inr x)) k s = k x s"
  "bindS (liftR (Inl e)) k s = (Inl e, s)"
  by (simp_all add: bindS_def retS_def failS_def liftR_def)

text \<open>
  \<open>keeps I m\<close>: the operation keeps \<open>I\<close> on every path, the failing ones included. The rules
  follow the combinators, so that preservation of an invariant by a handler is a syntactic
  descent into its body.
\<close>

definition keeps :: "('s \<Rightarrow> bool) \<Rightarrow> ('s, 'a) op \<Rightarrow> bool" where
  "keeps I m \<longleftrightarrow> (\<forall>s r t. I s \<longrightarrow> m s = (r, t) \<longrightarrow> I t)"

lemma keepsD: "keeps I m \<Longrightarrow> m s = (r, t) \<Longrightarrow> I s \<Longrightarrow> I t"
  by (auto simp: keeps_def)

lemma keepsI: "(\<And>s r t. I s \<Longrightarrow> m s = (r, t) \<Longrightarrow> I t) \<Longrightarrow> keeps I m"
  by (auto simp: keeps_def)

lemma keeps_retS [pres_intro]: "keeps I (retS x)"
  by (simp add: keeps_def op_inv)

lemma keeps_failS [pres_intro]: "keeps I (failS e)"
  by (simp add: keeps_def op_inv)

lemma keeps_liftR [pres_intro]: "keeps I (liftR r)"
  by (simp add: keeps_def op_inv)

lemma keeps_bindS [pres_intro]:
  "keeps I m \<Longrightarrow> (\<And>x. keeps I (k x)) \<Longrightarrow> keeps I (bindS m k)"
proof (rule keepsI)
  fix s r t assume m: "keeps I m" and k: "\<And>x. keeps I (k x)" and "I s" "bindS m k s = (r, t)"
  obtain q u where q: "m s = (q, u)" by (cases "m s")
  from m q \<open>I s\<close> have "I u" by (rule keepsD)
  with q k \<open>bindS m k s = (r, t)\<close> show "I t"
    by (cases q) (auto simp: bindS_def dest: keepsD)
qed

text \<open>The same with what the check of a pure result has established.\<close>

lemma keeps_checked: "(\<And>x. r = Inr x \<Longrightarrow> keeps I (k x)) \<Longrightarrow> keeps I (bindS (liftR r) k)"
  by (cases r) (auto simp: keeps_def)

lemma keeps_tryS [pres_intro]:
  "keeps I m \<Longrightarrow> (\<And>x. keeps I (k x)) \<Longrightarrow> keeps I (tryS m k)"
proof (rule keepsI)
  fix s r t assume m: "keeps I m" and k: "\<And>x. keeps I (k x)" and "I s" "tryS m k s = (r, t)"
  then obtain q u where q: "m s = (q, u)" and k': "k q u = (r, t)" by (auto simp: op_inv)
  from m q \<open>I s\<close> have "I u" by (rule keepsD)
  with k [of q] k' show "I t" by (rule keepsD)
qed

lemma keeps_fail_ifS [pres_intro]: "keeps I k \<Longrightarrow> keeps I (fail_ifS c e k)"
  by (simp add: fail_ifS_def keeps_failS)

lemma keeps_readS [pres_intro]: "(\<And>x. keeps I (k x)) \<Longrightarrow> keeps I (readS f k)"
  by (simp add: keeps_def op_inv)

lemma keeps_if [pres_intro]: "keeps I a \<Longrightarrow> keeps I b \<Longrightarrow> keeps I (if c then a else b)"
  by simp

lemma keeps_case_option [pres_intro]:
  "keeps I a \<Longrightarrow> (\<And>x. keeps I (b x)) \<Longrightarrow> keeps I (case z of None \<Rightarrow> a | Some x \<Rightarrow> b x)"
  by (cases z) auto

lemma keeps_case_sum [pres_intro]:
  "(\<And>x. keeps I (a x)) \<Longrightarrow> (\<And>x. keeps I (b x)) \<Longrightarrow>
   keeps I (case z of Inl x \<Rightarrow> a x | Inr x \<Rightarrow> b x)"
  by (cases z) auto

lemma keeps_case_prod [pres_intro]:
  "(\<And>x y. keeps I (f x y)) \<Longrightarrow> keeps I (case z of (x, y) \<Rightarrow> f x y)"
  by (cases z) simp

subsection \<open>Lists\<close>

text \<open>The loop that keeps the entries satisfying a test, in place, is \<open>filter\<close>; the loops
  that return at the first hit are \<open>List.find\<close>.\<close>

lemma distinct_map_filter_card:
  assumes "distinct (map f xs)"
  shows "card (f ` set xs) = length xs"
  using assms by (metis distinct_card length_map list.set_map)

lemma card_inter_ge:
  assumes "finite C" "A \<subseteq> C" "B \<subseteq> C"
  shows "card A + card B \<le> card C + card (A \<inter> B)"
proof -
  have "finite A" "finite B" using assms finite_subset by blast+
  then have "card A + card B = card (A \<union> B) + card (A \<inter> B)"
    by (rule card_Un_Int)
  also have "card (A \<union> B) \<le> card C"
    using assms by (simp add: card_mono)
  finally show ?thesis by simp
qed

lemma find_Some_in: "List.find P xs = Some x \<Longrightarrow> x \<in> set xs \<and> P x"
  by (induction xs) (auto split: if_splits)

text \<open>Fuel that is enough for each element of a finite set is enough for all of them.\<close>

lemma uniform_bound:
  assumes "finite A" "\<forall>x\<in>A. \<exists>N. \<forall>f\<ge>N. P f x"
  shows "\<exists>N::nat. \<forall>f\<ge>N. \<forall>x\<in>A. P f x"
  using assms
proof (induction A)
  case (insert x A)
  then obtain M N where "\<forall>f\<ge>M. P f x" "\<forall>f\<ge>N. \<forall>x\<in>A. P f x" by auto
  then show ?case by (intro exI [of _ "max M N"]) auto
qed simp

subsection \<open>Selection loops\<close>

text \<open>
  The \<open>Select\<close> methods of the DHT validators are one loop: skip the values that do not
  validate, and keep the index of the first value whose rank beats the ranks before it.
  \<open>rank\<close> is validation and decoding in one (\<open>None\<close> for a value the loop skips).
\<close>

fun select_best ::
  "('a \<Rightarrow> 'b option) \<Rightarrow> ('b \<Rightarrow> 'b \<Rightarrow> bool) \<Rightarrow> nat \<Rightarrow> (nat \<times> 'b) option \<Rightarrow> 'a list \<Rightarrow>
   (nat \<times> 'b) option" where
  "select_best rank better i sel [] = sel"
| "select_best rank better i sel (v # vs) =
     (case rank v of
        None \<Rightarrow> select_best rank better (Suc i) sel vs
      | Some r \<Rightarrow>
          if (case sel of None \<Rightarrow> True | Some (_, b) \<Rightarrow> better r b)
          then select_best rank better (Suc i) (Some (i, r)) vs
          else select_best rank better (Suc i) sel vs)"

lemma select_best_None:
  "select_best rank better i sel vs = None \<longleftrightarrow> sel = None \<and> (\<forall>v\<in>set vs. rank v = None)"
proof (induction vs arbitrary: i sel)
  case (Cons v vs)
  show ?case by (cases "rank v"; cases sel) (simp_all add: Cons del: not_None_eq)
qed simp

text \<open>\<open>v\<close> stands at position \<open>j\<close> of a list whose first position is \<open>i\<close>.\<close>

definition at_pos :: "nat \<Rightarrow> 'a list \<Rightarrow> nat \<Rightarrow> 'a \<Rightarrow> bool" where
  "at_pos i vs j v \<longleftrightarrow> (\<exists>k<length vs. j = i + k \<and> vs ! k = v)"

lemma at_pos_Nil [simp]: "\<not> at_pos i [] j v"
  by (simp add: at_pos_def)

lemma at_pos_here [intro, simp]: "at_pos i (v # vs) i v"
  by (auto simp: at_pos_def)

lemma at_pos_later [intro]: "at_pos (Suc i) vs j v \<Longrightarrow> at_pos i (w # vs) j v"
  by (auto simp: at_pos_def)

lemma at_pos_0: "at_pos 0 vs j v \<longleftrightarrow> j < length vs \<and> vs ! j = v"
  by (auto simp: at_pos_def)

locale selector =
  fixes better :: "'b \<Rightarrow> 'b \<Rightarrow> bool"
  assumes better_irrefl: "\<not> better r r"
    and better_trans: "better a b \<Longrightarrow> better b c \<Longrightarrow> better a c"
    and not_better_trans: "\<not> better a b \<Longrightarrow> \<not> better b c \<Longrightarrow> \<not> better a c"
begin

lemma select_best_loop:
  assumes "select_best rank better i sel vs = Some (j, r)"
  shows "(sel = Some (j, r) \<or> (\<exists>v. at_pos i vs j v \<and> rank v = Some r))
       \<and> (\<forall>v\<in>set vs. \<forall>q. rank v = Some q \<longrightarrow> \<not> better q r)
       \<and> (\<forall>k b. sel = Some (k, b) \<longrightarrow> \<not> better b r)"
  using assms
proof (induction vs arbitrary: i sel)
  case Nil
  then show ?case by (auto simp: better_irrefl)
next
  case (Cons v vs)
  show ?case
  proof (cases "rank v")
    case None
    with Cons.prems have "select_best rank better (Suc i) sel vs = Some (j, r)" by simp
    from Cons.IH [OF this] None show ?thesis by auto
  next
    case (Some q)
    show ?thesis
    proof (cases "case sel of None \<Rightarrow> True | Some (_, b) \<Rightarrow> better q b")
      case True
      with Cons.prems Some have "select_best rank better (Suc i) (Some (i, q)) vs = Some (j, r)"
        by simp
      note IH = Cons.IH [OF this]
      then have q: "\<not> better q r" by blast
      have "\<not> better b r" if "sel = Some (k, b)" for k b
        using True that q better_trans by auto
      with IH Some q show ?thesis by auto
    next
      case False
      with Cons.prems Some have "select_best rank better (Suc i) sel vs = Some (j, r)" by simp
      note IH = Cons.IH [OF this]
      from False obtain k b where "sel = Some (k, b)" "\<not> better q b"
        by (auto split: option.splits)
      with IH have "\<not> better q r" using not_better_trans by blast
      with IH Some show ?thesis by auto
    qed
  qed
qed

lemma select_best_Some:
  assumes "select_best rank better 0 None vs = Some (j, r)"
  shows "j < length vs" "rank (vs ! j) = Some r"
    "\<And>v q. v \<in> set vs \<Longrightarrow> rank v = Some q \<Longrightarrow> \<not> better q r"
  using select_best_loop [OF assms] by (auto simp: at_pos_0)

end

end
