(* ===== verification/Go_Strings.thy ===== *)
theory Go_Strings
  imports Tarsus_Prelude
begin

text \<open>
  The parts of Go's standard library that the source calls on strings: prefixes and suffixes,
  splitting and joining, \<open>encoding/hex\<close>, UTF-8 decoding and validity, \<open>strings.TrimSpace\<close>,
  \<open>path.Clean\<close> and \<open>path.Dir\<close>. Each is an executable function on byte lists, with the
  algebra the component proofs need: hexadecimal round trips in both directions, the law of
  splitting a joined list, and that cleaning a rooted path is idempotent and keeps UTF-8
  validity.
\<close>

abbreviation byte :: "char \<Rightarrow> nat" where
  "byte c \<equiv> of_char c"

abbreviation slash :: char where
  "slash \<equiv> CHR ''/''"

subsection \<open>Prefixes, suffixes, splitting\<close>

definition HasPrefix :: "string \<Rightarrow> string \<Rightarrow> bool" where
  "HasPrefix s p \<longleftrightarrow> take (length p) s = p"

definition HasSuffix :: "string \<Rightarrow> string \<Rightarrow> bool" where
  "HasSuffix s p \<longleftrightarrow> HasPrefix (rev s) (rev p)"

definition TrimPrefix :: "string \<Rightarrow> string \<Rightarrow> string" where
  "TrimPrefix s p = (if HasPrefix s p then drop (length p) s else s)"

definition TrimSuffix :: "string \<Rightarrow> string \<Rightarrow> string" where
  "TrimSuffix s p = (if HasSuffix s p then take (length s - length p) s else s)"

text \<open>\<open>strings.Split\<close> on a one-byte separator; the result is never empty.\<close>

fun Split :: "char \<Rightarrow> string \<Rightarrow> string list" where
  "Split d [] = [[]]"
| "Split d (c # cs) =
     (if c = d then [] # Split d cs
      else case Split d cs of [] \<Rightarrow> [[c]] | w # ws \<Rightarrow> (c # w) # ws)"

fun Join :: "char \<Rightarrow> string list \<Rightarrow> string" where
  "Join d [] = []"
| "Join d [w] = w"
| "Join d (w # ws) = w @ d # Join d ws"

text \<open>\<open>strings.IndexByte\<close> and \<open>strings.LastIndexByte\<close>, \<open>None\<close> for -1.\<close>

fun IndexByte :: "string \<Rightarrow> char \<Rightarrow> nat option" where
  "IndexByte [] d = None"
| "IndexByte (c # cs) d = (if c = d then Some 0 else map_option Suc (IndexByte cs d))"

definition LastIndexByte :: "string \<Rightarrow> char \<Rightarrow> nat option" where
  "LastIndexByte s d = map_option (\<lambda>i. length s - Suc i) (IndexByte (rev s) d)"

lemma HasPrefix_append [simp]: "HasPrefix (p @ s) p"
  by (simp add: HasPrefix_def)

lemma HasPrefix_iff: "HasPrefix s p \<longleftrightarrow> (\<exists>t. s = p @ t)"
proof
  assume "HasPrefix s p"
  then have "s = p @ drop (length p) s"
    by (metis HasPrefix_def append_take_drop_id)
  then show "\<exists>t. s = p @ t" ..
qed auto

lemma HasSuffix_iff: "HasSuffix s p \<longleftrightarrow> (\<exists>t. s = t @ p)"
  by (auto simp: HasSuffix_def HasPrefix_iff) (metis rev_append rev_rev_ident)

lemma TrimPrefix_append [simp]: "TrimPrefix (p @ s) p = s"
  by (simp add: TrimPrefix_def)

lemma Split_not_Nil [simp]: "Split d s \<noteq> []"
  by (cases s) (auto split: list.splits)

lemma Split_free: "w \<in> set (Split d s) \<Longrightarrow> d \<notin> set w"
  by (induction s arbitrary: w) (auto split: if_splits list.splits)

lemma Split_no_sep: "d \<notin> set w \<Longrightarrow> Split d w = [w]"
  by (induction w) auto

lemma Split_append_sep: "d \<notin> set w \<Longrightarrow> Split d (w @ d # s) = w # Split d s"
  by (induction w) auto

lemma Join_Split: "Join d (Split d s) = s"
proof (induction s)
  case (Cons c cs)
  then show ?case
    by (cases "Split d cs"; cases "tl (Split d cs)") auto
qed simp

lemma Split_Join:
  assumes "ws \<noteq> []" "\<forall>w\<in>set ws. d \<notin> set w"
  shows "Split d (Join d ws) = ws"
  using assms by (induction d ws rule: Join.induct) (auto simp: Split_no_sep Split_append_sep)

lemma Join_append:
  "as \<noteq> [] \<Longrightarrow> bs \<noteq> [] \<Longrightarrow> Join d (as @ bs) = Join d as @ d # Join d bs"
proof (induction d as rule: Join.induct)
  case (2 d w)
  then show ?case by (cases bs) auto
qed auto

lemma Split_Join_append:
  assumes "ws \<noteq> []" "\<forall>w\<in>set ws. d \<notin> set w"
  shows "Split d (Join d ws @ d # t) = ws @ Split d t"
  using assms by (induction d ws rule: Join.induct) (auto simp: Split_append_sep)

lemma IndexByte_None: "IndexByte s d = None \<longleftrightarrow> d \<notin> set s"
  by (induction s) auto

lemma IndexByte_append: "d \<notin> set a \<Longrightarrow> IndexByte (a @ d # b) d = Some (length a)"
  by (induction a) auto

lemma IndexByte_Some: "IndexByte s d = Some i \<Longrightarrow> i < length s \<and> s ! i = d \<and> d \<notin> set (take i s)"
  by (induction s arbitrary: i) (auto split: if_splits)

lemma LastIndexByte_append: "d \<notin> set b \<Longrightarrow> LastIndexByte (a @ d # b) d = Some (length a)"
  by (simp add: LastIndexByte_def IndexByte_append)

subsection \<open>Hexadecimal\<close>

definition hexdigit :: "nat \<Rightarrow> char" where
  "hexdigit n = (if n < 10 then char_of (48 + n) else char_of (87 + n))"

definition fromHexChar :: "char \<Rightarrow> nat option" where
  "fromHexChar c =
     (let b = byte c in
      if 48 \<le> b \<and> b \<le> 57 then Some (b - 48)
      else if 97 \<le> b \<and> b \<le> 102 then Some (b - 87)
      else if 65 \<le> b \<and> b \<le> 70 then Some (b - 55)
      else None)"

fun hex_EncodeToString :: "bytes \<Rightarrow> string" where
  "hex_EncodeToString [] = []"
| "hex_EncodeToString (c # cs) =
     hexdigit (byte c div 16) # hexdigit (byte c mod 16) # hex_EncodeToString cs"

fun hex_DecodeString :: "string \<Rightarrow> bytes option" where
  "hex_DecodeString [] = Some []"
| "hex_DecodeString [c] = None"
| "hex_DecodeString (a # b # cs) =
     (case (fromHexChar a, fromHexChar b, hex_DecodeString cs) of
        (Some x, Some y, Some r) \<Rightarrow> Some (char_of (16 * x + y) # r)
      | _ \<Rightarrow> None)"

text \<open>\<open>strings.ToLower\<close> restricted to ASCII, which is where the source applies it.\<close>

definition lower_char :: "char \<Rightarrow> char" where
  "lower_char c = (if 65 \<le> byte c \<and> byte c \<le> 90 then char_of (byte c + 32) else c)"

definition ToLower :: "string \<Rightarrow> string" where
  "ToLower s = map lower_char s"

lemma byte_bound [simp]: "byte c < 256"
  by (cases c) (simp add: of_char_def horner_sum_bit_eq_take_bit)

lemma byte_div_bound [simp]: "byte c div 16 < 16"
  by (rule less_mult_imp_div_less) simp

lemma byte_char_of [simp]: "n < 256 \<Longrightarrow> byte (char_of (n::nat)) = n"
  by simp

lemma char_of_inj: "m < 256 \<Longrightarrow> n < 256 \<Longrightarrow> char_of (m::nat) = char_of n \<longleftrightarrow> m = n"
  by (metis byte_char_of)

lemma byte_hexdigit: "n < 16 \<Longrightarrow> byte (hexdigit n) = (if n < 10 then 48 + n else 87 + n)"
  by (simp add: hexdigit_def)

lemma fromHexChar_hexdigit [simp]: "n < 16 \<Longrightarrow> fromHexChar (hexdigit n) = Some n"
  by (simp add: fromHexChar_def Let_def byte_hexdigit)

lemma lower_hexdigit [simp]: "n < 16 \<Longrightarrow> lower_char (hexdigit n) = hexdigit n"
  by (simp add: lower_char_def byte_hexdigit)

lemma fromHexChar_bound: "fromHexChar c = Some x \<Longrightarrow> x < 16"
  by (auto simp: fromHexChar_def Let_def split: if_splits)

lemma lower_char_fixed: "lower_char c = c \<Longrightarrow> \<not> (65 \<le> byte c \<and> byte c \<le> 90)"
proof
  assume "lower_char c = c" "65 \<le> byte c \<and> byte c \<le> 90"
  then have "char_of (byte c + 32) = c" by (simp add: lower_char_def)
  then have "byte (char_of (byte c + 32)) = byte c" by simp
  with \<open>65 \<le> byte c \<and> byte c \<le> 90\<close> show False by simp
qed

lemma hexdigit_fromHexChar: "fromHexChar c = Some x \<Longrightarrow> lower_char c = c \<Longrightarrow> hexdigit x = c"
  using lower_char_fixed [of c]
  by (auto simp: fromHexChar_def hexdigit_def Let_def split: if_splits)

lemma hex_length [simp]: "length (hex_EncodeToString b) = 2 * length b"
  by (induction b) auto

lemma hex_lower [simp]: "ToLower (hex_EncodeToString b) = hex_EncodeToString b"
  by (induction b) (auto simp: ToLower_def)

lemma hex_decode_encode [simp]: "hex_DecodeString (hex_EncodeToString b) = Some b"
  by (induction b) auto

lemma hex_encode_decode:
  "hex_DecodeString s = Some b \<Longrightarrow> ToLower s = s \<Longrightarrow> hex_EncodeToString b = s"
proof (induction s arbitrary: b rule: hex_DecodeString.induct)
  case (3 c d cs)
  then obtain x y r where xy: "fromHexChar c = Some x" "fromHexChar d = Some y"
    "hex_DecodeString cs = Some r" "b = char_of (16 * x + y) # r"
    by (auto split: option.splits)
  then have "x < 16" "y < 16" by (auto dest: fromHexChar_bound)
  with xy 3 show ?case by (auto simp: ToLower_def hexdigit_fromHexChar)
qed auto

lemma hex_decode_length: "hex_DecodeString s = Some b \<Longrightarrow> length s = 2 * length b"
  by (induction s arbitrary: b rule: hex_DecodeString.induct) (auto split: option.splits)

lemma hex_inj [simp]: "hex_EncodeToString a = hex_EncodeToString b \<longleftrightarrow> a = b"
  by (metis hex_decode_encode option.inject)

lemma hexdigit_not_slash: "n < 16 \<Longrightarrow> hexdigit n \<noteq> slash"
  using byte_hexdigit [of n] by (auto split: if_splits)

lemma hex_no_slash: "slash \<notin> set (hex_EncodeToString b)"
  by (induction b) (auto simp: hexdigit_not_slash hexdigit_not_slash [THEN not_sym])

lemma hexdigit_not_nul: "n < 16 \<Longrightarrow> hexdigit n \<noteq> CHR 0x00"
  using byte_hexdigit [of n] by (auto split: if_splits)

lemma hex_no_nul: "CHR 0x00 \<notin> set (hex_EncodeToString b)"
  by (induction b) (auto simp: hexdigit_not_nul hexdigit_not_nul [THEN not_sym])

subsection \<open>Zero-padded decimals\<close>

text \<open>\<open>fmt.Sprintf("%020d", n)\<close> of an unsigned 64-bit number, which always has exactly twenty
  digits.\<close>

fun dec_fixed :: "nat \<Rightarrow> nat \<Rightarrow> string" where
  "dec_fixed 0 n = []"
| "dec_fixed (Suc w) n = dec_fixed w (n div 10) @ [char_of (48 + n mod 10)]"

definition fmt020d :: "u64 \<Rightarrow> string" where
  "fmt020d g = dec_fixed 20 (unat g)"

lemma dec_fixed_length [simp]: "length (dec_fixed w n) = w"
  by (induction w arbitrary: n) auto

lemma dec_fixed_inj: "m < 10 ^ w \<Longrightarrow> n < 10 ^ w \<Longrightarrow> dec_fixed w m = dec_fixed w n \<Longrightarrow> m = n"
proof (induction w arbitrary: m n)
  case (Suc w)
  then have "m div 10 = n div 10"
    by (intro Suc.IH) (auto simp: less_mult_imp_div_less mult.commute)
  moreover have "m mod 10 = n mod 10"
    using Suc.prems by (auto simp: char_of_inj)
  ultimately show ?case by (metis div_mult_mod_eq)
qed simp

lemma fmt020d_length [simp]: "length (fmt020d g) = 20"
  by (simp add: fmt020d_def)

lemma fmt020d_inj [simp]: "fmt020d a = fmt020d b \<longleftrightarrow> a = b"
proof -
  have "unat g < 10 ^ 20" for g :: u64
    using unsigned_less [of g, where ?'a = nat] by simp
  then show ?thesis
    by (metis dec_fixed_inj fmt020d_def word_unat_eq_iff)
qed

subsection \<open>UTF-8\<close>

text \<open>\<open>utf8.DecodeRuneInString\<close>: the rune and its width. An invalid encoding is the rune
  0xFFFD with width 1, the empty string the rune 0xFFFD with width 0.\<close>

definition utf8_cont :: "nat \<Rightarrow> nat \<Rightarrow> char \<Rightarrow> bool" where
  "utf8_cont lo hi c \<longleftrightarrow> lo \<le> byte c \<and> byte c \<le> hi"

fun decodeRune :: "string \<Rightarrow> nat \<times> nat" where
  "decodeRune [] = (0xFFFD, 0)"
| "decodeRune (c # cs) =
     (if byte c < 0x80 then (byte c, 1)
      else if byte c < 0xC2 \<or> 0xF4 < byte c then (0xFFFD, 1)
      else if byte c < 0xE0 then
        (case cs of
           c1 # _ \<Rightarrow> if utf8_cont 0x80 0xBF c1
                    then ((byte c - 0xC0) * 64 + (byte c1 - 0x80), 2) else (0xFFFD, 1)
         | _ \<Rightarrow> (0xFFFD, 1))
      else if byte c < 0xF0 then
        (case cs of
           c1 # c2 # _ \<Rightarrow>
             if utf8_cont (if byte c = 0xE0 then 0xA0 else 0x80)
                          (if byte c = 0xED then 0x9F else 0xBF) c1 \<and> utf8_cont 0x80 0xBF c2
             then ((byte c - 0xE0) * 4096 + (byte c1 - 0x80) * 64 + (byte c2 - 0x80), 3)
             else (0xFFFD, 1)
         | _ \<Rightarrow> (0xFFFD, 1))
      else
        (case cs of
           c1 # c2 # c3 # _ \<Rightarrow>
             if utf8_cont (if byte c = 0xF0 then 0x90 else 0x80)
                          (if byte c = 0xF4 then 0x8F else 0xBF) c1
                \<and> utf8_cont 0x80 0xBF c2 \<and> utf8_cont 0x80 0xBF c3
             then ((byte c - 0xF0) * 262144 + (byte c1 - 0x80) * 4096
                   + (byte c2 - 0x80) * 64 + (byte c3 - 0x80), 4)
             else (0xFFFD, 1)
         | _ \<Rightarrow> (0xFFFD, 1)))"

lemma decodeRune_width: "s \<noteq> [] \<Longrightarrow> 1 \<le> snd (decodeRune s) \<and> snd (decodeRune s) \<le> length s"
  by (cases s) (auto split: list.splits)

text \<open>\<open>for _, r := range s\<close>: the runes of a string.\<close>

function runes :: "string \<Rightarrow> nat list" where
  "runes s = (if s = [] then [] else fst (decodeRune s) # runes (drop (snd (decodeRune s)) s))"
  by pat_completeness auto
termination
  using decodeRune_width by (relation "measure length") (auto simp: Suc_le_eq)

declare runes.simps [simp del]

text \<open>\<open>utf8.ValidString\<close>.\<close>

function ValidString :: "string \<Rightarrow> bool" where
  "ValidString s =
     (if s = [] then True
      else if decodeRune s = (0xFFFD, 1) then False
      else ValidString (drop (snd (decodeRune s)) s))"
  by pat_completeness auto
termination
  using decodeRune_width by (relation "measure length") (auto simp: Suc_le_eq)

declare ValidString.simps [simp del]

definition isSpaceRune :: "nat \<Rightarrow> bool" where
  "isSpaceRune r \<longleftrightarrow>
     9 \<le> r \<and> r \<le> 13 \<or> r = 32 \<or> r = 0x85 \<or> r = 0xA0 \<or> r = 0x1680 \<or> 0x2000 \<le> r \<and> r \<le> 0x200A
     \<or> r = 0x2028 \<or> r = 0x2029 \<or> r = 0x202F \<or> r = 0x205F \<or> r = 0x3000"

text \<open>\<open>strings.TrimSpace(s) == ""\<close>: every rune is white space.\<close>

definition blank :: "string \<Rightarrow> bool" where
  "blank s \<longleftrightarrow> (\<forall>r\<in>set (runes s). isSpaceRune r)"

text \<open>Decoding at the head of \<open>a @ d # b\<close>, with \<open>d\<close> an ASCII byte, never reads past \<open>a\<close>:
  an ASCII byte is not a continuation byte.\<close>

lemma decodeRune_append_ascii:
  assumes "byte d < 0x80" "a \<noteq> []"
  shows "decodeRune (a @ d # b) = decodeRune a"
proof -
  from assms obtain c cs where a: "a = c # cs" by (cases a) auto
  have d: "\<not> utf8_cont 0x80 0xBF d" "\<not> utf8_cont 0xA0 h d" "\<not> utf8_cont 0x90 h d"
    "\<not> utf8_cont 0x80 h d" for h
    using assms(1) by (auto simp: utf8_cont_def)
  show ?thesis
    unfolding a
    by (cases cs; cases "tl cs"; cases "tl (tl cs)") (auto simp: d split: list.split)
qed

lemma decodeRune_ascii: "byte d < 0x80 \<Longrightarrow> decodeRune (d # b) = (byte d, 1)"
  by simp

declare decodeRune.simps(2) [simp del]

lemma ValidString_append_ascii:
  assumes d: "byte d < 0x80"
  shows "ValidString (a @ d # b) \<longleftrightarrow> ValidString a \<and> ValidString b"
proof (induction "length a" arbitrary: a rule: less_induct)
  case less
  show ?case
  proof (cases "a = []")
    case True
    with d show ?thesis
      by (simp add: ValidString.simps [of "d # b"] ValidString.simps [of "[]"] decodeRune_ascii)
  next
    case False
    let ?n = "snd (decodeRune a)"
    have n: "1 \<le> ?n" "?n \<le> length a" using decodeRune_width [OF False] by auto
    then have "length (drop ?n a) < length a" using False by (cases a) auto
    then have IH: "ValidString (drop ?n a @ d # b) \<longleftrightarrow> ValidString (drop ?n a) \<and> ValidString b"
      by (rule less.hyps)
    have "ValidString (a @ d # b) \<longleftrightarrow>
        decodeRune a \<noteq> (0xFFFD, 1) \<and> ValidString (drop ?n a @ d # b)"
      using n False by (simp add: ValidString.simps [of "a @ d # b"] decodeRune_append_ascii d)
    then show ?thesis
      using IH False by (auto simp: ValidString.simps [of a])
  qed
qed

lemma ValidString_Nil [simp]: "ValidString []"
  by (simp add: ValidString.simps)

lemma ValidString_ascii [simp]: "byte c < 0x80 \<Longrightarrow> ValidString (c # s) \<longleftrightarrow> ValidString s"
  using ValidString_append_ascii [of c "[]" s] by simp

subsection \<open>Paths\<close>

text \<open>
  \<open>path.Clean\<close> on rooted paths, on their slash-separated components: empty and \<open>.\<close> components
  are dropped, \<open>..\<close> removes the component before it and disappears at the root. (The source
  applies it to rooted paths only.)
\<close>

fun clean_step :: "string list \<Rightarrow> string \<Rightarrow> string list" where
  "clean_step st w =
     (if w = [] \<or> w = ''.'' then st
      else if w = ''..'' then (if st = [] then [] else butlast st)
      else st @ [w])"

definition clean_components :: "string \<Rightarrow> string list" where
  "clean_components s = foldl clean_step [] (Split slash s)"

definition path_Clean :: "string \<Rightarrow> string" where
  "path_Clean s = slash # Join slash (clean_components s)"

text \<open>\<open>path.Dir\<close> of a rooted path: everything up to the last slash, cleaned.\<close>

definition path_Dir :: "string \<Rightarrow> string" where
  "path_Dir s = path_Clean (case LastIndexByte s slash of None \<Rightarrow> [] | Some i \<Rightarrow> take (Suc i) s)"

definition plain_component :: "string \<Rightarrow> bool" where
  "plain_component w \<longleftrightarrow> w \<noteq> [] \<and> w \<noteq> ''.''"

lemma clean_step_no_dotdot:
  "''..'' \<notin> set ws \<Longrightarrow> foldl clean_step st ws = st @ filter plain_component ws"
  by (induction ws arbitrary: st) (auto simp: plain_component_def)

lemma clean_components_no_dotdot:
  "''..'' \<notin> set (Split slash s) \<Longrightarrow> clean_components s = filter plain_component (Split slash s)"
  by (simp add: clean_components_def clean_step_no_dotdot)

lemma Split_slash_Join:
  assumes "\<forall>w\<in>set ws. slash \<notin> set w"
  shows "Split slash (slash # Join slash ws) = [] # (if ws = [] then [[]] else ws)"
  using assms by (simp add: Split_Join)

lemma clean_components_Join:
  assumes "\<forall>w\<in>set ws. slash \<notin> set w \<and> plain_component w \<and> w \<noteq> ''..''"
  shows "clean_components (slash # Join slash ws) = ws"
proof -
  have "Split slash (slash # Join slash ws) = [] # (if ws = [] then [[]] else ws)"
    by (rule Split_slash_Join) (use assms in auto)
  moreover have "filter plain_component ws = ws" "\<not> plain_component []"
    using assms by (auto simp: plain_component_def)
  ultimately show ?thesis
    using assms by (subst clean_components_no_dotdot) auto
qed

lemma ValidString_Join:
  "ValidString (Join slash ws) \<longleftrightarrow> (\<forall>w\<in>set ws. ValidString w)"
  by (induction slash ws rule: Join.induct) (auto simp: ValidString_append_ascii)

lemma ValidString_Split: "ValidString s \<longleftrightarrow> (\<forall>w\<in>set (Split slash s). ValidString w)"
  by (metis Join_Split ValidString_Join)

lemma set_Join_subset: "set (Join d ws) \<subseteq> insert d (\<Union>w\<in>set ws. set w)"
  by (induction d ws rule: Join.induct) auto

lemma set_Split_subset: "w \<in> set (Split d s) \<Longrightarrow> set w \<subseteq> set s"
proof (induction s arbitrary: w)
  case (Cons c cs)
  then show ?case by (cases "Split d cs") (fastforce split: if_splits)+
qed simp

end
