(* ===== verification/Names_Data.thy ===== *)
theory Names_Data
  imports Go_Strings
begin

text \<open>
  The data of the mutable-name plane (\<open>internal/names\<close>): the structs of \<open>types.go\<close>,
  \<open>record.go\<close>, \<open>validator.go\<close>, \<open>bft.go\<close> and the lease registry of \<open>store.go\<close>, and the
  parameter \<open>names_env\<close> that stands for what the package calls and does not define: SHA-256,
  Ed25519 and the third-party CBOR codec of each struct. Times are Unix nanoseconds as
  integers; generations, epochs, views and fencing numbers are 64-bit words; \<open>ObjectPolicy\<close>
  counts are 16-bit words and \<open>Permissions\<close> an 8-bit word, as in the source.
\<close>

record PlacementPolicy =
  Near :: u16
  Middle :: u16
  Far :: u16

record ObjectPolicy =
  Replicas :: u16
  Placement :: PlacementPolicy
  StrictPublish :: bool
  Encryption :: string
  KeyEpoch :: u64
  RetainVersions :: u16
  CollectionGrace :: int
  Searchable :: bool

record Capability =
  cap_Version :: u64
  cap_Namespace :: bytes
  cap_PathPrefix :: string
  cap_Delegate :: bytes
  cap_Permissions :: u8
  cap_NotBefore :: int
  cap_Expires :: int
  cap_Nonce :: bytes
  cap_Signature :: bytes

record NameRecord =
  nr_Version :: u64
  nr_Namespace :: bytes
  nr_NameID :: bytes
  nr_Path :: string
  nr_Kind :: string
  nr_Generation :: u64
  nr_PreviousHash :: bytes
  nr_ManifestKey :: bytes
  nr_Tombstone :: bool
  nr_Owner :: bytes
  nr_Capability :: "Capability option"
  nr_Policy :: ObjectPolicy
  nr_DirectoryChildren :: "bytes list"
  nr_Signer :: bytes
  nr_Timestamp :: int
  nr_Nonce :: bytes
  nr_Signature :: bytes

record ProviderClaim =
  pc_Version :: u64
  pc_ContentKey :: bytes
  pc_Provider :: bytes
  pc_Address :: string
  pc_Expires :: int
  pc_Timestamp :: int
  pc_Nonce :: bytes
  pc_Signature :: bytes

record LeaseScope =
  sc_NameID :: bytes
  sc_Namespace :: bytes
  sc_PathPrefix :: string

record LeaseRecord =
  lr_Version :: u64
  lr_Scope :: LeaseScope
  lr_Owner :: bytes
  lr_Holder :: bytes
  lr_Fencing :: u64
  lr_Issued :: int
  lr_Expires :: int
  lr_Nonce :: bytes
  lr_Capability :: "Capability option"
  lr_Signature :: bytes

record NamespaceRoot =
  rt_Version :: u64
  rt_Namespace :: bytes
  rt_Owner :: bytes
  rt_Validators :: "bytes list"
  rt_FaultThreshold :: u16
  rt_CommitteeEpoch :: u64
  rt_Timestamp :: int
  rt_Nonce :: bytes
  rt_Signature :: bytes

record QuorumVote =
  qv_Version :: u64
  qv_Namespace :: bytes
  qv_NameID :: bytes
  qv_Generation :: u64
  qv_RecordHash :: bytes
  qv_PreviousHash :: bytes
  qv_CommitteeEpoch :: u64
  qv_View :: u64
  qv_Phase :: string
  qv_Validator :: bytes
  qv_Timestamp :: int
  qv_Nonce :: bytes
  qv_Signature :: bytes

record QuorumCertificate =
  qc_Version :: u64
  qc_Namespace :: bytes
  qc_NameID :: bytes
  qc_Generation :: u64
  qc_RecordHash :: bytes
  qc_PreviousHash :: bytes
  qc_CommitteeEpoch :: u64
  qc_View :: u64
  qc_Phase :: string
  qc_Votes :: "QuorumVote list"

record CertifiedNameRecord =
  cn_Version :: u64
  cn_Root :: NamespaceRoot
  cn_Record :: bytes
  cn_Commit :: QuorumCertificate

record leaseRegistryEntry =
  le_Lease :: bytes
  le_Path :: string
  le_Subtree :: bool
  le_Expires :: int
  le_Fencing :: u64
  le_Holder :: bytes

record leaseRegistry =
  reg_Version :: u64
  reg_Namespace :: bytes
  reg_Revision :: u64
  reg_Entries :: "leaseRegistryEntry list"

text \<open>One struct's CBOR codec: the encoder of the canonical mode and the decoder of the strict
  mode, both of which may fail.\<close>

record 'a codec =
  cbor_Marshal :: "'a \<Rightarrow> bytes result"
  cbor_Unmarshal :: "bytes \<Rightarrow> 'a result"

record names_env =
  Sum256 :: "bytes \<Rightarrow> bytes"
  ed_Verify :: "bytes \<Rightarrow> bytes \<Rightarrow> bytes \<Rightarrow> bool"
  ed_Sign :: "bytes \<Rightarrow> bytes \<Rightarrow> bytes"
  ed_Public :: "bytes \<Rightarrow> bytes"
  capC :: "Capability codec"
  recC :: "NameRecord codec"
  claimC :: "ProviderClaim codec"
  leaseC :: "LeaseRecord codec"
  rootC :: "NamespaceRoot codec"
  voteC :: "QuorumVote codec"
  certC :: "CertifiedNameRecord codec"
  regC :: "leaseRegistry codec"

text \<open>
  What the code relies on, as a contract. The digest has 32 bytes and a signature 64, as
  SHA-256 and Ed25519 document, and a signature made with a private key verifies under its
  public key.
\<close>

locale crypto_contract =
  fixes E :: names_env
  assumes Sum256_length: "length (Sum256 E m) = 32"
    and Sign_length: "length (ed_Sign E sk m) = 64"
    and Public_length: "length sk = 64 \<Longrightarrow> length (ed_Public E sk) = 32"
    and Verify_Sign: "length sk = 64 \<Longrightarrow> ed_Verify E (ed_Public E sk) m (ed_Sign E sk m)"

end
