(* ===== verification/Names_Types.thy ===== *)
theory Names_Types
  imports Names_Data
begin

text \<open>
  \<open>internal/names/types.go\<close>: identifiers, path normalization, the \<open>tarsus://\<close> form of a name
  and the object policy. The lemmas give normalized paths their meaning as lists of
  components, the round trip of the textual forms, and the arithmetic the policy validator
  guarantees without overflow.
\<close>

definition FormatVersion :: u64 where "FormatVersion = 1"

definition NameRecordDomain :: string where
  "NameRecordDomain = ''tarsus-name-record-v1'' @ [CHR 0x00]"
definition CapabilityDomain :: string where
  "CapabilityDomain = ''tarsus-capability-v1'' @ [CHR 0x00]"
definition ProviderClaimDomain :: string where
  "ProviderClaimDomain = ''tarsus-provider-claim-v1'' @ [CHR 0x00]"
definition LeaseDomain :: string where
  "LeaseDomain = ''tarsus-lease-v1'' @ [CHR 0x00]"
definition nameIDDomain :: string where
  "nameIDDomain = ''tarsus-name-id-v1'' @ [CHR 0x00]"
definition maxPathBytes :: nat where "maxPathBytes = 4096"

definition ParseNamespaceID :: "string \<Rightarrow> bytes result" where
  "ParseNamespaceID value =
     (case hex_DecodeString value of
        None \<Rightarrow> Inl (ErrMsg ''namespace id must be 64 lower-case hexadecimal characters'')
      | Some b \<Rightarrow>
          fail_if (length b \<noteq> 32)
            (ErrMsg ''namespace id must be 64 lower-case hexadecimal characters'')
            (fail_if (value \<noteq> ToLower value)
               (ErrMsg ''namespace id must use lower-case hexadecimal'') (Inr b)))"

definition ParseNameID :: "string \<Rightarrow> bytes result" where
  "ParseNameID value =
     (case hex_DecodeString value of
        None \<Rightarrow> Inl (ErrMsg ''name id must be 64 lower-case hexadecimal characters'')
      | Some b \<Rightarrow>
          fail_if (length b \<noteq> 32)
            (ErrMsg ''name id must be 64 lower-case hexadecimal characters'')
            (fail_if (value \<noteq> ToLower value)
               (ErrMsg ''name id must use lower-case hexadecimal'') (Inr b)))"

definition id_String :: "bytes \<Rightarrow> string" where
  "id_String b = hex_EncodeToString b"

definition NormalizePath :: "string \<Rightarrow> string result" where
  "NormalizePath value =
     fail_if (value = [] \<or> \<not> HasPrefix value [slash])
       (ErrMsg ''name path must be absolute'')
     (fail_if (\<not> ValidString value \<or> CHR 0x00 \<in> set value)
       (ErrMsg ''name path must be valid UTF-8 without NUL'')
     (fail_if (''..'' \<in> set (Split slash value))
       (ErrMsg ''name path may not contain dot-dot'')
     (let normalized = path_Clean value in
      fail_if (length normalized > maxPathBytes)
        (ErrMsg ''name path exceeds 4096 bytes'')
        (Inr normalized))))"

definition DeriveNameID :: "names_env \<Rightarrow> bytes \<Rightarrow> string \<Rightarrow> bytes" where
  "DeriveNameID E namespace normalizedPath =
     Sum256 E (nameIDDomain @ namespace @ normalizedPath)"

definition DHTNameKey :: "bytes \<Rightarrow> string" where
  "DHTNameKey i = ''/names/'' @ id_String i"

definition ParseTarsusURI :: "names_env \<Rightarrow> string \<Rightarrow> (bytes \<times> string \<times> bytes) result" where
  "ParseTarsusURI E value =
     (let prefix = ''tarsus://'' in
      fail_if (\<not> HasPrefix value prefix) (ErrMsg ''URI must begin with tarsus://'')
      (let rest = TrimPrefix value prefix in
       case IndexByte rest slash of
         None \<Rightarrow> Inl (ErrMsg ''URI must include an absolute path'')
       | Some i \<Rightarrow>
           bindR (ParseNamespaceID (take i rest)) (\<lambda>ns.
           bindR (NormalizePath (drop i rest)) (\<lambda>p.
           Inr (ns, p, DeriveNameID E ns p)))))"

definition DefaultPolicy :: ObjectPolicy where
  "DefaultPolicy =
     \<lparr>Replicas = 7, Placement = \<lparr>Near = 3, Middle = 2, Far = 2\<rparr>, StrictPublish = True,
      Encryption = ''private'', KeyEpoch = 0, RetainVersions = 3,
      CollectionGrace = 24 * 60 * 60 * 1000000000, Searchable = True\<rparr>"

definition ObjectPolicy_Validate :: "ObjectPolicy \<Rightarrow> unit result" where
  "ObjectPolicy_Validate p =
     fail_if (Replicas p < 1 \<or> Replicas p > 32)
       (ErrMsg ''replicas must be between 1 and 32'')
     (fail_if ((ucast (Near (Placement p)) + ucast (Middle (Placement p))
                + ucast (Far (Placement p)) :: u32) \<noteq> ucast (Replicas p))
       (ErrMsg ''placement counts must sum to replicas'')
     (fail_if (Encryption p \<noteq> ''private'' \<and> Encryption p \<noteq> ''public'')
       (ErrMsg ''encryption must be private or public'')
     (fail_if (RetainVersions p < 1 \<or> RetainVersions p > 64)
       (ErrMsg ''retain_versions must be between 1 and 64'')
     (fail_if (CollectionGrace p < 0 \<or> CollectionGrace p > 30 * 24 * 60 * 60 * 1000000000)
       (ErrMsg ''collection grace must be between zero and 30 days'')
       (Inr ())))))"

subsection \<open>Normalized paths\<close>

text \<open>A normalized path is a slash followed by its components.\<close>

definition good_component :: "string \<Rightarrow> bool" where
  "good_component w \<longleftrightarrow>
     plain_component w \<and> w \<noteq> ''..'' \<and> slash \<notin> set w \<and> CHR 0x00 \<notin> set w \<and> ValidString w"

definition path_of :: "string list \<Rightarrow> string" where
  "path_of ws = slash # Join slash ws"

lemma path_of_inj:
  assumes "\<forall>w\<in>set as. good_component w" "\<forall>w\<in>set bs. good_component w" "path_of as = path_of bs"
  shows "as = bs"
proof -
  have "clean_components (path_of ws) = ws" if "\<forall>w\<in>set ws. good_component w" for ws
    using that unfolding path_of_def by (intro clean_components_Join) (auto simp: good_component_def)
  then show ?thesis using assms by metis
qed

lemma NormalizePath_path_of:
  assumes "\<forall>w\<in>set ws. good_component w" "length (path_of ws) \<le> maxPathBytes"
  shows "NormalizePath (path_of ws) = Inr (path_of ws)"
proof -
  have g: "\<forall>w\<in>set ws. slash \<notin> set w \<and> plain_component w \<and> w \<noteq> ''..''"
    using assms(1) by (auto simp: good_component_def)
  have "Split slash (path_of ws) = [] # (if ws = [] then [[]] else ws)"
    unfolding path_of_def by (rule Split_slash_Join) (use g in auto)
  then have "''..'' \<notin> set (Split slash (path_of ws))"
    using g by auto
  moreover have "path_Clean (path_of ws) = path_of ws"
    using clean_components_Join [OF g] by (simp add: path_Clean_def path_of_def)
  moreover have "ValidString (path_of ws)"
    using assms(1) ValidString_append_ascii [of slash "[]" "Join slash ws"]
    by (simp add: path_of_def ValidString_Join good_component_def)
  moreover have "CHR 0x00 \<notin> set (path_of ws)"
    using assms(1) set_Join_subset [of slash ws] by (auto simp: path_of_def good_component_def)
  ultimately show ?thesis
    using assms(2) by (simp add: NormalizePath_def HasPrefix_def path_of_def fail_if_def)
qed

lemma NormalizePath_ok_shape:
  assumes "NormalizePath v = Inr p"
  obtains ws where "p = path_of ws" "\<forall>w\<in>set ws. good_component w"
    "length (path_of ws) \<le> maxPathBytes"
proof
  let ?ws = "filter plain_component (Split slash v)"
  from assms have v: "ValidString v" "CHR 0x00 \<notin> set v" "''..'' \<notin> set (Split slash v)"
    and p: "p = path_Clean v" "length (path_Clean v) \<le> maxPathBytes"
    by (auto simp: NormalizePath_def result_inv Let_def)
  then show "p = path_of ?ws"
    by (simp add: path_Clean_def path_of_def clean_components_no_dotdot)
  with p show "length (path_of ?ws) \<le> maxPathBytes" by simp
  show "\<forall>w\<in>set ?ws. good_component w"
    using v Split_free [of _ slash v] set_Split_subset [of _ slash v] ValidString_Split [of v]
    by (fastforce simp: good_component_def)
qed

definition normalized :: "string \<Rightarrow> bool" where
  "normalized p \<longleftrightarrow> NormalizePath p = Inr p"

lemma normalizedE:
  assumes "normalized p"
  obtains ws where "p = path_of ws" "\<forall>w\<in>set ws. good_component w"
  using assms unfolding normalized_def by (metis NormalizePath_ok_shape)

text \<open>Normalizing a path is idempotent: what \<open>NormalizePath\<close> returns is accepted
  unchanged, so the test \<open>normalized != r.Path\<close> of the validators is decidable on the stored
  path alone and every accepted path has exactly one spelling.\<close>

theorem NormalizePath_idempotent:
  assumes "NormalizePath v = Inr p"
  shows "NormalizePath p = Inr p"
  using assms by (metis NormalizePath_ok_shape NormalizePath_path_of)

theorem NormalizePath_idempotent_witness:
  "NormalizePath ''/a//./b/'' = Inr ''/a/b'' \<and> NormalizePath ''/a/b'' = Inr ''/a/b''"
proof -
  have "NormalizePath ''/a//./b/'' = Inr ''/a/b''"
    by (simp add: NormalizePath_def HasPrefix_def path_Clean_def clean_components_def
          maxPathBytes_def)
  with NormalizePath_idempotent [OF this] show ?thesis by blast
qed

subsection \<open>Identifiers and URIs\<close>

lemma ParseNamespaceID_String [simp]:
  "length b = 32 \<Longrightarrow> ParseNamespaceID (id_String b) = Inr b"
  by (simp add: ParseNamespaceID_def id_String_def)

lemma ParseNamespaceID_ok:
  "ParseNamespaceID v = Inr b \<longleftrightarrow> length b = 32 \<and> v = id_String b"
  by (auto simp: ParseNamespaceID_def id_String_def result_inv hex_encode_decode
        split: option.splits)

lemma DHTNameKey_inj: "DHTNameKey a = DHTNameKey b \<longleftrightarrow> a = b"
  by (simp add: DHTNameKey_def id_String_def)

text \<open>The \<open>tarsus://\<close> form of a name is unambiguous: parsing succeeds exactly on
  \<open>tarsus://<lower-case hex of 32 bytes><path>\<close> with a path that normalizes, returns that
  namespace, the normalized path and the NameID derived from them; in particular the URI
  built from a namespace and a normalized path parses back to them.\<close>

theorem ParseTarsusURI_exact:
  "ParseTarsusURI E v = Inr (ns, p, i) \<longleftrightarrow>
     (\<exists>q. v = ''tarsus://'' @ id_String ns @ q \<and> length ns = 32
        \<and> NormalizePath q = Inr p \<and> i = DeriveNameID E ns p)"
proof
  assume "ParseTarsusURI E v = Inr (ns, p, i)"
  then obtain n where pre: "HasPrefix v ''tarsus://''"
    and n: "IndexByte (TrimPrefix v ''tarsus://'') slash = Some n"
    and ns: "ParseNamespaceID (take n (TrimPrefix v ''tarsus://'')) = Inr ns"
    and p: "NormalizePath (drop n (TrimPrefix v ''tarsus://'')) = Inr p"
    and i: "i = DeriveNameID E ns p"
    by (auto simp: ParseTarsusURI_def Let_def result_inv split: option.splits)
  from pre obtain r where r: "v = ''tarsus://'' @ r" unfolding HasPrefix_iff by blast
  then have "TrimPrefix v ''tarsus://'' = r" by (simp only: TrimPrefix_append)
  with ns have "take n r = id_String ns" "length ns = 32" by (auto simp: ParseNamespaceID_ok)
  with r p i \<open>TrimPrefix v _ = r\<close> show "\<exists>q. v = ''tarsus://'' @ id_String ns @ q \<and> length ns = 32
        \<and> NormalizePath q = Inr p \<and> i = DeriveNameID E ns p"
    by (metis append_take_drop_id)
next
  assume "\<exists>q. v = ''tarsus://'' @ id_String ns @ q \<and> length ns = 32
        \<and> NormalizePath q = Inr p \<and> i = DeriveNameID E ns p"
  then obtain q where v: "v = ''tarsus://'' @ id_String ns @ q" "length ns = 32"
    and q: "NormalizePath q = Inr p" and i: "i = DeriveNameID E ns p" by blast
  from q obtain t where t: "q = slash # t"
    by (auto simp: NormalizePath_def result_inv HasPrefix_iff)
  have "TrimPrefix v ''tarsus://'' = id_String ns @ slash # t"
    unfolding v t by (rule TrimPrefix_append)
  moreover have "IndexByte (id_String ns @ slash # t) slash = Some (length (id_String ns))"
    by (rule IndexByte_append) (simp add: id_String_def hex_no_slash)
  moreover have "HasPrefix v ''tarsus://''" unfolding v by (rule HasPrefix_append)
  ultimately show "ParseTarsusURI E v = Inr (ns, p, i)"
    using v(2) q i t by (simp add: ParseTarsusURI_def)
qed

subsection \<open>Policies\<close>

lemma unat_ucast_16_32 [simp]: "unat (ucast a :: u32) = unat a" for a :: u16
  using unsigned_less [of a, where ?'a = nat] by (simp add: unsigned_ucast_eq take_bit_eq_mod)

lemma unat_sum3:
  "unat (ucast a + ucast b + ucast c :: u32) = unat a + unat b + unat c"
  for a b c :: u16
proof -
  have "unat a < 2 ^ 16" "unat b < 2 ^ 16" "unat c < 2 ^ 16"
    using unsigned_less [where ?'a = nat and ?'b = 16] by simp_all
  then show ?thesis
    by (simp add: unat_word_ariths)
qed

text \<open>An accepted policy places exactly its replica count, with no 32-bit overflow in the
  sum, keeps between 1 and 64 versions and between 1 and 32 replicas, and its grace period
  is between zero and thirty days. The default policy is accepted.\<close>

theorem ObjectPolicy_Validate_iff:
  "(ObjectPolicy_Validate p = Inr () \<longleftrightarrow>
      unat (Replicas p) \<in> {1..32}
      \<and> unat (Near (Placement p)) + unat (Middle (Placement p)) + unat (Far (Placement p))
          = unat (Replicas p)
      \<and> Encryption p \<in> {''private'', ''public''}
      \<and> unat (RetainVersions p) \<in> {1..64}
      \<and> CollectionGrace p \<in> {0..2592000000000000})
   \<and> ObjectPolicy_Validate DefaultPolicy = Inr ()"
proof
  have sum: "(ucast (Near (Placement p)) + ucast (Middle (Placement p))
                + ucast (Far (Placement p)) = (ucast (Replicas p) :: u32)) \<longleftrightarrow>
      unat (Near (Placement p)) + unat (Middle (Placement p)) + unat (Far (Placement p))
          = unat (Replicas p)"
    by (simp add: word_unat_eq_iff unat_sum3)
  show "ObjectPolicy_Validate p = Inr () \<longleftrightarrow>
      unat (Replicas p) \<in> {1..32}
      \<and> unat (Near (Placement p)) + unat (Middle (Placement p)) + unat (Far (Placement p))
          = unat (Replicas p)
      \<and> Encryption p \<in> {''private'', ''public''}
      \<and> unat (RetainVersions p) \<in> {1..64}
      \<and> CollectionGrace p \<in> {0..2592000000000000}"
    by (auto simp: ObjectPolicy_Validate_def result_inv sum word_less_nat_alt not_less)
  show "ObjectPolicy_Validate DefaultPolicy = Inr ()"
    by (simp add: ObjectPolicy_Validate_def DefaultPolicy_def)
qed

end
