(* ===== verification/Names_Record.thy ===== *)
theory Names_Record
  imports Names_Types
begin

text \<open>
  \<open>internal/names/codec.go\<close> and \<open>record.go\<close>: canonical decoding, capabilities and name
  records, their signatures and their validation. The lemmas show what an accepted record
  carries: its path is normalized and hashes to its NameID, it extends its predecessor by
  exactly one generation without wrap-around, and its signer is the namespace owner or holds a
  live capability of the owner that covers the path and grants the operation.
\<close>

unbundle bit_operations_syntax

subsection \<open>codec.go\<close>

definition MarshalCanonical :: "'a codec \<Rightarrow> 'a \<Rightarrow> bytes result" where
  "MarshalCanonical C value = cbor_Marshal C value"

definition UnmarshalCanonical :: "'a codec \<Rightarrow> bytes \<Rightarrow> 'a result" where
  "UnmarshalCanonical C data =
     fail_if (length data = 0) (ErrMsg ''empty DAG-CBOR value'')
     (bindR (cbor_Unmarshal C data) (\<lambda>value.
      bindR (cbor_Marshal C value) (\<lambda>reencoded.
      fail_if (reencoded \<noteq> data) (ErrMsg ''record is not canonical DAG-CBOR'')
        (Inr value))))"

definition signingBytes :: "'a codec \<Rightarrow> string \<Rightarrow> 'a \<Rightarrow> bytes result" where
  "signingBytes C domain value = bindR (MarshalCanonical C value) (\<lambda>raw. Inr (domain @ raw))"

subsection \<open>Capabilities\<close>

definition PermissionWrite :: u8 where "PermissionWrite = 1"
definition PermissionDelete :: u8 where "PermissionDelete = 2"
definition PermissionAdmin :: u8 where "PermissionAdmin = 4"

definition allPermissions :: u8 where
  "allPermissions = PermissionWrite OR PermissionDelete OR PermissionAdmin"

definition Capability_unsigned :: "Capability \<Rightarrow> Capability" where
  "Capability_unsigned c = c\<lparr>cap_Signature := []\<rparr>"

definition Capability_Sign :: "names_env \<Rightarrow> bytes \<Rightarrow> Capability \<Rightarrow> Capability result" where
  "Capability_Sign E owner c =
     fail_if (length owner \<noteq> 64) (ErrMsg ''invalid Ed25519 owner private key'')
     (bindR (signingBytes (capC E) CapabilityDomain (Capability_unsigned c)) (\<lambda>payload.
      Inr (c\<lparr>cap_Signature := ed_Sign E owner payload\<rparr>)))"

definition Capability_Validate :: "names_env \<Rightarrow> bytes \<Rightarrow> int \<Rightarrow> Capability \<Rightarrow> unit result" where
  "Capability_Validate E owner now c =
     fail_if (cap_Version c \<noteq> FormatVersion \<or> length (cap_Namespace c) \<noteq> 32
              \<or> length (cap_Delegate c) \<noteq> 32 \<or> length (cap_Nonce c) < 16)
       (ErrMsg ''invalid capability schema'')
     (fail_if (NormalizePath (cap_PathPrefix c) \<noteq> Inr (cap_PathPrefix c))
       (ErrMsg ''invalid capability path prefix'')
     (fail_if (cap_Permissions c = 0 \<or> cap_Permissions c AND NOT allPermissions \<noteq> 0)
       (ErrMsg ''invalid capability permissions'')
     (fail_if (cap_NotBefore c > now \<or> cap_Expires c \<le> now \<or> cap_Expires c \<le> cap_NotBefore c)
       (ErrMsg ''capability is not currently valid'')
     (bindR (signingBytes (capC E) CapabilityDomain (Capability_unsigned c)) (\<lambda>payload.
      fail_if (length (cap_Signature c) \<noteq> 64 \<or> \<not> ed_Verify E owner payload (cap_Signature c))
        (ErrMsg ''invalid capability signature'') (Inr ()))))))"

subsection \<open>Name records\<close>

definition maxDirectoryChildren :: nat where "maxDirectoryChildren = 4096"

definition NameRecord_unsigned :: "NameRecord \<Rightarrow> NameRecord" where
  "NameRecord_unsigned r = r\<lparr>nr_Signature := []\<rparr>"

definition NameRecord_Sign :: "names_env \<Rightarrow> bytes \<Rightarrow> NameRecord \<Rightarrow> NameRecord result" where
  "NameRecord_Sign E privateKey r =
     fail_if (length privateKey \<noteq> 64) (ErrMsg ''invalid Ed25519 private key'')
     (let r1 = r\<lparr>nr_Signer := ed_Public E privateKey\<rparr> in
      bindR (signingBytes (recC E) NameRecordDomain (NameRecord_unsigned r1)) (\<lambda>payload.
      Inr (r1\<lparr>nr_Signature := ed_Sign E privateKey payload\<rparr>)))"

definition RequiredPermission :: "NameRecord \<Rightarrow> NameRecord option \<Rightarrow> u8" where
  "RequiredPermission r previous =
     (if nr_Tombstone r then PermissionDelete
      else case previous of
             Some q \<Rightarrow> if nr_Policy r \<noteq> nr_Policy q then PermissionAdmin else PermissionWrite
           | None \<Rightarrow> PermissionWrite)"

definition NameRecord_Marshal :: "names_env \<Rightarrow> NameRecord \<Rightarrow> bytes result" where
  "NameRecord_Marshal E r = MarshalCanonical (recC E) r"

definition DecodeNameRecord :: "names_env \<Rightarrow> bytes \<Rightarrow> NameRecord result" where
  "DecodeNameRecord E raw = UnmarshalCanonical (recC E) raw"

definition NameRecord_Hash :: "names_env \<Rightarrow> NameRecord \<Rightarrow> bytes result" where
  "NameRecord_Hash E r = bindR (NameRecord_Marshal E r) (\<lambda>raw. Inr (Sum256 E raw))"

definition pathWithinPrefix :: "string \<Rightarrow> string \<Rightarrow> bool" where
  "pathWithinPrefix value prefix \<longleftrightarrow>
     value = prefix \<or> prefix = [slash]
     \<or> HasPrefix value (TrimSuffix prefix [slash] @ [slash])"

text \<open>The loop over \<open>DirectoryChildren\<close>; the accumulator is the entry at \<open>index-1\<close>.\<close>

fun checkChildren :: "bytes \<Rightarrow> bytes option \<Rightarrow> bytes list \<Rightarrow> unit result" where
  "checkChildren nid prev [] = Inr ()"
| "checkChildren nid prev (child # rest) =
     fail_if (length child \<noteq> 32) (ErrMsg ''directory child must be a NameID'')
     (fail_if (child = nid) (ErrMsg ''directory may not contain itself'')
     (fail_if (case prev of None \<Rightarrow> False | Some p \<Rightarrow> p \<ge> child)
        (ErrMsg ''directory child NameIDs must be unique and sorted'')
        (checkChildren nid (Some child) rest)))"

text \<open>The end of \<open>validateRecordEnvelope\<close>, after the signature check: a signer other than the
  owner needs a matching capability.\<close>

definition checkDelegation :: "names_env \<Rightarrow> int \<Rightarrow> NameRecord \<Rightarrow> unit result" where
  "checkDelegation E now r =
     (if nr_Signer r = nr_Owner r then Inr ()
      else case nr_Capability r of
        None \<Rightarrow> Inl (ErrMsg ''signer is neither owner nor matching delegate'')
      | Some c \<Rightarrow>
          fail_if (cap_Namespace c \<noteq> nr_Namespace r \<or> cap_Delegate c \<noteq> nr_Signer r)
            (ErrMsg ''signer is neither owner nor matching delegate'')
          (bindR (Capability_Validate E (nr_Owner r) now c) (\<lambda>_.
           fail_if (\<not> pathWithinPrefix (nr_Path r) (cap_PathPrefix c))
             (ErrMsg ''name path is outside delegated prefix'')
           (fail_if (cap_Permissions c AND allPermissions = 0)
             (ErrMsg ''delegated capability grants no applicable permission'')
             (Inr ())))))"

definition validateRecordEnvelope :: "names_env \<Rightarrow> int \<Rightarrow> NameRecord \<Rightarrow> unit result" where
  "validateRecordEnvelope E now r =
     fail_if (nr_Version r \<noteq> FormatVersion) (ErrMsg ''unsupported name-record version'')
     (fail_if (length (nr_Namespace r) \<noteq> 32 \<or> length (nr_NameID r) \<noteq> 32
               \<or> length (nr_Owner r) \<noteq> 32 \<or> length (nr_Signer r) \<noteq> 32)
       (ErrMsg ''invalid name-record identifier or key length'')
     (fail_if (NormalizePath (nr_Path r) \<noteq> Inr (nr_Path r))
       (ErrMsg ''name-record path is not normalized'')
     (fail_if (DeriveNameID E (nr_Namespace r) (nr_Path r) \<noteq> nr_NameID r)
       (ErrMsg ''name_id does not match namespace and path'')
     (fail_if (nr_Kind r \<noteq> ''file'' \<and> nr_Kind r \<noteq> ''directory'')
       (ErrMsg ''kind must be file or directory'')
     (fail_if (nr_Tombstone r \<and>
               (length (nr_ManifestKey r) \<noteq> 0 \<or> length (nr_DirectoryChildren r) \<noteq> 0))
       (ErrMsg ''tombstone may not reference content'')
     (fail_if (\<not> nr_Tombstone r \<and> nr_Kind r = ''file'' \<and> length (nr_ManifestKey r) \<noteq> 32)
       (ErrMsg ''live file requires a 32-byte manifest key'')
     (fail_if (\<not> nr_Tombstone r \<and> nr_Kind r = ''directory'' \<and> length (nr_ManifestKey r) \<noteq> 0)
       (ErrMsg ''directory membership is stored as child NameIDs'')
     (fail_if (nr_Kind r \<noteq> ''directory'' \<and> length (nr_DirectoryChildren r) \<noteq> 0)
       (ErrMsg ''only directories may list child NameIDs'')
     (fail_if (length (nr_DirectoryChildren r) > maxDirectoryChildren)
       (ErrMsg ''directory exceeds 4096 direct children'')
     (bindR (checkChildren (nr_NameID r) None (nr_DirectoryChildren r)) (\<lambda>_.
      bindR (wrapR ''policy'' (ObjectPolicy_Validate (nr_Policy r))) (\<lambda>_.
      fail_if (length (nr_Nonce r) < 16 \<or> nr_Timestamp r \<le> 0
               \<or> nr_Timestamp r > now + 600000000000)
        (ErrMsg ''invalid timestamp or nonce'')
     (fail_if (nr_Generation r = 0 \<and> length (nr_PreviousHash r) \<noteq> 0)
        (ErrMsg ''generation zero must not have a predecessor'')
     (fail_if (nr_Generation r > 0 \<and> length (nr_PreviousHash r) \<noteq> 32)
        (ErrMsg ''later generation requires a predecessor hash'')
     (bindR (signingBytes (recC E) NameRecordDomain (NameRecord_unsigned r)) (\<lambda>payload.
      fail_if (length (nr_Signature r) \<noteq> 64
               \<or> \<not> ed_Verify E (nr_Signer r) payload (nr_Signature r))
        (ErrMsg ''invalid name-record signature'')
      (checkDelegation E now r)))))))))))))))))"

definition ValidateEnvelope :: "names_env \<Rightarrow> int \<Rightarrow> NameRecord \<Rightarrow> unit result" where
  "ValidateEnvelope E now r = validateRecordEnvelope E now r"

text \<open>
  \<open>(*NameRecord).Validate\<close>. The last check dereferences \<open>r.Capability\<close>; the envelope
  validation before it has refused a foreign signer without one, so that the nil branch below
  is never taken (\<open>Validate_no_nil\<close>).
\<close>

definition NameRecord_Validate ::
  "names_env \<Rightarrow> int \<Rightarrow> NameRecord \<Rightarrow> NameRecord option \<Rightarrow> unit result" where
  "NameRecord_Validate E now r previous =
     bindR (validateRecordEnvelope E now r) (\<lambda>_.
     bindR
       (case previous of
          None \<Rightarrow>
            fail_if (nr_Generation r \<noteq> 0 \<or> length (nr_PreviousHash r) \<noteq> 0)
              (ErrMsg ''generation zero must not have a predecessor'') (Inr ())
        | Some q \<Rightarrow>
            fail_if (nr_Generation r \<noteq> nr_Generation q + 1 \<or> length (nr_PreviousHash r) \<noteq> 32)
              (ErrMsg ''generation must increment once and name a predecessor'')
            (fail_if (NameRecord_Hash E q \<noteq> Inr (nr_PreviousHash r))
              (ErrMsg ''previous record hash mismatch'')
            (fail_if (nr_Namespace q \<noteq> nr_Namespace r \<or> nr_NameID q \<noteq> nr_NameID r
                      \<or> nr_Path q \<noteq> nr_Path r \<or> nr_Owner q \<noteq> nr_Owner r)
              (ErrMsg ''immutable name identity fields changed'') (Inr ()))))
       (\<lambda>_.
        if nr_Signer r = nr_Owner r then Inr ()
        else case nr_Capability r of
               None \<Rightarrow> Inl (ErrMsg ''nil capability dereference'')
             | Some c \<Rightarrow>
                 fail_if (cap_Permissions c AND RequiredPermission r previous
                          \<noteq> RequiredPermission r previous)
                   (ErrMsg ''delegated capability lacks required permission'') (Inr ())))"

definition bytesToNameID :: "bytes \<Rightarrow> bytes" where
  "bytesToNameID value = take 32 (value @ replicate 32 (CHR 0x00))"

subsection \<open>Canonical decoding\<close>

lemma UnmarshalCanonical_marshal [dest]:
  "UnmarshalCanonical C d = Inr v \<Longrightarrow> cbor_Marshal C v = Inr d"
  by (auto simp: UnmarshalCanonical_def result_inv)

lemma DecodeNameRecord_marshal [dest]:
  "DecodeNameRecord E raw = Inr r \<Longrightarrow> cbor_Marshal (recC E) r = Inr raw"
  by (auto simp: DecodeNameRecord_def)

lemma DecodeNameRecord_Hash:
  "DecodeNameRecord E raw = Inr r \<Longrightarrow> NameRecord_Hash E r = Inr (Sum256 E raw)"
  by (auto simp: NameRecord_Hash_def NameRecord_Marshal_def MarshalCanonical_def
        dest!: DecodeNameRecord_marshal)

lemma bytesToNameID_id [simp]: "length b = 32 \<Longrightarrow> bytesToNameID b = b"
  by (simp add: bytesToNameID_def)

text \<open>Canonical decoding is injective: two byte strings accepted as the same value are the
  same bytes, whatever the CBOR library does. A signed record therefore has exactly one wire
  form, and comparing raw records is comparing records.\<close>

theorem UnmarshalCanonical_injective:
  assumes "UnmarshalCanonical C a = Inr v" and "UnmarshalCanonical C b = Inr v"
  shows "a = b"
proof -
  from assms have "cbor_Marshal C v = Inr a" "cbor_Marshal C v = Inr b" by blast+
  then show ?thesis by simp
qed

subsection \<open>Delegated prefixes\<close>

lemma last_path_of:
  assumes "ps \<noteq> []" "\<forall>w\<in>set ps. good_component w"
  shows "\<not> HasSuffix (path_of ps) [slash]"
proof -
  have "last (Join slash ps) \<noteq> slash \<and> Join slash ps \<noteq> []"
    using assms
    by (induction slash ps rule: Join.induct)
      (auto simp: good_component_def plain_component_def dest: last_in_set split: if_splits)
  then show ?thesis
    by (auto simp: HasSuffix_iff path_of_def) (metis last.simps last_snoc)
qed

lemma pathWithinPrefix_path_of:
  assumes vs: "\<forall>w\<in>set vs. good_component w" and ps: "\<forall>w\<in>set ps. good_component w"
  shows "pathWithinPrefix (path_of vs) (path_of ps) \<longleftrightarrow> (\<exists>rest. vs = ps @ rest)"
proof (cases "ps = []")
  case True
  then show ?thesis by (simp add: pathWithinPrefix_def path_of_def)
next
  case False
  have free: "\<forall>w\<in>set vs. slash \<notin> set w" "\<forall>w\<in>set ps. slash \<notin> set w"
    using vs ps by (auto simp: good_component_def)
  have root: "path_of ps \<noteq> [slash]"
    using last_path_of [OF False ps] by (auto simp: HasSuffix_iff)
  have trim: "TrimSuffix (path_of ps) [slash] = path_of ps"
    using last_path_of [OF False ps] by (simp add: TrimSuffix_def)
  have "HasPrefix (path_of vs) (path_of ps @ [slash]) \<longleftrightarrow> (\<exists>rest. rest \<noteq> [] \<and> vs = ps @ rest)"
  proof
    assume "HasPrefix (path_of vs) (path_of ps @ [slash])"
    then obtain t where t: "Join slash vs = Join slash ps @ slash # t"
      by (auto simp: HasPrefix_iff path_of_def)
    then have "vs \<noteq> []" by auto
    then have "vs = Split slash (Join slash vs)" using free by (simp add: Split_Join)
    also have "\<dots> = ps @ Split slash t" using t False free by (simp add: Split_Join_append)
    finally show "\<exists>rest. rest \<noteq> [] \<and> vs = ps @ rest" by auto
  next
    assume "\<exists>rest. rest \<noteq> [] \<and> vs = ps @ rest"
    then obtain rest where "rest \<noteq> []" "vs = ps @ rest" by blast
    with False show "HasPrefix (path_of vs) (path_of ps @ [slash])"
      by (auto simp: HasPrefix_iff path_of_def Join_append)
  qed
  moreover have "path_of vs = path_of ps \<longleftrightarrow> vs = ps"
    using path_of_inj vs ps by blast
  ultimately show ?thesis
    using root trim by (auto simp: pathWithinPrefix_def)
qed

lemma pathWithinPrefix_refl [simp]: "pathWithinPrefix p p"
  by (simp add: pathWithinPrefix_def)

lemma clean_components_path_of:
  "\<forall>w\<in>set ws. good_component w \<Longrightarrow> clean_components (path_of ws) = ws"
  unfolding path_of_def by (intro clean_components_Join) (auto simp: good_component_def)

text \<open>A delegated prefix is a subtree: for normalized paths, \<open>pathWithinPrefix\<close> holds exactly
  when the components of the prefix are the first components of the path. In particular
  \<open>/a/bc\<close> is not within \<open>/a/b\<close>, although it has it as a string prefix.\<close>

theorem pathWithinPrefix_components:
  assumes "normalized v" and "normalized p"
  shows "pathWithinPrefix v p \<longleftrightarrow> (\<exists>rest. clean_components v = clean_components p @ rest)"
proof -
  obtain vs ps where "v = path_of vs" "\<forall>w\<in>set vs. good_component w"
    and "p = path_of ps" "\<forall>w\<in>set ps. good_component w"
    using assms by (metis normalizedE)
  then show ?thesis by (simp add: pathWithinPrefix_path_of clean_components_path_of)
qed

theorem pathWithinPrefix_components_witness:
  "\<not> pathWithinPrefix ''/a/bc'' ''/a/b''
   \<and> \<not> (\<exists>rest. clean_components ''/a/bc'' = clean_components ''/a/b'' @ rest)"
proof -
  have n: "normalized ''/a/bc''" "normalized ''/a/b''"
    by (simp_all add: normalized_def NormalizePath_def HasPrefix_def path_Clean_def
          clean_components_def maxPathBytes_def)
  have "\<not> pathWithinPrefix ''/a/bc'' ''/a/b''"
    by (simp add: pathWithinPrefix_def HasPrefix_def TrimSuffix_def HasSuffix_def)
  with pathWithinPrefix_components [OF n] show ?thesis by simp
qed

subsection \<open>What validation establishes\<close>

lemma checkChildren_ok:
  assumes "checkChildren nid prev cs = Inr ()"
  shows "sorted_wrt (<) cs" "\<forall>c\<in>set cs. length c = 32 \<and> c \<noteq> nid"
    "\<And>p c. prev = Some p \<Longrightarrow> c \<in> set cs \<Longrightarrow> p < c"
proof -
  have "sorted_wrt (<) cs \<and> (\<forall>c\<in>set cs. length c = 32 \<and> c \<noteq> nid)
        \<and> (\<forall>p. prev = Some p \<longrightarrow> (\<forall>c\<in>set cs. p < c))"
    using assms
  proof (induction cs arbitrary: prev)
    case (Cons c cs)
    then have tail: "checkChildren nid (Some c) cs = Inr ()"
      and c: "length c = 32" "c \<noteq> nid" "\<And>p. prev = Some p \<Longrightarrow> p < c"
      by (auto simp: result_inv not_le split: option.splits)
    from Cons.IH [OF tail] c show ?case by (auto intro: less_trans)
  qed simp
  then show "sorted_wrt (<) cs" "\<forall>c\<in>set cs. length c = 32 \<and> c \<noteq> nid"
    "\<And>p c. prev = Some p \<Longrightarrow> c \<in> set cs \<Longrightarrow> p < c" by auto
qed

text \<open>Who may sign: the owner, or a delegate whose capability the owner signed, that is live
  now and whose prefix covers the path.\<close>

definition authorized :: "names_env \<Rightarrow> int \<Rightarrow> NameRecord \<Rightarrow> bool" where
  "authorized E now r \<longleftrightarrow>
     nr_Signer r = nr_Owner r
     \<or> (\<exists>c. nr_Capability r = Some c \<and> cap_Namespace c = nr_Namespace r
          \<and> cap_Delegate c = nr_Signer r \<and> Capability_Validate E (nr_Owner r) now c = Inr ()
          \<and> pathWithinPrefix (nr_Path r) (cap_PathPrefix c))"

lemma checkDelegation_ok: "checkDelegation E now r = Inr () \<Longrightarrow> authorized E now r"
  by (auto simp: checkDelegation_def authorized_def result_inv split: option.splits if_splits)

lemma envelope_inv:
  "validateRecordEnvelope E now r = Inr () \<Longrightarrow>
     length (nr_Namespace r) = 32 \<and> length (nr_NameID r) = 32 \<and> length (nr_Owner r) = 32
     \<and> length (nr_Signer r) = 32 \<and> normalized (nr_Path r)
     \<and> DeriveNameID E (nr_Namespace r) (nr_Path r) = nr_NameID r
     \<and> (nr_Tombstone r \<longrightarrow> nr_ManifestKey r = [] \<and> nr_DirectoryChildren r = [])
     \<and> checkChildren (nr_NameID r) None (nr_DirectoryChildren r) = Inr ()
     \<and> ObjectPolicy_Validate (nr_Policy r) = Inr ()
     \<and> (nr_Generation r = 0 \<longrightarrow> nr_PreviousHash r = [])
     \<and> (nr_Generation r > 0 \<longrightarrow> length (nr_PreviousHash r) = 32)
     \<and> (\<exists>payload. signingBytes (recC E) NameRecordDomain (NameRecord_unsigned r) = Inr payload
          \<and> ed_Verify E (nr_Signer r) payload (nr_Signature r))
     \<and> checkDelegation E now r = Inr ()"
  unfolding validateRecordEnvelope_def result_inv normalized_def
  by (elim conjE exE, intro conjI) simp_all

lemma envelope_ok:
  assumes "validateRecordEnvelope E now r = Inr ()"
  shows envelope_lengths: "length (nr_Namespace r) = 32" "length (nr_NameID r) = 32"
      "length (nr_Owner r) = 32" "length (nr_Signer r) = 32"
    and envelope_path: "normalized (nr_Path r)"
    and envelope_id: "nr_NameID r = DeriveNameID E (nr_Namespace r) (nr_Path r)"
    and envelope_content: "nr_Tombstone r \<Longrightarrow> nr_ManifestKey r = [] \<and> nr_DirectoryChildren r = []"
    and envelope_children: "checkChildren (nr_NameID r) None (nr_DirectoryChildren r) = Inr ()"
    and envelope_policy: "ObjectPolicy_Validate (nr_Policy r) = Inr ()"
    and envelope_generation: "nr_Generation r = 0 \<Longrightarrow> nr_PreviousHash r = []"
      "nr_Generation r \<noteq> 0 \<Longrightarrow> length (nr_PreviousHash r) = 32"
    and envelope_signature:
      "\<exists>payload. signingBytes (recC E) NameRecordDomain (NameRecord_unsigned r) = Inr payload
        \<and> ed_Verify E (nr_Signer r) payload (nr_Signature r)"
    and envelope_authorized: "authorized E now r"
  using envelope_inv [OF assms] by (simp_all add: word_neq_0_conv checkDelegation_ok)

lemma Validate_no_nil:
  "validateRecordEnvelope E now r = Inr () \<Longrightarrow> nr_Signer r \<noteq> nr_Owner r \<Longrightarrow> nr_Capability r \<noteq> None"
  using envelope_authorized [of E now r] by (auto simp: authorized_def)

lemma Validate_envelope:
  "NameRecord_Validate E now r prev = Inr () \<Longrightarrow> validateRecordEnvelope E now r = Inr ()"
  by (auto simp: NameRecord_Validate_def result_inv)

lemma Validate_None_generation:
  "NameRecord_Validate E now r None = Inr () \<Longrightarrow> nr_Generation r = 0 \<and> nr_PreviousHash r = []"
  by (auto simp: NameRecord_Validate_def result_inv)

lemma Validate_Some:
  assumes "NameRecord_Validate E now r (Some q) = Inr ()"
  shows "nr_Generation r = nr_Generation q + 1" "NameRecord_Hash E q = Inr (nr_PreviousHash r)"
    "length (nr_PreviousHash r) = 32"
    "nr_Namespace r = nr_Namespace q" "nr_NameID r = nr_NameID q" "nr_Path r = nr_Path q"
    "nr_Owner r = nr_Owner q"
  using assms by (auto simp: NameRecord_Validate_def result_inv)

text \<open>The generation cannot wrap: the successor of the largest generation would be generation
  zero, which must not name a predecessor.\<close>

lemma Validate_Some_no_wrap:
  assumes "NameRecord_Validate E now r (Some q) = Inr ()"
  shows "unat (nr_Generation r) = unat (nr_Generation q) + 1"
proof -
  have "nr_Generation r \<noteq> 0"
    using envelope_generation(1) [OF Validate_envelope [OF assms]] Validate_Some(3) [OF assms]
    by auto
  then show ?thesis
    using Validate_Some(1) [OF assms] by (simp add: add.commute unatSuc)
qed

text \<open>An accepted successor extends its predecessor. A record that validates against a
  predecessor has the next generation, without wrap-around at the top of the 64-bit range, names
  the predecessor's hash, keeps namespace, name, path and owner, carries a signature of its
  signer over its own bytes, and its signer is the owner or a delegate whose capability the owner
  signed, is live, covers the path and grants every permission the change requires.\<close>

theorem NameRecord_Validate_successor:
  assumes "NameRecord_Validate E now r (Some q) = Inr ()"
  shows "unat (nr_Generation r) = unat (nr_Generation q) + 1
    \<and> NameRecord_Hash E q = Inr (nr_PreviousHash r)
    \<and> (nr_Namespace r, nr_NameID r, nr_Path r, nr_Owner r)
        = (nr_Namespace q, nr_NameID q, nr_Path q, nr_Owner q)
    \<and> nr_NameID r = DeriveNameID E (nr_Namespace r) (nr_Path r)
    \<and> (\<exists>payload. signingBytes (recC E) NameRecordDomain (NameRecord_unsigned r) = Inr payload
         \<and> ed_Verify E (nr_Signer r) payload (nr_Signature r))
    \<and> (nr_Signer r = nr_Owner q
       \<or> (\<exists>c. nr_Capability r = Some c \<and> cap_Delegate c = nr_Signer r
            \<and> Capability_Validate E (nr_Owner q) now c = Inr ()
            \<and> pathWithinPrefix (nr_Path r) (cap_PathPrefix c)
            \<and> cap_Permissions c AND RequiredPermission r (Some q) = RequiredPermission r (Some q)))"
proof -
  note env = Validate_envelope [OF assms]
  have "nr_Signer r = nr_Owner r
      \<or> (\<exists>c. nr_Capability r = Some c
          \<and> cap_Permissions c AND RequiredPermission r (Some q) = RequiredPermission r (Some q))"
    using assms by (auto simp: NameRecord_Validate_def result_inv split: if_splits option.splits)
  with envelope_authorized [OF env] Validate_Some(7) [OF assms] have
    "nr_Signer r = nr_Owner q
       \<or> (\<exists>c. nr_Capability r = Some c \<and> cap_Delegate c = nr_Signer r
            \<and> Capability_Validate E (nr_Owner q) now c = Inr ()
            \<and> pathWithinPrefix (nr_Path r) (cap_PathPrefix c)
            \<and> cap_Permissions c AND RequiredPermission r (Some q) = RequiredPermission r (Some q))"
    by (auto simp: authorized_def)
  with Validate_Some_no_wrap [OF assms] Validate_Some(2,4-7) [OF assms] envelope_id [OF env]
    envelope_signature [OF env]
  show ?thesis by simp
qed

end
