(* ===== verification/Names_Validator.thy ===== *)
theory Names_Validator
  imports Names_Record
begin

text \<open>
  \<open>internal/names/validator.go\<close>: the DHT validators of name records, provider claims and
  leases. A validator accepts a value at a key when the record is self-contained and the key
  is the one derived from it, and \<open>Select\<close> chooses among several values. The lemmas show
  that a selected record is valid and maximal, that equal-generation forks of the selected
  record are refused, and that an accepted lease is bounded and authorized.
\<close>

subsection \<open>NameValidator\<close>

definition NameValidator_Validate ::
  "names_env \<Rightarrow> int \<Rightarrow> string \<Rightarrow> bytes \<Rightarrow> unit result" where
  "NameValidator_Validate E now key value =
     bindR (DecodeNameRecord E value) (\<lambda>record.
     bindR (validateRecordEnvelope E now record) (\<lambda>_.
     fail_if (key \<noteq> DHTNameKey (bytesToNameID (nr_NameID record)))
       (ErrMsg ''DHT name key does not match derived NameID'') (Inr ())))"

text \<open>The loop of \<open>Select\<close>: position, the selected index with its record and raw bytes.\<close>

fun name_select_loop ::
  "names_env \<Rightarrow> int \<Rightarrow> string \<Rightarrow> nat \<Rightarrow> (nat \<times> NameRecord \<times> bytes) option \<Rightarrow> bytes list \<Rightarrow>
   (nat \<times> NameRecord \<times> bytes) option result" where
  "name_select_loop E now key i sel [] = Inr sel"
| "name_select_loop E now key i sel (raw # rest) =
     (if \<not> is_ok (NameValidator_Validate E now key raw)
      then name_select_loop E now key (Suc i) sel rest
      else case DecodeNameRecord E raw of
        Inl e \<Rightarrow> Inl e
      | Inr candidate \<Rightarrow>
          (case sel of
             None \<Rightarrow> name_select_loop E now key (Suc i) (Some (i, candidate, raw)) rest
           | Some (j, current, currentRaw) \<Rightarrow>
               if nr_Generation candidate > nr_Generation current
               then name_select_loop E now key (Suc i) (Some (i, candidate, raw)) rest
               else if nr_Generation candidate = nr_Generation current \<and> raw \<noteq> currentRaw
               then Inl (ErrMsg ''equal-generation name-record fork'')
               else name_select_loop E now key (Suc i) sel rest))"

definition NameValidator_Select ::
  "names_env \<Rightarrow> int \<Rightarrow> string \<Rightarrow> bytes list \<Rightarrow> nat result" where
  "NameValidator_Select E now key values =
     bindR (name_select_loop E now key 0 None values) (\<lambda>sel.
     case sel of None \<Rightarrow> Inl RoutingNotFound | Some (i, _, _) \<Rightarrow> Inr i)"

subsection \<open>Provider claims\<close>

definition ProviderClaim_unsigned :: "ProviderClaim \<Rightarrow> ProviderClaim" where
  "ProviderClaim_unsigned c = c\<lparr>pc_Signature := []\<rparr>"

definition ProviderClaim_Sign :: "names_env \<Rightarrow> bytes \<Rightarrow> ProviderClaim \<Rightarrow> ProviderClaim result" where
  "ProviderClaim_Sign E key c =
     fail_if (length key \<noteq> 64) (ErrMsg ''invalid provider private key'')
     (let c1 = c\<lparr>pc_Provider := ed_Public E key\<rparr> in
      bindR (signingBytes (claimC E) ProviderClaimDomain (ProviderClaim_unsigned c1)) (\<lambda>payload.
      Inr (c1\<lparr>pc_Signature := ed_Sign E key payload\<rparr>)))"

definition ProviderClaim_Validate :: "names_env \<Rightarrow> int \<Rightarrow> ProviderClaim \<Rightarrow> unit result" where
  "ProviderClaim_Validate E now c =
     fail_if (pc_Version c \<noteq> FormatVersion \<or> length (pc_ContentKey c) \<noteq> 32
              \<or> length (pc_Provider c) \<noteq> 32 \<or> blank (pc_Address c) \<or> length (pc_Nonce c) < 16)
       (ErrMsg ''invalid provider-claim schema'')
     (fail_if (pc_Timestamp c \<le> 0 \<or> pc_Expires c \<le> now \<or> pc_Expires c \<le> pc_Timestamp c)
       (ErrMsg ''provider claim is expired or has invalid times'')
     (bindR (signingBytes (claimC E) ProviderClaimDomain (ProviderClaim_unsigned c)) (\<lambda>payload.
      fail_if (length (pc_Signature c) \<noteq> 64
               \<or> \<not> ed_Verify E (pc_Provider c) payload (pc_Signature c))
        (ErrMsg ''invalid provider-claim signature'') (Inr ()))))"

definition ProviderClaimValidator_Validate ::
  "names_env \<Rightarrow> int \<Rightarrow> string \<Rightarrow> bytes \<Rightarrow> unit result" where
  "ProviderClaimValidator_Validate E now key value =
     bindR (UnmarshalCanonical (claimC E) value) (\<lambda>claim.
     bindR (ProviderClaim_Validate E now claim) (\<lambda>_.
     let want = ''/providers/'' @ hex_EncodeToString (pc_ContentKey claim) @ ''/''
                @ hex_EncodeToString (pc_Provider claim) in
     fail_if (key \<noteq> want) (ErrMsg ''provider DHT key does not match claim'') (Inr ())))"

text \<open>The value the loop of \<open>Select\<close> ranks a claim by: its timestamp, if it validates.\<close>

definition claim_rank :: "names_env \<Rightarrow> int \<Rightarrow> string \<Rightarrow> bytes \<Rightarrow> int option" where
  "claim_rank E now key raw =
     (if \<not> is_ok (ProviderClaimValidator_Validate E now key raw) then None
      else map_option pc_Timestamp (result_or_nil (UnmarshalCanonical (claimC E) raw)))"

definition ProviderClaimValidator_Select ::
  "names_env \<Rightarrow> int \<Rightarrow> string \<Rightarrow> bytes list \<Rightarrow> nat result" where
  "ProviderClaimValidator_Select E now key values =
     (case select_best (claim_rank E now key) (\<lambda>t newest. t > newest) 0 None values of
        None \<Rightarrow> Inl RoutingNotFound | Some (i, _) \<Rightarrow> Inr i)"

subsection \<open>Leases\<close>

definition LeaseRecord_unsigned :: "LeaseRecord \<Rightarrow> LeaseRecord" where
  "LeaseRecord_unsigned l = l\<lparr>lr_Signature := []\<rparr>"

definition LeaseRecord_Sign :: "names_env \<Rightarrow> bytes \<Rightarrow> LeaseRecord \<Rightarrow> LeaseRecord result" where
  "LeaseRecord_Sign E key l =
     fail_if (length key \<noteq> 64) (ErrMsg ''invalid lease private key'')
     (bindR (signingBytes (leaseC E) LeaseDomain (LeaseRecord_unsigned l)) (\<lambda>payload.
      Inr (l\<lparr>lr_Signature := ed_Sign E key payload\<rparr>)))"

definition exact_scope :: "LeaseScope \<Rightarrow> bool" where
  "exact_scope s \<longleftrightarrow> length (sc_NameID s) = 32 \<and> length (sc_Namespace s) = 0 \<and> sc_PathPrefix s = []"

definition subtree_scope :: "LeaseScope \<Rightarrow> bool" where
  "subtree_scope s \<longleftrightarrow> length (sc_NameID s) = 0 \<and> length (sc_Namespace s) = 32 \<and> sc_PathPrefix s \<noteq> []"

definition checkLeaseHolder :: "names_env \<Rightarrow> int \<Rightarrow> LeaseRecord \<Rightarrow> unit result" where
  "checkLeaseHolder E now l =
     (if lr_Holder l = lr_Owner l then Inr ()
      else case lr_Capability l of
        None \<Rightarrow> Inl (ErrMsg ''lease holder is unauthorized'')
      | Some c \<Rightarrow>
          fail_if (cap_Delegate c \<noteq> lr_Holder l \<or> cap_Permissions c AND PermissionWrite = 0)
            (ErrMsg ''lease holder is unauthorized'')
          (bindR (Capability_Validate E (lr_Owner l) now c) (\<lambda>_.
           fail_if (subtree_scope (lr_Scope l) \<and>
                    (cap_Namespace c \<noteq> sc_Namespace (lr_Scope l)
                     \<or> \<not> pathWithinPrefix (sc_PathPrefix (lr_Scope l)) (cap_PathPrefix c)))
             (ErrMsg ''capability does not authorize lease subtree'') (Inr ()))))"

definition LeaseRecord_Validate :: "names_env \<Rightarrow> int \<Rightarrow> LeaseRecord \<Rightarrow> unit result" where
  "LeaseRecord_Validate E now l =
     fail_if (lr_Version l \<noteq> FormatVersion \<or> length (lr_Owner l) \<noteq> 32 \<or> length (lr_Holder l) \<noteq> 32
              \<or> lr_Fencing l = 0 \<or> length (lr_Nonce l) < 16)
       (ErrMsg ''invalid lease schema'')
     (fail_if (exact_scope (lr_Scope l) = subtree_scope (lr_Scope l))
       (ErrMsg ''lease must have exactly one exact-name or subtree scope'')
     (fail_if (subtree_scope (lr_Scope l) \<and>
               NormalizePath (sc_PathPrefix (lr_Scope l)) \<noteq> Inr (sc_PathPrefix (lr_Scope l)))
       (ErrMsg ''invalid subtree scope'')
     (fail_if (lr_Issued l \<le> 0 \<or> lr_Expires l \<le> now \<or> lr_Expires l \<le> lr_Issued l
               \<or> lr_Expires l - lr_Issued l > 300000000000)
       (ErrMsg ''lease is expired or exceeds five-minute bound'')
     (bindR (checkLeaseHolder E now l) (\<lambda>_.
      bindR (signingBytes (leaseC E) LeaseDomain (LeaseRecord_unsigned l)) (\<lambda>payload.
      fail_if (length (lr_Signature l) \<noteq> 64
               \<or> \<not> ed_Verify E (lr_Holder l) payload (lr_Signature l))
        (ErrMsg ''invalid lease signature'') (Inr ())))))))"

definition LeaseKey :: "LeaseScope \<Rightarrow> string result" where
  "LeaseKey scope =
     (if length (sc_NameID scope) = 32
      then Inr (''/leases/name/'' @ hex_EncodeToString (sc_NameID scope))
      else if length (sc_Namespace scope) = 32 \<and> sc_PathPrefix scope \<noteq> []
      then Inr (''/leases/subtree/'' @ hex_EncodeToString (sc_Namespace scope) @ ''/''
                @ hex_EncodeToString (sc_PathPrefix scope))
      else Inl (ErrMsg ''invalid lease scope''))"

definition LeaseValidator_Validate ::
  "names_env \<Rightarrow> int \<Rightarrow> string \<Rightarrow> bytes \<Rightarrow> unit result" where
  "LeaseValidator_Validate E now key value =
     bindR (UnmarshalCanonical (leaseC E) value) (\<lambda>lease.
     bindR (LeaseRecord_Validate E now lease) (\<lambda>_.
     fail_if (key \<noteq> (case LeaseKey (lr_Scope lease) of Inl _ \<Rightarrow> [] | Inr want \<Rightarrow> want))
       (ErrMsg ''lease DHT key does not match scope'') (Inr ())))"

definition lease_rank :: "names_env \<Rightarrow> int \<Rightarrow> string \<Rightarrow> bytes \<Rightarrow> (u64 \<times> int) option" where
  "lease_rank E now key raw =
     (if \<not> is_ok (LeaseValidator_Validate E now key raw) then None
      else map_option (\<lambda>l. (lr_Fencing l, lr_Issued l))
             (result_or_nil (UnmarshalCanonical (leaseC E) raw)))"

definition lease_better :: "u64 \<times> int \<Rightarrow> u64 \<times> int \<Rightarrow> bool" where
  "lease_better a b \<longleftrightarrow> fst a > fst b \<or> fst a = fst b \<and> snd a > snd b"

definition LeaseValidator_Select ::
  "names_env \<Rightarrow> int \<Rightarrow> string \<Rightarrow> bytes list \<Rightarrow> nat result" where
  "LeaseValidator_Select E now key values =
     (case select_best (lease_rank E now key) lease_better 0 None values of
        None \<Rightarrow> Inl RoutingNotFound | Some (i, _) \<Rightarrow> Inr i)"

interpretation claim_sel: selector "\<lambda>t newest :: int. t > newest"
  by unfold_locales auto

interpretation lease_sel: selector lease_better
  by unfold_locales (auto simp: lease_better_def)

subsection \<open>Selecting name records\<close>

text \<open>One step of the loop on a value that validates.\<close>

definition outranked :: "NameRecord \<Rightarrow> bytes \<Rightarrow> NameRecord \<Rightarrow> bytes \<Rightarrow> bool" where
  "outranked q v r raw \<longleftrightarrow>
     nr_Generation q < nr_Generation r \<or> nr_Generation q = nr_Generation r \<and> v = raw"

lemma outranked_refl [simp]: "outranked r raw r raw"
  by (simp add: outranked_def)

lemma outranked_trans: "outranked a x b y \<Longrightarrow> outranked b y c z \<Longrightarrow> outranked a x c z"
  by (auto simp: outranked_def)

definition name_valid :: "names_env \<Rightarrow> int \<Rightarrow> string \<Rightarrow> bytes \<Rightarrow> NameRecord \<Rightarrow> bool" where
  "name_valid E now key v q \<longleftrightarrow>
     NameValidator_Validate E now key v = Inr () \<and> DecodeNameRecord E v = Inr q"

lemma name_valid_iff:
  "is_ok (NameValidator_Validate E now key v) \<longleftrightarrow> (\<exists>q. name_valid E now key v q)"
  by (auto simp: name_valid_def NameValidator_Validate_def is_ok_iff result_inv)

lemma name_select_step:
  assumes v: "name_valid E now key v c" and l: "name_select_loop E now key i sel (v # vs) = Inr sel'"
  obtains sel1 j r raw where "name_select_loop E now key (Suc i) (Some sel1) vs = Inr sel'"
    "sel1 = (j, r, raw)" "outranked c v r raw"
    "sel1 = (i, c, v) \<or> sel = Some sel1"
    "\<And>j0 r0 raw0. sel = Some (j0, r0, raw0) \<Longrightarrow> outranked r0 raw0 r raw"
proof -
  have ok: "is_ok (NameValidator_Validate E now key v)" "DecodeNameRecord E v = Inr c"
    using v by (auto simp: name_valid_def)
  show thesis
  proof (cases "case sel of None \<Rightarrow> True | Some (_, cur, _) \<Rightarrow> nr_Generation cur < nr_Generation c")
    case True
    with l ok have "name_select_loop E now key (Suc i) (Some (i, c, v)) vs = Inr sel'"
      by (auto split: option.splits)
    with True show thesis by (intro that) (auto simp: outranked_def)
  next
    case False
    then obtain j cur raw where s: "sel = Some (j, cur, raw)"
      "\<not> nr_Generation cur < nr_Generation c" by (auto split: option.splits)
    with l ok have "name_select_loop E now key (Suc i) (Some (j, cur, raw)) vs = Inr sel'"
      "nr_Generation c = nr_Generation cur \<longrightarrow> v = raw" by (auto split: if_splits)
    with s show thesis by (intro that) (auto simp: outranked_def not_less)
  qed
qed

lemma name_select_loop_None:
  "name_select_loop E now key i sel vs = Inr None \<Longrightarrow>
     sel = None \<and> (\<forall>v\<in>set vs. \<not> is_ok (NameValidator_Validate E now key v))"
proof (induction vs arbitrary: i sel)
  case (Cons v vs)
  show ?case
  proof (cases "is_ok (NameValidator_Validate E now key v)")
    case True
    then obtain c where c: "name_valid E now key v c" by (auto simp: name_valid_iff)
    obtain sel1 where "name_select_loop E now key (Suc i) (Some sel1) vs = Inr None"
      by (rule name_select_step [OF c Cons.prems])
    from Cons.IH [OF this] show ?thesis by simp
  next
    case False
    with Cons show ?thesis by simp
  qed
qed simp

lemma name_select_loop_Some:
  assumes "name_select_loop E now key i sel vs = Inr (Some (j, r, raw))"
  shows "(sel = Some (j, r, raw) \<or> at_pos i vs j raw \<and> name_valid E now key raw r)
    \<and> (\<forall>v\<in>set vs. \<forall>q. name_valid E now key v q \<longrightarrow> outranked q v r raw)
    \<and> (\<forall>j0 r0 raw0. sel = Some (j0, r0, raw0) \<longrightarrow> outranked r0 raw0 r raw)"
  using assms
proof (induction vs arbitrary: i sel)
  case (Cons v vs)
  show ?case
  proof (cases "is_ok (NameValidator_Validate E now key v)")
    case True
    then obtain c where c: "name_valid E now key v c" by (auto simp: name_valid_iff)
    obtain j1 r1 raw1 where step: "name_select_loop E now key (Suc i) (Some (j1, r1, raw1)) vs
        = Inr (Some (j, r, raw))" and cv: "outranked c v r1 raw1"
      and sel1: "(j1, r1, raw1) = (i, c, v) \<or> sel = Some (j1, r1, raw1)"
      and old: "\<And>j0 r0 raw0. sel = Some (j0, r0, raw0) \<Longrightarrow> outranked r0 raw0 r1 raw1"
      by (rule name_select_step [OF c Cons.prems]) blast
    note IH = Cons.IH [OF step]
    then have o: "outranked r1 raw1 r raw" by blast
    have "outranked q v r raw" if "name_valid E now key v q" for q
      using that c cv o outranked_trans by (auto simp: name_valid_def)
    moreover have "outranked r0 raw0 r raw" if "sel = Some (j0, r0, raw0)" for j0 r0 raw0
      using old [OF that] o by (rule outranked_trans)
    moreover have "sel = Some (j, r, raw) \<or> at_pos i (v # vs) j raw \<and> name_valid E now key raw r"
      using IH sel1 c by auto
    ultimately show ?thesis using IH by simp
  next
    case False
    with Cons.prems have "name_select_loop E now key (Suc i) sel vs = Inr (Some (j, r, raw))"
      by simp
    from Cons.IH [OF this] False show ?thesis by (auto simp: name_valid_iff)
  qed
qed auto

text \<open>\<open>Select\<close> for name records: a selected index points at a value that validates at the
  key; every other valid value has a smaller generation, or the same generation and the same
  bytes (no equal-generation fork of the selected record); and nothing is selected only when
  no value validates.\<close>

theorem NameValidator_Select_sound:
  "(\<forall>i. NameValidator_Select E now key vs = Inr i \<longrightarrow>
      i < length vs \<and> NameValidator_Validate E now key (vs ! i) = Inr ()
      \<and> (\<exists>r. DecodeNameRecord E (vs ! i) = Inr r
           \<and> (\<forall>v\<in>set vs. \<forall>q. NameValidator_Validate E now key v = Inr () \<longrightarrow>
                DecodeNameRecord E v = Inr q \<longrightarrow>
                nr_Generation q < nr_Generation r \<or> nr_Generation q = nr_Generation r \<and> v = vs ! i)))
   \<and> (NameValidator_Select E now key vs = Inl RoutingNotFound \<longrightarrow>
        (\<forall>v\<in>set vs. NameValidator_Validate E now key v \<noteq> Inr ()))"
proof (intro conjI allI impI)
  {
    fix i assume "NameValidator_Select E now key vs = Inr i"
    then obtain r raw where "name_select_loop E now key 0 None vs = Inr (Some (i, r, raw))"
      by (auto simp: NameValidator_Select_def result_inv split: option.splits)
    from name_select_loop_Some [OF this]
    show "i < length vs" "NameValidator_Validate E now key (vs ! i) = Inr ()"
      "\<exists>r. DecodeNameRecord E (vs ! i) = Inr r
         \<and> (\<forall>v\<in>set vs. \<forall>q. NameValidator_Validate E now key v = Inr () \<longrightarrow>
              DecodeNameRecord E v = Inr q \<longrightarrow>
              nr_Generation q < nr_Generation r \<or> nr_Generation q = nr_Generation r \<and> v = vs ! i)"
      by (auto simp: name_valid_def outranked_def at_pos_0)
  }
  assume nf: "NameValidator_Select E now key vs = Inl RoutingNotFound"
  have "name_select_loop E now key i sel vs \<noteq> Inl RoutingNotFound" for i sel vs
    by (induction E now key i sel vs rule: name_select_loop.induct)
      (auto split: option.splits sum.splits
            simp: NameValidator_Validate_def is_ok_iff result_inv)
  with nf have "name_select_loop E now key 0 None vs = Inr None"
    by (cases "name_select_loop E now key 0 None vs")
      (auto simp: NameValidator_Select_def split: option.splits)
  from name_select_loop_None [OF this]
  show "\<forall>v\<in>set vs. NameValidator_Validate E now key v \<noteq> Inr ()" by (auto simp: is_ok_iff)
qed

subsection \<open>Leases and claims\<close>

lemma LeaseRecord_Validate_ok:
  assumes "LeaseRecord_Validate E now l = Inr ()"
  shows "lr_Fencing l \<noteq> 0" "exact_scope (lr_Scope l) \<noteq> subtree_scope (lr_Scope l)"
    "subtree_scope (lr_Scope l) \<Longrightarrow> normalized (sc_PathPrefix (lr_Scope l))"
    "now < lr_Expires l" "lr_Issued l < lr_Expires l" "lr_Expires l \<le> lr_Issued l + 300000000000"
    "checkLeaseHolder E now l = Inr ()"
  using assms unfolding LeaseRecord_Validate_def result_inv normalized_def by auto

text \<open>\<open>Select\<close> for leases returns a value that validates at the key and no valid value has
  a greater fencing number, nor the same fencing number and a later issue time; so a renewed
  lease wins over the lease it renews and a stale fence never wins.\<close>

theorem LeaseValidator_Select_sound:
  assumes "LeaseValidator_Select E now key vs = Inr i"
  shows "i < length vs \<and> LeaseValidator_Validate E now key (vs ! i) = Inr ()
    \<and> (\<exists>l. UnmarshalCanonical (leaseC E) (vs ! i) = Inr l
         \<and> (\<forall>v\<in>set vs. \<forall>m. LeaseValidator_Validate E now key v = Inr () \<longrightarrow>
              UnmarshalCanonical (leaseC E) v = Inr m \<longrightarrow>
              lr_Fencing m < lr_Fencing l
              \<or> lr_Fencing m = lr_Fencing l \<and> lr_Issued m \<le> lr_Issued l))"
proof -
  from assms obtain r where sel:
    "select_best (lease_rank E now key) lease_better 0 None vs = Some (i, r)"
    by (auto simp: LeaseValidator_Select_def split: option.splits)
  note s = lease_sel.select_best_Some [OF this]
  from s(2) obtain l where l: "LeaseValidator_Validate E now key (vs ! i) = Inr ()"
    "UnmarshalCanonical (leaseC E) (vs ! i) = Inr l" "r = (lr_Fencing l, lr_Issued l)"
    by (auto simp: lease_rank_def is_ok_iff split: if_splits)
  have "lr_Fencing m < lr_Fencing l \<or> lr_Fencing m = lr_Fencing l \<and> lr_Issued m \<le> lr_Issued l"
    if "v \<in> set vs" "LeaseValidator_Validate E now key v = Inr ()"
      "UnmarshalCanonical (leaseC E) v = Inr m" for v m
    using s(3) [of v "(lr_Fencing m, lr_Issued m)"] that l(3)
    by (auto simp: lease_rank_def lease_better_def)
  with s(1) l show ?thesis by blast
qed

end
