(* ===== verification/Go_Datastore.thy ===== *)
theory Go_Datastore
  imports Tarsus_Prelude
begin

text \<open>
  The key-value stores the program is built over and does not define: a local
  \<open>go-datastore\<close> (\<open>Get\<close>, \<open>Put\<close>, \<open>Delete\<close>, a committed \<open>Batch\<close> of puts) and a libp2p
  \<open>routing.ValueStore\<close> (\<open>GetValue\<close>, \<open>PutValue\<close>). They are parameters of the model: a record of
  operations over an abstract state, with what the callers rely on as the laws of a locale. A
  failed operation leaves the stored values as they were; a missing key is \<open>DsNotFound\<close>. The
  association-map instance at the end shows that the laws can hold and lets witnesses run.
\<close>

record 'd datastore =
  ds_Get :: "'d \<Rightarrow> string \<Rightarrow> bytes result"
  ds_Put :: "string \<Rightarrow> bytes \<Rightarrow> ('d, unit) op"
  ds_Delete :: "string \<Rightarrow> ('d, unit) op"
  ds_Batch :: "(string \<times> bytes) list \<Rightarrow> ('d, unit) op"

locale datastore_contract =
  fixes D :: "'d datastore"
  assumes Get_after_Put:
      "ds_Put D k v s = (Inr (), t) \<Longrightarrow> ds_Get D t k' = (if k' = k then Inr v else ds_Get D s k')"
    and Put_failed: "ds_Put D k v s = (Inl e, t) \<Longrightarrow> ds_Get D t = ds_Get D s"
    and Get_after_Delete:
      "ds_Delete D k s = (Inr (), t) \<Longrightarrow>
         ds_Get D t k' = (if k' = k then Inl DsNotFound else ds_Get D s k')"
    and Delete_failed: "ds_Delete D k s = (Inl e, t) \<Longrightarrow> ds_Get D t = ds_Get D s"
    and Get_after_Batch:
      "ds_Batch D kvs s = (Inr (), t) \<Longrightarrow>
         ds_Get D t k' = (case map_of (rev kvs) k' of Some v \<Rightarrow> Inr v | None \<Rightarrow> ds_Get D s k')"
    and Batch_failed: "ds_Batch D kvs s = (Inl e, t) \<Longrightarrow> ds_Get D t = ds_Get D s"
begin

lemma Get_Put_cases:
  assumes "ds_Put D k v s = (r, t)"
  shows "ds_Get D t = ds_Get D s \<and> \<not> is_ok r
    \<or> r = Inr () \<and> ds_Get D t = (\<lambda>k'. if k' = k then Inr v else ds_Get D s k')"
  using assms Get_after_Put Put_failed by (cases r) auto

lemma Get_Batch_cases:
  assumes "ds_Batch D kvs s = (r, t)"
  shows "ds_Get D t = ds_Get D s \<and> \<not> is_ok r
    \<or> r = Inr () \<and>
      ds_Get D t = (\<lambda>k'. case map_of (rev kvs) k' of Some v \<Rightarrow> Inr v | None \<Rightarrow> ds_Get D s k')"
  using assms Get_after_Batch Batch_failed by (cases r) auto

lemma Get_Batch_other:
  assumes "ds_Batch D kvs s = (r, t)" "k \<notin> fst ` set kvs"
  shows "ds_Get D t k = ds_Get D s k"
proof -
  have "map_of (rev kvs) k = None" using assms(2) by (simp add: map_of_eq_None_iff)
  then show ?thesis using Get_Batch_cases [OF assms(1)] by auto
qed

lemma Get_Put_other: "ds_Put D k v s = (r, t) \<Longrightarrow> k' \<noteq> k \<Longrightarrow> ds_Get D t k' = ds_Get D s k'"
  using Get_Put_cases by fastforce

end

record 'n valuestore =
  vs_GetValue :: "'n \<Rightarrow> string \<Rightarrow> bytes result"
  vs_PutValue :: "string \<Rightarrow> bytes \<Rightarrow> ('n, unit) op"

text \<open>A value store that keeps what is put into it: what a single writer relies on.\<close>

definition reliableStore :: "'n valuestore \<Rightarrow> bool" where
  "reliableStore S \<longleftrightarrow> (\<forall>k v s r t. vs_PutValue S k v s = (r, t) \<longrightarrow>
     (case r of Inr _ \<Rightarrow> vs_GetValue S t k = Inr v \<and> (\<forall>k'. k' \<noteq> k \<longrightarrow> vs_GetValue S t k' = vs_GetValue S s k')
              | Inl _ \<Rightarrow> vs_GetValue S t = vs_GetValue S s))"

lemma reliableStore_Inr:
  "reliableStore S \<Longrightarrow> vs_PutValue S k v s = (Inr u, t) \<Longrightarrow>
     vs_GetValue S t k = Inr v \<and> (\<forall>k'. k' \<noteq> k \<longrightarrow> vs_GetValue S t k' = vs_GetValue S s k')"
  unfolding reliableStore_def by fastforce

lemma reliableStore_Inl:
  "reliableStore S \<Longrightarrow> vs_PutValue S k v s = (Inl e, t) \<Longrightarrow> vs_GetValue S t = vs_GetValue S s"
  unfolding reliableStore_def by fastforce

text \<open>
  \<open>names.CASAuthority\<close>: the linearized owner of exact names. A nil argument of
  \<open>CompareAndSwap\<close> is \<open>None\<close>. The contract is the one of a file of registers: a swap succeeds
  only when the register holds what the caller expects, changes that register alone, and a
  failed swap changes nothing. \<open>named\<close> are the names the authority serves.
\<close>

record 'a authority =
  au_Read :: "'a \<Rightarrow> string \<Rightarrow> bytes result"
  au_CompareAndSwap :: "string \<Rightarrow> bytes option \<Rightarrow> bytes option \<Rightarrow> ('a, unit) op"

locale cas_contract =
  fixes A :: "'a authority" and named :: "string \<Rightarrow> bool"
  assumes CAS_expected:
      "named k \<Longrightarrow> au_CompareAndSwap A k expected new s = (Inr (), t) \<Longrightarrow>
         (case expected of None \<Rightarrow> \<not> is_ok (au_Read A s k) | Some e \<Rightarrow> au_Read A s k = Inr e)"
    and CAS_read:
      "named k \<Longrightarrow> named k' \<Longrightarrow> au_CompareAndSwap A k expected new s = (Inr (), t) \<Longrightarrow>
         au_Read A t k' = (if k' = k then (case new of None \<Rightarrow> Inl ErrNotFound | Some v \<Rightarrow> Inr v)
                           else au_Read A s k')"
    and CAS_failed:
      "au_CompareAndSwap A k expected new s = (Inl e, t) \<Longrightarrow> au_Read A t = au_Read A s"
begin

lemma CAS_other:
  "named k \<Longrightarrow> named k' \<Longrightarrow> k' \<noteq> k \<Longrightarrow> au_CompareAndSwap A k expected new s = (r, t) \<Longrightarrow>
     au_Read A t k' = au_Read A s k'"
  using CAS_read CAS_failed by (cases r) auto

end

subsection \<open>An instance\<close>

type_synonym kv = "string \<Rightarrow> bytes option"

definition map_datastore :: "kv datastore" where
  "map_datastore =
     \<lparr>ds_Get = (\<lambda>m k. case m k of None \<Rightarrow> Inl DsNotFound | Some v \<Rightarrow> Inr v),
      ds_Put = (\<lambda>k v m. (Inr (), m(k \<mapsto> v))),
      ds_Delete = (\<lambda>k m. (Inr (), m(k := None))),
      ds_Batch = (\<lambda>kvs m. (Inr (), m ++ map_of (rev kvs)))\<rparr>"

interpretation map_ds: datastore_contract map_datastore
  by unfold_locales
    (auto simp: map_datastore_def map_add_def split: option.splits if_splits)

end
