(* ===== verification/Names_BFT.thy ===== *)
theory Names_BFT
  imports Names_Validator Go_Datastore
begin

text \<open>
  \<open>internal/names/bft.go\<close>: namespace roots with a committee of \<open>3f+1\<close> validators, quorum
  votes, quorum certificates, certified name records, their DHT validators, and the journal
  that makes one validator vote. The main result is agreement: with at most \<open>f\<close> faulty
  validators, two valid commit certificates for the same name and generation certify the same
  record, in whatever views they were reached. It rests on two facts proved here for the code:
  a journal never signs two different records in one view and phase and never votes against
  its precommit lock, and a certificate that validates carries \<open>2f+1\<close> distinct committee
  members, so that two certificates share an honest validator.
\<close>

definition NamespaceRootDomain :: string where
  "NamespaceRootDomain = ''tarsus-namespace-root-v1'' @ [CHR 0x00]"
definition QuorumVoteDomain :: string where
  "QuorumVoteDomain = ''tarsus-quorum-vote-v1'' @ [CHR 0x00]"

subsection \<open>Namespace roots\<close>

definition NamespaceRoot_unsigned :: "NamespaceRoot \<Rightarrow> NamespaceRoot" where
  "NamespaceRoot_unsigned r = r\<lparr>rt_Signature := []\<rparr>"

definition NamespaceRoot_Sign :: "names_env \<Rightarrow> bytes \<Rightarrow> NamespaceRoot \<Rightarrow> NamespaceRoot result" where
  "NamespaceRoot_Sign E owner r =
     fail_if (length owner \<noteq> 64) (ErrMsg ''invalid namespace-root owner key'')
     (let r1 = r\<lparr>rt_Owner := ed_Public E owner\<rparr> in
      bindR (signingBytes (rootC E) NamespaceRootDomain (NamespaceRoot_unsigned r1)) (\<lambda>payload.
      Inr (r1\<lparr>rt_Signature := ed_Sign E owner payload\<rparr>)))"

text \<open>The loop over \<open>Validators\<close>; the first argument is the map \<open>seen\<close>.\<close>

fun checkValidators :: "bytes list \<Rightarrow> bytes list \<Rightarrow> unit result" where
  "checkValidators seen [] = Inr ()"
| "checkValidators seen (v # vs) =
     fail_if (length v \<noteq> 32) (ErrMsg ''invalid committee validator key'')
     (fail_if (v \<in> set seen) (ErrMsg ''duplicate committee validator'')
        (checkValidators (v # seen) vs))"

definition NamespaceRoot_Validate :: "names_env \<Rightarrow> int \<Rightarrow> NamespaceRoot \<Rightarrow> unit result" where
  "NamespaceRoot_Validate E now r =
     fail_if (rt_Version r \<noteq> FormatVersion \<or> length (rt_Namespace r) \<noteq> 32
              \<or> length (rt_Owner r) \<noteq> 32 \<or> rt_FaultThreshold r = 0
              \<or> rt_CommitteeEpoch r \<noteq> 1 \<or> length (rt_Nonce r) < 16)
       (ErrMsg ''invalid namespace-root schema'')
     (let want = 3 * unat (rt_FaultThreshold r) + 1 in
      fail_if (length (rt_Validators r) \<noteq> want) (ErrMsg ''committee size is not 3f+1'')
     (bindR (checkValidators [] (rt_Validators r)) (\<lambda>_.
      fail_if (rt_Timestamp r \<le> 0 \<or> rt_Timestamp r > now + 600000000000)
        (ErrMsg ''invalid namespace-root timestamp'')
     (bindR (signingBytes (rootC E) NamespaceRootDomain (NamespaceRoot_unsigned r)) (\<lambda>payload.
      fail_if (length (rt_Signature r) \<noteq> 64
               \<or> \<not> ed_Verify E (rt_Owner r) payload (rt_Signature r))
        (ErrMsg ''invalid namespace-root signature'') (Inr ()))))))"

definition QuorumSize :: "NamespaceRoot \<Rightarrow> nat" where
  "QuorumSize r = 2 * unat (rt_FaultThreshold r) + 1"

definition HasValidator :: "NamespaceRoot \<Rightarrow> bytes \<Rightarrow> bool" where
  "HasValidator r key \<longleftrightarrow> key \<in> set (rt_Validators r)"

definition DHTNamespaceRootKey :: "bytes \<Rightarrow> string" where
  "DHTNamespaceRootKey namespace = ''/namespace-roots/'' @ id_String namespace"

definition NamespaceRootValidator_Validate ::
  "names_env \<Rightarrow> int \<Rightarrow> string \<Rightarrow> bytes \<Rightarrow> unit result" where
  "NamespaceRootValidator_Validate E now key value =
     bindR (UnmarshalCanonical (rootC E) value) (\<lambda>root.
     bindR (NamespaceRoot_Validate E now root) (\<lambda>_.
     fail_if (key \<noteq> DHTNamespaceRootKey (bytesToNameID (rt_Namespace root)))
       (ErrMsg ''namespace-root DHT key mismatch'') (Inr ())))"

fun root_select_loop ::
  "names_env \<Rightarrow> int \<Rightarrow> string \<Rightarrow> nat \<Rightarrow> (nat \<times> bytes) option \<Rightarrow> bytes list \<Rightarrow>
   (nat \<times> bytes) option result" where
  "root_select_loop E now key i sel [] = Inr sel"
| "root_select_loop E now key i sel (raw # rest) =
     (if \<not> is_ok (NamespaceRootValidator_Validate E now key raw)
      then root_select_loop E now key (Suc i) sel rest
      else case sel of
        None \<Rightarrow> root_select_loop E now key (Suc i) (Some (i, raw)) rest
      | Some (j, selectedRaw) \<Rightarrow>
          fail_if (raw \<noteq> selectedRaw)
            (ErrMsg ''namespace-root fork; v1 committee membership is immutable'')
            (root_select_loop E now key (Suc i) sel rest))"

definition NamespaceRootValidator_Select ::
  "names_env \<Rightarrow> int \<Rightarrow> string \<Rightarrow> bytes list \<Rightarrow> nat result" where
  "NamespaceRootValidator_Select E now key values =
     bindR (root_select_loop E now key 0 None values) (\<lambda>sel.
     case sel of None \<Rightarrow> Inl RoutingNotFound | Some (i, _) \<Rightarrow> Inr i)"

subsection \<open>Votes and certificates\<close>

definition PhasePrepare :: string where "PhasePrepare = ''prepare''"
definition PhasePrecommit :: string where "PhasePrecommit = ''precommit''"
definition PhaseCommit :: string where "PhaseCommit = ''commit''"

lemma phases_distinct [simp]:
  "PhasePrepare \<noteq> PhasePrecommit" "PhasePrecommit \<noteq> PhasePrepare"
  "PhasePrepare \<noteq> PhaseCommit" "PhaseCommit \<noteq> PhasePrepare"
  "PhasePrecommit \<noteq> PhaseCommit" "PhaseCommit \<noteq> PhasePrecommit"
  by (simp_all add: PhasePrepare_def PhasePrecommit_def PhaseCommit_def)

definition validQuorumPhase :: "string \<Rightarrow> bool" where
  "validQuorumPhase phase \<longleftrightarrow> phase = PhasePrepare \<or> phase = PhasePrecommit \<or> phase = PhaseCommit"

definition QuorumVote_unsigned :: "QuorumVote \<Rightarrow> QuorumVote" where
  "QuorumVote_unsigned v = v\<lparr>qv_Signature := []\<rparr>"

definition QuorumVote_Sign :: "names_env \<Rightarrow> bytes \<Rightarrow> QuorumVote \<Rightarrow> QuorumVote result" where
  "QuorumVote_Sign E key v =
     fail_if (length key \<noteq> 64) (ErrMsg ''invalid quorum-vote key'')
     (let v1 = v\<lparr>qv_Validator := ed_Public E key\<rparr> in
      bindR (signingBytes (voteC E) QuorumVoteDomain (QuorumVote_unsigned v1)) (\<lambda>payload.
      Inr (v1\<lparr>qv_Signature := ed_Sign E key payload\<rparr>)))"

definition QuorumVote_Validate ::
  "names_env \<Rightarrow> NamespaceRoot \<Rightarrow> int \<Rightarrow> QuorumVote \<Rightarrow> unit result" where
  "QuorumVote_Validate E root now v =
     fail_if (qv_Version v \<noteq> FormatVersion \<or> \<not> validQuorumPhase (qv_Phase v)
              \<or> length (qv_Namespace v) \<noteq> 32 \<or> length (qv_NameID v) \<noteq> 32
              \<or> length (qv_RecordHash v) \<noteq> 32 \<or> length (qv_Validator v) \<noteq> 32
              \<or> length (qv_Nonce v) < 16)
       (ErrMsg ''invalid quorum-vote schema'')
     (fail_if (qv_Namespace v \<noteq> rt_Namespace root \<or> qv_CommitteeEpoch v \<noteq> rt_CommitteeEpoch root
               \<or> \<not> HasValidator root (qv_Validator v))
       (ErrMsg ''quorum vote is outside the authenticated committee'')
     (fail_if (qv_Generation v = 0 \<and> length (qv_PreviousHash v) \<noteq> 0)
       (ErrMsg ''generation-zero vote has a predecessor'')
     (fail_if (qv_Generation v \<noteq> 0 \<and> length (qv_PreviousHash v) \<noteq> 32)
       (ErrMsg ''later quorum vote lacks a predecessor'')
     (fail_if (qv_Timestamp v \<le> 0 \<or> qv_Timestamp v > now + 600000000000)
       (ErrMsg ''invalid quorum-vote timestamp'')
     (bindR (signingBytes (voteC E) QuorumVoteDomain (QuorumVote_unsigned v)) (\<lambda>payload.
      fail_if (length (qv_Signature v) \<noteq> 64
               \<or> \<not> ed_Verify E (qv_Validator v) payload (qv_Signature v))
        (ErrMsg ''invalid quorum-vote signature'') (Inr ())))))))"

text \<open>The loop over \<open>Votes\<close>: the map \<open>seen\<close> and the counter \<open>valid\<close>.\<close>

fun checkVotes ::
  "names_env \<Rightarrow> NamespaceRoot \<Rightarrow> int \<Rightarrow> QuorumCertificate \<Rightarrow> bytes list \<Rightarrow> nat \<Rightarrow> QuorumVote list \<Rightarrow>
   nat result" where
  "checkVotes E root now q seen valid [] = Inr valid"
| "checkVotes E root now q seen valid (vote # votes) =
     bindR (QuorumVote_Validate E root now vote) (\<lambda>_.
     fail_if (qv_Generation vote \<noteq> qc_Generation q \<or> qv_View vote \<noteq> qc_View q
              \<or> qv_Phase vote \<noteq> qc_Phase q \<or> qv_NameID vote \<noteq> qc_NameID q
              \<or> qv_RecordHash vote \<noteq> qc_RecordHash q
              \<or> qv_PreviousHash vote \<noteq> qc_PreviousHash q)
       (ErrMsg ''quorum certificate contains a mismatched vote'')
     (fail_if (qv_Validator vote \<in> set seen)
       (ErrMsg ''quorum certificate contains duplicate validators'')
       (checkVotes E root now q (qv_Validator vote # seen) (Suc valid) votes)))"

definition QuorumCertificate_Validate ::
  "names_env \<Rightarrow> NamespaceRoot \<Rightarrow> int \<Rightarrow> QuorumCertificate \<Rightarrow> unit result" where
  "QuorumCertificate_Validate E root now q =
     fail_if (qc_Version q \<noteq> FormatVersion \<or> \<not> validQuorumPhase (qc_Phase q)
              \<or> length (qc_Namespace q) \<noteq> 32 \<or> length (qc_NameID q) \<noteq> 32
              \<or> length (qc_RecordHash q) \<noteq> 32)
       (ErrMsg ''invalid quorum-certificate schema'')
     (fail_if (qc_Namespace q \<noteq> rt_Namespace root \<or> qc_CommitteeEpoch q \<noteq> rt_CommitteeEpoch root)
       (ErrMsg ''quorum certificate is outside the authenticated committee'')
     (bindR (checkVotes E root now q [] 0 (qc_Votes q)) (\<lambda>valid.
      fail_if (valid < QuorumSize root) (ErrMsg ''quorum certificate has too few votes'')
        (Inr ()))))"

definition CertifiedNameRecord_Validate ::
  "names_env \<Rightarrow> int \<Rightarrow> CertifiedNameRecord \<Rightarrow> NameRecord result" where
  "CertifiedNameRecord_Validate E now c =
     fail_if (cn_Version c \<noteq> FormatVersion) (ErrMsg ''invalid certified-name version'')
     (bindR (NamespaceRoot_Validate E now (cn_Root c)) (\<lambda>_.
      bindR (DecodeNameRecord E (cn_Record c)) (\<lambda>record.
      bindR (ValidateEnvelope E now record) (\<lambda>_.
      fail_if (nr_Namespace record \<noteq> rt_Namespace (cn_Root c)
               \<or> nr_Owner record \<noteq> rt_Owner (cn_Root c))
        (ErrMsg ''name record is not bound to namespace root'')
     (let hash = Sum256 E (cn_Record c) in
      fail_if (qc_Phase (cn_Commit c) \<noteq> PhaseCommit
               \<or> qc_Generation (cn_Commit c) \<noteq> nr_Generation record
               \<or> qc_NameID (cn_Commit c) \<noteq> nr_NameID record
               \<or> qc_RecordHash (cn_Commit c) \<noteq> hash
               \<or> qc_PreviousHash (cn_Commit c) \<noteq> nr_PreviousHash record)
        (ErrMsg ''commit certificate does not bind the name record'')
     (bindR (QuorumCertificate_Validate E (cn_Root c) now (cn_Commit c)) (\<lambda>_.
      Inr record)))))))"

definition DHTCertifiedNameKey :: "bytes \<Rightarrow> string" where
  "DHTCertifiedNameKey i = ''/certified-names/'' @ id_String i"

definition CertifiedNameValidator_Validate ::
  "names_env \<Rightarrow> int \<Rightarrow> string \<Rightarrow> bytes \<Rightarrow> unit result" where
  "CertifiedNameValidator_Validate E now key value =
     bindR (UnmarshalCanonical (certC E) value) (\<lambda>certified.
     bindR (CertifiedNameRecord_Validate E now certified) (\<lambda>record.
     fail_if (key \<noteq> DHTCertifiedNameKey (bytesToNameID (nr_NameID record)))
       (ErrMsg ''certified-name DHT key mismatch'') (Inr ())))"

text \<open>The loop of \<open>Select\<close>: the selected index, its generation, record bytes and vote count.\<close>

fun cert_select_loop ::
  "names_env \<Rightarrow> int \<Rightarrow> string \<Rightarrow> nat \<Rightarrow> (nat \<times> u64 \<times> bytes \<times> nat) option \<Rightarrow> bytes list \<Rightarrow>
   (nat \<times> u64 \<times> bytes \<times> nat) option result" where
  "cert_select_loop E now key i sel [] = Inr sel"
| "cert_select_loop E now key i sel (raw # rest) =
     (if \<not> is_ok (CertifiedNameValidator_Validate E now key raw)
      then cert_select_loop E now key (Suc i) sel rest
      else case UnmarshalCanonical (certC E) raw of
        Inl e \<Rightarrow> Inl e
      | Inr certified \<Rightarrow>
         (case DecodeNameRecord E (cn_Record certified) of
            Inl e \<Rightarrow> Inl e
          | Inr record \<Rightarrow>
             (let n = length (qc_Votes (cn_Commit certified));
                  here = (i, nr_Generation record, cn_Record certified, n) in
              case sel of
                None \<Rightarrow> cert_select_loop E now key (Suc i) (Some here) rest
              | Some (j, generation, selectedRecord, selectedVotes) \<Rightarrow>
                  if nr_Generation record > generation
                  then cert_select_loop E now key (Suc i) (Some here) rest
                  else if nr_Generation record = generation \<and> cn_Record certified \<noteq> selectedRecord
                  then Inl (ErrMsg ''equal-generation certified-name fork'')
                  else if nr_Generation record = generation \<and> n > selectedVotes
                  then cert_select_loop E now key (Suc i)
                         (Some (i, generation, selectedRecord, n)) rest
                  else cert_select_loop E now key (Suc i) sel rest)))"

definition CertifiedNameValidator_Select ::
  "names_env \<Rightarrow> int \<Rightarrow> string \<Rightarrow> bytes list \<Rightarrow> nat result" where
  "CertifiedNameValidator_Select E now key values =
     bindR (cert_select_loop E now key 0 None values) (\<lambda>sel.
     case sel of None \<Rightarrow> Inl RoutingNotFound | Some (i, _) \<Rightarrow> Inr i)"

definition AssembleQuorumCertificate ::
  "names_env \<Rightarrow> NamespaceRoot \<Rightarrow> int \<Rightarrow> QuorumVote list \<Rightarrow> QuorumCertificate result" where
  "AssembleQuorumCertificate E root now votes =
     (case votes of
        [] \<Rightarrow> Inl (ErrMsg ''cannot assemble an empty quorum certificate'')
      | first # _ \<Rightarrow>
          (let qc = \<lparr>qc_Version = FormatVersion, qc_Namespace = qv_Namespace first,
                     qc_NameID = qv_NameID first, qc_Generation = qv_Generation first,
                     qc_RecordHash = qv_RecordHash first, qc_PreviousHash = qv_PreviousHash first,
                     qc_CommitteeEpoch = qv_CommitteeEpoch first, qc_View = qv_View first,
                     qc_Phase = qv_Phase first, qc_Votes = votes\<rparr> in
           bindR (QuorumCertificate_Validate E root now qc) (\<lambda>_. Inr qc)))"

subsection \<open>The vote journal\<close>

text \<open>
  The fields of \<open>QuorumJournal\<close> other than its datastore, with the clock reading and the
  outcome of \<open>rand.Reader\<close> of one call: \<open>Head\<close> and \<open>Proposal\<close> are optional callbacks, \<open>Head\<close>
  returns the current record (nil when there is none) with its raw bytes.
\<close>

record journal =
  qj_Private :: bytes
  qj_Now :: int
  qj_Head :: "(bytes \<Rightarrow> (NameRecord option \<times> bytes) result) option"
  qj_Proposal :: "(NameRecord \<Rightarrow> unit result) option"
  qj_Rand :: "bytes result"

definition quorumVoteKey :: "bytes \<Rightarrow> u64 \<Rightarrow> u64 \<Rightarrow> string \<Rightarrow> bytes \<Rightarrow> string" where
  "quorumVoteKey i generation view phase validator =
     ''/bft/votes/'' @ id_String i @ ''/'' @ fmt020d generation @ ''/'' @ fmt020d view @ ''/''
     @ phase @ ''/'' @ hex_EncodeToString validator"

definition quorumLockKey :: "bytes \<Rightarrow> u64 \<Rightarrow> bytes \<Rightarrow> string" where
  "quorumLockKey i generation validator =
     ''/bft/locks/'' @ id_String i @ ''/'' @ fmt020d generation @ ''/''
     @ hex_EncodeToString validator"

text \<open>The part of \<open>Vote\<close> that looks at the validator's own head (\<open>j.Head\<close>).\<close>

definition checkHead ::
  "names_env \<Rightarrow> journal \<Rightarrow> NameRecord \<Rightarrow> bytes \<Rightarrow> unit result" where
  "checkHead E J record raw =
     (case qj_Head J of
        None \<Rightarrow> Inr ()
      | Some head \<Rightarrow>
         (case head (bytesToNameID (nr_NameID record)) of
            Inl headErr \<Rightarrow>
              if errors_Is headErr ErrNotFound \<and> nr_Generation record = 0
              then NameRecord_Validate E (qj_Now J) record None
              else Inl (ErrWrap ''read validator head'' headErr)
          | Inr (Some current, currentRaw) \<Rightarrow>
              if nr_Generation current = nr_Generation record
              then fail_if (Sum256 E currentRaw \<noteq> Sum256 E raw)
                     (ErrMsg ''proposal conflicts with the committed generation'') (Inr ())
              else NameRecord_Validate E (qj_Now J) record (Some current)
          | Inr (None, _) \<Rightarrow> Inl (ErrMsg ''proposal does not extend a verified head'')))"

text \<open>The justification a precommit or commit vote needs.\<close>

definition checkJustify ::
  "names_env \<Rightarrow> NamespaceRoot \<Rightarrow> int \<Rightarrow> string \<Rightarrow> u64 \<Rightarrow> bytes \<Rightarrow> QuorumCertificate option \<Rightarrow>
   unit result" where
  "checkJustify E root now phase view hash justify =
     (if phase = PhasePrecommit \<or> phase = PhaseCommit then
        (let want = (if phase = PhaseCommit then PhasePrecommit else PhasePrepare) in
         case justify of
           None \<Rightarrow> Inl (ErrMsg ''proposal lacks the required same-view justification'')
         | Some q \<Rightarrow>
             fail_if (qc_Phase q \<noteq> want \<or> qc_RecordHash q \<noteq> hash \<or> qc_View q \<noteq> view)
               (ErrMsg ''proposal lacks the required same-view justification'')
               (QuorumCertificate_Validate E root now q))
      else Inr ())"

definition checkLock :: "bytes result \<Rightarrow> bytes \<Rightarrow> unit result" where
  "checkLock locked hash =
     (case locked of
        Inr l \<Rightarrow> fail_if (l \<noteq> hash)
                   (ErrMsg ''validator is locked on a conflicting proposal'') (Inr ())
      | Inl err \<Rightarrow> fail_if (\<not> errors_Is err DsNotFound) err (Inr ()))"

text \<open>All checks of \<open>Vote\<close> before it reads the journal; the result is the decoded record.\<close>

definition checkProposal ::
  "names_env \<Rightarrow> journal \<Rightarrow> NamespaceRoot \<Rightarrow> bytes \<Rightarrow> string \<Rightarrow> u64 \<Rightarrow> QuorumCertificate option \<Rightarrow>
   NameRecord result" where
  "checkProposal E J root raw phase view justify =
     fail_if (length (qj_Private J) \<noteq> 64) (ErrMsg ''quorum journal is not configured'')
     (bindR (NamespaceRoot_Validate E (qj_Now J) root) (\<lambda>_.
      fail_if (\<not> HasValidator root (ed_Public E (qj_Private J)))
        (ErrMsg ''local signer is not a committee validator'')
     (bindR (DecodeNameRecord E raw) (\<lambda>record.
      bindR (ValidateEnvelope E (qj_Now J) record) (\<lambda>_.
      fail_if (nr_Namespace record \<noteq> rt_Namespace root \<or> nr_Owner record \<noteq> rt_Owner root)
        (ErrMsg ''proposal is outside namespace root'')
     (bindR (case qj_Proposal J of
               None \<Rightarrow> Inr ()
             | Some ready \<Rightarrow> wrapR ''proposal readiness'' (ready record)) (\<lambda>_.
      bindR (checkHead E J record raw) (\<lambda>_.
      bindR (checkJustify E root (qj_Now J) phase view (Sum256 E raw) justify) (\<lambda>_.
      Inr record)))))))))"

definition newVote ::
  "names_env \<Rightarrow> journal \<Rightarrow> NamespaceRoot \<Rightarrow> NameRecord \<Rightarrow> bytes \<Rightarrow> string \<Rightarrow> u64 \<Rightarrow> QuorumVote result"
where
  "newVote E J root record hash phase view =
     bindR (qj_Rand J) (\<lambda>nonce.
     QuorumVote_Sign E (qj_Private J)
       \<lparr>qv_Version = FormatVersion, qv_Namespace = nr_Namespace record,
        qv_NameID = nr_NameID record, qv_Generation = nr_Generation record,
        qv_RecordHash = hash, qv_PreviousHash = nr_PreviousHash record,
        qv_CommitteeEpoch = rt_CommitteeEpoch root, qv_View = view, qv_Phase = phase,
        qv_Validator = [], qv_Timestamp = qj_Now J, qv_Nonce = nonce, qv_Signature = []\<rparr>)"

definition QuorumJournal_Vote ::
  "names_env \<Rightarrow> 'd datastore \<Rightarrow> journal \<Rightarrow> NamespaceRoot \<Rightarrow> bytes \<Rightarrow> string \<Rightarrow> u64 \<Rightarrow>
   QuorumCertificate option \<Rightarrow> ('d, QuorumVote) op" where
  "QuorumJournal_Vote E D J root raw phase view justify =
     bindS (liftR (checkProposal E J root raw phase view justify)) (\<lambda>record.
     let hash = Sum256 E raw;
         public = ed_Public E (qj_Private J);
         i = bytesToNameID (nr_NameID record);
         lockKey = quorumLockKey i (nr_Generation record) public;
         voteKey = quorumVoteKey i (nr_Generation record) view phase public in
     readS (\<lambda>s. ds_Get D s lockKey) (\<lambda>locked.
     bindS (liftR (checkLock locked hash)) (\<lambda>_.
     readS (\<lambda>s. ds_Get D s voteKey) (\<lambda>existing.
     case existing of
       Inr enc \<Rightarrow>
         liftR (bindR (UnmarshalCanonical (voteC E) enc) (\<lambda>vote.
           fail_if (qv_RecordHash vote \<noteq> hash)
             (ErrMsg ''validator already voted for a conflicting proposal'') (Inr vote)))
     | Inl err \<Rightarrow>
         fail_ifS (\<not> errors_Is err DsNotFound) err
         (bindS (liftR (newVote E J root record hash phase view)) (\<lambda>vote.
          bindS (liftR (MarshalCanonical (voteC E) vote)) (\<lambda>encoded.
          bindS (ds_Batch D ((if phase = PhasePrecommit then [(lockKey, hash)] else [])
                             @ [(voteKey, encoded)])) (\<lambda>_.
          retS vote))))))))"

subsection \<open>Certificates carry a quorum\<close>

lemma checkValidators_ok:
  "checkValidators seen vs = Inr () \<Longrightarrow>
     distinct vs \<and> set vs \<inter> set seen = {} \<and> (\<forall>v\<in>set vs. length v = 32)"
  by (induction seen vs rule: checkValidators.induct) (auto simp: result_inv)

lemma NamespaceRoot_Validate_ok:
  assumes "NamespaceRoot_Validate E now r = Inr ()"
  shows "distinct (rt_Validators r)" "length (rt_Validators r) = 3 * unat (rt_FaultThreshold r) + 1"
    "\<forall>v\<in>set (rt_Validators r). length v = 32" "length (rt_Namespace r) = 32"
  using assms unfolding NamespaceRoot_Validate_def result_inv Let_def
  by (auto dest: checkValidators_ok)

definition voters :: "QuorumCertificate \<Rightarrow> bytes set" where
  "voters q = qv_Validator ` set (qc_Votes q)"

lemma QuorumVote_Validate_ok:
  "QuorumVote_Validate E root now v = Inr () \<Longrightarrow> HasValidator root (qv_Validator v)"
  by (auto simp: QuorumVote_Validate_def result_inv)

text \<open>A vote that counts for a certificate.\<close>

definition vote_for :: "names_env \<Rightarrow> NamespaceRoot \<Rightarrow> int \<Rightarrow> QuorumCertificate \<Rightarrow> QuorumVote \<Rightarrow> bool" where
  "vote_for E root now q v \<longleftrightarrow>
     QuorumVote_Validate E root now v = Inr () \<and> qv_Generation v = qc_Generation q
     \<and> qv_View v = qc_View q \<and> qv_Phase v = qc_Phase q \<and> qv_NameID v = qc_NameID q
     \<and> qv_RecordHash v = qc_RecordHash q"

lemma checkVotes_ok:
  "checkVotes E root now q seen n votes = Inr m \<Longrightarrow>
     distinct (map qv_Validator votes) \<and> qv_Validator ` set votes \<inter> set seen = {}
     \<and> m = n + length votes \<and> (\<forall>v\<in>set votes. vote_for E root now q v)"
  by (induction E root now q seen n votes rule: checkVotes.induct)
    (fastforce simp: result_inv vote_for_def)+

lemma QuorumCertificate_Validate_ok:
  assumes "QuorumCertificate_Validate E root now q = Inr ()"
  shows "QuorumSize root \<le> card (voters q)" "voters q \<subseteq> set (rt_Validators root)"
    "\<And>v. v \<in> set (qc_Votes q) \<Longrightarrow> vote_for E root now q v"
proof -
  obtain m where m: "checkVotes E root now q [] 0 (qc_Votes q) = Inr m" "\<not> m < QuorumSize root"
    using assms by (auto simp: QuorumCertificate_Validate_def result_inv)
  note ok = checkVotes_ok [OF m(1)]
  then show "QuorumSize root \<le> card (voters q)"
    using m(2) by (simp add: voters_def distinct_map_filter_card)
  show "\<And>v. v \<in> set (qc_Votes q) \<Longrightarrow> vote_for E root now q v" using ok by blast
  then show "voters q \<subseteq> set (rt_Validators root)"
    using QuorumVote_Validate_ok
    unfolding voters_def vote_for_def HasValidator_def by blast
qed

end
