(* ===== verification/Names_Store.thy ===== *)
theory Names_Store
  imports Names_BFT
begin

text \<open>
  \<open>internal/names/store.go\<close>, the name service: creating, updating, deleting and renaming
  names, the certified commit and write-back paths, resolution and search. \<open>service\<close> holds what
  a \<open>Service\<close> is configured with (its datastore, value network, search index and CAS authority
  as interfaces, the clock reading of the call), \<open>service_state\<close> what those parts and the
  service itself hold. Operations run under the per-name mutex of the code; the interleaving of
  several nodes at the shared authority is in \<open>Names_History\<close>.
\<close>

record 'i search_index =
  si_Insert :: "string \<Rightarrow> ('i, unit) op"
  si_Delete :: "string \<Rightarrow> ('i, unit) op"
  si_Query :: "'i \<Rightarrow> string \<Rightarrow> string \<Rightarrow> string list \<times> nat \<times> nat \<times> go_error option"

record ('d, 'n, 'i, 'a) service =
  cf_env :: names_env
  cf_now :: int
  cf_datastore :: "'d datastore"
  cf_query :: "'d \<Rightarrow> string \<Rightarrow> bytes result list result"
  cf_network :: "'n valuestore option"
  cf_gate :: "(NameRecord \<Rightarrow> unit result) option"
  cf_index :: "'i search_index option"
  cf_hook :: bool
  cf_authority :: "'a authority option"

text \<open>\<open>sv_repairs\<close> are the repair goroutines started and not finished, \<open>sv_commits\<close> the calls of
  the commit hook.\<close>

record ('d, 'n, 'i, 'a) service_state =
  sv_ds :: 'd
  sv_net :: 'n
  sv_index :: 'i
  sv_auth :: 'a
  sv_indexIncomplete :: bool
  sv_indexPending :: int
  sv_indexError :: "go_error option"
  sv_repairs :: "(string \<times> string) list"
  sv_commits :: "NameRecord list"

definition onDs :: "('d, 'r) op \<Rightarrow> (('d, 'n, 'i, 'a) service_state, 'r) op" where
  "onDs m s = (case m (sv_ds s) of (r, d) \<Rightarrow> (r, s\<lparr>sv_ds := d\<rparr>))"

definition onNet :: "('n, 'r) op \<Rightarrow> (('d, 'n, 'i, 'a) service_state, 'r) op" where
  "onNet m s = (case m (sv_net s) of (r, d) \<Rightarrow> (r, s\<lparr>sv_net := d\<rparr>))"

definition onAuth :: "('a, 'r) op \<Rightarrow> (('d, 'n, 'i, 'a) service_state, 'r) op" where
  "onAuth m s = (case m (sv_auth s) of (r, d) \<Rightarrow> (r, s\<lparr>sv_auth := d\<rparr>))"

subsection \<open>Keys\<close>

definition currentKey :: "bytes \<Rightarrow> string" where
  "currentKey i = ''/mutable/names/'' @ id_String i"
definition historyKey :: "bytes \<Rightarrow> u64 \<Rightarrow> string" where
  "historyKey i generation = ''/mutable/history/'' @ id_String i @ ''/'' @ fmt020d generation"
definition certifiedKey :: "bytes \<Rightarrow> string" where
  "certifiedKey i = ''/mutable/certified/'' @ id_String i"
definition certifiedHistoryKey :: "bytes \<Rightarrow> u64 \<Rightarrow> string" where
  "certifiedHistoryKey i generation =
     ''/mutable/certified-history/'' @ id_String i @ ''/'' @ fmt020d generation"
definition namespaceRootKey :: "bytes \<Rightarrow> string" where
  "namespaceRootKey namespace = ''/mutable/namespace-roots/'' @ hex_EncodeToString namespace"
definition namespaceOwnerKey :: "bytes \<Rightarrow> string" where
  "namespaceOwnerKey namespace = ''/mutable/namespace-owners/'' @ hex_EncodeToString namespace"

definition authorityName :: "bytes \<Rightarrow> string" where
  "authorityName i = ''__tarsus_name_v1__'' @ id_String i"
definition authorityCertifiedModeName :: "bytes \<Rightarrow> string" where
  "authorityCertifiedModeName i = ''__tarsus_certified_mode_v1__'' @ id_String i"
definition authorityNamespaceRootName :: "bytes \<Rightarrow> string" where
  "authorityNamespaceRootName namespace =
     ''__tarsus_namespace_root_v1__'' @ hex_EncodeToString namespace"
definition authorityNamespaceName :: "bytes \<Rightarrow> string" where
  "authorityNamespaceName namespace = ''__tarsus_namespace_v1__'' @ hex_EncodeToString namespace"

subsection \<open>Resolution\<close>

definition Service_Get ::
  "('d, 'n, 'i, 'a) service \<Rightarrow> ('d, 'n, 'i, 'a) service_state \<Rightarrow> bytes \<Rightarrow> (NameRecord \<times> bytes) result"
where
  "Service_Get C s i =
     (let decode = (\<lambda>raw. result_or_nil (DecodeNameRecord (cf_env C) raw));
          cached = (case ds_Get (cf_datastore C) (sv_ds s) (currentKey i) of
                      Inr v \<Rightarrow> v | Inl _ \<Rightarrow> []);
          localRaw = (case decode [] of
                        None \<Rightarrow> cached
                      | Some l \<Rightarrow> (case decode cached of
                                   Some c \<Rightarrow> if nr_Generation c > nr_Generation l then cached else []
                                 | None \<Rightarrow> []));
          local = map_option (\<lambda>r. (r, localRaw)) (decode localRaw);
          good = (\<lambda>r. is_ok (validateRecordEnvelope (cf_env C) (cf_now C) r) \<and> nr_NameID r = i);
          remote = (case cf_network C of
                      None \<Rightarrow> None
                    | Some V \<Rightarrow>
                       (case vs_GetValue V (sv_net s) (DHTNameKey i) of
                          Inl _ \<Rightarrow> None
                        | Inr raw \<Rightarrow> (case decode raw of
                                       Some r \<Rightarrow> if good r then Some (r, raw) else None
                                     | None \<Rightarrow> None)));
          best = (case (remote, local) of
                    (Some (r, raw), None) \<Rightarrow> Some (r, raw)
                  | (Some (r, raw), Some (b, braw)) \<Rightarrow>
                      if nr_Generation r > nr_Generation b then Some (r, raw) else Some (b, braw)
                  | (None, b) \<Rightarrow> b);
          recovered = (case cf_authority C of
                         None \<Rightarrow> None
                       | Some A \<Rightarrow>
                          (case au_Read A (sv_auth s) (authorityName i) of
                             Inl _ \<Rightarrow> None
                           | Inr raw \<Rightarrow> (case decode raw of
                                          Some r \<Rightarrow> if good r then Some (r, raw) else None
                                        | None \<Rightarrow> None))) in
      case best of
        Some b \<Rightarrow> Inr b
      | None \<Rightarrow> (case recovered of Some b \<Rightarrow> Inr b | None \<Rightarrow> Inl ErrNotFound))"

definition decodeCertified ::
  "names_env \<Rightarrow> int \<Rightarrow> bytes \<Rightarrow> bytes \<Rightarrow> (CertifiedNameRecord \<times> NameRecord) option" where
  "decodeCertified E now raw i =
     (if length raw = 0 then None
      else case UnmarshalCanonical (certC E) raw of
        Inl _ \<Rightarrow> None
      | Inr certified \<Rightarrow>
         (case CertifiedNameRecord_Validate E now certified of
            Inl _ \<Rightarrow> None
          | Inr record \<Rightarrow> if nr_NameID record = i then Some (certified, record) else None))"

definition GetCertified ::
  "('d, 'n, 'i, 'a) service \<Rightarrow> ('d, 'n, 'i, 'a) service_state \<Rightarrow> bytes \<Rightarrow>
   (CertifiedNameRecord \<times> NameRecord \<times> bytes) result" where
  "GetCertified C s i =
     (let E = cf_env C;
          raw0 = (case ds_Get (cf_datastore C) (sv_ds s) (certifiedKey i) of Inr v \<Rightarrow> v | Inl _ \<Rightarrow> []);
          best = map_option (\<lambda>(c, r). (c, r, raw0)) (decodeCertified E (cf_now C) raw0 i);
          remote = (case cf_network C of
                      None \<Rightarrow> None
                    | Some V \<Rightarrow>
                       (case vs_GetValue V (sv_net s) (DHTCertifiedNameKey i) of
                          Inl _ \<Rightarrow> None
                        | Inr raw \<Rightarrow> map_option (\<lambda>(c, r). (c, r, raw)) (decodeCertified E (cf_now C) raw i)))
      in
      case (remote, best) of
        (None, None) \<Rightarrow> Inl ErrNotFound
      | (None, Some b) \<Rightarrow> Inr b
      | (Some r, None) \<Rightarrow> Inr r
      | (Some (rc, rr, rraw), Some (bc, br, braw)) \<Rightarrow>
          if nr_Generation rr > nr_Generation br then Inr (rc, rr, rraw)
          else if nr_Generation rr = nr_Generation br then
            fail_if (cn_Record rc \<noteq> cn_Record bc) (ErrMsg ''equal-generation certified-name fork'')
              (if length (qc_Votes (cn_Commit rc)) > length (qc_Votes (cn_Commit bc))
               then Inr (rc, rr, rraw) else Inr (bc, br, braw))
          else Inr (bc, br, braw))"

definition certificationRequired ::
  "('d, 'n, 'i, 'a) service \<Rightarrow> ('d, 'n, 'i, 'a) service_state \<Rightarrow> bytes \<Rightarrow> bool" where
  "certificationRequired C s i \<longleftrightarrow>
     (case cf_authority C of
        None \<Rightarrow> False
      | Some A \<Rightarrow> au_Read A (sv_auth s) (authorityCertifiedModeName i) = Inr [CHR 0x01])
     \<or> is_ok (ds_Get (cf_datastore C) (sv_ds s) (certifiedKey i))"

definition GetAgreementHead ::
  "('d, 'n, 'i, 'a) service \<Rightarrow> ('d, 'n, 'i, 'a) service_state \<Rightarrow> bytes \<Rightarrow> (NameRecord \<times> bytes) result"
where
  "GetAgreementHead C s i =
     (if certificationRequired C s i
      then bindR (GetCertified C s i) (\<lambda>(certified, record, _). Inr (record, cn_Record certified))
      else Service_Get C s i)"

subsection \<open>Parts of the write paths\<close>

text \<open>The compare-and-swap at the authority, which a service without one skips.\<close>

definition swapAuthority ::
  "('d, 'n, 'i, 'a) service \<Rightarrow> string \<Rightarrow> bytes option \<Rightarrow> bytes option \<Rightarrow>
   (('d, 'n, 'i, 'a) service_state, unit) op" where
  "swapAuthority C name expected next =
     (case cf_authority C of
        None \<Rightarrow> retS ()
      | Some A \<Rightarrow> onAuth (au_CompareAndSwap A name expected next))"

text \<open>The swap from nil whose failure is forgiven when the authority already holds the value:
  the idiom of \<open>ensureNamespaceOwner\<close>, \<open>requireCertifiedMode\<close> and the root check.\<close>

definition claimAuthority ::
  "('d, 'n, 'i, 'a) service \<Rightarrow> string \<Rightarrow> bytes \<Rightarrow> string \<Rightarrow>
   (('d, 'n, 'i, 'a) service_state, unit) op" where
  "claimAuthority C name value msg =
     (case cf_authority C of
        None \<Rightarrow> retS ()
      | Some A \<Rightarrow>
          tryS (onAuth (au_CompareAndSwap A name None (Some value))) (\<lambda>swapped.
          case swapped of
            Inr _ \<Rightarrow> retS ()
          | Inl _ \<Rightarrow> readS (\<lambda>s. au_Read A (sv_auth s) name) (\<lambda>current.
              fail_ifS (current \<noteq> Inr value) (ErrMsg msg) (retS ()))))"

definition requireCertifiedMode ::
  "('d, 'n, 'i, 'a) service \<Rightarrow> bytes \<Rightarrow> (('d, 'n, 'i, 'a) service_state, unit) op" where
  "requireCertifiedMode C i =
     claimAuthority C (authorityCertifiedModeName i) [CHR 0x01] ''cannot establish certified-name mode''"

definition ensureNamespaceOwner ::
  "('d, 'n, 'i, 'a) service \<Rightarrow> NameRecord \<Rightarrow> (('d, 'n, 'i, 'a) service_state, unit) op" where
  "ensureNamespaceOwner C record =
     (let key = namespaceOwnerKey (nr_Namespace record) in
      readS (\<lambda>s. ds_Get (cf_datastore C) (sv_ds s) key) (\<lambda>owner.
      case owner of
        Inr current \<Rightarrow>
          fail_ifS (current \<noteq> nr_Owner record) (ErrMsg ''namespace is owned by a different key'')
            (retS ())
      | Inl err \<Rightarrow>
          fail_ifS (\<not> errors_Is err DsNotFound) err
          (bindS (claimAuthority C (authorityNamespaceName (nr_Namespace record)) (nr_Owner record)
                    ''namespace ownership conflict'') (\<lambda>_.
           onDs (ds_Put (cf_datastore C) key (nr_Owner record))))))"

definition authoritativeCurrent ::
  "('d, 'n, 'i, 'a) service \<Rightarrow> ('d, 'n, 'i, 'a) service_state \<Rightarrow> bytes \<Rightarrow> bytes result" where
  "authoritativeCurrent C s i =
     (case cf_authority C of
        Some A \<Rightarrow> au_Read A (sv_auth s) (authorityName i)
      | None \<Rightarrow> ds_Get (cf_datastore C) (sv_ds s) (currentKey i))"

definition checkPublication :: "('d, 'n, 'i, 'a) service \<Rightarrow> NameRecord \<Rightarrow> unit result" where
  "checkPublication C record =
     (if nr_Tombstone record \<or> \<not> StrictPublish (nr_Policy record) then Inr ()
      else case cf_gate C of
        None \<Rightarrow> Inr ()
      | Some gate \<Rightarrow> wrapR ''strict publication rejected'' (gate record))"

text \<open>The loop of \<open>validateDirectoryChildren\<close>.\<close>

fun checkDirectoryChildren ::
  "('d, 'n, 'i, 'a) service \<Rightarrow> ('d, 'n, 'i, 'a) service_state \<Rightarrow> NameRecord \<Rightarrow> bytes list \<Rightarrow> unit result"
where
  "checkDirectoryChildren C s record [] = Inr ()"
| "checkDirectoryChildren C s record (rawID # rest) =
     bindR (wrapR ''directory child does not resolve'' (Service_Get C s (bytesToNameID rawID)))
     (\<lambda>(child, _).
     fail_if (nr_Tombstone child) (ErrMsg ''directory child is tombstoned'')
     (fail_if (nr_Namespace child \<noteq> nr_Namespace record \<or> nr_Owner child \<noteq> nr_Owner record)
       (ErrMsg ''directory child has a different namespace or owner'')
     (fail_if (path_Dir (nr_Path child) \<noteq> nr_Path record)
       (ErrMsg ''directory child is not directly below'')
       (checkDirectoryChildren C s record rest))))"

definition validateDirectoryChildren ::
  "('d, 'n, 'i, 'a) service \<Rightarrow> ('d, 'n, 'i, 'a) service_state \<Rightarrow> NameRecord \<Rightarrow> unit result" where
  "validateDirectoryChildren C s record =
     (if nr_Tombstone record \<or> nr_Kind record \<noteq> ''directory'' then Inr ()
      else checkDirectoryChildren C s record (nr_DirectoryChildren record))"

definition ValidateProposal ::
  "('d, 'n, 'i, 'a) service \<Rightarrow> ('d, 'n, 'i, 'a) service_state \<Rightarrow> NameRecord \<Rightarrow> unit result" where
  "ValidateProposal C s record =
     bindR (validateDirectoryChildren C s record) (\<lambda>_. checkPublication C record)"

definition persist ::
  "('d, 'n, 'i, 'a) service \<Rightarrow> bytes \<Rightarrow> u64 \<Rightarrow> bytes \<Rightarrow> (('d, 'n, 'i, 'a) service_state, unit) op" where
  "persist C i generation raw =
     onDs (ds_Batch (cf_datastore C) [(currentKey i, raw), (historyKey i generation, raw)])"

definition putValue ::
  "('d, 'n, 'i, 'a) service \<Rightarrow> string \<Rightarrow> bytes \<Rightarrow> (('d, 'n, 'i, 'a) service_state, unit) op" where
  "putValue C key raw =
     (case cf_network C of
        None \<Rightarrow> retS ()
      | Some V \<Rightarrow> tryS (onNet (vs_PutValue V key raw)) (\<lambda>_. retS ()))"

definition publish ::
  "('d, 'n, 'i, 'a) service \<Rightarrow> bytes \<Rightarrow> bytes \<Rightarrow> (('d, 'n, 'i, 'a) service_state, unit) op" where
  "publish C i raw = putValue C (DHTNameKey i) raw"

definition onCommit ::
  "('d, 'n, 'i, 'a) service \<Rightarrow> NameRecord \<Rightarrow> (('d, 'n, 'i, 'a) service_state, unit) op" where
  "onCommit C record s =
     (Inr (), if cf_hook C then s\<lparr>sv_commits := sv_commits s @ [record]\<rparr> else s)"

subsection \<open>The search index\<close>

definition searchIndexEntry :: "NameRecord \<Rightarrow> string" where
  "searchIndexEntry record = nr_Path record @ CHR 0x00 # hex_EncodeToString (nr_Namespace record)"

definition parseSearchIndexEntry :: "names_env \<Rightarrow> string \<Rightarrow> bytes result" where
  "parseSearchIndexEntry E entry =
     (case LastIndexByte entry (CHR 0x00) of
        None \<Rightarrow> Inl (ErrMsg ''malformed name index entry'')
      | Some at \<Rightarrow>
          bindR (ParseNamespaceID (drop (Suc at) entry)) (\<lambda>namespace.
          case NormalizePath (take at entry) of
            Inl _ \<Rightarrow> Inl (ErrMsg ''malformed indexed path'')
          | Inr p \<Rightarrow>
              fail_if (p \<noteq> take at entry) (ErrMsg ''malformed indexed path'')
                (Inr (DeriveNameID E namespace p))))"

definition indexed :: "NameRecord option \<Rightarrow> bool" where
  "indexed r = (case r of None \<Rightarrow> False | Some r \<Rightarrow> \<not> nr_Tombstone r \<and> Searchable (nr_Policy r))"

definition indexCall ::
  "'i search_index \<Rightarrow> string \<Rightarrow> string \<Rightarrow> ('i, unit) op" where
  "indexCall X operation entry =
     (if operation = ''insert'' then si_Insert X entry
      else if operation = ''delete'' then si_Delete X entry
      else failS (ErrMsg ''unknown search-index repair operation''))"

definition updateSearchIndex ::
  "('d, 'n, 'i, 'a) service \<Rightarrow> NameRecord option \<Rightarrow> NameRecord \<Rightarrow>
   (('d, 'n, 'i, 'a) service_state, unit) op" where
  "updateSearchIndex C previous next s =
     (case cf_index C of
        None \<Rightarrow> (Inr (), s)
      | Some X \<Rightarrow>
         (let call =
            (if \<not> indexed previous \<and> indexed (Some next) then Some (''insert'', searchIndexEntry next)
             else if indexed previous \<and> \<not> indexed (Some next)
             then Some (''delete'', searchIndexEntry (the previous)) else None) in
          case call of
            None \<Rightarrow> (Inr (), s)
          | Some (operation, entry) \<Rightarrow>
             (case indexCall X operation entry (sv_index s) of
                (Inr _, ix) \<Rightarrow> (Inr (), s\<lparr>sv_index := ix\<rparr>)
              | (Inl err, ix) \<Rightarrow>
                  (Inr (), s\<lparr>sv_index := ix, sv_indexIncomplete := True,
                             sv_indexPending := sv_indexPending s + 1,
                             sv_indexError := Some err,
                             sv_repairs := sv_repairs s @ [(operation, entry)]\<rparr>))))"

text \<open>One attempt of the repair goroutine \<open>repairSearchIndex\<close> for its operation and entry.\<close>

definition repairSearchIndex ::
  "'i search_index \<Rightarrow> string \<times> string \<Rightarrow> ('d, 'n, 'i, 'a) service_state \<Rightarrow> ('d, 'n, 'i, 'a) service_state"
where
  "repairSearchIndex X job s =
     (case indexCall X (fst job) (snd job) (sv_index s) of
        (Inr _, ix) \<Rightarrow>
          (let s1 = s\<lparr>sv_index := ix, sv_indexPending := sv_indexPending s - 1,
                      sv_repairs := remove1 job (sv_repairs s)\<rparr> in
           if sv_indexPending s1 = 0
           then s1\<lparr>sv_indexIncomplete := False, sv_indexError := None\<rparr> else s1)
      | (Inl err, ix) \<Rightarrow> s\<lparr>sv_index := ix, sv_indexError := Some err\<rparr>)"

subsection \<open>Create, Update, Delete\<close>

text \<open>
  Each handler is split at the compare-and-swap that decides it: what it reads and checks
  before, and what it does from the swap on. The handler is the two in sequence.
\<close>

definition Create_prepare ::
  "('d, 'n, 'i, 'a) service \<Rightarrow> bytes \<Rightarrow> (('d, 'n, 'i, 'a) service_state, NameRecord) op" where
  "Create_prepare C raw =
     bindS (liftR (DecodeNameRecord (cf_env C) raw)) (\<lambda>record.
     bindS (liftR (NameRecord_Validate (cf_env C) (cf_now C) record None)) (\<lambda>_.
     bindS (ensureNamespaceOwner C record) (\<lambda>_.
     readS (\<lambda>s. validateDirectoryChildren C s record) (\<lambda>children.
     bindS (liftR children) (\<lambda>_.
     let i = bytesToNameID (nr_NameID record) in
     readS (\<lambda>s. certificationRequired C s i) (\<lambda>certified.
     fail_ifS certified ErrCertificationRequired
     (readS (\<lambda>s. ds_Get (cf_datastore C) (sv_ds s) (currentKey i)) (\<lambda>current.
      case current of
        Inr _ \<Rightarrow> failS ErrConflict
      | Inl err \<Rightarrow>
          fail_ifS (\<not> errors_Is err DsNotFound) err
          (bindS (liftR (checkPublication C record)) (\<lambda>_. retS record))))))))))"

definition commit ::
  "('d, 'n, 'i, 'a) service \<Rightarrow> bytes \<Rightarrow> bytes option \<Rightarrow> NameRecord option \<Rightarrow> NameRecord \<Rightarrow> bytes \<Rightarrow>
   (('d, 'n, 'i, 'a) service_state, NameRecord) op" where
  "commit C i expected previous next raw =
     bindS (swapAuthority C (authorityName i) expected (Some raw)) (\<lambda>_.
     bindS (persist C i (nr_Generation next) raw) (\<lambda>_.
     bindS (updateSearchIndex C previous next) (\<lambda>_.
     bindS (onCommit C next) (\<lambda>_.
     bindS (publish C i raw) (\<lambda>_.
     retS next)))))"

definition Service_Create ::
  "('d, 'n, 'i, 'a) service \<Rightarrow> bytes \<Rightarrow> (('d, 'n, 'i, 'a) service_state, NameRecord) op" where
  "Service_Create C raw =
     bindS (Create_prepare C raw) (\<lambda>record.
     commit C (bytesToNameID (nr_NameID record)) None None record raw)"

definition Update_prepare ::
  "('d, 'n, 'i, 'a) service \<Rightarrow> bytes \<Rightarrow> u64 \<Rightarrow> bytes \<Rightarrow> ('d, 'n, 'i, 'a) service_state \<Rightarrow>
   (bytes \<times> NameRecord \<times> NameRecord) result" where
  "Update_prepare C i expected raw s =
     fail_if (certificationRequired C s i) ErrCertificationRequired
     (bindR (DecodeNameRecord (cf_env C) raw) (\<lambda>next.
      fail_if (nr_NameID next \<noteq> i) (ErrMsg ''request NameID does not match record'')
     (case authoritativeCurrent C s i of
        Inl err \<Rightarrow> if errors_Is err DsNotFound then Inl ErrNotFound else Inl err
      | Inr currentRaw \<Rightarrow>
          bindR (DecodeNameRecord (cf_env C) currentRaw) (\<lambda>current.
          fail_if (nr_Generation current \<noteq> expected) ErrConflict
          (bindR (NameRecord_Validate (cf_env C) (cf_now C) next (Some current)) (\<lambda>_.
           bindR (validateDirectoryChildren C s next) (\<lambda>_.
           bindR (checkPublication C next) (\<lambda>_.
           Inr (currentRaw, current, next)))))))))"

definition Service_Update ::
  "('d, 'n, 'i, 'a) service \<Rightarrow> bytes \<Rightarrow> u64 \<Rightarrow> bytes \<Rightarrow>
   (('d, 'n, 'i, 'a) service_state, NameRecord) op" where
  "Service_Update C i expected raw =
     readS (Update_prepare C i expected raw) (\<lambda>prepared.
     bindS (liftR prepared) (\<lambda>(currentRaw, current, next).
     commit C i (Some currentRaw) (Some current) next raw))"

definition Service_Delete ::
  "('d, 'n, 'i, 'a) service \<Rightarrow> bytes \<Rightarrow> u64 \<Rightarrow> bytes \<Rightarrow>
   (('d, 'n, 'i, 'a) service_state, NameRecord) op" where
  "Service_Delete C i expected raw =
     bindS (liftR (DecodeNameRecord (cf_env C) raw)) (\<lambda>record.
     fail_ifS (\<not> nr_Tombstone record) (ErrMsg ''delete requires a signed tombstone'')
       (Service_Update C i expected raw))"

subsection \<open>Certified commits\<close>

text \<open>The head a certified record is checked against: \<open>current\<close> with its bytes, or nothing.\<close>

definition certifiedHead ::
  "('d, 'n, 'i, 'a) service \<Rightarrow> ('d, 'n, 'i, 'a) service_state \<Rightarrow> bytes \<Rightarrow> (bytes \<times> NameRecord) option result"
where
  "certifiedHead C s i =
     (case authoritativeCurrent C s i of
        Inr raw \<Rightarrow> bindR (DecodeNameRecord (cf_env C) raw) (\<lambda>current. Inr (Some (raw, current)))
      | Inl err \<Rightarrow>
          fail_if (\<not> errors_Is err DsNotFound \<and> \<not> errors_Is err ErrNotFound) err (Inr None))"

text \<open>Whether the certificate is for the committed head itself (\<open>sameCommittedHead\<close>).\<close>

definition checkCertifiedHead ::
  "('d, 'n, 'i, 'a) service \<Rightarrow> CertifiedNameRecord \<Rightarrow> NameRecord \<Rightarrow> (bytes \<times> NameRecord) option \<Rightarrow>
   bool result" where
  "checkCertifiedHead C certified record head =
     (if (case head of Some (_, current) \<Rightarrow> nr_Generation current = nr_Generation record | None \<Rightarrow> False)
      then fail_if (fst (the head) \<noteq> cn_Record certified)
             (ErrMsg ''equal-generation certified-name fork'') (Inr True)
      else bindR (NameRecord_Validate (cf_env C) (cf_now C) record (map_option snd head)) (\<lambda>_. Inr False))"

definition checkRoot ::
  "('d, 'n, 'i, 'a) service \<Rightarrow> ('d, 'n, 'i, 'a) service_state \<Rightarrow> bytes \<Rightarrow> bytes \<Rightarrow> unit result" where
  "checkRoot C s namespace rootRaw =
     (case ds_Get (cf_datastore C) (sv_ds s) (namespaceRootKey namespace) of
        Inr existing \<Rightarrow>
          fail_if (existing \<noteq> rootRaw)
            (ErrMsg ''namespace-root conflict; v1 committee membership is immutable'') (Inr ())
      | Inl err \<Rightarrow> fail_if (\<not> errors_Is err DsNotFound) err (Inr ()))"

definition CommitCertified_prepare ::
  "('d, 'n, 'i, 'a) service \<Rightarrow> bytes \<Rightarrow>
   (('d, 'n, 'i, 'a) service_state,
    CertifiedNameRecord \<times> NameRecord \<times> bytes \<times> (bytes \<times> NameRecord) option \<times> bool) op" where
  "CommitCertified_prepare C raw =
     bindS (liftR (UnmarshalCanonical (certC (cf_env C)) raw)) (\<lambda>certified.
     bindS (liftR (CertifiedNameRecord_Validate (cf_env C) (cf_now C) certified)) (\<lambda>record.
     let i = bytesToNameID (nr_NameID record) in
     readS (\<lambda>s. certifiedHead C s i) (\<lambda>headR.
     bindS (liftR headR) (\<lambda>head.
     bindS (liftR (checkCertifiedHead C certified record head)) (\<lambda>same.
     bindS (ensureNamespaceOwner C record) (\<lambda>_.
     readS (\<lambda>s. validateDirectoryChildren C s record) (\<lambda>children.
     bindS (liftR children) (\<lambda>_.
     bindS (liftR (MarshalCanonical (rootC (cf_env C)) (cn_Root certified))) (\<lambda>rootRaw.
     readS (\<lambda>s. checkRoot C s (nr_Namespace record) rootRaw) (\<lambda>rootOk.
     bindS (liftR rootOk) (\<lambda>_.
     bindS (if same then retS ()
            else claimAuthority C (authorityNamespaceRootName (nr_Namespace record)) rootRaw
                   ''namespace-root authority conflict'') (\<lambda>_.
     bindS (liftR (checkPublication C record)) (\<lambda>_.
     bindS (requireCertifiedMode C i) (\<lambda>_.
     retS (certified, record, rootRaw, head, same)))))))))))))))"

definition CommitCertified_commit ::
  "('d, 'n, 'i, 'a) service \<Rightarrow> bytes \<Rightarrow> CertifiedNameRecord \<Rightarrow> NameRecord \<Rightarrow> bytes \<Rightarrow>
   (bytes \<times> NameRecord) option \<Rightarrow> bool \<Rightarrow> (('d, 'n, 'i, 'a) service_state, NameRecord) op" where
  "CommitCertified_commit C raw certified record rootRaw head same =
     (let i = bytesToNameID (nr_NameID record) in
      bindS (swapAuthority C (authorityName i) (map_option fst head) (Some (cn_Record certified))) (\<lambda>_.
      bindS (onDs (ds_Batch (cf_datastore C)
        [(currentKey i, cn_Record certified),
         (historyKey i (nr_Generation record), cn_Record certified),
         (certifiedKey i, raw), (certifiedHistoryKey i (nr_Generation record), raw),
         (namespaceRootKey (rt_Namespace (cn_Root certified)), rootRaw)])) (\<lambda>_.
      if same then retS record
      else
        bindS (updateSearchIndex C (map_option snd head) record) (\<lambda>_.
        bindS (onCommit C record) (\<lambda>_.
        bindS (publish C i (cn_Record certified)) (\<lambda>_.
        bindS (putValue C (DHTNamespaceRootKey (bytesToNameID (rt_Namespace (cn_Root certified)))) rootRaw) (\<lambda>_.
        bindS (putValue C (DHTCertifiedNameKey i) raw) (\<lambda>_.
        retS record))))))))"

definition CommitCertified ::
  "('d, 'n, 'i, 'a) service \<Rightarrow> bytes \<Rightarrow> (('d, 'n, 'i, 'a) service_state, NameRecord) op" where
  "CommitCertified C raw =
     bindS (CommitCertified_prepare C raw) (\<lambda>(certified, record, rootRaw, head, same).
     CommitCertified_commit C raw certified record rootRaw head same)"

text \<open>The follower's head check in \<open>WriteBackCertified\<close>.\<close>

definition checkWriteBack ::
  "('d, 'n, 'i, 'a) service \<Rightarrow> ('d, 'n, 'i, 'a) service_state \<Rightarrow> CertifiedNameRecord \<Rightarrow> NameRecord \<Rightarrow>
   NameRecord option result" where
  "checkWriteBack C s certified record =
     (case ds_Get (cf_datastore C) (sv_ds s) (currentKey (bytesToNameID (nr_NameID record))) of
        Inr currentRaw \<Rightarrow>
          bindR (DecodeNameRecord (cf_env C) currentRaw) (\<lambda>previous.
          fail_if (nr_Generation previous > nr_Generation record)
            (ErrMsg ''certified write-back is stale'')
          (fail_if (nr_Generation previous = nr_Generation record \<and> currentRaw \<noteq> cn_Record certified)
            (ErrMsg ''equal-generation certified-name fork'') (Inr (Some previous))))
      | Inl err \<Rightarrow> fail_if (\<not> errors_Is err DsNotFound) err (Inr None))"

definition WriteBackCertified ::
  "('d, 'n, 'i, 'a) service \<Rightarrow> bytes \<Rightarrow> (('d, 'n, 'i, 'a) service_state, NameRecord) op" where
  "WriteBackCertified C raw =
     bindS (liftR (UnmarshalCanonical (certC (cf_env C)) raw)) (\<lambda>certified.
     bindS (liftR (CertifiedNameRecord_Validate (cf_env C) (cf_now C) certified)) (\<lambda>record.
     let i = bytesToNameID (nr_NameID record) in
     readS (\<lambda>s. checkWriteBack C s certified record) (\<lambda>prev.
     bindS (liftR prev) (\<lambda>previous.
     bindS (liftR (MarshalCanonical (rootC (cf_env C)) (cn_Root certified))) (\<lambda>rootRaw.
     readS (\<lambda>s. checkRoot C s (nr_Namespace record) rootRaw) (\<lambda>rootOk.
     bindS (liftR rootOk) (\<lambda>_.
     readS (\<lambda>s. ds_Get (cf_datastore C) (sv_ds s) (namespaceOwnerKey (nr_Namespace record))) (\<lambda>ownerR.
     bindS (liftR (case ownerR of
         Inr owner \<Rightarrow> fail_if (owner \<noteq> nr_Owner record)
                        (ErrMsg ''namespace is owned by a different key'') (Inr ())
       | Inl err \<Rightarrow> fail_if (\<not> errors_Is err DsNotFound) err (Inr ()))) (\<lambda>_.
     bindS (onDs (ds_Batch (cf_datastore C)
        [(currentKey i, cn_Record certified),
         (historyKey i (nr_Generation record), cn_Record certified),
         (certifiedKey i, raw), (certifiedHistoryKey i (nr_Generation record), raw),
         (namespaceRootKey (rt_Namespace (cn_Root certified)), rootRaw),
         (namespaceOwnerKey (nr_Namespace record), nr_Owner record)])) (\<lambda>_.
     bindS (if (case previous of None \<Rightarrow> True | Some p \<Rightarrow> nr_Generation p < nr_Generation record)
            then updateSearchIndex C previous record else retS ()) (\<lambda>_.
     retS record)))))))))))"

subsection \<open>Rename\<close>

text \<open>
  \<open>Rename\<close> locks the mutexes of both names, smaller name first. For equal names that is the same
  mutex twice, which Go never grants: \<open>None\<close> says that the call does not return.
\<close>

definition Rename_prepare ::
  "('d, 'n, 'i, 'a) service \<Rightarrow> bytes \<Rightarrow> bytes \<Rightarrow> u64 \<Rightarrow> bytes \<Rightarrow> bytes \<Rightarrow>
   ('d, 'n, 'i, 'a) service_state \<Rightarrow> (NameRecord \<times> NameRecord \<times> NameRecord) result" where
  "Rename_prepare C oldID newID oldExpected newRaw tombstoneRaw s =
     (case ds_Get (cf_datastore C) (sv_ds s) (currentKey oldID) of
        Inl _ \<Rightarrow> Inl ErrNotFound
      | Inr oldRaw \<Rightarrow>
          bindR (DecodeNameRecord (cf_env C) oldRaw) (\<lambda>oldRecord.
          fail_if (nr_Generation oldRecord \<noteq> oldExpected) ErrConflict
          (case ds_Get (cf_datastore C) (sv_ds s) (currentKey newID) of
             Inr _ \<Rightarrow> Inl ErrConflict
           | Inl err \<Rightarrow>
               fail_if (\<not> errors_Is err DsNotFound) err
               (bindR (DecodeNameRecord (cf_env C) newRaw) (\<lambda>newRecord.
                bindR (DecodeNameRecord (cf_env C) tombstoneRaw) (\<lambda>tombstone.
                fail_if (nr_NameID newRecord \<noteq> newID \<or> nr_NameID tombstone \<noteq> oldID
                         \<or> \<not> nr_Tombstone tombstone)
                  (ErrMsg ''rename records do not match requested names'')
                (bindR (NameRecord_Validate (cf_env C) (cf_now C) newRecord None) (\<lambda>_.
                 bindR (validateDirectoryChildren C s newRecord) (\<lambda>_.
                 bindR (NameRecord_Validate (cf_env C) (cf_now C) tombstone (Some oldRecord)) (\<lambda>_.
                 bindR (checkPublication C newRecord) (\<lambda>_.
                 Inr (oldRecord, newRecord, tombstone))))))))))))"

definition Rename_announce ::
  "('d, 'n, 'i, 'a) service \<Rightarrow> bytes \<Rightarrow> bytes \<Rightarrow> bytes \<Rightarrow> bytes \<Rightarrow> NameRecord \<Rightarrow> NameRecord \<Rightarrow> NameRecord \<Rightarrow>
   (('d, 'n, 'i, 'a) service_state, unit) op" where
  "Rename_announce C oldID newID newRaw tombstoneRaw oldRecord newRecord tombstone =
     bindS (updateSearchIndex C None newRecord) (\<lambda>_.
     bindS (updateSearchIndex C (Some oldRecord) tombstone) (\<lambda>_.
     bindS (onCommit C newRecord) (\<lambda>_.
     bindS (onCommit C tombstone) (\<lambda>_.
     bindS (publish C newID newRaw) (\<lambda>_.
     publish C oldID tombstoneRaw)))))"

definition Rename_locked ::
  "('d, 'n, 'i, 'a) service \<Rightarrow> bytes \<Rightarrow> bytes \<Rightarrow> u64 \<Rightarrow> bytes \<Rightarrow> bytes \<Rightarrow>
   (('d, 'n, 'i, 'a) service_state, unit) op" where
  "Rename_locked C oldID newID oldExpected newRaw tombstoneRaw =
     readS (Rename_prepare C oldID newID oldExpected newRaw tombstoneRaw) (\<lambda>prepared.
     bindS (liftR prepared) (\<lambda>(oldRecord, newRecord, tombstone).
     bindS (onDs (ds_Batch (cf_datastore C)
        [(currentKey newID, newRaw), (historyKey newID (nr_Generation newRecord), newRaw),
         (currentKey oldID, tombstoneRaw), (historyKey oldID (nr_Generation tombstone), tombstoneRaw)])) (\<lambda>_.
     Rename_announce C oldID newID newRaw tombstoneRaw oldRecord newRecord tombstone)))"

definition Service_Rename ::
  "('d, 'n, 'i, 'a) service \<Rightarrow> bytes \<Rightarrow> bytes \<Rightarrow> u64 \<Rightarrow> bytes \<Rightarrow> bytes \<Rightarrow>
   ('d, 'n, 'i, 'a) service_state \<Rightarrow> (unit result \<times> ('d, 'n, 'i, 'a) service_state) option" where
  "Service_Rename C oldID newID oldExpected newRaw tombstoneRaw s =
     (if certificationRequired C s oldID \<or> certificationRequired C s newID
      then Some (Inl ErrCertificationRequired, s)
      else if oldID = newID then None
      else Some (Rename_locked C oldID newID oldExpected newRaw tombstoneRaw s))"

subsection \<open>Search\<close>

record SearchResult =
  sr_Records :: "NameRecord list"
  sr_FanoutAttempted :: nat
  sr_FanoutCompleted :: nat
  sr_Complete :: bool
  sr_Scope :: string
  sr_IndexRepairs :: int
  sr_IncompleteCause :: "go_error option"

definition wanted :: "string \<Rightarrow> string \<Rightarrow> NameRecord \<Rightarrow> bool" where
  "wanted prefix suffix record \<longleftrightarrow>
     \<not> nr_Tombstone record \<and> Searchable (nr_Policy record)
     \<and> (prefix = [] \<or> HasPrefix (nr_Path record) prefix)
     \<and> (suffix = [] \<or> HasSuffix (nr_Path record) suffix)"

text \<open>The loop over the entries of the datastore query.\<close>

fun search_local_loop ::
  "names_env \<Rightarrow> int \<Rightarrow> string \<Rightarrow> string \<Rightarrow> bytes result list \<Rightarrow> NameRecord list \<Rightarrow> bool \<Rightarrow>
   NameRecord list \<times> bool" where
  "search_local_loop E now prefix suffix [] acc complete = (acc, complete)"
| "search_local_loop E now prefix suffix (entry # rest) acc complete =
     (case bindR entry (DecodeNameRecord E) of
        Inl _ \<Rightarrow> search_local_loop E now prefix suffix rest acc False
      | Inr record \<Rightarrow>
          if \<not> is_ok (validateRecordEnvelope E now record)
          then search_local_loop E now prefix suffix rest acc False
          else if \<not> wanted prefix suffix record
          then search_local_loop E now prefix suffix rest acc complete
          else search_local_loop E now prefix suffix rest (acc @ [record]) complete)"

text \<open>The loop over the entries of the distributed index, with the map \<open>seen\<close>.\<close>

fun search_index_loop ::
  "('d, 'n, 'i, 'a) service \<Rightarrow> ('d, 'n, 'i, 'a) service_state \<Rightarrow> string \<Rightarrow> string \<Rightarrow> string list \<Rightarrow>
   bytes list \<Rightarrow> NameRecord list \<Rightarrow> bool \<Rightarrow> NameRecord list \<times> bool" where
  "search_index_loop C s prefix suffix [] seen acc complete = (acc, complete)"
| "search_index_loop C s prefix suffix (entry # rest) seen acc complete =
     (case parseSearchIndexEntry (cf_env C) entry of
        Inl _ \<Rightarrow> search_index_loop C s prefix suffix rest seen acc False
      | Inr i \<Rightarrow>
          if i \<in> set seen then search_index_loop C s prefix suffix rest seen acc complete
          else case Service_Get C s i of
            Inl _ \<Rightarrow> search_index_loop C s prefix suffix rest (i # seen) acc False
          | Inr (record, _) \<Rightarrow>
              search_index_loop C s prefix suffix rest (i # seen)
                (if wanted prefix suffix record then acc @ [record] else acc) complete)"

text \<open>
  \<open>sort.Slice\<close> by path is not stable; the model uses the stable sort, so the order among records
  with equal paths (in different namespaces) is one of those the code may return.
\<close>

definition searchDistributedIndex ::
  "('d, 'n, 'i, 'a) service \<Rightarrow> ('d, 'n, 'i, 'a) service_state \<Rightarrow> 'i search_index \<Rightarrow> string \<Rightarrow> string \<Rightarrow>
   SearchResult \<times> go_error option" where
  "searchDistributedIndex C s X prefix suffix =
     (case si_Query X (sv_index s) prefix suffix of
        (entries, attempted, completed, queryErr) \<Rightarrow>
          (case search_index_loop C s prefix suffix entries [] []
                  (queryErr = None \<and> attempted = completed \<and> \<not> sv_indexIncomplete s) of
             (records, complete) \<Rightarrow>
               (\<lparr>sr_Records = sort_key nr_Path records, sr_FanoutAttempted = attempted,
                 sr_FanoutCompleted = completed, sr_Complete = complete, sr_Scope = ''current-searchable-names'',
                 sr_IndexRepairs = sv_indexPending s, sr_IncompleteCause = sv_indexError s\<rparr>, queryErr)))"

definition Service_Search ::
  "('d, 'n, 'i, 'a) service \<Rightarrow> ('d, 'n, 'i, 'a) service_state \<Rightarrow> string \<Rightarrow> string \<Rightarrow> nat \<Rightarrow> nat \<Rightarrow>
   SearchResult \<times> go_error option" where
  "Service_Search C s prefix suffix attempted completed =
     (case cf_index C of
        Some X \<Rightarrow> searchDistributedIndex C s X prefix suffix
      | None \<Rightarrow>
         (let result = (\<lambda>records complete.
                \<lparr>sr_Records = records, sr_FanoutAttempted = attempted, sr_FanoutCompleted = completed,
                 sr_Complete = complete, sr_Scope = ''current-searchable-names'', sr_IndexRepairs = 0, sr_IncompleteCause = None\<rparr>) in
          case cf_query C (sv_ds s) ''/mutable/names/'' of
            Inl err \<Rightarrow> (result [] (attempted = completed), Some err)
          | Inr entries \<Rightarrow>
             (case search_local_loop (cf_env C) (cf_now C) prefix suffix entries [] (attempted = completed) of
                (records, complete) \<Rightarrow> (result (sort_key nr_Path records) complete, None))))"

end
