(* ===== verification/Tuple_Native.thy ===== *)
theory Tuple_Native
  imports Go_Strings Go_Datastore "HOL-Library.Multiset"
begin

text \<open>
  \<open>internal/tuplespace/native.go\<close>: the local tuple space, a list of named tuples behind a
  mutex. Each operation is one critical section, so the model is a function on the list. The
  regular expression engine of the standard library is the parameter \<open>re\<close>
  (\<open>regexp.Compile\<close> followed by \<open>MatchString\<close>, \<open>None\<close> when the pattern does not compile); the
  choice between exact, wildcard and regular expression matching and the pattern that is
  compiled are as in the code. The results: the operations refine a multiset of tuples, a
  consumed tuple is the oldest match and disappears once, and on exact names the space is a
  compare-and-swap register file, which is the contract the mutable-name plane relies on.
\<close>

type_synonym tuple = "string \<times> bytes"

record native =
  nt_tuples :: "tuple list"
  nt_checker :: "(string \<Rightarrow> unit result) option"

type_synonym regexp = "string \<Rightarrow> (string \<Rightarrow> bool) option"

definition OpTsPut :: string where "OpTsPut = ''TsPut''"
definition OpTsGet :: string where "OpTsGet = ''TsGet''"
definition OpTsRead :: string where "OpTsRead = ''TsRead''"

definition CheckPermission :: "native \<Rightarrow> string \<Rightarrow> unit result" where
  "CheckPermission n operation =
     (case nt_checker n of None \<Rightarrow> Inr () | Some check \<Rightarrow> check operation)"

subsection \<open>Expressions\<close>

definition regexMeta :: string where
  "regexMeta = ''.+?^$[]{}|()'' @ [CHR 0x5C]"

definition isTuplePattern :: "string \<Rightarrow> bool" where
  "isTuplePattern expr \<longleftrightarrow> (\<exists>char\<in>set (CHR ''*'' # regexMeta). \<exists>exprChar\<in>set expr. exprChar = char)"

definition ContainsAny :: "string \<Rightarrow> string \<Rightarrow> bool" where
  "ContainsAny s chars \<longleftrightarrow> (\<exists>c\<in>set s. c \<in> set chars)"

text \<open>\<open>regexp.QuoteMeta\<close> escapes the metacharacters of the engine with a backslash.\<close>

definition QuoteMeta :: "string \<Rightarrow> string" where
  "QuoteMeta s =
     concat (map (\<lambda>c. if c \<in> set (CHR ''*'' # regexMeta) then [CHR 0x5C, c] else [c]) s)"

fun join_with :: "string \<Rightarrow> string list \<Rightarrow> string" where
  "join_with sep [] = []"
| "join_with sep [w] = w"
| "join_with sep (w # v # ws) = w @ sep @ join_with sep (v # ws)"

definition compileTupleMatcher :: "regexp \<Rightarrow> string \<Rightarrow> (string \<Rightarrow> bool) result" where
  "compileTupleMatcher re expr =
     fail_if (expr = []) (ErrWrap ''empty expression'' ErrInvalidTuplePattern)
     (if CHR ''*'' \<notin> set expr \<and> \<not> ContainsAny expr regexMeta
      then Inr (\<lambda>name. name = expr)
      else
        let pattern =
          (if \<not> ContainsAny expr regexMeta
           then join_with ''.*'' (map QuoteMeta (Split (CHR ''*'') expr))
           else expr) in
        case re (''^(?:'' @ pattern @ '')$'') of
          None \<Rightarrow> Inl (ErrWrap ''regexp'' ErrInvalidTuplePattern)
        | Some matches \<Rightarrow> Inr matches)"

subsection \<open>Operations\<close>

definition TsPut :: "string \<Rightarrow> bytes \<Rightarrow> (native, int) op" where
  "TsPut tpname tpvalue =
     fail_ifS (tpname = []) (ErrMsg ''tuple name required'')
     (fail_ifS (length tpvalue = 0) (ErrMsg ''tuple value required'')
     (readS (\<lambda>n. CheckPermission n OpTsPut) (\<lambda>allowed.
      bindS (liftR allowed) (\<lambda>_ n.
      (Inr 0, n\<lparr>nt_tuples := nt_tuples n @ [(tpname, tpvalue)]\<rparr>)))))"

definition TsReplace :: "string \<Rightarrow> bytes \<Rightarrow> (native, int) op" where
  "TsReplace tpname tpvalue =
     fail_ifS (tpname = []) (ErrMsg ''tuple name required'')
     (fail_ifS (isTuplePattern tpname) (ErrMsg ''tuple replacement requires an exact name'')
     (fail_ifS (length tpvalue = 0) (ErrMsg ''tuple value required'')
     (readS (\<lambda>n. CheckPermission n OpTsPut) (\<lambda>allowed.
      bindS (liftR allowed) (\<lambda>_ n.
      (Inr 0, n\<lparr>nt_tuples := filter (\<lambda>t. fst t \<noteq> tpname) (nt_tuples n) @ [(tpname, tpvalue)]\<rparr>))))))"

definition TsRead :: "regexp \<Rightarrow> native \<Rightarrow> string \<Rightarrow> bytes result" where
  "TsRead re n expr =
     bindR (compileTupleMatcher re expr) (\<lambda>matches.
     bindR (CheckPermission n OpTsRead) (\<lambda>_.
     case List.find (\<lambda>t. matches (fst t)) (nt_tuples n) of
       None \<Rightarrow> Inl ErrTupleNotFound | Some t \<Rightarrow> Inr (snd t)))"

text \<open>The loop of \<open>TsGet\<close>: the first match and the list without it.\<close>

fun take_first :: "('a \<Rightarrow> bool) \<Rightarrow> 'a list \<Rightarrow> ('a \<times> 'a list) option" where
  "take_first P [] = None"
| "take_first P (x # xs) =
     (if P x then Some (x, xs)
      else case take_first P xs of None \<Rightarrow> None | Some (y, ys) \<Rightarrow> Some (y, x # ys))"

definition TsGet :: "regexp \<Rightarrow> string \<Rightarrow> (native, bytes) op" where
  "TsGet re expr =
     bindS (liftR (compileTupleMatcher re expr)) (\<lambda>matches.
     readS (\<lambda>n. CheckPermission n OpTsGet) (\<lambda>allowed.
     bindS (liftR allowed) (\<lambda>_ n.
     case take_first (\<lambda>t. matches (fst t)) (nt_tuples n) of
       None \<Rightarrow> (Inl ErrTupleNotFound, n)
     | Some (t, kept) \<Rightarrow> (Inr (snd t), n\<lparr>nt_tuples := kept\<rparr>))))"

definition Len :: "native \<Rightarrow> nat" where
  "Len n = length (nt_tuples n)"

definition SetExactState :: "string \<Rightarrow> bytes list \<Rightarrow> native \<Rightarrow> native" where
  "SetExactState name values n =
     n\<lparr>nt_tuples := filter (\<lambda>t. fst t \<noteq> name) (nt_tuples n) @ map (\<lambda>v. (name, v)) values\<rparr>"

text \<open>A nil argument is \<open>None\<close>. The scan keeps the last value of the name and counts.\<close>

definition CompareAndSwapExact ::
  "string \<Rightarrow> bytes option \<Rightarrow> bytes option \<Rightarrow> (native, unit) op" where
  "CompareAndSwapExact name expected next =
     fail_ifS (name = [] \<or> isTuplePattern name) (ErrMsg ''CAS requires an exact name'')
     (readS (\<lambda>n. map snd (filter (\<lambda>t. fst t = name) (nt_tuples n))) (\<lambda>found.
      fail_ifS (length found > 1 \<or> expected = None \<and> length found \<noteq> 0
                \<or> expected \<noteq> None \<and> (length found \<noteq> 1 \<or> Some (last found) \<noteq> expected))
        ErrTupleCASConflict
      (\<lambda>n. (Inr (), n\<lparr>nt_tuples := filter (\<lambda>t. fst t \<noteq> name) (nt_tuples n)
              @ (case next of None \<Rightarrow> [] | Some v \<Rightarrow> [(name, v)])\<rparr>))))"

definition ReadExact :: "regexp \<Rightarrow> native \<Rightarrow> string \<Rightarrow> bytes result" where
  "ReadExact re n name = TsRead re n name"

subsection \<open>Exact names\<close>

definition exact_name :: "string \<Rightarrow> bool" where
  "exact_name name \<longleftrightarrow> name \<noteq> [] \<and> \<not> isTuplePattern name"

lemma compile_exact [simp]:
  "exact_name name \<Longrightarrow> compileTupleMatcher re name = Inr (\<lambda>x. x = name)"
  by (auto simp: compileTupleMatcher_def exact_name_def isTuplePattern_def ContainsAny_def)

lemma take_first_None: "take_first P xs = None \<longleftrightarrow> (\<forall>x\<in>set xs. \<not> P x)"
  by (induction xs) (auto split: option.splits)

lemma take_first_Some:
  "take_first P xs = Some (x, ys) \<Longrightarrow>
     \<exists>as bs. xs = as @ x # bs \<and> ys = as @ bs \<and> P x \<and> (\<forall>a\<in>set as. \<not> P a)"
proof (induction xs arbitrary: ys)
  case (Cons z zs)
  show ?case
  proof (cases "P z")
    case True
    with Cons.prems have "z = x" "ys = zs" by simp_all
    with True show ?thesis by (intro exI [of _ "[]"] exI [of _ zs]) simp
  next
    case False
    with Cons.prems obtain ws where "take_first P zs = Some (x, ws)" "ys = z # ws"
      by (auto split: option.splits)
    with Cons.IH [of ws] False obtain as bs where
      "zs = as @ x # bs" "ys = z # as @ bs" "P x" "\<forall>a\<in>set as. \<not> P a" by auto
    with False show ?thesis by (intro exI [of _ "z # as"] exI [of _ bs]) simp
  qed
qed simp

lemma take_first_mset: "take_first P xs = Some (x, ys) \<Longrightarrow> mset xs = add_mset x (mset ys)"
  using take_first_Some by fastforce

subsection \<open>Consumption\<close>

text \<open>What a successful \<open>TsGet\<close> does: it removes the oldest tuple that matches.\<close>

lemma TsGet_ok:
  assumes "TsGet re expr n = (Inr v, n')"
  obtains matches name as bs where "compileTupleMatcher re expr = Inr matches"
    "nt_tuples n = as @ (name, v) # bs" "nt_tuples n' = as @ bs" "matches name"
    "\<forall>t\<in>set as. \<not> matches (fst t)"
proof -
  from assms obtain matches t kept where m: "compileTupleMatcher re expr = Inr matches"
    "take_first (\<lambda>t. matches (fst t)) (nt_tuples n) = Some (t, kept)" "v = snd t"
    "n' = n\<lparr>nt_tuples := kept\<rparr>"
    by (auto simp: TsGet_def op_inv split: option.splits prod.splits)
  with take_first_Some [OF m(2)] that [OF m(1)] show thesis by (cases t) auto
qed

lemma TsGet_failed: "TsGet re expr n = (Inl e, n') \<Longrightarrow> n' = n"
  by (auto simp: TsGet_def bindS_Inl op_inv split: option.splits)

lemma TsPut_ok:
  "TsPut name v n = (Inr c, n') \<Longrightarrow> nt_tuples n' = nt_tuples n @ [(name, v)]"
  by (auto simp: TsPut_def op_inv)

lemma TsPut_failed: "TsPut name v n = (Inl e, n') \<Longrightarrow> n' = n"
  by (auto simp: TsPut_def bindS_Inl op_inv fail_ifS_def failS_def split: if_splits)

text \<open>Clients of the space interleave puts and gets; the mutex makes a schedule a sequence.\<close>

datatype call = Put string bytes | Get string | ReadC string

text \<open>The values put, the values consumed, and the state left by a schedule.\<close>

fun schedule :: "regexp \<Rightarrow> call list \<Rightarrow> native \<Rightarrow> bytes list \<times> bytes list \<times> native" where
  "schedule re [] n = ([], [], n)"
| "schedule re (Put name v # cs) n =
     (case TsPut name v n of
        (Inr _, n1) \<Rightarrow> (case schedule re cs n1 of (puts, gets, m) \<Rightarrow> (v # puts, gets, m))
      | (Inl _, n1) \<Rightarrow> schedule re cs n1)"
| "schedule re (Get expr # cs) n =
     (case TsGet re expr n of
        (Inr v, n1) \<Rightarrow> (case schedule re cs n1 of (puts, gets, m) \<Rightarrow> (puts, v # gets, m))
      | (Inl _, n1) \<Rightarrow> schedule re cs n1)"
| "schedule re (ReadC expr # cs) n = schedule re cs n"

definition values_of :: "native \<Rightarrow> bytes multiset" where
  "values_of n = mset (map snd (nt_tuples n))"

lemma TsPut_values:
  "TsPut name v n = (r, n') \<Longrightarrow> values_of n' = (if is_ok r then add_mset v (values_of n) else values_of n)"
  by (cases r) (auto simp: values_of_def dest: TsPut_ok TsPut_failed)

lemma TsGet_values:
  "TsGet re expr n = (Inr v, n') \<Longrightarrow> values_of n = add_mset v (values_of n')"
  by (erule TsGet_ok) (simp add: values_of_def)

text \<open>Nothing is lost and nothing is delivered twice: along any interleaving of puts, gets
  and reads, the values that were in the space with the values successfully put are, as a
  multiset, the values consumed with the values still there.\<close>

theorem native_conservation:
  "case schedule re cs n of (puts, gets, m) \<Rightarrow>
     values_of n + mset puts = mset gets + values_of m"
proof (induction re cs n rule: schedule.induct)
  case (2 re name v cs n)
  obtain r n1 where p: "TsPut name v n = (r, n1)" by (cases "TsPut name v n")
  obtain puts gets m where "schedule re cs n1 = (puts, gets, m)" by (cases "schedule re cs n1")
  with 2 p TsPut_values [OF p] show ?case by (cases r) auto
next
  case (3 re expr cs n)
  obtain r n1 where g: "TsGet re expr n = (r, n1)" by (cases "TsGet re expr n")
  obtain puts gets m where sc: "schedule re cs n1 = (puts, gets, m)" by (cases "schedule re cs n1")
  show ?case
  proof (cases r)
    case (Inl e)
    with g have "n1 = n" by (auto dest: TsGet_failed)
    with 3(1) [OF g [symmetric]] g sc Inl show ?thesis by auto
  next
    case (Inr v)
    with g have "values_of n = add_mset v (values_of n1)" by (auto dest: TsGet_values)
    with 3(2) [OF g [symmetric]] g sc Inr show ?thesis by auto
  qed
qed auto

text \<open>\<open>TsGet\<close> consumes exactly one tuple, the oldest one whose name matches, and leaves the
  order of the others as it was; \<open>TsRead\<close> on the same space returns the value that \<open>TsGet\<close>
  would consume; and when \<open>TsGet\<close> finds nothing the space is unchanged.\<close>

theorem TsGet_oldest:
  assumes "nt_checker n = None"
  shows "(\<forall>v n'. TsGet re expr n = (Inr v, n') \<longrightarrow>
      TsRead re n expr = Inr v
      \<and> (\<exists>as name bs. nt_tuples n = as @ (name, v) # bs \<and> nt_tuples n' = as @ bs
           \<and> (\<exists>matches. compileTupleMatcher re expr = Inr matches \<and> matches name
                \<and> (\<forall>t\<in>set as. \<not> matches (fst t)))))
    \<and> (\<forall>e n'. TsGet re expr n = (Inl e, n') \<longrightarrow> n' = n \<and> TsRead re n expr = Inl e)"
proof (intro conjI allI impI)
  fix v n' assume g: "TsGet re expr n = (Inr v, n')"
  from TsGet_ok [OF g] obtain matches name as bs where
    m: "compileTupleMatcher re expr = Inr matches" "nt_tuples n = as @ (name, v) # bs"
    "nt_tuples n' = as @ bs" "matches name" "\<forall>t\<in>set as. \<not> matches (fst t)" by metis
  then have "List.find (\<lambda>t. matches (fst t)) (nt_tuples n) = Some (name, v)"
    by (auto simp: find_Some_iff nth_append intro!: exI [of _ "length as"])
  with m(1) assms show "TsRead re n expr = Inr v"
    by (simp add: TsRead_def CheckPermission_def)
  from m show "\<exists>as name bs. nt_tuples n = as @ (name, v) # bs \<and> nt_tuples n' = as @ bs
           \<and> (\<exists>matches. compileTupleMatcher re expr = Inr matches \<and> matches name
                \<and> (\<forall>t\<in>set as. \<not> matches (fst t)))" by blast
next
  fix e n' assume g: "TsGet re expr n = (Inl e, n')"
  then show "n' = n" by (rule TsGet_failed)
  show "TsRead re n expr = Inl e"
  proof (cases "compileTupleMatcher re expr")
    case (Inl e')
    with g show ?thesis by (simp add: TsGet_def TsRead_def)
  next
    case (Inr matches)
    with g assms have "take_first (\<lambda>t. matches (fst t)) (nt_tuples n) = None \<and> e = ErrTupleNotFound"
      by (auto simp: TsGet_def CheckPermission_def readS_def split: option.splits)
    then have "List.find (\<lambda>t. matches (fst t)) (nt_tuples n) = None" "e = ErrTupleNotFound"
      by (auto simp: take_first_None find_None_iff)
    with Inr assms show ?thesis by (simp add: TsRead_def CheckPermission_def)
  qed
qed

subsection \<open>Compare and swap\<close>

text \<open>\<open>exactNameAuthorityAdapter\<close> of \<open>internal/control/named_objects.go\<close>: the tuple space as the
  authority of the mutable-name plane.\<close>

definition adapter_Read :: "regexp \<Rightarrow> native \<Rightarrow> string \<Rightarrow> bytes result" where
  "adapter_Read re n name =
     (case ReadExact re n name of
        Inl err \<Rightarrow> if errors_Is err ErrTupleNotFound then Inl ErrNotFound else Inl err
      | Inr value \<Rightarrow> Inr value)"

definition adapter_CompareAndSwap ::
  "string \<Rightarrow> bytes option \<Rightarrow> bytes option \<Rightarrow> (native, unit) op" where
  "adapter_CompareAndSwap name expected next =
     tryS (CompareAndSwapExact name expected next) (\<lambda>r.
     case r of
       Inl err \<Rightarrow> if errors_Is err ErrTupleCASConflict then failS ErrConflict else failS err
     | Inr u \<Rightarrow> retS u)"

text \<open>The authority over a space without a permission checker; its state is the tuple list.\<close>

definition native_authority :: "regexp \<Rightarrow> tuple list authority" where
  "native_authority re =
     \<lparr>au_Read = (\<lambda>ts. adapter_Read re \<lparr>nt_tuples = ts, nt_checker = None\<rparr>),
      au_CompareAndSwap = (\<lambda>name expected next ts.
        case adapter_CompareAndSwap name expected next \<lparr>nt_tuples = ts, nt_checker = None\<rparr> of
          (r, n) \<Rightarrow> (r, nt_tuples n))\<rparr>"

definition bindings :: "string \<Rightarrow> tuple list \<Rightarrow> bytes list" where
  "bindings name ts = map snd (filter (\<lambda>t. fst t = name) ts)"

lemma bindings_append [simp]: "bindings name (as @ bs) = bindings name as @ bindings name bs"
  by (simp add: bindings_def)

lemma bindings_single [simp]:
  "bindings k [] = []" "bindings k [(name, v)] = (if k = name then [v] else [])"
  by (simp_all add: bindings_def)

lemma bindings_filter [simp]:
  "bindings k (filter (\<lambda>t. fst t \<noteq> name) ts) = (if k = name then [] else bindings k ts)"
proof (cases "k = name")
  case False
  then have "filter (\<lambda>t. fst t = k) (filter (\<lambda>t. fst t \<noteq> name) ts) = filter (\<lambda>t. fst t = k) ts"
    unfolding filter_filter by (intro filter_cong) auto
  with False show ?thesis by (simp add: bindings_def)
qed (simp add: bindings_def)

lemma find_bindings:
  "List.find (\<lambda>t. fst t = name) ts = None \<longleftrightarrow> bindings name ts = []"
  "List.find (\<lambda>t. fst t = name) ts = Some t \<Longrightarrow> bindings name ts \<noteq> [] \<and> snd t = hd (bindings name ts)"
  by (induction ts) (auto simp: bindings_def split: if_splits)

lemma native_Read:
  assumes "exact_name name"
  shows "au_Read (native_authority re) ts name =
    (case bindings name ts of [] \<Rightarrow> Inl ErrNotFound | v # _ \<Rightarrow> Inr v)"
proof (cases "List.find (\<lambda>t. fst t = name) ts")
  case None
  with assms find_bindings(1) [of name ts] show ?thesis
    by (simp add: native_authority_def adapter_Read_def ReadExact_def TsRead_def CheckPermission_def)
next
  case (Some t)
  with assms find_bindings(2) [OF Some] show ?thesis
    by (simp add: native_authority_def adapter_Read_def ReadExact_def TsRead_def CheckPermission_def)
      (metis list.case(2) list.collapse)
qed

lemma cas_condition:
  "\<not> (length (bindings name ts) > 1 \<or> expected = None \<and> length (bindings name ts) \<noteq> 0
      \<or> expected \<noteq> None \<and> (length (bindings name ts) \<noteq> 1 \<or> Some (last (bindings name ts)) \<noteq> expected))
   \<longleftrightarrow> bindings name ts = (case expected of None \<Rightarrow> [] | Some e \<Rightarrow> [e])"
  by (cases "bindings name ts"; cases expected) auto

lemma CAS_run:
  "CompareAndSwapExact name expected next n =
     (if \<not> exact_name name then (Inl (ErrMsg ''CAS requires an exact name''), n)
      else if bindings name (nt_tuples n) = (case expected of None \<Rightarrow> [] | Some e \<Rightarrow> [e])
      then (Inr (), n\<lparr>nt_tuples := filter (\<lambda>t. fst t \<noteq> name) (nt_tuples n)
              @ (case next of None \<Rightarrow> [] | Some v \<Rightarrow> [(name, v)])\<rparr>)
      else (Inl ErrTupleCASConflict, n))"
  unfolding cas_condition [symmetric] CompareAndSwapExact_def
  by (auto simp: exact_name_def readS_def bindings_def fail_ifS_def failS_def)

lemma native_CAS_run:
  "au_CompareAndSwap (native_authority re) name expected next ts =
     (if \<not> exact_name name then (Inl (ErrMsg ''CAS requires an exact name''), ts)
      else if bindings name ts = (case expected of None \<Rightarrow> [] | Some e \<Rightarrow> [e])
      then (Inr (), filter (\<lambda>t. fst t \<noteq> name) ts @ (case next of None \<Rightarrow> [] | Some v \<Rightarrow> [(name, v)]))
      else (Inl ErrConflict, ts))"
  by (simp add: native_authority_def adapter_CompareAndSwap_def tryS_def CAS_run failS_def retS_def)

lemma native_CAS_ok:
  assumes "au_CompareAndSwap (native_authority re) name expected next ts = (Inr u, ts')"
  shows "exact_name name" "bindings name ts = (case expected of None \<Rightarrow> [] | Some e \<Rightarrow> [e])"
    "ts' = filter (\<lambda>t. fst t \<noteq> name) ts @ (case next of None \<Rightarrow> [] | Some v \<Rightarrow> [(name, v)])"
  using assms by (auto simp: native_CAS_run split: if_splits)

lemma native_CAS_failed:
  "au_CompareAndSwap (native_authority re) name expected next ts = (Inl e, ts') \<Longrightarrow> ts' = ts"
  by (auto simp: native_CAS_run split: if_splits)

interpretation native_cas: cas_contract "native_authority re" exact_name for re
proof
  fix k expected new s t
  assume k: "exact_name k" and cas: "au_CompareAndSwap (native_authority re) k expected new s = (Inr (), t)"
  from native_CAS_ok(2) [OF cas] k
  show "case expected of None \<Rightarrow> \<not> is_ok (au_Read (native_authority re) s k)
    | Some e \<Rightarrow> au_Read (native_authority re) s k = Inr e"
    by (auto simp: native_Read split: option.splits)
  fix k' assume "exact_name k'"
  with k native_CAS_ok(3) [OF cas]
  show "au_Read (native_authority re) t k' =
      (if k' = k then (case new of None \<Rightarrow> Inl ErrNotFound | Some v \<Rightarrow> Inr v)
       else au_Read (native_authority re) s k')"
    by (auto simp: native_Read split: option.splits)
qed (use native_CAS_failed in blast)

text \<open>The local tuple space is a compare-and-swap register file. On an exact name, a swap
  succeeds exactly when the name is bound to the expected value alone (to nothing for a nil
  expectation); afterwards the name is bound to the new value alone and every other name is
  bound as before; a swap that fails leaves the space as it was.\<close>

theorem CompareAndSwapExact_register:
  assumes "exact_name name"
  shows "(bindings name (nt_tuples n) = (case expected of None \<Rightarrow> [] | Some e \<Rightarrow> [e]) \<longrightarrow>
      (\<exists>n'. CompareAndSwapExact name expected next n = (Inr (), n')
         \<and> bindings name (nt_tuples n') = (case next of None \<Rightarrow> [] | Some v \<Rightarrow> [v])
         \<and> (\<forall>k. k \<noteq> name \<longrightarrow> bindings k (nt_tuples n') = bindings k (nt_tuples n))))
    \<and> (bindings name (nt_tuples n) \<noteq> (case expected of None \<Rightarrow> [] | Some e \<Rightarrow> [e]) \<longrightarrow>
      CompareAndSwapExact name expected next n = (Inl ErrTupleCASConflict, n))"
  using assms by (auto simp: CAS_run split: option.splits)

theorem CompareAndSwapExact_register_witness:
  "CompareAndSwapExact ''k'' (Some ''old'') (Some ''new'')
     \<lparr>nt_tuples = [(''k'', ''other'')], nt_checker = None\<rparr>
   = (Inl ErrTupleCASConflict, \<lparr>nt_tuples = [(''k'', ''other'')], nt_checker = None\<rparr>)"
proof -
  have "exact_name ''k''" by (simp add: exact_name_def isTuplePattern_def regexMeta_def)
  from CompareAndSwapExact_register [OF this,
      of "\<lparr>nt_tuples = [(''k'', ''other'')], nt_checker = None\<rparr>" "Some ''old''" "Some ''new''"]
  show ?thesis by simp
qed

theorem TsGet_oldest_witness:
  "TsGet (\<lambda>_. None) ''k'' \<lparr>nt_tuples = [(''j'', ''1''), (''k'', ''2''), (''k'', ''3'')], nt_checker = None\<rparr>
     = (Inr ''2'', \<lparr>nt_tuples = [(''j'', ''1''), (''k'', ''3'')], nt_checker = None\<rparr>)
   \<and> TsRead (\<lambda>_. None) \<lparr>nt_tuples = [(''j'', ''1''), (''k'', ''2''), (''k'', ''3'')], nt_checker = None\<rparr> ''k''
     = Inr ''2''"
proof -
  let ?n = "\<lparr>nt_tuples = [(''j'', ''1''), (''k'', ''2''), (''k'', ''3'')], nt_checker = None\<rparr>"
  have k: "exact_name ''k''" by (simp add: exact_name_def isTuplePattern_def regexMeta_def)
  have "TsGet (\<lambda>_. None) ''k'' ?n
      = (Inr ''2'', \<lparr>nt_tuples = [(''j'', ''1''), (''k'', ''3'')], nt_checker = None\<rparr>)"
    by (simp add: TsGet_def k readS_def CheckPermission_def)
  with TsGet_oldest [of ?n "\<lambda>_. None" "''k''"] show ?thesis by auto
qed

end
