(* ===== verification/Names_History.thy ===== *)
theory Names_History
  imports Names_Store Tuple_Native
begin

text \<open>
  The history of a name at the shared authority. Several nodes run the handlers of
  \<open>Names_Store\<close> against one authority; between the checks of a handler and its
  compare-and-swap any other node may act. The result: whatever the interleaving, the values a
  name's register takes are a chain of records, each the validated successor of the one before,
  so that generation \<open>k\<close> is committed at most once.
\<close>

subsection \<open>Which parts of a handler touch which register\<close>

definition on_auth :: "('a \<Rightarrow> bool) \<Rightarrow> ('d, 'n, 'i, 'a) service_state \<Rightarrow> bool" where
  "on_auth P s = P (sv_auth s)"

lemma keeps_onDs [pres_intro]: "keeps (on_auth P) (onDs m)"
  by (auto simp: keeps_def onDs_def on_auth_def split: prod.splits)

lemma keeps_onNet [pres_intro]: "keeps (on_auth P) (onNet m)"
  by (auto simp: keeps_def onNet_def on_auth_def split: prod.splits)

lemma keeps_updateSearchIndex [pres_intro]: "keeps (on_auth P) (updateSearchIndex C p r)"
  by (auto simp: keeps_def updateSearchIndex_def on_auth_def Let_def
      split: prod.splits option.splits sum.splits if_splits)

lemma keeps_onCommit [pres_intro]: "keeps (on_auth P) (onCommit C r)"
  by (auto simp: keeps_def onCommit_def on_auth_def)

lemma keeps_putValue [pres_intro]: "keeps (on_auth P) (putValue C k v)"
  unfolding putValue_def by (intro pres_intro)

lemma keeps_publish [pres_intro]: "keeps (on_auth P) (publish C i v)"
  unfolding publish_def by (intro pres_intro)

lemma keeps_persist [pres_intro]: "keeps (on_auth P) (persist C i g v)"
  unfolding persist_def by (intro pres_intro)

text \<open>The name registers read as in \<open>a\<close>.\<close>

definition same_heads :: "'a authority \<Rightarrow> 'a \<Rightarrow> 'a \<Rightarrow> bool" where
  "same_heads A a b \<longleftrightarrow>
     (\<forall>i. length i = 32 \<longrightarrow> au_Read A b (authorityName i) = au_Read A a (authorityName i))"

abbreviation heads_kept :: "'a authority \<Rightarrow> 'a \<Rightarrow> ('d, 'n, 'i, 'a) service_state \<Rightarrow> bool" where
  "heads_kept A a \<equiv> on_auth (same_heads A a)"

lemmas heads_kept_def = on_auth_def same_heads_def

lemma authority_names_differ [simp]:
  "authorityNamespaceName ns \<noteq> authorityName i" "authorityNamespaceRootName ns \<noteq> authorityName i"
  "authorityCertifiedModeName j \<noteq> authorityName i"
  by (simp_all add: authorityNamespaceName_def authorityNamespaceRootName_def
      authorityCertifiedModeName_def authorityName_def)

lemma authorityName_inj [simp]: "authorityName i = authorityName j \<longleftrightarrow> i = j"
  by (simp add: authorityName_def id_String_def)

text \<open>The authority serves the names the service uses.\<close>

locale name_authority = cas_contract A named for A :: "'a authority" and named +
  assumes serves_heads: "length i = 32 \<Longrightarrow> named (authorityName i)"
    and serves_modes: "length i = 32 \<Longrightarrow> named (authorityCertifiedModeName i)"
    and serves_owners: "length ns = 32 \<Longrightarrow> named (authorityNamespaceName ns)"
    and serves_roots: "length ns = 32 \<Longrightarrow> named (authorityNamespaceRootName ns)"
begin

lemma keeps_claimAuthority:
  assumes "cf_authority C = Some A" "named name" "\<And>i. length i = 32 \<Longrightarrow> name \<noteq> authorityName i"
  shows "keeps (heads_kept A a) (claimAuthority C name v msg)"
proof -
  have "keeps (heads_kept A a) (onAuth (au_CompareAndSwap A name None (Some v)))"
    using assms CAS_other serves_heads
    by (fastforce simp: keeps_def onAuth_def heads_kept_def split: prod.splits)
  then show ?thesis unfolding claimAuthority_def assms(1) by (auto intro!: pres_intro)
qed

lemma keeps_ensureNamespaceOwner:
  assumes "cf_authority C = Some A" "length (nr_Namespace r) = 32"
  shows "keeps (heads_kept A a) (ensureNamespaceOwner C r)"
  unfolding ensureNamespaceOwner_def Let_def
  by (intro pres_intro keeps_claimAuthority assms serves_owners) simp

end

text \<open>The native tuple space serves them: they are literals followed by hexadecimal digits.\<close>

definition hexlike :: "char \<Rightarrow> bool" where
  "hexlike c \<longleftrightarrow> 48 \<le> byte c \<and> byte c \<le> 57 \<or> 97 \<le> byte c \<and> byte c \<le> 102"

lemma hexdigit_hexlike: "n < 16 \<Longrightarrow> hexlike (hexdigit n)"
  by (auto simp: hexlike_def byte_hexdigit)

lemma hex_hexlike: "c \<in> set (hex_EncodeToString b) \<Longrightarrow> hexlike c"
proof (induction b rule: hex_EncodeToString.induct)
  case (2 d ds)
  have "byte d div 16 < 16" using nat_of_char_less_256 [of d] by (simp add: less_mult_imp_div_less)
  with 2 show ?case by (auto intro: hexdigit_hexlike)
qed simp

lemma hex_not_meta:
  assumes "c \<in> set (hex_EncodeToString b)"
  shows "c \<notin> set (CHR ''*'' # regexMeta)"
  using hex_hexlike [OF assms] by (auto simp: regexMeta_def hexlike_def)

lemma exact_literal_hex:
  assumes "\<not> isTuplePattern p" "p \<noteq> []"
  shows "exact_name (p @ hex_EncodeToString b)"
  using assms hex_not_meta unfolding exact_name_def isTuplePattern_def by fastforce

lemma exact_authority_names [simp]:
  "exact_name (authorityName i)" "exact_name (authorityCertifiedModeName i)"
  "exact_name (authorityNamespaceName ns)" "exact_name (authorityNamespaceRootName ns)"
  unfolding authorityName_def authorityCertifiedModeName_def authorityNamespaceName_def
    authorityNamespaceRootName_def id_String_def
  by (rule exact_literal_hex; simp add: isTuplePattern_def regexMeta_def)+

interpretation native_names: name_authority "native_authority re" exact_name for re
  by unfold_locales simp_all

subsection \<open>Nodes sharing an authority\<close>

text \<open>A prepared commit: the name, what its register must hold, and the record to install.\<close>

type_synonym proposal = "bytes \<times> bytes option \<times> bytes"

text \<open>
  \<open>a\<close> is the authority, \<open>pend\<close> the prepared commits of all nodes (kept after use, so a node may
  also retry), \<open>hist i\<close> the values installed for name \<open>i\<close> in order. A node's local parts are
  arbitrary at every step, so its datastore and network may hold anything; \<open>N\<close> are the
  configurations of the nodes.
\<close>

inductive name_reach ::
  "names_env \<Rightarrow> ('d, 'n, 'i, 'a) service set \<Rightarrow> 'a authority \<Rightarrow> (string \<Rightarrow> bool) \<Rightarrow> 'a \<Rightarrow> proposal set \<Rightarrow> (bytes \<Rightarrow> bytes list) \<Rightarrow> bool"
  for E N A named where
  start: "(\<And>i. length i = 32 \<Longrightarrow> \<not> is_ok (au_Read A a (authorityName i))) \<Longrightarrow>
     name_reach E N A named a {} (\<lambda>_. [])"
| create: "name_reach E N A named a pend hist \<Longrightarrow> C \<in> N \<Longrightarrow> cf_env C = E \<Longrightarrow> cf_authority C = Some A \<Longrightarrow>
     sv_auth s = a \<Longrightarrow> Create_prepare C raw s = (r, t) \<Longrightarrow>
     name_reach E N A named (sv_auth t)
       (pend \<union> {(bytesToNameID (nr_NameID record), None, raw) | record. r = Inr record}) hist"
| update: "name_reach E N A named a pend hist \<Longrightarrow> C \<in> N \<Longrightarrow> cf_env C = E \<Longrightarrow> cf_authority C = Some A \<Longrightarrow>
     sv_auth s = a \<Longrightarrow> length i = 32 \<Longrightarrow> Update_prepare C i expected raw s = Inr (currentRaw, current, nxt) \<Longrightarrow>
     name_reach E N A named a (insert (i, Some currentRaw, raw) pend) hist"
| certify: "name_reach E N A named a pend hist \<Longrightarrow> C \<in> N \<Longrightarrow> cf_env C = E \<Longrightarrow> cf_authority C = Some A \<Longrightarrow>
     sv_auth s = a \<Longrightarrow> CommitCertified_prepare C raw s = (r, t) \<Longrightarrow>
     name_reach E N A named (sv_auth t)
       (pend \<union> {(bytesToNameID (nr_NameID record), map_option fst head, cn_Record certified)
               | certified record rootRaw head same. r = Inr (certified, record, rootRaw, head, same)}) hist"
| swap: "name_reach E N A named a pend hist \<Longrightarrow> (i, expected, raw) \<in> pend \<Longrightarrow>
     au_CompareAndSwap A (authorityName i) expected (Some raw) a = (r, a') \<Longrightarrow>
     name_reach E N A named a' pend
       (if is_ok r \<and> expected \<noteq> Some raw then hist(i := hist i @ [raw]) else hist)"
| other: "name_reach E N A named a pend hist \<Longrightarrow> named k \<Longrightarrow> (\<And>i. length i = 32 \<Longrightarrow> k \<noteq> authorityName i) \<Longrightarrow>
     au_CompareAndSwap A k expected new a = (r, a') \<Longrightarrow>
     name_reach E N A named a' pend hist"

text \<open>The first record of a name, and the step from one record to the next.\<close>

definition initial :: "names_env \<Rightarrow> bytes \<Rightarrow> bytes \<Rightarrow> bool" where
  "initial E i raw \<longleftrightarrow>
     (\<exists>r now. DecodeNameRecord E raw = Inr r \<and> nr_NameID r = i \<and> NameRecord_Validate E now r None = Inr ())"

definition succeeds :: "names_env \<Rightarrow> bytes \<Rightarrow> bytes \<Rightarrow> bool" where
  "succeeds E old raw \<longleftrightarrow>
     (\<exists>q r now. DecodeNameRecord E old = Inr q \<and> DecodeNameRecord E raw = Inr r
        \<and> NameRecord_Validate E now r (Some q) = Inr ())"

definition chain :: "names_env \<Rightarrow> bytes \<Rightarrow> bytes list \<Rightarrow> bool" where
  "chain E i xs \<longleftrightarrow> (xs \<noteq> [] \<longrightarrow> initial E i (hd xs))
     \<and> (\<forall>k. Suc k < length xs \<longrightarrow> succeeds E (xs ! k) (xs ! Suc k))"

lemma chain_Nil [simp]: "chain E i []"
  by (simp add: chain_def)

lemma chain_single: "initial E i raw \<Longrightarrow> chain E i [raw]"
  by (simp add: chain_def)

lemma chain_snoc:
  assumes "chain E i xs" "xs \<noteq> []" "succeeds E (last xs) raw"
  shows "chain E i (xs @ [raw])"
proof -
  have "succeeds E ((xs @ [raw]) ! k) ((xs @ [raw]) ! Suc k)" if "Suc k < length (xs @ [raw])" for k
  proof (cases "Suc k < length xs")
    case True
    with assms(1) show ?thesis by (simp add: chain_def nth_append)
  next
    case False
    with that have "k = length xs - 1" "Suc k = length xs" by auto
    with assms(2,3) show ?thesis by (simp add: nth_append last_conv_nth)
  qed
  with assms show ?thesis by (simp add: chain_def)
qed

definition proposal_ok :: "names_env \<Rightarrow> proposal \<Rightarrow> bool" where
  "proposal_ok E p = (case p of (i, expected, raw) \<Rightarrow> length i = 32 \<and>
     (case expected of None \<Rightarrow> initial E i raw | Some old \<Rightarrow> raw = old \<or> succeeds E old raw))"

definition register_ok :: "'a authority \<Rightarrow> 'a \<Rightarrow> bytes list \<Rightarrow> bytes \<Rightarrow> bool" where
  "register_ok A a xs i \<longleftrightarrow>
     (if xs = [] then \<not> is_ok (au_Read A a (authorityName i))
      else au_Read A a (authorityName i) = Inr (last xs))"

definition history_inv ::
  "names_env \<Rightarrow> 'a authority \<Rightarrow> 'a \<Rightarrow> proposal set \<Rightarrow> (bytes \<Rightarrow> bytes list) \<Rightarrow> bool" where
  "history_inv E A a pend hist \<longleftrightarrow> (\<forall>p\<in>pend. proposal_ok E p)
     \<and> (\<forall>i. length i = 32 \<longrightarrow> register_ok A a (hist i) i \<and> chain E i (hist i))"

subsection \<open>Prepared commits\<close>

lemma Create_prepare_ok:
  assumes "Create_prepare C raw s = (Inr record, t)"
  shows "proposal_ok (cf_env C) (bytesToNameID (nr_NameID record), None, raw)"
proof -
  from assms have d: "DecodeNameRecord (cf_env C) raw = Inr record"
    and v: "NameRecord_Validate (cf_env C) (cf_now C) record None = Inr ()"
    by (auto simp: Create_prepare_def op_inv Let_def)
  from envelope_lengths(2) [OF Validate_envelope [OF v]]
  show ?thesis using d v by (auto simp: proposal_ok_def initial_def)
qed

lemma Update_prepare_ok:
  assumes "Update_prepare C i expected raw s = Inr (currentRaw, current, nxt)"
  shows "DecodeNameRecord (cf_env C) raw = Inr nxt" "nr_NameID nxt = i"
    "DecodeNameRecord (cf_env C) currentRaw = Inr current" "nr_Generation current = expected"
    "NameRecord_Validate (cf_env C) (cf_now C) nxt (Some current) = Inr ()"
    "authoritativeCurrent C s i = Inr currentRaw"
  using assms
  by (cases "authoritativeCurrent C s i"; auto simp: Update_prepare_def result_inv split: if_splits)+

lemma CommitCertified_prepare_ok:
  assumes "CommitCertified_prepare C raw s = (Inr (certified, record, rootRaw, head, same), t)"
  shows "proposal_ok (cf_env C) (bytesToNameID (nr_NameID record), map_option fst head, cn_Record certified)"
proof -
  from assms have c: "CertifiedNameRecord_Validate (cf_env C) (cf_now C) certified = Inr record"
    "certifiedHead C s (bytesToNameID (nr_NameID record)) = Inr head"
    "checkCertifiedHead C certified record head = Inr same"
    unfolding CommitCertified_prepare_def Let_def op_inv by (elim conjE exE; simp)+
  have env: "validateRecordEnvelope (cf_env C) (cf_now C) record = Inr ()"
    and dec: "DecodeNameRecord (cf_env C) (cn_Record certified) = Inr record"
    using c(1) unfolding CertifiedNameRecord_Validate_def result_inv Let_def ValidateEnvelope_def
    by (elim conjE exE; simp)+
  note len = envelope_lengths(2) [OF env]
  show ?thesis
  proof (cases head)
    case None
    with c(3) have "NameRecord_Validate (cf_env C) (cf_now C) record None = Inr ()"
      by (simp add: checkCertifiedHead_def result_inv)
    with None dec len show ?thesis by (auto simp: proposal_ok_def initial_def)
  next
    case (Some h)
    obtain old current where h: "h = (old, current)" by (cases h)
    with c(2) Some have "DecodeNameRecord (cf_env C) old = Inr current"
      by (auto simp: certifiedHead_def result_inv split: sum.splits)
    moreover from c(3) Some h have
      "cn_Record certified = old \<or> NameRecord_Validate (cf_env C) (cf_now C) record (Some current) = Inr ()"
      by (auto simp: checkCertifiedHead_def result_inv split: if_splits)
    ultimately show ?thesis using Some h dec len by (auto simp: proposal_ok_def succeeds_def)
  qed
qed

subsection \<open>The history is a chain\<close>

lemma history_inv_cong:
  assumes "history_inv E A a pend hist"
    "\<And>i. length i = 32 \<Longrightarrow> au_Read A a' (authorityName i) = au_Read A a (authorityName i)"
  shows "history_inv E A a' pend hist"
  using assms by (simp add: history_inv_def register_ok_def)

lemma history_inv_pend:
  "history_inv E A a pend hist \<Longrightarrow> \<forall>p\<in>new. proposal_ok E p \<Longrightarrow> history_inv E A a (pend \<union> new) hist"
  by (auto simp: history_inv_def)

context name_authority
begin

lemma keeps_Create_prepare:
  assumes "cf_authority C = Some A"
  shows "keeps (heads_kept A a) (Create_prepare C raw)"
  unfolding Create_prepare_def Let_def
  apply (rule keeps_checked, rule keeps_checked)
  subgoal premises p for r
  proof -
    have "length (nr_Namespace r) = 32"
      using p(2) by (intro envelope_lengths(1) [OF Validate_envelope]) simp
    then show ?thesis by (intro pres_intro keeps_ensureNamespaceOwner assms)
  qed
  done

lemma keeps_CommitCertified_prepare:
  assumes "cf_authority C = Some A"
  shows "keeps (heads_kept A a) (CommitCertified_prepare C raw)"
  unfolding CommitCertified_prepare_def Let_def requireCertifiedMode_def
  apply (rule keeps_checked, rule keeps_checked)
  subgoal premises p for certified r
  proof -
    from p(2) have "validateRecordEnvelope (cf_env C) (cf_now C) r = Inr ()"
      unfolding CertifiedNameRecord_Validate_def result_inv Let_def ValidateEnvelope_def
      by (elim conjE exE; simp)
    note len = envelope_lengths(1,2) [OF this]
    show ?thesis
      by (intro pres_intro keeps_ensureNamespaceOwner keeps_claimAuthority assms serves_roots
            serves_modes) (simp_all add: len)
  qed
  done

lemma history_swap:
  assumes inv: "history_inv E A a pend hist" and p: "(i, expected, raw) \<in> pend"
    and cas: "au_CompareAndSwap A (authorityName i) expected (Some raw) a = (Inr (), a')"
  shows "history_inv E A a' pend (if expected \<noteq> Some raw then hist(i := hist i @ [raw]) else hist)"
proof -
  from inv p have ok: "proposal_ok E (i, expected, raw)" by (auto simp: history_inv_def)
  then have i: "length i = 32" by (simp add: proposal_ok_def)
  note n = serves_heads [OF i]
  have reg: "register_ok A a (hist i) i" and ch: "chain E i (hist i)"
    using inv i by (auto simp: history_inv_def)
  have read: "au_Read A a' (authorityName j) = (if j = i then Inr raw else au_Read A a (authorityName j))"
    if "length j = 32" for j
    using CAS_read [OF n serves_heads [OF that] cas] by simp
  have "register_ok A a' (if expected \<noteq> Some raw then hist i @ [raw] else hist i) i
      \<and> chain E i (if expected \<noteq> Some raw then hist i @ [raw] else hist i)"
  proof (cases expected)
    case None
    with CAS_expected [OF n cas] reg have "hist i = []" by (auto simp: register_ok_def split: if_splits)
    with None ok read [OF i] show ?thesis by (simp add: register_ok_def proposal_ok_def chain_single)
  next
    case (Some old)
    with CAS_expected [OF n cas] reg have "hist i \<noteq> []" "last (hist i) = old"
      by (auto simp: register_ok_def split: if_splits)
    with Some ok read [OF i] ch show ?thesis
      by (auto simp: register_ok_def proposal_ok_def intro: chain_snoc)
  qed
  with inv read show ?thesis by (auto simp: history_inv_def register_ok_def)
qed

theorem name_reach_inv:
  assumes "name_reach E N A named a pend hist"
  shows "history_inv E A a pend hist"
  using assms
proof (induction rule: name_reach.induct)
  case (start a)
  then show ?case by (simp add: history_inv_def register_ok_def)
next
  case (create a pend hist C s raw r t)
  have "heads_kept A a t"
    using keepsD [OF keeps_Create_prepare [OF create.hyps(4)] create.hyps(6)] create.hyps(5)
    by (simp add: heads_kept_def)
  then have "history_inv E A (sv_auth t) pend hist"
    by (intro history_inv_cong [OF create.IH]) (simp add: heads_kept_def)
  then show ?case
    using Create_prepare_ok create.hyps(3,6) by (intro history_inv_pend) auto
next
  case (update a pend hist C s i expected raw currentRaw current nxt)
  note u = Update_prepare_ok [OF update.hyps(7)]
  have "proposal_ok E (i, Some currentRaw, raw)"
    using u update.hyps(3,6) by (auto simp: proposal_ok_def succeeds_def)
  with history_inv_pend [OF update.IH, of "{(i, Some currentRaw, raw)}"] show ?case by simp
next
  case (certify a pend hist C s raw r t)
  have "heads_kept A a t"
    using keepsD [OF keeps_CommitCertified_prepare [OF certify.hyps(4)] certify.hyps(6)] certify.hyps(5)
    by (simp add: heads_kept_def)
  then have "history_inv E A (sv_auth t) pend hist"
    by (intro history_inv_cong [OF certify.IH]) (simp add: heads_kept_def)
  then show ?case
    using CommitCertified_prepare_ok certify.hyps(3,6) by (intro history_inv_pend) fastforce+
next
  case (swap a pend hist i expected raw r a')
  show ?case
  proof (cases r)
    case (Inl e)
    with swap CAS_failed show ?thesis by (auto intro: history_inv_cong)
  next
    case (Inr x)
    with swap history_swap show ?thesis by auto
  qed
next
  case (other a pend hist k expected new r a')
  then show ?case
    using CAS_other serves_heads by (intro history_inv_cong [OF other.IH]) blast
qed

end

text \<open>C3. The committed history of a name is a hash chain. Whatever the interleaving of creates,
  updates, deletes and certified commits of any number of nodes, the \<open>k\<close>-th value installed for a
  name at the authority decodes to a record of that name with generation \<open>k\<close> that names the hash of
  the value installed before it; the register holds the last one. So no generation is ever
  committed twice, and no committed record is skipped or replaced.\<close>

theorem name_history_chain:
  assumes "name_authority A named" "name_reach E N A named a pend hist" "length i = 32"
    and "k < length (hist i)"
  shows "\<exists>r. DecodeNameRecord E (hist i ! k) = Inr r \<and> nr_NameID r = i \<and> unat (nr_Generation r) = k
    \<and> (0 < k \<longrightarrow> nr_PreviousHash r = Sum256 E (hist i ! (k - 1)))
    \<and> (Suc k = length (hist i) \<longrightarrow> au_Read A a (authorityName i) = Inr (hist i ! k))"
proof -
  have inv: "chain E i (hist i)" "register_ok A a (hist i) i"
    using name_authority.name_reach_inv [OF assms(1,2)] assms(3) by (auto simp: history_inv_def)
  have rec: "\<exists>r. DecodeNameRecord E (hist i ! k) = Inr r \<and> nr_NameID r = i \<and> unat (nr_Generation r) = k
    \<and> (0 < k \<longrightarrow> nr_PreviousHash r = Sum256 E (hist i ! (k - 1)))"
    using assms(4)
  proof (induction k)
    case 0
    with inv(1) have "initial E i (hist i ! 0)" by (simp add: chain_def hd_conv_nth)
    then show ?case by (auto simp: initial_def dest: Validate_None_generation)
  next
    case (Suc k)
    then obtain q where q: "DecodeNameRecord E (hist i ! k) = Inr q" "nr_NameID q = i"
      "unat (nr_Generation q) = k" by auto
    from Suc.prems inv(1) have "succeeds E (hist i ! k) (hist i ! Suc k)" by (simp add: chain_def)
    with q obtain r now where r: "DecodeNameRecord E (hist i ! Suc k) = Inr r"
      "NameRecord_Validate E now r (Some q) = Inr ()" by (auto simp: succeeds_def)
    with q Validate_Some(2,5) [OF r(2)] Validate_Some_no_wrap [OF r(2)] DecodeNameRecord_Hash [OF q(1)]
    show ?case by auto
  qed
  have reg: "Suc k = length (hist i) \<longrightarrow> au_Read A a (authorityName i) = Inr (hist i ! k)"
  proof
    assume that: "Suc k = length (hist i)"
    have ne: "hist i \<noteq> []" using assms(4) by auto
    then have "last (hist i) = hist i ! k" by (simp add: last_conv_nth that [symmetric])
    with ne inv(2) show "au_Read A a (authorityName i) = Inr (hist i ! k)"
      by (simp add: register_ok_def)
  qed
  from rec obtain r where "DecodeNameRecord E (hist i ! k) = Inr r \<and> nr_NameID r = i
    \<and> unat (nr_Generation r) = k \<and> (0 < k \<longrightarrow> nr_PreviousHash r = Sum256 E (hist i ! (k - 1)))" ..
  with reg show ?thesis by (intro exI [of _ r]) simp
qed

subsection \<open>Handlers as steps of the system\<close>

lemma keeps_after_commit:
  "keeps (on_auth P) (bindS (persist C i g raw) (\<lambda>_.
     bindS (updateSearchIndex C previous nxt) (\<lambda>_.
     bindS (onCommit C nxt) (\<lambda>_.
     bindS (publish C i raw) (\<lambda>_.
     retS nxt)))))"
  by (intro pres_intro)

lemma swapAuthority_auth:
  assumes "swapAuthority C k expected new s = (r, t)" "cf_authority C = Some A"
  shows "au_CompareAndSwap A k expected new (sv_auth s) = (r, sv_auth t)"
  using assms by (auto simp: swapAuthority_def onAuth_def split: prod.splits)

definition extended :: "bytes \<Rightarrow> bytes \<Rightarrow> (bytes \<Rightarrow> bytes list) \<Rightarrow> (bytes \<Rightarrow> bytes list) \<Rightarrow> bool" where
  "extended i raw hist hist' \<longleftrightarrow> hist' = hist(i := hist i @ [raw])"

lemma commit_steps:
  assumes reach: "name_reach E N A named (sv_auth s) pend hist" and p: "(i, expected, raw) \<in> pend"
    and A: "cf_authority C = Some A" and ne: "expected \<noteq> Some raw"
    and run: "commit C i expected previous nxt raw s = (r, t)"
  shows "\<exists>hist'. name_reach E N A named (sv_auth t) pend hist' \<and> (is_ok r \<longrightarrow> extended i raw hist hist')"
  using run unfolding commit_def
proof (cases rule: bindS_E)
  case (failed e)
  note name_reach.swap [OF reach p swapAuthority_auth [OF failed(1) A]]
  with failed(2) show ?thesis by auto
next
  case (passed x u)
  note step = name_reach.swap [OF reach p swapAuthority_auth [OF passed(1) A]]
  have "on_auth (\<lambda>b. b = sv_auth u) t"
    by (rule keepsD [OF keeps_after_commit passed(2)]) (simp add: on_auth_def)
  with step ne show ?thesis
    by (intro exI [of _ "hist(i := hist i @ [raw])"]) (simp add: on_auth_def extended_def)
qed

text \<open>C4. The handlers refine the system: run as a whole on a node, \<open>Create\<close>, \<open>Update\<close> and \<open>Delete\<close>
  take the authority from one reachable state to another by the steps of the transition system,
  and when they succeed the record they were given is the one appended to the history of its
  name.\<close>

theorem handlers_refine:
  assumes "name_reach E N A named (sv_auth s) pend hist" "C \<in> N" "cf_env C = E"
    and "cf_authority C = Some A" "length i = 32"
    and "(r, t) \<in> {Service_Create C raw s, Service_Update C i expected raw s, Service_Delete C i expected raw s}"
  shows "\<exists>pend' hist' j. name_reach E N A named (sv_auth t) pend' hist'
     \<and> (is_ok r \<longrightarrow> extended j raw hist hist')"
proof -
  note 1 = assms(1-4)
  have create: ?thesis if run: "Service_Create C raw s = (r, t)"
    using run unfolding Service_Create_def
  proof (cases rule: bindS_E)
    case (failed e)
    from name_reach.create [OF 1 refl failed(1)] failed(2) show ?thesis by auto
  next
    case (passed rcd u)
    from name_reach.create [OF 1 refl passed(1)]
    have "name_reach E N A named (sv_auth u) (insert (bytesToNameID (nr_NameID rcd), None, raw) pend) hist"
      by simp
    from commit_steps [OF this insertI1 assms(4) _ passed(2)] show ?thesis by blast
  qed
  have update: ?thesis if run: "Service_Update C i expected raw s = (r, t)"
  proof (cases "Update_prepare C i expected raw s")
    case (Inl e)
    with run have "t = s" "r = Inl e" by (simp_all add: Service_Update_def readS_def)
    with assms(1) show ?thesis by auto
  next
    case (Inr p)
    obtain currentRaw current nxt where p: "p = (currentRaw, current, nxt)" by (cases p)
    note u = Update_prepare_ok [OF Inr [unfolded p]]
    have "Some currentRaw \<noteq> Some raw"
      using u(1,3) Validate_Some_no_wrap [OF u(5)] by auto
    moreover have "commit C i (Some currentRaw) (Some current) nxt raw s = (r, t)"
      using run Inr p by (simp add: Service_Update_def readS_def)
    ultimately show ?thesis
      using commit_steps [OF name_reach.update [OF 1 refl assms(5) Inr [unfolded p]] insertI1 assms(4)]
      by blast
  qed
  have delete: ?thesis if run: "Service_Delete C i expected raw s = (r, t)"
    using run unfolding Service_Delete_def
  proof (cases rule: bindS_E)
    case (failed e)
    with assms(1) show ?thesis by (auto simp: liftR_def)
  next
    case (passed rcd u)
    then have "u = s" by (simp add: liftR_def)
    show ?thesis
    proof (cases "nr_Tombstone rcd")
      case True
      with passed(2) \<open>u = s\<close> show ?thesis by (intro update) simp
    next
      case False
      with passed(2) \<open>u = s\<close> have "t = s" "\<not> is_ok r" by (auto simp: failS_def)
      with assms(1) show ?thesis by blast
    qed
  qed
  from assms(6) create update delete show ?thesis by auto
qed

end
