(* ===== verification/Names_Store_Props.thy ===== *)
theory Names_Store_Props
  imports Names_History
begin

text \<open>
  Properties of the name service of one node: what the certified write-back leaves in the
  datastore, the search index entries, what a search may claim, and where \<open>Rename\<close> departs from
  the other handlers.
\<close>

subsection \<open>Certified write-back\<close>

lemma store_keys_differ [simp]:
  "currentKey i \<noteq> historyKey j g" "currentKey i \<noteq> certifiedKey j" "currentKey i \<noteq> certifiedHistoryKey j g"
  "currentKey i \<noteq> namespaceRootKey ns" "currentKey i \<noteq> namespaceOwnerKey ns"
  "historyKey j g \<noteq> currentKey i" "certifiedKey j \<noteq> currentKey i" "certifiedHistoryKey j g \<noteq> currentKey i"
  "namespaceRootKey ns \<noteq> currentKey i" "namespaceOwnerKey ns \<noteq> currentKey i"
  "certifiedKey i \<noteq> historyKey j g" "certifiedKey i \<noteq> certifiedHistoryKey j g"
  "certifiedKey i \<noteq> namespaceRootKey ns" "certifiedKey i \<noteq> namespaceOwnerKey ns"
  "namespaceRootKey ns \<noteq> historyKey j g" "namespaceRootKey ns \<noteq> certifiedKey i"
  "namespaceRootKey ns \<noteq> certifiedHistoryKey j g" "namespaceRootKey ns \<noteq> namespaceOwnerKey ns'"
  "historyKey j g \<noteq> certifiedKey i" "certifiedHistoryKey j g \<noteq> certifiedKey i"
  by (simp_all add: currentKey_def historyKey_def certifiedKey_def certifiedHistoryKey_def
      namespaceRootKey_def namespaceOwnerKey_def)

lemma keeps_ds_index: "keeps (\<lambda>x. sv_ds x = d) (updateSearchIndex C p q)"
  by (auto simp: keeps_def updateSearchIndex_def Let_def
      split: prod.splits option.splits sum.splits if_splits)

lemma keeps_ds_commit: "keeps (\<lambda>x. sv_ds x = d) (onCommit C r)"
  by (auto simp: keeps_def onCommit_def)

lemma keeps_ds_net: "keeps (\<lambda>x. sv_ds x = d) (onNet m)"
  by (auto simp: keeps_def onNet_def split: prod.splits)

lemma keeps_ds_put: "keeps (\<lambda>x. sv_ds x = d) (putValue C k v)"
  unfolding putValue_def
  by (intro keeps_case_option keeps_tryS keeps_retS keeps_ds_net)

lemma CertifiedNameRecord_Validate_record:
  assumes "CertifiedNameRecord_Validate E now c = Inr r"
  shows "DecodeNameRecord E (cn_Record c) = Inr r" "validateRecordEnvelope E now r = Inr ()"
    "nr_Namespace r = rt_Namespace (cn_Root c)"
  using assms unfolding CertifiedNameRecord_Validate_def result_inv Let_def ValidateEnvelope_def
  by (elim conjE exE; simp)+

lemma WriteBackCertified_ok:
  assumes "WriteBackCertified C raw s = (Inr record, t)"
  obtains certified previous rootRaw u where
    "UnmarshalCanonical (certC (cf_env C)) raw = Inr certified"
    "CertifiedNameRecord_Validate (cf_env C) (cf_now C) certified = Inr record"
    "checkWriteBack C s certified record = Inr previous"
    "cbor_Marshal (rootC (cf_env C)) (cn_Root certified) = Inr rootRaw"
    "checkRoot C s (nr_Namespace record) rootRaw = Inr ()"
    "onDs (ds_Batch (cf_datastore C)
        [(currentKey (nr_NameID record), cn_Record certified),
         (historyKey (nr_NameID record) (nr_Generation record), cn_Record certified),
         (certifiedKey (nr_NameID record), raw),
         (certifiedHistoryKey (nr_NameID record) (nr_Generation record), raw),
         (namespaceRootKey (nr_Namespace record), rootRaw),
         (namespaceOwnerKey (nr_Namespace record), nr_Owner record)]) s = (Inr (), u)"
    "sv_ds t = sv_ds u"
proof -
  have ix: "sv_ds y = sv_ds x" if "updateSearchIndex C p q x = (z, y)" for p q x y z
    using keepsD [OF keeps_ds_index [of "sv_ds x"] that] by simp
  from assms obtain certified record' previous rootRaw u where
    c: "UnmarshalCanonical (certC (cf_env C)) raw = Inr certified"
    "CertifiedNameRecord_Validate (cf_env C) (cf_now C) certified = Inr record'"
    "checkWriteBack C s certified record' = Inr previous"
    "cbor_Marshal (rootC (cf_env C)) (cn_Root certified) = Inr rootRaw"
    "checkRoot C s (nr_Namespace record') rootRaw = Inr ()"
    "onDs (ds_Batch (cf_datastore C)
        [(currentKey (bytesToNameID (nr_NameID record')), cn_Record certified),
         (historyKey (bytesToNameID (nr_NameID record')) (nr_Generation record'), cn_Record certified),
         (certifiedKey (bytesToNameID (nr_NameID record')), raw),
         (certifiedHistoryKey (bytesToNameID (nr_NameID record')) (nr_Generation record'), raw),
         (namespaceRootKey (rt_Namespace (cn_Root certified)), rootRaw),
         (namespaceOwnerKey (nr_Namespace record'), nr_Owner record')]) s = (Inr (), u)"
    "sv_ds t = sv_ds u" "record' = record"
    unfolding WriteBackCertified_def Let_def op_inv MarshalCanonical_def
    by (auto simp: op_inv dest: ix split: if_splits)
  note v = CertifiedNameRecord_Validate_record [OF c(2)]
  from envelope_lengths(2) [OF v(2)] v(3) show thesis
    using that [OF c(1) c(2) [unfolded c(8)]] c(3-7) unfolding c(8) by simp
qed

text \<open>C5. Installing a certificate on a follower is safe. When \<open>WriteBackCertified\<close> succeeds, the
  certified record is the follower's head, the certificate is stored, a head it replaces has a
  smaller generation or is the same record byte for byte, and a namespace root already recorded
  is kept.\<close>

theorem WriteBackCertified_safe:
  assumes "datastore_contract (cf_datastore C)" "WriteBackCertified C raw s = (Inr record, t)"
  shows "\<exists>certified. UnmarshalCanonical (certC (cf_env C)) raw = Inr certified
    \<and> ds_Get (cf_datastore C) (sv_ds t) (currentKey (nr_NameID record)) = Inr (cn_Record certified)
    \<and> ds_Get (cf_datastore C) (sv_ds t) (certifiedKey (nr_NameID record)) = Inr raw
    \<and> (\<forall>old q. ds_Get (cf_datastore C) (sv_ds s) (currentKey (nr_NameID record)) = Inr old \<longrightarrow>
         DecodeNameRecord (cf_env C) old = Inr q \<longrightarrow>
         nr_Generation q < nr_Generation record \<or> old = cn_Record certified)
    \<and> (\<forall>root. ds_Get (cf_datastore C) (sv_ds s) (namespaceRootKey (nr_Namespace record)) = Inr root \<longrightarrow>
         ds_Get (cf_datastore C) (sv_ds t) (namespaceRootKey (nr_Namespace record)) = Inr root)"
proof -
  from assms(2) obtain certified previous rootRaw u where
    c: "UnmarshalCanonical (certC (cf_env C)) raw = Inr certified"
    "CertifiedNameRecord_Validate (cf_env C) (cf_now C) certified = Inr record"
    "checkWriteBack C s certified record = Inr previous"
    "checkRoot C s (nr_Namespace record) rootRaw = Inr ()"
    and b: "onDs (ds_Batch (cf_datastore C)
        [(currentKey (nr_NameID record), cn_Record certified),
         (historyKey (nr_NameID record) (nr_Generation record), cn_Record certified),
         (certifiedKey (nr_NameID record), raw),
         (certifiedHistoryKey (nr_NameID record) (nr_Generation record), raw),
         (namespaceRootKey (nr_Namespace record), rootRaw),
         (namespaceOwnerKey (nr_Namespace record), nr_Owner record)]) s = (Inr (), u)"
    and t: "sv_ds t = sv_ds u"
    by (rule WriteBackCertified_ok)
  have i: "bytesToNameID (nr_NameID record) = nr_NameID record"
    using envelope_lengths(2) [OF CertifiedNameRecord_Validate_record(2) [OF c(2)]] by simp
  from b have batch: "ds_Batch (cf_datastore C)
        [(currentKey (nr_NameID record), cn_Record certified),
         (historyKey (nr_NameID record) (nr_Generation record), cn_Record certified),
         (certifiedKey (nr_NameID record), raw),
         (certifiedHistoryKey (nr_NameID record) (nr_Generation record), raw),
         (namespaceRootKey (nr_Namespace record), rootRaw),
         (namespaceOwnerKey (nr_Namespace record), nr_Owner record)] (sv_ds s) = (Inr (), sv_ds t)"
    by (auto simp: onDs_def t split: prod.splits)
  note get = datastore_contract.Get_after_Batch [OF assms(1) batch]
  have "nr_Generation q < nr_Generation record \<or> old = cn_Record certified"
    if "ds_Get (cf_datastore C) (sv_ds s) (currentKey (nr_NameID record)) = Inr old"
      "DecodeNameRecord (cf_env C) old = Inr q" for old q
    using c(3) that by (auto simp: checkWriteBack_def i result_inv)
  moreover have "root = rootRaw"
    if "ds_Get (cf_datastore C) (sv_ds s) (namespaceRootKey (nr_Namespace record)) = Inr root" for root
    using c(4) that by (simp add: checkRoot_def result_inv)
  ultimately show ?thesis using c(1) by (intro exI [of _ certified]) (auto simp: get)
qed

subsection \<open>The search index\<close>

text \<open>The index entry of a valid record leads back to its name: parsing it yields the record's
  NameID, so a search through the index resolves the record it indexed.\<close>

theorem searchIndexEntry_roundtrip:
  assumes "validateRecordEnvelope E now r = Inr ()"
  shows "parseSearchIndexEntry E (searchIndexEntry r) = Inr (nr_NameID r)"
proof -
  have "LastIndexByte (searchIndexEntry r) (CHR 0x00) = Some (length (nr_Path r))"
    unfolding searchIndexEntry_def by (rule LastIndexByte_append) (rule hex_no_nul)
  moreover have "ParseNamespaceID (hex_EncodeToString (nr_Namespace r)) = Inr (nr_Namespace r)"
    using envelope_lengths(1) [OF assms] by (simp add: ParseNamespaceID_ok id_String_def)
  moreover have "NormalizePath (nr_Path r) = Inr (nr_Path r)"
    using envelope_path [OF assms] by (simp add: normalized_def)
  ultimately show ?thesis
    using envelope_id [OF assms] by (simp add: parseSearchIndexEntry_def searchIndexEntry_def)
qed

text \<open>What the loop over the index entries collects.\<close>

definition resolves ::
  "('d, 'n, 'i, 'a) service \<Rightarrow> ('d, 'n, 'i, 'a) service_state \<Rightarrow> string \<Rightarrow> NameRecord \<Rightarrow> bool" where
  "resolves C s entry r \<longleftrightarrow>
     (\<exists>i raw. parseSearchIndexEntry (cf_env C) entry = Inr i \<and> Service_Get C s i = Inr (r, raw))"

lemma search_index_loop_sound:
  "search_index_loop C s prefix suffix entries seen acc complete = (out, complete') \<Longrightarrow>
     set out \<subseteq> set acc \<union> {r. wanted prefix suffix r \<and> (\<exists>e\<in>set entries. resolves C s e r)}"
proof (induction C s prefix suffix entries seen acc complete rule: search_index_loop.induct)
  case (2 C s prefix suffix entry rest seen acc complete)
  show ?case
  proof (cases "parseSearchIndexEntry (cf_env C) entry")
    case (Inl e)
    with 2 show ?thesis by fastforce
  next
    case (Inr i)
    show ?thesis
    proof (cases "i \<in> set seen \<or> \<not> is_ok (Service_Get C s i)")
      case True
      with 2 Inr show ?thesis by (cases "Service_Get C s i") (fastforce split: if_splits)+
    next
      case False
      then obtain r raw where g: "Service_Get C s i = Inr (r, raw)" by (auto simp: is_ok_iff)
      with Inr have res: "resolves C s entry r" by (auto simp: resolves_def)
      have "search_index_loop C s prefix suffix rest (i # seen)
          (if wanted prefix suffix r then acc @ [r] else acc) complete = (out, complete')"
        using 2(5) Inr g False by simp
      from 2(4) [OF Inr _ g refl this] False res show ?thesis
        by (auto split: if_splits)
    qed
  qed
qed simp

lemma search_index_loop_acc:
  "search_index_loop C s prefix suffix entries seen acc complete = (out, complete') \<Longrightarrow> set acc \<subseteq> set out"
  by (induction C s prefix suffix entries seen acc complete rule: search_index_loop.induct)
    (fastforce split: sum.splits if_splits prod.splits)+

lemma search_index_loop_complete:
  assumes "search_index_loop C s prefix suffix entries seen acc complete = (out, True)"
  shows "complete \<and> (\<forall>e\<in>set entries. \<exists>i. parseSearchIndexEntry (cf_env C) e = Inr i
    \<and> (i \<in> set seen \<or> (\<exists>r raw. Service_Get C s i = Inr (r, raw)
         \<and> (wanted prefix suffix r \<longrightarrow> r \<in> set out))))"
  using assms
proof (induction C s prefix suffix entries seen acc complete rule: search_index_loop.induct)
  case (2 C s prefix suffix entry rest seen acc complete)
  show ?case
  proof (cases "parseSearchIndexEntry (cf_env C) entry")
    case (Inl e)
    with 2 show ?thesis by simp
  next
    case (Inr i)
    show ?thesis
    proof (cases "i \<in> set seen")
      case True
      with 2 Inr show ?thesis by auto
    next
      case seen: False
      show ?thesis
      proof (cases "Service_Get C s i")
        case (Inl e)
        with 2(5) Inr seen have "search_index_loop C s prefix suffix rest (i # seen) acc False = (out, True)"
          by simp
        from 2(3) [OF Inr seen Inl this] show ?thesis by simp
      next
        case g: (Inr p)
        obtain r raw where p: "p = (r, raw)" by (cases p)
        have run: "search_index_loop C s prefix suffix rest (i # seen)
            (if wanted prefix suffix r then acc @ [r] else acc) complete = (out, True)"
          using 2(5) Inr g p seen by simp
        from 2(4) [OF Inr seen g p [symmetric] run] search_index_loop_acc [OF run] Inr g p
        show ?thesis by (auto split: if_splits)
      qed
    qed
  qed
qed simp

text \<open>A distributed search tells the truth. It returns records that match the query, are live
  and searchable and are what their index entry resolves to now, sorted by path; and it claims
  to be complete only if the index answered without error from every shard it asked, no index
  repair is pending, every entry could be resolved and every resolved record that matches is in
  the result.\<close>

theorem searchDistributedIndex_sound:
  assumes "si_Query X (sv_index s) prefix suffix = (entries, attempted, completed, queryErr)"
  shows "case searchDistributedIndex C s X prefix suffix of (res, err) \<Rightarrow>
     err = queryErr \<and> sorted (map nr_Path (sr_Records res))
     \<and> (\<forall>r\<in>set (sr_Records res). wanted prefix suffix r \<and> (\<exists>e\<in>set entries. resolves C s e r))
     \<and> (sr_Complete res \<longrightarrow> queryErr = None \<and> attempted = completed \<and> \<not> sv_indexIncomplete s
          \<and> (\<forall>e\<in>set entries. \<exists>r. resolves C s e r \<and> (wanted prefix suffix r \<longrightarrow> r \<in> set (sr_Records res))))"
proof -
  obtain out complete where run: "search_index_loop C s prefix suffix entries [] []
      (queryErr = None \<and> attempted = completed \<and> \<not> sv_indexIncomplete s) = (out, complete)"
    by (cases "search_index_loop C s prefix suffix entries [] []
      (queryErr = None \<and> attempted = completed \<and> \<not> sv_indexIncomplete s)")
  have "\<forall>r\<in>set out. wanted prefix suffix r \<and> (\<exists>e\<in>set entries. resolves C s e r)"
    using search_index_loop_sound [OF run] by auto
  moreover have "queryErr = None \<and> attempted = completed \<and> \<not> sv_indexIncomplete s
      \<and> (\<forall>e\<in>set entries. \<exists>r. resolves C s e r \<and> (wanted prefix suffix r \<longrightarrow> r \<in> set out))" if complete
    using search_index_loop_complete [OF run [unfolded eqTrueI [OF that]]]
    by (fastforce simp: resolves_def)
  ultimately show ?thesis
    by (simp add: searchDistributedIndex_def assms run)
qed

text \<open>The counter of pending repairs counts the repair jobs, and the flag says whether there are any.\<close>

definition repairs_counted :: "('d, 'n, 'i, 'a) service_state \<Rightarrow> bool" where
  "repairs_counted s \<longleftrightarrow> sv_indexPending s = int (length (sv_repairs s))
     \<and> (sv_indexIncomplete s \<longleftrightarrow> sv_repairs s \<noteq> [])"

lemma counted_parts [pres_intro]:
  "keeps repairs_counted (onDs md)" "keeps repairs_counted (onNet mn)" "keeps repairs_counted (onAuth ma)"
  "keeps repairs_counted (onCommit C r)"
  by (auto simp: keeps_def onDs_def onNet_def onAuth_def onCommit_def repairs_counted_def
      split: prod.splits)

lemma counted_updateSearchIndex [pres_intro]: "keeps repairs_counted (updateSearchIndex C p r)"
  by (auto simp: keeps_def updateSearchIndex_def repairs_counted_def Let_def
      split: prod.splits option.splits sum.splits if_splits)

lemma counted_putValue [pres_intro]: "keeps repairs_counted (putValue C k v)"
  unfolding putValue_def by (intro pres_intro)

lemma counted_claim [pres_intro]:
  "keeps repairs_counted (claimAuthority C k v m)" "keeps repairs_counted (swapAuthority C k e n)"
  unfolding claimAuthority_def swapAuthority_def by (intro pres_intro)+

lemma counted_ensureNamespaceOwner [pres_intro]: "keeps repairs_counted (ensureNamespaceOwner C r)"
  unfolding ensureNamespaceOwner_def Let_def by (intro pres_intro)

lemma counted_commit [pres_intro]: "keeps repairs_counted (commit C i e p n raw)"
  unfolding commit_def persist_def publish_def by (intro pres_intro)

lemma counted_handlers:
  "keeps repairs_counted (Service_Create C raw)" "keeps repairs_counted (Service_Update C i expected raw)"
  "keeps repairs_counted (Service_Delete C i expected raw)" "keeps repairs_counted (CommitCertified C raw)"
  "keeps repairs_counted (WriteBackCertified C raw)"
  "keeps repairs_counted (Rename_locked C oldID newID g newRaw tombRaw)"
  unfolding Service_Create_def Create_prepare_def Service_Update_def Service_Delete_def CommitCertified_def
    CommitCertified_prepare_def CommitCertified_commit_def WriteBackCertified_def Rename_locked_def
    Rename_announce_def
    requireCertifiedMode_def publish_def Let_def
  by (intro pres_intro)+

lemma counted_repair:
  assumes "repairs_counted s" "job \<in> set (sv_repairs s)"
  shows "repairs_counted (repairSearchIndex X job s)"
proof -
  have ne: "sv_repairs s \<noteq> []" using assms(2) by auto
  have len: "int (length (remove1 job (sv_repairs s))) = int (length (sv_repairs s)) - 1"
    using assms(2) ne by (simp add: length_remove1 of_nat_diff Suc_leI)
  obtain q ix where c: "indexCall X (fst job) (snd job) (sv_index s) = (q, ix)" by fastforce
  show ?thesis
  proof (cases q)
    case (Inl e)
    with c assms(1) show ?thesis by (simp add: repairSearchIndex_def repairs_counted_def)
  next
    case (Inr x)
    have "remove1 job (sv_repairs s) = [] \<longleftrightarrow> int (length (sv_repairs s)) - 1 = 0"
      unfolding len [symmetric] by simp
    with c Inr assms(1) len ne show ?thesis
      by (simp add: repairSearchIndex_def repairs_counted_def Let_def)
  qed
qed

text \<open>The completeness flag agrees with the outstanding repairs: from a state in which the counter
  is the number of repair jobs and the flag is set exactly while there are some, every handler,
  whether it succeeds or fails, and every repair attempt lead to such a state. A search through
  the index therefore never claims to be complete while an index update is outstanding.\<close>

theorem index_repairs_counted:
  assumes "repairs_counted s"
    and "(r, t) \<in> {Service_Create C raw s, Service_Update C i expected raw s, Service_Delete C i expected raw s,
        CommitCertified C raw s, WriteBackCertified C raw s}
      \<or> Service_Rename C i j expected raw tombRaw s = Some (q, t)
      \<or> (\<exists>job\<in>set (sv_repairs s). t = repairSearchIndex X job s)"
  shows "repairs_counted t"
proof -
  have one: "repairs_counted t" if "(r, t) = m s" "keeps repairs_counted m" for m
    using keepsD [OF that(2) that(1) [symmetric] assms(1)] .
  have "repairs_counted t" if "Service_Rename C i j expected raw tombRaw s = Some (q, t)"
    using that assms(1) keepsD [OF counted_handlers(6) _ assms(1), of C i j expected raw tombRaw q t]
    by (auto simp: Service_Rename_def split: if_splits)
  moreover have "repairs_counted t" if "\<exists>job\<in>set (sv_repairs s). t = repairSearchIndex X job s"
    using that counted_repair [OF assms(1)] by blast
  moreover have "repairs_counted t" if "(r, t) \<in> {Service_Create C raw s, Service_Update C i expected raw s,
      Service_Delete C i expected raw s, CommitCertified C raw s, WriteBackCertified C raw s}"
    using that one [OF _ counted_handlers(1)] one [OF _ counted_handlers(2)] one [OF _ counted_handlers(3)]
      one [OF _ counted_handlers(4)] one [OF _ counted_handlers(5)] by blast
  ultimately show ?thesis using assms(2) by blast
qed

subsection \<open>Rename\<close>

text \<open>\<open>Rename\<close> does not go through the authority. When it returns, successfully or not, the
  authority is as it was, although on success the local heads of both names have changed: the
  old name still has its old head there, so the next update through the authority is accepted
  against the old record and not against the tombstone. And \<open>Rename\<close> of a name to itself never
  returns, because it locks the same mutex twice.\<close>

theorem Rename_bypasses_authority:
  assumes "datastore_contract (cf_datastore C)"
  shows "(\<forall>r t. Service_Rename C oldID newID g newRaw tombRaw s = Some (r, t) \<longrightarrow> sv_auth t = sv_auth s)
    \<and> (\<forall>t. Service_Rename C oldID newID g newRaw tombRaw s = Some (Inr (), t) \<longrightarrow>
         ds_Get (cf_datastore C) (sv_ds t) (currentKey oldID) = Inr tombRaw)
    \<and> (\<not> certificationRequired C s oldID \<longrightarrow>
         Service_Rename C oldID oldID g newRaw tombRaw s = None)"
proof (intro conjI allI impI)
  fix r t assume run: "Service_Rename C oldID newID g newRaw tombRaw s = Some (r, t)"
  have "keeps (on_auth P) (Rename_locked C oldID newID g newRaw tombRaw)" for P
    unfolding Rename_locked_def Rename_announce_def by (intro pres_intro)
  from keepsD [OF this [of "\<lambda>b. b = sv_auth s"], of s r t] run show "sv_auth t = sv_auth s"
    by (auto simp: Service_Rename_def on_auth_def split: if_splits)
next
  fix t assume run: "Service_Rename C oldID newID g newRaw tombRaw s = Some (Inr (), t)"
  then have ne: "oldID \<noteq> newID" and rl: "Rename_locked C oldID newID g newRaw tombRaw s = (Inr (), t)"
    by (auto simp: Service_Rename_def split: if_splits)
  from rl obtain oldR newR tomb u where b: "onDs (ds_Batch (cf_datastore C)
        [(currentKey newID, newRaw), (historyKey newID (nr_Generation newR), newRaw),
         (currentKey oldID, tombRaw), (historyKey oldID (nr_Generation tomb), tombRaw)]) s = (Inr (), u)"
    and rest: "Rename_announce C oldID newID newRaw tombRaw oldR newR tomb u = (Inr (), t)"
    unfolding Rename_locked_def by (auto simp: op_inv)
  have "keeps (\<lambda>x. sv_ds x = sv_ds u) (Rename_announce C oldID newID newRaw tombRaw oldR newR tomb)"
    unfolding publish_def Rename_announce_def
    by (intro keeps_bindS keeps_ds_index keeps_ds_commit keeps_ds_put)
  from keepsD [OF this rest] have "sv_ds t = sv_ds u" by simp
  with b have "ds_Batch (cf_datastore C)
        [(currentKey newID, newRaw), (historyKey newID (nr_Generation newR), newRaw),
         (currentKey oldID, tombRaw), (historyKey oldID (nr_Generation tomb), tombRaw)] (sv_ds s)
      = (Inr (), sv_ds t)"
    by (auto simp: onDs_def split: prod.splits)
  from datastore_contract.Get_after_Batch [OF assms this]
  show "ds_Get (cf_datastore C) (sv_ds t) (currentKey oldID) = Inr tombRaw" by simp
qed (simp add: Service_Rename_def)

end
