(* ===== verification/Go_Binary.thy ===== *)
theory Go_Binary
  imports Go_Strings
begin

text \<open>
  \<open>encoding/binary\<close>: fixed-width unsigned integers as bytes, big and little endian, with their
  round trips, shared by the lease fences, the wire formats of the sync protocol and the Bloom
  filters.
\<close>

fun be_nat :: "nat \<Rightarrow> nat \<Rightarrow> bytes" where
  "be_nat 0 n = []"
| "be_nat (Suc k) n = be_nat k (n div 256) @ [char_of (n mod 256)]"

definition unbe_nat :: "bytes \<Rightarrow> nat" where
  "unbe_nat b = foldl (\<lambda>a c. a * 256 + byte c) 0 b"

lemma be_nat_length [simp]: "length (be_nat k n) = k"
  by (induction k n rule: be_nat.induct) simp_all

lemma unbe_nat_snoc [simp]: "unbe_nat (b @ [c]) = unbe_nat b * 256 + byte c"
  by (simp add: unbe_nat_def)

lemma unbe_nat_Nil [simp]: "unbe_nat [] = 0"
  by (simp add: unbe_nat_def)

lemma unbe_be: "n < 256 ^ k \<Longrightarrow> unbe_nat (be_nat k n) = n"
proof (induction k n rule: be_nat.induct)
  case (2 k n)
  then have "n div 256 < 256 ^ k" by (simp add: less_mult_imp_div_less mult.commute)
  with 2 show ?case by simp
qed simp

lemma unbe_nat_bound: "unbe_nat b < 256 ^ length b"
proof (induction b rule: rev_induct)
  case (snoc c b)
  have c: "(byte c :: nat) < 256" by simp
  from snoc have "unbe_nat b + 1 \<le> 256 ^ length b" by simp
  then have "(unbe_nat b + 1) * 256 \<le> 256 ^ length b * 256" by (rule mult_right_mono) simp
  with c have "unbe_nat b * 256 + byte c < 256 ^ length b * 256"
    by (simp only: distrib_right mult_1)
  then show ?case by (simp add: mult.commute)
qed simp

lemma be_unbe: "be_nat (length b) (unbe_nat b) = b"
proof (induction b rule: rev_induct)
  case (snoc c b)
  have "byte c < 256" by simp
  then have "(unbe_nat b * 256 + byte c) div 256 = unbe_nat b"
    "(unbe_nat b * 256 + byte c) mod 256 = byte c" by simp_all
  with snoc show ?case by simp
qed simp

definition BE_PutUint64 :: "u64 \<Rightarrow> bytes" where "BE_PutUint64 w = be_nat 8 (unat w)"
definition BE_Uint64 :: "bytes \<Rightarrow> u64" where "BE_Uint64 b = of_nat (unbe_nat (take 8 b))"
definition BE_PutUint32 :: "u32 \<Rightarrow> bytes" where "BE_PutUint32 w = be_nat 4 (unat w)"
definition BE_Uint32 :: "bytes \<Rightarrow> u32" where "BE_Uint32 b = of_nat (unbe_nat (take 4 b))"
definition LE_PutUint64 :: "u64 \<Rightarrow> bytes" where "LE_PutUint64 w = rev (be_nat 8 (unat w))"
definition LE_Uint64 :: "bytes \<Rightarrow> u64" where "LE_Uint64 b = of_nat (unbe_nat (rev (take 8 b)))"
definition LE_PutUint32 :: "u32 \<Rightarrow> bytes" where "LE_PutUint32 w = rev (be_nat 4 (unat w))"
definition LE_Uint32 :: "bytes \<Rightarrow> u32" where "LE_Uint32 b = of_nat (unbe_nat (rev (take 4 b)))"

lemma Put_lengths [simp]:
  "length (BE_PutUint64 w) = 8" "length (BE_PutUint32 v) = 4"
  "length (LE_PutUint64 w) = 8" "length (LE_PutUint32 v) = 4"
  by (simp_all add: BE_PutUint64_def BE_PutUint32_def LE_PutUint64_def LE_PutUint32_def)

lemma unat_bounds: "unat (w :: u64) < 256 ^ 8" "unat (v :: u32) < 256 ^ 4"
  using unsigned_less [of w, where ?'a = nat] unsigned_less [of v, where ?'a = nat] by simp_all

lemma unbe_unat:
  "unbe_nat (be_nat 8 (unat (w :: u64))) = unat w" "unbe_nat (be_nat 4 (unat (v :: u32))) = unat v"
  by (rule unbe_be, rule unat_bounds)+

lemma Uint_Put [simp]:
  "BE_Uint64 (BE_PutUint64 w @ rest) = w" "BE_Uint32 (BE_PutUint32 v @ rest) = v"
  "LE_Uint64 (LE_PutUint64 w @ rest) = w" "LE_Uint32 (LE_PutUint32 v @ rest) = v"
  by (simp_all add: BE_Uint64_def BE_PutUint64_def BE_Uint32_def BE_PutUint32_def LE_Uint64_def
      LE_PutUint64_def LE_Uint32_def LE_PutUint32_def unbe_unat)

lemma Uint_Put_exact [simp]:
  "BE_Uint64 (BE_PutUint64 w) = w" "BE_Uint32 (BE_PutUint32 v) = v"
  "LE_Uint64 (LE_PutUint64 w) = w" "LE_Uint32 (LE_PutUint32 v) = v"
  using Uint_Put(1) [of w "[]"] Uint_Put(2) [of v "[]"] Uint_Put(3) [of w "[]"] Uint_Put(4) [of v "[]"]
  by simp_all

lemma unat_of_nat_lt:
  "n < 256 ^ 4 \<Longrightarrow> unat (of_nat n :: u32) = n" "n < 256 ^ 8 \<Longrightarrow> unat (of_nat n :: u64) = n"
  by (simp_all add: unat_of_nat)

lemma Put_Uint:
  "length b = 4 \<Longrightarrow> BE_PutUint32 (BE_Uint32 b) = b" "length b = 8 \<Longrightarrow> BE_PutUint64 (BE_Uint64 b) = b"
  "length b = 4 \<Longrightarrow> LE_PutUint32 (LE_Uint32 b) = b" "length b = 8 \<Longrightarrow> LE_PutUint64 (LE_Uint64 b) = b"
  using unbe_nat_bound [of b] unbe_nat_bound [of "rev b"] be_unbe [of b] be_unbe [of "rev b"]
  by (simp_all add: BE_Uint64_def BE_PutUint64_def BE_Uint32_def BE_PutUint32_def LE_Uint64_def
      LE_PutUint64_def LE_Uint32_def LE_PutUint32_def unat_of_nat_lt)

end
