(* ===== verification/Names_Lease.thy ===== *)
theory Names_Lease
  imports Names_Store_Props Go_Binary
begin

text \<open>
  Leases of \<open>internal/names/store.go\<close>: acquiring, renewing and releasing an exclusive lease on an
  exact name or a subtree, with the fencing number kept in the local datastore and the registry
  of reserved paths kept, one per namespace, at the authority. Each registry operation is split
  at the compare-and-swap that decides it, as the name handlers are. \<open>batch.Put\<close> only queues, so
  a batch fails as a whole.
\<close>

subsection \<open>Keys\<close>

definition leaseDSKey :: "LeaseScope \<Rightarrow> string result" where
  "leaseDSKey scope =
     bindR (LeaseKey scope) (\<lambda>key. Inr (''/mutable/leases/'' @ TrimPrefix key ''/leases/''))"

text \<open>\<open>key, _ := leaseDSKey(scope)\<close>: the zero key when there is an error.\<close>

definition leaseDSKey_or_zero :: "LeaseScope \<Rightarrow> string" where
  "leaseDSKey_or_zero scope = (case leaseDSKey scope of Inr key \<Rightarrow> key | Inl _ \<Rightarrow> [])"

definition leaseFenceKey :: "string \<Rightarrow> string" where
  "leaseFenceKey key = ''/mutable/lease-fences/'' @ TrimPrefix key ''/mutable/leases/''"

definition leaseRegistryDSKey :: "bytes \<Rightarrow> string" where
  "leaseRegistryDSKey namespace = ''/mutable/lease-registries/'' @ hex_EncodeToString namespace"

definition authorityLeaseName :: "LeaseScope \<Rightarrow> string" where
  "authorityLeaseName scope =
     ''__tarsus_lease_v1__'' @ (case LeaseKey scope of Inr key \<Rightarrow> key | Inl _ \<Rightarrow> [])"

definition authorityLeaseRegistryName :: "bytes \<Rightarrow> string" where
  "authorityLeaseRegistryName namespace =
     ''__tarsus_lease_registry_v1__'' @ hex_EncodeToString namespace"

subsection \<open>What a lease is checked against\<close>

definition leaseCurrent ::
  "('d, 'n, 'i, 'a) service \<Rightarrow> ('d, 'n, 'i, 'a) service_state \<Rightarrow> LeaseScope \<Rightarrow> string \<Rightarrow> bytes result" where
  "leaseCurrent C s scope key =
     (case cf_authority C of
        Some A \<Rightarrow> au_Read A (sv_auth s) (authorityLeaseName scope)
      | None \<Rightarrow> ds_Get (cf_datastore C) (sv_ds s) key)"

definition nextFence ::
  "('d, 'n, 'i, 'a) service \<Rightarrow> ('d, 'n, 'i, 'a) service_state \<Rightarrow> string \<Rightarrow> u64" where
  "nextFence C s key =
     (case ds_Get (cf_datastore C) (sv_ds s) (leaseFenceKey key) of
        Inl _ \<Rightarrow> 1
      | Inr currentRaw \<Rightarrow> if length currentRaw \<noteq> 8 then 1 else BE_Uint64 currentRaw + 1)"

definition authorizeLease ::
  "('d, 'n, 'i, 'a) service \<Rightarrow> ('d, 'n, 'i, 'a) service_state \<Rightarrow> LeaseRecord \<Rightarrow> unit result" where
  "authorizeLease C s lease =
     (if length (sc_NameID (lr_Scope lease)) = 32
      then bindR (Service_Get C s (bytesToNameID (sc_NameID (lr_Scope lease)))) (\<lambda>(record, _).
        fail_if (nr_Owner record \<noteq> lr_Owner lease) (ErrMsg ''lease owner does not own exact name'')
          (Inr ()))
      else
       (let namespace = sc_Namespace (lr_Scope lease);
            local = ds_Get (cf_datastore C) (sv_ds s) (namespaceOwnerKey namespace) in
        case (case (local, cf_authority C) of
                (Inl _, Some A) \<Rightarrow> au_Read A (sv_auth s) (authorityNamespaceName namespace)
              | (r, _) \<Rightarrow> r) of
          Inl _ \<Rightarrow> Inl (ErrMsg ''unknown namespace owner'')
        | Inr owner \<Rightarrow>
            fail_if (owner \<noteq> lr_Owner lease)
              (ErrMsg ''lease owner does not own subtree namespace'') (Inr ())))"

definition leaseNamespacePath ::
  "('d, 'n, 'i, 'a) service \<Rightarrow> ('d, 'n, 'i, 'a) service_state \<Rightarrow> LeaseRecord \<Rightarrow>
   (bytes \<times> string \<times> bool) result" where
  "leaseNamespacePath C s lease =
     (if length (sc_NameID (lr_Scope lease)) = 32
      then bindR (Service_Get C s (bytesToNameID (sc_NameID (lr_Scope lease)))) (\<lambda>(record, _).
        Inr (nr_Namespace record, nr_Path record, False))
      else Inr (sc_Namespace (lr_Scope lease), sc_PathPrefix (lr_Scope lease), True))"

definition currentLeaseRegistry ::
  "('d, 'n, 'i, 'a) service \<Rightarrow> ('d, 'n, 'i, 'a) service_state \<Rightarrow> bytes \<Rightarrow>
   (bytes option \<times> leaseRegistry) result" where
  "currentLeaseRegistry C s namespace =
     (case (case cf_authority C of
              Some A \<Rightarrow> au_Read A (sv_auth s) (authorityLeaseRegistryName namespace)
            | None \<Rightarrow> ds_Get (cf_datastore C) (sv_ds s) (leaseRegistryDSKey namespace)) of
        Inl err \<Rightarrow>
          if errors_Is err DsNotFound \<or> errors_Is err ErrNotFound
          then Inr (None, \<lparr>reg_Version = FormatVersion, reg_Namespace = namespace, reg_Revision = 0,
                           reg_Entries = []\<rparr>)
          else Inl err
      | Inr raw \<Rightarrow>
          bindR (UnmarshalCanonical (regC (cf_env C)) raw) (\<lambda>registry.
          fail_if (reg_Version registry \<noteq> FormatVersion \<or> reg_Namespace registry \<noteq> namespace)
            (ErrMsg ''invalid lease registry'') (Inr (Some raw, registry))))"

definition overlappingLeasePaths :: "string \<Rightarrow> bool \<Rightarrow> string \<Rightarrow> bool \<Rightarrow> bool" where
  "overlappingLeasePaths a aSubtree b bSubtree \<longleftrightarrow>
     (if \<not> aSubtree \<and> \<not> bSubtree then a = b
      else if aSubtree \<and> bSubtree then pathWithinPrefix a b \<or> pathWithinPrefix b a
      else if aSubtree then pathWithinPrefix b a
      else pathWithinPrefix a b)"

definition leaseScopesEqual :: "LeaseScope \<Rightarrow> LeaseScope \<Rightarrow> bool" where
  "leaseScopesEqual a b \<longleftrightarrow>
     sc_NameID a = sc_NameID b \<and> sc_Namespace a = sc_Namespace b \<and> sc_PathPrefix a = sc_PathPrefix b"

subsection \<open>The registry of reserved paths\<close>

text \<open>The loops of \<open>reserveLease\<close>, \<open>replaceLeaseReservation\<close> and \<open>removeLeaseReservation\<close>.\<close>

fun active_entries ::
  "int \<Rightarrow> string \<Rightarrow> bool \<Rightarrow> leaseRegistryEntry list \<Rightarrow> leaseRegistryEntry list result" where
  "active_entries now lockPath subtree [] = Inr []"
| "active_entries now lockPath subtree (entry # rest) =
     (if le_Expires entry \<le> now then active_entries now lockPath subtree rest
      else fail_if (overlappingLeasePaths lockPath subtree (le_Path entry) (le_Subtree entry)) ErrLocked
        (bindR (active_entries now lockPath subtree rest) (\<lambda>active. Inr (entry # active))))"

definition reservation :: "names_env \<Rightarrow> LeaseRecord \<Rightarrow> leaseRegistryEntry \<Rightarrow> bool" where
  "reservation E lease entry \<longleftrightarrow>
     le_Fencing entry = lr_Fencing lease \<and> le_Holder entry = lr_Holder lease
     \<and> (case UnmarshalCanonical (leaseC E) (le_Lease entry) of
          Inl _ \<Rightarrow> False | Inr existing \<Rightarrow> leaseScopesEqual (lr_Scope existing) (lr_Scope lease))"

fun replace_entry ::
  "names_env \<Rightarrow> LeaseRecord \<Rightarrow> bytes \<Rightarrow> leaseRegistryEntry list \<Rightarrow> leaseRegistryEntry list result" where
  "replace_entry E lease raw [] = Inl ErrConflict"
| "replace_entry E lease raw (entry # rest) =
     (if reservation E lease entry
      then Inr (entry\<lparr>le_Lease := raw, le_Expires := lr_Expires lease\<rparr> # rest)
      else bindR (replace_entry E lease raw rest) (\<lambda>r. Inr (entry # r)))"

fun remove_entry ::
  "names_env \<Rightarrow> LeaseRecord \<Rightarrow> leaseRegistryEntry list \<Rightarrow> leaseRegistryEntry list result" where
  "remove_entry E lease [] = Inl ErrNotFound"
| "remove_entry E lease (entry # rest) =
     (if reservation E lease entry then Inr rest
      else bindR (remove_entry E lease rest) (\<lambda>r. Inr (entry # r)))"

definition lease_entry :: "string \<Rightarrow> bool \<Rightarrow> LeaseRecord \<Rightarrow> bytes \<Rightarrow> leaseRegistryEntry" where
  "lease_entry lockPath subtree lease raw =
     \<lparr>le_Lease = raw, le_Path = lockPath, le_Subtree = subtree, le_Expires = lr_Expires lease,
      le_Fencing = lr_Fencing lease, le_Holder = lr_Holder lease\<rparr>"

text \<open>What a registry operation does to the entries: the three edits of the code.\<close>

datatype registry_edit =
    Reserve int string bool LeaseRecord bytes
  | Replace LeaseRecord bytes
  | Remove LeaseRecord

fun edit_entries ::
  "names_env \<Rightarrow> registry_edit \<Rightarrow> leaseRegistryEntry list \<Rightarrow> leaseRegistryEntry list result" where
  "edit_entries E (Reserve now lockPath subtree lease raw) es =
     bindR (active_entries now lockPath subtree es) (\<lambda>active.
     Inr (active @ [lease_entry lockPath subtree lease raw]))"
| "edit_entries E (Replace lease raw) es = replace_entry E lease raw es"
| "edit_entries E (Remove lease) es = remove_entry E lease es"

definition edit_prepare ::
  "('d, 'n, 'i, 'a) service \<Rightarrow> bytes \<Rightarrow> registry_edit \<Rightarrow> ('d, 'n, 'i, 'a) service_state \<Rightarrow>
   (bytes option \<times> leaseRegistry) result" where
  "edit_prepare C namespace edit s =
     bindR (currentLeaseRegistry C s namespace) (\<lambda>(expected, registry).
     bindR (edit_entries (cf_env C) edit (reg_Entries registry)) (\<lambda>entries.
     Inr (expected, registry\<lparr>reg_Entries := entries\<rparr>)))"

definition nextRegistry :: "names_env \<Rightarrow> leaseRegistry \<Rightarrow> bytes result" where
  "nextRegistry E registry =
     MarshalCanonical (regC E) (registry\<lparr>reg_Revision := reg_Revision registry + 1\<rparr>)"

definition writeLeaseRegistry ::
  "('d, 'n, 'i, 'a) service \<Rightarrow> bytes \<Rightarrow> bytes option \<Rightarrow> leaseRegistry \<Rightarrow>
   (('d, 'n, 'i, 'a) service_state, unit) op" where
  "writeLeaseRegistry C namespace expected registry =
     bindS (liftR (nextRegistry (cf_env C) registry)) (\<lambda>next.
     bindS (swapAuthority C (authorityLeaseRegistryName namespace) expected (Some next)) (\<lambda>_.
     onDs (ds_Put (cf_datastore C) (leaseRegistryDSKey namespace) next)))"

definition editRegistry ::
  "('d, 'n, 'i, 'a) service \<Rightarrow> bytes \<Rightarrow> registry_edit \<Rightarrow> (('d, 'n, 'i, 'a) service_state, unit) op" where
  "editRegistry C namespace edit =
     readS (edit_prepare C namespace edit) (\<lambda>prepared.
     bindS (liftR prepared) (\<lambda>(expected, registry).
     writeLeaseRegistry C namespace expected registry))"

definition reserveLease ::
  "('d, 'n, 'i, 'a) service \<Rightarrow> bytes \<Rightarrow> string \<Rightarrow> bool \<Rightarrow> LeaseRecord \<Rightarrow> bytes \<Rightarrow>
   (('d, 'n, 'i, 'a) service_state, unit) op" where
  "reserveLease C namespace lockPath subtree lease raw =
     editRegistry C namespace (Reserve (cf_now C) lockPath subtree lease raw)"

definition replaceLeaseReservation ::
  "('d, 'n, 'i, 'a) service \<Rightarrow> bytes \<Rightarrow> LeaseRecord \<Rightarrow> bytes \<Rightarrow> (('d, 'n, 'i, 'a) service_state, unit) op"
where
  "replaceLeaseReservation C namespace lease raw = editRegistry C namespace (Replace lease raw)"

definition removeLeaseReservation ::
  "('d, 'n, 'i, 'a) service \<Rightarrow> bytes \<Rightarrow> LeaseRecord \<Rightarrow> (('d, 'n, 'i, 'a) service_state, unit) op" where
  "removeLeaseReservation C namespace lease = editRegistry C namespace (Remove lease)"

subsection \<open>Acquire, renew, release\<close>

text \<open>A step whose failure gives the reservation back before the error is returned.\<close>

definition orUndo ::
  "('s, 'x) op \<Rightarrow> ('s, unit) op \<Rightarrow> ('x \<Rightarrow> ('s, 'y) op) \<Rightarrow> ('s, 'y) op" where
  "orUndo m undo k =
     tryS m (\<lambda>r. case r of Inr x \<Rightarrow> k x | Inl err \<Rightarrow> tryS undo (\<lambda>_. failS err))"

definition leaseOf :: "names_env \<Rightarrow> bytes result \<Rightarrow> LeaseRecord option" where
  "leaseOf E r = result_or_nil (bindR r (UnmarshalCanonical (leaseC E)))"

definition requiredFence ::
  "('d, 'n, 'i, 'a) service \<Rightarrow> ('d, 'n, 'i, 'a) service_state \<Rightarrow> string \<Rightarrow> LeaseRecord option \<Rightarrow> u64" where
  "requiredFence C s key current =
     (case current of
        Some c \<Rightarrow> if nextFence C s key \<le> lr_Fencing c then lr_Fencing c + 1 else nextFence C s key
      | None \<Rightarrow> nextFence C s key)"

definition installLease ::
  "('d, 'n, 'i, 'a) service \<Rightarrow> bytes \<Rightarrow> LeaseRecord \<Rightarrow> bytes \<Rightarrow> string \<Rightarrow> bytes option \<Rightarrow>
   (('d, 'n, 'i, 'a) service_state, LeaseRecord) op" where
  "installLease C namespace requested raw key expected =
     orUndo (swapAuthority C (authorityLeaseName (lr_Scope requested)) expected (Some raw))
       (removeLeaseReservation C namespace requested) (\<lambda>_.
     orUndo (onDs (ds_Batch (cf_datastore C)
         [(key, raw), (leaseFenceKey key, BE_PutUint64 (lr_Fencing requested))]))
       (removeLeaseReservation C namespace requested) (\<lambda>_.
     bindS (case LeaseKey (lr_Scope requested) of
              Inr networkKey \<Rightarrow> putValue C networkKey raw
            | Inl _ \<Rightarrow> retS ()) (\<lambda>_.
     retS requested)))"

definition checkAcquire ::
  "('d, 'n, 'i, 'a) service \<Rightarrow> bytes \<Rightarrow> ('d, 'n, 'i, 'a) service_state \<Rightarrow>
   (LeaseRecord \<times> string \<times> bytes result \<times> bytes \<times> string \<times> bool) result" where
  "checkAcquire C raw s =
     bindR (UnmarshalCanonical (leaseC (cf_env C)) raw) (\<lambda>requested.
     bindR (LeaseRecord_Validate (cf_env C) (cf_now C) requested) (\<lambda>_.
     bindR (authorizeLease C s requested) (\<lambda>_.
     let key = leaseDSKey_or_zero (lr_Scope requested);
         currentR = leaseCurrent C s (lr_Scope requested) key;
         current = leaseOf (cf_env C) currentR in
     fail_if (case current of Some c \<Rightarrow> lr_Expires c > cf_now C | None \<Rightarrow> False) ErrLocked
     (fail_if (lr_Fencing requested \<noteq> requiredFence C s key current) ErrConflict
     (bindR (leaseNamespacePath C s requested) (\<lambda>(namespace, lockPath, subtree).
      Inr (requested, key, currentR, namespace, lockPath, subtree)))))))"

definition AcquireLease ::
  "('d, 'n, 'i, 'a) service \<Rightarrow> bytes \<Rightarrow> (('d, 'n, 'i, 'a) service_state, LeaseRecord) op" where
  "AcquireLease C raw =
     readS (checkAcquire C raw) (\<lambda>checked.
     bindS (liftR checked) (\<lambda>(requested, key, currentR, namespace, lockPath, subtree).
     bindS (reserveLease C namespace lockPath subtree requested raw) (\<lambda>_.
     installLease C namespace requested raw key (result_or_nil currentR))))"

definition heldLease ::
  "('d, 'n, 'i, 'a) service \<Rightarrow> bytes \<Rightarrow> ('d, 'n, 'i, 'a) service_state \<Rightarrow>
   (LeaseRecord \<times> string \<times> bytes \<times> LeaseRecord) result" where
  "heldLease C raw s =
     bindR (UnmarshalCanonical (leaseC (cf_env C)) raw) (\<lambda>requested.
     bindR (LeaseRecord_Validate (cf_env C) (cf_now C) requested) (\<lambda>_.
     let key = leaseDSKey_or_zero (lr_Scope requested) in
     case leaseCurrent C s (lr_Scope requested) key of
       Inl _ \<Rightarrow> Inl ErrNotFound
     | Inr currentRaw \<Rightarrow>
         bindR (UnmarshalCanonical (leaseC (cf_env C)) currentRaw) (\<lambda>current.
         Inr (requested, key, currentRaw, current))))"

definition checkRenew ::
  "('d, 'n, 'i, 'a) service \<Rightarrow> bytes \<Rightarrow> ('d, 'n, 'i, 'a) service_state \<Rightarrow>
   (LeaseRecord \<times> string \<times> bytes \<times> LeaseRecord \<times> bytes) result" where
  "checkRenew C raw s =
     bindR (heldLease C raw s) (\<lambda>(requested, key, currentRaw, current).
     fail_if (lr_Expires current \<le> cf_now C \<or> lr_Fencing requested \<noteq> lr_Fencing current
              \<or> lr_Holder requested \<noteq> lr_Holder current \<or> lr_Issued requested < lr_Issued current)
       ErrConflict
     (bindR (leaseNamespacePath C s requested) (\<lambda>(namespace, _, _).
      Inr (requested, key, currentRaw, current, namespace))))"

definition RenewLease ::
  "('d, 'n, 'i, 'a) service \<Rightarrow> bytes \<Rightarrow> (('d, 'n, 'i, 'a) service_state, LeaseRecord) op" where
  "RenewLease C raw =
     readS (checkRenew C raw) (\<lambda>checked.
     bindS (liftR checked) (\<lambda>(requested, key, currentRaw, current, namespace).
     bindS (replaceLeaseReservation C namespace requested raw) (\<lambda>_.
     orUndo (swapAuthority C (authorityLeaseName (lr_Scope requested)) (Some currentRaw) (Some raw))
       (replaceLeaseReservation C namespace current currentRaw) (\<lambda>_.
     bindS (onDs (ds_Put (cf_datastore C) key raw)) (\<lambda>_.
     retS requested)))))"

definition checkRelease ::
  "('d, 'n, 'i, 'a) service \<Rightarrow> bytes \<Rightarrow> ('d, 'n, 'i, 'a) service_state \<Rightarrow>
   (LeaseRecord \<times> string \<times> bytes \<times> bytes) result" where
  "checkRelease C raw s =
     bindR (heldLease C raw s) (\<lambda>(requested, key, currentRaw, current).
     fail_if (lr_Fencing requested \<noteq> lr_Fencing current \<or> lr_Holder requested \<noteq> lr_Holder current)
       ErrConflict
     (bindR (leaseNamespacePath C s requested) (\<lambda>(namespace, _, _).
      Inr (requested, key, currentRaw, namespace))))"

definition ReleaseLease ::
  "('d, 'n, 'i, 'a) service \<Rightarrow> bytes \<Rightarrow> (('d, 'n, 'i, 'a) service_state, unit) op" where
  "ReleaseLease C raw =
     readS (checkRelease C raw) (\<lambda>checked.
     bindS (liftR checked) (\<lambda>(requested, key, currentRaw, namespace).
     bindS (swapAuthority C (authorityLeaseName (lr_Scope requested)) (Some currentRaw) None) (\<lambda>_.
     bindS (removeLeaseReservation C namespace requested) (\<lambda>_.
     onDs (ds_Delete (cf_datastore C) key)))))"

subsection \<open>Overlapping scopes\<close>

text \<open>The paths a scope covers: the path itself, or every path below its prefix.\<close>

definition covers :: "string \<Rightarrow> bool \<Rightarrow> string \<Rightarrow> bool" where
  "covers a subtree p \<longleftrightarrow> (if subtree then pathWithinPrefix p a else p = a)"

lemma covers_path_of:
  assumes "\<forall>w\<in>set vs. good_component w" "\<forall>w\<in>set ps. good_component w"
  shows "covers (path_of ps) b (path_of vs) \<longleftrightarrow> (if b then \<exists>rest. vs = ps @ rest else vs = ps)"
  using pathWithinPrefix_path_of [OF assms] path_of_inj assms by (auto simp: covers_def)

text \<open>Two lease scopes over normalized paths are found overlapping exactly when some normalized
  path is covered by both of them, for exact names and subtrees in every combination.\<close>

theorem overlappingLeasePaths_iff:
  assumes "normalized a" and "normalized b"
  shows "overlappingLeasePaths a aSubtree b bSubtree \<longleftrightarrow>
    (\<exists>p. normalized p \<and> covers a aSubtree p \<and> covers b bSubtree p)"
proof -
  obtain xs ys where a: "a = path_of xs" "\<forall>w\<in>set xs. good_component w"
    and b: "b = path_of ys" "\<forall>w\<in>set ys. good_component w"
    using assms by (metis normalizedE)
  have "(\<exists>p. normalized p \<and> covers a aSubtree p \<and> covers b bSubtree p) \<longleftrightarrow>
      covers a aSubtree b \<and> (bSubtree \<or> covers b bSubtree b) \<and> covers b bSubtree b
      \<or> covers b bSubtree a \<and> covers a aSubtree a"
    (is "?L \<longleftrightarrow> ?R")
  proof
    assume ?L
    then obtain p where p: "normalized p" "covers a aSubtree p" "covers b bSubtree p" by blast
    from p(1) obtain vs where v: "p = path_of vs" "\<forall>w\<in>set vs. good_component w"
      by (metis normalizedE)
    from p(2,3) show ?R
      unfolding a(1) b(1) v(1) covers_path_of [OF v(2) a(2)] covers_path_of [OF v(2) b(2)]
        covers_path_of [OF b(2) a(2)] covers_path_of [OF a(2) b(2)]
        covers_path_of [OF a(2) a(2)] covers_path_of [OF b(2) b(2)]
      by (auto simp: append_eq_append_conv2 split: if_splits)
  next
    assume ?R
    then show ?L using assms by blast
  qed
  then show ?thesis
    by (auto simp: overlappingLeasePaths_def covers_def)
qed

theorem overlappingLeasePaths_iff_witness:
  "overlappingLeasePaths ''/a'' True ''/a/b'' False
   \<and> (\<exists>p. normalized p \<and> covers ''/a'' True p \<and> covers ''/a/b'' False p)"
proof -
  have n: "normalized ''/a''" "normalized ''/a/b''"
    by (simp_all add: normalized_def NormalizePath_def HasPrefix_def path_Clean_def
          clean_components_def maxPathBytes_def)
  have "overlappingLeasePaths ''/a'' True ''/a/b'' False"
    by (simp add: overlappingLeasePaths_def pathWithinPrefix_def HasPrefix_def TrimSuffix_def HasSuffix_def)
  with overlappingLeasePaths_iff [OF n] show ?thesis by blast
qed

end
