(* ===== verification/Names_Registry.thy ===== *)
theory Names_Registry
  imports Names_Lease
begin

text \<open>
  Exclusion of leases. The registry of a namespace is one register of the authority that every
  node edits by compare-and-swap. The nodes form a transition system at the granularity of those
  swaps; its invariant is that the registries installed one after the other are a chain, each one
  edit of the code away from its predecessor, and that the scopes reserved in any of them are
  disjoint. The three lease handlers are shown to be runs of the system, and an acquired lease to
  have a fencing number above the earlier ones.
\<close>

subsection \<open>Edits keep the reserved scopes disjoint\<close>

definition apart :: "leaseRegistryEntry \<Rightarrow> leaseRegistryEntry \<Rightarrow> bool" where
  "apart x y \<longleftrightarrow> \<not> overlappingLeasePaths (le_Path x) (le_Subtree x) (le_Path y) (le_Subtree y)"

abbreviation disjoint_scopes :: "leaseRegistryEntry list \<Rightarrow> bool" where
  "disjoint_scopes \<equiv> sorted_wrt apart"

lemma overlapping_sym: "overlappingLeasePaths a sa b sb \<longleftrightarrow> overlappingLeasePaths b sb a sa"
  by (auto simp: overlappingLeasePaths_def)

lemma apart_sym: "apart x y \<longleftrightarrow> apart y x"
  unfolding apart_def by (subst overlapping_sym) simp

lemma active_entries_ok:
  "active_entries now p sub es = Inr active \<Longrightarrow>
     active = filter (\<lambda>e. now < le_Expires e) es
     \<and> (\<forall>e\<in>set active. \<not> overlappingLeasePaths p sub (le_Path e) (le_Subtree e))"
  by (induction es arbitrary: active) (auto simp: result_inv not_le split: if_splits)

lemma replace_entry_ok:
  "replace_entry E lease raw es = Inr es' \<Longrightarrow>
     (\<exists>xs e ys. es = xs @ e # ys \<and> reservation E lease e
        \<and> es' = xs @ e\<lparr>le_Lease := raw, le_Expires := lr_Expires lease\<rparr> # ys)"
proof (induction es arbitrary: es')
  case (Cons a es)
  show ?case
  proof (cases "reservation E lease a")
    case True
    with Cons.prems show ?thesis by (intro exI [of _ "[]"]) auto
  next
    case False
    with Cons.prems obtain r where r: "replace_entry E lease raw es = Inr r" "es' = a # r"
      by (auto simp: result_inv)
    with Cons.IH [OF r(1)] show ?thesis by (metis append_Cons)
  qed
qed simp

lemma remove_entry_ok:
  "remove_entry E lease es = Inr es' \<Longrightarrow>
     (\<exists>xs e ys. es = xs @ e # ys \<and> reservation E lease e \<and> es' = xs @ ys)"
proof (induction es arbitrary: es')
  case (Cons a es)
  show ?case
  proof (cases "reservation E lease a")
    case True
    with Cons.prems show ?thesis by (intro exI [of _ "[]"]) auto
  next
    case False
    with Cons.prems obtain r where r: "remove_entry E lease es = Inr r" "es' = a # r"
      by (auto simp: result_inv)
    with Cons.IH [OF r(1)] show ?thesis by (metis append_Cons)
  qed
qed simp

lemma edit_entries_disjoint:
  assumes "edit_entries E edit es = Inr es'" "disjoint_scopes es"
  shows "disjoint_scopes es'"
proof (cases edit)
  case (Reserve now p sub lease raw)
  with assms(1) obtain active where a: "active_entries now p sub es = Inr active"
    and es': "es' = active @ [lease_entry p sub lease raw]" by (auto simp: result_inv)
  note ok = active_entries_ok [OF a]
  have "disjoint_scopes active" using ok assms(2) by (simp add: sorted_wrt_filter)
  moreover have "apart e (lease_entry p sub lease raw)" if "e \<in> set active" for e
    using ok that by (subst apart_sym) (simp add: apart_def lease_entry_def)
  ultimately show ?thesis by (simp add: es' sorted_wrt_append)
next
  case (Replace lease raw)
  with assms(1) replace_entry_ok obtain xs e ys where
    "es = xs @ e # ys" "es' = xs @ e\<lparr>le_Lease := raw, le_Expires := lr_Expires lease\<rparr> # ys"
    by fastforce
  with assms(2) show ?thesis by (auto simp: sorted_wrt_append apart_def)
next
  case (Remove lease)
  with assms(1) remove_entry_ok obtain xs e ys where "es = xs @ e # ys" "es' = xs @ ys"
    by fastforce
  with assms(2) show ?thesis by (auto simp: sorted_wrt_append)
qed

subsection \<open>Nodes sharing the registries\<close>

type_synonym registry_write = "bytes \<times> bytes option \<times> bytes"

text \<open>As for the name registers: \<open>pend\<close> are the prepared writes (namespace, expected value, new
  value), \<open>hist\<close> the values installed per namespace. A node's local parts are arbitrary.\<close>

inductive registry_reach ::
  "names_env \<Rightarrow> ('d, 'n, 'i, 'a) service set \<Rightarrow> 'a authority \<Rightarrow> (string \<Rightarrow> bool) \<Rightarrow>
   'a \<Rightarrow> registry_write set \<Rightarrow> (bytes \<Rightarrow> bytes list) \<Rightarrow> bool"
  for E N A named where
  start: "(\<And>ns. \<not> is_ok (au_Read A a (authorityLeaseRegistryName ns))) \<Longrightarrow>
     registry_reach E N A named a {} (\<lambda>_. [])"
| prepare: "registry_reach E N A named a pend hist \<Longrightarrow> C \<in> N \<Longrightarrow> cf_env C = E \<Longrightarrow> cf_authority C = Some A \<Longrightarrow>
     sv_auth s = a \<Longrightarrow> edit_prepare C ns edit s = Inr (expected, registry) \<Longrightarrow>
     nextRegistry E registry = Inr raw \<Longrightarrow>
     registry_reach E N A named a (insert (ns, expected, raw) pend) hist"
| swap: "registry_reach E N A named a pend hist \<Longrightarrow> (ns, expected, raw) \<in> pend \<Longrightarrow>
     au_CompareAndSwap A (authorityLeaseRegistryName ns) expected (Some raw) a = (r, a') \<Longrightarrow>
     registry_reach E N A named a' pend (if is_ok r then hist(ns := hist ns @ [raw]) else hist)"
| other: "registry_reach E N A named a pend hist \<Longrightarrow> named k \<Longrightarrow>
     (\<And>ns. k \<noteq> authorityLeaseRegistryName ns) \<Longrightarrow>
     au_CompareAndSwap A k expected new a = (r, a') \<Longrightarrow>
     registry_reach E N A named a' pend hist"

definition registry_reachable ::
  "names_env \<Rightarrow> ('d, 'n, 'i, 'a) service set \<Rightarrow> 'a authority \<Rightarrow> (string \<Rightarrow> bool) \<Rightarrow> 'a \<Rightarrow> bool" where
  "registry_reachable E N A named a \<longleftrightarrow> (\<exists>pend hist. registry_reach E N A named a pend hist)"

definition empty_registry :: "bytes \<Rightarrow> leaseRegistry" where
  "empty_registry ns =
     \<lparr>reg_Version = FormatVersion, reg_Namespace = ns, reg_Revision = 0, reg_Entries = []\<rparr>"

text \<open>The abstract step: the value \<open>raw\<close> encodes the result of one edit of the registry before it,
  with the next revision.\<close>

definition registry_step :: "names_env \<Rightarrow> bytes \<Rightarrow> leaseRegistry \<Rightarrow> bytes \<Rightarrow> bool" where
  "registry_step E ns reg raw \<longleftrightarrow> reg_Namespace reg = ns
     \<and> (\<exists>edit entries. edit_entries E edit (reg_Entries reg) = Inr entries
         \<and> cbor_Marshal (regC E)
             (reg\<lparr>reg_Entries := entries, reg_Revision := reg_Revision reg + 1\<rparr>) = Inr raw)"

definition registry_follows :: "names_env \<Rightarrow> bytes \<Rightarrow> bytes option \<Rightarrow> bytes \<Rightarrow> bool" where
  "registry_follows E ns prev raw \<longleftrightarrow>
     (case prev of
        None \<Rightarrow> registry_step E ns (empty_registry ns) raw
      | Some old \<Rightarrow> \<exists>reg. UnmarshalCanonical (regC E) old = Inr reg \<and> registry_step E ns reg raw)"

definition prev_of :: "'x list \<Rightarrow> nat \<Rightarrow> 'x option" where
  "prev_of xs k = (case k of 0 \<Rightarrow> None | Suc j \<Rightarrow> Some (xs ! j))"

definition registry_chain :: "names_env \<Rightarrow> bytes \<Rightarrow> bytes list \<Rightarrow> bool" where
  "registry_chain E ns xs \<longleftrightarrow> (\<forall>k<length xs. registry_follows E ns (prev_of xs k) (xs ! k))"

lemma registry_chain_Nil [simp]: "registry_chain E ns []"
  by (simp add: registry_chain_def)

lemma registry_chain_snoc:
  assumes "registry_chain E ns xs"
    and "registry_follows E ns (if xs = [] then None else Some (last xs)) raw"
  shows "registry_chain E ns (xs @ [raw])"
  unfolding registry_chain_def
proof (intro allI impI)
  fix k assume k: "k < length (xs @ [raw])"
  have prev: "prev_of (xs @ [raw]) k = prev_of xs k" using k by (auto simp: prev_of_def nth_append split: nat.splits)
  show "registry_follows E ns (prev_of (xs @ [raw]) k) ((xs @ [raw]) ! k)"
  proof (cases "k < length xs")
    case True
    with assms(1) show ?thesis by (simp add: prev nth_append registry_chain_def)
  next
    case False
    with k have [simp]: "k = length xs" by simp
    have "prev_of xs k = (if xs = [] then None else Some (last xs))"
      by (auto simp: prev_of_def last_conv_nth split: nat.splits)
    with assms(2) show ?thesis by (simp only: prev) simp
  qed
qed

definition registry_inv ::
  "names_env \<Rightarrow> 'a authority \<Rightarrow> 'a \<Rightarrow> registry_write set \<Rightarrow> (bytes \<Rightarrow> bytes list) \<Rightarrow> bool" where
  "registry_inv E A a pend hist \<longleftrightarrow>
     (\<forall>(ns, expected, raw)\<in>pend. registry_follows E ns expected raw)
     \<and> (\<forall>ns. registry_chain E ns (hist ns)
          \<and> (if hist ns = [] then \<not> is_ok (au_Read A a (authorityLeaseRegistryName ns))
             else au_Read A a (authorityLeaseRegistryName ns) = Inr (last (hist ns))))"

lemma edit_prepare_follows:
  assumes "edit_prepare C ns edit s = Inr (expected, registry)" "nextRegistry (cf_env C) registry = Inr raw"
  shows "registry_follows (cf_env C) ns expected raw"
proof -
  from assms(1) obtain reg entries where
    cur: "currentLeaseRegistry C s ns = Inr (expected, reg)"
    and ed: "edit_entries (cf_env C) edit (reg_Entries reg) = Inr entries"
    and reg: "registry = reg\<lparr>reg_Entries := entries\<rparr>"
    by (auto simp: edit_prepare_def result_inv)
  have "registry_step (cf_env C) ns reg raw" if "reg_Namespace reg = ns"
    using that assms(2) ed reg by (auto simp: registry_step_def nextRegistry_def MarshalCanonical_def)
  with cur show ?thesis
    by (auto simp: currentLeaseRegistry_def registry_follows_def empty_registry_def result_inv
        split: option.splits sum.splits if_splits)
qed

lemma registry_inv_cong:
  assumes "registry_inv E A a pend hist"
    and "\<And>ns. au_Read A a' (authorityLeaseRegistryName ns) = au_Read A a (authorityLeaseRegistryName ns)"
  shows "registry_inv E A a' pend hist"
  using assms by (simp add: registry_inv_def)

lemma authorityLeaseRegistryName_inj [simp]:
  "authorityLeaseRegistryName i = authorityLeaseRegistryName j \<longleftrightarrow> i = j"
  by (simp add: authorityLeaseRegistryName_def)

lemma case_sum_Inr:
  "(case x of Inl e \<Rightarrow> f e | Inr y \<Rightarrow> g y) = Inr z \<longleftrightarrow>
     (\<exists>e. x = Inl e \<and> f e = Inr z) \<or> (\<exists>y. x = Inr y \<and> g y = Inr z)"
  by (cases x) auto

lemma keeps_snd: "keeps I m \<Longrightarrow> I s \<Longrightarrow> I (snd (m s))"
  by (auto simp: keeps_def dest: spec [of _ "fst (m s)"]) (metis surjective_pairing)

lemma keeps_readS_state: "(\<And>s. keeps I (k (f s))) \<Longrightarrow> keeps I (readS f k)"
  by (simp add: keeps_def op_inv)

lemma keeps_orUndo:
  "keeps I m \<Longrightarrow> keeps I undo \<Longrightarrow> (\<And>x. keeps I (k x)) \<Longrightarrow> keeps I (orUndo m undo k)"
  unfolding orUndo_def by (intro pres_intro)

lemma lease_scope_key:
  assumes "LeaseRecord_Validate E now l = Inr ()"
  shows "\<exists>key. LeaseKey (lr_Scope l) = Inr key"
    "length (sc_NameID (lr_Scope l)) = 32 \<or> length (sc_Namespace (lr_Scope l)) = 32"
  using assms by (auto simp: LeaseRecord_Validate_def result_inv exact_scope_def subtree_scope_def LeaseKey_def)

text \<open>An authority that also serves the lease names.\<close>

locale lease_authority = name_authority A named for A :: "'a authority" and named +
  assumes serves_leases: "LeaseKey scope = Inr key \<Longrightarrow> named (authorityLeaseName scope)"
    and serves_registries: "named (authorityLeaseRegistryName ns)"
begin

lemma registry_swap:
  assumes inv: "registry_inv E A a pend hist" and p: "(ns, expected, raw) \<in> pend"
    and run: "au_CompareAndSwap A (authorityLeaseRegistryName ns) expected (Some raw) a = (Inr (), a')"
  shows "registry_inv E A a' pend (hist(ns := hist ns @ [raw]))"
proof -
  have f: "registry_follows E ns expected raw"
    using inv p by (auto simp: registry_inv_def)
  note named = serves_registries [of ns]
  have "if hist ns = [] then \<not> is_ok (au_Read A a (authorityLeaseRegistryName ns))
      else au_Read A a (authorityLeaseRegistryName ns) = Inr (last (hist ns))"
    using inv unfolding registry_inv_def by blast
  with CAS_expected [OF named run] have "expected = (if hist ns = [] then None else Some (last (hist ns)))"
    by (auto split: option.splits if_splits)
  with f inv have "registry_chain E ns (hist ns @ [raw])"
    by (intro registry_chain_snoc) (auto simp: registry_inv_def)
  moreover have "au_Read A a' (authorityLeaseRegistryName m) =
      (if m = ns then Inr raw else au_Read A a (authorityLeaseRegistryName m))" for m
    using CAS_read [OF named serves_registries run] by simp
  ultimately show ?thesis using inv by (simp add: registry_inv_def)
qed

lemma registry_reach_inv:
  assumes "registry_reach E N A named a pend hist"
  shows "registry_inv E A a pend hist"
  using assms
proof (induction rule: registry_reach.induct)
  case (start a)
  then show ?case by (simp add: registry_inv_def registry_chain_def)
next
  case (prepare a pend hist C s ns edit expected registry raw)
  with edit_prepare_follows show ?case by (fastforce simp: registry_inv_def)
next
  case (swap a pend hist ns expected raw r a')
  show ?case
  proof (cases r)
    case (Inl e)
    with swap CAS_failed show ?thesis by (auto intro: registry_inv_cong)
  next
    case (Inr x)
    with registry_swap [OF swap.IH swap.hyps(2)] swap.hyps(3) show ?thesis by (simp add: fun_upd_def)
  qed
next
  case (other a pend hist k expected new r a')
  show ?case
    by (intro registry_inv_cong [OF other.IH] other.hyps(3) [symmetric]
        CAS_other [OF other.hyps(2) serves_registries _ other.hyps(4)])
qed

text \<open>The handlers touch the registries only by whole edits, so they stay within the system.\<close>

lemma keeps_editRegistry:
  assumes "C \<in> N" "cf_env C = E" "cf_authority C = Some A"
  shows "keeps (on_auth (registry_reachable E N A named)) (editRegistry C ns edit)"
proof (rule keepsI)
  fix s r t assume "on_auth (registry_reachable E N A named) s"
    and run: "editRegistry C ns edit s = (r, t)"
  then obtain pend hist where reach: "registry_reach E N A named (sv_auth s) pend hist"
    by (auto simp: on_auth_def registry_reachable_def)
  have same: "on_auth (registry_reachable E N A named) t" if "t = s"
    using that reach by (auto simp: on_auth_def registry_reachable_def)
  show "on_auth (registry_reachable E N A named) t"
  proof (cases "edit_prepare C ns edit s")
    case (Inl e)
    with run same show ?thesis by (simp add: editRegistry_def readS_def)
  next
    case (Inr p)
    obtain expected registry where p: "p = (expected, registry)" by (cases p)
    have w: "writeLeaseRegistry C ns expected registry s = (r, t)"
      using run Inr p by (simp add: editRegistry_def readS_def)
    show ?thesis
    proof (cases "nextRegistry (cf_env C) registry")
      case (Inl e)
      with w same show ?thesis by (simp add: writeLeaseRegistry_def)
    next
      case (Inr raw)
      have reach': "registry_reach E N A named (sv_auth s) (insert (ns, expected, raw) pend) hist"
        using registry_reach.prepare [OF reach assms(1-3) refl] Inr
          \<open>edit_prepare C ns edit s = Inr p\<close> p assms(2) by blast
      have "keeps (on_auth (registry_reachable E N A named))
          (onDs (ds_Put (cf_datastore C) (leaseRegistryDSKey ns) raw))" by (intro pres_intro)
      moreover have "on_auth (registry_reachable E N A named) u"
        if "swapAuthority C (authorityLeaseRegistryName ns) expected (Some raw) s = (q, u)" for q u
        using registry_reach.swap [OF reach' insertI1 swapAuthority_auth [OF that assms(3)]]
        by (auto simp: on_auth_def registry_reachable_def)
      ultimately show ?thesis
        using w Inr unfolding writeLeaseRegistry_def
        by (auto elim!: bindS_E simp: liftR_def dest: keepsD)
    qed
  qed
qed

lemma keeps_swap_lease:
  assumes "cf_authority C = Some A" "LeaseKey scope = Inr key"
  shows "keeps (on_auth (registry_reachable E N A named))
    (swapAuthority C (authorityLeaseName scope) expected new)"
proof (rule keepsI)
  fix s r t assume "on_auth (registry_reachable E N A named) s"
    and run: "swapAuthority C (authorityLeaseName scope) expected new s = (r, t)"
  then obtain pend hist where reach: "registry_reach E N A named (sv_auth s) pend hist"
    by (auto simp: on_auth_def registry_reachable_def)
  have "authorityLeaseName scope \<noteq> authorityLeaseRegistryName ns" for ns
    by (simp add: authorityLeaseName_def authorityLeaseRegistryName_def)
  with registry_reach.other [OF reach serves_leases [OF assms(2)] _ swapAuthority_auth [OF run assms(1)]]
  show "on_auth (registry_reachable E N A named) t"
    by (auto simp: on_auth_def registry_reachable_def)
qed

lemma keeps_AcquireLease:
  assumes "C \<in> N" "cf_env C = E" "cf_authority C = Some A"
  shows "keeps (on_auth (registry_reachable E N A named)) (AcquireLease C raw)"
proof -
  note edit = keeps_editRegistry [OF assms]
  show ?thesis
    unfolding AcquireLease_def
  proof (intro keeps_readS_state keeps_checked)
    fix s x assume x: "checkAcquire C raw s = Inr x"
    then obtain key where "LeaseKey (lr_Scope (fst x)) = Inr key"
      using lease_scope_key(1) by (fastforce simp: checkAcquire_def result_inv Let_def)
    note swap = keeps_swap_lease [OF assms(3) this]
    show "keeps (on_auth (registry_reachable E N A named))
       (case x of (requested, key, currentR, namespace, lockPath, subtree) \<Rightarrow>
          bindS (reserveLease C namespace lockPath subtree requested raw)
           (\<lambda>_. installLease C namespace requested raw key (result_or_nil currentR)))"
      using swap unfolding reserveLease_def installLease_def removeLeaseReservation_def
      by (cases x) (auto intro!: pres_intro keeps_orUndo edit)
  qed
qed

lemma heldLease_key:
  assumes "heldLease C raw s = Inr (requested, key, currentRaw, current)"
  shows "\<exists>k. LeaseKey (lr_Scope requested) = Inr k"
proof (rule lease_scope_key(1))
  show "LeaseRecord_Validate (cf_env C) (cf_now C) requested = Inr ()"
    using assms by (auto simp: heldLease_def result_inv case_sum_Inr Let_def)
qed

lemma keeps_RenewLease:
  assumes "C \<in> N" "cf_env C = E" "cf_authority C = Some A"
  shows "keeps (on_auth (registry_reachable E N A named)) (RenewLease C raw)"
proof -
  note edit = keeps_editRegistry [OF assms]
  show ?thesis
    unfolding RenewLease_def
  proof (intro keeps_readS_state keeps_checked)
    fix s x assume x: "checkRenew C raw s = Inr x"
    then obtain key where "LeaseKey (lr_Scope (fst x)) = Inr key"
      using heldLease_key by (fastforce simp: checkRenew_def result_inv)
    note swap = keeps_swap_lease [OF assms(3) this]
    show "keeps (on_auth (registry_reachable E N A named))
       (case x of (requested, key, currentRaw, current, namespace) \<Rightarrow>
          bindS (replaceLeaseReservation C namespace requested raw) (\<lambda>_.
          orUndo (swapAuthority C (authorityLeaseName (lr_Scope requested)) (Some currentRaw) (Some raw))
            (replaceLeaseReservation C namespace current currentRaw) (\<lambda>_.
          bindS (onDs (ds_Put (cf_datastore C) key raw)) (\<lambda>_. retS requested))))"
      using swap unfolding replaceLeaseReservation_def
      by (cases x) (auto intro!: pres_intro keeps_orUndo edit)
  qed
qed

lemma keeps_ReleaseLease:
  assumes "C \<in> N" "cf_env C = E" "cf_authority C = Some A"
  shows "keeps (on_auth (registry_reachable E N A named)) (ReleaseLease C raw)"
proof -
  note edit = keeps_editRegistry [OF assms]
  show ?thesis
    unfolding ReleaseLease_def
  proof (intro keeps_readS_state keeps_checked)
    fix s x assume x: "checkRelease C raw s = Inr x"
    then obtain key where "LeaseKey (lr_Scope (fst x)) = Inr key"
      using heldLease_key by (fastforce simp: checkRelease_def result_inv)
    note swap = keeps_swap_lease [OF assms(3) this]
    show "keeps (on_auth (registry_reachable E N A named))
       (case x of (requested, key, currentRaw, namespace) \<Rightarrow>
          bindS (swapAuthority C (authorityLeaseName (lr_Scope requested)) (Some currentRaw) None) (\<lambda>_.
          bindS (removeLeaseReservation C namespace requested) (\<lambda>_.
          onDs (ds_Delete (cf_datastore C) key))))"
      using swap unfolding removeLeaseReservation_def
      by (cases x) (auto intro!: pres_intro edit)
  qed
qed

end

text \<open>The native tuple space is such an authority.\<close>

lemma exact_lease_names [simp]:
  "LeaseKey scope = Inr key \<Longrightarrow> exact_name (authorityLeaseName scope)"
  "exact_name (authorityLeaseRegistryName ns)"
proof -
  show "exact_name (authorityLeaseRegistryName ns)"
    unfolding authorityLeaseRegistryName_def
    by (rule exact_literal_hex; simp add: isTuplePattern_def regexMeta_def)
  have slash: "exact_name (p @ hex_EncodeToString a @ ''/'' @ hex_EncodeToString b)"
    if "\<not> isTuplePattern p" "p \<noteq> []" for p a b
    using that hex_not_meta [of _ a] hex_not_meta [of _ b]
    unfolding exact_name_def isTuplePattern_def by (fastforce simp: regexMeta_def)
  assume "LeaseKey scope = Inr key"
  then show "exact_name (authorityLeaseName scope)"
    using exact_literal_hex [of "''__tarsus_lease_v1__/leases/name/''"]
      slash [of "''__tarsus_lease_v1__/leases/subtree/''"]
    by (auto simp: authorityLeaseName_def LeaseKey_def isTuplePattern_def regexMeta_def split: if_splits)
qed

interpretation native_leases: lease_authority "native_authority re" exact_name for re
  by unfold_locales simp_all

subsection \<open>Exclusion\<close>

definition registry_disjoint :: "names_env \<Rightarrow> bytes \<Rightarrow> bool" where
  "registry_disjoint E raw \<longleftrightarrow>
     (\<forall>reg. UnmarshalCanonical (regC E) raw = Inr reg \<longrightarrow> disjoint_scopes (reg_Entries reg))"

definition registry_injective :: "names_env \<Rightarrow> bool" where
  "registry_injective E \<longleftrightarrow>
     (\<forall>v w b. cbor_Marshal (regC E) v = Inr b \<longrightarrow> cbor_Marshal (regC E) w = Inr b \<longrightarrow> v = w)"

lemma registry_step_disjoint:
  assumes "registry_injective E" "registry_step E ns reg raw" "disjoint_scopes (reg_Entries reg)"
  shows "registry_disjoint E raw"
proof -
  from assms(2) obtain edit entries where ed: "edit_entries E edit (reg_Entries reg) = Inr entries"
    and m: "cbor_Marshal (regC E)
      (reg\<lparr>reg_Entries := entries, reg_Revision := reg_Revision reg + 1\<rparr>) = Inr raw"
    by (auto simp: registry_step_def)
  have "disjoint_scopes entries" using edit_entries_disjoint [OF ed assms(3)] .
  moreover have "reg' = reg\<lparr>reg_Entries := entries, reg_Revision := reg_Revision reg + 1\<rparr>"
    if "UnmarshalCanonical (regC E) raw = Inr reg'" for reg'
  proof -
    from that have "cbor_Marshal (regC E) reg' = Inr raw" by blast
    with m assms(1) show ?thesis unfolding registry_injective_def by blast
  qed
  ultimately show ?thesis by (auto simp: registry_disjoint_def)
qed

lemma registry_chain_disjoint:
  assumes "registry_injective E" "registry_chain E ns xs" "k < length xs"
  shows "registry_disjoint E (xs ! k)"
  using assms(3)
proof (induction k)
  case 0
  with assms(2) have "registry_step E ns (empty_registry ns) (xs ! 0)"
    by (auto simp: registry_chain_def registry_follows_def prev_of_def dest: spec [of _ 0])
  then show ?case by (rule registry_step_disjoint [OF assms(1)]) (simp add: empty_registry_def)
next
  case (Suc k)
  with assms(2) obtain reg where "UnmarshalCanonical (regC E) (xs ! k) = Inr reg"
    "registry_step E ns reg (xs ! Suc k)"
    by (auto simp: registry_chain_def registry_follows_def prev_of_def dest!: spec [of _ "Suc k"])
  with Suc show ?case
    by (intro registry_step_disjoint [OF assms(1)]) (auto simp: registry_disjoint_def)
qed

text \<open>C6. Leases exclude each other, and no reservation is lost. Whatever the interleaving of
  acquires, renewals and releases of any number of nodes with clocks of their own, each registry
  value installed for a namespace at the authority is the previous one after exactly one edit of
  the code (reserve, replace or remove) with the next revision, the register holds the last one,
  and the scopes reserved in any of them are pairwise disjoint. \<open>registry_injective\<close> is the
  documented property of canonical CBOR that an encoding determines the value.\<close>

theorem lease_registry_exclusive:
  assumes "lease_authority A named" "registry_reach E N A named a pend hist" "registry_injective E"
    and "k < length (hist ns)"
  shows "registry_follows E ns (prev_of (hist ns) k) (hist ns ! k)
    \<and> registry_disjoint E (hist ns ! k)
    \<and> (Suc k = length (hist ns) \<longrightarrow>
         au_Read A a (authorityLeaseRegistryName ns) = Inr (hist ns ! k))"
proof -
  have inv: "registry_inv E A a pend hist"
    by (rule lease_authority.registry_reach_inv [OF assms(1,2)])
  then have chain: "registry_chain E ns (hist ns)"
    and reg: "hist ns \<noteq> [] \<longrightarrow> au_Read A a (authorityLeaseRegistryName ns) = Inr (last (hist ns))"
    unfolding registry_inv_def by meson+
  have "Suc k = length (hist ns) \<longrightarrow> last (hist ns) = hist ns ! k"
    by (cases "hist ns") (auto simp: last_conv_nth)
  with assms(4) reg chain registry_chain_disjoint [OF assms(3) chain assms(4)] show ?thesis
    by (auto simp: registry_chain_def)
qed

text \<open>C7. The lease handlers refine that system: \<open>AcquireLease\<close>, \<open>RenewLease\<close> and \<open>ReleaseLease\<close>,
  run on any node and whether they succeed or fail half way, take the authority from a reachable
  state to a reachable state, so that the registry of every namespace still reserves disjoint
  scopes.\<close>

theorem lease_handlers_refine:
  assumes "lease_authority A named" "registry_reachable E N A named (sv_auth s)" "registry_injective E"
    and "C \<in> N" "cf_env C = E" "cf_authority C = Some A"
    and "t \<in> {snd (AcquireLease C raw s), snd (RenewLease C raw s), snd (ReleaseLease C raw s)}"
  shows "registry_reachable E N A named (sv_auth t)
    \<and> (\<forall>ns value. au_Read A (sv_auth t) (authorityLeaseRegistryName ns) = Inr value \<longrightarrow>
         registry_disjoint E value)"
proof -
  note keeps = lease_authority.keeps_AcquireLease [OF assms(1,4-6)]
    lease_authority.keeps_RenewLease [OF assms(1,4-6)] lease_authority.keeps_ReleaseLease [OF assms(1,4-6)]
  have s: "on_auth (registry_reachable E N A named) s" using assms(2) by (simp add: on_auth_def)
  have t: "registry_reachable E N A named (sv_auth t)"
    using assms(7) keeps_snd [OF keeps(1) s, of raw] keeps_snd [OF keeps(2) s, of raw]
      keeps_snd [OF keeps(3) s, of raw] by (auto simp: on_auth_def)
  then obtain pend hist where reach: "registry_reach E N A named (sv_auth t) pend hist"
    by (auto simp: registry_reachable_def)
  note inv = lease_authority.registry_reach_inv [OF assms(1) reach]
  have "registry_disjoint E v" if "au_Read A (sv_auth t) (authorityLeaseRegistryName ns) = Inr v" for ns v
  proof -
    from inv that have "hist ns \<noteq> []" "v = last (hist ns)" "registry_chain E ns (hist ns)"
      unfolding registry_inv_def by (metis is_ok_simps(2) sum.inject(2))+
    then show ?thesis
      using registry_chain_disjoint [OF assms(3), of ns "hist ns" "length (hist ns) - 1"]
      by (simp add: last_conv_nth)
  qed
  with t show ?thesis by blast
qed

subsection \<open>Fencing numbers\<close>

lemma unat_max: "unat (- 1 :: u64) = 2 ^ 64 - 1"
  by (simp add: unsigned_minus_1_eq_mask mask_eq_exp_minus_1)

lemma u64_not_max: "(f :: u64) \<noteq> - 1 \<Longrightarrow> unat f < 2 ^ 64 - 1"
  by (metis unat_max word_less_nat_alt word_order.not_eq_extremum)

lemma requiredFence_bound:
  assumes "x = requiredFence C s key current" "x \<noteq> 0"
  shows "current = Some c \<Longrightarrow> lr_Fencing c < x"
    and "ds_Get (cf_datastore C) (sv_ds s) (leaseFenceKey key) = Inr (BE_PutUint64 f) \<Longrightarrow> f \<noteq> - 1 \<Longrightarrow> f < x"
    and "ds_Get (cf_datastore C) (sv_ds s) (leaseFenceKey key) = Inr (BE_PutUint64 (- 1)) \<Longrightarrow>
      \<exists>c. current = Some c \<and> x = lr_Fencing c + 1"
proof -
  have inc: "w < w + 1" if "w + 1 \<noteq> 0" for w :: u64
    using that by (simp add: word_less_nat_alt add.commute unatSuc)
  show c: "lr_Fencing c < x" if "current = Some c"
    using that assms inc [of "lr_Fencing c"] by (auto simp: requiredFence_def split: if_splits)
  show "\<exists>c. current = Some c \<and> x = lr_Fencing c + 1"
    if "ds_Get (cf_datastore C) (sv_ds s) (leaseFenceKey key) = Inr (BE_PutUint64 (- 1))"
    using that assms by (auto simp: requiredFence_def nextFence_def split: option.splits)
  assume f: "ds_Get (cf_datastore C) (sv_ds s) (leaseFenceKey key) = Inr (BE_PutUint64 f)" "f \<noteq> - 1"
  then have n: "nextFence C s key = f + 1" by (simp add: nextFence_def)
  have "f + 1 \<noteq> 0" using f(2) by (simp add: add_eq_0_iff2)
  then have "f < f + 1" by (rule inc)
  moreover have "nextFence C s key \<le> x"
    using assms inc by (auto simp: requiredFence_def split: option.splits if_splits) (meson less_imp_le order_trans)
  ultimately show "f < x" using n by simp
qed

lemma orUndo_Inr:
  "orUndo m undo k s = (Inr x, t) \<longleftrightarrow> (\<exists>y u. m s = (Inr y, u) \<and> k y u = (Inr x, t))"
  by (auto simp: orUndo_def tryS_def failS_def split: prod.splits sum.splits)

lemma AcquireLease_ok:
  assumes "AcquireLease C raw s = (Inr lease, t)"
  obtains currentR namespace lockPath subtree u where
    "checkAcquire C raw s
       = Inr (lease, leaseDSKey_or_zero (lr_Scope lease), currentR, namespace, lockPath, subtree)"
    "installLease C namespace lease raw (leaseDSKey_or_zero (lr_Scope lease)) (result_or_nil currentR) u
       = (Inr lease, t)"
proof -
  from assms obtain requested key currentR namespace lockPath subtree u where
    ck: "checkAcquire C raw s = Inr (requested, key, currentR, namespace, lockPath, subtree)"
    and run: "installLease C namespace requested raw key (result_or_nil currentR) u = (Inr lease, t)"
    by (auto simp: AcquireLease_def op_inv)
  have "requested = lease" using run by (auto simp: installLease_def orUndo_Inr op_inv)
  moreover have "key = leaseDSKey_or_zero (lr_Scope requested)"
    using ck by (auto simp: checkAcquire_def result_inv Let_def)
  ultimately show thesis using that ck run by blast
qed

text \<open>C8. Fencing numbers go up, up to the largest 64-bit number. An acquired lease has a fencing
  number above that of the lease it replaces at the authority, which must have expired, and above
  the number the node has recorded for the scope, as long as that one is below \<open>2 ^ 64 - 1\<close>. When
  the recorded number is \<open>2 ^ 64 - 1\<close> the counter of the node has wrapped to zero: then the record
  is ignored, a lease is only granted after an expired one, and its number is one above that of
  the expired lease, whatever the node has recorded. The number is recorded, and the counter
  of the node continues one above it. The datastore is assumed to answer a read after a batch
  with what the batch wrote.\<close>

theorem AcquireLease_fencing:
  assumes "datastore_contract (cf_datastore C)" "AcquireLease C raw s = (Inr lease, t)"
  defines "key \<equiv> leaseDSKey_or_zero (lr_Scope lease)"
  shows "UnmarshalCanonical (leaseC (cf_env C)) raw = Inr lease
    \<and> (\<forall>c. leaseOf (cf_env C) (leaseCurrent C s (lr_Scope lease) key) = Some c \<longrightarrow>
         lr_Expires c \<le> cf_now C \<and> unat (lr_Fencing c) < unat (lr_Fencing lease))
    \<and> (\<forall>f. ds_Get (cf_datastore C) (sv_ds s) (leaseFenceKey key) = Inr (BE_PutUint64 f) \<longrightarrow>
         (if unat f < 2 ^ 64 - 1 then unat f < unat (lr_Fencing lease)
          else \<exists>c. leaseOf (cf_env C) (leaseCurrent C s (lr_Scope lease) key) = Some c
            \<and> unat (lr_Fencing lease) = unat (lr_Fencing c) + 1))
    \<and> nextFence C t key = lr_Fencing lease + 1"
proof -
  from assms(2) obtain currentR namespace lockPath subtree u where
    ck: "checkAcquire C raw s = Inr (lease, key, currentR, namespace, lockPath, subtree)"
    and run: "installLease C namespace lease raw key (result_or_nil currentR) u = (Inr lease, t)"
    unfolding key_def by (rule AcquireLease_ok)
  have dec: "UnmarshalCanonical (leaseC (cf_env C)) raw = Inr lease"
    and val: "LeaseRecord_Validate (cf_env C) (cf_now C) lease = Inr ()"
    and fence: "lr_Fencing lease = requiredFence C s key (leaseOf (cf_env C) (leaseCurrent C s (lr_Scope lease) key))"
    and locked: "case leaseOf (cf_env C) (leaseCurrent C s (lr_Scope lease) key) of
       Some c \<Rightarrow> lr_Expires c \<le> cf_now C | None \<Rightarrow> True"
    using ck by (auto simp: checkAcquire_def result_inv Let_def not_less split: option.splits)
  have "lr_Fencing lease \<noteq> 0" using val by (auto simp: LeaseRecord_Validate_def result_inv)
  note bound = requiredFence_bound [OF fence this]
  from run obtain v w where batch: "onDs (ds_Batch (cf_datastore C)
      [(key, raw), (leaseFenceKey key, BE_PutUint64 (lr_Fencing lease))]) v = (Inr (), w)"
    and rest: "bindS (case LeaseKey (lr_Scope lease) of Inr networkKey \<Rightarrow> putValue C networkKey raw
        | Inl _ \<Rightarrow> retS ()) (\<lambda>_. retS lease) w = (Inr lease, t)"
    by (auto simp: installLease_def orUndo_Inr)
  have "keeps (\<lambda>x. sv_ds x = sv_ds w) (bindS (case LeaseKey (lr_Scope lease) of
      Inr networkKey \<Rightarrow> putValue C networkKey raw | Inl _ \<Rightarrow> retS ()) (\<lambda>_. retS lease))"
    by (intro pres_intro keeps_ds_put)
  from keepsD [OF this rest] have "sv_ds t = sv_ds w" by simp
  moreover have "ds_Get (cf_datastore C) (sv_ds w) (leaseFenceKey key)
      = Inr (BE_PutUint64 (lr_Fencing lease))"
    using batch datastore_contract.Get_after_Batch [OF assms(1)]
    by (fastforce simp: onDs_def split: prod.splits)
  ultimately have "nextFence C t key = lr_Fencing lease + 1" by (simp add: nextFence_def)
  moreover have "if unat f < 2 ^ 64 - 1 then unat f < unat (lr_Fencing lease)
      else \<exists>c. leaseOf (cf_env C) (leaseCurrent C s (lr_Scope lease) key) = Some c
        \<and> unat (lr_Fencing lease) = unat (lr_Fencing c) + 1"
    if "ds_Get (cf_datastore C) (sv_ds s) (leaseFenceKey key) = Inr (BE_PutUint64 f)" for f
  proof (cases "f = - 1")
    case True
    with bound(3) that obtain c where c: "leaseOf (cf_env C) (leaseCurrent C s (lr_Scope lease) key) = Some c"
      "lr_Fencing lease = lr_Fencing c + 1" by blast
    with \<open>lr_Fencing lease \<noteq> 0\<close> have "unat (lr_Fencing lease) = unat (lr_Fencing c) + 1"
      by (simp add: unatSuc add.commute)
    with c True show ?thesis by (simp add: unat_max)
  next
    case False
    with bound(2) [OF that] u64_not_max [of f] show ?thesis by (simp add: word_less_nat_alt)
  qed
  moreover have "\<forall>c. leaseOf (cf_env C) (leaseCurrent C s (lr_Scope lease) key) = Some c \<longrightarrow>
      lr_Expires c \<le> cf_now C \<and> unat (lr_Fencing c) < unat (lr_Fencing lease)"
    using locked bound(1) by (auto simp: word_less_nat_alt)
  ultimately show ?thesis using dec by blast
qed

end
