(* ===== verification/Names_Agreement.thy ===== *)
theory Names_Agreement
  imports Names_BFT
begin

text \<open>
  Safety of the certified name plane. Every honest validator runs \<open>QuorumJournal.Vote\<close> on
  its own datastore; whatever else happens on its node leaves the keys under \<open>/bft/\<close> alone.
  Faulty validators are not modelled by steps: they may sign anything, so a certificate may
  carry any vote in their name, and only the votes in the name of an honest validator are
  \<open>genuine\<close>, that is, were returned by its journal (Ed25519 signatures cannot be forged).
\<close>

subsection \<open>Journal keys\<close>

lemma quorumVoteKey_inj:
  assumes "length i = length i'"
  shows "quorumVoteKey i g u ph w = quorumVoteKey i' g' u' ph' w
     \<longleftrightarrow> i = i' \<and> g = g' \<and> u = u' \<and> ph = ph'"
  using assms by (auto simp: quorumVoteKey_def id_String_def)

lemma quorumLockKey_inj:
  assumes "length i = length i'"
  shows "quorumLockKey i g w = quorumLockKey i' g' w \<longleftrightarrow> i = i' \<and> g = g'"
  using assms by (auto simp: quorumLockKey_def id_String_def)

lemma quorum_keys_differ [simp]:
  "quorumLockKey i g w \<noteq> quorumVoteKey i' g' u ph w'"
  "quorumVoteKey i' g' u ph w' \<noteq> quorumLockKey i g w"
  by (simp_all add: quorumLockKey_def quorumVoteKey_def)

definition bft_key :: "string \<Rightarrow> bool" where
  "bft_key k \<longleftrightarrow> HasPrefix k ''/bft/''"

lemma bft_keys [simp]: "bft_key (quorumLockKey i g w)" "bft_key (quorumVoteKey i g u ph w)"
  by (simp_all add: bft_key_def HasPrefix_def quorumLockKey_def quorumVoteKey_def)

lemma bytesToNameID_length [simp]: "length (bytesToNameID b) = 32"
  by (simp add: bytesToNameID_def)

subsection \<open>What one call of Vote does\<close>

lemma checkProposal_ok:
  assumes "checkProposal E J root raw ph u justify = Inr record"
  shows "DecodeNameRecord E raw = Inr record" "length (nr_NameID record) = 32"
    "nr_Namespace record = rt_Namespace root" "length (qj_Private J) = 64"
    "ph = PhaseCommit \<Longrightarrow> \<exists>q. justify = Some q \<and> qc_Phase q = PhasePrecommit
        \<and> qc_RecordHash q = Sum256 E raw \<and> QuorumCertificate_Validate E root (qj_Now J) q = Inr ()"
proof -
  from assms have c: "DecodeNameRecord E raw = Inr record"
    "ValidateEnvelope E (qj_Now J) record = Inr ()"
    "nr_Namespace record = rt_Namespace root" "length (qj_Private J) = 64"
    "checkJustify E root (qj_Now J) ph u (Sum256 E raw) justify = Inr ()"
    unfolding checkProposal_def result_inv by (elim conjE exE, simp)+
  then show "DecodeNameRecord E raw = Inr record" "nr_Namespace record = rt_Namespace root"
    "length (qj_Private J) = 64" by simp_all
  from c(2) show "length (nr_NameID record) = 32"
    by (auto simp: ValidateEnvelope_def dest: envelope_lengths)
  assume "ph = PhaseCommit"
  with c(5) show "\<exists>q. justify = Some q \<and> qc_Phase q = PhasePrecommit
        \<and> qc_RecordHash q = Sum256 E raw \<and> QuorumCertificate_Validate E root (qj_Now J) q = Inr ()"
    by (auto simp: checkJustify_def result_inv split: option.splits)
qed

lemma checkLock_ok:
  "checkLock l h = Inr () \<Longrightarrow> l = Inr h \<or> (\<exists>e. l = Inl e)"
  by (auto simp: checkLock_def result_inv split: sum.splits)

text \<open>The fields of a vote that say what it votes for.\<close>

definition ballot :: "QuorumVote \<Rightarrow> bytes \<times> u64 \<times> u64 \<times> string \<times> bytes" where
  "ballot v = (qv_NameID v, qv_Generation v, qv_View v, qv_Phase v, qv_Validator v)"

definition casts ::
  "QuorumVote \<Rightarrow> bytes \<Rightarrow> NameRecord \<Rightarrow> u64 \<Rightarrow> string \<Rightarrow> bytes \<Rightarrow> bool" where
  "casts v ns record u ph w \<longleftrightarrow>
     ballot v = (nr_NameID record, nr_Generation record, u, ph, w) \<and> qv_Namespace v = ns"

lemma newVote_ok:
  assumes "newVote E J root record hash ph u = Inr v"
  shows "casts v (nr_Namespace record) record u ph (ed_Public E (qj_Private J))"
    "qv_RecordHash v = hash"
  using assms unfolding newVote_def QuorumVote_Sign_def result_inv Let_def
  by (auto simp: casts_def ballot_def)

locale journal_contract = datastore_contract D for D :: "'d datastore" +
  fixes E :: names_env
  assumes vote_Marshal_inj:
    "cbor_Marshal (voteC E) v = Inr d \<Longrightarrow> cbor_Marshal (voteC E) v' = Inr d \<Longrightarrow> v = v'"
begin

lemma Vote_cases:
  assumes "QuorumJournal_Vote E D J root raw ph u justify s = (r, t)"
  defines "w \<equiv> ed_Public E (qj_Private J)"
  obtains
    (nothing) "ds_Get D t = ds_Get D s" "\<And>v. r \<noteq> Inr v"
  | (replay) rcd v enc where
      "checkProposal E J root raw ph u justify = Inr rcd" "r = Inr v" "t = s"
      "ds_Get D s (quorumVoteKey (nr_NameID rcd) (nr_Generation rcd) u ph w) = Inr enc"
      "cbor_Marshal (voteC E) v = Inr enc" "qv_RecordHash v = Sum256 E raw"
  | (fresh) rcd v enc where
      "checkProposal E J root raw ph u justify = Inr rcd" "r = Inr v"
      "ds_Get D s (quorumLockKey (nr_NameID rcd) (nr_Generation rcd) w) = Inr (Sum256 E raw)
       \<or> (\<exists>e. ds_Get D s (quorumLockKey (nr_NameID rcd) (nr_Generation rcd) w) = Inl e)"
      "\<exists>e. ds_Get D s (quorumVoteKey (nr_NameID rcd) (nr_Generation rcd) u ph w) = Inl e"
      "casts v (nr_Namespace rcd) rcd u ph w" "qv_RecordHash v = Sum256 E raw"
      "cbor_Marshal (voteC E) v = Inr enc"
      "ds_Get D t = (ds_Get D s)
         (quorumLockKey (nr_NameID rcd) (nr_Generation rcd) w :=
            (if ph = PhasePrecommit then Inr (Sum256 E raw)
             else ds_Get D s (quorumLockKey (nr_NameID rcd) (nr_Generation rcd) w)),
          quorumVoteKey (nr_NameID rcd) (nr_Generation rcd) u ph w := Inr enc)"
proof (cases "checkProposal E J root raw ph u justify")
  case (Inl e)
  with assms(1) show ?thesis
    by - (rule nothing; auto simp: QuorumJournal_Vote_def)
next
  case (Inr rcd)
  note len = checkProposal_ok(2) [OF Inr]
  let ?h = "Sum256 E raw"
  let ?L = "quorumLockKey (nr_NameID rcd) (nr_Generation rcd) w"
  let ?K = "quorumVoteKey (nr_NameID rcd) (nr_Generation rcd) u ph w"
  note unf = QuorumJournal_Vote_def Inr Let_def len readS_def w_def [symmetric]
  show ?thesis
  proof (cases "checkLock (ds_Get D s ?L) ?h")
    case (Inl e)
    with assms(1) show ?thesis by - (rule nothing; auto simp: unf)
  next
    case lock: (Inr x)
    show ?thesis
    proof (cases "ds_Get D s ?K")
      case K: (Inr enc)
      with assms(1) lock have rt: "r = bindR (UnmarshalCanonical (voteC E) enc) (\<lambda>vote.
           fail_if (qv_RecordHash vote \<noteq> ?h)
             (ErrMsg ''validator already voted for a conflicting proposal'') (Inr vote))" "t = s"
        by (simp_all add: unf liftR_def)
      show ?thesis
      proof (cases r)
        case (Inl e')
        with rt(2) show ?thesis by - (rule nothing; auto)
      next
        case rI: (Inr v)
        with rt(1) have "cbor_Marshal (voteC E) v = Inr enc" "qv_RecordHash v = ?h"
          by (auto simp: result_inv dest!: sym [of "Inr v"])
        with rI rt(2) show ?thesis by - (rule replay [OF Inr _ _ K])
      qed
    next
      case K: (Inl err)
      let ?kvs = "\<lambda>enc. (if ph = PhasePrecommit then [(?L, ?h)] else []) @ [(?K, enc)]"
      from assms(1) lock K have run: "fail_ifS (\<not> errors_Is err DsNotFound) err
         (bindS (liftR (newVote E J root rcd ?h ph u)) (\<lambda>vote.
          bindS (liftR (MarshalCanonical (voteC E) vote)) (\<lambda>enc.
          bindS (ds_Batch D (?kvs enc)) (\<lambda>_. retS vote)))) s = (r, t)"
        by (simp add: unf cong: if_cong)
      show ?thesis
      proof (cases r)
        case rI: (Inl e')
        from run have "ds_Get D t = ds_Get D s"
          unfolding rI fail_ifS_def failS_def bindS_Inl op_inv
          by (auto simp: failS_def bindS_Inl op_inv split: if_splits dest: Batch_failed)
        with rI show ?thesis by - (rule nothing; auto)
      next
        case rI: (Inr v)
        from run obtain enc where
          v: "newVote E J root rcd ?h ph u = Inr v" "cbor_Marshal (voteC E) v = Inr enc"
            "ds_Batch D (?kvs enc) s = (Inr (), t)"
          unfolding rI op_inv MarshalCanonical_def by auto
        have "ds_Get D t = (ds_Get D s)
            (?L := (if ph = PhasePrecommit then Inr ?h else ds_Get D s ?L), ?K := Inr enc)"
          by (rule ext) (auto simp: Get_after_Batch [OF v(3)])
        with fresh [OF Inr rI _ _ _ _ v(2)] newVote_ok [OF v(1)] checkLock_ok lock K w_def
        show ?thesis by (cases x) blast
      qed
    qed
  qed
qed

end

subsection \<open>The committee as a transition system\<close>

text \<open>
  \<open>st w\<close> is the datastore of validator \<open>w\<close>, \<open>P\<close> the set of votes the honest journals have
  returned, each with the proposal it was asked about, and \<open>\<rho>\<close> gives the one root of a namespace
  (committee membership is immutable in this version of the protocol).
\<close>

definition genuine :: "bytes set \<Rightarrow> (bytes \<times> QuorumVote) set \<Rightarrow> QuorumCertificate \<Rightarrow> bool" where
  "genuine H P q \<longleftrightarrow> (\<forall>v\<in>set (qc_Votes q). qv_Validator v \<in> H \<longrightarrow>
     (\<exists>raw v'. (raw, v') \<in> P \<and> QuorumVote_unsigned v' = QuorumVote_unsigned v))"

definition returned :: "bytes \<Rightarrow> QuorumVote result \<Rightarrow> (bytes \<times> QuorumVote) set" where
  "returned raw r = (case r of Inl _ \<Rightarrow> {} | Inr v \<Rightarrow> {(raw, v)})"

inductive bft_reach ::
  "names_env \<Rightarrow> 'd datastore \<Rightarrow> (bytes \<Rightarrow> NamespaceRoot) \<Rightarrow> bytes set \<Rightarrow>
   (bytes \<Rightarrow> 'd) \<Rightarrow> (bytes \<times> QuorumVote) set \<Rightarrow> bool"
  for E D \<rho> H where
  start: "(\<And>w k. w \<in> H \<Longrightarrow> bft_key k \<Longrightarrow> ds_Get D (st w) k = Inl DsNotFound) \<Longrightarrow>
     bft_reach E D \<rho> H st {}"
| vote: "bft_reach E D \<rho> H st P \<Longrightarrow> w \<in> H \<Longrightarrow> ed_Public E (qj_Private J) = w \<Longrightarrow>
     \<rho> (rt_Namespace root) = root \<Longrightarrow> (\<And>q. justify = Some q \<Longrightarrow> genuine H P q) \<Longrightarrow>
     QuorumJournal_Vote E D J root raw ph u justify (st w) = (r, t) \<Longrightarrow>
     bft_reach E D \<rho> H (st(w := t)) (P \<union> returned raw r)"
| other: "bft_reach E D \<rho> H st P \<Longrightarrow>
     (\<And>k. bft_key k \<Longrightarrow> ds_Get D t k = ds_Get D (st w) k) \<Longrightarrow>
     bft_reach E D \<rho> H (st(w := t)) P"

text \<open>The invariant: every stored vote was returned, every returned vote is stored, stands for
  the record it was asked about, has set the lock if it is a precommit, and rests on a valid
  precommit certificate if it is a commit.\<close>

definition vote_key :: "QuorumVote \<Rightarrow> string" where
  "vote_key v = quorumVoteKey (qv_NameID v) (qv_Generation v) (qv_View v) (qv_Phase v) (qv_Validator v)"

definition votes_recorded ::
  "names_env \<Rightarrow> 'd datastore \<Rightarrow> bytes set \<Rightarrow> (bytes \<Rightarrow> 'd) \<Rightarrow> (bytes \<times> QuorumVote) set \<Rightarrow> bool" where
  "votes_recorded E D H st P \<longleftrightarrow>
     (\<forall>w i g u ph enc. w \<in> H \<longrightarrow> length i = 32 \<longrightarrow>
        ds_Get D (st w) (quorumVoteKey i g u ph w) = Inr enc \<longrightarrow>
        (\<exists>raw v. (raw, v) \<in> P \<and> cbor_Marshal (voteC E) v = Inr enc \<and> ballot v = (i, g, u, ph, w)))"

definition votes_stored ::
  "names_env \<Rightarrow> 'd datastore \<Rightarrow> (bytes \<Rightarrow> 'd) \<Rightarrow> (bytes \<times> QuorumVote) set \<Rightarrow> bool" where
  "votes_stored E D st P \<longleftrightarrow>
     (\<forall>(raw, v) \<in> P. \<exists>enc. ds_Get D (st (qv_Validator v)) (vote_key v) = Inr enc
        \<and> cbor_Marshal (voteC E) v = Inr enc)"

definition votes_cast :: "names_env \<Rightarrow> bytes set \<Rightarrow> (bytes \<times> QuorumVote) set \<Rightarrow> bool" where
  "votes_cast E H P \<longleftrightarrow>
     (\<forall>(raw, v) \<in> P. qv_Validator v \<in> H \<and> qv_RecordHash v = Sum256 E raw \<and> length (qv_NameID v) = 32
        \<and> (\<exists>rcd. DecodeNameRecord E raw = Inr rcd \<and> qv_NameID v = nr_NameID rcd
             \<and> qv_Generation v = nr_Generation rcd))"

definition votes_locked ::
  "'d datastore \<Rightarrow> (bytes \<Rightarrow> 'd) \<Rightarrow> (bytes \<times> QuorumVote) set \<Rightarrow> bool" where
  "votes_locked D st P \<longleftrightarrow>
     (\<forall>(raw, v) \<in> P. qv_Phase v = PhasePrecommit \<longrightarrow>
        ds_Get D (st (qv_Validator v)) (quorumLockKey (qv_NameID v) (qv_Generation v) (qv_Validator v))
          = Inr (qv_RecordHash v))"

definition commit_basis ::
  "names_env \<Rightarrow> (bytes \<Rightarrow> NamespaceRoot) \<Rightarrow> bytes set \<Rightarrow> (bytes \<times> QuorumVote) set \<Rightarrow> QuorumVote \<Rightarrow> bool"
where
  "commit_basis E \<rho> H P v \<longleftrightarrow>
     (\<exists>now q. QuorumCertificate_Validate E (\<rho> (qv_Namespace v)) now q = Inr () \<and> genuine H P q
        \<and> qc_Phase q = PhasePrecommit \<and> qc_RecordHash q = qv_RecordHash v)"

definition commits_based ::
  "names_env \<Rightarrow> (bytes \<Rightarrow> NamespaceRoot) \<Rightarrow> bytes set \<Rightarrow> (bytes \<times> QuorumVote) set \<Rightarrow> bool" where
  "commits_based E \<rho> H P \<longleftrightarrow>
     (\<forall>(raw, v) \<in> P. qv_Phase v = PhaseCommit \<longrightarrow> commit_basis E \<rho> H P v)"

definition bft_inv ::
  "names_env \<Rightarrow> 'd datastore \<Rightarrow> (bytes \<Rightarrow> NamespaceRoot) \<Rightarrow> bytes set \<Rightarrow> (bytes \<Rightarrow> 'd) \<Rightarrow>
   (bytes \<times> QuorumVote) set \<Rightarrow> bool" where
  "bft_inv E D \<rho> H st P \<longleftrightarrow> votes_recorded E D H st P \<and> votes_stored E D st P \<and> votes_cast E H P
     \<and> votes_locked D st P \<and> commits_based E \<rho> H P"

lemma votes_lockedD:
  "votes_locked D st P \<Longrightarrow> (raw, v) \<in> P \<Longrightarrow> qv_Phase v = PhasePrecommit \<Longrightarrow>
     ds_Get D (st (qv_Validator v)) (quorumLockKey (qv_NameID v) (qv_Generation v) (qv_Validator v))
       = Inr (qv_RecordHash v)"
  by (auto simp: votes_locked_def)

lemma votes_castD:
  "votes_cast E H P \<Longrightarrow> (raw, v) \<in> P \<Longrightarrow> DecodeNameRecord E raw = Inr r \<Longrightarrow>
     qv_NameID v = nr_NameID r \<and> qv_Generation v = nr_Generation r"
  by (auto simp: votes_cast_def)

lemma votes_storedD:
  "votes_stored E D st P \<Longrightarrow> (raw, v) \<in> P \<Longrightarrow>
     \<exists>enc. ds_Get D (st (qv_Validator v)) (vote_key v) = Inr enc \<and> cbor_Marshal (voteC E) v = Inr enc"
  by (auto simp: votes_stored_def)

lemma genuine_mono: "genuine H P q \<Longrightarrow> P \<subseteq> P' \<Longrightarrow> genuine H P' q"
  unfolding genuine_def by blast

lemma commit_basis_mono: "commit_basis E \<rho> H P v \<Longrightarrow> P \<subseteq> P' \<Longrightarrow> commit_basis E \<rho> H P' v"
  unfolding commit_basis_def by (meson genuine_mono)

lemma commits_based_insert:
  assumes "commits_based E \<rho> H P" "qv_Phase v = PhaseCommit \<Longrightarrow> commit_basis E \<rho> H P v"
  shows "commits_based E \<rho> H (insert (raw, v) P)"
  using assms commit_basis_mono [OF _ subset_insertI]
  unfolding commits_based_def by fastforce

text \<open>The invariant depends on the datastores only through the journal keys of the validators.\<close>

lemma bft_inv_cong:
  assumes "bft_inv E D \<rho> H st P" "\<And>w k. w \<in> H \<Longrightarrow> bft_key k \<Longrightarrow> ds_Get D (st' w) k = ds_Get D (st w) k"
  shows "bft_inv E D \<rho> H st' P"
proof -
  from assms(1) have c: "votes_cast E H P" by (simp add: bft_inv_def)
  then have H: "qv_Validator v \<in> H" if "(raw, v) \<in> P" for raw v
    using that by (auto simp: votes_cast_def)
  have "votes_recorded E D H st' P"
    using assms by (auto simp: bft_inv_def votes_recorded_def)
  moreover have "votes_stored E D st' P"
    using assms H by (fastforce simp: bft_inv_def votes_stored_def vote_key_def)
  moreover have "votes_locked D st' P"
    using assms H by (fastforce simp: bft_inv_def votes_locked_def)
  ultimately show ?thesis using assms(1) by (simp add: bft_inv_def)
qed


text \<open>A vote returned again, for the proposal it was cast for or one with the same digest.\<close>

lemma bft_inv_replay:
  assumes "bft_inv E D \<rho> H st P" "(raw0, v) \<in> P" "qv_RecordHash v = Sum256 E raw"
    "DecodeNameRecord E raw = Inr rcd" "qv_NameID v = nr_NameID rcd"
    "qv_Generation v = nr_Generation rcd"
  shows "bft_inv E D \<rho> H st (insert (raw, v) P)"
proof -
  have "commits_based E \<rho> H (insert (raw, v) P)"
    using assms(1,2) by (intro commits_based_insert) (auto simp: bft_inv_def commits_based_def)
  moreover have "votes_cast E H (insert (raw, v) P)"
    using assms by (auto simp: bft_inv_def votes_cast_def)
  moreover have "votes_recorded E D H st (insert (raw, v) P)"
    using assms(1) by (simp add: bft_inv_def votes_recorded_def) blast
  ultimately show ?thesis
    using assms(1,2) by (auto simp: bft_inv_def votes_stored_def votes_locked_def)
qed

text \<open>A vote cast for the first time: \<open>g\<close> and \<open>g'\<close> read the voter's store before and after.\<close>

definition fresh_vote ::
  "names_env \<Rightarrow> (string \<Rightarrow> bytes result) \<Rightarrow> (string \<Rightarrow> bytes result) \<Rightarrow> QuorumVote \<Rightarrow> bool" where
  "fresh_vote E g g' v \<longleftrightarrow>
     (let L = quorumLockKey (qv_NameID v) (qv_Generation v) (qv_Validator v) in
      \<exists>enc. cbor_Marshal (voteC E) v = Inr enc \<and> (\<exists>e. g (vote_key v) = Inl e)
        \<and> (\<forall>h. g L = Inr h \<longrightarrow> h = qv_RecordHash v)
        \<and> g' = g(L := (if qv_Phase v = PhasePrecommit then Inr (qv_RecordHash v) else g L),
                 vote_key v := Inr enc))"

lemma fresh_vote_stored:
  assumes "votes_stored E D st P" "votes_cast E H P"
    "fresh_vote E (ds_Get D (st (qv_Validator v))) (ds_Get D t) v"
  shows "votes_stored E D (st(qv_Validator v := t)) (insert (raw, v) P)"
  using assms
  by (fastforce simp: votes_stored_def fresh_vote_def Let_def vote_key_def)

lemma fresh_vote_locked:
  assumes "votes_locked D st P" "votes_cast E H P" "length (qv_NameID v) = 32"
    "fresh_vote E (ds_Get D (st (qv_Validator v))) (ds_Get D t) v"
  shows "votes_locked D (st(qv_Validator v := t)) (insert (raw, v) P)"
proof -
  have "ds_Get D ((st(qv_Validator v := t)) (qv_Validator v'))
      (quorumLockKey (qv_NameID v') (qv_Generation v') (qv_Validator v')) = Inr (qv_RecordHash v')"
    if "(raw', v') \<in> insert (raw, v) P" "qv_Phase v' = PhasePrecommit" for raw' v'
  proof (cases "(raw', v') = (raw, v)")
    case True
    with that(2) assms(4) show ?thesis by (auto simp: fresh_vote_def Let_def vote_key_def)
  next
    case False
    with that assms(1) have "ds_Get D (st (qv_Validator v'))
      (quorumLockKey (qv_NameID v') (qv_Generation v') (qv_Validator v')) = Inr (qv_RecordHash v')"
      by (auto simp: votes_locked_def)
    then show ?thesis using assms(4) by (auto simp: fresh_vote_def Let_def vote_key_def)
  qed
  then show ?thesis
    unfolding votes_locked_def by (intro ballI case_prodI2 impI, hypsubst) blast
qed

lemma fresh_vote_recorded:
  assumes "votes_recorded E D H st P" "length (qv_NameID v) = 32"
    "fresh_vote E (ds_Get D (st (qv_Validator v))) (ds_Get D t) v"
  shows "votes_recorded E D H (st(qv_Validator v := t)) (insert (raw, v) P)"
  unfolding votes_recorded_def
proof (intro allI impI)
  fix w i g u ph enc
  assume w: "w \<in> H" and i: "length i = 32"
    and get: "ds_Get D ((st(qv_Validator v := t)) w) (quorumVoteKey i g u ph w) = Inr enc"
  note old = assms(1) [unfolded votes_recorded_def, rule_format, OF w i]
  show "\<exists>raw' v'. (raw', v') \<in> insert (raw, v) P \<and> cbor_Marshal (voteC E) v' = Inr enc
      \<and> ballot v' = (i, g, u, ph, w)"
  proof (cases "ballot v = (i, g, u, ph, w)")
    case True
    with get assms(3) have "cbor_Marshal (voteC E) v = Inr enc"
      by (auto simp: fresh_vote_def Let_def vote_key_def ballot_def)
    with True show ?thesis by blast
  next
    case False
    with get assms(2,3) i have "ds_Get D (st w) (quorumVoteKey i g u ph w) = Inr enc"
      by (cases "w = qv_Validator v")
        (auto simp: fresh_vote_def Let_def vote_key_def ballot_def quorumVoteKey_inj split: if_splits)
    from old [OF this] show ?thesis by blast
  qed
qed

lemma bft_inv_fresh:
  assumes "bft_inv E D \<rho> H st P" "qv_Validator v \<in> H" "length (qv_NameID v) = 32"
    "fresh_vote E (ds_Get D (st (qv_Validator v))) (ds_Get D t) v"
    "qv_RecordHash v = Sum256 E raw" "DecodeNameRecord E raw = Inr rcd"
    "qv_NameID v = nr_NameID rcd" "qv_Generation v = nr_Generation rcd"
    "qv_Phase v = PhaseCommit \<Longrightarrow> commit_basis E \<rho> H P v"
  shows "bft_inv E D \<rho> H (st(qv_Validator v := t)) (insert (raw, v) P)"
proof -
  have "commits_based E \<rho> H (insert (raw, v) P)"
    using assms(1,9) by (intro commits_based_insert) (auto simp: bft_inv_def)
  moreover have "votes_cast E H (insert (raw, v) P)"
    using assms by (auto simp: bft_inv_def votes_cast_def)
  ultimately show ?thesis
    using assms(1-4) fresh_vote_stored fresh_vote_locked fresh_vote_recorded
    unfolding bft_inv_def by metis
qed

context journal_contract
begin

lemma bft_inv_vote:
  assumes inv: "bft_inv E D \<rho> H st P" and w: "w \<in> H" "ed_Public E (qj_Private J) = w"
    and root: "\<rho> (rt_Namespace root) = root"
    and justify: "\<And>q. justify = Some q \<Longrightarrow> genuine H P q"
    and vote: "QuorumJournal_Vote E D J root raw ph u justify (st w) = (r, t)"
  shows "bft_inv E D \<rho> H (st(w := t)) (P \<union> returned raw r)"
  using vote
proof (cases rule: Vote_cases)
  case nothing
  then show ?thesis
    by (cases r) (auto simp: returned_def intro: bft_inv_cong [OF inv])
next
  case (replay rcd v enc)
  note p = checkProposal_ok [OF replay(1)]
  from inv have "votes_recorded E D H st P" by (simp add: bft_inv_def)
  from this [unfolded votes_recorded_def, rule_format, OF w(1) p(2) replay(4) [unfolded w(2)]]
  obtain raw0 v0 where v0: "(raw0, v0) \<in> P" "cbor_Marshal (voteC E) v0 = Inr enc"
    "ballot v0 = (nr_NameID rcd, nr_Generation rcd, u, ph, w)"
    by auto
  from vote_Marshal_inj [OF v0(2) replay(5)] have "v0 = v" .
  with v0 have "bft_inv E D \<rho> H st (insert (raw, v) P)"
    using bft_inv_replay [OF inv _ replay(6) p(1)] by (auto simp: ballot_def)
  with replay show ?thesis by (simp add: returned_def)
next
  case (fresh rcd v enc)
  note p = checkProposal_ok [OF fresh(1)]
  from fresh(5) w have v: "qv_NameID v = nr_NameID rcd" "qv_Generation v = nr_Generation rcd"
    "qv_View v = u" "qv_Phase v = ph" "qv_Validator v = w" "qv_Namespace v = nr_Namespace rcd"
    by (simp_all add: casts_def ballot_def)
  have "fresh_vote E (ds_Get D (st w)) (ds_Get D t) v"
    using fresh(3,4,6-8) w by (auto simp: fresh_vote_def Let_def vote_key_def v)
  moreover have "commit_basis E \<rho> H P v" if c: "qv_Phase v = PhaseCommit"
    using p(3) p(5) c justify root fresh(6) by (auto simp: commit_basis_def v)
  ultimately show ?thesis
    using bft_inv_fresh [of E D \<rho> H st P v t raw rcd] inv w p(1,2) fresh(2,6)
    by (simp add: v returned_def)
qed

theorem bft_reach_inv:
  assumes "bft_reach E D \<rho> H st P"
  shows "bft_inv E D \<rho> H st P"
  using assms
proof (induction rule: bft_reach.induct)
  case (start st)
  then show ?case
    by (auto simp: bft_inv_def votes_recorded_def votes_stored_def votes_cast_def
          votes_locked_def commits_based_def)
next
  case (vote st P w J root justify raw ph u r t)
  then show ?case by (intro bft_inv_vote)
next
  case (other st P t w)
  then show ?case by (auto intro: bft_inv_cong)
qed

end


subsection \<open>Agreement\<close>

definition faults_within :: "NamespaceRoot \<Rightarrow> bytes set \<Rightarrow> bool" where
  "faults_within root H \<longleftrightarrow> card (set (rt_Validators root) - H) \<le> unat (rt_FaultThreshold root)"

lemma honest_in:
  assumes "X \<subseteq> set (rt_Validators root)" "unat (rt_FaultThreshold root) < card X"
    "faults_within root H"
  shows "\<exists>w. w \<in> X \<and> w \<in> H"
proof (rule ccontr)
  assume "\<not> ?thesis"
  with assms(1) have "X \<subseteq> set (rt_Validators root) - H" by blast
  then have "card X \<le> card (set (rt_Validators root) - H)" by (simp add: card_mono)
  with assms(2,3) show False by (simp add: faults_within_def)
qed

lemma quorum_overlap:
  assumes "NamespaceRoot_Validate E now root = Inr ()"
    "QuorumCertificate_Validate E root now1 q1 = Inr ()"
    "QuorumCertificate_Validate E root now2 q2 = Inr ()"
  shows "unat (rt_FaultThreshold root) < card (voters q1 \<inter> voters q2)"
proof -
  note r = NamespaceRoot_Validate_ok [OF assms(1)]
  note q1 = QuorumCertificate_Validate_ok [OF assms(2)]
  note q2 = QuorumCertificate_Validate_ok [OF assms(3)]
  have "card (voters q1) + card (voters q2)
      \<le> card (set (rt_Validators root)) + card (voters q1 \<inter> voters q2)"
    using q1(2) q2(2) by (intro card_inter_ge) auto
  then show ?thesis
    using q1(1) q2(1) r(1,2) by (simp add: QuorumSize_def distinct_card)
qed

lemma quorums_meet:
  assumes "NamespaceRoot_Validate E now root = Inr ()" "faults_within root H"
    "QuorumCertificate_Validate E root now1 q1 = Inr ()"
    "QuorumCertificate_Validate E root now2 q2 = Inr ()"
  shows "\<exists>w. w \<in> H \<and> w \<in> voters q1 \<and> w \<in> voters q2"
proof -
  have "voters q1 \<inter> voters q2 \<subseteq> set (rt_Validators root)"
    using QuorumCertificate_Validate_ok(2) [OF assms(3)] by blast
  from honest_in [OF this quorum_overlap [OF assms(1,3,4)] assms(2)] show ?thesis by blast
qed

text \<open>A certificate's vote in the name of an honest validator, traced to its journal.\<close>

lemma genuine_vote:
  assumes "QuorumCertificate_Validate E root now q = Inr ()" "genuine H P q" "w \<in> H" "w \<in> voters q"
  obtains raw v where "(raw, v) \<in> P" "qv_Validator v = w" "qv_Phase v = qc_Phase q"
    "qv_RecordHash v = qc_RecordHash q" "qv_Generation v = qc_Generation q"
    "qv_NameID v = qc_NameID q" "qv_Namespace v = rt_Namespace root"
proof -
  from assms(4) obtain x where x: "x \<in> set (qc_Votes q)" "qv_Validator x = w"
    by (auto simp: voters_def)
  with QuorumCertificate_Validate_ok(3) [OF assms(1)] have f: "vote_for E root now q x" by blast
  then have ns: "qv_Namespace x = rt_Namespace root"
    by (auto simp: vote_for_def QuorumVote_Validate_def result_inv)
  from assms(2,3) x obtain raw v where v: "(raw, v) \<in> P"
    "QuorumVote_unsigned v = QuorumVote_unsigned x"
    by (auto simp: genuine_def)
  from arg_cong [OF v(2), of qv_Validator] arg_cong [OF v(2), of qv_Phase]
    arg_cong [OF v(2), of qv_RecordHash] arg_cong [OF v(2), of qv_Generation]
    arg_cong [OF v(2), of qv_NameID] arg_cong [OF v(2), of qv_Namespace]
  show thesis using that [OF v(1)] f x(2) ns
    by (simp add: QuorumVote_unsigned_def vote_for_def)
qed

context journal_contract
begin

lemma commit_has_precommit:
  assumes "bft_reach E D \<rho> H st P" "NamespaceRoot_Validate E now root = Inr ()"
    "faults_within root H" "\<rho> (rt_Namespace root) = root"
    "QuorumCertificate_Validate E root now' q = Inr ()" "genuine H P q" "qc_Phase q = PhaseCommit"
  shows "\<exists>now q'. QuorumCertificate_Validate E root now q' = Inr () \<and> genuine H P q'
    \<and> qc_Phase q' = PhasePrecommit \<and> qc_RecordHash q' = qc_RecordHash q"
proof -
  from quorums_meet [OF assms(2,3,5,5)] obtain w where "w \<in> H" "w \<in> voters q" by blast
  from genuine_vote [OF assms(5,6) this] obtain raw v where v: "(raw, v) \<in> P"
    "qv_Phase v = qc_Phase q" "qv_RecordHash v = qc_RecordHash q" "qv_Namespace v = rt_Namespace root"
    by metis
  from bft_reach_inv [OF assms(1)] v assms(7) have "commit_basis E \<rho> H P v"
    by (auto simp: bft_inv_def commits_based_def)
  with v assms(4) show ?thesis by (auto simp: commit_basis_def)
qed

lemma precommit_unique:
  assumes "bft_reach E D \<rho> H st P" "NamespaceRoot_Validate E now root = Inr ()"
    "faults_within root H"
    "QuorumCertificate_Validate E root now1 q1 = Inr ()" "genuine H P q1"
    "qc_Phase q1 = PhasePrecommit" "qc_RecordHash q1 = Sum256 E raw1"
    "QuorumCertificate_Validate E root now2 q2 = Inr ()" "genuine H P q2"
    "qc_Phase q2 = PhasePrecommit" "qc_RecordHash q2 = Sum256 E raw2"
    "DecodeNameRecord E raw1 = Inr r1" "DecodeNameRecord E raw2 = Inr r2"
    "nr_NameID r1 = nr_NameID r2" "nr_Generation r1 = nr_Generation r2"
    "inj_on (Sum256 E) (fst ` P \<union> {raw1, raw2})"
  shows "raw1 = raw2"
proof -
  note inv = bft_reach_inv [OF assms(1), unfolded bft_inv_def]
  from quorums_meet [OF assms(2,3,4,8)] obtain w where w: "w \<in> H" "w \<in> voters q1" "w \<in> voters q2"
    by blast
  from genuine_vote [OF assms(4,5) w(1,2)] obtain p1 v1 where v1: "(p1, v1) \<in> P"
    "qv_Validator v1 = w" "qv_Phase v1 = PhasePrecommit" "qv_RecordHash v1 = Sum256 E raw1"
    using assms(6,7) by metis
  from genuine_vote [OF assms(8,9) w(1,3)] obtain p2 v2 where v2: "(p2, v2) \<in> P"
    "qv_Validator v2 = w" "qv_Phase v2 = PhasePrecommit" "qv_RecordHash v2 = Sum256 E raw2"
    using assms(10,11) by metis
  have inj: "p = raw" if "(p, v) \<in> P" "raw \<in> {raw1, raw2}" "qv_RecordHash v = Sum256 E raw" for p v raw
  proof -
    have "qv_RecordHash v = Sum256 E p" using inv that(1) by (auto simp: votes_cast_def)
    with that(3) have "Sum256 E p = Sum256 E raw" by simp
    moreover have "p \<in> fst ` P \<union> {raw1, raw2}" using image_eqI [OF _ that(1), of p fst] by simp
    moreover have "raw \<in> fst ` P \<union> {raw1, raw2}" using that(2) by blast
    ultimately show ?thesis by (rule inj_onD [OF assms(16)])
  qed
  from inj [OF v1(1) _ v1(4)] inj [OF v2(1) _ v2(4)]
  have p: "(raw1, v1) \<in> P" "(raw2, v2) \<in> P" using v1(1) v2(1) by simp_all
  have cast: "votes_cast E H P" and locked: "votes_locked D st P" using inv by simp_all
  from votes_castD [OF cast p(1) assms(12)] votes_castD [OF cast p(2) assms(13)] assms(14,15)
  have "qv_NameID v1 = qv_NameID v2" "qv_Generation v1 = qv_Generation v2" by simp_all
  with votes_lockedD [OF locked v1(1,3)] votes_lockedD [OF locked v2(1,3)] v1(2,4) v2(2,4)
  have "Sum256 E raw1 = Sum256 E raw2" by simp
  then show ?thesis by (rule inj_onD [OF assms(16)]) simp_all
qed

lemma same_ballot_same_vote:
  assumes "bft_reach E D \<rho> H st P" "(raw1, v1) \<in> P" "(raw2, v2) \<in> P" "ballot v1 = ballot v2"
  shows "v1 = v2"
proof -
  from bft_reach_inv [OF assms(1)] have st: "votes_stored E D st P" by (simp add: bft_inv_def)
  from assms(4) have "vote_key v1 = vote_key v2" "qv_Validator v1 = qv_Validator v2"
    by (simp_all add: vote_key_def ballot_def)
  with votes_storedD [OF st assms(2)] votes_storedD [OF st assms(3)] obtain enc where
    "cbor_Marshal (voteC E) v1 = Inr enc" "cbor_Marshal (voteC E) v2 = Inr enc"
    by auto
  then show ?thesis by (rule vote_Marshal_inj)
qed

end

lemma CertifiedNameRecord_Validate_ok:
  assumes "CertifiedNameRecord_Validate E now c = Inr r"
  shows "NamespaceRoot_Validate E now (cn_Root c) = Inr ()" "DecodeNameRecord E (cn_Record c) = Inr r"
    "QuorumCertificate_Validate E (cn_Root c) now (cn_Commit c) = Inr ()"
    "qc_Phase (cn_Commit c) = PhaseCommit" "qc_RecordHash (cn_Commit c) = Sum256 E (cn_Record c)"
  using assms unfolding CertifiedNameRecord_Validate_def result_inv Let_def
  by (elim conjE exE, simp)+

text \<open>C1. Agreement of the certified name plane. In every state the honest validators can reach,
  with at most \<open>f\<close> of the \<open>3f+1\<close> committee members outside the honest set, two certified records
  that validate under the namespace's root for the same name and generation carry the same record
  bytes, whatever views their commit certificates come from. The hypotheses are the datastore
  laws with an injective vote encoding, no forged votes of honest validators in the two
  certificates, and no SHA-256 collision among the proposals involved.\<close>

theorem certified_agreement:
  assumes "journal_contract D E" "bft_reach E D \<rho> H st P"
    and "\<rho> (rt_Namespace root) = root" "faults_within root H"
    and "cn_Root c1 = root" "cn_Root c2 = root"
    and "CertifiedNameRecord_Validate E now1 c1 = Inr r1"
    and "CertifiedNameRecord_Validate E now2 c2 = Inr r2"
    and "genuine H P (cn_Commit c1)" "genuine H P (cn_Commit c2)"
    and "nr_NameID r1 = nr_NameID r2" "nr_Generation r1 = nr_Generation r2"
    and "inj_on (Sum256 E) (fst ` P \<union> {cn_Record c1, cn_Record c2})"
  shows "cn_Record c1 = cn_Record c2"
proof -
  note c1 = CertifiedNameRecord_Validate_ok [OF assms(7), unfolded assms(5)]
  note c2 = CertifiedNameRecord_Validate_ok [OF assms(8), unfolded assms(6)]
  note J = assms(1)
  from journal_contract.commit_has_precommit [OF J assms(2) c1(1) assms(4,3) c1(3) assms(9) c1(4)]
  obtain n1 q1 where q1: "QuorumCertificate_Validate E root n1 q1 = Inr ()" "genuine H P q1"
    "qc_Phase q1 = PhasePrecommit" "qc_RecordHash q1 = Sum256 E (cn_Record c1)"
    using c1(5) by auto
  from journal_contract.commit_has_precommit [OF J assms(2) c2(1) assms(4,3) c2(3) assms(10) c2(4)]
  obtain n2 q2 where q2: "QuorumCertificate_Validate E root n2 q2 = Inr ()" "genuine H P q2"
    "qc_Phase q2 = PhasePrecommit" "qc_RecordHash q2 = Sum256 E (cn_Record c2)"
    using c2(5) by auto
  show ?thesis
    by (rule journal_contract.precommit_unique [OF J assms(2) c1(1) assms(4) q1 q2
          c1(2) c2(2) assms(11-13)])
qed

text \<open>C2. A journal never equivocates: of the votes an honest validator ever returns, two with the
  same name, generation, view and phase are one and the same vote, so a retried request gets the
  stored vote back and a conflicting one gets none.\<close>

theorem journal_no_equivocation:
  assumes "journal_contract D E" "bft_reach E D \<rho> H st P"
    and "(raw1, v1) \<in> P" "(raw2, v2) \<in> P" "ballot v1 = ballot v2"
  shows "v1 = v2 \<and> qv_RecordHash v1 = Sum256 E raw1 \<and> Sum256 E raw1 = Sum256 E raw2"
proof -
  have v: "v1 = v2" by (rule journal_contract.same_ballot_same_vote [OF assms])
  have "qv_RecordHash v = Sum256 E raw" if "(raw, v) \<in> P" for raw v
    using journal_contract.bft_reach_inv [OF assms(1,2)] that
    by (auto simp: bft_inv_def votes_cast_def)
  from this [OF assms(3)] this [OF assms(4)] v show ?thesis by simp
qed

text \<open>A certificate that validates under a valid root carries votes of at least \<open>2f+1\<close>
  distinct members of a committee of \<open>3f+1\<close>, each for the certificate's name, generation, view,
  phase and record, so that two certificates under one root share more than \<open>f\<close> voters.\<close>

theorem certificate_quorum:
  assumes "NamespaceRoot_Validate E now root = Inr ()"
    and "QuorumCertificate_Validate E root now1 q1 = Inr ()"
    and "QuorumCertificate_Validate E root now2 q2 = Inr ()"
  shows "voters q1 \<subseteq> set (rt_Validators root) \<and> QuorumSize root \<le> card (voters q1)
    \<and> (\<forall>v\<in>set (qc_Votes q1). qv_RecordHash v = qc_RecordHash q1 \<and> qv_View v = qc_View q1
          \<and> qv_Phase v = qc_Phase q1 \<and> qv_NameID v = qc_NameID q1
          \<and> qv_Generation v = qc_Generation q1)
    \<and> unat (rt_FaultThreshold root) < card (voters q1 \<inter> voters q2)"
  using QuorumCertificate_Validate_ok [OF assms(2)] quorum_overlap [OF assms]
  by (auto simp: vote_for_def)

end
