(* ===== verification/Names_Instance.thy ===== *)
theory Names_Instance
  imports Names_Record Go_Datastore
begin

text \<open>
  A concrete environment for the mutable-name plane, so that the hypotheses about the parts
  outside the repository are seen to be satisfiable and witnesses can run: a self-delimiting
  encoding of every struct in place of the CBOR library, a truncation in place of SHA-256, and
  signatures made of the public key and that digest. Nothing is proved of the program from the
  details of this instance.
\<close>

subsection \<open>Self-delimiting encodings\<close>

type_synonym 'a pickler = "('a \<Rightarrow> bytes) \<times> (bytes \<Rightarrow> ('a \<times> bytes) option)"

definition pickles :: "'a pickler \<Rightarrow> bool" where
  "pickles p \<longleftrightarrow> (\<forall>x rest. snd p (fst p x @ rest) = Some (x, rest))"

fun dec_nat :: "bytes \<Rightarrow> (nat \<times> bytes) option" where
  "dec_nat [] = None"
| "dec_nat (c # cs) =
     (if c = CHR ''.'' then Some (0, cs)
      else case dec_nat cs of None \<Rightarrow> None | Some (n, rest) \<Rightarrow> Some (Suc n, rest))"

definition p_nat :: "nat pickler" where
  "p_nat = (\<lambda>n. replicate n (CHR ''1'') @ ''.'', dec_nat)"

definition p_map :: "('a \<Rightarrow> 'b) \<Rightarrow> ('b \<Rightarrow> 'a) \<Rightarrow> 'b pickler \<Rightarrow> 'a pickler" where
  "p_map f g p = (\<lambda>x. fst p (f x),
     \<lambda>s. case snd p s of None \<Rightarrow> None | Some (y, rest) \<Rightarrow> Some (g y, rest))"

definition p_pair :: "'a pickler \<Rightarrow> 'b pickler \<Rightarrow> ('a \<times> 'b) pickler" where
  "p_pair p q = (\<lambda>(x, y). fst p x @ fst q y,
     \<lambda>s. case snd p s of None \<Rightarrow> None
       | Some (x, t) \<Rightarrow> (case snd q t of None \<Rightarrow> None | Some (y, rest) \<Rightarrow> Some ((x, y), rest)))"

definition p_str :: "string pickler" where
  "p_str = (\<lambda>x. fst p_nat (length x) @ x,
     \<lambda>s. case snd p_nat s of None \<Rightarrow> None | Some (n, t) \<Rightarrow> Some (take n t, drop n t))"

fun dec_list :: "(bytes \<Rightarrow> ('a \<times> bytes) option) \<Rightarrow> nat \<Rightarrow> bytes \<Rightarrow> ('a list \<times> bytes) option" where
  "dec_list d 0 s = Some ([], s)"
| "dec_list d (Suc n) s =
     (case d s of None \<Rightarrow> None
      | Some (x, t) \<Rightarrow>
         (case dec_list d n t of None \<Rightarrow> None | Some (xs, rest) \<Rightarrow> Some (x # xs, rest)))"

definition p_list :: "'a pickler \<Rightarrow> 'a list pickler" where
  "p_list p = (\<lambda>xs. fst p_nat (length xs) @ concat (map (fst p) xs),
     \<lambda>s. case snd p_nat s of None \<Rightarrow> None | Some (n, t) \<Rightarrow> dec_list (snd p) n t)"

definition p_bool :: "bool pickler" where
  "p_bool = p_map (\<lambda>b. if b then 1 else 0) (\<lambda>n. n = 1) p_nat"

definition p_int :: "int pickler" where
  "p_int = p_map (\<lambda>i. (i < 0, nat \<bar>i\<bar>)) (\<lambda>(s, n). if s then - int n else int n) (p_pair p_bool p_nat)"

definition p_word :: "'a::len word pickler" where
  "p_word = p_map unat of_nat p_nat"

definition p_option :: "'a pickler \<Rightarrow> 'a option pickler" where
  "p_option p = p_map (\<lambda>z. case z of None \<Rightarrow> [] | Some x \<Rightarrow> [x])
     (\<lambda>xs. case xs of [] \<Rightarrow> None | x # _ \<Rightarrow> Some x) (p_list p)"

named_theorems pickle

lemma dec_nat_enc [simp]: "dec_nat (replicate n (CHR ''1'') @ ''.'' @ rest) = Some (n, rest)"
  by (induction n) simp_all

lemma pickles_nat [pickle]: "pickles p_nat"
  using dec_nat_enc by (simp add: pickles_def p_nat_def)

lemma pickles_map [pickle]: "pickles p \<Longrightarrow> (\<And>x. g (f x) = x) \<Longrightarrow> pickles (p_map f g p)"
  by (simp add: pickles_def p_map_def)

lemma pickles_pair [pickle]: "pickles p \<Longrightarrow> pickles q \<Longrightarrow> pickles (p_pair p q)"
  by (simp add: pickles_def p_pair_def)

lemma pickles_str [pickle]: "pickles p_str"
  using pickles_nat by (simp add: pickles_def p_str_def)

lemma dec_list_enc:
  "pickles p \<Longrightarrow> dec_list (snd p) (length xs) (concat (map (fst p) xs) @ rest) = Some (xs, rest)"
  by (induction xs) (simp_all add: pickles_def)

lemma pickles_list [pickle]:
  assumes "pickles p"
  shows "pickles (p_list p)"
proof -
  have "snd p_nat (fst p_nat n @ t) = Some (n, t)" for n t
    using pickles_nat by (simp add: pickles_def)
  then show ?thesis
    using dec_list_enc [OF assms] by (simp add: pickles_def p_list_def)
qed

lemma pickles_bool [pickle]: "pickles p_bool"
  unfolding p_bool_def by (intro pickle) simp

lemma pickles_int [pickle]: "pickles p_int"
  unfolding p_int_def by (intro pickle) simp

lemma pickles_word [pickle]: "pickles p_word"
  unfolding p_word_def by (intro pickle) simp

lemma pickles_option [pickle]: "pickles p \<Longrightarrow> pickles (p_option p)"
  unfolding p_option_def by (intro pickle) (auto split: option.splits)

subsection \<open>The structs\<close>

definition p_PlacementPolicy :: "PlacementPolicy pickler" where
  "p_PlacementPolicy = p_map
     (\<lambda>r. (Near r, Middle r, Far r))
     (\<lambda>(a0, a1, a2).
        \<lparr>Near = a0, Middle = a1, Far = a2\<rparr>)
     (p_pair p_word (p_pair p_word p_word))"

lemma pickles_PlacementPolicy [pickle]: "pickles p_PlacementPolicy"
  unfolding p_PlacementPolicy_def by (intro pickle) simp

definition p_ObjectPolicy :: "ObjectPolicy pickler" where
  "p_ObjectPolicy = p_map
     (\<lambda>r. (Replicas r, Placement r, StrictPublish r, Encryption r, KeyEpoch r,
           RetainVersions r, CollectionGrace r, Searchable r))
     (\<lambda>(a0, a1, a2, a3, a4, a5, a6, a7).
        \<lparr>Replicas = a0, Placement = a1, StrictPublish = a2, Encryption = a3,
             KeyEpoch = a4, RetainVersions = a5, CollectionGrace = a6, Searchable = a7\<rparr>)
     (p_pair p_word (p_pair p_PlacementPolicy (p_pair p_bool (p_pair p_str (p_pair p_word
      (p_pair p_word (p_pair p_int p_bool)))))))"

lemma pickles_ObjectPolicy [pickle]: "pickles p_ObjectPolicy"
  unfolding p_ObjectPolicy_def by (intro pickle) simp

definition p_Capability :: "Capability pickler" where
  "p_Capability = p_map
     (\<lambda>r. (cap_Version r, cap_Namespace r, cap_PathPrefix r, cap_Delegate r,
           cap_Permissions r, cap_NotBefore r, cap_Expires r, cap_Nonce r, cap_Signature r))
     (\<lambda>(a0, a1, a2, a3, a4, a5, a6, a7, a8).
        \<lparr>cap_Version = a0, cap_Namespace = a1, cap_PathPrefix = a2, cap_Delegate = a3,
             cap_Permissions = a4, cap_NotBefore = a5, cap_Expires = a6, cap_Nonce = a7,
             cap_Signature = a8\<rparr>)
     (p_pair p_word (p_pair p_str (p_pair p_str (p_pair p_str (p_pair p_word (p_pair p_int
      (p_pair p_int (p_pair p_str p_str))))))))"

lemma pickles_Capability [pickle]: "pickles p_Capability"
  unfolding p_Capability_def by (intro pickle) simp

definition p_NameRecord :: "NameRecord pickler" where
  "p_NameRecord = p_map
     (\<lambda>r. (nr_Version r, nr_Namespace r, nr_NameID r, nr_Path r, nr_Kind r, nr_Generation r,
           nr_PreviousHash r, nr_ManifestKey r, nr_Tombstone r, nr_Owner r, nr_Capability r,
           nr_Policy r, nr_DirectoryChildren r, nr_Signer r, nr_Timestamp r, nr_Nonce r,
           nr_Signature r))
     (\<lambda>(a0, a1, a2, a3, a4, a5, a6, a7, a8, a9, a10, a11, a12, a13, a14, a15, a16).
        \<lparr>nr_Version = a0, nr_Namespace = a1, nr_NameID = a2, nr_Path = a3, nr_Kind = a4,
             nr_Generation = a5, nr_PreviousHash = a6, nr_ManifestKey = a7,
             nr_Tombstone = a8, nr_Owner = a9, nr_Capability = a10, nr_Policy = a11,
             nr_DirectoryChildren = a12, nr_Signer = a13, nr_Timestamp = a14, nr_Nonce = a15,
             nr_Signature = a16\<rparr>)
     (p_pair p_word (p_pair p_str (p_pair p_str (p_pair p_str (p_pair p_str (p_pair p_word
      (p_pair p_str (p_pair p_str (p_pair p_bool (p_pair p_str (p_pair (p_option
      p_Capability) (p_pair p_ObjectPolicy (p_pair (p_list p_str) (p_pair p_str (p_pair
      p_int (p_pair p_str p_str))))))))))))))))"

lemma pickles_NameRecord [pickle]: "pickles p_NameRecord"
  unfolding p_NameRecord_def by (intro pickle) simp

definition p_ProviderClaim :: "ProviderClaim pickler" where
  "p_ProviderClaim = p_map
     (\<lambda>r. (pc_Version r, pc_ContentKey r, pc_Provider r, pc_Address r, pc_Expires r,
           pc_Timestamp r, pc_Nonce r, pc_Signature r))
     (\<lambda>(a0, a1, a2, a3, a4, a5, a6, a7).
        \<lparr>pc_Version = a0, pc_ContentKey = a1, pc_Provider = a2, pc_Address = a3,
             pc_Expires = a4, pc_Timestamp = a5, pc_Nonce = a6, pc_Signature = a7\<rparr>)
     (p_pair p_word (p_pair p_str (p_pair p_str (p_pair p_str (p_pair p_int (p_pair p_int
      (p_pair p_str p_str)))))))"

lemma pickles_ProviderClaim [pickle]: "pickles p_ProviderClaim"
  unfolding p_ProviderClaim_def by (intro pickle) simp

definition p_LeaseScope :: "LeaseScope pickler" where
  "p_LeaseScope = p_map
     (\<lambda>r. (sc_NameID r, sc_Namespace r, sc_PathPrefix r))
     (\<lambda>(a0, a1, a2).
        \<lparr>sc_NameID = a0, sc_Namespace = a1, sc_PathPrefix = a2\<rparr>)
     (p_pair p_str (p_pair p_str p_str))"

lemma pickles_LeaseScope [pickle]: "pickles p_LeaseScope"
  unfolding p_LeaseScope_def by (intro pickle) simp

definition p_LeaseRecord :: "LeaseRecord pickler" where
  "p_LeaseRecord = p_map
     (\<lambda>r. (lr_Version r, lr_Scope r, lr_Owner r, lr_Holder r, lr_Fencing r, lr_Issued r,
           lr_Expires r, lr_Nonce r, lr_Capability r, lr_Signature r))
     (\<lambda>(a0, a1, a2, a3, a4, a5, a6, a7, a8, a9).
        \<lparr>lr_Version = a0, lr_Scope = a1, lr_Owner = a2, lr_Holder = a3, lr_Fencing = a4,
             lr_Issued = a5, lr_Expires = a6, lr_Nonce = a7, lr_Capability = a8,
             lr_Signature = a9\<rparr>)
     (p_pair p_word (p_pair p_LeaseScope (p_pair p_str (p_pair p_str (p_pair p_word (p_pair
      p_int (p_pair p_int (p_pair p_str (p_pair (p_option p_Capability) p_str)))))))))"

lemma pickles_LeaseRecord [pickle]: "pickles p_LeaseRecord"
  unfolding p_LeaseRecord_def by (intro pickle) simp

definition p_NamespaceRoot :: "NamespaceRoot pickler" where
  "p_NamespaceRoot = p_map
     (\<lambda>r. (rt_Version r, rt_Namespace r, rt_Owner r, rt_Validators r, rt_FaultThreshold r,
           rt_CommitteeEpoch r, rt_Timestamp r, rt_Nonce r, rt_Signature r))
     (\<lambda>(a0, a1, a2, a3, a4, a5, a6, a7, a8).
        \<lparr>rt_Version = a0, rt_Namespace = a1, rt_Owner = a2, rt_Validators = a3,
             rt_FaultThreshold = a4, rt_CommitteeEpoch = a5, rt_Timestamp = a6,
             rt_Nonce = a7, rt_Signature = a8\<rparr>)
     (p_pair p_word (p_pair p_str (p_pair p_str (p_pair (p_list p_str) (p_pair p_word
      (p_pair p_word (p_pair p_int (p_pair p_str p_str))))))))"

lemma pickles_NamespaceRoot [pickle]: "pickles p_NamespaceRoot"
  unfolding p_NamespaceRoot_def by (intro pickle) simp

definition p_QuorumVote :: "QuorumVote pickler" where
  "p_QuorumVote = p_map
     (\<lambda>r. (qv_Version r, qv_Namespace r, qv_NameID r, qv_Generation r, qv_RecordHash r,
           qv_PreviousHash r, qv_CommitteeEpoch r, qv_View r, qv_Phase r, qv_Validator r,
           qv_Timestamp r, qv_Nonce r, qv_Signature r))
     (\<lambda>(a0, a1, a2, a3, a4, a5, a6, a7, a8, a9, a10, a11, a12).
        \<lparr>qv_Version = a0, qv_Namespace = a1, qv_NameID = a2, qv_Generation = a3,
             qv_RecordHash = a4, qv_PreviousHash = a5, qv_CommitteeEpoch = a6, qv_View = a7,
             qv_Phase = a8, qv_Validator = a9, qv_Timestamp = a10, qv_Nonce = a11,
             qv_Signature = a12\<rparr>)
     (p_pair p_word (p_pair p_str (p_pair p_str (p_pair p_word (p_pair p_str (p_pair p_str
      (p_pair p_word (p_pair p_word (p_pair p_str (p_pair p_str (p_pair p_int (p_pair p_str
      p_str))))))))))))"

lemma pickles_QuorumVote [pickle]: "pickles p_QuorumVote"
  unfolding p_QuorumVote_def by (intro pickle) simp

definition p_QuorumCertificate :: "QuorumCertificate pickler" where
  "p_QuorumCertificate = p_map
     (\<lambda>r. (qc_Version r, qc_Namespace r, qc_NameID r, qc_Generation r, qc_RecordHash r,
           qc_PreviousHash r, qc_CommitteeEpoch r, qc_View r, qc_Phase r, qc_Votes r))
     (\<lambda>(a0, a1, a2, a3, a4, a5, a6, a7, a8, a9).
        \<lparr>qc_Version = a0, qc_Namespace = a1, qc_NameID = a2, qc_Generation = a3,
             qc_RecordHash = a4, qc_PreviousHash = a5, qc_CommitteeEpoch = a6, qc_View = a7,
             qc_Phase = a8, qc_Votes = a9\<rparr>)
     (p_pair p_word (p_pair p_str (p_pair p_str (p_pair p_word (p_pair p_str (p_pair p_str
      (p_pair p_word (p_pair p_word (p_pair p_str (p_list p_QuorumVote))))))))))"

lemma pickles_QuorumCertificate [pickle]: "pickles p_QuorumCertificate"
  unfolding p_QuorumCertificate_def by (intro pickle) simp

definition p_CertifiedNameRecord :: "CertifiedNameRecord pickler" where
  "p_CertifiedNameRecord = p_map
     (\<lambda>r. (cn_Version r, cn_Root r, cn_Record r, cn_Commit r))
     (\<lambda>(a0, a1, a2, a3).
        \<lparr>cn_Version = a0, cn_Root = a1, cn_Record = a2, cn_Commit = a3\<rparr>)
     (p_pair p_word (p_pair p_NamespaceRoot (p_pair p_str p_QuorumCertificate)))"

lemma pickles_CertifiedNameRecord [pickle]: "pickles p_CertifiedNameRecord"
  unfolding p_CertifiedNameRecord_def by (intro pickle) simp

definition p_leaseRegistryEntry :: "leaseRegistryEntry pickler" where
  "p_leaseRegistryEntry = p_map
     (\<lambda>r. (le_Lease r, le_Path r, le_Subtree r, le_Expires r, le_Fencing r, le_Holder r))
     (\<lambda>(a0, a1, a2, a3, a4, a5).
        \<lparr>le_Lease = a0, le_Path = a1, le_Subtree = a2, le_Expires = a3, le_Fencing = a4,
             le_Holder = a5\<rparr>)
     (p_pair p_str (p_pair p_str (p_pair p_bool (p_pair p_int (p_pair p_word p_str)))))"

lemma pickles_leaseRegistryEntry [pickle]: "pickles p_leaseRegistryEntry"
  unfolding p_leaseRegistryEntry_def by (intro pickle) simp

definition p_leaseRegistry :: "leaseRegistry pickler" where
  "p_leaseRegistry = p_map
     (\<lambda>r. (reg_Version r, reg_Namespace r, reg_Revision r, reg_Entries r))
     (\<lambda>(a0, a1, a2, a3).
        \<lparr>reg_Version = a0, reg_Namespace = a1, reg_Revision = a2, reg_Entries = a3\<rparr>)
     (p_pair p_word (p_pair p_str (p_pair p_word (p_list p_leaseRegistryEntry))))"

lemma pickles_leaseRegistry [pickle]: "pickles p_leaseRegistry"
  unfolding p_leaseRegistry_def by (intro pickle) simp

subsection \<open>The environment\<close>

definition codec_of :: "'a pickler \<Rightarrow> 'a codec" where
  "codec_of p =
     \<lparr>cbor_Marshal = (\<lambda>v. Inr (CHR ''#'' # fst p v)),
      cbor_Unmarshal = (\<lambda>d. case d of [] \<Rightarrow> Inl (ErrMsg ''EOF'')
        | _ # t \<Rightarrow> (case snd p t of Some (v, []) \<Rightarrow> Inr v | _ \<Rightarrow> Inl (ErrMsg ''cbor'')))\<rparr>"

lemma codec_of_marshal [simp]: "cbor_Marshal (codec_of p) v = Inr (CHR ''#'' # fst p v)"
  by (simp add: codec_of_def)

lemma codec_of_unmarshal:
  assumes "pickles p"
  shows "UnmarshalCanonical (codec_of p) (CHR ''#'' # fst p v) = Inr v"
  using assms [unfolded pickles_def, rule_format, of v "[]"]
  by (simp add: UnmarshalCanonical_def codec_of_def)

lemma codec_of_inj:
  assumes "pickles p" "cbor_Marshal (codec_of p) v = Inr d" "cbor_Marshal (codec_of p) v' = Inr d"
  shows "v = v'"
  using assms codec_of_unmarshal [OF assms(1), of v] codec_of_unmarshal [OF assms(1), of v'] by auto

definition pad32 :: "bytes \<Rightarrow> bytes" where
  "pad32 m = take 32 (m @ replicate 32 (CHR 0x00))"

lemma pad32_length [simp]: "length (pad32 m) = 32"
  by (simp add: pad32_def)

definition toy :: names_env where
  "toy =
     \<lparr>Sum256 = (\<lambda>m. pad32 (rev m)),
      ed_Verify = (\<lambda>pk m sig. sig = pk @ pad32 (rev m)),
      ed_Sign = (\<lambda>sk m. pad32 sk @ pad32 (rev m)),
      ed_Public = pad32,
      capC = codec_of p_Capability, recC = codec_of p_NameRecord,
      claimC = codec_of p_ProviderClaim, leaseC = codec_of p_LeaseRecord,
      rootC = codec_of p_NamespaceRoot, voteC = codec_of p_QuorumVote,
      certC = codec_of p_CertifiedNameRecord, regC = codec_of p_leaseRegistry\<rparr>"

lemma toy_codecs [simp]:
  "capC toy = codec_of p_Capability" "recC toy = codec_of p_NameRecord"
  "claimC toy = codec_of p_ProviderClaim" "leaseC toy = codec_of p_LeaseRecord"
  "rootC toy = codec_of p_NamespaceRoot" "voteC toy = codec_of p_QuorumVote"
  "certC toy = codec_of p_CertifiedNameRecord" "regC toy = codec_of p_leaseRegistry"
  by (simp_all add: toy_def)

interpretation toy_crypto: crypto_contract toy
  by unfold_locales (simp_all add: toy_def)

end
