(* ===== verification/Names_Witness.thy ===== *)
theory Names_Witness
  imports Names_Agreement Names_Store_Props Names_Instance
begin

text \<open>
  A run of the certified name plane on the concrete environment of \<open>Names_Instance\<close>: a
  committee of four with one faulty member, a signed root, a signed record, and the three
  honest journals voting through prepare, precommit and commit. It shows that the hypotheses
  of the agreement theorems hold together and that the protocol reaches a certificate.
\<close>

interpretation toy_journal: journal_contract map_datastore toy
  by unfold_locales (metis codec_of_inj pickles_QuorumVote toy_codecs(6))

definition key :: "char \<Rightarrow> bytes" where "key c = replicate 64 c"
definition pub :: "char \<Rightarrow> bytes" where "pub c = replicate 32 c"
definition toy_nonce :: bytes where "toy_nonce = replicate 16 (CHR ''z'')"

lemma key_pub [simp]:
  "length (key c) = 64" "length (pub c) = 32" "length toy_nonce = 16" "ed_Public toy (key c) = pub c"
  "pub c = pub d \<longleftrightarrow> c = d"
  by (simp_all add: key_def pub_def toy_nonce_def toy_def pad32_def)

lemma toy_verify [simp]: "ed_Verify toy (pub c) m (ed_Sign toy (key c) m)"
  using toy_crypto.Verify_Sign [of "key c" m] by simp

lemma toy_lengths [simp]:
  "length (ed_Sign toy sk m) = 64" "length (Sum256 toy m) = 32" "length (DeriveNameID toy ns p) = 32"
  by (simp_all add: toy_crypto.Sign_length toy_crypto.Sum256_length DeriveNameID_def)

lemma toy_signing [simp]:
  "signingBytes (codec_of p) d v = Inr (d @ CHR ''#'' # fst p v)"
  by (simp add: signingBytes_def MarshalCanonical_def)

subsection \<open>Records\<close>

definition toy_ns :: bytes where "toy_ns = pub (CHR ''n'')"

definition toy_unsigned :: "u64 \<Rightarrow> bytes \<Rightarrow> bytes \<Rightarrow> NameRecord" where
  "toy_unsigned g prev man =
     \<lparr>nr_Version = FormatVersion, nr_Namespace = toy_ns,
      nr_NameID = DeriveNameID toy toy_ns ''/a'', nr_Path = ''/a'', nr_Kind = ''file'',
      nr_Generation = g, nr_PreviousHash = prev, nr_ManifestKey = man, nr_Tombstone = False,
      nr_Owner = pub (CHR ''o''), nr_Capability = None, nr_Policy = DefaultPolicy,
      nr_DirectoryChildren = [], nr_Signer = pub (CHR ''o''), nr_Timestamp = 1,
      nr_Nonce = toy_nonce, nr_Signature = []\<rparr>"

definition toy_record :: "u64 \<Rightarrow> bytes \<Rightarrow> bytes \<Rightarrow> NameRecord" where
  "toy_record g prev man = (toy_unsigned g prev man)
     \<lparr>nr_Signature := ed_Sign toy (key (CHR ''o''))
        (NameRecordDomain @ CHR ''#'' # fst p_NameRecord (toy_unsigned g prev man))\<rparr>"

definition toy_raw :: "u64 \<Rightarrow> bytes \<Rightarrow> bytes \<Rightarrow> bytes" where
  "toy_raw g prev man = CHR ''#'' # fst p_NameRecord (toy_record g prev man)"

lemma toy_ns_length [simp]: "length toy_ns = 32"
  by (simp add: toy_ns_def)

lemma toy_path [simp]: "NormalizePath ''/a'' = Inr ''/a''"
  by (simp add: NormalizePath_def HasPrefix_def path_Clean_def clean_components_def
        maxPathBytes_def)

lemma toy_decode [simp]: "DecodeNameRecord toy (toy_raw g prev man) = Inr (toy_record g prev man)"
  by (simp add: DecodeNameRecord_def toy_raw_def codec_of_unmarshal pickles_NameRecord)

lemma toy_policy [simp]: "ObjectPolicy_Validate DefaultPolicy = Inr ()"
  by (simp add: ObjectPolicy_Validate_def DefaultPolicy_def)

lemma toy_unsigned_record [simp]: "NameRecord_unsigned (toy_record g prev man) = toy_unsigned g prev man"
  by (simp add: NameRecord_unsigned_def toy_record_def toy_unsigned_def)

lemma toy_fields [simp]:
  "nr_NameID (toy_record g prev man) = DeriveNameID toy toy_ns ''/a''"
  "nr_Generation (toy_record g prev man) = g" "nr_PreviousHash (toy_record g prev man) = prev"
  "nr_Namespace (toy_record g prev man) = toy_ns" "nr_Owner (toy_record g prev man) = pub (CHR ''o'')"
  "nr_Signer (toy_record g prev man) = pub (CHR ''o'')" "nr_Path (toy_record g prev man) = ''/a''"
  "nr_Policy (toy_record g prev man) = DefaultPolicy"
  "nr_Tombstone (toy_record g prev man) = False" "nr_Capability (toy_record g prev man) = None"
  "nr_Version (toy_record g prev man) = FormatVersion" "nr_Kind (toy_record g prev man) = ''file''"
  "nr_ManifestKey (toy_record g prev man) = man" "nr_DirectoryChildren (toy_record g prev man) = []"
  "nr_Nonce (toy_record g prev man) = toy_nonce" "nr_Timestamp (toy_record g prev man) = 1"
  "nr_Signature (toy_record g prev man) = ed_Sign toy (key (CHR ''o''))
     (NameRecordDomain @ CHR ''#'' # fst p_NameRecord (toy_unsigned g prev man))"
  by (simp_all add: toy_record_def toy_unsigned_def)

lemma toy_envelope [simp]:
  assumes "g = 0 \<and> prev = [] \<or> g \<noteq> 0 \<and> length prev = 32" "length man = 32"
  shows "validateRecordEnvelope toy 1 (toy_record g prev man) = Inr ()"
proof -
  have "checkDelegation toy 1 (toy_record g prev man) = Inr ()"
    by (simp add: checkDelegation_def)
  moreover from assms have "\<not> (g = 0 \<and> length prev \<noteq> 0)" "\<not> (g > 0 \<and> length prev \<noteq> 32)"
    by auto
  ultimately show ?thesis
    using assms(2) unfolding validateRecordEnvelope_def
    by (simp add: maxDirectoryChildren_def result_inv)
qed

subsection \<open>The committee\<close>

definition toy_root0 :: NamespaceRoot where
  "toy_root0 =
     \<lparr>rt_Version = FormatVersion, rt_Namespace = toy_ns, rt_Owner = pub (CHR ''o''),
      rt_Validators = map pub ''abcd'', rt_FaultThreshold = 1, rt_CommitteeEpoch = 1,
      rt_Timestamp = 1, rt_Nonce = toy_nonce, rt_Signature = []\<rparr>"

definition toy_root :: NamespaceRoot where
  "toy_root = toy_root0\<lparr>rt_Signature := ed_Sign toy (key (CHR ''o''))
     (NamespaceRootDomain @ CHR ''#'' # fst p_NamespaceRoot toy_root0)\<rparr>"

lemma toy_root_fields [simp]:
  "rt_Namespace toy_root = toy_ns" "rt_Owner toy_root = pub (CHR ''o'')"
  "rt_Validators toy_root = map pub ''abcd''" "rt_FaultThreshold toy_root = 1"
  "rt_CommitteeEpoch toy_root = 1" "NamespaceRoot_unsigned toy_root = toy_root0"
  by (simp_all add: toy_root_def toy_root0_def NamespaceRoot_unsigned_def)

lemma toy_root_valid [simp]: "NamespaceRoot_Validate toy 1 toy_root = Inr ()"
  by (simp add: NamespaceRoot_Validate_def Let_def) (simp add: toy_root_def toy_root0_def)

definition toy_vote0 :: "bytes \<Rightarrow> char \<Rightarrow> string \<Rightarrow> QuorumVote" where
  "toy_vote0 man c ph =
     \<lparr>qv_Version = FormatVersion, qv_Namespace = toy_ns, qv_NameID = DeriveNameID toy toy_ns ''/a'',
      qv_Generation = 0, qv_RecordHash = Sum256 toy (toy_raw 0 [] man), qv_PreviousHash = [],
      qv_CommitteeEpoch = 1, qv_View = 0, qv_Phase = ph, qv_Validator = pub c, qv_Timestamp = 1,
      qv_Nonce = toy_nonce, qv_Signature = []\<rparr>"

definition toy_vote :: "bytes \<Rightarrow> char \<Rightarrow> string \<Rightarrow> QuorumVote" where
  "toy_vote man c ph = (toy_vote0 man c ph)\<lparr>qv_Signature := ed_Sign toy (key c)
     (QuorumVoteDomain @ CHR ''#'' # fst p_QuorumVote (toy_vote0 man c ph))\<rparr>"

lemma toy_vote_fields [simp]:
  "qv_Version (toy_vote man c ph) = FormatVersion" "qv_Namespace (toy_vote man c ph) = toy_ns"
  "qv_NameID (toy_vote man c ph) = DeriveNameID toy toy_ns ''/a''"
  "qv_Generation (toy_vote man c ph) = 0" "qv_PreviousHash (toy_vote man c ph) = []"
  "qv_RecordHash (toy_vote man c ph) = Sum256 toy (toy_raw 0 [] man)"
  "qv_CommitteeEpoch (toy_vote man c ph) = 1" "qv_View (toy_vote man c ph) = 0"
  "qv_Phase (toy_vote man c ph) = ph" "qv_Validator (toy_vote man c ph) = pub c"
  "qv_Timestamp (toy_vote man c ph) = 1" "qv_Nonce (toy_vote man c ph) = toy_nonce"
  "QuorumVote_unsigned (toy_vote man c ph) = toy_vote0 man c ph"
  "qv_Signature (toy_vote man c ph) = ed_Sign toy (key c)
     (QuorumVoteDomain @ CHR ''#'' # fst p_QuorumVote (toy_vote0 man c ph))"
  by (simp_all add: toy_vote_def toy_vote0_def QuorumVote_unsigned_def)

definition toy_qc :: "bytes \<Rightarrow> char list \<Rightarrow> string \<Rightarrow> QuorumCertificate" where
  "toy_qc man cs ph =
     \<lparr>qc_Version = FormatVersion, qc_Namespace = toy_ns, qc_NameID = DeriveNameID toy toy_ns ''/a'',
      qc_Generation = 0, qc_RecordHash = Sum256 toy (toy_raw 0 [] man), qc_PreviousHash = [],
      qc_CommitteeEpoch = 1, qc_View = 0, qc_Phase = ph, qc_Votes = map (\<lambda>c. toy_vote man c ph) cs\<rparr>"

lemma toy_vote_valid:
  assumes "c \<in> set ''abcd''" "validQuorumPhase ph"
  shows "QuorumVote_Validate toy toy_root 1 (toy_vote man c ph) = Inr ()"
  using assms unfolding QuorumVote_Validate_def
  by (simp add: HasValidator_def image_iff)

lemma toy_qc_valid:
  assumes "cs = ''abc'' \<or> cs = ''bcd''" "validQuorumPhase ph"
  shows "QuorumCertificate_Validate toy toy_root 1 (toy_qc man cs ph) = Inr ()"
  using assms
  by (auto simp: QuorumCertificate_Validate_def toy_qc_def toy_vote_valid QuorumSize_def)

subsection \<open>The run\<close>

definition toy_man :: bytes where "toy_man = pub (CHR ''m'')"

definition toy_J :: "char \<Rightarrow> journal" where
  "toy_J c = \<lparr>qj_Private = key c, qj_Now = 1, qj_Head = None, qj_Proposal = None,
              qj_Rand = Inr toy_nonce\<rparr>"

abbreviation "toy_prop \<equiv> toy_raw 0 [] toy_man"
abbreviation "vk c ph \<equiv> quorumVoteKey (DeriveNameID toy toy_ns ''/a'') 0 0 ph (pub c)"
abbreviation "lk c \<equiv> quorumLockKey (DeriveNameID toy toy_ns ''/a'') 0 (pub c)"

lemma toy_newVote:
  "newVote toy (toy_J c) toy_root (toy_record 0 [] man) (Sum256 toy (toy_raw 0 [] man)) ph 0
     = Inr (toy_vote man c ph)"
  by (simp add: newVote_def toy_J_def QuorumVote_Sign_def QuorumVote_unsigned_def
        toy_vote_def toy_vote0_def)

lemma toy_proposal:
  assumes "c \<in> set ''abc''" "checkJustify toy toy_root 1 ph 0 (Sum256 toy toy_prop) justify = Inr ()"
  shows "checkProposal toy (toy_J c) toy_root toy_prop ph 0 justify = Inr (toy_record 0 [] toy_man)"
proof -
  have "validateRecordEnvelope toy 1 (toy_record 0 [] toy_man) = Inr ()"
    by (rule toy_envelope) (simp_all add: toy_man_def)
  with assms show ?thesis
    unfolding checkProposal_def
    by (auto simp: toy_J_def checkHead_def ValidateEnvelope_def HasValidator_def result_inv)
qed

lemma toy_Vote:
  assumes "c \<in> set ''abc''" "checkJustify toy toy_root 1 ph 0 (Sum256 toy toy_prop) justify = Inr ()"
    "s (vk c ph) = None" "s (lk c) = None \<or> s (lk c) = Some (Sum256 toy toy_prop)"
  shows "QuorumJournal_Vote toy map_datastore (toy_J c) toy_root toy_prop ph 0 justify s
    = (Inr (toy_vote toy_man c ph),
       s ++ map_of (rev ((if ph = PhasePrecommit then [(lk c, Sum256 toy toy_prop)] else [])
         @ [(vk c ph, CHR ''#'' # fst p_QuorumVote (toy_vote toy_man c ph))])))"
proof -
  have "ed_Public toy (qj_Private (toy_J c)) = pub c" by (simp add: toy_J_def)
  then show ?thesis
    using assms(3,4)
    by (auto simp: QuorumJournal_Vote_def toy_proposal [OF assms(1,2)] Let_def readS_def
          map_datastore_def checkLock_def toy_newVote MarshalCanonical_def bindS_def retS_def
          liftR_def)
qed

definition toy_roots :: "bytes \<Rightarrow> NamespaceRoot" where "toy_roots ns = toy_root"
definition toy_H :: "bytes set" where "toy_H = pub ` set ''abc''"
definition toy_P :: "(char \<times> string) set \<Rightarrow> (bytes \<times> QuorumVote) set" where
  "toy_P S = (\<lambda>(c, ph). (toy_prop, toy_vote toy_man c ph)) ` S"

text \<open>The votes named by \<open>S\<close> can have been returned, with the other journal keys untouched.\<close>

definition toy_reached :: "(char \<times> string) set \<Rightarrow> bool" where
  "toy_reached S \<longleftrightarrow> (\<exists>st. bft_reach toy map_datastore toy_roots toy_H st (toy_P S)
     \<and> (\<forall>c ph. (c, ph) \<notin> S \<longrightarrow> st (pub c) (vk c ph) = None)
     \<and> (\<forall>c. st (pub c) (lk c) = None \<or> st (pub c) (lk c) = Some (Sum256 toy toy_prop)))"

lemma toy_genuine:
  assumes "cs = ''abc'' \<or> cs = ''bcd''" "set ''abc'' \<times> {ph} \<subseteq> S"
  shows "genuine toy_H (toy_P S) (toy_qc toy_man cs ph)"
proof -
  have "(toy_prop, toy_vote toy_man c ph) \<in> toy_P S" if "c \<in> set ''abc''" for c
    using assms(2) that unfolding toy_P_def by (intro image_eqI [of _ _ "(c, ph)"]) auto
  note P = this
  show ?thesis
    unfolding genuine_def
  proof (intro ballI impI)
    fix v assume "v \<in> set (qc_Votes (toy_qc toy_man cs ph))" "qv_Validator v \<in> toy_H"
    then obtain c where "v = toy_vote toy_man c ph" "c \<in> set ''abc''"
      by (auto simp: toy_qc_def toy_H_def)
    with P show "\<exists>raw v'. (raw, v') \<in> toy_P S \<and> QuorumVote_unsigned v' = QuorumVote_unsigned v"
      by blast
  qed
qed

lemma toy_step:
  assumes "toy_reached S" "c \<in> set ''abc''" "(c, ph) \<notin> S"
    "checkJustify toy toy_root 1 ph 0 (Sum256 toy toy_prop) justify = Inr ()"
    "\<And>q. justify = Some q \<Longrightarrow> genuine toy_H (toy_P S) q"
  shows "toy_reached (insert (c, ph) S)"
proof -
  from assms(1) obtain st where st: "bft_reach toy map_datastore toy_roots toy_H st (toy_P S)"
    "\<And>c ph. (c, ph) \<notin> S \<Longrightarrow> st (pub c) (vk c ph) = None"
    "\<And>c. st (pub c) (lk c) = None \<or> st (pub c) (lk c) = Some (Sum256 toy toy_prop)"
    by (auto simp: toy_reached_def)
  let ?t = "st (pub c) ++ map_of (rev ((if ph = PhasePrecommit then [(lk c, Sum256 toy toy_prop)] else [])
         @ [(vk c ph, CHR ''#'' # fst p_QuorumVote (toy_vote toy_man c ph))]))"
  have "bft_reach toy map_datastore toy_roots toy_H (st(pub c := ?t))
      (toy_P S \<union> returned toy_prop (Inr (toy_vote toy_man c ph)))"
  proof (rule bft_reach.vote [OF st(1)])
    show "pub c \<in> toy_H" using assms(2) by (simp add: toy_H_def)
    show "ed_Public toy (qj_Private (toy_J c)) = pub c" by (simp add: toy_J_def)
    show "toy_roots (rt_Namespace toy_root) = toy_root" by (simp add: toy_roots_def)
    show "QuorumJournal_Vote toy map_datastore (toy_J c) toy_root toy_prop ph 0 justify (st (pub c))
      = (Inr (toy_vote toy_man c ph), ?t)"
      by (rule toy_Vote [OF assms(2,4) st(2) [OF assms(3)] st(3)])
  qed (rule assms(5))
  moreover have "toy_P S \<union> returned toy_prop (Inr (toy_vote toy_man c ph)) = toy_P (insert (c, ph) S)"
    by (auto simp: toy_P_def returned_def)
  ultimately show ?thesis
    unfolding toy_reached_def using st(2,3)
    by (intro exI [of _ "st(pub c := ?t)"]) (auto simp: quorumVoteKey_inj)
qed

lemma toy_start: "toy_reached {}"
  unfolding toy_reached_def
  by (rule exI [of _ "\<lambda>_. Map.empty"])
    (auto simp: toy_P_def map_datastore_def intro: bft_reach.start)

text \<open>One phase: the three honest validators vote, given the certificate of the phase before.\<close>

lemma toy_phase:
  assumes "toy_reached S" "S \<inter> UNIV \<times> {ph} = {}"
    "checkJustify toy toy_root 1 ph 0 (Sum256 toy toy_prop) justify = Inr ()"
    "\<And>q S'. justify = Some q \<Longrightarrow> S \<subseteq> S' \<Longrightarrow> genuine toy_H (toy_P S') q"
  shows "toy_reached (S \<union> set ''abc'' \<times> {ph})"
proof -
  have n: "(c, ph) \<notin> S" for c using assms(2) by auto
  have "toy_reached (insert (CHR ''a'', ph) S)"
    by (rule toy_step [OF assms(1) _ _ assms(3)]) (auto simp: n intro: assms(4))
  then have "toy_reached (insert (CHR ''b'', ph) (insert (CHR ''a'', ph) S))"
    by (rule toy_step [OF _ _ _ assms(3)]) (auto simp: n intro: assms(4))
  then have "toy_reached (insert (CHR ''c'', ph) (insert (CHR ''b'', ph) (insert (CHR ''a'', ph) S)))"
    by (rule toy_step [OF _ _ _ assms(3)]) (auto simp: n intro: assms(4))
  moreover have "insert (CHR ''c'', ph) (insert (CHR ''b'', ph) (insert (CHR ''a'', ph) S))
      = S \<union> set ''abc'' \<times> {ph}" by auto
  ultimately show ?thesis by simp
qed

lemma toy_justified:
  assumes "ph = PhasePrecommit \<and> w = PhasePrepare \<or> ph = PhaseCommit \<and> w = PhasePrecommit"
  shows "checkJustify toy toy_root 1 ph 0 (Sum256 toy toy_prop) (Some (toy_qc toy_man ''abc'' w))
    = Inr ()"
proof -
  have "validQuorumPhase w" using assms by (auto simp: validQuorumPhase_def)
  from toy_qc_valid [OF _ this] have "QuorumCertificate_Validate toy toy_root 1
      (toy_qc toy_man ''abc'' w) = Inr ()" by blast
  with assms show ?thesis by (auto simp: checkJustify_def Let_def) (auto simp: toy_qc_def)
qed

definition toy_phases :: "(char \<times> string) set" where
  "toy_phases = set ''abc'' \<times> {PhasePrepare, PhasePrecommit, PhaseCommit}"

lemma toy_run: "toy_reached toy_phases"
proof -
  have 1: "toy_reached ({} \<union> set ''abc'' \<times> {PhasePrepare})"
    by (rule toy_phase [OF toy_start, where justify = None]) (auto simp: checkJustify_def)
  have 2: "toy_reached (({} \<union> set ''abc'' \<times> {PhasePrepare}) \<union> set ''abc'' \<times> {PhasePrecommit})"
    by (rule toy_phase [OF 1 _ toy_justified [where w = PhasePrepare]]) (auto intro: toy_genuine)
  have "toy_reached ((({} \<union> set ''abc'' \<times> {PhasePrepare}) \<union> set ''abc'' \<times> {PhasePrecommit})
      \<union> set ''abc'' \<times> {PhaseCommit})"
    by (rule toy_phase [OF 2 _ toy_justified [where w = PhasePrecommit]]) (auto intro: toy_genuine)
  moreover have "((({} \<union> set ''abc'' \<times> {PhasePrepare}) \<union> set ''abc'' \<times> {PhasePrecommit})
      \<union> set ''abc'' \<times> {PhaseCommit}) = toy_phases"
    unfolding toy_phases_def by blast
  ultimately show ?thesis by simp
qed

subsection \<open>Witnesses\<close>

definition toy_cert :: "char list \<Rightarrow> CertifiedNameRecord" where
  "toy_cert cs = \<lparr>cn_Version = FormatVersion, cn_Root = toy_root, cn_Record = toy_prop,
                  cn_Commit = toy_qc toy_man cs PhaseCommit\<rparr>"

lemma toy_cert_valid:
  assumes "cs = ''abc'' \<or> cs = ''bcd''"
  shows "CertifiedNameRecord_Validate toy 1 (toy_cert cs) = Inr (toy_record 0 [] toy_man)"
proof -
  have "QuorumCertificate_Validate toy toy_root 1 (toy_qc toy_man cs PhaseCommit) = Inr ()"
    by (rule toy_qc_valid [OF assms]) (simp add: validQuorumPhase_def)
  moreover have "validateRecordEnvelope toy 1 (toy_record 0 [] toy_man) = Inr ()"
    by (rule toy_envelope) (simp_all add: toy_man_def)
  ultimately show ?thesis
    unfolding CertifiedNameRecord_Validate_def
    by (simp add: toy_cert_def ValidateEnvelope_def) (simp add: toy_qc_def)
qed

lemma toy_faults: "faults_within toy_root toy_H"
  by (simp add: faults_within_def toy_H_def insert_Diff_if)

theorem certified_agreement_witness:
  "(\<exists>st. bft_reach toy map_datastore toy_roots toy_H st (toy_P toy_phases))
   \<and> is_ok (CertifiedNameRecord_Validate toy 1 (toy_cert ''abc''))
   \<and> is_ok (CertifiedNameRecord_Validate toy 1 (toy_cert ''bcd''))
   \<and> cn_Record (toy_cert ''abc'') = cn_Record (toy_cert ''bcd'')"
proof -
  obtain st where st: "bft_reach toy map_datastore toy_roots toy_H st (toy_P toy_phases)"
    using toy_run by (auto simp: toy_reached_def)
  have g: "genuine toy_H (toy_P toy_phases) (cn_Commit (toy_cert cs))"
    if "cs = ''abc'' \<or> cs = ''bcd''" for cs
    using toy_genuine [OF that, of PhaseCommit toy_phases]
    by (simp add: toy_cert_def toy_phases_def)
  have inj: "inj_on (Sum256 toy)
      (fst ` toy_P toy_phases \<union> {cn_Record (toy_cert ''abc''), cn_Record (toy_cert ''bcd'')})"
    by (rule inj_on_subset [of _ "{toy_prop}"]) (auto simp: toy_P_def toy_cert_def)
  have "cn_Record (toy_cert ''abc'') = cn_Record (toy_cert ''bcd'')"
    by (rule certified_agreement [OF toy_journal.journal_contract_axioms st _ toy_faults _ _
          toy_cert_valid toy_cert_valid g g _ _ inj])
      (simp_all add: toy_roots_def, simp_all add: toy_cert_def)
  with st toy_cert_valid show ?thesis by auto
qed

theorem journal_no_equivocation_witness:
  "\<exists>st. bft_reach toy map_datastore toy_roots toy_H st (toy_P toy_phases)
     \<and> qv_RecordHash (toy_vote toy_man (CHR ''a'') PhaseCommit) = Sum256 toy toy_prop"
proof -
  obtain st where st: "bft_reach toy map_datastore toy_roots toy_H st (toy_P toy_phases)"
    using toy_run by (auto simp: toy_reached_def)
  have "(toy_prop, toy_vote toy_man (CHR ''a'') PhaseCommit) \<in> toy_P toy_phases"
    unfolding toy_P_def toy_phases_def by (intro image_eqI [of _ _ "(CHR ''a'', PhaseCommit)"]) auto
  from journal_no_equivocation [OF toy_journal.journal_contract_axioms st this this refl] st
  show ?thesis by blast
qed

theorem certificate_quorum_witness:
  "1 < card (voters (toy_qc toy_man ''abc'' PhaseCommit) \<inter> voters (toy_qc toy_man ''bcd'' PhaseCommit))"
proof -
  have q: "QuorumCertificate_Validate toy toy_root 1 (toy_qc toy_man cs PhaseCommit) = Inr ()"
    if "cs = ''abc'' \<or> cs = ''bcd''" for cs
    by (rule toy_qc_valid [OF that]) (simp add: validQuorumPhase_def)
  show ?thesis
    using certificate_quorum [OF toy_root_valid q [of "''abc''"] q [of "''bcd''"]] by simp
qed

theorem UnmarshalCanonical_injective_witness:
  "toy_prop = toy_prop \<and> UnmarshalCanonical (recC toy) toy_prop = Inr (toy_record 0 [] toy_man)"
proof -
  have d: "UnmarshalCanonical (recC toy) toy_prop = Inr (toy_record 0 [] toy_man)"
    using toy_decode [of 0 "[]" toy_man] by (simp add: DecodeNameRecord_def)
  from UnmarshalCanonical_injective [OF d d] d show ?thesis by blast
qed

lemma toy_hash: "NameRecord_Hash toy (toy_record g prev man) = Inr (Sum256 toy (toy_raw g prev man))"
  by (rule DecodeNameRecord_Hash) simp

lemma toy_successor_valid:
  "NameRecord_Validate toy 1 (toy_record 1 (Sum256 toy toy_prop) toy_man)
     (Some (toy_record 0 [] toy_man)) = Inr ()"
proof -
  have "validateRecordEnvelope toy 1 (toy_record 1 (Sum256 toy toy_prop) toy_man) = Inr ()"
    by (rule toy_envelope) (simp_all add: toy_man_def)
  then show ?thesis by (simp add: NameRecord_Validate_def toy_hash)
qed

theorem NameRecord_Validate_successor_witness:
  "NameRecord_Validate toy 1 (toy_record 1 (Sum256 toy toy_prop) toy_man)
     (Some (toy_record 0 [] toy_man)) = Inr ()
   \<and> NameRecord_Hash toy (toy_record 0 [] toy_man) = Inr (Sum256 toy toy_prop)"
  using NameRecord_Validate_successor [OF toy_successor_valid] toy_successor_valid by simp

lemma toy_name_validates:
  assumes "g = 0 \<and> prev = [] \<or> g \<noteq> 0 \<and> length prev = 32" "length man = 32"
  shows "NameValidator_Validate toy 1 (DHTNameKey (DeriveNameID toy toy_ns ''/a'')) (toy_raw g prev man)
    = Inr ()"
  using toy_envelope [OF assms] by (simp add: NameValidator_Validate_def)

theorem NameValidator_Select_sound_witness:
  "NameValidator_Select toy 1 (DHTNameKey (DeriveNameID toy toy_ns ''/a''))
     [toy_prop, toy_raw 1 (Sum256 toy toy_prop) toy_man] = Inr 1
   \<and> NameValidator_Validate toy 1 (DHTNameKey (DeriveNameID toy toy_ns ''/a''))
       (toy_raw 1 (Sum256 toy toy_prop) toy_man) = Inr ()"
proof -
  let ?vs = "[toy_prop, toy_raw 1 (Sum256 toy toy_prop) toy_man]"
  have "NameValidator_Select toy 1 (DHTNameKey (DeriveNameID toy toy_ns ''/a'')) ?vs = Inr 1"
    by (simp add: NameValidator_Select_def toy_name_validates toy_man_def)
  with NameValidator_Select_sound [of toy 1 "DHTNameKey (DeriveNameID toy toy_ns ''/a'')" ?vs]
  show ?thesis by auto
qed

subsection \<open>Leases\<close>

definition toy_lease0 :: "u64 \<Rightarrow> int \<Rightarrow> LeaseRecord" where
  "toy_lease0 fence issued =
     \<lparr>lr_Version = FormatVersion,
      lr_Scope = \<lparr>sc_NameID = DeriveNameID toy toy_ns ''/a'', sc_Namespace = [], sc_PathPrefix = []\<rparr>,
      lr_Owner = pub (CHR ''o''), lr_Holder = pub (CHR ''o''), lr_Fencing = fence,
      lr_Issued = issued, lr_Expires = issued + 1000, lr_Nonce = toy_nonce, lr_Capability = None,
      lr_Signature = []\<rparr>"

definition toy_lease :: "u64 \<Rightarrow> int \<Rightarrow> LeaseRecord" where
  "toy_lease fence issued = (toy_lease0 fence issued)\<lparr>lr_Signature := ed_Sign toy (key (CHR ''o''))
     (LeaseDomain @ CHR ''#'' # fst p_LeaseRecord (toy_lease0 fence issued))\<rparr>"

definition toy_lease_raw :: "u64 \<Rightarrow> int \<Rightarrow> bytes" where
  "toy_lease_raw fence issued = CHR ''#'' # fst p_LeaseRecord (toy_lease fence issued)"

definition toy_lease_key :: string where
  "toy_lease_key = ''/leases/name/'' @ hex_EncodeToString (DeriveNameID toy toy_ns ''/a'')"

lemma toy_lease_decode:
  "UnmarshalCanonical (codec_of p_LeaseRecord) (toy_lease_raw fence issued) = Inr (toy_lease fence issued)"
  by (simp add: toy_lease_raw_def codec_of_unmarshal pickles_LeaseRecord)

lemma toy_lease_valid:
  assumes "fence \<noteq> 0" "0 < issued" "now < issued + 1000"
  shows "LeaseRecord_Validate toy now (toy_lease fence issued) = Inr ()"
proof -
  have u: "LeaseRecord_unsigned (toy_lease fence issued) = toy_lease0 fence issued"
    by (simp add: LeaseRecord_unsigned_def toy_lease_def toy_lease0_def)
  show ?thesis
    using assms unfolding LeaseRecord_Validate_def
    by (simp add: u) (simp add: toy_lease_def toy_lease0_def exact_scope_def subtree_scope_def
          checkLeaseHolder_def result_inv)
qed

lemma toy_lease_accepted:
  assumes "fence \<noteq> 0" "0 < issued" "now < issued + 1000"
  shows "LeaseValidator_Validate toy now toy_lease_key (toy_lease_raw fence issued) = Inr ()"
proof -
  have "LeaseKey (lr_Scope (toy_lease fence issued)) = Inr toy_lease_key"
    by (simp add: LeaseKey_def toy_lease_def toy_lease0_def toy_lease_key_def)
  with toy_lease_valid [OF assms] show ?thesis
    by (simp add: LeaseValidator_Validate_def toy_lease_decode)
qed

theorem LeaseValidator_Select_sound_witness:
  "LeaseValidator_Select toy 10 toy_lease_key [toy_lease_raw 2 5, toy_lease_raw 1 7] = Inr 0
   \<and> LeaseValidator_Validate toy 10 toy_lease_key (toy_lease_raw 2 5) = Inr ()"
proof -
  let ?vs = "[toy_lease_raw 2 5, toy_lease_raw 1 7]"
  have f: "lr_Fencing (toy_lease f i) = f" for f i by (simp add: toy_lease_def toy_lease0_def)
  have "LeaseValidator_Select toy 10 toy_lease_key ?vs = Inr 0"
    by (simp add: LeaseValidator_Select_def lease_rank_def toy_lease_accepted toy_lease_decode
          lease_better_def f)
  with LeaseValidator_Select_sound [OF this] show ?thesis by simp
qed

subsection \<open>A node of the name service\<close>

definition toyC :: "(kv, unit, unit, tuple list) service" where
  "toyC = \<lparr>cf_env = toy, cf_now = 1, cf_datastore = map_datastore, cf_query = (\<lambda>_ _. Inr []),
           cf_network = None, cf_gate = None, cf_index = None, cf_hook = True,
           cf_authority = Some (native_authority (\<lambda>_. None))\<rparr>"

definition toyS :: "(kv, unit, unit, tuple list) service_state" where
  "toyS = \<lparr>sv_ds = Map.empty, sv_net = (), sv_index = (), sv_auth = [], sv_indexIncomplete = False,
           sv_indexPending = 0, sv_indexError = None, sv_repairs = [], sv_commits = []\<rparr>"

lemma toyC_fields [simp]:
  "cf_env toyC = toy" "cf_now toyC = 1" "cf_datastore toyC = map_datastore" "cf_network toyC = None"
  "cf_gate toyC = None" "cf_index toyC = None" "cf_authority toyC = Some (native_authority (\<lambda>_. None))"
  by (simp_all add: toyC_def)

lemma toyS_fields [simp]:
  "sv_ds toyS = Map.empty" "sv_auth toyS = []" "sv_repairs toyS = []" "sv_indexPending toyS = 0"
  "sv_indexIncomplete toyS = False"
  by (simp_all add: toyS_def)

lemma map_datastore_ops [simp]:
  "ds_Get map_datastore m k = (case m k of None \<Rightarrow> Inl DsNotFound | Some v \<Rightarrow> Inr v)"
  "ds_Put map_datastore k v m = (Inr (), m(k \<mapsto> v))"
  "ds_Batch map_datastore kvs m = (Inr (), m ++ map_of (rev kvs))"
  by (simp_all add: map_datastore_def)

abbreviation "toy_id \<equiv> DeriveNameID toy toy_ns ''/a''"

lemma toy_not_certified: "certificationRequired toyC toyS i = False"
  by (simp add: certificationRequired_def native_Read)

definition toyS1 :: "(kv, unit, unit, tuple list) service_state" where
  "toyS1 = toyS\<lparr>sv_ds := [namespaceOwnerKey toy_ns \<mapsto> pub (CHR ''o'')],
                sv_auth := [(authorityNamespaceName toy_ns, pub (CHR ''o''))]\<rparr>"

lemma toy_validates: "NameRecord_Validate toy 1 (toy_record 0 [] toy_man) None = Inr ()"
proof -
  have "validateRecordEnvelope toy 1 (toy_record 0 [] toy_man) = Inr ()"
    by (rule toy_envelope) (simp_all add: toy_man_def)
  then show ?thesis by (simp add: NameRecord_Validate_def)
qed

lemma toy_create: "Create_prepare toyC toy_prop toyS = (Inr (toy_record 0 [] toy_man), toyS1)"
proof -
  have "ensureNamespaceOwner toyC (toy_record 0 [] toy_man) toyS = (Inr (), toyS1)"
    by (simp add: ensureNamespaceOwner_def claimAuthority_def readS_def tryS_def onAuth_def onDs_def
        native_CAS_run bindS_def retS_def toyS1_def Let_def)
  moreover have "certificationRequired toyC toyS1 toy_id = False"
  proof -
    have "authorityCertifiedModeName toy_id \<noteq> authorityNamespaceName toy_ns"
      by (simp add: authorityNamespaceName_def authorityCertifiedModeName_def)
    then show ?thesis
      by (simp add: certificationRequired_def native_Read toyS1_def)
  qed
  moreover have "sv_ds toyS1 (currentKey toy_id) = None"
    by (simp add: toyS1_def)
  ultimately show ?thesis
    by (simp add: Create_prepare_def toy_validates Let_def bindS_def liftR_def readS_def retS_def
        validateDirectoryChildren_def checkPublication_def)
qed

definition toy_installed :: "tuple list" where
  "toy_installed = [(authorityNamespaceName toy_ns, pub (CHR ''o'')), (authorityName toy_id, toy_prop)]"

lemma toy_reach0: "name_reach toy {toyC} (native_authority (\<lambda>_. None)) exact_name (sv_auth toyS) {} (\<lambda>_. [])"
  by (rule name_reach.start) (simp add: native_Read)

lemma toy_history:
  "name_reach toy {toyC} (native_authority (\<lambda>_. None)) exact_name toy_installed
     {(toy_id, None, toy_prop)} (\<lambda>i. if i = toy_id then [toy_prop] else [])"
proof -
  have "name_reach toy {toyC} (native_authority (\<lambda>_. None)) exact_name (sv_auth toyS1)
     {(toy_id, None, toy_prop)} (\<lambda>_. [])"
    using name_reach.create [OF toy_reach0 _ _ _ refl toy_create] by simp
  moreover have "au_CompareAndSwap (native_authority (\<lambda>_. None)) (authorityName toy_id) None
      (Some toy_prop) (sv_auth toyS1) = (Inr (), toy_installed)"
    by (simp add: native_CAS_run toyS1_def toy_installed_def authority_names_differ(1) [THEN not_sym])
  ultimately show ?thesis
    using name_reach.swap [of toy "{toyC}" "native_authority (\<lambda>_. None)" exact_name "sv_auth toyS1"]
    by (fastforce simp: fun_upd_def)
qed

theorem name_history_chain_witness:
  "\<exists>r. DecodeNameRecord toy toy_prop = Inr r \<and> nr_Generation r = 0
     \<and> au_Read (native_authority (\<lambda>_. None)) toy_installed (authorityName toy_id) = Inr toy_prop"
proof -
  have "name_authority (native_authority (\<lambda>_. None)) exact_name" by unfold_locales
  from name_history_chain [OF this toy_history, of toy_id 0] show ?thesis
    by (auto simp: unat_eq_0)
qed

theorem handlers_refine_witness:
  "\<exists>r t pend' hist'. Service_Create toyC toy_prop toyS = (r, t)
     \<and> name_reach toy {toyC} (native_authority (\<lambda>_. None)) exact_name (sv_auth t) pend' hist'"
proof -
  obtain r t where "Service_Create toyC toy_prop toyS = (r, t)" by fastforce
  with handlers_refine [OF toy_reach0 _ _ _ _, of toyC toy_id r t toy_prop 0] show ?thesis by auto
qed

theorem WriteBackCertified_safe_witness:
  "\<exists>t. WriteBackCertified toyC (CHR ''#'' # fst p_CertifiedNameRecord (toy_cert ''abc'')) toyS
       = (Inr (toy_record 0 [] toy_man), t)
     \<and> ds_Get map_datastore (sv_ds t) (currentKey toy_id) = Inr toy_prop"
proof -
  let ?raw = "CHR ''#'' # fst p_CertifiedNameRecord (toy_cert ''abc'')"
  have dec: "UnmarshalCanonical (codec_of p_CertifiedNameRecord) ?raw = Inr (toy_cert ''abc'')"
    by (simp add: codec_of_unmarshal pickles_CertifiedNameRecord)
  obtain t where run: "WriteBackCertified toyC ?raw toyS = (Inr (toy_record 0 [] toy_man), t)"
    by (simp add: WriteBackCertified_def dec toy_cert_valid Let_def bindS_def liftR_def readS_def
        retS_def onDs_def checkWriteBack_def checkRoot_def MarshalCanonical_def updateSearchIndex_def)
  have "datastore_contract (cf_datastore toyC)" by (simp add: map_ds.datastore_contract_axioms)
  from WriteBackCertified_safe [OF this run] dec run show ?thesis
    by (auto simp: toy_cert_def)
qed

theorem searchIndexEntry_roundtrip_witness:
  "parseSearchIndexEntry toy (searchIndexEntry (toy_record 0 [] toy_man)) = Inr toy_id"
proof -
  have "validateRecordEnvelope toy 1 (toy_record 0 [] toy_man) = Inr ()"
    by (rule toy_envelope) (simp_all add: toy_man_def)
  from searchIndexEntry_roundtrip [OF this] show ?thesis by simp
qed

definition toyX :: "unit search_index" where
  "toyX = \<lparr>si_Insert = (\<lambda>_ x. (Inr (), x)), si_Delete = (\<lambda>_ x. (Inr (), x)),
           si_Query = (\<lambda>_ _ _. ([''no separator''], 3, 3, None))\<rparr>"

theorem searchDistributedIndex_sound_witness:
  "\<not> sr_Complete (fst (searchDistributedIndex toyC toyS toyX [] []))"
proof -
  have q: "si_Query toyX (sv_index toyS) [] [] = ([''no separator''], 3, 3, None)"
    by (simp add: toyX_def)
  have "\<not> resolves toyC toyS ''no separator'' r" for r
    by (simp add: resolves_def parseSearchIndexEntry_def LastIndexByte_def)
  with searchDistributedIndex_sound [OF q, of toyC] show ?thesis
    by (auto split: prod.splits)
qed

theorem index_repairs_counted_witness:
  "repairs_counted (repairSearchIndex toyX (''insert'', ''e'')
     (toyS\<lparr>sv_repairs := [(''insert'', ''e'')], sv_indexPending := 1, sv_indexIncomplete := True\<rparr>))"
proof -
  let ?s = "toyS\<lparr>sv_repairs := [(''insert'', ''e'')], sv_indexPending := 1, sv_indexIncomplete := True\<rparr>"
  have s: "repairs_counted ?s" by (simp add: repairs_counted_def)
  have job: "\<exists>job\<in>set (sv_repairs ?s). repairSearchIndex toyX (''insert'', ''e'') ?s = repairSearchIndex toyX job ?s"
    by simp
  show ?thesis
    by (rule index_repairs_counted [OF s disjI2 [OF disjI2 [OF job]]])
qed

theorem Rename_bypasses_authority_witness:
  "Service_Rename toyC toy_id toy_id 0 [] [] toyS = None"
proof -
  have "datastore_contract (cf_datastore toyC)" by (simp add: map_ds.datastore_contract_axioms)
  from Rename_bypasses_authority [OF this, of toy_id toy_id 0 "[]" "[]" toyS] show ?thesis
    by (simp add: toy_not_certified)
qed

end
