(* ===== verification/Names_Lease_Witness.thy ===== *)
theory Names_Lease_Witness
  imports Names_Registry Names_Witness
begin

text \<open>A lease acquired on the concrete node of \<open>Names_Witness\<close>, for the theorems on leases.\<close>

definition toyL :: "(kv, unit, unit, tuple list) service_state" where
  "toyL = toyS\<lparr>sv_ds := [currentKey toy_id \<mapsto> toy_prop]\<rparr>"

lemma toyL_fields [simp]: "sv_ds toyL = [currentKey toy_id \<mapsto> toy_prop]" "sv_auth toyL = []"
  by (simp_all add: toyL_def)

abbreviation "tlease \<equiv> toy_lease 1 5"

lemma tl_fields [simp]:
  "lr_Scope tlease = \<lparr>sc_NameID = toy_id, sc_Namespace = [], sc_PathPrefix = []\<rparr>"
  "lr_Owner tlease = pub (CHR ''o'')" "lr_Fencing tlease = 1"
  by (simp_all add: toy_lease_def toy_lease0_def)

lemma toyL_Get: "Service_Get toyC toyL toy_id = Inr (toy_record 0 [] toy_man, toy_prop)"
proof -
  have "\<exists>e. DecodeNameRecord toy [] = Inl e"
    by (simp add: DecodeNameRecord_def UnmarshalCanonical_def codec_of_def)
  then obtain e where "DecodeNameRecord toy [] = Inl e" ..
  then show ?thesis by (simp add: Service_Get_def)
qed

lemma toyL_checks [simp]:
  "authorizeLease toyC toyL tlease = Inr ()"
  "leaseNamespacePath toyC toyL tlease = Inr (toy_ns, ''/a'', False)"
  "leaseCurrent toyC toyL (lr_Scope tlease) k = Inl ErrNotFound"
  by (simp_all add: authorizeLease_def leaseNamespacePath_def leaseCurrent_def toyL_Get native_Read LeaseKey_def)

definition toy_registry :: leaseRegistry where
  "toy_registry = \<lparr>reg_Version = FormatVersion, reg_Namespace = toy_ns, reg_Revision = 0,
     reg_Entries = [lease_entry ''/a'' False tlease (toy_lease_raw 1 5)]\<rparr>"

definition toy_registry_raw :: bytes where
  "toy_registry_raw = CHR ''#'' # fst p_leaseRegistry (toy_registry\<lparr>reg_Revision := 1\<rparr>)"

lemma toy_prepare:
  "edit_prepare toyC toy_ns (Reserve 1 ''/a'' False tlease (toy_lease_raw 1 5)) toyL = Inr (None, toy_registry)"
  "nextRegistry toy toy_registry = Inr toy_registry_raw"
  by (simp_all add: edit_prepare_def currentLeaseRegistry_def native_Read toy_registry_def
      nextRegistry_def MarshalCanonical_def toy_registry_raw_def)

lemma toy_acquire: "\<exists>t. AcquireLease toyC (toy_lease_raw 1 5) toyL = (Inr tlease, t)"
proof -
  have "checkAcquire toyC (toy_lease_raw 1 5) toyL
      = Inr (tlease, leaseDSKey_or_zero (lr_Scope tlease), Inl ErrNotFound, toy_ns, ''/a'', False)"
  proof -
    have "requiredFence toyC toyL (leaseDSKey_or_zero (lr_Scope tlease)) None = 1"
      by (simp add: requiredFence_def nextFence_def leaseFenceKey_def currentKey_def)
    then show ?thesis
      by (simp add: checkAcquire_def toy_lease_decode toy_lease_valid leaseOf_def Let_def
          del: tl_fields(1))
  qed
  moreover have "authorityLeaseName sc \<noteq> authorityLeaseRegistryName ns" for sc ns
    by (simp add: authorityLeaseName_def authorityLeaseRegistryName_def)
  ultimately show ?thesis
    using toy_prepare exact_lease_names(1) [of "lr_Scope tlease"]
    by (simp add: AcquireLease_def reserveLease_def editRegistry_def readS_def writeLeaseRegistry_def
        swapAuthority_def onAuth_def onDs_def native_CAS_run installLease_def orUndo_def tryS_def
        LeaseKey_def putValue_def bindS_def liftR_def retS_def)
qed

theorem AcquireLease_fencing_witness:
  "\<exists>t. AcquireLease toyC (toy_lease_raw 1 5) toyL = (Inr tlease, t)
     \<and> nextFence toyC t (leaseDSKey_or_zero (lr_Scope tlease)) = 2"
proof -
  obtain t where run: "AcquireLease toyC (toy_lease_raw 1 5) toyL = (Inr tlease, t)"
    using toy_acquire by blast
  have "datastore_contract (cf_datastore toyC)" by (simp add: map_ds.datastore_contract_axioms)
  from AcquireLease_fencing [OF this run] run show ?thesis by auto
qed

lemma toy_registry_injective: "registry_injective toy"
  unfolding registry_injective_def by (metis codec_of_inj pickles_leaseRegistry toy_codecs(8))

lemma toy_lease_authority: "lease_authority (native_authority (\<lambda>_. None)) exact_name"
  by unfold_locales

lemma toy_registry0: "registry_reach toy {toyC} (native_authority (\<lambda>_. None)) exact_name [] {} (\<lambda>_. [])"
  by (rule registry_reach.start) (simp add: native_Read)

theorem lease_registry_exclusive_witness:
  "registry_disjoint toy toy_registry_raw
   \<and> au_Read (native_authority (\<lambda>_. None)) [(authorityLeaseRegistryName toy_ns, toy_registry_raw)]
       (authorityLeaseRegistryName toy_ns) = Inr toy_registry_raw"
proof -
  have "registry_reach toy {toyC} (native_authority (\<lambda>_. None)) exact_name []
      {(toy_ns, None, toy_registry_raw)} (\<lambda>_. [])"
    using registry_reach.prepare [OF toy_registry0 _ _ _ toyL_fields(2) toy_prepare(1) toy_prepare(2)] by simp
  moreover have "au_CompareAndSwap (native_authority (\<lambda>_. None)) (authorityLeaseRegistryName toy_ns) None
      (Some toy_registry_raw) [] = (Inr (), [(authorityLeaseRegistryName toy_ns, toy_registry_raw)])"
    by (simp add: native_CAS_run)
  ultimately have "registry_reach toy {toyC} (native_authority (\<lambda>_. None)) exact_name
      [(authorityLeaseRegistryName toy_ns, toy_registry_raw)] {(toy_ns, None, toy_registry_raw)}
      ((\<lambda>_. [])(toy_ns := [toy_registry_raw]))"
    using registry_reach.swap [of toy "{toyC}" "native_authority (\<lambda>_. None)" exact_name "[]"]
    by (fastforce simp: fun_upd_def)
  from lease_registry_exclusive [OF toy_lease_authority this toy_registry_injective, of 0 toy_ns]
  show ?thesis by simp
qed

theorem lease_handlers_refine_witness:
  "registry_reachable toy {toyC} (native_authority (\<lambda>_. None)) exact_name
     (sv_auth (snd (AcquireLease toyC (toy_lease_raw 1 5) toyL)))"
proof -
  have "registry_reachable toy {toyC} (native_authority (\<lambda>_. None)) exact_name (sv_auth toyL)"
    using toy_registry0 by (auto simp: registry_reachable_def)
  from lease_handlers_refine [OF toy_lease_authority this toy_registry_injective, of toyC
      "snd (AcquireLease toyC (toy_lease_raw 1 5) toyL)" "toy_lease_raw 1 5"] show ?thesis
    by simp
qed

end
