(* ===== verification/Names_Content.thy ===== *)
theory Names_Content
  imports Names_Record Go_Binary
begin

text \<open>
  \<open>internal/names/content.go\<close>: objects cut into content-addressed blocks, sealed for their readers
  and described by a signed manifest, and their reconstruction. The cryptographic packages are
  parameters (\<open>content_env\<close>), with what they document as the laws of \<open>content_crypto\<close>; the block
  store behind \<open>BlockSink\<close> and \<open>BlockSource\<close> is the interface \<open>block_store\<close>. \<open>crypto/rand\<close> is a
  tape of byte strings, one per call of \<open>rand.Read\<close>; a call for which the tape has no string of
  the requested length fails. An \<open>io.Reader\<close> is what it delivers, and the error it ends with in
  place of EOF, if any.
\<close>

record ChunkRef =
  ck_Index :: u64
  ck_PlaintextHash :: bytes
  ck_CiphertextKey :: bytes
  ck_Nonce :: bytes
  ck_PlaintextBytes :: u64
  ck_StoredBytes :: u64

record KeyEnvelope =
  ke_ReaderPublic :: bytes
  ke_EphemeralPublic :: bytes
  ke_Nonce :: bytes
  ke_WrappedKey :: bytes

record ObjectManifest =
  om_Version :: u64
  om_ObjectBytes :: u64
  om_PlaintextDigest :: bytes
  om_Integrity :: string
  om_Encryption :: string
  om_KeyEpoch :: u64
  om_ChunkSize :: u64
  om_Chunks :: "ChunkRef list"
  om_Envelopes :: "KeyEnvelope list"
  om_Signer :: bytes
  om_Signature :: bytes

definition InlineObjectLimit :: nat where "InlineObjectLimit = 4194304"
definition ObjectChunkSize :: nat where "ObjectChunkSize = 1048576"
definition IntegritySHA256 :: string where "IntegritySHA256 = ''sha256''"
definition IntegrityHMACV1 :: string where "IntegrityHMACV1 = ''hmac-sha256-v1''"
definition privateChunkDigestDomain :: string where
  "privateChunkDigestDomain = ''tarsus-private-chunk-digest-v1'' @ [CHR 0x00]"
definition privateObjectDigestDomain :: string where
  "privateObjectDigestDomain = ''tarsus-private-object-digest-v1'' @ [CHR 0x00]"
definition ManifestDomain :: string where
  "ManifestDomain = ''tarsus-object-manifest-v1'' @ [CHR 0x00]"

text \<open>XChaCha20-Poly1305: \<open>NewX\<close> fails on keys that are not 32 bytes long, which the callers rule
  out first. \<open>Open\<close> fails with \<open>None\<close>.\<close>

record content_env =
  ct_names :: names_env
  ct_HMAC :: "bytes \<Rightarrow> bytes \<Rightarrow> bytes"
  ct_Seal :: "bytes \<Rightarrow> bytes \<Rightarrow> bytes \<Rightarrow> bytes \<Rightarrow> bytes"
  ct_Open :: "bytes \<Rightarrow> bytes \<Rightarrow> bytes \<Rightarrow> bytes \<Rightarrow> bytes option"
  ct_X25519 :: "bytes \<Rightarrow> bytes \<Rightarrow> bytes result"
  ct_Basepoint :: bytes
  ct_HKDF :: "bytes \<Rightarrow> bytes \<Rightarrow> bytes \<Rightarrow> bytes"
  ct_manifestC :: "ObjectManifest codec"

subsection \<open>Manifests\<close>

definition ObjectManifest_unsigned :: "ObjectManifest \<Rightarrow> ObjectManifest" where
  "ObjectManifest_unsigned m = m\<lparr>om_Signature := []\<rparr>"

definition ObjectManifest_Sign :: "content_env \<Rightarrow> bytes \<Rightarrow> ObjectManifest \<Rightarrow> ObjectManifest result" where
  "ObjectManifest_Sign X privateKey m =
     fail_if (length privateKey \<noteq> 64) (ErrMsg ''invalid manifest signing key'')
     (let m1 = m\<lparr>om_Signer := ed_Public (ct_names X) privateKey\<rparr> in
      bindR (signingBytes (ct_manifestC X) ManifestDomain (ObjectManifest_unsigned m1)) (\<lambda>payload.
      Inr (m1\<lparr>om_Signature := ed_Sign (ct_names X) privateKey payload\<rparr>)))"

text \<open>The loop over the chunks, with the index it has reached; it returns the total.\<close>

fun checkManifestChunks :: "ObjectManifest \<Rightarrow> u64 \<Rightarrow> u64 \<Rightarrow> ChunkRef list \<Rightarrow> u64 result" where
  "checkManifestChunks m i acc [] = Inr acc"
| "checkManifestChunks m i acc (chunk # rest) =
     fail_if (ck_Index chunk \<noteq> i \<or> length (ck_PlaintextHash chunk) \<noteq> 32
              \<or> length (ck_CiphertextKey chunk) \<noteq> 32
              \<or> ck_PlaintextBytes chunk = 0 \<and> om_ObjectBytes m \<noteq> 0)
       (ErrMsg ''invalid manifest chunk'')
     (fail_if (om_Encryption m = ''private'' \<and> length (ck_Nonce chunk) \<noteq> 24)
       (ErrMsg ''private chunk has invalid nonce'')
     (fail_if (om_Encryption m = ''public'' \<and> length (ck_Nonce chunk) \<noteq> 0)
       (ErrMsg ''public chunk may not have a nonce'')
       (checkManifestChunks m (i + 1) (acc + ck_PlaintextBytes chunk) rest)))"

definition envelope_shape :: "KeyEnvelope \<Rightarrow> bool" where
  "envelope_shape e \<longleftrightarrow> length (ke_ReaderPublic e) = 32 \<and> length (ke_EphemeralPublic e) = 32
     \<and> length (ke_Nonce e) = 24 \<and> length (ke_WrappedKey e) = 48"

definition checkManifestSchema :: "ObjectManifest \<Rightarrow> unit result" where
  "checkManifestSchema m =
     fail_if (om_Version m \<noteq> FormatVersion \<or> length (om_PlaintextDigest m) \<noteq> 32
              \<or> length (om_Signer m) \<noteq> 32 \<or> length (om_Signature m) \<noteq> 64)
       (ErrMsg ''invalid manifest schema'')
     (fail_if (om_Encryption m \<noteq> ''private'' \<and> om_Encryption m \<noteq> ''public'')
       (ErrMsg ''invalid manifest encryption mode'')
     (let integrity = (if om_Integrity m = [] then IntegritySHA256 else om_Integrity m) in
      fail_if (integrity \<noteq> IntegritySHA256 \<and> integrity \<noteq> IntegrityHMACV1)
        (ErrMsg ''invalid manifest integrity mode'')
      (fail_if (om_Encryption m = ''public'' \<and> integrity \<noteq> IntegritySHA256)
        (ErrMsg ''public manifests must use SHA-256 integrity'')
      (fail_if (om_Chunks m = []) (ErrMsg ''manifest has no chunks'')
        (if om_ObjectBytes m \<le> of_nat InlineObjectLimit
         then fail_if (length (om_Chunks m) \<noteq> 1 \<or> om_ChunkSize m \<noteq> of_nat InlineObjectLimit)
                (ErrMsg ''small object must use one block'') (Inr ())
         else fail_if (om_ChunkSize m \<noteq> of_nat ObjectChunkSize)
                (ErrMsg ''large object must use 1 MiB chunks'') (Inr ()))))))"

definition ObjectManifest_Validate :: "content_env \<Rightarrow> ObjectManifest \<Rightarrow> unit result" where
  "ObjectManifest_Validate X m =
     bindR (checkManifestSchema m) (\<lambda>_.
     bindR (checkManifestChunks m 0 0 (om_Chunks m)) (\<lambda>total.
     fail_if (total \<noteq> om_ObjectBytes m) (ErrMsg ''manifest object size does not match chunks'')
     (fail_if (om_Encryption m = ''private'' \<and> om_Envelopes m = [])
       (ErrMsg ''private manifest requires a reader envelope'')
     (fail_if (\<not> list_all envelope_shape (om_Envelopes m)) (ErrMsg ''invalid reader envelope'')
     (bindR (signingBytes (ct_manifestC X) ManifestDomain (ObjectManifest_unsigned m)) (\<lambda>payload.
      fail_if (\<not> ed_Verify (ct_names X) (om_Signer m) payload (om_Signature m))
        (ErrMsg ''invalid manifest signature'') (Inr ())))))))"

definition DecodeObjectManifest :: "content_env \<Rightarrow> bytes \<Rightarrow> ObjectManifest result" where
  "DecodeObjectManifest X raw =
     bindR (UnmarshalCanonical (ct_manifestC X) raw) (\<lambda>manifest.
     bindR (ObjectManifest_Validate X manifest) (\<lambda>_. Inr manifest))"

subsection \<open>Digests, sealing and envelopes\<close>

text \<open>\<open>integrityHash\<close> with what is written to it: a hash is the digest of everything written.\<close>

definition integrityHash :: "content_env \<Rightarrow> string \<Rightarrow> bytes \<Rightarrow> string \<Rightarrow> bytes \<Rightarrow> bytes" where
  "integrityHash X mode key domain written =
     (if mode = IntegrityHMACV1 then ct_HMAC X key (domain @ written)
      else Sum256 (ct_names X) written)"

definition bytesToArray :: "bytes \<Rightarrow> bytes" where
  "bytesToArray value = take 32 (value @ replicate 32 (CHR 0x00))"

definition integrityDigest :: "content_env \<Rightarrow> string \<Rightarrow> bytes \<Rightarrow> string \<Rightarrow> bytes \<Rightarrow> bytes" where
  "integrityDigest X mode key domain value = bytesToArray (integrityHash X mode key domain value)"

definition sameReaderSet :: "KeyEnvelope list \<Rightarrow> bytes list \<Rightarrow> bool" where
  "sameReaderSet envelopes readers \<longleftrightarrow> length envelopes = length readers
     \<and> list_all (\<lambda>e. list_ex (\<lambda>r. ke_ReaderPublic e = r) readers) envelopes"

definition chunkAAD :: "u64 \<Rightarrow> bytes \<Rightarrow> bytes" where
  "chunkAAD epoch plainHash = BE_PutUint64 epoch @ plainHash"

definition envelopeAAD :: "bytes \<Rightarrow> bytes \<Rightarrow> u64 \<Rightarrow> bytes" where
  "envelopeAAD readerPublic ephemeralPublic epoch =
     ''tarsus-envelope-v1'' @ [CHR 0x00] @ readerPublic @ ephemeralPublic @ BE_PutUint64 epoch"

definition deriveWrapKey :: "content_env \<Rightarrow> bytes \<Rightarrow> bytes \<Rightarrow> bytes \<Rightarrow> u64 \<Rightarrow> bytes" where
  "deriveWrapKey X shared readerPublic ephemeralPublic epoch =
     ct_HKDF X shared ''tarsus-envelope-salt-v1'' (envelopeAAD readerPublic ephemeralPublic epoch)"

text \<open>The state of a build: the random tape and the block store.\<close>

record 's build =
  b_rand :: "bytes list"
  b_store :: 's

definition rand_Read :: "nat \<Rightarrow> ('s build, bytes) op" where
  "rand_Read n s =
     (case b_rand s of
        [] \<Rightarrow> (Inl (ErrMsg ''crypto/rand''), s)
      | r # rest \<Rightarrow> if length r = n then (Inr r, s\<lparr>b_rand := rest\<rparr>)
                    else (Inl (ErrMsg ''crypto/rand''), s))"

definition sealChunk ::
  "content_env \<Rightarrow> bytes \<Rightarrow> bytes \<Rightarrow> string \<Rightarrow> u64 \<Rightarrow> bytes \<Rightarrow> ('s build, bytes \<times> bytes) op" where
  "sealChunk X plain key encryption epoch plainHash =
     (if encryption = ''public'' then retS (plain, [])
      else fail_ifS (length key \<noteq> 32) (ErrMsg ''chacha20poly1305: bad key length'')
        (bindS (rand_Read 24) (\<lambda>nonce.
         retS (ct_Seal X key nonce plain (chunkAAD epoch plainHash), nonce))))"

definition WrapDataKey ::
  "content_env \<Rightarrow> bytes \<Rightarrow> bytes \<Rightarrow> u64 \<Rightarrow> ('s build, KeyEnvelope) op" where
  "WrapDataKey X dataKey readerPublic epoch =
     fail_ifS (length dataKey \<noteq> 32 \<or> length readerPublic \<noteq> 32)
       (ErrMsg ''data key and X25519 reader key must be 32 bytes'')
     (bindS (rand_Read 32) (\<lambda>ephemeralPrivate.
      bindS (liftR (ct_X25519 X ephemeralPrivate (ct_Basepoint X))) (\<lambda>ephemeralPublic.
      bindS (liftR (ct_X25519 X ephemeralPrivate readerPublic)) (\<lambda>shared.
      let wrapKey = deriveWrapKey X shared readerPublic ephemeralPublic epoch in
      fail_ifS (length wrapKey \<noteq> 32) (ErrMsg ''chacha20poly1305: bad key length'')
      (bindS (rand_Read 24) (\<lambda>nonce.
       retS \<lparr>ke_ReaderPublic = readerPublic, ke_EphemeralPublic = ephemeralPublic, ke_Nonce = nonce,
             ke_WrappedKey = ct_Seal X wrapKey nonce dataKey
                               (envelopeAAD readerPublic ephemeralPublic epoch)\<rparr>))))))"

definition OpenDataKey :: "content_env \<Rightarrow> KeyEnvelope \<Rightarrow> bytes \<Rightarrow> u64 \<Rightarrow> bytes result" where
  "OpenDataKey X envelope readerPrivate epoch =
     fail_if (length readerPrivate \<noteq> 32) (ErrMsg ''X25519 reader private key must be 32 bytes'')
     (bindR (ct_X25519 X readerPrivate (ct_Basepoint X)) (\<lambda>readerPublic.
      fail_if (readerPublic \<noteq> ke_ReaderPublic envelope)
        (ErrMsg ''envelope is for a different reader'')
      (bindR (ct_X25519 X readerPrivate (ke_EphemeralPublic envelope)) (\<lambda>shared.
       let wrapKey = deriveWrapKey X shared readerPublic (ke_EphemeralPublic envelope) epoch in
       fail_if (length wrapKey \<noteq> 32) (ErrMsg ''chacha20poly1305: bad key length'')
       (case ct_Open X wrapKey (ke_Nonce envelope) (ke_WrappedKey envelope)
               (envelopeAAD readerPublic (ke_EphemeralPublic envelope) epoch) of
          None \<Rightarrow> Inl (ErrMsg ''key envelope authentication failed'')
        | Some key \<Rightarrow> Inr key)))))"

subsection \<open>Building an object\<close>

text \<open>The interface of a content-addressed block store: \<open>BlockSink\<close> and \<open>BlockSource\<close>.\<close>

record 's blocks =
  bl_Put :: "bytes \<Rightarrow> ('s, bytes) op"
  bl_Get :: "'s \<Rightarrow> bytes \<Rightarrow> bytes result"

definition sink :: "'s blocks \<Rightarrow> bytes \<Rightarrow> ('s build, bytes) op" where
  "sink B b s = (case bl_Put B b (b_store s) of (r, t) \<Rightarrow> (r, s\<lparr>b_store := t\<rparr>))"

record BuildObjectOptions =
  bo_Encryption :: string
  bo_KeyEpoch :: u64
  bo_DataKey :: bytes
  bo_ReaderPublicKeys :: "bytes list"
  bo_Previous :: "ObjectManifest option"
  bo_Signer :: bytes

record BuiltObject =
  bt_Manifest :: ObjectManifest
  bt_ManifestKey :: bytes
  bt_DataKey :: bytes
  bt_NewBlocks :: nat
  bt_ReusedBlocks :: nat

definition reusableChunks :: "ObjectManifest option \<Rightarrow> u64 \<Rightarrow> string \<Rightarrow> bytes \<rightharpoonup> ChunkRef" where
  "reusableChunks previous epoch encryption =
     (case previous of
        None \<Rightarrow> Map.empty
      | Some p \<Rightarrow>
          if om_KeyEpoch p \<noteq> epoch \<or> om_Encryption p \<noteq> encryption then Map.empty
          else map_of (rev (map (\<lambda>c. (ck_PlaintextHash c, c)) (om_Chunks p))))"

definition integrityMode :: "string \<Rightarrow> string" where
  "integrityMode encryption = (if encryption = ''private'' then IntegrityHMACV1 else IntegritySHA256)"

text \<open>The body of the chunk loop; the flag tells a reused block.\<close>

definition buildChunk ::
  "content_env \<Rightarrow> 's blocks \<Rightarrow> string \<Rightarrow> u64 \<Rightarrow> bytes \<Rightarrow> (bytes \<rightharpoonup> ChunkRef) \<Rightarrow> u64 \<Rightarrow> bytes \<Rightarrow>
   ('s build, ChunkRef \<times> bool) op" where
  "buildChunk X B encryption epoch dataKey reuse index plain =
     (let plainHash = integrityDigest X (integrityMode encryption) dataKey privateChunkDigestDomain plain in
      case reuse plainHash of
        Some previous \<Rightarrow> retS (previous\<lparr>ck_Index := index\<rparr>, True)
      | None \<Rightarrow>
          bindS (sealChunk X plain dataKey encryption epoch plainHash) (\<lambda>(stored, nonce).
          bindS (sink B stored) (\<lambda>key.
          fail_ifS (key \<noteq> Sum256 (ct_names X) stored)
            (ErrMsg ''block sink returned incorrect content key'')
          (retS (\<lparr>ck_Index = index, ck_PlaintextHash = plainHash, ck_CiphertextKey = key,
                  ck_Nonce = nonce, ck_PlaintextBytes = of_nat (length plain),
                  ck_StoredBytes = of_nat (length stored)\<rparr>, False)))))"

text \<open>
  The loop over \<open>io.ReadFull(input, buffer)\<close>: a full buffer goes on, a partial one or the first
  empty one is the last chunk, EOF after a full one stops.
\<close>

fun buildChunks ::
  "content_env \<Rightarrow> 's blocks \<Rightarrow> string \<Rightarrow> u64 \<Rightarrow> bytes \<Rightarrow> (bytes \<rightharpoonup> ChunkRef) \<Rightarrow> nat \<Rightarrow> go_error option \<Rightarrow>
   nat \<Rightarrow> bytes \<Rightarrow> ('s build, (ChunkRef \<times> bool) list) op" where
  "buildChunks X B encryption epoch dataKey reuse chunkSize err index input =
     (if 0 < chunkSize \<and> chunkSize \<le> length input
      then bindS (buildChunk X B encryption epoch dataKey reuse (of_nat index) (take chunkSize input)) (\<lambda>c.
           bindS (buildChunks X B encryption epoch dataKey reuse chunkSize err (Suc index) (drop chunkSize input)) (\<lambda>cs.
           retS (c # cs)))
      else case err of
        Some e \<Rightarrow> failS e
      | None \<Rightarrow>
          if input = [] \<and> index > 0 then retS []
          else bindS (buildChunk X B encryption epoch dataKey reuse (of_nat index) input) (\<lambda>c.
               retS [c]))"

declare buildChunks.simps [simp del]

fun wrapKeys ::
  "content_env \<Rightarrow> bytes \<Rightarrow> u64 \<Rightarrow> bytes list \<Rightarrow> ('s build, KeyEnvelope list) op" where
  "wrapKeys X dataKey epoch [] = retS []"
| "wrapKeys X dataKey epoch (readerPublic # rest) =
     bindS (WrapDataKey X dataKey readerPublic epoch) (\<lambda>e.
     bindS (wrapKeys X dataKey epoch rest) (\<lambda>es. retS (e # es)))"

definition checkBuildOptions :: "BuildObjectOptions \<Rightarrow> string \<Rightarrow> unit result" where
  "checkBuildOptions opt encryption =
     fail_if (encryption \<noteq> ''private'' \<and> encryption \<noteq> ''public'')
       (ErrMsg ''encryption must be private or public'')
     (fail_if (encryption = ''private'' \<and> bo_ReaderPublicKeys opt = [])
       (ErrMsg ''private object requires at least one reader'')
     (case bo_Previous opt of
        Some p \<Rightarrow>
          if om_Encryption p = ''private'' \<and> encryption = ''private'' \<and> om_KeyEpoch p = bo_KeyEpoch opt
          then fail_if (bo_DataKey opt = []) (ErrMsg ''same-epoch update requires the existing data key'')
               (fail_if (\<not> sameReaderSet (om_Envelopes p) (bo_ReaderPublicKeys opt))
                 (ErrMsg ''reader membership change requires a new key epoch'') (Inr ()))
          else Inr ()
      | None \<Rightarrow> Inr ()))"

definition chooseDataKey :: "string \<Rightarrow> bytes \<Rightarrow> ('s build, bytes) op" where
  "chooseDataKey encryption given =
     bindS (if encryption = ''private'' \<and> given = [] then rand_Read 32 else retS given) (\<lambda>dataKey.
     fail_ifS (encryption = ''private'' \<and> length dataKey \<noteq> 32) (ErrMsg ''data key must be 32 bytes'')
       (retS dataKey))"

definition chunkSizeFor :: "bytes \<Rightarrow> nat" where
  "chunkSizeFor input = (if length input > InlineObjectLimit then ObjectChunkSize else InlineObjectLimit)"

definition finishManifest ::
  "content_env \<Rightarrow> 's blocks \<Rightarrow> bytes \<Rightarrow> ObjectManifest \<Rightarrow> ('s build, ObjectManifest \<times> bytes) op" where
  "finishManifest X B signer m =
     bindS (liftR (ObjectManifest_Sign X signer m)) (\<lambda>manifest.
     bindS (liftR (MarshalCanonical (ct_manifestC X) manifest)) (\<lambda>manifestRaw.
     bindS (sink B manifestRaw) (\<lambda>manifestKey.
     fail_ifS (manifestKey \<noteq> Sum256 (ct_names X) manifestRaw)
       (ErrMsg ''block sink returned incorrect manifest key'')
       (retS (manifest, manifestKey)))))"

definition BuildObject ::
  "content_env \<Rightarrow> 's blocks \<Rightarrow> bytes \<times> go_error option \<Rightarrow> BuildObjectOptions \<Rightarrow>
   ('s build, BuiltObject) op" where
  "BuildObject X B reader opt =
     (let encryption = (if bo_Encryption opt = [] then ''private'' else bo_Encryption opt);
          epoch = bo_KeyEpoch opt;
          input = fst reader;
          integrity = integrityMode encryption in
      bindS (liftR (checkBuildOptions opt encryption)) (\<lambda>_.
      bindS (chooseDataKey encryption (bo_DataKey opt)) (\<lambda>dataKey.
      fail_ifS (length (bo_Signer opt) \<noteq> 64) (ErrMsg ''manifest signer is required'')
      (bindS (case snd reader of
                Some e \<Rightarrow> if length input \<le> InlineObjectLimit then failS e else retS ()
              | None \<Rightarrow> retS ()) (\<lambda>_.
       bindS (buildChunks X B encryption epoch dataKey
                (reusableChunks (bo_Previous opt) epoch encryption) (chunkSizeFor input)
                (snd reader) 0 input) (\<lambda>chunks.
       bindS (if encryption = ''private'' then wrapKeys X dataKey epoch (bo_ReaderPublicKeys opt)
              else retS []) (\<lambda>envelopes.
       bindS (finishManifest X B (bo_Signer opt)
          \<lparr>om_Version = FormatVersion, om_ObjectBytes = of_nat (length input),
           om_PlaintextDigest = integrityHash X integrity dataKey privateObjectDigestDomain input,
           om_Integrity = integrity, om_Encryption = encryption, om_KeyEpoch = epoch,
           om_ChunkSize = of_nat (chunkSizeFor input), om_Chunks = map fst chunks,
           om_Envelopes = envelopes, om_Signer = [], om_Signature = []\<rparr>) (\<lambda>(manifest, manifestKey).
       retS \<lparr>bt_Manifest = manifest, bt_ManifestKey = manifestKey, bt_DataKey = dataKey,
             bt_NewBlocks = length (filter (\<lambda>c. \<not> snd c) chunks) + 1,
             bt_ReusedBlocks = length (filter snd chunks)\<rparr>))))))))"

subsection \<open>Reconstruction\<close>

text \<open>The writer is an operation on a state of its own; \<open>buffer_Write\<close> is \<open>bytes.Buffer\<close>.\<close>

definition openChunk ::
  "content_env \<Rightarrow> ObjectManifest \<Rightarrow> (bytes \<Rightarrow> bytes result) \<Rightarrow> bytes \<Rightarrow> ChunkRef \<Rightarrow> bytes result" where
  "openChunk X m source dataKey ref =
     (let key = bytesToArray (ck_CiphertextKey ref) in
      bindR (source key) (\<lambda>stored.
      fail_if (Sum256 (ct_names X) stored \<noteq> key) (ErrMsg ''content-key verification failed'')
      (bindR (if om_Encryption m = ''private''
              then fail_if (length dataKey \<noteq> 32) (ErrMsg ''chacha20poly1305: bad key length'')
                (case ct_Open X dataKey (ck_Nonce ref) stored
                        (chunkAAD (om_KeyEpoch m) (bytesToArray (ck_PlaintextHash ref))) of
                   None \<Rightarrow> Inl (ErrMsg ''authentication failed'')
                 | Some plain \<Rightarrow> Inr plain)
              else Inr stored) (\<lambda>plain.
       fail_if (integrityDigest X (om_Integrity m) dataKey privateChunkDigestDomain plain
                  \<noteq> bytesToArray (ck_PlaintextHash ref)
                \<or> of_nat (length plain) \<noteq> ck_PlaintextBytes ref)
         (ErrMsg ''plaintext verification failed'') (Inr plain)))))"

fun writeChunks ::
  "content_env \<Rightarrow> ObjectManifest \<Rightarrow> (bytes \<Rightarrow> bytes result) \<Rightarrow> bytes \<Rightarrow> (bytes \<Rightarrow> ('w, unit) op) \<Rightarrow>
   ChunkRef list \<Rightarrow> ('w, bytes) op" where
  "writeChunks X m source dataKey writer [] = retS []"
| "writeChunks X m source dataKey writer (ref # rest) =
     bindS (liftR (openChunk X m source dataKey ref)) (\<lambda>plain.
     bindS (writer plain) (\<lambda>_.
     bindS (writeChunks X m source dataKey writer rest) (\<lambda>written.
     retS (plain @ written))))"

definition ReconstructObject ::
  "content_env \<Rightarrow> ObjectManifest \<Rightarrow> (bytes \<Rightarrow> bytes result) \<Rightarrow> bytes \<Rightarrow> (bytes \<Rightarrow> ('w, unit) op) \<Rightarrow>
   ('w, unit) op" where
  "ReconstructObject X m source dataKey writer =
     bindS (liftR (ObjectManifest_Validate X m)) (\<lambda>_.
     fail_ifS (om_Encryption m = ''private'' \<and> length dataKey \<noteq> 32)
       (ErrMsg ''private object requires a 32-byte data key'')
     (bindS (writeChunks X m source dataKey writer (om_Chunks m)) (\<lambda>written.
      fail_ifS (of_nat (length written) \<noteq> om_ObjectBytes m
          \<or> integrityHash X (om_Integrity m) dataKey privateObjectDigestDomain written
              \<noteq> om_PlaintextDigest m)
        (ErrMsg ''reconstructed object digest or size mismatch'') (retS ()))))"

definition buffer_Write :: "bytes \<Rightarrow> (bytes, unit) op" where
  "buffer_Write p w = (Inr (), w @ p)"

end
