(* ===== verification/Names_Content_Props.thy ===== *)
theory Names_Content_Props
  imports Names_Content Names_Instance
begin

text \<open>
  What building and reconstructing objects guarantees: a built object is reconstructed byte for
  byte from the store it was built into, every reader recovers the data key from its envelope,
  and whatever a reconstruction reports as complete has the digests and sizes of the signed
  manifest.
\<close>

subsection \<open>What the packages promise\<close>

locale content_crypto =
  fixes X :: content_env
  assumes names_crypto: "crypto_contract (ct_names X)"
    and HMAC_length: "length (ct_HMAC X key m) = 32"
    and Open_Seal: "length key = 32 \<Longrightarrow> length nonce = 24 \<Longrightarrow>
      ct_Open X key nonce (ct_Seal X key nonce p aad) aad = Some p"
    and Seal_length: "length (ct_Seal X key nonce p aad) = length p + 16"
    and X25519_length: "ct_X25519 X a b = Inr c \<Longrightarrow> length c = 32"
    and X25519_shared: "ct_X25519 X a (ct_Basepoint X) = Inr pa \<Longrightarrow> ct_X25519 X b (ct_Basepoint X) = Inr pb \<Longrightarrow>
      ct_X25519 X a pb = Inr shared \<Longrightarrow> ct_X25519 X b pa = Inr shared"
    and HKDF_length: "length (ct_HKDF X secret salt info) = 32"
begin

lemma Sum256_len [simp]: "length (Sum256 (ct_names X) b) = 32"
  by (rule crypto_contract.Sum256_length [OF names_crypto])

lemma integrityHash_length [simp]: "length (integrityHash X mode key domain v) = 32"
  using HMAC_length by (simp add: integrityHash_def)

lemma integrityDigest_length [simp]: "length (integrityDigest X mode key domain v) = 32"
  by (simp add: integrityDigest_def bytesToArray_def)

end

locale block_store =
  fixes B :: "'s blocks"
  assumes Put_Get: "bl_Put B b s = (Inr k, t) \<Longrightarrow> bl_Get B t k = Inr b"
    and Put_keeps: "bl_Put B b s = (r, t) \<Longrightarrow> bl_Get B s k = Inr v \<Longrightarrow> bl_Get B t k = Inr v"

lemma upt_shift: "[i..<i + Suc k] = i # [Suc i..<Suc i + k]"
  by (simp add: upt_conv_Cons del: upt_Suc)

subsection \<open>Data-key envelopes\<close>

lemma rand_Read_ok:
  "rand_Read n s = (Inr r, t) \<Longrightarrow> length r = n \<and> b_store t = b_store s"
  by (auto simp: rand_Read_def split: list.splits if_splits)

lemma rand_Read_store: "rand_Read n s = (r, t) \<Longrightarrow> b_store t = b_store s"
  by (auto simp: rand_Read_def split: list.splits if_splits)

lemma bytesToArray_id [simp]: "length b = 32 \<Longrightarrow> bytesToArray b = b"
  by (simp add: bytesToArray_def)

lemma WrapDataKey_ok:
  assumes "WrapDataKey X dataKey readerPublic epoch s = (Inr e, t)"
  obtains a pa shared nonce where
    "ct_X25519 X a (ct_Basepoint X) = Inr pa" "ct_X25519 X a readerPublic = Inr shared"
    "length dataKey = 32" "length readerPublic = 32" "length nonce = 24"
    "length (deriveWrapKey X shared readerPublic pa epoch) = 32"
    "e = \<lparr>ke_ReaderPublic = readerPublic, ke_EphemeralPublic = pa, ke_Nonce = nonce,
      ke_WrappedKey = ct_Seal X (deriveWrapKey X shared readerPublic pa epoch) nonce dataKey
        (envelopeAAD readerPublic pa epoch)\<rparr>" "b_store t = b_store s"
  using assms unfolding WrapDataKey_def
  by (auto simp: op_inv Let_def dest!: rand_Read_ok)

context content_crypto
begin

lemma Wrap_Open:
  assumes "WrapDataKey X dataKey readerPublic epoch s = (Inr e, t)"
    and "ct_X25519 X readerPrivate (ct_Basepoint X) = Inr readerPublic" "length readerPrivate = 32"
  shows "OpenDataKey X e readerPrivate epoch = Inr dataKey"
proof -
  from assms(1) obtain a pa shared nonce where w: "ct_X25519 X a (ct_Basepoint X) = Inr pa"
    "ct_X25519 X a readerPublic = Inr shared" "length nonce = 24"
    "length (deriveWrapKey X shared readerPublic pa epoch) = 32"
    "e = \<lparr>ke_ReaderPublic = readerPublic, ke_EphemeralPublic = pa, ke_Nonce = nonce,
      ke_WrappedKey = ct_Seal X (deriveWrapKey X shared readerPublic pa epoch) nonce dataKey
        (envelopeAAD readerPublic pa epoch)\<rparr>"
    by (rule WrapDataKey_ok)
  have "ct_X25519 X readerPrivate pa = Inr shared"
    by (rule X25519_shared [OF w(1) assms(2) w(2)])
  with w assms(2,3) show ?thesis by (simp add: OpenDataKey_def Open_Seal)
qed

lemma wrapKeys_ok:
  assumes "wrapKeys X dataKey epoch readers s = (Inr es, t)"
  shows "list_all envelope_shape es \<and> b_store t = b_store s
    \<and> list_all2 (\<lambda>r e. \<forall>readerPrivate. ct_X25519 X readerPrivate (ct_Basepoint X) = Inr r \<longrightarrow>
         length readerPrivate = 32 \<longrightarrow> OpenDataKey X e readerPrivate epoch = Inr dataKey) readers es"
  using assms
proof (induction readers arbitrary: es s t)
  case (Cons r readers)
  then obtain e u es' where w: "WrapDataKey X dataKey r epoch s = (Inr e, u)"
    and rest: "wrapKeys X dataKey epoch readers u = (Inr es', t)" and es: "es = e # es'"
    by (auto simp: op_inv)
  have "envelope_shape e \<and> b_store u = b_store s"
    by (rule WrapDataKey_ok [OF w]) (auto simp: envelope_shape_def Seal_length X25519_length)
  with Cons.IH [OF rest] Wrap_Open [OF w] show ?case by (simp add: es)
qed (simp add: op_inv)

end

subsection \<open>Chunks\<close>

text \<open>The pieces the chunk loop cuts its input into.\<close>

fun cuts :: "nat \<Rightarrow> bool \<Rightarrow> bytes \<Rightarrow> bytes list" where
  "cuts n started xs =
     (if 0 < n \<and> n \<le> length xs then take n xs # cuts n True (drop n xs)
      else if xs = [] \<and> started then [] else [xs])"

declare cuts.simps [simp del]

lemma concat_cuts [simp]: "concat (cuts n started xs) = xs"
  by (induction n started xs rule: cuts.induct) (subst cuts.simps, simp)

lemma cuts_cons: "0 < n \<Longrightarrow> n \<le> length xs \<Longrightarrow> cuts n started xs = take n xs # cuts n True (drop n xs)"
  by (subst cuts.simps) simp

lemma cuts_end: "\<not> (0 < n \<and> n \<le> length xs) \<Longrightarrow> cuts n started xs = (if xs = [] \<and> started then [] else [xs])"
  by (subst cuts.simps) auto

lemma cuts_Nil [simp]: "cuts n True [] = []"
  by (subst cuts.simps) auto

lemma cuts_member:
  "p \<in> set (cuts n started xs) \<Longrightarrow> length p \<le> length xs \<and> (p = [] \<longrightarrow> xs = [])"
proof (induction n started xs rule: cuts.induct)
  case (1 n started xs)
  show ?case
  proof (cases "0 < n \<and> n \<le> length xs")
    case True
    with "1.prems" have "p = take n xs \<or> p \<in> set (cuts n True (drop n xs))" by (simp add: cuts_cons)
    then show ?thesis
    proof
      assume p: "p \<in> set (cuts n True (drop n xs))"
      then have "drop n xs \<noteq> []" by (auto simp del: drop_eq_Nil)
      with "1.IH" [OF True p] show ?thesis by auto
    qed (use True in auto)
  next
    case False
    with "1.prems" show ?thesis by (auto simp: cuts_end split: if_splits)
  qed
qed

lemma cuts_single: "length xs \<le> n \<Longrightarrow> length (cuts n False xs) = 1"
  by (subst cuts.simps) (auto simp: cuts.simps)

text \<open>A reference that describes \<open>plain\<close> under the encryption mode, apart from its index.\<close>

definition chunk_ok :: "string \<Rightarrow> ChunkRef \<Rightarrow> bytes \<Rightarrow> bool" where
  "chunk_ok encryption ref plain \<longleftrightarrow> length (ck_PlaintextHash ref) = 32 \<and> length (ck_CiphertextKey ref) = 32
     \<and> ck_PlaintextBytes ref = of_nat (length plain)
     \<and> length (ck_Nonce ref) = (if encryption = ''private'' then 24 else 0)"

definition extends :: "'s blocks \<Rightarrow> 's build \<Rightarrow> 's build \<Rightarrow> bool" where
  "extends B s t \<longleftrightarrow> (\<forall>k v. bl_Get B (b_store s) k = Inr v \<longrightarrow> bl_Get B (b_store t) k = Inr v)"

lemma extends_refl [simp]: "extends B s s"
  by (simp add: extends_def)

lemma extends_trans: "extends B s t \<Longrightarrow> extends B t u \<Longrightarrow> extends B s u"
  by (simp add: extends_def)

lemma extends_same: "b_store t = b_store s \<Longrightarrow> extends B s t"
  by (simp add: extends_def)

lemma openChunk_mono:
  assumes "openChunk X m (bl_Get B (b_store s)) k ref = Inr p" "extends B s t"
  shows "openChunk X m (bl_Get B (b_store t)) k ref = Inr p"
  using assms by (auto simp: openChunk_def Let_def result_inv extends_def)

lemma openChunk_index [simp]: "openChunk X m source k (ref\<lparr>ck_Index := i\<rparr>) = openChunk X m source k ref"
  by (simp add: openChunk_def Let_def cong: if_cong)

lemma openChunk_sign [simp]:
  "openChunk X (m\<lparr>om_Signer := a, om_Signature := b\<rparr>) source k ref = openChunk X m source k ref"
  by (simp add: openChunk_def cong: if_cong)

lemma chunk_ok_index [simp]: "chunk_ok encryption (ref\<lparr>ck_Index := i\<rparr>) p = chunk_ok encryption ref p"
  by (simp add: chunk_ok_def)

lemma sealChunk_store: "sealChunk X p k enc e h s = (r, t) \<Longrightarrow> b_store t = b_store s"
  unfolding sealChunk_def fail_ifS_def
  by (auto simp: op_inv bindS_Inl split: if_splits elim!: bindS_E dest: rand_Read_store)

lemma sink_ok:
  assumes "block_store B" "sink B b s = (Inr k, t)"
  shows "bl_Get B (b_store t) k = Inr b" "extends B s t"
  using assms block_store.Put_Get [OF assms(1)] block_store.Put_keeps [OF assms(1)]
  by (fastforce simp: sink_def extends_def split: prod.splits)+

text \<open>What the reuse of the blocks of the previous version has to give, and does (\<open>reuse_previous\<close>): the
  reference it finds for a piece opens to that piece in the store the build starts from.\<close>

definition reuse_ok ::
  "content_env \<Rightarrow> 's blocks \<Rightarrow> 's build \<Rightarrow> ObjectManifest \<Rightarrow> bytes \<Rightarrow> (bytes \<rightharpoonup> ChunkRef) \<Rightarrow> bytes \<Rightarrow> bool" where
  "reuse_ok X B s m dataKey reuse plain \<longleftrightarrow>
     (\<forall>previous. reuse (integrityDigest X (integrityMode (om_Encryption m)) dataKey
                        privateChunkDigestDomain plain) = Some previous \<longrightarrow>
        chunk_ok (om_Encryption m) previous plain
        \<and> openChunk X m (bl_Get B (b_store s)) dataKey previous = Inr plain)"

lemma reuse_ok_mono: "reuse_ok X B s m k reuse p \<Longrightarrow> extends B s t \<Longrightarrow> reuse_ok X B t m k reuse p"
  by (auto simp: reuse_ok_def intro: openChunk_mono)

text \<open>The modes a build uses.\<close>

definition build_mode :: "ObjectManifest \<Rightarrow> bytes \<Rightarrow> bool" where
  "build_mode m dataKey \<longleftrightarrow> (om_Encryption m = ''public'' \<or> om_Encryption m = ''private'' \<and> length dataKey = 32)
     \<and> om_Integrity m = integrityMode (om_Encryption m)"

context content_crypto
begin

lemma buildChunk_ok:
  assumes B: "block_store B" and mode: "build_mode m dataKey"
    and run: "buildChunk X B (om_Encryption m) (om_KeyEpoch m) dataKey reuse index plain s = (Inr (ref, reused), t)"
    and reuse: "reuse_ok X B s m dataKey reuse plain"
  shows "extends B s t" "ck_Index ref = index" "chunk_ok (om_Encryption m) ref plain"
    "openChunk X m (bl_Get B (b_store t)) dataKey ref = Inr plain"
proof -
  define h where "h = integrityDigest X (integrityMode (om_Encryption m)) dataKey privateChunkDigestDomain plain"
  have lh [simp]: "length h = 32" by (simp add: h_def)
  have "extends B s t \<and> ck_Index ref = index \<and> chunk_ok (om_Encryption m) ref plain
    \<and> openChunk X m (bl_Get B (b_store t)) dataKey ref = Inr plain"
  proof (cases "reuse h")
    case (Some previous)
    with run have [simp]: "ref = previous\<lparr>ck_Index := index\<rparr>" "t = s"
      by (simp_all add: buildChunk_def Let_def h_def retS_def)
    show ?thesis using reuse Some by (simp add: reuse_ok_def h_def)
  next
    case None
    with run obtain stored nonce u k where
      seal: "sealChunk X plain dataKey (om_Encryption m) (om_KeyEpoch m) h s = (Inr (stored, nonce), u)"
      and put: "sink B stored u = (Inr k, t)" and k: "k = Sum256 (ct_names X) stored"
      and ref: "ref = \<lparr>ck_Index = index, ck_PlaintextHash = h, ck_CiphertextKey = k, ck_Nonce = nonce,
        ck_PlaintextBytes = of_nat (length plain), ck_StoredBytes = of_nat (length stored)\<rparr>"
      by (auto simp: buildChunk_def Let_def h_def [symmetric] op_inv)
    have lk [simp]: "length k = 32" by (simp add: k)
    have src: "bl_Get B (b_store t) k = Inr stored" "extends B u t" using sink_ok [OF B put] .
    then have "extends B s t" using extends_same [OF sealChunk_store [OF seal]] extends_trans by blast
    moreover from seal mode have "(if om_Encryption m = ''private'' then
        stored = ct_Seal X dataKey nonce plain (chunkAAD (om_KeyEpoch m) h) \<and> length nonce = 24
        else stored = plain \<and> nonce = [])"
      by (auto simp: sealChunk_def op_inv build_mode_def dest: rand_Read_ok)
    moreover have "integrityDigest X (om_Integrity m) dataKey privateChunkDigestDomain plain = h"
      using mode by (simp add: h_def build_mode_def)
    ultimately show ?thesis
      using src mode k
      by (auto simp: ref chunk_ok_def openChunk_def Let_def Open_Seal build_mode_def split: if_splits)
  qed
  then show "extends B s t" "ck_Index ref = index" "chunk_ok (om_Encryption m) ref plain"
    "openChunk X m (bl_Get B (b_store t)) dataKey ref = Inr plain" by simp_all
qed

lemma buildChunks_ok:
  assumes B: "block_store B" and mode: "build_mode m dataKey"
    and "buildChunks X B (om_Encryption m) (om_KeyEpoch m) dataKey reuse n err i input s = (Inr cs, t)"
    and "\<forall>p\<in>set (cuts n (0 < i) input). reuse_ok X B s m dataKey reuse p"
  shows "extends B s t
    \<and> list_all2 (\<lambda>c p. chunk_ok (om_Encryption m) (fst c) p
         \<and> openChunk X m (bl_Get B (b_store t)) dataKey (fst c) = Inr p) cs (cuts n (0 < i) input)
    \<and> map (ck_Index \<circ> fst) cs = map of_nat [i..<i + length cs]"
  using assms(3,4)
proof (induction input arbitrary: i s cs rule: measure_induct_rule [of length])
  case (less input)
  note eq = buildChunks.simps [of X B "om_Encryption m" "om_KeyEpoch m" dataKey reuse n err i input]
  show ?case
  proof (cases "0 < n \<and> n \<le> length input")
    case True
    from True less.prems(1) obtain ref reused u cs' where
      c: "buildChunk X B (om_Encryption m) (om_KeyEpoch m) dataKey reuse (of_nat i) (take n input) s = (Inr (ref, reused), u)"
      and r: "buildChunks X B (om_Encryption m) (om_KeyEpoch m) dataKey reuse n err (Suc i) (drop n input) u = (Inr cs', t)"
      and cs: "cs = (ref, reused) # cs'"
      unfolding eq by (auto simp: op_inv)
    have cut: "cuts n (0 < i) input = take n input # cuts n True (drop n input)"
      using True by (simp add: cuts_cons)
    note head = buildChunk_ok [OF B mode c]
    have ext: "extends B s u" using head(1) less.prems(2) cut by simp
    have "\<forall>p\<in>set (cuts n (0 < Suc i) (drop n input)). reuse_ok X B u m dataKey reuse p"
      using less.prems(2) cut ext by (auto intro: reuse_ok_mono)
    moreover have "length (drop n input) < length input" using True by auto
    ultimately have IH0: "extends B u t
      \<and> list_all2 (\<lambda>c p. chunk_ok (om_Encryption m) (fst c) p
         \<and> openChunk X m (bl_Get B (b_store t)) dataKey (fst c) = Inr p) cs' (cuts n (0 < Suc i) (drop n input))
      \<and> map (ck_Index \<circ> fst) cs' = map of_nat [Suc i..<Suc i + length cs']"
      using less.IH [OF _ r] by blast
    then have IH: "extends B u t" "map (ck_Index \<circ> fst) cs' = map of_nat [Suc i..<Suc i + length cs']"
      "list_all2 (\<lambda>c p. chunk_ok (om_Encryption m) (fst c) p
         \<and> openChunk X m (bl_Get B (b_store t)) dataKey (fst c) = Inr p) cs' (cuts n True (drop n input))"
      by (auto simp del: upt_Suc)
    have "[i..<i + length cs] = i # [Suc i..<Suc i + length cs']" using upt_shift by (simp add: cs del: upt_Suc)
    with IH head less.prems(2) ext show ?thesis
      by (auto simp: cut cs comp_def intro: extends_trans openChunk_mono simp del: upt_Suc)
  next
    case False
    show ?thesis
    proof (cases "input = [] \<and> 0 < i")
      case True
      with False less.prems(1) show ?thesis
        unfolding eq by (auto simp: op_inv cuts_end failS_def split: option.splits)
    next
      case no: False
      from False no less.prems(1) obtain ref reused where
        c: "buildChunk X B (om_Encryption m) (om_KeyEpoch m) dataKey reuse (of_nat i) input s = (Inr (ref, reused), t)"
        and cs: "cs = [(ref, reused)]"
        unfolding eq by (auto simp: op_inv failS_def split: option.splits if_splits)
      have cut: "cuts n (0 < i) input = [input]" using False no by (auto simp: cuts_end)
      with buildChunk_ok [OF B mode c] less.prems(2) show ?thesis by (simp add: cs)
    qed
  qed
qed

end

subsection \<open>The manifest of a built object validates\<close>

lemma checkManifestChunks_ok:
  assumes "list_all2 (\<lambda>c p. chunk_ok (om_Encryption m) c p) cs ps"
    and "map ck_Index cs = map of_nat [i..<i + length cs]"
    and "om_Encryption m = ''public'' \<or> om_Encryption m = ''private''"
    and "\<forall>p\<in>set ps. length p < 2 ^ 64 \<and> (p = [] \<longrightarrow> om_ObjectBytes m = 0)"
  shows "checkManifestChunks m (of_nat i) acc cs = Inr (acc + of_nat (length (concat ps)))"
  using assms(1,2,4)
proof (induction cs ps arbitrary: i acc rule: list_all2_induct)
  case (Cons c cs p ps)
  have "[i..<i + length (c # cs)] = i # [Suc i..<Suc i + length cs]"
    using upt_shift by (simp del: upt_Suc)
  with Cons.prems(1) have idx: "ck_Index c = of_nat i"
    "map ck_Index cs = map of_nat [Suc i..<Suc i + length cs]" by (simp_all del: upt_Suc)
  have "ck_PlaintextBytes c = 0 \<Longrightarrow> om_ObjectBytes m = 0"
  proof -
    assume "ck_PlaintextBytes c = 0"
    with Cons.hyps have "(of_nat (length p) :: u64) = 0" by (simp add: chunk_ok_def)
    moreover have "length p < 2 ^ 64" using Cons.prems(2) by simp
    ultimately have "p = []" using unat_of_nat_lt(2) [of "length p"] by simp
    with Cons.prems(2) show "om_ObjectBytes m = 0" by simp
  qed
  with Cons.IH [OF idx(2)] Cons.prems(2) Cons.hyps assms(3) idx(1) show ?case
    by (auto simp: chunk_ok_def fail_if_def add.commute add.left_commute)
qed simp

lemma buffer_Write_inv [op_inv]: "buffer_Write p w = (r, t) \<longleftrightarrow> r = Inr () \<and> t = w @ p"
  by (auto simp: buffer_Write_def)

lemma writeChunks_ok:
  assumes "list_all2 (\<lambda>c p. openChunk X m source k c = Inr p) cs ps"
  shows "writeChunks X m source k buffer_Write cs w = (Inr (concat ps), w @ concat ps)"
  using assms
proof (induction cs ps arbitrary: w rule: list_all2_induct)
  case (Cons c cs p ps)
  have "buffer_Write p w = (Inr (), w @ p)" by (simp add: buffer_Write_def)
  with Cons show ?case by (simp add: bindS_def retS_def liftR_def)
qed (simp add: retS_def)

text \<open>Everything a build fixes before it signs.\<close>

definition draft_of ::
  "content_env \<Rightarrow> BuildObjectOptions \<Rightarrow> bytes \<Rightarrow> bytes \<Rightarrow> ChunkRef list \<Rightarrow> KeyEnvelope list \<Rightarrow> ObjectManifest" where
  "draft_of X opt dataKey input chunks envelopes =
     (let encryption = (if bo_Encryption opt = [] then ''private'' else bo_Encryption opt) in
      \<lparr>om_Version = FormatVersion, om_ObjectBytes = of_nat (length input),
       om_PlaintextDigest = integrityHash X (integrityMode encryption) dataKey privateObjectDigestDomain input,
       om_Integrity = integrityMode encryption, om_Encryption = encryption, om_KeyEpoch = bo_KeyEpoch opt,
       om_ChunkSize = of_nat (chunkSizeFor input), om_Chunks = chunks,
       om_Envelopes = envelopes, om_Signer = [], om_Signature = []\<rparr>)"

lemma BuildObject_ok:
  assumes "BuildObject X B (input, err) opt s = (Inr built, t)"
  obtains chunks envelopes manifestKey u v w draft where
    "draft = draft_of X opt (bt_DataKey built) input (map fst chunks) envelopes"
    "b_store u = b_store s" "build_mode draft (bt_DataKey built)"
    "buildChunks X B (om_Encryption draft) (om_KeyEpoch draft) (bt_DataKey built)
       (reusableChunks (bo_Previous opt) (om_KeyEpoch draft) (om_Encryption draft)) (chunkSizeFor input)
       err 0 input u = (Inr chunks, v)"
    "if om_Encryption draft = ''private'' then bo_ReaderPublicKeys opt \<noteq> []
       \<and> wrapKeys X (bt_DataKey built) (bo_KeyEpoch opt) (bo_ReaderPublicKeys opt) v = (Inr envelopes, w)
     else envelopes = [] \<and> w = v"
    "finishManifest X B (bo_Signer opt) draft w = (Inr (bt_Manifest built, manifestKey), t)"
proof -
  define encryption where "encryption = (if bo_Encryption opt = [] then ''private'' else bo_Encryption opt)"
  have "\<exists>dataKey chunks envelopes manifest manifestKey u u' v w.
    checkBuildOptions opt encryption = Inr ()
    \<and> chooseDataKey encryption (bo_DataKey opt) s = (Inr dataKey, u)
    \<and> (case err of Some e \<Rightarrow> if length input \<le> InlineObjectLimit then failS e else retS ()
       | None \<Rightarrow> retS ()) u = (Inr (), u')
    \<and> buildChunks X B encryption (bo_KeyEpoch opt) dataKey
       (reusableChunks (bo_Previous opt) (bo_KeyEpoch opt) encryption) (chunkSizeFor input)
       err 0 input u' = (Inr chunks, v)
    \<and> (if encryption = ''private'' then wrapKeys X dataKey (bo_KeyEpoch opt) (bo_ReaderPublicKeys opt)
       else retS []) v = (Inr envelopes, w)
    \<and> finishManifest X B (bo_Signer opt) (draft_of X opt dataKey input (map fst chunks) envelopes) w
       = (Inr (manifest, manifestKey), t)
    \<and> bt_Manifest built = manifest \<and> bt_DataKey built = dataKey"
    using assms
    unfolding BuildObject_def Let_def fst_conv snd_conv draft_of_def encryption_def [symmetric]
    by (fastforce simp: op_inv)
  then obtain dataKey chunks envelopes manifest manifestKey u u' v w where
    ck: "checkBuildOptions opt encryption = Inr ()"
    and key: "chooseDataKey encryption (bo_DataKey opt) s = (Inr dataKey, u)"
    and u': "(case err of Some e \<Rightarrow> if length input \<le> InlineObjectLimit then failS e else retS ()
       | None \<Rightarrow> retS ()) u = (Inr (), u')"
    and chunks: "buildChunks X B encryption (bo_KeyEpoch opt) dataKey
       (reusableChunks (bo_Previous opt) (bo_KeyEpoch opt) encryption) (chunkSizeFor input)
       err 0 input u' = (Inr chunks, v)"
    and env: "(if encryption = ''private'' then wrapKeys X dataKey (bo_KeyEpoch opt) (bo_ReaderPublicKeys opt)
       else retS []) v = (Inr envelopes, w)"
    and fin: "finishManifest X B (bo_Signer opt) (draft_of X opt dataKey input (map fst chunks) envelopes) w
       = (Inr (manifest, manifestKey), t)"
    and built: "bt_Manifest built = manifest" "bt_DataKey built = dataKey"
    by blast
  have [simp]: "u' = u" using u' by (auto simp: op_inv split: option.splits if_splits)
  let ?draft = "draft_of X opt dataKey input (map fst chunks) envelopes"
  have enc: "om_Encryption ?draft = encryption" "om_KeyEpoch ?draft = bo_KeyEpoch opt"
    "om_Integrity ?draft = integrityMode encryption"
    by (simp_all add: draft_of_def encryption_def Let_def)
  have "b_store u = b_store s" "encryption = ''private'' \<longrightarrow> length dataKey = 32"
    using key by (auto simp: chooseDataKey_def op_inv dest: rand_Read_ok split: if_splits)
  moreover have "encryption = ''private'' \<or> encryption = ''public''"
    "encryption = ''private'' \<longrightarrow> bo_ReaderPublicKeys opt \<noteq> []"
    using ck by (auto simp: checkBuildOptions_def result_inv)
  moreover have "if encryption = ''private''
     then wrapKeys X dataKey (bo_KeyEpoch opt) (bo_ReaderPublicKeys opt) v = (Inr envelopes, w)
     else envelopes = [] \<and> w = v"
    using env by (auto simp: op_inv)
  ultimately show thesis
    using that [of ?draft chunks envelopes u v w manifestKey] chunks fin built enc
    by (auto simp: build_mode_def)
qed

lemma finishManifest_ok:
  assumes "finishManifest X B signer draft w = (Inr (m, k), t)" "crypto_contract (ct_names X)"
    and "block_store B"
  obtains signerKey sig payload where
    "m = draft\<lparr>om_Signer := signerKey, om_Signature := sig\<rparr>" "length signerKey = 32" "length sig = 64"
    "signingBytes (ct_manifestC X) ManifestDomain (ObjectManifest_unsigned m) = Inr payload"
    "ed_Verify (ct_names X) signerKey payload sig" "extends B w t"
proof -
  from assms(1) obtain raw u where sign: "ObjectManifest_Sign X signer draft = Inr m"
    and put: "sink B raw w = (Inr k, t)"
    by (auto simp: finishManifest_def op_inv)
  let ?pk = "ed_Public (ct_names X) signer"
  from sign obtain payload where len: "length signer = 64"
    and pay: "signingBytes (ct_manifestC X) ManifestDomain
      (ObjectManifest_unsigned (draft\<lparr>om_Signer := ?pk\<rparr>)) = Inr payload"
    and m: "m = draft\<lparr>om_Signer := ?pk, om_Signature := ed_Sign (ct_names X) signer payload\<rparr>"
    by (auto simp: ObjectManifest_Sign_def result_inv Let_def)
  have "ObjectManifest_unsigned m = ObjectManifest_unsigned (draft\<lparr>om_Signer := ?pk\<rparr>)"
    by (simp add: m ObjectManifest_unsigned_def)
  with pay len m sink_ok(2) [OF assms(3) put] show thesis
    by (intro that [of "ed_Sign (ct_names X) signer payload" ?pk payload])
      (simp_all add: crypto_contract.Public_length [OF assms(2)]
        crypto_contract.Sign_length [OF assms(2)] crypto_contract.Verify_Sign [OF assms(2)])
qed

lemma size_word: "n < 2 ^ 64 \<Longrightarrow> unat (of_nat n :: u64) = n"
  using unat_of_nat_lt(2) by simp

lemma draft_schema:
  fixes input :: bytes
  assumes "content_crypto X" "length input < 2 ^ 64" "build_mode draft dataKey"
    and draft: "draft = draft_of X opt dataKey input chunks envelopes"
    and n: "length chunks = length (cuts (chunkSizeFor input) False input)"
    and "length signerKey = 32" "length sig = 64"
  shows "checkManifestSchema (draft\<lparr>om_Signer := signerKey, om_Signature := sig\<rparr>) = Inr ()"
proof -
  have small: "(of_nat (length input) :: u64) \<le> of_nat InlineObjectLimit \<longleftrightarrow> length input \<le> InlineObjectLimit"
    using assms(2) by (simp add: word_le_nat_alt size_word InlineObjectLimit_def)
  have one: "length chunks = 1" if "length input \<le> InlineObjectLimit"
    using that cuts_single by (simp add: n chunkSizeFor_def)
  have "chunks \<noteq> []" using n by (subst (asm) cuts.simps) (auto split: if_splits)
  moreover have "length (om_PlaintextDigest draft) = 32"
    by (simp add: draft draft_of_def Let_def content_crypto.integrityHash_length [OF assms(1)])
  moreover have "om_Version draft = FormatVersion" "om_ObjectBytes draft = of_nat (length input)"
    "om_Chunks draft = chunks" "om_ChunkSize draft = of_nat (chunkSizeFor input)"
    by (simp_all add: draft draft_of_def Let_def)
  ultimately show ?thesis
    using assms(3,6,7) one small
    by (auto simp: checkManifestSchema_def build_mode_def integrityMode_def IntegritySHA256_def
        IntegrityHMACV1_def chunkSizeFor_def fail_if_def Let_def)
qed

lemma content_roundtrip:
  assumes "content_crypto X" "block_store B"
    and "BuildObject X B (input, err) opt s = (Inr built, t)" "length input < 2 ^ 64"
    and "\<forall>p\<in>set (cuts (chunkSizeFor input) False input).
      reuse_ok X B s (bt_Manifest built) (bt_DataKey built)
        (reusableChunks (bo_Previous opt) (om_KeyEpoch (bt_Manifest built)) (om_Encryption (bt_Manifest built))) p"
  shows "ObjectManifest_Validate X (bt_Manifest built) = Inr ()
    \<and> ReconstructObject X (bt_Manifest built) (bl_Get B (b_store t)) (bt_DataKey built) buffer_Write w
        = (Inr (), w @ input)"
proof -
  let ?m = "bt_Manifest built" and ?ps = "cuts (chunkSizeFor input) False input"
  obtain chunks envelopes manifestKey u v x draft where
    draft: "draft = draft_of X opt (bt_DataKey built) input (map fst chunks) envelopes"
    and u: "b_store u = b_store s" and mode: "build_mode draft (bt_DataKey built)"
    and chunks: "buildChunks X B (om_Encryption draft) (om_KeyEpoch draft) (bt_DataKey built)
       (reusableChunks (bo_Previous opt) (om_KeyEpoch draft) (om_Encryption draft)) (chunkSizeFor input)
       err 0 input u = (Inr chunks, v)"
    and env: "if om_Encryption draft = ''private'' then bo_ReaderPublicKeys opt \<noteq> []
       \<and> wrapKeys X (bt_DataKey built) (bo_KeyEpoch opt) (bo_ReaderPublicKeys opt) v = (Inr envelopes, x)
     else envelopes = [] \<and> x = v"
    and fin: "finishManifest X B (bo_Signer opt) draft x = (Inr (?m, manifestKey), t)"
    using assms(3) by (rule BuildObject_ok)
  obtain signerKey sig payload where m: "?m = draft\<lparr>om_Signer := signerKey, om_Signature := sig\<rparr>"
    and sig: "length signerKey = 32" "length sig = 64"
      "signingBytes (ct_manifestC X) ManifestDomain (ObjectManifest_unsigned ?m) = Inr payload"
      "ed_Verify (ct_names X) signerKey payload sig" and xt: "extends B x t"
    using finishManifest_ok [OF fin content_crypto.names_crypto [OF assms(1)] assms(2)] by blast
  have same: "openChunk X ?m source k ref = openChunk X draft source k ref" for source k ref
    by (simp add: m)
  have "reuse_ok X B u draft (bt_DataKey built) reuse p = reuse_ok X B s ?m (bt_DataKey built) reuse p" for reuse p
    by (simp add: reuse_ok_def u m)
  with assms(5) have "\<forall>p\<in>set (cuts (chunkSizeFor input) (0 < (0::nat)) input). reuse_ok X B u draft (bt_DataKey built)
      (reusableChunks (bo_Previous opt) (om_KeyEpoch draft) (om_Encryption draft)) p" by (simp add: m)
  from content_crypto.buildChunks_ok [OF assms(1,2) mode chunks this]
  have all2: "list_all2 (\<lambda>c p. chunk_ok (om_Encryption draft) (fst c) p
      \<and> openChunk X draft (bl_Get B (b_store v)) (bt_DataKey built) (fst c) = Inr p) chunks ?ps"
    and idx: "map (ck_Index \<circ> fst) chunks = map of_nat [0..<0 + length chunks]" by simp_all
  have vx: "extends B v x" "list_all envelope_shape envelopes"
    "om_Encryption draft = ''private'' \<longrightarrow> envelopes \<noteq> []"
    using env content_crypto.wrapKeys_ok [OF assms(1)]
    by (fastforce simp: extends_same split: if_splits)+
  have len: "length (map fst chunks) = length ?ps" using all2 by (simp add: list_all2_lengthD)
  have fields: "om_Chunks ?m = map fst chunks" "om_ObjectBytes ?m = of_nat (length input)"
    "om_Envelopes ?m = envelopes" "om_Encryption ?m = om_Encryption draft" "om_Integrity ?m = om_Integrity draft"
    "om_PlaintextDigest ?m = integrityHash X (om_Integrity draft) (bt_DataKey built) privateObjectDigestDomain input"
    "om_Signer ?m = signerKey" "om_Signature ?m = sig"
    by (simp_all add: m draft draft_of_def Let_def)
  have mode': "om_Encryption ?m = ''public'' \<or> om_Encryption ?m = ''private''"
    using mode by (auto simp: build_mode_def fields)
  have "checkManifestChunks ?m (of_nat 0) 0 (map fst chunks) = Inr (0 + of_nat (length (concat ?ps)))"
  proof (rule checkManifestChunks_ok [OF _ _ mode'])
    show "list_all2 (chunk_ok (om_Encryption ?m)) (map fst chunks) ?ps"
      using all2 by (auto simp: list_all2_map1 fields intro: list_all2_mono)
    show "map ck_Index (map fst chunks) = map of_nat [0..<0 + length (map fst chunks)]"
      using idx by (simp add: comp_def)
    show "\<forall>p\<in>set ?ps. length p < 2 ^ 64 \<and> (p = [] \<longrightarrow> om_ObjectBytes ?m = 0)"
      using cuts_member assms(4) by (fastforce simp: fields)
  qed
  moreover have "checkManifestSchema ?m = Inr ()"
    unfolding m by (rule draft_schema [OF assms(1,4) mode draft len sig(1,2)])
  ultimately have valid: "ObjectManifest_Validate X ?m = Inr ()"
    using sig vx by (auto simp: ObjectManifest_Validate_def fields fail_if_def)
  have "extends B v t" using extends_trans [OF vx(1) xt] .
  then have "list_all2 (\<lambda>c p. openChunk X ?m (bl_Get B (b_store t)) (bt_DataKey built) c = Inr p) (map fst chunks) ?ps"
    using all2 openChunk_mono by (fastforce simp: list_all2_map1 same elim!: list_all2_mono)
  from writeChunks_ok [OF this, of w]
  have "writeChunks X ?m (bl_Get B (b_store t)) (bt_DataKey built) buffer_Write (om_Chunks ?m) w = (Inr input, w @ input)"
    by (simp add: fields)
  with valid mode show ?thesis
    by (auto simp: ReconstructObject_def fields build_mode_def bindS_def liftR_def retS_def)
qed

lemma writeChunks_inv:
  "writeChunks X m source k buffer_Write cs w = (Inr out, w') \<Longrightarrow>
     \<exists>ps. out = concat ps \<and> w' = w @ out \<and> list_all2 (\<lambda>c p. openChunk X m source k c = Inr p) cs ps"
proof (induction cs arbitrary: w out w')
  case Nil
  then show ?case by (auto simp: op_inv)
next
  case (Cons c cs)
  then obtain p rest where p: "openChunk X m source k c = Inr p" and out: "out = p @ rest"
    and r: "writeChunks X m source k buffer_Write cs (w @ p) = (Inr rest, w')"
    by (auto simp: op_inv)
  from Cons.IH [OF r] obtain ps where "rest = concat ps" "w' = (w @ p) @ rest"
    "list_all2 (\<lambda>c p. openChunk X m source k c = Inr p) cs ps" by blast
  with p out show ?case by (intro exI [of _ "p # ps"]) simp
qed

subsection \<open>Reuse of the previous version\<close>

text \<open>The previous version can be read from the store with its data key.\<close>

definition readable :: "content_env \<Rightarrow> 's blocks \<Rightarrow> 's build \<Rightarrow> ObjectManifest \<Rightarrow> bytes \<Rightarrow> bool" where
  "readable X B s p key \<longleftrightarrow> (\<exists>old. ReconstructObject X p (bl_Get B (b_store s)) key buffer_Write [] = (Inr (), old))"

text \<open>The digests of the pieces of the previous version and of the new pieces do not collide: equal digests come from equal pieces and,
  for the keyed digest, from equal keys.\<close>

definition collisionFree ::
  "content_env \<Rightarrow> 's blocks \<Rightarrow> 's build \<Rightarrow> ObjectManifest \<Rightarrow> bytes \<Rightarrow> string \<Rightarrow> bytes \<Rightarrow> bytes list \<Rightarrow> bool" where
  "collisionFree X B s p oldKey mode newKey plains \<longleftrightarrow>
     (\<forall>c\<in>set (om_Chunks p). \<forall>q. openChunk X p (bl_Get B (b_store s)) oldKey c = Inr q \<longrightarrow>
        (\<forall>plain\<in>set plains.
           integrityDigest X (om_Integrity p) oldKey privateChunkDigestDomain q
             = integrityDigest X mode newKey privateChunkDigestDomain plain \<longrightarrow>
           q = plain \<and> (mode = IntegrityHMACV1 \<longrightarrow> oldKey = newKey)))"

lemma readable_chunk:
  assumes "readable X B s p key" "c \<in> set (om_Chunks p)"
  obtains q where "ObjectManifest_Validate X p = Inr ()" "openChunk X p (bl_Get B (b_store s)) key c = Inr q"
proof -
  from assms(1) obtain out old where v: "ObjectManifest_Validate X p = Inr ()"
    and run: "writeChunks X p (bl_Get B (b_store s)) key buffer_Write (om_Chunks p) [] = (Inr out, old)"
    by (auto simp: readable_def ReconstructObject_def op_inv)
  from writeChunks_inv [OF run] assms(2) v show thesis
    by (auto simp: list_all2_conv_all_nth in_set_conv_nth intro: that)
qed

lemma checkManifestChunks_shape:
  assumes "checkManifestChunks m i acc cs = Inr n" "c \<in> set cs"
  shows "length (ck_PlaintextHash c) = 32" "length (ck_CiphertextKey c) = 32"
    "om_Encryption m = ''private'' \<Longrightarrow> length (ck_Nonce c) = 24" "om_Encryption m = ''public'' \<Longrightarrow> ck_Nonce c = []"
proof -
  have "length (ck_PlaintextHash c) = 32 \<and> length (ck_CiphertextKey c) = 32
    \<and> (om_Encryption m = ''private'' \<longrightarrow> length (ck_Nonce c) = 24) \<and> (om_Encryption m = ''public'' \<longrightarrow> ck_Nonce c = [])"
    using assms by (induction m i acc cs rule: checkManifestChunks.induct) (auto simp: result_inv)
  then show "length (ck_PlaintextHash c) = 32" "length (ck_CiphertextKey c) = 32"
    "om_Encryption m = ''private'' \<Longrightarrow> length (ck_Nonce c) = 24" "om_Encryption m = ''public'' \<Longrightarrow> ck_Nonce c = []" by simp_all
qed

lemma reusableChunks_Some:
  assumes "reusableChunks previous epoch encryption h = Some c"
  obtains p where "previous = Some p" "om_KeyEpoch p = epoch" "om_Encryption p = encryption"
    "c \<in> set (om_Chunks p)" "ck_PlaintextHash c = h"
  using assms by (auto simp: reusableChunks_def split: option.splits if_splits dest!: map_of_SomeD)

text \<open>A chunk of a readable manifest of the same epoch and encryption opens the same way under the manifest that reuses it.\<close>

lemma openChunk_reused:
  assumes c: "openChunk X p source oldKey c = Inr q" and shape: "length (ck_PlaintextHash c) = 32"
    and same: "om_KeyEpoch p = om_KeyEpoch m" "om_Encryption p = om_Encryption m"
    and key: "om_Encryption m = ''private'' \<longrightarrow> oldKey = newKey"
    and h: "integrityDigest X (om_Integrity m) newKey privateChunkDigestDomain q = ck_PlaintextHash c"
  shows "openChunk X m source newKey c = Inr q"
proof -
  let ?k = "bytesToArray (ck_CiphertextKey c)"
  from c obtain stored where stored: "source ?k = Inr stored" "Sum256 (ct_names X) stored = ?k"
    and plain: "if om_Encryption p = ''private''
        then length oldKey = 32 \<and> ct_Open X oldKey (ck_Nonce c) stored (chunkAAD (om_KeyEpoch p) (ck_PlaintextHash c)) = Some q
        else stored = q"
    and len: "of_nat (length q) = ck_PlaintextBytes c"
    using shape by (auto simp: openChunk_def Let_def result_inv split: if_splits option.splits)
  show ?thesis
  proof (cases "om_Encryption m = ''private''")
    case True
    with stored plain len key h shape same show ?thesis by (simp add: openChunk_def Let_def fail_if_def)
  next
    case False
    with stored plain len h shape same show ?thesis by (simp add: openChunk_def Let_def fail_if_def)
  qed
qed

lemma reuse_previous:
  assumes mode: "build_mode m newKey" and plain: "plain \<in> set plains"
    and prev: "\<And>p. previous = Some p \<Longrightarrow> readable X B s p (oldKey p)"
      "\<And>p. previous = Some p \<Longrightarrow> collisionFree X B s p (oldKey p) (om_Integrity m) newKey plains"
  shows "reuse_ok X B s m newKey (reusableChunks previous (om_KeyEpoch m) (om_Encryption m)) plain"
  unfolding reuse_ok_def
proof (intro allI impI)
  fix c
  define h where "h = integrityDigest X (om_Integrity m) newKey privateChunkDigestDomain plain"
  assume "reusableChunks previous (om_KeyEpoch m) (om_Encryption m)
    (integrityDigest X (integrityMode (om_Encryption m)) newKey privateChunkDigestDomain plain) = Some c"
  then obtain p where p: "previous = Some p" "om_KeyEpoch p = om_KeyEpoch m" "om_Encryption p = om_Encryption m"
    "c \<in> set (om_Chunks p)" and hash: "ck_PlaintextHash c = h"
    using mode by (elim reusableChunks_Some) (simp add: h_def build_mode_def)
  obtain q where v: "ObjectManifest_Validate X p = Inr ()" and q: "openChunk X p (bl_Get B (b_store s)) (oldKey p) c = Inr q"
    using prev(1) [OF p(1)] p(4) by (rule readable_chunk)
  from v obtain total where "checkManifestChunks p 0 0 (om_Chunks p) = Inr total"
    by (auto simp: ObjectManifest_Validate_def result_inv)
  note shape = checkManifestChunks_shape [OF this p(4)]
  have d: "integrityDigest X (om_Integrity p) (oldKey p) privateChunkDigestDomain q = h"
    and len: "ck_PlaintextBytes c = of_nat (length q)"
    using q shape(1) hash by (auto simp: openChunk_def Let_def result_inv)
  have "q = plain \<and> (om_Integrity m = IntegrityHMACV1 \<longrightarrow> oldKey p = newKey)"
    using prev(2) [OF p(1)] p(4) q d plain unfolding collisionFree_def h_def by blast
  then have eq: "q = plain" and key: "om_Encryption m = ''private'' \<longrightarrow> oldKey p = newKey"
    using mode by (auto simp: build_mode_def integrityMode_def)
  have "chunk_ok (om_Encryption m) c plain"
    using shape len eq mode p(3) by (auto simp: chunk_ok_def build_mode_def)
  moreover have "openChunk X m (bl_Get B (b_store s)) newKey c = Inr plain"
    using openChunk_reused [OF q shape(1) p(2,3) key] hash eq by (simp add: h_def)
  ultimately show "chunk_ok (om_Encryption m) c plain \<and> openChunk X m (bl_Get B (b_store s)) newKey c = Inr plain" ..
qed

lemma BuildObject_mode:
  assumes "content_crypto X" "block_store B" "BuildObject X B (input, err) opt s = (Inr built, t)"
  shows "build_mode (bt_Manifest built) (bt_DataKey built)"
proof -
  obtain draft w manifestKey where mode: "build_mode draft (bt_DataKey built)"
    and fin: "finishManifest X B (bo_Signer opt) draft w = (Inr (bt_Manifest built, manifestKey), t)"
    using assms(3) by (rule BuildObject_ok)
  obtain signerKey sig where "bt_Manifest built = draft\<lparr>om_Signer := signerKey, om_Signature := sig\<rparr>"
    using finishManifest_ok [OF fin content_crypto.names_crypto [OF assms(1)] assms(2)] by blast
  with mode show ?thesis by (simp add: build_mode_def)
qed


text \<open>Every reader gets the key. A private object built for some readers has one envelope per
  reader, in order, and the holder of the private key of a reader recovers from its envelope the
  very data key the object was sealed with.\<close>

theorem BuildObject_readers:
  assumes "content_crypto X" "block_store B" "BuildObject X B (input, err) opt s = (Inr built, t)"
    and "om_Encryption (bt_Manifest built) = ''private''" "i < length (bo_ReaderPublicKeys opt)"
    and "ct_X25519 X readerPrivate (ct_Basepoint X) = Inr (bo_ReaderPublicKeys opt ! i)"
    and "length readerPrivate = 32"
  shows "length (om_Envelopes (bt_Manifest built)) = length (bo_ReaderPublicKeys opt)
    \<and> OpenDataKey X (om_Envelopes (bt_Manifest built) ! i) readerPrivate (om_KeyEpoch (bt_Manifest built))
        = Inr (bt_DataKey built)"
proof -
  obtain chunks envelopes manifestKey u v x draft where
    draft: "draft = draft_of X opt (bt_DataKey built) input (map fst chunks) envelopes"
    and "b_store u = b_store s" "build_mode draft (bt_DataKey built)"
    and "buildChunks X B (om_Encryption draft) (om_KeyEpoch draft) (bt_DataKey built)
       (reusableChunks (bo_Previous opt) (om_KeyEpoch draft) (om_Encryption draft)) (chunkSizeFor input)
       err 0 input u = (Inr chunks, v)"
    and env: "if om_Encryption draft = ''private'' then bo_ReaderPublicKeys opt \<noteq> []
       \<and> wrapKeys X (bt_DataKey built) (bo_KeyEpoch opt) (bo_ReaderPublicKeys opt) v = (Inr envelopes, x)
     else envelopes = [] \<and> x = v"
    and fin: "finishManifest X B (bo_Signer opt) draft x = (Inr (bt_Manifest built, manifestKey), t)"
    using assms(3) by (rule BuildObject_ok)
  obtain signerKey sig where m: "bt_Manifest built = draft\<lparr>om_Signer := signerKey, om_Signature := sig\<rparr>"
    using finishManifest_ok [OF fin content_crypto.names_crypto [OF assms(1)] assms(2)] by blast
  then have f: "om_Envelopes (bt_Manifest built) = envelopes" "om_KeyEpoch (bt_Manifest built) = bo_KeyEpoch opt"
    "om_Encryption draft = ''private''"
    using assms(4) by (simp_all add: draft draft_of_def Let_def)
  with env have "wrapKeys X (bt_DataKey built) (bo_KeyEpoch opt) (bo_ReaderPublicKeys opt) v = (Inr envelopes, x)"
    by simp
  from content_crypto.wrapKeys_ok [OF assms(1) this] assms(5-7) f show ?thesis
    by (auto simp: list_all2_conv_all_nth)
qed

text \<open>C10. A reconstruction that reports success is verified, whatever the block source returned: what
  it wrote has the size and the digest the manifest was signed over, and it is the concatenation of
  pieces, one per chunk of the manifest in order, each with the digest and size of its reference
  and cut from a block whose content key is the referenced one.\<close>

theorem ReconstructObject_verified:
  assumes "ReconstructObject X m source dataKey buffer_Write w = (Inr (), w')"
  shows "ObjectManifest_Validate X m = Inr () \<and> (\<exists>pieces.
    w' = w @ concat pieces
    \<and> of_nat (length (concat pieces)) = om_ObjectBytes m
    \<and> integrityHash X (om_Integrity m) dataKey privateObjectDigestDomain (concat pieces) = om_PlaintextDigest m
    \<and> list_all2 (\<lambda>ref p. integrityDigest X (om_Integrity m) dataKey privateChunkDigestDomain p
            = bytesToArray (ck_PlaintextHash ref)
          \<and> of_nat (length p) = ck_PlaintextBytes ref
          \<and> (\<exists>stored. source (bytesToArray (ck_CiphertextKey ref)) = Inr stored
               \<and> Sum256 (ct_names X) stored = bytesToArray (ck_CiphertextKey ref)
               \<and> (om_Encryption m \<noteq> ''private'' \<longrightarrow> stored = p))) (om_Chunks m) pieces)"
proof -
  from assms obtain out where v: "ObjectManifest_Validate X m = Inr ()"
    and run: "writeChunks X m source dataKey buffer_Write (om_Chunks m) w = (Inr out, w')"
    and total: "of_nat (length out) = om_ObjectBytes m"
      "integrityHash X (om_Integrity m) dataKey privateObjectDigestDomain out = om_PlaintextDigest m"
    by (auto simp: ReconstructObject_def op_inv)
  from writeChunks_inv [OF run] obtain ps where ps: "out = concat ps" "w' = w @ out"
    and "list_all2 (\<lambda>c p. openChunk X m source dataKey c = Inr p) (om_Chunks m) ps" by blast
  then have "list_all2 (\<lambda>ref p. integrityDigest X (om_Integrity m) dataKey privateChunkDigestDomain p
            = bytesToArray (ck_PlaintextHash ref)
          \<and> of_nat (length p) = ck_PlaintextBytes ref
          \<and> (\<exists>stored. source (bytesToArray (ck_CiphertextKey ref)) = Inr stored
               \<and> Sum256 (ct_names X) stored = bytesToArray (ck_CiphertextKey ref)
               \<and> (om_Encryption m \<noteq> ''private'' \<longrightarrow> stored = p))) (om_Chunks m) ps"
    by (elim list_all2_mono) (auto simp: openChunk_def result_inv Let_def)
  with v total ps show ?thesis by blast
qed

end
