(* ===== verification/Names_Content_Witness.thy ===== *)
theory Names_Content_Witness
  imports Names_Content_Props Names_Witness
begin

text \<open>
  A private object built and read back on concrete parameters, so that the hypotheses of the
  theorems on objects are seen to hold together.
\<close>

definition p_ChunkRef :: "ChunkRef pickler" where
  "p_ChunkRef = p_map
     (\<lambda>r. (ck_Index r, ck_PlaintextHash r, ck_CiphertextKey r, ck_Nonce r, ck_PlaintextBytes r, ck_StoredBytes r))
     (\<lambda>(a0, a1, a2, a3, a4, a5).
        \<lparr>ck_Index = a0, ck_PlaintextHash = a1, ck_CiphertextKey = a2, ck_Nonce = a3,
         ck_PlaintextBytes = a4, ck_StoredBytes = a5\<rparr>)
     (p_pair p_word (p_pair p_str (p_pair p_str (p_pair p_str (p_pair p_word p_word)))))"

lemma pickles_ChunkRef [pickle]: "pickles p_ChunkRef"
  unfolding p_ChunkRef_def by (intro pickle) simp

definition p_KeyEnvelope :: "KeyEnvelope pickler" where
  "p_KeyEnvelope = p_map
     (\<lambda>r. (ke_ReaderPublic r, ke_EphemeralPublic r, ke_Nonce r, ke_WrappedKey r))
     (\<lambda>(a0, a1, a2, a3).
        \<lparr>ke_ReaderPublic = a0, ke_EphemeralPublic = a1, ke_Nonce = a2, ke_WrappedKey = a3\<rparr>)
     (p_pair p_str (p_pair p_str (p_pair p_str p_str)))"

lemma pickles_KeyEnvelope [pickle]: "pickles p_KeyEnvelope"
  unfolding p_KeyEnvelope_def by (intro pickle) simp

definition p_ObjectManifest :: "ObjectManifest pickler" where
  "p_ObjectManifest = p_map
     (\<lambda>r. (om_Version r, om_ObjectBytes r, om_PlaintextDigest r, om_Integrity r, om_Encryption r,
           om_KeyEpoch r, om_ChunkSize r, om_Chunks r, om_Envelopes r, om_Signer r, om_Signature r))
     (\<lambda>(a0, a1, a2, a3, a4, a5, a6, a7, a8, a9, a10).
        \<lparr>om_Version = a0, om_ObjectBytes = a1, om_PlaintextDigest = a2, om_Integrity = a3,
         om_Encryption = a4, om_KeyEpoch = a5, om_ChunkSize = a6, om_Chunks = a7,
         om_Envelopes = a8, om_Signer = a9, om_Signature = a10\<rparr>)
     (p_pair p_word (p_pair p_word (p_pair p_str (p_pair p_str (p_pair p_str (p_pair p_word
      (p_pair p_word (p_pair (p_list p_ChunkRef) (p_pair (p_list p_KeyEnvelope)
      (p_pair p_str p_str))))))))))"

lemma manifest_length: "length (om_Signature m) \<le> length (fst p_ObjectManifest m)"
  by (simp add: p_ObjectManifest_def p_map_def p_pair_def p_str_def)

text \<open>The digest tells apart the three blocks of the run by their length.\<close>

definition toyD :: "bytes \<Rightarrow> bytes" where
  "toyD m = (if length m \<le> 18 then replicate 32 (CHR ''y'') else replicate 32 (CHR ''z''))"

definition toyE :: content_env where
  "toyE = \<lparr>ct_names = toy\<lparr>Sum256 := toyD\<rparr>, ct_HMAC = (\<lambda>k m. pad32 m),
     ct_Seal = (\<lambda>k n p a. p @ replicate 16 (CHR ''x'')),
     ct_Open = (\<lambda>k n c a. Some (take (length c - 16) c)),
     ct_X25519 = (\<lambda>a b. Inr (replicate 32 (CHR ''p''))), ct_Basepoint = replicate 32 (CHR ''b''),
     ct_HKDF = (\<lambda>secret salt info. replicate 32 (CHR ''k'')), ct_manifestC = codec_of p_ObjectManifest\<rparr>"

lemma toyE_fields [simp]:
  "ct_Seal toyE k n p a = p @ replicate 16 (CHR ''x'')" "ct_X25519 toyE a b = Inr (replicate 32 (CHR ''p''))"
  "ct_HKDF toyE x y z = replicate 32 (CHR ''k'')" "ct_manifestC toyE = codec_of p_ObjectManifest"
  "Sum256 (ct_names toyE) = toyD" "ed_Public (ct_names toyE) = ed_Public toy" "ed_Sign (ct_names toyE) = ed_Sign toy"
  by (simp_all add: toyE_def)

interpretation toy_content: content_crypto toyE
  by unfold_locales (simp_all add: toyE_def toyD_def toy_def)

type_synonym block_map = "bytes \<Rightarrow> bytes option"

definition map_blocks :: "block_map blocks" where
  "map_blocks = \<lparr>bl_Put = (\<lambda>b m. if m (toyD b) = None \<or> m (toyD b) = Some b
       then (Inr (toyD b), m(toyD b \<mapsto> b)) else (Inl (ErrMsg ''collision''), m)),
     bl_Get = (\<lambda>m k. case m k of None \<Rightarrow> Inl DsNotFound | Some b \<Rightarrow> Inr b)\<rparr>"

interpretation map_block_store: block_store map_blocks
  by unfold_locales (auto simp: map_blocks_def split: if_splits option.splits)

definition toy_opt :: BuildObjectOptions where
  "toy_opt = \<lparr>bo_Encryption = [], bo_KeyEpoch = 1, bo_DataKey = [],
     bo_ReaderPublicKeys = [replicate 32 (CHR ''p'')], bo_Previous = None, bo_Signer = key (CHR ''o'')\<rparr>"

definition toy_build :: "block_map build" where
  "toy_build = \<lparr>b_rand = [replicate 32 (CHR ''d''), replicate 24 (CHR ''1''), replicate 32 (CHR ''e''),
     replicate 24 (CHR ''2'')], b_store = Map.empty\<rparr>"

lemma toyD_manifest [simp]:
  "length (om_Signature m) = 64 \<Longrightarrow> toyD (c # fst p_ObjectManifest m) = replicate 32 (CHR ''z'')"
  using manifest_length [of m] by (simp add: toyD_def)

lemma toy_built: "\<exists>built t. BuildObject toyE map_blocks (''hi'', None) toy_opt toy_build = (Inr built, t)
   \<and> om_Encryption (bt_Manifest built) = ''private''"
proof -
  have "toyD (CHR ''h'' # CHR ''i'' # replicate 16 (CHR ''x'')) = replicate 32 (CHR ''y'')"
    by (simp add: toyD_def)
  then show ?thesis
    by (simp add: BuildObject_def toy_opt_def toy_build_def checkBuildOptions_def chooseDataKey_def
        rand_Read_def buildChunks.simps chunkSizeFor_def InlineObjectLimit_def buildChunk_def
        reusableChunks_def sealChunk_def sink_def map_blocks_def WrapDataKey_def deriveWrapKey_def
        finishManifest_def ObjectManifest_Sign_def signingBytes_def MarshalCanonical_def
        toy_crypto.Sign_length bindS_def liftR_def retS_def Let_def)
qed

lemma toy_no_reuse: "reuse_ok X B s m k (reusableChunks (bo_Previous toy_opt) e c) p"
  by (simp add: reuse_ok_def reusableChunks_def toy_opt_def)

text \<open>The same object built again as an update in the same epoch: its block is reused.\<close>

definition toy_update :: "BuiltObject \<Rightarrow> BuildObjectOptions" where
  "toy_update built = toy_opt\<lparr>bo_DataKey := bt_DataKey built, bo_Previous := Some (bt_Manifest built)\<rparr>"

definition toy_again :: "block_map build \<Rightarrow> block_map build" where
  "toy_again t = t\<lparr>b_rand := drop 2 (b_rand toy_build)\<rparr>"

lemma toy_updated: "\<exists>built t updated u. BuildObject toyE map_blocks (''hi'', None) toy_opt toy_build = (Inr built, t)
   \<and> BuildObject toyE map_blocks (''hi'', None) (toy_update built) (toy_again t) = (Inr updated, u)
   \<and> bt_ReusedBlocks updated = 1 \<and> bt_DataKey updated = bt_DataKey built \<and> length (om_Chunks (bt_Manifest built)) = 1"
proof -
  have "toyD (CHR ''h'' # CHR ''i'' # replicate 16 (CHR ''x'')) = replicate 32 (CHR ''y'')"
    by (simp add: toyD_def)
  then show ?thesis
    by (simp add: BuildObject_def toy_opt_def toy_update_def toy_again_def toy_build_def checkBuildOptions_def chooseDataKey_def
        rand_Read_def buildChunks.simps chunkSizeFor_def InlineObjectLimit_def buildChunk_def sameReaderSet_def
        reusableChunks_def sealChunk_def sink_def map_blocks_def WrapDataKey_def deriveWrapKey_def
        finishManifest_def ObjectManifest_Sign_def signingBytes_def MarshalCanonical_def
        toy_crypto.Sign_length bindS_def liftR_def retS_def Let_def)
qed


theorem BuildObject_readers_witness:
  "\<exists>built t. BuildObject toyE map_blocks (''hi'', None) toy_opt toy_build = (Inr built, t)
     \<and> OpenDataKey toyE (om_Envelopes (bt_Manifest built) ! 0) (replicate 32 (CHR ''r''))
         (om_KeyEpoch (bt_Manifest built)) = Inr (bt_DataKey built)"
proof -
  obtain built t where run: "BuildObject toyE map_blocks (''hi'', None) toy_opt toy_build = (Inr built, t)"
    and "om_Encryption (bt_Manifest built) = ''private''"
    using toy_built by blast
  with BuildObject_readers [OF toy_content.content_crypto_axioms map_block_store.block_store_axioms run,
      of 0 "replicate 32 (CHR ''r'')"] show ?thesis
    by (auto simp: toy_opt_def)
qed

theorem ReconstructObject_verified_witness:
  "\<exists>m source dataKey pieces. ReconstructObject toyE m source dataKey buffer_Write [] = (Inr (), ''hi'')
     \<and> concat pieces = ''hi''
     \<and> integrityHash toyE (om_Integrity m) dataKey privateObjectDigestDomain (concat pieces) = om_PlaintextDigest m"
proof -
  obtain built t where run: "BuildObject toyE map_blocks (''hi'', None) toy_opt toy_build = (Inr built, t)"
    using toy_built by blast
  have r: "ReconstructObject toyE (bt_Manifest built) (bl_Get map_blocks (b_store t)) (bt_DataKey built)
      buffer_Write [] = (Inr (), [] @ ''hi'')"
    by (rule content_roundtrip [OF toy_content.content_crypto_axioms map_block_store.block_store_axioms run,
          THEN conjunct2]) (simp_all add: toy_no_reuse)
  obtain pieces where "[] @ ''hi'' = [] @ concat pieces"
    "integrityHash toyE (om_Integrity (bt_Manifest built)) (bt_DataKey built) privateObjectDigestDomain
       (concat pieces) = om_PlaintextDigest (bt_Manifest built)"
    using ReconstructObject_verified [OF r] by blast
  with r show ?thesis
    by (intro exI [of _ "bt_Manifest built"] exI [of _ "bl_Get map_blocks (b_store t)"]
        exI [of _ "bt_DataKey built"] exI [of _ pieces]) simp
qed

end
