(* ===== verification/PHT_Bloom.thy ===== *)
theory PHT_Bloom
  imports Go_Binary "HOL-Library.Sublist"
begin

unbundle bit_operations_syntax

text \<open>
  \<open>internal/pht/bloom.go\<close>: the Bloom filters that summarize the n-grams of the indexed names. The
  bit array is a list of 64-bit words; FNV-1a is the one of \<open>hash/fnv\<close>. An index operation on a
  filter without words divides by zero in Go; it is \<open>None\<close> here, as is everything built on it.
\<close>

record BloomFilter =
  bf_bits :: "u64 list"
  bf_hashCount :: nat

definition DefaultNGramSize :: int where "DefaultNGramSize = 3"
definition DefaultBloomSize :: int where "DefaultBloomSize = 4096"
definition DefaultBloomHashes :: int where "DefaultBloomHashes = 6"

definition fnv64a :: "bytes \<Rightarrow> u64" where
  "fnv64a data = foldl (\<lambda>h c. (h XOR of_nat (byte c)) * 1099511628211) 14695981039346656037 data"

definition NewBloomFilter :: "int \<Rightarrow> int \<Rightarrow> BloomFilter" where
  "NewBloomFilter size0 hashCount0 =
     (let size1 = (if size0 \<le> 0 then DefaultBloomSize else size0);
          hashCount1 = (if hashCount0 \<le> 0 then DefaultBloomHashes else hashCount0);
          hashCount2 = (if hashCount1 > 32 then 32 else hashCount1) in
      \<lparr>bf_bits = replicate (nat ((size1 + 63) div 64)) 0, bf_hashCount = nat hashCount2\<rparr>)"

definition hashIndex :: "BloomFilter \<Rightarrow> bytes \<Rightarrow> nat \<Rightarrow> u64 option" where
  "hashIndex b item i =
     (let m = of_nat (length (bf_bits b) * 64) :: u64 in
      if m = 0 then None
      else Some (fnv64a (item @ [char_of (i mod 256), char_of ((i div 256) mod 256)]) mod m))"

text \<open>The loops of \<open>Add\<close> and \<open>Contains\<close>, over the hash functions that remain.\<close>

definition setBit :: "u64 list \<Rightarrow> u64 \<Rightarrow> u64 list" where
  "setBit bits idx =
     (let w = unat (idx div 64) in bits[w := bits ! w OR push_bit (unat (idx mod 64)) 1])"

definition testBit :: "u64 list \<Rightarrow> u64 \<Rightarrow> bool" where
  "testBit bits idx \<longleftrightarrow> bits ! unat (idx div 64) AND push_bit (unat (idx mod 64)) 1 \<noteq> 0"

fun add_loop :: "bytes \<Rightarrow> nat list \<Rightarrow> BloomFilter \<Rightarrow> BloomFilter option" where
  "add_loop item [] b = Some b"
| "add_loop item (i # is) b =
     (case hashIndex b item i of
        None \<Rightarrow> None
      | Some idx \<Rightarrow> add_loop item is (b\<lparr>bf_bits := setBit (bf_bits b) idx\<rparr>))"

definition Bloom_Add :: "bytes \<Rightarrow> BloomFilter \<Rightarrow> BloomFilter option" where
  "Bloom_Add item b = add_loop item [0..<bf_hashCount b] b"

fun contains_loop :: "bytes \<Rightarrow> nat list \<Rightarrow> BloomFilter \<Rightarrow> bool option" where
  "contains_loop item [] b = Some True"
| "contains_loop item (i # is) b =
     (case hashIndex b item i of
        None \<Rightarrow> None
      | Some idx \<Rightarrow> if testBit (bf_bits b) idx then contains_loop item is b else Some False)"

definition Bloom_Contains :: "bytes \<Rightarrow> BloomFilter \<Rightarrow> bool option" where
  "Bloom_Contains item b = contains_loop item [0..<bf_hashCount b] b"

definition Bloom_Or :: "BloomFilter \<Rightarrow> BloomFilter \<Rightarrow> BloomFilter" where
  "Bloom_Or b other =
     (if length (bf_bits b) \<noteq> length (bf_bits other) \<or> bf_hashCount b \<noteq> bf_hashCount other then b
      else b\<lparr>bf_bits := map2 (\<lambda>x y. x OR y) (bf_bits b) (bf_bits other)\<rparr>)"

definition Bloom_MarshalBinary :: "BloomFilter \<Rightarrow> bytes" where
  "Bloom_MarshalBinary b =
     LE_PutUint32 (of_nat (bf_hashCount b)) @ concat (map LE_PutUint64 (bf_bits b))"

fun le_words :: "nat \<Rightarrow> bytes \<Rightarrow> u64 list" where
  "le_words 0 remain = []"
| "le_words (Suc n) remain = LE_Uint64 remain # le_words n (drop 8 remain)"

text \<open>\<open>UnmarshalBinary\<close> leaves the receiver as it is when there are fewer than four bytes.\<close>

definition Bloom_UnmarshalBinary :: "bytes \<Rightarrow> BloomFilter \<Rightarrow> BloomFilter" where
  "Bloom_UnmarshalBinary data b =
     (if length data < 4 then b
      else let remain = drop 4 data in
        \<lparr>bf_bits = le_words (length remain div 8) remain, bf_hashCount = unat (LE_Uint32 data)\<rparr>)"

definition NewBloomFilterFromBinary :: "bytes \<Rightarrow> BloomFilter" where
  "NewBloomFilterFromBinary data = Bloom_UnmarshalBinary data \<lparr>bf_bits = [], bf_hashCount = 0\<rparr>"

definition ExtractNGrams :: "string \<Rightarrow> int \<Rightarrow> string list" where
  "ExtractNGrams s n =
     (if n \<le> 0 \<or> int (length s) < n then []
      else map (\<lambda>i. take (nat n) (drop i s)) [0..<Suc (length s - nat n)])"

fun contains_all :: "BloomFilter \<Rightarrow> string list \<Rightarrow> bool option" where
  "contains_all b [] = Some True"
| "contains_all b (ng # rest) =
     (case Bloom_Contains ng b of
        None \<Rightarrow> None
      | Some False \<Rightarrow> Some False
      | Some True \<Rightarrow> contains_all b rest)"

definition BloomContainsAll :: "BloomFilter option \<Rightarrow> string list \<Rightarrow> bool option" where
  "BloomContainsAll b ngrams =
     (case b of None \<Rightarrow> Some True | Some f \<Rightarrow> if ngrams = [] then Some True else contains_all f ngrams)"

text \<open>The loop of \<open>BuildNodeBloom\<close> over the n-grams of the entries of a leaf, and \<open>addKeyToBloom\<close>.\<close>

fun add_all :: "string list \<Rightarrow> BloomFilter \<Rightarrow> BloomFilter option" where
  "add_all [] b = Some b"
| "add_all (ng # rest) b = Option.bind (Bloom_Add ng b) (add_all rest)"

definition orDefault :: "int \<Rightarrow> int \<Rightarrow> int" where
  "orDefault n d = (if n \<le> 0 then d else n)"

definition leafBloom :: "string list \<Rightarrow> int \<Rightarrow> int \<Rightarrow> int \<Rightarrow> BloomFilter option" where
  "leafBloom entries nGram bloomSize bloomHashes =
     add_all (concat (map (\<lambda>key. ExtractNGrams key (orDefault nGram DefaultNGramSize)) entries))
       (NewBloomFilter (orDefault bloomSize DefaultBloomSize) (orDefault bloomHashes DefaultBloomHashes))"

definition addKeyToBloom :: "BloomFilter option \<Rightarrow> string \<Rightarrow> BloomFilter option" where
  "addKeyToBloom bloom key =
     add_all (ExtractNGrams key DefaultNGramSize)
       (case bloom of None \<Rightarrow> NewBloomFilter DefaultBloomSize DefaultBloomHashes | Some b \<Rightarrow> b)"

subsection \<open>No false negatives\<close>

text \<open>A filter whose index operations are defined: it has words, and not so many that their number of
  bits overflows.\<close>

definition usable :: "BloomFilter \<Rightarrow> bool" where
  "usable b \<longleftrightarrow> bf_bits b \<noteq> [] \<and> length (bf_bits b) * 64 < 2 ^ 64"

lemma hashIndex_usable:
  assumes "usable b"
  obtains idx where "hashIndex b item i = Some idx" "unat (idx div 64) < length (bf_bits b)"
proof -
  define m where "m = (of_nat (length (bf_bits b) * 64) :: u64)"
  define h where "h = fnv64a (item @ [char_of (i mod 256), char_of ((i div 256) mod 256)])"
  have m: "unat m = length (bf_bits b) * 64"
    using assms unat_of_nat_lt(2) [of "length (bf_bits b) * 64"] unfolding m_def usable_def by simp
  moreover have pos: "0 < length (bf_bits b) * 64" using assms by (simp add: usable_def)
  ultimately have "m \<noteq> 0" by (metis less_numeral_extra(3) unat_0)
  moreover have "unat (h mod m) < length (bf_bits b) * 64"
    unfolding unat_mod_distrib m using pos by simp
  then have "unat (h mod m div 64) < length (bf_bits b)"
    by (simp add: unat_div_distrib less_mult_imp_div_less)
  ultimately show thesis
    by (intro that [of "h mod m"]) (simp_all add: hashIndex_def m_def [symmetric] h_def Let_def
        del: of_nat_mult)
qed

lemma hashIndex_cong: "length (bf_bits b) = length (bf_bits c) \<Longrightarrow> hashIndex b item i = hashIndex c item i"
  by (simp add: hashIndex_def)

lemma testBit_iff: "testBit bits j \<longleftrightarrow> bit (bits ! unat (j div 64)) (unat (j mod 64))"
  by (simp add: testBit_def bit_iff_and_push_bit_not_eq_0)

lemma mod64_lt: "unat (j mod 64 :: u64) < 64"
  by (simp add: unat_mod_distrib)

lemma length_setBit [simp]: "length (setBit bits i) = length bits"
  by (simp add: setBit_def Let_def)

lemma setBit_hit: "unat (i div 64) < length bits \<Longrightarrow> testBit (setBit bits i) i"
  using mod64_lt [of i]
  by (simp add: testBit_iff setBit_def Let_def bit_or_iff bit_exp_iff)

lemma setBit_mono: "testBit bits j \<Longrightarrow> unat (j div 64) < length bits \<Longrightarrow> testBit (setBit bits i) j"
  by (cases "unat (i div 64) < length bits")
    (auto simp: testBit_iff setBit_def Let_def nth_list_update bit_or_iff)

text \<open>\<open>same_shape\<close>: the filters index alike, and \<open>c\<close> has every bit of \<open>b\<close>.\<close>

definition same_shape :: "BloomFilter \<Rightarrow> BloomFilter \<Rightarrow> bool" where
  "same_shape b c \<longleftrightarrow> length (bf_bits b) = length (bf_bits c) \<and> bf_hashCount b = bf_hashCount c
     \<and> (\<forall>j. unat (j div 64) < length (bf_bits b) \<longrightarrow> testBit (bf_bits b) j \<longrightarrow> testBit (bf_bits c) j)"

lemma same_shape_refl [simp]: "same_shape b b"
  by (simp add: same_shape_def)

lemma same_shape_trans: "same_shape a b \<Longrightarrow> same_shape b c \<Longrightarrow> same_shape a c"
  by (simp add: same_shape_def)

lemma same_shape_usable: "same_shape b c \<Longrightarrow> usable c = usable b"
  by (auto simp: same_shape_def usable_def)

text \<open>The bits an item needs.\<close>

definition covered :: "bytes \<Rightarrow> nat list \<Rightarrow> BloomFilter \<Rightarrow> bool" where
  "covered item is b \<longleftrightarrow>
     (\<forall>i\<in>set is. \<exists>idx. hashIndex b item i = Some idx \<and> unat (idx div 64) < length (bf_bits b)
        \<and> testBit (bf_bits b) idx)"

lemma covered_contains: "covered item is b \<Longrightarrow> contains_loop item is b = Some True"
  by (induction "is") (auto simp: covered_def)

lemma contains_covered:
  assumes "usable b" "contains_loop item is b = Some True"
  shows "covered item is b"
  using assms(2)
proof (induction "is")
  case (Cons i "is")
  obtain idx where "hashIndex b item i = Some idx" "unat (idx div 64) < length (bf_bits b)"
    using hashIndex_usable [OF assms(1)] .
  with Cons show ?case by (auto simp: covered_def split: if_splits)
qed (simp add: covered_def)

lemma covered_mono:
  assumes "covered item is b" "same_shape b c"
  shows "covered item is c"
proof -
  have "hashIndex c item i = hashIndex b item i" for i
    using assms(2) hashIndex_cong unfolding same_shape_def by metis
  with assms show ?thesis unfolding covered_def same_shape_def by metis
qed

lemma add_loop_ok:
  assumes "usable b"
  shows "\<exists>c. add_loop item is b = Some c \<and> same_shape b c \<and> covered item is c"
  using assms
proof (induction "is" arbitrary: b)
  case (Cons i "is")
  obtain idx where idx: "hashIndex b item i = Some idx" "unat (idx div 64) < length (bf_bits b)"
    using hashIndex_usable [OF Cons.prems] .
  let ?b = "b\<lparr>bf_bits := setBit (bf_bits b) idx\<rparr>"
  have sh: "same_shape b ?b" by (simp add: same_shape_def setBit_mono)
  have "usable ?b" using Cons.prems same_shape_usable [OF sh] by simp
  then obtain c where c: "add_loop item is ?b = Some c" "same_shape ?b c" "covered item is c"
    using Cons.IH by blast
  have "covered item [i] ?b"
    using idx setBit_hit hashIndex_cong [of ?b b] by (simp add: covered_def)
  then have "covered item [i] c" using c(2) by (rule covered_mono)
  with c sh idx show ?case by (auto simp: covered_def intro: same_shape_trans)
qed (simp add: covered_def)

definition present :: "bytes \<Rightarrow> BloomFilter \<Rightarrow> bool" where
  "present item b \<longleftrightarrow> Bloom_Contains item b = Some True"

lemma present_mono: "usable b \<Longrightarrow> present x b \<Longrightarrow> same_shape b c \<Longrightarrow> present x c"
  unfolding present_def Bloom_Contains_def
  using covered_contains [OF covered_mono [OF contains_covered]] by (simp add: same_shape_def)

lemma Bloom_Add_ok:
  assumes "usable b"
  obtains c where "Bloom_Add item b = Some c" "same_shape b c" "present item c"
proof -
  from add_loop_ok [OF assms, of item "[0..<bf_hashCount b]"] obtain c where
    c: "Bloom_Add item b = Some c" "same_shape b c" "covered item [0..<bf_hashCount b] c"
    by (auto simp: Bloom_Add_def)
  moreover have "present item c"
    using covered_contains [OF c(3)] c(2) by (simp add: present_def Bloom_Contains_def same_shape_def)
  ultimately show thesis using that by blast
qed

lemma Bloom_Or_ok:
  assumes "length (bf_bits b) = length (bf_bits c)" "bf_hashCount b = bf_hashCount c"
  shows "same_shape b (Bloom_Or b c)" "same_shape c (Bloom_Or b c)"
  using assms by (auto simp: same_shape_def Bloom_Or_def testBit_iff bit_or_iff)

lemma add_all_ok:
  assumes "usable b"
  shows "\<exists>c. add_all ngs b = Some c \<and> same_shape b c \<and> (\<forall>g\<in>set ngs. present g c)"
  using assms
proof (induction ngs arbitrary: b)
  case (Cons g ngs)
  obtain d where d: "Bloom_Add g b = Some d" "same_shape b d" "present g d"
    using Bloom_Add_ok [OF Cons.prems] .
  have u: "usable d" using Cons.prems same_shape_usable [OF d(2)] by simp
  then obtain c where c: "add_all ngs d = Some c" "same_shape d c" "\<forall>g\<in>set ngs. present g c"
    using Cons.IH by blast
  with d u present_mono [OF u d(3) c(2)] show ?case
    by (auto intro: same_shape_trans)
qed simp

text \<open>A Bloom filter has no false negatives: after \<open>Add\<close> the item is contained, everything
  contained before still is, and a union contains what either filter contains. The operations
  do not panic on a filter that has words.\<close>

theorem Bloom_no_false_negative:
  assumes "usable b"
  shows "(\<exists>c. Bloom_Add item b = Some c \<and> Bloom_Contains item c = Some True
      \<and> (\<forall>x. Bloom_Contains x b = Some True \<longrightarrow> Bloom_Contains x c = Some True))
    \<and> (\<forall>x other. length (bf_bits other) = length (bf_bits b) \<longrightarrow> bf_hashCount other = bf_hashCount b \<longrightarrow>
         Bloom_Contains x b = Some True \<or> Bloom_Contains x other = Some True \<longrightarrow>
         Bloom_Contains x (Bloom_Or b other) = Some True)"
proof (intro conjI allI impI)
  obtain c where "Bloom_Add item b = Some c" "same_shape b c" "present item c"
    using Bloom_Add_ok [OF assms] .
  with present_mono [OF assms] show "\<exists>c. Bloom_Add item b = Some c \<and> Bloom_Contains item c = Some True
      \<and> (\<forall>x. Bloom_Contains x b = Some True \<longrightarrow> Bloom_Contains x c = Some True)"
    unfolding present_def by blast
next
  fix x other assume len: "length (bf_bits other) = length (bf_bits b)" "bf_hashCount other = bf_hashCount b"
    and "Bloom_Contains x b = Some True \<or> Bloom_Contains x other = Some True"
  moreover have "usable other" using assms len(1) by (auto simp: usable_def)
  ultimately show "Bloom_Contains x (Bloom_Or b other) = Some True"
    using present_mono [OF assms _ Bloom_Or_ok(1), of x other]
      present_mono [OF \<open>usable other\<close> _ Bloom_Or_ok(2), of x b] unfolding present_def by metis
qed

lemma usable_new: "size0 < 2 ^ 63 \<Longrightarrow> usable (NewBloomFilter size0 h)"
  by (auto simp: usable_def NewBloomFilter_def DefaultBloomSize_def Let_def)

theorem Bloom_no_false_negative_witness:
  "\<exists>c. Bloom_Add ''abc'' (NewBloomFilter 64 2) = Some c \<and> Bloom_Contains ''abc'' c = Some True"
  using Bloom_no_false_negative [OF usable_new [of 64 2], of "''abc''"] by auto

subsection \<open>Substring pruning\<close>

lemma ExtractNGrams_iff:
  "g \<in> set (ExtractNGrams s n) \<longleftrightarrow> 0 < n \<and> length g = nat n \<and> sublist g s"
proof
  assume "g \<in> set (ExtractNGrams s n)"
  then obtain i where n: "0 < n" "nat n \<le> length s" and i: "i \<le> length s - nat n"
    and g: "g = take (nat n) (drop i s)"
    by (fastforce simp: ExtractNGrams_def less_Suc_eq_le simp del: upt_Suc split: if_splits)
  have "sublist g s" unfolding g by (meson sublist_drop sublist_order.order.trans sublist_take)
  with n i g show "0 < n \<and> length g = nat n \<and> sublist g s" by auto
next
  assume g: "0 < n \<and> length g = nat n \<and> sublist g s"
  then obtain p q where s: "s = p @ g @ q" by (auto simp: sublist_def)
  with g have "g = take (nat n) (drop (length p) s)" "length p \<le> length s - nat n" "\<not> int (length s) < n"
    by auto
  with g show "g \<in> set (ExtractNGrams s n)" by (auto simp: ExtractNGrams_def image_iff less_Suc_eq_le simp del: upt_Suc)
qed

lemma ExtractNGrams_sub: "sublist sub key \<Longrightarrow> set (ExtractNGrams sub n) \<subseteq> set (ExtractNGrams key n)"
  by (auto simp: ExtractNGrams_iff intro: sublist_order.order.trans)

lemma contains_all_present: "(\<forall>g\<in>set ngs. present g b) \<Longrightarrow> contains_all b ngs = Some True"
  by (induction ngs) (auto simp: present_def)

text \<open>Pruning by Bloom filter never loses a match: the filter of a leaf can be built for any
  entries and parameters without panic, and if an entry contains the queried substring then the
  filter contains every n-gram of the query, so the leaf is not pruned.\<close>

theorem leafBloom_prune_sound:
  assumes "size0 < 2 ^ 63"
  shows "\<exists>b. leafBloom entries nGram size0 hashes = Some b \<and>
    (\<forall>key\<in>set entries. \<forall>sub. sublist sub key \<longrightarrow>
       BloomContainsAll (Some b) (ExtractNGrams sub (orDefault nGram DefaultNGramSize)) = Some True)"
proof -
  have "usable (NewBloomFilter (orDefault size0 DefaultBloomSize) (orDefault hashes DefaultBloomHashes))"
    using assms by (intro usable_new) (simp add: orDefault_def DefaultBloomSize_def)
  from add_all_ok [OF this] obtain b where b: "leafBloom entries nGram size0 hashes = Some b"
    and "\<forall>key\<in>set entries. \<forall>g\<in>set (ExtractNGrams key (orDefault nGram DefaultNGramSize)). present g b"
    by (fastforce simp: leafBloom_def)
  then have "contains_all b (ExtractNGrams sub (orDefault nGram DefaultNGramSize)) = Some True"
    if "key \<in> set entries" "sublist sub key" for key sub
    using that ExtractNGrams_sub by (intro contains_all_present) blast
  with b show ?thesis by (auto simp: BloomContainsAll_def)
qed

theorem leafBloom_prune_sound_witness:
  "\<exists>b. leafBloom [''forest''] 0 0 0 = Some b
     \<and> BloomContainsAll (Some b) (ExtractNGrams ''ores'' (orDefault 0 DefaultNGramSize)) = Some True"
proof -
  have "sublist ''ores'' ''forest''" by (simp add: sublist_code)
  with leafBloom_prune_sound [of 0 "[''forest'']" 0 0] show ?thesis by auto
qed

subsection \<open>Encoding\<close>

lemma le_words_concat: "le_words (length ws) (concat (map LE_PutUint64 ws) @ rest) = ws"
  by (induction ws) simp_all

lemma Bloom_restored:
  assumes "bf_hashCount b < 2 ^ 32"
  shows "Bloom_UnmarshalBinary (Bloom_MarshalBinary b) c = b"
proof -
  have "length (concat (map LE_PutUint64 (bf_bits b))) = length (bf_bits b) * 8"
    by (induction "bf_bits b") (simp_all add: length_concat sum_list_triv comp_def)
  moreover have "unat (of_nat (bf_hashCount b) :: u32) = bf_hashCount b"
    using assms unat_of_nat_lt(1) by simp
  ultimately show ?thesis
    using le_words_concat [of "bf_bits b" "[]"]
    by (simp add: Bloom_UnmarshalBinary_def Bloom_MarshalBinary_def Let_def)
qed

text \<open>A filter survives its encoding: unmarshalling what \<open>MarshalBinary\<close> produced restores the
  filter, into whatever filter it is read.\<close>

theorem Bloom_roundtrip:
  assumes "bf_hashCount b < 2 ^ 32"
  shows "Bloom_UnmarshalBinary (Bloom_MarshalBinary b) c = b"
  using assms by (rule Bloom_restored)

theorem Bloom_roundtrip_witness:
  "Bloom_UnmarshalBinary (Bloom_MarshalBinary \<lparr>bf_bits = [5, 7], bf_hashCount = 6\<rparr>) \<lparr>bf_bits = [], bf_hashCount = 0\<rparr>
     = \<lparr>bf_bits = [5, 7], bf_hashCount = 6\<rparr>"
  using Bloom_roundtrip [of "\<lparr>bf_bits = [5, 7], bf_hashCount = 6\<rparr>" "\<lparr>bf_bits = [], bf_hashCount = 0\<rparr>"] by simp

end
