(* ===== verification/PHT_Tree.thy ===== *)
theory PHT_Tree
  imports PHT_Bloom Go_Datastore
begin

text \<open>
  \<open>internal/pht/tree.go\<close>, \<open>fence.go\<close> and the record format of \<open>dht.go\<close>: nodes of the prefix hash
  tree, writer fences, the splitting of full leaves, and nodes as records of a value store. A
  node is a leaf with entries or an internal node with children; the child of an internal node
  read from the store is nil until it is fetched (\<open>None\<close>). Go iterates over the children map in
  no fixed order; the model keeps the children in a list, and no property depends on the order.
  SHA-256, base64 and the JSON form of a node are parameters; the kind in a record is one of the two
  declared ones.
\<close>

record hdr =
  h_Epoch :: u64
  h_Writer :: string
  h_Version :: u64
  h_Prefix :: string
  h_Bloom :: "BloomFilter option"

datatype Node =
    Leaf (nhdr: hdr) (nentries: "string list")
  | Internal (nhdr: hdr) (nchildren: "(string \<times> Node option) list")

definition MAX_BUCKET_SIZE :: nat where "MAX_BUCKET_SIZE = 16"

definition emptyHdr :: "string \<Rightarrow> hdr" where
  "emptyHdr pfx = \<lparr>h_Epoch = 0, h_Writer = [], h_Version = 0, h_Prefix = pfx, h_Bloom = None\<rparr>"

definition NewLeaf :: "string \<Rightarrow> Node" where
  "NewLeaf pfx = Leaf (emptyHdr pfx) []"

fun IsInternal :: "Node \<Rightarrow> bool" where
  "IsInternal (Leaf _ _) = False"
| "IsInternal (Internal _ _) = True"

fun set_hdr :: "(hdr \<Rightarrow> hdr) \<Rightarrow> Node \<Rightarrow> Node" where
  "set_hdr f (Leaf h es) = Leaf (f h) es"
| "set_hdr f (Internal h cs) = Internal (f h) cs"

text \<open>\<open>string(b)\<close> for a byte \<open>b\<close>: the UTF-8 encoding of the code point \<open>b\<close>.\<close>

definition byte_string :: "char \<Rightarrow> string" where
  "byte_string c =
     (if byte c < 128 then [c] else [char_of (192 + byte c div 64), char_of (128 + byte c mod 64)])"

subsection \<open>Splitting a leaf\<close>

definition seg_of :: "string \<Rightarrow> string \<Rightarrow> string" where
  "seg_of pfx key = byte_string (key ! length pfx)"

definition group :: "string \<Rightarrow> string list \<Rightarrow> string \<Rightarrow> string list" where
  "group pfx es seg = filter (\<lambda>k. length pfx < length k \<and> seg_of pfx k = seg) es"

definition groups :: "string \<Rightarrow> string list \<Rightarrow> (string \<times> string list) list" where
  "groups pfx es =
     map (\<lambda>seg. (seg, group pfx es seg))
       (remdups (map (seg_of pfx) (filter (\<lambda>k. length pfx < length k) es)))"

text \<open>\<open>SplitLeaf\<close> on a leaf with the given header and entries; the leaves below it are new.\<close>

definition room :: "string \<Rightarrow> string list \<Rightarrow> nat" where
  "room pfx es = (\<Sum>k\<leftarrow>es. length k - length pfx)"

lemma byte_string_length: "0 < length (byte_string c)"
  by (simp add: byte_string_def)

lemma room_less:
  assumes "ks \<noteq> []" "\<forall>k\<in>set ks. length pfx < length k" "0 < length seg"
  shows "room (pfx @ seg) ks < room pfx ks"
  using assms
proof (induction ks rule: list_nonempty_induct)
  case (single k)
  then have "length k - (length pfx + length seg) < length k - length pfx"
    by (intro diff_less_mono2) auto
  then show ?case by (simp add: room_def)
next
  case (cons k ks)
  then have "length k - (length pfx + length seg) < length k - length pfx"
    by (intro diff_less_mono2) auto
  with cons show ?case by (simp add: room_def)
qed

lemma room_group:
  assumes "group pfx es seg \<noteq> []"
  shows "room (pfx @ seg) (group pfx es seg) < room pfx es"
proof -
  have "0 < length seg"
    using assms byte_string_length by (auto simp: group_def seg_of_def filter_empty_conv)
  then have "room (pfx @ seg) (group pfx es seg) < room pfx (group pfx es seg)"
    using assms by (intro room_less) (auto simp: group_def)
  also have "\<dots> \<le> room pfx es"
    by (induction es) (auto simp: group_def room_def)
  finally show ?thesis .
qed

function split_leaf :: "hdr \<Rightarrow> string list \<Rightarrow> Node" where
  "split_leaf h es =
     (if length es \<le> MAX_BUCKET_SIZE then Leaf h es
      else Internal h (map (\<lambda>(seg, ks). (seg, Some (split_leaf (emptyHdr (h_Prefix h @ seg)) ks)))
             (groups (h_Prefix h) es)))"
  by pat_completeness auto
termination
proof (relation "measure (\<lambda>(h, es). room (h_Prefix h) es)", simp)
  fix h :: hdr and es x seg ks
  assume x: "x \<in> set (groups (h_Prefix h) es)" "(seg, ks) = x"
  then have ks: "ks = group (h_Prefix h) es seg" "ks \<noteq> []"
    by (auto simp: groups_def group_def filter_empty_conv)
  show "((emptyHdr (h_Prefix h @ seg), ks), h, es) \<in> measure (\<lambda>(h, es). room (h_Prefix h) es)"
    using room_group [of "h_Prefix h" es seg] ks by (simp add: emptyHdr_def)
qed

declare split_leaf.simps [simp del]

fun SplitLeaf :: "Node \<Rightarrow> Node" where
  "SplitLeaf (Leaf h es) = split_leaf h es"
| "SplitLeaf (Internal h cs) = Internal h cs"

definition MaybeSplit :: "Node \<Rightarrow> Node" where
  "MaybeSplit n = SplitLeaf n"

text \<open>The keys of a subtree in memory.\<close>

primrec CollectUnder :: "Node \<Rightarrow> string list" where
  "CollectUnder (Leaf h es) = es"
| "CollectUnder (Internal h cs) =
     concat (map (\<lambda>c. case snd c of None \<Rightarrow> [] | Some ks \<Rightarrow> ks)
       (map (map_prod id (map_option CollectUnder)) cs))"

subsection \<open>Bloom filters, fences and versions of a tree\<close>

text \<open>\<open>BuildNodeBloom\<close>; a panic of the filter of a leaf would show as a missing filter, and
  \<open>leafBloom_prune_sound\<close> shows that there is none.\<close>

definition orChildren :: "int \<Rightarrow> int \<Rightarrow> BloomFilter option list \<Rightarrow> BloomFilter" where
  "orChildren bloomSize bloomHashes blooms =
     foldl (\<lambda>bf c. case c of None \<Rightarrow> bf | Some b \<Rightarrow> Bloom_Or bf b)
       (NewBloomFilter (orDefault bloomSize DefaultBloomSize) (orDefault bloomHashes DefaultBloomHashes))
       blooms"

primrec BuildNodeBloom :: "int \<Rightarrow> int \<Rightarrow> int \<Rightarrow> Node \<Rightarrow> Node" where
  "BuildNodeBloom nGram bloomSize bloomHashes (Leaf h es) =
     Leaf (h\<lparr>h_Bloom := leafBloom es nGram bloomSize bloomHashes\<rparr>) es"
| "BuildNodeBloom nGram bloomSize bloomHashes (Internal h cs) =
     (let cs' = map (map_prod id (map_option (BuildNodeBloom nGram bloomSize bloomHashes))) cs in
      Internal (h\<lparr>h_Bloom := Some (orChildren bloomSize bloomHashes
        (map (\<lambda>c. Option.bind (snd c) (\<lambda>n. h_Bloom (nhdr n))) cs'))\<rparr>) cs')"

record WriteFence =
  wf_Epoch :: u64
  wf_Writer :: string

definition CompareWriteFences :: "WriteFence \<Rightarrow> WriteFence \<Rightarrow> int" where
  "CompareWriteFences a b =
     (if wf_Epoch a < wf_Epoch b then - 1
      else if wf_Epoch a > wf_Epoch b then 1
      else if wf_Writer a < wf_Writer b then - 1 else if wf_Writer a = wf_Writer b then 0 else 1)"

text \<open>The recursion over a node and its children that are present, as the stamping and the versioning
  functions do it.\<close>

primrec walk :: "(hdr \<Rightarrow> hdr) \<Rightarrow> Node \<Rightarrow> Node" where
  "walk f (Leaf h es) = Leaf (f h) es"
| "walk f (Internal h cs) = Internal (f h) (map (map_prod id (map_option (walk f))) cs)"

definition stampWriteFence :: "WriteFence \<Rightarrow> Node \<Rightarrow> Node" where
  "stampWriteFence f = walk (\<lambda>h. h\<lparr>h_Epoch := wf_Epoch f, h_Writer := wf_Writer f\<rparr>)"

definition incrementVersions :: "Node \<Rightarrow> Node" where
  "incrementVersions = walk (\<lambda>h. h\<lparr>h_Version := h_Version h + 1\<rparr>)"

definition fence_of :: "Node \<Rightarrow> WriteFence" where
  "fence_of n = \<lparr>wf_Epoch = h_Epoch (nhdr n), wf_Writer = h_Writer (nhdr n)\<rparr>"

definition requireCurrentFence :: "Node \<Rightarrow> WriteFence \<Rightarrow> unit result" where
  "requireCurrentFence n requested =
     fail_if (CompareWriteFences requested (fence_of n) < 0) (ErrWrap ''epoch'' ErrStaleWriteFence) (Inr ())"

subsection \<open>Nodes as records\<close>

datatype NodeKind = KindLeaf | KindInternal

record nodeWire =
  w_Epoch :: u64
  w_Writer :: string
  w_Version :: u64
  w_Kind :: NodeKind
  w_Prefix :: string
  w_Entries :: "string list"
  w_Segments :: "string list"
  w_BloomB64 :: string

record pht_env =
  ph_Sum256 :: "bytes \<Rightarrow> bytes"
  b64_Encode :: "bytes \<Rightarrow> string"
  b64_Decode :: "string \<Rightarrow> bytes result"
  js_Marshal :: "nodeWire \<Rightarrow> bytes result"
  js_Unmarshal :: "bytes \<Rightarrow> nodeWire result"

definition HashPrefix :: "pht_env \<Rightarrow> string \<Rightarrow> bytes" where
  "HashPrefix E pfx = ph_Sum256 E pfx"

definition phtKey :: "pht_env \<Rightarrow> string \<Rightarrow> string" where
  "phtKey E pfx = ''/pht/'' @ hex_EncodeToString (HashPrefix E pfx)"

fun wireOf :: "pht_env \<Rightarrow> Node \<Rightarrow> nodeWire" where
  "wireOf E (Leaf h es) =
     \<lparr>w_Epoch = h_Epoch h, w_Writer = h_Writer h, w_Version = h_Version h, w_Kind = KindLeaf,
      w_Prefix = h_Prefix h, w_Entries = es, w_Segments = [],
      w_BloomB64 = (case h_Bloom h of None \<Rightarrow> [] | Some b \<Rightarrow> b64_Encode E (Bloom_MarshalBinary b))\<rparr>"
| "wireOf E (Internal h cs) =
     \<lparr>w_Epoch = h_Epoch h, w_Writer = h_Writer h, w_Version = h_Version h, w_Kind = KindInternal,
      w_Prefix = h_Prefix h, w_Entries = [], w_Segments = map fst cs,
      w_BloomB64 = (case h_Bloom h of None \<Rightarrow> [] | Some b \<Rightarrow> b64_Encode E (Bloom_MarshalBinary b))\<rparr>"

definition nodeOf :: "pht_env \<Rightarrow> nodeWire \<Rightarrow> Node" where
  "nodeOf E w =
     (let h = \<lparr>h_Epoch = w_Epoch w, h_Writer = w_Writer w, h_Version = w_Version w, h_Prefix = w_Prefix w,
               h_Bloom = (if w_BloomB64 w = [] then None
                 else map_option NewBloomFilterFromBinary (result_or_nil (b64_Decode E (w_BloomB64 w))))\<rparr> in
      case w_Kind w of
        KindLeaf \<Rightarrow> Leaf h (w_Entries w)
      | KindInternal \<Rightarrow> Internal h (map (\<lambda>seg. (seg, None)) (remdups (w_Segments w))))"

text \<open>\<open>GetNode\<close> and \<open>PutNode\<close> over the operations of any \<open>ValueStore\<close>.\<close>

definition decodeNode :: "pht_env \<Rightarrow> bytes \<Rightarrow> Node result" where
  "decodeNode E data = bindR (wrapR ''unmarshal node'' (js_Unmarshal E data)) (\<lambda>w. Inr (nodeOf E w))"

definition GetNode :: "pht_env \<Rightarrow> (string \<Rightarrow> ('s, bytes) op) \<Rightarrow> string \<Rightarrow> ('s, Node) op" where
  "GetNode E get pfx = bindS (get (phtKey E pfx)) (\<lambda>data. liftR (decodeNode E data))"

definition PutNode :: "pht_env \<Rightarrow> (string \<Rightarrow> bytes \<Rightarrow> ('s, unit) op) \<Rightarrow> Node \<Rightarrow> ('s, unit) op" where
  "PutNode E put n =
     bindS (liftR (wrapR ''marshal node'' (js_Marshal E (wireOf E n)))) (\<lambda>data.
     put (phtKey E (h_Prefix (nhdr n))) data)"

text \<open>The nodes \<open>PutNodeRecursive\<close> stores, in its order: children before their parent. A nil child
  is an error of \<open>PutNode\<close>.\<close>

primrec postorder :: "Node \<Rightarrow> Node option list" where
  "postorder (Leaf h es) = [Some (Leaf h es)]"
| "postorder (Internal h cs) =
     concat (map snd (map (map_prod id (\<lambda>c. case c of None \<Rightarrow> [None] | Some ns \<Rightarrow> ns))
       (map (map_prod id (map_option postorder)) cs))) @ [Some (Internal h cs)]"

fun putAll :: "pht_env \<Rightarrow> (string \<Rightarrow> bytes \<Rightarrow> ('s, unit) op) \<Rightarrow> Node option list \<Rightarrow> ('s, unit) op" where
  "putAll E put [] = retS ()"
| "putAll E put (None # ns) = failS (ErrMsg ''store and node required'')"
| "putAll E put (Some n # ns) = bindS (PutNode E put n) (\<lambda>_. putAll E put ns)"

definition PutNodeRecursive ::
  "pht_env \<Rightarrow> (string \<Rightarrow> bytes \<Rightarrow> ('s, unit) op) \<Rightarrow> Node \<Rightarrow> ('s, unit) op" where
  "PutNodeRecursive E put n = putAll E put (postorder n)"

end
