(* ===== verification/Go_Errors.thy ===== *)
theory Go_Errors
  imports Go_Strings "HOL-Library.Sublist"
begin

text \<open>
  The texts of errors, which parts of the program search: several packages take an error for a missing
  record when its text contains \<open>not found\<close>.
\<close>

fun dec :: "nat \<Rightarrow> string" where
  "dec n = (if n < 10 then [char_of (48 + n)] else dec (n div 10) @ [char_of (48 + n mod 10)])"

declare dec.simps [simp del]

text \<open>\<open>err.Error()\<close>; the texts are those of the sentinels of the packages.\<close>

primrec error_text :: "go_error \<Rightarrow> string" where
  "error_text (ErrMsg m) = m"
| "error_text (ErrWrap m e) = m @ '': '' @ error_text e"
| "error_text DsNotFound = ''datastore: key not found''"
| "error_text RoutingNotFound = ''routing: not found''"
| "error_text ErrNotFound = ''mutable name not found''"
| "error_text ErrConflict = ''mutable name generation conflict''"
| "error_text ErrLocked = ''mutable name lease is held''"
| "error_text ErrCertificationRequired = ''mutable name requires a quorum certificate''"
| "error_text ErrTupleNotFound = ''no matching tuple''"
| "error_text ErrInvalidTuplePattern = ''invalid tuple pattern''"
| "error_text ErrTupleCASConflict = ''tuple compare-and-swap conflict''"
| "error_text ErrLockHeldByAnother = ''lock held by another peer''"
| "error_text ErrLockTimeout = ''lock not acquired within timeout''"
| "error_text ErrStaleWriteFence = ''stale PHT writer fence''"
| "error_text ErrFetchCountTooLarge = ''fetch request/response count too large''"
| "error_text ErrIBLTMessageTooShort = ''iblt message too short''"
| "error_text ErrUnexpectedEOF = ''unexpected EOF''"
| "error_text ErrReusedNonce = ''reused nonce''"
| "error_text ErrDuplicateMessageHash = ''duplicate message hash''"
| "error_text ErrExpiredTimestamp = ''expired timestamp''"
| "error_text ErrPermissionDenied = ''permission denied''"
| "error_text ErrStaleTupleAuthority = ''stale tuple authority''"
| "error_text (ErrTupleAuthority e w) = ''stale tuple authority: current epoch='' @ dec (unat e) @ '' writer='' @ [CHR 0x22] @ w @ [CHR 0x22]"
| "error_text (ErrTupleApplication m) = m"

definition isMissingNode :: "go_error \<Rightarrow> bool" where
  "isMissingNode err \<longleftrightarrow> errors_Is err RoutingNotFound \<or> sublist ''not found'' (ToLower (error_text err))"

text \<open>The tuple space has its own copies of the test.\<close>

definition isMissingTupleState :: "go_error \<Rightarrow> bool" where
  "isMissingTupleState err \<longleftrightarrow> errors_Is err RoutingNotFound \<or> sublist ''not found'' (ToLower (error_text err))"

definition isMissingAuthority :: "go_error \<Rightarrow> bool" where
  "isMissingAuthority err \<longleftrightarrow> errors_Is err RoutingNotFound \<or> sublist ''not found'' (ToLower (error_text err))"

end
