(* ===== verification/PHT_Index.thy ===== *)
theory PHT_Index
  imports PHT_Tree Go_Errors
begin

text \<open>
  \<open>internal/pht/mutable.go\<close>: the writer of a prefix hash tree. Its state is the network's value
  store with the cache that gives the writer its own writes back. A loop that walks records can
  follow a cycle of malformed ones for ever, so the loops are partial functions: \<open>None\<close> is a call
  that does not return. A Bloom filter without words makes Go divide by zero; that panic is an
  error result here. The pointer to a new child that \<open>InsertFenced\<close> puts into its parent is only
  read for its segment, so the child is left nil there.
\<close>

subsection \<open>The writer's cache\<close>

record 'n mindex =
  mi_values :: "string \<Rightarrow> bytes option"
  mi_base :: 'n

definition NewMutableIndex :: "'n \<Rightarrow> 'n mindex" where
  "NewMutableIndex base = \<lparr>mi_values = Map.empty, mi_base = base\<rparr>"

definition cache_PutValue :: "'n valuestore \<Rightarrow> string \<Rightarrow> bytes \<Rightarrow> ('n mindex, unit) op" where
  "cache_PutValue V k v s =
     (case vs_PutValue V k v (mi_base s) of
        (Inl err, b) \<Rightarrow> (Inl err, s\<lparr>mi_base := b\<rparr>)
      | (Inr _, b) \<Rightarrow> (Inr (), s\<lparr>mi_base := b, mi_values := (mi_values s)(k \<mapsto> v)\<rparr>))"

definition cache_GetValue :: "'n valuestore \<Rightarrow> string \<Rightarrow> ('n mindex, bytes) op" where
  "cache_GetValue V k s =
     (case mi_values s k of
        Some v \<Rightarrow> (Inr v, s)
      | None \<Rightarrow>
          (case vs_GetValue V (mi_base s) k of
             Inl err \<Rightarrow> (Inl err, s)
           | Inr v \<Rightarrow> (Inr v, s\<lparr>mi_values := (mi_values s)(k \<mapsto> v)\<rparr>)))"

definition cache_reset :: "'n mindex \<Rightarrow> 'n mindex" where
  "cache_reset s = s\<lparr>mi_values := Map.empty\<rparr>"

abbreviation getNode :: "pht_env \<Rightarrow> 'n valuestore \<Rightarrow> string \<Rightarrow> ('n mindex, Node) op" where
  "getNode E V \<equiv> GetNode E (cache_GetValue V)"

abbreviation pfx_of :: "Node \<Rightarrow> string" where
  "pfx_of n \<equiv> h_Prefix (nhdr n)"

subsection \<open>Insertion\<close>

fun addChild :: "string \<Rightarrow> Node \<Rightarrow> Node" where
  "addChild seg (Internal h cs) = Internal h (cs @ (if seg \<in> set (map fst cs) then [] else [(seg, None)]))"
| "addChild seg (Leaf h es) = Leaf h es"

definition addKeyBloom :: "string \<Rightarrow> Node \<Rightarrow> Node result" where
  "addKeyBloom k n =
     (case addKeyToBloom (h_Bloom (nhdr n)) k of
        None \<Rightarrow> Inl (ErrMsg ''runtime error: integer divide by zero'')
      | Some b \<Rightarrow> Inr (set_hdr (\<lambda>h. h\<lparr>h_Bloom := Some b\<rparr>) n))"

definition bumpVersion :: "Node \<Rightarrow> Node" where
  "bumpVersion n = set_hdr (\<lambda>h. h\<lparr>h_Version := h_Version h + 1\<rparr>) n"

text \<open>The descent of \<open>InsertFenced\<close>: the leaf reached and the internal nodes passed, root first.\<close>

partial_function (option) insertDescend ::
  "pht_env \<Rightarrow> 'n valuestore \<Rightarrow> string \<Rightarrow> WriteFence \<Rightarrow> Node \<Rightarrow> Node list \<Rightarrow> 'n mindex \<Rightarrow>
   ((Node \<times> Node list) result \<times> 'n mindex) option" where
  "insertDescend E V k fence cur ancestors s =
     (if \<not> IsInternal cur then Some (Inr (cur, ancestors), s)
      else (case requireCurrentFence cur fence of
              Inl err \<Rightarrow> Some (Inl err, s)
            | Inr _ \<Rightarrow>
                if length k \<le> length (pfx_of cur)
                then Some (Inl (ErrMsg ''PHT key terminates at an internal prefix''), s)
                else (case getNode E V (pfx_of cur @ seg_of (pfx_of cur) k) s of
                        (Inr child, t) \<Rightarrow> insertDescend E V k fence child (ancestors @ [cur]) t
                      | (Inl err, t) \<Rightarrow>
                          if \<not> isMissingNode err then Some (Inl (ErrWrap ''read PHT child'' err), t)
                          else insertDescend E V k fence (NewLeaf (pfx_of cur @ seg_of (pfx_of cur) k))
                                 (ancestors @ [addChild (seg_of (pfx_of cur) k) cur]) t)))"

text \<open>The leaf with its new entry, split, summarized, stamped and with higher versions.\<close>

definition insertLeaf :: "string \<Rightarrow> WriteFence \<Rightarrow> Node \<Rightarrow> Node" where
  "insertLeaf k fence cur =
     (let es = (if k \<in> set (nentries cur) then nentries cur else nentries cur @ [k]) in
      incrementVersions (stampWriteFence fence (BuildNodeBloom 0 0 0 (MaybeSplit (Leaf (nhdr cur) es)))))"

text \<open>The loop over the ancestors, deepest first.\<close>

fun putAncestors ::
  "pht_env \<Rightarrow> 'n valuestore \<Rightarrow> string \<Rightarrow> WriteFence \<Rightarrow> Node list \<Rightarrow> ('n mindex, unit) op" where
  "putAncestors E V k fence [] = retS ()"
| "putAncestors E V k fence (a # rest) =
     bindS (liftR (addKeyBloom k a)) (\<lambda>b.
     bindS (PutNode E (cache_PutValue V) (bumpVersion (stampWriteFence fence b))) (\<lambda>_.
     putAncestors E V k fence rest))"

definition insertAt ::
  "pht_env \<Rightarrow> 'n valuestore \<Rightarrow> string \<Rightarrow> WriteFence \<Rightarrow> Node \<Rightarrow> Node list \<Rightarrow> ('n mindex, unit) op" where
  "insertAt E V k fence cur ancestors =
     bindS (liftR (requireCurrentFence cur fence)) (\<lambda>_.
     bindS (PutNodeRecursive E (cache_PutValue V) (insertLeaf k fence cur)) (\<lambda>_.
     putAncestors E V k fence (rev ancestors)))"

text \<open>The root a mutation starts from: a new leaf when there is none.\<close>

definition rootOrLeaf :: "Node result \<Rightarrow> Node result" where
  "rootOrLeaf root =
     (case root of
        Inr n \<Rightarrow> Inr n
      | Inl err \<Rightarrow> if isMissingNode err then Inr (NewLeaf []) else Inl (ErrWrap ''read PHT root'' err))"

definition InsertFenced ::
  "pht_env \<Rightarrow> 'n valuestore \<Rightarrow> string \<Rightarrow> WriteFence \<Rightarrow> 'n mindex \<Rightarrow> (unit result \<times> 'n mindex) option" where
  "InsertFenced E V k fence s =
     (if k = [] then Some (Inl (ErrMsg ''PHT key required''), s)
      else (case getNode E V [] s of
              (r, t) \<Rightarrow>
                (case rootOrLeaf r of
                   Inl err \<Rightarrow> Some (Inl err, t)
                 | Inr root \<Rightarrow>
                     (case insertDescend E V k fence root [] t of
                        None \<Rightarrow> None
                      | Some (Inl err, u) \<Rightarrow> Some (Inl err, u)
                      | Some (Inr (cur, ancestors), u) \<Rightarrow> Some (insertAt E V k fence cur ancestors u)))))"

subsection \<open>Deletion\<close>

partial_function (option) deleteDescend ::
  "pht_env \<Rightarrow> 'n valuestore \<Rightarrow> string \<Rightarrow> WriteFence \<Rightarrow> Node \<Rightarrow> 'n mindex \<Rightarrow>
   (Node option result \<times> 'n mindex) option" where
  "deleteDescend E V k fence cur s =
     (if \<not> IsInternal cur then Some (Inr (Some cur), s)
      else (case requireCurrentFence cur fence of
              Inl err \<Rightarrow> Some (Inl err, s)
            | Inr _ \<Rightarrow>
                if length k \<le> length (pfx_of cur) then Some (Inr None, s)
                else (case getNode E V (pfx_of cur @ seg_of (pfx_of cur) k) s of
                        (Inr child, t) \<Rightarrow> deleteDescend E V k fence child t
                      | (Inl err, t) \<Rightarrow> Some (Inr None, t))))"

definition deleteLeaf :: "string \<Rightarrow> WriteFence \<Rightarrow> Node \<Rightarrow> Node" where
  "deleteLeaf k fence cur =
     bumpVersion (stampWriteFence fence
       (BuildNodeBloom 0 0 0 (Leaf (nhdr cur) (remove1 k (nentries cur)))))"

definition deleteAt ::
  "pht_env \<Rightarrow> 'n valuestore \<Rightarrow> string \<Rightarrow> WriteFence \<Rightarrow> Node \<Rightarrow> ('n mindex, unit) op" where
  "deleteAt E V k fence cur =
     bindS (liftR (requireCurrentFence cur fence)) (\<lambda>_.
     if k \<in> set (nentries cur) then PutNode E (cache_PutValue V) (deleteLeaf k fence cur) else retS ())"

definition DeleteFenced ::
  "pht_env \<Rightarrow> 'n valuestore \<Rightarrow> string \<Rightarrow> WriteFence \<Rightarrow> 'n mindex \<Rightarrow> (unit result \<times> 'n mindex) option" where
  "DeleteFenced E V k fence s =
     (if k = [] then Some (Inl (ErrMsg ''PHT key required''), s)
      else (case getNode E V [] s of
              (Inl err, t) \<Rightarrow> Some (Inr (), t)
            | (Inr root, t) \<Rightarrow>
                (case deleteDescend E V k fence root t of
                   None \<Rightarrow> None
                 | Some (Inl err, u) \<Rightarrow> Some (Inl err, u)
                 | Some (Inr None, u) \<Rightarrow> Some (Inr (), u)
                 | Some (Inr (Some cur), u) \<Rightarrow> Some (deleteAt E V k fence cur u))))"

text \<open>The unfenced operations.\<close>

definition zeroFence :: WriteFence where
  "zeroFence = \<lparr>wf_Epoch = 0, wf_Writer = []\<rparr>"

definition Insert :: "pht_env \<Rightarrow> 'n valuestore \<Rightarrow> string \<Rightarrow> 'n mindex \<Rightarrow> (unit result \<times> 'n mindex) option" where
  "Insert E V k s = InsertFenced E V k zeroFence s"

definition Delete :: "pht_env \<Rightarrow> 'n valuestore \<Rightarrow> string \<Rightarrow> 'n mindex \<Rightarrow> (unit result \<times> 'n mindex) option" where
  "Delete E V k s = DeleteFenced E V k zeroFence s"

end
