(* ===== verification/PHT_Invariant.thy ===== *)
theory PHT_Invariant
  imports PHT_Index
begin

text \<open>
  What a stored prefix hash tree means. A key is routed from the root by its next byte, written as
  Go's \<open>string(b)\<close>; \<open>index_tree\<close> says that the records below a prefix form a tree that stores
  exactly a given set of keys, that every Bloom filter summarizes the keys below it, and that no
  record stands where the tree has no node. \<open>U\<close> is the set of prefixes in play: the hash is
  only assumed injective there, since no hash is injective on all strings.
\<close>

subsection \<open>Segments and routes\<close>

lemma byte_string_ne [simp]: "byte_string c \<noteq> []"
  using byte_string_length [of c] by auto

lemma byte_inj: "byte c = byte d \<longleftrightarrow> c = d"
  by (metis char_of_char)

lemma hd_byte_string: "byte (hd (byte_string c)) = (if byte c < 128 then byte c else 192 + byte c div 64)"
proof -
  have "byte c < 256" by simp
  then have "192 + byte c div 64 < 256" by linarith
  then show ?thesis by (simp add: byte_string_def)
qed

lemma byte_string_prefix:
  assumes "byte_string c @ x = byte_string d @ y"
  shows "c = d"
proof -
  have c: "byte c < 256" and d: "byte d < 256" by simp_all
  have hd: "byte (hd (byte_string c)) = byte (hd (byte_string d))"
    using assms by (metis byte_string_ne hd_append2)
  consider "byte c < 128" "byte d < 128" | "byte c < 128" "128 \<le> byte d"
    | "128 \<le> byte c" "byte d < 128" | "128 \<le> byte c" "128 \<le> byte d" by linarith
  then have "byte c = byte d"
  proof cases
    case 1
    with assms show ?thesis by (simp add: byte_string_def)
  next
    case 2
    with hd show ?thesis by (simp add: hd_byte_string)
  next
    case 3
    with hd show ?thesis by (simp add: hd_byte_string)
  next
    case 4
    have "byte c div 64 < 4" "byte d div 64 < 4" using c d by linarith+
    moreover have "byte c mod 64 < 64" "byte d mod 64 < 64" by simp_all
    moreover have "char_of (192 + byte c div 64) = (char_of (192 + byte d div 64) :: char)"
      "char_of (128 + byte c mod 64) = (char_of (128 + byte d mod 64) :: char)"
      using 4 assms by (simp_all add: byte_string_def)
    ultimately have "192 + byte c div 64 = 192 + byte d div 64" "128 + byte c mod 64 = 128 + byte d mod 64"
      by (subst (asm) char_of_inj; linarith)+
    then have "byte c div 64 = byte d div 64" "byte c mod 64 = byte d mod 64" by simp_all
    then show ?thesis by (metis div_mult_mod_eq)
  qed
  then show ?thesis by (simp add: byte_inj)
qed

lemma byte_string_inj [simp]: "byte_string c = byte_string d \<longleftrightarrow> c = d"
  using byte_string_prefix [of c "[]" d "[]"] by auto

lemma seg_of_byte_string [simp]: "seg_of p k \<in> range byte_string"
  by (simp add: seg_of_def)

text \<open>Two subtrees of one node share no position.\<close>

lemma siblings_apart:
  assumes "a \<in> range byte_string" "b \<in> range byte_string" "prefix (p @ a) q" "prefix (p @ b) q"
  shows "a = b"
proof -
  from assms(3,4) obtain x y where "p @ a @ x = p @ b @ y" by (auto simp: prefix_def)
  with assms(1,2) show ?thesis using byte_string_prefix by force
qed

text \<open>The prefixes a tree can have: sequences of segments, which split in one way only.\<close>

definition segmented :: "string \<Rightarrow> bool" where
  "segmented q \<longleftrightarrow> (\<exists>cs. q = concat (map byte_string cs))"

lemma segments_prefix: "prefix (concat (map byte_string ds)) (concat (map byte_string cs)) \<Longrightarrow> prefix ds cs"
proof (induction ds arbitrary: cs)
  case (Cons d ds)
  then obtain z where z: "concat (map byte_string cs) = byte_string d @ concat (map byte_string ds) @ z"
    by (auto simp: prefix_def)
  then obtain c cs' where cs: "cs = c # cs'" by (cases cs) auto
  with z have "byte_string c @ concat (map byte_string cs') = byte_string d @ concat (map byte_string ds) @ z" by simp
  then have "c = d" by (rule byte_string_prefix)
  with z cs Cons.IH [of cs'] show ?case by simp
qed simp

lemma segmented_below:
  assumes "segmented p" "segmented q" "strict_prefix p q"
  obtains c where "prefix (p @ byte_string c) q"
proof -
  from assms(1,2) obtain ds cs where d: "p = concat (map byte_string ds)" "q = concat (map byte_string cs)"
    by (auto simp: segmented_def)
  with assms(3) have "prefix ds cs" using segments_prefix by (auto simp: strict_prefix_def)
  then obtain es where es: "cs = ds @ es" by (auto simp: prefix_def)
  with d assms(3) obtain e es' where "es = e # es'" by (cases es) auto
  with d es show thesis using that [of e] by simp
qed

inductive routes :: "string \<Rightarrow> string \<Rightarrow> bool" for k where
  routes_root: "routes k []"
| routes_step: "routes k p \<Longrightarrow> length p < length k \<Longrightarrow> routes k (p @ seg_of p k)"

text \<open>No key ends where another one passes, so that a split drops none: for names of ASCII bytes this
  says that none is a proper prefix of another.\<close>

definition separated :: "string set \<Rightarrow> bool" where
  "separated K \<longleftrightarrow>
     (\<forall>k\<in>K. \<forall>k'\<in>K. k \<noteq> k' \<longrightarrow> (\<forall>p. routes k p \<longrightarrow> routes k' p \<longrightarrow> length p < length k))"

lemma ascii_routes:
  assumes "\<forall>c\<in>set k. byte c < 128" "routes k p"
  shows "p = take (length p) k"
  using assms(2,1)
proof induction
  case (routes_step p)
  then have "seg_of p k = [k ! length p]" by (simp add: seg_of_def byte_string_def)
  with routes_step show ?case by (simp add: take_Suc_conv_app_nth)
qed simp

lemma ascii_separated:
  assumes "\<forall>k\<in>K. \<forall>c\<in>set k. byte c < 128" "\<forall>k\<in>K. \<forall>k'\<in>K. k \<noteq> k' \<longrightarrow> \<not> prefix k k'"
  shows "separated K"
  unfolding separated_def
proof (intro ballI allI impI)
  fix k k' p assume k: "k \<in> K" "k' \<in> K" "k \<noteq> k'" "routes k p" "routes k' p"
  with ascii_routes assms(1) have "take (length p) k = take (length p) k'" by metis
  then have "length k \<le> length p \<Longrightarrow> prefix k k'" by (metis take_all take_is_prefix)
  with k assms(2) show "length p < length k" by (meson not_le)
qed

subsection \<open>The stored tree\<close>

text \<open>What the writer sees: its cache first, then the network.\<close>

definition view :: "'n valuestore \<Rightarrow> 'n mindex \<Rightarrow> string \<Rightarrow> bytes result" where
  "view V s k = (case mi_values s k of Some v \<Rightarrow> Inr v | None \<Rightarrow> vs_GetValue V (mi_base s) k)"

definition look :: "pht_env \<Rightarrow> 'n valuestore \<Rightarrow> 'n mindex \<Rightarrow> string \<Rightarrow> Node result" where
  "look E V s p = bindR (view V s (phtKey E p)) (decodeNode E)"

definition absent :: "Node result \<Rightarrow> bool" where
  "absent r = (case r of Inl e \<Rightarrow> isMissingNode e | Inr _ \<Rightarrow> False)"

lemma absent_iff: "absent r \<longleftrightarrow> (\<exists>e. r = Inl e \<and> isMissingNode e)"
  by (cases r) (simp_all add: absent_def)

definition vacant :: "string set \<Rightarrow> (string \<Rightarrow> Node result) \<Rightarrow> string \<Rightarrow> string set \<Rightarrow> bool" where
  "vacant U lk p segs \<longleftrightarrow>
     (\<forall>c q. byte_string c \<notin> segs \<longrightarrow> p @ byte_string c @ q \<in> U \<longrightarrow> absent (lk (p @ byte_string c @ q)))"

definition default_shape :: "BloomFilter \<Rightarrow> bool" where
  "default_shape b \<longleftrightarrow> length (bf_bits b) = 64 \<and> bf_hashCount b = 6"

definition summarizes :: "BloomFilter option \<Rightarrow> string set \<Rightarrow> bool" where
  "summarizes bo S \<longleftrightarrow>
     (\<exists>b. bo = Some b \<and> default_shape b
        \<and> (\<forall>k\<in>S. \<forall>g\<in>set (ExtractNGrams k DefaultNGramSize). present g b))"

abbreviation segs_of :: "(string \<times> Node option) list \<Rightarrow> string set" where
  "segs_of cs \<equiv> fst ` set cs"

definition below :: "string \<Rightarrow> string \<Rightarrow> string set \<Rightarrow> string set" where
  "below p seg S = {k\<in>S. seg_of p k = seg}"

text \<open>The conditions on an internal node that routes the keys \<open>S\<close>.\<close>

definition routing_node :: "string \<Rightarrow> (string \<times> Node option) list \<Rightarrow> string set \<Rightarrow> bool" where
  "routing_node p cs S \<longleftrightarrow> distinct (map fst cs) \<and> segs_of cs \<subseteq> range byte_string
     \<and> (\<forall>k\<in>S. length p < length k \<and> seg_of p k \<in> segs_of cs)"

inductive index_tree :: "string set \<Rightarrow> (string \<Rightarrow> Node result) \<Rightarrow> string \<Rightarrow> string set \<Rightarrow> bool"
  for U lk where
  tree_leaf:
    "p \<in> U \<Longrightarrow> lk p = Inr (Leaf h es) \<Longrightarrow> h_Prefix h = p \<Longrightarrow> distinct es \<Longrightarrow>
     \<forall>k\<in>set es. routes k p \<Longrightarrow> summarizes (h_Bloom h) (set es) \<Longrightarrow> vacant U lk p {} \<Longrightarrow>
     index_tree U lk p (set es)"
| tree_internal:
    "p \<in> U \<Longrightarrow> lk p = Inr (Internal h cs) \<Longrightarrow> h_Prefix h = p \<Longrightarrow> routing_node p cs S \<Longrightarrow>
     summarizes (h_Bloom h) S \<Longrightarrow> vacant U lk p (segs_of cs) \<Longrightarrow>
     \<forall>seg\<in>segs_of cs. index_tree U lk (p @ seg) (below p seg S) \<Longrightarrow>
     index_tree U lk p S"

text \<open>The keys an index stores: those of the tree at the root, or none when there is no record.\<close>

definition stores :: "string set \<Rightarrow> (string \<Rightarrow> Node result) \<Rightarrow> string set \<Rightarrow> bool" where
  "stores U lk S \<longleftrightarrow> index_tree U lk [] S \<or> S = {} \<and> (\<forall>p\<in>U. absent (lk p))"

lemma vacant_frame:
  "vacant U lk p segs \<Longrightarrow> \<forall>q\<in>U. prefix p q \<longrightarrow> lk' q = lk q \<Longrightarrow> vacant U lk' p segs"
  by (simp add: vacant_def)

lemma index_tree_frame:
  assumes "index_tree U lk p S" "\<forall>q\<in>U. prefix p q \<longrightarrow> lk' q = lk q"
  shows "index_tree U lk' p S"
  using assms
proof induction
  case (tree_leaf p h es)
  then show ?case by (intro index_tree.tree_leaf) (auto intro: vacant_frame)
next
  case (tree_internal p h cs S)
  have "index_tree U lk' (p @ seg) (below p seg S)" if "seg \<in> segs_of cs" for seg
    using tree_internal that by (meson prefix_order.dual_order.trans prefixI)
  with tree_internal show ?case by (intro index_tree.tree_internal) (auto intro: vacant_frame)
qed

end
