(* ===== verification/PHT_Build.thy ===== *)
theory PHT_Build
  imports PHT_Invariant
begin

text \<open>
  The in-memory subtree an insertion builds: \<open>built\<close> is the counterpart of \<open>index_tree\<close> on nodes whose
  children are present. Splitting a leaf yields such a tree for the same keys, \<open>BuildNodeBloom\<close>
  gives every node a filter for its keys, and stamping or versioning the nodes changes neither.
\<close>

inductive built :: "string set \<Rightarrow> string set \<Rightarrow> bool \<Rightarrow> string \<Rightarrow> string set \<Rightarrow> Node \<Rightarrow> bool"
  for U K summed where
  built_leaf:
    "p \<in> U \<Longrightarrow> set es \<subseteq> K \<Longrightarrow> h_Prefix h = p \<Longrightarrow> distinct es \<Longrightarrow> \<forall>k\<in>set es. routes k p \<Longrightarrow>
     summed \<longrightarrow> summarizes (h_Bloom h) (set es) \<Longrightarrow> built U K summed p (set es) (Leaf h es)"
| built_internal:
    "p \<in> U \<Longrightarrow> S \<subseteq> K \<Longrightarrow> h_Prefix h = p \<Longrightarrow> routing_node p cs S \<Longrightarrow>
     summed \<longrightarrow> summarizes (h_Bloom h) S \<Longrightarrow>
     \<forall>(seg, c)\<in>set cs. \<exists>n. c = Some n \<and> built U K summed (p @ seg) (below p seg S) n \<Longrightarrow>
     built U K summed p S (Internal h cs)"

subsection \<open>Filters\<close>

lemma default_shape_usable: "default_shape b \<Longrightarrow> usable b"
  by (auto simp: default_shape_def usable_def)

lemma same_shape_default: "same_shape b c \<Longrightarrow> default_shape b \<Longrightarrow> default_shape c"
  by (simp add: same_shape_def default_shape_def)

lemma default_shape_new: "default_shape (NewBloomFilter DefaultBloomSize DefaultBloomHashes)"
  by (simp add: default_shape_def NewBloomFilter_def DefaultBloomSize_def DefaultBloomHashes_def Let_def)

lemma orDefault_0 [simp]: "orDefault 0 d = d"
  by (simp add: orDefault_def)

lemma summarizes_leaf: "summarizes (leafBloom es 0 0 0) (set es)"
proof -
  have "\<exists>b. leafBloom es 0 0 0 = Some b \<and> same_shape (NewBloomFilter DefaultBloomSize DefaultBloomHashes) b
      \<and> (\<forall>g\<in>set (concat (map (\<lambda>key. ExtractNGrams key DefaultNGramSize) es)). present g b)"
    using add_all_ok [OF default_shape_usable [OF default_shape_new]] unfolding leafBloom_def orDefault_0 .
  then show ?thesis using default_shape_new by (fastforce simp: summarizes_def intro: same_shape_default)
qed

lemma summarizes_add:
  assumes "summarizes bo S"
  obtains b where "addKeyToBloom bo k = Some b" "summarizes (Some b) (insert k S)"
proof -
  from assms obtain c where c: "bo = Some c" "default_shape c"
    "\<forall>k\<in>S. \<forall>g\<in>set (ExtractNGrams k DefaultNGramSize). present g c" by (auto simp: summarizes_def)
  from add_all_ok [OF default_shape_usable [OF c(2)], of "ExtractNGrams k DefaultNGramSize"]
  obtain b where b: "addKeyToBloom bo k = Some b" "same_shape c b"
    "\<forall>g\<in>set (ExtractNGrams k DefaultNGramSize). present g b"
    by (auto simp: addKeyToBloom_def c(1))
  moreover have "present g b" if "present g c" for g
    using present_mono [OF default_shape_usable [OF c(2)] that b(2)] .
  ultimately show thesis using c same_shape_default that by (auto simp: summarizes_def)
qed

lemma summarizes_mono: "summarizes bo S \<Longrightarrow> T \<subseteq> S \<Longrightarrow> summarizes bo T"
  by (auto simp: summarizes_def)

lemma Bloom_Or_present:
  assumes "default_shape b" "default_shape c"
  shows "default_shape (Bloom_Or b c)" "present g b \<Longrightarrow> present g (Bloom_Or b c)"
    "present g c \<Longrightarrow> present g (Bloom_Or b c)"
proof -
  have eq: "length (bf_bits b) = length (bf_bits c)" "bf_hashCount b = bf_hashCount c"
    using assms by (simp_all add: default_shape_def)
  show "default_shape (Bloom_Or b c)" using assms Bloom_Or_ok(1) [OF eq] same_shape_default by blast
  show "present g b \<Longrightarrow> present g (Bloom_Or b c)"
    using present_mono [OF default_shape_usable [OF assms(1)] _ Bloom_Or_ok(1) [OF eq]] .
  show "present g c \<Longrightarrow> present g (Bloom_Or b c)"
    using present_mono [OF default_shape_usable [OF assms(2)] _ Bloom_Or_ok(2) [OF eq]] .
qed

lemma foldl_Or:
  assumes "default_shape b" "\<forall>x\<in>set bs. \<exists>c. x = Some c \<and> default_shape c"
  defines "f \<equiv> foldl (\<lambda>bf c. case c of None \<Rightarrow> bf | Some b \<Rightarrow> Bloom_Or bf b)"
  shows "default_shape (f b bs) \<and> (\<forall>g. present g b \<longrightarrow> present g (f b bs))
    \<and> (\<forall>c g. Some c \<in> set bs \<longrightarrow> present g c \<longrightarrow> present g (f b bs))"
  using assms(1,2)
proof (induction bs arbitrary: b)
  case (Cons x bs)
  then obtain c where c: "x = Some c" "default_shape c" by auto
  note or = Bloom_Or_present [OF Cons.prems(1) c(2)]
  from Cons.IH [OF or(1)] Cons.prems(2) or c show ?case by (auto simp: f_def)
qed (simp add: f_def)

lemma summarizes_or:
  assumes "\<forall>x\<in>set bs. \<exists>T. summarizes x T" "\<forall>k\<in>S. \<exists>x\<in>set bs. \<exists>T. k \<in> T \<and> summarizes x T"
  shows "summarizes (Some (orChildren 0 0 bs)) S"
proof -
  have "\<forall>x\<in>set bs. \<exists>c. x = Some c \<and> default_shape c" using assms(1) by (auto simp: summarizes_def)
  note f = foldl_Or [OF default_shape_new this]
  show ?thesis
    unfolding summarizes_def orChildren_def orDefault_0
    using f assms(2) unfolding summarizes_def by fastforce
qed

subsection \<open>Splitting\<close>

lemma groups_segs: "fst ` set (groups p es) = {seg_of p k |k. k \<in> set es \<and> length p < length k}"
  by (auto simp: groups_def image_iff)

lemma groups_distinct: "distinct (map fst (groups p es))"
  by (simp add: groups_def comp_def)

lemma groups_member: "(seg, ks) \<in> set (groups p es) \<Longrightarrow> ks = group p es seg"
  by (auto simp: groups_def)

lemma set_group: "\<forall>k\<in>set es. length p < length k \<Longrightarrow> set (group p es seg) = below p seg (set es)"
  by (auto simp: group_def below_def)

lemma separated_lt:
  assumes "separated K" "set es \<subseteq> K" "distinct es" "1 < length es" "\<forall>k\<in>set es. routes k p" "k \<in> set es"
  shows "length p < length k"
proof -
  have "\<not> set es \<subseteq> {k}"
    using assms(3,4) card_mono [of "{k}" "set es"] by (auto simp: distinct_card)
  then obtain k' where k': "k' \<in> set es" "k \<noteq> k'" by auto
  then have "k \<in> K" "k' \<in> K" "routes k p" "routes k' p" using assms(2,5,6) by auto
  with assms(1) k'(2) show ?thesis by (simp add: separated_def)
qed

definition closed_under :: "string set \<Rightarrow> string set \<Rightarrow> bool" where
  "closed_under U K \<longleftrightarrow> (\<forall>k\<in>K. \<forall>p\<in>U. length p < length k \<longrightarrow> p @ seg_of p k \<in> U)"

lemma split_built:
  assumes "separated K" "closed_under U K" "h_Prefix h \<in> U" "set es \<subseteq> K" "distinct es"
    "\<forall>k\<in>set es. routes k (h_Prefix h)"
  shows "built U K False (h_Prefix h) (set es) (split_leaf h es)"
  using assms(3-6)
proof (induction h es rule: split_leaf.induct)
  case (1 h es)
  show ?case
  proof (cases "length es \<le> MAX_BUCKET_SIZE")
    case True
    with "1.prems" show ?thesis by (simp add: split_leaf.simps [of h es] built_leaf)
  next
    case False
    let ?p = "h_Prefix h"
    let ?cs = "map (\<lambda>(seg, ks). (seg, Some (split_leaf (emptyHdr (?p @ seg)) ks))) (groups ?p es)"
    have split: "split_leaf h es = Internal h ?cs" using False by (simp add: split_leaf.simps [of h es])
    have lt: "\<forall>k\<in>set es. length ?p < length k"
      using separated_lt [OF assms(1)] "1.prems" False by (auto simp: MAX_BUCKET_SIZE_def)
    have segs: "map fst ?cs = map fst (groups ?p es)" by (simp add: case_prod_unfold comp_def)
    then have "segs_of ?cs = fst ` set (groups ?p es)" by (metis list.set_map)
    then have rt: "routing_node ?p ?cs (set es)"
      unfolding routing_node_def segs using groups_distinct lt by (auto simp: groups_segs)
    have "built U K False (?p @ seg) (below ?p seg (set es)) (split_leaf (emptyHdr (?p @ seg)) ks)"
      if g: "(seg, ks) \<in> set (groups ?p es)" for seg ks
    proof -
      have ks: "ks = group ?p es seg" using groups_member [OF g] .
      have sub: "set ks = below ?p seg (set es)" unfolding ks using lt by (rule set_group)
      obtain k where k: "k \<in> set es" "length ?p < length k" "seg = seg_of ?p k"
        using g groups_segs [of ?p es] by force
      then have "?p @ seg \<in> U" using assms(2) "1.prems" by (auto simp: closed_under_def)
      moreover have "\<forall>k\<in>set ks. routes k (?p @ seg)"
        using "1.prems"(4) lt by (auto simp: sub below_def intro: routes_step)
      moreover have "set ks \<subseteq> K" "distinct ks"
        using "1.prems" by (auto simp: ks group_def)
      moreover have "\<not> length es \<le> MAX_BUCKET_SIZE" using False .
      ultimately show ?thesis
        using "1.IH" [OF False g, of seg ks] by (simp add: emptyHdr_def sub)
    qed
    with "1.prems" rt show ?thesis
      unfolding split by (intro built_internal) (auto simp: case_prod_unfold)
  qed
qed

subsection \<open>Summaries, stamps and versions\<close>

lemma BuildNodeBloom_built:
  assumes "built U K b p S n"
  shows "built U K True p S (BuildNodeBloom 0 0 0 n)
    \<and> summarizes (h_Bloom (nhdr (BuildNodeBloom 0 0 0 n))) S"
  using assms
proof induction
  case (built_leaf p es h)
  then show ?case using summarizes_leaf by (auto intro!: built.built_leaf)
next
  case (built_internal p S h cs)
  let ?B = "BuildNodeBloom 0 0 0"
  let ?cs = "map (map_prod id (map_option ?B)) cs"
  have ch: "\<exists>n. c = Some n \<and> built U K True (p @ seg) (below p seg S) (?B n)
      \<and> summarizes (h_Bloom (nhdr (?B n))) (below p seg S)" if "(seg, c) \<in> set cs" for seg c
    using built_internal.IH that by fastforce
  let ?bs = "map (\<lambda>c. Option.bind (snd c) (\<lambda>n. h_Bloom (nhdr n))) ?cs"
  have bs: "\<exists>x\<in>set ?bs. summarizes x (below p (fst c) S)" if "c \<in> set cs" for c
    using ch [of "fst c" "snd c"] that by force
  have "\<forall>x\<in>set ?bs. \<exists>T. summarizes x T" using ch by force
  moreover have "\<forall>k\<in>S. \<exists>x\<in>set ?bs. \<exists>T. k \<in> T \<and> summarizes x T"
  proof
    fix k assume "k \<in> S"
    with built_internal.hyps(4) obtain c where "c \<in> set cs" "seg_of p k = fst c"
      by (fastforce simp: routing_node_def)
    moreover from bs [OF this(1)] obtain x where "x \<in> set ?bs" "summarizes x (below p (fst c) S)"
      by blast
    moreover have "k \<in> below p (fst c) S" using \<open>k \<in> S\<close> calculation by (simp add: below_def)
    ultimately show "\<exists>x\<in>set ?bs. \<exists>T. k \<in> T \<and> summarizes x T" by blast
  qed
  ultimately have sum: "summarizes (Some (orChildren 0 0 ?bs)) S" by (rule summarizes_or)
  have "routing_node p ?cs S"
    using built_internal.hyps(4) by (simp add: routing_node_def image_image comp_def)
  moreover have "\<forall>(seg, c)\<in>set ?cs. \<exists>n. c = Some n \<and> built U K True (p @ seg) (below p seg S) n"
    using ch by fastforce
  ultimately show ?case
    using built_internal.hyps sum by (simp add: Let_def) (rule built.built_internal, simp_all)
qed

lemma walk_built:
  assumes "built U K b p S n" "\<And>h. h_Prefix (f h) = h_Prefix h" "\<And>h. h_Bloom (f h) = h_Bloom h"
  shows "built U K b p S (walk f n)"
  using assms(1)
proof induction
  case (built_leaf p es h)
  then show ?case using assms(2,3) by (auto intro!: built.built_leaf)
next
  case (built_internal p S h cs)
  let ?cs = "map (map_prod id (map_option (walk f))) cs"
  have "routing_node p ?cs S"
    using built_internal.hyps(4) by (simp add: routing_node_def image_image comp_def)
  moreover have "\<forall>(seg, c)\<in>set ?cs. \<exists>n. c = Some n \<and> built U K b (p @ seg) (below p seg S) n"
    using built_internal.IH by fastforce
  ultimately show ?case
    using built_internal.hyps assms(2,3) by simp (rule built.built_internal, simp_all)
qed

lemma insertLeaf_built:
  assumes "separated K" "closed_under U K" "h_Prefix h \<in> U" "insert k (set es) \<subseteq> K" "distinct es"
    "routes k (h_Prefix h)" "\<forall>x\<in>set es. routes x (h_Prefix h)"
  shows "built U K True (h_Prefix h) (insert k (set es)) (insertLeaf k fence (Leaf h es))"
proof -
  let ?es = "if k \<in> set es then es else es @ [k]"
  have es: "set ?es = insert k (set es)" "distinct ?es" "\<forall>x\<in>set ?es. routes x (h_Prefix h)"
    using assms(5,6,7) by auto
  have "built U K False (h_Prefix h) (set ?es) (split_leaf h ?es)"
    by (rule split_built [OF assms(1,2,3)]) (use assms(4) es in simp_all)
  then have "built U K True (h_Prefix h) (set ?es) (BuildNodeBloom 0 0 0 (split_leaf h ?es))"
    using BuildNodeBloom_built by blast
  then have "built U K True (h_Prefix h) (insert k (set es)) (BuildNodeBloom 0 0 0 (split_leaf h ?es))"
    unfolding es(1) .
  then show ?thesis
    unfolding insertLeaf_def stampWriteFence_def incrementVersions_def MaybeSplit_def Let_def
    by (intro walk_built) (simp_all split: if_splits)
qed

end
