(* ===== verification/PHT_Store.thy ===== *)
theory PHT_Store
  imports PHT_Build
begin

text \<open>
  From the built subtree to the stored one. \<open>pht_store\<close> is the contract of what the index is written
  over: the JSON and base64 codecs give back what they encoded, SHA-256 has no collision among the
  prefixes in play, and a put that succeeds changes what is read under no other key. Nothing is
  assumed of a read after a put: the cache of the writer is there because the network may not
  return it yet.
\<close>

subsection \<open>The nodes of a built tree\<close>

definition nodes :: "Node \<Rightarrow> Node list" where
  "nodes n = map the (postorder n)"

fun strip :: "Node \<Rightarrow> Node" where
  "strip (Leaf h es) = Leaf h es"
| "strip (Internal h cs) = Internal h (map (\<lambda>c. (fst c, None)) cs)"

lemma nhdr_strip [simp]: "nhdr (strip n) = nhdr n"
  by (cases n) simp_all

lemma nodes_Leaf [simp]: "nodes (Leaf h es) = [Leaf h es]"
  by (simp add: nodes_def)

lemma nodes_Internal:
  assumes "\<forall>(seg, c)\<in>set cs. \<exists>n. c = Some n"
  shows "nodes (Internal h cs) = concat (map (\<lambda>c. nodes (the (snd c))) cs) @ [Internal h cs]"
  using assms by (induction cs) (auto simp: nodes_def)

lemma postorder_nodes: "built U K b p S n \<Longrightarrow> postorder n = map Some (nodes n)"
proof (induction rule: built.induct)
  case (built_internal p S h cs)
  then have "\<forall>(seg, c)\<in>set cs. \<exists>n. c = Some n \<and> postorder n = map Some (nodes n)" by fastforce
  then show ?case by (induction cs) (auto simp: nodes_def)
qed simp

lemma built_prefix: "built U K b p S n \<Longrightarrow> pfx_of n = p"
  by (induction rule: built.induct) simp_all

lemma nodes_self: "n \<in> set (nodes n)"
  by (cases n) (simp_all add: nodes_def)

lemma built_children:
  assumes "\<forall>(seg, c)\<in>set cs. \<exists>n. c = Some n \<and> P seg n" "c \<in> set cs"
  obtains n where "snd c = Some n" "P (fst c) n"
  using assms by fastforce

lemma nodes_below: "built U K b p S n \<Longrightarrow> m \<in> set (nodes n) \<Longrightarrow> prefix p (pfx_of m)"
proof (induction rule: built.induct)
  case (built_internal p S h cs)
  then have cs: "nodes (Internal h cs) = concat (map (\<lambda>c. nodes (the (snd c))) cs) @ [Internal h cs]"
    by (intro nodes_Internal) fastforce
  have "prefix p (pfx_of m)" if "c \<in> set cs" "m \<in> set (nodes (the (snd c)))" for c
    using built_children [OF built_internal.IH that(1)] that(2)
    by (metis append_prefixD option.sel)
  with built_internal.prems built_internal.hyps(3) show ?case unfolding cs by auto
qed simp

lemma distinct_concat_apart:
  assumes "distinct (map fst cs)" "\<forall>c\<in>set cs. distinct (map f (g c))"
    "\<forall>c\<in>set cs. \<forall>d\<in>set cs. c \<noteq> d \<longrightarrow> f ` set (g c) \<inter> f ` set (g d) = {}"
  shows "distinct (map f (concat (map g cs)))"
  using assms
proof (induction cs)
  case (Cons c cs)
  then have "c \<notin> set cs" by force
  then have "f ` set (g c) \<inter> f ` set (g d) = {}" if "d \<in> set cs" for d
    using Cons.prems(3) that by (metis list.set_intros)
  then have "f ` set (g c) \<inter> f ` set (concat (map g cs)) = {}" by auto
  with Cons show ?case by simp
qed simp

lemma nodes_distinct: "built U K b p S n \<Longrightarrow> distinct (map pfx_of (nodes n))"
proof (induction rule: built.induct)
  case (built_internal p S h cs)
  then have cs: "nodes (Internal h cs) = concat (map (\<lambda>c. nodes (the (snd c))) cs) @ [Internal h cs]"
    by (intro nodes_Internal) fastforce
  have ch: "distinct (map pfx_of (nodes (the (snd c)))) \<and>
      (\<forall>m\<in>set (nodes (the (snd c))). prefix (p @ fst c) (pfx_of m))" if "c \<in> set cs" for c
    using built_children [OF built_internal.IH that] nodes_below by (metis option.sel)
  have seg: "fst c \<in> range byte_string" if "c \<in> set cs" for c
    using built_internal.hyps(4) that by (auto simp: routing_node_def)
  have dist: "distinct (map fst cs)" using built_internal.hyps(4) by (simp add: routing_node_def)
  have apart: "pfx_of ` set (nodes (the (snd c))) \<inter> pfx_of ` set (nodes (the (snd d))) = {}"
    if "c \<in> set cs" "d \<in> set cs" "c \<noteq> d" for c d
  proof -
    have "fst c \<noteq> fst d" using dist that by (auto simp: distinct_map inj_on_def)
    then have "\<not> (prefix (p @ fst c) q \<and> prefix (p @ fst d) q)" for q
      using siblings_apart [OF seg [OF that(1)] seg [OF that(2)]] by blast
    with ch [OF that(1)] ch [OF that(2)] show ?thesis by fastforce
  qed
  have "p \<notin> pfx_of ` set (concat (map (\<lambda>c. nodes (the (snd c))) cs))"
  proof
    assume "p \<in> pfx_of ` set (concat (map (\<lambda>c. nodes (the (snd c))) cs))"
    then obtain c m where "c \<in> set cs" "m \<in> set (nodes (the (snd c)))" "pfx_of m = p" by auto
    with ch have "prefix (p @ fst c) p" by blast
    then have "fst c = []" by (simp add: prefix_def)
    with seg [OF \<open>c \<in> set cs\<close>] show False by (metis byte_string_ne imageE)
  qed
  moreover have "distinct (map pfx_of (concat (map (\<lambda>c. nodes (the (snd c))) cs)))"
    using dist ch apart by (intro distinct_concat_apart) auto
  ultimately show ?case unfolding cs using built_internal.hyps(3) by simp
qed simp

lemma tree_of_built:
  assumes "built U K True p S n" "\<forall>m\<in>set (nodes n). lk (pfx_of m) = Inr (strip m)"
    "\<forall>q c. q \<in> U \<longrightarrow> prefix (p @ byte_string c) q \<longrightarrow> q \<notin> pfx_of ` set (nodes n) \<longrightarrow> absent (lk q)"
  shows "index_tree U lk p S"
  using assms
proof induction
  case (built_leaf p es h)
  have "absent (lk (p @ byte_string c @ q))" if "p @ byte_string c @ q \<in> U" for c q
    using built_leaf.prems(2) [rule_format, OF that, of c] built_leaf.hyps(3) by simp
  then have "vacant U lk p {}" by (simp add: vacant_def)
  with built_leaf show ?case by (auto intro: tree_leaf)
next
  case (built_internal p S h cs)
  then have cs: "nodes (Internal h cs) = concat (map (\<lambda>c. nodes (the (snd c))) cs) @ [Internal h cs]"
    by (intro nodes_Internal) fastforce
  let ?sub = "\<lambda>c. set (nodes (the (snd c)))"
  have seg: "fst c \<in> range byte_string" if "c \<in> set cs" for c
    using built_internal.hyps(4) that by (auto simp: routing_node_def)
  have below: "prefix (p @ fst c) (pfx_of m)" if "c \<in> set cs" "m \<in> ?sub c" for c m
    using built_children [OF built_internal.IH that(1)] nodes_below that(2) by (metis option.sel)
  have gone: "absent (lk q)"
    if q: "q \<in> U" "prefix (p @ byte_string a) q" "\<forall>c\<in>set cs. fst c = byte_string a \<longrightarrow> q \<notin> pfx_of ` ?sub c"
    for q a
  proof -
    have "q \<noteq> p" using q(2) by (auto simp: prefix_def)
    moreover have "q \<notin> pfx_of ` ?sub c" if "c \<in> set cs" for c
      using siblings_apart [OF seg [OF that] _ _ q(2)] below [OF that] q(3) that by fastforce
    ultimately have "q \<notin> pfx_of ` set (nodes (Internal h cs))"
      unfolding cs using built_internal.hyps(3) by auto
    then show ?thesis using built_internal.prems(2) q(1,2) by blast
  qed
  have "index_tree U lk (p @ seg) (below p seg S)" if "seg \<in> segs_of cs" for seg
  proof -
    from that obtain c where c: "c \<in> set cs" "seg = fst c" by auto
    obtain n where n: "snd c = Some n" and
      IH: "(\<forall>m\<in>set (nodes n). lk (pfx_of m) = Inr (strip m)) \<longrightarrow>
        (\<forall>q b. q \<in> U \<longrightarrow> prefix ((p @ fst c) @ byte_string b) q \<longrightarrow> q \<notin> pfx_of ` set (nodes n) \<longrightarrow>
          absent (lk q)) \<longrightarrow>
        index_tree U lk (p @ fst c) (below p (fst c) S)"
      using built_children [OF built_internal.IH c(1)] by (metis (no_types, lifting))
    have same: "d = c" if "d \<in> set cs" "fst d = fst c" for d
      using built_internal.hyps(4) c(1) that by (auto simp: routing_node_def distinct_map inj_on_def)
    from seg [OF c(1)] obtain a where a: "fst c = byte_string a" by auto
    have "\<forall>m\<in>set (nodes n). lk (pfx_of m) = Inr (strip m)"
      using built_internal.prems(1) c n unfolding cs by fastforce
    moreover have "\<forall>q b. q \<in> U \<longrightarrow> prefix ((p @ fst c) @ byte_string b) q \<longrightarrow>
        q \<notin> pfx_of ` set (nodes n) \<longrightarrow> absent (lk q)"
      using gone [of _ a] same n a by (metis append_prefixD option.sel)
    ultimately show ?thesis using IH c by simp
  qed
  moreover have "vacant U lk p (segs_of cs)"
    unfolding vacant_def using gone by (metis append.assoc image_eqI prefixI)
  moreover have "lk p = Inr (Internal h (map (\<lambda>c. (fst c, None)) cs))"
    using built_internal.prems(1) built_internal.hyps(3) unfolding cs by simp
  moreover have "routing_node p (map (\<lambda>c. (fst c, None)) cs) S"
    using built_internal.hyps(4) by (simp add: routing_node_def image_image comp_def)
  ultimately show ?case
    using built_internal.hyps
    by (intro tree_internal [of p U lk h "map (\<lambda>c. (fst c, None)) cs"]) (simp_all add: image_image)
qed

subsection \<open>The contract of the store\<close>

definition wire_text :: "(string \<Rightarrow> bool) \<Rightarrow> nodeWire \<Rightarrow> bool" where
  "wire_text utf8 w \<longleftrightarrow> utf8 (w_Writer w) \<and> utf8 (w_Prefix w) \<and> utf8 (w_BloomB64 w)
     \<and> (\<forall>e\<in>set (w_Entries w). utf8 e) \<and> (\<forall>g\<in>set (w_Segments w). utf8 g)"

text \<open>The operations a writer uses, whatever they are, as a register file \<open>vw\<close>.\<close>

locale value_cache =
  fixes get :: "string \<Rightarrow> ('s, bytes) op" and put :: "string \<Rightarrow> bytes \<Rightarrow> ('s, unit) op"
    and vw :: "'s \<Rightarrow> string \<Rightarrow> bytes result"
  assumes get_view: "get k s = (r, t) \<Longrightarrow> r = vw s k \<and> vw t = vw s"
    and put_view: "put k v s = (Inr (), t) \<Longrightarrow> vw t = (vw s)(k := Inr v)"
begin

lemma GetNode_view:
  assumes "GetNode E get p s = (r, t)"
  shows "r = bindR (vw s (phtKey E p)) (decodeNode E) \<and> vw t = vw s"
proof -
  obtain q u where q: "get (phtKey E p) s = (q, u)" by (cases "get (phtKey E p) s")
  with assms get_view [OF q] show ?thesis
    by (cases "vw s (phtKey E p)") (auto simp: GetNode_def bindS_def liftR_def)
qed

lemma PutNode_view:
  assumes "PutNode E put n s = (Inr (), t)"
  obtains d where "js_Marshal E (wireOf E n) = Inr d" "vw t = (vw s)(phtKey E (pfx_of n) := Inr d)"
  using assms unfolding PutNode_def by (auto simp: op_inv result_inv dest!: put_view)

end

locale network =
  fixes V :: "'n valuestore"
  assumes put_other: "vs_PutValue V k v b = (Inr (), b') \<Longrightarrow> k' \<noteq> k \<Longrightarrow> vs_GetValue V b' k' = vs_GetValue V b k'"

sublocale network < cache: value_cache "cache_GetValue V" "cache_PutValue V" "view V"
proof
  fix k s r t assume "cache_GetValue V k s = (r, t)"
  then show "r = view V s k \<and> view V t = view V s"
    by (auto simp: cache_GetValue_def view_def fun_eq_iff split: option.splits sum.splits if_splits)
next
  fix k v s t assume "cache_PutValue V k v s = (Inr (), t)"
  then show "view V t = (view V s)(k := Inr v)"
    by (auto simp: cache_PutValue_def view_def fun_eq_iff put_other split: option.splits prod.splits sum.splits)
qed

text \<open>A node the index writes: it is read back as it was, with the children not loaded.\<close>

definition storable :: "(string \<Rightarrow> bool) \<Rightarrow> string set \<Rightarrow> string set \<Rightarrow> Node \<Rightarrow> bool" where
  "storable utf8 U K n \<longleftrightarrow> pfx_of n \<in> U \<and> utf8 (h_Writer (nhdr n))
     \<and> (\<exists>b. h_Bloom (nhdr n) = Some b \<and> default_shape b)
     \<and> (case n of Leaf _ es \<Rightarrow> set es \<subseteq> K
        | Internal _ cs \<Rightarrow> distinct (map fst cs) \<and> segs_of cs \<subseteq> range byte_string)"

locale pht_codec =
  fixes E :: pht_env and utf8 :: "string \<Rightarrow> bool" and U K :: "string set"
  assumes json: "wire_text utf8 w \<Longrightarrow> js_Marshal E w = Inr d \<Longrightarrow> js_Unmarshal E d = Inr w"
    and base64: "b64_Decode E (b64_Encode E b) = Inr b" "b64_Encode E b = [] \<Longrightarrow> b = []" "utf8 (b64_Encode E b)"
    and hash_inj: "inj_on (ph_Sum256 E) U"
    and utf8_text: "p \<in> U \<Longrightarrow> utf8 p" "k \<in> K \<Longrightarrow> utf8 k" "utf8 (byte_string c)" "utf8 []"
    and root_in: "[] \<in> U"
    and U_segmented: "p \<in> U \<Longrightarrow> segmented p"
    and closed: "closed_under U K"
    and sep: "separated K"
begin

lemma phtKey_inj: "p \<in> U \<Longrightarrow> q \<in> U \<Longrightarrow> phtKey E p = phtKey E q \<longleftrightarrow> p = q"
  using hash_inj by (auto simp: phtKey_def HashPrefix_def inj_on_def)

lemma bloom_reload: "default_shape b \<Longrightarrow> NewBloomFilterFromBinary (Bloom_MarshalBinary b) = b"
  unfolding NewBloomFilterFromBinary_def by (rule Bloom_restored) (simp add: default_shape_def)

lemma nodeOf_wireOf: "storable utf8 U K n \<Longrightarrow> nodeOf E (wireOf E n) = strip n"
proof -
  assume st: "storable utf8 U K n"
  then obtain b where b: "h_Bloom (nhdr n) = Some b" "default_shape b" by (auto simp: storable_def)
  have "Bloom_MarshalBinary b \<noteq> []"
    by (simp add: Bloom_MarshalBinary_def LE_PutUint32_def flip: length_0_conv)
  then have "b64_Encode E (Bloom_MarshalBinary b) \<noteq> []" using base64(2) by blast
  with st b bloom_reload show ?thesis
    by (cases n) (auto simp: nodeOf_def base64(1) storable_def Let_def distinct_remdups_id comp_def)
qed

lemma wire_text_storable: "storable utf8 U K n \<Longrightarrow> wire_text utf8 (wireOf E n)"
  using utf8_text base64(3) by (cases n) (auto simp: storable_def wire_text_def)

end

locale pht_store = network V + pht_codec E utf8 U K
  for V :: "'n valuestore" and E :: pht_env and utf8 :: "string \<Rightarrow> bool" and U K :: "string set"
begin

lemma getNode_look: "getNode E V p s = (r, t) \<Longrightarrow> r = look E V s p \<and> view V t = view V s"
  using cache.GetNode_view by (simp add: look_def)

lemma look_view: "view V t = view V s \<Longrightarrow> look E V t = look E V s"
  by (simp add: look_def fun_eq_iff)

lemma PutNode_look:
  assumes "PutNode E (cache_PutValue V) n s = (Inr (), t)" "storable utf8 U K n" "q \<in> U"
  shows "look E V t q = (if q = pfx_of n then Inr (strip n) else look E V s q)"
proof -
  obtain d where d: "js_Marshal E (wireOf E n) = Inr d" "view V t = (view V s)(phtKey E (pfx_of n) := Inr d)"
    using cache.PutNode_view [OF assms(1)] .
  have "js_Unmarshal E d = Inr (wireOf E n)" using json [OF wire_text_storable d(1)] assms(2) .
  then have "decodeNode E d = Inr (strip n)" by (simp add: decodeNode_def nodeOf_wireOf [OF assms(2)])
  moreover have "pfx_of n \<in> U" using assms(2) by (simp add: storable_def)
  ultimately show ?thesis using phtKey_inj assms(3) by (auto simp: look_def d(2))
qed

lemma putAll_look:
  assumes "putAll E (cache_PutValue V) (map Some ns) s = (Inr (), t)" "\<forall>n\<in>set ns. storable utf8 U K n"
    "distinct (map pfx_of ns)"
  shows "(\<forall>n\<in>set ns. look E V t (pfx_of n) = Inr (strip n)) \<and> (\<forall>q\<in>U. q \<notin> pfx_of ` set ns \<longrightarrow> look E V t q = look E V s q)"
  using assms
proof (induction ns arbitrary: s)
  case Nil
  then show ?case by (simp add: op_inv)
next
  case (Cons n ns)
  then obtain u where u: "PutNode E (cache_PutValue V) n s = (Inr (), u)"
    and t: "putAll E (cache_PutValue V) (map Some ns) u = (Inr (), t)" by (auto simp: op_inv)
  have IH: "\<forall>n\<in>set ns. look E V t (pfx_of n) = Inr (strip n)" "\<forall>q\<in>U. q \<notin> pfx_of ` set ns \<longrightarrow> look E V t q = look E V u q"
    using Cons.IH [OF t] Cons.prems by auto
  have st: "storable utf8 U K n" "pfx_of n \<in> U" "pfx_of n \<notin> pfx_of ` set ns"
    using Cons.prems by (auto simp: storable_def)
  note put = PutNode_look [OF u st(1)]
  have "look E V t (pfx_of n) = Inr (strip n)" using IH(2) st put by simp
  moreover have "\<forall>q\<in>U. q \<notin> pfx_of ` set (n # ns) \<longrightarrow> look E V t q = look E V s q" using IH(2) put by auto
  ultimately show ?case using IH(1) by simp
qed

end

end
