(* ===== verification/PHT_Insert.thy ===== *)
theory PHT_Insert
  imports PHT_Store
begin

text \<open>
  Insertion refines set insertion. \<open>climb\<close> is the trace of the descent: the leaf reached and the internal
  nodes passed, with what the stored tree says of each. The descent always returns, and yields a
  climb or an error; a climb whose leaf subtree and ancestors have been rewritten is again a
  stored tree, for one more key.
\<close>

inductive climb ::
  "string set \<Rightarrow> (string \<Rightarrow> Node result) \<Rightarrow> string \<Rightarrow> string \<Rightarrow> string set \<Rightarrow> Node list \<Rightarrow> Node \<Rightarrow> bool"
  for U lk k where
  climb_leaf:
    "p \<in> U \<Longrightarrow> routes k p \<Longrightarrow> h_Prefix h = p \<Longrightarrow> distinct es \<Longrightarrow> \<forall>x\<in>set es. routes x p \<Longrightarrow>
     vacant U lk p {} \<Longrightarrow> lk p = Inr (Leaf h es) \<or> Leaf h es = NewLeaf p \<Longrightarrow>
     climb U lk k p (set es) [] (Leaf h es)"
| climb_step:
    "p \<in> U \<Longrightarrow> routes k p \<Longrightarrow> length p < length k \<Longrightarrow> h_Prefix h = p \<Longrightarrow> routing_node p cs S \<Longrightarrow>
     summarizes (h_Bloom h) S \<Longrightarrow> vacant U lk p (segs_of cs) \<Longrightarrow>
     \<forall>seg\<in>segs_of cs. index_tree U lk (p @ seg) (below p seg S) \<Longrightarrow>
     climb U lk k (p @ seg_of p k) (below p (seg_of p k) S) as leaf \<Longrightarrow>
     climb U lk k p S (addChild (seg_of p k) (Internal h cs) # as) leaf"

lemma NewLeaf_prefix [simp]: "pfx_of (NewLeaf p) = p"
  by (simp add: NewLeaf_def emptyHdr_def)

lemma addChild_known: "seg \<in> segs_of cs \<Longrightarrow> addChild seg (Internal h cs) = Internal h cs"
  by simp

lemma climb_facts:
  "climb U lk k p S as leaf \<Longrightarrow>
     (\<exists>h es. leaf = Leaf h es \<and> h_Prefix h \<in> U \<and> routes k (h_Prefix h) \<and> distinct es
        \<and> (\<forall>x\<in>set es. routes x (h_Prefix h)) \<and> set es \<subseteq> S \<and> prefix p (h_Prefix h)
        \<and> vacant U lk (h_Prefix h) {}
        \<and> (lk (h_Prefix h) = Inr leaf \<or> leaf = NewLeaf (h_Prefix h)))"
proof (induction rule: climb.induct)
  case (climb_step p h cs S as leaf)
  then show ?case by (fastforce simp: below_def dest: append_prefixD)
qed auto

lemma climb_prefixes:
  "climb U lk k p S as leaf \<Longrightarrow> \<forall>a\<in>set as. prefix p (pfx_of a) \<and> strict_prefix (pfx_of a) (pfx_of leaf)"
proof (induction rule: climb.induct)
  case (climb_step p h cs S as leaf)
  from climb_facts [OF climb_step.hyps(9)] have "prefix (p @ seg_of p k) (pfx_of leaf)" by auto
  then have "strict_prefix p (pfx_of leaf)"
    by (metis append_self_conv byte_string_ne prefix_order.le_less_trans seg_of_def strict_prefixI' prefixI prefix_order.less_le same_prefix_prefix prefix_Nil)
  with climb_step show ?case by (auto dest: append_prefixD)
qed simp

lemma climb_distinct: "climb U lk k p S as leaf \<Longrightarrow> distinct (map pfx_of as)"
proof (induction rule: climb.induct)
  case (climb_step p h cs S as leaf)
  have "pfx_of a \<noteq> p" if "a \<in> set as" for a
    using climb_prefixes [OF climb_step.hyps(9)] that
    by (metis append_self_conv byte_string_ne prefix_order.antisym prefixI same_prefix_prefix prefix_Nil seg_of_def)
  then have "p \<notin> pfx_of ` set as" by auto
  with climb_step.IH climb_step.hyps(4) show ?case by simp
qed simp

subsection \<open>The rewritten ancestors\<close>

definition lifted :: "string \<Rightarrow> WriteFence \<Rightarrow> Node \<Rightarrow> Node" where
  "lifted k fence a =
     (case addKeyBloom k a of Inl _ \<Rightarrow> a | Inr b \<Rightarrow> bumpVersion (stampWriteFence fence b))"

lemma lifted_Internal:
  assumes "summarizes (h_Bloom h) S"
  obtains h' cs' where "\<exists>b. addKeyBloom k (Internal h cs) = Inr b"
    "lifted k fence (Internal h cs) = Internal h' cs'" "map fst cs' = map fst cs"
    "h_Prefix h' = h_Prefix h" "h_Writer h' = wf_Writer fence" "summarizes (h_Bloom h') (insert k S)"
proof -
  obtain b where b: "addKeyToBloom (h_Bloom h) k = Some b" "summarizes (Some b) (insert k S)"
    using summarizes_add [OF assms] .
  show thesis
    by (rule that [of "h\<lparr>h_Bloom := Some b, h_Epoch := wf_Epoch fence, h_Writer := wf_Writer fence,
          h_Version := h_Version h + 1\<rparr>" "map (map_prod id (map_option (walk
            (\<lambda>h. h\<lparr>h_Epoch := wf_Epoch fence, h_Writer := wf_Writer fence\<rparr>)))) cs"])
      (simp_all add: addKeyBloom_def lifted_def bumpVersion_def stampWriteFence_def b comp_def)
qed

lemma addChild_routing:
  assumes "routing_node p cs S" "length p < length k"
  obtains cs' where "addChild (seg_of p k) (Internal h cs) = Internal h cs'"
    "segs_of cs' = insert (seg_of p k) (segs_of cs)" "routing_node p cs' (insert k S)"
proof (cases "seg_of p k \<in> segs_of cs")
  case True
  with assms show thesis by (intro that [of cs]) (auto simp: routing_node_def)
next
  case False
  with assms show thesis by (intro that [of "cs @ [(seg_of p k, None)]"]) (auto simp: routing_node_def)
qed

lemma climb_rebuilt:
  assumes "climb U lk k p S as leaf"
    "index_tree U lk' (pfx_of leaf) (insert k (set (nentries leaf)))"
    "\<forall>a\<in>set as. lk' (pfx_of a) = Inr (strip (lifted k fence a))"
    "\<forall>q\<in>U. prefix p q \<longrightarrow> \<not> prefix (pfx_of leaf) q \<longrightarrow> q \<notin> pfx_of ` set as \<longrightarrow> lk' q = lk q"
  shows "index_tree U lk' p (insert k S)"
  using assms
proof induction
  case (climb_leaf p h es)
  then show ?case by simp
next
  case (climb_step p h cs S as leaf)
  let ?g = "seg_of p k"
  let ?a = "addChild ?g (Internal h cs)"
  obtain cs1 where cs1: "?a = Internal h cs1" "segs_of cs1 = insert ?g (segs_of cs)"
    "routing_node p cs1 (insert k S)"
    using addChild_routing [OF climb_step.hyps(5,3)] .
  obtain h2 cs2 where l: "lifted k fence (Internal h cs1) = Internal h2 cs2" "map fst cs2 = map fst cs1"
    "h_Prefix h2 = h_Prefix h" "summarizes (h_Bloom h2) (insert k S)"
    using lifted_Internal [OF climb_step.hyps(6)] by metis
  let ?cs = "map (\<lambda>c. (fst c, None)) cs2"
  have fst: "map fst ?cs = map fst cs1" using l(2) by (simp add: comp_def)
  then have segs: "segs_of ?cs = insert ?g (segs_of cs)" unfolding cs1(2) [symmetric] by (metis list.set_map)
  have own: "lk' p = Inr (Internal h2 ?cs)"
    using climb_step.prems(2) cs1(1) l climb_step.hyps(4) by simp
  have leaf: "prefix (p @ ?g) (pfx_of leaf)" using climb_facts [OF climb_step.hyps(9)] by auto
  have outside: "lk' q = lk q" if "q \<in> U" "prefix (p @ c) q" "c \<in> range byte_string" "c \<noteq> ?g" for q c
  proof -
    have n: "\<not> prefix (p @ ?g) q" using siblings_apart [OF that(3) seg_of_byte_string that(2)] that(4) by blast
    have "\<not> prefix (pfx_of leaf) q" using n prefix_order.trans [OF leaf] by blast
    moreover have "q \<notin> pfx_of ` set as" using n climb_prefixes [OF climb_step.hyps(9)] by blast
    moreover have "q \<noteq> p" using that(2,3) by (auto simp: prefix_def)
    moreover have "prefix p q" using that(2) by (rule append_prefixD)
    ultimately show ?thesis using climb_step.prems(3) that(1) cs1(1) climb_step.hyps(4) by auto
  qed
  have "index_tree U lk' (p @ c) (below p c (insert k S))" if "c \<in> segs_of ?cs" for c
  proof (cases "c = ?g")
    case True
    have "\<forall>q\<in>U. prefix (p @ ?g) q \<longrightarrow> \<not> prefix (pfx_of leaf) q \<longrightarrow> q \<notin> pfx_of ` set as \<longrightarrow> lk' q = lk q"
    proof (intro ballI impI)
      fix q assume q: "q \<in> U" "prefix (p @ ?g) q" "\<not> prefix (pfx_of leaf) q" "q \<notin> pfx_of ` set as"
      then have "q \<noteq> p" by (auto simp: prefix_def seg_of_def)
      with q climb_step.prems(3) cs1(1) climb_step.hyps(4) show "lk' q = lk q" by (auto dest: append_prefixD)
    qed
    with climb_step.IH climb_step.prems have "index_tree U lk' (p @ ?g) (insert k (below p ?g S))" by simp
    moreover have "insert k (below p ?g S) = below p ?g (insert k S)" by (auto simp: below_def)
    ultimately show ?thesis using True by simp
  next
    case False
    then have c: "c \<in> segs_of cs" "c \<in> range byte_string"
      using that climb_step.hyps(5) unfolding segs by (auto simp: routing_node_def)
    have "index_tree U lk' (p @ c) (below p c S)"
      using climb_step.hyps(8) c outside [OF _ _ c(2) False] index_tree_frame by blast
    moreover have "below p c (insert k S) = below p c S" using False by (auto simp: below_def)
    ultimately show ?thesis by simp
  qed
  moreover have "vacant U lk' p (segs_of ?cs)"
    unfolding vacant_def segs
  proof (intro allI impI)
    fix c q assume c: "byte_string c \<notin> insert ?g (segs_of cs)" "p @ byte_string c @ q \<in> U"
    then have "lk' (p @ byte_string c @ q) = lk (p @ byte_string c @ q)"
      by (intro outside [of _ "byte_string c"]) auto
    with c climb_step.hyps(7) show "absent (lk' (p @ byte_string c @ q))" by (simp add: vacant_def)
  qed
  moreover have "routing_node p ?cs (insert k S)"
    using cs1(3) unfolding routing_node_def fst by (metis fst list.set_map)
  ultimately show ?case
    using own l(3,4) climb_step.hyps(1,4) by (intro tree_internal [of p U lk' h2 ?cs]) simp_all
qed

subsection \<open>The descent\<close>

lemma index_tree_read: "index_tree U lk p S \<Longrightarrow> \<exists>n. lk p = Inr n \<and> pfx_of n = p"
  by (cases rule: index_tree.cases) auto

lemma climb_new_leaf:
  assumes "routing_node p cs S" "seg_of p k \<notin> segs_of cs" "vacant U lk p (segs_of cs)"
    "p @ seg_of p k \<in> U" "routes k p" "length p < length k"
  shows "climb U lk k (p @ seg_of p k) (below p (seg_of p k) S) [] (NewLeaf (p @ seg_of p k))"
    "absent (lk (p @ seg_of p k))"
proof -
  have none: "below p (seg_of p k) S = {}"
    using assms(1,2) unfolding below_def routing_node_def by (metis (mono_tags, lifting) empty_Collect_eq)
  have gone: "absent (lk (p @ seg_of p k @ q))" if "p @ seg_of p k @ q \<in> U" for q
    using assms(2,3) that unfolding vacant_def seg_of_def by blast
  then have "vacant U lk (p @ seg_of p k) {}" by (simp add: vacant_def)
  with assms(4) routes_step [OF assms(5,6)]
  show "climb U lk k (p @ seg_of p k) (below p (seg_of p k) S) [] (NewLeaf (p @ seg_of p k))"
    unfolding none NewLeaf_def emptyHdr_def
    using climb_leaf [of "p @ seg_of p k" U k "emptyHdr (p @ seg_of p k)" "[]" lk]
    by (simp add: NewLeaf_def emptyHdr_def)
  show "absent (lk (p @ seg_of p k))" using gone [of "[]"] assms(4) by simp
qed

lemma walk_walk: "walk g (walk f n) = walk (g \<circ> f) n"
proof (induction n)
  case (Internal h cs)
  then have "map_option (walk g) (map_option (walk f) c) = map_option (walk (g \<circ> f)) c"
    if "(seg, c) \<in> set cs" for seg c
    using that by (cases c) fastforce+
  then show ?case by (auto simp: map_prod_def comp_def split: prod.splits)
qed simp

lemma walk_nhdr: "Some m \<in> set (postorder (walk f n)) \<Longrightarrow> \<exists>h. nhdr m = f h"
proof (induction n)
  case (Internal h cs)
  show ?case
  proof (cases "m = walk f (Internal h cs)")
    case False
    with Internal.prems obtain seg c where c: "(seg, c) \<in> set cs"
      "Some m \<in> set (case map_option (postorder \<circ> walk f) c of None \<Rightarrow> [None] | Some ns \<Rightarrow> ns)"
      by (auto simp: option.map_comp)
    then obtain n where "c = Some n" "Some m \<in> set (postorder (walk f n))" by (cases c) auto
    with Internal.IH [OF c(1)] show ?thesis by fastforce
  qed auto
qed auto

lemma stamped_all:
  assumes "built U K b p S (incrementVersions (stampWriteFence fence n))"
    "m \<in> set (nodes (incrementVersions (stampWriteFence fence n)))"
  shows "fence_of m = fence"
proof -
  have "Some m \<in> set (postorder (incrementVersions (stampWriteFence fence n)))"
    unfolding postorder_nodes [OF assms(1)] using assms(2) by simp
  then obtain h where "nhdr m = ((\<lambda>h. h\<lparr>h_Version := h_Version h + 1\<rparr>)
      \<circ> (\<lambda>h. h\<lparr>h_Epoch := wf_Epoch fence, h_Writer := wf_Writer fence\<rparr>)) h"
    unfolding stampWriteFence_def incrementVersions_def walk_walk using walk_nhdr by blast
  then show ?thesis by (simp add: fence_of_def)
qed

lemma stamped_writer:
  assumes "built U K b p S (incrementVersions (stampWriteFence fence n))"
    "m \<in> set (nodes (incrementVersions (stampWriteFence fence n)))"
  shows "h_Writer (nhdr m) = wf_Writer fence"
  using stamped_all [OF assms] by (auto simp: fence_of_def)

lemma stamped_fence: "fence_of (incrementVersions (stampWriteFence fence n)) = fence"
proof -
  have "nhdr (walk f n) = f (nhdr n)" for f n by (cases n) simp_all
  then show ?thesis by (simp add: fence_of_def stampWriteFence_def incrementVersions_def)
qed

text \<open>The writer a tree belongs to: the fence its root record carries.\<close>

definition root_fence :: "(string \<Rightarrow> Node result) \<Rightarrow> WriteFence option" where
  "root_fence lk = map_option fence_of (result_or_nil (lk []))"

text \<open>A store that accepts every write.\<close>

definition reliable :: "'n valuestore \<Rightarrow> pht_env \<Rightarrow> bool" where
  "reliable V E \<longleftrightarrow> (\<forall>k v b. fst (vs_PutValue V k v b) = Inr ()) \<and> (\<forall>w. is_ok (js_Marshal E w))"

text \<open>Why an insertion may be refused on its way down: an internal node of a newer writer, or one at
  which the key ends.\<close>

definition blocked :: "string set \<Rightarrow> (string \<Rightarrow> Node result) \<Rightarrow> string \<Rightarrow> WriteFence \<Rightarrow> bool" where
  "blocked U lk k fence \<longleftrightarrow>
     (\<exists>q\<in>U. \<exists>n. lk q = Inr n \<and> (CompareWriteFences fence (fence_of n) < 0 \<or> IsInternal n \<and> length k \<le> length q))"

lemma fence_of_strip [simp]: "fence_of (strip n) = fence_of n"
  by (simp add: fence_of_def)

lemma insertLeaf_fence: "fence_of (insertLeaf k fence leaf) = fence"
  by (simp add: insertLeaf_def stamped_fence Let_def)

lemma lifted_fence: "\<exists>b. addKeyBloom k a = Inr b \<Longrightarrow> fence_of (lifted k fence a) = fence"
proof -
  assume "\<exists>b. addKeyBloom k a = Inr b"
  then obtain b where b: "addKeyBloom k a = Inr b" by blast
  show ?thesis
    by (cases b) (simp_all add: lifted_def b bumpVersion_def fence_of_def stampWriteFence_def)
qed

context pht_store
begin

lemma descend_climb:
  assumes "index_tree U lk p S" "lk = look E V s0" "routes k p" "k \<in> K"
    "lk p = Inr cur" "view V s = view V s0"
  shows "\<exists>r t. insertDescend E V k fence cur anc s = Some (r, t) \<and> view V t = view V s0
    \<and> (\<forall>e. r = Inl e \<longrightarrow> blocked U lk k fence)
    \<and> (\<forall>leaf as. r = Inr (leaf, as) \<longrightarrow> (\<exists>bs. as = anc @ bs \<and> climb U lk k p S bs leaf))"
  using assms
proof (induction arbitrary: cur anc s)
  case (tree_leaf p h es)
  then have "climb U lk k p (set es) [] (Leaf h es)" by (intro climb_leaf) auto
  with tree_leaf show ?case by (subst insertDescend.simps) auto
next
  case (tree_internal p h cs S)
  let ?g = "seg_of p k"
  have cur: "cur = Internal h cs" "pfx_of cur = p" using tree_internal.prems tree_internal.hyps by auto
  obtain r t where get: "getNode E V (p @ ?g) s = (r, t)" by (cases "getNode E V (p @ ?g) s")
  have read: "r = lk (p @ ?g)" "view V t = view V s0"
    using getNode_look [OF get] look_view [OF tree_internal.prems(5)] tree_internal.prems by auto
  note step = insertDescend.simps [of E V k fence cur anc s, unfolded cur(2) get]
  have stopped: "blocked U lk k fence"
    if "CompareWriteFences fence (fence_of cur) < 0 \<or> length k \<le> length p"
    unfolding blocked_def
    by (rule bexI [OF _ tree_internal.hyps(1)], rule exI [of _ cur])
      (use that tree_internal.prems(4) cur(1) in auto)
  show ?case
  proof (cases "requireCurrentFence cur fence")
    case (Inl e)
    then have "blocked U lk k fence" using stopped by (auto simp: requireCurrentFence_def fail_if_Inl)
    with Inl show ?thesis using step tree_internal.prems(5) by (simp add: cur(1))
  next
    case fence: (Inr _)
    show ?thesis
    proof (cases "length k \<le> length p")
      case True
      then show ?thesis using step fence tree_internal.prems(5) stopped by (simp add: cur(1))
    next
      case False
      then have lt: "length p < length k" by simp
      have here: "climb U lk k p S (addChild ?g cur # as) leaf"
        if "climb U lk k (p @ ?g) (below p ?g S) as leaf" for as leaf
        unfolding cur(1)
        using tree_internal.hyps(1,3-6) tree_internal.prems(2) tree_internal.IH lt that
        by (intro climb_step) simp_all
      show ?thesis
      proof (cases "?g \<in> segs_of cs")
        case True
        then obtain child where child: "r = Inr child"
          using tree_internal.IH index_tree_read read(1) by blast
        have "\<forall>x u. view V u = view V s0 \<longrightarrow>
            (\<exists>r' t'. insertDescend E V k fence child x u = Some (r', t') \<and> view V t' = view V s0
              \<and> (\<forall>e. r' = Inl e \<longrightarrow> blocked U lk k fence)
              \<and> (\<forall>leaf as. r' = Inr (leaf, as) \<longrightarrow>
                   (\<exists>bs. as = x @ bs \<and> climb U lk k (p @ ?g) (below p ?g S) bs leaf)))"
          using tree_internal.IH [rule_format, OF True] child read tree_internal.prems
            routes_step [OF tree_internal.prems(2) lt] by (elim conjE) simp
        from this [rule_format, OF read(2), of "anc @ [cur]"]
        have "\<exists>r' t'. insertDescend E V k fence child (anc @ [cur]) t = Some (r', t') \<and> view V t' = view V s0
            \<and> (\<forall>e. r' = Inl e \<longrightarrow> blocked U lk k fence)
            \<and> (\<forall>leaf as. r' = Inr (leaf, as) \<longrightarrow>
                 (\<exists>bs. as = (anc @ [cur]) @ bs \<and> climb U lk k (p @ ?g) (below p ?g S) bs leaf))" .
        then obtain r' t' where d: "insertDescend E V k fence child (anc @ [cur]) t = Some (r', t')"
          "view V t' = view V s0" "\<forall>e. r' = Inl e \<longrightarrow> blocked U lk k fence" and c: "\<And>leaf as. r' = Inr (leaf, as) \<Longrightarrow>
            \<exists>bs. as = (anc @ [cur]) @ bs \<and> climb U lk k (p @ ?g) (below p ?g S) bs leaf" by blast
        have "insertDescend E V k fence cur anc s = Some (r', t')"
          using step fence lt child d(1) by (simp add: cur(1))
        moreover have "\<exists>bs. as = anc @ bs \<and> climb U lk k p S bs leaf" if "r' = Inr (leaf, as)" for leaf as
        proof -
          from c [OF that] obtain bs where "as = (anc @ [cur]) @ bs" "climb U lk k (p @ ?g) (below p ?g S) bs leaf"
            by blast
          with here have "as = anc @ cur # bs" "climb U lk k p S (cur # bs) leaf"
            using addChild_known [OF True] unfolding cur(1) by (auto simp del: addChild.simps)
          then show ?thesis by blast
        qed
        ultimately show ?thesis using d(2,3) by blast
      next
        case False
        have "p @ ?g \<in> U" using closed tree_internal.hyps(1) tree_internal.prems(3) lt
          by (simp add: closed_under_def)
        note new = climb_new_leaf [OF tree_internal.hyps(4) False tree_internal.hyps(6) this
            tree_internal.prems(2) lt]
        then obtain e where "r = Inl e" "isMissingNode e"
          using read(1) by (auto simp: absent_iff)
        moreover have "insertDescend E V k fence (NewLeaf (p @ ?g)) as t = Some (Inr (NewLeaf (p @ ?g), as), t)" for as
          by (subst insertDescend.simps) (simp add: NewLeaf_def)
        ultimately show ?thesis
          using step fence lt here [OF new(1)] read(2) by (auto simp: cur(1))
      qed
    qed
  qed
qed

lemma putAncestors_putAll:
  assumes "\<forall>a\<in>set as. \<exists>b. addKeyBloom k a = Inr b"
  shows "putAncestors E V k fence as = putAll E (cache_PutValue V) (map Some (map (lifted k fence) as))"
  using assms
proof (induction as)
  case (Cons a as)
  then obtain b where b: "addKeyBloom k a = Inr b" by auto
  have "bindS (liftR (Inr x)) f = f x" for x and f :: "Node \<Rightarrow> ('n mindex, unit) op"
    by (simp add: fun_eq_iff)
  with b Cons show ?case by (simp add: lifted_def)
qed simp

lemma putAll_append: "putAll E put (xs @ ys) = bindS (putAll E put xs) (\<lambda>_. putAll E put ys)"
  by (induction E put xs rule: putAll.induct)
    (auto simp: fun_eq_iff bindS_def retS_def failS_def split: prod.splits sum.splits)

lemma climb_storable:
  assumes "climb U lk k p S as leaf" "utf8 (wf_Writer fence)"
  shows "\<forall>a\<in>set as. (\<exists>b. addKeyBloom k a = Inr b) \<and> storable utf8 U K (lifted k fence a)
    \<and> pfx_of (lifted k fence a) = pfx_of a"
  using assms(1)
proof induction
  case (climb_step p h cs S as leaf)
  obtain cs1 where cs1: "addChild (seg_of p k) (Internal h cs) = Internal h cs1" "routing_node p cs1 (insert k S)"
    using addChild_routing [OF climb_step.hyps(5,3)] .
  obtain h2 cs2 where l: "\<exists>b. addKeyBloom k (Internal h cs1) = Inr b"
    "lifted k fence (Internal h cs1) = Internal h2 cs2" "map fst cs2 = map fst cs1"
    "h_Prefix h2 = h_Prefix h" "h_Writer h2 = wf_Writer fence" "summarizes (h_Bloom h2) (insert k S)"
    using lifted_Internal [OF climb_step.hyps(6)] by metis
  have "segs_of cs2 = segs_of cs1" using l(3) by (metis list.set_map)
  moreover obtain b where "h_Bloom h2 = Some b" "default_shape b" using l(6) by (auto simp: summarizes_def)
  ultimately have "storable utf8 U K (Internal h2 cs2)"
    using cs1(2) l(3-5) climb_step.hyps(1,4) assms(2) by (simp add: storable_def routing_node_def)
  with climb_step.IH l cs1 show ?case by (simp del: addChild.simps)
qed simp

lemma built_storable:
  assumes "built U K True p S n" "\<forall>m\<in>set (nodes n). utf8 (h_Writer (nhdr m))"
  shows "\<forall>m\<in>set (nodes n). storable utf8 U K m"
  using assms
proof induction
  case (built_leaf p es h)
  then show ?case by (auto simp: storable_def summarizes_def)
next
  case (built_internal p S h cs)
  then have cs: "nodes (Internal h cs) = concat (map (\<lambda>c. nodes (the (snd c))) cs) @ [Internal h cs]"
    by (intro nodes_Internal) fastforce
  have "\<forall>m\<in>set (nodes (the (snd c))). storable utf8 U K m" if c: "c \<in> set cs" for c
  proof -
    obtain n where n: "snd c = Some n" "(\<forall>m\<in>set (nodes n). utf8 (h_Writer (nhdr m))) \<longrightarrow>
        (\<forall>m\<in>set (nodes n). storable utf8 U K m)"
      using built_children [OF built_internal.IH c] by (metis (no_types, lifting))
    moreover have "\<forall>m\<in>set (nodes n). utf8 (h_Writer (nhdr m))"
      using built_internal.prems c n(1) unfolding cs by fastforce
    ultimately show ?thesis by simp
  qed
  moreover obtain b where "h_Bloom h = Some b" "default_shape b"
    using built_internal.hyps(5) by (auto simp: summarizes_def)
  then have "storable utf8 U K (Internal h cs)"
    using built_internal.hyps(1,3,4) built_internal.prems unfolding cs
    by (simp add: storable_def routing_node_def)
  ultimately show ?case unfolding cs by auto
qed

lemma insertAt_tree:
  assumes cl: "climb U (look E V s) k [] S as leaf" and "S \<subseteq> K" "k \<in> K" "utf8 (wf_Writer fence)"
    and "insertAt E V k fence leaf as s = (Inr (), t)"
  shows "index_tree U (look E V t) [] (insert k S) \<and> root_fence (look E V t) = Some fence"
proof -
  obtain h es where leaf: "leaf = Leaf h es" "h_Prefix h \<in> U" "routes k (h_Prefix h)" "distinct es"
    "\<forall>x\<in>set es. routes x (h_Prefix h)" "set es \<subseteq> S" "vacant U (look E V s) (h_Prefix h) {}"
    using climb_facts [OF cl] by auto
  let ?n = "insertLeaf k fence leaf"
  have bt: "built U K True (h_Prefix h) (insert k (set es)) ?n"
    unfolding leaf(1) using sep closed leaf assms(2,3) by (intro insertLeaf_built) auto
  have stn: "\<forall>m\<in>set (nodes ?n). storable utf8 U K m"
    using built_storable [OF bt] stamped_writer bt assms(4) unfolding insertLeaf_def Let_def by metis
  note sta = climb_storable [OF cl assms(4)]
  let ?as = "map (lifted k fence) (rev as)"
  have pas: "map pfx_of ?as = rev (map pfx_of as)"
    using sta by (simp add: rev_map comp_def) 
  have put: "putAll E (cache_PutValue V) (map Some (nodes ?n @ ?as)) s = (Inr (), t)"
  proof -
    have "putAncestors E V k fence (rev as) = putAll E (cache_PutValue V) (map Some ?as)"
      using sta by (intro putAncestors_putAll) simp
    with assms(5) show ?thesis
      unfolding insertAt_def PutNodeRecursive_def postorder_nodes [OF bt]
      by (auto simp: op_inv putAll_append result_inv)
  qed
  have low: "prefix (h_Prefix h) (pfx_of m)" if "m \<in> set (nodes ?n)" for m
    using nodes_below [OF bt that] .
  have up: "\<not> prefix (h_Prefix h) (pfx_of a)" if "a \<in> set as" for a
    using climb_prefixes [OF cl] that leaf(1) by (auto simp: strict_prefix_def prefix_order.antisym)
  have upper: "\<forall>a\<in>set ?as. \<not> prefix (h_Prefix h) (pfx_of a)" using up sta by simp
  have "pfx_of m \<noteq> pfx_of a" if "m \<in> set (nodes ?n)" "a \<in> set ?as" for m a
    using low [OF that(1)] upper that(2) by metis
  then have "pfx_of ` set (nodes ?n) \<inter> pfx_of ` set ?as = {}" by blast
  moreover have "distinct (map pfx_of ?as)" unfolding pas using climb_distinct [OF cl] by simp
  ultimately have "distinct (map pfx_of (nodes ?n @ ?as))"
    using nodes_distinct [OF bt] unfolding map_append distinct_append set_map by blast
  from putAll_look [OF put _ this] stn sta have
    stored: "\<forall>m\<in>set (nodes ?n @ ?as). look E V t (pfx_of m) = Inr (strip m)" and
    others: "\<forall>q\<in>U. q \<notin> pfx_of ` set (nodes ?n @ ?as) \<longrightarrow> look E V t q = look E V s q"
    by auto
  have "index_tree U (look E V t) (h_Prefix h) (insert k (set es))"
  proof (rule tree_of_built [OF bt])
    show "\<forall>q c. q \<in> U \<longrightarrow> prefix (h_Prefix h @ byte_string c) q \<longrightarrow>
        q \<notin> pfx_of ` set (nodes ?n) \<longrightarrow> absent (look E V t q)"
    proof (intro allI impI)
      fix q c assume q: "q \<in> U" "prefix (h_Prefix h @ byte_string c) q" "q \<notin> pfx_of ` set (nodes ?n)"
      have "prefix (h_Prefix h) q" using q(2) by (rule append_prefixD)
      then have "q \<notin> pfx_of ` set ?as" using upper by blast
      with q have "look E V t q = look E V s q" using others by (simp add: image_Un)
      with q leaf(7) show "absent (look E V t q)" by (auto simp: vacant_def prefix_def)
    qed
  qed (use stored in simp)
  moreover have stored_as: "\<forall>a\<in>set as. look E V t (pfx_of a) = Inr (strip (lifted k fence a))"
    using stored sta by (metis UnI2 imageI set_append set_map set_rev)
  moreover have "look E V t q = look E V s q"
    if "q \<in> U" "\<not> prefix (h_Prefix h) q" "q \<notin> pfx_of ` set as" for q
    using others that low sta by auto
  ultimately have "index_tree U (look E V t) [] (insert k S)"
    using climb_rebuilt [OF cl, of "look E V t" fence] leaf(1) by simp
  moreover have "root_fence (look E V t) = Some fence"
    using cl
  proof cases
    case (climb_leaf h' es')
    then have "look E V t [] = Inr (strip ?n)" using stored nodes_self [of ?n] built_prefix [OF bt] leaf(1) by auto
    then show ?thesis by (simp add: root_fence_def insertLeaf_fence)
  next
    case (climb_step h' cs as')
    let ?a = "addChild (seg_of [] k) (Internal h' cs)"
    have a: "?a \<in> set as" "pfx_of ?a = []" using climb_step by simp_all
    then have "look E V t [] = Inr (strip (lifted k fence ?a))" using stored_as by metis
    moreover have "fence_of (lifted k fence ?a) = fence"
      using sta a(1) lifted_fence by blast
    ultimately show ?thesis by (simp add: root_fence_def)
  qed
  ultimately show ?thesis by simp
qed

lemma root_climb:
  assumes "stores U (look E V s) S" "k \<in> K" "view V t = view V s" "rootOrLeaf (look E V s []) = Inr root"
  shows "\<exists>r u. insertDescend E V k fence root [] t = Some (r, u) \<and> view V u = view V s
    \<and> (\<forall>e. r = Inl e \<longrightarrow> blocked U (look E V s) k fence)
    \<and> (\<forall>leaf as. r = Inr (leaf, as) \<longrightarrow> climb U (look E V s) k [] S as leaf)"
proof (cases "index_tree U (look E V s) [] S")
  case True
  then have "look E V s [] = Inr root"
    using index_tree_read [OF True] assms(4) by (auto simp: rootOrLeaf_def)
  from descend_climb [OF True refl routes_root assms(2) this assms(3), of fence "[]"] show ?thesis by simp
next
  case False
  with assms(1) have none: "S = {}" "\<forall>p\<in>U. absent (look E V s p)" by (auto simp: stores_def)
  then have "root = NewLeaf []"
    using assms(4) root_in by (auto simp: rootOrLeaf_def absent_iff split: if_splits)
  moreover have "vacant U (look E V s) [] {}" using none by (simp add: vacant_def)
  then have "climb U (look E V s) k [] S [] (NewLeaf [])"
    using climb_leaf [of "[]" U k "emptyHdr []" "[]"] root_in routes_root none(1)
    by (simp add: NewLeaf_def emptyHdr_def)
  moreover have "insertDescend E V k fence (NewLeaf []) [] t = Some (Inr (NewLeaf [], []), t)"
    by (subst insertDescend.simps) (simp add: NewLeaf_def)
  ultimately show ?thesis using assms(3) by auto
qed

lemma putAll_reliable: "reliable V E \<Longrightarrow> \<exists>t. putAll E (cache_PutValue V) (map Some ns) s = (Inr (), t)"
proof (induction ns arbitrary: s)
  case (Cons n ns)
  obtain d where "js_Marshal E (wireOf E n) = Inr d"
    using Cons.prems by (metis is_ok_iff reliable_def)
  moreover obtain b where "vs_PutValue V (phtKey E (pfx_of n)) d (mi_base s) = (Inr (), b)"
    using Cons.prems by (metis reliable_def prod.collapse)
  ultimately obtain u where "PutNode E (cache_PutValue V) n s = (Inr (), u)"
    by (simp add: PutNode_def cache_PutValue_def)
  with Cons show ?case by (simp add: bindS_def)
qed (simp add: retS_def)

lemma insertAt_reliable:
  assumes "climb U (look E V s) k [] S as leaf" "S \<subseteq> K" "k \<in> K" "utf8 (wf_Writer fence)" "reliable V E"
    "\<not> blocked U (look E V s) k fence" "view V u = view V s"
  shows "\<exists>t. insertAt E V k fence leaf as u = (Inr (), t)"
proof -
  obtain h es where leaf: "leaf = Leaf h es" "h_Prefix h \<in> U" "routes k (h_Prefix h)" "distinct es"
    "\<forall>x\<in>set es. routes x (h_Prefix h)" "set es \<subseteq> S"
    "look E V s (h_Prefix h) = Inr leaf \<or> leaf = NewLeaf (h_Prefix h)"
    using climb_facts [OF assms(1)] by auto
  have "\<not> CompareWriteFences fence (fence_of (NewLeaf p)) < 0" for p
    by (auto simp: CompareWriteFences_def NewLeaf_def emptyHdr_def fence_of_def)
  then have "requireCurrentFence leaf fence = Inr ()"
    using leaf(2,7) assms(6) by (auto simp: requireCurrentFence_def blocked_def fail_if_def)
  moreover have bt: "built U K True (h_Prefix h) (insert k (set es)) (insertLeaf k fence leaf)"
    unfolding leaf(1) using sep closed leaf assms(2,3) by (intro insertLeaf_built) auto
  moreover obtain v where "putAll E (cache_PutValue V) (map Some (nodes (insertLeaf k fence leaf))) u = (Inr (), v)"
    using putAll_reliable [OF assms(5)] by blast
  moreover have "putAncestors E V k fence (rev as)
      = putAll E (cache_PutValue V) (map Some (map (lifted k fence) (rev as)))"
    using climb_storable [OF assms(1,4)] by (intro putAncestors_putAll) simp
  moreover obtain t where "putAll E (cache_PutValue V) (map Some (map (lifted k fence) (rev as))) v = (Inr (), t)"
    using putAll_reliable [OF assms(5)] by blast
  ultimately have "insertAt E V k fence leaf as u = (Inr (), t)"
    by (simp add: insertAt_def PutNodeRecursive_def postorder_nodes [OF bt] bindS_def liftR_def)
  then show ?thesis by blast
qed

lemma insert_refines:
  assumes "stores U (look E V s) S" "S \<subseteq> K" "k \<in> K" "utf8 (wf_Writer fence)"
  shows "\<exists>r t. InsertFenced E V k fence s = Some (r, t)
    \<and> (r = Inr () \<longrightarrow> stores U (look E V t) (insert k S) \<and> root_fence (look E V t) = Some fence)
    \<and> (k \<noteq> [] \<and> reliable V E \<and> \<not> blocked U (look E V s) k fence \<longrightarrow> r = Inr ())"
proof (cases "k = []")
  case True
  then show ?thesis by (simp add: InsertFenced_def)
next
  case False
  obtain r t where get: "getNode E V [] s = (r, t)" by (cases "getNode E V [] s")
  then have r: "r = look E V s []" "view V t = view V s" using getNode_look by blast+
  have root: "is_ok (rootOrLeaf r)"
    using assms(1) index_tree_read [of U "look E V s" "[]" S] root_in unfolding r(1) stores_def
    by (auto simp: rootOrLeaf_def absent_iff)
  show ?thesis
  proof (cases "rootOrLeaf r")
    case (Inl e)
    with root show ?thesis by simp
  next
    case (Inr root)
    from root_climb [OF assms(1,3) r(2) Inr [unfolded r(1)], of fence] obtain q u where
      q: "insertDescend E V k fence root [] t = Some (q, u)" "view V u = view V s"
      "\<forall>e. q = Inl e \<longrightarrow> blocked U (look E V s) k fence"
      and cl: "\<And>leaf as. q = Inr (leaf, as) \<Longrightarrow> climb U (look E V s) k [] S as leaf" by blast
    show ?thesis
    proof (cases q)
      case (Inl e)
      with get False q Inr show ?thesis by (simp add: InsertFenced_def)
    next
      case res: (Inr la)
      obtain leaf as where la: "la = (leaf, as)" by (cases la)
      obtain r' t' where ins: "insertAt E V k fence leaf as u = (r', t')"
        by (cases "insertAt E V k fence leaf as u")
      have "stores U (look E V t') (insert k S) \<and> root_fence (look E V t') = Some fence" if "r' = Inr ()"
        using insertAt_tree [of u k S as leaf fence t'] cl [of leaf as] res la ins that assms look_view [OF q(2)]
        by (simp add: stores_def)
      moreover have "r' = Inr ()" if "reliable V E" "\<not> blocked U (look E V s) k fence"
        using insertAt_reliable [OF cl [of leaf as] assms(2-4) that q(2)] res la ins by simp
      ultimately show ?thesis using get False q Inr res la ins by (simp add: InsertFenced_def)
    qed
  qed
qed

end

end
