(* ===== verification/PHT_Delete.thy ===== *)
theory PHT_Delete
  imports PHT_Insert
begin

text \<open>
  Deletion refines set deletion, and a writer whose fence is older than the root's is turned away
  before it writes anything.
\<close>

text \<open>The leaf a deletion reaches: replacing its record by one without the key leaves a stored tree
  without the key.\<close>

definition hole ::
  "string set \<Rightarrow> (string \<Rightarrow> Node result) \<Rightarrow> string \<Rightarrow> string \<Rightarrow> string set \<Rightarrow> Node \<Rightarrow> bool" where
  "hole U lk k p S leaf \<longleftrightarrow>
     (\<exists>h es. leaf = Leaf h es \<and> h_Prefix h \<in> U \<and> prefix p (h_Prefix h) \<and> distinct es \<and> set es \<subseteq> S
        \<and> (k \<in> S \<longrightarrow> k \<in> set es)
        \<and> (\<forall>h' es' lk'. h_Prefix h' = h_Prefix h \<longrightarrow> distinct es' \<longrightarrow> set es' = set es - {k} \<longrightarrow>
             summarizes (h_Bloom h') (set es') \<longrightarrow> lk' (h_Prefix h) = Inr (Leaf h' es') \<longrightarrow>
             (\<forall>q\<in>U. prefix p q \<longrightarrow> q \<noteq> h_Prefix h \<longrightarrow> lk' q = lk q) \<longrightarrow>
             index_tree U lk' p (S - {k})))"

lemma hole_leaf:
  assumes "index_tree U lk p S" "lk p = Inr (Leaf h es)"
  shows "hole U lk k p S (Leaf h es)"
  using assms(1)
proof cases
  case (tree_leaf h0 es0)
  then have eq: "h0 = h" "es0 = es" using assms(2) by auto
  have "index_tree U lk' p (set es - {k})"
    if h': "h_Prefix h' = p" "distinct es'" "set es' = set es - {k}" "summarizes (h_Bloom h') (set es')"
      "lk' p = Inr (Leaf h' es')" "\<forall>q\<in>U. prefix p q \<longrightarrow> q \<noteq> p \<longrightarrow> lk' q = lk q" for h' es' lk'
  proof -
    have "vacant U lk' p {}"
      using tree_leaf(8) h'(6) unfolding vacant_def by (simp add: prefix_def)
    then have "index_tree U lk' p (set es')"
      using tree_leaf eq h' by (intro index_tree.tree_leaf [of p U lk' h' es']) auto
    then show ?thesis by (simp add: h'(3))
  qed
  with tree_leaf eq show ?thesis by (auto simp: hole_def)
next
  case (tree_internal h0 cs)
  with assms(2) show ?thesis by simp
qed

lemma below_delete: "below p c (S - {k}) = (if c = seg_of p k then below p c S - {k} else below p c S)"
  by (auto simp: below_def)

lemma hole_step:
  assumes "p \<in> U" "lk p = Inr (Internal h cs)" "h_Prefix h = p" "routing_node p cs S"
    "summarizes (h_Bloom h) S" "vacant U lk p (segs_of cs)"
    "\<forall>seg\<in>segs_of cs. index_tree U lk (p @ seg) (below p seg S)" "seg_of p k \<in> segs_of cs"
    "hole U lk k (p @ seg_of p k) (below p (seg_of p k) S) leaf"
  shows "hole U lk k p S leaf"
proof -
  let ?g = "seg_of p k"
  obtain h0 es where leaf: "leaf = Leaf h0 es" "h_Prefix h0 \<in> U" "prefix (p @ ?g) (h_Prefix h0)"
    "distinct es" "set es \<subseteq> below p ?g S" "k \<in> below p ?g S \<longrightarrow> k \<in> set es" and
    fill: "\<And>h' es' lk'. h_Prefix h' = h_Prefix h0 \<Longrightarrow> distinct es' \<Longrightarrow> set es' = set es - {k} \<Longrightarrow>
             summarizes (h_Bloom h') (set es') \<Longrightarrow> lk' (h_Prefix h0) = Inr (Leaf h' es') \<Longrightarrow>
             (\<forall>q\<in>U. prefix (p @ ?g) q \<longrightarrow> q \<noteq> h_Prefix h0 \<longrightarrow> lk' q = lk q) \<Longrightarrow>
             index_tree U lk' (p @ ?g) (below p ?g S - {k})"
    using assms(9) unfolding hole_def by blast
  have "index_tree U lk' p (S - {k})"
    if h': "h_Prefix h' = h_Prefix h0" "distinct es'" "set es' = set es - {k}"
      "summarizes (h_Bloom h') (set es')" "lk' (h_Prefix h0) = Inr (Leaf h' es')"
      "\<forall>q\<in>U. prefix p q \<longrightarrow> q \<noteq> h_Prefix h0 \<longrightarrow> lk' q = lk q" for h' es' lk'
  proof -
    have pp: "prefix p (p @ c)" for c by simp
    have "p \<noteq> h_Prefix h0" using leaf(3) by (auto simp: prefix_def seg_of_def)
    then have own: "lk' p = Inr (Internal h cs)" using h'(6) assms(1,2) by simp
    have away: "lk' q = lk q" if "q \<in> U" "prefix (p @ c) q" "c \<in> range byte_string" "c \<noteq> ?g" for q c
    proof -
      have "q \<noteq> h_Prefix h0"
        using siblings_apart [OF that(3) seg_of_byte_string that(2)] leaf(3) that(4) by blast
      moreover have "prefix p q" using that(2) by (rule append_prefixD)
      ultimately show ?thesis using h'(6) that(1) by blast
    qed
    have segs: "c \<in> range byte_string" if "c \<in> segs_of cs" for c
      using assms(4) that by (auto simp: routing_node_def)
    have "index_tree U lk' (p @ c) (below p c (S - {k}))" if c: "c \<in> segs_of cs" for c
    proof (cases "c = ?g")
      case True
      have "\<forall>q\<in>U. prefix (p @ ?g) q \<longrightarrow> q \<noteq> h_Prefix h0 \<longrightarrow> lk' q = lk q"
        using h'(6) by (blast dest: append_prefixD)
      from fill [OF h'(1-5) this] True show ?thesis by (simp add: below_delete)
    next
      case False
      have "index_tree U lk' (p @ c) (below p c S)"
        using index_tree_frame [OF assms(7) [rule_format, OF c]] away [OF _ _ segs [OF c] False] by blast
      with False show ?thesis by (simp add: below_delete)
    qed
    moreover have "vacant U lk' p (segs_of cs)"
      unfolding vacant_def
    proof (intro allI impI)
      fix c q assume c: "byte_string c \<notin> segs_of cs" "p @ byte_string c @ q \<in> U"
      then have "byte_string c \<noteq> ?g" using assms(8) by metis
      with c have "lk' (p @ byte_string c @ q) = lk (p @ byte_string c @ q)"
        by (intro away [of _ "byte_string c"]) simp_all
      with c assms(6) show "absent (lk' (p @ byte_string c @ q))" by (simp add: vacant_def)
    qed
    moreover have "routing_node p cs (S - {k})" using assms(4) by (simp add: routing_node_def)
    moreover have "summarizes (h_Bloom h) (S - {k})" using assms(5) by (rule summarizes_mono) blast
    ultimately show ?thesis using assms(1,3) own by (intro tree_internal [of p U lk' h cs]) simp_all
  qed
  moreover have "prefix p (h_Prefix h0)" using leaf(3) by (rule append_prefixD)
  moreover have "set es \<subseteq> S" "k \<in> S \<longrightarrow> k \<in> set es" using leaf(5,6) by (auto simp: below_def)
  ultimately show ?thesis using leaf(1,2,4) unfolding hole_def by blast
qed

text \<open>Some record of the index carries a newer fence.\<close>

definition newer :: "string set \<Rightarrow> (string \<Rightarrow> Node result) \<Rightarrow> WriteFence \<Rightarrow> bool" where
  "newer U lk fence \<longleftrightarrow> (\<exists>q\<in>U. \<exists>n. lk q = Inr n \<and> CompareWriteFences fence (fence_of n) < 0)"

lemma current_fence: "\<not> newer U lk fence \<Longrightarrow> q \<in> U \<Longrightarrow> lk q = Inr n \<Longrightarrow> requireCurrentFence n fence = Inr ()"
  by (auto simp: newer_def requireCurrentFence_def)

context pht_store
begin

lemma descend_hole:
  assumes "index_tree U lk p S" "lk = look E V s0" "lk p = Inr cur" "view V s = view V s0" "k \<in> K"
  shows "\<exists>r t. deleteDescend E V k fence cur s = Some (r, t) \<and> view V t = view V s0
    \<and> (r = Inr None \<longrightarrow> k \<notin> S) \<and> (\<forall>leaf. r = Inr (Some leaf) \<longrightarrow> hole U lk k p S leaf)
    \<and> (\<not> newer U lk fence \<longrightarrow> is_ok r \<and> (\<forall>leaf. r = Inr (Some leaf) \<longrightarrow> requireCurrentFence leaf fence = Inr ()))"
  using assms
proof (induction arbitrary: cur s)
  case (tree_leaf p h es)
  then have "hole U lk k p (set es) (Leaf h es)"
    by (intro hole_leaf index_tree.tree_leaf) simp_all
  moreover have "requireCurrentFence (Leaf h es) fence = Inr ()" if "\<not> newer U lk fence"
    using current_fence [OF that tree_leaf.hyps(1,2)] .
  ultimately show ?case using tree_leaf by (subst deleteDescend.simps) auto
next
  case (tree_internal p h cs S)
  let ?g = "seg_of p k"
  have cur: "cur = Internal h cs" "pfx_of cur = p" using tree_internal.prems tree_internal.hyps by auto
  obtain r t where get: "getNode E V (p @ ?g) s = (r, t)" by (cases "getNode E V (p @ ?g) s")
  have read: "r = lk (p @ ?g)" "view V t = view V s0"
    using getNode_look [OF get] look_view [OF tree_internal.prems(3)] tree_internal.prems by auto
  note step = deleteDescend.simps [of E V k fence cur s, unfolded cur(2) get]
  have fresh: "requireCurrentFence cur fence = Inr ()" if "\<not> newer U lk fence"
    using current_fence [OF that tree_internal.hyps(1)] tree_internal.prems(2) by blast
  have keys: "\<forall>x\<in>S. length p < length x \<and> seg_of p x \<in> segs_of cs"
    using tree_internal.hyps(4) by (simp add: routing_node_def)
  consider (stale) e where "requireCurrentFence cur fence = Inl e"
    | (stops) "requireCurrentFence cur fence = Inr ()" "length k \<le> length p"
    | (child) "requireCurrentFence cur fence = Inr ()" "\<not> length k \<le> length p" "?g \<in> segs_of cs"
    | (none) "requireCurrentFence cur fence = Inr ()" "\<not> length k \<le> length p" "?g \<notin> segs_of cs"
    by (cases "requireCurrentFence cur fence") auto
  then show ?case
  proof cases
    case stale
    then show ?thesis using step fresh tree_internal.prems(3) by (auto simp: cur(1))
  next
    case stops
    then have "k \<notin> S" using keys by (meson leD)
    with stops show ?thesis using step tree_internal.prems(3) by (simp add: cur(1))
  next
    case child
    have sub: "\<forall>seg\<in>segs_of cs. index_tree U lk (p @ seg) (below p seg S)" using tree_internal.IH by blast
    then obtain n where n: "r = Inr n" using index_tree_read read(1) child(3) by blast
    have "\<forall>u. view V u = view V s0 \<longrightarrow> (\<exists>r' t'. deleteDescend E V k fence n u = Some (r', t') \<and> view V t' = view V s0
        \<and> (r' = Inr None \<longrightarrow> k \<notin> below p ?g S)
        \<and> (\<forall>leaf. r' = Inr (Some leaf) \<longrightarrow> hole U lk k (p @ ?g) (below p ?g S) leaf)
        \<and> (\<not> newer U lk fence \<longrightarrow> is_ok r' \<and> (\<forall>leaf. r' = Inr (Some leaf) \<longrightarrow> requireCurrentFence leaf fence = Inr ())))"
      using tree_internal.IH [rule_format, OF child(3)] n read tree_internal.prems by (elim conjE) simp
    from this [rule_format, OF read(2)] obtain r' t' where d: "deleteDescend E V k fence n t = Some (r', t')"
      "view V t' = view V s0" "r' = Inr None \<longrightarrow> k \<notin> below p ?g S"
      "\<forall>leaf. r' = Inr (Some leaf) \<longrightarrow> hole U lk k (p @ ?g) (below p ?g S) leaf"
      "\<not> newer U lk fence \<longrightarrow> is_ok r' \<and> (\<forall>leaf. r' = Inr (Some leaf) \<longrightarrow> requireCurrentFence leaf fence = Inr ())" by blast
    have "deleteDescend E V k fence cur s = Some (r', t')"
      using step child n d(1) by (simp add: cur(1))
    moreover have "hole U lk k p S leaf" if "r' = Inr (Some leaf)" for leaf
      using hole_step [OF tree_internal.hyps(1-6) sub child(3)] d(4) that by blast
    moreover have "r' = Inr None \<longrightarrow> k \<notin> S" using d(3) by (auto simp: below_def)
    ultimately show ?thesis using d(2,5) by blast
  next
    case none
    then have "k \<notin> S" using keys by blast
    moreover have "p @ ?g \<in> U" using closed tree_internal.hyps(1) tree_internal.prems(4) none(2)
      by (simp add: closed_under_def)
    then obtain e where "r = Inl e"
      using tree_internal.hyps(6) none(3) read(1) unfolding vacant_def seg_of_def absent_iff
      by (metis append_Nil2)
    ultimately show ?thesis using step none read(2) by (simp add: cur(1))
  qed
qed

lemma deleteLeaf_Leaf:
  obtains h' where "deleteLeaf k fence (Leaf h es) = Leaf h' (remove1 k es)" "h_Prefix h' = h_Prefix h"
    "h_Writer h' = wf_Writer fence" "h_Bloom h' = leafBloom (remove1 k es) 0 0 0"
  by (rule that [of "h\<lparr>h_Bloom := leafBloom (remove1 k es) 0 0 0, h_Epoch := wf_Epoch fence,
        h_Writer := wf_Writer fence, h_Version := h_Version h + 1\<rparr>"])
    (simp_all add: deleteLeaf_def bumpVersion_def stampWriteFence_def)

lemma deleteAt_tree:
  assumes "hole U (look E V s) k [] S leaf" "S \<subseteq> K" "utf8 (wf_Writer fence)"
    "index_tree U (look E V s) [] S" "deleteAt E V k fence leaf s = (Inr (), t)"
  shows "index_tree U (look E V t) [] (S - {k})"
proof -
  obtain h es where leaf: "leaf = Leaf h es" "h_Prefix h \<in> U" "distinct es" "set es \<subseteq> S" "k \<in> S \<longrightarrow> k \<in> set es"
    and fill: "\<And>h' es' lk'. h_Prefix h' = h_Prefix h \<Longrightarrow> distinct es' \<Longrightarrow> set es' = set es - {k} \<Longrightarrow>
             summarizes (h_Bloom h') (set es') \<Longrightarrow> lk' (h_Prefix h) = Inr (Leaf h' es') \<Longrightarrow>
             (\<forall>q\<in>U. q \<noteq> h_Prefix h \<longrightarrow> lk' q = look E V s q) \<Longrightarrow> index_tree U lk' [] (S - {k})"
    using assms(1) unfolding hole_def by auto
  show ?thesis
  proof (cases "k \<in> set es")
    case True
    obtain h' where h': "deleteLeaf k fence (Leaf h es) = Leaf h' (remove1 k es)" "h_Prefix h' = h_Prefix h"
      "h_Writer h' = wf_Writer fence" "h_Bloom h' = leafBloom (remove1 k es) 0 0 0"
      using deleteLeaf_Leaf .
    have put: "PutNode E (cache_PutValue V) (Leaf h' (remove1 k es)) s = (Inr (), t)"
      using assms(5) True h'(1) by (auto simp: deleteAt_def leaf(1) op_inv)
    have sum: "summarizes (h_Bloom h') (set (remove1 k es))" unfolding h'(4) by (rule summarizes_leaf)
    then have "storable utf8 U K (Leaf h' (remove1 k es))"
      using h' leaf assms(2,3) by (auto simp: storable_def summarizes_def dest: notin_set_remove1)
    from PutNode_look [OF put this] h'(2) leaf(2,3) sum show ?thesis
      by (intro fill [of h' "remove1 k es"]) (auto simp: set_remove1_eq)
  next
    case False
    then have "t = s" "S - {k} = S" using assms(5) leaf(1,5) by (auto simp: deleteAt_def op_inv)
    with assms(4) show ?thesis by simp
  qed
qed

lemma deleteAt_reliable:
  assumes "reliable V E" "requireCurrentFence leaf fence = Inr ()"
  shows "\<exists>t. deleteAt E V k fence leaf s = (Inr (), t)"
  using putAll_reliable [OF assms(1), of "[deleteLeaf k fence leaf]" s] assms(2) by (auto simp: deleteAt_def op_inv)

lemma delete_unread:
  assumes "look E V s [] = Inl e" "k \<noteq> []"
  shows "\<exists>t. DeleteFenced E V k fence s = Some (Inr (), t) \<and> view V t = view V s"
proof -
  obtain r t where get: "getNode E V [] s = (r, t)" by (cases "getNode E V [] s")
  with getNode_look [OF get] assms show ?thesis by (simp add: DeleteFenced_def)
qed

lemma delete_refines:
  assumes "stores U (look E V s) S" "S \<subseteq> K" "k \<in> K" "utf8 (wf_Writer fence)"
  shows "\<exists>r t. DeleteFenced E V k fence s = Some (r, t) \<and> (r = Inr () \<longrightarrow> stores U (look E V t) (S - {k}))
    \<and> (k \<noteq> [] \<and> reliable V E \<and> \<not> newer U (look E V s) fence \<longrightarrow> r = Inr ())"
proof (cases "k = []")
  case True
  then show ?thesis by (simp add: DeleteFenced_def)
next
  case False
  obtain r t where get: "getNode E V [] s = (r, t)" by (cases "getNode E V [] s")
  then have r: "r = look E V s []" "view V t = view V s" using getNode_look by blast+
  show ?thesis
  proof (cases "index_tree U (look E V s) [] S")
    case no: False
    with assms(1) have none: "S = {}" "\<forall>p\<in>U. absent (look E V s p)" by (auto simp: stores_def)
    then obtain e where "r = Inl e" using r(1) root_in by (auto simp: absent_iff)
    with get False none look_view [OF r(2)] show ?thesis by (auto simp: DeleteFenced_def stores_def)
  next
    case True
    then obtain root where root: "r = Inr root" "look E V s [] = Inr root" using index_tree_read r(1) by metis
    from descend_hole [OF True refl root(2) r(2) assms(3), of fence] obtain q u where
      q: "deleteDescend E V k fence root t = Some (q, u)" "view V u = view V s" "q = Inr None \<longrightarrow> k \<notin> S"
      and hl: "\<And>leaf. q = Inr (Some leaf) \<Longrightarrow> hole U (look E V s) k [] S leaf"
      and ok: "\<not> newer U (look E V s) fence \<Longrightarrow> is_ok q \<and> (\<forall>leaf. q = Inr (Some leaf) \<longrightarrow> requireCurrentFence leaf fence = Inr ())"
      by blast
    note run = DeleteFenced_def [of E V k fence s] get False root(1) q(1)
    consider e where "q = Inl e" | "q = Inr None" | leaf where "q = Inr (Some leaf)"
      by (metis option.exhaust sum.exhaust)
    then show ?thesis
    proof cases
      case 2
      then have "S - {k} = S" using q(3) by simp
      with 2 run True look_view [OF q(2)] show ?thesis by (simp add: stores_def)
    next
      case (3 leaf)
      obtain r' t' where del: "deleteAt E V k fence leaf u = (r', t')" by (cases "deleteAt E V k fence leaf u")
      have "stores U (look E V t') (S - {k})" if "r' = Inr ()"
        using deleteAt_tree [of u k S leaf fence t'] hl [OF 3] True del that assms look_view [OF q(2)]
        by (simp add: stores_def)
      moreover have "r' = Inr ()" if "reliable V E" "\<not> newer U (look E V s) fence"
        using deleteAt_reliable [OF that(1), of leaf fence k u] ok [OF that(2)] 3 del by auto
      ultimately show ?thesis using 3 run del by simp
    qed (use run ok in auto)
  qed
qed

lemma stale_rejected:
  assumes "root_fence (look E V s) = Some current" "CompareWriteFences fence current < 0" "k \<noteq> []"
  shows "\<exists>t. InsertFenced E V k fence s = Some (Inl (ErrWrap ''epoch'' ErrStaleWriteFence), t) \<and> view V t = view V s"
    "\<exists>t. DeleteFenced E V k fence s = Some (Inl (ErrWrap ''epoch'' ErrStaleWriteFence), t) \<and> view V t = view V s"
proof -
  obtain r t where get: "getNode E V [] s = (r, t)" by (cases "getNode E V [] s")
  then have r: "r = look E V s []" "view V t = view V s" using getNode_look by blast+
  with assms(1) obtain root where root: "r = Inr root" "fence_of root = current"
    by (auto simp: root_fence_def)
  then have stale: "requireCurrentFence root fence = Inl (ErrWrap ''epoch'' ErrStaleWriteFence)"
    using assms(2) by (simp add: requireCurrentFence_def)
  have i: "insertDescend E V k fence root [] t =
      (if IsInternal root then Some (Inl (ErrWrap ''epoch'' ErrStaleWriteFence), t) else Some (Inr (root, []), t))"
    using stale by (subst insertDescend.simps) simp
  have d: "deleteDescend E V k fence root t =
      (if IsInternal root then Some (Inl (ErrWrap ''epoch'' ErrStaleWriteFence), t) else Some (Inr (Some root), t))"
    using stale by (subst deleteDescend.simps) simp
  show "\<exists>t. InsertFenced E V k fence s = Some (Inl (ErrWrap ''epoch'' ErrStaleWriteFence), t) \<and> view V t = view V s"
    using assms(3) get root(1) i r(2) stale
    by (simp add: InsertFenced_def rootOrLeaf_def insertAt_def)
  show "\<exists>t. DeleteFenced E V k fence s = Some (Inl (ErrWrap ''epoch'' ErrStaleWriteFence), t) \<and> view V t = view V s"
    using assms(3) get root(1) d r(2) stale by (simp add: DeleteFenced_def deleteAt_def)
qed

end

end
