(* ===== verification/PHT_Query.thy ===== *)
theory PHT_Query
  imports PHT_Delete
begin

text \<open>
  \<open>internal/pht/query.go\<close> and the query side of \<open>dht.go\<close> and \<open>shard.go\<close>. A query reads the value
  store and counts what it does; the counters are its state. Queries follow the segments of the
  records they read, which can be cyclic when the records are malformed, so they take fuel, and
  \<open>None\<close> is a query that does not return (or that panics on a Bloom filter without words). The
  ranking of the results by floating-point scores is not modelled.
\<close>

subsection \<open>Patterns\<close>

datatype QueryKind = QueryExact | QueryPrefix | QuerySubstring

record ParsedQuery =
  pq_Kind :: QueryKind
  pq_Prefix :: string
  pq_Substring :: string
  pq_Pattern :: string

definition star :: char where "star = CHR ''*''"

definition ParseQuery :: "string \<Rightarrow> ParsedQuery" where
  "ParseQuery pattern =
     (let q = \<lparr>pq_Kind = QueryExact, pq_Prefix = [], pq_Substring = [], pq_Pattern = pattern\<rparr> in
      if pattern = [] then q
      else let leading = (hd pattern = star); trailing = (last pattern = star) in
        if leading \<and> trailing \<and> 2 \<le> length pattern
        then q\<lparr>pq_Kind := QuerySubstring, pq_Substring := butlast (tl pattern)\<rparr>
        else if trailing \<and> \<not> leading \<and> 2 \<le> length pattern
        then q\<lparr>pq_Kind := QueryPrefix, pq_Prefix := butlast pattern\<rparr>
        else if leading \<and> 2 \<le> length pattern
        then q\<lparr>pq_Kind := QuerySubstring, pq_Substring := tl pattern\<rparr>
        else q)"

fun combine :: "string set \<Rightarrow> string list \<Rightarrow> string list" where
  "combine seen [] = []"
| "combine seen (k # ks) = (if k \<in> seen then combine seen ks else k # combine (insert k seen) ks)"

definition CombineResults :: "string list list \<Rightarrow> string list" where
  "CombineResults rows = combine {} (concat rows)"

lemma combine_set: "set (combine seen ks) = set ks - seen \<and> distinct (combine seen ks)"
  by (induction seen ks rule: combine.induct) auto

lemma CombineResults_set: "set (CombineResults rows) = (\<Union>row\<in>set rows. set row)" "distinct (CombineResults rows)"
  using combine_set [of "{}" "concat rows"] by (auto simp: CombineResults_def)

subsection \<open>Reading the tree\<close>

record queryCounters =
  qn_nodesFetched :: nat
  qn_branchesConsidered :: nat
  qn_branchesPruned :: nat
  qn_candidates :: nat

record QueryStats = queryCounters +
  qn_Matches :: nat

definition zeroCounters :: queryCounters where
  "zeroCounters = \<lparr>qn_nodesFetched = 0, qn_branchesConsidered = 0, qn_branchesPruned = 0, qn_candidates = 0\<rparr>"

definition snapshot :: "queryCounters \<Rightarrow> nat \<Rightarrow> QueryStats" where
  "snapshot c matches =
     \<lparr>qn_nodesFetched = qn_nodesFetched c, qn_branchesConsidered = qn_branchesConsidered c,
      qn_branchesPruned = qn_branchesPruned c, qn_candidates = qn_candidates c, qn_Matches = matches\<rparr>"

definition countingGet :: "(string \<Rightarrow> bytes result) \<Rightarrow> string \<Rightarrow> (queryCounters, bytes) op" where
  "countingGet get k c = (get k, c\<lparr>qn_nodesFetched := qn_nodesFetched c + 1\<rparr>)"

text \<open>\<open>PruneByBloom\<close>; the checks run in parallel and share nothing.\<close>

fun prune :: "string list \<Rightarrow> Node option list \<Rightarrow> Node option list option" where
  "prune ngrams [] = Some []"
| "prune ngrams (None # ns) = prune ngrams ns"
| "prune ngrams (Some n # ns) =
     (case BloomContainsAll (h_Bloom (nhdr n)) ngrams of
        None \<Rightarrow> None
      | Some keep \<Rightarrow> map_option (\<lambda>out. if keep then Some n # out else out) (prune ngrams ns))"

definition PruneByBloom :: "Node option list \<Rightarrow> string list \<Rightarrow> Node option list option" where
  "PruneByBloom ns ngrams = (if ngrams = [] then Some ns else prune ngrams ns)"

text \<open>The children of a node, fetched concurrently; a failed read leaves its slot nil.\<close>

fun fetchChildren ::
  "pht_env \<Rightarrow> (string \<Rightarrow> bytes result) \<Rightarrow> string \<Rightarrow> string list \<Rightarrow> queryCounters \<Rightarrow> Node option list \<times> queryCounters" where
  "fetchChildren E get pfx [] c = ([], c)"
| "fetchChildren E get pfx (seg # segs) c =
     (case GetNode E (countingGet get) (pfx @ seg) c of
        (r, c1) \<Rightarrow> (case fetchChildren E get pfx segs c1 of (rest, c2) \<Rightarrow> (result_or_nil r # rest, c2)))"

definition pruneCounted ::
  "string list \<Rightarrow> Node option list \<Rightarrow> queryCounters \<Rightarrow> (Node option list \<times> queryCounters) option" where
  "pruneCounted ngrams children c =
     (if ngrams = [] then Some (children, c)
      else map_option (\<lambda>kept. (kept, c\<lparr>qn_branchesPruned := qn_branchesPruned c + (length children - length kept)\<rparr>))
             (PruneByBloom children ngrams))"

fun collectUnder ::
  "nat \<Rightarrow> pht_env \<Rightarrow> (string \<Rightarrow> bytes result) \<Rightarrow> string list \<Rightarrow> Node \<Rightarrow> queryCounters \<Rightarrow>
   (string list \<times> queryCounters) option" and
  collectParts ::
  "nat \<Rightarrow> pht_env \<Rightarrow> (string \<Rightarrow> bytes result) \<Rightarrow> string list \<Rightarrow> Node option list \<Rightarrow> queryCounters \<Rightarrow>
   (string list list \<times> queryCounters) option" where
  "collectUnder 0 E get ngrams n c = None"
| "collectUnder (Suc f) E get ngrams (Leaf h es) c =
     (case (if ngrams = [] then Some True else BloomContainsAll (h_Bloom h) ngrams) of
        None \<Rightarrow> None
      | Some False \<Rightarrow> Some ([], c\<lparr>qn_branchesPruned := qn_branchesPruned c + 1\<rparr>)
      | Some True \<Rightarrow> Some (es, c\<lparr>qn_candidates := qn_candidates c + length es\<rparr>))"
| "collectUnder (Suc f) E get ngrams (Internal h cs) c =
     (case fetchChildren E get (h_Prefix h) (map fst cs)
             (c\<lparr>qn_branchesConsidered := qn_branchesConsidered c + length cs\<rparr>) of
        (children, c1) \<Rightarrow>
          (case pruneCounted ngrams children c1 of
             None \<Rightarrow> None
           | Some (kept, c2) \<Rightarrow>
               map_option (\<lambda>(parts, c3). (CombineResults parts, c3)) (collectParts f E get ngrams kept c2)))"
| "collectParts f E get ngrams [] c = Some ([], c)"
| "collectParts f E get ngrams (None # ns) c = collectParts f E get ngrams ns c"
| "collectParts f E get ngrams (Some n # ns) c =
     (case collectUnder f E get ngrams n c of
        None \<Rightarrow> None
      | Some (sub, c1) \<Rightarrow>
          map_option (\<lambda>(parts, c2). (if sub = [] then parts else sub # parts, c2))
            (collectParts f E get ngrams ns c1))"

text \<open>The loop of \<open>prefixQueryDHT\<close> down to the node of the prefix.\<close>

fun navigateTo ::
  "nat \<Rightarrow> pht_env \<Rightarrow> (string \<Rightarrow> bytes result) \<Rightarrow> string \<Rightarrow> Node \<Rightarrow> queryCounters \<Rightarrow>
   (Node result \<times> queryCounters) option" where
  "navigateTo 0 E get pfx n c = None"
| "navigateTo (Suc f) E get pfx n c =
     (if IsInternal n \<and> length (pfx_of n) < length pfx
      then (case GetNode E (countingGet get) (pfx_of n @ seg_of (pfx_of n) pfx) c of
              (Inl err, c1) \<Rightarrow> Some (Inl err, c1)
            | (Inr child, c1) \<Rightarrow> navigateTo f E get pfx child c1)
      else Some (Inr n, c))"

definition prefixQueryDHT ::
  "nat \<Rightarrow> pht_env \<Rightarrow> (string \<Rightarrow> bytes result) \<Rightarrow> string \<Rightarrow> queryCounters \<Rightarrow>
   (string list result \<times> queryCounters) option" where
  "prefixQueryDHT f E get pfx c =
     (case GetNode E (countingGet get) [] c of
        (Inl err, c1) \<Rightarrow> Some (Inl err, c1)
      | (Inr root, c1) \<Rightarrow>
          (case navigateTo f E get pfx root c1 of
             None \<Rightarrow> None
           | Some (Inl err, c2) \<Rightarrow> Some (Inl err, c2)
           | Some (Inr n, c2) \<Rightarrow>
               map_option (\<lambda>(rows, c3). (Inr (filter (\<lambda>k. HasPrefix k pfx) rows), c3))
                 (collectUnder f E get [] n c2)))"

definition PrefixQueryDHTWithStats ::
  "nat \<Rightarrow> pht_env \<Rightarrow> (string \<Rightarrow> bytes result) \<Rightarrow> string \<Rightarrow> (string list result \<times> QueryStats) option" where
  "PrefixQueryDHTWithStats f E get pfx =
     map_option (\<lambda>(r, c). (r, snapshot c (case r of Inl _ \<Rightarrow> 0 | Inr rows \<Rightarrow> length rows)))
       (prefixQueryDHT f E get pfx zeroCounters)"

text \<open>Without statistics the counters are nil and nothing else changes.\<close>

definition PrefixQueryDHT ::
  "nat \<Rightarrow> pht_env \<Rightarrow> (string \<Rightarrow> bytes result) \<Rightarrow> string \<Rightarrow> string list result option" where
  "PrefixQueryDHT f E get pfx = map_option fst (prefixQueryDHT f E get pfx zeroCounters)"

text \<open>The scan of the whole tree under a test of the names, with the n-grams that may prune it: the common
  part of the regular-expression and substring queries.\<close>

definition scanQuery ::
  "nat \<Rightarrow> pht_env \<Rightarrow> (string \<Rightarrow> bytes result) \<Rightarrow> string list \<Rightarrow> (string \<Rightarrow> bool) \<Rightarrow>
   (string list result \<times> QueryStats) option" where
  "scanQuery f E get ngrams test =
     (case GetNode E (countingGet get) [] zeroCounters of
        (Inl err, c1) \<Rightarrow> Some (Inl err, snapshot c1 0)
      | (Inr root, c1) \<Rightarrow>
          map_option (\<lambda>(rows, c2). (Inr (filter test rows), snapshot c2 (length (filter test rows))))
            (collectUnder f E get ngrams root c1))"

text \<open>\<open>regexp.Compile\<close> is a parameter: \<open>None\<close> for an expression that does not parse.\<close>

definition RegexQueryDHTWithStats ::
  "(string \<Rightarrow> (string \<Rightarrow> bool) option) \<Rightarrow> nat \<Rightarrow> pht_env \<Rightarrow> (string \<Rightarrow> bytes result) \<Rightarrow> string \<Rightarrow>
   (string list result \<times> QueryStats) option" where
  "RegexQueryDHTWithStats compile f E get expr =
     (case compile (''^(?:'' @ expr @ '')$'') of
        None \<Rightarrow> Some (Inl (ErrMsg ''compile PHT regex''), snapshot zeroCounters 0)
      | Some matcher \<Rightarrow> scanQuery f E get [] matcher)"

definition ExecuteSubstringQueryWithStatsAndPruning ::
  "nat \<Rightarrow> pht_env \<Rightarrow> (string \<Rightarrow> bytes result) \<Rightarrow> string \<Rightarrow> int \<Rightarrow> bool \<Rightarrow>
   (string list result \<times> QueryStats) option" where
  "ExecuteSubstringQueryWithStatsAndPruning f E get sub nGram pruning =
     (if sub = [] then Some (Inr [], snapshot zeroCounters 0)
      else scanQuery f E get (if pruning then ExtractNGrams sub (orDefault nGram DefaultNGramSize) else [])
             (\<lambda>k. sublist sub k))"

definition ExecuteSubstringQuery ::
  "nat \<Rightarrow> pht_env \<Rightarrow> (string \<Rightarrow> bytes result) \<Rightarrow> string \<Rightarrow> int \<Rightarrow> string list result option" where
  "ExecuteSubstringQuery f E get sub nGram =
     map_option fst (ExecuteSubstringQueryWithStatsAndPruning f E get sub nGram True)"

end
