(* ===== verification/PHT_Query_Props.thy ===== *)
theory PHT_Query_Props
  imports PHT_Query
begin

text \<open>
  Queries over a stored tree return exactly the matching keys: pruning by Bloom filters loses none, and
  enough fuel makes every query return.
\<close>

definition readNode :: "pht_env \<Rightarrow> (string \<Rightarrow> bytes result) \<Rightarrow> string \<Rightarrow> Node result" where
  "readNode E get p = bindR (get (phtKey E p)) (decodeNode E)"

lemma look_readNode: "look E V s = readNode E (view V s)"
  by (simp add: look_def readNode_def fun_eq_iff)

lemma GetNode_counting:
  "GetNode E (countingGet get) p c = (readNode E get p, c\<lparr>qn_nodesFetched := qn_nodesFetched c + 1\<rparr>)"
  by (cases "get (phtKey E p)") (simp_all add: GetNode_def readNode_def countingGet_def bindS_def liftR_def)

subsection \<open>Filters that answer\<close>

lemma contains_all_total: "default_shape b \<Longrightarrow> contains_all b ngs \<noteq> None"
proof (induction ngs)
  case (Cons g ngs)
  have "contains_loop g is b \<noteq> None" for "is"
  proof (induction "is")
    case (Cons i "is")
    obtain idx where "hashIndex b g i = Some idx"
      using hashIndex_usable [OF default_shape_usable [OF \<open>default_shape b\<close>]] by metis
    with Cons show ?case by (simp del: not_None_eq)
  qed simp
  then have "Bloom_Contains g b \<noteq> None" by (simp add: Bloom_Contains_def del: not_None_eq)
  then obtain v where "Bloom_Contains g b = Some v" by blast
  with Cons show ?case by (cases v) (simp_all del: not_None_eq)
qed simp

lemma BloomContainsAll_summary:
  assumes "summarizes bo S"
  shows "\<exists>v. BloomContainsAll bo ngs = Some v"
    "k \<in> S \<Longrightarrow> set ngs \<subseteq> set (ExtractNGrams k DefaultNGramSize) \<Longrightarrow> BloomContainsAll bo ngs = Some True"
proof -
  from assms obtain b where b: "bo = Some b" "default_shape b"
    "\<forall>k\<in>S. \<forall>g\<in>set (ExtractNGrams k DefaultNGramSize). present g b" by (auto simp: summarizes_def)
  have "BloomContainsAll bo ngs \<noteq> None"
    using contains_all_total [OF b(2), of ngs] by (simp add: BloomContainsAll_def b(1) del: not_None_eq)
  then show "\<exists>v. BloomContainsAll bo ngs = Some v" by blast
  show "BloomContainsAll bo ngs = Some True"
    if "k \<in> S" "set ngs \<subseteq> set (ExtractNGrams k DefaultNGramSize)"
    using b that contains_all_present [of ngs b] by (auto simp: BloomContainsAll_def)
qed

lemma prune_kept:
  assumes "\<forall>seg\<in>set segs. \<exists>v. BloomContainsAll (h_Bloom (nhdr (ch seg))) ngs = Some v"
  shows "prune ngs (map (\<lambda>seg. Some (ch seg)) segs)
    = Some (map (\<lambda>seg. Some (ch seg)) (filter (\<lambda>seg. BloomContainsAll (h_Bloom (nhdr (ch seg))) ngs = Some True) segs))"
  using assms by (induction segs) auto

lemma fetchChildren_map:
  "\<exists>c'. fetchChildren E get p segs c = (map (\<lambda>seg. result_or_nil (readNode E get (p @ seg))) segs, c')"
  by (induction E get p segs c rule: fetchChildren.induct) (force simp: GetNode_counting split: prod.splits)+

subsection \<open>Collecting a subtree\<close>

text \<open>The rows of a subtree: keys of the subtree, and among them every key that has all the n-grams asked
  for.\<close>

definition rows_ok :: "string list \<Rightarrow> string set \<Rightarrow> string set \<Rightarrow> bool" where
  "rows_ok ngs S rows \<longleftrightarrow> rows \<subseteq> S \<and> (\<forall>k\<in>S. set ngs \<subseteq> set (ExtractNGrams k DefaultNGramSize) \<longrightarrow> k \<in> rows)"

definition collects ::
  "nat \<Rightarrow> pht_env \<Rightarrow> (string \<Rightarrow> bytes result) \<Rightarrow> string list \<Rightarrow> string set \<Rightarrow> Node \<Rightarrow> bool" where
  "collects f E get ngs S n \<longleftrightarrow>
     (\<forall>c. \<exists>rows c'. collectUnder f E get ngs n c = Some (rows, c') \<and> distinct rows \<and> rows_ok ngs S (set rows))"

lemma collectParts_ok:
  assumes "\<forall>seg\<in>set segs. collects f E get ngs (A seg) (ch seg)"
  shows "\<exists>parts c'. collectParts f E get ngs (map (\<lambda>seg. Some (ch seg)) segs) c = Some (parts, c')
    \<and> rows_ok ngs (\<Union>seg\<in>set segs. A seg) (\<Union>row\<in>set parts. set row)"
  using assms
proof (induction segs arbitrary: c)
  case Nil
  then show ?case by (simp add: rows_ok_def)
next
  case (Cons seg segs)
  then have "collects f E get ngs (A seg) (ch seg)" by simp
  then obtain rows c1 where r: "collectUnder f E get ngs (ch seg) c = Some (rows, c1)"
    "rows_ok ngs (A seg) (set rows)" unfolding collects_def by blast
  from Cons.prems have "\<forall>seg\<in>set segs. collects f E get ngs (A seg) (ch seg)" by simp
  from Cons.IH [OF this, of c1] obtain parts c2 where
    p: "collectParts f E get ngs (map (\<lambda>seg. Some (ch seg)) segs) c1 = Some (parts, c2)"
    "rows_ok ngs (\<Union>seg\<in>set segs. A seg) (\<Union>row\<in>set parts. set row)" by blast
  have "(\<Union>row\<in>set (if rows = [] then parts else rows # parts). set row) = set rows \<union> (\<Union>row\<in>set parts. set row)"
    by auto
  moreover have "rows_ok ngs (\<Union>seg\<in>set (seg # segs). A seg) (set rows \<union> (\<Union>row\<in>set parts. set row))"
    using r(2) p(2) by (auto simp: rows_ok_def)
  ultimately show ?case using r(1) p(1) by simp
qed

lemma index_tree_bloom: "index_tree U lk p S \<Longrightarrow> lk p = Inr n \<Longrightarrow> summarizes (h_Bloom (nhdr n)) S"
  by (cases rule: index_tree.cases) auto

lemma collects_leaf:
  assumes "summarizes (h_Bloom h) (set es)" "distinct es" "0 < f"
  shows "collects f E get ngs (set es) (Leaf h es)"
proof -
  obtain g where f: "f = Suc g" using assms(3) by (cases f) auto
  obtain v where v: "BloomContainsAll (h_Bloom h) ngs = Some v" using BloomContainsAll_summary(1) [OF assms(1)] by blast
  have "v" if "k \<in> set es" "set ngs \<subseteq> set (ExtractNGrams k DefaultNGramSize)" for k
    using BloomContainsAll_summary(2) [OF assms(1) that] v by simp
  then show ?thesis using v assms(2) by (cases v) (auto simp: collects_def rows_ok_def f)
qed

lemma collects_internal:
  assumes "routing_node p cs S" "h_Prefix h = p"
    and sub: "\<forall>seg\<in>segs_of cs. index_tree U (readNode E get) (p @ seg) (below p seg S)"
    and col: "\<forall>seg\<in>segs_of cs. \<forall>n. readNode E get (p @ seg) = Inr n \<longrightarrow> collects f E get ngs (below p seg S) n"
  shows "collects (Suc f) E get ngs S (Internal h cs)"
  unfolding collects_def
proof
  fix c
  define ch where "ch = (\<lambda>seg. projr (readNode E get (p @ seg)))"
  have ch: "readNode E get (p @ seg) = Inr (ch seg)" "summarizes (h_Bloom (nhdr (ch seg))) (below p seg S)"
    "collects f E get ngs (below p seg S) (ch seg)" if "seg \<in> segs_of cs" for seg
  proof -
    note t = sub [rule_format, OF that]
    then obtain n where n: "readNode E get (p @ seg) = Inr n" using index_tree_read by blast
    then have "ch seg = n" by (simp add: ch_def)
    with n index_tree_bloom [OF t n] col [rule_format, OF that n]
    show "readNode E get (p @ seg) = Inr (ch seg)" "summarizes (h_Bloom (nhdr (ch seg))) (below p seg S)"
      "collects f E get ngs (below p seg S) (ch seg)" by simp_all
  qed
  let ?segs = "map fst cs"
  let ?keep = "filter (\<lambda>seg. ngs = [] \<or> BloomContainsAll (h_Bloom (nhdr (ch seg))) ngs = Some True) ?segs"
  have "map (\<lambda>seg. result_or_nil (readNode E get (p @ seg))) ?segs = map (\<lambda>seg. Some (ch seg)) ?segs"
    using ch(1) by simp
  then obtain c1 where c1: "fetchChildren E get p ?segs
      (c\<lparr>qn_branchesConsidered := qn_branchesConsidered c + length cs\<rparr>) = (map (\<lambda>seg. Some (ch seg)) ?segs, c1)"
    using fetchChildren_map by metis
  have "\<forall>seg\<in>set ?segs. \<exists>v. BloomContainsAll (h_Bloom (nhdr (ch seg))) ngs = Some v"
    using BloomContainsAll_summary(1) [OF ch(2)] by auto
  from prune_kept [OF this] have
    "\<exists>c2. pruneCounted ngs (map (\<lambda>seg. Some (ch seg)) ?segs) c1 = Some (map (\<lambda>seg. Some (ch seg)) ?keep, c2)"
    by (auto simp: pruneCounted_def PruneByBloom_def)
  then obtain c2 where c2: "pruneCounted ngs (map (\<lambda>seg. Some (ch seg)) ?segs) c1
      = Some (map (\<lambda>seg. Some (ch seg)) ?keep, c2)" by blast
  have "\<forall>seg\<in>set ?keep. collects f E get ngs (below p seg S) (ch seg)" using ch(3) by auto
  from collectParts_ok [OF this, of c2] obtain parts c3 where
    c3: "collectParts f E get ngs (map (\<lambda>seg. Some (ch seg)) ?keep) c2 = Some (parts, c3)"
    "rows_ok ngs (\<Union>seg\<in>set ?keep. below p seg S) (\<Union>row\<in>set parts. set row)" by blast
  have "rows_ok ngs S (\<Union>row\<in>set parts. set row)"
    unfolding rows_ok_def
  proof (intro conjI ballI impI)
    show "(\<Union>row\<in>set parts. set row) \<subseteq> S" using c3(2) by (auto simp: rows_ok_def below_def)
    fix k assume k: "k \<in> S" "set ngs \<subseteq> set (ExtractNGrams k DefaultNGramSize)"
    have seg: "seg_of p k \<in> segs_of cs" using assms(1) k(1) by (simp add: routing_node_def)
    have below: "k \<in> below p (seg_of p k) S" using k(1) by (simp add: below_def)
    have "seg_of p k \<in> set ?keep"
      using seg BloomContainsAll_summary(2) [OF ch(2) [OF seg] below k(2)] by simp
    with below c3(2) k(2) show "k \<in> (\<Union>row\<in>set parts. set row)" unfolding rows_ok_def by blast
  qed
  then show "\<exists>rows c'. collectUnder (Suc f) E get ngs (Internal h cs) c = Some (rows, c') \<and> distinct rows
      \<and> rows_ok ngs S (set rows)"
    using c1 c2 c3(1) assms(2) CombineResults_set [of parts] by simp
qed

lemma collects_tree:
  assumes "index_tree U (readNode E get) p S"
  shows "\<exists>N. \<forall>f\<ge>N. \<forall>n. readNode E get p = Inr n \<longrightarrow> collects f E get ngs S n"
  using assms
proof induction
  case (tree_leaf p h es)
  then show ?case by (intro exI [of _ 1]) (auto intro!: collects_leaf)
next
  case (tree_internal p h cs S)
  have "\<forall>seg\<in>segs_of cs. \<exists>N. \<forall>f\<ge>N. \<forall>n. readNode E get (p @ seg) = Inr n \<longrightarrow> collects f E get ngs (below p seg S) n"
    using tree_internal.IH by blast
  from uniform_bound [OF _ this] obtain N where
    N: "\<forall>f\<ge>N. \<forall>seg\<in>segs_of cs. \<forall>n. readNode E get (p @ seg) = Inr n \<longrightarrow> collects f E get ngs (below p seg S) n"
    by auto
  have sub: "\<forall>seg\<in>segs_of cs. index_tree U (readNode E get) (p @ seg) (below p seg S)"
    using tree_internal.IH by blast
  have "collects f E get ngs S (Internal h cs)" if f: "Suc N \<le> f" for f
  proof -
    obtain g where g: "f = Suc g" "N \<le> g" using f by (cases f) auto
    show ?thesis unfolding g(1)
      by (rule collects_internal [OF tree_internal.hyps(4,3) sub]) (use N g(2) in blast)
  qed
  with tree_internal.hyps(2) show ?case by (intro exI [of _ "Suc N"]) auto
qed

subsection \<open>Prefix queries\<close>

lemma HasPrefix_seg:
  assumes "HasPrefix k pfx" "length p < length pfx"
  shows "seg_of p k = seg_of p pfx"
  using assms by (auto simp: HasPrefix_iff seg_of_def nth_append)

text \<open>The outcome of the descent: the node whose subtree holds every key with the prefix, or a missing
  record when there is no such key.\<close>

definition arrives ::
  "nat \<Rightarrow> pht_env \<Rightarrow> (string \<Rightarrow> bytes result) \<Rightarrow> string \<Rightarrow> string set \<Rightarrow> Node result \<Rightarrow> bool" where
  "arrives g E get pfx S r =
     (case r of
        Inl e \<Rightarrow> isMissingNode e \<and> (\<forall>k\<in>S. \<not> HasPrefix k pfx)
      | Inr m \<Rightarrow> (\<exists>T\<subseteq>S. (\<forall>k\<in>S. HasPrefix k pfx \<longrightarrow> k \<in> T) \<and> collects g E get [] T m))"

lemma navigate_tree:
  assumes "index_tree U (readNode E get) p S" "closed_under U {pfx}"
  shows "\<exists>N. \<forall>f\<ge>N. \<forall>g\<ge>N. \<forall>n c. readNode E get p = Inr n \<longrightarrow>
    (\<exists>r c'. navigateTo f E get pfx n c = Some (r, c') \<and> arrives g E get pfx S r)"
  using assms
proof induction
  case (tree_leaf p h es)
  then have "collects g E get [] (set es) (Leaf h es)" if "1 \<le> g" for g
    using that by (intro collects_leaf) auto
  then have "arrives g E get pfx (set es) (Inr (Leaf h es))" if "1 \<le> g" for g
    using that by (auto simp: arrives_def)
  moreover have "navigateTo f E get pfx (Leaf h es) c = Some (Inr (Leaf h es), c)" if "1 \<le> f" for f c
    using that by (cases f) auto
  ultimately show ?case using tree_leaf.hyps(2) by (intro exI [of _ 1]) auto
next
  case (tree_internal p h cs S)
  let ?g = "seg_of p pfx"
  have tree: "index_tree U (readNode E get) p S"
    using tree_internal.hyps tree_internal.IH by (intro index_tree.tree_internal) auto
  have node: "n = Internal h cs" if "readNode E get p = Inr n" for n
    using that tree_internal.hyps(2) by simp
  have keys: "seg_of p k \<in> segs_of cs" if "k \<in> S" for k
    using tree_internal.hyps(4) that by (simp add: routing_node_def)
  consider (stop) "\<not> length p < length pfx" | (child) "length p < length pfx" "?g \<in> segs_of cs"
    | (none) "length p < length pfx" "?g \<notin> segs_of cs" by blast
  then show ?case
  proof cases
    case stop
    obtain N where N: "\<forall>f\<ge>N. collects f E get [] S (Internal h cs)"
      using collects_tree [OF tree] tree_internal.hyps(2) by blast
    then have "arrives g E get pfx S (Inr (Internal h cs))" if "Suc N \<le> g" for g
      using that by (auto simp: arrives_def)
    moreover have "navigateTo f E get pfx (Internal h cs) c = Some (Inr (Internal h cs), c)" if "Suc N \<le> f" for f c
      using that stop tree_internal.hyps(3) by (cases f) auto
    ultimately show ?thesis using node by (intro exI [of _ "Suc N"]) blast
  next
    case child
    from tree_internal.IH child(2) tree_internal.prems obtain N where
      N: "\<And>f g n c. N \<le> f \<Longrightarrow> N \<le> g \<Longrightarrow> readNode E get (p @ ?g) = Inr n \<Longrightarrow>
        \<exists>r c'. navigateTo f E get pfx n c = Some (r, c') \<and> arrives g E get pfx (below p ?g S) r" by blast
    obtain n where n: "readNode E get (p @ ?g) = Inr n" using tree_internal.IH child(2) index_tree_read by blast
    have sub: "below p ?g S \<subseteq> S" by (auto simp: below_def)
    have all: "k \<in> below p ?g S" if "k \<in> S" "HasPrefix k pfx" for k
      using HasPrefix_seg [OF that(2) child(1)] that(1) by (simp add: below_def)
    have up: "arrives g E get pfx S r" if r: "arrives g E get pfx (below p ?g S) r" for g r
    proof (cases r)
      case (Inl e)
      with r all show ?thesis by (auto simp: arrives_def)
    next
      case (Inr m)
      with r obtain T where "T \<subseteq> below p ?g S" "\<forall>k\<in>below p ?g S. HasPrefix k pfx \<longrightarrow> k \<in> T"
        "collects g E get [] T m" by (auto simp: arrives_def)
      moreover have "T \<subseteq> S" using calculation(1) sub by (rule subset_trans)
      moreover have "\<forall>k\<in>S. HasPrefix k pfx \<longrightarrow> k \<in> T" using calculation(2) all by blast
      ultimately show ?thesis unfolding arrives_def Inr by auto
    qed
    have "\<exists>r c'. navigateTo f E get pfx (Internal h cs) c = Some (r, c') \<and> arrives g E get pfx S r"
      if f: "Suc N \<le> f" "Suc N \<le> g" for f g c
    proof -
      obtain f' where f': "f = Suc f'" "N \<le> f'" using f(1) by (cases f) auto
      obtain r c' where "navigateTo f' E get pfx n (c\<lparr>qn_nodesFetched := qn_nodesFetched c + 1\<rparr>) = Some (r, c')"
        "arrives g E get pfx (below p ?g S) r" using N [OF f'(2) _ n, of g] f(2) by fastforce
      with up child(1) tree_internal.hyps(3) n show ?thesis by (simp add: f'(1) GetNode_counting)
    qed
    then show ?thesis using node by (intro exI [of _ "Suc N"]) blast
  next
    case none
    have "p @ ?g \<in> U" using tree_internal.prems tree_internal.hyps(1) none(1) by (simp add: closed_under_def)
    then have "absent (readNode E get (p @ ?g))"
      using tree_internal.hyps(6) none(2) unfolding vacant_def seg_of_def by (metis append_Nil2)
    then obtain e where e: "readNode E get (p @ ?g) = Inl e" "isMissingNode e" by (auto simp: absent_iff)
    have "\<not> HasPrefix k pfx" if "k \<in> S" for k using keys [OF that] HasPrefix_seg none by metis
    then have "arrives g E get pfx S (Inl e)" for g using e(2) by (simp add: arrives_def)
    moreover have "\<exists>c'. navigateTo f E get pfx (Internal h cs) c = Some (Inl e, c')" if "1 \<le> f" for f c
      using that none(1) tree_internal.hyps(3) e(1) by (cases f) (auto simp: GetNode_counting)
    ultimately show ?thesis using node by (intro exI [of _ 1]) blast
  qed
qed

text \<open>The answer to a prefix query: the names with the prefix, each once, or a missing record when there is
  none.\<close>

definition prefix_answer :: "string set \<Rightarrow> string \<Rightarrow> string list result \<Rightarrow> bool" where
  "prefix_answer S pfx r =
     (case r of Inl e \<Rightarrow> isMissingNode e \<and> (\<forall>k\<in>S. \<not> HasPrefix k pfx)
      | Inr rows \<Rightarrow> distinct rows \<and> set rows = {k\<in>S. HasPrefix k pfx})"

text \<open>The answer to a scan: the names that pass the test, each once and counted, or a missing root when
  nothing is stored.\<close>

definition scan_answer :: "string set \<Rightarrow> (string \<Rightarrow> bool) \<Rightarrow> string list result \<Rightarrow> QueryStats \<Rightarrow> bool" where
  "scan_answer S test r st =
     (case r of Inl e \<Rightarrow> isMissingNode e \<and> S = {}
      | Inr rows \<Rightarrow> distinct rows \<and> set rows = {k\<in>S. test k} \<and> qn_Matches st = length rows)"

lemma prefix_query_tree:
  assumes "stores U (readNode E get) S" "[] \<in> U" "closed_under U {pfx}"
  shows "\<exists>N. \<forall>f\<ge>N. \<exists>r c'. prefixQueryDHT f E get pfx c = Some (r, c') \<and> prefix_answer S pfx r"
proof (cases "index_tree U (readNode E get) [] S")
  case True
  then obtain root where root: "readNode E get [] = Inr root" using index_tree_read by blast
  obtain N where N: "\<And>f g c. N \<le> f \<Longrightarrow> N \<le> g \<Longrightarrow>
      \<exists>r c'. navigateTo f E get pfx root c = Some (r, c') \<and> arrives g E get pfx S r"
    using navigate_tree [OF True assms(3)] root by blast
  show ?thesis
  proof (intro exI [of _ N] allI impI)
    fix f assume f: "N \<le> f"
    let ?c = "c\<lparr>qn_nodesFetched := qn_nodesFetched c + 1\<rparr>"
    obtain r c1 where nav: "navigateTo f E get pfx root ?c = Some (r, c1)" "arrives f E get pfx S r"
      using N [OF f f] by blast
    show "\<exists>r c'. prefixQueryDHT f E get pfx c = Some (r, c') \<and> prefix_answer S pfx r"
    proof (cases r)
      case (Inl e)
      with nav root show ?thesis by (simp add: prefixQueryDHT_def GetNode_counting arrives_def prefix_answer_def)
    next
      case (Inr m)
      with nav(2) obtain T where T: "T \<subseteq> S" "\<forall>k\<in>S. HasPrefix k pfx \<longrightarrow> k \<in> T" "collects f E get [] T m"
        by (auto simp: arrives_def)
      obtain rows c2 where rows: "collectUnder f E get [] m c1 = Some (rows, c2)" "distinct rows"
        "rows_ok [] T (set rows)" using T(3) unfolding collects_def by blast
      have "set (filter (\<lambda>k. HasPrefix k pfx) rows) = {k\<in>S. HasPrefix k pfx}"
        using rows(3) T(1,2) by (auto simp: rows_ok_def)
      with Inr nav root rows(1,2) show ?thesis by (simp add: prefixQueryDHT_def GetNode_counting prefix_answer_def)
    qed
  qed
next
  case False
  with assms(1) have "S = {}" "\<forall>p\<in>U. absent (readNode E get p)" by (auto simp: stores_def)
  then obtain e where "readNode E get [] = Inl e" "isMissingNode e" using assms(2) by (auto simp: absent_iff)
  with \<open>S = {}\<close> show ?thesis by (simp add: prefixQueryDHT_def GetNode_counting prefix_answer_def)
qed

subsection \<open>Substring queries\<close>

lemma scan_query_tree:
  assumes "stores U (readNode E get) S" "[] \<in> U"
    and "\<forall>k\<in>S. test k \<longrightarrow> set ngs \<subseteq> set (ExtractNGrams k DefaultNGramSize)"
  shows "\<exists>N. \<forall>f\<ge>N. \<exists>r st. scanQuery f E get ngs test = Some (r, st) \<and> scan_answer S test r st"
proof (cases "index_tree U (readNode E get) [] S")
  case True
  then obtain root where root: "readNode E get [] = Inr root" using index_tree_read by blast
  obtain N where N: "\<And>f. N \<le> f \<Longrightarrow> collects f E get ngs S root"
    using collects_tree [OF True] root by blast
  show ?thesis
  proof (intro exI [of _ N] allI impI)
    fix f assume f: "N \<le> f"
    let ?c = "zeroCounters\<lparr>qn_nodesFetched := qn_nodesFetched zeroCounters + 1\<rparr>"
    obtain rows c2 where rows: "collectUnder f E get ngs root ?c = Some (rows, c2)" "distinct rows"
      "rows_ok ngs S (set rows)" using N [OF f] unfolding collects_def by blast
    have "set (filter test rows) = {k\<in>S. test k}"
      using rows(3) assms(3) by (auto simp: rows_ok_def)
    with root rows(1,2) show "\<exists>r st. scanQuery f E get ngs test = Some (r, st) \<and> scan_answer S test r st"
      by (simp add: scanQuery_def GetNode_counting snapshot_def scan_answer_def)
  qed
next
  case False
  with assms(1) have "S = {}" "\<forall>p\<in>U. absent (readNode E get p)" by (auto simp: stores_def)
  then obtain e where "readNode E get [] = Inl e" "isMissingNode e" using assms(2) by (auto simp: absent_iff)
  with \<open>S = {}\<close> show ?thesis by (simp add: scanQuery_def GetNode_counting scan_answer_def)
qed

lemma substring_ngrams:
  assumes "sublist sub k" "nGram \<le> 0 \<or> nGram = DefaultNGramSize"
  shows "set (ExtractNGrams sub (orDefault nGram DefaultNGramSize)) \<subseteq> set (ExtractNGrams k DefaultNGramSize)"
proof -
  have "orDefault nGram DefaultNGramSize = DefaultNGramSize" using assms(2) by (auto simp: orDefault_def)
  with ExtractNGrams_sub [OF assms(1)] show ?thesis by simp
qed

end
