(* ===== verification/PHT_Adopt.thy ===== *)
theory PHT_Adopt
  imports PHT_Delete
begin

text \<open>
  \<open>AdoptFence\<close> of \<open>internal/pht/mutable.go\<close>: a new writer drops its cache, loads the whole tree and
  writes it back under its own fence. Loading takes fuel, for the records may be cyclic. The wait
  between two reads of a missing child, and its cancellation, are not modelled.
\<close>

definition fenceAdoptionReadAttempts :: nat where "fenceAdoptionReadAttempts = 10"

fun getDescendantForFenceAdoption ::
  "pht_env \<Rightarrow> 'n valuestore \<Rightarrow> string \<Rightarrow> nat \<Rightarrow> ('n mindex, Node) op" where
  "getDescendantForFenceAdoption E V pfx 0 = failS (ErrMsg ''no attempt'')"
| "getDescendantForFenceAdoption E V pfx (Suc left) =
     tryS (getNode E V pfx) (\<lambda>r.
       case r of
         Inr n \<Rightarrow> retS n
       | Inl err \<Rightarrow>
           if \<not> isMissingNode err \<or> left = 0 then failS err
           else getDescendantForFenceAdoption E V pfx left)"

fun loadDescendants ::
  "nat \<Rightarrow> pht_env \<Rightarrow> 'n valuestore \<Rightarrow> WriteFence \<Rightarrow> Node \<Rightarrow> 'n mindex \<Rightarrow> (Node result \<times> 'n mindex) option" and
  loadChildren ::
  "nat \<Rightarrow> pht_env \<Rightarrow> 'n valuestore \<Rightarrow> WriteFence \<Rightarrow> string \<Rightarrow> string list \<Rightarrow> 'n mindex \<Rightarrow>
   ((string \<times> Node option) list result \<times> 'n mindex) option" where
  "loadDescendants 0 E V fence n s = None"
| "loadDescendants (Suc f) E V fence (Leaf h es) s =
     Some (bindR (requireCurrentFence (Leaf h es) fence) (\<lambda>_. Inr (Leaf h es)), s)"
| "loadDescendants (Suc f) E V fence (Internal h cs) s =
     (case requireCurrentFence (Internal h cs) fence of
        Inl err \<Rightarrow> Some (Inl err, s)
      | Inr _ \<Rightarrow>
          map_option (\<lambda>(r, t). (bindR r (\<lambda>loaded. Inr (Internal h loaded)), t))
            (loadChildren f E V fence (h_Prefix h) (map fst cs) s))"
| "loadChildren f E V fence pfx [] s = Some (Inr [], s)"
| "loadChildren f E V fence pfx (seg # segs) s =
     (case getDescendantForFenceAdoption E V (pfx @ seg) fenceAdoptionReadAttempts s of
        (Inl err, t) \<Rightarrow> Some (Inl (ErrWrap ''read PHT child for fence adoption'' err), t)
      | (Inr child, t) \<Rightarrow>
          (case loadDescendants f E V fence child t of
             None \<Rightarrow> None
           | Some (Inl err, u) \<Rightarrow> Some (Inl err, u)
           | Some (Inr n, u) \<Rightarrow>
               map_option (\<lambda>(r, v). (bindR r (\<lambda>loaded. Inr ((seg, Some n) # loaded)), v))
                 (loadChildren f E V fence pfx segs u)))"

definition AdoptFence ::
  "nat \<Rightarrow> pht_env \<Rightarrow> 'n valuestore \<Rightarrow> WriteFence \<Rightarrow> 'n mindex \<Rightarrow> (unit result \<times> 'n mindex) option" where
  "AdoptFence f E V fence s0 =
     (case getNode E V [] (cache_reset s0) of
        (Inl err, s) \<Rightarrow>
          Some (if isMissingNode err then (Inr (), s)
                else (Inl (ErrWrap ''read PHT root for fence adoption'' err), s))
      | (Inr root, s) \<Rightarrow>
          (if CompareWriteFences fence (fence_of root) < 0
           then Some (Inl (ErrWrap ''cannot adopt'' ErrStaleWriteFence), s)
           else if CompareWriteFences fence (fence_of root) = 0 then Some (Inr (), s)
           else (case loadDescendants f E V fence root s of
                   None \<Rightarrow> None
                 | Some (Inl err, t) \<Rightarrow> Some (Inl err, t)
                 | Some (Inr n, t) \<Rightarrow>
                     Some (PutNodeRecursive E (cache_PutValue V) (incrementVersions (stampWriteFence fence n)) t))))"

lemma CompareWriteFences_0: "CompareWriteFences a b = 0 \<longleftrightarrow> b = a"
  by (cases a; cases b) (auto simp: CompareWriteFences_def)

subsection \<open>Loading\<close>

lemma walk_positions:
  assumes "\<And>h. h_Prefix (f h) = h_Prefix h" "built U K b p S n"
  shows "pfx_of ` set (nodes n) = pfx_of ` set (nodes (walk f n))"
  using assms(2)
proof induction
  case (built_leaf p es h)
  then show ?case using assms(1) by simp
next
  case (built_internal p S h cs)
  let ?cs = "map (map_prod id (map_option (walk f))) cs"
  have some: "\<forall>(seg, c)\<in>set cs. \<exists>n. c = Some n" using built_internal.IH by fastforce
  then have some': "\<forall>(seg, c)\<in>set ?cs. \<exists>n. c = Some n" by auto
  have "pfx_of ` set (nodes (the (snd c))) = pfx_of ` set (nodes (the (map_option (walk f) (snd c))))"
    if c: "c \<in> set cs" for c
  proof -
    obtain n where "snd c = Some n" "built U K b (p @ fst c) (below p (fst c) S) n
        \<and> pfx_of ` set (nodes n) = pfx_of ` set (nodes (walk f n))"
      by (rule built_children [OF built_internal.IH c])
    then show ?thesis by simp
  qed
  then have "(\<Union>c\<in>set cs. pfx_of ` set (nodes (the (snd c))))
      = (\<Union>c\<in>set cs. pfx_of ` set (nodes (the (map_option (walk f) (snd c)))))" by simp
  then show ?case using assms(1) built_internal.hyps(3)
    by (simp add: nodes_Internal [OF some] nodes_Internal [OF some'] image_Un image_UN)
qed

text \<open>A loaded subtree is a built one, and outside its nodes nothing is stored below it.\<close>

definition loaded_at ::
  "string set \<Rightarrow> string set \<Rightarrow> (string \<Rightarrow> Node result) \<Rightarrow> string \<Rightarrow> string set \<Rightarrow> Node \<Rightarrow> bool" where
  "loaded_at U K lk p S m \<longleftrightarrow> built U K True p S m
     \<and> (\<forall>q c. q \<in> U \<longrightarrow> prefix (p @ byte_string c) q \<longrightarrow> q \<notin> pfx_of ` set (nodes m) \<longrightarrow> absent (lk q))"

lemma loaded_internal:
  assumes U: "\<And>q. q \<in> U \<Longrightarrow> segmented q" and asm: "p \<in> U" "S \<subseteq> K" "h_Prefix h = p" "routing_node p cs S"
    "summarizes (h_Bloom h) S" "vacant U lk p (segs_of cs)" "map fst ds = map fst cs"
    "\<forall>(seg, c)\<in>set ds. \<exists>m. c = Some m \<and> loaded_at U K lk (p @ seg) (below p seg S) m"
  shows "loaded_at U K lk p S (Internal h ds)"
proof -
  have segs: "segs_of ds = segs_of cs" using asm(7) by (metis list.set_map)
  have nd: "nodes (Internal h ds) = concat (map (\<lambda>c. nodes (the (snd c))) ds) @ [Internal h ds]"
    using asm(8) by (intro nodes_Internal) blast
  have "routing_node p ds S" using asm(4) unfolding routing_node_def segs asm(7) .
  then have "built U K True p S (Internal h ds)"
    using asm(1,2,3,5,8) by (intro built_internal) (auto simp: loaded_at_def)
  moreover have "absent (lk q)"
    if q: "q \<in> U" "prefix (p @ byte_string c) q" "q \<notin> pfx_of ` set (nodes (Internal h ds))" for q c
  proof (cases "byte_string c \<in> segs_of ds")
    case True
    then obtain d where d: "d \<in> set ds" "fst d = byte_string c" by auto
    obtain m where m: "snd d = Some m" "loaded_at U K lk (p @ fst d) (below p (fst d) S) m"
      using built_children [OF asm(8) d(1)] .
    have inm: "q \<notin> pfx_of ` set (nodes m)" using q(3) d(1) m(1) unfolding nd by force
    then have "q \<noteq> p @ byte_string c"
      using nodes_self [of m] built_prefix m(2) d(2) unfolding loaded_at_def by (metis imageI)
    then have "strict_prefix (p @ byte_string c) q" using q(2) by (simp add: strict_prefix_def)
    moreover have "p @ byte_string c \<in> U"
      using m(2) d(2) unfolding loaded_at_def by (auto elim: built.cases)
    ultimately obtain b where "prefix ((p @ byte_string c) @ byte_string b) q"
      using segmented_below [of "p @ byte_string c" q] U q(1) by blast
    then show ?thesis using m(2) inm q(1) d(2) unfolding loaded_at_def by metis
  next
    case False
    then show ?thesis using asm(6) q(1,2) unfolding vacant_def segs by (auto simp: prefix_def)
  qed
  ultimately show ?thesis by (simp add: loaded_at_def)
qed

context pht_store
begin

lemma adoption_read:
  assumes "look E V s pfx = Inr n" "0 < left"
  shows "\<exists>t. getDescendantForFenceAdoption E V pfx left s = (Inr n, t) \<and> view V t = view V s"
proof -
  obtain r t where "getNode E V pfx s = (r, t)" by (cases "getNode E V pfx s")
  with getNode_look [OF this] assms show ?thesis by (cases left) (auto simp: tryS_def retS_def)
qed

text \<open>\<open>loads f n S\<close>: with fuel \<open>f\<close> the loading of \<open>n\<close> returns, keeps the view, and gives the subtree, unless
  a record has a newer fence.\<close>

definition loads :: "nat \<Rightarrow> WriteFence \<Rightarrow> 'n mindex \<Rightarrow> string \<Rightarrow> string set \<Rightarrow> Node \<Rightarrow> bool" where
  "loads f fence s0 p S n \<longleftrightarrow>
     (\<forall>s. view V s = view V s0 \<longrightarrow>
        (\<exists>r t. loadDescendants f E V fence n s = Some (r, t) \<and> view V t = view V s0
           \<and> (\<forall>m. r = Inr m \<longrightarrow> loaded_at U K (look E V s0) p S m)
           \<and> (\<not> newer U (look E V s0) fence \<longrightarrow> is_ok r)))"

lemma loadChildren_ok:
  assumes "\<forall>seg\<in>set segs. \<exists>n. look E V s0 (p @ seg) = Inr n \<and> loads f fence s0 (p @ seg) (A seg) n"
    "view V s = view V s0"
  shows "\<exists>r t. loadChildren f E V fence p segs s = Some (r, t) \<and> view V t = view V s0
    \<and> (\<forall>ds. r = Inr ds \<longrightarrow> map fst ds = segs
          \<and> (\<forall>(seg, c)\<in>set ds. \<exists>m. c = Some m \<and> loaded_at U K (look E V s0) (p @ seg) (A seg) m))
    \<and> (\<not> newer U (look E V s0) fence \<longrightarrow> is_ok r)"
  using assms
proof (induction segs arbitrary: s)
  case (Cons seg segs)
  from Cons.prems(1) obtain n where n: "look E V s0 (p @ seg) = Inr n" "loads f fence s0 (p @ seg) (A seg) n" by auto
  have "look E V s (p @ seg) = Inr n" using n(1) look_view [OF Cons.prems(2)] by simp
  then obtain t where t: "getDescendantForFenceAdoption E V (p @ seg) fenceAdoptionReadAttempts s = (Inr n, t)"
    "view V t = view V s0"
    using adoption_read [of s "p @ seg" n fenceAdoptionReadAttempts] Cons.prems(2)
    by (auto simp: fenceAdoptionReadAttempts_def)
  from n(2) t(2) obtain r u where u: "loadDescendants f E V fence n t = Some (r, u)" "view V u = view V s0"
    "\<forall>m. r = Inr m \<longrightarrow> loaded_at U K (look E V s0) (p @ seg) (A seg) m"
    "\<not> newer U (look E V s0) fence \<longrightarrow> is_ok r" unfolding loads_def by blast
  from Cons.IH [of u] Cons.prems(1) u(2) obtain q v where v: "loadChildren f E V fence p segs u = Some (q, v)"
    "view V v = view V s0" "\<forall>ds. q = Inr ds \<longrightarrow> map fst ds = segs
      \<and> (\<forall>(seg, c)\<in>set ds. \<exists>m. c = Some m \<and> loaded_at U K (look E V s0) (p @ seg) (A seg) m)"
    "\<not> newer U (look E V s0) fence \<longrightarrow> is_ok q" by auto
  show ?case
  proof (cases r)
    case (Inl e)
    with t u show ?thesis by simp
  next
    case (Inr m)
    with t u v show ?thesis by (cases q) auto
  qed
qed simp

lemma loads_tree:
  assumes "index_tree U (look E V s0) p S" "S \<subseteq> K"
  shows "\<exists>N. \<forall>f\<ge>N. \<forall>n. look E V s0 p = Inr n \<longrightarrow> loads f fence s0 p S n"
  using assms
proof induction
  case (tree_leaf p h es)
  have "loaded_at U K (look E V s0) p (set es) (Leaf h es)"
    unfolding loaded_at_def
  proof (intro conjI allI impI)
    show "built U K True p (set es) (Leaf h es)" using tree_leaf by (intro built_leaf) auto
    show "absent (look E V s0 q)" if "q \<in> U" "prefix (p @ byte_string c) q" for q c
      using tree_leaf.hyps(7) that by (auto simp: vacant_def prefix_def)
  qed
  then have "loads f fence s0 p (set es) (Leaf h es)" if "1 \<le> f" for f
    using that current_fence [where lk = "look E V s0" and fence = fence, OF _ tree_leaf.hyps(1,2)] by (cases f) (auto simp: loads_def bindR_Inr)
  with tree_leaf.hyps(2) show ?case by (intro exI [of _ 1]) auto
next
  case (tree_internal p h cs S)
  have sub: "\<forall>seg\<in>segs_of cs. index_tree U (look E V s0) (p @ seg) (below p seg S)"
    using tree_internal.IH by blast
  have "below p seg S \<subseteq> K" for seg using tree_internal.prems by (auto simp: below_def)
  then have "\<forall>seg\<in>segs_of cs. \<exists>N. \<forall>f\<ge>N. \<forall>n. look E V s0 (p @ seg) = Inr n \<longrightarrow> loads f fence s0 (p @ seg) (below p seg S) n"
    using tree_internal.IH by blast
  from uniform_bound [OF _ this] obtain N where N: "\<forall>f\<ge>N. \<forall>seg\<in>segs_of cs. \<forall>n.
      look E V s0 (p @ seg) = Inr n \<longrightarrow> loads f fence s0 (p @ seg) (below p seg S) n" by auto
  have "loads (Suc f) fence s0 p S (Internal h cs)" if f: "N \<le> f" for f
    unfolding loads_def
  proof (intro allI impI)
    fix s assume s: "view V s = view V s0"
    have ch: "\<forall>seg\<in>set (map fst cs). \<exists>n. look E V s0 (p @ seg) = Inr n \<and> loads f fence s0 (p @ seg) (below p seg S) n"
      using sub N f index_tree_read by (metis list.set_map)
    from loadChildren_ok [OF ch s] obtain r t where r: "loadChildren f E V fence p (map fst cs) s = Some (r, t)"
      "view V t = view V s0" and ds: "\<And>ds. r = Inr ds \<Longrightarrow> map fst ds = map fst cs \<and>
        (\<forall>(seg, c)\<in>set ds. \<exists>m. c = Some m \<and> loaded_at U K (look E V s0) (p @ seg) (below p seg S) m)"
      and ok: "\<not> newer U (look E V s0) fence \<Longrightarrow> is_ok r" by blast
    have "loaded_at U K (look E V s0) p S (Internal h d)" if "r = Inr d" for d
      using ds [OF that] loaded_internal [OF U_segmented tree_internal.hyps(1) tree_internal.prems
          tree_internal.hyps(3-6)] by blast
    with r ok s tree_internal.hyps(3) current_fence [where lk = "look E V s0" and fence = fence, OF _ tree_internal.hyps(1,2)]
    show "\<exists>r t. loadDescendants (Suc f) E V fence (Internal h cs) s = Some (r, t)
        \<and> view V t = view V s0 \<and> (\<forall>m. r = Inr m \<longrightarrow> loaded_at U K (look E V s0) p S m)
        \<and> (\<not> newer U (look E V s0) fence \<longrightarrow> is_ok r)"
      by (cases "requireCurrentFence (Internal h cs) fence"; cases r) (auto simp: bindR_Inr)
  qed
  then have "loads f fence s0 p S (Internal h cs)" if "Suc N \<le> f" for f using that by (cases f) auto
  with tree_internal.hyps(2) show ?case by (intro exI [of _ "Suc N"]) auto
qed

lemma adopted_tree:
  assumes "loaded_at U K (look E V s) [] S n" "utf8 (wf_Writer fence)"
    "PutNodeRecursive E (cache_PutValue V) (incrementVersions (stampWriteFence fence n)) s = (Inr (), t)"
  shows "index_tree U (look E V t) [] S \<and> root_fence (look E V t) = Some fence
    \<and> (\<forall>q\<in>U. \<forall>m. look E V t q = Inr m \<longrightarrow> fence_of m = fence)"
proof -
  let ?n = "incrementVersions (stampWriteFence fence n)"
  have "pfx_of ` set (nodes n) = pfx_of ` set (nodes ?n)"
    unfolding stampWriteFence_def incrementVersions_def walk_walk
    by (rule walk_positions) (use assms(1) in \<open>auto simp: loaded_at_def\<close>)
  note pos = this
  have bt: "built U K True [] S ?n"
    using assms(1) unfolding loaded_at_def stampWriteFence_def incrementVersions_def
    by (intro walk_built) simp_all
  have st: "\<forall>m\<in>set (nodes ?n). storable utf8 U K m"
    using built_storable [OF bt] stamped_writer [OF bt] assms(2) by simp
  have "putAll E (cache_PutValue V) (map Some (nodes ?n)) s = (Inr (), t)"
    using assms(3) unfolding PutNodeRecursive_def postorder_nodes [OF bt] .
  from putAll_look [OF this st nodes_distinct [OF bt]] have
    stored: "\<forall>m\<in>set (nodes ?n). look E V t (pfx_of m) = Inr (strip m)" and
    others: "\<forall>q\<in>U. q \<notin> pfx_of ` set (nodes ?n) \<longrightarrow> look E V t q = look E V s q" by auto
  have "index_tree U (look E V t) [] S"
    using tree_of_built [OF bt stored] others assms(1) unfolding loaded_at_def pos by metis
  moreover have root: "look E V t [] = Inr (strip ?n)" using stored nodes_self [of ?n] built_prefix [OF bt] by metis
  moreover have "fence_of m = fence" if "q \<in> U" "look E V t q = Inr m" for q m
  proof (cases "q \<in> pfx_of ` set (nodes ?n)")
    case True
    then obtain k where "k \<in> set (nodes ?n)" "q = pfx_of k" by blast
    with stored stamped_all [OF bt] that(2) show ?thesis by auto
  next
    case False
    then have "q \<noteq> []" using nodes_self [of ?n] built_prefix [OF bt] by (metis imageI)
    then have "strict_prefix [] q" by (simp add: strict_prefix_def)
    from segmented_below [OF U_segmented [OF root_in] U_segmented [OF that(1)] this]
    obtain c where "prefix ([] @ byte_string c) q" .
    then have "absent (look E V s q)" using assms(1) that(1) False pos unfolding loaded_at_def by blast
    with others that False show ?thesis by (simp add: absent_iff)
  qed
  ultimately show ?thesis by (simp add: root_fence_def stamped_fence)
qed

lemma adopted_written:
  assumes "reliable V E" "loaded_at U K lk [] S n"
  shows "\<exists>t. PutNodeRecursive E (cache_PutValue V) (incrementVersions (stampWriteFence fence n)) s = (Inr (), t)"
proof -
  let ?n = "incrementVersions (stampWriteFence fence n)"
  have "built U K True [] S ?n"
    using assms(2) unfolding loaded_at_def stampWriteFence_def incrementVersions_def
    by (intro walk_built) simp_all
  then show ?thesis unfolding PutNodeRecursive_def postorder_nodes [OF \<open>built U K True [] S ?n\<close>]
    using putAll_reliable [OF assms(1)] by blast
qed

lemma adopt_refines:
  assumes "stores U (look E V (cache_reset s)) S" "S \<subseteq> K" "utf8 (wf_Writer fence)"
  shows "\<exists>N. \<forall>f\<ge>N. \<exists>r t. AdoptFence f E V fence s = Some (r, t) \<and> (r = Inr () \<longrightarrow>
    stores U (look E V t) S \<and> (\<forall>root. look E V (cache_reset s) [] = Inr root \<longrightarrow> root_fence (look E V t) = Some fence
      \<and> (if fence_of root = fence then look E V t = look E V (cache_reset s)
         else (\<forall>q\<in>U. \<forall>n. look E V t q = Inr n \<longrightarrow> fence_of n = fence))))
    \<and> (reliable V E \<longrightarrow> \<not> newer U (look E V (cache_reset s)) fence \<longrightarrow> r = Inr ())"
proof -
  let ?s = "cache_reset s"
  obtain r t where get: "getNode E V [] ?s = (r, t)" by (cases "getNode E V [] ?s")
  then have r: "r = look E V ?s []" "view V t = view V ?s" using getNode_look by blast+
  show ?thesis
  proof (cases r)
    case (Inl e)
    have "isMissingNode e" using Inl r(1) assms(1) root_in index_tree_read by (fastforce simp: stores_def absent_iff)
    with Inl r(1) get assms(1) look_view [OF r(2)] show ?thesis by (auto simp: AdoptFence_def)
  next
    case (Inr root)
    then have root: "look E V ?s [] = Inr root" using r(1) by simp
    then have tree: "index_tree U (look E V ?s) [] S"
      using assms(1) root_in by (auto simp: stores_def absent_iff)
    obtain N where N: "\<And>f. N \<le> f \<Longrightarrow> loads f fence ?s [] S root" using loads_tree [OF tree assms(2)] root by blast
    have "\<exists>r t. AdoptFence f E V fence s = Some (r, t) \<and> (r = Inr () \<longrightarrow>
        stores U (look E V t) S \<and> root_fence (look E V t) = Some fence
        \<and> (if fence_of root = fence then look E V t = look E V ?s
           else (\<forall>q\<in>U. \<forall>n. look E V t q = Inr n \<longrightarrow> fence_of n = fence)))
        \<and> (reliable V E \<longrightarrow> \<not> newer U (look E V ?s) fence \<longrightarrow> r = Inr ())" if f: "N \<le> f" for f
    proof -
      consider "CompareWriteFences fence (fence_of root) < 0" | "CompareWriteFences fence (fence_of root) = 0"
        | "0 < CompareWriteFences fence (fence_of root)" by linarith
      then show ?thesis
      proof cases
        case 1
        then have "newer U (look E V ?s) fence" using root root_in by (auto simp: newer_def)
        with 1 get Inr show ?thesis by (simp add: AdoptFence_def)
      next
        case 2
        then have "fence_of root = fence" by (simp add: CompareWriteFences_0)
        with 2 get Inr root look_view [OF r(2)] assms(1) show ?thesis
          by (simp add: AdoptFence_def root_fence_def)
      next
        case 3
        from N [OF f] r(2) obtain q u where q: "loadDescendants f E V fence root t = Some (q, u)"
          "view V u = view V ?s" "\<forall>m. q = Inr m \<longrightarrow> loaded_at U K (look E V ?s) [] S m"
          "\<not> newer U (look E V ?s) fence \<longrightarrow> is_ok q"
          unfolding loads_def by blast
        from 3 have new: "fence_of root \<noteq> fence" using CompareWriteFences_0 by (metis less_irrefl)
        note run = AdoptFence_def [of f E V fence s] get Inr 3 q(1)
        show ?thesis
        proof (cases q)
          case (Inl e)
          with run q(4) show ?thesis by simp
        next
          case m: (Inr m)
          obtain q' v where v: "PutNodeRecursive E (cache_PutValue V) (incrementVersions (stampWriteFence fence m)) u = (q', v)"
            by (cases "PutNodeRecursive E (cache_PutValue V) (incrementVersions (stampWriteFence fence m)) u")
          have "stores U (look E V v) S \<and> root_fence (look E V v) = Some fence
              \<and> (\<forall>q\<in>U. \<forall>n. look E V v q = Inr n \<longrightarrow> fence_of n = fence)" if "q' = Inr ()"
            using adopted_tree [of u S m fence v] q(3) m v that assms(3) look_view [OF q(2)] by (simp add: stores_def)
          moreover have "q' = Inr ()" if "reliable V E"
            using adopted_written [OF that, of "look E V ?s" S m fence u] q(3) m v by auto
          ultimately show ?thesis using run m v new by simp
        qed
      qed
    qed
    then show ?thesis by (intro exI [of _ N] allI impI) (simp add: root)
  qed
qed

end

end
