(* ===== verification/PHT_Instance.thy ===== *)
theory PHT_Instance
  imports PHT_Query_Props PHT_Adopt
begin

text \<open>
  An instance of the contract of the index: a map as the network, an injective codec for records, and
  the keys \<open>ab\<close> and \<open>cd\<close>. It shows that the contract can hold and carries the witnesses.
\<close>

fun unary :: "nat \<Rightarrow> bytes" where
  "unary 0 = ''0''"
| "unary (Suc n) = CHR ''1'' # unary n"

fun unary_dec :: "bytes \<Rightarrow> nat \<times> bytes" where
  "unary_dec [] = (0, [])"
| "unary_dec (c # cs) = (if c = CHR ''1'' then map_prod Suc id (unary_dec cs) else (0, cs))"

lemma unary_dec [simp]: "unary_dec (unary n @ r) = (n, r)"
  by (induction n) simp_all

definition enc_str :: "string \<Rightarrow> bytes" where "enc_str s = unary (length s) @ s"

definition dec_str :: "bytes \<Rightarrow> string \<times> bytes" where
  "dec_str b = (case unary_dec b of (n, r) \<Rightarrow> (take n r, drop n r))"

lemma dec_str [simp]: "dec_str (enc_str s @ r) = (s, r)"
  by (simp add: dec_str_def enc_str_def)

fun dec_strs :: "nat \<Rightarrow> bytes \<Rightarrow> string list \<times> bytes" where
  "dec_strs 0 b = ([], b)"
| "dec_strs (Suc n) b = (case dec_str b of (s, r) \<Rightarrow> map_prod (Cons s) id (dec_strs n r))"

definition enc_list :: "string list \<Rightarrow> bytes" where
  "enc_list ss = unary (length ss) @ concat (map enc_str ss)"

definition dec_list :: "bytes \<Rightarrow> string list \<times> bytes" where
  "dec_list b = (case unary_dec b of (n, r) \<Rightarrow> dec_strs n r)"

lemma dec_strs [simp]: "dec_strs (length ss) (concat (map enc_str ss) @ r) = (ss, r)"
  by (induction ss) simp_all

lemma dec_list [simp]: "dec_list (enc_list ss @ r) = (ss, r)"
  by (simp add: dec_list_def enc_list_def)

definition toy_marshal :: "nodeWire \<Rightarrow> bytes" where
  "toy_marshal w = BE_PutUint64 (w_Epoch w) @ BE_PutUint64 (w_Version w)
     @ (case w_Kind w of KindLeaf \<Rightarrow> ''0'' | KindInternal \<Rightarrow> ''1'') @ enc_str (w_Writer w) @ enc_str (w_Prefix w)
     @ enc_list (w_Entries w) @ enc_list (w_Segments w) @ enc_str (w_BloomB64 w)"

definition toy_unmarshal :: "bytes \<Rightarrow> nodeWire" where
  "toy_unmarshal b =
     (let epoch = BE_Uint64 b; b1 = drop 8 b; version = BE_Uint64 b1; b2 = drop 8 b1;
          kind = (if hd b2 = CHR ''0'' then KindLeaf else KindInternal);
          (writer, b3) = dec_str (tl b2); (pfx, b4) = dec_str b3;
          (entries, b5) = dec_list b4; (segments, b6) = dec_list b5 in
      \<lparr>w_Epoch = epoch, w_Writer = writer, w_Version = version, w_Kind = kind, w_Prefix = pfx,
       w_Entries = entries, w_Segments = segments, w_BloomB64 = fst (dec_str b6)\<rparr>)"

lemma toy_unmarshal [simp]: "toy_unmarshal (toy_marshal w) = w"
proof -
  have "dec_str (enc_str s) = (s, [])" for s using dec_str [of s "[]"] by simp
  then show ?thesis
    by (cases w) (auto simp: toy_marshal_def toy_unmarshal_def split: NodeKind.splits)
qed

definition toyPE :: pht_env where
  "toyPE = \<lparr>ph_Sum256 = id, b64_Encode = id, b64_Decode = Inr, js_Marshal = (\<lambda>w. Inr (toy_marshal w)),
            js_Unmarshal = (\<lambda>b. Inr (toy_unmarshal b))\<rparr>"

definition map_network :: "(string \<Rightarrow> bytes option) valuestore" where
  "map_network = \<lparr>vs_GetValue = (\<lambda>m k. case m k of None \<Rightarrow> Inl RoutingNotFound | Some v \<Rightarrow> Inr v),
                  vs_PutValue = (\<lambda>k v m. (Inr (), m(k \<mapsto> v)))\<rparr>"

definition toyU :: "string set" where "toyU = {q. segmented q}"

definition toyK :: "string set" where "toyK = {''ab'', ''cd''}"

lemma toyU_closed: "closed_under toyU K"
proof -
  have "segmented (p @ byte_string c)" if "segmented p" for p c
  proof -
    from that obtain cs where "p = concat (map byte_string cs)" by (auto simp: segmented_def)
    then show ?thesis unfolding segmented_def by (intro exI [of _ "cs @ [c]"]) simp
  qed
  then show ?thesis by (simp add: closed_under_def toyU_def seg_of_def)
qed

lemma toyU_root: "[] \<in> toyU"
  unfolding toyU_def segmented_def by (simp add: exI [of _ "[]"])

interpretation toy: pht_store map_network toyPE "\<lambda>_. True" toyU toyK
proof
  show "separated toyK" unfolding toyK_def by (rule ascii_separated) auto
  show "inj_on (ph_Sum256 toyPE) toyU" by (simp add: toyPE_def)
  show "closed_under toyU toyK" by (rule toyU_closed)
  show "[] \<in> toyU" by (rule toyU_root)
qed (auto simp: map_network_def toyPE_def toyU_def split: option.splits)

definition emptyIndex :: "(string \<Rightarrow> bytes option) mindex" where
  "emptyIndex = NewMutableIndex Map.empty"

definition toyFence :: WriteFence where
  "toyFence = \<lparr>wf_Epoch = 3, wf_Writer = ''w''\<rparr>"

lemma empty_look: "look toyPE map_network emptyIndex p = Inl RoutingNotFound"
  by (simp add: look_def view_def emptyIndex_def NewMutableIndex_def map_network_def)

lemma empty_stores: "stores toyU (look toyPE map_network emptyIndex) {}"
  by (simp add: stores_def absent_iff empty_look isMissingNode_def)

lemma empty_not_blocked: "\<not> blocked toyU (look toyPE map_network emptyIndex) k fence"
  by (simp add: blocked_def empty_look)

lemma toy_reliable: "reliable map_network toyPE"
  by (simp add: reliable_def map_network_def toyPE_def)

text \<open>The index after one insertion.\<close>

lemma one_key:
  "\<exists>t. InsertFenced toyPE map_network ''ab'' toyFence emptyIndex = Some (Inr (), t)
     \<and> stores toyU (look toyPE map_network t) {''ab''} \<and> root_fence (look toyPE map_network t) = Some toyFence"
  using toy.insert_refines [OF empty_stores, of "''ab''" toyFence] empty_not_blocked toy_reliable
  by (auto simp: toyK_def)

text \<open>An index with one record, a leaf with one key and no fence.\<close>

definition oneLeaf :: Node where
  "oneLeaf = BuildNodeBloom 0 0 0 (Leaf (emptyHdr []) [''ab''])"

definition oneIndex :: "(string \<Rightarrow> bytes option) mindex" where
  "oneIndex = NewMutableIndex [phtKey toyPE [] \<mapsto> toy_marshal (wireOf toyPE oneLeaf)]"

lemma one_fields: "oneLeaf = Leaf ((emptyHdr [])\<lparr>h_Bloom := leafBloom [''ab''] 0 0 0\<rparr>) [''ab'']"
  by (simp add: oneLeaf_def)

lemma one_storable: "storable (\<lambda>_. True) toyU toyK oneLeaf"
  using toyU_root summarizes_leaf [of "[''ab'']"]
  by (auto simp: storable_def one_fields emptyHdr_def toyK_def summarizes_def)

lemma one_look: "look toyPE map_network oneIndex q = (if q = [] then Inr oneLeaf else Inl RoutingNotFound)"
proof -
  have "nodeOf toyPE (wireOf toyPE oneLeaf) = oneLeaf"
    using toy.nodeOf_wireOf [OF one_storable] by (simp add: one_fields)
  moreover have "phtKey toyPE q = phtKey toyPE [] \<longleftrightarrow> q = []"
    using hex_inj [of q "[]"] by (simp add: phtKey_def HashPrefix_def toyPE_def del: hex_inj)
  ultimately show ?thesis
    by (auto simp: look_def view_def oneIndex_def NewMutableIndex_def map_network_def decodeNode_def toyPE_def)
qed

lemma one_reset: "cache_reset oneIndex = oneIndex"
  by (simp add: cache_reset_def oneIndex_def NewMutableIndex_def)

lemma one_stores: "stores toyU (look toyPE map_network oneIndex) {''ab''}"
proof -
  have "index_tree toyU (look toyPE map_network oneIndex) [] (set [''ab''])"
  proof (rule tree_leaf)
    show "look toyPE map_network oneIndex [] = Inr (Leaf ((emptyHdr [])\<lparr>h_Bloom := leafBloom [''ab''] 0 0 0\<rparr>) [''ab''])"
      using one_look [of "[]"] by (simp add: one_fields)
    show "vacant toyU (look toyPE map_network oneIndex) [] {}"
      by (simp add: vacant_def one_look absent_iff isMissingNode_def)
    show "summarizes (h_Bloom ((emptyHdr [])\<lparr>h_Bloom := leafBloom [''ab''] 0 0 0\<rparr>)) (set [''ab''])"
      using summarizes_leaf [of "[''ab'']"] by simp
  qed (auto simp: toyU_root emptyHdr_def routes_root)
  then show ?thesis by (simp add: stores_def)
qed

lemma one_not_newer: "\<not> newer toyU (look toyPE map_network oneIndex) toyFence"
  by (auto simp: newer_def one_look one_fields fence_of_def emptyHdr_def CompareWriteFences_def toyFence_def split: if_splits)

end
