(* ===== verification/PHT_Props.thy ===== *)
theory PHT_Props
  imports PHT_Instance
begin

text \<open>
  The properties of the prefix hash tree, over the contract \<open>pht_store\<close> of what it is written to.
\<close>

subsection \<open>The writer\<close>

text \<open>C11. \<open>InsertFenced\<close> refines set insertion and always returns: on an index that stores the keys \<open>S\<close>,
  a successful insertion leaves an index that stores \<open>S\<close> and the new key and nothing else, through
  splits of full leaves and new branches alike, with every Bloom filter still summarizing the keys
  below it and the root carrying the writer's fence; and it succeeds on a store that accepts writes,
  for a key that is not empty and that no newer writer and no end at an internal node blocks.

  The condition on the keys is \<open>separated\<close>: none of them, the new one included, ends where another one
  passes, which for ASCII names says that none is a proper prefix of another. Without it the claim is
  false, for \<open>SplitLeaf\<close> drops a name equal to the prefix of the leaf it splits (\<open>SplitLeaf_drops_short_keys\<close> below).
  Keys and the writer are UTF-8, records survive JSON and base64, distinct prefixes have distinct
  hashes, and a write to the network leaves the values of other keys alone.\<close>

theorem InsertFenced_refines:
  assumes "pht_store V E utf8 U K" "stores U (look E V s) S" "S \<subseteq> K" "k \<in> K" "utf8 (wf_Writer fence)"
  shows "\<exists>r t. InsertFenced E V k fence s = Some (r, t)
    \<and> (r = Inr () \<longrightarrow> stores U (look E V t) (insert k S) \<and> root_fence (look E V t) = Some fence)
    \<and> (k \<noteq> [] \<and> reliable V E \<and> \<not> blocked U (look E V s) k fence \<longrightarrow> r = Inr ())"
  using pht_store.insert_refines [OF assms] by blast

theorem InsertFenced_refines_witness:
  "\<exists>t. InsertFenced toyPE map_network ''ab'' toyFence emptyIndex = Some (Inr (), t)
     \<and> stores toyU (look toyPE map_network t) {''ab''} \<and> root_fence (look toyPE map_network t) = Some toyFence"
  using InsertFenced_refines [OF toy.pht_store_axioms empty_stores, of "''ab''" toyFence]
    empty_not_blocked toy_reliable by (auto simp: toyK_def)

text \<open>C12. \<open>DeleteFenced\<close> refines set deletion and always returns: on an index whose records can be read and
  store the keys \<open>S\<close>, a deletion that reports success leaves an index that stores exactly the keys of
  \<open>S\<close> but the deleted one, and it reports success on a store that accepts writes, for a key that is not
  empty, when no record has a newer fence. The keys are \<open>separated\<close>, as for insertion. When the root
  cannot be read, for whatever reason, the deletion reports success too, and has changed nothing.\<close>

theorem DeleteFenced_refines:
  assumes "pht_store V E utf8 U K" "k \<in> K" "utf8 (wf_Writer fence)"
  shows "(\<forall>S. stores U (look E V s) S \<and> S \<subseteq> K \<longrightarrow>
      (\<exists>r t. DeleteFenced E V k fence s = Some (r, t) \<and> (r = Inr () \<longrightarrow> stores U (look E V t) (S - {k}))
         \<and> (k \<noteq> [] \<and> reliable V E \<and> \<not> newer U (look E V s) fence \<longrightarrow> r = Inr ())))
    \<and> (\<forall>e. look E V s [] = Inl e \<and> k \<noteq> [] \<longrightarrow>
      (\<exists>t. DeleteFenced E V k fence s = Some (Inr (), t) \<and> view V t = view V s))"
  using pht_store.delete_refines [OF assms(1) _ _ assms(2,3)] pht_store.delete_unread [OF assms(1)] by blast

theorem DeleteFenced_refines_witness:
  "stores toyU (look toyPE map_network oneIndex) {''ab''}
   \<and> (\<exists>t. DeleteFenced toyPE map_network ''ab'' toyFence oneIndex = Some (Inr (), t)
        \<and> stores toyU (look toyPE map_network t) {})
   \<and> (\<exists>t. DeleteFenced toyPE map_network ''ab'' toyFence emptyIndex = Some (Inr (), t))"
proof -
  have k: "''ab'' \<in> toyK" by (simp add: toyK_def)
  from DeleteFenced_refines [where fence = toyFence and s = oneIndex, OF toy.pht_store_axioms k]
    one_stores one_not_newer toy_reliable k
  have "\<exists>t. DeleteFenced toyPE map_network ''ab'' toyFence oneIndex = Some (Inr (), t)
      \<and> stores toyU (look toyPE map_network t) ({''ab''} - {''ab''})" by fastforce
  moreover have "\<exists>t. DeleteFenced toyPE map_network ''ab'' toyFence emptyIndex = Some (Inr (), t)"
    using DeleteFenced_refines [where fence = toyFence and s = emptyIndex, OF toy.pht_store_axioms k] empty_look by auto
  ultimately show ?thesis using one_stores by simp
qed

text \<open>C16. \<open>AdoptFence\<close> hands an index over: with enough fuel it returns, and when it succeeds the index stores
  the keys it stored in the network before, all of them. When there is a root record under another
  fence, every record of the index then carries the new writer's fence, the root and all nodes below
  it; when the root carries it already, nothing has changed. It succeeds on a store that accepts
  writes when no record has a newer fence. The index is read from the network, without the cache; the
  conditions on keys and store are those of insertion.\<close>

theorem AdoptFence_hands_over:
  assumes "pht_store V E utf8 U K" "stores U (look E V (cache_reset s)) S" "S \<subseteq> K" "utf8 (wf_Writer fence)"
  shows "\<exists>N. \<forall>f\<ge>N. \<exists>r t. AdoptFence f E V fence s = Some (r, t) \<and> (r = Inr () \<longrightarrow>
    stores U (look E V t) S \<and> (\<forall>root. look E V (cache_reset s) [] = Inr root \<longrightarrow> root_fence (look E V t) = Some fence
      \<and> (if fence_of root = fence then look E V t = look E V (cache_reset s)
         else (\<forall>q\<in>U. \<forall>n. look E V t q = Inr n \<longrightarrow> fence_of n = fence))))
    \<and> (reliable V E \<longrightarrow> \<not> newer U (look E V (cache_reset s)) fence \<longrightarrow> r = Inr ())"
  using pht_store.adopt_refines [OF assms] .

theorem AdoptFence_hands_over_witness:
  "\<exists>f t. AdoptFence f toyPE map_network toyFence oneIndex = Some (Inr (), t)
     \<and> stores toyU (look toyPE map_network t) {''ab''}
     \<and> (\<forall>q\<in>toyU. \<forall>n. look toyPE map_network t q = Inr n \<longrightarrow> fence_of n = toyFence)"
proof -
  have new: "fence_of oneLeaf \<noteq> toyFence" by (simp add: one_fields fence_of_def emptyHdr_def toyFence_def)
  have "stores toyU (look toyPE map_network (cache_reset oneIndex)) {''ab''}"
    using one_stores by (simp add: one_reset)
  from AdoptFence_hands_over [where fence = toyFence, OF toy.pht_store_axioms this]
  obtain N where N: "\<forall>f\<ge>N. \<exists>r t. AdoptFence f toyPE map_network toyFence oneIndex = Some (r, t) \<and> (r = Inr () \<longrightarrow>
      stores toyU (look toyPE map_network t) {''ab''} \<and> (\<forall>root. look toyPE map_network oneIndex [] = Inr root \<longrightarrow>
      root_fence (look toyPE map_network t) = Some toyFence
      \<and> (if fence_of root = toyFence then look toyPE map_network t = look toyPE map_network oneIndex
         else (\<forall>q\<in>toyU. \<forall>n. look toyPE map_network t q = Inr n \<longrightarrow> fence_of n = toyFence))))
      \<and> (reliable map_network toyPE \<longrightarrow> \<not> newer toyU (look toyPE map_network oneIndex) toyFence \<longrightarrow> r = Inr ())"
    unfolding one_reset by (auto simp: toyK_def)
  from N [rule_format, OF order_refl]
  obtain r t where t: "AdoptFence N toyPE map_network toyFence oneIndex = Some (r, t)"
    "r = Inr () \<longrightarrow> stores toyU (look toyPE map_network t) {''ab''} \<and> (\<forall>root. look toyPE map_network oneIndex [] = Inr root \<longrightarrow>
      root_fence (look toyPE map_network t) = Some toyFence
      \<and> (if fence_of root = toyFence then look toyPE map_network t = look toyPE map_network oneIndex
         else (\<forall>q\<in>toyU. \<forall>n. look toyPE map_network t q = Inr n \<longrightarrow> fence_of n = toyFence)))"
    "reliable map_network toyPE \<longrightarrow> \<not> newer toyU (look toyPE map_network oneIndex) toyFence \<longrightarrow> r = Inr ()"
    by (elim exE conjE)
  from t(3) have "r = Inr ()" using toy_reliable one_not_newer by blast
  with t(1,2) new one_look [of "[]"] show ?thesis by (intro exI [of _ N] exI [of _ t]) simp
qed

text \<open>C15. A writer that has lost its authority is turned away: once the root carries a fence, an insertion or
  deletion under an older fence (a smaller epoch, or the same epoch and a smaller writer) fails with
  \<open>ErrStaleWriteFence\<close> and changes nothing that can be read.\<close>

theorem stale_writer_rejected:
  assumes "pht_store V E utf8 U K" "root_fence (look E V s) = Some current"
    and "CompareWriteFences fence current < 0" "k \<noteq> []"
  shows "(\<exists>t. InsertFenced E V k fence s = Some (Inl (ErrWrap ''epoch'' ErrStaleWriteFence), t) \<and> view V t = view V s)
    \<and> (\<exists>t. DeleteFenced E V k fence s = Some (Inl (ErrWrap ''epoch'' ErrStaleWriteFence), t) \<and> view V t = view V s)"
  using pht_store.stale_rejected [OF assms] by blast

theorem stale_writer_rejected_witness:
  "\<exists>s t. root_fence (look toyPE map_network s) = Some toyFence \<and>
     InsertFenced toyPE map_network ''cd'' \<lparr>wf_Epoch = 2, wf_Writer = ''z''\<rparr> s
       = Some (Inl (ErrWrap ''epoch'' ErrStaleWriteFence), t)"
proof -
  obtain s where s: "root_fence (look toyPE map_network s) = Some toyFence" using one_key by blast
  have "CompareWriteFences \<lparr>wf_Epoch = 2, wf_Writer = ''z''\<rparr> toyFence < 0"
    by (simp add: CompareWriteFences_def toyFence_def)
  from stale_writer_rejected [OF toy.pht_store_axioms s this, of "''cd''"] s show ?thesis by auto
qed

text \<open>A key that ends at the prefix of a full leaf is lost by the split: after \<open>SplitLeaf\<close> of a leaf with
  more than \<open>MAX_BUCKET_SIZE\<close> entries, an entry no longer than the leaf's prefix is in no node of the
  result.\<close>

lemma CollectUnder_split: "set (CollectUnder (split_leaf h es)) \<subseteq> set es"
proof (induction h es rule: split_leaf.induct)
  case (1 h es)
  have "set (CollectUnder (split_leaf (emptyHdr (h_Prefix h @ seg)) ks)) \<subseteq> set es"
    if "\<not> length es \<le> MAX_BUCKET_SIZE" "(seg, ks) \<in> set (groups (h_Prefix h) es)" for seg ks
    using "1.IH" [OF that(1,2) refl] groups_member [OF that(2)] by (fastforce simp: group_def)
  then show ?case
    by (cases "length es \<le> MAX_BUCKET_SIZE") (auto simp: split_leaf.simps [of h es] subset_iff)
qed

theorem SplitLeaf_drops_short_keys:
  assumes "MAX_BUCKET_SIZE < length es" "length k \<le> length (h_Prefix h)"
  shows "k \<notin> set (CollectUnder (SplitLeaf (Leaf h es)))"
proof
  assume "k \<in> set (CollectUnder (SplitLeaf (Leaf h es)))"
  with assms(1) obtain seg ks where g: "(seg, ks) \<in> set (groups (h_Prefix h) es)"
    "k \<in> set (CollectUnder (split_leaf (emptyHdr (h_Prefix h @ seg)) ks))"
    by (auto simp: split_leaf.simps [of h es])
  then have "k \<in> set ks" using CollectUnder_split by blast
  with groups_member [OF g(1)] assms(2) show False by (simp add: group_def)
qed

theorem SplitLeaf_drops_short_keys_witness:
  "''a'' \<notin> set (CollectUnder (SplitLeaf (Leaf (emptyHdr ''a'') (''a'' # replicate 16 ''ab''))))"
  using SplitLeaf_drops_short_keys [of "''a'' # replicate 16 ''ab''" "''a''" "emptyHdr ''a''"]
  by (simp add: MAX_BUCKET_SIZE_def emptyHdr_def)

subsection \<open>Queries\<close>

text \<open>C13. A prefix query returns exactly the indexed names with that prefix: over records that store the names
  \<open>S\<close>, with enough fuel \<open>PrefixQueryDHT\<close> returns the names of \<open>S\<close> that start with the prefix, each once,
  or a not-found error, which it only returns when there is none. The error is what the code does:
  the comments of \<open>PrefixQueryDHT\<close> and \<open>ExecutePrefixQuery\<close> promise no names and no error for a
  missing prefix, but the error of \<open>GetNode\<close> is passed on.\<close>

theorem PrefixQueryDHT_exact:
  assumes "stores U (readNode E get) S" "[] \<in> U" "closed_under U {pfx}"
  shows "\<exists>N. \<forall>f\<ge>N. \<exists>r. PrefixQueryDHT f E get pfx = Some r \<and> prefix_answer S pfx r"
  using prefix_query_tree [OF assms, of zeroCounters] unfolding PrefixQueryDHT_def by fastforce

theorem PrefixQueryDHT_exact_witness:
  "\<exists>get f rows. PrefixQueryDHT f toyPE get ''a'' = Some (Inr rows) \<and> set rows = {''ab''}"
proof -
  obtain t where "stores toyU (look toyPE map_network t) {''ab''}" using one_key by blast
  then have st: "stores toyU (readNode toyPE (view map_network t)) {''ab''}" unfolding look_readNode .
  from PrefixQueryDHT_exact [OF st toyU_root toyU_closed] obtain f r where
    r: "PrefixQueryDHT f toyPE (view map_network t) ''a'' = Some r" "prefix_answer {''ab''} ''a'' r" by blast
  have hit: "HasPrefix ''ab'' ''a''" by (simp add: HasPrefix_def)
  have "\<exists>rows. r = Inr rows \<and> set rows = {''ab''}"
  proof (cases r)
    case (Inl e)
    with r(2) hit show ?thesis by (simp add: prefix_answer_def)
  next
    case (Inr rows)
    with r(2) have "set rows = {k\<in>{''ab''}. HasPrefix k ''a''}" unfolding prefix_answer_def by simp
    also have "\<dots> = {''ab''}" using hit by blast
    finally show ?thesis using Inr by blast
  qed
  then obtain rows where rows: "r = Inr rows" "set rows = {''ab''}" by (elim exE conjE)
  with r(1) show ?thesis by (intro exI conjI) simp_all
qed

text \<open>C14. A substring query returns exactly the indexed names that contain the substring, each once, with Bloom
  pruning as without it, if the n-gram size is the default one (or not positive, which means the
  default) or pruning is off: the trees' filters hold the n-grams of the default size, so pruning by
  those n-grams skips no match. With pruning and another size matches can be lost. \<open>Matches\<close> counts
  the rows, and a not-found error is only returned when nothing is stored. The empty substring is
  contained in every name and is answered with no names and no reads.\<close>

theorem SubstringQuery_exact:
  assumes "stores U (readNode E get) S" "[] \<in> U" "pruning \<longrightarrow> nGram \<le> 0 \<or> nGram = DefaultNGramSize"
  shows "\<exists>N. \<forall>f\<ge>N. \<exists>r st. ExecuteSubstringQueryWithStatsAndPruning f E get sub nGram pruning = Some (r, st)
    \<and> (if sub = [] then r = Inr [] \<and> st = snapshot zeroCounters 0 else scan_answer S (\<lambda>k. sublist sub k) r st)"
proof (cases "sub = []")
  case True
  then show ?thesis by (simp add: ExecuteSubstringQueryWithStatsAndPruning_def)
next
  case False
  let ?ngs = "if pruning then ExtractNGrams sub (orDefault nGram DefaultNGramSize) else []"
  have "\<forall>k\<in>S. sublist sub k \<longrightarrow> set ?ngs \<subseteq> set (ExtractNGrams k DefaultNGramSize)"
    using substring_ngrams assms(3) by (auto split: if_splits)
  from scan_query_tree [OF assms(1,2) this] False show ?thesis
    unfolding ExecuteSubstringQueryWithStatsAndPruning_def by simp
qed

theorem SubstringQuery_exact_witness:
  "\<exists>get f rows st. ExecuteSubstringQueryWithStatsAndPruning f toyPE get ''b'' 0 True = Some (Inr rows, st)
     \<and> set rows = {''ab''}"
proof -
  obtain t where "stores toyU (look toyPE map_network t) {''ab''}" using one_key by blast
  then have st: "stores toyU (readNode toyPE (view map_network t)) {''ab''}" unfolding look_readNode .
  have "\<exists>N. \<forall>f\<ge>N. \<exists>r st. ExecuteSubstringQueryWithStatsAndPruning f toyPE (view map_network t) ''b'' 0 True = Some (r, st)
      \<and> scan_answer {''ab''} (\<lambda>k. sublist ''b'' k) r st"
    using SubstringQuery_exact [OF st toyU_root, of True 0 "''b''"] by simp
  then obtain f r st' where
    r: "ExecuteSubstringQueryWithStatsAndPruning f toyPE (view map_network t) ''b'' 0 True = Some (r, st')"
    "scan_answer {''ab''} (\<lambda>k. sublist ''b'' k) r st'" by blast
  have hit: "sublist ''b'' ''ab''" by (simp add: sublist_code)
  have "\<exists>rows. r = Inr rows \<and> set rows = {''ab''}"
  proof (cases r)
    case (Inl e)
    with r(2) show ?thesis by (simp add: scan_answer_def)
  next
    case (Inr rows)
    with r(2) have "set rows = {k\<in>{''ab''}. sublist ''b'' k}" unfolding scan_answer_def by simp
    also have "\<dots> = {''ab''}" using hit by blast
    finally show ?thesis using Inr by blast
  qed
  then obtain rows where rows: "r = Inr rows" "set rows = {''ab''}" by (elim exE conjE)
  with r(1) show ?thesis by (intro exI conjI) simp_all
qed

end
