(* ===== verification/Tuple_Wait.thy ===== *)
theory Tuple_Wait
  imports Go_Datastore Go_Errors
begin

text \<open>
  What the durable tuple store and the index authority share: a peer with a leased role, its clock and its view
  of the network. The network's state and the owner resolver are parameters. Time passes only
  while the code waits; \<open>dc_others\<close> is what the rest of the network does to its state
  meanwhile, and a context that is done by then (\<open>dc_done\<close>) ends the wait with an error. Times are
  nanoseconds since the epoch, as \<open>UnixNano\<close> gives them.
\<close>

record 'n authority_cfg =
  dc_self :: string
  dc_settle :: int
  dc_lease :: int
  dc_margin :: int
  dc_ResolveTupleOwner :: "string \<Rightarrow> string result"
  dc_ResolveTupleOwnerAfter :: "(string \<Rightarrow> string \<Rightarrow> string result) option"
  dc_others :: "int \<Rightarrow> 'n \<Rightarrow> 'n"
  dc_done :: "int \<Rightarrow> bool"

record 'n clocked =
  du_now :: int
  du_net :: 'n

definition modifyS :: "('s \<Rightarrow> 's) \<Rightarrow> ('s, unit) op" where
  "modifyS f s = (Inr (), f s)"

lemma modifyS_inv [op_inv]: "modifyS f s = (r, t) \<longleftrightarrow> r = Inr () \<and> t = f s"
  by (auto simp: modifyS_def)

lemma keeps_modifyS: "(\<And>s. I s \<Longrightarrow> I (f s)) \<Longrightarrow> keeps I (modifyS f)"
  by (auto simp: keeps_def modifyS_def)

definition setTimingWith ::
  "int \<Rightarrow> int \<Rightarrow> int \<Rightarrow> int \<Rightarrow> ('n, 'c) authority_cfg_scheme \<Rightarrow> ('n, 'c) authority_cfg_scheme" where
  "setTimingWith defaultLease settle lease margin C =
     (let settle1 = (if settle < 0 then 0 else settle);
          lease1 = (if lease \<le> 0 then defaultLease else lease);
          margin1 = (if margin < 0 then 0 else margin);
          margin2 = (if margin1 * 2 \<ge> lease1 then lease1 div 4 else margin1) in
      C\<lparr>dc_settle := settle1, dc_lease := lease1, dc_margin := margin2\<rparr>)"

text \<open>Whatever the arguments, the margin is at most half the lease, so a fresh lease is in force at once.\<close>

lemma setTimingWith_ok:
  assumes "0 < defaultLease" and "C' = setTimingWith defaultLease settle lease margin C"
  shows "0 \<le> dc_settle C'" "0 < dc_lease C'" "0 \<le> dc_margin C'" "2 * dc_margin C' < dc_lease C'"
  using assms by (auto simp: setTimingWith_def Let_def)

definition waitForAuthority ::
  "('n, 'c) authority_cfg_scheme \<Rightarrow> int \<Rightarrow> (('n, 's) clocked_scheme, unit) op" where
  "waitForAuthority C wait s =
     (if wait \<le> 0 then (Inr (), s)
      else let t = s\<lparr>du_now := du_now s + wait, du_net := dc_others C wait (du_net s)\<rparr> in
        (if dc_done C (du_now t) then Inl (ErrMsg ''context canceled'') else Inr (), t))"

definition waitUntilAuthority ::
  "('n, 'c) authority_cfg_scheme \<Rightarrow> int \<Rightarrow> (('n, 's) clocked_scheme, unit) op" where
  "waitUntilAuthority C deadline s = waitForAuthority C (deadline - du_now s) s"

lemma waitForAuthority_time:
  "waitForAuthority C wait s = (r, t) \<Longrightarrow> du_now t = max (du_now s) (du_now s + wait)"
  by (auto simp: waitForAuthority_def Let_def split: if_splits)

lemma waitUntilAuthority_time:
  "waitUntilAuthority C deadline s = (r, t) \<Longrightarrow> du_now t = max (du_now s) deadline"
  by (auto simp: waitUntilAuthority_def dest!: waitForAuthority_time)

text \<open>A wait changes the clock and the network and nothing else.\<close>

lemma keeps_waitForAuthority:
  "(\<And>s now net. I s \<Longrightarrow> I (s\<lparr>du_now := now, du_net := net\<rparr>)) \<Longrightarrow> keeps I (waitForAuthority C wait)"
  by (auto simp: keeps_def waitForAuthority_def Let_def split: if_splits)

lemma keeps_waitUntilAuthority:
  assumes "\<And>s now net. I s \<Longrightarrow> I (s\<lparr>du_now := now, du_net := net\<rparr>)"
  shows "keeps I (waitUntilAuthority C deadline)"
  using assms by (auto simp: keeps_def waitUntilAuthority_def waitForAuthority_def Let_def split: if_splits)

text \<open>The choice of a successor that the two components share.\<close>

definition successorOf ::
  "('n, 'c) authority_cfg_scheme \<Rightarrow> string \<Rightarrow> string \<Rightarrow> string \<Rightarrow> string result" where
  "successorOf C reselected name previous =
     (case dc_ResolveTupleOwnerAfter C of
        Some after \<Rightarrow> after name previous
      | None \<Rightarrow>
          bindR (dc_ResolveTupleOwner C name) (\<lambda>owner.
          fail_if (owner = previous) (ErrMsg (reselected @ previous)) (Inr owner)))"

end
