(* ===== verification/Tuple_Durable.thy ===== *)
theory Tuple_Durable
  imports Tuple_Native Tuple_Wait
begin

text \<open>
  \<open>internal/tuplespace/tuple_durable.go\<close>: the replicated multiset of one exact name, with its ownership
  record. The network's value store, JSON, SHA-256 and the owner resolver are parameters. The mutex of a name
  is held over each operation, so an operation is one function on the state. The cache, two Go maps,
  is a list with one entry per name, and the order in which Go ranges over a map, which the code
  evicts by, is the arbitrary rank \<open>dc_rank\<close> of the names.
\<close>

record tupleFence =
  tf_Epoch :: u64
  tf_Writer :: string

definition compareTupleFences :: "tupleFence \<Rightarrow> tupleFence \<Rightarrow> int" where
  "compareTupleFences a b =
     (if tf_Epoch a < tf_Epoch b then - 1
      else if tf_Epoch a > tf_Epoch b then 1
      else if tf_Writer a < tf_Writer b then - 1 else if tf_Writer a = tf_Writer b then 0 else 1)"

record durableTupleResult =
  dr_RequestID :: string
  dr_Operation :: string
  dr_Value :: bytes

record durableTupleState =
  dt_Epoch :: u64
  dt_Writer :: string
  dt_Version :: u64
  dt_Name :: string
  dt_Values :: "bytes list"
  dt_Results :: "durableTupleResult list"
  dt_ValidAfter :: int
  dt_ExpiresAt :: int

text \<open>The request without its routing fields, which the owner does not look at.\<close>

record tupleWireRequest =
  tr_Operation :: string
  tr_Name :: string
  tr_Value :: "bytes option"
  tr_Expected :: "bytes option"
  tr_RequestID :: string
  tr_Epoch :: u64
  tr_Writer :: string

record 'n durable_cfg = "'n authority_cfg" +
  dc_store :: "'n valuestore"
  dc_Sum256 :: "bytes \<Rightarrow> bytes"
  dc_Marshal :: "durableTupleState \<Rightarrow> bytes result"
  dc_Unmarshal :: "bytes \<Rightarrow> durableTupleState result"
  dc_rank :: "nat \<Rightarrow> string \<Rightarrow> nat"

record 'n durable = "'n clocked" +
  du_cache :: "(string \<times> durableTupleState \<times> int) list"
  du_cacheBytes :: int
  du_project :: "native option"

definition maxDurableOperationResult :: nat where "maxDurableOperationResult = 256"
definition maxDurableTupleStateBytes :: int where "maxDurableTupleStateBytes = 2 ^ 20"
definition maxDurableTupleCacheBytes :: int where "maxDurableTupleCacheBytes = 64 * 2 ^ 20"
definition maxDurableTupleCacheItems :: int where "maxDurableTupleCacheItems = 4096"

definition stateFence :: "durableTupleState \<Rightarrow> tupleFence" where
  "stateFence st = \<lparr>tf_Epoch = dt_Epoch st, tf_Writer = dt_Writer st\<rparr>"

definition authorityError :: "tupleFence \<Rightarrow> go_error" where
  "authorityError f = ErrTupleAuthority (tf_Epoch f) (tf_Writer f)"

definition setTiming :: "int \<Rightarrow> int \<Rightarrow> int \<Rightarrow> 'n durable_cfg \<Rightarrow> 'n durable_cfg" where
  "setTiming = setTimingWith 15000000000"

subsection \<open>The network\<close>

definition tupleStateKey :: "'n durable_cfg \<Rightarrow> string \<Rightarrow> string" where
  "tupleStateKey C name = ''/tuplestate/'' @ hex_EncodeToString (dc_Sum256 C name)"

definition netGet :: "'n durable_cfg \<Rightarrow> string \<Rightarrow> 'n durable \<Rightarrow> bytes result" where
  "netGet C k s = vs_GetValue (dc_store C) (du_net s) k"

definition netPut :: "'n durable_cfg \<Rightarrow> string \<Rightarrow> bytes \<Rightarrow> ('n durable, unit) op" where
  "netPut C k v s = (case vs_PutValue (dc_store C) k v (du_net s) of (r, n) \<Rightarrow> (r, s\<lparr>du_net := n\<rparr>))"

definition decodeState :: "'n durable_cfg \<Rightarrow> string \<Rightarrow> bytes \<Rightarrow> durableTupleState result" where
  "decodeState C name data =
     bindR (wrapR ''decode durable tuple state'' (dc_Unmarshal C data)) (\<lambda>st.
     fail_if (dt_Epoch st = 0 \<or> dt_Writer st = [] \<or> dt_Name st \<noteq> name
              \<or> dt_ValidAfter st \<le> 0 \<or> dt_ExpiresAt st \<le> dt_ValidAfter st)
       (ErrMsg ''invalid durable tuple state'') (Inr st))"

definition readState :: "'n durable_cfg \<Rightarrow> string \<Rightarrow> 'n durable \<Rightarrow> durableTupleState result" where
  "readState C name s = bindR (netGet C (tupleStateKey C name) s) (decodeState C name)"

definition tooLarge :: "nat \<Rightarrow> go_error" where
  "tooLarge n = ErrMsg (''durable tuple state is '' @ dec n @ '' bytes; maximum is 1048576'')"

definition writeState :: "'n durable_cfg \<Rightarrow> durableTupleState \<Rightarrow> ('n durable, unit) op" where
  "writeState C st =
     bindS (liftR (dc_Marshal C st)) (\<lambda>data.
     fail_ifS (int (length data) > maxDurableTupleStateBytes) (tooLarge (length data))
       (netPut C (tupleStateKey C (dt_Name st)) data))"

subsection \<open>The cache of owned states\<close>

definition durableTupleStateCacheSize :: "durableTupleState \<Rightarrow> int" where
  "durableTupleStateCacheSize st =
     128 + int (length (dt_Name st)) + int (length (dt_Writer st))
     + (\<Sum>v\<leftarrow>dt_Values st. int (length v))
     + (\<Sum>r\<leftarrow>dt_Results st. int (length (dr_RequestID r) + length (dr_Operation r) + length (dr_Value r)))"

definition cachedState :: "'n durable_cfg \<Rightarrow> string \<Rightarrow> tupleFence \<Rightarrow> 'n durable \<Rightarrow> durableTupleState option" where
  "cachedState C name fence s =
     (case map_of (du_cache s) name of
        None \<Rightarrow> None
      | Some (st, _) \<Rightarrow>
          if dt_Writer st \<noteq> dc_self C \<or> compareTupleFences (stateFence st) fence \<noteq> 0
             \<or> du_now s < dt_ValidAfter st \<or> \<not> du_now s < dt_ExpiresAt st - dc_margin C
          then None else Some st)"

text \<open>The eviction loop: while a limit is exceeded, the first name of the range other than the one just
  stored goes, or the only name there is.\<close>

type_synonym cache_entry = "string \<times> durableTupleState \<times> int"

definition victim :: "(nat \<Rightarrow> string \<Rightarrow> nat) \<Rightarrow> string \<Rightarrow> cache_entry list \<Rightarrow> cache_entry option" where
  "victim rank name cache =
     List.find (\<lambda>e. \<not> (fst e = name \<and> 1 < length cache)) (sort_key (\<lambda>e. rank (length cache) (fst e)) cache)"

lemma victim_in: "victim rank name cache = Some e \<Longrightarrow> e \<in> set cache"
  by (auto simp: victim_def dest!: find_Some_in)

function evictLoop ::
  "(nat \<Rightarrow> string \<Rightarrow> nat) \<Rightarrow> string \<Rightarrow> cache_entry list \<Rightarrow> int \<Rightarrow> cache_entry list \<times> int" where
  "evictLoop rank name cache used =
     (if int (length cache) > maxDurableTupleCacheItems \<or> used > maxDurableTupleCacheBytes
      then (case victim rank name cache of
              None \<Rightarrow> (cache, used)
            | Some e \<Rightarrow> evictLoop rank name (filter (\<lambda>x. fst x \<noteq> fst e) cache) (used - snd (snd e)))
      else (cache, used))"
  by pat_completeness auto
termination
proof (relation "measure (\<lambda>(rank, name, cache, used). length cache)", simp_all, goal_cases)
  case (1 rank name cache e)
  then show ?case by (auto intro!: length_filter_less dest: victim_in)
qed

declare evictLoop.simps [simp del]

definition cacheState :: "'n durable_cfg \<Rightarrow> durableTupleState \<Rightarrow> 'n durable \<Rightarrow> 'n durable" where
  "cacheState C st s =
     (if dt_Writer st \<noteq> dc_self C then s
      else let size1 = durableTupleStateCacheSize st;
               old = (case map_of (du_cache s) (dt_Name st) of None \<Rightarrow> 0 | Some (_, b) \<Rightarrow> b);
               cache1 = (dt_Name st, st, size1) # filter (\<lambda>e. fst e \<noteq> dt_Name st) (du_cache s);
               (cache2, used2) = evictLoop (dc_rank C) (dt_Name st) cache1 (du_cacheBytes s - old + size1) in
        s\<lparr>du_cache := cache2, du_cacheBytes := used2\<rparr>)"

definition dropCachedState :: "string \<Rightarrow> 'n durable \<Rightarrow> 'n durable" where
  "dropCachedState name s =
     s\<lparr>du_cacheBytes := du_cacheBytes s - (case map_of (du_cache s) name of None \<Rightarrow> 0 | Some (_, b) \<Rightarrow> b),
       du_cache := filter (\<lambda>e. fst e \<noteq> name) (du_cache s)\<rparr>"

definition projectState :: "durableTupleState \<Rightarrow> 'n durable \<Rightarrow> 'n durable" where
  "projectState st s =
     s\<lparr>du_project := map_option (SetExactState (dt_Name st) (dt_Values st)) (du_project s)\<rparr>"

subsection \<open>Commit\<close>

definition pollInterval :: int where "pollInterval = 25000000"

definition superseded :: "'n durable_cfg \<Rightarrow> durableTupleState \<Rightarrow> bytes result \<Rightarrow> tupleFence option" where
  "superseded C st confirmed =
     (case bindR confirmed (dc_Unmarshal C) of
        Inl _ \<Rightarrow> None
      | Inr winner \<Rightarrow>
          if compareTupleFences (stateFence winner) (stateFence st) > 0 then Some (stateFence winner) else None)"

function commitPoll ::
  "'n durable_cfg \<Rightarrow> durableTupleState \<Rightarrow> bytes \<Rightarrow> unit result \<Rightarrow> int \<Rightarrow> ('n durable, unit) op" where
  "commitPoll C st expected putErr deadline s =
     (let confirmed = netGet C (tupleStateKey C (dt_Name st)) s in
      if confirmed = Inr expected then (Inr (), cacheState C st s)
      else case superseded C st confirmed of
        Some winner \<Rightarrow> (Inl (authorityError winner), dropCachedState (dt_Name st) s)
      | None \<Rightarrow>
          if du_now s > deadline \<or> dc_settle C = 0
          then (Inl (case putErr of
                       Inl e \<Rightarrow> ErrMsg (''write tuple state: '' @ error_text e @ ''; confirmation failed: ''
                                  @ (case confirmed of Inl r \<Rightarrow> error_text r | Inr _ \<Rightarrow> ''<nil>''))
                     | Inr _ \<Rightarrow> ErrMsg ''tuple state commit was not confirmed''), s)
          else (case waitForAuthority C pollInterval s of
                  (Inl err, t) \<Rightarrow> (Inl err, t)
                | (Inr _, t) \<Rightarrow> commitPoll C st expected putErr deadline t))"
  by pat_completeness auto
termination
  by (relation "measure (\<lambda>(C, st, expected, putErr, deadline, s). nat (deadline + 1 - du_now s))")
    (auto simp: waitForAuthority_def pollInterval_def Let_def split: if_splits)

declare commitPoll.simps [simp del]

definition commitState :: "'n durable_cfg \<Rightarrow> durableTupleState \<Rightarrow> ('n durable, unit) op" where
  "commitState C st =
     bindS (liftR (dc_Marshal C st)) (\<lambda>expected.
     fail_ifS (int (length expected) > maxDurableTupleStateBytes) (tooLarge (length expected))
     (tryS (netPut C (tupleStateKey C (dt_Name st)) expected) (\<lambda>putErr.
      readS du_now (\<lambda>now. commitPoll C st expected putErr (now + dc_settle C)))))"

subsection \<open>Ownership\<close>

text \<open>The read that confirms a publication, with the two texts its error can take.\<close>

definition confirmRead ::
  "'n durable_cfg \<Rightarrow> string \<Rightarrow> unit result \<Rightarrow> string \<Rightarrow> (go_error \<Rightarrow> go_error) \<Rightarrow> ('n durable, durableTupleState) op" where
  "confirmRead C name writeErr publish confirm s =
     (case readState C name s of
        Inr winner \<Rightarrow> (Inr winner, s)
      | Inl err \<Rightarrow>
          (Inl (case writeErr of
                  Inl w \<Rightarrow> ErrWrap (publish @ '': '' @ error_text w @ ''; confirm winner'') err
                | Inr _ \<Rightarrow> confirm err), s))"

definition renewLocked :: "'n durable_cfg \<Rightarrow> durableTupleState \<Rightarrow> ('n durable, durableTupleState) op" where
  "renewLocked C st0 =
     readS du_now (\<lambda>now.
     let st = st0\<lparr>dt_Epoch := dt_Epoch st0 + 1, dt_Writer := dc_self C, dt_Version := dt_Version st0 + 1,
                  dt_ValidAfter := now + dc_settle C, dt_ExpiresAt := now + (dc_settle C + dc_lease C)\<rparr> in
     tryS (writeState C st) (\<lambda>writeErr.
     bindS (waitForAuthority C (dc_settle C)) (\<lambda>_.
     bindS (confirmRead C (dt_Name st) writeErr ''renew tuple authority'' (\<lambda>err. err)) (\<lambda>winner.
     if compareTupleFences (stateFence winner) (stateFence st) \<noteq> 0 \<or> dt_Writer winner \<noteq> dc_self C
     then bindS (modifyS (dropCachedState (dt_Name st))) (\<lambda>_. failS (authorityError (stateFence winner)))
     else bindS (modifyS (cacheState C winner)) (\<lambda>_. retS winner)))))"

definition resolve :: "'n durable_cfg \<Rightarrow> string \<Rightarrow> 'n durable \<Rightarrow> tupleFence result" where
  "resolve C name s =
     (case readState C name s of
        Inr st \<Rightarrow> Inr (stateFence st)
      | Inl err \<Rightarrow>
          fail_if (\<not> isMissingTupleState err) err
          (bindR (dc_ResolveTupleOwner C name) (\<lambda>owner.
           fail_if (owner = []) (ErrMsg ''tuple owner resolver returned an empty peer ID'')
             (Inr \<lparr>tf_Epoch = 1, tf_Writer = owner\<rparr>))))"

definition resolveSuccessor :: "'n durable_cfg \<Rightarrow> string \<Rightarrow> string \<Rightarrow> string result" where
  "resolveSuccessor C = successorOf C ''tuple resolver reselected failed writer ''"

text \<open>The first half of \<open>failover\<close>: the state to take over (\<open>Inr\<close>), or a fence that is already another one's
  (\<open>Inl\<close>).\<close>

definition failoverBase ::
  "'n durable_cfg \<Rightarrow> string \<Rightarrow> tupleFence \<Rightarrow> ('n durable, tupleFence + durableTupleState) op" where
  "failoverBase C name failed =
     readS (readState C name) (\<lambda>rd.
     let missing = \<lparr>dt_Epoch = tf_Epoch failed, dt_Writer = tf_Writer failed, dt_Version = 0, dt_Name = name,
                    dt_Values = [], dt_Results = [], dt_ValidAfter = 0, dt_ExpiresAt = 0\<rparr>;
         expire = (\<lambda>st. readS du_now (\<lambda>now.
           let wait = dt_ExpiresAt st + dc_margin C - now in
           if dt_ExpiresAt st > 0 \<and> wait > 0
           then bindS (waitForAuthority C wait) (\<lambda>_.
                readS (readState C name) (\<lambda>latest.
                case latest of
                  Inr l \<Rightarrow> if compareTupleFences (stateFence l) failed \<noteq> 0 then retS (Inl (stateFence l)) else retS (Inr l)
                | Inl err \<Rightarrow> if isMissingTupleState err then retS (Inr st) else failS err))
           else retS (Inr st))) in
     case rd of
       Inl err \<Rightarrow> if isMissingTupleState err then expire missing else failS err
     | Inr st \<Rightarrow> if compareTupleFences (stateFence st) failed \<noteq> 0 then retS (Inl (stateFence st)) else expire st)"

definition failoverClaim ::
  "int \<Rightarrow> int \<Rightarrow> string \<Rightarrow> tupleFence \<Rightarrow> string \<Rightarrow> int \<Rightarrow> durableTupleState \<Rightarrow> durableTupleState" where
  "failoverClaim settle lease name failed owner now st =
     st\<lparr>dt_Epoch := max (dt_Epoch st) (tf_Epoch failed) + 1, dt_Writer := owner, dt_Version := dt_Version st + 1,
        dt_Name := name, dt_ValidAfter := now + settle, dt_ExpiresAt := now + (settle + lease)\<rparr>"

definition failover :: "'n durable_cfg \<Rightarrow> string \<Rightarrow> tupleFence \<Rightarrow> ('n durable, tupleFence) op" where
  "failover C name failed =
     bindS (failoverBase C name failed) (\<lambda>base.
     case base of
       Inl fence \<Rightarrow> retS fence
     | Inr st \<Rightarrow>
         bindS (liftR (resolveSuccessor C name (tf_Writer failed))) (\<lambda>owner.
         readS du_now (\<lambda>now.
         tryS (writeState C (failoverClaim (dc_settle C) (dc_lease C) name failed owner now st)) (\<lambda>writeErr.
         bindS (waitForAuthority C (dc_settle C)) (\<lambda>_.
         bindS (confirmRead C name writeErr ''publish tuple failover'' (ErrWrap ''confirm tuple failover'')) (\<lambda>winner.
         bindS (waitUntilAuthority C (dt_ValidAfter winner)) (\<lambda>_. retS (stateFence winner))))))))"

subsection \<open>Apply\<close>

definition findDurableResult :: "durableTupleResult list \<Rightarrow> string \<Rightarrow> durableTupleResult option" where
  "findDurableResult results requestID =
     (if requestID = [] then None else List.find (\<lambda>r. dr_RequestID r = requestID) (rev results))"

text \<open>The state an operation works on: the cached one, the stored one once its lease is in force, or a
  new one for a name nobody has written. A stored state whose lease is running out is renewed, and the
  request is sent back with the new fence.\<close>

definition requestedFence :: "tupleWireRequest \<Rightarrow> tupleFence" where
  "requestedFence req = \<lparr>tf_Epoch = tr_Epoch req, tf_Writer = tr_Writer req\<rparr>"

definition storedState ::
  "'n durable_cfg \<Rightarrow> tupleWireRequest \<Rightarrow> durableTupleState \<Rightarrow> ('n durable, durableTupleState) op" where
  "storedState C req st =
     fail_ifS (dt_Name st \<noteq> tr_Name req) (ErrMsg ''tuple-state key/name mismatch'')
     (fail_ifS (compareTupleFences (stateFence st) (requestedFence req) \<noteq> 0 \<or> dt_Writer st \<noteq> dc_self C)
        (authorityError (stateFence st))
     (bindS (waitUntilAuthority C (dt_ValidAfter st)) (\<lambda>_.
      readS du_now (\<lambda>now.
      if \<not> now < dt_ExpiresAt st - dc_margin C
      then bindS (renewLocked C st) (\<lambda>renewed. failS (authorityError (stateFence renewed)))
      else retS st))))"

definition freshState :: "'n durable_cfg \<Rightarrow> tupleWireRequest \<Rightarrow> int \<Rightarrow> durableTupleState" where
  "freshState C req now =
     \<lparr>dt_Epoch = tr_Epoch req, dt_Writer = tr_Writer req, dt_Version = 0, dt_Name = tr_Name req,
      dt_Values = [], dt_Results = [], dt_ValidAfter = now, dt_ExpiresAt = now + dc_lease C\<rparr>"

definition currentState :: "'n durable_cfg \<Rightarrow> tupleWireRequest \<Rightarrow> ('n durable, durableTupleState) op" where
  "currentState C req s =
     (case cachedState C (tr_Name req) (requestedFence req) s of
        Some st \<Rightarrow> (Inr st, s)
      | None \<Rightarrow>
        (case readState C (tr_Name req) s of
           Inl err \<Rightarrow>
             fail_ifS (\<not> isMissingTupleState err) err
             (fail_ifS (tr_Epoch req \<noteq> 1 \<or> tr_Writer req \<noteq> dc_self C) (authorityError (requestedFence req))
             (retS (freshState C req (du_now s)))) s
         | Inr st \<Rightarrow> storedState C req st s))"

text \<open>The switch over the operation: whether the state changes, the value returned and the values left.\<close>

definition tupleEffect :: "tupleWireRequest \<Rightarrow> bytes list \<Rightarrow> (bool \<times> bytes \<times> bytes list) result" where
  "tupleEffect req vals =
     (let arg = (case tr_Value req of None \<Rightarrow> [] | Some v \<Rightarrow> v) in
      if tr_Operation req = ''put'' then
        fail_if (arg = []) (ErrMsg ''tuple value required'') (Inr (True, [], vals @ [arg]))
      else if tr_Operation req = ''replace'' then
        fail_if (arg = []) (ErrMsg ''tuple value required'') (Inr (True, [], [arg]))
      else if tr_Operation req = ''cas'' then
        fail_if (length vals > 1 \<or> tr_Expected req = None \<and> length vals \<noteq> 0
                 \<or> tr_Expected req \<noteq> None \<and> (length vals \<noteq> 1 \<or> Some (vals ! 0) \<noteq> tr_Expected req))
          ErrTupleCASConflict
          (Inr (True, [], case tr_Value req of None \<Rightarrow> [] | Some v \<Rightarrow> [v]))
      else if tr_Operation req = ''read'' then
        fail_if (length vals = 0) ErrTupleNotFound (Inr (False, vals ! 0, vals))
      else if tr_Operation req = ''get'' then
        fail_if (length vals = 0) ErrTupleNotFound (Inr (True, vals ! 0, drop 1 vals))
      else Inl (ErrMsg (''unsupported tuple operation '' @ tr_Operation req)))"

text \<open>The state a mutation commits: the next version, a fresh lease, and the result in the window of the
  last 256 identified requests.\<close>

definition recordResult :: "tupleWireRequest \<Rightarrow> bytes \<Rightarrow> durableTupleResult list \<Rightarrow> durableTupleResult list" where
  "recordResult req v results =
     (if tr_RequestID req = [] then results
      else let appended = results @ [\<lparr>dr_RequestID = tr_RequestID req, dr_Operation = tr_Operation req, dr_Value = v\<rparr>] in
        drop (length appended - maxDurableOperationResult) appended)"

definition nextState ::
  "int \<Rightarrow> tupleWireRequest \<Rightarrow> bytes \<Rightarrow> bytes list \<Rightarrow> int \<Rightarrow> durableTupleState \<Rightarrow> durableTupleState" where
  "nextState lease req v vals now st =
     st\<lparr>dt_Values := vals, dt_Version := dt_Version st + 1, dt_ExpiresAt := now + lease,
        dt_Results := recordResult req v (dt_Results st)\<rparr>"

definition applyTo :: "'n durable_cfg \<Rightarrow> tupleWireRequest \<Rightarrow> durableTupleState \<Rightarrow> ('n durable, bytes) op" where
  "applyTo C req st =
     (case findDurableResult (dt_Results st) (tr_RequestID req) of
        Some r \<Rightarrow>
          fail_ifS (dr_Operation r \<noteq> tr_Operation req) (ErrMsg ''tuple request ID reused for a different operation'')
          (bindS (modifyS (projectState st)) (\<lambda>_. retS (dr_Value r)))
      | None \<Rightarrow>
          (case tupleEffect req (dt_Values st) of
             Inl err \<Rightarrow>
               if err = ErrTupleNotFound then bindS (modifyS (projectState st)) (\<lambda>_. failS err) else failS err
           | Inr (mutated, v, vals) \<Rightarrow>
               if \<not> mutated
               then bindS (modifyS (\<lambda>s. projectState st (cacheState C st s))) (\<lambda>_. retS v)
               else readS du_now (\<lambda>now.
                 let st' = nextState (dc_lease C) req v vals now st in
                 bindS (commitState C st') (\<lambda>_.
                 bindS (modifyS (projectState st')) (\<lambda>_. retS v)))))"

definition apply_request :: "'n durable_cfg \<Rightarrow> tupleWireRequest \<Rightarrow> ('n durable, bytes) op" where
  "apply_request C req =
     fail_ifS (tr_Name req = [] \<or> isTuplePattern (tr_Name req)) (ErrMsg ''durable tuple operation requires an exact name'')
     (fail_ifS (tr_Epoch req = 0 \<or> tr_Writer req = []) (ErrMsg ''durable tuple operation requires an ownership fence'')
     (bindS (currentState C req) (applyTo C req)))"

end
