(* ===== verification/Tuple_Durable_Props.thy ===== *)
theory Tuple_Durable_Props
  imports Tuple_Durable
begin

text \<open>
  What the durable tuple store promises: its cache stays within its limits and truthful, an
  operation succeeds only under the fence it names and only once the store holds what it committed,
  and a request is applied once across retries, renewals and failovers, within the window of results.
\<close>

subsection \<open>The cache\<close>

definition cache_bytes :: "cache_entry list \<Rightarrow> int" where
  "cache_bytes cache = (\<Sum>e\<leftarrow>cache. snd (snd e))"

definition entries_ok :: "string \<Rightarrow> cache_entry list \<Rightarrow> bool" where
  "entries_ok self cache \<longleftrightarrow>
     distinct (map fst cache) \<and>
     (\<forall>(name, st, b)\<in>set cache. dt_Name st = name \<and> dt_Writer st = self \<and> b = durableTupleStateCacheSize st)"

definition cache_ok :: "string \<Rightarrow> 'n durable \<Rightarrow> bool" where
  "cache_ok self s \<longleftrightarrow>
     entries_ok self (du_cache s) \<and> du_cacheBytes s = cache_bytes (du_cache s) \<and>
     int (length (du_cache s)) \<le> maxDurableTupleCacheItems \<and> du_cacheBytes s \<le> maxDurableTupleCacheBytes"

lemma entries_ok_filter: "entries_ok self cache \<Longrightarrow> entries_ok self (filter p cache)"
  by (auto simp: entries_ok_def intro: distinct_map_filter)

lemma cache_bytes_remove:
  assumes "distinct (map fst cache)" "(name, e) \<in> set cache"
  shows "cache_bytes (filter (\<lambda>x. fst x \<noteq> name) cache) = cache_bytes cache - snd e"
  using assms
proof (induction cache)
  case (Cons x xs)
  show ?case
  proof (cases "fst x = name")
    case True
    with Cons.prems have absent: "name \<notin> fst ` set xs" by simp
    then have rest: "filter (\<lambda>x. fst x \<noteq> name) xs = xs" by (force simp: filter_id_conv)
    from absent Cons.prems(2) have "x = (name, e)" by force
    with True rest show ?thesis by (simp add: cache_bytes_def)
  next
    case False
    with Cons show ?thesis by (auto simp: cache_bytes_def)
  qed
qed simp

lemma cache_bytes_absent:
  "map_of cache name = None \<Longrightarrow> filter (\<lambda>x. fst x \<noteq> name) cache = cache"
  by (force simp: filter_id_conv map_of_eq_None_iff)

lemma drop_name_bytes:
  assumes "distinct (map fst cache)"
  shows "cache_bytes (filter (\<lambda>x. fst x \<noteq> name) cache)
         = cache_bytes cache - (case map_of cache name of None \<Rightarrow> 0 | Some (_, b) \<Rightarrow> b)"
proof (cases "map_of cache name")
  case None
  then show ?thesis by (simp add: cache_bytes_absent)
next
  case (Some e)
  then show ?thesis using cache_bytes_remove [OF assms map_of_SomeD [OF Some]] by (cases e) simp
qed

text \<open>A victim is found unless the cache is empty: the name just stored is spared only beside others.\<close>

lemma victim_None: "entries_ok self cache \<Longrightarrow> victim rank name cache = None \<Longrightarrow> cache = []"
proof (cases cache)
  case (Cons x xs)
  assume ok: "entries_ok self cache" and none: "victim rank name cache = None"
  have all: "fst e = name \<and> 1 < length cache" if "e \<in> set cache" for e
    using none that by (cases e) (auto simp: victim_def find_None_iff)
  from all [of x] Cons have "xs \<noteq> []" "fst x = name" by auto
  then obtain y ys where "xs = y # ys" by (cases xs) auto
  with all [of y] Cons ok \<open>fst x = name\<close> show ?thesis by (simp add: entries_ok_def)
qed

lemma evictLoop_ok:
  "entries_ok self cache \<Longrightarrow> used = cache_bytes cache \<Longrightarrow> evictLoop rank name cache used = (cache', used') \<Longrightarrow>
   entries_ok self cache' \<and> used' = cache_bytes cache' \<and>
   int (length cache') \<le> maxDurableTupleCacheItems \<and> used' \<le> maxDurableTupleCacheBytes \<and> set cache' \<subseteq> set cache"
proof (induction rank name cache used rule: evictLoop.induct)
  case (1 rank name cache used)
  show ?case
  proof (cases "int (length cache) > maxDurableTupleCacheItems \<or> used > maxDurableTupleCacheBytes")
    case False
    with "1.prems" show ?thesis by (subst (asm) evictLoop.simps) auto
  next
    case over: True
    show ?thesis
    proof (cases "victim rank name cache")
      case None
      with over "1.prems"(1,2) victim_None [of self cache rank name] show ?thesis
        by (simp add: cache_bytes_def maxDurableTupleCacheBytes_def maxDurableTupleCacheItems_def)
    next
      case (Some e)
      let ?rest = "filter (\<lambda>x. fst x \<noteq> fst e) cache"
      have bytes: "used - snd (snd e) = cache_bytes ?rest"
        using "1.prems"(1,2) victim_in [OF Some] cache_bytes_remove [of cache "fst e" "snd e"]
        by (simp add: entries_ok_def)
      have "evictLoop rank name ?rest (used - snd (snd e)) = (cache', used')"
        using "1.prems"(3) over Some by (subst (asm) evictLoop.simps) simp
      from "1.IH" [OF over Some entries_ok_filter [OF "1.prems"(1)] bytes this] show ?thesis by auto
    qed
  qed
qed

lemma cacheState_ok: "cache_ok (dc_self C) s \<Longrightarrow> cache_ok (dc_self C) (cacheState C st s)"
proof (cases "dt_Writer st = dc_self C")
  case True
  assume ok: "cache_ok (dc_self C) s"
  let ?old = "case map_of (du_cache s) (dt_Name st) of None \<Rightarrow> 0 | Some (_, b) \<Rightarrow> b"
  let ?rest = "filter (\<lambda>e. fst e \<noteq> dt_Name st) (du_cache s)"
  let ?cache = "(dt_Name st, st, durableTupleStateCacheSize st) # ?rest"
  have entries: "entries_ok (dc_self C) ?cache"
    using ok entries_ok_filter [of "dc_self C" "du_cache s" "\<lambda>e. fst e \<noteq> dt_Name st"] True
    by (auto simp: cache_ok_def entries_ok_def)
  have "cache_bytes ?rest = du_cacheBytes s - ?old"
    using ok drop_name_bytes [of "du_cache s" "dt_Name st"] by (simp add: cache_ok_def entries_ok_def)
  then have bytes: "du_cacheBytes s - ?old + durableTupleStateCacheSize st = cache_bytes ?cache"
    by (simp add: cache_bytes_def)
  obtain cache' used' where
    e: "evictLoop (dc_rank C) (dt_Name st) ?cache (du_cacheBytes s - ?old + durableTupleStateCacheSize st) = (cache', used')"
    by (cases "evictLoop (dc_rank C) (dt_Name st) ?cache (du_cacheBytes s - ?old + durableTupleStateCacheSize st)")
  from evictLoop_ok [OF entries bytes e] e True show ?thesis
    by (simp add: cacheState_def cache_ok_def Let_def)
qed (simp add: cacheState_def)

lemma sum_lengths_nonneg: "0 \<le> (\<Sum>v\<leftarrow>xs. int (f v))"
  by (induction xs) auto

lemma CacheSize_nonneg: "0 \<le> durableTupleStateCacheSize st"
  unfolding durableTupleStateCacheSize_def by (intro add_nonneg_nonneg sum_lengths_nonneg) auto

lemma dropCachedState_ok: "cache_ok self s \<Longrightarrow> cache_ok self (dropCachedState name s)"
proof -
  assume ok: "cache_ok self s"
  let ?old = "case map_of (du_cache s) name of None \<Rightarrow> 0 | Some (_, b) \<Rightarrow> b"
  have "0 \<le> ?old"
    using ok by (auto simp: cache_ok_def entries_ok_def CacheSize_nonneg split: option.splits dest!: map_of_SomeD)
  moreover have "length (filter (\<lambda>e. fst e \<noteq> name) (du_cache s)) \<le> length (du_cache s)" by simp
  ultimately show ?thesis
    using ok entries_ok_filter [of self "du_cache s" "\<lambda>e. fst e \<noteq> name"] drop_name_bytes [of "du_cache s" name]
    unfolding cache_ok_def dropCachedState_def entries_ok_def by (simp del: length_filter_le)
qed

lemma same_cache_ok [simp]:
  "cache_ok self (s\<lparr>du_now := now\<rparr>) = cache_ok self s"
  "cache_ok self (s\<lparr>du_net := net\<rparr>) = cache_ok self s"
  "cache_ok self (projectState st s) = cache_ok self s"
  by (simp_all add: cache_ok_def projectState_def)

lemma waitForAuthority_ok: "keeps (cache_ok self) (waitForAuthority C wait)"
  by (rule keeps_waitForAuthority) simp

lemma waitUntilAuthority_ok: "keeps (cache_ok self) (waitUntilAuthority C deadline)"
  by (rule keeps_waitUntilAuthority) simp

lemma netPut_ok: "keeps (cache_ok self) (netPut C k v)"
  by (auto simp: keeps_def netPut_def split: prod.splits)

lemma writeState_ok: "keeps (cache_ok self) (writeState C st)"
  unfolding writeState_def by (intro pres_intro netPut_ok)

lemma confirmRead_ok: "keeps (cache_ok self) (confirmRead C name w p f)"
  by (auto simp: keeps_def confirmRead_def split: sum.splits)

lemma commitPoll_ok:
  "commitPoll C st expected putErr deadline s = (r, t) \<Longrightarrow> cache_ok (dc_self C) s \<Longrightarrow> cache_ok (dc_self C) t"
proof (induction C st expected putErr deadline s rule: commitPoll.induct)
  case (1 C st expected putErr deadline s)
  show ?case
  proof (cases "netGet C (tupleStateKey C (dt_Name st)) s = Inr expected
      \<or> superseded C st (netGet C (tupleStateKey C (dt_Name st)) s) \<noteq> None \<or> du_now s > deadline \<or> dc_settle C = 0")
    case True
    with "1.prems" show ?thesis
      by (subst (asm) commitPoll.simps)
        (auto simp: Let_def cacheState_ok dropCachedState_ok split: if_splits option.splits)
  next
    case False
    obtain q u where w: "waitForAuthority C pollInterval s = (q, u)" by fastforce
    have u: "cache_ok (dc_self C) u" by (rule keepsD [OF waitForAuthority_ok w "1.prems"(2)])
    show ?thesis
    proof (cases q)
      case (Inl e)
      with "1.prems" False w u show ?thesis by (subst (asm) commitPoll.simps) (simp add: Let_def)
    next
      case (Inr x)
      with "1.prems"(1) False w have "commitPoll C st expected putErr deadline u = (r, t)"
        by (subst (asm) commitPoll.simps) (simp add: Let_def)
      with "1.IH" [OF refl] False w Inr u show ?thesis by simp
    qed
  qed
qed

lemma commitState_ok: "keeps (cache_ok (dc_self C)) (commitState C st)"
  unfolding commitState_def by (intro pres_intro netPut_ok keepsI) (rule commitPoll_ok)

lemma renewLocked_ok: "keeps (cache_ok (dc_self C)) (renewLocked C st)"
  unfolding renewLocked_def Let_def
  by (intro pres_intro writeState_ok waitForAuthority_ok confirmRead_ok keeps_modifyS cacheState_ok dropCachedState_ok)

lemma storedState_ok: "keeps (cache_ok (dc_self C)) (storedState C req st)"
  unfolding storedState_def by (intro pres_intro waitUntilAuthority_ok renewLocked_ok)

lemma currentState_ok: "keeps (cache_ok (dc_self C)) (currentState C req)"
proof (rule keepsI)
  fix s r t
  assume ok: "cache_ok (dc_self C) s" and run: "currentState C req s = (r, t)"
  show "cache_ok (dc_self C) t"
  proof (cases "\<exists>st. cachedState C (tr_Name req) (requestedFence req) s = None \<and> readState C (tr_Name req) s = Inr st")
    case True
    with run ok show ?thesis by (auto simp: currentState_def intro: keepsD [OF storedState_ok])
  next
    case False
    with run ok show ?thesis
      by (auto simp: currentState_def fail_ifS_def retS_def failS_def split: if_splits option.splits sum.splits)
  qed
qed

lemma apply_request_ok: "keeps (cache_ok (dc_self C)) (apply_request C req)"
  unfolding apply_request_def applyTo_def Let_def
  by (intro pres_intro currentState_ok commitState_ok keeps_modifyS) (simp_all add: cacheState_ok)

lemma failoverBase_ok: "keeps (cache_ok self) (failoverBase C name failed)"
  unfolding failoverBase_def Let_def by (intro pres_intro waitForAuthority_ok)

lemma failover_ok: "keeps (cache_ok self) (failover C name failed)"
  unfolding failover_def
  by (intro pres_intro failoverBase_ok writeState_ok waitForAuthority_ok waitUntilAuthority_ok confirmRead_ok)

text \<open>The runs of one node: requests and failovers in any order, while time passes and the network changes.\<close>

inductive durable_run :: "'n durable_cfg \<Rightarrow> 'n durable \<Rightarrow> bool" for C where
  start: "durable_run C \<lparr>du_now = now, du_net = net, du_cache = [], du_cacheBytes = 0, du_project = project\<rparr>"
| request: "durable_run C s \<Longrightarrow> apply_request C req s = (r, t) \<Longrightarrow> durable_run C t"
| takeover: "durable_run C s \<Longrightarrow> failover C name failed s = (q, t) \<Longrightarrow> durable_run C t"
| environment: "durable_run C s \<Longrightarrow> durable_run C (s\<lparr>du_now := now, du_net := net\<rparr>)"

lemma durable_run_cache_ok: "durable_run C s \<Longrightarrow> cache_ok (dc_self C) s"
proof (induction rule: durable_run.induct)
  case start
  show ?case
    by (simp add: cache_ok_def entries_ok_def cache_bytes_def maxDurableTupleCacheBytes_def maxDurableTupleCacheItems_def)
next
  case request
  then show ?case using keepsD [OF apply_request_ok] by blast
next
  case takeover
  then show ?case using keepsD [OF failover_ok] by blast
qed simp

text \<open>C19. In every run of the durable tuple store, whatever the network does, the cache holds at most 4096
  states and 64 MiB, \<open>cacheBytes\<close> is exactly the sum of the sizes of the cached states, and
  every cached state is filed under its own name and was written by this node.\<close>
theorem durable_cache_bounded:
  assumes "durable_run C s"
  shows "length (du_cache s) \<le> 4096 \<and> du_cacheBytes s \<le> 64 * 2 ^ 20
    \<and> du_cacheBytes s = (\<Sum>e\<leftarrow>du_cache s. durableTupleStateCacheSize (fst (snd e)))
    \<and> distinct (map fst (du_cache s))
    \<and> (\<forall>(name, st, b)\<in>set (du_cache s). dt_Name st = name \<and> dt_Writer st = dc_self C)"
proof -
  have ok: "cache_ok (dc_self C) s" by (rule durable_run_cache_ok [OF assms])
  then have "cache_bytes (du_cache s) = (\<Sum>e\<leftarrow>du_cache s. durableTupleStateCacheSize (fst (snd e)))"
    unfolding cache_bytes_def by (intro arg_cong [where f = sum_list] map_cong) (auto simp: cache_ok_def entries_ok_def)
  with ok show ?thesis
    by (auto simp: cache_ok_def entries_ok_def maxDurableTupleCacheBytes_def maxDurableTupleCacheItems_def)
qed

subsection \<open>Fencing\<close>

lemma compareTupleFences_eq: "compareTupleFences a b = 0 \<longleftrightarrow> a = b"
  by (auto simp: compareTupleFences_def)

lemma netGet_simps [simp]:
  "netGet C k (cacheState C st s) = netGet C k s" "netGet C k (projectState st s) = netGet C k s"
  by (simp_all add: netGet_def cacheState_def projectState_def Let_def split: prod.splits)

lemma du_net_simps [simp]:
  "du_net (cacheState C st s) = du_net s" "du_net (projectState st s) = du_net s"
  "du_now (cacheState C st s) = du_now s" "du_now (projectState st s) = du_now s"
  by (simp_all add: cacheState_def projectState_def Let_def split: prod.splits)

lemma storedState_Inr:
  assumes "storedState C req st s = (Inr st', t)"
  shows "st' = st \<and> dt_Name st = tr_Name req \<and> stateFence st = requestedFence req \<and> dt_Writer st = dc_self C
    \<and> dt_ValidAfter st \<le> du_now t \<and> du_now t < dt_ExpiresAt st - dc_margin C"
  using assms
  by (auto simp: storedState_def op_inv compareTupleFences_eq waitUntilAuthority_def waitForAuthority_def Let_def
      split: if_splits)

lemma currentState_cases:
  assumes "currentState C req s = (Inr st, t)"
  obtains (cached) "cachedState C (tr_Name req) (requestedFence req) s = Some st" "t = s"
  | (stored) "readState C (tr_Name req) s = Inr st" "storedState C req st s = (Inr st, t)"
  | (fresh) "st = freshState C req (du_now s)" "t = s" "tr_Writer req = dc_self C"
proof (cases "cachedState C (tr_Name req) (requestedFence req) s")
  case (Some x)
  with assms show ?thesis by (auto simp: currentState_def intro: cached)
next
  case None
  show ?thesis
  proof (cases "readState C (tr_Name req) s")
    case (Inl err)
    with None assms show ?thesis by (auto simp: currentState_def op_inv intro: fresh)
  next
    case (Inr x)
    with None assms have "storedState C req x s = (Inr st, t)" by (simp add: currentState_def)
    with storedState_Inr [OF this] Inr show ?thesis by (auto intro: stored)
  qed
qed

lemma currentState_Inr:
  assumes "currentState C req s = (Inr st, t)" "dc_margin C < dc_lease C"
  shows "stateFence st = requestedFence req \<and> dt_Writer st = dc_self C
    \<and> dt_ValidAfter st \<le> du_now t \<and> du_now t < dt_ExpiresAt st - dc_margin C"
  using assms(1)
proof (cases rule: currentState_cases)
  case cached
  then show ?thesis
    by (auto simp: cachedState_def compareTupleFences_eq split: option.splits if_splits)
next
  case stored
  with storedState_Inr [OF stored(2)] show ?thesis by simp
next
  case fresh
  with assms(2) show ?thesis by (simp add: freshState_def stateFence_def requestedFence_def)
qed

text \<open>A successful commit: the store held exactly the committed bytes at the last look, the state is
  cached, and the poll took at most the settle time and one interval.\<close>

lemma commitPoll_Inr:
  "commitPoll C st expected putErr deadline s = (Inr x, t) \<Longrightarrow>
   \<exists>u. t = cacheState C st u \<and> netGet C (tupleStateKey C (dt_Name st)) u = Inr expected
     \<and> du_now s \<le> du_now u \<and> du_now u \<le> max (du_now s) (deadline + pollInterval)"
proof (induction C st expected putErr deadline s rule: commitPoll.induct)
  case (1 C st expected putErr deadline s)
  show ?case
  proof (cases "netGet C (tupleStateKey C (dt_Name st)) s = Inr expected")
    case True
    with "1.prems" show ?thesis by (subst (asm) commitPoll.simps) (auto simp: Let_def)
  next
    case False
    with "1.prems" have ns: "superseded C st (netGet C (tupleStateKey C (dt_Name st)) s) = None"
      and late: "\<not> (du_now s > deadline \<or> dc_settle C = 0)"
      by (subst (asm) commitPoll.simps; auto simp: Let_def split: option.splits if_splits)+
    obtain q u where w: "waitForAuthority C pollInterval s = (q, u)" by fastforce
    with "1.prems" False ns late obtain y where q: "q = Inr y"
      by (subst (asm) commitPoll.simps) (auto simp: Let_def split: sum.splits)
    with "1.prems" False ns late w have rec: "commitPoll C st expected putErr deadline u = (Inr x, t)"
      by (subst (asm) commitPoll.simps) (simp add: Let_def)
    have u: "du_now u = du_now s + pollInterval"
      using w by (auto simp: waitForAuthority_def pollInterval_def Let_def split: if_splits)
    from "1.IH" [OF refl False ns late w [symmetric, unfolded q] refl rec] u late show ?thesis
      by (auto simp: pollInterval_def)
  qed
qed

lemma commitState_Inr:
  assumes "commitState C st s = (Inr x, t)"
  obtains u d where "t = cacheState C st u" "dc_Marshal C st = Inr d"
    "netGet C (tupleStateKey C (dt_Name st)) u = Inr d"
    "du_now s \<le> du_now u" "du_now u \<le> max (du_now s) (du_now s + dc_settle C + pollInterval)"
proof -
  from assms obtain d q s1 where d: "dc_Marshal C st = Inr d"
    and put: "netPut C (tupleStateKey C (dt_Name st)) d s = (q, s1)"
    and poll: "commitPoll C st d q (du_now s1 + dc_settle C) s1 = (Inr x, t)"
    by (auto simp: commitState_def op_inv)
  from put have "du_now s1 = du_now s" by (auto simp: netPut_def split: prod.splits)
  with commitPoll_Inr [OF poll] d that show thesis by auto
qed

text \<open>The three ways in which an operation on a given state succeeds.\<close>

lemma applyTo_cases:
  assumes "applyTo C req st s = (Inr v, t)"
  obtains (replay) r where "findDurableResult (dt_Results st) (tr_RequestID req) = Some r"
      "dr_Operation r = tr_Operation req" "v = dr_Value r" "t = projectState st s"
  | (read) "findDurableResult (dt_Results st) (tr_RequestID req) = None"
      "\<exists>vals. tupleEffect req (dt_Values st) = Inr (False, v, vals)" "t = projectState st (cacheState C st s)"
  | (mutate) vals u where "findDurableResult (dt_Results st) (tr_RequestID req) = None"
      "tupleEffect req (dt_Values st) = Inr (True, v, vals)"
      "commitState C (nextState (dc_lease C) req v vals (du_now s) st) s = (Inr (), u)"
      "t = projectState (nextState (dc_lease C) req v vals (du_now s) st) u"
proof (cases "findDurableResult (dt_Results st) (tr_RequestID req)")
  case (Some r)
  with assms replay show ?thesis by (auto simp: applyTo_def op_inv)
next
  case None
  from assms None obtain m w vals where eff: "tupleEffect req (dt_Values st) = Inr (m, w, vals)"
    by (cases "tupleEffect req (dt_Values st)") (auto simp: applyTo_def op_inv split: if_splits)
  show ?thesis
  proof (cases m)
    case True
    with assms None eff mutate show ?thesis by (auto simp: applyTo_def op_inv Let_def)
  next
    case False
    with assms None eff read show ?thesis by (auto simp: applyTo_def op_inv)
  qed
qed

lemma apply_request_Inr:
  assumes "apply_request C req s = (Inr v, t)"
  obtains st s1 where "currentState C req s = (Inr st, s1)" "applyTo C req st s1 = (Inr v, t)"
    "tr_Epoch req \<noteq> 0" "tr_Writer req \<noteq> []" "\<not> (tr_Name req = [] \<or> isTuplePattern (tr_Name req))"
  using assms by (auto simp: apply_request_def op_inv)

text \<open>C17. An operation on a durable tuple succeeds only at its owner: the state it works on carries the epoch and
  the writer named by the request, the writer is this node, and its lease is in force with the
  margin to spare. A retry is answered from the recorded result and a read from the values, both without
  a write; a mutation returns only after the store was seen to hold exactly the encoding of the
  next state.\<close>
theorem apply_request_fenced:
  assumes "apply_request C req s = (Inr v, t)" "dc_margin C < dc_lease C"
  shows "\<exists>st s1. currentState C req s = (Inr st, s1) \<and> stateFence st = requestedFence req
    \<and> tr_Writer req = dc_self C \<and> dt_ValidAfter st \<le> du_now s1 \<and> du_now s1 < dt_ExpiresAt st - dc_margin C
    \<and> ((\<exists>r. findDurableResult (dt_Results st) (tr_RequestID req) = Some r
            \<and> dr_Operation r = tr_Operation req \<and> v = dr_Value r \<and> du_net t = du_net s1)
       \<or> (\<exists>vals. tupleEffect req (dt_Values st) = Inr (False, v, vals) \<and> du_net t = du_net s1)
       \<or> (\<exists>vals d. tupleEffect req (dt_Values st) = Inr (True, v, vals)
            \<and> dc_Marshal C (nextState (dc_lease C) req v vals (du_now s1) st) = Inr d
            \<and> netGet C (tupleStateKey C (dt_Name st)) t = Inr d))"
proof -
  from assms(1) obtain st s1 where cur: "currentState C req s = (Inr st, s1)"
    and app: "applyTo C req st s1 = (Inr v, t)" by (rule apply_request_Inr)
  note own = currentState_Inr [OF cur assms(2)]
  then have "tr_Writer req = dc_self C" by (auto simp: stateFence_def requestedFence_def)
  moreover from app have "(\<exists>r. findDurableResult (dt_Results st) (tr_RequestID req) = Some r
            \<and> dr_Operation r = tr_Operation req \<and> v = dr_Value r \<and> du_net t = du_net s1)
       \<or> (\<exists>vals. tupleEffect req (dt_Values st) = Inr (False, v, vals) \<and> du_net t = du_net s1)
       \<or> (\<exists>vals d. tupleEffect req (dt_Values st) = Inr (True, v, vals)
            \<and> dc_Marshal C (nextState (dc_lease C) req v vals (du_now s1) st) = Inr d
            \<and> netGet C (tupleStateKey C (dt_Name st)) t = Inr d)"
  proof (cases rule: applyTo_cases)
    case (mutate vals u)
    from mutate(3) obtain w d where "u = cacheState C (nextState (dc_lease C) req v vals (du_now s1) st) w"
      "dc_Marshal C (nextState (dc_lease C) req v vals (du_now s1) st) = Inr d"
      "netGet C (tupleStateKey C (dt_Name (nextState (dc_lease C) req v vals (du_now s1) st))) w = Inr d"
      by (rule commitState_Inr)
    with mutate show ?thesis by (auto simp: nextState_def)
  qed auto
  ultimately show ?thesis using cur own by blast
qed

subsection \<open>Exactly once\<close>

lemma find_recorded:
  "tr_RequestID req \<noteq> [] \<Longrightarrow> findDurableResult (recordResult req v results) (tr_RequestID req)
     = Some \<lparr>dr_RequestID = tr_RequestID req, dr_Operation = tr_Operation req, dr_Value = v\<rparr>"
  by (simp add: findDurableResult_def recordResult_def maxDurableOperationResult_def Let_def drop_append)

lemma evictLoop_subset: "evictLoop rank name cache used = (cache', used') \<Longrightarrow> set cache' \<subseteq> set cache"
proof (induction rank name cache used rule: evictLoop.induct)
  case (1 rank name cache used)
  from "1.prems" show ?case
    by (subst (asm) evictLoop.simps) (auto split: if_splits option.splits dest!: "1.IH" [rotated 2])
qed

lemma cacheState_lookup:
  assumes "dt_Writer st = dc_self C" "map_of (du_cache (cacheState C st s)) (dt_Name st) = Some (x, b)"
  shows "x = st"
proof -
  obtain cache' used' where e: "evictLoop (dc_rank C) (dt_Name st)
      ((dt_Name st, st, durableTupleStateCacheSize st) # filter (\<lambda>e. fst e \<noteq> dt_Name st) (du_cache s))
      (du_cacheBytes s - (case map_of (du_cache s) (dt_Name st) of None \<Rightarrow> 0 | Some (_, b) \<Rightarrow> b)
         + durableTupleStateCacheSize st) = (cache', used')"
    by fastforce
  with assms have "map_of cache' (dt_Name st) = Some (x, b)" by (simp add: cacheState_def Let_def)
  with evictLoop_subset [OF e] show ?thesis by (auto dest!: map_of_SomeD)
qed

text \<open>A confirmed state is what the next operation under its fence works on, from the cache or from the store.\<close>

lemma currentState_confirmed:
  assumes "dt_Writer st = dc_self C" "stateFence st = requestedFence req" "dt_Name st = tr_Name req"
    and "tr_Epoch req \<noteq> 0" "tr_Writer req \<noteq> []"
    and "0 < dt_ValidAfter st" "dt_ValidAfter st \<le> du_now u" "du_now u < dt_ExpiresAt st - dc_margin C"
    and "0 \<le> dc_margin C" "dt_ValidAfter st < dt_ExpiresAt st"
    and "netGet C (tupleStateKey C (dt_Name st)) u = Inr d" "dc_Unmarshal C d = Inr st"
  shows "currentState C req (projectState st (cacheState C st u)) = (Inr st, projectState st (cacheState C st u))"
proof -
  let ?t = "projectState st (cacheState C st u)"
  have "dt_Epoch st \<noteq> 0" "dt_Writer st \<noteq> []" using assms(2,4,5) by (auto simp: stateFence_def requestedFence_def)
  then have read: "readState C (tr_Name req) ?t = Inr st"
    using assms(3,6,10,11,12) by (simp add: readState_def decodeState_def)
  have stored: "storedState C req st ?t = (Inr st, ?t)"
    using assms(1,2,3,7,8)
    by (simp add: storedState_def compareTupleFences_eq waitUntilAuthority_def waitForAuthority_def readS_def retS_def bindS_def)
  show ?thesis
  proof (cases "cachedState C (tr_Name req) (requestedFence req) ?t")
    case None
    with read stored show ?thesis by (simp add: currentState_def)
  next
    case (Some x)
    then obtain b where "map_of (du_cache (cacheState C st u)) (dt_Name st) = Some (x, b)"
      using assms(3) by (auto simp: cachedState_def projectState_def split: option.splits if_splits)
    from cacheState_lookup [OF assms(1) this] Some show ?thesis by (simp add: currentState_def)
  qed
qed

lemma applyTo_recorded:
  "findDurableResult (dt_Results st) (tr_RequestID req) = Some r \<Longrightarrow> dr_Operation r = tr_Operation req \<Longrightarrow>
   applyTo C req st s = (Inr (dr_Value r), projectState st s)"
  by (simp add: applyTo_def bindS_def modifyS_def retS_def)

text \<open>A mutation that carries a request ID and succeeded is not applied again when the client retries it:
  the owner answers the retry with the value of the first run and writes nothing, whether the state
  is still cached or is read back from the store. The store is the network's, JSON is assumed to read back the one
  state that was committed, and the settle time, one poll interval and the margin fit in the lease, as they
  do by default.\<close>
theorem apply_request_retry:
  assumes run: "apply_request C req s = (Inr v, t)" "durable_run C s"
    and first: "currentState C req s = (Inr st, s1)" "findDurableResult (dt_Results st) (tr_RequestID req) = None"
      "tr_RequestID req \<noteq> []" "tr_Operation req \<noteq> ''read''" "0 < dt_ValidAfter st"
    and json: "\<And>d. dc_Marshal C (nextState (dc_lease C) req v vals (du_now s1) st) = Inr d \<Longrightarrow>
      dc_Unmarshal C d = Inr (nextState (dc_lease C) req v vals (du_now s1) st)"
    and eff: "tupleEffect req (dt_Values st) = Inr (True, v, vals)"
    and timing: "0 \<le> dc_settle C" "0 \<le> dc_margin C" "dc_settle C + 25000000 + dc_margin C < dc_lease C"
  shows "\<exists>t'. apply_request C req t = (Inr v, t') \<and> du_net t' = du_net t"
proof -
  let ?st = "nextState (dc_lease C) req v vals (du_now s1) st"
  from run(1) first(1) have app: "applyTo C req st s1 = (Inr v, t)"
    and req: "tr_Epoch req \<noteq> 0" "tr_Writer req \<noteq> []" "\<not> (tr_Name req = [] \<or> isTuplePattern (tr_Name req))"
    by (auto elim!: apply_request_Inr)
  note own = currentState_Inr [OF first(1)]
  from app obtain u where commit: "commitState C ?st s1 = (Inr (), u)" and t: "t = projectState ?st u"
    by (cases rule: applyTo_cases) (use first(2) eff in auto)
  from commit obtain w d where u: "u = cacheState C ?st w" and d: "dc_Marshal C ?st = Inr d"
    "netGet C (tupleStateKey C (dt_Name ?st)) w = Inr d"
    and time: "du_now s1 \<le> du_now w" "du_now w \<le> max (du_now s1) (du_now s1 + dc_settle C + pollInterval)"
    by (rule commitState_Inr)
  have name: "dt_Name st = tr_Name req"
    using first(1)
  proof (cases rule: currentState_cases)
    case cached
    then show ?thesis using durable_run_cache_ok [OF run(2)]
      by (fastforce simp: cachedState_def cache_ok_def entries_ok_def split: option.splits if_splits dest!: map_of_SomeD)
  next
    case stored
    then show ?thesis using storedState_Inr by blast
  qed (simp add: freshState_def)
  have "currentState C req t = (Inr ?st, t)"
    unfolding t u
    by (rule currentState_confirmed [of _ _ _ _ d])
      (use own name req time d json timing first(5) in \<open>auto simp: nextState_def stateFence_def pollInterval_def\<close>)
  moreover have "findDurableResult (dt_Results ?st) (tr_RequestID req)
      = Some \<lparr>dr_RequestID = tr_RequestID req, dr_Operation = tr_Operation req, dr_Value = v\<rparr>"
    using find_recorded [OF first(3)] by (simp add: nextState_def)
  from applyTo_recorded [OF this] have "applyTo C req ?st t = (Inr v, projectState ?st t)" by simp
  ultimately have "apply_request C req t = (Inr v, projectState ?st t)"
    using req by (simp add: apply_request_def bindS_def)
  then show ?thesis by simp
qed

text \<open>How the state of a name develops after a commit, over all its owners: mutations of other requests,
  counted when they carry a request ID, renewals by the owner, and failovers to a successor.\<close>

inductive evolves :: "nat \<Rightarrow> durableTupleState \<Rightarrow> durableTupleState \<Rightarrow> bool" where
  same: "evolves 0 st st"
| mutation: "evolves n st st' \<Longrightarrow> findDurableResult (dt_Results st') (tr_RequestID req) = None \<Longrightarrow>
    tupleEffect req (dt_Values st') = Inr (True, v, vals) \<Longrightarrow>
    evolves (n + (if tr_RequestID req = [] then 0 else 1)) st (nextState lease req v vals now st')"
| renewal: "evolves n st st' \<Longrightarrow>
    evolves n st (st'\<lparr>dt_Epoch := dt_Epoch st' + 1, dt_Writer := w, dt_Version := dt_Version st' + 1,
      dt_ValidAfter := a, dt_ExpiresAt := b\<rparr>)"
| takeover: "evolves n st st' \<Longrightarrow> evolves n st (failoverClaim settle lease name failed owner now st')"

definition result_at :: "nat \<Rightarrow> durableTupleResult \<Rightarrow> durableTupleResult list \<Rightarrow> bool" where
  "result_at n r results \<longleftrightarrow>
     (\<exists>pre post. results = pre @ r # post \<and> length post \<le> n \<and> (\<forall>x\<in>set post. dr_RequestID x \<noteq> dr_RequestID r))"

lemma result_at_found: "result_at n r results \<Longrightarrow> dr_RequestID r \<noteq> [] \<Longrightarrow>
    findDurableResult results (dr_RequestID r) = Some r"
proof -
  assume at: "result_at n r results" and "dr_RequestID r \<noteq> []"
  from at obtain pre post where "results = pre @ r # post" and other: "\<forall>x\<in>set post. dr_RequestID x \<noteq> dr_RequestID r"
    unfolding result_at_def by blast
  moreover have "List.find (\<lambda>x. dr_RequestID x = dr_RequestID r) (rev post @ r # rest) = Some r" for rest
    using other by (induction post rule: rev_induct) auto
  ultimately show ?thesis using \<open>dr_RequestID r \<noteq> []\<close> by (simp add: findDurableResult_def)
qed

lemma result_at_record:
  assumes "result_at n r results" "findDurableResult results (tr_RequestID req) = None"
    "dr_RequestID r \<noteq> []" "n + 1 < maxDurableOperationResult"
  shows "result_at (n + (if tr_RequestID req = [] then 0 else 1)) r (recordResult req v results)"
proof (cases "tr_RequestID req = []")
  case True
  with assms show ?thesis by (simp add: recordResult_def)
next
  case False
  from assms(1) obtain pre post where r: "results = pre @ r # post" "length post \<le> n"
    "\<forall>x\<in>set post. dr_RequestID x \<noteq> dr_RequestID r" unfolding result_at_def by blast
  from result_at_found [OF assms(1,3)] assms(2) have fresh: "tr_RequestID req \<noteq> dr_RequestID r" by auto
  let ?new = "\<lparr>dr_RequestID = tr_RequestID req, dr_Operation = tr_Operation req, dr_Value = v\<rparr>"
  let ?k = "length (results @ [?new]) - maxDurableOperationResult"
  have "?k \<le> length pre" using r(1,2) assms(4) by simp
  then have "drop ?k (pre @ (r # post @ [?new])) = drop ?k pre @ (r # post @ [?new])" by (simp only: drop_append) simp
  then have "recordResult req v results = drop ?k pre @ r # (post @ [?new])"
    unfolding recordResult_def Let_def using False r(1) by simp
  moreover have "length (post @ [?new]) \<le> n + 1" using r(2) by simp
  moreover have "\<forall>x\<in>set (post @ [?new]). dr_RequestID x \<noteq> dr_RequestID r" using fresh r(3) by auto
  ultimately have "result_at (n + 1) r (recordResult req v results)" unfolding result_at_def by blast
  with False show ?thesis by simp
qed

lemma evolves_result:
  assumes "evolves n st st'" "result_at 0 r (dt_Results st)" "dr_RequestID r \<noteq> []" "n < maxDurableOperationResult"
  shows "result_at n r (dt_Results st')"
  using assms
proof (induction rule: evolves.induct)
  case (mutation n st st' req v vals lease now)
  show ?case
  proof (cases "tr_RequestID req = []")
    case True
    with mutation show ?thesis by (simp add: nextState_def recordResult_def)
  next
    case False
    with mutation.prems mutation.IH have "result_at n r (dt_Results st')" by simp
    from result_at_record [OF this mutation.hyps(2) mutation.prems(2)] False mutation.prems(3)
    show ?thesis by (simp add: nextState_def)
  qed
qed (simp_all add: failoverClaim_def)


subsection \<open>Failover\<close>

text \<open>A failover of a stored state waits until the lease that it read first, and the margin, are over, and
  returns without a claim when the fence has changed by then. It does not wait for a lease that the
  owner extended meanwhile: a commit by a live owner keeps the fence and moves the expiry, so
  the state is taken over while the owner's own checks still let it serve from its cache.\<close>
theorem failover_waits_for_first_lease_only:
  assumes st0: "readState C name s = Inr st0" "stateFence st0 = failed" "du_now s < dt_ExpiresAt st0 + dc_margin C"
    and "0 < dt_ExpiresAt st0" "\<not> dc_done C (dt_ExpiresAt st0 + dc_margin C)"
    and latest: "readState C name (s\<lparr>du_now := dt_ExpiresAt st0 + dc_margin C,
        du_net := dc_others C (dt_ExpiresAt st0 + dc_margin C - du_now s) (du_net s)\<rparr>) = Inr st"
  shows "\<exists>t. failoverBase C name failed s
      = (Inr (if stateFence st = failed then Inr st else Inl (stateFence st)), t)
    \<and> du_now t = dt_ExpiresAt st0 + dc_margin C"
  using assms
  by (simp add: failoverBase_def Let_def compareTupleFences_eq waitForAuthority_def readS_def retS_def bindS_def)

end
