(* ===== verification/Tuple_Durable_Witness.thy ===== *)
theory Tuple_Durable_Witness
  imports Tuple_Durable_Props
begin

text \<open>
  A small instance of the durable tuple store: a network that is one map, a hash that is the identity, and
  a codec for a table of states, each written as one byte.
\<close>

definition mapStore :: "(string \<times> bytes) list valuestore" where
  "mapStore = \<lparr>vs_GetValue = (\<lambda>m k. case map_of m k of None \<Rightarrow> Inl RoutingNotFound | Some v \<Rightarrow> Inr v),
     vs_PutValue = (\<lambda>k v m. (Inr (), (k, v) # m))\<rparr>"

definition tableMarshal :: "'a list \<Rightarrow> 'a \<Rightarrow> bytes result" where
  "tableMarshal table st =
     (case List.find (\<lambda>i. table ! i = st) [0..<length table] of
        None \<Rightarrow> Inl (ErrMsg ''not in the table'') | Some i \<Rightarrow> Inr [char_of i])"

definition tableUnmarshal :: "'a list \<Rightarrow> bytes \<Rightarrow> 'a result" where
  "tableUnmarshal table data =
     (case data of [c] \<Rightarrow> if of_char c < length table then Inr (table ! of_char c) else Inl (ErrMsg ''bad index'')
      | _ \<Rightarrow> Inl (ErrMsg ''bad length''))"

lemma table_roundtrip:
  assumes "tableMarshal table st = Inr d" "length table \<le> 256"
  shows "tableUnmarshal table d = Inr st"
proof -
  from assms(1) obtain i where f: "List.find (\<lambda>i. table ! i = st) [0..<length table] = Some i" and d: "d = [char_of i]"
    by (auto simp: tableMarshal_def split: option.splits)
  from find_Some_in [OF f] assms(2) d show ?thesis by (simp add: tableUnmarshal_def)
qed

definition exState :: "u64 \<Rightarrow> string \<Rightarrow> u64 \<Rightarrow> bytes list \<Rightarrow> durableTupleResult list \<Rightarrow> int \<Rightarrow> int \<Rightarrow> durableTupleState" where
  "exState e w n vals rs a b = \<lparr>dt_Epoch = e, dt_Writer = w, dt_Version = n, dt_Name = ''job'', dt_Values = vals,
     dt_Results = rs, dt_ValidAfter = a, dt_ExpiresAt = b\<rparr>"

definition exResult :: durableTupleResult where
  "exResult = \<lparr>dr_RequestID = ''r1'', dr_Operation = ''put'', dr_Value = []\<rparr>"

text \<open>The first commit of \<open>n1\<close>, a later commit that extends its lease, and the claim of \<open>n2\<close>.\<close>

definition exTable :: "durableTupleState list" where
  "exTable =
     [exState 1 ''n1'' 1 [''x''] [exResult] 1000 15000001000,
      exState 1 ''n1'' 2 [''x'', ''y''] [exResult] 1000 29000001000,
      exState 2 ''n2'' 3 [''x'', ''y''] [exResult] 15750001000 30750001000]"

definition exC :: "string \<Rightarrow> (int \<Rightarrow> (string \<times> bytes) list \<Rightarrow> (string \<times> bytes) list) \<Rightarrow> (string \<times> bytes) list durable_cfg" where
  "exC self others = \<lparr>dc_self = self, dc_settle = 250000000, dc_lease = 15000000000, dc_margin = 500000000,
     dc_ResolveTupleOwner = (\<lambda>_. Inr ''n1''), dc_ResolveTupleOwnerAfter = Some (\<lambda>_ _. Inr ''n2''),
     dc_others = others, dc_done = (\<lambda>_. False),
     dc_store = mapStore, dc_Sum256 = (\<lambda>x. x), dc_Marshal = tableMarshal exTable, dc_Unmarshal = tableUnmarshal exTable,
     dc_rank = (\<lambda>_ _. 0)\<rparr>"

definition exReq :: tupleWireRequest where
  "exReq = \<lparr>tr_Operation = ''put'', tr_Name = ''job'', tr_Value = Some ''x'', tr_Expected = None,
     tr_RequestID = ''r1'', tr_Epoch = 1, tr_Writer = ''n1''\<rparr>"

definition exStart :: "int \<Rightarrow> (string \<times> bytes) list \<Rightarrow> (string \<times> bytes) list durable" where
  "exStart now net = \<lparr>du_now = now, du_net = net, du_cache = [], du_cacheBytes = 0, du_project = None\<rparr>"

definition quiet :: "int \<Rightarrow> (string \<times> bytes) list \<Rightarrow> (string \<times> bytes) list" where
  "quiet wait net = net"

abbreviation exN1 :: "(string \<times> bytes) list durable_cfg" where
  "exN1 \<equiv> exC ''n1'' quiet"

abbreviation exRun :: "bytes result \<times> (string \<times> bytes) list durable" where
  "exRun \<equiv> apply_request exN1 exReq (exStart 1000 [])"

lemma exRun_run: "exRun = (Inr [], snd exRun)"
proof -
  have "fst exRun = Inr []" by code_simp
  then show ?thesis by (metis prod.collapse)
qed

lemma exStart_run: "durable_run C (exStart now net)"
  unfolding exStart_def by (rule durable_run.start)

text \<open>A run that writes the first tuple of a name: one state is cached.\<close>
theorem durable_cache_bounded_witness:
  "du_cache (snd exRun) \<noteq> [] \<and> length (du_cache (snd exRun)) \<le> 4096
    \<and> du_cacheBytes (snd exRun) = (\<Sum>e\<leftarrow>du_cache (snd exRun). durableTupleStateCacheSize (fst (snd e)))"
proof -
  have "durable_run exN1 (snd exRun)" by (rule durable_run.request [OF exStart_run exRun_run])
  moreover have "map fst (du_cache (snd exRun)) = [''job'']" by code_simp
  then have "du_cache (snd exRun) \<noteq> []" by auto
  ultimately show ?thesis using durable_cache_bounded by blast
qed

theorem apply_request_fenced_witness:
  "exRun = (Inr [], snd exRun) \<and> dc_margin exN1 < dc_lease exN1 \<and>
   (\<exists>st s1. currentState exN1 exReq (exStart 1000 []) = (Inr st, s1) \<and> stateFence st = requestedFence exReq
     \<and> du_now s1 < dt_ExpiresAt st - dc_margin exN1)"
proof -
  have margin: "dc_margin exN1 < dc_lease exN1" by (simp add: exC_def)
  show ?thesis using exRun_run margin apply_request_fenced [OF exRun_run margin] by blast
qed

lemma exStart_simps [simp]:
  "du_now (exStart now net) = now" "du_net (exStart now net) = net"
  by (simp_all add: exStart_def)

lemma exRun_first: "currentState exN1 exReq (exStart 1000 []) = (Inr (freshState exN1 exReq 1000), exStart 1000 [])"
proof -
  have "fst (currentState exN1 exReq (exStart 1000 [])) = Inr (freshState exN1 exReq 1000)" by code_simp
  then obtain t where t: "currentState exN1 exReq (exStart 1000 []) = (Inr (freshState exN1 exReq 1000), t)"
    by (metis prod.collapse)
  have r: "readState exN1 (tr_Name exReq) (exStart 1000 []) = Inl RoutingNotFound" by code_simp
  from t show ?thesis
  proof (cases rule: currentState_cases)
    case stored
    with r show ?thesis by simp
  qed (use t in auto)
qed

theorem apply_request_retry_witness:
  "\<exists>t'. apply_request exN1 exReq (snd exRun) = (Inr [], t') \<and> du_net t' = du_net (snd exRun)"
proof (rule apply_request_retry [OF exRun_run exStart_run exRun_first, where vals = "[''x'']"])
  fix d
  assume "dc_Marshal exN1 (nextState (dc_lease exN1) exReq [] [''x''] (du_now (exStart 1000 [])) (freshState exN1 exReq 1000)) = Inr d"
  then show "dc_Unmarshal exN1 d = Inr (nextState (dc_lease exN1) exReq [] [''x''] (du_now (exStart 1000 [])) (freshState exN1 exReq 1000))"
    unfolding exC_def durable_cfg.simps by (rule table_roundtrip) (simp add: exTable_def)
qed (code_simp | simp add: exC_def)+

text \<open>A later request of another client and a failover to \<open>n2\<close> lie between the two runs.\<close>

definition exReq2 :: tupleWireRequest where
  "exReq2 = exReq\<lparr>tr_Value := Some ''y'', tr_RequestID := ''r2''\<rparr>"

definition exAfter :: durableTupleState where
  "exAfter = failoverClaim 1 15 ''job'' \<lparr>tf_Epoch = 1, tf_Writer = ''n1''\<rparr> ''n2'' 18
     (nextState 15 exReq2 [] [''x'', ''y''] 2 (nextState 15 exReq [] [''x''] 1 (exState 1 ''n1'' 0 [] [] 1 16)))"


text \<open>\<open>n1\<close> commits again while \<open>n2\<close> waits for the lease it has read. \<open>n2\<close> takes over with the next epoch
  although the lease of \<open>n1\<close> then runs for another thirteen seconds, and \<open>n1\<close> would serve from its cache.\<close>

definition busy :: "int \<Rightarrow> (string \<times> bytes) list \<Rightarrow> (string \<times> bytes) list" where
  "busy wait net = (if wait > 1000000000 then (''/tuplestate/6a6f62'', [char_of (1::nat)]) # net else net)"

definition exNet :: "(string \<times> bytes) list" where
  "exNet = [(''/tuplestate/6a6f62'', [char_of (0::nat)])]"

theorem failover_waits_for_first_lease_only_witness:
  "(\<exists>t. failoverBase (exC ''n2'' busy) ''job'' \<lparr>tf_Epoch = 1, tf_Writer = ''n1''\<rparr> (exStart 5000 exNet)
       = (Inr (Inr (exTable ! 1)), t) \<and> du_now t < dt_ExpiresAt (exTable ! 1) - 500000000)
   \<and> fst (failover (exC ''n2'' busy) ''job'' \<lparr>tf_Epoch = 1, tf_Writer = ''n1''\<rparr> (exStart 5000 exNet))
       = Inr \<lparr>tf_Epoch = 2, tf_Writer = ''n2''\<rparr>
   \<and> cachedState exN1 ''job'' \<lparr>tf_Epoch = 1, tf_Writer = ''n1''\<rparr>
       ((exStart 15750001000 [])\<lparr>du_cache := [(''job'', exTable ! 1, 0)]\<rparr>) = Some (exTable ! 1)"
proof (intro conjI)
  have "\<exists>t. failoverBase (exC ''n2'' busy) ''job'' \<lparr>tf_Epoch = 1, tf_Writer = ''n1''\<rparr> (exStart 5000 exNet)
      = (Inr (if stateFence (exTable ! 1) = \<lparr>tf_Epoch = 1, tf_Writer = ''n1''\<rparr> then Inr (exTable ! 1)
              else Inl (stateFence (exTable ! 1))), t)
    \<and> du_now t = dt_ExpiresAt (exTable ! 0) + dc_margin (exC ''n2'' busy)"
    by (rule failover_waits_for_first_lease_only) code_simp+
  then show "\<exists>t. failoverBase (exC ''n2'' busy) ''job'' \<lparr>tf_Epoch = 1, tf_Writer = ''n1''\<rparr> (exStart 5000 exNet)
       = (Inr (Inr (exTable ! 1)), t) \<and> du_now t < dt_ExpiresAt (exTable ! 1) - 500000000"
    by (auto simp: exTable_def exState_def stateFence_def exC_def)
qed code_simp+

end
