(* ===== verification/Go_Sort.thy ===== *)
theory Go_Sort
  imports Main "HOL-Library.Multiset"
begin

text \<open>
  \<open>sort.Slice\<close> with the comparison \<open>lt\<close>. Its result is unspecified among entries of which neither is less; the comparisons
  of the program end in the text of a peer identifier or in a distance between identifiers, so such entries belong to one peer.
\<close>

fun insertBy :: "('a \<Rightarrow> 'a \<Rightarrow> bool) \<Rightarrow> 'a \<Rightarrow> 'a list \<Rightarrow> 'a list" where
  "insertBy lt x [] = [x]"
| "insertBy lt x (y # ys) = (if lt y x then y # insertBy lt x ys else x # y # ys)"

definition sortSlice :: "('a \<Rightarrow> 'a \<Rightarrow> bool) \<Rightarrow> 'a list \<Rightarrow> 'a list" where
  "sortSlice lt xs = foldr (insertBy lt) xs []"

lemma insertBy_mset: "mset (insertBy lt x xs) = add_mset x (mset xs)"
  by (induction xs) auto

lemma sortSlice_mset: "mset (sortSlice lt xs) = mset xs"
  by (induction xs) (auto simp: sortSlice_def insertBy_mset)

lemma sortSlice_set: "set (sortSlice lt xs) = set xs"
  using sortSlice_mset [of lt xs] by (metis set_mset_mset)

lemma sortSlice_length: "length (sortSlice lt xs) = length xs"
  using sortSlice_mset [of lt xs] by (metis size_mset)

end
