(* ===== verification/Tuple_Route.thy ===== *)
theory Tuple_Route
  imports Go_Sort Tuple_Durable
begin

text \<open>
  The routing of \<open>internal/tuplespace/distributed.go\<close> over established connections, which the index coordinator of \<open>indexed.go\<close>
  repeats: a request for a peer that is not connected is handed from node to node with a budget. The peers of every node, the distance
  of identifiers and the streams are parameters. A node starts its branches at once and takes the first answer that is
  final; here the branches run one after the other, all of them, and the answers arrive in the order of the candidates.
\<close>

record overlay =
  ov_String :: "string \<Rightarrow> string"
  ov_Decode :: "string \<Rightarrow> string result"
  ov_Peers :: "string \<Rightarrow> string list"
  ov_Connected :: "string \<Rightarrow> string \<Rightarrow> bool"
  ov_Closer :: "string \<Rightarrow> string \<Rightarrow> string \<Rightarrow> bool"

definition maxTupleRouteWork :: int where "maxTupleRouteWork = 64"
definition maxTupleRouteBranches :: nat where "maxTupleRouteBranches = 4"

definition appendVisitedPeer :: "overlay \<Rightarrow> string list \<Rightarrow> string \<Rightarrow> string list" where
  "appendVisitedPeer V visited pid = (if ov_String V pid \<in> set visited then visited else visited @ [ov_String V pid])"

definition routeStartedHere :: "overlay \<Rightarrow> string list \<Rightarrow> string \<Rightarrow> bool" where
  "routeStartedHere V visited pid \<longleftrightarrow> ov_String V pid \<in> set visited"

definition connectedRouteCandidates :: "overlay \<Rightarrow> string \<Rightarrow> string \<Rightarrow> string list \<Rightarrow> string list" where
  "connectedRouteCandidates V self target visited =
     (let excluded = set visited \<union> {ov_String V self} in
      sortSlice (\<lambda>a b. if a = target then True else if b = target then False else ov_Closer V target a b)
        (filter (\<lambda>c. ov_String V c \<notin> excluded \<and> ov_Connected V self c) (ov_Peers V self)))"

text \<open>The neighbors a node asks, with the part of the budget each gets.\<close>

definition splitBudget :: "nat \<Rightarrow> nat \<Rightarrow> nat list" where
  "splitBudget n budget =
     (let remaining = budget - n in map (\<lambda>i. remaining div n + (if i < remaining mod n then 1 else 0)) [0..<n])"

definition routeBranches :: "overlay \<Rightarrow> string \<Rightarrow> string \<Rightarrow> string list \<Rightarrow> nat \<Rightarrow> (string \<times> nat) list" where
  "routeBranches V self target visited budget =
     (let branchLimit = (if routeStartedHere V visited self then maxTupleRouteBranches else 1);
          candidates = take budget (take branchLimit (connectedRouteCandidates V self target (appendVisitedPeer V visited self))) in
      zip candidates (splitBudget (length candidates) budget))"

subsection \<open>The budget\<close>

lemma sum_extra: "e \<le> n \<Longrightarrow> (\<Sum>i<n. q + (if i < e then 1 else 0)) = n * q + (e :: nat)"
proof (induction n)
  case (Suc n)
  show ?case
  proof (cases "e \<le> n")
    case True
    with Suc show ?thesis by simp
  next
    case False
    with Suc.prems have e: "e = Suc n" by simp
    have "(\<Sum>i<Suc n. q + (if i < e then 1 else 0)) = (\<Sum>i<Suc n. Suc q)" by (rule sum.cong) (auto simp: e)
    then show ?thesis by (simp add: e algebra_simps)
  qed
qed simp

lemma splitBudget_sum: "0 < n \<Longrightarrow> n \<le> budget \<Longrightarrow> sum_list (splitBudget n budget) + n = budget"
proof -
  assume n: "0 < n" "n \<le> budget"
  let ?r = "budget - n"
  have "sum_list (splitBudget n budget) = (\<Sum>i<n. ?r div n + (if i < ?r mod n then 1 else 0))"
    by (simp add: splitBudget_def Let_def interv_sum_list_conv_sum_set_nat atLeast0LessThan)
  also have "\<dots> = n * (?r div n) + ?r mod n" using n(1) by (intro sum_extra) (simp add: less_imp_le)
  also have "\<dots> = ?r" by simp
  finally show ?thesis using n by simp
qed

lemma routeBranches_budget: "sum_list (map (\<lambda>(c, b). Suc b) (routeBranches V self target visited budget)) \<le> budget"
proof -
  define cs where "cs = take budget (take (if routeStartedHere V visited self then maxTupleRouteBranches else 1)
    (connectedRouteCandidates V self target (appendVisitedPeer V visited self)))"
  have bs: "routeBranches V self target visited budget = zip cs (splitBudget (length cs) budget)"
    by (simp add: routeBranches_def cs_def)
  have len: "length (splitBudget (length cs) budget) = length cs" by (simp add: splitBudget_def Let_def)
  have "sum_list (map (\<lambda>(c, b). Suc b) (zip cs ys)) = sum_list ys + length cs" if "length ys = length cs" for ys :: "nat list"
    using that by (induction cs ys rule: list_induct2') auto
  moreover have "length cs \<le> budget" by (simp add: cs_def)
  ultimately show ?thesis using splitBudget_sum [of "length cs" budget] len by (cases "cs = []") (simp_all add: bs)
qed

lemma routeBranches_visited:
  "(c, b) \<in> set (routeBranches V self target visited budget) \<Longrightarrow> ov_String V c \<notin> set visited \<and> c \<in> set (ov_Peers V self) \<and> ov_Connected V self c"
  unfolding routeBranches_def Let_def
  by (drule set_zip_leftD) (auto dest!: in_set_takeD simp: connectedRouteCandidates_def Let_def sortSlice_set appendVisitedPeer_def split: if_splits)

subsection \<open>Relaying\<close>

text \<open>
  A request on its way to \<open>target\<close>, at the node \<open>self\<close> that is not the target. \<open>send\<close> opens the stream to a neighbor and writes the request,
  \<open>receive\<close> reads the reply, which may be lost after the work was done, \<open>deliver\<close> is the work of the target, \<open>answer\<close> what becomes of a reply on the way back over a stream, and \<open>final\<close> tells the replies that
  end the search. The list is the log of the nodes the request was sent to.
\<close>

record ('r, 's) relay_cfg =
  rl_overlay :: overlay
  rl_target :: string
  rl_send :: "string \<Rightarrow> string \<Rightarrow> ('s, unit) op"
  rl_receive :: "string \<Rightarrow> string \<Rightarrow> ('s, unit) op"
  rl_deliver :: "'s \<Rightarrow> 'r \<times> 's"
  rl_failed :: "go_error \<Rightarrow> 'r"
  rl_answer :: "'r \<Rightarrow> 'r"
  rl_final :: "'r \<Rightarrow> bool"
  rl_noRoute :: "'r list \<Rightarrow> 'r"

definition readReply :: "('r, 's) relay_cfg \<Rightarrow> string \<Rightarrow> string \<Rightarrow> 'r \<Rightarrow> 's \<Rightarrow> 'r \<times> 's" where
  "readReply Y self next1 r s = (case rl_receive Y self next1 s of (Inl e, t) \<Rightarrow> (rl_failed Y e, t) | (Inr _, t) \<Rightarrow> (rl_answer Y r, t))"

function relay :: "('r, 's) relay_cfg \<Rightarrow> string \<Rightarrow> string list \<Rightarrow> nat \<Rightarrow> 's \<Rightarrow> 'r \<times> string list \<times> 's"
  and relayBranches :: "('r, 's) relay_cfg \<Rightarrow> string \<Rightarrow> string list \<Rightarrow> (string \<times> nat) list \<Rightarrow> 'r list \<Rightarrow> 's \<Rightarrow> 'r \<times> string list \<times> 's" where
  "relay Y self visited budget s =
     relayBranches Y self (appendVisitedPeer (rl_overlay Y) visited self) (routeBranches (rl_overlay Y) self (rl_target Y) visited budget) [] s"
| "relayBranches Y self visited [] earlier s = (rl_noRoute Y earlier, [], s)"
| "relayBranches Y self visited ((next1, b) # bs) earlier s =
     (let (r, log, t) =
        (case rl_send Y self next1 s of
           (Inl e, t) \<Rightarrow> (rl_failed Y e, [], t)
         | (Inr _, t) \<Rightarrow>
             if next1 = rl_target Y then (case rl_deliver Y t of (r, u) \<Rightarrow> case readReply Y self next1 r u of (r, w) \<Rightarrow> (r, [], w))
             else (case relay Y next1 visited b t of (r, log, u) \<Rightarrow> case readReply Y self next1 r u of (r, w) \<Rightarrow> (r, log, w)));
          (r', log', u) = relayBranches Y self visited bs (earlier @ [r]) t in
      (if rl_final Y r then r else r', next1 # log @ log', u))"
  by pat_completeness auto
termination
  by (relation "measure (\<lambda>x. case x of Inl (Y, self, visited, budget, s) \<Rightarrow> Suc (2 * budget)
       | Inr (Y, self, visited, bs, earlier, s) \<Rightarrow> 2 * sum_list (map (\<lambda>(c, b). Suc b) bs))")
    (use routeBranches_budget in \<open>auto simp: less_Suc_eq_le\<close>)

declare relay.simps [simp del] relayBranches.simps(2) [simp del]

subsection \<open>What a relayed request can do\<close>

lemma relay_work:
  "length (fst (snd (relay Y self visited budget s))) \<le> budget"
  "length (fst (snd (relayBranches Y self visited bs earlier s))) \<le> sum_list (map (\<lambda>(c, b). Suc b) bs)"
proof (induction Y self visited budget s and Y self visited bs earlier s rule: relay_relayBranches.induct)
  case (1 Y self visited budget s)
  then show ?case using routeBranches_budget [of "rl_overlay Y" self "rl_target Y" visited budget]
    by (subst relay.simps) (meson le_trans)
next
  case (2 Y self visited earlier s)
  then show ?case by (simp add: relayBranches.simps)
next
  case (3 Y self visited next1 b bs earlier s)
  obtain e t where send: "rl_send Y self next1 s = (e, t)" by fastforce
  obtain r log u where branch: "(case e of Inl x \<Rightarrow> (rl_failed Y x, [], t)
      | Inr _ \<Rightarrow> if next1 = rl_target Y then (case rl_deliver Y t of (r, u) \<Rightarrow> case readReply Y self next1 r u of (r, w) \<Rightarrow> (r, [], w))
               else (case relay Y next1 visited b t of (r, log, u) \<Rightarrow> case readReply Y self next1 r u of (r, w) \<Rightarrow> (r, log, w))) = (r, log, u)"
    by (metis prod_cases3)
  have log: "length log \<le> b"
    using branch 3(1) send by (auto split: sum.splits if_splits prod.splits)
  obtain r' log' w where rest: "relayBranches Y self visited bs (earlier @ [r]) u = (r', log', w)" by (metis prod_cases3)
  have "length log' \<le> sum_list (map (\<lambda>(c, b). Suc b) bs)"
    using 3(2) send branch rest by (fastforce split: sum.splits prod.splits)
  moreover have "fst (snd (relayBranches Y self visited ((next1, b) # bs) earlier s)) = next1 # log @ log'"
    using send branch rest by (auto simp: relayBranches.simps split: sum.splits)
  ultimately show ?case using log by simp
qed

text \<open>
  A condition on states \<open>I\<close> that streams and the target keep, a condition \<open>J\<close> that, once true, stays true, replies \<open>R\<close> that the target gives
  only when \<open>J\<close> is true, and a property \<open>G\<close> of the replies under which a stream makes no reply an \<open>R\<close>.
\<close>

definition relaySafe :: "('r, 's) relay_cfg \<Rightarrow> ('s \<Rightarrow> bool) \<Rightarrow> ('s \<Rightarrow> bool) \<Rightarrow> ('r \<Rightarrow> bool) \<Rightarrow> ('r \<Rightarrow> bool) \<Rightarrow> bool" where
  "relaySafe Y I J G R \<longleftrightarrow>
     (\<forall>p q s e t. I s \<longrightarrow> rl_send Y p q s = (e, t) \<or> rl_receive Y p q s = (e, t) \<longrightarrow> I t \<and> (J s \<longrightarrow> J t))
   \<and> (\<forall>s r t. I s \<longrightarrow> rl_deliver Y s = (r, t) \<longrightarrow> I t \<and> (J s \<longrightarrow> J t) \<and> G r \<and> (R r \<longrightarrow> J t))
   \<and> (\<forall>r. G r \<longrightarrow> G (rl_answer Y r) \<and> (R (rl_answer Y r) \<longrightarrow> R r))
   \<and> (\<forall>rs. G (rl_noRoute Y rs) \<and> \<not> R (rl_noRoute Y rs))
   \<and> (\<forall>e. \<not> R (rl_failed Y e) \<and> (rl_final Y (rl_failed Y e) \<longrightarrow> G (rl_failed Y e)))"

lemma relaySafeI:
  assumes "\<And>p q s e t. I s \<Longrightarrow> rl_send Y p q s = (e, t) \<or> rl_receive Y p q s = (e, t) \<Longrightarrow> I t \<and> (J s \<longrightarrow> J t)"
    and "\<And>s r t. I s \<Longrightarrow> rl_deliver Y s = (r, t) \<Longrightarrow> I t \<and> (J s \<longrightarrow> J t) \<and> G r \<and> (R r \<longrightarrow> J t)"
    and "\<And>r. G r \<Longrightarrow> G (rl_answer Y r) \<and> (R (rl_answer Y r) \<longrightarrow> R r)"
    and "\<And>rs. G (rl_noRoute Y rs) \<and> \<not> R (rl_noRoute Y rs)"
    and "\<And>e. \<not> R (rl_failed Y e) \<and> (rl_final Y (rl_failed Y e) \<longrightarrow> G (rl_failed Y e))"
  shows "relaySafe Y I J G R"
proof -
  have "\<forall>p q s e t. I s \<longrightarrow> rl_send Y p q s = (e, t) \<or> rl_receive Y p q s = (e, t) \<longrightarrow> I t \<and> (J s \<longrightarrow> J t)"
    using assms(1) by blast
  moreover have "\<forall>s r t. I s \<longrightarrow> rl_deliver Y s = (r, t) \<longrightarrow> I t \<and> (J s \<longrightarrow> J t) \<and> G r \<and> (R r \<longrightarrow> J t)"
    using assms(2) by blast
  moreover have "\<forall>r. G r \<longrightarrow> G (rl_answer Y r) \<and> (R (rl_answer Y r) \<longrightarrow> R r)" using assms(3) by blast
  moreover have "\<forall>rs. G (rl_noRoute Y rs) \<and> \<not> R (rl_noRoute Y rs)" using assms(4) by blast
  moreover have "\<forall>e. \<not> R (rl_failed Y e) \<and> (rl_final Y (rl_failed Y e) \<longrightarrow> G (rl_failed Y e))" using assms(5) by blast
  ultimately show ?thesis unfolding relaySafe_def by (intro conjI)
qed

lemma relaySafeD:
  assumes "relaySafe Y I J G R"
  shows "I s \<Longrightarrow> rl_send Y p q s = (e, t) \<or> rl_receive Y p q s = (e, t) \<Longrightarrow> I t \<and> (J s \<longrightarrow> J t)"
    and "I s \<Longrightarrow> rl_deliver Y s = (r, t) \<Longrightarrow> I t \<and> (J s \<longrightarrow> J t) \<and> G r \<and> (R r \<longrightarrow> J t)"
    and "G r \<Longrightarrow> G (rl_answer Y r) \<and> (R (rl_answer Y r) \<longrightarrow> R r)"
    and "G (rl_noRoute Y rs) \<and> \<not> R (rl_noRoute Y rs)"
    and "\<not> R (rl_failed Y x) \<and> (rl_final Y (rl_failed Y x) \<longrightarrow> G (rl_failed Y x))"
  using assms unfolding relaySafe_def by blast+

lemma readReply_safe:
  assumes "relaySafe Y I J G R" "I s" "G r" "R r \<longrightarrow> J s" "readReply Y self next1 r s = (q, t)"
  shows "I t \<and> (J s \<longrightarrow> J t) \<and> (rl_final Y q \<longrightarrow> G q) \<and> (R q \<longrightarrow> J t)"
proof -
  obtain e where "rl_receive Y self next1 s = (e, t)" "q = (case e of Inl x \<Rightarrow> rl_failed Y x | Inr _ \<Rightarrow> rl_answer Y r)"
    using assms(5) by (auto simp: readReply_def split: prod.splits sum.splits)
  then show ?thesis using relaySafeD(1) [OF assms(1,2)] relaySafeD(3) [OF assms(1,3)] relaySafeD(5) [OF assms(1)] assms(4)
    by (cases e) auto
qed

lemma relay_safe:
  "relaySafe Y I J G R \<Longrightarrow> I s \<Longrightarrow> relay Y self visited budget s = (r, log, t) \<Longrightarrow> I t \<and> (J s \<longrightarrow> J t) \<and> G r \<and> (R r \<longrightarrow> J t)"
  "relaySafe Y I J G R \<Longrightarrow> I s \<Longrightarrow> relayBranches Y self visited bs earlier s = (r, log, t) \<Longrightarrow> I t \<and> (J s \<longrightarrow> J t) \<and> G r \<and> (R r \<longrightarrow> J t)"
proof (induction Y self visited budget s and Y self visited bs earlier s arbitrary: r log t and r log t rule: relay_relayBranches.induct)
  case (1 Y self visited budget s)
  then show ?case by (metis relay.simps)
next
  case (2 Y self visited earlier s)
  then show ?case using relaySafeD(4) [OF 2(1), of earlier] by (auto simp: relayBranches.simps)
next
  case (3 Y self visited next1 b bs earlier s)
  note safe = relaySafeD [OF 3(3)]
  obtain e t1 where send: "rl_send Y self next1 s = (e, t1)" by fastforce
  then have t1: "I t1" "J s \<longrightarrow> J t1" using safe(1) 3(4) by blast+
  obtain r1 log1 u where branch: "(case e of Inl x \<Rightarrow> (rl_failed Y x, [], t1)
      | Inr _ \<Rightarrow> if next1 = rl_target Y then (case rl_deliver Y t1 of (r, u) \<Rightarrow> case readReply Y self next1 r u of (r, w) \<Rightarrow> (r, [], w))
               else (case relay Y next1 visited b t1 of (r, log, u) \<Rightarrow> case readReply Y self next1 r u of (r, w) \<Rightarrow> (r, log, w))) = (r1, log1, u)"
    by (metis prod_cases3)
  have u: "I u \<and> (J t1 \<longrightarrow> J u) \<and> (rl_final Y r1 \<longrightarrow> G r1) \<and> (R r1 \<longrightarrow> J u)"
  proof (cases e)
    case (Inl x)
    then show ?thesis using branch t1 safe(5) by auto
  next
    case (Inr x)
    show ?thesis
    proof (cases "next1 = rl_target Y")
      case True
      then obtain d v where d: "rl_deliver Y t1 = (d, v)" "readReply Y self next1 d v = (r1, u)" using branch Inr by (auto split: prod.splits)
      have "I v \<and> (J t1 \<longrightarrow> J v) \<and> G d \<and> (R d \<longrightarrow> J v)" using safe(2) [OF t1(1) d(1)] .
      then show ?thesis using readReply_safe [OF 3(3) _ _ _ d(2)] by blast
    next
      case False
      then obtain d v where d: "relay Y next1 visited b t1 = (d, log1, v)" "readReply Y self next1 d v = (r1, u)"
        using branch Inr by (auto split: prod.splits)
      have "I v \<and> (J t1 \<longrightarrow> J v) \<and> G d \<and> (R d \<longrightarrow> J v)"
        using 3(1) send Inr False 3(3) t1(1) d(1) by simp
      then show ?thesis using readReply_safe [OF 3(3) _ _ _ d(2)] by blast
    qed
  qed
  obtain r2 log2 w where rest: "relayBranches Y self visited bs (earlier @ [r1]) u = (r2, log2, w)" by (metis prod_cases3)
  have w: "I w \<and> (J u \<longrightarrow> J w) \<and> G r2 \<and> (R r2 \<longrightarrow> J w)"
    using 3(2) send branch rest 3(3) u by (fastforce split: sum.splits prod.splits)
  have "r = (if rl_final Y r1 then r1 else r2)" "t = w"
    using 3(5) send branch rest by (auto simp: relayBranches.simps split: sum.splits)
  then show ?case using u w t1 by (auto split: if_splits)
qed

lemma relay_outcome:
  "rl_final Y (fst (relayBranches Y self visited bs earlier s)) \<or> (\<exists>rs. fst (relayBranches Y self visited bs earlier s) = rl_noRoute Y rs)"
proof (induction bs arbitrary: earlier s)
  case (Cons x bs)
  obtain next1 b where x: "x = (next1, b)" by (rule prod.exhaust)
  show ?case using Cons.IH unfolding x relayBranches.simps Let_def split_beta by (simp del: split_paired_All)
qed (auto simp: relayBranches.simps)

lemma relay_ends: "relay Y self visited budget s = (r, log, t) \<Longrightarrow> rl_final Y r \<or> (\<exists>rs. r = rl_noRoute Y rs)"
  using relay_outcome [of Y self] by (metis fst_conv relay.simps)

end
