(* ===== verification/Tuple_Distributed.thy ===== *)
theory Tuple_Distributed
  imports Tuple_Route
begin

text \<open>
  \<open>internal/tuplespace/distributed.go\<close>: exact operations go to the owner of a name, over the connections of other nodes when there is
  no direct one, and patterns are asked of every peer. The owner resolver, the search for addresses and the streams are parameters. JSON
  keeps the fields of a request apart from empty values, which \<open>omitempty\<close> drops. The text of a peer identifier names one peer, so
  the comparison of texts in the stream handler is a comparison of peers. Deadlines do not expire.
\<close>

subsection \<open>The wire\<close>

definition noTupleOverlayRoute :: go_error where "noTupleOverlayRoute = ErrMsg ''no tuple overlay route''"

definition omitEmpty :: "bytes option \<Rightarrow> bytes option" where "omitEmpty v = (if v = Some [] then None else v)"

definition wireRequest :: "tupleWireRequest \<Rightarrow> tupleWireRequest" where
  "wireRequest req = req\<lparr>tr_Value := omitEmpty (tr_Value req), tr_Expected := omitEmpty (tr_Expected req)\<rparr>"

record tupleWireResponse =
  tw_Value :: bytes
  tw_Error :: string
  tw_ErrorCode :: string
  tw_CurrentEpoch :: u64
  tw_CurrentWriter :: string

text \<open>\<open>errors.As\<close> with the error of a stale authority, and with an application error.\<close>

primrec asAuthority :: "go_error \<Rightarrow> tupleFence option" where
  "asAuthority (ErrWrap m e) = asAuthority e"
| "asAuthority (ErrTupleAuthority e w) = Some \<lparr>tf_Epoch = e, tf_Writer = w\<rparr>"
| "asAuthority (ErrMsg m) = None"
| "asAuthority DsNotFound = None"
| "asAuthority RoutingNotFound = None"
| "asAuthority ErrNotFound = None"
| "asAuthority ErrConflict = None"
| "asAuthority ErrLocked = None"
| "asAuthority ErrCertificationRequired = None"
| "asAuthority ErrTupleNotFound = None"
| "asAuthority ErrInvalidTuplePattern = None"
| "asAuthority ErrTupleCASConflict = None"
| "asAuthority ErrLockHeldByAnother = None"
| "asAuthority ErrLockTimeout = None"
| "asAuthority ErrStaleWriteFence = None"
| "asAuthority ErrFetchCountTooLarge = None"
| "asAuthority ErrIBLTMessageTooShort = None"
| "asAuthority ErrUnexpectedEOF = None"
| "asAuthority ErrReusedNonce = None"
| "asAuthority ErrDuplicateMessageHash = None"
| "asAuthority ErrExpiredTimestamp = None"
| "asAuthority ErrPermissionDenied = None"
| "asAuthority ErrStaleTupleAuthority = None"
| "asAuthority (ErrTupleApplication m) = None"

fun asApplication :: "go_error \<Rightarrow> bool" where
  "asApplication (ErrWrap m e) = asApplication e"
| "asApplication (ErrTupleApplication m) = True"
| "asApplication _ = False"

text \<open>The reply of \<open>handleStream\<close>, and what \<open>requestPeerDirect\<close> makes of it.\<close>

definition encodeResponse :: "bytes result \<Rightarrow> tupleWireResponse" where
  "encodeResponse r =
     (case r of
        Inr v \<Rightarrow> \<lparr>tw_Value = v, tw_Error = [], tw_ErrorCode = [], tw_CurrentEpoch = 0, tw_CurrentWriter = []\<rparr>
      | Inl e \<Rightarrow>
          (let resp = \<lparr>tw_Value = [], tw_Error = error_text e, tw_ErrorCode = [], tw_CurrentEpoch = 0, tw_CurrentWriter = []\<rparr> in
           if errors_Is e ErrTupleNotFound then resp\<lparr>tw_ErrorCode := ''not_found''\<rparr>
           else if errors_Is e ErrTupleCASConflict then resp\<lparr>tw_ErrorCode := ''conflict''\<rparr>
           else (case asAuthority e of
                   Some f \<Rightarrow> resp\<lparr>tw_ErrorCode := ''stale_authority'', tw_CurrentEpoch := tf_Epoch f, tw_CurrentWriter := tf_Writer f\<rparr>
                 | None \<Rightarrow> resp\<lparr>tw_ErrorCode := ''application''\<rparr>)))"

definition decodeResponse :: "tupleWireResponse \<Rightarrow> bytes result" where
  "decodeResponse resp =
     (if tw_Error resp \<noteq> [] then
        if tw_ErrorCode resp = ''not_found'' then Inl ErrTupleNotFound
        else if tw_ErrorCode resp = ''conflict'' then Inl ErrTupleCASConflict
        else if tw_ErrorCode resp = ''stale_authority'' then Inl (ErrTupleAuthority (tw_CurrentEpoch resp) (tw_CurrentWriter resp))
        else if tw_ErrorCode resp = ''application'' then Inl (ErrTupleApplication (tw_Error resp))
        else if tw_Error resp = error_text ErrTupleNotFound then Inl ErrTupleNotFound
        else Inl (ErrMsg (tw_Error resp))
      else Inr (tw_Value resp))"

subsection \<open>The owner\<close>

record tupleMemoEntry =
  me_value :: bytes
  me_completed :: int

record dnode =
  dn_now :: int
  dn_local :: native
  dn_memo :: "(string \<times> tupleMemoEntry) list"

definition maxTupleMemoEntries :: nat where "maxTupleMemoEntries = 4096"

definition applyLocal :: "regexp \<Rightarrow> tupleWireRequest \<Rightarrow> (native, bytes) op" where
  "applyLocal re req =
     (let arg = (case tr_Value req of None \<Rightarrow> [] | Some v \<Rightarrow> v) in
      if tr_Operation req = ''put'' then bindS (TsPut (tr_Name req) arg) (\<lambda>_. retS [])
      else if tr_Operation req = ''replace'' then bindS (TsReplace (tr_Name req) arg) (\<lambda>_. retS [])
      else if tr_Operation req = ''cas'' then bindS (CompareAndSwapExact (tr_Name req) (tr_Expected req) (tr_Value req)) (\<lambda>_. retS [])
      else if tr_Operation req = ''read'' then readS (\<lambda>n. TsRead re n (tr_Name req)) liftR
      else if tr_Operation req = ''get'' then TsGet re (tr_Name req)
      else failS (ErrMsg (''unsupported tuple operation '' @ tr_Operation req)))"

text \<open>The oldest entries go while there are too many. Entries of one time go in the order of a Go map, here that of the list.\<close>

function evictTupleMemo :: "(string \<times> tupleMemoEntry) list \<Rightarrow> (string \<times> tupleMemoEntry) list" where
  "evictTupleMemo memo =
     (if length memo > maxTupleMemoEntries
      then evictTupleMemo (remove1 (hd (sort_key (\<lambda>e. me_completed (snd e)) memo)) memo)
      else memo)"
  by pat_completeness auto
termination
proof (relation "measure length", simp_all, goal_cases)
  case (1 memo)
  then have "sort_key (\<lambda>e. me_completed (snd e)) memo \<noteq> []" by (auto simp flip: length_greater_0_conv)
  then have "hd (sort_key (\<lambda>e. me_completed (snd e)) memo) \<in> set memo" by (metis hd_in_set set_sort)
  then have "length (remove1 (hd (sort_key (\<lambda>e. me_completed (snd e)) memo)) memo) = length memo - 1" by (simp add: length_remove1)
  then show ?case using 1 by linarith
qed

declare evictTupleMemo.simps [simp del]

text \<open>A request that carries an identifier is remembered with its value once it has succeeded. A second request with this identifier while the first
  runs waits for it, so the requests of a node are a sequence. This is the path of a node without a durable store, and of patterns.\<close>

definition applyLocalOnce :: "regexp \<Rightarrow> tupleWireRequest \<Rightarrow> (dnode, bytes) op" where
  "applyLocalOnce re req d =
     (case (if tr_RequestID req = [] then None else map_of (dn_memo d) (tr_RequestID req)) of
        Some e \<Rightarrow> (Inr (me_value e), d)
      | None \<Rightarrow>
          (case applyLocal re req (dn_local d) of
             (Inl err, n) \<Rightarrow> (Inl err, d\<lparr>dn_local := n\<rparr>)
           | (Inr v, n) \<Rightarrow>
               (Inr v, d\<lparr>dn_local := n, dn_memo := (if tr_RequestID req = [] then dn_memo d
                  else evictTupleMemo ((tr_RequestID req, \<lparr>me_value = v, me_completed = dn_now d\<rparr>) # dn_memo d))\<rparr>)))"

subsection \<open>Requests\<close>

record 's space_cfg =
  sc_overlay :: overlay
  sc_self :: string
  sc_send :: "string \<Rightarrow> string \<Rightarrow> ('s, unit) op"
  sc_receive :: "string \<Rightarrow> string \<Rightarrow> ('s, unit) op"
  sc_apply :: "string \<Rightarrow> tupleWireRequest \<Rightarrow> ('s, bytes) op"
  sc_ensureAddress :: "string \<Rightarrow> ('s, unit) op"
  sc_ResolveTupleOwner :: "string \<Rightarrow> 's \<Rightarrow> string result"
  sc_newRequestID :: "'s \<Rightarrow> string \<times> 's"

definition notFound :: "bytes result \<Rightarrow> bool" where
  "notFound r = (case r of Inl e \<Rightarrow> errors_Is e ErrTupleNotFound | Inr _ \<Rightarrow> False)"

definition tupleRelay :: "'s space_cfg \<Rightarrow> string \<Rightarrow> tupleWireRequest \<Rightarrow> (bytes result, 's) relay_cfg" where
  "tupleRelay D target req =
     \<lparr>rl_overlay = sc_overlay D, rl_target = target, rl_send = sc_send D, rl_receive = sc_receive D, rl_deliver = sc_apply D target (wireRequest req), rl_failed = Inl,
      rl_answer = (\<lambda>r. decodeResponse (encodeResponse r)), rl_final = (\<lambda>r. is_ok r \<or> notFound r),
      rl_noRoute = (\<lambda>rs. Inl (ErrWrap (''target '' @ ov_String (sc_overlay D) target) noTupleOverlayRoute))\<rparr>"

text \<open>The request at the node \<open>self\<close>, with the budget it has left and the nodes it has been to; with the log of the nodes it was sent to.\<close>

definition forwardTupleRequest ::
    "'s space_cfg \<Rightarrow> string \<Rightarrow> string \<Rightarrow> string list \<Rightarrow> int \<Rightarrow> tupleWireRequest \<Rightarrow> 's \<Rightarrow> bytes result \<times> string list \<times> 's" where
  "forwardTupleRequest D self target visited routeBudget req s =
     (if target = self then (case sc_apply D self req s of (r, t) \<Rightarrow> (r, [], t))
      else if routeBudget \<le> 0 then (Inl (ErrWrap ''route budget exhausted'' noTupleOverlayRoute), [], s)
      else (case relay (tupleRelay D target req) self visited (nat routeBudget) s of
              (r, log, t) \<Rightarrow> (if notFound r then Inl ErrTupleNotFound else r, log, t)))"

definition requestPeerDirect :: "'s space_cfg \<Rightarrow> string \<Rightarrow> tupleWireRequest \<Rightarrow> ('s, bytes) op" where
  "requestPeerDirect D owner req =
     bindS (sc_send D (sc_self D) owner) (\<lambda>_ s.
     case sc_apply D owner (wireRequest req) s of
       (r, t) \<Rightarrow> bindS (sc_receive D (sc_self D) owner) (\<lambda>_. liftR (decodeResponse (encodeResponse r))) t)"

definition requestPeer :: "'s space_cfg \<Rightarrow> string \<Rightarrow> tupleWireRequest \<Rightarrow> ('s, bytes) op" where
  "requestPeer D owner req0 s0 =
     (let (req, s) = (if tr_RequestID req0 = [] then (case sc_newRequestID D s0 of (i, s) \<Rightarrow> (req0\<lparr>tr_RequestID := i\<rparr>, s)) else (req0, s0)) in
      if owner = sc_self D then sc_apply D owner req s
      else (case forwardTupleRequest D (sc_self D) owner (appendVisitedPeer (sc_overlay D) [] (sc_self D)) maxTupleRouteWork req s of
              (Inr v, _, t) \<Rightarrow> (Inr v, t)
            | (Inl e, _, t) \<Rightarrow>
                if \<not> errors_Is e noTupleOverlayRoute then (Inl e, t)
                else bindS (\<lambda>u. case sc_ensureAddress D owner u of (r, w) \<Rightarrow> (wrapR ''resolve tuple-owner address'' r, w)) (\<lambda>_. requestPeerDirect D owner req) t))"

definition exact :: "'s space_cfg \<Rightarrow> tupleWireRequest \<Rightarrow> ('s, bytes) op" where
  "exact D req =
     readS (sc_ResolveTupleOwner D (tr_Name req)) (\<lambda>resolved.
     bindS (liftR (wrapR ''resolve tuple owner'' resolved)) (\<lambda>owner.
     fail_ifS (owner = []) (ErrMsg ''tuple owner resolver returned an empty peer ID'')
     (requestPeer D owner req)))"

fun associativeLoop :: "'s space_cfg \<Rightarrow> tupleWireRequest \<Rightarrow> string list \<Rightarrow> go_error option \<Rightarrow> ('s, bytes) op" where
  "associativeLoop D req [] lastErr s =
     (Inl (case lastErr of None \<Rightarrow> ErrTupleNotFound | Some e \<Rightarrow> if errors_Is e ErrTupleNotFound then ErrTupleNotFound else e), s)"
| "associativeLoop D req (p # ps) lastErr s =
     (case requestPeer D p req s of (Inr v, t) \<Rightarrow> (Inr v, t) | (Inl e, t) \<Rightarrow> associativeLoop D req ps (Some e) t)"

definition simpleRequest :: "string \<Rightarrow> string \<Rightarrow> bytes option \<Rightarrow> bytes option \<Rightarrow> tupleWireRequest" where
  "simpleRequest operation name expected v = \<lparr>tr_Operation = operation, tr_Name = name, tr_Value = v, tr_Expected = expected,
     tr_RequestID = [], tr_Epoch = 0, tr_Writer = []\<rparr>"

definition associative :: "regexp \<Rightarrow> 's space_cfg \<Rightarrow> string \<Rightarrow> string \<Rightarrow> ('s, bytes) op" where
  "associative re D operation expr =
     bindS (liftR (compileTupleMatcher re expr)) (\<lambda>_.
     let V = sc_overlay D; peers = sortSlice (\<lambda>a b. ov_String V a < ov_String V b) (ov_Peers V (sc_self D) @ [sc_self D]) in
     associativeLoop D (simpleRequest operation expr None None) peers None)"

definition D_TsPut :: "'s space_cfg \<Rightarrow> string \<Rightarrow> bytes \<Rightarrow> ('s, int) op" where
  "D_TsPut D name v =
     fail_ifS (name = []) (ErrMsg ''tuple name required'') (bindS (exact D (simpleRequest ''put'' name None (Some v))) (\<lambda>_. retS 0))"

definition D_TsReplace :: "'s space_cfg \<Rightarrow> string \<Rightarrow> bytes \<Rightarrow> ('s, int) op" where
  "D_TsReplace D name v =
     fail_ifS (name = []) (ErrMsg ''tuple name required'')
     (fail_ifS (isTuplePattern name) (ErrMsg ''tuple replacement requires an exact name'')
     (bindS (exact D (simpleRequest ''replace'' name None (Some v))) (\<lambda>_. retS 0)))"

definition D_TsReadContext :: "regexp \<Rightarrow> 's space_cfg \<Rightarrow> string \<Rightarrow> ('s, bytes) op" where
  "D_TsReadContext re D expr =
     (if \<not> isTuplePattern expr then exact D (simpleRequest ''read'' expr None None) else associative re D ''read'' expr)"

definition D_TsGet :: "regexp \<Rightarrow> 's space_cfg \<Rightarrow> string \<Rightarrow> ('s, bytes) op" where
  "D_TsGet re D expr =
     (if \<not> isTuplePattern expr then exact D (simpleRequest ''get'' expr None None) else associative re D ''get'' expr)"

definition D_CompareAndSwapExact :: "'s space_cfg \<Rightarrow> string \<Rightarrow> bytes option \<Rightarrow> bytes option \<Rightarrow> ('s, unit) op" where
  "D_CompareAndSwapExact D name expected v =
     fail_ifS (name = [] \<or> isTuplePattern name) (ErrMsg ''CAS requires an exact name'')
     (bindS (exact D (simpleRequest ''cas'' name expected v)) (\<lambda>_. retS ()))"

definition D_ReadExact :: "'s space_cfg \<Rightarrow> string \<Rightarrow> ('s, bytes) op" where
  "D_ReadExact D name =
     fail_ifS (name = [] \<or> isTuplePattern name) (ErrMsg ''exact name required'') (exact D (simpleRequest ''read'' name None None))"

subsection \<open>The cache of fences\<close>

record fence_cache =
  fc_fences :: "string \<rightharpoonup> tupleFence"
  fc_order :: "string list"

definition maxTupleFenceEntries :: nat where "maxTupleFenceEntries = 65536"

text \<open>The map has one name more than before, so the loop that evicts runs at most once.\<close>

definition cacheTupleFence :: "string \<Rightarrow> tupleFence \<Rightarrow> fence_cache \<Rightarrow> fence_cache" where
  "cacheTupleFence name fence c =
     (if name = [] \<or> tf_Epoch fence = 0 \<or> tf_Writer fence = [] then c
      else case fc_fences c name of
        Some current \<Rightarrow> if compareTupleFences fence current \<ge> 0 then c\<lparr>fc_fences := (fc_fences c)(name \<mapsto> fence)\<rparr> else c
      | None \<Rightarrow>
          (let fences = (fc_fences c)(name \<mapsto> fence); order = fc_order c @ [name] in
           if length order > maxTupleFenceEntries then c\<lparr>fc_fences := fences(hd order := None), fc_order := tl order\<rparr>
           else c\<lparr>fc_fences := fences, fc_order := order\<rparr>))"

subsection \<open>Names with a durable state\<close>

text \<open>The durable store of the node, with the cache of fences in its state.\<close>

record 's durable_ops =
  do_resolve :: "string \<Rightarrow> 's \<Rightarrow> tupleFence result"
  do_failover :: "string \<Rightarrow> tupleFence \<Rightarrow> ('s, tupleFence) op"
  do_fences :: "'s \<Rightarrow> fence_cache"
  do_setFences :: "fence_cache \<Rightarrow> 's \<Rightarrow> 's"

definition maxDurableTupleAttempts :: nat where "maxDurableTupleAttempts = 8"

definition rememberFence :: "'s durable_ops \<Rightarrow> string \<Rightarrow> tupleFence \<Rightarrow> ('s, unit) op" where
  "rememberFence U name fence = modifyS (\<lambda>s. do_setFences U (cacheTupleFence name fence (do_fences U s)) s)"

primrec durableAttempts :: "nat \<Rightarrow> 's space_cfg \<Rightarrow> 's durable_ops \<Rightarrow> tupleWireRequest \<Rightarrow> tupleFence \<Rightarrow> ('s, bytes) op" where
  "durableAttempts 0 D U req fence = failS (ErrMsg ''durable tuple authority did not converge'')"
| "durableAttempts (Suc n) D U req fence =
     bindS (liftR (wrapR ''decode durable tuple owner'' (ov_Decode (sc_overlay D) (tf_Writer fence)))) (\<lambda>owner.
     tryS (requestPeer D owner (req\<lparr>tr_Epoch := tf_Epoch fence, tr_Writer := tf_Writer fence\<rparr>)) (\<lambda>r.
     case r of
       Inr v \<Rightarrow> bindS (rememberFence U (tr_Name req) fence) (\<lambda>_. retS v)
     | Inl e \<Rightarrow>
         if errors_Is e ErrTupleNotFound then bindS (rememberFence U (tr_Name req) fence) (\<lambda>_. failS e)
         else (case asAuthority e of
                 Some stale \<Rightarrow>
                   fail_ifS (tf_Epoch stale = 0 \<or> tf_Writer stale = []) e
                   (bindS (rememberFence U (tr_Name req) stale) (\<lambda>_. durableAttempts n D U req stale))
               | None \<Rightarrow>
                   fail_ifS (asApplication e \<or> owner = sc_self D) e
                   (bindS (\<lambda>s. case do_failover U (tr_Name req) fence s of (q, t) \<Rightarrow> (wrapR ''fail over durable tuple owner'' q, t)) (\<lambda>fence'.
                    bindS (rememberFence U (tr_Name req) fence') (\<lambda>_. durableAttempts n D U req fence'))))))"

definition exactDurable :: "'s space_cfg \<Rightarrow> 's durable_ops \<Rightarrow> tupleWireRequest \<Rightarrow> ('s, bytes) op" where
  "exactDurable D U req0 s0 =
     (let (req, s) = (if tr_RequestID req0 = [] then (case sc_newRequestID D s0 of (i, s) \<Rightarrow> (req0\<lparr>tr_RequestID := i\<rparr>, s)) else (req0, s0)) in
      (case fc_fences (do_fences U s) (tr_Name req) of
         Some fence \<Rightarrow> durableAttempts maxDurableTupleAttempts D U req fence s
       | None \<Rightarrow>
           readS (do_resolve U (tr_Name req)) (\<lambda>resolved.
           bindS (liftR (wrapR ''resolve durable tuple owner'' resolved)) (\<lambda>fence.
           bindS (rememberFence U (tr_Name req) fence) (\<lambda>_. durableAttempts maxDurableTupleAttempts D U req fence))) s))"

end
