(* ===== verification/Tuple_Distributed_Props.thy ===== *)
theory Tuple_Distributed_Props
  imports Tuple_Distributed
begin

text \<open>
  A request costs a bounded number of messages however the nodes are connected, and although several branches may carry it to its
  owner, the owner performs it once. The cache of fences keeps its bound and never goes back.
\<close>

subsection \<open>Work\<close>

lemma forwardTupleRequest_work: "length (fst (snd (forwardTupleRequest D self target visited budget req s))) \<le> nat budget"
  using relay_work(1) [of "tupleRelay D target req" self visited "nat budget" s]
  by (auto simp: forwardTupleRequest_def split: prod.splits)


subsection \<open>Replies\<close>

definition spoken :: "bytes result \<Rightarrow> bool" where "spoken r = (case r of Inl e \<Rightarrow> error_text e \<noteq> [] | Inr _ \<Rightarrow> True)"

lemma ErrTupleAuthority_text [simp]: "error_text (ErrTupleAuthority e w) \<noteq> []" by simp

lemma answer_ok: "decodeResponse (encodeResponse (Inr v)) = Inr v"
  by (simp add: decodeResponse_def encodeResponse_def)

lemma answer_error:
  assumes "error_text e \<noteq> []"
  shows "decodeResponse (encodeResponse (Inl e)) =
    Inl (if errors_Is e ErrTupleNotFound then ErrTupleNotFound else if errors_Is e ErrTupleCASConflict then ErrTupleCASConflict
         else case asAuthority e of Some f \<Rightarrow> ErrTupleAuthority (tf_Epoch f) (tf_Writer f) | None \<Rightarrow> ErrTupleApplication (error_text e))"
  using assms by (auto simp: decodeResponse_def encodeResponse_def Let_def split: option.split)

lemma answer_spoken: "spoken r \<Longrightarrow> spoken (decodeResponse (encodeResponse r)) \<and> (is_ok (decodeResponse (encodeResponse r)) \<longrightarrow> is_ok r)"
  by (cases r) (auto simp: spoken_def answer_ok answer_error is_ok_def split: option.split)

lemma notFound_spoken: "errors_Is e ErrTupleNotFound \<Longrightarrow> error_text e \<noteq> []"
  by (cases e) auto

subsection \<open>Operations at the owner\<close>

lemma applyLocal_failed: "applyLocal re req n = (Inl e, n') \<Longrightarrow> n' = n"
  by (auto simp: applyLocal_def Let_def TsReplace_def CompareAndSwapExact_def bindS_Inl op_inv fail_ifS_def failS_def
      dest!: TsPut_failed TsGet_failed split: if_splits)

lemma compile_spoken: "compileTupleMatcher re expr = Inl e \<Longrightarrow> error_text e \<noteq> []"
  by (auto simp: compileTupleMatcher_def fail_if_def Let_def split: if_splits option.splits)

lemma applyLocal_spoken: "nt_checker n = None \<Longrightarrow> applyLocal re req n = (r, n') \<Longrightarrow> spoken r"
  by (cases r)
    (auto simp: applyLocal_def Let_def spoken_def TsPut_def TsReplace_def TsRead_def TsGet_def CompareAndSwapExact_def CheckPermission_def bindS_Inl
      bindR_def op_inv fail_ifS_def failS_def liftR_def readS_def retS_def dest: compile_spoken split: if_splits option.splits sum.splits prod.splits)

lemma evict_small: "length memo \<le> maxTupleMemoEntries \<Longrightarrow> evictTupleMemo memo = memo"
  by (simp add: evictTupleMemo.simps)

lemma applyLocalOnce_memo:
  "tr_RequestID req \<noteq> [] \<Longrightarrow> map_of (dn_memo d) (tr_RequestID req) = Some e \<Longrightarrow> applyLocalOnce re req d = (Inr (me_value e), d)"
  by (simp add: applyLocalOnce_def)

lemma applyLocalOnce_first:
  assumes "tr_RequestID req \<noteq> []" "map_of (dn_memo d) (tr_RequestID req) = None" "length (dn_memo d) < maxTupleMemoEntries"
    and "applyLocal re req (dn_local d) = (r, n)"
  shows "applyLocalOnce re req d = (r, case r of Inl _ \<Rightarrow> d
    | Inr v \<Rightarrow> d\<lparr>dn_local := n, dn_memo := (tr_RequestID req, \<lparr>me_value = v, me_completed = dn_now d\<rparr>) # dn_memo d\<rparr>)"
  using assms applyLocal_failed [of re req "dn_local d" _ n]
  by (cases r) (auto simp: applyLocalOnce_def evict_small)

subsection \<open>A request is performed once\<close>

text \<open>Nodes without a durable store; the streams and the search for addresses change the network, not the nodes.\<close>

definition nodeSpace :: "regexp \<Rightarrow> ('n \<times> (string \<Rightarrow> dnode)) space_cfg \<Rightarrow> bool" where
  "nodeSpace re D \<longleftrightarrow>
     sc_apply D = (\<lambda>p req (net, nodes). case applyLocalOnce re req (nodes p) of (r, d) \<Rightarrow> (r, net, nodes(p := d)))
     \<and> (\<forall>p q s. snd (snd (sc_send D p q s)) = snd s \<and> snd (snd (sc_receive D p q s)) = snd s \<and> snd (snd (sc_ensureAddress D p s)) = snd s)"

text \<open>The nodes after the owner has performed the request, and the invariant of its way.\<close>

definition performed :: "regexp \<Rightarrow> string \<Rightarrow> tupleWireRequest \<Rightarrow> (string \<Rightarrow> dnode) \<Rightarrow> (string \<Rightarrow> dnode)" where
  "performed re owner req nodes = nodes(owner := snd (applyLocalOnce re req (nodes owner)))"

definition freshRequest :: "string \<Rightarrow> tupleWireRequest \<Rightarrow> (string \<Rightarrow> dnode) \<Rightarrow> bool" where
  "freshRequest owner req nodes \<longleftrightarrow> tr_RequestID req \<noteq> [] \<and> map_of (dn_memo (nodes owner)) (tr_RequestID req) = None
     \<and> length (dn_memo (nodes owner)) < maxTupleMemoEntries \<and> nt_checker (dn_local (nodes owner)) = None"

lemma apply_again:
  assumes D: "nodeSpace re D" and fresh: "freshRequest owner req nodes"
    and r0: "applyLocal re req (dn_local (nodes owner)) = (r0, n)"
    and st: "snd s = nodes \<or> is_ok r0 \<and> snd s = performed re owner req nodes"
    and ap: "sc_apply D owner req s = (r, t)"
  shows "r = r0 \<and> snd t = (if is_ok r0 then performed re owner req nodes else nodes)"
proof -
  have f: "tr_RequestID req \<noteq> []" "map_of (dn_memo (nodes owner)) (tr_RequestID req) = None" "length (dn_memo (nodes owner)) < maxTupleMemoEntries"
    using fresh by (simp_all add: freshRequest_def)
  note first = applyLocalOnce_first [OF f r0]
  obtain net where s: "s = (net, snd s)" by (cases s) simp
  have a: "sc_apply D owner req s = (case applyLocalOnce re req (snd s owner) of (r, d) \<Rightarrow> (r, net, (snd s)(owner := d)))"
    using D by (subst s) (simp add: nodeSpace_def)
  show ?thesis
  proof (cases "snd s = nodes")
    case True
    then show ?thesis using a ap first by (cases r0) (auto simp: performed_def is_ok_def)
  next
    case False
    with st obtain v where v: "r0 = Inr v" "snd s = performed re owner req nodes" by (auto simp: is_ok_def split: sum.splits)
    then have "map_of (dn_memo (snd s owner)) (tr_RequestID req) = Some \<lparr>me_value = v, me_completed = dn_now (nodes owner)\<rparr>"
      using first by (simp add: performed_def)
    from applyLocalOnce_memo [OF f(1) this] show ?thesis using a ap v by (auto simp: is_ok_def fun_upd_idem)
  qed
qed

lemma tupleRelay_safe:
  assumes D: "nodeSpace re D" and fresh: "freshRequest owner (wireRequest req) nodes"
    and r0: "applyLocal re (wireRequest req) (dn_local (nodes owner)) = (r0, n)"
  shows "relaySafe (tupleRelay D owner req)
    (\<lambda>s. snd s = nodes \<or> is_ok r0 \<and> snd s = performed re owner (wireRequest req) nodes)
    (\<lambda>s. is_ok r0 \<and> snd s = performed re owner (wireRequest req) nodes)
    (\<lambda>r. spoken r \<and> (\<forall>v. r = Inr v \<longrightarrow> r0 = Inr v)) is_ok"
proof -
  have keep: "snd t = snd s" if "sc_send D p q s = (e, t) \<or> sc_receive D p q s = (e, t)" for p q s e t
    using D that unfolding nodeSpace_def by (metis snd_conv)
  have sp: "spoken r0" using applyLocal_spoken [OF _ r0] fresh by (simp add: freshRequest_def)
  have ans: "spoken (decodeResponse (encodeResponse r)) \<and> (\<forall>v. decodeResponse (encodeResponse r) = Inr v \<longrightarrow> r = Inr v)" if "spoken r" for r
    using answer_spoken [OF that] by (cases r) (auto simp: answer_ok is_ok_def)
  have nf: "spoken (Inl e)" if "notFound (Inl e)" for e using that notFound_spoken by (simp add: notFound_def spoken_def)
  have dl: "(snd t = nodes \<or> is_ok r0 \<and> snd t = performed re owner (wireRequest req) nodes)
      \<and> (is_ok r0 \<and> snd s = performed re owner (wireRequest req) nodes \<longrightarrow> is_ok r0 \<and> snd t = performed re owner (wireRequest req) nodes)
      \<and> (spoken r \<and> (\<forall>v. r = Inr v \<longrightarrow> r0 = Inr v)) \<and> (is_ok r \<longrightarrow> is_ok r0 \<and> snd t = performed re owner (wireRequest req) nodes)"
    if "snd s = nodes \<or> is_ok r0 \<and> snd s = performed re owner (wireRequest req) nodes" "sc_apply D owner (wireRequest req) s = (r, t)" for s r t
    using apply_again [OF D fresh r0 that] sp by auto
  let ?Y = "tupleRelay D owner req"
  have fields: "rl_send ?Y = sc_send D" "rl_receive ?Y = sc_receive D" "rl_deliver ?Y = sc_apply D owner (wireRequest req)"
    "rl_answer ?Y = (\<lambda>r. decodeResponse (encodeResponse r))" "rl_failed ?Y = Inl" "rl_final ?Y = (\<lambda>r. is_ok r \<or> notFound r)"
    "\<exists>m. \<forall>rs. rl_noRoute ?Y rs = Inl (ErrWrap m noTupleOverlayRoute)"
    by (simp_all add: tupleRelay_def)
  have quiet: "\<not> is_ok (Inl e :: bytes result)" "spoken (Inl (ErrWrap m e))" for e m by (simp_all add: is_ok_def spoken_def)
  show ?thesis
  proof (rule relaySafeI, goal_cases)
    case (1 p q s e t)
    from keep 1(2) have "snd t = snd s" by (simp add: fields)
    with 1(1) show ?case by simp
  next
    case (2 s r t)
    from dl [OF 2(1)] 2(2) show ?case by (simp add: fields)
  next
    case (3 r)
    then show ?case using ans [of r] answer_spoken [of r] by (simp add: fields)
  next
    case (4 rs)
    then show ?case using fields(7) quiet by auto
  next
    case (5 e)
    then show ?case using quiet(1) nf by (simp add: fields)
  qed
qed

lemma requestPeerDirect_once:
  assumes D: "nodeSpace re D" and fresh: "freshRequest owner (wireRequest req) nodes"
    and r0: "applyLocal re (wireRequest req) (dn_local (nodes owner)) = (r0, n)"
    and st: "snd s = nodes \<or> is_ok r0 \<and> snd s = performed re owner (wireRequest req) nodes"
    and run: "requestPeerDirect D owner req s = (r, t)"
  shows "(snd t = nodes \<or> is_ok r0 \<and> snd t = performed re owner (wireRequest req) nodes)
    \<and> (\<forall>v. r = Inr v \<longrightarrow> r0 = Inr v \<and> snd t = performed re owner (wireRequest req) nodes)"
proof -
  have keep: "snd w = snd u" if "sc_send D p q u = (e, w) \<or> sc_receive D p q u = (e, w)" for p q u e w
    using D that unfolding nodeSpace_def by (metis snd_conv)
  obtain e u where u: "sc_send D (sc_self D) owner s = (e, u)" by (rule prod.exhaust)
  then have su: "snd u = snd s" using keep by blast
  show ?thesis
  proof (cases e)
    case (Inl x)
    then show ?thesis using run u su st by (auto simp: requestPeerDirect_def bindS_def)
  next
    case (Inr x)
    obtain q w where w: "sc_apply D owner (wireRequest req) u = (q, w)" by (rule prod.exhaust)
    have q: "q = r0" "snd w = (if is_ok r0 then performed re owner (wireRequest req) nodes else nodes)"
      using apply_again [OF D fresh r0 _ w] st su by auto
    obtain f z where z: "sc_receive D (sc_self D) owner w = (f, z)" by (rule prod.exhaust)
    then have sz: "snd z = snd w" using keep by blast
    have rt: "t = z" "\<forall>v. r = Inr v \<longrightarrow> decodeResponse (encodeResponse r0) = Inr v"
      using run u Inr w z q(1) by (auto simp: requestPeerDirect_def bindS_def liftR_def split: sum.splits)
    have "spoken r0" using applyLocal_spoken [OF _ r0] fresh by (simp add: freshRequest_def)
    then have "\<forall>v. r = Inr v \<longrightarrow> r0 = Inr v" using rt(2) answer_spoken [of r0] by (cases r0) (auto simp: answer_ok is_ok_def)
    then show ?thesis using rt(1) sz q(2) by (auto simp: is_ok_def)
  qed
qed


subsection \<open>Answers that the overlay loses\<close>

text \<open>C24. A failed request over the overlay ends with one of two errors, a missing tuple or a missing route: a conflict of a
  compare-and-swap or the fence of a newer owner that the target reported is not passed on, and the sender repeats the request on a direct stream.\<close>

theorem overlay_hides_errors:
  assumes "target \<noteq> self" "forwardTupleRequest D self target visited budget req s = (Inl e, log, t)"
  shows "e = ErrTupleNotFound \<or> errors_Is e noTupleOverlayRoute"
proof (cases "budget \<le> 0")
  case True
  then show ?thesis using assms by (auto simp: forwardTupleRequest_def noTupleOverlayRoute_def)
next
  case False
  obtain q l u where q: "relay (tupleRelay D target req) self visited (nat budget) s = (q, l, u)" by (metis prod_cases3)
  from relay_ends [OF q] have "is_ok q \<or> notFound q \<or> (\<exists>m. q = Inl (ErrWrap m noTupleOverlayRoute))"
    by (auto simp: tupleRelay_def)
  then show ?thesis using assms False q by (auto simp: forwardTupleRequest_def is_ok_def noTupleOverlayRoute_def split: if_splits)
qed

subsection \<open>The cache of fences\<close>

definition fencesOk :: "fence_cache \<Rightarrow> bool" where
  "fencesOk c \<longleftrightarrow> distinct (fc_order c) \<and> dom (fc_fences c) = set (fc_order c) \<and> length (fc_order c) \<le> maxTupleFenceEntries"

lemma cacheTupleFence_ok:
  assumes "fencesOk c"
  shows "fencesOk (cacheTupleFence name fence c)"
proof (cases "name = [] \<or> tf_Epoch fence = 0 \<or> tf_Writer fence = [] \<or> fc_fences c name \<noteq> None")
  case True
  then show ?thesis using assms by (auto simp: cacheTupleFence_def fencesOk_def split: option.splits)
next
  case False
  then have new: "name \<notin> set (fc_order c)" using assms by (auto simp: fencesOk_def domIff)
  show ?thesis
  proof (cases "length (fc_order c) < maxTupleFenceEntries")
    case True
    then show ?thesis using False assms new by (auto simp: cacheTupleFence_def fencesOk_def Let_def)
  next
    case False2: False
    then obtain x xs where "fc_order c = x # xs" using assms by (cases "fc_order c") (auto simp: maxTupleFenceEntries_def)
    then show ?thesis using False False2 assms new by (auto simp: cacheTupleFence_def fencesOk_def Let_def)
  qed
qed

subsection \<open>Concrete runs\<close>

text \<open>Three nodes in a line: a request of the first for the last goes through the one between them.\<close>

definition exOverlay :: overlay where
  "exOverlay = \<lparr>ov_String = (\<lambda>p. p), ov_Decode = Inr, ov_Peers = (\<lambda>p. if p = ''b'' then [''a'', ''c''] else [''b'']), ov_Connected = (\<lambda>_ _. True),
     ov_Closer = (\<lambda>_ _ _. False)\<rparr>"

definition exSpace :: "(unit \<times> (string \<Rightarrow> dnode)) space_cfg" where
  "exSpace = \<lparr>sc_overlay = exOverlay, sc_self = ''a'', sc_send = (\<lambda>_ _ s. (Inr (), s)), sc_receive = (\<lambda>_ _ s. (Inr (), s)),
     sc_apply = (\<lambda>p req (net, nodes). case applyLocalOnce (\<lambda>_. None) req (nodes p) of (r, d) \<Rightarrow> (r, net, nodes(p := d))),
     sc_ensureAddress = (\<lambda>_ s. (Inl (ErrMsg ''no address''), s)), sc_ResolveTupleOwner = (\<lambda>_ _. Inr ''c''), sc_newRequestID = (\<lambda>s. (''i'', s))\<rparr>"

definition exTupleNode :: "tuple list \<Rightarrow> dnode" where
  "exTupleNode ts = \<lparr>dn_now = 0, dn_local = \<lparr>nt_tuples = ts, nt_checker = None\<rparr>, dn_memo = []\<rparr>"

definition exRequest :: "string \<Rightarrow> tupleWireRequest" where
  "exRequest operation = (simpleRequest operation ''x'' None (Some ''v''))\<lparr>tr_RequestID := ''i''\<rparr>"

lemma exSpace_ok: "nodeSpace (\<lambda>_. None) exSpace"
  by (simp add: nodeSpace_def exSpace_def)

lemma ex_branches:
  "routeBranches exOverlay ''a'' ''c'' [''a''] 64 = [(''b'', 63)]" "routeBranches exOverlay ''b'' ''c'' [''a''] 63 = [(''c'', 62)]"
  by (simp_all add: routeBranches_def routeStartedHere_def appendVisitedPeer_def connectedRouteCandidates_def sortSlice_def splitBudget_def exOverlay_def
      maxTupleRouteBranches_def Let_def)

lemma ex_relay:
  assumes "sc_apply exSpace ''c'' (wireRequest req) s = (r, t)"
  shows "relay (tupleRelay exSpace ''c'' req) ''a'' [''a''] 64 s =
    (let q = decodeResponse (encodeResponse r); p = (if is_ok q \<or> notFound q then q else Inl (ErrWrap ''target c'' noTupleOverlayRoute));
         w = decodeResponse (encodeResponse p) in
     (if is_ok w \<or> notFound w then w else Inl (ErrWrap ''target c'' noTupleOverlayRoute), [''b'', ''c''], t))"
proof -
  let ?Y = "tupleRelay exSpace ''c'' req"
  have Y: "rl_overlay ?Y = exOverlay" "rl_target ?Y = ''c''" "rl_send ?Y p q u = (Inr (), u)" "rl_receive ?Y p q u = (Inr (), u)"
    "rl_deliver ?Y s = (r, t)" "rl_answer ?Y = (\<lambda>r. decodeResponse (encodeResponse r))" "rl_final ?Y = (\<lambda>r. is_ok r \<or> notFound r)"
    "rl_noRoute ?Y rs = Inl (ErrWrap ''target c'' noTupleOverlayRoute)" for p q u rs
    using assms by (simp_all add: tupleRelay_def exSpace_def exOverlay_def)
  have v: "appendVisitedPeer exOverlay [''a''] ''a'' = [''a'']" by (simp add: appendVisitedPeer_def exOverlay_def)
  have b: "relay ?Y ''b'' [''a''] 63 s = (if is_ok (decodeResponse (encodeResponse r)) \<or> notFound (decodeResponse (encodeResponse r))
      then decodeResponse (encodeResponse r) else Inl (ErrWrap ''target c'' noTupleOverlayRoute), [''c''], t)"
    by (simp add: relay.simps [of _ "''b''"] relayBranches.simps Y ex_branches readReply_def)
  show ?thesis by (simp add: relay.simps [of _ "''a''"] relayBranches.simps Y v ex_branches readReply_def b Let_def)
qed

lemma ex_put_at_owner:
  "sc_apply exSpace ''c'' (wireRequest (exRequest ''put'')) ((), \<lambda>_. exTupleNode []) =
     (Inr [], (), (\<lambda>_. exTupleNode [])(''c'' := (exTupleNode [(''x'', ''v'')])\<lparr>dn_memo := [(''i'', \<lparr>me_value = [], me_completed = 0\<rparr>)]\<rparr>))"
  by (simp add: exSpace_def applyLocalOnce_def applyLocal_def wireRequest_def omitEmpty_def exRequest_def simpleRequest_def exTupleNode_def TsPut_def CheckPermission_def
      bindS_def readS_def liftR_def retS_def fail_ifS_def evict_small maxTupleMemoEntries_def)

lemma ex_fresh: "freshRequest ''c'' (wireRequest (exRequest ''put'')) (\<lambda>_. exTupleNode [])"
  by (simp add: freshRequest_def wireRequest_def exRequest_def exTupleNode_def maxTupleMemoEntries_def)

lemma ex_request: "\<exists>t. requestPeer exSpace ''c'' (exRequest ''put'') ((), \<lambda>_. exTupleNode []) = (Inr [], t)"
proof -
  have "appendVisitedPeer exOverlay [] ''a'' = [''a'']" "sc_overlay exSpace = exOverlay" "sc_self exSpace = ''a''"
    by (simp_all add: appendVisitedPeer_def exOverlay_def exSpace_def)
  then show ?thesis using ex_relay [OF ex_put_at_owner]
    by (simp add: requestPeer_def forwardTupleRequest_def maxTupleRouteWork_def exRequest_def answer_ok is_ok_def notFound_def)
qed


text \<open>The name has a value, so the owner refuses the compare-and-swap; the sender is told that there is no route.\<close>

lemma ex_conflict:
  "sc_apply exSpace ''c'' (wireRequest (exRequest ''cas'')) ((), \<lambda>_. exTupleNode [(''x'', ''w'')]) = (Inl ErrTupleCASConflict, (), \<lambda>_. exTupleNode [(''x'', ''w'')])"
proof -
  have "\<not> isTuplePattern ''x''" by (simp add: isTuplePattern_def regexMeta_def)
  then show ?thesis
    by (simp add: exSpace_def applyLocalOnce_def applyLocal_def wireRequest_def omitEmpty_def exRequest_def simpleRequest_def exTupleNode_def CompareAndSwapExact_def
        bindS_def readS_def fail_ifS_def failS_def fun_upd_idem)
qed

theorem overlay_hides_errors_witness:
  "\<exists>e log t. sc_apply exSpace ''c'' (wireRequest (exRequest ''cas'')) ((), \<lambda>_. exTupleNode [(''x'', ''w'')]) = (Inl ErrTupleCASConflict, t)
     \<and> forwardTupleRequest exSpace ''a'' ''c'' [''a''] 64 (exRequest ''cas'') ((), \<lambda>_. exTupleNode [(''x'', ''w'')]) = (Inl e, log, t)
     \<and> errors_Is e noTupleOverlayRoute"
proof -
  have n: "\<not> errors_Is noTupleOverlayRoute ErrTupleNotFound" "\<not> errors_Is noTupleOverlayRoute ErrTupleCASConflict" "asAuthority noTupleOverlayRoute = None"
    by (simp_all add: noTupleOverlayRoute_def)
  have f: "forwardTupleRequest exSpace ''a'' ''c'' [''a''] 64 (exRequest ''cas'') ((), \<lambda>_. exTupleNode [(''x'', ''w'')])
      = (Inl (ErrWrap ''target c'' noTupleOverlayRoute), [''b'', ''c''], (), \<lambda>_. exTupleNode [(''x'', ''w'')])"
    using ex_relay [OF ex_conflict] n by (simp add: forwardTupleRequest_def answer_error is_ok_def notFound_def Let_def)
  from overlay_hides_errors [OF _ f] f ex_conflict show ?thesis by simp
qed


end
