(* ===== verification/Index_Authority.thy ===== *)
theory Index_Authority
  imports Tuple_Wait PHT_Tree
begin

text \<open>
  \<open>internal/tuplespace/index_authority.go\<close>: the leased writer of each shard of the search index. The
  value stores of the shards, JSON and the owner resolver are parameters. The mutex of a shard is held over each
  operation, so an operation is one function on the state; the cached record of a shard and the time
  it was validated are one entry of a list. Out-of-range shards are refused, as in the code.
\<close>

record indexAuthorityRecord =
  ir_Epoch :: u64
  ir_Writer :: string
  ir_Version :: u64
  ir_ValidAfter :: int
  ir_ExpiresAt :: int

definition recordFence :: "indexAuthorityRecord \<Rightarrow> WriteFence" where
  "recordFence r = \<lparr>wf_Epoch = ir_Epoch r, wf_Writer = ir_Writer r\<rparr>"

record 'n index_cfg = "'n authority_cfg" +
  ic_stores :: "'n valuestore list"
  ic_ownerKey :: string
  ic_Marshal :: "indexAuthorityRecord \<Rightarrow> bytes result"
  ic_Unmarshal :: "bytes \<Rightarrow> indexAuthorityRecord result"

record 'n index_auth = "'n clocked" +
  ia_states :: "(indexAuthorityRecord option \<times> int) list"
  ia_claims :: u64
  ia_transitions :: u64
  ia_renewals :: u64
  ia_rejections :: u64

definition indexAuthorityRecordKey :: string where
  "indexAuthorityRecordKey = ''/pht/__authority__''"

definition indexAuthorityRevalidation :: int where
  "indexAuthorityRevalidation = 5000000000"

definition index_setTiming :: "int \<Rightarrow> int \<Rightarrow> int \<Rightarrow> 'n index_cfg \<Rightarrow> 'n index_cfg" where
  "index_setTiming = setTimingWith 90000000000"

definition usableRecord :: "'n index_cfg \<Rightarrow> indexAuthorityRecord \<Rightarrow> int \<Rightarrow> bool" where
  "usableRecord M r now \<longleftrightarrow>
     ir_Epoch r > 0 \<and> ir_Writer r \<noteq> [] \<and> \<not> now < ir_ValidAfter r \<and> now < ir_ExpiresAt r - dc_margin M"

definition readAuthority :: "'n index_cfg \<Rightarrow> nat \<Rightarrow> ('n, 's) clocked_scheme \<Rightarrow> indexAuthorityRecord result" where
  "readAuthority M shard s =
     bindR (vs_GetValue (ic_stores M ! shard) (du_net s) indexAuthorityRecordKey) (\<lambda>data.
     bindR (wrapR ''decode authority record'' (ic_Unmarshal M data)) (\<lambda>r.
     fail_if (ir_Epoch r = 0 \<or> ir_Writer r = [] \<or> ir_ValidAfter r \<le> 0 \<or> ir_ExpiresAt r \<le> ir_ValidAfter r)
       (ErrMsg ''invalid authority record'') (Inr r)))"

definition writeAuthority ::
  "'n index_cfg \<Rightarrow> nat \<Rightarrow> indexAuthorityRecord \<Rightarrow> (('n, 's) clocked_scheme, unit) op" where
  "writeAuthority M shard r =
     bindS (liftR (ic_Marshal M r)) (\<lambda>data s.
     case vs_PutValue (ic_stores M ! shard) indexAuthorityRecordKey data (du_net s) of
       (q, n) \<Rightarrow> (q, s\<lparr>du_net := n\<rparr>))"

definition resolveCandidate :: "'n index_cfg \<Rightarrow> nat \<Rightarrow> string \<Rightarrow> string result" where
  "resolveCandidate M shard previousWriter =
     (let ownerOf = ic_ownerKey M @ '':'' @ dec shard in
      if previousWriter = [] then dc_ResolveTupleOwner M ownerOf
      else successorOf M ''authority resolver reselected failed writer '' ownerOf previousWriter)"

definition cachedRecord :: "nat \<Rightarrow> 'n index_auth \<Rightarrow> indexAuthorityRecord option" where
  "cachedRecord shard s = fst (ia_states s ! shard)"

definition cacheRecord :: "nat \<Rightarrow> indexAuthorityRecord option \<Rightarrow> int \<Rightarrow> ('n index_auth, unit) op" where
  "cacheRecord shard r now = modifyS (\<lambda>s. s\<lparr>ia_states := (ia_states s)[shard := (r, now)]\<rparr>)"

definition addClaim :: "('n index_auth, unit) op" where
  "addClaim = modifyS (\<lambda>s. s\<lparr>ia_claims := ia_claims s + 1\<rparr>)"

definition addTransition :: "bool \<Rightarrow> ('n index_auth, unit) op" where
  "addTransition c = modifyS (\<lambda>s. if c then s\<lparr>ia_transitions := ia_transitions s + 1\<rparr> else s)"

definition addRejection :: "('n index_auth, unit) op" where
  "addRejection = modifyS (\<lambda>s. s\<lparr>ia_rejections := ia_rejections s + 1\<rparr>)"

definition addRenewal :: "('n index_auth, unit) op" where
  "addRenewal = modifyS (\<lambda>s. s\<lparr>ia_renewals := ia_renewals s + 1\<rparr>)"

definition withShard :: "'n index_cfg \<Rightarrow> int \<Rightarrow> (nat \<Rightarrow> ('n index_auth, 'a) op) \<Rightarrow> ('n index_auth, 'a) op" where
  "withShard M shard k s =
     fail_ifS (shard < 0 \<or> shard \<ge> int (length (ia_states s))) (ErrMsg ''invalid authority shard'') (k (nat shard)) s"

subsection \<open>Resolving the writer\<close>

text \<open>The record a claim starts from: one that is usable now ends the call (\<open>Inl\<close>), otherwise the last record
  is waited out (\<open>Inr\<close>, with \<open>None\<close> when there is none).\<close>

definition awaitCurrent ::
  "'n index_cfg \<Rightarrow> nat \<Rightarrow> ('n index_auth, WriteFence + indexAuthorityRecord option) op" where
  "awaitCurrent M shard =
     readS (readAuthority M shard) (\<lambda>rd.
     case rd of
       Inl err \<Rightarrow> if isMissingAuthority err then retS (Inr None) else failS (ErrWrap ''read index authority'' err)
     | Inr current \<Rightarrow>
         readS du_now (\<lambda>now0.
         bindS (if ir_ValidAfter current > now0 \<and> now0 < ir_ExpiresAt current
                then waitUntilAuthority M (ir_ValidAfter current) else retS ()) (\<lambda>_.
         readS du_now (\<lambda>now.
         if usableRecord M current now
         then bindS (cacheRecord shard (Some current) now) (\<lambda>_. retS (Inl (recordFence current)))
         else bindS (if now < ir_ExpiresAt current then waitForAuthority M (ir_ExpiresAt current - now) else retS ())
                (\<lambda>_. retS (Inr (Some current)))))))"

definition authorityClaim ::
  "'n index_cfg \<Rightarrow> indexAuthorityRecord option \<Rightarrow> string \<Rightarrow> int \<Rightarrow> indexAuthorityRecord" where
  "authorityClaim M current owner now =
     (let notBefore = (case current of None \<Rightarrow> now + dc_settle M
                       | Some c \<Rightarrow> if ir_Epoch c > 0 then max (now + dc_settle M) (ir_ExpiresAt c) else now + dc_settle M);
          epoch = (case current of None \<Rightarrow> 1 | Some c \<Rightarrow> if ir_Epoch c > 0 then ir_Epoch c + 1 else 1) in
      \<lparr>ir_Epoch = epoch, ir_Writer = owner, ir_Version = 1,
       ir_ValidAfter = notBefore, ir_ExpiresAt = notBefore + dc_lease M\<rparr>)"

text \<open>The publication of a claim and the look at the winner. \<open>None\<close> is the \<open>continue\<close> of the loop.\<close>

definition confirmClaim ::
  "'n index_cfg \<Rightarrow> nat \<Rightarrow> indexAuthorityRecord \<Rightarrow> unit result \<Rightarrow> ('n index_auth, WriteFence option) op" where
  "confirmClaim M shard claim writeErr =
     readS (readAuthority M shard) (\<lambda>rd.
     case rd of
       Inl err \<Rightarrow>
         if isMissingAuthority err then retS None
         else failS (case writeErr of
                Inl w \<Rightarrow> ErrWrap (''publish index authority: '' @ error_text w @ ''; confirm winner'') err
              | Inr _ \<Rightarrow> ErrWrap ''confirm index authority'' err)
     | Inr winner \<Rightarrow>
         readS du_now (\<lambda>now.
         if usableRecord M winner now
         then bindS (addTransition (ir_Epoch winner = ir_Epoch claim \<and> ir_Writer winner = ir_Writer claim
                                    \<and> ir_Epoch winner > 1)) (\<lambda>_.
              bindS (cacheRecord shard (Some winner) now) (\<lambda>_. retS (Some (recordFence winner))))
         else retS None))"

definition publishClaim ::
  "'n index_cfg \<Rightarrow> nat \<Rightarrow> indexAuthorityRecord \<Rightarrow> ('n index_auth, WriteFence option) op" where
  "publishClaim M shard claim =
     bindS addClaim (\<lambda>_.
     tryS (writeAuthority M shard claim) (\<lambda>writeErr.
     bindS (waitUntilAuthority M (ir_ValidAfter claim)) (\<lambda>_.
     confirmClaim M shard claim writeErr)))"

primrec resolveAttempts :: "nat \<Rightarrow> 'n index_cfg \<Rightarrow> nat \<Rightarrow> ('n index_auth, WriteFence) op" where
  "resolveAttempts 0 M shard = failS (ErrMsg ''index authority did not converge'')"
| "resolveAttempts (Suc n) M shard =
     readS (\<lambda>s. case cachedRecord shard s of Some r \<Rightarrow> if usableRecord M r (du_now s) then Some r else None | None \<Rightarrow> None)
     (\<lambda>cached.
     case cached of
       Some r \<Rightarrow> retS (recordFence r)
     | None \<Rightarrow>
         bindS (awaitCurrent M shard) (\<lambda>base.
         case base of
           Inl fence \<Rightarrow> retS fence
         | Inr current \<Rightarrow>
             bindS (liftR (wrapR ''resolve authority candidate''
               (resolveCandidate M shard (case current of None \<Rightarrow> [] | Some c \<Rightarrow> ir_Writer c)))) (\<lambda>owner.
             readS du_now (\<lambda>now.
             bindS (publishClaim M shard (authorityClaim M current owner now)) (\<lambda>won.
             case won of Some fence \<Rightarrow> retS fence | None \<Rightarrow> resolveAttempts n M shard)))))"

definition resolveAuthority :: "'n index_cfg \<Rightarrow> int \<Rightarrow> ('n index_auth, WriteFence) op" where
  "resolveAuthority M shard = withShard M shard (resolveAttempts 4 M)"

subsection \<open>Failover\<close>

definition failoverRecord ::
  "'n index_cfg \<Rightarrow> nat \<Rightarrow> WriteFence \<Rightarrow> ('n index_auth, WriteFence + indexAuthorityRecord) op" where
  "failoverRecord M shard failed =
     readS (\<lambda>s. (cachedRecord shard s, du_now s)) (\<lambda>(cached, now0).
     if (case cached of Some r \<Rightarrow> CompareWriteFences (recordFence r) failed \<noteq> 0 \<and> usableRecord M r now0 | None \<Rightarrow> False)
     then retS (Inl (recordFence (the cached)))
     else
       readS (readAuthority M shard) (\<lambda>rd.
       bindS (liftR (wrapR ''read failed index authority'' rd)) (\<lambda>current0.
       bindS (if CompareWriteFences (recordFence current0) failed \<noteq> 0 \<and> now0 < ir_ValidAfter current0
                 \<and> now0 < ir_ExpiresAt current0
              then bindS (waitUntilAuthority M (ir_ValidAfter current0)) (\<lambda>_.
                   readS (readAuthority M shard) (\<lambda>rd'. liftR (wrapR ''confirm pending failover authority'' rd')))
              else retS current0) (\<lambda>current.
       readS du_now (\<lambda>now.
       if CompareWriteFences (recordFence current) failed \<noteq> 0 \<and> usableRecord M current now
       then bindS (cacheRecord shard (Some current) now) (\<lambda>_. retS (Inl (recordFence current)))
       else retS (Inr current))))))"

text \<open>The loop that waits for the winner: a pending one is waited for, and between attempts there is a
  growing pause. The last read is returned.\<close>

function winnerLoop ::
  "nat \<Rightarrow> 'n index_cfg \<Rightarrow> nat \<Rightarrow> indexAuthorityRecord result \<Rightarrow> ('n index_auth, indexAuthorityRecord result) op" where
  "winnerLoop attempt M shard prior =
     (if attempt \<ge> 4 then retS prior
      else
        readS (\<lambda>s. (readAuthority M shard s, du_now s)) (\<lambda>(rd, now).
        let pause = bindS (if attempt < 3 then waitForAuthority M (int (attempt + 1) * 50000000) else retS ())
                      (\<lambda>_. winnerLoop (attempt + 1) M shard rd) in
        case rd of
          Inl err \<Rightarrow> pause
        | Inr winner \<Rightarrow>
            if ir_ValidAfter winner > now \<and> now < ir_ExpiresAt winner
            then bindS (waitUntilAuthority M (ir_ValidAfter winner)) (\<lambda>_. pause)
            else if usableRecord M winner now then retS rd
            else pause))"
  by pat_completeness auto
termination
  by (relation "measure (\<lambda>(attempt, M, shard, prior). 4 - attempt)") auto

declare winnerLoop.simps [simp del]

definition confirmFailover ::
  "'n index_cfg \<Rightarrow> nat \<Rightarrow> indexAuthorityRecord \<Rightarrow> unit result \<Rightarrow> indexAuthorityRecord result \<Rightarrow>
   ('n index_auth, WriteFence) op" where
  "confirmFailover M shard current writeErr confirmed =
     (case confirmed of
        Inl err \<Rightarrow>
          failS (case writeErr of
             Inl w \<Rightarrow> ErrWrap (''publish failover authority: '' @ error_text w @ ''; confirm winner'') err
           | Inr _ \<Rightarrow> ErrWrap ''confirm failover authority'' err)
      | Inr winner \<Rightarrow>
          readS du_now (\<lambda>now.
          fail_ifS (\<not> usableRecord M winner now) (ErrMsg ''failover authority did not converge after retries'')
          (bindS (addTransition (ir_Epoch winner > ir_Epoch current)) (\<lambda>_.
           bindS (cacheRecord shard (Some winner) now) (\<lambda>_. retS (recordFence winner))))))"

definition failoverAuthority :: "'n index_cfg \<Rightarrow> int \<Rightarrow> WriteFence \<Rightarrow> ('n index_auth, WriteFence) op" where
  "failoverAuthority M shard0 failed =
     withShard M shard0 (\<lambda>shard.
     bindS (failoverRecord M shard failed) (\<lambda>base.
     case base of
       Inl fence \<Rightarrow> retS fence
     | Inr current \<Rightarrow>
         bindS (liftR (wrapR ''resolve failover authority candidate'' (resolveCandidate M shard (ir_Writer current)))) (\<lambda>owner.
         readS du_now (\<lambda>now.
         let notBefore = now + dc_settle M;
             claim = \<lparr>ir_Epoch = ir_Epoch current + 1, ir_Writer = owner, ir_Version = 1,
                      ir_ValidAfter = notBefore, ir_ExpiresAt = notBefore + dc_lease M\<rparr> in
         bindS addClaim (\<lambda>_.
         tryS (writeAuthority M shard claim) (\<lambda>writeErr.
         bindS (waitUntilAuthority M notBefore) (\<lambda>_.
         bindS (winnerLoop 0 M shard (Inl (ErrMsg []))) (\<lambda>confirmed.
         confirmFailover M shard current writeErr confirmed))))))))"

subsection \<open>Validation before a mutation\<close>

definition staleAuthority :: "go_error" where
  "staleAuthority = ErrMsg ''stale index mutation authority''"

definition revalidate :: "'n index_cfg \<Rightarrow> nat \<Rightarrow> WriteFence \<Rightarrow> ('n index_auth, unit) op" where
  "revalidate M shard fence =
     readS (\<lambda>s. (readAuthority M shard s, du_now s)) (\<lambda>(rd, now).
     bindS (liftR (wrapR ''validate index authority'' rd)) (\<lambda>current.
     bindS (cacheRecord shard (Some current) now) (\<lambda>_.
     if ir_Writer current \<noteq> dc_self M \<or> CompareWriteFences (recordFence current) fence \<noteq> 0 \<or> \<not> usableRecord M current now
     then bindS addRejection (\<lambda>_. failS (ErrWrap ''requested'' staleAuthority))
     else if ir_ExpiresAt current - now \<le> dc_lease M div 2 + dc_margin M
     then let renewed = current\<lparr>ir_Version := ir_Version current + 1, ir_ExpiresAt := now + dc_lease M\<rparr> in
       tryS (writeAuthority M shard renewed) (\<lambda>written.
       case written of
         Inl err \<Rightarrow> bindS (cacheRecord shard None 0) (\<lambda>_. bindS addRejection (\<lambda>_.
           failS (ErrWrap ''renew index authority'' staleAuthority)))
       | Inr _ \<Rightarrow> bindS addRenewal (\<lambda>_. cacheRecord shard (Some renewed) now))
     else retS ())))"

definition validateForApply :: "'n index_cfg \<Rightarrow> int \<Rightarrow> WriteFence \<Rightarrow> ('n index_auth, unit) op" where
  "validateForApply M shard0 fence =
     withShard M shard0 (\<lambda>shard.
     readS (\<lambda>s. (ia_states s ! shard, du_now s)) (\<lambda>((cached, validatedAt), now).
     if (case cached of
           None \<Rightarrow> False
         | Some r \<Rightarrow> ir_Writer r = dc_self M \<and> CompareWriteFences (recordFence r) fence = 0 \<and> usableRecord M r now
             \<and> now - validatedAt < indexAuthorityRevalidation
             \<and> ir_ExpiresAt r - now > dc_lease M div 2 + dc_margin M)
     then retS ()
     else revalidate M shard fence))"

definition invalidate :: "int \<Rightarrow> WriteFence \<Rightarrow> 'n index_auth \<Rightarrow> 'n index_auth" where
  "invalidate shard fence s =
     (if shard < 0 \<or> shard \<ge> int (length (ia_states s)) then s
      else case cachedRecord (nat shard) s of
        None \<Rightarrow> s
      | Some r \<Rightarrow>
          if CompareWriteFences (recordFence r) fence = 0
          then s\<lparr>ia_states := (ia_states s)[nat shard := (None, 0)]\<rparr> else s)"

end
