(* ===== verification/Index_Authority_Props.thy ===== *)
theory Index_Authority_Props
  imports Index_Authority
begin

text \<open>
  What the index authority promises its callers: a fence it returns belongs to a record that is in force,
  and a mutation is let through only for this node's own lease with half of it left.
\<close>

abbreviation has_shard :: "nat \<Rightarrow> 'n index_auth \<Rightarrow> bool" where
  "has_shard shard s \<equiv> shard < length (ia_states s)"

text \<open>The fence of the record that is cached for the shard, which is usable now.\<close>

definition granted :: "'n index_cfg \<Rightarrow> nat \<Rightarrow> WriteFence \<Rightarrow> 'n index_auth \<Rightarrow> bool" where
  "granted M shard fence s \<longleftrightarrow>
     (case cachedRecord shard s of None \<Rightarrow> False | Some r \<Rightarrow> recordFence r = fence \<and> usableRecord M r (du_now s))"

lemma CompareWriteFences_eq: "CompareWriteFences a b = 0 \<longleftrightarrow> a = b"
  by (auto simp: CompareWriteFences_def)

lemma cacheRecord_inv [op_inv]:
  "cacheRecord shard r now s = (q, t) \<longleftrightarrow> q = Inr () \<and> t = s\<lparr>ia_states := (ia_states s)[shard := (r, now)]\<rparr>"
  by (auto simp: cacheRecord_def modifyS_def)

lemma keeps_cacheRecord: "keeps (has_shard shard) (cacheRecord shard' r now)"
  by (auto simp: keeps_def op_inv)

lemma keeps_counters:
  "keeps (has_shard shard) addClaim" "keeps (has_shard shard) (addTransition c)"
  "keeps (has_shard shard) addRejection" "keeps (has_shard shard) addRenewal"
  by (auto simp: addClaim_def addTransition_def addRejection_def addRenewal_def intro!: keeps_modifyS)

lemma keeps_writeAuthority: "keeps (has_shard shard) (writeAuthority M shard' r)"
  unfolding writeAuthority_def by (intro pres_intro) (auto simp: keeps_def split: prod.splits)

lemma writeAuthority_same:
  "writeAuthority M shard r s = (q, t) \<Longrightarrow> ia_states t = ia_states s \<and> du_now t = du_now s"
  by (cases "ic_Marshal M r") (auto simp: writeAuthority_def bindS_def liftR_def split: prod.splits)

lemma keeps_waits:
  "keeps (has_shard shard) (waitForAuthority M wait)" "keeps (has_shard shard) (waitUntilAuthority M deadline)"
  by (rule keeps_waitForAuthority keeps_waitUntilAuthority; simp)+

lemmas keeps_shard = keeps_cacheRecord keeps_counters keeps_writeAuthority keeps_waits

lemma keeps_awaitCurrent: "keeps (has_shard shard) (awaitCurrent M shard')"
  unfolding awaitCurrent_def by (intro pres_intro keeps_shard)

lemma keeps_publishClaim: "keeps (has_shard shard) (publishClaim M shard' claim)"
  unfolding publishClaim_def confirmClaim_def by (intro pres_intro keeps_shard)

lemma granted_cache:
  "has_shard shard s \<Longrightarrow> usableRecord M r (du_now s) \<Longrightarrow>
   granted M shard (recordFence r) (s\<lparr>ia_states := (ia_states s)[shard := (Some r, now)]\<rparr>)"
  by (simp add: granted_def cachedRecord_def)

lemma awaitCurrent_granted:
  assumes "awaitCurrent M shard s = (Inr (Inl f), t)" "has_shard shard s"
  shows "granted M shard f t"
  using assms
  by (auto simp: awaitCurrent_def op_inv split: sum.splits if_splits
      intro!: granted_cache elim: keepsD [OF keeps_waits(2), of _ _ _ _ _ "shard"])

lemma addTransition_inv [op_inv]:
  "addTransition c s = (q, t) \<longleftrightarrow> q = Inr () \<and> t = (if c then s\<lparr>ia_transitions := ia_transitions s + 1\<rparr> else s)"
  by (auto simp: addTransition_def modifyS_def)

lemma granted_winner:
  assumes "bindS (addTransition c) (\<lambda>_. bindS (cacheRecord shard (Some winner) (du_now s)) (\<lambda>_. retS x)) s = (Inr y, t)"
    and "usableRecord M winner (du_now s)" "has_shard shard s"
  shows "y = x \<and> granted M shard (recordFence winner) t"
  using assms granted_cache [of shard "s\<lparr>ia_transitions := ia_transitions s + 1\<rparr>" M winner]
    granted_cache [of shard s M winner]
  by (auto simp: op_inv split: if_splits)

lemma publishClaim_granted:
  assumes "publishClaim M shard claim s = (Inr (Some f), t)" "has_shard shard s"
  shows "granted M shard f t"
proof -
  from assms(1) obtain s1 w s2 s3 where a: "addClaim s = (Inr (), s1)" "writeAuthority M shard claim s1 = (w, s2)"
      "waitUntilAuthority M (ir_ValidAfter claim) s2 = (Inr (), s3)"
    and rest: "confirmClaim M shard claim w s3 = (Inr (Some f), t)"
    by (auto simp: publishClaim_def op_inv)
  have s3: "has_shard shard s3"
    using assms(2) a keepsD [OF keeps_counters(1)] keepsD [OF keeps_writeAuthority] keepsD [OF keeps_waits(2)] by metis
  show ?thesis
  proof (cases "readAuthority M shard s3")
    case (Inl err)
    with rest show ?thesis by (auto simp: confirmClaim_def op_inv split: if_splits)
  next
    case (Inr winner)
    with rest s3 granted_winner show ?thesis
      unfolding confirmClaim_def by (fastforce simp: readS_inv retS_inv split: if_splits)
  qed
qed

lemma resolveAttempts_granted:
  "resolveAttempts n M shard s = (Inr f, t) \<Longrightarrow> has_shard shard s \<Longrightarrow> granted M shard f t"
proof (induction n arbitrary: s)
  case (Suc n)
  let ?cached = "case cachedRecord shard s of Some r \<Rightarrow> if usableRecord M r (du_now s) then Some r else None | None \<Rightarrow> None"
  show ?case
  proof (cases ?cached)
    case (Some r)
    with Suc.prems(1) show ?thesis by (auto simp: op_inv granted_def split: option.splits if_splits)
  next
    case None
    from Suc.prems(1) obtain base u where base: "awaitCurrent M shard s = (Inr base, u)"
      and rest: "(case base of Inl fence \<Rightarrow> retS fence
         | Inr current \<Rightarrow>
             bindS (liftR (wrapR ''resolve authority candidate''
               (resolveCandidate M shard (case current of None \<Rightarrow> [] | Some c \<Rightarrow> ir_Writer c)))) (\<lambda>owner.
             readS du_now (\<lambda>now.
             bindS (publishClaim M shard (authorityClaim M current owner now)) (\<lambda>won.
             case won of Some fence \<Rightarrow> retS fence | None \<Rightarrow> resolveAttempts n M shard)))) u = (Inr f, t)"
      by (simp add: None readS_def) (auto simp: bindS_Inr)
    have u: "has_shard shard u" by (rule keepsD [OF keeps_awaitCurrent base Suc.prems(2)])
    show ?thesis
    proof (cases base)
      case (Inl g)
      with base rest awaitCurrent_granted [of M shard s g u] Suc.prems(2) show ?thesis by (auto simp: op_inv)
    next
      case (Inr current)
      with rest obtain claim won w where pub: "publishClaim M shard claim u = (Inr won, w)"
        and more: "(case won of Some fence \<Rightarrow> retS fence | None \<Rightarrow> resolveAttempts n M shard) w = (Inr f, t)"
        by (auto simp: op_inv)
      have "has_shard shard w" by (rule keepsD [OF keeps_publishClaim pub u])
      with more pub u publishClaim_granted [of M shard claim u f w] show ?thesis
        by (cases won) (auto simp: op_inv intro: Suc.IH)
    qed
  qed
qed (simp add: op_inv)

lemma keeps_failoverRecord: "keeps (has_shard shard) (failoverRecord M shard' failed)"
  unfolding failoverRecord_def by (intro pres_intro keeps_shard)

lemma failoverRecord_granted:
  assumes "failoverRecord M shard failed s = (Inr (Inl f), t)" "has_shard shard s"
  shows "granted M shard f t \<and> f \<noteq> failed"
  using assms
  by (auto simp: failoverRecord_def op_inv CompareWriteFences_eq split: if_splits
      intro!: granted_cache elim: keepsD [OF keeps_waits(2)])
    (auto simp: granted_def CompareWriteFences_eq split: option.splits)

lemma keeps_winnerLoop: "keeps (has_shard shard) (winnerLoop attempt M shard' prior)"
proof (induction "4 - attempt" arbitrary: attempt prior)
  case 0
  then show ?case by (subst winnerLoop.simps) (simp add: pres_intro)
next
  case (Suc n)
  then have rec: "keeps (has_shard shard) (winnerLoop (attempt + 1) M shard' rd)" for rd by simp
  show ?case
    unfolding winnerLoop.simps [of attempt] Let_def by (intro pres_intro keeps_shard rec)
qed

lemma confirmFailover_granted:
  assumes "confirmFailover M shard current w confirmed s = (Inr f, t)" "has_shard shard s"
  shows "granted M shard f t"
proof (cases confirmed)
  case (Inl err)
  with assms show ?thesis by (simp add: confirmFailover_def op_inv)
next
  case (Inr winner)
  with assms granted_winner show ?thesis
    unfolding confirmFailover_def by (fastforce simp: readS_inv fail_ifS_Inr)
qed

lemma withShard_Inr:
  "withShard M shard k s = (Inr x, t) \<longleftrightarrow>
   0 \<le> shard \<and> has_shard (nat shard) s \<and> k (nat shard) s = (Inr x, t)"
  by (auto simp: withShard_def op_inv)

lemma failoverAuthority_granted:
  assumes "failoverAuthority M shard0 failed s = (Inr f, t)"
  shows "granted M (nat shard0) f t"
proof -
  let ?shard = "nat shard0"
  from assms obtain base u where ok: "has_shard ?shard s" and base: "failoverRecord M ?shard failed s = (Inr base, u)"
    by (auto simp: failoverAuthority_def withShard_Inr bindS_Inr)
  have u: "has_shard ?shard u" by (rule keepsD [OF keeps_failoverRecord base ok])
  show ?thesis
  proof (cases base)
    case (Inl g)
    with base assms ok failoverRecord_granted [of M ?shard failed s g u] show ?thesis
      by (auto simp: failoverAuthority_def withShard_Inr op_inv)
  next
    case (Inr current)
    with base assms obtain claim s1 w s2 n s3 q s4 where "addClaim u = (Inr (), s1)" "writeAuthority M ?shard claim s1 = (w, s2)"
        "waitUntilAuthority M n s2 = (Inr (), s3)" "winnerLoop 0 M ?shard (Inl (ErrMsg [])) s3 = (Inr q, s4)"
      and fin: "confirmFailover M ?shard current w q s4 = (Inr f, t)"
      by (auto simp: failoverAuthority_def withShard_Inr op_inv Let_def)
    with u keepsD [OF keeps_counters(1)] keepsD [OF keeps_writeAuthority] keepsD [OF keeps_waits(2)] keepsD [OF keeps_winnerLoop]
    have "has_shard ?shard s4" by metis
    with fin confirmFailover_granted show ?thesis by blast
  qed
qed

text \<open>A fence returned by \<open>resolve\<close> or \<open>failover\<close> of the index authority is the fence of a record that is
  cached for the shard and in force at that moment: it has a writer and a nonzero epoch, its settle time is over, and it ends
  later than the safety margin from now.\<close>
theorem authority_in_force:
  assumes "resolveAuthority M shard s = (Inr f, t) \<or> failoverAuthority M shard failed s = (Inr f, t)"
  shows "\<exists>r. cachedRecord (nat shard) t = Some r \<and> recordFence r = f \<and> wf_Epoch f > 0 \<and> wf_Writer f \<noteq> []
    \<and> ir_ValidAfter r \<le> du_now t \<and> du_now t < ir_ExpiresAt r - dc_margin M"
proof -
  have "granted M (nat shard) f t"
    using assms failoverAuthority_granted resolveAttempts_granted
    by (auto simp: resolveAuthority_def withShard_Inr)
  then show ?thesis by (auto simp: granted_def usableRecord_def recordFence_def split: option.splits)
qed

text \<open>A term that \<open>resolve\<close> claims starts no earlier than the settle time from now and no earlier than the end
  of the term it read, which is over when the claim is made, and has the next epoch: terms of one shard that
  are claimed one from the other do not overlap.\<close>
theorem claims_follow_terms:
  assumes "awaitCurrent M shard s = (Inr (Inr (Some c)), t)" "ir_Epoch c + 1 \<noteq> 0"
  shows "ir_ExpiresAt c \<le> du_now t
    \<and> ir_ExpiresAt c \<le> ir_ValidAfter (authorityClaim M (Some c) owner (du_now t))
    \<and> du_now t + dc_settle M \<le> ir_ValidAfter (authorityClaim M (Some c) owner (du_now t))
    \<and> ir_Epoch c < ir_Epoch (authorityClaim M (Some c) owner (du_now t))"
proof -
  from assms(1) have "ir_ExpiresAt c \<le> du_now t"
    by (auto simp: awaitCurrent_def op_inv split: sum.splits if_splits dest!: waitForAuthority_time)
  moreover from assms(1) have "ir_Epoch c > 0"
    by (auto simp: awaitCurrent_def op_inv readAuthority_def result_inv word_gt_0 split: sum.splits if_splits)
  moreover have "ir_Epoch c < ir_Epoch c + 1"
    using assms(2) by (simp add: word_less_nat_alt add.commute unatSuc)
  ultimately show ?thesis by (simp add: authorityClaim_def Let_def)
qed

text \<open>C25. A mutation of the index is let through only under this node's own fence, in force, with more than half of the
  lease and the margin left, and on a record that was read from or written to the store within the last five seconds.\<close>
theorem validateForApply_sound:
  assumes "validateForApply M shard fence s = (Inr (), t)" "2 * dc_margin M < dc_lease M" "0 \<le> dc_margin M"
  shows "\<exists>r. cachedRecord (nat shard) t = Some r \<and> recordFence r = fence \<and> wf_Writer fence = dc_self M
    \<and> usableRecord M r (du_now t) \<and> dc_lease M div 2 + dc_margin M < ir_ExpiresAt r - du_now t
    \<and> du_now t - snd (ia_states t ! nat shard) < 5000000000"
proof -
  from assms(1) have ok: "has_shard (nat shard) s" by (auto simp: validateForApply_def withShard_Inr)
  obtain cached at where entry: "ia_states s ! nat shard = (cached, at)" by fastforce
  have lease: "dc_lease M div 2 + dc_margin M < dc_lease M" using assms(2,3) by linarith
  show ?thesis
  proof (cases "\<exists>r. cached = Some r \<and> ir_Writer r = dc_self M \<and> CompareWriteFences (recordFence r) fence = 0
             \<and> usableRecord M r (du_now s) \<and> du_now s - at < indexAuthorityRevalidation
             \<and> ir_ExpiresAt r - du_now s > dc_lease M div 2 + dc_margin M")
    case True
    with assms(1) entry show ?thesis
      by (auto simp: validateForApply_def withShard_Inr op_inv cachedRecord_def CompareWriteFences_eq
          indexAuthorityRevalidation_def recordFence_def split: option.splits if_splits)
  next
    case False
    with assms(1) entry have "revalidate M (nat shard) fence s = (Inr (), t)"
      by (auto simp: validateForApply_def withShard_Inr op_inv split: option.splits if_splits)
    with ok lease assms(2,3) show ?thesis
      by (auto simp: revalidate_def op_inv Let_def CompareWriteFences_eq cachedRecord_def usableRecord_def
          addRenewal_def recordFence_def split: sum.splits if_splits dest!: writeAuthority_same)
  qed
qed

end
