(* ===== verification/Index_Authority_Witness.thy ===== *)
theory Index_Authority_Witness
  imports Index_Authority_Props Tuple_Durable_Witness
begin

text \<open>
  A small instance of the index authority: two peers, one shard, a network that is one map and a codec for a
  table of records.
\<close>

definition exTerm :: indexAuthorityRecord where
  "exTerm = \<lparr>ir_Epoch = 1, ir_Writer = ''n1'', ir_Version = 1, ir_ValidAfter = 2000001000, ir_ExpiresAt = 92000001000\<rparr>"

definition exM :: "(string \<times> bytes) list index_cfg" where
  "exM = \<lparr>dc_self = ''n1'', dc_settle = 2000000000, dc_lease = 90000000000, dc_margin = 2000000000,
     dc_ResolveTupleOwner = (\<lambda>_. Inr ''n1''), dc_ResolveTupleOwnerAfter = Some (\<lambda>_ _. Inr ''n2''),
     dc_others = (\<lambda>_ n. n), dc_done = (\<lambda>_. False),
     ic_stores = [mapStore], ic_ownerKey = ''index'', ic_Marshal = tableMarshal [exTerm], ic_Unmarshal = tableUnmarshal [exTerm]\<rparr>"

definition exIndex :: "int \<Rightarrow> (string \<times> bytes) list \<Rightarrow> (string \<times> bytes) list index_auth" where
  "exIndex now net = \<lparr>du_now = now, du_net = net, ia_states = [(None, 0)],
     ia_claims = 0, ia_transitions = 0, ia_renewals = 0, ia_rejections = 0\<rparr>"

definition exTermNet :: "(string \<times> bytes) list" where
  "exTermNet = [(indexAuthorityRecordKey, [char_of (0::nat)])]"

theorem authority_in_force_witness:
  "fst (resolveAuthority exM 0 (exIndex 1000 [])) = Inr \<lparr>wf_Epoch = 1, wf_Writer = ''n1''\<rparr> \<and>
   (\<exists>r. cachedRecord 0 (snd (resolveAuthority exM 0 (exIndex 1000 []))) = Some r
     \<and> du_now (snd (resolveAuthority exM 0 (exIndex 1000 []))) < ir_ExpiresAt r - dc_margin exM)"
proof -
  have f: "fst (resolveAuthority exM 0 (exIndex 1000 [])) = Inr \<lparr>wf_Epoch = 1, wf_Writer = ''n1''\<rparr>" by code_simp
  then have "resolveAuthority exM 0 (exIndex 1000 [])
      = (Inr \<lparr>wf_Epoch = 1, wf_Writer = ''n1''\<rparr>, snd (resolveAuthority exM 0 (exIndex 1000 [])))"
    by (metis prod.collapse)
  from authority_in_force [OF disjI1 [OF this]] f show ?thesis by auto
qed

theorem claims_follow_terms_witness:
  "\<exists>t. awaitCurrent exM 0 (exIndex 90000001000 exTermNet) = (Inr (Inr (Some exTerm)), t)
    \<and> ir_ExpiresAt exTerm \<le> du_now t \<and> ir_ExpiresAt exTerm \<le> ir_ValidAfter (authorityClaim exM (Some exTerm) ''n2'' (du_now t))"
proof -
  have "fst (awaitCurrent exM 0 (exIndex 90000001000 exTermNet)) = Inr (Inr (Some exTerm))" by code_simp
  then have run: "awaitCurrent exM 0 (exIndex 90000001000 exTermNet)
      = (Inr (Inr (Some exTerm)), snd (awaitCurrent exM 0 (exIndex 90000001000 exTermNet)))"
    by (metis prod.collapse)
  moreover have "ir_Epoch exTerm + 1 \<noteq> 0" by code_simp
  ultimately show ?thesis using claims_follow_terms by blast
qed

theorem validateForApply_sound_witness:
  "\<exists>t r. validateForApply exM 0 \<lparr>wf_Epoch = 1, wf_Writer = ''n1''\<rparr> (exIndex 3000000000 exTermNet) = (Inr (), t)
    \<and> cachedRecord 0 t = Some r \<and> usableRecord exM r (du_now t)"
proof -
  let ?run = "validateForApply exM 0 \<lparr>wf_Epoch = 1, wf_Writer = ''n1''\<rparr> (exIndex 3000000000 exTermNet)"
  have "fst ?run = Inr ()" by code_simp
  then have run: "?run = (Inr (), snd ?run)" by (metis prod.collapse)
  have "2 * dc_margin exM < dc_lease exM" "0 \<le> dc_margin exM" by code_simp+
  from validateForApply_sound [OF run this] run show ?thesis by auto
qed

end
