(* ===== verification/Net_Replay.thy ===== *)
theory Net_Replay
  imports Go_Strings
begin

text \<open>
  \<open>internal/net/replay.go\<close>: the caches of nonces and of message hashes that were seen from each peer, and the
  window for timestamps. The two caches have the same code for different keys and are
  two instances of one definition here. Each operation holds the lock of its cache; the time is an argument, in nanoseconds.
\<close>

definition Minute :: int where "Minute = 60000000000"

definition DefaultNonceExpungeAfter :: int where "DefaultNonceExpungeAfter = 3 * Minute"
definition MinNonceExpungeAfter :: int where "MinNonceExpungeAfter = Minute"
definition MaxNonceExpungeAfter :: int where "MaxNonceExpungeAfter = 5 * Minute"
definition DefaultTimestampWindow :: int where "DefaultTimestampWindow = 5 * Minute"
definition DefaultTimestampFutureAllow :: int where "DefaultTimestampFutureAllow = Minute"

record 'k seen_cache =
  sc_byPeer :: "string \<Rightarrow> ('k set \<times> int) option"
  sc_expungeAfter :: int

type_synonym NonceCache = "u64 seen_cache"
type_synonym MessageHashCache = "string seen_cache"

definition newCache :: "'k seen_cache" where
  "newCache = \<lparr>sc_byPeer = (\<lambda>_. None), sc_expungeAfter = DefaultNonceExpungeAfter\<rparr>"

definition NewNonceCache :: NonceCache where "NewNonceCache = newCache"
definition NewMessageHashCache :: MessageHashCache where "NewMessageHashCache = newCache"

definition clampExpungeAfter :: "int \<Rightarrow> 'k seen_cache \<Rightarrow> 'k seen_cache" where
  "clampExpungeAfter d c =
     c\<lparr>sc_expungeAfter := (let d1 = (if d < MinNonceExpungeAfter then MinNonceExpungeAfter else d) in
        if d1 > MaxNonceExpungeAfter then MaxNonceExpungeAfter else d1)\<rparr>"

definition NonceExpungeAfter :: "int \<Rightarrow> NonceCache \<Rightarrow> NonceCache" where
  "NonceExpungeAfter = clampExpungeAfter"

definition MessageHashExpungeAfter :: "int \<Rightarrow> MessageHashCache \<Rightarrow> MessageHashCache" where
  "MessageHashExpungeAfter = clampExpungeAfter"

definition entryOf :: "string \<Rightarrow> 'k seen_cache \<Rightarrow> 'k set \<times> int" where
  "entryOf pid c = (case sc_byPeer c pid of None \<Rightarrow> ({}, 0) | Some e \<Rightarrow> e)"

definition recordKey :: "go_error \<Rightarrow> int \<Rightarrow> string \<Rightarrow> 'k \<Rightarrow> ('k seen_cache, unit) op" where
  "recordKey seenErr now pid k c =
     (let (ks, updated) = entryOf pid c in
      if k \<in> ks then (Inl seenErr, c\<lparr>sc_byPeer := (sc_byPeer c)(pid \<mapsto> (ks, updated))\<rparr>)
      else (Inr (), c\<lparr>sc_byPeer := (sc_byPeer c)(pid \<mapsto> (insert k ks, now))\<rparr>))"

definition RecordNonce :: "int \<Rightarrow> string \<Rightarrow> u64 \<Rightarrow> (NonceCache, unit) op" where
  "RecordNonce = recordKey ErrReusedNonce"

definition RecordHash :: "int \<Rightarrow> string \<Rightarrow> bytes \<Rightarrow> (MessageHashCache, unit) op" where
  "RecordHash now pid hash = recordKey ErrDuplicateMessageHash now pid (hex_EncodeToString hash)"

definition Nonce_Add :: "int \<Rightarrow> string \<Rightarrow> u64 \<Rightarrow> NonceCache \<Rightarrow> NonceCache" where
  "Nonce_Add now pid nonce c =
     c\<lparr>sc_byPeer := (sc_byPeer c)(pid \<mapsto> (insert nonce (fst (entryOf pid c)), now))\<rparr>"

definition Nonce_Seen :: "string \<Rightarrow> u64 \<Rightarrow> NonceCache \<Rightarrow> bool" where
  "Nonce_Seen pid nonce c \<longleftrightarrow> nonce \<in> fst (entryOf pid c)"

definition SeenHash :: "string \<Rightarrow> bytes \<Rightarrow> MessageHashCache \<Rightarrow> bool" where
  "SeenHash pid hash c \<longleftrightarrow> hex_EncodeToString hash \<in> fst (entryOf pid c)"

definition expungeSeen :: "int \<Rightarrow> 'k seen_cache \<Rightarrow> 'k seen_cache" where
  "expungeSeen now c =
     c\<lparr>sc_byPeer := (\<lambda>pid. case sc_byPeer c pid of
         None \<Rightarrow> None
       | Some (ks, updated) \<Rightarrow> if updated < now - sc_expungeAfter c then None else Some (ks, updated))\<rparr>"

definition Nonce_expunge :: "int \<Rightarrow> NonceCache \<Rightarrow> NonceCache" where
  "Nonce_expunge = expungeSeen"

definition Hash_expunge :: "int \<Rightarrow> MessageHashCache \<Rightarrow> MessageHashCache" where
  "Hash_expunge = expungeSeen"

record TimestampChecker =
  tc_Window :: int
  tc_FutureAllow :: int

definition NewTimestampChecker :: TimestampChecker where
  "NewTimestampChecker = \<lparr>tc_Window = DefaultTimestampWindow, tc_FutureAllow = DefaultTimestampFutureAllow\<rparr>"

definition TimestampWindow :: "int \<Rightarrow> TimestampChecker \<Rightarrow> TimestampChecker" where
  "TimestampWindow d c = (if d > 0 then c\<lparr>tc_Window := d\<rparr> else c)"

definition TimestampFutureAllow :: "int \<Rightarrow> TimestampChecker \<Rightarrow> TimestampChecker" where
  "TimestampFutureAllow d c = (if d \<ge> 0 then c\<lparr>tc_FutureAllow := d\<rparr> else c)"

definition RejectExpired :: "TimestampChecker \<Rightarrow> int \<Rightarrow> int \<Rightarrow> unit result" where
  "RejectExpired c now t =
     fail_if (t < now - tc_Window c \<or> t > now + tc_FutureAllow c) ErrExpiredTimestamp (Inr ())"

definition RejectExpiredUnix :: "TimestampChecker \<Rightarrow> int \<Rightarrow> int \<Rightarrow> unit result" where
  "RejectExpiredUnix c now ts = RejectExpired c now (ts * 1000000000)"

subsection \<open>What the caches remember\<close>

text \<open>A key that was recorded at a time is remembered until the cache may forget it.\<close>

definition remembers :: "'k seen_cache \<Rightarrow> string \<Rightarrow> 'k \<Rightarrow> int \<Rightarrow> bool" where
  "remembers c pid k at \<longleftrightarrow> (\<exists>ks updated. sc_byPeer c pid = Some (ks, updated) \<and> k \<in> ks \<and> at \<le> updated)"

lemma remembers_rejects: "remembers c pid k at \<Longrightarrow> fst (recordKey e now pid k c) = Inl e"
  by (auto simp: remembers_def recordKey_def entryOf_def)

lemma recordKey_remembers:
  assumes "recordKey e now pid k c = (Inr (), c')"
  shows "remembers c' pid k now"
  using assms by (auto simp: recordKey_def remembers_def Let_def split: prod.splits if_splits)

lemma recordKey_keeps_memory:
  assumes "remembers c pid k at" "recordKey e now pid' k' c = (r, c')" "at \<le> now"
  shows "remembers c' pid k at"
  using assms by (auto simp: recordKey_def remembers_def entryOf_def Let_def split: if_splits option.splits prod.splits)

lemma recordKey_expungeAfter: "recordKey e now pid k c = (r, c') \<Longrightarrow> sc_expungeAfter c' = sc_expungeAfter c"
  by (auto simp: recordKey_def Let_def split: prod.splits if_splits)

lemma expunge_keeps_memory:
  "remembers c pid k at \<Longrightarrow> now \<le> at + sc_expungeAfter c \<Longrightarrow> remembers (expungeSeen now c) pid k at"
  by (auto simp: remembers_def expungeSeen_def)

lemma expunge_expungeAfter [simp]: "sc_expungeAfter (expungeSeen now c) = sc_expungeAfter c"
  by (simp add: expungeSeen_def)

end
