(* ===== verification/Net_Protection.thy ===== *)
theory Net_Protection
  imports Go_Errors
begin

text \<open>
  \<open>internal/net/protection.go\<close>: the limits on peers per subnet and autonomous system, the bucketed address store, the
  token bucket of each peer, the caps on its streams, its misbehaviour score and the ban list. Multiaddresses and their
  IP components are those of a library and of \<open>net.ParseIP\<close>: an address comes with the IP that
  is found in it (\<open>ip_of\<close>, 16 bytes). The resolver of autonomous systems, the random index of an eviction and the clock
  are arguments. Go maps that are only looked up are functions; every operation holds its component's lock.
\<close>

subsection \<open>Subnets\<close>

definition v4Prefix :: bytes where
  "v4Prefix = replicate 10 (CHR 0x00) @ [CHR 0xFF, CHR 0xFF]"

definition To4 :: "bytes \<Rightarrow> bytes option" where
  "To4 ip = (if length ip = 4 then Some ip
             else if length ip = 16 \<and> take 12 ip = v4Prefix then Some (drop 12 ip) else None)"

definition To16 :: "bytes \<Rightarrow> bytes option" where
  "To16 ip = (if length ip = 4 then Some (v4Prefix @ ip) else if length ip = 16 then Some ip else None)"

definition IsLoopback :: "bytes \<Rightarrow> bool" where
  "IsLoopback ip \<longleftrightarrow>
     (case To4 ip of Some ip4 \<Rightarrow> ip4 ! 0 = CHR 0x7F | None \<Rightarrow> ip = replicate 15 (CHR 0x00) @ [CHR 0x01])"

definition subnetKey :: "bytes \<Rightarrow> string" where
  "subnetKey ip0 =
     (case To16 ip0 of
        None \<Rightarrow> []
      | Some ip \<Rightarrow>
          (case To4 ip of
             Some ip4 \<Rightarrow> dec (of_char (ip4 ! 0)) @ ''.'' @ dec (of_char (ip4 ! 1)) @ ''.'' @ dec (of_char (ip4 ! 2)) @ ''.0/24''
           | None \<Rightarrow> hex_EncodeToString (take 6 ip) @ ''/48''))"

definition extractIPs :: "('a \<Rightarrow> bytes option) \<Rightarrow> 'a list \<Rightarrow> bytes list" where
  "extractIPs ip_of addrs = rev (remdups (rev (List.map_filter ip_of addrs)))"

definition primaryIP :: "bytes list \<Rightarrow> bytes option" where
  "primaryIP ips =
     (case List.find (\<lambda>ip. \<not> IsLoopback ip) ips of
        Some ip \<Rightarrow> Some ip
      | None \<Rightarrow> (case ips of [] \<Rightarrow> None | ip # _ \<Rightarrow> Some ip))"

text \<open>The address that counts, with its subnet; \<open>None\<close> where the callers return early.\<close>

definition subnetOf :: "('a \<Rightarrow> bytes option) \<Rightarrow> 'a list \<Rightarrow> (bytes \<times> string) option" where
  "subnetOf ip_of addrs =
     (case primaryIP (extractIPs ip_of addrs) of
        None \<Rightarrow> None
      | Some ip \<Rightarrow> if subnetKey ip = [] then None else Some (ip, subnetKey ip))"

subsection \<open>The eclipse limiter\<close>

record EclipseLimiter =
  el_byPeer :: "(string \<times> string \<times> u32) list"
  el_bySubnet :: "string \<Rightarrow> nat"
  el_byASN :: "u32 \<Rightarrow> nat"
  el_maxPerSubnet :: nat
  el_maxPerASN :: nat

definition NewEclipseLimiter :: EclipseLimiter where
  "NewEclipseLimiter = \<lparr>el_byPeer = [], el_bySubnet = (\<lambda>_. 0), el_byASN = (\<lambda>_. 0), el_maxPerSubnet = 5, el_maxPerASN = 20\<rparr>"

definition MaxPeersPerSubnet :: "int \<Rightarrow> EclipseLimiter \<Rightarrow> EclipseLimiter" where
  "MaxPeersPerSubnet n e = (if n > 0 then e\<lparr>el_maxPerSubnet := nat n\<rparr> else e)"

definition MaxPeersPerASN :: "int \<Rightarrow> EclipseLimiter \<Rightarrow> EclipseLimiter" where
  "MaxPeersPerASN n e = (if n > 0 then e\<lparr>el_maxPerASN := nat n\<rparr> else e)"

text \<open>\<open>resolve\<close> is the resolver when there is one; \<open>None\<close> of a resolver is a failed lookup.\<close>

type_synonym asn_resolver = "(bytes \<Rightarrow> u32 option) option"

definition resolveASN :: "asn_resolver \<Rightarrow> bytes \<Rightarrow> u32 option" where
  "resolveASN resolve ip = (case resolve of None \<Rightarrow> None | Some f \<Rightarrow> f ip)"

definition Eclipse_CanAllow ::
  "('a \<Rightarrow> bytes option) \<Rightarrow> asn_resolver \<Rightarrow> string \<Rightarrow> 'a list \<Rightarrow> EclipseLimiter \<Rightarrow> bool" where
  "Eclipse_CanAllow ip_of resolve pid addrs e =
     (case subnetOf ip_of addrs of
        None \<Rightarrow> True
      | Some (ip, subnet) \<Rightarrow>
          (case map_of (el_byPeer e) pid of
             Some (subnet0, asn0) \<Rightarrow> if subnet0 = subnet then
               el_bySubnet e subnet \<le> el_maxPerSubnet e
               \<and> (resolveASN resolve ip = Some asn0 \<longrightarrow> el_byASN e asn0 \<le> el_maxPerASN e)
               else el_bySubnet e subnet < el_maxPerSubnet e
               \<and> (\<forall>asn \<in> set_option (resolveASN resolve ip). el_byASN e asn < el_maxPerASN e)
           | None \<Rightarrow> el_bySubnet e subnet < el_maxPerSubnet e
               \<and> (\<forall>asn \<in> set_option (resolveASN resolve ip). el_byASN e asn < el_maxPerASN e)))"

definition Eclipse_Register ::
  "('a \<Rightarrow> bytes option) \<Rightarrow> asn_resolver \<Rightarrow> string \<Rightarrow> 'a list \<Rightarrow> EclipseLimiter \<Rightarrow> EclipseLimiter" where
  "Eclipse_Register ip_of resolve pid addrs e =
     (case subnetOf ip_of addrs of
        None \<Rightarrow> e
      | Some (ip, subnet) \<Rightarrow>
          if map_of (el_byPeer e) pid \<noteq> None then e
          else let asn = (case resolveASN resolve ip of None \<Rightarrow> 0 | Some a \<Rightarrow> a) in
            e\<lparr>el_byPeer := (pid, subnet, asn) # el_byPeer e,
              el_bySubnet := (el_bySubnet e)(subnet := el_bySubnet e subnet + 1),
              el_byASN := (if asn \<noteq> 0 then (el_byASN e)(asn := el_byASN e asn + 1) else el_byASN e)\<rparr>)"

definition Eclipse_Unregister :: "string \<Rightarrow> EclipseLimiter \<Rightarrow> EclipseLimiter" where
  "Eclipse_Unregister pid e =
     (case map_of (el_byPeer e) pid of
        None \<Rightarrow> e
      | Some (subnet, asn) \<Rightarrow>
          e\<lparr>el_byPeer := filter (\<lambda>x. fst x \<noteq> pid) (el_byPeer e),
            el_bySubnet := (el_bySubnet e)(subnet := (if el_bySubnet e subnet > 1 then el_bySubnet e subnet - 1 else 0)),
            el_byASN := (if asn \<noteq> 0
              then (el_byASN e)(asn := (if el_byASN e asn > 1 then el_byASN e asn - 1 else 0)) else el_byASN e)\<rparr>)"

subsection \<open>The bucketed address store\<close>

record 'a AddressBucketStore =
  ab_buckets :: "string \<Rightarrow> (string \<times> 'a list) list"
  ab_byPeer :: "string \<Rightarrow> string option"
  ab_maxPerBucket :: nat

definition NewAddressBucketStore :: "'a AddressBucketStore" where
  "NewAddressBucketStore = \<lparr>ab_buckets = (\<lambda>_. []), ab_byPeer = (\<lambda>_. None), ab_maxPerBucket = 64\<rparr>"

definition BucketSize :: "int \<Rightarrow> 'a AddressBucketStore \<Rightarrow> 'a AddressBucketStore" where
  "BucketSize n s = (if n > 0 then s\<lparr>ab_maxPerBucket := nat n\<rparr> else s)"

text \<open>\<open>ents[i] = ents[len-1]; ents[:len-1]\<close>\<close>

definition removeSwap :: "nat \<Rightarrow> 'a list \<Rightarrow> 'a list" where
  "removeSwap i xs = butlast (xs[i := last xs])"

fun setFirst :: "string \<Rightarrow> 'a list \<Rightarrow> (string \<times> 'a list) list \<Rightarrow> (string \<times> 'a list) list" where
  "setFirst pid addrs [] = []"
| "setFirst pid addrs (e # es) = (if fst e = pid then (pid, addrs) # es else e # setFirst pid addrs es)"

definition inBucket :: "string \<Rightarrow> 'a AddressBucketStore \<Rightarrow> bool" where
  "inBucket pid s \<longleftrightarrow> (case ab_byPeer s pid of None \<Rightarrow> False | Some b \<Rightarrow> pid \<in> fst ` set (ab_buckets s b))"

text \<open>\<open>rnd\<close> is \<open>randInt\<close>, \<open>None\<close> when the random source fails. A peer that is known has its addresses replaced
  in its old bucket; a full bucket loses a random entry.\<close>

definition Bucket_Add ::
  "('a \<Rightarrow> bytes option) \<Rightarrow> (nat \<Rightarrow> nat option) \<Rightarrow> string \<Rightarrow> 'a list \<Rightarrow> 'a AddressBucketStore \<Rightarrow>
   (string option \<times> bool) \<times> 'a AddressBucketStore" where
  "Bucket_Add ip_of rnd pid addrs s =
     (case subnetOf ip_of addrs of
        None \<Rightarrow> ((None, False), s)
      | Some (ip, bucket) \<Rightarrow>
          if inBucket pid s
          then let b = the (ab_byPeer s pid) in
            ((None, True), s\<lparr>ab_buckets := (ab_buckets s)(b := setFirst pid addrs (ab_buckets s b))\<rparr>)
          else let ents = ab_buckets s bucket in
            if length ents \<ge> ab_maxPerBucket s
            then (case rnd (length ents) of
               None \<Rightarrow> ((None, False), s)
             | Some idx \<Rightarrow>
                 let ev = fst (ents ! idx) in
                 ((Some ev, True),
                  s\<lparr>ab_buckets := (ab_buckets s)(bucket := removeSwap idx ents @ [(pid, addrs)]),
                    ab_byPeer := ((ab_byPeer s)(ev := None))(pid \<mapsto> bucket)\<rparr>))
            else ((None, True),
                  s\<lparr>ab_buckets := (ab_buckets s)(bucket := ents @ [(pid, addrs)]),
                    ab_byPeer := (ab_byPeer s)(pid \<mapsto> bucket)\<rparr>))"

definition removeFirstSwap :: "string \<Rightarrow> (string \<times> 'a list) list \<Rightarrow> (string \<times> 'a list) list" where
  "removeFirstSwap pid ents =
     (case List.find (\<lambda>i. fst (ents ! i) = pid) [0..<length ents] of
        None \<Rightarrow> ents | Some i \<Rightarrow> removeSwap i ents)"

definition Bucket_Remove :: "string \<Rightarrow> 'a AddressBucketStore \<Rightarrow> 'a AddressBucketStore" where
  "Bucket_Remove pid s =
     (case ab_byPeer s pid of
        None \<Rightarrow> s
      | Some bucket \<Rightarrow>
          s\<lparr>ab_byPeer := (ab_byPeer s)(pid := None),
            ab_buckets := (ab_buckets s)(bucket := removeFirstSwap pid (ab_buckets s bucket))\<rparr>)"

definition Bucket_Get :: "string \<Rightarrow> 'a AddressBucketStore \<Rightarrow> 'a list option" where
  "Bucket_Get pid s =
     (case ab_byPeer s pid of None \<Rightarrow> None | Some bucket \<Rightarrow> map_of (ab_buckets s bucket) pid)"

subsection \<open>Rate limits\<close>

record PeerRateLimiter =
  rl_byPeer :: "string \<Rightarrow> (int \<times> int) option"
  rl_burst :: int
  rl_window :: int

definition NewPeerRateLimiter :: PeerRateLimiter where
  "NewPeerRateLimiter = \<lparr>rl_byPeer = (\<lambda>_. None), rl_burst = 100, rl_window = 1000000000\<rparr>"

definition RateLimitBurst :: "int \<Rightarrow> PeerRateLimiter \<Rightarrow> PeerRateLimiter" where
  "RateLimitBurst n r = (if n > 0 then r\<lparr>rl_burst := n\<rparr> else r)"

definition RateLimitWindow :: "int \<Rightarrow> PeerRateLimiter \<Rightarrow> PeerRateLimiter" where
  "RateLimitWindow d r = (if d > 0 then r\<lparr>rl_window := d\<rparr> else r)"

text \<open>Go's division truncates; a clock that runs backwards gives no refill either way.\<close>

definition refill :: "PeerRateLimiter \<Rightarrow> int \<Rightarrow> int \<times> int \<Rightarrow> int \<times> int" where
  "refill r now st =
     (let (tokens, lastRefill) = st;
          elapsed = now - lastRefill;
          refills = (if elapsed < 0 then - (- elapsed div rl_window r) else elapsed div rl_window r) in
      if refills > 0 then (if tokens + refills > rl_burst r then rl_burst r else tokens + refills, now)
      else (tokens, lastRefill))"

definition RateLimiter_Allow :: "int \<Rightarrow> string \<Rightarrow> PeerRateLimiter \<Rightarrow> bool \<times> PeerRateLimiter" where
  "RateLimiter_Allow now pid r =
     (case rl_byPeer r pid of
        None \<Rightarrow> (True, r\<lparr>rl_byPeer := (rl_byPeer r)(pid \<mapsto> (rl_burst r - 1, now))\<rparr>)
      | Some st \<Rightarrow>
          let (tokens, lastRefill) = refill r now st in
          if tokens \<le> 0 then (False, r\<lparr>rl_byPeer := (rl_byPeer r)(pid \<mapsto> (tokens, lastRefill))\<rparr>)
          else (True, r\<lparr>rl_byPeer := (rl_byPeer r)(pid \<mapsto> (tokens - 1, lastRefill))\<rparr>))"

subsection \<open>Stream caps\<close>

record PeerResourceCap =
  pc_byPeer :: "string \<Rightarrow> int"
  pc_cap :: int

definition NewPeerResourceCap :: PeerResourceCap where
  "NewPeerResourceCap = \<lparr>pc_byPeer = (\<lambda>_. 0), pc_cap = 50\<rparr>"

definition Cap_Increment :: "string \<Rightarrow> PeerResourceCap \<Rightarrow> bool \<times> PeerResourceCap" where
  "Cap_Increment pid c =
     (if pc_byPeer c pid \<ge> pc_cap c then (False, c)
      else (True, c\<lparr>pc_byPeer := (pc_byPeer c)(pid := pc_byPeer c pid + 1)\<rparr>))"

definition Cap_Decrement :: "string \<Rightarrow> PeerResourceCap \<Rightarrow> PeerResourceCap" where
  "Cap_Decrement pid c =
     c\<lparr>pc_byPeer := (pc_byPeer c)(pid := (if pc_byPeer c pid \<le> 1 then 0 else pc_byPeer c pid - 1))\<rparr>"

definition Cap_Usage :: "string \<Rightarrow> PeerResourceCap \<Rightarrow> int" where
  "Cap_Usage pid c = pc_byPeer c pid"

subsection \<open>Misbehaviour and bans\<close>

record PeerMisbehaviorScorer =
  ms_byPeer :: "string \<Rightarrow> int"
  ms_threshold :: int
  ms_decayScore :: int
  ms_decayEvery :: int
  ms_lastDecay :: int

definition NewPeerMisbehaviorScorer :: "int \<Rightarrow> PeerMisbehaviorScorer" where
  "NewPeerMisbehaviorScorer now = \<lparr>ms_byPeer = (\<lambda>_. 0), ms_threshold = 100, ms_decayScore = - 1,
     ms_decayEvery = 60000000000, ms_lastDecay = now\<rparr>"

definition Misbehavior_decay :: "int \<Rightarrow> PeerMisbehaviorScorer \<Rightarrow> PeerMisbehaviorScorer" where
  "Misbehavior_decay now m =
     (if now - ms_lastDecay m < ms_decayEvery m then m
      else m\<lparr>ms_lastDecay := now,
             ms_byPeer := (\<lambda>pid. let s = ms_byPeer m pid + ms_decayScore m in
               if ms_byPeer m pid = 0 then 0 else if s \<le> 0 then 0 else s)\<rparr>)"

definition AddMisbehavior :: "int \<Rightarrow> string \<Rightarrow> int \<Rightarrow> PeerMisbehaviorScorer \<Rightarrow> PeerMisbehaviorScorer" where
  "AddMisbehavior now pid points m =
     (if points \<le> 0 then m
      else let m1 = Misbehavior_decay now m in m1\<lparr>ms_byPeer := (ms_byPeer m1)(pid := ms_byPeer m1 pid + points)\<rparr>)"

definition ShouldDisconnect :: "string \<Rightarrow> PeerMisbehaviorScorer \<Rightarrow> bool" where
  "ShouldDisconnect pid m \<longleftrightarrow> ms_byPeer m pid \<ge> ms_threshold m"

record BanList =
  bl_byPeer :: "string \<Rightarrow> int option"
  bl_dur :: int

definition NewBanList :: BanList where
  "NewBanList = \<lparr>bl_byPeer = (\<lambda>_. None), bl_dur = 24 * 60 * 60000000000\<rparr>"

definition Ban :: "int \<Rightarrow> string \<Rightarrow> BanList \<Rightarrow> BanList" where
  "Ban now pid b = b\<lparr>bl_byPeer := (bl_byPeer b)(pid \<mapsto> now + bl_dur b)\<rparr>"

definition Unban :: "string \<Rightarrow> BanList \<Rightarrow> BanList" where
  "Unban pid b = b\<lparr>bl_byPeer := (bl_byPeer b)(pid := None)\<rparr>"

definition IsBanned :: "int \<Rightarrow> string \<Rightarrow> BanList \<Rightarrow> bool \<times> BanList" where
  "IsBanned now pid b =
     (case bl_byPeer b pid of
        None \<Rightarrow> (False, b)
      | Some until \<Rightarrow> if now > until then (False, Unban pid b) else (True, b))"

end
