(* ===== verification/Net_Handshake.thy ===== *)
theory Net_Handshake
  imports Net_Replay Net_Protection Go_Binary
begin

unbundle bit_operations_syntax

text \<open>
  \<open>internal/net/handshake.go\<close> and \<open>handshake_gate.go\<close>: the version/verack exchange between two peers and the gate that
  keeps streams of unverified peers out. JSON, SHA-256, base64, Ed25519, the keys of the peerstore, multiaddresses and
  the stream are parameters: a stream is what it answers to the four steps of an exchange. A handshake takes no time in the model, so
  its deadline does not occur; the pauses between the gate's attempts and its log line are left out.
\<close>

record VersionMsg =
  vm_Nonce :: u64
  vm_Services :: u64
  vm_Agent :: string
  vm_StartHeight :: int
  vm_Timestamp :: int
  vm_StateHeadCID :: string
  vm_StateHeight :: int
  vm_AuthScheme :: string
  vm_AuthProof :: string
  vm_WantPeerlist :: bool
  vm_ListenAddrs :: "string list"
  vm_Peers :: "string list"
  vm_ChallengeResponse :: string

record HandshakeLocal =
  hl_Agent :: string
  hl_Services :: u64
  hl_StartHeight :: int
  hl_WantPeerlist :: bool
  hl_ListenAddrs :: "string list"
  hl_StateHeadCID :: string
  hl_StateHeight :: int

record HandshakePolicy =
  hp_MinAgentVersion :: string
  hp_ServicesAllow :: u64
  hp_Timeout :: int
  hp_RequireCredential :: bool
  hp_AuthScheme :: string
  hp_CAPubKeys :: "bytes list"
  hp_Token :: string
  hp_TimestampChecker :: "TimestampChecker option"

record AttackMitigation =
  am_BanList :: BanList
  am_Eclipse :: EclipseLimiter
  am_RateLimiter :: PeerRateLimiter
  am_Misbehavior :: PeerMisbehaviorScorer
  am_ResourceCap :: "PeerResourceCap option"

text \<open>The policy's caches and mitigation components, which the handshakes of all streams share, and the clock.\<close>

record hs_state =
  hs_now :: int
  hs_NonceCache :: "NonceCache option"
  hs_MessageHashCache :: "MessageHashCache option"
  hs_AttackMitigation :: "AttackMitigation option"

record 'a hs_env =
  he_Marshal :: "VersionMsg \<Rightarrow> bytes result"
  he_Sum256 :: "bytes \<Rightarrow> bytes"
  he_b64Encode :: "bytes \<Rightarrow> string"
  he_b64Decode :: "string \<Rightarrow> bytes result"
  he_Ed25519Verify :: "bytes \<Rightarrow> bytes \<Rightarrow> bytes \<Rightarrow> bool"
  he_PrivKeySign :: "(bytes \<Rightarrow> bytes result) option"
  he_PubKeyVerify :: "string \<Rightarrow> (bytes \<Rightarrow> bytes \<Rightarrow> bool result) option"
  he_AddrInfo :: "string \<Rightarrow> string option"
  he_Addrs :: "string \<Rightarrow> 'a list"
  he_ip_of :: "'a \<Rightarrow> bytes option"
  he_ResolveASN :: asn_resolver
  he_provider :: "(nat \<Rightarrow> string list) option"

record stream =
  st_recvVersion :: "VersionMsg result"
  st_sendVersion :: "VersionMsg \<Rightarrow> unit result"
  st_recvVerack :: "unit result"
  st_sendVerack :: "unit result"

definition EnableAntiReplay :: "HandshakePolicy \<Rightarrow> hs_state \<Rightarrow> HandshakePolicy \<times> hs_state" where
  "EnableAntiReplay P s =
     (P\<lparr>hp_TimestampChecker := Some NewTimestampChecker\<rparr>,
      s\<lparr>hs_NonceCache := Some NewNonceCache, hs_MessageHashCache := Some NewMessageHashCache\<rparr>)"

definition EnableAttackMitigation :: "hs_state \<Rightarrow> hs_state" where
  "EnableAttackMitigation s =
     s\<lparr>hs_AttackMitigation := Some \<lparr>am_BanList = NewBanList, am_Eclipse = NewEclipseLimiter, am_RateLimiter = NewPeerRateLimiter,
        am_Misbehavior = NewPeerMisbehaviorScorer (hs_now s), am_ResourceCap = Some NewPeerResourceCap\<rparr>\<rparr>"

subsection \<open>Versions\<close>

definition policyTimeout :: "HandshakePolicy \<Rightarrow> int" where
  "policyTimeout p = (if hp_Timeout p > 0 then hp_Timeout p else 5000000000)"

definition tailSemver :: "string \<Rightarrow> string" where
  "tailSemver s =
     (let tail = rev (takeWhile (\<lambda>c. c \<noteq> CHR ''/'') (rev s)) in
      if CHR ''/'' \<in> set s \<and> tail \<noteq> [] then tail else s)"

text \<open>\<open>strings.SplitN\<close>, and \<open>strconv.Atoi\<close> with its error ignored: 0 for a text that is not a number, the nearest limit for
  one out of range.\<close>

fun SplitN :: "nat \<Rightarrow> char \<Rightarrow> string \<Rightarrow> string list" where
  "SplitN n c s =
     (if n \<le> 1 \<or> c \<notin> set s then [s]
      else takeWhile (\<lambda>x. x \<noteq> c) s # SplitN (n - 1) c (tl (dropWhile (\<lambda>x. x \<noteq> c) s)))"

declare SplitN.simps [simp del]

definition isDigit :: "char \<Rightarrow> bool" where
  "isDigit c \<longleftrightarrow> 48 \<le> byte c \<and> byte c \<le> 57"

definition digitsValue :: "string \<Rightarrow> int" where
  "digitsValue ds = foldl (\<lambda>v c. v * 10 + int (byte c - 48)) 0 ds"

definition AtoiOrZero :: "string \<Rightarrow> int" where
  "AtoiOrZero s =
     (let neg = (s \<noteq> [] \<and> hd s = CHR ''-'');
          ds = (if s \<noteq> [] \<and> (hd s = CHR ''-'' \<or> hd s = CHR ''+'') then tl s else s) in
      if ds = [] \<or> (\<exists>c\<in>set ds. \<not> isDigit c) then 0
      else if neg then max (- (2 ^ 63)) (- digitsValue ds) else min (2 ^ 63 - 1) (digitsValue ds))"

definition parse3 :: "string \<Rightarrow> int \<times> int \<times> int" where
  "parse3 s =
     (let parts = SplitN 3 CHR ''.'' s;
          at = (\<lambda>i. if i < length parts then AtoiOrZero (parts ! i) else 0) in
      (at 0, at 1, at 2))"

definition semverGTE :: "string \<Rightarrow> string \<Rightarrow> bool" where
  "semverGTE a b =
     (let (a0, a1, a2) = parse3 a; (b0, b1, b2) = parse3 b in
      if a0 \<noteq> b0 then a0 > b0 else if a1 \<noteq> b1 then a1 > b1 else a2 \<ge> b2)"

definition agentOK :: "string \<Rightarrow> string \<Rightarrow> bool" where
  "agentOK agent min_agent = semverGTE (tailSemver agent) (tailSemver min_agent)"

definition validateVersion :: "VersionMsg \<Rightarrow> HandshakePolicy \<Rightarrow> unit result" where
  "validateVersion v P =
     fail_if (hp_ServicesAllow P \<noteq> 0 \<and> vm_Services v AND NOT (hp_ServicesAllow P) \<noteq> 0) (ErrMsg ''services not allowed'')
     (fail_if (hp_MinAgentVersion P \<noteq> [] \<and> \<not> agentOK (vm_Agent v) (hp_MinAgentVersion P))
        (ErrMsg (''agent too old: '' @ vm_Agent v @ '' < '' @ hp_MinAgentVersion P))
     (fail_if (hp_RequireCredential P \<and> (vm_AuthScheme v = [] \<or> vm_AuthScheme v \<noteq> hp_AuthScheme P))
        (ErrMsg ''auth scheme missing or unsupported'')
     (fail_if (hp_RequireCredential P \<and> vm_AuthProof v = []) (ErrMsg ''auth token missing'')
     (Inr ()))))"

subsection \<open>Credentials and challenges\<close>

definition verifyToken :: "'a hs_env \<Rightarrow> bytes \<Rightarrow> string \<Rightarrow> string \<Rightarrow> bool" where
  "verifyToken E caPub pid proof =
     (case he_b64Decode E proof of Inl _ \<Rightarrow> False | Inr sig \<Rightarrow> he_Ed25519Verify E caPub pid sig)"

definition verifyTokenAny :: "'a hs_env \<Rightarrow> bytes list \<Rightarrow> string \<Rightarrow> string \<Rightarrow> bool" where
  "verifyTokenAny E caPubs pid proof \<longleftrightarrow> list_ex (\<lambda>k. verifyToken E k pid proof) caPubs"

definition nonceBytes :: "u64 \<Rightarrow> bytes" where
  "nonceBytes n = BE_PutUint64 n"

definition signChallenge :: "'a hs_env \<Rightarrow> u64 \<Rightarrow> bytes result" where
  "signChallenge E nonce =
     (case he_PrivKeySign E of
        None \<Rightarrow> Inl (ErrMsg ''no private key in peerstore'') | Some sign \<Rightarrow> sign (nonceBytes nonce))"

definition verifyChallengeResponse :: "'a hs_env \<Rightarrow> string \<Rightarrow> u64 \<Rightarrow> string \<Rightarrow> unit result" where
  "verifyChallengeResponse E remote nonce proofB64 =
     (case he_PubKeyVerify E remote of
        None \<Rightarrow> Inl (ErrMsg ''no public key for remote in peerstore'')
      | Some verify \<Rightarrow>
          bindR (wrapR ''invalid challenge response encoding'' (he_b64Decode E proofB64)) (\<lambda>sig.
          fail_if (verify (nonceBytes nonce) sig \<noteq> Inr True) (ErrMsg ''challenge-response verification failed'') (Inr ())))"

definition parsePeerlist :: "'a hs_env \<Rightarrow> string list \<Rightarrow> string list" where
  "parsePeerlist E peers = List.map_filter (he_AddrInfo E) peers"

subsection \<open>Anti-replay\<close>

definition onNonceCache :: "(NonceCache \<Rightarrow> unit result \<times> NonceCache) \<Rightarrow> (hs_state, unit) op" where
  "onNonceCache f s =
     (case hs_NonceCache s of
        None \<Rightarrow> (Inr (), s) | Some c \<Rightarrow> (case f c of (r, c') \<Rightarrow> (r, s\<lparr>hs_NonceCache := Some c'\<rparr>)))"

definition onHashCache :: "(MessageHashCache \<Rightarrow> unit result \<times> MessageHashCache) \<Rightarrow> (hs_state, unit) op" where
  "onHashCache f s =
     (case hs_MessageHashCache s of
        None \<Rightarrow> (Inr (), s) | Some c \<Rightarrow> (case f c of (r, c') \<Rightarrow> (r, s\<lparr>hs_MessageHashCache := Some c'\<rparr>)))"

definition checkHash :: "'a hs_env \<Rightarrow> string \<Rightarrow> VersionMsg \<Rightarrow> (hs_state, unit) op" where
  "checkHash E pid remote s =
     (case hs_MessageHashCache s of
        None \<Rightarrow> (Inr (), s)
      | Some _ \<Rightarrow>
          (case he_Marshal E remote of
             Inl err \<Rightarrow> (Inl err, s)
           | Inr b \<Rightarrow> onHashCache (RecordHash (hs_now s) pid (he_Sum256 E b)) s))"

definition applyAntiReplay :: "'a hs_env \<Rightarrow> HandshakePolicy \<Rightarrow> string \<Rightarrow> VersionMsg \<Rightarrow> (hs_state, unit) op" where
  "applyAntiReplay E P pid remote =
     readS hs_now (\<lambda>now.
     bindS (liftR (case hp_TimestampChecker P of None \<Rightarrow> Inr () | Some c \<Rightarrow> RejectExpiredUnix c now (vm_Timestamp remote))) (\<lambda>_.
     bindS (onNonceCache (RecordNonce now pid (vm_Nonce remote))) (\<lambda>_.
     checkHash E pid remote)))"

subsection \<open>The exchange\<close>

definition onMitigation :: "(AttackMitigation \<Rightarrow> AttackMitigation) \<Rightarrow> hs_state \<Rightarrow> hs_state" where
  "onMitigation f s = s\<lparr>hs_AttackMitigation := map_option f (hs_AttackMitigation s)\<rparr>"

definition initiatorVersion :: "HandshakePolicy \<Rightarrow> HandshakeLocal \<Rightarrow> int \<Rightarrow> VersionMsg" where
  "initiatorVersion P L now =
     \<lparr>vm_Nonce = word_of_int now, vm_Services = hl_Services L, vm_Agent = hl_Agent L, vm_StartHeight = hl_StartHeight L,
      vm_Timestamp = now div 1000000000, vm_StateHeadCID = hl_StateHeadCID L, vm_StateHeight = hl_StateHeight L,
      vm_AuthScheme = (if hp_RequireCredential P then hp_AuthScheme P else []),
      vm_AuthProof = (if hp_RequireCredential P then hp_Token P else []),
      vm_WantPeerlist = hl_WantPeerlist L, vm_ListenAddrs = hl_ListenAddrs L, vm_Peers = [], vm_ChallengeResponse = []\<rparr>"

definition initiatorWithState ::
  "'a hs_env \<Rightarrow> HandshakePolicy \<Rightarrow> HandshakeLocal \<Rightarrow> string \<Rightarrow> stream \<Rightarrow> (hs_state, string list \<times> VersionMsg) op" where
  "initiatorWithState E P L pid io =
     readS hs_now (\<lambda>now.
     let my = initiatorVersion P L now in
     bindS (liftR (st_sendVersion io my)) (\<lambda>_.
     bindS (liftR (st_recvVersion io)) (\<lambda>remote.
     bindS (applyAntiReplay E P pid remote) (\<lambda>_.
     bindS (liftR (validateVersion remote P)) (\<lambda>_.
     fail_ifS (hp_RequireCredential P \<and> (vm_AuthScheme remote \<noteq> hp_AuthScheme P \<or> vm_AuthProof remote = []))
       (ErrMsg ''missing or wrong auth proof/scheme'')
     (fail_ifS (hp_RequireCredential P \<and> \<not> verifyTokenAny E (hp_CAPubKeys P) pid (vm_AuthProof remote))
       (ErrMsg ''bad auth token from responder'')
     (bindS (liftR (if vm_ChallengeResponse remote \<noteq> []
                    then verifyChallengeResponse E pid (vm_Nonce my) (vm_ChallengeResponse remote) else Inr ())) (\<lambda>_.
      bindS (liftR (st_sendVerack io)) (\<lambda>_.
      bindS (liftR (st_recvVerack io)) (\<lambda>_.
      retS (parsePeerlist E (vm_Peers remote), remote)))))))))))"

definition responderVersion ::
  "'a hs_env \<Rightarrow> HandshakePolicy \<Rightarrow> HandshakeLocal \<Rightarrow> int \<Rightarrow> VersionMsg \<Rightarrow> bytes \<Rightarrow> VersionMsg" where
  "responderVersion E P L now remote sig =
     (initiatorVersion P L now)\<lparr>vm_WantPeerlist := False,
        vm_ChallengeResponse := he_b64Encode E sig,
        vm_Peers := (case he_provider E of Some provider \<Rightarrow> if vm_WantPeerlist remote then provider 16 else [] | None \<Rightarrow> [])\<rparr>"

text \<open>The exchange proper; the message that was sent is the result here.\<close>

definition responderBody ::
  "'a hs_env \<Rightarrow> HandshakePolicy \<Rightarrow> HandshakeLocal \<Rightarrow> string \<Rightarrow> stream \<Rightarrow> (hs_state, VersionMsg) op" where
  "responderBody E P L pid io =
     bindS (liftR (st_recvVersion io)) (\<lambda>remote.
     bindS (applyAntiReplay E P pid remote) (\<lambda>_.
     bindS (liftR (validateVersion remote P)) (\<lambda>_.
     fail_ifS (hp_RequireCredential P \<and> vm_AuthScheme remote \<noteq> hp_AuthScheme P) (ErrMsg ''unsupported auth scheme'')
     (readS hs_now (\<lambda>now.
      bindS (liftR (signChallenge E (vm_Nonce remote))) (\<lambda>sig.
      let my = responderVersion E P L now remote sig in
      bindS (liftR (st_sendVersion io my)) (\<lambda>_.
      bindS (liftR (st_recvVerack io)) (\<lambda>_.
      bindS (liftR (st_sendVerack io)) (\<lambda>_ s.
      (Inr my, onMitigation (\<lambda>am. am\<lparr>am_Eclipse :=
         Eclipse_Register (he_ip_of E) (he_ResolveASN E) pid (he_Addrs E pid) (am_Eclipse am)\<rparr>) s))))))))))"

definition punish :: "int \<Rightarrow> string \<Rightarrow> int \<Rightarrow> AttackMitigation \<Rightarrow> AttackMitigation" where
  "punish now pid points am =
     (let m = AddMisbehavior now pid points (am_Misbehavior am) in
      am\<lparr>am_Misbehavior := m,
         am_BanList := (if ShouldDisconnect pid m then Ban now pid (am_BanList am) else am_BanList am)\<rparr>)"

text \<open>The checks that a banned peer or one that calls too often does not pass.\<close>

definition admitPeer :: "string \<Rightarrow> (hs_state, unit) op" where
  "admitPeer pid s =
     (case hs_AttackMitigation s of
        None \<Rightarrow> (Inr (), s)
      | Some am \<Rightarrow>
          let (banned, b) = IsBanned (hs_now s) pid (am_BanList am); am1 = am\<lparr>am_BanList := b\<rparr> in
          if banned then (Inl (ErrMsg ''peer banned''), s\<lparr>hs_AttackMitigation := Some am1\<rparr>)
          else let (ok, r) = RateLimiter_Allow (hs_now s) pid (am_RateLimiter am1); am2 = am1\<lparr>am_RateLimiter := r\<rparr> in
            (if ok then Inr () else Inl (ErrMsg ''rate limited''), s\<lparr>hs_AttackMitigation := Some am2\<rparr>))"

definition responder ::
  "'a hs_env \<Rightarrow> HandshakePolicy \<Rightarrow> HandshakeLocal \<Rightarrow> string \<Rightarrow> stream \<Rightarrow> (hs_state, VersionMsg) op" where
  "responder E P L pid io =
     bindS (admitPeer pid) (\<lambda>_ s.
     case responderBody E P L pid io s of
       (Inr my, t) \<Rightarrow> (Inr my, t)
     | (Inl err, t) \<Rightarrow> (Inl err, onMitigation (punish (hs_now t) pid 10) t))"

subsection \<open>The gate\<close>

text \<open>\<open>g_conns\<close> is the number of connections that the network reports for a peer, \<open>g_counted\<close> the streams that were
  counted against the cap of their peer.\<close>

record gate =
  g_verified :: "string set"
  g_inflight :: "string set"
  g_counted :: "(nat \<times> string) list"
  g_conns :: "string \<Rightarrow> nat"
  g_hs :: hs_state

definition HandshakeProtocolID :: string where
  "HandshakeProtocolID = ''/sng40/handshake/1.0.0''"

datatype gate_action = ClosePeer | StartHandshake | KeepPeer

definition gate_Connected :: "string \<Rightarrow> gate \<Rightarrow> gate_action \<times> gate" where
  "gate_Connected pid g =
     (case admitPeer pid (g_hs g) of
        (Inl _, hs) \<Rightarrow> (ClosePeer, g\<lparr>g_hs := hs\<rparr>)
      | (Inr _, hs) \<Rightarrow>
          if pid \<in> g_verified g \<or> pid \<in> g_inflight g then (KeepPeer, g\<lparr>g_hs := hs\<rparr>)
          else (StartHandshake, g\<lparr>g_hs := hs, g_inflight := insert pid (g_inflight g)\<rparr>))"

definition markVerified :: "string \<Rightarrow> gate \<Rightarrow> gate" where
  "markVerified pid g =
     (if g_conns g pid = 0 \<or> pid \<in> g_verified g then g else g\<lparr>g_verified := insert pid (g_verified g)\<rparr>)"

text \<open>The end of the handshake that \<open>Connected\<close> started, on the last of its attempts.\<close>

definition gate_finish :: "'a hs_env \<Rightarrow> string \<Rightarrow> unit result \<Rightarrow> gate \<Rightarrow> gate_action \<times> gate" where
  "gate_finish E pid outcome g =
     (let g1 = g\<lparr>g_inflight := g_inflight g - {pid}\<rparr> in
      case outcome of
        Inl _ \<Rightarrow> (ClosePeer, g1\<lparr>g_hs := onMitigation (punish (hs_now (g_hs g)) pid 20) (g_hs g)\<rparr>)
      | Inr _ \<Rightarrow> (KeepPeer, markVerified pid (g1\<lparr>g_hs := onMitigation (\<lambda>am. am\<lparr>am_Eclipse :=
          Eclipse_Register (he_ip_of E) (he_ResolveASN E) pid (he_Addrs E pid) (am_Eclipse am)\<rparr>) (g_hs g)\<rparr>)))"

definition gate_Disconnected :: "string \<Rightarrow> gate \<Rightarrow> gate" where
  "gate_Disconnected pid g =
     (let g1 = g\<lparr>g_hs := onMitigation (\<lambda>am. am\<lparr>am_Eclipse := Eclipse_Unregister pid (am_Eclipse am)\<rparr>) (g_hs g)\<rparr> in
      if g_conns g pid = 0 then g1\<lparr>g_verified := g_verified g - {pid}, g_inflight := g_inflight g - {pid}\<rparr> else g1)"

definition onCap :: "(PeerResourceCap \<Rightarrow> PeerResourceCap) \<Rightarrow> gate \<Rightarrow> gate" where
  "onCap f g = g\<lparr>g_hs := onMitigation (\<lambda>am. am\<lparr>am_ResourceCap := map_option f (am_ResourceCap am)\<rparr>) (g_hs g)\<rparr>"

definition gate_cap :: "gate \<Rightarrow> PeerResourceCap option" where
  "gate_cap g = (case hs_AttackMitigation (g_hs g) of None \<Rightarrow> None | Some am \<Rightarrow> am_ResourceCap am)"

text \<open>Whether the stream is let through.\<close>

definition gate_OpenedStream :: "nat \<Rightarrow> string \<Rightarrow> string \<Rightarrow> gate \<Rightarrow> bool \<times> gate" where
  "gate_OpenedStream sid protocol pid g =
     (if \<not> (protocol = HandshakeProtocolID \<or> pid \<in> g_verified g) then (False, g)
      else case gate_cap g of
        None \<Rightarrow> (True, g)
      | Some c \<Rightarrow>
          (case Cap_Increment pid c of
             (False, _) \<Rightarrow> (False, g)
           | (True, c') \<Rightarrow> (True, onCap (\<lambda>_. c') (g\<lparr>g_counted := (sid, pid) # g_counted g\<rparr>))))"

definition gate_ClosedStream :: "nat \<Rightarrow> string \<Rightarrow> gate \<Rightarrow> gate" where
  "gate_ClosedStream sid pid g =
     (case gate_cap g of
        None \<Rightarrow> g
      | Some c \<Rightarrow>
          if sid \<in> fst ` set (g_counted g)
          then onCap (Cap_Decrement pid) (g\<lparr>g_counted := filter (\<lambda>e. fst e \<noteq> sid) (g_counted g)\<rparr>)
          else g)"

definition CheckHandshakePermission :: "HandshakePolicy \<Rightarrow> string \<Rightarrow> unit result" where
  "CheckHandshakePermission P operation =
     (if \<not> hp_RequireCredential P then Inr ()
      else fail_if (hp_AuthScheme P = []) ErrPermissionDenied
        (fail_if (hp_Token P = [] \<and> hp_CAPubKeys P = []) ErrPermissionDenied (Inr ())))"

end
