(* ===== verification/Net_Protection_Props.thy ===== *)
theory Net_Protection_Props
  imports Net_Protection "HOL-Library.Multiset"
begin

text \<open>The bounds that the protection components keep, along any sequence of their operations.\<close>

subsection \<open>Rate limits\<close>

fun allowedCount :: "string \<Rightarrow> (int \<times> string) list \<Rightarrow> PeerRateLimiter \<Rightarrow> int" where
  "allowedCount pid [] r = 0"
| "allowedCount pid ((now, p) # es) r =
     (let (ok, r') = RateLimiter_Allow now p r in (if ok \<and> p = pid then 1 else 0) + allowedCount pid es r')"

lemma Allow_params: "RateLimiter_Allow now p r = (ok, r') \<Longrightarrow> rl_burst r' = rl_burst r \<and> rl_window r' = rl_window r"
  by (auto simp: RateLimiter_Allow_def Let_def split: option.splits prod.splits if_splits)

lemma Allow_other: "RateLimiter_Allow now p r = (ok, r') \<Longrightarrow> p \<noteq> pid \<Longrightarrow> rl_byPeer r' pid = rl_byPeer r pid"
  by (auto simp: RateLimiter_Allow_def Let_def split: option.splits prod.splits if_splits)

lemma div_add_le: "0 < (w::int) \<Longrightarrow> a div w + b div w \<le> (a + b) div w"
  by (subst div_add1_eq) (simp add: pos_imp_zdiv_nonneg_iff)

text \<open>One call: the tokens that are spent and left never exceed those there were and the windows that passed.\<close>

lemma Allow_spends:
  assumes "RateLimiter_Allow now pid r = (ok, r')" "rl_byPeer r pid = Some (tokens, lastRefill)"
    and "0 \<le> tokens" "tokens \<le> rl_burst r" "lastRefill \<le> now" "0 < rl_window r"
  obtains tokens' last' where "rl_byPeer r' pid = Some (tokens', last')" "0 \<le> tokens'" "tokens' \<le> rl_burst r"
    "lastRefill \<le> last'" "last' \<le> now"
    "tokens' + (if ok then 1 else 0) \<le> tokens + (last' - lastRefill) div rl_window r"
proof -
  let ?k = "(now - lastRefill) div rl_window r"
  have k: "0 \<le> ?k" using assms(5,6) by (simp add: pos_imp_zdiv_nonneg_iff)
  show thesis
  proof (cases "?k = 0")
    case True
    with assms show thesis
      by (intro that [of "if tokens \<le> 0 then tokens else tokens - 1" lastRefill])
        (auto simp: RateLimiter_Allow_def refill_def Let_def split: if_splits)
  next
    case False
    with assms k show thesis
      by (intro that [of "min (rl_burst r) (tokens + ?k) - (if min (rl_burst r) (tokens + ?k) \<le> 0 then 0 else 1)" now])
        (auto simp: RateLimiter_Allow_def refill_def Let_def split: if_splits)
  qed
qed

lemma allowedCount_known:
  assumes "rl_byPeer r pid = Some (tokens, lastRefill)" "0 \<le> tokens" "tokens \<le> rl_burst r" "0 < rl_window r"
    and "sorted (map fst es)" "\<forall>e\<in>set es. lastRefill \<le> fst e \<and> fst e \<le> t1" "lastRefill \<le> t1"
  shows "allowedCount pid es r \<le> tokens + (t1 - lastRefill) div rl_window r"
  using assms
proof (induction es arbitrary: r tokens lastRefill)
  case Nil
  then show ?case by (simp add: pos_imp_zdiv_nonneg_iff)
next
  case (Cons e es)
  obtain now p where e: "e = (now, p)" by fastforce
  obtain ok r' where a: "RateLimiter_Allow now p r = (ok, r')" by fastforce
  note par = Allow_params [OF a]
  show ?case
  proof (cases "p = pid")
    case False
    with Cons.prems par Allow_other [OF a False] show ?thesis
      using Cons.IH [of r' tokens lastRefill] by (simp add: e a)
  next
    case True
    from Cons.prems(6) e have "lastRefill \<le> now" "now \<le> t1" by auto
    with a True Cons.prems(1-4) obtain tokens' last' where
      st: "rl_byPeer r' pid = Some (tokens', last')" "0 \<le> tokens'" "tokens' \<le> rl_burst r"
        "lastRefill \<le> last'" "last' \<le> now"
      and spent: "tokens' + (if ok then 1 else 0) \<le> tokens + (last' - lastRefill) div rl_window r"
      by (auto elim!: Allow_spends)
    have "allowedCount pid es r' \<le> tokens' + (t1 - last') div rl_window r'"
      by (rule Cons.IH) (use st par Cons.prems(4-7) e \<open>now \<le> t1\<close> in auto)
    moreover have "(last' - lastRefill) div rl_window r + (t1 - last') div rl_window r \<le> (t1 - lastRefill) div rl_window r"
      using div_add_le [OF Cons.prems(4), of "last' - lastRefill" "t1 - last'"] by simp
    ultimately show ?thesis using spent par a [unfolded True] by (simp add: e True)
  qed
qed

lemma allowedCount_new:
  assumes "rl_byPeer r pid = None" "1 \<le> rl_burst r" "0 < rl_window r"
    and "sorted (map fst es)" "\<forall>e\<in>set es. t0 \<le> fst e \<and> fst e \<le> t1" "t0 \<le> t1"
  shows "allowedCount pid es r \<le> rl_burst r + (t1 - t0) div rl_window r"
  using assms
proof (induction es arbitrary: r)
  case Nil
  then show ?case by (simp add: pos_imp_zdiv_nonneg_iff add_increasing2)
next
  case (Cons e es)
  obtain now p where e: "e = (now, p)" by fastforce
  obtain ok r' where a: "RateLimiter_Allow now p r = (ok, r')" by fastforce
  note par = Allow_params [OF a]
  show ?case
  proof (cases "p = pid")
    case False
    with Cons.prems par Allow_other [OF a False] show ?thesis
      using Cons.IH [of r'] by (simp add: e a)
  next
    case True
    with a Cons.prems(1) have ok: "ok" and st: "rl_byPeer r' pid = Some (rl_burst r - 1, now)"
      by (auto simp: RateLimiter_Allow_def)
    have "allowedCount pid es r' \<le> rl_burst r - 1 + (t1 - now) div rl_window r'"
      by (rule allowedCount_known [OF st]) (use Cons.prems par e in auto)
    moreover have "(t1 - now) div rl_window r \<le> (t1 - t0) div rl_window r"
      using Cons.prems(3,5) e by (intro zdiv_mono1) auto
    ultimately show ?thesis using par ok a [unfolded True] by (simp add: e True)
  qed
qed

text \<open>The same with a bucket from before the interval: a bucket that was not refilled for a window is refilled, up to the burst, by the
  first call, and otherwise its windows began less than a window before the interval.\<close>

lemma allowedCount_bucket:
  assumes "rl_byPeer r pid = Some (tokens, lastRefill)" "0 \<le> tokens" "tokens \<le> rl_burst r" "lastRefill \<le> t0" "0 < rl_window r"
    and "sorted (map fst es)" "\<forall>e\<in>set es. t0 \<le> fst e \<and> fst e \<le> t1" "t0 \<le> t1"
  shows "allowedCount pid es r \<le> rl_burst r + (t1 - t0 + rl_window r - 1) div rl_window r"
  using assms
proof (induction es arbitrary: r)
  case Nil
  then show ?case by (simp add: pos_imp_zdiv_nonneg_iff add_increasing2)
next
  case (Cons e es)
  obtain now p where e: "e = (now, p)" by fastforce
  obtain ok r' where a: "RateLimiter_Allow now p r = (ok, r')" by fastforce
  note par = Allow_params [OF a]
  have times: "t0 \<le> now" "now \<le> t1" using Cons.prems(7) e by auto
  consider "p \<noteq> pid" | "p = pid" "now - lastRefill < rl_window r" | "p = pid" "rl_window r \<le> now - lastRefill" by linarith
  then show ?case
  proof cases
    case 1
    with Cons.prems par Allow_other [OF a 1] show ?thesis using Cons.IH [of r'] by (simp add: e a)
  next
    case 2
    have "allowedCount pid (e # es) r \<le> tokens + (t1 - lastRefill) div rl_window r"
      by (rule allowedCount_known [OF Cons.prems(1-3,5,6)]) (use Cons.prems(4,7,8) in fastforce)+
    moreover have "(t1 - lastRefill) div rl_window r \<le> (t1 - t0 + rl_window r - 1) div rl_window r"
      using 2 times Cons.prems(5) by (intro zdiv_mono1) auto
    ultimately show ?thesis using Cons.prems(3) by linarith
  next
    case 3
    then have "0 < (now - lastRefill) div rl_window r" using Cons.prems(5) by (simp add: pos_imp_zdiv_pos_iff)
    with 3 a Cons.prems(1-5) times obtain tokens' where st: "rl_byPeer r' pid = Some (tokens', now)" "0 \<le> tokens'"
      "tokens' + (if ok then 1 else 0) \<le> rl_burst r"
      by (auto simp: RateLimiter_Allow_def refill_def Let_def split: if_splits)
    have "allowedCount pid es r' \<le> tokens' + (t1 - now) div rl_window r'"
      by (rule allowedCount_known [OF st(1,2)]) (use st(3) par Cons.prems times e in \<open>auto split: if_splits\<close>)
    moreover have "(t1 - now) div rl_window r \<le> (t1 - t0 + rl_window r - 1) div rl_window r"
      using times Cons.prems(5) by (intro zdiv_mono1) auto
    ultimately show ?thesis using st(3) par a 3(1) by (simp add: e)
  qed
qed

text \<open>The limiter after a list of calls.\<close>

definition afterCalls :: "(int \<times> string) list \<Rightarrow> PeerRateLimiter \<Rightarrow> PeerRateLimiter" where
  "afterCalls es r = foldl (\<lambda>r (now, p). snd (RateLimiter_Allow now p r)) r es"

definition bucketOk :: "string \<Rightarrow> int \<Rightarrow> PeerRateLimiter \<Rightarrow> bool" where
  "bucketOk pid t r \<longleftrightarrow> (case rl_byPeer r pid of None \<Rightarrow> True | Some (tokens, lastRefill) \<Rightarrow> 0 \<le> tokens \<and> tokens \<le> rl_burst r \<and> lastRefill \<le> t)"

lemma bucketOk_Allow:
  assumes "bucketOk pid now r" "1 \<le> rl_burst r" "0 < rl_window r"
  shows "bucketOk pid now (snd (RateLimiter_Allow now p r))"
proof -
  obtain ok r' where a: "RateLimiter_Allow now p r = (ok, r')" by fastforce
  note par = Allow_params [OF a]
  show ?thesis
  proof (cases "p = pid")
    case False
    with assms(1) par Allow_other [OF a False] a show ?thesis by (auto simp: bucketOk_def split: option.splits)
  next
    case True
    show ?thesis
    proof (cases "rl_byPeer r pid")
      case None
      with a True assms(2) show ?thesis by (auto simp: bucketOk_def RateLimiter_Allow_def)
    next
      case (Some st)
      obtain tokens lastRefill where st: "st = (tokens, lastRefill)" by fastforce
      with Some assms(1) have b: "0 \<le> tokens" "tokens \<le> rl_burst r" "lastRefill \<le> now" by (simp_all add: bucketOk_def)
      obtain tokens' last' where "rl_byPeer r' pid = Some (tokens', last')" "0 \<le> tokens'" "tokens' \<le> rl_burst r" "last' \<le> now"
        by (rule Allow_spends [OF a [unfolded True] Some [unfolded st] b assms(3)])
      with par a show ?thesis by (simp add: bucketOk_def)
    qed
  qed
qed

lemma bucketOk_later: "bucketOk pid t r \<Longrightarrow> t \<le> t' \<Longrightarrow> bucketOk pid t' r"
  by (auto simp: bucketOk_def split: option.splits)

lemma bucketOk_run:
  assumes "bucketOk pid t r" "1 \<le> rl_burst r" "0 < rl_window r" "sorted (map fst es)" "\<forall>e\<in>set es. t \<le> fst e \<and> fst e \<le> t0" "t \<le> t0"
  shows "bucketOk pid t0 (afterCalls es r) \<and> rl_burst (afterCalls es r) = rl_burst r \<and> rl_window (afterCalls es r) = rl_window r"
  using assms
proof (induction es arbitrary: r t)
  case Nil
  then show ?case by (simp add: afterCalls_def bucketOk_later)
next
  case (Cons e es)
  obtain now p where e: "e = (now, p)" by fastforce
  obtain ok r' where a: "RateLimiter_Allow now p r = (ok, r')" by fastforce
  note par = Allow_params [OF a]
  have "bucketOk pid now r" using Cons.prems(1,5) e by (auto intro: bucketOk_later)
  from bucketOk_Allow [OF this Cons.prems(2,3), of p] a have "bucketOk pid now r'" by simp
  from Cons.IH [OF this] Cons.prems par have "bucketOk pid t0 (afterCalls es r') \<and> rl_burst (afterCalls es r') = rl_burst r' \<and> rl_window (afterCalls es r') = rl_window r'"
    by (simp add: e)
  with par a show ?case by (simp add: afterCalls_def e)
qed



subsection \<open>Peers per subnet and autonomous system\<close>

definition subnet_peers :: "string \<Rightarrow> EclipseLimiter \<Rightarrow> nat" where
  "subnet_peers subnet e = length (filter (\<lambda>x. fst (snd x) = subnet) (el_byPeer e))"

definition asn_peers :: "u32 \<Rightarrow> EclipseLimiter \<Rightarrow> nat" where
  "asn_peers asn e = length (filter (\<lambda>x. snd (snd x) = asn) (el_byPeer e))"

definition counts_ok :: "EclipseLimiter \<Rightarrow> bool" where
  "counts_ok e \<longleftrightarrow> distinct (map fst (el_byPeer e)) \<and> (\<forall>s. el_bySubnet e s = subnet_peers s e)
     \<and> (\<forall>a. a \<noteq> 0 \<longrightarrow> el_byASN e a = asn_peers a e)"

lemma filter_remove_length:
  assumes "distinct (map fst xs)" "map_of xs pid = Some v"
  shows "length (filter P (filter (\<lambda>x. fst x \<noteq> pid) xs)) = length (filter P xs) - (if P (pid, v) then 1 else 0)"
  using assms
proof (induction xs)
  case (Cons x xs)
  show ?case
  proof (cases "fst x = pid")
    case True
    with Cons.prems have "pid \<notin> fst ` set xs" "x = (pid, v)" by (auto simp: prod_eq_iff)
    then have "filter (\<lambda>x. fst x \<noteq> pid) xs = xs" by (force simp: filter_id_conv)
    with True \<open>x = (pid, v)\<close> show ?thesis by simp
  next
    case False
    with Cons have IH: "length (filter P (filter (\<lambda>x. fst x \<noteq> pid) xs)) = length (filter P xs) - (if P (pid, v) then 1 else 0)"
      by (auto split: if_splits)
    from False Cons.prems have "(pid, v) \<in> set xs" by (auto dest: map_of_SomeD)
    then have "P (pid, v) \<Longrightarrow> 0 < length (filter P xs)" by (auto simp: filter_empty_conv)
    with IH False show ?thesis by (auto simp: Suc_diff_Suc)
  qed
qed simp

lemma Register_counts: "counts_ok e \<Longrightarrow> counts_ok (Eclipse_Register ip_of resolve pid addrs e)"
  by (auto simp: Eclipse_Register_def counts_ok_def subnet_peers_def asn_peers_def Let_def map_of_eq_None_iff
      split: option.splits)

lemma Unregister_counts: "counts_ok e \<Longrightarrow> counts_ok (Eclipse_Unregister pid e)"
proof (cases "map_of (el_byPeer e) pid")
  case (Some v)
  assume ok: "counts_ok e"
  obtain subnet asn where v: "v = (subnet, asn)" by (cases v)
  have *: "length (filter P (filter (\<lambda>x. fst x \<noteq> pid) (el_byPeer e)))
      = length (filter P (el_byPeer e)) - (if P (pid, v) then 1 else 0)" for P
    using ok by (intro filter_remove_length [OF _ Some]) (simp add: counts_ok_def)
  show ?thesis
    using ok Some v *
    by (auto simp: Eclipse_Unregister_def counts_ok_def subnet_peers_def asn_peers_def intro: distinct_map_filter)
qed (simp add: Eclipse_Unregister_def)

text \<open>Sequences of registrations and departures. With \<open>guarded\<close>, a peer is registered only after \<open>CanAllow\<close>
  said yes.\<close>

inductive eclipse_run :: "bool \<Rightarrow> ('a \<Rightarrow> bytes option) \<Rightarrow> EclipseLimiter \<Rightarrow> bool" for guarded ip_of where
  start: "el_byPeer e = [] \<Longrightarrow> el_bySubnet e = (\<lambda>_. 0) \<Longrightarrow> el_byASN e = (\<lambda>_. 0) \<Longrightarrow> eclipse_run guarded ip_of e"
| join: "eclipse_run guarded ip_of e \<Longrightarrow> (guarded \<Longrightarrow> Eclipse_CanAllow ip_of resolve pid addrs e) \<Longrightarrow>
    eclipse_run guarded ip_of (Eclipse_Register ip_of resolve pid addrs e)"
| leave: "eclipse_run guarded ip_of e \<Longrightarrow> eclipse_run guarded ip_of (Eclipse_Unregister pid e)"

definition within_limits :: "EclipseLimiter \<Rightarrow> bool" where
  "within_limits e \<longleftrightarrow> (\<forall>s. el_bySubnet e s \<le> el_maxPerSubnet e) \<and> (\<forall>a. el_byASN e a \<le> el_maxPerASN e)"

lemma Register_within:
  "within_limits e \<Longrightarrow> Eclipse_CanAllow ip_of resolve pid addrs e \<Longrightarrow>
   within_limits (Eclipse_Register ip_of resolve pid addrs e)"
  by (auto simp: Eclipse_Register_def Eclipse_CanAllow_def within_limits_def Let_def split: option.splits)

lemma Unregister_within: "within_limits e \<Longrightarrow> within_limits (Eclipse_Unregister pid e)"
  by (auto simp: Eclipse_Unregister_def within_limits_def le_diff_conv le_SucI split: option.splits)

text \<open>The counters of the eclipse limiter are exactly the numbers of registered peers of each subnet and of each known
  autonomous system, in every sequence of registrations and departures; and when each registration was asked for with
  \<open>CanAllow\<close>, no subnet and no autonomous system has more peers than its limit.\<close>
theorem eclipse_limits:
  assumes "eclipse_run guarded ip_of e"
  shows "el_bySubnet e s = card {p. \<exists>a. map_of (el_byPeer e) p = Some (s, a)}
    \<and> (guarded \<longrightarrow> el_bySubnet e s \<le> el_maxPerSubnet e \<and> el_byASN e a \<le> el_maxPerASN e)"
proof -
  from assms have ok: "counts_ok e"
  proof (induction rule: eclipse_run.induct)
    case start
    then show ?case by (simp add: counts_ok_def subnet_peers_def asn_peers_def)
  qed (simp_all add: Register_counts Unregister_counts)
  from assms have lim: "guarded \<longrightarrow> within_limits e"
  proof (induction rule: eclipse_run.induct)
    case start
    then show ?case by (simp add: within_limits_def)
  qed (simp_all add: Register_within Unregister_within)
  let ?xs = "filter (\<lambda>x. fst (snd x) = s) (el_byPeer e)"
  have "{p. \<exists>a. map_of (el_byPeer e) p = Some (s, a)} = fst ` set ?xs"
    using ok by (force simp: counts_ok_def image_iff dest: map_of_SomeD)
  moreover have "card (fst ` set ?xs) = length ?xs"
    using ok distinct_card [of "map fst ?xs"] by (simp add: counts_ok_def distinct_map_filter)
  ultimately show ?thesis using ok lim by (simp add: counts_ok_def subnet_peers_def within_limits_def)
qed

theorem eclipse_limits_witness:
  "el_bySubnet (Eclipse_Register (\<lambda>x. Some x) None ''p'' [''abcd''] NewEclipseLimiter) (subnetKey ''abcd'')
     = card {p. \<exists>a. map_of (el_byPeer (Eclipse_Register (\<lambda>x. Some x) None ''p'' [''abcd''] NewEclipseLimiter)) p
         = Some (subnetKey ''abcd'', a)}"
proof -
  have "eclipse_run True (\<lambda>x. Some x) (Eclipse_Register (\<lambda>x. Some x) None ''p'' [''abcd''] NewEclipseLimiter)"
  proof (rule eclipse_run.join)
    show "eclipse_run True (\<lambda>x. Some x) NewEclipseLimiter" by (rule eclipse_run.start) (simp_all add: NewEclipseLimiter_def)
    show "Eclipse_CanAllow (\<lambda>x. Some x) None ''p'' [''abcd''] NewEclipseLimiter" by code_simp
  qed
  from eclipse_limits [OF this] show ?thesis by simp
qed

subsection \<open>Address buckets\<close>

definition keys_of :: "('k \<times> 'v) list \<Rightarrow> 'k set" where
  "keys_of xs = fst ` set xs"

lemma keys_of_simps [simp]:
  "keys_of [] = {}" "keys_of (x # xs) = insert (fst x) (keys_of xs)" "keys_of (xs @ ys) = keys_of xs \<union> keys_of ys"
  by (simp_all add: keys_of_def image_Un)

lemma keys_of_nth [simp]: "i < length xs \<Longrightarrow> fst (xs ! i) \<in> keys_of xs"
  by (simp add: keys_of_def)

lemma distinct_keys_append [simp]: "distinct (map fst (xs @ [(k, v)])) \<longleftrightarrow> distinct (map fst xs) \<and> k \<notin> keys_of xs"
  by (auto simp: keys_of_def)

definition buckets_ok :: "'a AddressBucketStore \<Rightarrow> bool" where
  "buckets_ok s \<longleftrightarrow>
     (\<forall>b. distinct (map fst (ab_buckets s b)) \<and> length (ab_buckets s b) \<le> ab_maxPerBucket s) \<and>
     (\<forall>pid b. ab_byPeer s pid = Some b \<longleftrightarrow> pid \<in> keys_of (ab_buckets s b))"

lemma removeSwap_perm: "i < length xs \<Longrightarrow> mset (removeSwap i xs) = mset xs - {#xs ! i#}"
proof -
  assume i: "i < length xs"
  then have "xs \<noteq> []" by auto
  show ?thesis
  proof (cases "i = length xs - 1")
    case True
    with i have u: "xs[i := last xs] = xs" by (simp add: last_conv_nth list_update_id \<open>xs \<noteq> []\<close>)
    have "mset xs = mset (butlast xs) + {#last xs#}"
      using \<open>xs \<noteq> []\<close> by (metis append_butlast_last_id mset_append mset_single_iff_right union_mset_add_mset_right)
    with True u \<open>xs \<noteq> []\<close> show ?thesis by (simp add: removeSwap_def last_conv_nth)
  next
    case False
    with i have b: "i < length (butlast xs)" by simp
    have xs: "xs = butlast xs @ [last xs]" using \<open>xs \<noteq> []\<close> by simp
    have "butlast (xs[i := last xs]) = (butlast xs)[i := last xs]"
      using b by (subst xs) (simp add: list_update_append)
    moreover have "mset ((butlast xs)[i := last xs]) = mset (butlast xs) - {#butlast xs ! i#} + {#last xs#}"
      using b by (simp add: mset_update)
    moreover have "butlast xs ! i = xs ! i" using b by (simp add: nth_butlast)
    moreover have "mset xs = mset (butlast xs) + {#last xs#}" by (subst xs) simp
    moreover have "xs ! i \<in># mset (butlast xs)" using b \<open>butlast xs ! i = xs ! i\<close> by (metis in_set_conv_nth set_mset_mset)
    ultimately show ?thesis by (simp add: removeSwap_def)
  qed
qed

lemma removeSwap_props:
  assumes "i < length xs" "distinct (map fst xs)"
  shows "distinct (map fst (removeSwap i xs))" "keys_of (removeSwap i xs) = keys_of xs - {fst (xs ! i)}"
    "length (removeSwap i xs) = length xs - 1"
proof -
  have m: "mset (map fst (removeSwap i xs)) = mset (map fst xs) - {#fst (xs ! i)#}"
    using removeSwap_perm [OF assms(1)] assms(1) by (simp add: image_mset_Diff nth_mem)
  have dx: "distinct (map fst xs)" by (rule assms(2))
  have "mset (map fst (removeSwap i xs)) = mset_set (fst ` set xs) - {#fst (xs ! i)#}"
    using m mset_set_set [OF dx] by (metis list.set_map)
  moreover have "fst (xs ! i) \<in> fst ` set xs" using assms(1) by auto
  ultimately have e: "mset (map fst (removeSwap i xs)) = mset_set (fst ` set xs - {fst (xs ! i)})"
    by (simp add: mset_set_Diff)
  then have keys: "fst ` set (removeSwap i xs) = fst ` set xs - {fst (xs ! i)}"
    by (metis finite_Diff finite_imageI finite_set finite_set_mset_mset_set list.set_map set_mset_mset)
  then show "keys_of (removeSwap i xs) = keys_of xs - {fst (xs ! i)}" by (simp add: keys_of_def)
  show len: "length (removeSwap i xs) = length xs - 1" by (simp add: removeSwap_def)
  have "card (fst ` set xs) = length xs" using distinct_card [OF dx] by simp
  with keys len \<open>fst (xs ! i) \<in> fst ` set xs\<close> have "card (set (map fst (removeSwap i xs))) = length (map fst (removeSwap i xs))"
    by simp
  then show "distinct (map fst (removeSwap i xs))" by (rule card_distinct)
qed

lemma setFirst_keys [simp]: "map fst (setFirst pid addrs es) = map fst es"
  by (induction es) auto

lemma setFirst_lookup: "pid \<in> keys_of es \<Longrightarrow> map_of (setFirst pid addrs es) pid = Some addrs"
  by (induction es) auto

lemma setFirst_set [simp]: "keys_of (setFirst pid addrs es) = keys_of es"
  by (metis keys_of_def list.set_map setFirst_keys)

lemma setFirst_length [simp]: "length (setFirst pid addrs es) = length es"
  by (metis length_map setFirst_keys)

lemma buckets_okD:
  assumes "buckets_ok s"
  shows "distinct (map fst (ab_buckets s b))" "length (ab_buckets s b) \<le> ab_maxPerBucket s"
    "ab_byPeer s pid = Some b \<longleftrightarrow> pid \<in> keys_of (ab_buckets s b)"
  using assms unfolding buckets_ok_def by blast+

lemma buckets_okI:
  assumes "\<And>b. distinct (map fst (ab_buckets s b))" "\<And>b. length (ab_buckets s b) \<le> ab_maxPerBucket s"
    "\<And>pid b. ab_byPeer s pid = Some b \<longleftrightarrow> pid \<in> keys_of (ab_buckets s b)"
  shows "buckets_ok s"
  using assms unfolding buckets_ok_def by blast

lemma not_inBucket:
  assumes "buckets_ok s" "\<not> inBucket pid s"
  shows "ab_byPeer s pid = None \<and> (\<forall>b. pid \<notin> keys_of (ab_buckets s b))"
proof -
  have "ab_byPeer s pid = None"
    using assms(2) buckets_okD(3) [OF assms(1), of pid] by (auto simp: inBucket_def keys_of_def split: option.splits)
  then show ?thesis using buckets_okD(3) [OF assms(1), of pid] by auto
qed

text \<open>A new peer joins a bucket, from which an entry may have gone.\<close>

lemma buckets_ok_join:
  assumes ok: "buckets_ok s" and new: "ab_byPeer s pid = None"
    and ents: "distinct (map fst ents)" "keys_of ents = keys_of (ab_buckets s bucket) - gone" "length ents < ab_maxPerBucket s"
    and gone: "gone \<subseteq> keys_of (ab_buckets s bucket)"
  shows "buckets_ok (s\<lparr>ab_buckets := (ab_buckets s)(bucket := ents @ [(pid, addrs)]),
      ab_byPeer := (\<lambda>p. if p \<in> gone then None else ab_byPeer s p)(pid \<mapsto> bucket)\<rparr>)"
proof (rule buckets_okI, goal_cases)
  case (1 b)
  from new buckets_okD(3) [OF ok, of pid bucket] ents(2) have "pid \<notin> keys_of ents" by auto
  with ents(1) buckets_okD(1) [OF ok] show ?case by (simp del: map_append)
next
  case (2 b)
  from ents(3) buckets_okD(2) [OF ok] show ?case by simp
next
  case (3 p b)
  have g: "p \<in> gone \<Longrightarrow> ab_byPeer s p = Some bucket" using gone buckets_okD(3) [OF ok] by blast
  show ?case
  proof (cases "p = pid")
    case True
    with new buckets_okD(3) [OF ok, of pid] show ?thesis by auto
  next
    case False
    note at = buckets_okD(3) [OF ok, of p]
    show ?thesis
    proof (cases "b = bucket")
      case True
      with False at [of bucket] ents(2) show ?thesis by simp
    next
      case other: False
      have "p \<in> gone \<Longrightarrow> p \<notin> keys_of (ab_buckets s b)" using g at [of b] other by simp
      with False other at [of b] show ?thesis by auto
    qed
  qed
qed

lemma Bucket_Add_ok:
  assumes ok: "buckets_ok s" and "0 < ab_maxPerBucket s" and rnd: "\<And>n i. rnd n = Some i \<Longrightarrow> i < n"
    and add: "Bucket_Add ip_of rnd pid addrs s = (r, t)"
  shows "buckets_ok t \<and> ab_maxPerBucket t = ab_maxPerBucket s"
proof (cases "subnetOf ip_of addrs")
  case None
  with add ok show ?thesis by (simp add: Bucket_Add_def)
next
  case (Some sub)
  obtain ip bucket where sub: "sub = (ip, bucket)" by (cases sub)
  let ?ents = "ab_buckets s bucket"
  show ?thesis
  proof (cases "inBucket pid s")
    case True
    then obtain b where b: "ab_byPeer s pid = Some b" by (auto simp: inBucket_def split: option.splits)
    with add Some sub True have t: "t = s\<lparr>ab_buckets := (ab_buckets s)(b := setFirst pid addrs (ab_buckets s b))\<rparr>"
      by (simp add: Bucket_Add_def Let_def)
    have "buckets_ok t" unfolding t by (rule buckets_okI) (simp_all add: buckets_okD [OF ok])
    then show ?thesis by (simp add: t)
  next
    case False
    note new = not_inBucket [OF ok False, THEN conjunct1]
    consider (room) "length ?ents < ab_maxPerBucket s" "t = s\<lparr>ab_buckets := (ab_buckets s)(bucket := ?ents @ [(pid, addrs)]),
        ab_byPeer := (ab_byPeer s)(pid \<mapsto> bucket)\<rparr>"
      | (same) "t = s"
      | (full) i where "i < length ?ents" "t = s\<lparr>ab_buckets := (ab_buckets s)(bucket := removeSwap i ?ents @ [(pid, addrs)]),
        ab_byPeer := ((ab_byPeer s)(fst (?ents ! i) := None))(pid \<mapsto> bucket)\<rparr>"
    proof (cases "length ?ents < ab_maxPerBucket s")
      case True
      with add Some sub False show thesis by (intro that(1)) (simp_all add: Bucket_Add_def Let_def)
    next
      case f: False
      show thesis
      proof (cases "rnd (length ?ents)")
        case None
        with add Some sub False f show thesis by (intro that(2)) (simp add: Bucket_Add_def Let_def)
      next
        case idx: (Some i)
        with add Some sub False f rnd [OF idx] show thesis by (intro that(3) [of i]) (simp_all add: Bucket_Add_def Let_def)
      qed
    qed
    then show ?thesis
    proof cases
      case room
      from buckets_ok_join [OF ok new buckets_okD(1) [OF ok], of bucket bucket "{}" addrs] room show ?thesis by simp
    next
      case same
      with ok show ?thesis by simp
    next
      case (full i)
      note rs = removeSwap_props [OF full(1) buckets_okD(1) [OF ok]]
      have upd: "(ab_byPeer s)(fst (?ents ! i) := None) = (\<lambda>p. if p \<in> {fst (?ents ! i)} then None else ab_byPeer s p)" by auto
      have "length (removeSwap i ?ents) < ab_maxPerBucket s"
        using rs(3) buckets_okD(2) [OF ok, of bucket] full(1) by linarith
      from buckets_ok_join [OF ok new rs(1,2) this] full show ?thesis by (simp add: upd)
    qed
  qed
qed

lemma removeFirstSwap_props:
  assumes "distinct (map fst ents)" "pid \<in> keys_of ents"
  shows "distinct (map fst (removeFirstSwap pid ents))" "keys_of (removeFirstSwap pid ents) = keys_of ents - {pid}"
    "length (removeFirstSwap pid ents) \<le> length ents"
proof -
  from assms(2) obtain j where j: "j < length ents" "fst (ents ! j) = pid"
    by (metis (no_types, lifting) image_iff in_set_conv_nth keys_of_def)
  then have "List.find (\<lambda>i. fst (ents ! i) = pid) [0..<length ents] \<noteq> None" by (auto simp: find_None_iff)
  then obtain i where f: "List.find (\<lambda>i. fst (ents ! i) = pid) [0..<length ents] = Some i" by auto
  from find_Some_in [OF f] have i: "i < length ents" "fst (ents ! i) = pid" by auto
  note rs = removeSwap_props [OF i(1) assms(1)]
  show "distinct (map fst (removeFirstSwap pid ents))" "keys_of (removeFirstSwap pid ents) = keys_of ents - {pid}"
    "length (removeFirstSwap pid ents) \<le> length ents"
    using rs i f by (simp_all add: removeFirstSwap_def)
qed

lemma Bucket_Remove_ok:
  assumes ok: "buckets_ok s"
  shows "buckets_ok (Bucket_Remove pid s) \<and> ab_maxPerBucket (Bucket_Remove pid s) = ab_maxPerBucket s"
proof (cases "ab_byPeer s pid")
  case None
  with ok show ?thesis by (simp add: Bucket_Remove_def)
next
  case (Some b)
  with buckets_okD(3) [OF ok] have mem: "pid \<in> keys_of (ab_buckets s b)" by simp
  note rs = removeFirstSwap_props [OF buckets_okD(1) [OF ok] mem]
  have t: "Bucket_Remove pid s = s\<lparr>ab_byPeer := (ab_byPeer s)(pid := None),
      ab_buckets := (ab_buckets s)(b := removeFirstSwap pid (ab_buckets s b))\<rparr>"
    by (simp add: Bucket_Remove_def Some)
  have "buckets_ok (Bucket_Remove pid s)"
  proof (rule buckets_okI, goal_cases)
    case (1 c)
    with rs(1) buckets_okD(1) [OF ok] show ?case by (simp add: t)
  next
    case (2 c)
    with order_trans [OF rs(3) buckets_okD(2) [OF ok]] buckets_okD(2) [OF ok] show ?case by (simp add: t)
  next
    case (3 p c)
    show ?case
    proof (cases "p = pid")
      case True
      with Some buckets_okD(3) [OF ok, of pid c] rs(2) show ?thesis by (auto simp: t)
    next
      case False
      with buckets_okD(3) [OF ok, of p c] rs(2) show ?thesis by (simp add: t)
    qed
  qed
  then show ?thesis by (simp add: t)
qed

text \<open>The runs of the store, with any random source that answers within range.\<close>

inductive bucket_run :: "('a \<Rightarrow> bytes option) \<Rightarrow> 'a AddressBucketStore \<Rightarrow> bool" for ip_of where
  start: "0 < n \<Longrightarrow> bucket_run ip_of (NewAddressBucketStore\<lparr>ab_maxPerBucket := n\<rparr>)"
| add: "bucket_run ip_of s \<Longrightarrow> (\<And>n i. rnd n = Some i \<Longrightarrow> i < n) \<Longrightarrow> Bucket_Add ip_of rnd pid addrs s = (r, t) \<Longrightarrow>
    bucket_run ip_of t"
| remove: "bucket_run ip_of s \<Longrightarrow> bucket_run ip_of (Bucket_Remove pid s)"

text \<open>However peers are added and removed, every bucket of the address store holds at most its maximum of entries, no peer is in two
  entries, the index names the bucket of exactly the stored peers, and a peer that was just added is found with the
  addresses it was added with.\<close>
theorem address_buckets_bounded:
  assumes "bucket_run ip_of s" "Bucket_Add ip_of rnd pid addrs s = ((evicted, True), t)" "\<And>n i. rnd n = Some i \<Longrightarrow> i < n"
  shows "length (ab_buckets t b) \<le> ab_maxPerBucket t \<and> distinct (map fst (ab_buckets t b))
    \<and> (ab_byPeer t p = Some b \<longleftrightarrow> p \<in> fst ` set (ab_buckets t b)) \<and> Bucket_Get pid t = Some addrs"
proof -
  from assms(1) have run: "buckets_ok s \<and> 0 < ab_maxPerBucket s"
  proof (induction rule: bucket_run.induct)
    case start
    then show ?case by (auto simp: NewAddressBucketStore_def intro!: buckets_okI)
  next
    case (add s rnd pid addrs r t)
    then show ?case using Bucket_Add_ok [of s rnd ip_of pid addrs r t] by auto
  next
    case (remove s pid)
    then show ?case using Bucket_Remove_ok by auto
  qed
  then have ok: "buckets_ok t" using Bucket_Add_ok [OF _ _ assms(3,2)] by auto
  have "Bucket_Get pid t = Some addrs"
  proof -
    from assms(2) obtain ip bucket where sub: "subnetOf ip_of addrs = Some (ip, bucket)"
      by (auto simp: Bucket_Add_def split: option.splits)
    show ?thesis
    proof (cases "inBucket pid s")
      case True
      then obtain c where "ab_byPeer s pid = Some c" "pid \<in> keys_of (ab_buckets s c)"
        by (auto simp: inBucket_def keys_of_def split: option.splits)
      with assms(2) sub True show ?thesis by (auto simp: Bucket_Add_def Bucket_Get_def Let_def setFirst_lookup)
    next
      case False
      have look: "pid \<notin> keys_of xs \<Longrightarrow> ([pid \<mapsto> addrs] ++ map_of xs) pid = Some addrs" for xs
        using map_of_eq_None_iff [of xs pid] by (simp add: keys_of_def map_add_def)
      have "pid \<notin> keys_of (ab_buckets s bucket)" using not_inBucket [of s pid] run False by blast
      moreover have "pid \<notin> keys_of (removeSwap i (ab_buckets s bucket))" if "i < length (ab_buckets s bucket)" for i
        using removeSwap_props(2) [OF that buckets_okD(1)] run \<open>pid \<notin> keys_of (ab_buckets s bucket)\<close> by auto
      ultimately show ?thesis
        using assms(2,3) sub False by (auto simp: Bucket_Add_def Bucket_Get_def Let_def look split: if_splits option.splits)
    qed
  qed
  then show ?thesis using buckets_okD [OF ok] by (simp add: keys_of_def)
qed

theorem address_buckets_bounded_witness:
  "\<exists>t. Bucket_Add Some (\<lambda>_. None) ''p'' [''abcd''] NewAddressBucketStore = ((None, True), t)
     \<and> Bucket_Get ''p'' t = Some [''abcd''] \<and> length (ab_buckets t (subnetKey ''abcd'')) \<le> ab_maxPerBucket t"
proof -
  have "bucket_run Some (NewAddressBucketStore\<lparr>ab_maxPerBucket := 64\<rparr>)" by (rule bucket_run.start) simp
  then have run: "bucket_run Some (NewAddressBucketStore :: bytes AddressBucketStore)" by (simp add: NewAddressBucketStore_def)
  have "fst (Bucket_Add Some (\<lambda>_. None) ''p'' [''abcd''] NewAddressBucketStore) = (None, True)" by code_simp
  then have add: "Bucket_Add Some (\<lambda>_. None) ''p'' [''abcd''] NewAddressBucketStore
      = ((None, True), snd (Bucket_Add Some (\<lambda>_. None) ''p'' [''abcd''] NewAddressBucketStore))" by (metis prod.collapse)
  from address_buckets_bounded [OF run add] add show ?thesis by auto
qed

end
