(* ===== verification/Net_Handshake_Props.thy ===== *)
theory Net_Handshake_Props
  imports Net_Handshake Net_Protection_Props
begin

text \<open>
  What the handshake keeps out: replayed version messages, when the caches outlive the window for timestamps;
  responders without a token; streams of peers that have not completed a handshake.
\<close>

subsection \<open>Replays\<close>

text \<open>The check after the nonce does not touch the nonces.\<close>

lemma checkHash_same: "checkHash E pid m s = (r, t) \<Longrightarrow> hs_NonceCache t = hs_NonceCache s \<and> hs_now t = hs_now s"
  by (auto simp: checkHash_def onHashCache_def split: option.splits sum.splits prod.splits)

lemma applyAntiReplay_cases:
  assumes "applyAntiReplay E P pid m s = (r, t)" "hs_NonceCache s = Some c" "hp_TimestampChecker P = Some tc"
  obtains (expired) "t = s" "r \<noteq> Inr ()"
  | (checked) q c' where "RejectExpiredUnix tc (hs_now s) (vm_Timestamp m) = Inr ()"
      "RecordNonce (hs_now s) pid (vm_Nonce m) c = (q, c')" "r = Inr () \<Longrightarrow> q = Inr ()"
      "hs_NonceCache t = Some c'" "hs_now t = hs_now s"
proof (cases "RejectExpiredUnix tc (hs_now s) (vm_Timestamp m)")
  case (Inl e)
  with assms show thesis by (intro expired) (auto simp: applyAntiReplay_def readS_def bindS_def liftR_def)
next
  case (Inr u)
  obtain q c' where rec: "RecordNonce (hs_now s) pid (vm_Nonce m) c = (q, c')" by fastforce
  let ?s1 = "s\<lparr>hs_NonceCache := Some c'\<rparr>"
  have nonce: "onNonceCache (RecordNonce (hs_now s) pid (vm_Nonce m)) s = (q, ?s1)"
    using assms(2) rec by (simp add: onNonceCache_def)
  show thesis
  proof (cases q)
    case (Inl e)
    with assms(1,3) Inr nonce have "r = Inl e" "t = ?s1" by (auto simp: applyAntiReplay_def readS_def bindS_def liftR_def)
    with Inr rec show thesis by (intro checked) auto
  next
    case q: (Inr x)
    with assms(1,3) Inr nonce have "checkHash E pid m ?s1 = (r, t)"
      by (simp add: applyAntiReplay_def readS_def bindS_def liftR_def)
    from checkHash_same [OF this] Inr rec q show thesis by (intro checked) auto
  qed
qed

text \<open>Runs of the checks of one node: messages of any peers, the passing of time, and the loops that forget idle
  peers. The log has the accepted messages with the times of their acceptance.\<close>

inductive replay_run ::
  "'a hs_env \<Rightarrow> HandshakePolicy \<Rightarrow> int \<Rightarrow> hs_state \<Rightarrow> (string \<times> VersionMsg \<times> int) list \<Rightarrow> bool" for E P after where
  start: "hs_NonceCache s = Some \<lparr>sc_byPeer = (\<lambda>_. None), sc_expungeAfter = after\<rparr> \<Longrightarrow> replay_run E P after s []"
| accept: "replay_run E P after s log \<Longrightarrow> applyAntiReplay E P pid m s = (Inr (), t) \<Longrightarrow>
    replay_run E P after t ((pid, m, hs_now s) # log)"
| reject: "replay_run E P after s log \<Longrightarrow> applyAntiReplay E P pid m s = (Inl e, t) \<Longrightarrow> replay_run E P after t log"
| tick: "replay_run E P after s log \<Longrightarrow> hs_now s \<le> now \<Longrightarrow> replay_run E P after (s\<lparr>hs_now := now\<rparr>) log"
| expunge: "replay_run E P after s log \<Longrightarrow>
    replay_run E P after (s\<lparr>hs_NonceCache := map_option (Nonce_expunge (hs_now s)) (hs_NonceCache s),
      hs_MessageHashCache := map_option (Hash_expunge (hs_now s)) (hs_MessageHashCache s)\<rparr>) log"

definition logged :: "int \<Rightarrow> TimestampChecker \<Rightarrow> int \<Rightarrow> NonceCache \<Rightarrow> string \<times> VersionMsg \<times> int \<Rightarrow> bool" where
  "logged after tc now c entry \<longleftrightarrow>
     (case entry of (pid, m, at) \<Rightarrow> at \<le> now \<and> vm_Timestamp m * 1000000000 \<le> at + tc_FutureAllow tc
        \<and> (remembers c pid (vm_Nonce m) at \<or> at + after < now))"

definition replay_inv ::
  "int \<Rightarrow> TimestampChecker \<Rightarrow> hs_state \<Rightarrow> (string \<times> VersionMsg \<times> int) list \<Rightarrow> bool" where
  "replay_inv after tc s log \<longleftrightarrow>
     (\<exists>c. hs_NonceCache s = Some c \<and> sc_expungeAfter c = after \<and> (\<forall>e\<in>set log. logged after tc (hs_now s) c e))
     \<and> distinct (map (\<lambda>(pid, m, at). (pid, m)) log)"

lemma logged_record:
  "logged after tc now c e \<Longrightarrow> RecordNonce now pid n c = (q, c') \<Longrightarrow> logged after tc now c' e"
  by (auto simp: logged_def RecordNonce_def dest: recordKey_keeps_memory)

lemma logged_later: "logged after tc now c e \<Longrightarrow> now \<le> now' \<Longrightarrow> logged after tc now' c e"
  by (auto simp: logged_def)

lemma logged_expunge:
  "logged after tc now c e \<Longrightarrow> sc_expungeAfter c = after \<Longrightarrow> logged after tc now (Nonce_expunge now c) e"
  by (auto simp: logged_def Nonce_expunge_def intro: expunge_keeps_memory)

text \<open>A message in the log is not accepted again: its nonce is remembered, or its timestamp is too old.\<close>

lemma logged_not_fresh:
  assumes "logged after tc now c (pid, m, at)" "tc_Window tc + tc_FutureAllow tc \<le> after"
    and "RejectExpiredUnix tc now (vm_Timestamp m) = Inr ()" "RecordNonce now pid (vm_Nonce m) c = (Inr (), c')"
  shows False
proof (cases "remembers c pid (vm_Nonce m) at")
  case True
  from remembers_rejects [OF this, of ErrReusedNonce now] assms(4) show False by (simp add: RecordNonce_def)
next
  case False
  with assms(1) have "at + after < now" "vm_Timestamp m * 1000000000 \<le> at + tc_FutureAllow tc" by (auto simp: logged_def)
  with assms(2,3) show False by (simp add: RejectExpiredUnix_def RejectExpired_def fail_if_Inr)
qed

lemma replay_run_inv:
  assumes "replay_run E P after s log" "hp_TimestampChecker P = Some tc" "tc_Window tc + tc_FutureAllow tc \<le> after"
  shows "replay_inv after tc s log"
  using assms(1)
proof (induction rule: replay_run.induct)
  case (start s)
  then show ?case by (simp add: replay_inv_def)
next
  case (accept s log pid m t)
  from accept.IH obtain c where c: "hs_NonceCache s = Some c" "sc_expungeAfter c = after"
    "\<forall>e\<in>set log. logged after tc (hs_now s) c e" and d: "distinct (map (\<lambda>(pid, m, at). (pid, m)) log)"
    unfolding replay_inv_def by blast
  from accept.hyps(2) c(1) assms(2) obtain c' where ts: "RejectExpiredUnix tc (hs_now s) (vm_Timestamp m) = Inr ()"
    and rec: "RecordNonce (hs_now s) pid (vm_Nonce m) c = (Inr (), c')" and t: "hs_NonceCache t = Some c'" "hs_now t = hs_now s"
    by (cases rule: applyAntiReplay_cases) auto
  have "(pid, m) \<notin> set (map (\<lambda>(pid, m, at). (pid, m)) log)"
    using c(3) logged_not_fresh [OF _ assms(3) ts rec] by auto
  moreover have "logged after tc (hs_now s) c' (pid, m, hs_now s)"
    using ts recordKey_remembers [OF rec [unfolded RecordNonce_def]]
    by (simp add: logged_def RejectExpiredUnix_def RejectExpired_def fail_if_Inr)
  moreover have "sc_expungeAfter c' = after" using recordKey_expungeAfter rec c(2) by (fastforce simp: RecordNonce_def)
  ultimately show ?case
    using c(3) d t logged_record [OF _ rec] unfolding replay_inv_def by auto
next
  case (reject s log pid m e t)
  from reject.IH obtain c where c: "hs_NonceCache s = Some c" "sc_expungeAfter c = after"
    "\<forall>e\<in>set log. logged after tc (hs_now s) c e" and d: "distinct (map (\<lambda>(pid, m, at). (pid, m)) log)"
    unfolding replay_inv_def by blast
  from reject.hyps(2) c(1) assms(2) show ?case
  proof (cases rule: applyAntiReplay_cases)
    case expired
    with reject.IH show ?thesis by simp
  next
    case (checked q c')
    then have "sc_expungeAfter c' = after" using recordKey_expungeAfter c(2) by (fastforce simp: RecordNonce_def)
    with checked c(3) d logged_record show ?thesis unfolding replay_inv_def by auto
  qed
next
  case (tick s log now)
  then show ?case unfolding replay_inv_def using logged_later by fastforce
next
  case (expunge s log)
  then obtain c where c: "hs_NonceCache s = Some c" "sc_expungeAfter c = after"
    "\<forall>e\<in>set log. logged after tc (hs_now s) c e" and d: "distinct (map (\<lambda>(pid, m, at). (pid, m)) log)"
    unfolding replay_inv_def by blast
  with logged_expunge show ?case unfolding replay_inv_def by (auto simp: Nonce_expunge_def)
qed

text \<open>C20. When idle nonces are kept at least as long as a timestamp can stay in its window, that is for the window and the
  future allowance together, no version message of a peer is ever accepted twice, whatever messages arrive in between and
  whenever the caches are expunged.\<close>
theorem no_replay_accepted:
  assumes "replay_run E P after s log" "hp_TimestampChecker P = Some tc" "tc_Window tc + tc_FutureAllow tc \<le> after"
  shows "distinct (map (\<lambda>(pid, m, at). (pid, m)) log)"
  using replay_run_inv [OF assms] by (simp add: replay_inv_def)

subsection \<open>Credentials\<close>

text \<open>With credentials required, the initiating side accepts a responder only when one of the configured authorities
  signed the responder's peer ID, and a challenge response that is present is a signature of the nonce it sent.\<close>
theorem initiator_checks_token:
  assumes "initiatorWithState E P L pid io s = (Inr (learned, remote), t)" "hp_RequireCredential P"
  shows "st_recvVersion io = Inr remote \<and> vm_AuthScheme remote = hp_AuthScheme P
    \<and> (\<exists>caPub\<in>set (hp_CAPubKeys P). \<exists>sig. he_b64Decode E (vm_AuthProof remote) = Inr sig \<and> he_Ed25519Verify E caPub pid sig)
    \<and> (vm_ChallengeResponse remote = [] \<or>
       (\<exists>verify sig. he_PubKeyVerify E pid = Some verify \<and> he_b64Decode E (vm_ChallengeResponse remote) = Inr sig
          \<and> verify (nonceBytes (word_of_int (hs_now s))) sig = Inr True))"
proof -
  from assms have r: "st_recvVersion io = Inr remote" "vm_AuthScheme remote = hp_AuthScheme P"
    and tok: "verifyTokenAny E (hp_CAPubKeys P) pid (vm_AuthProof remote)"
    and chal: "vm_ChallengeResponse remote \<noteq> [] \<longrightarrow>
      verifyChallengeResponse E pid (word_of_int (hs_now s)) (vm_ChallengeResponse remote) = Inr ()"
    by (auto simp: initiatorWithState_def Let_def op_inv initiatorVersion_def split: if_splits)
  from tok have "\<exists>caPub\<in>set (hp_CAPubKeys P). \<exists>sig. he_b64Decode E (vm_AuthProof remote) = Inr sig \<and> he_Ed25519Verify E caPub pid sig"
    by (cases "he_b64Decode E (vm_AuthProof remote)") (auto simp: verifyTokenAny_def verifyToken_def list_ex_iff)
  moreover have "vm_ChallengeResponse remote = [] \<or>
       (\<exists>verify sig. he_PubKeyVerify E pid = Some verify \<and> he_b64Decode E (vm_ChallengeResponse remote) = Inr sig
          \<and> verify (nonceBytes (word_of_int (hs_now s))) sig = Inr True)"
    using chal by (auto simp: verifyChallengeResponse_def result_inv split: option.splits)
  ultimately show ?thesis using r by blast
qed

lemma applyAntiReplay_no_hashes:
  assumes "hs_MessageHashCache s = None"
  shows "applyAntiReplay E P pid (m\<lparr>vm_AuthProof := forged\<rparr>) s = applyAntiReplay E P pid m s"
proof -
  have same: "checkHash E pid m' u = (Inr (), u)" if "hs_MessageHashCache u = None" for m' u
    using that by (simp add: checkHash_def)
  obtain q u where n: "onNonceCache (RecordNonce (hs_now s) pid (vm_Nonce m)) s = (q, u)" by fastforce
  then have "hs_MessageHashCache u = None" using assms by (auto simp: onNonceCache_def split: option.splits prod.splits)
  with n same show ?thesis
    by (cases "hp_TimestampChecker P"; cases q)
      (simp_all add: applyAntiReplay_def readS_def bindS_def liftR_def split: sum.split)
qed

lemma validateVersion_proof:
  "vm_AuthProof m \<noteq> [] \<Longrightarrow> proof \<noteq> [] \<Longrightarrow> validateVersion (m\<lparr>vm_AuthProof := proof\<rparr>) P = validateVersion m P"
  by (simp add: validateVersion_def)

text \<open>The responding side never looks at the initiator's token: without the hash cache, whose entries differ, the
  outcome of the exchange and everything it leaves behind are the same for every non-empty proof, whatever authorities are configured.\<close>
theorem responder_ignores_token:
  assumes "st_recvVersion io = Inr m" "vm_AuthProof m \<noteq> []" "forged \<noteq> []" "hs_MessageHashCache s = None"
  shows "responder E P L pid (io\<lparr>st_recvVersion := Inr (m\<lparr>vm_AuthProof := forged\<rparr>)\<rparr>) s = responder E P L pid io s"
proof -
  let ?m = "m\<lparr>vm_AuthProof := forged\<rparr>" and ?io = "io\<lparr>st_recvVersion := Inr (m\<lparr>vm_AuthProof := forged\<rparr>)\<rparr>"
  have body: "responderBody E P L pid ?io u = responderBody E P L pid io u" if "hs_MessageHashCache u = None" for u
  proof -
    have rv: "responderVersion E P L now ?m sig = responderVersion E P L now m sig" for now sig
      by (cases "he_provider E") (simp_all add: responderVersion_def)
    show ?thesis
      unfolding responderBody_def
      using assms(1) applyAntiReplay_no_hashes [OF that, where m = m and forged = forged and E = E and P = P and pid = pid] validateVersion_proof [OF assms(2,3)]
      by (simp add: bindS_def liftR_def rv)
  qed
  obtain r u where a: "admitPeer pid s = (r, u)" by fastforce
  then have "hs_MessageHashCache u = None"
    using assms(4) by (auto simp: admitPeer_def Let_def split: option.splits prod.splits if_splits)
  with a body show ?thesis by (cases r) (simp_all add: responder_def bindS_def)
qed

subsection \<open>The gate\<close>

definition counted_of :: "string \<Rightarrow> gate \<Rightarrow> nat" where
  "counted_of pid g = length (filter (\<lambda>e. snd e = pid) (g_counted g))"

text \<open>Runs of the gate with the peers that have completed a handshake since they last had no connection. Streams have identities, and a
  stream is closed on the connection it was opened on.\<close>

inductive gate_run :: "'a hs_env \<Rightarrow> gate \<Rightarrow> string set \<Rightarrow> bool" for E where
  start: "g_verified g = {} \<Longrightarrow> g_counted g = [] \<Longrightarrow> gate_cap g = Some c \<Longrightarrow> pc_byPeer c = (\<lambda>_. 0) \<Longrightarrow> 0 \<le> pc_cap c \<Longrightarrow>
    gate_run E g {}"
| connected: "gate_run E g done_peers \<Longrightarrow> gate_Connected pid g = (a, g') \<Longrightarrow> gate_run E g' done_peers"
| finished: "gate_run E g done_peers \<Longrightarrow> gate_finish E pid outcome g = (a, g') \<Longrightarrow>
    gate_run E g' (if is_ok outcome then insert pid done_peers else done_peers)"
| responded: "gate_run E g done_peers \<Longrightarrow> gate_run E (markVerified pid g) (insert pid done_peers)"
| network: "gate_run E g done_peers \<Longrightarrow> gate_run E (g\<lparr>g_conns := conns\<rparr>) done_peers"
| disconnected: "gate_run E g done_peers \<Longrightarrow>
    gate_run E (gate_Disconnected pid g) (if g_conns g pid = 0 then done_peers - {pid} else done_peers)"
| opened: "gate_run E g done_peers \<Longrightarrow> sid \<notin> fst ` set (g_counted g) \<Longrightarrow>
    gate_OpenedStream sid protocol pid g = (ok, g') \<Longrightarrow> gate_run E g' done_peers"
| closed: "gate_run E g done_peers \<Longrightarrow> (\<forall>p. (sid, p) \<in> set (g_counted g) \<longrightarrow> p = pid) \<Longrightarrow>
    gate_run E (gate_ClosedStream sid pid g) done_peers"

definition gate_ok :: "gate \<Rightarrow> string set \<Rightarrow> bool" where
  "gate_ok g done_peers \<longleftrightarrow>
     g_verified g \<subseteq> done_peers \<and> distinct (map fst (g_counted g)) \<and>
     (\<exists>c. gate_cap g = Some c \<and> (\<forall>pid. pc_byPeer c pid = int (counted_of pid g) \<and> int (counted_of pid g) \<le> pc_cap c))"

lemma gate_ok_same:
  "gate_ok g done_peers \<Longrightarrow> g_verified g' \<subseteq> g_verified g \<Longrightarrow> g_counted g' = g_counted g \<Longrightarrow> gate_cap g' = gate_cap g \<Longrightarrow>
   gate_ok g' done_peers"
  by (auto simp: gate_ok_def counted_of_def)

lemma cap_onMitigation:
  "(\<And>am. am_ResourceCap (f am) = am_ResourceCap am) \<Longrightarrow>
   gate_cap (g\<lparr>g_hs := onMitigation f hs\<rparr>) = gate_cap (g\<lparr>g_hs := hs\<rparr>)"
  by (auto simp: gate_cap_def onMitigation_def split: option.splits)

lemma admitPeer_cap:
  "admitPeer pid hs = (r, hs') \<Longrightarrow>
   map_option am_ResourceCap (hs_AttackMitigation hs') = map_option am_ResourceCap (hs_AttackMitigation hs)"
  by (auto simp: admitPeer_def Let_def split: option.splits prod.splits if_splits)

lemma gate_cap_map: "gate_cap g = (case map_option am_ResourceCap (hs_AttackMitigation (g_hs g)) of None \<Rightarrow> None | Some c \<Rightarrow> c)"
  by (auto simp: gate_cap_def split: option.splits)

lemma Connected_ok: "gate_ok g d \<Longrightarrow> gate_Connected pid g = (a, g') \<Longrightarrow> gate_ok g' d"
proof -
  assume ok: "gate_ok g d" and run: "gate_Connected pid g = (a, g')"
  obtain r hs where adm: "admitPeer pid (g_hs g) = (r, hs)" by fastforce
  from run adm have "g_verified g' = g_verified g" "g_counted g' = g_counted g" "g_hs g' = hs"
    by (auto simp: gate_Connected_def split: sum.splits if_splits)
  with ok admitPeer_cap [OF adm] show ?thesis by (auto intro!: gate_ok_same [OF ok] simp: gate_cap_map)
qed

lemma markVerified_ok: "gate_ok g d \<Longrightarrow> gate_ok (markVerified pid g) (insert pid d)"
  by (auto simp: markVerified_def gate_ok_def counted_of_def gate_cap_def)

lemma finish_ok:
  assumes ok: "gate_ok g d" and run: "gate_finish E pid outcome g = (a, g')"
  shows "gate_ok g' (if is_ok outcome then insert pid d else d)"
proof -
  have *: "gate_ok (g\<lparr>g_inflight := x, g_hs := onMitigation f (g_hs g)\<rparr>) d"
    if "\<And>am. am_ResourceCap (f am) = am_ResourceCap am" for f x
    using that by (intro gate_ok_same [OF ok]) (auto simp: gate_cap_def onMitigation_def split: option.splits)
  show ?thesis
  proof (cases outcome)
    case (Inl e)
    with run * show ?thesis by (auto simp: gate_finish_def punish_def Let_def)
  next
    case (Inr u)
    with run show ?thesis by (auto simp: gate_finish_def Let_def intro!: markVerified_ok *)
  qed
qed

lemma Disconnected_ok:
  "gate_ok g d \<Longrightarrow> gate_ok (gate_Disconnected pid g) (if g_conns g pid = 0 then d - {pid} else d)"
  by (auto simp: gate_Disconnected_def gate_ok_def counted_of_def gate_cap_def onMitigation_def Let_def split: option.splits)

lemma Opened_ok:
  assumes ok: "gate_ok g d" and new: "sid \<notin> fst ` set (g_counted g)"
    and run: "gate_OpenedStream sid protocol pid g = (allowed, g')"
  shows "gate_ok g' d"
proof -
  from ok obtain c where c: "gate_cap g = Some c" "\<forall>p. pc_byPeer c p = int (counted_of p g) \<and> int (counted_of p g) \<le> pc_cap c"
    unfolding gate_ok_def by blast
  show ?thesis
  proof (cases "(protocol = HandshakeProtocolID \<or> pid \<in> g_verified g) \<and> pc_byPeer c pid < pc_cap c")
    case True
    with run c(1) have g': "g' = onCap (\<lambda>_. c\<lparr>pc_byPeer := (pc_byPeer c)(pid := pc_byPeer c pid + 1)\<rparr>) (g\<lparr>g_counted := (sid, pid) # g_counted g\<rparr>)"
      by (auto simp: gate_OpenedStream_def Cap_Increment_def)
    from c(1) have "gate_cap g' = Some (c\<lparr>pc_byPeer := (pc_byPeer c)(pid := pc_byPeer c pid + 1)\<rparr>)"
      by (auto simp: g' gate_cap_def onCap_def onMitigation_def split: option.splits)
    moreover have "counted_of p g' = counted_of p g + (if p = pid then 1 else 0)" for p
      by (simp add: g' onCap_def counted_of_def)
    moreover have "g_verified g' \<subseteq> d" "distinct (map fst (g_counted g'))"
      using ok new by (auto simp: gate_ok_def g' onCap_def)
    ultimately show ?thesis unfolding gate_ok_def using c(2) True by auto
  next
    case False
    with run c(1) have "g' = g" by (auto simp: gate_OpenedStream_def Cap_Increment_def split: if_splits)
    with ok show ?thesis by simp
  qed
qed

lemma counted_of_close:
  assumes "distinct (map fst xs)" "(sid, pid) \<in> set xs"
  shows "length (filter (\<lambda>e. snd e = p) (filter (\<lambda>e. fst e \<noteq> sid) xs))
    = length (filter (\<lambda>e. snd e = p) xs) - (if p = pid then 1 else 0)"
proof -
  have "map_of xs sid = Some pid" using assms by simp
  from filter_remove_length [OF assms(1) this, of "\<lambda>e. snd e = p"] show ?thesis by auto
qed

lemma Closed_ok:
  assumes ok: "gate_ok g d" and own: "\<forall>p. (sid, p) \<in> set (g_counted g) \<longrightarrow> p = pid"
  shows "gate_ok (gate_ClosedStream sid pid g) d"
proof -
  from ok obtain c where c: "gate_cap g = Some c" "\<forall>p. pc_byPeer c p = int (counted_of p g) \<and> int (counted_of p g) \<le> pc_cap c"
    and d: "distinct (map fst (g_counted g))" "g_verified g \<subseteq> d"
    unfolding gate_ok_def by blast
  show ?thesis
  proof (cases "sid \<in> fst ` set (g_counted g)")
    case True
    with own have mem: "(sid, pid) \<in> set (g_counted g)" by auto
    let ?g = "gate_ClosedStream sid pid g"
    have g': "?g = onCap (Cap_Decrement pid) (g\<lparr>g_counted := filter (\<lambda>e. fst e \<noteq> sid) (g_counted g)\<rparr>)"
      using True c(1) by (simp add: gate_ClosedStream_def)
    have cap: "gate_cap ?g = Some (Cap_Decrement pid c)"
      using c(1) by (auto simp: g' gate_cap_def onCap_def onMitigation_def split: option.splits)
    have cnt: "counted_of p ?g = counted_of p g - (if p = pid then 1 else 0)" for p
      using counted_of_close [OF d(1) mem] by (simp add: counted_of_def g' onCap_def)
    have "0 < counted_of pid g" using mem by (force simp: counted_of_def filter_empty_conv)
    then have "pc_byPeer (Cap_Decrement pid c) p = int (counted_of p ?g) \<and> int (counted_of p ?g) \<le> pc_cap (Cap_Decrement pid c)" for p
      using c(2) [rule_format, of p] c(2) [rule_format, of pid] by (auto simp: Cap_Decrement_def cnt)
    moreover have "g_verified ?g \<subseteq> d" "distinct (map fst (g_counted ?g))"
      using d by (auto simp: g' onCap_def intro: distinct_map_filter)
    ultimately show ?thesis using cap unfolding gate_ok_def by blast
  next
    case False
    with ok c(1) show ?thesis by (simp add: gate_ClosedStream_def)
  qed
qed

lemma gate_run_ok: "gate_run E g d \<Longrightarrow> gate_ok g d"
proof (induction rule: gate_run.induct)
  case start
  then show ?case by (simp add: gate_ok_def counted_of_def)
next
  case network
  then show ?case by (simp add: gate_ok_def counted_of_def gate_cap_def)
next
  case finished
  then show ?case by (blast intro: finish_ok)
next
  case disconnected
  then show ?case by (intro Disconnected_ok)
qed (auto intro: Connected_ok markVerified_ok Opened_ok Closed_ok)

text \<open>In every run of the gate, a stream that it lets through and that is not a handshake belongs to a peer that has completed a
  handshake since it last had no connection, and the streams counted for a peer are exactly those it has open
  and never more than its cap.\<close>
theorem gate_admission:
  assumes "gate_run E g done_peers" "gate_OpenedStream sid protocol pid g = (True, g')" "protocol \<noteq> HandshakeProtocolID"
    "sid \<notin> fst ` set (g_counted g)"
  shows "pid \<in> done_peers \<and> (\<exists>c. gate_cap g' = Some c \<and> Cap_Usage pid c = int (counted_of pid g') \<and> Cap_Usage pid c \<le> pc_cap c)"
proof -
  have ok: "gate_ok g done_peers" by (rule gate_run_ok [OF assms(1)])
  from assms(2,3) have "pid \<in> g_verified g" by (auto simp: gate_OpenedStream_def split: if_splits)
  with ok have "pid \<in> done_peers" by (auto simp: gate_ok_def)
  moreover from Opened_ok [OF ok assms(4,2)]
  have "\<exists>c. gate_cap g' = Some c \<and> Cap_Usage pid c = int (counted_of pid g') \<and> Cap_Usage pid c \<le> pc_cap c"
    by (auto simp: gate_ok_def Cap_Usage_def)
  ultimately show ?thesis by blast
qed

end
