(* ===== verification/Net_Handshake_Witness.thy ===== *)
theory Net_Handshake_Witness
  imports Net_Handshake_Props
begin

text \<open>
  A small instance of the handshake: a codec that keeps the agent and the proof only, keys that sign by prefixing, and base64 that is the
  identity. With the defaults of \<open>EnableAntiReplay\<close> a replay is accepted.
\<close>

definition exEnv :: "bytes hs_env" where
  "exEnv = \<lparr>he_Marshal = (\<lambda>m. Inr (vm_Agent m @ vm_AuthProof m)), he_Sum256 = (\<lambda>b. b), he_b64Encode = (\<lambda>b. b), he_b64Decode = Inr,
     he_Ed25519Verify = (\<lambda>k m sig. sig = k @ m), he_PrivKeySign = Some (\<lambda>b. Inr (''key'' @ b)),
     he_PubKeyVerify = (\<lambda>_. Some (\<lambda>b sig. Inr (sig = ''key'' @ b))), he_AddrInfo = Some, he_Addrs = (\<lambda>_. []), he_ip_of = Some,
     he_ResolveASN = None, he_provider = None\<rparr>"

definition exPolicy :: HandshakePolicy where
  "exPolicy = \<lparr>hp_MinAgentVersion = ''sng40/0.1.0'', hp_ServicesAllow = 0, hp_Timeout = 0, hp_RequireCredential = True,
     hp_AuthScheme = ''token-ed25519-v1'', hp_CAPubKeys = [''ca''], hp_Token = ''caself'',
     hp_TimestampChecker = None\<rparr>"

definition exLocal :: HandshakeLocal where
  "exLocal = \<lparr>hl_Agent = ''sng40/0.1.0'', hl_Services = 1, hl_StartHeight = 0, hl_WantPeerlist = False, hl_ListenAddrs = [],
     hl_StateHeadCID = [], hl_StateHeight = 0\<rparr>"

definition exState0 :: "int \<Rightarrow> hs_state" where
  "exState0 now = \<lparr>hs_now = now, hs_NonceCache = None, hs_MessageHashCache = None, hs_AttackMitigation = None\<rparr>"

definition exMsg :: "string \<Rightarrow> VersionMsg" where
  "exMsg token = \<lparr>vm_Nonce = 7, vm_Services = 1, vm_Agent = ''sng40/0.2.0'', vm_StartHeight = 0, vm_Timestamp = 1000, vm_StateHeadCID = [],
     vm_StateHeight = 0, vm_AuthScheme = ''token-ed25519-v1'', vm_AuthProof = token, vm_WantPeerlist = False, vm_ListenAddrs = [],
     vm_Peers = [], vm_ChallengeResponse = []\<rparr>"

definition exStream :: "VersionMsg \<Rightarrow> stream" where
  "exStream m = \<lparr>st_recvVersion = Inr m, st_sendVersion = (\<lambda>_. Inr ()), st_recvVerack = Inr (), st_sendVerack = Inr ()\<rparr>"

subsection \<open>Replays\<close>

definition antiReplay :: "HandshakePolicy \<times> hs_state" where
  "antiReplay = EnableAntiReplay exPolicy (exState0 1000000000000)"

definition expungeAll :: "hs_state \<Rightarrow> hs_state" where
  "expungeAll s = s\<lparr>hs_NonceCache := map_option (Nonce_expunge (hs_now s)) (hs_NonceCache s),
     hs_MessageHashCache := map_option (Hash_expunge (hs_now s)) (hs_MessageHashCache s)\<rparr>"

text \<open>The message arrives, the peer is idle for a little more than three minutes, the caches are expunged, and the same message
  arrives again within four minutes of its timestamp.\<close>

definition firstArrival :: "unit result \<times> hs_state" where
  "firstArrival = applyAntiReplay exEnv (fst antiReplay) ''p'' (exMsg ''cap'') (snd antiReplay)"

definition secondArrival :: "unit result \<times> hs_state" where
  "secondArrival = applyAntiReplay exEnv (fst antiReplay) ''p'' (exMsg ''cap'')
     (expungeAll ((snd firstArrival)\<lparr>hs_now := 1000000000000 + 4 * Minute\<rparr>))"

text \<open>With the components that \<open>EnableAntiReplay\<close> installs, a version message is accepted a second time four minutes after it was
  accepted first: idle nonces and hashes are forgotten after three minutes and the timestamp is good for five.\<close>
theorem default_replay_accepted:
  "EnableAntiReplay exPolicy (exState0 1000000000000) = antiReplay
   \<and> fst (applyAntiReplay exEnv (fst antiReplay) ''p'' (exMsg ''cap'') (snd antiReplay)) = Inr ()
   \<and> fst (applyAntiReplay exEnv (fst antiReplay) ''p'' (exMsg ''cap'')
        (expungeAll ((snd firstArrival)\<lparr>hs_now := 1000000000000 + 4 * Minute\<rparr>))) = Inr ()"
proof (intro conjI)
  show "EnableAntiReplay exPolicy (exState0 1000000000000) = antiReplay" by (simp add: antiReplay_def)
qed code_simp+

text \<open>With the longest time that \<open>NonceExpungeAfter\<close> allows and no future allowance the condition is met.\<close>

definition safePolicy :: HandshakePolicy where
  "safePolicy = exPolicy\<lparr>hp_TimestampChecker := Some (TimestampFutureAllow 0 NewTimestampChecker)\<rparr>"

definition safeStart :: hs_state where
  "safeStart = (exState0 1000000000000)\<lparr>hs_NonceCache := Some (NonceExpungeAfter (10 * Minute) NewNonceCache)\<rparr>"

theorem no_replay_accepted_witness:
  "\<exists>t. applyAntiReplay exEnv safePolicy ''p'' (exMsg ''cap'') safeStart = (Inr (), t)
     \<and> distinct (map (\<lambda>(pid, m, at). (pid, m)) [(''p'', exMsg ''cap'', 1000000000000 :: int)])"
proof -
  have "hs_NonceCache safeStart = Some \<lparr>sc_byPeer = (\<lambda>_. None), sc_expungeAfter = 5 * Minute\<rparr>"
    by (simp add: safeStart_def NonceExpungeAfter_def clampExpungeAfter_def NewNonceCache_def newCache_def Minute_def
        MinNonceExpungeAfter_def MaxNonceExpungeAfter_def)
  then have run: "replay_run exEnv safePolicy (5 * Minute) safeStart []" by (rule replay_run.start)
  have "fst (applyAntiReplay exEnv safePolicy ''p'' (exMsg ''cap'') safeStart) = Inr ()" by code_simp
  then obtain t where t: "applyAntiReplay exEnv safePolicy ''p'' (exMsg ''cap'') safeStart = (Inr (), t)"
    by (metis prod.collapse)
  have "hs_now safeStart = 1000000000000" by code_simp
  with replay_run.accept [OF run t] have "replay_run exEnv safePolicy (5 * Minute) t [(''p'', exMsg ''cap'', 1000000000000)]" by simp
  from no_replay_accepted [OF this, of "TimestampFutureAllow 0 NewTimestampChecker"] t
  show ?thesis
    by (simp add: safePolicy_def TimestampFutureAllow_def NewTimestampChecker_def DefaultTimestampWindow_def Minute_def)
qed

subsection \<open>Credentials\<close>

theorem initiator_checks_token_witness:
  "fst (initiatorWithState exEnv exPolicy exLocal ''p'' (exStream (exMsg ''cap'')) (exState0 1000)) = Inr ([], exMsg ''cap'')
   \<and> (\<exists>caPub\<in>set (hp_CAPubKeys exPolicy). \<exists>sig. he_b64Decode exEnv ''cap'' = Inr sig \<and> he_Ed25519Verify exEnv caPub ''p'' sig)"
proof -
  have f: "fst (initiatorWithState exEnv exPolicy exLocal ''p'' (exStream (exMsg ''cap'')) (exState0 1000)) = Inr ([], exMsg ''cap'')"
    by code_simp
  then obtain t where "initiatorWithState exEnv exPolicy exLocal ''p'' (exStream (exMsg ''cap'')) (exState0 1000)
      = (Inr ([], exMsg ''cap''), t)" by (metis prod.collapse)
  moreover have "hp_RequireCredential exPolicy" by code_simp
  ultimately have "\<exists>caPub\<in>set (hp_CAPubKeys exPolicy). \<exists>sig. he_b64Decode exEnv (vm_AuthProof (exMsg ''cap'')) = Inr sig
      \<and> he_Ed25519Verify exEnv caPub ''p'' sig" using initiator_checks_token by blast
  with f show ?thesis by (simp add: exMsg_def)
qed

text \<open>A proof that no authority signed is accepted.\<close>

theorem responder_ignores_token_witness:
  "hp_RequireCredential exPolicy \<and> \<not> verifyTokenAny exEnv (hp_CAPubKeys exPolicy) ''p'' ''forged''
   \<and> is_ok (fst (responder exEnv exPolicy exLocal ''p'' (exStream (exMsg ''forged'')) (exState0 1000)))"
proof -
  have "(exStream (exMsg ''cap''))\<lparr>st_recvVersion := Inr ((exMsg ''cap'')\<lparr>vm_AuthProof := ''forged''\<rparr>)\<rparr> = exStream (exMsg ''forged'')"
    by (simp add: exStream_def exMsg_def)
  moreover have "responder exEnv exPolicy exLocal ''p''
      ((exStream (exMsg ''cap''))\<lparr>st_recvVersion := Inr ((exMsg ''cap'')\<lparr>vm_AuthProof := ''forged''\<rparr>)\<rparr>) (exState0 1000)
    = responder exEnv exPolicy exLocal ''p'' (exStream (exMsg ''cap'')) (exState0 1000)"
    by (rule responder_ignores_token) (simp_all add: exStream_def exMsg_def exState0_def)
  moreover have "is_ok (fst (responder exEnv exPolicy exLocal ''p'' (exStream (exMsg ''cap'')) (exState0 1000)))"
  proof -
    have "validateVersion (exMsg ''cap'') exPolicy = Inr ()" by code_simp
    moreover have "applyAntiReplay exEnv exPolicy ''p'' (exMsg ''cap'') (exState0 1000) = (Inr (), exState0 1000)"
      by (simp add: applyAntiReplay_def exPolicy_def exState0_def readS_def onNonceCache_def checkHash_def bindS_def liftR_def)
    moreover have "vm_AuthScheme (exMsg ''cap'') = hp_AuthScheme exPolicy" by code_simp
    ultimately show ?thesis
      by (simp add: responder_def admitPeer_def responderBody_def exStream_def exState0_def bindS_def liftR_def readS_def
          signChallenge_def exEnv_def Let_def)
  qed
  moreover have "hp_RequireCredential exPolicy \<and> \<not> verifyTokenAny exEnv (hp_CAPubKeys exPolicy) ''p'' ''forged''" by code_simp
  ultimately show ?thesis by simp
qed

subsection \<open>The gate\<close>

definition exGate :: gate where
  "exGate = \<lparr>g_verified = {}, g_inflight = {}, g_counted = [], g_conns = (\<lambda>_. 1), g_hs = EnableAttackMitigation (exState0 0)\<rparr>"

theorem gate_admission_witness:
  "\<exists>g'. gate_OpenedStream 1 ''/app'' ''p'' (markVerified ''p'' exGate) = (True, g')
     \<and> (\<exists>c. gate_cap g' = Some c \<and> Cap_Usage ''p'' c = int (counted_of ''p'' g') \<and> Cap_Usage ''p'' c \<le> pc_cap c)"
proof -
  have "gate_run exEnv exGate {}"
    by (rule gate_run.start [of _ NewPeerResourceCap])
      (simp_all add: exGate_def gate_cap_def EnableAttackMitigation_def exState0_def NewPeerResourceCap_def)
  from gate_run.responded [OF this] have run: "gate_run exEnv (markVerified ''p'' exGate) {''p''}" by simp
  have "fst (gate_OpenedStream 1 ''/app'' ''p'' (markVerified ''p'' exGate)) = True" by code_simp
  then obtain g' where o: "gate_OpenedStream 1 ''/app'' ''p'' (markVerified ''p'' exGate) = (True, g')" by (metis prod.collapse)
  moreover have "g_counted (markVerified ''p'' exGate) = []" by code_simp
  ultimately show ?thesis
    using gate_admission [OF run o] by (simp add: HandshakeProtocolID_def)
qed

end
