(* ===== verification/Sync_IBLT.thy ===== *)
theory Sync_IBLT
  imports Go_Binary "HOL-Library.Multiset"
begin

unbundle bit_operations_syntax

text \<open>
  \<open>internal/sync/iblt.go\<close>, \<open>reconcile.go\<close> and \<open>catalog.go\<close>: invertible Bloom lookup tables, the difference of two tables and its
  extraction, and the messages of the exchange. Content identifiers are their texts, \<open>cid.Decode\<close> and \<open>Defined\<close> are
  parameters, and a reader is the list of bytes it will deliver. The hashes are the FNV hashes of the standard library. The loop
  of \<open>Peel\<close> is a partial function: for some tables it does not end.
\<close>

subsection \<open>Hashes\<close>

definition fnvPrime :: u64 where "fnvPrime = 1099511628211"
definition fnvOffset :: u64 where "fnvOffset = 14695981039346656037"

definition fnv64a :: "bytes \<Rightarrow> u64" where
  "fnv64a b = foldl (\<lambda>h c. (h XOR of_nat (byte c)) * fnvPrime) fnvOffset b"

definition fnv64 :: "bytes \<Rightarrow> u64" where
  "fnv64 b = foldl (\<lambda>h c. (h * fnvPrime) XOR of_nat (byte c)) fnvOffset b"

definition KeyHash :: "bytes \<Rightarrow> u64" where
  "KeyHash key = fnv64a key"

subsection \<open>Tables\<close>

record IBLTCell =
  cl_Count :: int
  cl_KeySum :: u64
  cl_HashSum :: u64

record IBLT =
  ib_CellCount :: nat
  ib_Cells :: "IBLTCell list"
  ib_HashCount :: int

definition DefaultHashCount :: int where "DefaultHashCount = 3"

definition emptyCell :: IBLTCell where
  "emptyCell = \<lparr>cl_Count = 0, cl_KeySum = 0, cl_HashSum = 0\<rparr>"

definition NewIBLT :: "int \<Rightarrow> IBLT" where
  "NewIBLT cellCount =
     (let n = (if cellCount \<le> 0 then 1024 else nat cellCount) in
      \<lparr>ib_CellCount = n, ib_Cells = replicate n emptyCell, ib_HashCount = DefaultHashCount\<rparr>)"

definition cellIndexFromHash :: "nat \<Rightarrow> u64 \<Rightarrow> nat \<Rightarrow> nat" where
  "cellIndexFromHash cellCount keyHash i =
     unat (fnv64a (BE_PutUint64 keyHash @ BE_PutUint64 (of_nat i)) mod of_nat cellCount)"

definition hashSumFromKeyHash :: "u64 \<Rightarrow> u64" where
  "hashSumFromKeyHash keyHash = fnv64 (BE_PutUint64 keyHash)"

definition hashes :: "IBLT \<Rightarrow> nat" where
  "hashes t = (if ib_HashCount t \<le> 0 then nat DefaultHashCount else nat (ib_HashCount t))"

definition bump :: "int \<Rightarrow> u64 \<Rightarrow> u64 \<Rightarrow> IBLTCell \<Rightarrow> IBLTCell" where
  "bump s keyHash hashSum c =
     \<lparr>cl_Count = cl_Count c + s, cl_KeySum = cl_KeySum c XOR keyHash, cl_HashSum = cl_HashSum c XOR hashSum\<rparr>"

definition modcell :: "nat \<Rightarrow> (IBLTCell \<Rightarrow> IBLTCell) \<Rightarrow> IBLTCell list \<Rightarrow> IBLTCell list" where
  "modcell i f cells = cells[i := f (cells ! i)]"

text \<open>The loop over the cells of one key, which \<open>Insert\<close> (\<open>s = 1\<close>), \<open>Delete\<close> (\<open>s = -1\<close>) and \<open>Peel\<close> share.\<close>

definition addHash :: "int \<Rightarrow> u64 \<Rightarrow> IBLT \<Rightarrow> IBLT" where
  "addHash s keyHash t =
     t\<lparr>ib_Cells := fold (\<lambda>i. modcell (cellIndexFromHash (ib_CellCount t) keyHash i)
         (bump s keyHash (hashSumFromKeyHash keyHash))) [0..<hashes t] (ib_Cells t)\<rparr>"

definition IBLT_Insert :: "bytes \<Rightarrow> IBLT \<Rightarrow> IBLT" where
  "IBLT_Insert key t = (if ib_Cells t = [] then t else addHash 1 (KeyHash key) t)"

definition IBLT_Delete :: "bytes \<Rightarrow> IBLT \<Rightarrow> IBLT" where
  "IBLT_Delete key t = (if ib_Cells t = [] then t else addHash (- 1) (KeyHash key) t)"

definition cellDiff :: "IBLTCell \<Rightarrow> IBLTCell \<Rightarrow> IBLTCell" where
  "cellDiff a b = \<lparr>cl_Count = cl_Count a - cl_Count b, cl_KeySum = cl_KeySum a XOR cl_KeySum b,
     cl_HashSum = cl_HashSum a XOR cl_HashSum b\<rparr>"

definition Subtract :: "IBLT \<Rightarrow> IBLT \<Rightarrow> IBLT option" where
  "Subtract t other =
     (if ib_CellCount t \<noteq> ib_CellCount other \<or> ib_HashCount t \<noteq> ib_HashCount other
         \<or> length (ib_Cells t) \<noteq> length (ib_Cells other) then None
      else Some ((NewIBLT (int (ib_CellCount t)))\<lparr>ib_Cells := map2 cellDiff (ib_Cells t) (ib_Cells other)\<rparr>))"

subsection \<open>Peeling\<close>

definition pureCell :: "IBLT \<Rightarrow> nat \<Rightarrow> bool" where
  "pureCell t i \<longleftrightarrow>
     (let c = ib_Cells t ! i in
      (cl_Count c = 1 \<or> cl_Count c = - 1)
      \<and> (\<exists>j\<in>set [0..<hashes t]. cellIndexFromHash (ib_CellCount t) (cl_KeySum c) j = i)
      \<and> hashSumFromKeyHash (cl_KeySum c) = cl_HashSum c)"

definition peelOne :: "IBLT \<Rightarrow> (int \<times> u64 \<times> IBLT) option" where
  "peelOne t =
     (case List.find (pureCell t) [0..<length (ib_Cells t)] of
        None \<Rightarrow> None
      | Some i \<Rightarrow>
          let c = ib_Cells t ! i in
          Some (cl_Count c, cl_KeySum c, addHash (- cl_Count c) (cl_KeySum c) t))"

partial_function (option) peelLoop :: "IBLT \<Rightarrow> u64 list \<Rightarrow> u64 list \<Rightarrow> (IBLT \<times> u64 list \<times> u64 list) option" where
  "peelLoop t pos neg =
     (case peelOne t of
        None \<Rightarrow> Some (t, pos, neg)
      | Some (s, keyHash, t') \<Rightarrow>
          if s = 1 then peelLoop t' (pos @ [keyHash]) neg else peelLoop t' pos (neg @ [keyHash]))"

definition Peel :: "IBLT \<Rightarrow> (IBLT \<times> u64 list \<times> u64 list) option" where
  "Peel t = (if ib_Cells t = [] then Some (t, [], []) else peelLoop t [] [])"

definition HasUnpeeled :: "IBLT \<Rightarrow> bool" where
  "HasUnpeeled t \<longleftrightarrow> (\<exists>c\<in>set (ib_Cells t). cl_Count c \<noteq> 0 \<or> cl_KeySum c \<noteq> 0 \<or> cl_HashSum c \<noteq> 0)"

text \<open>\<open>None\<close> when the extraction does not end.\<close>

definition ExtractDifference :: "IBLT \<Rightarrow> IBLT \<Rightarrow> (u64 list \<times> u64 list \<times> bool) result option" where
  "ExtractDifference local remote =
     (case Subtract local remote of
        None \<Rightarrow> Some (Inl (ErrMsg ''incompatible IBLT (cell count or hash count mismatch)''))
      | Some diff \<Rightarrow>
          (case Peel diff of
             None \<Rightarrow> None
           | Some (rest, pos, neg) \<Rightarrow> Some (Inr (pos, neg, HasUnpeeled rest))))"

subsection \<open>Messages\<close>

definition int32_of :: "u32 \<Rightarrow> int" where "int32_of w = sint w"

definition marshalCell :: "IBLTCell \<Rightarrow> bytes" where
  "marshalCell c = LE_PutUint32 (word_of_int (cl_Count c)) @ LE_PutUint64 (cl_KeySum c) @ LE_PutUint64 (cl_HashSum c)"

definition MarshalIBLT :: "IBLT \<Rightarrow> bytes result" where
  "MarshalIBLT t =
     (if ib_Cells t = [] then Inr []
      else fail_if (int (length (ib_Cells t)) > 2147483647) (ErrMsg ''iblt too large to marshal'')
        (Inr (LE_PutUint32 (of_nat (length (ib_Cells t)))
              @ [char_of (nat ((if ib_HashCount t < 0 \<or> ib_HashCount t > 32 then DefaultHashCount else ib_HashCount t) mod 256))]
              @ concat (map marshalCell (ib_Cells t)))))"

definition unmarshalCell :: "bytes \<Rightarrow> IBLTCell" where
  "unmarshalCell b = \<lparr>cl_Count = int32_of (LE_Uint32 (take 4 b)), cl_KeySum = LE_Uint64 (take 8 (drop 4 b)),
     cl_HashSum = LE_Uint64 (take 8 (drop 12 b))\<rparr>"

definition UnmarshalIBLT :: "bytes \<Rightarrow> IBLT result" where
  "UnmarshalIBLT data =
     fail_if (length data < 5) ErrIBLTMessageTooShort
     (let cellCount = unat (LE_Uint32 (take 4 data));
          hashCount = int (byte (data ! 4)) in
      fail_if (length data < 5 + cellCount * 20) ErrIBLTMessageTooShort
      (let t = NewIBLT (int cellCount) in
       Inr (t\<lparr>ib_HashCount := (if hashCount \<le> 0 \<or> hashCount > 32 then DefaultHashCount else hashCount),
              ib_Cells := map (\<lambda>i. unmarshalCell (take 20 (drop (5 + i * 20) data))) [0..<cellCount]
                @ drop cellCount (ib_Cells t)\<rparr>)))"

text \<open>\<open>io.ReadFull\<close> of a number of bytes.\<close>

definition ReadFull :: "nat \<Rightarrow> (bytes, bytes) op" where
  "ReadFull n s = (if length s < n then (Inl ErrUnexpectedEOF, []) else (Inr (take n s), drop n s))"

definition ReadIBLT :: "(bytes, IBLT) op" where
  "ReadIBLT =
     bindS (ReadFull 4) (\<lambda>lenBuf.
     let n = LE_Uint32 lenBuf in
     fail_ifS (n > 1048576) (ErrMsg ''iblt message length too large'')
     (bindS (ReadFull (unat n)) (\<lambda>buf. liftR (UnmarshalIBLT buf))))"

definition WriteIBLT :: "IBLT \<Rightarrow> bytes result" where
  "WriteIBLT t =
     bindR (MarshalIBLT t) (\<lambda>buf.
     Inr (if buf = [] then [] else LE_PutUint32 (of_nat (length buf)) @ buf))"

definition BuildIBLTFromCIDs :: "('c \<Rightarrow> bool) \<Rightarrow> ('c \<Rightarrow> string) \<Rightarrow> 'c list \<Rightarrow> int \<Rightarrow> IBLT" where
  "BuildIBLTFromCIDs defined str cids cellCount =
     foldl (\<lambda>t c. if defined c then IBLT_Insert (str c) t else t) (NewIBLT (if cellCount \<le> 0 then 256 else cellCount)) cids"

definition CIDsForKeyHashes :: "('c \<Rightarrow> bool) \<Rightarrow> ('c \<Rightarrow> string) \<Rightarrow> 'c list \<Rightarrow> u64 list \<Rightarrow> 'c list" where
  "CIDsForKeyHashes defined str cids keyHashes = filter (\<lambda>c. defined c \<and> KeyHash (str c) \<in> set keyHashes) cids"

definition WriteFetchRequest :: "u64 list \<Rightarrow> bytes result" where
  "WriteFetchRequest keyHashes =
     fail_if (int (length keyHashes) > 2 ^ 20) ErrFetchCountTooLarge
     (Inr (LE_PutUint32 (of_nat (length keyHashes)) @ concat (map LE_PutUint64 keyHashes)))"

primrec readHashes :: "nat \<Rightarrow> (bytes, u64 list) op" where
  "readHashes 0 = retS []"
| "readHashes (Suc n) = bindS (ReadFull 8) (\<lambda>b. bindS (readHashes n) (\<lambda>hs. retS (LE_Uint64 b # hs)))"

definition ReadFetchRequest :: "int \<Rightarrow> (bytes, u64 list) op" where
  "ReadFetchRequest maxCount =
     bindS (ReadFull 4) (\<lambda>b.
     let n = unat (LE_Uint32 b) in
     fail_ifS (int n > (if maxCount \<le> 0 then 65536 else maxCount)) ErrFetchCountTooLarge (readHashes n))"

definition WriteFetchResponse :: "('c \<Rightarrow> string) \<Rightarrow> 'c list \<Rightarrow> bytes" where
  "WriteFetchResponse str cids =
     LE_PutUint32 (of_nat (length cids))
     @ concat (map (\<lambda>c. if int (length (str c)) > 65535 then [] else LE_PutUint32 (of_nat (length (str c))) @ str c) cids)"

primrec readCIDs :: "(string \<Rightarrow> 'c result) \<Rightarrow> nat \<Rightarrow> (bytes, 'c list) op" where
  "readCIDs decode 0 = retS []"
| "readCIDs decode (Suc n) =
     bindS (ReadFull 4) (\<lambda>b.
     let ln = LE_Uint32 b in
     fail_ifS (ln > 1024) ErrFetchCountTooLarge
     (bindS (ReadFull (unat ln)) (\<lambda>s.
      bindS (readCIDs decode n) (\<lambda>cs. retS (case decode s of Inl _ \<Rightarrow> cs | Inr c \<Rightarrow> c # cs)))))"

definition ReadFetchResponse :: "(string \<Rightarrow> 'c result) \<Rightarrow> int \<Rightarrow> (bytes, 'c list) op" where
  "ReadFetchResponse decode maxCount =
     bindS (ReadFull 4) (\<lambda>b.
     let n = unat (LE_Uint32 b) in
     fail_ifS (int n > (if maxCount \<le> 0 then 65536 else maxCount)) ErrFetchCountTooLarge (readCIDs decode n))"

end
