(* ===== verification/Sync_IBLT_Props.thy ===== *)
theory Sync_IBLT_Props
  imports Sync_IBLT
begin

unbundle bit_operations_syntax

text \<open>
  What the reconciliation of two sets by tables does. Adding and removing keys are commuting, mutually inverse operations on a
  table (the locale \<open>signed_table\<close>), so the difference of two tables is the table of the two set differences, and what
  \<open>Peel\<close> takes out can be put back: a difference that was extracted completely is exactly the difference of the tables.
  \<open>Peel\<close> ends on a difference of one key, and does not end on some tables a peer can send.
\<close>

subsection \<open>Reversible updates\<close>

locale signed_table =
  fixes add rem :: "'k \<Rightarrow> 't \<Rightarrow> 't"
  assumes add_add: "add x (add y t) = add y (add x t)"
    and rem_add: "rem x (add x t) = t"
    and add_rem: "add x (rem x t) = t"
begin

lemma add_rem_swap: "add x (rem y t) = rem y (add x t)"
  by (metis add_add rem_add add_rem)

lemma rem_rem: "rem x (rem y t) = rem y (rem x t)"
  by (metis add_rem_swap rem_add add_rem)

lemma fold_add_in: "add x (fold add ks t) = fold add ks (add x t)"
  by (induction ks arbitrary: t) (simp_all add: add_add)

lemma fold_rem_in: "rem x (fold rem ks t) = fold rem ks (rem x t)"
  by (induction ks arbitrary: t) (simp_all add: rem_rem)

lemma fold_rem_add_in: "add x (fold rem ks t) = fold rem ks (add x t)"
  by (induction ks arbitrary: t) (simp_all add: add_rem_swap)

lemma fold_add_rem_in: "rem x (fold add ks t) = fold add ks (rem x t)"
  by (induction ks arbitrary: t) (simp_all add: add_rem_swap)

lemma fold_rem_add: "fold rem ks (fold add ks t) = t"
  by (induction ks arbitrary: t) (simp_all add: rem_add fold_add_rem_in [symmetric] fold_rem_in [symmetric] fold_add_in [symmetric])

lemma fold_add_rem: "fold add ks (fold rem ks t) = t"
  by (induction ks arbitrary: t) (simp_all add: add_rem fold_add_rem_in [symmetric] fold_rem_in [symmetric] fold_rem_add_in [symmetric] fold_add_in [symmetric])

lemma fold_swap: "fold add ks (fold rem ls t) = fold rem ls (fold add ks t)"
  by (induction ks arbitrary: t) (simp_all add: fold_rem_add_in)

lemma fold_add_perm: "mset ks = mset ls \<Longrightarrow> fold add ks t = fold add ls t"
  by (rule fun_cong [where x = t], rule fold_multiset_equiv) (auto simp: fun_eq_iff add_add)

lemma fold_rem_perm: "mset ks = mset ls \<Longrightarrow> fold rem ks t = fold rem ls t"
  by (rule fun_cong [where x = t], rule fold_multiset_equiv) (auto simp: fun_eq_iff rem_rem)

text \<open>Adding one list and removing another leaves what the two have in common out.\<close>

lemma fold_cancel:
  assumes "mset ks = c + mset ps" "mset ls = c + mset ns"
  shows "fold rem ls (fold add ks t) = fold rem ns (fold add ps t)"
proof -
  obtain cs where cs: "mset cs = c" using ex_mset by blast
  have "fold add ks t = fold add (ps @ cs) t" and "fold rem ls u = fold rem (cs @ ns) u" for u
    by (rule fold_add_perm, simp add: assms cs) (rule fold_rem_perm, simp add: assms cs)
  then show ?thesis by (simp add: fold_rem_add)
qed

end

subsection \<open>The table as such a structure\<close>

lemma modcell_swap:
  assumes "\<And>c. f (g c) = g (f c)"
  shows "modcell i f (modcell j g cells) = modcell j g (modcell i f cells)"
  using assms by (cases "i = j"; cases "i < length cells") (auto simp: modcell_def list_update_swap list_update_beyond)

lemma modcell_inverse: "(\<And>c. f (g c) = c) \<Longrightarrow> modcell i f (modcell i g cells) = cells"
  by (cases "i < length cells") (auto simp: modcell_def list_update_beyond)

lemma length_modcell [simp]: "length (modcell i f cells) = length cells"
  by (simp add: modcell_def)

lemma bump_swap: "bump s k h (bump s' k' h' c) = bump s' k' h' (bump s k h c)"
  by (simp add: bump_def ac_simps xor.left_commute)

lemma modcell_bump_swap:
  "modcell i (bump s k h) (modcell j (bump s' k' h') cells) = modcell j (bump s' k' h') (modcell i (bump s k h) cells)"
  by (rule modcell_swap) (rule bump_swap)

lemma bump_inverse [simp]: "bump (- s) k h (bump s k h c) = c" "bump s k h (bump (- s) k h c) = c"
  by (simp_all add: bump_def xor.assoc)

text \<open>The cells of one key, with the update of each.\<close>

abbreviation touch :: "nat \<Rightarrow> int \<Rightarrow> u64 \<Rightarrow> nat list \<Rightarrow> IBLTCell list \<Rightarrow> IBLTCell list" where
  "touch n s k js \<equiv> fold (\<lambda>i. modcell (cellIndexFromHash n k i) (bump s k (hashSumFromKeyHash k))) js"

lemma length_touch [simp]: "length (touch n s k js cells) = length cells"
  by (induction js arbitrary: cells) simp_all

lemma touch_modcell: "modcell i (bump s k h) (touch n s' k' js cells) = touch n s' k' js (modcell i (bump s k h) cells)"
  by (induction js arbitrary: cells) (simp_all add: modcell_bump_swap)

lemma touch_swap: "touch n s k js (touch n s' k' js' cells) = touch n s' k' js' (touch n s k js cells)"
  by (induction js arbitrary: cells) (simp_all add: touch_modcell)

lemma touch_inverse: "touch n (- s) k js (touch n s k js cells) = cells"
  by (induction js arbitrary: cells)
    (simp_all add: touch_modcell [symmetric] modcell_inverse)

lemma addHash_keeps [simp]:
  "ib_CellCount (addHash s k t) = ib_CellCount t" "ib_HashCount (addHash s k t) = ib_HashCount t"
  "hashes (addHash s k t) = hashes t" "length (ib_Cells (addHash s k t)) = length (ib_Cells t)"
  by (simp_all add: addHash_def hashes_def)

lemma addHash_swap: "addHash s k (addHash s' k' t) = addHash s' k' (addHash s k t)"
  by (simp add: addHash_def hashes_def touch_swap)

lemma addHash_inverse: "addHash (- s) k (addHash s k t) = t"
  by (simp add: addHash_def hashes_def touch_inverse)

interpretation it: signed_table "addHash 1" "addHash (- 1)"
  using addHash_inverse [of 1] addHash_inverse [of "- 1"]
  by unfold_locales (simp_all add: addHash_swap)

text \<open>The table of added and of removed key hashes.\<close>

definition tableOf :: "int \<Rightarrow> u64 list \<Rightarrow> u64 list \<Rightarrow> IBLT" where
  "tableOf n ps ns = fold (addHash (- 1)) ns (fold (addHash 1) ps (NewIBLT n))"

lemma fold_addHash_keeps [simp]:
  "ib_CellCount (fold (addHash s) ks t) = ib_CellCount t" "ib_HashCount (fold (addHash s) ks t) = ib_HashCount t"
  "hashes (fold (addHash s) ks t) = hashes t" "length (ib_Cells (fold (addHash s) ks t)) = length (ib_Cells t)"
  by (induction ks arbitrary: t) simp_all

lemma NewIBLT_shape [simp]:
  "ib_CellCount (NewIBLT n) = (if n \<le> 0 then 1024 else nat n)" "ib_HashCount (NewIBLT n) = 3"
  "ib_Cells (NewIBLT n) = replicate (if n \<le> 0 then 1024 else nat n) emptyCell" "hashes (NewIBLT n) = 3"
  by (simp_all add: NewIBLT_def DefaultHashCount_def hashes_def Let_def)

lemma tableOf_shape [simp]:
  "ib_CellCount (tableOf n ps ns) = (if n \<le> 0 then 1024 else nat n)" "ib_HashCount (tableOf n ps ns) = 3"
  "length (ib_Cells (tableOf n ps ns)) = (if n \<le> 0 then 1024 else nat n)" "hashes (tableOf n ps ns) = 3"
  by (simp_all add: tableOf_def)

lemma tableOf_cons:
  "tableOf n (p # ps) ns = addHash 1 p (tableOf n ps ns)" "tableOf n ps (q # ns) = addHash (- 1) q (tableOf n ps ns)"
  by (simp_all add: tableOf_def it.fold_add_in it.fold_rem_in it.fold_rem_add_in)

lemma Build_tableOf:
  "BuildIBLTFromCIDs defined str cids n =
     tableOf (if n \<le> 0 then 256 else n) (map (KeyHash \<circ> str) (filter defined cids)) []"
proof -
  have "foldl (\<lambda>t c. if defined c then IBLT_Insert (str c) t else t) t cids
      = fold (addHash 1) (map (KeyHash \<circ> str) (filter defined cids)) t" if "ib_Cells t \<noteq> []" for t
    using that
  proof (induction cids arbitrary: t)
    case (Cons c cids)
    then have "ib_Cells (addHash 1 (KeyHash (str c)) t) \<noteq> []" by (metis addHash_keeps(4) length_0_conv)
    with Cons show ?case by (auto simp: IBLT_Insert_def)
  qed simp
  then show ?thesis by (simp add: BuildIBLTFromCIDs_def tableOf_def)
qed

subsection \<open>Subtraction\<close>

lemma map2_modcell_left:
  "length xs = length ys \<Longrightarrow> map2 cellDiff (modcell i (bump s k h) xs) ys = modcell i (bump s k h) (map2 cellDiff xs ys)"
  by (cases "i < length xs")
    (auto simp: modcell_def bump_def cellDiff_def ac_simps intro!: nth_equalityI simp: nth_list_update)

lemma map2_modcell_right:
  "length xs = length ys \<Longrightarrow> map2 cellDiff xs (modcell i (bump s k h) ys) = modcell i (bump (- s) k h) (map2 cellDiff xs ys)"
  by (cases "i < length xs")
    (auto simp: modcell_def bump_def cellDiff_def ac_simps intro!: nth_equalityI simp: nth_list_update)

lemma map2_touch:
  "length xs = length ys \<Longrightarrow> map2 cellDiff (touch n s k js xs) ys = touch n s k js (map2 cellDiff xs ys)"
  "length xs = length ys \<Longrightarrow> map2 cellDiff xs (touch n s k js ys) = touch n (- s) k js (map2 cellDiff xs ys)"
  by (induction js arbitrary: xs ys) (simp_all add: map2_modcell_left map2_modcell_right)

lemma Subtract_add:
  assumes "Subtract t u = Some d" "ib_HashCount t = 3" "ib_CellCount t > 0"
  shows "Subtract (addHash s k t) u = Some (addHash s k d)" "Subtract t (addHash s k u) = Some (addHash (- s) k d)"
  using assms by (auto simp: Subtract_def addHash_def hashes_def map2_touch split: if_splits)

lemma Subtract_tableOf: "Subtract (tableOf n as []) (tableOf n bs []) = Some (tableOf n as bs)"
proof (induction bs)
  case Nil
  show ?case
  proof (induction as)
    case Nil
    show ?case
      by (auto simp: Subtract_def tableOf_def NewIBLT_def Let_def cellDiff_def emptyCell_def zip_replicate)
  next
    case (Cons a as)
    then show ?case by (simp add: tableOf_cons Subtract_add(1))
  qed
next
  case (Cons b bs)
  then show ?case by (simp add: tableOf_cons Subtract_add(2))
qed


lemma tableOf_cancel:
  assumes "mset ps = mset as - mset bs" "mset ns = mset bs - mset as"
  shows "tableOf n as bs = tableOf n ps ns"
  unfolding tableOf_def
proof (rule it.fold_cancel)
  show "mset as = (mset as \<inter># mset bs) + mset ps" "mset bs = (mset as \<inter># mset bs) + mset ns"
    by (auto simp: assms multiset_eq_iff)
qed

subsection \<open>Peeling\<close>

lemma peelOne_SomeD:
  "peelOne t = Some (s, k, t') \<Longrightarrow> (s = 1 \<or> s = - 1) \<and> t' = addHash (- s) k t"
  by (auto simp: peelOne_def Let_def pureCell_def find_Some_iff split: option.splits)

lemma peelOne_None_iff: "peelOne t = None \<longleftrightarrow> (\<forall>i < length (ib_Cells t). \<not> pureCell t i)"
  by (auto simp: peelOne_def Let_def find_None_iff find_Some_iff split: option.splits)

text \<open>What was taken out, put back, gives the table of before; nothing pure is left.\<close>

definition peeled :: "IBLT \<Rightarrow> u64 list \<Rightarrow> u64 list \<Rightarrow> IBLT \<times> u64 list \<times> u64 list \<Rightarrow> bool" where
  "peeled t pos neg res \<longleftrightarrow>
     (case res of (r, pos', neg') \<Rightarrow>
        peelOne r = None
        \<and> (\<exists>ps ns. pos' = pos @ ps \<and> neg' = neg @ ns \<and> t = fold (addHash (- 1)) ns (fold (addHash 1) ps r)))"

lemma peeled_step:
  "t = addHash 1 k t' \<Longrightarrow> peeled t' (pos @ [k]) neg res \<Longrightarrow> peeled t pos neg res"
  "t = addHash (- 1) k t' \<Longrightarrow> peeled t' pos (neg @ [k]) res \<Longrightarrow> peeled t pos neg res"
proof -
  assume t: "t = addHash 1 k t'" and "peeled t' (pos @ [k]) neg res"
  then obtain r ps ns where "res = (r, pos @ k # ps, neg @ ns)" "peelOne r = None"
    "t' = fold (addHash (- 1)) ns (fold (addHash 1) ps r)" by (auto simp: peeled_def)
  moreover from this t have "t = fold (addHash (- 1)) ns (fold (addHash 1) (k # ps) r)"
    by (simp add: it.fold_rem_add_in it.fold_add_in)
  ultimately show "peeled t pos neg res" unfolding peeled_def by blast
next
  assume t: "t = addHash (- 1) k t'" and "peeled t' pos (neg @ [k]) res"
  then obtain r ps ns where "res = (r, pos @ ps, neg @ k # ns)" "peelOne r = None"
    "t' = fold (addHash (- 1)) ns (fold (addHash 1) ps r)" by (auto simp: peeled_def)
  moreover from this t have "t = fold (addHash (- 1)) (k # ns) (fold (addHash 1) ps r)"
    by (simp add: it.fold_add_rem_in it.fold_rem_in)
  ultimately show "peeled t pos neg res" unfolding peeled_def by blast
qed

lemma peelOne_undo: "peelOne t = Some (s, k, t') \<Longrightarrow> (s = 1 \<or> s = - 1) \<and> t = addHash s k t'"
  using peelOne_SomeD [of t s k t'] it.add_rem [of k t] it.rem_add [of k t] by auto

lemma peelLoop_peeled: "peelLoop t pos neg = Some res \<Longrightarrow> peeled t pos neg res"
proof (rule peelLoop.raw_induct [where P = peeled])
  fix loop t pos neg res
  assume IH: "\<And>t pos neg res. loop t pos neg = Some res \<Longrightarrow> peeled t pos neg res"
    and step: "(case peelOne t of None \<Rightarrow> Some (t, pos, neg)
      | Some (s, k, t') \<Rightarrow> if s = 1 then loop t' (pos @ [k]) neg else loop t' pos (neg @ [k])) = Some res"
  show "peeled t pos neg res"
  proof (cases "peelOne t")
    case None
    with step show ?thesis by (auto simp: peeled_def)
  next
    case (Some r)
    obtain s k t' where r: "r = (s, k, t')" by (cases r)
    with Some peelOne_undo consider "s = 1" "t = addHash 1 k t'" | "s = - 1" "t = addHash (- 1) k t'" by blast
    then show ?thesis
    proof cases
      case 1
      with step Some r have "loop t' (pos @ [k]) neg = Some res" by simp
      then show ?thesis by (intro peeled_step(1) [OF 1(2)] IH)
    next
      case 2
      with step Some r have "loop t' pos (neg @ [k]) = Some res" by simp
      then show ?thesis by (intro peeled_step(2) [OF 2(2)] IH)
    qed
  qed
qed

lemma Peel_peeled: "ib_Cells t \<noteq> [] \<Longrightarrow> Peel t = Some res \<Longrightarrow> peeled t [] [] res"
  by (simp add: Peel_def peelLoop_peeled)

lemma cleared: "\<not> HasUnpeeled r \<Longrightarrow> ib_Cells r = replicate (length (ib_Cells r)) emptyCell"
  by (intro replicate_eqI) (auto simp: HasUnpeeled_def emptyCell_def)

lemma Peel_complete:
  assumes "Peel (tableOf n as bs) = Some (r, pos, neg)" "\<not> HasUnpeeled r"
  shows "tableOf n as bs = tableOf n pos neg"
proof -
  have "ib_Cells (tableOf n as bs) \<noteq> []" by (metis length_0_conv tableOf_shape(3) less_irrefl linorder_not_le nat_0_iff zero_neq_numeral)
  from Peel_peeled [OF this assms(1)]
  have t: "tableOf n as bs = fold (addHash (- 1)) neg (fold (addHash 1) pos r)" by (simp add: peeled_def)
  then have r: "r = fold (addHash (- 1)) pos (fold (addHash 1) neg (tableOf n as bs))"
    by (simp add: it.fold_add_rem it.fold_rem_add)
  have "ib_CellCount r = ib_CellCount (NewIBLT n)" "ib_HashCount r = ib_HashCount (NewIBLT n)"
    "length (ib_Cells r) = length (ib_Cells (NewIBLT n))" using r by simp_all
  with cleared [OF assms(2)] have "r = NewIBLT n" by (intro IBLT.equality) simp_all
  with t show ?thesis by (simp add: tableOf_def)
qed


subsection \<open>A difference of one key\<close>

lemma touch_nth:
  "i < length cells \<Longrightarrow>
     touch n s k js cells ! i
       = (bump s k (hashSumFromKeyHash k) ^^ length (filter (\<lambda>j. cellIndexFromHash n k j = i) js)) (cells ! i)"
  by (induction js arbitrary: cells) (auto simp: modcell_def funpow_swap1)

text \<open>How many of the three hashes of a key choose a cell.\<close>

definition hits :: "nat \<Rightarrow> u64 \<Rightarrow> nat \<Rightarrow> nat" where
  "hits n k i = length (filter (\<lambda>j. cellIndexFromHash n k j = i) [0..<3])"

lemma bump_empty:
  "(bump s k h ^^ m) emptyCell =
     \<lparr>cl_Count = int m * s, cl_KeySum = (if odd m then k else 0), cl_HashSum = (if odd m then h else 0)\<rparr>"
  by (induction m) (auto simp: bump_def emptyCell_def algebra_simps)

lemma addHash_cells: "ib_Cells (addHash s k t) = touch (ib_CellCount t) s k [0..<hashes t] (ib_Cells t)"
  by (simp add: addHash_def)

lemma addHash_nth:
  assumes "hashes t = 3" "i < length (ib_Cells t)"
  shows "ib_Cells (addHash s k t) ! i
    = (bump s k (hashSumFromKeyHash k) ^^ hits (ib_CellCount t) k i) (ib_Cells t ! i)"
  using touch_nth [OF assms(2), of "ib_CellCount t" k s "[0..<3]"]
  by (simp only: addHash_cells assms(1) hits_def)

lemma single_cell:
  assumes "i < nat n"
  shows "ib_Cells (addHash s k (NewIBLT n)) ! i =
     \<lparr>cl_Count = int (hits (nat n) k i) * s, cl_KeySum = (if odd (hits (nat n) k i) then k else 0),
      cl_HashSum = (if odd (hits (nat n) k i) then hashSumFromKeyHash k else 0)\<rparr>"
proof -
  have "ib_CellCount (NewIBLT n) = nat n" "i < length (ib_Cells (NewIBLT n))" "ib_Cells (NewIBLT n) ! i = emptyCell"
    using assms by auto
  then show ?thesis by (simp only: addHash_nth NewIBLT_shape(4) bump_empty)
qed

lemma hits_index: "hits n k i = 1 \<Longrightarrow> \<exists>j\<in>set [0..<3]. cellIndexFromHash n k j = i"
  unfolding hits_def by (metis (mono_tags, lifting) filter_False list.size(3) zero_neq_one)

lemma single_pure:
  assumes "s = 1 \<or> s = - 1" "i < nat n"
  shows "pureCell (addHash s k (NewIBLT n)) i \<longleftrightarrow> hits (nat n) k i = 1"
proof -
  have "0 < n" using assms(2) by simp
  then show ?thesis using assms hits_index [of "nat n" k i]
    by (auto simp: pureCell_def single_cell)
qed

lemma empty_not_pure: "peelOne (NewIBLT n) = None"
  by (simp add: peelOne_None_iff pureCell_def emptyCell_def)

lemma single_peelOne:
  assumes s: "s = 1 \<or> s = - 1" and i: "i < nat n" "hits (nat n) k i = 1"
  shows "peelOne (addHash s k (NewIBLT n)) = Some (s, k, NewIBLT n)"
proof -
  have pos: "0 < n" using i by simp
  have "peelOne (addHash s k (NewIBLT n)) \<noteq> None"
    using i pos by (auto simp: peelOne_None_iff single_pure [OF s])
  then obtain m where m: "List.find (pureCell (addHash s k (NewIBLT n))) [0..<nat n] = Some m"
    and one: "peelOne (addHash s k (NewIBLT n)) = Some (cl_Count (ib_Cells (addHash s k (NewIBLT n)) ! m),
      cl_KeySum (ib_Cells (addHash s k (NewIBLT n)) ! m),
      addHash (- cl_Count (ib_Cells (addHash s k (NewIBLT n)) ! m)) (cl_KeySum (ib_Cells (addHash s k (NewIBLT n)) ! m)) (addHash s k (NewIBLT n)))"
    using pos by (auto simp: peelOne_def Let_def split: option.splits)
  from m have "m < nat n" "hits (nat n) k m = 1"
    by (auto simp: find_Some_iff single_pure [OF s])
  then have "cl_Count (ib_Cells (addHash s k (NewIBLT n)) ! m) = s" "cl_KeySum (ib_Cells (addHash s k (NewIBLT n)) ! m) = k"
    by (simp_all add: single_cell)
  with one show ?thesis by (simp add: addHash_inverse)
qed

lemma nonempty_cells: "ib_Cells (addHash s k (NewIBLT n)) \<noteq> []"
proof -
  have "length (ib_Cells (addHash s k (NewIBLT n))) > 0" by simp
  then show ?thesis by blast
qed

lemma single_Peel:
  assumes "i < nat n" "hits (nat n) k i = 1"
  shows "Peel (addHash 1 k (NewIBLT n)) = Some (NewIBLT n, [k], [])" "Peel (addHash (- 1) k (NewIBLT n)) = Some (NewIBLT n, [], [k])"
proof -
  have "ib_Cells (addHash s k (NewIBLT n)) \<noteq> []" for s
    using assms(1) by (simp add: nonempty_cells)
  then show "Peel (addHash 1 k (NewIBLT n)) = Some (NewIBLT n, [k], [])"
    "Peel (addHash (- 1) k (NewIBLT n)) = Some (NewIBLT n, [], [k])"
    using assms by (simp_all add: Peel_def peelLoop.simps single_peelOne empty_not_pure)
qed


subsection \<open>Tables on which the peeling never ends\<close>

text \<open>A table whose only cell in use claims a key that the other cells of the key do not have.\<close>

definition loneCell :: "nat \<Rightarrow> nat \<Rightarrow> u64 \<Rightarrow> int \<Rightarrow> IBLT" where
  "loneCell n a k s = (NewIBLT (int n))\<lparr>ib_Cells :=
     (replicate n emptyCell)[a := \<lparr>cl_Count = s, cl_KeySum = k, cl_HashSum = hashSumFromKeyHash k\<rparr>]\<rparr>"

lemma find_all:
  "x \<in> set xs \<Longrightarrow> P x \<Longrightarrow> \<exists>y\<in>set xs. P y \<and> List.find P xs = Some y"
  by (induction xs) auto

lemma peelOne_any:
  assumes "i < length (ib_Cells t)" "pureCell t i"
    and "\<And>j. j < length (ib_Cells t) \<Longrightarrow> pureCell t j \<Longrightarrow> cl_Count (ib_Cells t ! j) = s \<and> cl_KeySum (ib_Cells t ! j) = k"
  shows "peelOne t = Some (s, k, addHash (- s) k t)"
proof -
  from assms(1,2) find_all [of i "[0..<length (ib_Cells t)]" "pureCell t"]
  obtain j where "j < length (ib_Cells t)" "pureCell t j" "List.find (pureCell t) [0..<length (ib_Cells t)] = Some j" by auto
  with assms(3) show ?thesis by (simp add: peelOne_def)
qed

lemma loneCell_nth:
  assumes "i < n"
  shows "ib_Cells (loneCell n a k s) ! i =
    (if i = a then \<lparr>cl_Count = s, cl_KeySum = k, cl_HashSum = hashSumFromKeyHash k\<rparr> else emptyCell)"
  using assms by (simp add: loneCell_def)

lemma loneCell_shape [simp]:
  "0 < n \<Longrightarrow> ib_CellCount (loneCell n a k s) = n" "hashes (loneCell n a k s) = 3" "length (ib_Cells (loneCell n a k s)) = n"
  by (simp_all add: loneCell_def hashes_def)

lemma emptyCell_bump: "bump s k h emptyCell = \<lparr>cl_Count = s, cl_KeySum = k, cl_HashSum = h\<rparr>"
  by (simp add: bump_def emptyCell_def)

lemma loneCell_taken:
  assumes "a < n" "i < n" "hits n k a = 1"
  shows "ib_Cells (addHash (- 1) k (loneCell n a k 1)) ! i =
    (if i = a then emptyCell else (bump (- 1) k (hashSumFromKeyHash k) ^^ hits n k i) emptyCell)"
  using assms by (simp add: addHash_nth loneCell_nth emptyCell_bump [of 1, symmetric])

lemma hits_pure:
  assumes "hashes t = 3" "hits (ib_CellCount t) k i = 1" "ib_Cells t ! i = \<lparr>cl_Count = s, cl_KeySum = k, cl_HashSum = hashSumFromKeyHash k\<rparr>"
    "s = 1 \<or> s = - 1"
  shows "pureCell t i"
  using assms hits_index [OF assms(2)] by (auto simp: pureCell_def)

lemma emptyCell_Count: "cl_Count emptyCell = 0"
  by (simp add: emptyCell_def)

lemma loneCell_cycle:
  assumes a: "a < n" "hits n k a = 1" and b: "b < n" "b \<noteq> a" "hits n k b = 1"
  shows "peelOne (loneCell n a k 1) = Some (1, k, addHash (- 1) k (loneCell n a k 1))"
    and "peelOne (addHash (- 1) k (loneCell n a k 1)) = Some (- 1, k, loneCell n a k 1)"
proof -
  show "peelOne (loneCell n a k 1) = Some (1, k, addHash (- 1) k (loneCell n a k 1))"
  proof (rule peelOne_any [of a])
    show "pureCell (loneCell n a k 1) a" using a by (intro hits_pure [of _ k _ 1]) (simp_all add: loneCell_nth)
    show "cl_Count (ib_Cells (loneCell n a k 1) ! j) = 1 \<and> cl_KeySum (ib_Cells (loneCell n a k 1) ! j) = k"
      if "j < length (ib_Cells (loneCell n a k 1))" "pureCell (loneCell n a k 1) j" for j
      using that by (auto simp: pureCell_def loneCell_nth emptyCell_def split: if_splits)
  qed (use a in simp)
  have "peelOne (addHash (- 1) k (loneCell n a k 1)) = Some (- 1, k, addHash (- (- 1)) k (addHash (- 1) k (loneCell n a k 1)))"
  proof (rule peelOne_any [of b])
    show "pureCell (addHash (- 1) k (loneCell n a k 1)) b"
      using a b by (intro hits_pure [of _ k _ "- 1"]) (simp_all add: loneCell_taken emptyCell_bump)
    show "cl_Count (ib_Cells (addHash (- 1) k (loneCell n a k 1)) ! j) = - 1 \<and> cl_KeySum (ib_Cells (addHash (- 1) k (loneCell n a k 1)) ! j) = k"
      if "j < length (ib_Cells (addHash (- 1) k (loneCell n a k 1)))" "pureCell (addHash (- 1) k (loneCell n a k 1)) j" for j
      using that a by (cases "j = a") (auto simp: pureCell_def Let_def loneCell_taken bump_empty emptyCell_Count emptyCell_bump)
  qed (use b in simp)
  then show "peelOne (addHash (- 1) k (loneCell n a k 1)) = Some (- 1, k, loneCell n a k 1)"
    by (simp add: it.add_rem)
qed

lemma peel_cycle:
  assumes "peelOne t = Some (1, k, u)" "peelOne u = Some (- 1, k, t)"
  shows "peelLoop t pos neg = None"
proof -
  have "v \<noteq> t \<and> v \<noteq> u" if "peelLoop v pos neg = Some res" for v pos neg res
  proof (rule peelLoop.raw_induct [where P = "\<lambda>v pos neg res. v \<noteq> t \<and> v \<noteq> u", OF _ that])
    fix loop v pos neg res
    assume IH: "\<And>v pos neg (res :: IBLT \<times> u64 list \<times> u64 list). loop v pos neg = Some res \<Longrightarrow> v \<noteq> t \<and> v \<noteq> u"
      and step: "(case peelOne v of None \<Rightarrow> Some (v, pos, neg)
        | Some (s, k, t') \<Rightarrow> if s = 1 then loop t' (pos @ [k]) neg else loop t' pos (neg @ [k])) = Some res"
    show "v \<noteq> t \<and> v \<noteq> u"
      using IH [of u "pos @ [k]" neg res] IH [of t pos "neg @ [k]" res] step assms by auto
  qed
  then show ?thesis by (cases "peelLoop t pos neg") blast+
qed

lemma loneCell_diverges:
  "a < n \<Longrightarrow> hits n k a = 1 \<Longrightarrow> b < n \<Longrightarrow> b \<noteq> a \<Longrightarrow> hits n k b = 1 \<Longrightarrow> peelLoop (loneCell n a k 1) pos neg = None"
  by (rule peel_cycle) (rule loneCell_cycle; assumption)+

text \<open>The cells of the key hash 1 in a table of 256 cells.\<close>

lemma be_nat_numeral: "be_nat (numeral v) n = be_nat (pred_numeral v) (n div 256) @ [char_of (n mod 256)]"
  by (simp only: numeral_eq_Suc [of v] be_nat.simps)

lemma be_small:
  "BE_PutUint64 0 = [char_of (0 :: nat), char_of (0 :: nat), char_of (0 :: nat), char_of (0 :: nat), char_of (0 :: nat), char_of (0 :: nat), char_of (0 :: nat), char_of (0 :: nat)]"
  "BE_PutUint64 1 = [char_of (0 :: nat), char_of (0 :: nat), char_of (0 :: nat), char_of (0 :: nat), char_of (0 :: nat), char_of (0 :: nat), char_of (0 :: nat), char_of (1 :: nat)]"
  "BE_PutUint64 2 = [char_of (0 :: nat), char_of (0 :: nat), char_of (0 :: nat), char_of (0 :: nat), char_of (0 :: nat), char_of (0 :: nat), char_of (0 :: nat), char_of (2 :: nat)]"
  by (simp_all add: BE_PutUint64_def be_nat_numeral)

lemma index_256: "cellIndexFromHash 256 1 0 = 82" "cellIndexFromHash 256 1 (Suc 0) = 5" "cellIndexFromHash 256 1 2 = 236"
  by (simp_all add: cellIndexFromHash_def be_small fnv64a_def fnvOffset_def fnvPrime_def)

lemma hits_256: "hits 256 1 82 = 1" "hits 256 1 5 = 1"
  using index_256(3) [unfolded numeral_2_eq_2] by (simp_all add: hits_def upt_rec index_256)

subsection \<open>Messages\<close>

text \<open>Tables a message carries: at least one cell, counts of 32 bits, between 1 and 32 hashes.\<close>

definition wireTable :: "IBLT \<Rightarrow> bool" where
  "wireTable t \<longleftrightarrow> ib_Cells t \<noteq> [] \<and> ib_CellCount t = length (ib_Cells t) \<and> int (length (ib_Cells t)) \<le> 2147483647
     \<and> ib_HashCount t \<in> {1..32} \<and> (\<forall>c\<in>set (ib_Cells t). - 2147483648 \<le> cl_Count c \<and> cl_Count c < 2147483648)"

lemma length_marshalCell [simp]: "length (marshalCell c) = 20"
  by (simp add: marshalCell_def)

lemma unmarshal_marshal_cell:
  assumes "- 2147483648 \<le> cl_Count c" "cl_Count c < 2147483648"
  shows "unmarshalCell (marshalCell c) = c"
proof -
  have "sint (word_of_int (cl_Count c) :: u32) = cl_Count c"
    using assms by (simp add: signed_of_int signed_take_bit_int_eq_self)
  then show ?thesis by (simp add: unmarshalCell_def marshalCell_def int32_of_def)
qed

lemma concat_chunk:
  "(\<And>x. x \<in> set xs \<Longrightarrow> length (f x) = m) \<Longrightarrow> i < length xs \<Longrightarrow> take m (drop (i * m) (concat (map f xs) @ r)) = f (xs ! i)"
proof (induction xs arbitrary: i)
  case (Cons x xs)
  then show ?case by (cases i) (simp_all add: algebra_simps)
qed simp

lemma concat_length: "(\<And>x. x \<in> set xs \<Longrightarrow> length (f x) = m) \<Longrightarrow> length (concat (map f xs)) = length xs * m"
  by (induction xs) simp_all

lemma UnmarshalIBLT_MarshalIBLT:
  assumes "wireTable t"
  shows "\<exists>buf. MarshalIBLT t = Inr buf \<and> UnmarshalIBLT buf = Inr t"
proof -
  let ?n = "length (ib_Cells t)" and ?b = "char_of (nat (ib_HashCount t)) :: char"
  let ?body = "concat (map marshalCell (ib_Cells t))"
  let ?buf = "LE_PutUint32 (of_nat ?n) @ [?b] @ ?body"
  have n: "0 < ?n" "?n < 256 ^ 4" using assms by (auto simp: wireTable_def)
  have h: "1 \<le> ib_HashCount t" "ib_HashCount t \<le> 32" using assms by (auto simp: wireTable_def)
  have m: "MarshalIBLT t = Inr ?buf"
    using assms h by (auto simp: wireTable_def MarshalIBLT_def fail_if_def)
  have len: "length ?body = ?n * 20" by (rule concat_length) simp
  have cnt: "unat (LE_Uint32 (take 4 ?buf)) = ?n" by (simp add: unat_of_nat_lt(1) [OF n(2)])
  have hc: "int (byte (?buf ! 4)) = ib_HashCount t"
    using h by (simp add: nth_append)
  have cells: "map (\<lambda>i. unmarshalCell (take 20 (drop (5 + i * 20) ?buf))) [0..<?n] = ib_Cells t"
  proof (rule nth_equalityI)
    fix i assume "i < length (map (\<lambda>i. unmarshalCell (take 20 (drop (5 + i * 20) ?buf))) [0..<?n])"
    then have i: "i < ?n" by simp
    have "drop (5 + i * 20) ?buf = drop (i * 20) ?body" by simp
    with concat_chunk [of "ib_Cells t" marshalCell 20 i "[]"] i
    have "take 20 (drop (5 + i * 20) ?buf) = marshalCell (ib_Cells t ! i)" by simp
    moreover have "unmarshalCell (marshalCell (ib_Cells t ! i)) = ib_Cells t ! i"
      using assms i by (intro unmarshal_marshal_cell) (auto simp: wireTable_def)
    ultimately show "map (\<lambda>i. unmarshalCell (take 20 (drop (5 + i * 20) ?buf))) [0..<?n] ! i = ib_Cells t ! i"
      using i by simp
  qed simp
  have "UnmarshalIBLT ?buf = Inr t"
    unfolding UnmarshalIBLT_def Let_def cnt hc cells
    using len h n assms by (auto simp: fail_if_def wireTable_def NewIBLT_def Let_def intro!: IBLT.equality)
  with m show ?thesis by blast
qed


lemma readHashes_Put: "readHashes (length hs) (concat (map LE_PutUint64 hs) @ r) = (Inr hs, r)"
  by (induction hs) (simp_all add: bindS_def retS_def ReadFull_def)

lemma fetchRequest_roundtrip:
  assumes "int (length hs) \<le> (if maxCount \<le> 0 then 65536 else maxCount)" "int (length hs) \<le> 2 ^ 20"
  shows "\<exists>buf. WriteFetchRequest hs = Inr buf \<and> ReadFetchRequest maxCount (buf @ r) = (Inr hs, r)"
proof -
  have "length hs < 256 ^ 4" using assms(2) by simp
  then have "unat (of_nat (length hs) :: u32) = length hs" by (rule unat_of_nat_lt(1))
  moreover from this have "uint (of_nat (length hs) :: u32) = int (length hs)" by (metis of_nat_unat)
  ultimately show ?thesis
    using assms by (auto simp: WriteFetchRequest_def ReadFetchRequest_def fail_if_def fail_ifS_def bindS_def ReadFull_def readHashes_Put)
qed

subsection \<open>Differences without accidental keys\<close>

text \<open>
  No part of the difference has a cell that looks like one key and is not one: then every key \<open>Peel\<close> takes out is a key of
  the difference, and it ends.
\<close>

definition genuine :: "int \<Rightarrow> u64 list \<Rightarrow> u64 list \<Rightarrow> bool" where
  "genuine n ps ns \<longleftrightarrow>
     (\<forall>ps' ns' i. mset ps' \<subseteq># mset ps \<longrightarrow> mset ns' \<subseteq># mset ns \<longrightarrow> i < length (ib_Cells (tableOf n ps' ns'))
        \<longrightarrow> pureCell (tableOf n ps' ns') i
        \<longrightarrow> (let c = ib_Cells (tableOf n ps' ns') ! i in
             (cl_Count c = 1 \<and> cl_KeySum c \<in> set ps') \<or> (cl_Count c = - 1 \<and> cl_KeySum c \<in> set ns')))"

lemma genuine_sub:
  "genuine n ps ns \<Longrightarrow> mset ps' \<subseteq># mset ps \<Longrightarrow> mset ns' \<subseteq># mset ns \<Longrightarrow> genuine n ps' ns'"
  unfolding genuine_def by (meson subset_mset.order_trans)

lemma tableOf_perm: "mset ps = mset ps' \<Longrightarrow> mset ns = mset ns' \<Longrightarrow> tableOf n ps ns = tableOf n ps' ns'"
  unfolding tableOf_def by (metis it.fold_add_perm it.fold_rem_perm)

lemma tableOf_remove1:
  "k \<in> set ps \<Longrightarrow> addHash (- 1) k (tableOf n ps ns) = tableOf n (remove1 k ps) ns"
  "k \<in> set ns \<Longrightarrow> addHash 1 k (tableOf n ps ns) = tableOf n ps (remove1 k ns)"
  using tableOf_perm [of ps "k # remove1 k ps" ns ns n] tableOf_perm [of ps ps ns "k # remove1 k ns" n]
  by (simp_all add: tableOf_cons it.rem_add it.add_rem)

lemma genuine_step:
  assumes "genuine n ps ns" "peelOne (tableOf n ps ns) = Some (s, k, t')"
  shows "(s = 1 \<and> k \<in> set ps \<and> t' = tableOf n (remove1 k ps) ns) \<or> (s = - 1 \<and> k \<in> set ns \<and> t' = tableOf n ps (remove1 k ns))"
proof -
  from assms(2) obtain i where i: "i < length (ib_Cells (tableOf n ps ns))" "pureCell (tableOf n ps ns) i"
    "s = cl_Count (ib_Cells (tableOf n ps ns) ! i)" "k = cl_KeySum (ib_Cells (tableOf n ps ns) ! i)"
    by (auto simp: peelOne_def Let_def find_Some_iff split: option.splits)
  with assms(1) have "(s = 1 \<and> k \<in> set ps) \<or> (s = - 1 \<and> k \<in> set ns)" unfolding genuine_def Let_def by blast
  then show ?thesis using peelOne_SomeD [OF assms(2)] by (auto simp: tableOf_remove1)
qed

lemma peelLoop_ends:
  "genuine n ps ns \<Longrightarrow> \<exists>r pos' neg'. peelLoop (tableOf n ps ns) pos neg = Some (r, pos @ pos', neg @ neg')
     \<and> mset pos' \<subseteq># mset ps \<and> mset neg' \<subseteq># mset ns"
proof (induction "length ps + length ns" arbitrary: ps ns pos neg rule: less_induct)
  case less
  show ?case
  proof (cases "peelOne (tableOf n ps ns)")
    case None
    then show ?thesis by (simp add: peelLoop.simps)
  next
    case (Some res)
    obtain s k t' where res: "res = (s, k, t')" by (cases res)
    from genuine_step [OF less.prems Some [unfolded res]]
    consider (add) "s = 1" "k \<in> set ps" "t' = tableOf n (remove1 k ps) ns"
      | (rem) "s = - 1" "k \<in> set ns" "t' = tableOf n ps (remove1 k ns)" by blast
    then show ?thesis
    proof cases
      case add
      then have "length (remove1 k ps) + length ns < length ps + length ns"
        using length_pos_if_in_set [of k ps] by (simp add: length_remove1)
      from less.hyps [OF this genuine_sub [OF less.prems], of "pos @ [k]" neg]
      obtain r pos' neg' where *: "peelLoop t' (pos @ [k]) neg = Some (r, (pos @ [k]) @ pos', neg @ neg')"
        "mset pos' \<subseteq># mset ps - {#k#}" "mset neg' \<subseteq># mset ns" using add by auto
      then have "mset (k # pos') \<subseteq># mset ps" using add(2) by (simp add: insert_subset_eq_iff)
      with * add Some res show ?thesis
        by (intro exI [of _ r] exI [of _ "k # pos'"] exI [of _ neg']) (simp add: peelLoop.simps [of "tableOf n ps ns"])
    next
      case rem
      then have "length ps + length (remove1 k ns) < length ps + length ns"
        using length_pos_if_in_set [of k ns] by (simp add: length_remove1)
      from less.hyps [OF this genuine_sub [OF less.prems], of pos "neg @ [k]"]
      obtain r pos' neg' where *: "peelLoop t' pos (neg @ [k]) = Some (r, pos @ pos', (neg @ [k]) @ neg')"
        "mset pos' \<subseteq># mset ps" "mset neg' \<subseteq># mset ns - {#k#}" using rem by auto
      then have "mset (k # neg') \<subseteq># mset ns" using rem(2) by (simp add: insert_subset_eq_iff)
      with * rem Some res show ?thesis
        by (intro exI [of _ r] exI [of _ pos'] exI [of _ "k # neg'"]) (simp add: peelLoop.simps [of "tableOf n ps ns"])
    qed
  qed
qed

end
