(* ===== verification/Sync_Exchange.thy ===== *)
theory Sync_Exchange
  imports Sync_IBLT_Props
begin

text \<open>
  The exchange of catalogues: \<open>exchangeWithPeer\<close> and the rounds of \<open>StartPeriodicExchange\<close> (\<open>internal/sync/reconcile.go\<close>),
  the two stream handlers and the fetch of \<open>pkg/node/iblt_catalog.go\<close>, and the provider records (\<open>internal/storage/providers.go\<close>)
  that are the catalogue. Content identifiers with \<open>Defined\<close>, \<open>String\<close> and \<open>cid.Decode\<close> are parameters; the records are
  the texts of a set, in the order the iteration of the map takes. A stream is what the other side answers to what was written, and
  an exchange whose extraction does not end has the result \<open>None\<close>.
\<close>

subsection \<open>Provider records\<close>

type_synonym records = "string list"

definition LPR_Add :: "('c \<Rightarrow> bool) \<Rightarrow> ('c \<Rightarrow> string) \<Rightarrow> 'c \<Rightarrow> records \<Rightarrow> records" where
  "LPR_Add defined str c rs = (if \<not> defined c then rs else List.insert (str c) rs)"

definition LPR_Remove :: "('c \<Rightarrow> bool) \<Rightarrow> ('c \<Rightarrow> string) \<Rightarrow> 'c \<Rightarrow> records \<Rightarrow> records" where
  "LPR_Remove defined str c rs = (if \<not> defined c then rs else removeAll (str c) rs)"

definition LPR_AddAll :: "string list result \<Rightarrow> records \<Rightarrow> records" where
  "LPR_AddAll listed rs =
     (case listed of Inl _ \<Rightarrow> rs | Inr cids \<Rightarrow> fold (\<lambda>s rs. if s \<noteq> [] then List.insert s rs else rs) cids rs)"

definition LPR_Snapshot :: "(string \<Rightarrow> 'c result) \<Rightarrow> records \<Rightarrow> 'c list" where
  "LPR_Snapshot decode rs = concat (map (\<lambda>s. case decode s of Inl _ \<Rightarrow> [] | Inr c \<Rightarrow> [c]) rs)"

text \<open>One tick of \<open>StartPeriodicReannounce\<close>, with the number reported to the metrics.\<close>

definition reannounce :: "('c \<Rightarrow> bool) \<Rightarrow> ('c \<Rightarrow> string) \<Rightarrow> (string \<Rightarrow> 'c result) \<Rightarrow> ('c \<Rightarrow> bool result) \<Rightarrow> records \<Rightarrow> records \<times> nat" where
  "reannounce defined str decode has rs =
     (let rs' = fold (\<lambda>c rs. if has c = Inr True then rs else LPR_Remove defined str c rs) (LPR_Snapshot decode rs) rs in
      (rs', length rs'))"

subsection \<open>One exchange\<close>

record ExchangerResult =
  xr_PeerID :: string
  xr_Positive :: "u64 list"
  xr_Negative :: "u64 list"
  xr_PeelOK :: bool
  xr_PeelIncomplete :: bool
  xr_Err :: "go_error option"

type_synonym stream = "bytes \<Rightarrow> bytes result"

definition failedExchange :: "string \<Rightarrow> go_error \<Rightarrow> ExchangerResult" where
  "failedExchange peerID e = \<lparr>xr_PeerID = peerID, xr_Positive = [], xr_Negative = [], xr_PeelOK = False,
     xr_PeelIncomplete = False, xr_Err = Some e\<rparr>"

definition exchangeWithPeer :: "IBLT \<Rightarrow> string \<Rightarrow> (string \<Rightarrow> stream result) \<Rightarrow> ExchangerResult option" where
  "exchangeWithPeer local peerID opener =
     (case bindR (opener peerID) (\<lambda>stream.
           bindR (WriteIBLT local) (\<lambda>msg.
           bindR (stream msg) (\<lambda>reply. fst (ReadIBLT reply)))) of
        Inl e \<Rightarrow> Some (failedExchange peerID e)
      | Inr remote \<Rightarrow>
          (case ExtractDifference local remote of
             None \<Rightarrow> None
           | Some (Inl e) \<Rightarrow> Some (failedExchange peerID e)
           | Some (Inr (pos, neg, incomplete)) \<Rightarrow>
               Some \<lparr>xr_PeerID = peerID, xr_Positive = pos, xr_Negative = neg, xr_PeelOK = True,
                     xr_PeelIncomplete = incomplete, xr_Err = None\<rparr>))"

text \<open>
  One tick of \<open>StartPeriodicExchange\<close>: the exchange with every neighbour in turn, with the calls of \<open>OnPeelFailure\<close>
  and of \<open>RequestFetch\<close> made between them.
\<close>

datatype sync_event =
    PeelFailure ExchangerResult
  | Fetch string "u64 list"
  | Result ExchangerResult

definition exchangeEvents :: "bool \<Rightarrow> bool \<Rightarrow> ExchangerResult \<Rightarrow> sync_event list" where
  "exchangeEvents onPeelFailure fetchRequester res =
     (if xr_PeelIncomplete res \<and> onPeelFailure then [PeelFailure res] else [])
     @ (if xr_PeelOK res \<and> xr_Negative res \<noteq> [] \<and> fetchRequester then [Fetch (xr_PeerID res) (xr_Negative res)] else [])
     @ [Result res]"

fun exchangeRound :: "bool \<Rightarrow> bool \<Rightarrow> IBLT \<Rightarrow> (string \<Rightarrow> stream result) \<Rightarrow> string list \<Rightarrow> sync_event list option" where
  "exchangeRound opf fr local opener [] = Some []"
| "exchangeRound opf fr local opener (p # ps) =
     (case exchangeWithPeer local p opener of
        None \<Rightarrow> None
      | Some res \<Rightarrow>
          (case exchangeRound opf fr local opener ps of
             None \<Rightarrow> None
           | Some evs \<Rightarrow> Some (exchangeEvents opf fr res @ evs)))"

subsection \<open>The node\<close>

definition catalogIBLTCellCount :: int where "catalogIBLTCellCount = 256"

record 'c cid_ops =
  co_Defined :: "'c \<Rightarrow> bool"
  co_String :: "'c \<Rightarrow> string"
  co_Decode :: "string \<Rightarrow> 'c result"

definition catalogTable :: "'c cid_ops \<Rightarrow> records \<Rightarrow> IBLT" where
  "catalogTable C rs = BuildIBLTFromCIDs (co_Defined C) (co_String C) (LPR_Snapshot (co_Decode C) rs) catalogIBLTCellCount"

text \<open>The handler of the exchange protocol: what it answers.\<close>

definition handleIBLT :: "'c cid_ops \<Rightarrow> records \<Rightarrow> bytes \<Rightarrow> bytes" where
  "handleIBLT C rs inp =
     (case fst (ReadIBLT inp) of
        Inl _ \<Rightarrow> []
      | Inr _ \<Rightarrow> (case WriteIBLT (catalogTable C rs) of Inl _ \<Rightarrow> [] | Inr out \<Rightarrow> out))"

definition handleFetch :: "'c cid_ops \<Rightarrow> records \<Rightarrow> bytes \<Rightarrow> bytes" where
  "handleFetch C rs inp =
     (case fst (ReadFetchRequest 4096 inp) of
        Inl _ \<Rightarrow> []
      | Inr keyHashes \<Rightarrow>
          WriteFetchResponse (co_String C)
            (CIDsForKeyHashes (co_Defined C) (co_String C) (LPR_Snapshot (co_Decode C) rs) keyHashes))"

text \<open>
  \<open>RequestFetch\<close>: \<open>dial\<close> is the connection and the stream, \<open>getBlock\<close> the block service, which changes the store and whose result,
  a block or an error, is dropped.
\<close>

definition RequestFetch ::
    "'c cid_ops \<Rightarrow> (string \<Rightarrow> stream result) \<Rightarrow> ('c \<Rightarrow> ('b, bytes) op) \<Rightarrow> string \<Rightarrow> u64 list \<Rightarrow> records \<times> 'b \<Rightarrow> records \<times> 'b" where
  "RequestFetch C dial getBlock peerID keyHashes st =
     (if keyHashes = [] then st
      else (case bindR (dial peerID) (\<lambda>stream.
                 bindR (WriteFetchRequest keyHashes) (\<lambda>msg.
                 bindR (stream msg) (\<lambda>reply. fst (ReadFetchResponse (co_Decode C) 4096 reply)))) of
              Inl _ \<Rightarrow> st
            | Inr cids \<Rightarrow>
                fold (\<lambda>c (rs, bs). if \<not> co_Defined C c then (rs, bs)
                                   else (LPR_Add (co_Defined C) (co_String C) c rs, snd (getBlock c bs))) cids st))"

end
