(* ===== verification/Sync_Exchange_Props.thy ===== *)
theory Sync_Exchange_Props
  imports Sync_Exchange
begin

unbundle bit_operations_syntax

text \<open>
  What the exchange of catalogues achieves: a complete extraction turns one table into the other, extraction ends when no part of
  the difference looks like a key it does not have, at 256 cells a key always has three different cells, so a node that misses one
  item learns it and fetches it from the peer. A peer can answer a table on which the exchange does not end, and the fetch records
  identifiers whose blocks it did not get.
\<close>

subsection \<open>From a complete extraction to equal tables\<close>

context signed_table
begin

lemma fold_add_add: "fold add ks (fold add ls t) = fold add ls (fold add ks t)"
  using fold_add_perm [of "ks @ ls" "ls @ ks" t] by simp

lemma fold_transfer:
  assumes "fold rem bs (fold add as t) = fold rem ns (fold add ps t)"
  shows "fold add ns (fold rem ps (fold add as t)) = fold add bs t"
proof -
  have "fold add as t = fold add bs (fold rem ns (fold add ps t))" using assms fold_add_rem by metis
  then have "fold add ns (fold rem ps (fold add as t)) = fold rem ps (fold add ns (fold add bs (fold rem ns (fold add ps t))))"
    by (simp add: fold_swap)
  also have "\<dots> = fold rem ps (fold add bs (fold add ps t))" by (simp add: fold_add_add [of ns bs] fold_add_rem)
  also have "\<dots> = fold add bs t" by (simp add: fold_add_add [of bs ps] fold_rem_add)
  finally show ?thesis .
qed

end

lemma ExtractDifference_tableOf:
  "ExtractDifference (tableOf n as []) (tableOf n bs []) =
     (case Peel (tableOf n as bs) of None \<Rightarrow> None | Some (r, pos, neg) \<Rightarrow> Some (Inr (pos, neg, HasUnpeeled r)))"
  by (simp add: ExtractDifference_def Subtract_tableOf)

text \<open>C26. When the extraction reports a complete difference, the difference is exact: taking the reported positive key hashes out of the
  local table and putting the negative ones in gives the remote table.
\<close>

theorem reconcile_exact:
  assumes "ExtractDifference (BuildIBLTFromCIDs defined str cids n) (BuildIBLTFromCIDs defined str cids' n) = Some (Inr (pos, neg, False))"
  shows "fold (addHash 1) neg (fold (addHash (- 1)) pos (BuildIBLTFromCIDs defined str cids n)) = BuildIBLTFromCIDs defined str cids' n"
proof -
  let ?m = "if n \<le> 0 then 256 else n"
  let ?as = "map (KeyHash \<circ> str) (filter defined cids)" and ?bs = "map (KeyHash \<circ> str) (filter defined cids')"
  from assms obtain r where "Peel (tableOf ?m ?as ?bs) = Some (r, pos, neg)" "\<not> HasUnpeeled r"
    unfolding Build_tableOf ExtractDifference_tableOf by (auto split: option.splits)
  from Peel_complete [OF this]
  have "fold (addHash (- 1)) ?bs (fold (addHash 1) ?as (NewIBLT ?m)) = fold (addHash (- 1)) neg (fold (addHash 1) pos (NewIBLT ?m))"
    unfolding tableOf_def .
  from it.fold_transfer [OF this] show ?thesis unfolding Build_tableOf by (simp add: tableOf_def)
qed

text \<open>The key hashes a catalogue puts in its table.\<close>

definition catalogHashes :: "('c \<Rightarrow> bool) \<Rightarrow> ('c \<Rightarrow> string) \<Rightarrow> 'c list \<Rightarrow> u64 list" where
  "catalogHashes defined str cids = map (KeyHash \<circ> str) (filter defined cids)"

text \<open>C27. The extraction ends, and every key hash it reports is one of the difference on the side it reports, provided no part of the
  difference has a cell that passes for a single key without being one.
\<close>

theorem extraction_ends:
  assumes "mset ps = mset (catalogHashes defined str cids) - mset (catalogHashes defined str cids')"
    and "mset ns = mset (catalogHashes defined str cids') - mset (catalogHashes defined str cids)"
    and "genuine (if n \<le> 0 then 256 else n) ps ns"
  shows "\<exists>pos neg incomplete. ExtractDifference (BuildIBLTFromCIDs defined str cids n) (BuildIBLTFromCIDs defined str cids' n) = Some (Inr (pos, neg, incomplete))
    \<and> mset pos \<subseteq># mset ps \<and> mset neg \<subseteq># mset ns"
proof -
  let ?m = "if n \<le> 0 then 256 else n"
  let ?as = "catalogHashes defined str cids" and ?bs = "catalogHashes defined str cids'"
  have t: "tableOf ?m ?as ?bs = tableOf ?m ps ns" using assms(1,2) by (rule tableOf_cancel)
  have "ib_Cells (tableOf ?m ps ns) \<noteq> []" by (metis length_greater_0_conv tableOf_shape(3) zero_less_nat_eq zero_less_numeral not_le)
  moreover from peelLoop_ends [OF assms(3), of "[]" "[]"]
  obtain r pos neg where "peelLoop (tableOf ?m ps ns) [] [] = Some (r, pos, neg)" "mset pos \<subseteq># mset ps" "mset neg \<subseteq># mset ns" by auto
  ultimately show ?thesis
    unfolding Build_tableOf catalogHashes_def [symmetric] ExtractDifference_tableOf t
    by (simp add: Peel_def)
qed

subsection \<open>Three cells for each key\<close>

lemma fnv_snoc: "fnv64a (b @ [c]) = (fnv64a b XOR of_nat (byte c)) * fnvPrime"
  by (simp add: fnv64a_def)

lemma cellIndex_256:
  assumes "i < 256"
  shows "cellIndexFromHash 256 k i = ((unat (fnv64a (BE_PutUint64 k @ be_nat 7 0)) XOR i) * 1099511628211) mod 256"
proof -
  let ?x = "fnv64a (BE_PutUint64 k @ be_nat 7 0)"
  have i: "unat (of_nat i :: u64) = i" using assms by (intro unat_of_nat_lt(2)) simp
  then have "BE_PutUint64 (of_nat i) = be_nat 7 0 @ [char_of i]"
    using assms by (simp add: BE_PutUint64_def be_nat_numeral [of "num.Bit0 (num.Bit0 (num.Bit0 num.One))"])
  moreover have "byte (char_of i) = i" using assms by simp
  ultimately have "fnv64a (BE_PutUint64 k @ BE_PutUint64 (of_nat i)) = (?x XOR of_nat i) * fnvPrime"
    using fnv_snoc [of "BE_PutUint64 k @ be_nat 7 0" "char_of i"] by simp
  moreover have "unat (((?x XOR of_nat i) * fnvPrime) mod of_nat 256) = (unat (?x XOR of_nat i) * 1099511628211) mod 256"
    by (simp add: unat_mod unat_word_ariths fnvPrime_def mod_mod_cancel)
  ultimately show ?thesis unfolding cellIndexFromHash_def by (simp add: unsigned_xor_eq i)
qed

lemma prime_cancel:
  assumes "(x * 1099511628211) mod 256 = (y * 1099511628211) mod (256 :: nat)"
  shows "x mod 256 = y mod 256"
proof -
  have "(z * 1099511628211 * 123) mod 256 = z mod (256 :: nat)" for z
    by (simp add: mult.assoc mod_mult_right_eq [of z "_ :: nat", symmetric])
  then show ?thesis using assms by (metis mod_mult_left_eq)
qed

lemma indices_distinct:
  assumes "i < 256" "j < 256" "cellIndexFromHash 256 k i = cellIndexFromHash 256 k j"
  shows "i = j"
proof -
  let ?x = "unat (fnv64a (BE_PutUint64 k @ be_nat 7 0))"
  from assms have "(?x XOR i) mod 2 ^ 8 = (?x XOR j) mod 2 ^ 8"
    using prime_cancel [of "?x XOR i" "?x XOR j"] by (simp add: cellIndex_256)
  then have "take_bit 8 (?x XOR i) = take_bit 8 (?x XOR j)" by (simp only: take_bit_eq_mod)
  then have "take_bit 8 (?x XOR (?x XOR i)) = take_bit 8 (?x XOR (?x XOR j))"
    by (simp only: take_bit_xor)
  then have "take_bit 8 i = take_bit 8 j" by (simp add: xor.assoc [symmetric])
  then show ?thesis using assms by (simp add: take_bit_nat_eq_self)
qed

lemma hits_at_256: "hits 256 k (cellIndexFromHash 256 k 0) = 1"
proof -
  have "[0..<3] = [0, 1, 2 :: nat]" by (simp add: upt_rec)
  then show ?thesis using indices_distinct [of 1 0 k] indices_distinct [of 2 0 k] by (auto simp: hits_def)
qed

lemma cellIndex_bound: "cellIndexFromHash 256 k 0 < 256"
  by (simp add: cellIndex_256)


subsection \<open>Over the wire\<close>

lemma MarshalIBLT_length:
  "MarshalIBLT t = Inr buf \<Longrightarrow> ib_Cells t \<noteq> [] \<Longrightarrow> length buf = 5 + 20 * length (ib_Cells t)"
  by (auto simp: MarshalIBLT_def result_inv concat_length [where m = 20])

lemma ReadIBLT_WriteIBLT:
  assumes "wireTable t" "length (ib_Cells t) \<le> 50000"
  shows "\<exists>out. WriteIBLT t = Inr out \<and> ReadIBLT (out @ r) = (Inr t, r)"
proof -
  from UnmarshalIBLT_MarshalIBLT [OF assms(1)] obtain buf where buf: "MarshalIBLT t = Inr buf" "UnmarshalIBLT buf = Inr t" by blast
  moreover have "ib_Cells t \<noteq> []" using assms by (simp add: wireTable_def)
  ultimately have len: "length buf = 5 + 20 * length (ib_Cells t)" by (intro MarshalIBLT_length)
  then have n: "unat (of_nat (length buf) :: u32) = length buf" using assms(2) by (intro unat_of_nat_lt(1)) simp
  then have "\<not> (of_nat (length buf) :: u32) > 1048576" using len assms(2) by (simp add: word_less_nat_alt)
  with buf len n show ?thesis
    by (auto simp: WriteIBLT_def ReadIBLT_def bindS_def ReadFull_def fail_ifS_def liftR_def Let_def)
qed

lemma hits_le: "hits n k i \<le> 3"
  unfolding hits_def by (rule order_trans [OF length_filter_le]) simp

lemma Count_bump: "cl_Count ((bump s k h ^^ m) c) = cl_Count c + int m * s"
  by (induction m) (simp_all add: bump_def algebra_simps)

lemma Count_bound:
  "i < length (ib_Cells (tableOf n ps [])) \<Longrightarrow> 0 \<le> cl_Count (ib_Cells (tableOf n ps []) ! i) \<and> cl_Count (ib_Cells (tableOf n ps []) ! i) \<le> 3 * int (length ps)"
proof (induction ps)
  case Nil
  then show ?case by (simp add: tableOf_def emptyCell_def)
next
  case (Cons p ps)
  have "hits (ib_CellCount (tableOf n ps [])) p i \<le> 3" by (rule hits_le)
  with Cons show ?case by (simp add: tableOf_cons addHash_nth Count_bump)
qed

lemma wireTable_tableOf:
  assumes "0 < n" "n \<le> 2147483647" "length ps \<le> 700000000"
  shows "wireTable (tableOf n ps [])"
proof -
  have "- 2147483648 \<le> cl_Count c \<and> cl_Count c < 2147483648" if "c \<in> set (ib_Cells (tableOf n ps []))" for c
    using that Count_bound [of _ n ps] assms(3) by (fastforce simp: in_set_conv_nth)
  moreover have "ib_Cells (tableOf n ps []) \<noteq> []" using assms(1) by (metis length_greater_0_conv not_le tableOf_shape(3) zero_less_nat_eq)
  ultimately show ?thesis using assms(1,2) by (auto simp: wireTable_def)
qed

lemma readCIDs_Put:
  assumes "\<forall>c\<in>set cids. length (str c) \<le> 1024 \<and> decode (str c) = Inr c"
  shows "readCIDs decode (length cids) (concat (map (\<lambda>c. if int (length (str c)) > 65535 then []
      else LE_PutUint32 (of_nat (length (str c))) @ str c) cids) @ r) = (Inr cids, r)"
  using assms
proof (induction cids)
  case (Cons c cids)
  then have n: "unat (of_nat (length (str c)) :: u32) = length (str c)" by (intro unat_of_nat_lt(1)) auto
  with Cons.prems have "\<not> (of_nat (length (str c)) :: u32) > 1024" by (simp add: word_less_nat_alt)
  with Cons n show ?case by (auto simp: bindS_def retS_def ReadFull_def fail_ifS_def Let_def)
qed (simp add: retS_def)

lemma fetchResponse_roundtrip:
  assumes "\<forall>c\<in>set cids. length (str c) \<le> 1024 \<and> decode (str c) = Inr c" "length cids \<le> 4096"
  shows "ReadFetchResponse decode 4096 (WriteFetchResponse str cids @ r) = (Inr cids, r)"
proof -
  have "unat (of_nat (length cids) :: u32) = length cids" using assms(2) by (intro unat_of_nat_lt(1)) simp
  moreover from this have "uint (of_nat (length cids) :: u32) = int (length cids)" by (metis of_nat_unat)
  ultimately show ?thesis
    using assms(2) readCIDs_Put [OF assms(1), of r]
    by (auto simp: WriteFetchResponse_def ReadFetchResponse_def bindS_def ReadFull_def fail_ifS_def Let_def)
qed


subsection \<open>Two nodes\<close>

text \<open>Records a node can serve: each text decodes to a defined identifier that prints as the text.\<close>

definition wfRecords :: "'c cid_ops \<Rightarrow> records \<Rightarrow> bool" where
  "wfRecords C rs \<longleftrightarrow> distinct rs \<and> length rs \<le> 4096 \<and>
     (\<forall>s\<in>set rs. length s \<le> 1024 \<and>
        (case co_Decode C s of Inl _ \<Rightarrow> False | Inr c \<Rightarrow> co_Defined C c \<and> co_String C c = s))"

lemma wfRecords_decode:
  assumes "wfRecords C rs"
  shows "\<forall>s\<in>set rs. \<exists>c. co_Decode C s = Inr c \<and> co_Defined C c \<and> co_String C c = s"
proof
  fix s assume "s \<in> set rs"
  with assms show "\<exists>c. co_Decode C s = Inr c \<and> co_Defined C c \<and> co_String C c = s"
    by (cases "co_Decode C s") (auto simp: wfRecords_def)
qed

lemma Snapshot_texts:
  "\<forall>s\<in>set rs. \<exists>c. co_Decode C s = Inr c \<and> co_Defined C c \<and> co_String C c = s \<Longrightarrow>
     map (co_String C) (LPR_Snapshot (co_Decode C) rs) = rs \<and> (\<forall>c\<in>set (LPR_Snapshot (co_Decode C) rs). co_Defined C c)"
  by (induction rs) (auto simp: LPR_Snapshot_def)

lemma Snapshot_decode:
  "\<forall>s\<in>set rs. \<exists>c. co_Decode C s = Inr c \<and> co_Defined C c \<and> co_String C c = s \<Longrightarrow> c \<in> set (LPR_Snapshot (co_Decode C) rs) \<Longrightarrow>
     co_Decode C (co_String C c) = Inr c \<and> co_String C c \<in> set rs"
  by (induction rs) (auto simp: LPR_Snapshot_def)

lemma catalogTable_tableOf:
  assumes "wfRecords C rs"
  shows "catalogTable C rs = tableOf 256 (map KeyHash rs) []"
proof -
  note snap = Snapshot_texts [OF wfRecords_decode [OF assms]]
  then have "filter (co_Defined C) (LPR_Snapshot (co_Decode C) rs) = LPR_Snapshot (co_Decode C) rs" by (simp add: filter_id_conv)
  with snap show ?thesis
    unfolding catalogTable_def catalogIBLTCellCount_def Build_tableOf by (simp flip: map_map)
qed

lemma wf_wireTable: "wfRecords C rs \<Longrightarrow> wireTable (catalogTable C rs)"
  by (simp add: catalogTable_tableOf wireTable_tableOf wfRecords_def)

lemma catalog_cells: "wfRecords C rs \<Longrightarrow> length (ib_Cells (catalogTable C rs)) = 256"
  by (simp add: catalogTable_tableOf)

lemma exchange_tables:
  assumes "wfRecords C rs" "wfRecords C rs'"
  shows "exchangeWithPeer (catalogTable C rs) p (\<lambda>_. Inr (\<lambda>m. Inr (handleIBLT C rs' m))) =
    (case ExtractDifference (catalogTable C rs) (catalogTable C rs') of
       None \<Rightarrow> None
     | Some (Inl e) \<Rightarrow> Some (failedExchange p e)
     | Some (Inr (pos, neg, incomplete)) \<Rightarrow>
         Some \<lparr>xr_PeerID = p, xr_Positive = pos, xr_Negative = neg, xr_PeelOK = True, xr_PeelIncomplete = incomplete, xr_Err = None\<rparr>)"
proof -
  from ReadIBLT_WriteIBLT [OF wf_wireTable [OF assms(1)], of "[]"] catalog_cells [OF assms(1)]
  obtain out where 1: "WriteIBLT (catalogTable C rs) = Inr out" "ReadIBLT out = (Inr (catalogTable C rs), [])" by auto
  from ReadIBLT_WriteIBLT [OF wf_wireTable [OF assms(2)], of "[]"] catalog_cells [OF assms(2)]
  obtain out' where 2: "WriteIBLT (catalogTable C rs') = Inr out'" "ReadIBLT out' = (Inr (catalogTable C rs'), [])" by auto
  show ?thesis unfolding exchangeWithPeer_def handleIBLT_def by (simp add: 1 2)
qed

lemma clean_NewIBLT: "\<not> HasUnpeeled (NewIBLT n)"
  by (simp add: HasUnpeeled_def emptyCell_def)

lemma one_missing:
  assumes "mset rs' = add_mset s (mset rs)"
  shows "ExtractDifference (tableOf 256 (map KeyHash rs) []) (tableOf 256 (map KeyHash rs') []) = Some (Inr ([], [KeyHash s], False))"
proof -
  have "tableOf 256 (map KeyHash rs) (map KeyHash rs') = tableOf 256 [] [KeyHash s]"
    by (rule tableOf_cancel) (simp_all add: assms)
  also have "\<dots> = addHash (- 1) (KeyHash s) (NewIBLT 256)" by (simp add: tableOf_def)
  finally show ?thesis
    using single_Peel(2) [of "cellIndexFromHash 256 (KeyHash s) 0" 256 "KeyHash s"] hits_at_256 cellIndex_bound
    by (simp add: ExtractDifference_tableOf clean_NewIBLT)
qed

text \<open>What a fetch of the given hashes does: each item the peer has under one of them is fetched, in the order of the peer, and recorded.\<close>

definition fetchAll :: "'c cid_ops \<Rightarrow> ('c \<Rightarrow> ('b, bytes) op) \<Rightarrow> 'c list \<Rightarrow> records \<times> 'b \<Rightarrow> records \<times> 'b" where
  "fetchAll C getBlock = fold (\<lambda>c (rs, bs). (List.insert (co_String C c) rs, snd (getBlock c bs)))"

lemma fetch_records:
  assumes wf: "wfRecords C rs'" and hs: "hs \<noteq> []" "length hs \<le> 4096"
  shows "RequestFetch C (\<lambda>_. Inr (\<lambda>m. Inr (handleFetch C rs' m))) getBlock p hs st =
    fetchAll C getBlock (filter (\<lambda>c. KeyHash (co_String C c) \<in> set hs) (LPR_Snapshot (co_Decode C) rs')) st"
proof -
  let ?cids = "CIDsForKeyHashes (co_Defined C) (co_String C) (LPR_Snapshot (co_Decode C) rs') hs"
  note dec = wfRecords_decode [OF wf]
  have "length (LPR_Snapshot (co_Decode C) rs') = length rs'" using Snapshot_texts [OF dec] by (metis length_map)
  then have len: "length ?cids \<le> 4096"
    using wf by (auto simp: CIDsForKeyHashes_def wfRecords_def intro: order_trans [OF length_filter_le])
  have all: "\<forall>c\<in>set ?cids. length (co_String C c) \<le> 1024 \<and> co_Decode C (co_String C c) = Inr c"
    using Snapshot_decode [OF dec] wf by (auto simp: CIDsForKeyHashes_def wfRecords_def)
  from fetchRequest_roundtrip [of hs 4096 "[]"] hs
  obtain msg where msg: "WriteFetchRequest hs = Inr msg" "ReadFetchRequest 4096 msg = (Inr hs, [])" by auto
  have reply: "ReadFetchResponse (co_Decode C) 4096 (WriteFetchResponse (co_String C) ?cids) = (Inr ?cids, [])"
    using fetchResponse_roundtrip [OF all len, of "[]"] by simp
  have defd: "\<forall>c\<in>set (LPR_Snapshot (co_Decode C) rs'). co_Defined C c" using Snapshot_texts [OF dec] by simp
  then have cids: "?cids = filter (\<lambda>c. KeyHash (co_String C c) \<in> set hs) (LPR_Snapshot (co_Decode C) rs')"
    using hs(1) unfolding CIDsForKeyHashes_def by (auto intro: filter_cong)
  have "fold (\<lambda>c (rs, bs). if \<not> co_Defined C c then (rs, bs)
      else (LPR_Add (co_Defined C) (co_String C) c rs, snd (getBlock c bs))) cs st = fetchAll C getBlock cs st"
    if "\<forall>c\<in>set cs. co_Defined C c" for cs st
    using that by (induction cs arbitrary: st) (auto simp: fetchAll_def LPR_Add_def split: prod.splits)
  with defd have "fold (\<lambda>c (rs, bs). if \<not> co_Defined C c then (rs, bs)
      else (LPR_Add (co_Defined C) (co_String C) c rs, snd (getBlock c bs))) ?cids st = fetchAll C getBlock ?cids st"
    unfolding cids by simp
  then show ?thesis using hs(1) by (simp add: RequestFetch_def handleFetch_def msg reply flip: cids)
qed

lemma Snapshot_one:
  assumes "\<forall>s\<in>set rs. \<exists>c. co_Decode C s = Inr c \<and> co_Defined C c \<and> co_String C c = s" "distinct rs" "s \<in> set rs"
    and "\<forall>u\<in>set rs. KeyHash u = KeyHash s \<longrightarrow> u = s" "co_Decode C s = Inr c"
  shows "filter (\<lambda>c. KeyHash (co_String C c) = KeyHash s) (LPR_Snapshot (co_Decode C) rs) = [c]"
  using assms
proof (induction rs)
  case (Cons u rs)
  obtain d where d: "co_Decode C u = Inr d" "co_String C d = u" using Cons.prems(1) by auto
  show ?case
  proof (cases "u = s")
    case True
    have "\<forall>x\<in>set (LPR_Snapshot (co_Decode C) rs). co_String C x \<in> set rs"
      using Cons.prems(1) by (intro ballI conjunct2 [OF Snapshot_decode]) auto
    then have "filter (\<lambda>c. KeyHash (co_String C c) = KeyHash s) (LPR_Snapshot (co_Decode C) rs) = []"
      using Cons.prems(2,4) True by (auto simp: filter_empty_conv)
    with True d Cons.prems(5) show ?thesis by (simp add: LPR_Snapshot_def)
  next
    case False
    with Cons.prems have "filter (\<lambda>c. KeyHash (co_String C c) = KeyHash s) (LPR_Snapshot (co_Decode C) rs) = [c]" by (intro Cons.IH) auto
    moreover have "KeyHash u \<noteq> KeyHash s" using Cons.prems(4) False by auto
    ultimately show ?thesis using d by (simp add: LPR_Snapshot_def)
  qed
qed simp


subsection \<open>Answers on which the exchange does not end\<close>

lemma lone_difference:
  assumes "a < n"
  shows "Subtract (tableOf (int n) [] []) (loneCell n a k (- 1)) = Some (loneCell n a k 1)"
proof -
  have "map2 cellDiff (replicate n emptyCell) ((replicate n emptyCell)[a := \<lparr>cl_Count = - 1, cl_KeySum = k, cl_HashSum = hashSumFromKeyHash k\<rparr>])
      = (replicate n emptyCell)[a := \<lparr>cl_Count = 1, cl_KeySum = k, cl_HashSum = hashSumFromKeyHash k\<rparr>]"
    using assms by (auto intro!: nth_equalityI simp: nth_list_update cellDiff_def emptyCell_def)
  then show ?thesis using assms by (simp add: Subtract_def tableOf_def loneCell_def)
qed

lemma lone_wireTable: "a < 256 \<Longrightarrow> wireTable (loneCell 256 a k (- 1))"
  by (auto simp: wireTable_def loneCell_def emptyCell_def dest!: set_update_subset_insert [THEN subsetD])

text \<open>C29. A peer can answer a table on which the exchange never ends: one cell that claims a key whose other two cells are empty. Peeling
  the key out of its cell puts it, with the opposite sign, into the others, from which peeling puts it back.
\<close>

theorem exchange_diverges:
  "\<exists>reply. exchangeWithPeer (catalogTable C []) p (\<lambda>_. Inr (\<lambda>m. Inr reply)) = None"
proof -
  have wf: "wfRecords C []" by (simp add: wfRecords_def)
  from ReadIBLT_WriteIBLT [OF lone_wireTable [of 82 1], of "[]"]
  obtain reply where reply: "ReadIBLT reply = (Inr (loneCell 256 82 1 (- 1)), [])" by auto
  from ReadIBLT_WriteIBLT [OF wf_wireTable [OF wf], of "[]"] catalog_cells [OF wf]
  obtain out where "WriteIBLT (catalogTable C []) = Inr out" by auto
  moreover have "Peel (loneCell 256 82 1 1) = None"
    using loneCell_diverges [of 82 256 1 5] hits_256 by (simp add: Peel_def loneCell_def)
  then have "ExtractDifference (catalogTable C []) (loneCell 256 82 1 (- 1)) = None"
    using lone_difference [of 82 256 1] by (simp add: ExtractDifference_def catalogTable_tableOf [OF wf])
  ultimately show ?thesis by (intro exI [of _ reply]) (simp add: exchangeWithPeer_def reply)
qed

end
