(* ===== verification/Sync_Exchange_Witness.thy ===== *)
theory Sync_Exchange_Witness
  imports Sync_Exchange_Props
begin

unbundle bit_operations_syntax

text \<open>The theorems on the exchange at concrete catalogues, with texts as identifiers.\<close>

definition textCids :: "string cid_ops" where
  "textCids = \<lparr>co_Defined = (\<lambda>_. True), co_String = id, co_Decode = Inr\<rparr>"

lemma wf_textCids: "distinct rs \<Longrightarrow> length rs \<le> 4096 \<Longrightarrow> \<forall>s\<in>set rs. length s \<le> 1024 \<Longrightarrow> wfRecords textCids rs"
  by (simp add: wfRecords_def textCids_def)

lemma KeyHash_ab: "KeyHash ''a'' \<noteq> KeyHash ''b''"
  by (simp add: KeyHash_def fnv64a_def fnvOffset_def fnvPrime_def)

lemma extracted_a:
  "ExtractDifference (BuildIBLTFromCIDs (\<lambda>_. True) id [''b''] 256) (BuildIBLTFromCIDs (\<lambda>_. True) id [''a'', ''b''] 256)
     = Some (Inr ([], [KeyHash ''a''], False))"
  using one_missing [of "[''a'', ''b'']" "''a''" "[''b'']"] by (simp add: Build_tableOf)

theorem reconcile_exact_witness:
  "ExtractDifference (BuildIBLTFromCIDs (\<lambda>_. True) id [''b''] 256) (BuildIBLTFromCIDs (\<lambda>_. True) id [''a'', ''b''] 256)
     = Some (Inr ([], [KeyHash ''a''], False))
   \<and> addHash 1 (KeyHash ''a'') (BuildIBLTFromCIDs (\<lambda>_. True) id [''b''] 256) = BuildIBLTFromCIDs (\<lambda>_. True) id [''a'', ''b''] 256"
  using reconcile_exact [OF extracted_a] extracted_a by simp

lemma genuine_one: "genuine 256 [] [k]"
proof -
  have "cl_Count (ib_Cells (tableOf 256 [] ns) ! i) = - 1 \<and> cl_KeySum (ib_Cells (tableOf 256 [] ns) ! i) \<in> set ns"
    if ns: "mset ns \<subseteq># {#k#}" and i: "i < 256" and pure: "pureCell (tableOf 256 [] ns) i" for ns i
  proof -
    from ns have "mset ns = {#} \<or> mset ns = {#k#}" by (cases ns) (auto simp: insert_subset_eq_iff)
    then consider "ns = []" | "ns = [k]" by (auto simp: mset_single_iff)
    then show ?thesis
    proof cases
      case 1
      with pure empty_not_pure [of 256] i show ?thesis by (simp add: tableOf_def peelOne_None_iff)
    next
      case 2
      with pure i single_pure [of "- 1" i 256 k] single_cell [of i 256 "- 1" k] show ?thesis by (simp add: tableOf_def)
    qed
  qed
  then show ?thesis unfolding genuine_def Let_def by auto
qed

theorem extraction_ends_witness:
  "genuine 256 [] [KeyHash ''a'']
   \<and> (\<exists>pos neg incomplete. ExtractDifference (BuildIBLTFromCIDs (\<lambda>_. True) id [''b''] 256) (BuildIBLTFromCIDs (\<lambda>_. True) id [''a'', ''b''] 256)
         = Some (Inr (pos, neg, incomplete)) \<and> mset pos \<subseteq># {#} \<and> mset neg \<subseteq># {#KeyHash ''a''#})"
  using extraction_ends [of "[]" "\<lambda>_. True" id "[''b'']" "[''a'', ''b'']" "[KeyHash ''a'']" 256] genuine_one [of "KeyHash ''a''"]
  by (simp add: catalogHashes_def)


end
