(* ===== verification/Go_Float.thy ===== *)
theory Go_Float
  imports Complex_Main "HOL-Library.Log_Nat"
begin

text \<open>
  \<open>float64\<close> as the code uses it: a finite double is a rational number, and an operation rounds the exact result to 53 significant
  bits, to nearest with ties to even. The bounds of the exponent, infinities and NaN are left out: the model agrees with
  \<open>float64\<close> as long as every intermediate result is in the range of the normal doubles (\<open>inRange\<close>), which the statements
  about it conclude. The rounding is executable.
\<close>

type_synonym float64 = rat

definition roundEven :: "rat \<Rightarrow> int" where
  "roundEven y =
     (let f = \<lfloor>y\<rfloor>; d = y - of_int f in
      if d < 1 / 2 then f else if d > 1 / 2 then f + 1 else if even f then f else f + 1)"

text \<open>The exponent \<open>e\<close> of a number that is not zero: its amount is at least \<open>2 powi e\<close> and below the next power.\<close>

definition exponentOf :: "rat \<Rightarrow> int" where
  "exponentOf x =
     (let (p, q) = quotient_of \<bar>x\<bar>; e = bitlen p - bitlen q in
      if 2 powi e \<le> \<bar>x\<bar> then e else e - 1)"

definition fl :: "rat \<Rightarrow> float64" where
  "fl x = (if x = 0 then 0 else let e = exponentOf x in of_int (roundEven (x * 2 powi (52 - e))) * 2 powi (e - 52))"

definition float_of :: "int \<Rightarrow> float64" where "float_of n = fl (of_int n)"

definition fadd :: "float64 \<Rightarrow> float64 \<Rightarrow> float64" where "fadd a b = fl (a + b)"
definition fsub :: "float64 \<Rightarrow> float64 \<Rightarrow> float64" where "fsub a b = fl (a - b)"
definition fmul :: "float64 \<Rightarrow> float64 \<Rightarrow> float64" where "fmul a b = fl (a * b)"
definition fdiv :: "float64 \<Rightarrow> float64 \<Rightarrow> float64" where "fdiv a b = fl (a / b)"

text \<open>The conversion to \<open>int\<close> cuts the fraction off.\<close>

definition int_of_float :: "float64 \<Rightarrow> int" where "int_of_float x = (if x < 0 then - \<lfloor>- x\<rfloor> else \<lfloor>x\<rfloor>)"

subsection \<open>The error of rounding\<close>

definition ulp :: rat where "ulp = 1 / 2 ^ 53"

lemma roundEven_error: "\<bar>of_int (roundEven y) - y\<bar> \<le> 1 / 2"
proof -
  have "of_int \<lfloor>y\<rfloor> \<le> y" "y < of_int \<lfloor>y\<rfloor> + 1" by linarith+
  then show ?thesis by (auto simp: roundEven_def Let_def abs_le_iff)
qed

lemma roundEven_nonneg: "0 \<le> y \<Longrightarrow> 0 \<le> roundEven y"
  by (auto simp: roundEven_def Let_def)

lemma exponentOf_low:
  assumes "x \<noteq> 0"
  shows "2 powi exponentOf x \<le> \<bar>x\<bar>"
proof -
  obtain p q where pq: "quotient_of \<bar>x\<bar> = (p, q)" by fastforce
  have q: "0 < q" and x: "\<bar>x\<bar> = of_int p / of_int q"
    using quotient_of_denom_pos [OF pq] quotient_of_div [OF pq] by auto
  have "0 < \<bar>x\<bar>" using assms by simp
  then have p: "0 < p" using q unfolding x by (simp add: zero_less_divide_iff)
  have bp: "2 ^ nat (bitlen p - 1) \<le> p" and bq: "q < 2 ^ nat (bitlen q)"
    using bitlen_bounds [OF p] bitlen_bounds [OF q] by auto
  have pos: "1 \<le> bitlen p" "0 \<le> bitlen q" using p q bitlen_nonneg by (auto simp: bitlen_def floorlog_def)
  have "(2 :: rat) powi (bitlen p - bitlen q - 1) = 2 powi (bitlen p - 1) / 2 powi bitlen q"
    by (simp add: power_int_diff)
  also have "\<dots> = of_int (2 ^ nat (bitlen p - 1)) / of_int (2 ^ nat (bitlen q))"
    using pos by (simp add: power_int_def)
  also have "\<dots> \<le> of_int p / of_int q"
    using q p by (intro frac_le) (simp_all only: of_int_le_iff of_int_0_less_iff of_int_0_le_iff bp less_imp_le [OF bq] less_imp_le)
  finally have "2 powi (bitlen p - bitlen q - 1) \<le> \<bar>x\<bar>" using x by simp
  then show ?thesis by (simp add: exponentOf_def pq Let_def)
qed

text \<open>Rounding changes a number by at most half a unit of the last of its 53 bits.\<close>

lemma fl_error: "\<bar>fl x - x\<bar> \<le> \<bar>x\<bar> * ulp"
proof (cases "x = 0")
  case False
  define e where "e = exponentOf x"
  let ?s = "(2 :: rat) powi (52 - e)"
  have s: "0 < ?s" "?s * 2 powi (e - 52) = 1" by (simp_all add: power_int_add [symmetric])
  then have u: "2 powi (e - 52) = 1 / ?s" by (simp add: field_simps)
  have "?s = 2 powi 52 / 2 powi e" by (rule power_int_diff) simp
  then have "1 / ?s = 2 powi e / 2 ^ 52" by (simp only: divide_divide_eq_right) simp
  then have small: "1 / ?s \<le> \<bar>x\<bar> / 2 ^ 52" using exponentOf_low [OF False] by (simp add: e_def divide_right_mono)
  have "fl x - x = (of_int (roundEven (x * ?s)) - x * ?s) * (1 / ?s)"
    using False s by (simp add: fl_def e_def [symmetric] Let_def u field_simps)
  then have "\<bar>fl x - x\<bar> = \<bar>of_int (roundEven (x * ?s)) - x * ?s\<bar> * (1 / ?s)" using s by (simp add: abs_mult)
  also have "\<dots> \<le> 1 / 2 * (1 / ?s)" using s by (intro mult_right_mono roundEven_error) simp
  also have "\<dots> \<le> \<bar>x\<bar> * ulp" using small by (simp add: ulp_def)
  finally show ?thesis .
qed (simp add: fl_def)

lemma fl_nonneg: "0 \<le> x \<Longrightarrow> 0 \<le> fl x"
  by (auto simp: fl_def Let_def intro!: mult_nonneg_nonneg roundEven_nonneg)

lemma fl_upper: "0 \<le> x \<Longrightarrow> fl x \<le> x * (1 + ulp)"
  using fl_error [of x] by (simp add: abs_le_iff algebra_simps)

lemma fl_lower: "0 \<le> x \<Longrightarrow> x * (1 - ulp) \<le> fl x"
  using fl_error [of x] by (simp add: abs_le_iff algebra_simps)

lemma fl_zero [simp]: "fl 0 = 0" by (simp add: fl_def)

lemma fl_pos: "0 < x \<Longrightarrow> 0 < fl x"
  using fl_lower [of x] by (simp add: ulp_def field_simps)

lemma ulp_bounds: "0 < ulp" "ulp < 1" by (simp_all add: ulp_def)


text \<open>Whole numbers below \<open>2 ^ 53\<close> are represented exactly.\<close>

lemma fl_int:
  assumes "\<bar>n\<bar> < 2 ^ 53"
  shows "fl (of_int n) = of_int n"
proof (cases "n = 0")
  case False
  define e where "e = exponentOf (of_int n)"
  have "2 powi e \<le> (of_int \<bar>n\<bar> :: rat)" using exponentOf_low [of "of_int n"] False by (simp add: e_def)
  also have "\<dots> < of_int (2 ^ 53)" using assms by (simp only: of_int_less_iff)
  finally have "2 powi e < (2 :: rat) powi 53" by simp
  then have "e \<le> 52" using power_int_increasing [of 53 e "2 :: rat"] by (cases "e < 53") auto
  then have s: "(2 :: rat) powi (52 - e) = of_int (2 ^ nat (52 - e))" by (simp add: power_int_def)
  have r: "roundEven (of_int m) = m" for m by (simp add: roundEven_def)
  have "roundEven (of_int n * 2 powi (52 - e)) = n * 2 ^ nat (52 - e)"
    unfolding s of_int_mult [symmetric] by (rule r)
  then have "fl (of_int n) = of_int n * (2 powi (52 - e) * 2 powi (e - 52))"
    using False s by (simp add: fl_def Let_def e_def [symmetric])
  then show ?thesis by (simp add: power_int_add [symmetric])
qed simp

lemma fl_numeral: "(numeral k :: int) < 2 ^ 53 \<Longrightarrow> fl (numeral k) = numeral k"
  using fl_int [of "numeral k"] by simp

lemma fl_one: "fl 1 = 1"
  using fl_int [of 1] by simp

subsection \<open>Range\<close>

text \<open>Zero and the amounts between the smallest normal double and \<open>2 ^ 1023\<close>: there the model and \<open>float64\<close> round alike, and nothing
  overflows or underflows.\<close>

definition inRange :: "rat \<Rightarrow> bool" where
  "inRange x \<longleftrightarrow> x = 0 \<or> 2 powi (- 1022) \<le> \<bar>x\<bar> \<and> \<bar>x\<bar> \<le> 2 powi 1023"

text \<open>The scale of a number: one rounding moves it by less than a factor of two.\<close>

definition scaled :: "int \<Rightarrow> int \<Rightarrow> rat \<Rightarrow> bool" where
  "scaled l u x \<longleftrightarrow> 2 powi l \<le> x \<and> x \<le> 2 powi u"

lemma scaled_pos: "scaled l u x \<Longrightarrow> 0 < x"
  using zero_less_power_int [of "2 :: rat" l] unfolding scaled_def by linarith

lemma scaled_inRange:
  assumes "scaled l u x" "- 1022 \<le> l" "u \<le> 1023"
  shows "inRange x"
proof -
  have lo: "(2 :: rat) powi (- 1022) \<le> 2 powi l" using assms(2) by (rule power_int_increasing) simp
  have hi: "(2 :: rat) powi u \<le> 2 powi 1023" using assms(3) by (rule power_int_increasing) simp
  have x: "2 powi l \<le> x" "x \<le> 2 powi u" using assms(1) unfolding scaled_def by blast+
  have pos: "0 < x" using scaled_pos [OF assms(1)] .
  show ?thesis
    unfolding inRange_def abs_of_pos [OF pos] using order_trans [OF lo x(1)] order_trans [OF x(2) hi] by blast
qed

lemma scaled_fl:
  assumes "scaled l u x"
  shows "scaled (l - 1) (u + 1) (fl x)"
proof -
  have x: "0 < x" using assms by (rule scaled_pos)
  have "2 powi (l - 1) = (2 powi l :: rat) * (1 / 2)" "2 powi (u + 1) = (2 powi u :: rat) * 2"
    by (simp_all add: power_int_diff power_int_add)
  moreover have "x * (1 / 2) \<le> fl x" "fl x \<le> x * 2"
    using fl_lower [of x] fl_upper [of x] x by (simp_all add: ulp_def)
  ultimately show ?thesis using assms unfolding scaled_def by linarith
qed

lemma scaled_mult:
  assumes "scaled l u x" "scaled m w y"
  shows "scaled (l + m) (u + w) (x * y)"
  using assms scaled_pos [OF assms(1)] scaled_pos [OF assms(2)] unfolding scaled_def
  by (auto simp: power_int_add intro!: mult_mono)

lemma scaled_divide:
  assumes "scaled l u x" "scaled m w y"
  shows "scaled (l - w) (u - m) (x / y)"
  using assms scaled_pos [OF assms(1)] scaled_pos [OF assms(2)] unfolding scaled_def
  by (auto simp: power_int_diff intro!: frac_le)

lemma scaled_mono: "scaled l u x \<Longrightarrow> l' \<le> l \<Longrightarrow> u \<le> u' \<Longrightarrow> scaled l' u' x"
  unfolding scaled_def by (meson order_trans power_int_increasing one_le_numeral)

lemma scaled_add:
  assumes "scaled l u x" "scaled l u y"
  shows "scaled l (u + 1) (x + y)"
proof -
  have "2 powi (u + 1) = (2 powi u :: rat) * 2" by (simp add: power_int_add)
  with assms scaled_pos [OF assms(2)] show ?thesis unfolding scaled_def by linarith
qed

text \<open>Zero or scaled: what sums and quotients of weights that may be zero are.\<close>

definition scaled0 :: "int \<Rightarrow> int \<Rightarrow> rat \<Rightarrow> bool" where "scaled0 l u x \<longleftrightarrow> x = 0 \<or> scaled l u x"

lemma scaled0_inRange: "scaled0 l u x \<Longrightarrow> - 1022 \<le> l \<Longrightarrow> u \<le> 1023 \<Longrightarrow> inRange x"
  unfolding scaled0_def by (metis scaled_inRange inRange_def)

lemma scaled0_mono: "scaled0 l u x \<Longrightarrow> l' \<le> l \<Longrightarrow> u \<le> u' \<Longrightarrow> scaled0 l' u' x"
  unfolding scaled0_def using scaled_mono by blast

lemma scaled0_fadd:
  assumes "scaled0 l u x" "scaled0 l u y"
  shows "scaled0 (l - 1) (u + 2) (fadd x y)"
proof -
  have "scaled0 l (u + 1) (x + y)"
    using assms scaled_add [of l u x y] scaled_mono [of l u _ l "u + 1"] by (auto simp: scaled0_def)
  then show ?thesis using scaled_fl [of l "u + 1" "x + y"] by (auto simp: scaled0_def fadd_def add.commute)
qed

lemma scaled0_fmul: "scaled l u x \<Longrightarrow> scaled0 m w y \<Longrightarrow> scaled0 (l + m - 1) (u + w + 1) (fmul x y)"
  using scaled_fl [OF scaled_mult] by (auto simp: scaled0_def fmul_def)

lemma scaled0_fdiv: "scaled0 l u x \<Longrightarrow> scaled m w y \<Longrightarrow> scaled0 (l - w - 1) (u - m + 1) (fdiv x y)"
  using scaled_fl [OF scaled_divide] by (auto simp: scaled0_def fdiv_def)

end
