(* ===== verification/Storage_Key.thy ===== *)
theory Storage_Key
  imports Go_Strings
begin

text \<open>
  \<open>internal/storage/key.go\<close>: the content key, an array of 32 bytes, its hexadecimal text and the parser of it. SHA-256 is a
  parameter.
\<close>

type_synonym content_key = bytes

definition zeroKey :: content_key where "zeroKey = replicate 32 (char_of (0 :: nat))"

definition KeyFromData :: "(bytes \<Rightarrow> bytes) \<Rightarrow> bytes \<Rightarrow> content_key" where
  "KeyFromData Sum256 data = Sum256 data"

definition Key_String :: "content_key \<Rightarrow> string" where "Key_String k = hex_EncodeToString k"

definition IsZero :: "content_key \<Rightarrow> bool" where "IsZero k \<longleftrightarrow> k = zeroKey"

definition ParseKey :: "string \<Rightarrow> content_key result" where
  "ParseKey s =
     fail_if (length s \<noteq> 64) (ErrMsg ''invalid key length'')
     (case hex_DecodeString s of
        None \<Rightarrow> Inl (ErrMsg ''invalid hex string'')
      | Some b \<Rightarrow> fail_if (length b \<noteq> 32) (ErrMsg ''invalid key length'') (Inr b))"

lemma ParseKey_String: "length k = 32 \<Longrightarrow> ParseKey (Key_String k) = Inr k"
  by (simp add: ParseKey_def Key_String_def)

lemma Key_String_inj: "Key_String k = Key_String k' \<Longrightarrow> k = k'"
  by (simp add: Key_String_def)

subsection \<open>Go integers\<close>

text \<open>The 64-bit value of an \<open>int\<close> or \<open>time.Duration\<close> expression: arithmetic wraps around.\<close>

definition wrap64 :: "int \<Rightarrow> int" where "wrap64 x = (x + 2 ^ 63) mod 2 ^ 64 - 2 ^ 63"

definition goInt :: "int \<Rightarrow> bool" where "goInt x \<longleftrightarrow> - (2 ^ 63) \<le> x \<and> x < 2 ^ 63"

lemma goInt_wrap64: "goInt (wrap64 x)"
  by (simp add: goInt_def wrap64_def)

lemma wrap64_goInt: "goInt x \<Longrightarrow> wrap64 x = x"
  by (simp add: goInt_def wrap64_def)

lemma wrap64_small: "0 \<le> x \<Longrightarrow> x < 2 ^ 63 \<Longrightarrow> wrap64 x = x"
  by (simp add: wrap64_def)

text \<open>The successor of a 64-bit integer: the largest is followed by the smallest.\<close>

lemma wrap64_succ: "goInt x \<Longrightarrow> wrap64 (x + 1) = (if x = 2 ^ 63 - 1 then - (2 ^ 63) else x + 1)"
  by (simp add: wrap64_def goInt_def)

end
