(* ===== verification/Storage_Token.thy ===== *)
theory Storage_Token
  imports Storage_Key Tuple_Wait Go_Datastore Go_Errors "HOL-Library.AList"
begin

text \<open>
  \<open>internal/storage/token.go\<close>, \<open>token_routing.go\<close>, \<open>token_conflict.go\<close>, \<open>token_sync.go\<close> and \<open>conflict.go\<close>: the tokens that name
  the places of a content key, their merging, the optimistic updates and what storage operations do to them. The value store, JSON,
  peer identifiers and multiaddresses are parameters; an address is its text. The merge goes through a Go map, whose iteration order
  is the arbitrary rank \<open>tc_rank\<close>. Time passes in the sleeps between attempts, in which others may change the store.
\<close>

record Location =
  lo_ProviderID :: string
  lo_Address :: string
  lo_RTT :: int

record Token =
  tk_Key :: content_key
  tk_Locations :: "Location list"
  tk_Timestamp :: int
  tk_Version :: int

record locationJSON =
  lj_ProviderID :: string
  lj_Address :: string
  lj_RTT :: int

record tokenJSON =
  tj_Key :: string
  tj_Locations :: "locationJSON list"
  tj_Timestamp :: int
  tj_Version :: int

record 'n token_cfg =
  tc_dht :: "'n valuestore"
  tc_pidString :: "string \<Rightarrow> string"
  tc_pidDecode :: "string \<Rightarrow> string result"
  tc_NewMultiaddr :: "string \<Rightarrow> string result"
  tc_Marshal :: "tokenJSON \<Rightarrow> bytes result"
  tc_Unmarshal :: "bytes \<Rightarrow> tokenJSON result"
  tc_rank :: "string \<Rightarrow> nat"
  tc_others :: "int \<Rightarrow> 'n \<Rightarrow> 'n"

subsection \<open>Tokens\<close>

definition Token_Marshal :: "'n token_cfg \<Rightarrow> Token \<Rightarrow> bytes result" where
  "Token_Marshal C t = tc_Marshal C \<lparr>tj_Key = Key_String (tk_Key t),
     tj_Locations = map (\<lambda>l. \<lparr>lj_ProviderID = tc_pidString C (lo_ProviderID l), lj_Address = lo_Address l, lj_RTT = lo_RTT l\<rparr>) (tk_Locations t),
     tj_Timestamp = tk_Timestamp t, tj_Version = tk_Version t\<rparr>"

fun parseLocations :: "'n token_cfg \<Rightarrow> locationJSON list \<Rightarrow> Location list result" where
  "parseLocations C [] = Inr []"
| "parseLocations C (lj # ljs) =
     bindR (tc_pidDecode C (lj_ProviderID lj)) (\<lambda>p.
     bindR (tc_NewMultiaddr C (lj_Address lj)) (\<lambda>a.
     bindR (parseLocations C ljs) (\<lambda>ls. Inr (\<lparr>lo_ProviderID = p, lo_Address = a, lo_RTT = lj_RTT lj\<rparr> # ls))))"

definition zeroToken :: Token where
  "zeroToken = \<lparr>tk_Key = zeroKey, tk_Locations = [], tk_Timestamp = 0, tk_Version = 0\<rparr>"

definition Token_Unmarshal :: "'n token_cfg \<Rightarrow> bytes \<Rightarrow> Token result" where
  "Token_Unmarshal C data =
     (if data = [] then Inr zeroToken
      else bindR (tc_Unmarshal C data) (\<lambda>tj.
           bindR (ParseKey (tj_Key tj)) (\<lambda>k.
           bindR (parseLocations C (tj_Locations tj)) (\<lambda>ls.
           Inr \<lparr>tk_Key = k, tk_Locations = ls, tk_Timestamp = tj_Timestamp tj, tk_Version = tj_Version tj\<rparr>))))"

definition Token_Validate :: "Token \<Rightarrow> unit result" where
  "Token_Validate t =
     fail_if (IsZero (tk_Key t)) (ErrMsg ''token validation error: key - key cannot be zero'')
     (fail_if (tk_Locations t = []) (ErrMsg ''token validation error: locations - locations cannot be empty'') (Inr ()))"

subsection \<open>Routing\<close>

definition TokenNamespace :: string where "TokenNamespace = ''/tokens/''"

definition tokenDHTKey :: "content_key \<Rightarrow> string" where
  "tokenDHTKey k = TokenNamespace @ Key_String k"

definition dhtPut :: "'n token_cfg \<Rightarrow> string \<Rightarrow> bytes \<Rightarrow> ('n clocked, unit) op" where
  "dhtPut C key data s =
     (case vs_PutValue (tc_dht C) key data (du_net s) of (r, n) \<Rightarrow> (wrapR ''DHT put token failed'' r, s\<lparr>du_net := n\<rparr>))"

definition PutToken :: "'n token_cfg \<Rightarrow> content_key \<Rightarrow> Token \<Rightarrow> ('n clocked, unit) op" where
  "PutToken C k t =
     fail_ifS (IsZero k) (ErrMsg ''key cannot be zero'')
     (bindS (liftR (wrapR ''token validation failed'' (Token_Validate t))) (\<lambda>_.
      bindS (liftR (wrapR ''marshal token'' (Token_Marshal C t))) (\<lambda>data. dhtPut C (tokenDHTKey k) data)))"

definition GetToken :: "'n token_cfg \<Rightarrow> content_key \<Rightarrow> 'n \<Rightarrow> Token result" where
  "GetToken C k st =
     fail_if (IsZero k) (ErrMsg ''key cannot be zero'')
     (bindR (wrapR ''DHT get token failed'' (vs_GetValue (tc_dht C) st (tokenDHTKey k))) (\<lambda>data.
      fail_if (data = []) (ErrMsg ''token not found'')
      (bindR (wrapR ''unmarshal token'' (Token_Unmarshal C data)) (\<lambda>t.
       bindR (wrapR ''retrieved token validation failed'' (Token_Validate t)) (\<lambda>_. Inr t)))))"

subsection \<open>Conflicts\<close>

definition mergeLocations :: "'n token_cfg \<Rightarrow> Location list \<Rightarrow> Location list \<Rightarrow> Location list" where
  "mergeLocations C ls rs =
     (let add = foldl (\<lambda>m l. AList.update (tc_pidString C (lo_ProviderID l)) l m);
          locationMap = add (add [] ls) rs in
      map snd (sort_key (tc_rank C \<circ> fst) locationMap))"

definition ResolveTokenConflict :: "'n token_cfg \<Rightarrow> Token \<Rightarrow> Token \<Rightarrow> Token" where
  "ResolveTokenConflict C local remote =
     (if tk_Key local \<noteq> tk_Key remote then local
      else \<lparr>tk_Key = tk_Key local, tk_Locations = mergeLocations C (tk_Locations local) (tk_Locations remote),
            tk_Timestamp = max (tk_Timestamp local) (tk_Timestamp remote), tk_Version = wrap64 (max (tk_Version local) (tk_Version remote) + 1)\<rparr>)"

definition sleepToken :: "'n token_cfg \<Rightarrow> int \<Rightarrow> ('n clocked, unit) op" where
  "sleepToken C d s = (Inr (), s\<lparr>du_now := du_now s + d, du_net := tc_others C d (du_net s)\<rparr>)"

text \<open>The loop of \<open>PutTokenWithConflictResolution\<close>, with the attempts that are left.\<close>

primrec putLoop :: "'n token_cfg \<Rightarrow> content_key \<Rightarrow> nat \<Rightarrow> nat \<Rightarrow> Token \<Rightarrow> ('n clocked, unit) op" where
  "putLoop C k maxRetries 0 newToken = failS (ErrMsg ''put token failed'')"
| "putLoop C k maxRetries (Suc n) newToken =
     readS (\<lambda>s. (GetToken C k (du_net s), du_now s)) (\<lambda>(current, now).
     (case current of
        Inl _ \<Rightarrow> PutToken C k newToken
      | Inr currentToken \<Rightarrow>
          (let direct = (tk_Version newToken = wrap64 (tk_Version currentToken + 1));
               newToken' = (if direct then newToken\<lparr>tk_Timestamp := now\<rparr> else newToken);
               candidate = (if direct then newToken' else ResolveTokenConflict C newToken currentToken) in
           tryS (PutToken C k candidate) (\<lambda>r.
           (case r of
              Inr _ \<Rightarrow> retS ()
            | Inl e \<Rightarrow>
                if n > 0 then bindS (sleepToken C (50000000 * int (maxRetries - n))) (\<lambda>_. putLoop C k maxRetries n newToken')
                else failS (ErrWrap (if direct then ''put token failed after attempts'' else ''put resolved token failed after attempts'') e))))))"

definition PutTokenWithConflictResolution :: "'n token_cfg \<Rightarrow> content_key \<Rightarrow> Token \<Rightarrow> int \<Rightarrow> ('n clocked, unit) op" where
  "PutTokenWithConflictResolution C k newToken maxRetries =
     fail_ifS (IsZero k) (ErrMsg ''key cannot be zero'')
     (let n = (if maxRetries < 1 then 3 else nat maxRetries) in putLoop C k n n newToken)"

primrec updateLoop :: "'n token_cfg \<Rightarrow> content_key \<Rightarrow> (Token \<Rightarrow> Token) \<Rightarrow> nat \<Rightarrow> nat \<Rightarrow> ('n clocked, unit) op" where
  "updateLoop C k f maxRetries 0 = failS (ErrMsg ''update token failed'')"
| "updateLoop C k f maxRetries (Suc n) =
     readS (\<lambda>s. (GetToken C k (du_net s), du_now s)) (\<lambda>(current, now).
     (case current of
        Inl e \<Rightarrow> failS (ErrWrap ''get token'' e)
      | Inr currentToken \<Rightarrow>
          tryS (PutTokenWithConflictResolution C k
                  ((f currentToken)\<lparr>tk_Version := wrap64 (tk_Version currentToken + 1), tk_Timestamp := now\<rparr>) 1) (\<lambda>r.
          (case r of
             Inr _ \<Rightarrow> retS ()
           | Inl e \<Rightarrow>
               if n > 0 then bindS (sleepToken C (50000000 * int (maxRetries - n))) (\<lambda>_. updateLoop C k f maxRetries n)
               else failS (ErrWrap ''update token failed after attempts'' e)))))"

definition UpdateTokenWithConflictResolution :: "'n token_cfg \<Rightarrow> content_key \<Rightarrow> (Token \<Rightarrow> Token) \<Rightarrow> int \<Rightarrow> ('n clocked, unit) op" where
  "UpdateTokenWithConflictResolution C k f maxRetries =
     fail_ifS (IsZero k) (ErrMsg ''key cannot be zero'')
     (let n = (if maxRetries < 1 then 3 else nat maxRetries) in updateLoop C k f n n)"

definition UpdateTokenLocations :: "'n token_cfg \<Rightarrow> content_key \<Rightarrow> Location list \<Rightarrow> ('n clocked, unit) op" where
  "UpdateTokenLocations C k locations =
     fail_ifS (IsZero k) (ErrMsg ''key cannot be zero'')
     (fail_ifS (locations = []) (ErrMsg ''locations cannot be empty'')
      (tryS (UpdateTokenWithConflictResolution C k (\<lambda>t. t\<lparr>tk_Locations := locations\<rparr>) 3) (\<lambda>r.
       liftR (wrapR ''update token locations'' r))))"

subsection \<open>Tokens and stored data\<close>

definition pickRoutableAddr :: "string list \<Rightarrow> string option" where
  "pickRoutableAddr addrs = List.find (\<lambda>a. \<not> sublist ''/ip4/0.0.0.0/'' a) addrs"

definition isTokenAbsent :: "go_error \<Rightarrow> bool" where
  "isTokenAbsent err \<longleftrightarrow> errors_Is err RoutingNotFound \<or> sublist ''token not found'' (ToLower (error_text err))
     \<or> sublist ''no matching tuple'' (ToLower (error_text err))"

text \<open>The reads of \<open>SyncTokenOnPut\<close>: up to five, until one answers.\<close>

fun readToken :: "'n token_cfg \<Rightarrow> content_key \<Rightarrow> nat \<Rightarrow> nat \<Rightarrow> ('n clocked, Token result) op" where
  "readToken C k attempt 0 = readS (\<lambda>s. GetToken C k (du_net s)) retS"
| "readToken C k attempt (Suc n) =
     readS (\<lambda>s. GetToken C k (du_net s)) (\<lambda>r.
     (case r of
        Inr t \<Rightarrow> retS (Inr t)
      | Inl e \<Rightarrow> if isTokenAbsent e then retS (Inl e)
                 else bindS (sleepToken C (100000000 * 2 ^ attempt)) (\<lambda>_. readToken C k (Suc attempt) n)))"

definition addLocation :: "Location \<Rightarrow> Token \<Rightarrow> Token" where
  "addLocation loc t =
     (if lo_ProviderID loc \<in> set (map lo_ProviderID (tk_Locations t)) then t else t\<lparr>tk_Locations := tk_Locations t @ [loc]\<rparr>)"

definition SyncTokenOnPut :: "'n token_cfg \<Rightarrow> string \<Rightarrow> string list \<Rightarrow> content_key \<Rightarrow> ('n clocked, unit) op" where
  "SyncTokenOnPut C peerID addrs k =
     fail_ifS (IsZero k) (ErrMsg ''key cannot be zero'')
     (fail_ifS (addrs = []) (ErrMsg ''host has no addresses'')
      (let loc = \<lparr>lo_ProviderID = peerID, lo_Address = (case pickRoutableAddr addrs of None \<Rightarrow> hd addrs | Some a \<Rightarrow> a), lo_RTT = 0\<rparr> in
       bindS (readToken C k 0 4) (\<lambda>got.
       (case got of
          Inl e \<Rightarrow>
            fail_ifS (\<not> isTokenAbsent e) (ErrWrap ''sync token on put: get token'' e)
            (readS du_now (\<lambda>now.
             tryS (PutTokenWithConflictResolution C k \<lparr>tk_Key = k, tk_Locations = [loc], tk_Timestamp = now, tk_Version = 1\<rparr> 3) (\<lambda>r.
             liftR (wrapR ''put new token'' r))))
        | Inr _ \<Rightarrow>
            tryS (UpdateTokenWithConflictResolution C k (addLocation loc) 3) (\<lambda>r. liftR (wrapR ''sync token on put'' r))))))"

definition dropLocation :: "string \<Rightarrow> Token \<Rightarrow> Token" where
  "dropLocation peerID t = t\<lparr>tk_Locations := filter (\<lambda>l. lo_ProviderID l \<noteq> peerID) (tk_Locations t)\<rparr>"

definition SyncTokenOnDelete :: "'n token_cfg \<Rightarrow> string \<Rightarrow> content_key \<Rightarrow> ('n clocked, unit) op" where
  "SyncTokenOnDelete C peerID k =
     fail_ifS (IsZero k) (ErrMsg ''key cannot be zero'')
     (tryS (UpdateTokenWithConflictResolution C k (dropLocation peerID) 3) (\<lambda>r.
      (case r of
         Inr _ \<Rightarrow> retS ()
       | Inl e \<Rightarrow> readS (\<lambda>s. GetToken C k (du_net s)) (\<lambda>g.
           (case g of Inl _ \<Rightarrow> retS () | Inr _ \<Rightarrow> failS (ErrWrap ''sync token on delete'' e))))))"

definition pruneLocations :: "string list \<Rightarrow> Token \<Rightarrow> Token" where
  "pruneLocations providers t =
     (let kept = filter (\<lambda>l. lo_ProviderID l \<notin> set providers) (tk_Locations t) in
      if kept \<noteq> [] then t\<lparr>tk_Locations := kept\<rparr> else t)"

definition PruneTokenLocations :: "'n token_cfg \<Rightarrow> content_key \<Rightarrow> string list \<Rightarrow> ('n clocked, unit) op" where
  "PruneTokenLocations C k providers =
     fail_ifS (IsZero k) (ErrMsg ''key cannot be zero'')
     (if providers = [] then retS () else UpdateTokenWithConflictResolution C k (pruneLocations providers) 3)"

text \<open>The replicas a caller names; an address may be nil.\<close>

fun uniqueReplicas :: "string list \<Rightarrow> (string \<times> string option \<times> int) list \<Rightarrow> Location list result" where
  "uniqueReplicas seen [] = Inr []"
| "uniqueReplicas seen ((p, addr, rtt) # rest) =
     (case addr of
        None \<Rightarrow> Inl (ErrMsg ''provider and address required for every replica'')
      | Some a \<Rightarrow>
          fail_if (p = []) (ErrMsg ''provider and address required for every replica'')
          (if p \<in> set seen then uniqueReplicas seen rest
           else bindR (uniqueReplicas (p # seen) rest) (\<lambda>ls. Inr (\<lparr>lo_ProviderID = p, lo_Address = a, lo_RTT = rtt\<rparr> # ls))))"

definition SyncTokenOnReplications :: "'n token_cfg \<Rightarrow> content_key \<Rightarrow> (string \<times> string option \<times> int) list \<Rightarrow> ('n clocked, unit) op" where
  "SyncTokenOnReplications C k replicas =
     fail_ifS (IsZero k) (ErrMsg ''key cannot be zero'')
     (if replicas = [] then retS ()
      else bindS (liftR (uniqueReplicas [] replicas)) (\<lambda>unique.
        tryS (UpdateTokenWithConflictResolution C k (\<lambda>t. fold (\<lambda>l. addLocation (l\<lparr>lo_RTT := 0\<rparr>)) unique t) 3) (\<lambda>r.
        (case r of
           Inr _ \<Rightarrow> retS ()
         | Inl _ \<Rightarrow> readS du_now (\<lambda>now.
             tryS (PutTokenWithConflictResolution C k \<lparr>tk_Key = k, tk_Locations = unique, tk_Timestamp = now, tk_Version = 1\<rparr> 3) (\<lambda>q.
             liftR (wrapR ''create token after replication'' q)))))))"

definition SyncTokenOnReplication :: "'n token_cfg \<Rightarrow> content_key \<Rightarrow> string \<Rightarrow> string option \<Rightarrow> ('n clocked, unit) op" where
  "SyncTokenOnReplication C k peerID addr = SyncTokenOnReplications C k [(peerID, addr, 0)]"

subsection \<open>Versions\<close>

record 'c Version =
  ve_Timestamp :: int
  ve_NodeID :: string
  ve_Hash :: "'c option"

definition CompareVersionsLastWriterWins :: "(string \<Rightarrow> string) \<Rightarrow> 'c Version \<Rightarrow> 'c Version \<Rightarrow> int" where
  "CompareVersionsLastWriterWins pidString a b =
     (if ve_Timestamp a > ve_Timestamp b then 1
      else if ve_Timestamp a < ve_Timestamp b then - 1
      else if pidString (ve_NodeID a) > pidString (ve_NodeID b) then 1
      else if pidString (ve_NodeID a) < pidString (ve_NodeID b) then - 1 else 0)"

definition NoConflictForImmutable :: "'c Version \<Rightarrow> 'c Version \<Rightarrow> bool" where
  "NoConflictForImmutable a b \<longleftrightarrow> ve_Hash a \<noteq> None \<and> ve_Hash a = ve_Hash b"

definition ResolveMutableMetadata :: "(string \<Rightarrow> string) \<Rightarrow> 'c Version \<Rightarrow> 'c Version \<Rightarrow> 'c Version" where
  "ResolveMutableMetadata pidString a b = (if CompareVersionsLastWriterWins pidString a b \<ge> 0 then a else b)"

end
