(* ===== verification/Storage_Replication.thy ===== *)
theory Storage_Replication
  imports Go_Float Go_Sort Storage_Token
begin

text \<open>
  \<open>internal/storage/replication.go\<close>: how many replicas of a block each distance category gets, and which peers are chosen for them.
  Weights and scores are \<open>float64\<close> values. Durations are nanoseconds.
\<close>

subsection \<open>Categories\<close>

record ReplicationVector =
  rv_Near :: float64
  rv_Midrange :: float64
  rv_FarFlung :: float64

definition DefaultReplicationVector :: ReplicationVector where
  "DefaultReplicationVector = \<lparr>rv_Near = fl (4 / 10), rv_Midrange = fl (3 / 10), rv_FarFlung = fl (3 / 10)\<rparr>"

datatype DistanceCategory = DistanceUnknown | DistanceNear | DistanceMidrange | DistanceFarFlung

definition Distance_String :: "DistanceCategory \<Rightarrow> string" where
  "Distance_String d =
     (case d of DistanceNear \<Rightarrow> ''Near'' | DistanceMidrange \<Rightarrow> ''Midrange'' | DistanceFarFlung \<Rightarrow> ''Far-flung'' | _ \<Rightarrow> ''Unknown'')"

text \<open>The values of the constants, by which the code orders categories: \<open>iota\<close> is one at the second constant of the block.\<close>

definition categoryOrd :: "DistanceCategory \<Rightarrow> int" where
  "categoryOrd d = (case d of DistanceUnknown \<Rightarrow> - 1 | DistanceNear \<Rightarrow> 1 | DistanceMidrange \<Rightarrow> 2 | DistanceFarFlung \<Rightarrow> 3)"

record RTTThresholds =
  th_NearThreshold :: int
  th_FarThreshold :: int

definition DefaultRTTThresholds :: RTTThresholds where
  "DefaultRTTThresholds = \<lparr>th_NearThreshold = 50000000, th_FarThreshold = 200000000\<rparr>"

definition ClassifyDistanceByRTT :: "int \<Rightarrow> RTTThresholds option \<Rightarrow> DistanceCategory" where
  "ClassifyDistanceByRTT rtt thresholds =
     (if rtt \<le> 0 then DistanceUnknown
      else let th = (case thresholds of None \<Rightarrow> DefaultRTTThresholds | Some t \<Rightarrow> t) in
        if rtt < th_NearThreshold th then DistanceNear
        else if rtt < th_FarThreshold th then DistanceMidrange
        else DistanceFarFlung)"

subsection \<open>Targets\<close>

definition clampWeights :: "ReplicationVector \<Rightarrow> float64 list" where
  "clampWeights v = map (\<lambda>w. if w < 0 then 0 else w) [rv_Near v, rv_Midrange v, rv_FarFlung v]"

definition totalWeight :: "float64 list \<Rightarrow> float64" where "totalWeight ws = foldl fadd 0 ws"

definition usedWeights :: "ReplicationVector \<Rightarrow> float64 list \<times> float64" where
  "usedWeights v = (let ws = clampWeights v; t = totalWeight ws in if t \<le> 0 then ([1, 0, 0], 1) else (ws, t))"

definition exactShare :: "int \<Rightarrow> float64 \<Rightarrow> float64 \<Rightarrow> float64" where
  "exactShare R t w = fdiv (fmul (float_of R) w) t"

text \<open>The remainders are handed out to the indices in the order of the sorted list, again from its start when it is used up.\<close>

primrec handOut :: "nat list \<Rightarrow> nat \<Rightarrow> int list \<Rightarrow> int list" where
  "handOut order 0 counts = counts"
| "handOut order (Suc n) counts =
     (let counts = handOut order n counts; i = order ! (n mod length order) in counts[i := counts ! i + 1])"

definition ReplicationTargets :: "ReplicationVector \<Rightarrow> int \<Rightarrow> int \<times> int \<times> int" where
  "ReplicationTargets v R =
     (if R \<le> 0 then (0, 0, 0)
      else let (ws, t) = usedWeights v;
               exact = map (exactShare R t) ws;
               counts = map int_of_float exact;
               remainders = map (\<lambda>i. (i, fsub (exact ! i) (float_of (counts ! i)))) [0, 1, 2];
               order = map fst (sort_key (\<lambda>(i, r). - r) remainders);
               counts = handOut order (nat (R - sum_list counts)) counts in
        (counts ! 0, counts ! 1, counts ! 2))"

subsection \<open>Candidates\<close>

record PeerCandidate =
  pc_PeerID :: string
  pc_RTT :: int
  pc_DistanceCategory :: DistanceCategory
  pc_CommittedStake :: u64
  pc_StorageAvailability :: u64
  pc_ReputationScore :: float64

record SelectionCriteria =
  sc_StakeWeight :: float64
  sc_RTTWeight :: float64
  sc_StorageWeight :: float64
  sc_ReputationWeight :: float64
  sc_Tokenized :: bool

definition DefaultSelectionCriteria :: "bool \<Rightarrow> SelectionCriteria" where
  "DefaultSelectionCriteria tokenized =
     (if tokenized then \<lparr>sc_StakeWeight = fl (3 / 10), sc_RTTWeight = fl (2 / 10), sc_StorageWeight = fl (2 / 10),
                         sc_ReputationWeight = fl (3 / 10), sc_Tokenized = True\<rparr>
      else \<lparr>sc_StakeWeight = 0, sc_RTTWeight = fl (25 / 100), sc_StorageWeight = fl (25 / 100),
            sc_ReputationWeight = fl (5 / 10), sc_Tokenized = False\<rparr>)"

definition normalizeWeights :: "SelectionCriteria \<Rightarrow> SelectionCriteria" where
  "normalizeWeights sc =
     (let total = fadd (fadd (fadd (sc_StakeWeight sc) (sc_RTTWeight sc)) (sc_StorageWeight sc)) (sc_ReputationWeight sc) in
      if total \<le> 0 then sc\<lparr>sc_StakeWeight := 1 / 4, sc_RTTWeight := 1 / 4, sc_StorageWeight := 1 / 4, sc_ReputationWeight := 1 / 4\<rparr>
      else if total \<noteq> 1 then sc\<lparr>sc_StakeWeight := fdiv (sc_StakeWeight sc) total, sc_RTTWeight := fdiv (sc_RTTWeight sc) total,
                               sc_StorageWeight := fdiv (sc_StorageWeight sc) total, sc_ReputationWeight := fdiv (sc_ReputationWeight sc) total\<rparr>
      else sc)"

definition ratio :: "u64 \<Rightarrow> u64 \<Rightarrow> float64" where
  "ratio a b = (let r = fdiv (float_of (uint a)) (float_of (uint b)) in if r > 1 then 1 else r)"

definition ScoreCandidate :: "PeerCandidate \<Rightarrow> SelectionCriteria \<Rightarrow> u64 \<Rightarrow> int \<Rightarrow> u64 \<Rightarrow> float64" where
  "ScoreCandidate c criteria maxStake maxRTT maxStorage =
     (let sc = normalizeWeights criteria;
          s1 = (if sc_Tokenized sc \<and> maxStake > 0 then fadd 0 (fmul (sc_StakeWeight sc) (ratio (pc_CommittedStake c) maxStake)) else 0);
          s2 = (if maxRTT > 0 \<and> pc_RTT c > 0
                then let n = fsub 1 (fdiv (float_of (pc_RTT c)) (float_of maxRTT)); n = (if n < 0 then 0 else n) in
                  fadd s1 (fmul (sc_RTTWeight sc) n)
                else if pc_RTT c = 0 then fadd s1 (fmul (sc_RTTWeight sc) 1)
                else s1);
          s3 = (if maxStorage > 0 then fadd s2 (fmul (sc_StorageWeight sc) (ratio (pc_StorageAvailability c) maxStorage)) else s2);
          rep = (if pc_ReputationScore c < 0 then 0 else if pc_ReputationScore c > 1 then 1 else pc_ReputationScore c) in
      fadd s3 (fmul (sc_ReputationWeight sc) rep))"

definition betterCandidate :: "(string \<Rightarrow> string) \<Rightarrow> PeerCandidate \<times> float64 \<Rightarrow> PeerCandidate \<times> float64 \<Rightarrow> bool" where
  "betterCandidate pidString a b =
     (if snd a \<noteq> snd b then snd a > snd b
      else if pc_ReputationScore (fst a) \<noteq> pc_ReputationScore (fst b) then pc_ReputationScore (fst a) > pc_ReputationScore (fst b)
      else if pc_RTT (fst a) \<noteq> pc_RTT (fst b) then pc_RTT (fst a) < pc_RTT (fst b)
      else pidString (pc_PeerID (fst a)) < pidString (pc_PeerID (fst b)))"

definition SelectReplicaCandidates ::
    "(string \<Rightarrow> string) \<Rightarrow> PeerCandidate list \<Rightarrow> DistanceCategory \<Rightarrow> SelectionCriteria \<Rightarrow> int \<Rightarrow> PeerCandidate list" where
  "SelectReplicaCandidates pidString candidates desired criteria wanted =
     (if candidates = [] \<or> wanted \<le> 0 then []
      else let filtered = filter (\<lambda>c. pc_DistanceCategory c = desired) candidates in
        if filtered = [] then []
        else let maxStake = foldl max 0 (map pc_CommittedStake filtered);
                 maxStorage = foldl max 0 (map pc_StorageAvailability filtered);
                 maxRTT = foldl max 0 (map pc_RTT filtered);
                 scored = map (\<lambda>c. (c, ScoreCandidate c criteria maxStake maxRTT maxStorage)) filtered in
          take (nat wanted) (map fst (sortSlice (betterCandidate pidString) scored)))"

end
