(* ===== verification/Storage_Routing.thy ===== *)
theory Storage_Routing
  imports Storage_Replication
begin

text \<open>
  \<open>internal/storage/routing_table.go\<close>, \<open>announce_queue.go\<close> and \<open>verify.go\<close>: the local table of keys with their providers and
  replication vectors, the queue of announcements during a partition, and the comparison of the replicas of a key with its vector.
  The table is a list of entries under the texts of their keys, in the order in which an iteration over the map meets them. A content
  identifier that is not defined is \<open>None\<close>.
\<close>

subsection \<open>Routing table\<close>

record ProviderInfo =
  pi_ProviderID :: string
  pi_DistanceCategory :: DistanceCategory
  pi_AddedAt :: int

record 'c RoutingTableEntry =
  re_Key :: content_key
  re_CID :: "'c option"
  re_Providers :: "ProviderInfo list"
  re_RepVector :: ReplicationVector

type_synonym 'c RoutingTable = "(string \<times> 'c RoutingTableEntry) list"

definition NewRoutingTable :: "'c RoutingTable" where "NewRoutingTable = []"

definition hasProvider :: "string \<Rightarrow> ProviderInfo list \<Rightarrow> bool" where
  "hasProvider pid ps \<longleftrightarrow> pid \<in> pi_ProviderID ` set ps"

definition RT_Set :: "int \<Rightarrow> content_key \<Rightarrow> string \<Rightarrow> ReplicationVector \<Rightarrow> 'c option \<Rightarrow> 'c RoutingTable \<Rightarrow> 'c RoutingTable" where
  "RT_Set now k providerID repVector c rt =
     (if IsZero k then rt
      else let info = \<lparr>pi_ProviderID = providerID, pi_DistanceCategory = DistanceMidrange, pi_AddedAt = now\<rparr> in
        (case map_of rt (Key_String k) of
           Some entry \<Rightarrow>
             let entry = (if hasProvider providerID (re_Providers entry) then entry else entry\<lparr>re_Providers := re_Providers entry @ [info]\<rparr>);
                 entry = entry\<lparr>re_RepVector := repVector\<rparr> in
             AList.update (Key_String k) (if c \<noteq> None then entry\<lparr>re_CID := c\<rparr> else entry) rt
         | None \<Rightarrow> AList.update (Key_String k) \<lparr>re_Key = k, re_CID = c, re_Providers = [info], re_RepVector = repVector\<rparr> rt))"

definition RT_Get :: "content_key \<Rightarrow> 'c RoutingTable \<Rightarrow> 'c RoutingTableEntry option" where
  "RT_Get k rt = (if IsZero k then None else map_of rt (Key_String k))"

definition RT_GetByCID :: "'c option \<Rightarrow> 'c RoutingTable \<Rightarrow> 'c RoutingTableEntry option" where
  "RT_GetByCID c rt = (if c = None then None else map_option snd (List.find (\<lambda>(_, e). re_CID e = c) rt))"

definition RT_Remove :: "content_key \<Rightarrow> 'c RoutingTable \<Rightarrow> 'c RoutingTable" where
  "RT_Remove k rt = (if IsZero k then rt else AList.delete (Key_String k) rt)"

definition RT_RemoveByCID :: "'c option \<Rightarrow> 'c RoutingTable \<Rightarrow> 'c RoutingTable" where
  "RT_RemoveByCID c rt =
     (if c = None then rt
      else case List.find (\<lambda>(_, e). re_CID e = c) rt of None \<Rightarrow> rt | Some (ks, _) \<Rightarrow> AList.delete ks rt)"

definition updateEntry :: "content_key \<Rightarrow> ('c RoutingTableEntry \<Rightarrow> 'c RoutingTableEntry) \<Rightarrow> 'c RoutingTable \<Rightarrow> 'c RoutingTable" where
  "updateEntry k f rt =
     (if IsZero k then rt
      else case map_of rt (Key_String k) of None \<Rightarrow> rt | Some e \<Rightarrow> AList.update (Key_String k) (f e) rt)"

definition UpdateRepVector :: "content_key \<Rightarrow> ReplicationVector \<Rightarrow> 'c RoutingTable \<Rightarrow> 'c RoutingTable" where
  "UpdateRepVector k v = updateEntry k (\<lambda>e. e\<lparr>re_RepVector := v\<rparr>)"

definition UpdateProviderID :: "int \<Rightarrow> content_key \<Rightarrow> string \<Rightarrow> 'c RoutingTable \<Rightarrow> 'c RoutingTable" where
  "UpdateProviderID now k providerID = updateEntry k
     (\<lambda>e. e\<lparr>re_Providers := [\<lparr>pi_ProviderID = providerID, pi_DistanceCategory = DistanceMidrange, pi_AddedAt = now\<rparr>]\<rparr>)"

definition RT_AddProvider :: "int \<Rightarrow> content_key \<Rightarrow> string \<Rightarrow> DistanceCategory \<Rightarrow> 'c RoutingTable \<Rightarrow> 'c RoutingTable" where
  "RT_AddProvider now k providerID category rt =
     (if IsZero k then rt
      else let info = \<lparr>pi_ProviderID = providerID, pi_DistanceCategory = category, pi_AddedAt = now\<rparr> in
        (case map_of rt (Key_String k) of
           Some entry \<Rightarrow>
             if hasProvider providerID (re_Providers entry) then rt
             else AList.update (Key_String k) (entry\<lparr>re_Providers := re_Providers entry @ [info]\<rparr>) rt
         | None \<Rightarrow> AList.update (Key_String k)
                     \<lparr>re_Key = k, re_CID = None, re_Providers = [info], re_RepVector = DefaultReplicationVector\<rparr> rt))"

text \<open>The first entry of the provider is cut out of the slice.\<close>

fun cutProvider :: "string \<Rightarrow> ProviderInfo list \<Rightarrow> ProviderInfo list" where
  "cutProvider pid [] = []"
| "cutProvider pid (p # ps) = (if pi_ProviderID p = pid then ps else p # cutProvider pid ps)"

definition RT_RemoveProvider :: "content_key \<Rightarrow> string \<Rightarrow> 'c RoutingTable \<Rightarrow> 'c RoutingTable" where
  "RT_RemoveProvider k providerID = updateEntry k (\<lambda>e. e\<lparr>re_Providers := cutProvider providerID (re_Providers e)\<rparr>)"

definition RT_GetProviders :: "content_key \<Rightarrow> 'c RoutingTable \<Rightarrow> ProviderInfo list" where
  "RT_GetProviders k rt = (case RT_Get k rt of None \<Rightarrow> [] | Some e \<Rightarrow> re_Providers e)"

definition GetProvidersByCategory :: "content_key \<Rightarrow> DistanceCategory \<Rightarrow> 'c RoutingTable \<Rightarrow> string list" where
  "GetProvidersByCategory k category rt =
     (case RT_Get k rt of
        None \<Rightarrow> []
      | Some e \<Rightarrow> map pi_ProviderID (filter (\<lambda>p. pi_DistanceCategory p = category) (re_Providers e)))"

definition RT_Len :: "'c RoutingTable \<Rightarrow> nat" where "RT_Len rt = length rt"
definition RT_Snapshot :: "'c RoutingTable \<Rightarrow> 'c RoutingTableEntry list" where "RT_Snapshot rt = map snd rt"
definition RT_Has :: "content_key \<Rightarrow> 'c RoutingTable \<Rightarrow> bool" where "RT_Has k rt \<longleftrightarrow> RT_Get k rt \<noteq> None"
definition RT_HasByCID :: "'c option \<Rightarrow> 'c RoutingTable \<Rightarrow> bool" where "RT_HasByCID c rt \<longleftrightarrow> RT_GetByCID c rt \<noteq> None"

subsection \<open>Announcements\<close>

record 'c AnnounceQueue =
  aq_partitioned :: bool
  aq_queued :: "'c list"

definition NewAnnounceQueue :: "'c AnnounceQueue" where "NewAnnounceQueue = \<lparr>aq_partitioned = False, aq_queued = []\<rparr>"

definition SetPartitioned :: "bool \<Rightarrow> 'c AnnounceQueue \<Rightarrow> 'c AnnounceQueue" where "SetPartitioned b q = q\<lparr>aq_partitioned := b\<rparr>"

definition AQ_Add :: "'c option \<Rightarrow> 'c AnnounceQueue \<Rightarrow> 'c AnnounceQueue" where
  "AQ_Add c q = (case c of None \<Rightarrow> q | Some x \<Rightarrow> if \<not> aq_partitioned q then q else q\<lparr>aq_queued := aq_queued q @ [x]\<rparr>)"

text \<open>What is announced, and the queue that is left. The context may be done before the call with the given index.\<close>

definition AQ_Flush :: "(nat \<Rightarrow> bool) \<Rightarrow> 'c AnnounceQueue \<Rightarrow> 'c list \<times> 'c AnnounceQueue" where
  "AQ_Flush isDone q =
     (map ((!) (aq_queued q)) (takeWhile (\<lambda>i. \<not> isDone i) [0..<length (aq_queued q)]), q\<lparr>aq_queued := []\<rparr>)"

subsection \<open>Verification\<close>

record ReplicaCounts =
  ct_Near :: int
  ct_Midrange :: int
  ct_FarFlung :: int
  ct_Total :: int
  ct_Unknown :: int

record ProviderDistanceInfo =
  pd_ProviderID :: string
  pd_DistanceCategory :: DistanceCategory
  pd_RTT :: int

record 'c ReplicaStateVerification =
  vf_Key :: content_key
  vf_CID :: "'c option"
  vf_ExpectedRepVector :: ReplicationVector
  vf_ActualCounts :: ReplicaCounts
  vf_ExpectedCounts :: ReplicaCounts
  vf_Providers :: "ProviderDistanceInfo list"
  vf_UnreachableProviders :: "string list"
  vf_IsSynchronized :: bool
  vf_MissingCategories :: "DistanceCategory list"

definition zeroCounts :: ReplicaCounts where
  "zeroCounts = \<lparr>ct_Near = 0, ct_Midrange = 0, ct_FarFlung = 0, ct_Total = 0, ct_Unknown = 0\<rparr>"

definition countReplica :: "DistanceCategory \<Rightarrow> ReplicaCounts \<Rightarrow> ReplicaCounts" where
  "countReplica d n =
     (case d of DistanceNear \<Rightarrow> n\<lparr>ct_Near := ct_Near n + 1\<rparr> | DistanceMidrange \<Rightarrow> n\<lparr>ct_Midrange := ct_Midrange n + 1\<rparr>
      | DistanceFarFlung \<Rightarrow> n\<lparr>ct_FarFlung := ct_FarFlung n + 1\<rparr> | _ \<Rightarrow> n\<lparr>ct_Unknown := ct_Unknown n + 1\<rparr>)
     \<lparr>ct_Total := ct_Total n + 1\<rparr>"

text \<open>
  A measurement answers a round-trip time or an error and may change the state of the one who measures. The lists found and given up
  so far go through both loops.
\<close>

type_synonym 's measurer = "string \<Rightarrow> string option \<Rightarrow> 's \<Rightarrow> int result \<times> 's"

record found =
  fd_Providers :: "ProviderDistanceInfo list"
  fd_Counts :: ReplicaCounts
  fd_Unreachable :: "string list"

definition noteProvider :: "string \<Rightarrow> DistanceCategory \<Rightarrow> int \<Rightarrow> found \<Rightarrow> found" where
  "noteProvider pid category rtt v =
     v\<lparr>fd_Providers := fd_Providers v @ [\<lparr>pd_ProviderID = pid, pd_DistanceCategory = category, pd_RTT = rtt\<rparr>],
       fd_Counts := countReplica category (fd_Counts v)\<rparr>"

definition noteUnreachable :: "string \<Rightarrow> found \<Rightarrow> found" where
  "noteUnreachable pid v = (if pid \<in> set (fd_Unreachable v) then v else v\<lparr>fd_Unreachable := fd_Unreachable v @ [pid]\<rparr>)"

definition probe :: "'s measurer \<Rightarrow> RTTThresholds option \<Rightarrow> string \<Rightarrow> string option \<Rightarrow> found \<times> 's \<Rightarrow> found \<times> 's" where
  "probe msr th pid addr =
     (\<lambda>(v, s). case msr pid addr s of
        (Inr rtt, t) \<Rightarrow> if rtt \<le> 0 then (noteUnreachable pid v, t) else (noteProvider pid (ClassifyDistanceByRTT rtt th) rtt v, t)
      | (Inl _, t) \<Rightarrow> (noteUnreachable pid v, t))"

definition verifyLocation :: "'s measurer option \<Rightarrow> RTTThresholds option \<Rightarrow> string \<Rightarrow> Location \<Rightarrow> found \<times> 's \<Rightarrow> found \<times> 's" where
  "verifyLocation rttMeasurer th self loc vs =
     (if lo_ProviderID loc = self then (noteProvider self DistanceNear (lo_RTT loc) (fst vs), snd vs)
      else case rttMeasurer of
        Some msr \<Rightarrow> probe msr th (lo_ProviderID loc) (Some (lo_Address loc)) vs
      | None \<Rightarrow> (noteProvider (lo_ProviderID loc) (ClassifyDistanceByRTT (lo_RTT loc) th) (lo_RTT loc) (fst vs), snd vs))"

definition verifyEntry :: "'s measurer option \<Rightarrow> RTTThresholds option \<Rightarrow> string \<Rightarrow> ProviderInfo \<Rightarrow> found \<times> 's \<Rightarrow> found \<times> 's" where
  "verifyEntry rttMeasurer th self p vs =
     (if pi_ProviderID p \<in> pd_ProviderID ` set (fd_Providers (fst vs)) \<or> pi_ProviderID p \<in> set (fd_Unreachable (fst vs)) then vs
      else if pi_ProviderID p = self then (noteProvider self DistanceNear 0 (fst vs), snd vs)
      else case rttMeasurer of
        Some msr \<Rightarrow> probe msr th (pi_ProviderID p) None vs
      | None \<Rightarrow> (noteProvider (pi_ProviderID p) (pi_DistanceCategory p) 0 (fst vs), snd vs))"

text \<open>\<open>tokenStore\<close> is the value store with its state, or nil.\<close>

definition tokenLocations :: "('n token_cfg \<times> 'n) option \<Rightarrow> content_key \<Rightarrow> Location list" where
  "tokenLocations tokenStore k =
     (case tokenStore of
        None \<Rightarrow> []
      | Some (C, n) \<Rightarrow> (case GetToken C k n of Inl _ \<Rightarrow> [] | Inr token \<Rightarrow> tk_Locations token))"

definition tableEntry :: "'c RoutingTable option \<Rightarrow> content_key \<Rightarrow> 'c RoutingTableEntry option" where
  "tableEntry rt k = (case rt of None \<Rightarrow> None | Some rt \<Rightarrow> RT_Get k rt)"

definition discover ::
    "'s measurer option \<Rightarrow> RTTThresholds option \<Rightarrow> string \<Rightarrow> Location list \<Rightarrow> ProviderInfo list \<Rightarrow> 's \<Rightarrow> found \<times> 's" where
  "discover rttMeasurer th self locations providers s =
     fold (verifyEntry rttMeasurer th self) providers
       (fold (verifyLocation rttMeasurer th self) locations (\<lparr>fd_Providers = [], fd_Counts = zeroCounts, fd_Unreachable = []\<rparr>, s))"

definition verdict :: "content_key \<Rightarrow> 'c RoutingTableEntry option \<Rightarrow> int \<Rightarrow> found \<Rightarrow> 'c ReplicaStateVerification" where
  "verdict k entry R v =
     (let vector = (case entry of None \<Rightarrow> DefaultReplicationVector | Some e \<Rightarrow> re_RepVector e);
          (near, mid, far) = ReplicationTargets vector R;
          n = fd_Counts v in
      \<lparr>vf_Key = k, vf_CID = (case entry of None \<Rightarrow> None | Some e \<Rightarrow> re_CID e), vf_ExpectedRepVector = vector, vf_ActualCounts = n,
       vf_ExpectedCounts = \<lparr>ct_Near = near, ct_Midrange = mid, ct_FarFlung = far, ct_Total = R, ct_Unknown = 0\<rparr>,
       vf_Providers = fd_Providers v, vf_UnreachableProviders = fd_Unreachable v,
       vf_IsSynchronized = (ct_Total n \<ge> R),
       vf_MissingCategories = (if ct_Near n \<ge> near then [] else [DistanceNear]) @ (if ct_Midrange n \<ge> mid then [] else [DistanceMidrange])
         @ (if ct_FarFlung n \<ge> far then [] else [DistanceFarFlung])\<rparr>)"

definition VerifyKeyStateWithRepVector ::
    "content_key \<Rightarrow> 'c RoutingTable option \<Rightarrow> ('n token_cfg \<times> 'n) option \<Rightarrow> string \<Rightarrow> 's measurer option \<Rightarrow> int \<Rightarrow> RTTThresholds option
     \<Rightarrow> ('s, 'c ReplicaStateVerification) op" where
  "VerifyKeyStateWithRepVector k rt tokenStore self rttMeasurer R th s =
     (if IsZero k then (Inl (ErrMsg ''invalid key''), s)
      else let entry = tableEntry rt k;
               R = (if R \<le> 0 then 7 else R);
               (v, t) = discover rttMeasurer th self (tokenLocations tokenStore k)
                          (case entry of None \<Rightarrow> [] | Some e \<Rightarrow> re_Providers e) s in
        (Inr (verdict k entry R v), t))"

end
