(* ===== verification/Storage_Lock.thy ===== *)
theory Storage_Lock
  imports Storage_Key Tuple_Wait Go_Datastore Go_Errors
begin

text \<open>
  \<open>internal/storage/key_lock.go\<close>: locks on content keys, kept as records in a value store. The store, JSON and the text of peer
  identifiers are parameters. An operation reads the clock of its state and takes no time; time passes in the waits between retries,
  in which the other nodes may change the store. The retry loop, bounded by its deadline only, is a partial function.
\<close>

record KeyLock =
  kl_Key :: content_key
  kl_LockHolder :: string
  kl_AcquiredAt :: int
  kl_ExpiresAt :: int
  kl_Version :: int

record keyLockJSON =
  kj_Key :: string
  kj_LockHolder :: string
  kj_AcquiredAt :: int
  kj_ExpiresAt :: int
  kj_Version :: int

record 'n keyLockManager =
  km_store :: "'n valuestore"
  km_DefaultTTL :: int
  km_pidString :: "string \<Rightarrow> string"
  km_pidDecode :: "string \<Rightarrow> string result"
  km_Marshal :: "keyLockJSON \<Rightarrow> bytes result"
  km_Unmarshal :: "bytes \<Rightarrow> keyLockJSON result"

definition LockNamespace :: string where "LockNamespace = ''/locks/''"
definition DefaultLockTTL :: int where "DefaultLockTTL = 300000000000"
definition DefaultLockRetryInitialBackoff :: int where "DefaultLockRetryInitialBackoff = 50000000"
definition DefaultLockRetryMaxBackoff :: int where "DefaultLockRetryMaxBackoff = 5000000000"
definition DefaultLockRetryTimeout :: int where "DefaultLockRetryTimeout = 30000000000"

definition KeyLock_Marshal :: "'n keyLockManager \<Rightarrow> KeyLock \<Rightarrow> bytes result" where
  "KeyLock_Marshal m l = km_Marshal m \<lparr>kj_Key = Key_String (kl_Key l), kj_LockHolder = km_pidString m (kl_LockHolder l),
     kj_AcquiredAt = kl_AcquiredAt l, kj_ExpiresAt = kl_ExpiresAt l, kj_Version = kl_Version l\<rparr>"

definition zeroLock :: KeyLock where
  "zeroLock = \<lparr>kl_Key = zeroKey, kl_LockHolder = [], kl_AcquiredAt = 0, kl_ExpiresAt = 0, kl_Version = 0\<rparr>"

definition KeyLock_Unmarshal :: "'n keyLockManager \<Rightarrow> bytes \<Rightarrow> KeyLock result" where
  "KeyLock_Unmarshal m data =
     (if data = [] then Inr zeroLock
      else bindR (km_Unmarshal m data) (\<lambda>j.
           bindR (ParseKey (kj_Key j)) (\<lambda>k.
           bindR (km_pidDecode m (kj_LockHolder j)) (\<lambda>holder.
           Inr \<lparr>kl_Key = k, kl_LockHolder = holder, kl_AcquiredAt = kj_AcquiredAt j, kl_ExpiresAt = kj_ExpiresAt j,
                kl_Version = kj_Version j\<rparr>))))"

text \<open>The two kinds of lock store. A datastore reports an absent key as an empty value.\<close>

definition dhtLockStore :: "'n valuestore \<Rightarrow> 'n valuestore" where
  "dhtLockStore dht = dht"

definition dsLockStore :: "'d datastore \<Rightarrow> 'd valuestore" where
  "dsLockStore d = \<lparr>vs_GetValue = (\<lambda>s k. case ds_Get d s k of
        Inl e \<Rightarrow> (if e = DsNotFound then Inr [] else Inl e) | Inr v \<Rightarrow> Inr v), vs_PutValue = ds_Put d\<rparr>"

definition lockDHTKey :: "content_key \<Rightarrow> string" where
  "lockDHTKey k = LockNamespace @ Key_String k"

definition getLock :: "'n keyLockManager \<Rightarrow> content_key \<Rightarrow> 'n \<Rightarrow> KeyLock option result" where
  "getLock m k st =
     fail_if (IsZero k) (ErrMsg ''key cannot be zero'')
     (case vs_GetValue (km_store m) st (lockDHTKey k) of
        Inl _ \<Rightarrow> Inr None
      | Inr data \<Rightarrow>
          (if data = [] then Inr None
           else (case KeyLock_Unmarshal m data of Inl e \<Rightarrow> Inl (ErrWrap ''unmarshal lock'' e) | Inr l \<Rightarrow> Inr (Some l))))"

text \<open>An operation on the store, as an operation on the state with the clock.\<close>

definition onStore :: "('n, 'a) op \<Rightarrow> (('n, 's) clocked_scheme, 'a) op" where
  "onStore f s = (case f (du_net s) of (r, n) \<Rightarrow> (r, s\<lparr>du_net := n\<rparr>))"

definition putLock :: "'n keyLockManager \<Rightarrow> KeyLock \<Rightarrow> ('n clocked, unit) op" where
  "putLock m l =
     fail_ifS (IsZero (kl_Key l)) (ErrMsg ''invalid lock'')
     (bindS (liftR (wrapR ''marshal lock'' (KeyLock_Marshal m l))) (\<lambda>data.
      onStore (vs_PutValue (km_store m) (lockDHTKey (kl_Key l)) data)))"

definition lockTTL :: "'n keyLockManager \<Rightarrow> int \<Rightarrow> int" where
  "lockTTL m ttl = (if ttl \<le> 0 then (if km_DefaultTTL m \<le> 0 then DefaultLockTTL else km_DefaultTTL m) else ttl)"

text \<open>The part of \<open>AcquireLock\<close> before the write: the lock to be written, or the error.\<close>

definition acquireRead :: "'n keyLockManager \<Rightarrow> content_key \<Rightarrow> string \<Rightarrow> int \<Rightarrow> 'n clocked \<Rightarrow> KeyLock result" where
  "acquireRead m k holder ttl s =
     fail_if (IsZero k) (ErrMsg ''key cannot be zero'')
     (bindR (getLock m k (du_net s)) (\<lambda>existing.
      let now = du_now s;
          lock = (\<lambda>version. \<lparr>kl_Key = k, kl_LockHolder = holder, kl_AcquiredAt = now, kl_ExpiresAt = now + lockTTL m ttl,
                             kl_Version = version\<rparr>) in
      (case existing of
         None \<Rightarrow> Inr (lock 0)
       | Some l \<Rightarrow>
           fail_if (kl_ExpiresAt l > now \<and> kl_LockHolder l \<noteq> holder)
             (ErrWrap (''key locked by '' @ km_pidString m (kl_LockHolder l)) ErrLockHeldByAnother)
             (Inr (lock (kl_Version l + 1))))))"

definition AcquireLock :: "'n keyLockManager \<Rightarrow> content_key \<Rightarrow> string \<Rightarrow> int \<Rightarrow> ('n clocked, unit) op" where
  "AcquireLock m k holder ttl = readS (acquireRead m k holder ttl) (\<lambda>plan. bindS (liftR plan) (putLock m))"

definition ReleaseLock :: "'n keyLockManager \<Rightarrow> content_key \<Rightarrow> string \<Rightarrow> ('n clocked, unit) op" where
  "ReleaseLock m k holder =
     fail_ifS (IsZero k) (ErrMsg ''key cannot be zero'')
     (readS (\<lambda>s. (getLock m k (du_net s), du_now s)) (\<lambda>(got, now).
      bindS (liftR got) (\<lambda>existing.
      (case existing of
         None \<Rightarrow> retS ()
       | Some l \<Rightarrow>
           (if kl_ExpiresAt l < now then retS ()
            else fail_ifS (kl_LockHolder l \<noteq> holder) (ErrMsg ''lock held by another'')
              (onStore (vs_PutValue (km_store m) (lockDHTKey k) [])))))))"

definition IsLocked :: "'n keyLockManager \<Rightarrow> content_key \<Rightarrow> 'n clocked \<Rightarrow> bool \<times> string" where
  "IsLocked m k s =
     (case getLock m k (du_net s) of
        Inl _ \<Rightarrow> (False, [])
      | Inr None \<Rightarrow> (False, [])
      | Inr (Some l) \<Rightarrow> if kl_ExpiresAt l < du_now s then (False, []) else (True, kl_LockHolder l))"

definition ExtendLock :: "'n keyLockManager \<Rightarrow> content_key \<Rightarrow> string \<Rightarrow> int \<Rightarrow> ('n clocked, unit) op" where
  "ExtendLock m k holder ttl =
     fail_ifS (IsZero k) (ErrMsg ''key cannot be zero'')
     (readS (\<lambda>s. (getLock m k (du_net s), du_now s)) (\<lambda>(got, now).
      bindS (liftR got) (\<lambda>existing.
      (case existing of
         None \<Rightarrow> failS (ErrMsg ''no active lock to extend'')
       | Some l \<Rightarrow>
           fail_ifS (kl_ExpiresAt l < now) (ErrMsg ''no active lock to extend'')
           (fail_ifS (kl_LockHolder l \<noteq> holder) (ErrMsg ''lock held by another'')
            (putLock m \<lparr>kl_Key = k, kl_LockHolder = holder, kl_AcquiredAt = kl_AcquiredAt l,
               kl_ExpiresAt = now + lockTTL m ttl, kl_Version = kl_Version l + 1\<rparr>))))))"

subsection \<open>Retries\<close>

record LockRetryConfig =
  lr_InitialBackoff :: int
  lr_MaxBackoff :: int
  lr_Timeout :: int

text \<open>The context: its deadline, whether it is cancelled at a time, and what other nodes do to the store during a wait.\<close>

record 'n lockCtx =
  lc_Deadline :: "int option"
  lc_cancelled :: "int \<Rightarrow> bool"
  lc_others :: "int \<Rightarrow> 'n \<Rightarrow> 'n"

definition passTime :: "'n lockCtx \<Rightarrow> int \<Rightarrow> 'n clocked \<Rightarrow> 'n clocked" where
  "passTime c d s = s\<lparr>du_now := du_now s + d, du_net := lc_others c d (du_net s)\<rparr>"

partial_function (option) acquireLoop ::
    "'n keyLockManager \<Rightarrow> 'n lockCtx \<Rightarrow> content_key \<Rightarrow> string \<Rightarrow> int \<Rightarrow> int \<Rightarrow> int \<Rightarrow> int \<Rightarrow> 'n clocked \<Rightarrow> (unit result \<times> 'n clocked) option" where
  "acquireLoop m c k holder ttl deadline maxB backoff s =
     (case AcquireLock m k holder ttl s of
        (Inr _, t) \<Rightarrow> Some (Inr (), t)
      | (Inl e, t) \<Rightarrow>
          if \<not> errors_Is e ErrLockHeldByAnother then Some (Inl e, t)
          else if du_now t > deadline then Some (Inl (ErrWrap (''not acquired within timeout (last: '' @ error_text e @ '')'') ErrLockTimeout), t)
          else let u = passTime c backoff t in
            if lc_cancelled c (du_now u) then Some (Inl (ErrMsg ''context cancelled''), u)
            else acquireLoop m c k holder ttl deadline maxB (if backoff * 2 > maxB then maxB else backoff * 2) u)"

definition positiveOr :: "int \<Rightarrow> int \<Rightarrow> int" where
  "positiveOr v d = (if v > 0 then v else d)"

definition AcquireLockWithRetry ::
    "'n keyLockManager \<Rightarrow> 'n lockCtx \<Rightarrow> content_key \<Rightarrow> string \<Rightarrow> int \<Rightarrow> LockRetryConfig option \<Rightarrow> 'n clocked \<Rightarrow> (unit result \<times> 'n clocked) option" where
  "AcquireLockWithRetry m c k holder ttl cfg s =
     (let cf = (case cfg of None \<Rightarrow> \<lparr>lr_InitialBackoff = 0, lr_MaxBackoff = 0, lr_Timeout = 0\<rparr> | Some cf \<Rightarrow> cf);
          initial = positiveOr (lr_InitialBackoff cf) DefaultLockRetryInitialBackoff;
          maxB = positiveOr (lr_MaxBackoff cf) DefaultLockRetryMaxBackoff;
          deadline0 = du_now s + positiveOr (lr_Timeout cf) DefaultLockRetryTimeout;
          deadline = (case lc_Deadline c of None \<Rightarrow> deadline0 | Some d \<Rightarrow> if d < deadline0 then d else deadline0) in
      acquireLoop m c k holder ttl deadline maxB initial s)"

end
