(* ===== verification/Go_Trim.thy ===== *)
theory Go_Trim
  imports Go_Strings Go_Errors
begin

text \<open>\<open>strings.TrimSpace\<close>, \<open>strconv.Atoi\<close> and lines of a \<open>bufio.Reader\<close>, as the stream handlers use them.\<close>

text \<open>The bytes of the runes of a string, in order.\<close>

function runeSegs :: "string \<Rightarrow> string list" where
  "runeSegs s = (if s = [] then [] else take (snd (decodeRune s)) s # runeSegs (drop (snd (decodeRune s)) s))"
  by pat_completeness auto
termination
  by (relation "measure length") (use decodeRune_width in \<open>auto simp: Suc_le_eq\<close>)

declare runeSegs.simps [simp del]

definition TrimSpace :: "string \<Rightarrow> string" where
  "TrimSpace s =
     (let space = (\<lambda>seg. isSpaceRune (fst (decodeRune seg))) in
      concat (rev (dropWhile space (rev (dropWhile space (runeSegs s))))))"

definition isDecDigit :: "char \<Rightarrow> bool" where "isDecDigit c \<longleftrightarrow> 48 \<le> byte c \<and> byte c \<le> 57"

definition fromDec :: "string \<Rightarrow> nat" where "fromDec s = foldl (\<lambda>a c. 10 * a + (byte c - 48)) 0 s"

definition Atoi :: "string \<Rightarrow> int result" where
  "Atoi s =
     (let (neg, ds) = (case s of [] \<Rightarrow> (False, []) | c # cs \<Rightarrow> if c = CHR ''-'' then (True, cs) else if c = CHR ''+'' then (False, cs) else (False, s));
          v = (if neg then - int (fromDec ds) else int (fromDec ds)) in
      if ds = [] \<or> \<not> list_all isDecDigit ds then Inl (ErrMsg ''invalid syntax'')
      else if v < - (2 ^ 63) \<or> v \<ge> 2 ^ 63 then Inl (ErrMsg ''value out of range'')
      else Inr v)"

definition newline :: char where "newline = CHR 0x0A"

text \<open>\<open>ReadString\<close> of a line with its end.\<close>

definition ReadLine :: "(bytes, string) op" where
  "ReadLine s = (case IndexByte s newline of None \<Rightarrow> (Inl (ErrMsg ''EOF''), []) | Some i \<Rightarrow> (Inr (take (Suc i) s), drop (Suc i) s))"

subsection \<open>Laws\<close>

lemma runeSegs_ascii: "\<forall>c\<in>set s. byte c < 0x80 \<Longrightarrow> runeSegs s = map (\<lambda>c. [c]) s"
  by (induction s) (auto simp: runeSegs.simps decodeRune_ascii)

lemma concat_singletons: "concat (map (\<lambda>c. [c]) s) = s"
  by (induction s) auto

lemma TrimSpace_line:
  assumes "\<forall>c\<in>set s. byte c < 0x80 \<and> \<not> isSpaceRune (byte c)"
  shows "TrimSpace (s @ [newline]) = s"
proof -
  have "\<forall>c\<in>set (s @ [newline]). byte c < 0x80" using assms by (auto simp: newline_def)
  then have r: "runeSegs (s @ [newline]) = map (\<lambda>c. [c]) s @ [[newline]]" by (simp add: runeSegs_ascii)
  let ?sp = "\<lambda>seg. isSpaceRune (fst (decodeRune seg))"
  have nl: "?sp [newline]" by (simp add: newline_def decodeRune_ascii isSpaceRune_def)
  have no: "\<not> ?sp [c]" if "c \<in> set s" for c using assms that by (simp add: decodeRune_ascii)
  have "dropWhile ?sp (map (\<lambda>c. [c]) s) = map (\<lambda>c. [c]) s" using no by (cases s) auto
  moreover have "dropWhile ?sp (rev (map (\<lambda>c. [c]) s)) = rev (map (\<lambda>c. [c]) s)"
    using no by (cases s rule: rev_cases) auto
  ultimately have "concat (rev (dropWhile ?sp (rev (dropWhile ?sp (map (\<lambda>c. [c]) s @ [[newline]]))))) = s"
    using nl no by (cases s) (auto simp: concat_singletons)
  then show ?thesis by (simp add: TrimSpace_def r Let_def)
qed

lemma dec_digit: "c \<in> set (dec n) \<Longrightarrow> isDecDigit c"
proof (induction n rule: dec.induct)
  case (1 n)
  then show ?case by (subst (asm) dec.simps) (auto simp: isDecDigit_def split: if_splits)
qed

lemma dec_not_Nil: "dec n \<noteq> []"
  by (subst dec.simps) auto

lemma fromDec_dec: "fromDec (dec n) = n"
proof (induction n rule: dec.induct)
  case (1 n)
  show ?case
  proof (cases "n < 10")
    case True
    then show ?thesis by (simp add: dec.simps [of n] fromDec_def)
  next
    case False
    then show ?thesis using 1 by (simp add: dec.simps [of n] fromDec_def)
  qed
qed

lemma Atoi_dec:
  assumes "n < 2 ^ 63"
  shows "Atoi (dec n) = Inr (int n)"
proof -
  obtain c cs where d: "dec n = c # cs" using dec_not_Nil by (cases "dec n") auto
  have "isDecDigit c" using dec_digit [of c n] d by simp
  then have "c \<noteq> CHR ''-''" "c \<noteq> CHR ''+''" by (auto simp: isDecDigit_def)
  moreover have "list_all isDecDigit (c # cs)" using dec_digit [of _ n] d by (auto simp: list_all_iff)
  moreover have "int n < 2 ^ 63" using assms by (metis of_nat_less_iff of_nat_numeral of_nat_power)
  ultimately show ?thesis using d fromDec_dec [of n] by (simp add: Atoi_def)
qed

lemma ReadLine_line: "newline \<notin> set s \<Longrightarrow> ReadLine (s @ newline # rest) = (Inr (s @ [newline]), rest)"
  by (simp add: ReadLine_def IndexByte_append)

lemma dec_line: "newline \<notin> set (dec n)" "\<forall>c\<in>set (dec n). byte c < 0x80 \<and> \<not> isSpaceRune (byte c)"
proof -
  have "48 \<le> byte c \<and> byte c < 103" if "c \<in> set (dec n)" for c using dec_digit [OF that] by (simp add: isDecDigit_def)
  then show "\<forall>c\<in>set (dec n). byte c < 0x80 \<and> \<not> isSpaceRune (byte c)" "newline \<notin> set (dec n)"
    by (fastforce simp: isSpaceRune_def newline_def)+
qed

lemma hex_line: "newline \<notin> set (hex_EncodeToString b)" "\<forall>c\<in>set (hex_EncodeToString b). byte c < 0x80 \<and> \<not> isSpaceRune (byte c)"
proof -
  have "48 \<le> byte c \<and> byte c < 103" if "c \<in> set (hex_EncodeToString b)" for c
    using that by (induction b) (auto simp: byte_hexdigit)
  then show "\<forall>c\<in>set (hex_EncodeToString b). byte c < 0x80 \<and> \<not> isSpaceRune (byte c)" "newline \<notin> set (hex_EncodeToString b)"
    by (fastforce simp: isSpaceRune_def newline_def)+
qed

end
