(* ===== verification/Storage_Stack.thy ===== *)
theory Storage_Stack
  imports Storage_Routing Storage_Lock Names_Validator Sync_Exchange Go_Trim
begin

text \<open>
  \<open>internal/storage/store.go\<close>, \<open>chunking.go\<close> and \<open>provider_claim.go\<close>: the blocks of a node with their indexes, the direct fetch between two
  nodes, the removal of blocks and what a put and a delete do to the routing table and to the tokens. The block store, the
  datastore, content identifiers, SHA-256, JSON, signatures, the DHT and the streams are parameters. A stream is what the other side
  answers to what was written. The lock of a key lives in the datastore of the node, and an operation that takes it has no result when
  the acquisition does not end. Goroutines that the code starts for metadata run at once.
\<close>

record ChunkIndex =
  ci_Version :: int
  ci_ChunkSize :: int
  ci_TotalBytes :: int
  ci_ChunkKeys :: "string list"

record ('c, 'd, 'b, 'n) stack_cfg =
  sk_Sum256 :: "bytes \<Rightarrow> bytes"
  sk_Cid :: "bytes \<Rightarrow> 'c"
  sk_String :: "'c \<Rightarrow> string"
  sk_Decode :: "string \<Rightarrow> 'c result"
  sk_ds :: "'d datastore"
  sk_GetBlock :: "'b \<Rightarrow> 'c \<Rightarrow> bytes result"
  sk_AddBlock :: "'c \<Rightarrow> bytes \<Rightarrow> ('b, unit) op"
  sk_DeleteBlock :: "'c \<Rightarrow> ('b, unit) op"
  sk_Marshal :: "ChunkIndex \<Rightarrow> bytes result"
  sk_Unmarshal :: "bytes \<Rightarrow> ChunkIndex result"
  sk_self :: string
  sk_Addrs :: "string list"
  sk_locks :: "'d keyLockManager option"
  sk_lockCtx :: "'d lockCtx"
  sk_PutLockRetryConfig :: "LockRetryConfig option"
  sk_TokenStore :: "'n valuestore option"
  sk_DHT :: "'n valuestore option"
  sk_tokens :: "'n token_cfg"
  sk_names :: names_env
  sk_PrivKey :: "bytes option"
  sk_Nonce :: bytes
  sk_PublicOf :: "string \<Rightarrow> bytes result"

record ('c, 'd, 'b, 'n) stack_state =
  ss_now :: int
  ss_ds :: 'd
  ss_bs :: 'b
  ss_net :: 'n
  ss_ProviderRecords :: "records option"
  ss_AnnounceQueue :: "'c AnnounceQueue option"
  ss_announced :: nat
  ss_RoutingTable :: "'c RoutingTable option"
  ss_providerClaims :: "string \<rightharpoonup> bytes"

definition onData :: "('d, 'a) op \<Rightarrow> (('c, 'd, 'b, 'n) stack_state, 'a) op" where
  "onData f s = (case f (ss_ds s) of (r, d) \<Rightarrow> (r, s\<lparr>ss_ds := d\<rparr>))"

definition onBlocks :: "('b, 'a) op \<Rightarrow> (('c, 'd, 'b, 'n) stack_state, 'a) op" where
  "onBlocks f s = (case f (ss_bs s) of (r, b) \<Rightarrow> (r, s\<lparr>ss_bs := b\<rparr>))"

definition lockView :: "('c, 'd, 'b, 'n) stack_state \<Rightarrow> 'd clocked" where
  "lockView s = \<lparr>du_now = ss_now s, du_net = ss_ds s\<rparr>"

definition onLocks :: "('d clocked, 'a) op \<Rightarrow> (('c, 'd, 'b, 'n) stack_state, 'a) op" where
  "onLocks f s = (case f (lockView s) of (r, t) \<Rightarrow> (r, s\<lparr>ss_now := du_now t, ss_ds := du_net t\<rparr>))"

definition onTokens :: "('n clocked, 'a) op \<Rightarrow> (('c, 'd, 'b, 'n) stack_state, 'a) op" where
  "onTokens f s = (case f \<lparr>du_now = ss_now s, du_net = ss_net s\<rparr> of (r, t) \<Rightarrow> (r, s\<lparr>ss_now := du_now t, ss_net := du_net t\<rparr>))"

text \<open>A call whose error is dropped.\<close>

definition ignoreS :: "('s, 'a) op \<Rightarrow> ('s, unit) op" where
  "ignoreS f = tryS f (\<lambda>_. retS ())"

definition tokenValueStore :: "('c, 'd, 'b, 'n) stack_cfg \<Rightarrow> 'n token_cfg option" where
  "tokenValueStore K =
     map_option (\<lambda>store. (sk_tokens K)\<lparr>tc_dht := store\<rparr>) (case sk_TokenStore K of Some store \<Rightarrow> Some store | None \<Rightarrow> sk_DHT K)"

subsection \<open>Indexes\<close>

definition manifestIndexNS :: string where "manifestIndexNS = ''/manifest/index/''"
definition keyIndexNS :: string where "keyIndexNS = ''/manifest/key/''"
definition keyToCIDNS :: string where "keyToCIDNS = ''/manifest/key-to-cid/''"
definition keyToProviderIDNS :: string where "keyToProviderIDNS = ''/manifest/key-to-provider/''"
definition chunkIndexNS :: string where "chunkIndexNS = ''/chunk/index/''"

definition oneByte :: bytes where "oneByte = [char_of (1 :: nat)]"

definition PutRawBlock :: "('c, 'd, 'b, 'n) stack_cfg \<Rightarrow> bytes \<Rightarrow> (('c, 'd, 'b, 'n) stack_state, 'c) op" where
  "PutRawBlock K data =
     (let c = sk_Cid K data in
      bindS (tryS (onBlocks (sk_AddBlock K c data)) (\<lambda>r. case r of Inr _ \<Rightarrow> retS () | Inl _ \<Rightarrow> onBlocks (sk_AddBlock K c data))) (\<lambda>_. retS c))"

definition IndexCID :: "('c, 'd, 'b, 'n) stack_cfg \<Rightarrow> 'c option \<Rightarrow> (('c, 'd, 'b, 'n) stack_state, unit) op" where
  "IndexCID K c = (case c of None \<Rightarrow> retS () | Some c \<Rightarrow> onData (ds_Put (sk_ds K) (manifestIndexNS @ sk_String K c) oneByte))"

definition Stack_IndexKey :: "('c, 'd, 'b, 'n) stack_cfg \<Rightarrow> content_key \<Rightarrow> (('c, 'd, 'b, 'n) stack_state, unit) op" where
  "Stack_IndexKey K k = (if IsZero k then retS () else onData (ds_Put (sk_ds K) (keyIndexNS @ Key_String k) oneByte))"

definition StoreKeyToCIDMapping :: "('c, 'd, 'b, 'n) stack_cfg \<Rightarrow> content_key \<Rightarrow> 'c option \<Rightarrow> (('c, 'd, 'b, 'n) stack_state, unit) op" where
  "StoreKeyToCIDMapping K k c =
     (case c of None \<Rightarrow> retS () | Some c \<Rightarrow> if IsZero k then retS () else onData (ds_Put (sk_ds K) (keyToCIDNS @ Key_String k) (sk_String K c)))"

definition GetCIDFromKey :: "('c, 'd, 'b, 'n) stack_cfg \<Rightarrow> content_key \<Rightarrow> 'd \<Rightarrow> 'c option result" where
  "GetCIDFromKey K k d =
     (if IsZero k then Inr None
      else case ds_Get (sk_ds K) d (keyToCIDNS @ Key_String k) of
        Inl _ \<Rightarrow> Inr None
      | Inr val \<Rightarrow> bindR (sk_Decode K val) (\<lambda>c. Inr (Some c)))"

definition StoreKeyToProviderIDMapping :: "('c, 'd, 'b, 'n) stack_cfg \<Rightarrow> content_key \<Rightarrow> string \<Rightarrow> (('c, 'd, 'b, 'n) stack_state, unit) op" where
  "StoreKeyToProviderIDMapping K k providerID =
     (if IsZero k then retS () else onData (ds_Put (sk_ds K) (keyToProviderIDNS @ Key_String k) (tc_pidString (sk_tokens K) providerID)))"

definition GetProviderIDFromKey :: "('c, 'd, 'b, 'n) stack_cfg \<Rightarrow> content_key \<Rightarrow> 'd \<Rightarrow> string result" where
  "GetProviderIDFromKey K k d =
     (if IsZero k then Inr []
      else case ds_Get (sk_ds K) d (keyToProviderIDNS @ Key_String k) of
        Inl _ \<Rightarrow> Inr []
      | Inr val \<Rightarrow> tc_pidDecode (sk_tokens K) val)"

definition RemoveKeyToProviderIDMapping :: "('c, 'd, 'b, 'n) stack_cfg \<Rightarrow> content_key \<Rightarrow> (('c, 'd, 'b, 'n) stack_state, unit) op" where
  "RemoveKeyToProviderIDMapping K k = (if IsZero k then retS () else onData (ds_Delete (sk_ds K) (keyToProviderIDNS @ Key_String k)))"

definition UnindexCID :: "('c, 'd, 'b, 'n) stack_cfg \<Rightarrow> 'c option \<Rightarrow> (('c, 'd, 'b, 'n) stack_state, unit) op" where
  "UnindexCID K c = (case c of None \<Rightarrow> retS () | Some c \<Rightarrow> onData (ds_Delete (sk_ds K) (manifestIndexNS @ sk_String K c)))"

text \<open>The keys of the index that a query lists are an argument.\<close>

definition ListIndexedCIDs :: "string list result \<Rightarrow> int \<Rightarrow> string \<Rightarrow> string list result" where
  "ListIndexedCIDs queried limit startAfter =
     bindR queried (\<lambda>keys.
       let cids = filter (\<lambda>c. startAfter = [] \<or> c > startAfter)
                    (map (drop (length manifestIndexNS)) (filter (\<lambda>k. length k > length manifestIndexNS) keys)) in
       Inr (if limit > 0 then take (nat limit) cids else cids))"

subsection \<open>Reading\<close>

definition GetBlockByKey :: "('c, 'd, 'b, 'n) stack_cfg \<Rightarrow> content_key \<Rightarrow> ('c, 'd, 'b, 'n) stack_state \<Rightarrow> bytes option result" where
  "GetBlockByKey K k s =
     (if IsZero k then Inr None
      else bindR (GetCIDFromKey K k (ss_ds s)) (\<lambda>c.
        (case c of None \<Rightarrow> Inr None | Some c \<Rightarrow> bindR (sk_GetBlock K (ss_bs s) c) (\<lambda>data. Inr (Some data)))))"

definition GetBlockByCID :: "('c, 'd, 'b, 'n) stack_cfg \<Rightarrow> 'c \<Rightarrow> ('c, 'd, 'b, 'n) stack_state \<Rightarrow> bytes result" where
  "GetBlockByCID K c s = sk_GetBlock K (ss_bs s) c"

definition GetBlockIndexed :: "('c, 'd, 'b, 'n) stack_cfg \<Rightarrow> 'c \<Rightarrow> (('c, 'd, 'b, 'n) stack_state, bytes) op" where
  "GetBlockIndexed K c = readS (GetBlockByCID K c) (\<lambda>got. bindS (liftR got) (\<lambda>b. bindS (ignoreS (IndexCID K (Some c))) (\<lambda>_. retS b)))"

definition DefaultContentChunkSize :: int where "DefaultContentChunkSize = 4096"

function splitFrom :: "nat \<Rightarrow> bytes \<Rightarrow> bytes list" where
  "splitFrom n data = (if data = [] \<or> n = 0 then [] else take n data # splitFrom n (drop n data))"
  by pat_completeness auto
termination by (relation "measure (length \<circ> snd)") auto

declare splitFrom.simps [simp del]

definition SplitPayloadChunks :: "bytes \<Rightarrow> int \<Rightarrow> bytes list" where
  "SplitPayloadChunks data chunkSize = splitFrom (nat (if chunkSize \<le> 0 then DefaultContentChunkSize else chunkSize)) data"

definition StoreChunkIndex :: "('c, 'd, 'b, 'n) stack_cfg \<Rightarrow> content_key \<Rightarrow> ChunkIndex \<Rightarrow> (('c, 'd, 'b, 'n) stack_state, unit) op" where
  "StoreChunkIndex K k idx =
     (if IsZero k then retS ()
      else bindS (liftR (sk_Marshal K idx)) (\<lambda>raw. onData (ds_Put (sk_ds K) (chunkIndexNS @ Key_String k) raw)))"

definition GetChunkIndex :: "('c, 'd, 'b, 'n) stack_cfg \<Rightarrow> content_key \<Rightarrow> 'd \<Rightarrow> ChunkIndex option result" where
  "GetChunkIndex K k d =
     (if IsZero k then Inr None
      else case ds_Get (sk_ds K) d (chunkIndexNS @ Key_String k) of
        Inl _ \<Rightarrow> Inr None
      | Inr raw \<Rightarrow>
          bindR (sk_Unmarshal K raw) (\<lambda>idx.
          fail_if (ci_Version idx \<le> 0 \<or> ci_TotalBytes idx < 0 \<or> ci_ChunkKeys idx = []) (ErrMsg ''invalid chunk index'') (Inr (Some idx))))"

fun loadChunks :: "('c, 'd, 'b, 'n) stack_cfg \<Rightarrow> ('c, 'd, 'b, 'n) stack_state \<Rightarrow> string list \<Rightarrow> bytes result" where
  "loadChunks K s [] = Inr []"
| "loadChunks K s (ks # rest) =
     bindR (wrapR ''parse chunk key'' (ParseKey ks)) (\<lambda>chunkKey.
     bindR (wrapR ''load chunk'' (GetBlockByKey K chunkKey s)) (\<lambda>chunk.
     (case chunk of
        None \<Rightarrow> Inl (ErrMsg ''missing chunk'')
      | Some data \<Rightarrow> bindR (loadChunks K s rest) (\<lambda>more_data. Inr (data @ more_data)))))"

definition ResolvePayloadByKeyLocal :: "('c, 'd, 'b, 'n) stack_cfg \<Rightarrow> content_key \<Rightarrow> ('c, 'd, 'b, 'n) stack_state \<Rightarrow> bytes option result" where
  "ResolvePayloadByKeyLocal K k s =
     (case GetBlockByKey K k s of
        Inr (Some data) \<Rightarrow> Inr (Some data)
      | _ \<Rightarrow>
          bindR (GetChunkIndex K k (ss_ds s)) (\<lambda>idx.
          (case idx of
             None \<Rightarrow> Inr None
           | Some idx \<Rightarrow>
               bindR (loadChunks K s (ci_ChunkKeys idx)) (\<lambda>out.
               fail_if (int (length out) \<noteq> ci_TotalBytes idx) (ErrMsg ''reassembled payload size mismatch'')
               (fail_if (KeyFromData (sk_Sum256 K) out \<noteq> k) (ErrMsg ''reassembled payload key mismatch'') (Inr (Some out)))))))"

subsection \<open>Direct fetch\<close>

definition MaxTransferBlockSize :: int where "MaxTransferBlockSize = 64 * 2 ^ 20"

text \<open>The block after the line of its size, for both stream protocols.\<close>

definition readSized :: "string \<Rightarrow> (bytes, bytes) op" where
  "readSized sizeText =
     bindS (liftR (wrapR ''parse size'' (Atoi sizeText))) (\<lambda>blockSize.
     fail_ifS (blockSize \<le> 0 \<or> blockSize > MaxTransferBlockSize) (ErrMsg ''invalid block size'') (ReadFull (nat blockSize)))"

definition fetchReply :: "(bytes \<Rightarrow> bytes) \<Rightarrow> content_key \<Rightarrow> bytes \<Rightarrow> bytes result" where
  "fetchReply hash k reply =
     fst (bindS ReadLine (\<lambda>statusLine.
          fail_ifS (HasPrefix statusLine ''ERROR'') (ErrMsg ''fetch failed'')
          (bindS ReadLine (\<lambda>sizeLine.
           bindS (readSized (TrimSpace sizeLine)) (\<lambda>blockData.
           fail_ifS (KeyFromData hash blockData \<noteq> k) (ErrMsg ''key mismatch'') (retS blockData))))) reply)"

text \<open>\<open>dial\<close> connects to a location and opens the stream.\<close>

definition DirectFetch :: "('c, 'd, 'b, 'n) stack_cfg \<Rightarrow> (Location \<Rightarrow> stream result) \<Rightarrow> Location \<Rightarrow> content_key \<Rightarrow> bytes result" where
  "DirectFetch K dial loc k =
     bindR (dial loc) (\<lambda>stream. bindR (stream (Key_String k @ [newline])) (\<lambda>reply. fetchReply (sk_Sum256 K) k reply))"

definition HandleDirectFetchStream :: "('c, 'd, 'b, 'n) stack_cfg \<Rightarrow> ('c, 'd, 'b, 'n) stack_state \<Rightarrow> bytes \<Rightarrow> bytes \<times> go_error option" where
  "HandleDirectFetchStream K s inp =
     (let refuse = (\<lambda>m e. (''ERROR: '' @ m @ [newline], Some e)) in
      case fst (ReadLine inp) of
        Inl e \<Rightarrow> refuse ''read key'' (ErrWrap ''read key'' e)
      | Inr keyLine \<Rightarrow>
          (case ParseKey (TrimSpace keyLine) of
             Inl e \<Rightarrow> refuse (''invalid key: '' @ error_text e) (ErrWrap ''parse key'' e)
           | Inr k \<Rightarrow>
               (case ResolvePayloadByKeyLocal K k s of
                  Inl e \<Rightarrow> refuse (''get block: '' @ error_text e) (ErrWrap ''get block'' e)
                | Inr got \<Rightarrow>
                    (case got of
                       None \<Rightarrow> refuse ''block not found'' (ErrMsg ''block not found'')
                     | Some data \<Rightarrow>
                         if data = [] then refuse ''block not found'' (ErrMsg ''block not found'')
                         else if KeyFromData (sk_Sum256 K) data \<noteq> k then refuse ''key mismatch'' (ErrMsg ''key mismatch'')
                         else (''OK'' @ [newline] @ dec (length data) @ [newline] @ data, None)))))"

text \<open>
  The fetch from all locations of the token at once: \<open>order\<close> is the order in which the fetches end, and the first that
  succeeded is the result.
\<close>

definition firstFetched :: "bytes result list \<Rightarrow> bytes result" where
  "firstFetched results =
     (case List.find is_ok results of Some (Inr data) \<Rightarrow> Inr data | _ \<Rightarrow> Inl (ErrMsg ''direct fetch failed from all locations''))"

definition Stack_GetBlock ::
    "('c, 'd, 'b, 'n) stack_cfg \<Rightarrow> (Location \<Rightarrow> stream result) \<Rightarrow> (Location list \<Rightarrow> Location list) \<Rightarrow> bool \<Rightarrow> content_key
     \<Rightarrow> ('c, 'd, 'b, 'n) stack_state \<Rightarrow> bytes result" where
  "Stack_GetBlock K dial order remoteOnly k s =
     fail_if (IsZero k) (ErrMsg ''key cannot be zero'')
     (case (if remoteOnly then Inr None else GetBlockByKey K k s) of
        Inr (Some localData) \<Rightarrow> Inr localData
      | _ \<Rightarrow>
          (case tokenValueStore K of
             None \<Rightarrow> Inl (ErrMsg ''token store or DHT required for token-based routing'')
           | Some C \<Rightarrow>
               bindR (wrapR ''get token failed'' (GetToken C k (ss_net s))) (\<lambda>token.
               fail_if (tk_Locations token = []) (ErrMsg ''token has no locations'')
               (firstFetched (map (\<lambda>loc. DirectFetch K dial loc k) (order (tk_Locations token)))))))"

subsection \<open>Writing\<close>

definition putBlockIndexBatch :: "('c, 'd, 'b, 'n) stack_cfg \<Rightarrow> content_key \<Rightarrow> 'c \<Rightarrow> (string \<times> bytes) list" where
  "putBlockIndexBatch K k c =
     (if IsZero k then []
      else [(manifestIndexNS @ sk_String K c, oneByte), (keyIndexNS @ Key_String k, oneByte), (keyToCIDNS @ Key_String k, sk_String K c)])"

definition putRawBlockIndexedInner :: "('c, 'd, 'b, 'n) stack_cfg \<Rightarrow> bytes \<Rightarrow> content_key \<Rightarrow> (('c, 'd, 'b, 'n) stack_state, 'c) op" where
  "putRawBlockIndexedInner K data k =
     bindS (PutRawBlock K data) (\<lambda>c.
     tryS (onData (ds_Batch (sk_ds K) (putBlockIndexBatch K k c)))
       (\<lambda>r. case r of
          Inr _ \<Rightarrow> retS c
        | Inl _ \<Rightarrow>
            bindS (ignoreS (IndexCID K (Some c))) (\<lambda>_.
            bindS (ignoreS (Stack_IndexKey K k)) (\<lambda>_.
            bindS (ignoreS (StoreKeyToCIDMapping K k (Some c))) (\<lambda>_. retS c)))))"

text \<open>A body that runs under the lock of a key; the lock is released when it ends, with or without an error.\<close>

definition withLock ::
    "('c, 'd, 'b, 'n) stack_cfg \<Rightarrow> 'd keyLockManager option \<Rightarrow> LockRetryConfig option \<Rightarrow> content_key
     \<Rightarrow> (('c, 'd, 'b, 'n) stack_state, 'a) op \<Rightarrow> ('c, 'd, 'b, 'n) stack_state \<Rightarrow> ('a result \<times> ('c, 'd, 'b, 'n) stack_state) option" where
  "withLock K locks retry k body s =
     (case locks of
        None \<Rightarrow> Some (body s)
      | Some m \<Rightarrow>
          (case AcquireLockWithRetry m (sk_lockCtx K) k (sk_self K) 0 retry (lockView s) of
             None \<Rightarrow> None
           | Some (Inl e, t) \<Rightarrow> Some (Inl (ErrWrap ''acquire lock'' e), s\<lparr>ss_now := du_now t, ss_ds := du_net t\<rparr>)
           | Some (Inr _, t) \<Rightarrow>
               Some (tryS body (\<lambda>r. bindS (ignoreS (onLocks (ReleaseLock m k (sk_self K)))) (\<lambda>_. liftR r))
                 (s\<lparr>ss_now := du_now t, ss_ds := du_net t\<rparr>))))"

definition PutRawBlockIndexed ::
    "('c, 'd, 'b, 'n) stack_cfg \<Rightarrow> bytes \<Rightarrow> 'd keyLockManager option \<Rightarrow> LockRetryConfig option \<Rightarrow> ('c, 'd, 'b, 'n) stack_state
     \<Rightarrow> ((content_key \<times> 'c) result \<times> ('c, 'd, 'b, 'n) stack_state) option" where
  "PutRawBlockIndexed K data locks retry =
     (let k = KeyFromData (sk_Sum256 K) data in
      withLock K (if sk_self K = [] then None else locks) retry k (bindS (putRawBlockIndexedInner K data k) (\<lambda>c. retS (k, c))))"

definition PutBlock :: "('c, 'd, 'b, 'n) stack_cfg \<Rightarrow> bytes \<Rightarrow> ('c, 'd, 'b, 'n) stack_state \<Rightarrow> ((content_key \<times> 'c) result \<times> ('c, 'd, 'b, 'n) stack_state) option" where
  "PutBlock K data = PutRawBlockIndexed K data (sk_locks K) (sk_PutLockRetryConfig K)"

definition deleteBlockIndexedInner :: "('c, 'd, 'b, 'n) stack_cfg \<Rightarrow> 'c \<Rightarrow> (('c, 'd, 'b, 'n) stack_state, unit) op" where
  "deleteBlockIndexedInner K c =
     bindS (onBlocks (sk_DeleteBlock K c)) (\<lambda>_.
     bindS (UnindexCID K (Some c)) (\<lambda>_.
     modifyS (\<lambda>s. s\<lparr>ss_ProviderRecords := map_option (LPR_Remove (\<lambda>_. True) (sk_String K) c) (ss_ProviderRecords s)\<rparr>)))"

definition DeleteBlockIndexed ::
    "('c, 'd, 'b, 'n) stack_cfg \<Rightarrow> 'c option \<Rightarrow> 'd keyLockManager option \<Rightarrow> content_key \<Rightarrow> ('c, 'd, 'b, 'n) stack_state
     \<Rightarrow> (unit result \<times> ('c, 'd, 'b, 'n) stack_state) option" where
  "DeleteBlockIndexed K c locks k s =
     (case c of
        None \<Rightarrow> Some (Inr (), s)
      | Some c \<Rightarrow> withLock K (if sk_self K = [] \<or> IsZero k then None else locks) None k (deleteBlockIndexedInner K c) s)"

subsection \<open>Announcements and metadata\<close>

definition AnnounceProvider :: "('c, 'd, 'b, 'n) stack_cfg \<Rightarrow> 'c \<Rightarrow> (('c, 'd, 'b, 'n) stack_state, unit) op \<Rightarrow> bool \<Rightarrow> (('c, 'd, 'b, 'n) stack_state, unit) op" where
  "AnnounceProvider K c recordLocalOp onAnnounce =
     bindS (modifyS (\<lambda>s. s\<lparr>ss_ProviderRecords := map_option (LPR_Add (\<lambda>_. True) (sk_String K) c) (ss_ProviderRecords s)\<rparr>)) (\<lambda>_.
     readS ss_AnnounceQueue (\<lambda>q.
     (case q of
        Some queue \<Rightarrow>
          if aq_partitioned queue then
            bindS (modifyS (\<lambda>s. s\<lparr>ss_AnnounceQueue := Some (AQ_Add (Some c) queue)\<rparr>)) (\<lambda>_. ignoreS recordLocalOp)
          else modifyS (\<lambda>s. if onAnnounce then s\<lparr>ss_announced := Suc (ss_announced s)\<rparr> else s)
      | None \<Rightarrow> modifyS (\<lambda>s. if onAnnounce then s\<lparr>ss_announced := Suc (ss_announced s)\<rparr> else s))))"

definition FlushQueuedAnnouncements :: "(nat \<Rightarrow> bool) \<Rightarrow> bool \<Rightarrow> ('c, 'd, 'b, 'n) stack_state \<Rightarrow> ('c, 'd, 'b, 'n) stack_state" where
  "FlushQueuedAnnouncements isDone onAnnounce s =
     (case ss_AnnounceQueue s of
        None \<Rightarrow> s
      | Some queue \<Rightarrow>
          (case AQ_Flush isDone queue of
             (flushed, rest) \<Rightarrow>
               s\<lparr>ss_AnnounceQueue := Some rest, ss_announced := (if onAnnounce then ss_announced s + length flushed else ss_announced s)\<rparr>))"

definition updateRoutingTableOnPut ::
    "('c, 'd, 'b, 'n) stack_cfg \<Rightarrow> content_key \<Rightarrow> string \<Rightarrow> ReplicationVector option \<Rightarrow> 'c option \<Rightarrow> (('c, 'd, 'b, 'n) stack_state, unit) op" where
  "updateRoutingTableOnPut K k providerID repVector c =
     readS ss_RoutingTable (\<lambda>table.
     (case table of
        None \<Rightarrow> retS ()
      | Some _ \<Rightarrow>
          if IsZero k then retS ()
          else
            bindS (modifyS (\<lambda>s. s\<lparr>ss_RoutingTable := map_option
              (RT_Set (ss_now s) k providerID (case repVector of None \<Rightarrow> DefaultReplicationVector | Some v \<Rightarrow> v) c) (ss_RoutingTable s)\<rparr>)) (\<lambda>_.
            bindS (ignoreS (StoreKeyToProviderIDMapping K k providerID)) (\<lambda>_.
            (case tokenValueStore K of
               None \<Rightarrow> retS ()
             | Some C \<Rightarrow> ignoreS (onTokens (SyncTokenOnPut C (sk_self K) (sk_Addrs K) k)))))))"

definition UpdateRoutingTableOnDeleteByKey :: "('c, 'd, 'b, 'n) stack_cfg \<Rightarrow> content_key \<Rightarrow> (('c, 'd, 'b, 'n) stack_state, unit) op" where
  "UpdateRoutingTableOnDeleteByKey K k =
     readS ss_RoutingTable (\<lambda>table.
     (case table of
        None \<Rightarrow> retS ()
      | Some _ \<Rightarrow>
          if IsZero k then retS ()
          else
            bindS (modifyS (\<lambda>s. s\<lparr>ss_RoutingTable := map_option (RT_Remove k) (ss_RoutingTable s)\<rparr>)) (\<lambda>_.
            bindS (ignoreS (RemoveKeyToProviderIDMapping K k)) (\<lambda>_.
            (case tokenValueStore K of
               None \<Rightarrow> retS ()
             | Some C \<Rightarrow> ignoreS (onTokens (SyncTokenOnDelete C (sk_self K) k)))))))"

definition UpdateRoutingTableOnDelete :: "('c, 'd, 'b, 'n) stack_cfg \<Rightarrow> 'c option \<Rightarrow> (('c, 'd, 'b, 'n) stack_state, unit) op" where
  "UpdateRoutingTableOnDelete K c =
     readS ss_RoutingTable (\<lambda>table.
     (case table of
        None \<Rightarrow> retS ()
      | Some rt \<Rightarrow>
          (case RT_GetByCID c rt of
             None \<Rightarrow> retS ()
           | Some entry \<Rightarrow> if IsZero (re_Key entry) then retS () else UpdateRoutingTableOnDeleteByKey K (re_Key entry))))"

definition Stack_DeleteBlock :: "('c, 'd, 'b, 'n) stack_cfg \<Rightarrow> 'c option \<Rightarrow> ('c, 'd, 'b, 'n) stack_state \<Rightarrow> (unit result \<times> ('c, 'd, 'b, 'n) stack_state) option" where
  "Stack_DeleteBlock K c s =
     (case c of
        None \<Rightarrow> Some (Inr (), s)
      | Some _ \<Rightarrow>
          (let k = (case ss_RoutingTable s of
                      None \<Rightarrow> zeroKey
                    | Some rt \<Rightarrow> (case RT_GetByCID c rt of None \<Rightarrow> zeroKey | Some entry \<Rightarrow> re_Key entry)) in
           case DeleteBlockIndexed K c (sk_locks K) k s of
             None \<Rightarrow> None
           | Some (Inl e, t) \<Rightarrow> Some (Inl e, t)
           | Some (Inr _, t) \<Rightarrow> Some (UpdateRoutingTableOnDelete K c t)))"

subsection \<open>Provider claims\<close>

definition CacheProviderClaim :: "string \<Rightarrow> bytes \<Rightarrow> ('c, 'd, 'b, 'n) stack_state \<Rightarrow> ('c, 'd, 'b, 'n) stack_state" where
  "CacheProviderClaim key raw s = (if key = [] \<or> raw = [] then s else s\<lparr>ss_providerClaims := (ss_providerClaims s)(key \<mapsto> raw)\<rparr>)"

definition CachedProviderClaim :: "string \<Rightarrow> ('c, 'd, 'b, 'n) stack_state \<Rightarrow> bytes option" where
  "CachedProviderClaim key s = (if key = [] then None else ss_providerClaims s key)"

definition claimKey :: "content_key \<Rightarrow> bytes \<Rightarrow> string" where
  "claimKey k provider = ''/providers/'' @ hex_EncodeToString k @ ''/'' @ hex_EncodeToString provider"

definition BuildSignedProviderClaim :: "('c, 'd, 'b, 'n) stack_cfg \<Rightarrow> int \<Rightarrow> content_key \<Rightarrow> bytes result" where
  "BuildSignedProviderClaim K now k =
     fail_if (IsZero k) (ErrMsg ''provider claim requires host and content key'')
     (case sk_PrivKey K of
        None \<Rightarrow> Inl (ErrMsg ''provider identity private key unavailable'')
      | Some privateRaw \<Rightarrow>
          fail_if (length privateRaw \<noteq> 64) (ErrMsg ''provider identity is not Ed25519'')
          (let publicRaw = ed_Public (sk_names K) privateRaw in
           fail_if (length publicRaw \<noteq> 32) (ErrMsg ''provider Ed25519 public key unavailable'')
           (bindR (ProviderClaim_Sign (sk_names K) privateRaw
              \<lparr>pc_Version = FormatVersion, pc_ContentKey = k, pc_Provider = publicRaw,
               pc_Address = (if sk_Addrs K = [] then ''local'' else hd (sk_Addrs K)), pc_Expires = now + 48 * 3600000000000,
               pc_Timestamp = now, pc_Nonce = sk_Nonce K, pc_Signature = []\<rparr>) (\<lambda>claim.
            MarshalCanonical (claimC (sk_names K)) claim))))"

definition putClaim :: "('c, 'd, 'b, 'n) stack_cfg \<Rightarrow> string \<Rightarrow> bytes \<Rightarrow> (('c, 'd, 'b, 'n) stack_state, unit) op" where
  "putClaim K key raw =
     (case sk_DHT K of
        None \<Rightarrow> retS ()
      | Some dht \<Rightarrow>
          bindS (onTokens (\<lambda>s. case vs_PutValue dht key raw (du_net s) of (r, n) \<Rightarrow> (r, s\<lparr>du_net := n\<rparr>))) (\<lambda>_.
          modifyS (CacheProviderClaim key raw)))"

definition PublishSignedProviderClaim :: "('c, 'd, 'b, 'n) stack_cfg \<Rightarrow> content_key \<Rightarrow> (('c, 'd, 'b, 'n) stack_state, unit) op" where
  "PublishSignedProviderClaim K k =
     readS (\<lambda>s. BuildSignedProviderClaim K (ss_now s) k) (\<lambda>built.
     bindS (liftR built) (\<lambda>raw.
     (case sk_DHT K of
        None \<Rightarrow> retS ()
      | Some _ \<Rightarrow>
          bindS (liftR (UnmarshalCanonical (claimC (sk_names K)) raw)) (\<lambda>claim. putClaim K (claimKey k (pc_Provider claim)) raw))))"

definition PublishReceivedProviderClaim :: "('c, 'd, 'b, 'n) stack_cfg \<Rightarrow> string \<Rightarrow> content_key \<Rightarrow> bytes \<Rightarrow> (('c, 'd, 'b, 'n) stack_state, unit) op" where
  "PublishReceivedProviderClaim K expectedProvider k raw =
     fail_ifS (IsZero k \<or> expectedProvider = []) (ErrMsg ''received provider claim requires stack, provider, and content key'')
     (bindS (liftR (wrapR ''extract provider public key'' (sk_PublicOf K expectedProvider))) (\<lambda>publicRaw.
      bindS (liftR (wrapR ''decode provider claim'' (UnmarshalCanonical (claimC (sk_names K)) raw))) (\<lambda>claim.
      fail_ifS (pc_ContentKey claim \<noteq> k \<or> pc_Provider claim \<noteq> publicRaw) (ErrMsg ''provider claim does not match acknowledged transfer'')
      (readS ss_now (\<lambda>now.
       bindS (liftR (wrapR ''validate provider claim'' (ProviderClaimValidator_Validate (sk_names K) now (claimKey k publicRaw) raw))) (\<lambda>_.
       (case sk_DHT K of
          None \<Rightarrow> modifyS (CacheProviderClaim (claimKey k publicRaw) raw)
        | Some _ \<Rightarrow> putClaim K (claimKey k publicRaw) raw)))))))"

definition SyncLocalTokenLocation :: "('c, 'd, 'b, 'n) stack_cfg \<Rightarrow> content_key \<Rightarrow> (('c, 'd, 'b, 'n) stack_state, unit) op" where
  "SyncLocalTokenLocation K k =
     (case tokenValueStore K of
        None \<Rightarrow> failS (ErrMsg ''token store unavailable'')
      | Some C \<Rightarrow> bindS (onTokens (SyncTokenOnPut C (sk_self K) (sk_Addrs K) k)) (\<lambda>_. PublishSignedProviderClaim K k))"

definition RecordLocalPut :: "('c, 'd, 'b, 'n) stack_cfg \<Rightarrow> content_key \<Rightarrow> string \<Rightarrow> ReplicationVector option \<Rightarrow> 'c option \<Rightarrow> (('c, 'd, 'b, 'n) stack_state, unit) op" where
  "RecordLocalPut K k providerID repVector c =
     readS ss_RoutingTable (\<lambda>table.
     if table = None \<or> IsZero k then retS ()
     else bindS (modifyS (\<lambda>s. s\<lparr>ss_RoutingTable := map_option
            (RT_Set (ss_now s) k providerID (case repVector of None \<Rightarrow> DefaultReplicationVector | Some v \<Rightarrow> v) c) (ss_RoutingTable s)\<rparr>)) (\<lambda>_.
          ignoreS (StoreKeyToProviderIDMapping K k providerID)))"

definition UpdateRoutingTableOnPutAsync ::
    "('c, 'd, 'b, 'n) stack_cfg \<Rightarrow> content_key \<Rightarrow> string \<Rightarrow> ReplicationVector option \<Rightarrow> 'c option \<Rightarrow> (('c, 'd, 'b, 'n) stack_state, unit) op" where
  "UpdateRoutingTableOnPutAsync K k providerID repVector c =
     readS ss_RoutingTable (\<lambda>table.
     if table = None \<or> IsZero k then retS ()
     else bindS (RecordLocalPut K k providerID repVector c) (\<lambda>_. SyncLocalTokenLocation K k))"

end
