(* ===== verification/Storage_Repair.thy ===== *)
theory Storage_Repair
  imports Storage_Stack
begin

text \<open>
  \<open>internal/storage/repair.go\<close> and \<open>storage_available.go\<close>: how a node measures its peers, audits the replicas of a key and sends the block to new
  peers, and the handler that receives it. Pings, connections, streams, the tuple space with the offers, JSON and base64 are parameters. A
  probe takes time; everything else takes none. Concurrent measurements and transfers run one after the other, in the order of the
  code's lists. Log lines and the protection of connections are left out.
\<close>

record cachedRTT =
  cr_rtt :: int
  cr_err :: "go_error option"
  cr_measured :: int

record livenessFailureEvidence =
  le_count :: int
  le_last :: int

record StorageAvailableOffer =
  of_PeerID :: string
  of_CommittedStake :: u64
  of_StorageAvailability :: u64
  of_ReputationScore :: float64
  of_AvailabilityDuration :: int
  of_Timestamp :: int

record ('c, 'd, 'b, 'n) repair_cfg =
  rq_stack :: "('c, 'd, 'b, 'n) stack_cfg"
  rq_criteria :: SelectionCriteria
  rq_rttProbe :: "(string \<Rightarrow> int result) option"
  rq_ping :: "string \<Rightarrow> string option \<Rightarrow> int \<Rightarrow> int result \<times> int"
  rq_livenessFailureThreshold :: int
  rq_livenessFailureConfirmationInterval :: int
  rq_Has :: "'b \<Rightarrow> 'c option \<Rightarrow> bool result"
  rq_UndefString :: string
  rq_Connected :: "string \<Rightarrow> bool"
  rq_PeerAddrs :: "string \<Rightarrow> string list"
  rq_Connect :: "string \<Rightarrow> string list \<Rightarrow> unit result"
  rq_NewStream :: "string \<Rightarrow> stream result"
  rq_RemoteAddr :: "string \<Rightarrow> string option"
  rq_TsRead :: "string \<Rightarrow> bytes result"
  rq_UnmarshalOffer :: "bytes \<Rightarrow> StorageAvailableOffer result"
  rq_PeerIDsToCheck :: "string list"
  rq_b64Encode :: "bytes \<Rightarrow> string"
  rq_b64Decode :: "string \<Rightarrow> bytes result"

record ('c, 'd, 'b, 'n) repair_state =
  rs_stack :: "('c, 'd, 'b, 'n) stack_state"
  rs_rttCache :: "string \<rightharpoonup> cachedRTT"
  rs_livenessFailures :: "string \<rightharpoonup> livenessFailureEvidence"

definition defaultLivenessFailureThreshold :: int where "defaultLivenessFailureThreshold = 2"
definition defaultLivenessFailureConfirmationInterval :: int where "defaultLivenessFailureConfirmationInterval = 10000000000"

definition onStack :: "(('c, 'd, 'b, 'n) stack_state, 'a) op \<Rightarrow> (('c, 'd, 'b, 'n) repair_state, 'a) op" where
  "onStack f s = (case f (rs_stack s) of (r, t) \<Rightarrow> (r, s\<lparr>rs_stack := t\<rparr>))"

abbreviation rs_now :: "('c, 'd, 'b, 'n) repair_state \<Rightarrow> int" where "rs_now s \<equiv> ss_now (rs_stack s)"

subsection \<open>Measuring\<close>

definition cacheRTT :: "string \<Rightarrow> int result \<Rightarrow> ('c, 'd, 'b, 'n) repair_state \<Rightarrow> ('c, 'd, 'b, 'n) repair_state" where
  "cacheRTT pid r s =
     s\<lparr>rs_rttCache := (rs_rttCache s)(pid \<mapsto> (case r of
         Inr rtt \<Rightarrow> \<lparr>cr_rtt = rtt, cr_err = None, cr_measured = rs_now s\<rparr>
       | Inl e \<Rightarrow> \<lparr>cr_rtt = 0, cr_err = Some e, cr_measured = rs_now s\<rparr>))\<rparr>"

text \<open>Evidence that was never recorded has a zero time, which \<open>IsZero\<close> reports.\<close>

definition applyLivenessFailureEvidence ::
    "('c, 'd, 'b, 'n) repair_cfg \<Rightarrow> string \<Rightarrow> int \<Rightarrow> go_error \<Rightarrow> (('c, 'd, 'b, 'n) repair_state, int) op" where
  "applyLivenessFailureEvidence R pid fallbackRTT probeErr s =
     (let threshold = (if rq_livenessFailureThreshold R \<le> 0 then defaultLivenessFailureThreshold else rq_livenessFailureThreshold R);
          now = rs_now s;
          interval = rq_livenessFailureConfirmationInterval R;
          (evidence, t) =
            (case rs_livenessFailures s pid of
               None \<Rightarrow> let e = \<lparr>le_count = 1, le_last = now\<rparr> in (e, s\<lparr>rs_livenessFailures := (rs_livenessFailures s)(pid \<mapsto> e)\<rparr>)
             | Some e0 \<Rightarrow>
                 if interval \<le> 0 \<or> now - le_last e0 \<ge> interval
                 then let e = \<lparr>le_count = le_count e0 + 1, le_last = now\<rparr> in (e, s\<lparr>rs_livenessFailures := (rs_livenessFailures s)(pid \<mapsto> e)\<rparr>)
                 else (e0, s)) in
      if le_count evidence < threshold then (Inr (if fallbackRTT \<le> 0 then 1 else fallbackRTT), t) else (Inl probeErr, t))"

definition clearLivenessFailureEvidence :: "string \<Rightarrow> ('c, 'd, 'b, 'n) repair_state \<Rightarrow> ('c, 'd, 'b, 'n) repair_state" where
  "clearLivenessFailureEvidence pid s = s\<lparr>rs_livenessFailures := (rs_livenessFailures s)(pid := None)\<rparr>"

definition usableRTT :: "cachedRTT \<Rightarrow> int \<Rightarrow> string option \<Rightarrow> bool" where
  "usableRTT c now addr \<longleftrightarrow>
     now - cr_measured c < (if cr_err c \<noteq> None then 2000000000 else 10000000000) \<and> (cr_err c = None \<or> addr = None)"

text \<open>The dial, when there is an address, and the ping of the probe; the time it takes passes before its result is cached.\<close>

definition probePeer :: "('c, 'd, 'b, 'n) repair_cfg \<Rightarrow> string \<Rightarrow> string option \<Rightarrow> int \<Rightarrow> (('c, 'd, 'b, 'n) repair_state, int) op" where
  "probePeer R pid addr cachedRtt s =
     (case rq_ping R pid addr (rs_now s) of
        (r, d) \<Rightarrow>
          (let t = cacheRTT pid r (s\<lparr>rs_stack := (rs_stack s)\<lparr>ss_now := rs_now s + d\<rparr>\<rparr>) in
           if addr = None then (r, t)
           else (case r of
                   Inl e \<Rightarrow> applyLivenessFailureEvidence R pid cachedRtt e t
                 | Inr rtt \<Rightarrow> (Inr rtt, clearLivenessFailureEvidence pid t))))"

definition measureRTT :: "('c, 'd, 'b, 'n) repair_cfg \<Rightarrow> string \<Rightarrow> string option \<Rightarrow> (('c, 'd, 'b, 'n) repair_state, int) op" where
  "measureRTT R pid addr s =
     (case rq_rttProbe R of
        Some f \<Rightarrow> (f pid, s)
      | None \<Rightarrow>
          if pid = [] then (Inl (ErrMsg ''peer ID required''), s)
          else if pid = sk_self (rq_stack R) then (Inr 1, s)
          else
            let cached = rs_rttCache s pid in
            (case cached of
               Some c \<Rightarrow> if usableRTT c (rs_now s) addr then ((case cr_err c of None \<Rightarrow> Inr (cr_rtt c) | Some e \<Rightarrow> Inl e), s) else probePeer R pid addr (cr_rtt c) s
             | None \<Rightarrow> probePeer R pid addr 0 s))"

definition MeasureRTT :: "('c, 'd, 'b, 'n) repair_cfg \<Rightarrow> string \<Rightarrow> (('c, 'd, 'b, 'n) repair_state, int) op" where
  "MeasureRTT R pid = measureRTT R pid None"

definition MeasureRTTAt :: "('c, 'd, 'b, 'n) repair_cfg \<Rightarrow> string \<Rightarrow> string option \<Rightarrow> (('c, 'd, 'b, 'n) repair_state, int) op" where
  "MeasureRTTAt R pid addr = measureRTT R pid addr"

subsection \<open>Offers\<close>

definition StorageAvailableTuplePrefix :: string where "StorageAvailableTuplePrefix = ''storage-available:''"

text \<open>The product of a \<open>time.Duration\<close> wraps around at 64 bits (\<open>wrap64\<close>).\<close>


definition offerExpired :: "StorageAvailableOffer \<Rightarrow> int \<Rightarrow> bool" where
  "offerExpired offer now \<longleftrightarrow>
     of_Timestamp offer \<le> 0 \<or> of_AvailabilityDuration offer \<le> 0
     \<or> \<not> now < of_Timestamp offer * 1000000000 + wrap64 (of_AvailabilityDuration offer * 1000000000)"

definition offerToCandidate :: "('c, 'd, 'b, 'n) repair_cfg \<Rightarrow> StorageAvailableOffer \<Rightarrow> (('c, 'd, 'b, 'n) repair_state, PeerCandidate) op" where
  "offerToCandidate R offer =
     bindS (liftR (wrapR ''invalid peer ID'' (tc_pidDecode (sk_tokens (rq_stack R)) (of_PeerID offer)))) (\<lambda>peerID.
     tryS (MeasureRTT R peerID) (\<lambda>m.
     let rtt = (case m of Inr rtt \<Rightarrow> rtt | Inl _ \<Rightarrow> 0) in
     retS \<lparr>pc_PeerID = peerID, pc_RTT = rtt, pc_DistanceCategory = ClassifyDistanceByRTT rtt None, pc_CommittedStake = of_CommittedStake offer,
           pc_StorageAvailability = of_StorageAvailability offer, pc_ReputationScore = of_ReputationScore offer\<rparr>))"

fun uniquePeers :: "string list \<Rightarrow> string list \<Rightarrow> string set \<Rightarrow> string list" where
  "uniquePeers [] seen excluded = []"
| "uniquePeers (p # ps) seen excluded =
     (if p = [] \<or> p \<in> set seen then uniquePeers ps seen excluded
      else if p \<in> excluded then uniquePeers ps (p # seen) excluded
      else p # uniquePeers ps (p # seen) excluded)"

text \<open>The work on one peer: its offer, if there is a valid one of the wanted category.\<close>

definition checkOffer ::
    "('c, 'd, 'b, 'n) repair_cfg \<Rightarrow> DistanceCategory option \<Rightarrow> string set \<Rightarrow> string \<Rightarrow> ('c, 'd, 'b, 'n) repair_state
     \<Rightarrow> PeerCandidate option \<times> ('c, 'd, 'b, 'n) repair_state" where
  "checkOffer R desired excluded pid s =
     (case bindR (rq_TsRead R (StorageAvailableTuplePrefix @ tc_pidString (sk_tokens (rq_stack R)) pid)) (rq_UnmarshalOffer R) of
        Inl _ \<Rightarrow> (None, s)
      | Inr offer \<Rightarrow>
          if offerExpired offer (rs_now s) then (None, s)
          else (case tc_pidDecode (sk_tokens (rq_stack R)) (of_PeerID offer) of
                  Inl _ \<Rightarrow> (None, s)
                | Inr offerPeer \<Rightarrow>
                    if offerPeer \<noteq> pid \<or> offerPeer \<in> excluded then (None, s)
                    else (case offerToCandidate R offer s of
                            (Inl _, t) \<Rightarrow> (None, t)
                          | (Inr c, t) \<Rightarrow> (if desired \<noteq> None \<and> desired \<noteq> Some (pc_DistanceCategory c) then None else Some c, t))))"

fun checkOffers ::
    "('c, 'd, 'b, 'n) repair_cfg \<Rightarrow> DistanceCategory option \<Rightarrow> string set \<Rightarrow> string list \<Rightarrow> ('c, 'd, 'b, 'n) repair_state
     \<Rightarrow> PeerCandidate list \<times> ('c, 'd, 'b, 'n) repair_state" where
  "checkOffers R desired excluded [] s = ([], s)"
| "checkOffers R desired excluded (p # ps) s =
     (case checkOffer R desired excluded p s of
        (c, t) \<Rightarrow> (case checkOffers R desired excluded ps t of (cs, u) \<Rightarrow> ((case c of None \<Rightarrow> cs | Some c \<Rightarrow> c # cs), u)))"

definition pidText :: "('c, 'd, 'b, 'n) repair_cfg \<Rightarrow> string \<Rightarrow> string" where "pidText R = tc_pidString (sk_tokens (rq_stack R))"

definition findStorageAvailableCandidates ::
    "('c, 'd, 'b, 'n) repair_cfg \<Rightarrow> DistanceCategory option \<Rightarrow> int \<Rightarrow> string set \<Rightarrow> (('c, 'd, 'b, 'n) repair_state, PeerCandidate list) op" where
  "findStorageAvailableCandidates R desired maxCandidates excluded s =
     (let peers = sortSlice (\<lambda>a b. pidText R a < pidText R b) (uniquePeers (rq_PeerIDsToCheck R) [] excluded);
          (found, t) = checkOffers R desired excluded peers s;
          candidates = sortSlice (\<lambda>a b. pidText R (pc_PeerID a) < pidText R (pc_PeerID b)) found;
          candidates = (if maxCandidates > 0 then take (nat maxCandidates) candidates else candidates) in
      if candidates = [] then (Inl (ErrMsg ''no storage-available offers found''), t) else (Inr candidates, t))"

definition FindAndSelectReplicas ::
    "('c, 'd, 'b, 'n) repair_cfg \<Rightarrow> DistanceCategory \<Rightarrow> SelectionCriteria \<Rightarrow> int \<Rightarrow> (('c, 'd, 'b, 'n) repair_state, PeerCandidate list) op" where
  "FindAndSelectReplicas R desired criteria n =
     bindS (findStorageAvailableCandidates R (Some desired) (n * 3) {}) (\<lambda>candidates.
     retS (SelectReplicaCandidates (pidText R) candidates desired criteria n))"

subsection \<open>Sending a block\<close>

definition peerAddress :: "('c, 'd, 'b, 'n) repair_cfg \<Rightarrow> string list \<Rightarrow> string option" where
  "peerAddress R addrs = (case pickRoutableAddr addrs of Some a \<Rightarrow> Some a | None \<Rightarrow> if addrs = [] then None else Some (hd addrs))"

definition Fields :: "string \<Rightarrow> string list" where
  "Fields line =
     (let space = (\<lambda>seg. isSpaceRune (fst (decodeRune seg)));
          step = (\<lambda>seg (word, ws). if space seg then ([], if word = [] then ws else word # ws) else (seg @ word, ws));
          (word, ws) = foldr step (runeSegs line) ([], []) in
      if word = [] then ws else word # ws)"

definition repairMessage :: "('c, 'd, 'b, 'n) repair_cfg \<Rightarrow> 'c option \<Rightarrow> bytes \<Rightarrow> bytes" where
  "repairMessage R c blockData =
     (case c of None \<Rightarrow> rq_UndefString R | Some c \<Rightarrow> sk_String (rq_stack R) c) @ [newline] @ dec (length blockData) @ [newline] @ blockData"

definition readAck :: "('c, 'd, 'b, 'n) repair_cfg \<Rightarrow> bytes \<Rightarrow> bytes result" where
  "readAck R reply =
     bindR (wrapR ''read ack'' (fst (ReadLine (take (16 * 2 ^ 10) reply)))) (\<lambda>ack.
     (case Fields ack of
        [ok, claim] \<Rightarrow>
          fail_if (ok \<noteq> ''OK'') (ErrMsg ''replication failed'')
          (wrapR ''decode provider claim acknowledgment'' (rq_b64Decode R claim))
      | _ \<Rightarrow> Inl (ErrMsg ''replication failed'')))"

definition replicateViaDirectStream ::
    "('c, 'd, 'b, 'n) repair_cfg \<Rightarrow> 'c option \<Rightarrow> string \<Rightarrow> bytes \<Rightarrow> bool \<Rightarrow> (('c, 'd, 'b, 'n) repair_state, unit) op" where
  "replicateViaDirectStream R c targetPeer blockData syncToken =
     (let K = rq_stack R; k = KeyFromData (sk_Sum256 K) blockData in
      bindS (liftR (wrapR ''open stream'' (rq_NewStream R targetPeer))) (\<lambda>stream.
      bindS (liftR (stream (repairMessage R c blockData))) (\<lambda>reply.
      bindS (liftR (readAck R reply)) (\<lambda>claimRaw.
      fail_ifS (IsZero k) (ErrMsg ''replicated block has zero content key'')
      (bindS (onStack (tryS (PublishReceivedProviderClaim K targetPeer k claimRaw) (\<lambda>r. liftR (wrapR ''publish acknowledged provider claim'' r)))) (\<lambda>_.
      (case (if syncToken then tokenValueStore K else None) of
         None \<Rightarrow> retS ()
       | Some C \<Rightarrow>
           (case (case peerAddress R (rq_PeerAddrs R targetPeer) of Some a \<Rightarrow> Some a | None \<Rightarrow> rq_RemoteAddr R targetPeer) of
              None \<Rightarrow> retS ()
            | Some a \<Rightarrow> tryS (onStack (onTokens (SyncTokenOnReplication C k targetPeer (Some a)))) (\<lambda>r.
                liftR (wrapR ''publish replica token location'' r))))))))))"

definition tokenAddrs :: "('c, 'd, 'b, 'n) repair_cfg \<Rightarrow> content_key \<Rightarrow> string \<Rightarrow> 'n \<Rightarrow> string list" where
  "tokenAddrs R k targetPeer n =
     (case tokenValueStore (rq_stack R) of
        None \<Rightarrow> []
      | Some C \<Rightarrow>
          if IsZero k then []
          else (case GetToken C k n of
                  Inl _ \<Rightarrow> []
                | Inr token \<Rightarrow> (case List.find (\<lambda>l. lo_ProviderID l = targetPeer) (tk_Locations token) of None \<Rightarrow> [] | Some l \<Rightarrow> [lo_Address l])))"

definition replicateToPeerWithToken ::
    "('c, 'd, 'b, 'n) repair_cfg \<Rightarrow> 'c option \<Rightarrow> string \<Rightarrow> bytes \<Rightarrow> bool \<Rightarrow> (('c, 'd, 'b, 'n) repair_state, unit) op" where
  "replicateToPeerWithToken R c targetPeer blockData syncToken =
     (let K = rq_stack R in
      readS (\<lambda>s. rq_Has R (ss_bs (rs_stack s)) c) (\<lambda>has.
      bindS (liftR (wrapR ''check blockstore'' has)) (\<lambda>has.
      bindS (if has then retS () else tryS (onStack (PutRawBlock K blockData)) (\<lambda>r. liftR (wrapR ''store block locally'' (bindR r (\<lambda>_. Inr ()))))) (\<lambda>_.
      readS (\<lambda>s. ss_net (rs_stack s)) (\<lambda>net.
      let addrs = (if rq_PeerAddrs R targetPeer \<noteq> [] then rq_PeerAddrs R targetPeer
                   else tokenAddrs R (KeyFromData (sk_Sum256 K) blockData) targetPeer net) in
      bindS (if rq_Connected R targetPeer then retS ()
             else fail_ifS (addrs = []) (ErrMsg ''no addresses found for peer'')
                    (liftR (wrapR ''connect to peer'' (rq_Connect R targetPeer addrs)))) (\<lambda>_.
      replicateViaDirectStream R c targetPeer blockData syncToken))))))"

subsection \<open>Receiving a block\<close>

text \<open>The received block, its announced identifier checked after the block was stored.\<close>

definition receiveBlock :: "('c, 'd, 'b, 'n) stack_cfg \<Rightarrow> bytes \<Rightarrow> ('c \<times> bytes) result \<times> string" where
  "receiveBlock K inp =
     (case ReadLine inp of
        (Inl e, _) \<Rightarrow> (Inl (ErrWrap ''read identifier'' e), ''read identifier'')
      | (Inr cidLine, rest) \<Rightarrow>
          (case sk_Decode K (butlast cidLine) of
             Inl e \<Rightarrow> (Inl (ErrWrap ''decode identifier'' e), ''invalid identifier'')
           | Inr c \<Rightarrow>
               (case ReadLine rest of
                  (Inl e, _) \<Rightarrow> (Inl (ErrWrap ''read size'' e), ''read size'')
                | (Inr sizeLine, rest) \<Rightarrow>
                    (case Atoi (butlast sizeLine) of
                       Inl e \<Rightarrow> (Inl (ErrWrap ''parse size'' e), ''invalid size'')
                     | Inr n \<Rightarrow>
                         if n \<le> 0 \<or> n > MaxTransferBlockSize then (Inl (ErrMsg ''invalid block size''), ''invalid block size'')
                         else (case fst (ReadFull (nat n) rest) of
                                 Inl e \<Rightarrow> (Inl (ErrWrap ''read block data'' e), ''read block data'')
                               | Inr data \<Rightarrow> (Inr (c, data), []))))))"

definition refuseRepair :: "string \<Rightarrow> bytes" where "refuseRepair m = ''ERROR: '' @ m @ [newline]"

text \<open>The replicas a received block is recorded with: the sender, and the node itself as near.\<close>

definition recordReplica :: "('c, 'd, 'b, 'n) stack_cfg \<Rightarrow> content_key \<Rightarrow> string \<Rightarrow> 'c \<Rightarrow> ('c, 'd, 'b, 'n) stack_state \<Rightarrow> ('c, 'd, 'b, 'n) stack_state" where
  "recordReplica K k sourcePeer c s =
     s\<lparr>ss_RoutingTable := map_option (\<lambda>rt.
        RT_AddProvider (ss_now s) k (sk_self K) DistanceNear
          (RT_Set (ss_now s) k sourcePeer (case RT_Get k rt of None \<Rightarrow> DefaultReplicationVector | Some e \<Rightarrow> re_RepVector e) (Some c) rt)) (ss_RoutingTable s)\<rparr>"

definition HandleRepairStream ::
    "('c, 'd, 'b, 'n) repair_cfg \<Rightarrow> string \<Rightarrow> bytes \<Rightarrow> ('c, 'd, 'b, 'n) stack_state \<Rightarrow> (bytes \<times> go_error option \<times> ('c, 'd, 'b, 'n) stack_state) option" where
  "HandleRepairStream R sourcePeer inp s =
     (let K = rq_stack R in
      case receiveBlock K inp of
        (Inl e, m) \<Rightarrow> Some (refuseRepair m, Some e, s)
      | (Inr (c, data), _) \<Rightarrow>
          (case PutRawBlock K data s of
             (Inl e, t) \<Rightarrow> Some (refuseRepair ''store block'', Some (ErrWrap ''store block'' e), t)
           | (Inr expectedCid, t) \<Rightarrow>
               if expectedCid \<noteq> c then Some (refuseRepair ''key mismatch'', Some (ErrMsg ''key mismatch''), t)
               else
                 (case PutRawBlockIndexed K data (sk_locks K) None t of
                    None \<Rightarrow> None
                  | Some (Inl e, u) \<Rightarrow> Some (refuseRepair ''index block'', Some (ErrWrap ''index block'' e), u)
                  | Some (Inr (k, storedCID), u) \<Rightarrow>
                      (let v = recordReplica K k sourcePeer storedCID u in
                       case BuildSignedProviderClaim K (ss_now v) k of
                         Inl e \<Rightarrow> Some (refuseRepair ''provider claim'', Some (ErrWrap ''sign provider claim'' e), v)
                       | Inr claimRaw \<Rightarrow> Some (''OK '' @ rq_b64Encode R claimRaw @ [newline], None, v)))))"

subsection \<open>Repair\<close>

record 'c RepairResult =
  rr_Key :: content_key
  rr_CID :: "'c option"
  rr_RepairedCategories :: "DistanceCategory list"
  rr_FailedCategories :: "DistanceCategory list"
  rr_ReplicatedPeers :: "string list"
  rr_FailedPeers :: "string list"
  rr_FailureDetails :: "string \<rightharpoonup> string"
  rr_TotalReplicasCreated :: int

definition calculateNeededReplicas :: "'c ReplicaStateVerification \<Rightarrow> DistanceCategory \<Rightarrow> int" where
  "calculateNeededReplicas v d =
     (let e = vf_ExpectedCounts v; a = vf_ActualCounts v in
      case d of
        DistanceNear \<Rightarrow> max 0 (ct_Near e - ct_Near a)
      | DistanceMidrange \<Rightarrow> max 0 (ct_Midrange e - ct_Midrange a)
      | DistanceFarFlung \<Rightarrow> max 0 (ct_FarFlung e - ct_FarFlung a)
      | DistanceUnknown \<Rightarrow> 0)"

text \<open>The variables that the closures of \<open>TriggerRepair\<close> share.\<close>

record 'c repair_vars =
  rv_needed :: "DistanceCategory \<Rightarrow> int"
  rv_remaining :: int
  rv_existing :: "string set"
  rv_result :: "'c RepairResult"

definition recordSuccess :: "PeerCandidate \<Rightarrow> 'c repair_vars \<Rightarrow> 'c repair_vars" where
  "recordSuccess c v =
     (let res = rv_result v; d = pc_DistanceCategory c in
      v\<lparr>rv_needed := (if rv_needed v d > 0 then (rv_needed v)(d := rv_needed v d - 1) else rv_needed v),
        rv_remaining := rv_remaining v - 1,
        rv_existing := insert (pc_PeerID c) (rv_existing v),
        rv_result := res\<lparr>rr_ReplicatedPeers := rr_ReplicatedPeers res @ [pc_PeerID c],
                         rr_TotalReplicasCreated := rr_TotalReplicasCreated res + 1,
                         rr_RepairedCategories := (if d \<in> set (rr_RepairedCategories res) then rr_RepairedCategories res
                                                   else rr_RepairedCategories res @ [d])\<rparr>\<rparr>)"

definition recordFailure :: "(string \<Rightarrow> string) \<Rightarrow> string \<Rightarrow> go_error \<Rightarrow> 'c repair_vars \<Rightarrow> 'c repair_vars" where
  "recordFailure pidString pid e v =
     (let res = rv_result v in
      v\<lparr>rv_result := res\<lparr>rr_FailedPeers := rr_FailedPeers res @ [pid],
                         rr_FailureDetails := (rr_FailureDetails res)(pidString pid \<mapsto> error_text e)\<rparr>\<rparr>)"

definition addReplica :: "content_key \<Rightarrow> PeerCandidate \<Rightarrow> ('c, 'd, 'b, 'n) repair_state \<Rightarrow> ('c, 'd, 'b, 'n) repair_state" where
  "addReplica k c s = s\<lparr>rs_stack := (rs_stack s)\<lparr>ss_RoutingTable :=
     map_option (RT_AddProvider (rs_now s) k (pc_PeerID c) (pc_DistanceCategory c)) (ss_RoutingTable (rs_stack s))\<rparr>\<rparr>"

definition replicateCandidate ::
    "('c, 'd, 'b, 'n) repair_cfg \<Rightarrow> content_key \<Rightarrow> 'c option \<Rightarrow> bytes \<Rightarrow> PeerCandidate
     \<Rightarrow> 'c repair_vars \<times> ('c, 'd, 'b, 'n) repair_state \<Rightarrow> 'c repair_vars \<times> ('c, 'd, 'b, 'n) repair_state" where
  "replicateCandidate R k c blockData cand =
     (\<lambda>(v, s).
        if rv_remaining v \<le> 0 \<or> pc_PeerID cand = [] \<or> pc_PeerID cand = sk_self (rq_stack R) \<or> pc_PeerID cand \<in> rv_existing v then (v, s)
        else (case replicateToPeerWithToken R c (pc_PeerID cand) blockData True s of
                (Inl e, t) \<Rightarrow> (recordFailure (pidText R) (pc_PeerID cand) e v, t)
              | (Inr _, t) \<Rightarrow> (recordSuccess cand v, addReplica k cand t)))"

fun replicateUntil ::
    "('c, 'd, 'b, 'n) repair_cfg \<Rightarrow> content_key \<Rightarrow> 'c option \<Rightarrow> bytes \<Rightarrow> ('c repair_vars \<Rightarrow> bool) \<Rightarrow> PeerCandidate list
     \<Rightarrow> 'c repair_vars \<times> ('c, 'd, 'b, 'n) repair_state \<Rightarrow> 'c repair_vars \<times> ('c, 'd, 'b, 'n) repair_state" where
  "replicateUntil R k c blockData stop [] vs = vs"
| "replicateUntil R k c blockData stop (cand # cs) vs =
     (let ws = replicateCandidate R k c blockData cand vs in if stop (fst ws) then ws else replicateUntil R k c blockData stop cs ws)"

definition repairCategory ::
    "('c, 'd, 'b, 'n) repair_cfg \<Rightarrow> content_key \<Rightarrow> 'c option \<Rightarrow> bytes \<Rightarrow> PeerCandidate list \<Rightarrow> DistanceCategory
     \<Rightarrow> 'c repair_vars \<times> ('c, 'd, 'b, 'n) repair_state \<Rightarrow> 'c repair_vars \<times> ('c, 'd, 'b, 'n) repair_state" where
  "repairCategory R k c blockData pool d vs =
     (let v = fst vs; n = min (rv_needed v d) (rv_remaining v) in
      if rv_needed v d \<le> 0 then vs
      else replicateUntil R k c blockData (\<lambda>v. rv_remaining v \<le> 0 \<or> rv_needed v d \<le> 0)
             (SelectReplicaCandidates (pidText R) pool d (rq_criteria R) n) vs)"

definition fallbackLess :: "('c, 'd, 'b, 'n) repair_cfg \<Rightarrow> (DistanceCategory \<Rightarrow> int) \<Rightarrow> PeerCandidate \<Rightarrow> PeerCandidate \<Rightarrow> bool" where
  "fallbackLess R needed a b =
     (let an = needed (pc_DistanceCategory a) > 0; bn = needed (pc_DistanceCategory b) > 0 in
      if an \<noteq> bn then an
      else if pc_DistanceCategory a \<noteq> pc_DistanceCategory b then categoryOrd (pc_DistanceCategory a) < categoryOrd (pc_DistanceCategory b)
      else if pc_RTT a \<noteq> pc_RTT b then pc_RTT a < pc_RTT b
      else pidText R (pc_PeerID a) < pidText R (pc_PeerID b))"

definition repairCategories :: "DistanceCategory list" where "repairCategories = [DistanceNear, DistanceMidrange, DistanceFarFlung]"

definition noRepair :: "content_key \<Rightarrow> 'c option \<Rightarrow> 'c RepairResult" where
  "noRepair k c = \<lparr>rr_Key = k, rr_CID = c, rr_RepairedCategories = [], rr_FailedCategories = [], rr_ReplicatedPeers = [],
     rr_FailedPeers = [], rr_FailureDetails = (\<lambda>_. None), rr_TotalReplicasCreated = 0\<rparr>"

definition repairWith ::
    "('c, 'd, 'b, 'n) repair_cfg \<Rightarrow> content_key \<Rightarrow> 'c option \<Rightarrow> 'c ReplicaStateVerification \<Rightarrow> bytes \<Rightarrow> PeerCandidate list
     \<Rightarrow> ('c, 'd, 'b, 'n) repair_state \<Rightarrow> 'c repair_vars \<times> ('c, 'd, 'b, 'n) repair_state" where
  "repairWith R k c v blockData pool s =
     (let v0 = \<lparr>rv_needed = calculateNeededReplicas v, rv_remaining = ct_Total (vf_ExpectedCounts v) - ct_Total (vf_ActualCounts v),
                rv_existing = pd_ProviderID ` set (vf_Providers v) \<union> set (vf_UnreachableProviders v),
                rv_result = noRepair k c\<rparr>;
          vs = fold (repairCategory R k c blockData pool) repairCategories (v0, s) in
      if rv_remaining (fst vs) > 0
      then replicateUntil R k c blockData (\<lambda>v. rv_remaining v \<le> 0) (sortSlice (fallbackLess R (rv_needed (fst vs))) pool) vs
      else vs)"

definition repairCID :: "('c, 'd, 'b, 'n) repair_cfg \<Rightarrow> content_key \<Rightarrow> 'c ReplicaStateVerification \<Rightarrow> 'd \<Rightarrow> 'c option" where
  "repairCID R k v d =
     (case vf_CID v of
        Some c \<Rightarrow> Some c
      | None \<Rightarrow> (case GetCIDFromKey (rq_stack R) k d of Inr c \<Rightarrow> c | Inl _ \<Rightarrow> None))"

definition TriggerRepair ::
    "('c, 'd, 'b, 'n) repair_cfg \<Rightarrow> content_key \<Rightarrow> 'c ReplicaStateVerification \<Rightarrow> bytes \<Rightarrow> (('c, 'd, 'b, 'n) repair_state, 'c RepairResult) op" where
  "TriggerRepair R k v blockData s =
     (if IsZero k then (Inl (ErrMsg ''invalid key''), s)
      else if blockData = [] then (Inl (ErrMsg ''block data required for replication''), s)
      else
        let c = repairCID R k v (ss_ds (rs_stack s)) in
        if vf_IsSynchronized v \<or> ct_Total (vf_ExpectedCounts v) \<le> ct_Total (vf_ActualCounts v) then (Inr (noRepair k c), s)
        else
          let (found, t) = findStorageAvailableCandidates R None 0 (pd_ProviderID ` set (vf_Providers v) \<union> set (vf_UnreachableProviders v)) s;
              pool = (case found of Inr cs \<Rightarrow> cs | Inl _ \<Rightarrow> []);
              (w, u) = repairWith R k c v blockData pool t;
              failed = filter (\<lambda>d. rv_needed w d > 0) repairCategories in
          (Inr ((rv_result w)\<lparr>rr_FailedCategories := failed\<rparr>), u))"

definition isRepairCoordinator :: "('c, 'd, 'b, 'n) repair_cfg \<Rightarrow> 'c ReplicaStateVerification \<Rightarrow> bool" where
  "isRepairCoordinator R v \<longleftrightarrow>
     (let self = pidText R (sk_self (rq_stack R)) in
      foldl (\<lambda>winner p. let cand = pidText R (pd_ProviderID p) in if cand \<noteq> [] \<and> cand < winner then cand else winner) self (vf_Providers v) = self)"

definition dropProviders :: "content_key \<Rightarrow> string list \<Rightarrow> ('c, 'd, 'b, 'n) repair_state \<Rightarrow> ('c, 'd, 'b, 'n) repair_state" where
  "dropProviders k pids s = s\<lparr>rs_stack := (rs_stack s)\<lparr>ss_RoutingTable :=
     map_option (fold (RT_RemoveProvider k) pids) (ss_RoutingTable (rs_stack s))\<rparr>\<rparr>"

definition AuditAndRepair ::
    "('c, 'd, 'b, 'n) repair_cfg \<Rightarrow> content_key \<Rightarrow> int \<Rightarrow> (('c, 'd, 'b, 'n) repair_state, 'c ReplicaStateVerification \<times> 'c RepairResult option) op" where
  "AuditAndRepair R k replicationFactor =
     fail_ifS (IsZero k) (ErrMsg ''invalid key'')
     (readS (\<lambda>s. ResolvePayloadByKeyLocal (rq_stack R) k (rs_stack s)) (\<lambda>resolved.
      bindS (liftR resolved) (\<lambda>payload.
      (case payload of
         None \<Rightarrow> failS (ErrMsg ''payload is not stored locally'')
       | Some blockData \<Rightarrow>
           fail_ifS (blockData = []) (ErrMsg ''payload is not stored locally'')
           (case tokenValueStore (rq_stack R) of
              None \<Rightarrow> failS (ErrMsg ''token store unavailable'')
            | Some C \<Rightarrow>
                readS (\<lambda>s. (ss_RoutingTable (rs_stack s), ss_net (rs_stack s))) (\<lambda>(rt, net).
                bindS (VerifyKeyStateWithRepVector k rt (Some (C, net)) (sk_self (rq_stack R)) (Some (MeasureRTTAt R)) replicationFactor None) (\<lambda>v.
                bindS (modifyS (dropProviders k (vf_UnreachableProviders v))) (\<lambda>_.
                bindS (if vf_UnreachableProviders v = [] then retS ()
                       else ignoreS (onStack (onTokens (PruneTokenLocations C k (vf_UnreachableProviders v))))) (\<lambda>_.
                if vf_IsSynchronized v \<or> \<not> isRepairCoordinator R v then retS (v, None)
                else bindS (TriggerRepair R k v blockData) (\<lambda>res. retS (v, Some res)))))))))))"

definition auditLocalReplicas :: "('c, 'd, 'b, 'n) repair_cfg \<Rightarrow> int \<Rightarrow> ('c, 'd, 'b, 'n) repair_state \<Rightarrow> ('c, 'd, 'b, 'n) repair_state" where
  "auditLocalReplicas R replicationFactor s =
     (case ss_RoutingTable (rs_stack s) of
        None \<Rightarrow> s
      | Some rt \<Rightarrow> fold (\<lambda>e t. if IsZero (re_Key e) then t else snd (AuditAndRepair R (re_Key e) replicationFactor t)) (RT_Snapshot rt) s)"

subsection \<open>Replicating a new block\<close>

definition peersForReplication :: "string \<Rightarrow> (string \<times> bool) list \<Rightarrow> (string \<times> string list) list \<Rightarrow> nat \<Rightarrow> string list" where
  "peersForReplication self network peerstore limit =
     (let add = (\<lambda>p out. if p = self \<or> p \<in> set out \<or> (limit > 0 \<and> length out \<ge> limit) then out else out @ [p]);
          out = fold add (map fst (filter snd network)) [] in
      fold add (map fst (filter (\<lambda>(p, addrs). addrs \<noteq> []) peerstore)) out)"

fun measurePeers :: "('c, 'd, 'b, 'n) repair_cfg \<Rightarrow> string list \<Rightarrow> ('c, 'd, 'b, 'n) repair_state \<Rightarrow> PeerCandidate list \<times> ('c, 'd, 'b, 'n) repair_state" where
  "measurePeers R [] s = ([], s)"
| "measurePeers R (p # ps) s =
     (case MeasureRTT R p s of
        (m, t) \<Rightarrow>
          (let (rtt, category) = (case m of Inr rtt \<Rightarrow> (rtt, ClassifyDistanceByRTT rtt None) | Inl _ \<Rightarrow> (0, DistanceUnknown));
               (cs, u) = measurePeers R ps t in
           (\<lparr>pc_PeerID = p, pc_RTT = rtt, pc_DistanceCategory = category, pc_CommittedStake = 0, pc_StorageAvailability = 0,
             pc_ReputationScore = 0\<rparr> # cs, u)))"

definition rankReplicationCandidates ::
    "('c, 'd, 'b, 'n) repair_cfg \<Rightarrow> string list \<Rightarrow> int \<Rightarrow> ('c, 'd, 'b, 'n) repair_state \<Rightarrow> PeerCandidate list \<times> ('c, 'd, 'b, 'n) repair_state" where
  "rankReplicationCandidates R peers replicas s =
     (if peers = [] \<or> replicas \<le> 0 then ([], s)
      else
        let (measured, t) = measurePeers R peers s;
            ranked = sortSlice (\<lambda>a b.
              if pc_DistanceCategory a \<noteq> pc_DistanceCategory b then categoryOrd (pc_DistanceCategory a) < categoryOrd (pc_DistanceCategory b)
              else if pc_RTT a \<noteq> pc_RTT b then pc_RTT a < pc_RTT b
              else pidText R (pc_PeerID a) < pidText R (pc_PeerID b)) measured;
            (near, mid, far) = ReplicationTargets DefaultReplicationVector (replicas + 1);
            near = (if near > 0 then near - 1 else near);
            select = (\<lambda>(d, n) ordered. fold (\<lambda>c ordered. if pc_PeerID c \<in> pc_PeerID ` set ordered then ordered else ordered @ [c])
                        (SelectReplicaCandidates (pidText R) ranked d (rq_criteria R) n) ordered);
            ordered = fold select [(DistanceNear, near), (DistanceMidrange, mid), (DistanceFarFlung, far)] [] in
        (ordered @ filter (\<lambda>c. pc_PeerID c \<notin> pc_PeerID ` set ordered) ranked, t))"

definition sharesToken :: "('c, 'd, 'b, 'n) repair_cfg \<Rightarrow> PeerCandidate \<Rightarrow> (PeerCandidate \<times> string) option" where
  "sharesToken R c = map_option (Pair c) (peerAddress R (rq_PeerAddrs R (pc_PeerID c)))"

fun publishSingly ::
    "'n token_cfg \<Rightarrow> content_key \<Rightarrow> (PeerCandidate \<times> string) list \<Rightarrow> ('c, 'd, 'b, 'n) stack_state \<Rightarrow> PeerCandidate list \<times> ('c, 'd, 'b, 'n) stack_state" where
  "publishSingly C k [] s = ([], s)"
| "publishSingly C k ((c, a) # cs) s =
     (case onTokens (SyncTokenOnReplication C k (pc_PeerID c) (Some a)) s of
        (r, t) \<Rightarrow> (case publishSingly C k cs t of (ps, u) \<Rightarrow> (if is_ok r then c # ps else ps, u)))"

definition publishReplicaBatch ::
    "('c, 'd, 'b, 'n) repair_cfg \<Rightarrow> content_key \<Rightarrow> PeerCandidate list \<Rightarrow> ('c, 'd, 'b, 'n) stack_state \<Rightarrow> PeerCandidate list \<times> ('c, 'd, 'b, 'n) stack_state" where
  "publishReplicaBatch R k transferred s =
     (if transferred = [] then ([], s)
      else case tokenValueStore (rq_stack R) of
        None \<Rightarrow> (transferred, s)
      | Some C \<Rightarrow>
          (let located = List.map_filter (sharesToken R) transferred in
           case peerAddress R (sk_Addrs (rq_stack R)) of
             None \<Rightarrow> ([], s)
           | Some localAddr \<Rightarrow>
               if located = [] then ([], s)
               else
                 (let source = (sk_self (rq_stack R), Some localAddr, 0) in
                  case onTokens (SyncTokenOnReplications C k (source # map (\<lambda>(c, a). (pc_PeerID c, Some a, 0)) located)) s of
                    (Inr _, t) \<Rightarrow> (map fst located, t)
                  | (Inl _, t) \<Rightarrow>
                      (case onTokens (SyncTokenOnReplications C k [source]) t of
                         (Inl _, u) \<Rightarrow> ([], u)
                       | (Inr _, u) \<Rightarrow> publishSingly C k located u))))"

fun transferBatch ::
    "('c, 'd, 'b, 'n) repair_cfg \<Rightarrow> 'c option \<Rightarrow> bytes \<Rightarrow> PeerCandidate list \<Rightarrow> ('c, 'd, 'b, 'n) repair_state
     \<Rightarrow> PeerCandidate list \<times> ('c, 'd, 'b, 'n) repair_state" where
  "transferBatch R c blockData [] s = ([], s)"
| "transferBatch R c blockData (cand # cs) s =
     (case replicateToPeerWithToken R c (pc_PeerID cand) blockData False s of
        (r, t) \<Rightarrow> (case transferBatch R c blockData cs t of (ts, u) \<Rightarrow> (if is_ok r then cand # ts else ts, u)))"

text \<open>The batches of \<open>ReplicateToNPeers\<close>; every batch takes candidates off the list.\<close>

function replicateBatches ::
    "('c, 'd, 'b, 'n) repair_cfg \<Rightarrow> content_key \<Rightarrow> 'c option \<Rightarrow> bytes \<Rightarrow> nat \<Rightarrow> nat \<Rightarrow> PeerCandidate list \<Rightarrow> ('c, 'd, 'b, 'n) repair_state
     \<Rightarrow> nat \<times> ('c, 'd, 'b, 'n) repair_state" where
  "replicateBatches R k c blockData n replicated candidates s =
     (if candidates = [] \<or> replicated \<ge> n then (replicated, s)
      else
        let batchSize = min (n - replicated) (length candidates);
            (transferred, t) = transferBatch R c blockData (take batchSize candidates) s;
            (published, st) = publishReplicaBatch R k transferred (rs_stack t);
            u = fold (addReplica k) published (t\<lparr>rs_stack := st\<rparr>) in
        replicateBatches R k c blockData n (replicated + length published) (drop batchSize candidates) u)"
  by pat_completeness auto
termination by (relation "measure (\<lambda>(R, k, c, d, n, r, cs, s). length cs)") auto

declare replicateBatches.simps [simp del]

text \<open>The peers to send to are those found by the last of the attempts of the code to find some.\<close>

definition ReplicateToNPeers ::
    "('c, 'd, 'b, 'n) repair_cfg \<Rightarrow> content_key \<Rightarrow> 'c option \<Rightarrow> bytes \<Rightarrow> int \<Rightarrow> string list \<Rightarrow> ('c, 'd, 'b, 'n) repair_state
     \<Rightarrow> nat \<times> ('c, 'd, 'b, 'n) repair_state" where
  "ReplicateToNPeers R k c blockData n peers s =
     (if n \<le> 0 \<or> blockData = [] then (0, s)
      else case onStack (PublishSignedProviderClaim (rq_stack R) k) s of
        (Inl _, t) \<Rightarrow> (0, t)
      | (Inr _, t) \<Rightarrow>
          (case rankReplicationCandidates R peers n t of
             (candidates, u) \<Rightarrow> replicateBatches R k c blockData (nat n) 0 candidates u))"

end
