(* ===== verification/Storage_Lock_Props.thy ===== *)
theory Storage_Lock_Props
  imports Storage_Lock Tuple_Durable_Witness
begin

text \<open>
  Locks on content keys. When operations on the store do not interleave, two different holders are never granted a key for times that
  overlap, along every history of acquisitions, extensions, releases and waits. \<open>AcquireLock\<close> reads and then writes, with nothing
  that ties the two together, so two callers that read before either writes both succeed; and a read that fails counts as no lock.
  The retry loop ends, at most one backoff after its deadline.
\<close>

subsection \<open>The codec\<close>

definition lockCodec :: "'n keyLockManager \<Rightarrow> bool" where
  "lockCodec m \<longleftrightarrow> (\<forall>j d. km_Marshal m j = Inr d \<longrightarrow> d \<noteq> [] \<and> km_Unmarshal m d = Inr j)
     \<and> (\<forall>p. km_pidDecode m (km_pidString m p) = Inr p)"

lemma Lock_roundtrip:
  assumes "lockCodec m" "KeyLock_Marshal m l = Inr d" "length (kl_Key l) = 32"
  shows "d \<noteq> [] \<and> KeyLock_Unmarshal m d = Inr l"
proof -
  have "d \<noteq> []" "km_Unmarshal m d = Inr \<lparr>kj_Key = Key_String (kl_Key l), kj_LockHolder = km_pidString m (kl_LockHolder l),
     kj_AcquiredAt = kl_AcquiredAt l, kj_ExpiresAt = kl_ExpiresAt l, kj_Version = kl_Version l\<rparr>"
    using assms(1,2) by (auto simp: lockCodec_def KeyLock_Marshal_def)
  then show ?thesis using assms(1,3) by (simp add: KeyLock_Unmarshal_def ParseKey_String lockCodec_def)
qed

lemma onStore_inv: "onStore f s = (r, t) \<longleftrightarrow> (\<exists>n. f (du_net s) = (r, n) \<and> t = s\<lparr>du_net := n\<rparr>)"
  by (auto simp: onStore_def split: prod.splits)

lemma putLock_Inr:
  assumes "reliableStore (km_store m)" "lockCodec m" "length (kl_Key l) = 32" "putLock m l s = (Inr (), t)"
  shows "du_now t = du_now s \<and> getLock m (kl_Key l) (du_net t) = Inr (Some l)"
proof -
  from assms(4) obtain d n where d: "KeyLock_Marshal m l = Inr d" and z: "\<not> IsZero (kl_Key l)"
    and n: "vs_PutValue (km_store m) (lockDHTKey (kl_Key l)) d (du_net s) = (Inr (), n)" "t = s\<lparr>du_net := n\<rparr>"
    by (auto simp: putLock_def op_inv result_inv onStore_inv)
  from assms(1) n(1) have "vs_GetValue (km_store m) n (lockDHTKey (kl_Key l)) = Inr d" by (fastforce simp: reliableStore_def)
  with Lock_roundtrip [OF assms(2) d assms(3)] z n(2) show ?thesis by (simp add: getLock_def)
qed

lemma putLock_Inl:
  assumes "reliableStore (km_store m)" "putLock m l s = (Inl e, t)"
  shows "du_now t = du_now s \<and> vs_GetValue (km_store m) (du_net t) = vs_GetValue (km_store m) (du_net s)"
  using assms unfolding putLock_def fail_ifS_def reliableStore_def
  by (auto simp: bindS_Inl liftR_inv failS_inv onStore_inv split: if_splits) fastforce+

lemma getLock_cong: "vs_GetValue (km_store m) n = vs_GetValue (km_store m) n' \<Longrightarrow> getLock m k n = getLock m k n'"
  by (simp add: getLock_def)

subsection \<open>Histories of grants\<close>

text \<open>A grant: the holder, and from when until when it has the key. A success of a holder ends its earlier grants.\<close>

type_synonym grant = "string \<times> int \<times> int"

definition endGrants :: "string \<Rightarrow> int \<Rightarrow> grant list \<Rightarrow> grant list" where
  "endGrants h now g = map (\<lambda>(h', since, until). (h', since, if h' = h then min until now else until)) g"

inductive lock_step :: "'n keyLockManager \<Rightarrow> content_key \<Rightarrow> 'n clocked \<times> grant list \<Rightarrow> 'n clocked \<times> grant list \<Rightarrow> bool"
  for m k where
  acquired: "AcquireLock m k h ttl s = (Inr (), t) \<Longrightarrow>
     lock_step m k (s, g) (t, (h, du_now s, du_now s + lockTTL m ttl) # endGrants h (du_now s) g)"
| refused: "AcquireLock m k h ttl s = (Inl e, t) \<Longrightarrow> lock_step m k (s, g) (t, g)"
| extended: "ExtendLock m k h ttl s = (Inr (), t) \<Longrightarrow>
     lock_step m k (s, g) (t, (h, du_now s, du_now s + lockTTL m ttl) # endGrants h (du_now s) g)"
| not_extended: "ExtendLock m k h ttl s = (Inl e, t) \<Longrightarrow> lock_step m k (s, g) (t, g)"
| released: "ReleaseLock m k h s = (Inr (), t) \<Longrightarrow> lock_step m k (s, g) (t, endGrants h (du_now s) g)"
| not_released: "ReleaseLock m k h s = (Inl e, t) \<Longrightarrow> lock_step m k (s, g) (t, g)"
| wait: "0 \<le> d \<Longrightarrow> lock_step m k (s, g) (s\<lparr>du_now := du_now s + d\<rparr>, g)"

inductive_cases lock_stepE: "lock_step m k p q"

inductive lock_history :: "'n keyLockManager \<Rightarrow> content_key \<Rightarrow> 'n clocked \<times> grant list \<Rightarrow> bool" for m k where
  start: "lock_history m k (s, [])"
| step: "lock_history m k p \<Longrightarrow> lock_step m k p q \<Longrightarrow> lock_history m k q"

text \<open>A grant that has not ended is the stored lock; grants of different holders do not overlap.\<close>

definition grantsInv :: "'n keyLockManager \<Rightarrow> content_key \<Rightarrow> 'n clocked \<times> grant list \<Rightarrow> bool" where
  "grantsInv m k p \<longleftrightarrow> (case p of (s, g) \<Rightarrow>
     (\<forall>(h, since, until)\<in>set g. since \<le> du_now s
        \<and> (until > du_now s \<longrightarrow> (\<exists>l. getLock m k (du_net s) = Inr (Some l) \<and> kl_LockHolder l = h \<and> until \<le> kl_ExpiresAt l)))
     \<and> (\<forall>(h, since, until)\<in>set g. \<forall>(h', since', until')\<in>set g. h \<noteq> h' \<longrightarrow> until \<le> since' \<or> until' \<le> since))"

lemma grantsInv_live:
  "grantsInv m k (s, g) \<Longrightarrow> (h, since, until) \<in> set g \<Longrightarrow> until > du_now s \<Longrightarrow>
     \<exists>l. getLock m k (du_net s) = Inr (Some l) \<and> kl_LockHolder l = h \<and> until \<le> kl_ExpiresAt l"
  unfolding grantsInv_def by fastforce

lemma grantsInv_from: "grantsInv m k (s, g) \<Longrightarrow> (h, since, until) \<in> set g \<Longrightarrow> since \<le> du_now s"
  unfolding grantsInv_def by fastforce

lemma grantsInv_apart:
  "grantsInv m k (s, g) \<Longrightarrow> (h, since, until) \<in> set g \<Longrightarrow> (h', since', until') \<in> set g \<Longrightarrow> h \<noteq> h' \<Longrightarrow> until \<le> since' \<or> until' \<le> since"
  unfolding grantsInv_def by fastforce

lemma grantsInv_same:
  assumes "grantsInv m k (s, g)" "getLock m k (du_net t) = getLock m k (du_net s)" "du_now s \<le> du_now t"
  shows "grantsInv m k (t, g)"
  using assms unfolding grantsInv_def by fastforce

lemma endGrants_mem:
  "(h', since, until) \<in> set (endGrants h now g) \<longleftrightarrow> (\<exists>u. (h', since, u) \<in> set g \<and> until = (if h' = h then min u now else u))"
  unfolding endGrants_def by force

text \<open>After a holder's success at \<open>now\<close>, when no grant of another is alive.\<close>

lemma grantsInv_end:
  assumes inv: "grantsInv m k (s, g)" and others: "\<And>h' since u. (h', since, u) \<in> set g \<Longrightarrow> h' \<noteq> h \<Longrightarrow> u \<le> du_now s" and now: "du_now t = du_now s"
  shows "grantsInv m k (t, endGrants h (du_now s) g)"
proof -
  have ended: "u \<le> du_now s" if "(h', since, u) \<in> set (endGrants h (du_now s) g)" for h' since u
    using that others by (auto simp: endGrants_mem split: if_splits)
  have begun: "since \<le> du_now s" if "(h', since, u) \<in> set (endGrants h (du_now s) g)" for h' since u
    using that grantsInv_from [OF inv] by (auto simp: endGrants_mem)
  have apart: "u \<le> f' \<or> u' \<le> f" if "(h1, f, u) \<in> set (endGrants h (du_now s) g)" "(h2, f', u') \<in> set (endGrants h (du_now s) g)" "h1 \<noteq> h2"
    for h1 f u h2 f' u'
    using that grantsInv_apart [OF inv] by (fastforce simp: endGrants_mem split: if_splits)
  show ?thesis unfolding grantsInv_def using ended begun apart now by fastforce
qed

lemma grantsInv_grant:
  assumes inv: "grantsInv m k (s, g)" and others: "\<And>h' since u. (h', since, u) \<in> set g \<Longrightarrow> h' \<noteq> h \<Longrightarrow> u \<le> du_now s" and now: "du_now t = du_now s"
    and got: "getLock m k (du_net t) = Inr (Some l)" "kl_LockHolder l = h" "kl_ExpiresAt l = until"
  shows "grantsInv m k (t, (h, du_now s, until) # endGrants h (du_now s) g)"
proof -
  have ended: "u \<le> du_now s" if "(h', since, u) \<in> set (endGrants h (du_now s) g)" for h' since u
    using that others by (auto simp: endGrants_mem split: if_splits)
  note grantsInv_end [OF inv others now]
  then show ?thesis unfolding grantsInv_def using ended got now by fastforce
qed

lemma others_ended:
  assumes "grantsInv m k (s, g)" "(h', since, u) \<in> set g" "h' \<noteq> h"
    and "\<And>l. getLock m k (du_net s) = Inr (Some l) \<Longrightarrow> kl_ExpiresAt l > du_now s \<Longrightarrow> kl_LockHolder l = h"
  shows "u \<le> du_now s"
  using grantsInv_live [OF assms(1,2)] assms(3,4) by force

lemma acquireRead_Inr:
  assumes "acquireRead m k h ttl s = Inr l"
  obtains existing where "getLock m k (du_net s) = Inr existing"
    "\<And>l'. existing = Some l' \<Longrightarrow> kl_ExpiresAt l' > du_now s \<Longrightarrow> kl_LockHolder l' = h"
    "kl_Key l = k" "kl_LockHolder l = h" "kl_ExpiresAt l = du_now s + lockTTL m ttl"
proof -
  from assms obtain existing where g: "getLock m k (du_net s) = Inr existing"
    unfolding acquireRead_def result_inv by blast
  with assms show thesis
    by (cases existing) (auto simp: acquireRead_def Let_def fail_if_def split: if_splits intro: that)
qed

lemma AcquireLock_Inr:
  assumes "reliableStore (km_store m)" "lockCodec m" "length k = 32" "AcquireLock m k h ttl s = (Inr (), t)"
  shows "(\<forall>l. getLock m k (du_net s) = Inr (Some l) \<longrightarrow> kl_ExpiresAt l > du_now s \<longrightarrow> kl_LockHolder l = h)
    \<and> du_now t = du_now s
    \<and> (\<exists>l. getLock m k (du_net t) = Inr (Some l) \<and> kl_LockHolder l = h \<and> kl_ExpiresAt l = du_now s + lockTTL m ttl)"
proof -
  from assms(4) obtain l where l: "acquireRead m k h ttl s = Inr l" "putLock m l s = (Inr (), t)"
    by (auto simp: AcquireLock_def op_inv)
  from acquireRead_Inr [OF l(1)] have "kl_Key l = k" "kl_LockHolder l = h" "kl_ExpiresAt l = du_now s + lockTTL m ttl"
    "\<forall>l. getLock m k (du_net s) = Inr (Some l) \<longrightarrow> kl_ExpiresAt l > du_now s \<longrightarrow> kl_LockHolder l = h"
    by (metis, metis, metis, metis sum.inject(2))
  moreover from this(1) putLock_Inr [OF assms(1,2) _ l(2)] assms(3)
  have "du_now t = du_now s" "getLock m k (du_net t) = Inr (Some l)" by simp_all
  ultimately show ?thesis by blast
qed

lemma AcquireLock_Inl:
  "reliableStore (km_store m) \<Longrightarrow> AcquireLock m k h ttl s = (Inl e, t) \<Longrightarrow>
     du_now t = du_now s \<and> vs_GetValue (km_store m) (du_net t) = vs_GetValue (km_store m) (du_net s)"
  by (auto simp: AcquireLock_def readS_inv bindS_Inl liftR_inv dest: putLock_Inl)

lemma ExtendLock_Inr:
  assumes "reliableStore (km_store m)" "lockCodec m" "length k = 32" "ExtendLock m k h ttl s = (Inr (), t)"
  shows "(\<forall>l. getLock m k (du_net s) = Inr (Some l) \<longrightarrow> kl_LockHolder l = h) \<and> du_now t = du_now s
    \<and> (\<exists>l. getLock m k (du_net t) = Inr (Some l) \<and> kl_LockHolder l = h \<and> kl_ExpiresAt l = du_now s + lockTTL m ttl)"
proof -
  from assms(4) obtain l where l: "getLock m k (du_net s) = Inr (Some l)" "kl_LockHolder l = h"
    and p: "putLock m \<lparr>kl_Key = k, kl_LockHolder = h, kl_AcquiredAt = kl_AcquiredAt l,
               kl_ExpiresAt = du_now s + lockTTL m ttl, kl_Version = kl_Version l + 1\<rparr> s = (Inr (), t)"
    by (auto simp: ExtendLock_def op_inv split: option.splits)
  from putLock_Inr [OF assms(1,2) _ p] assms(3) l show ?thesis by auto
qed


lemma ExtendLock_Inl:
  "reliableStore (km_store m) \<Longrightarrow> ExtendLock m k h ttl s = (Inl e, t) \<Longrightarrow>
     du_now t = du_now s \<and> vs_GetValue (km_store m) (du_net t) = vs_GetValue (km_store m) (du_net s)"
  by (auto simp: ExtendLock_def readS_inv bindS_Inl liftR_inv fail_ifS_def failS_inv dest: putLock_Inl split: if_splits option.splits)

lemma ReleaseLock_Inr:
  assumes "reliableStore (km_store m)" "ReleaseLock m k h s = (Inr (), t)"
  shows "du_now t = du_now s
    \<and> (t = s \<and> (\<forall>l. getLock m k (du_net s) = Inr (Some l) \<longrightarrow> kl_ExpiresAt l < du_now s)
       \<or> (\<exists>l. getLock m k (du_net s) = Inr (Some l) \<and> kl_LockHolder l = h))"
  using assms by (auto simp: ReleaseLock_def op_inv onStore_inv split: option.splits if_splits)

lemma ReleaseLock_Inl:
  assumes "reliableStore (km_store m)" "ReleaseLock m k h s = (Inl e, t)"
  shows "du_now t = du_now s \<and> vs_GetValue (km_store m) (du_net t) = vs_GetValue (km_store m) (du_net s)"
proof -
  have put: "vs_GetValue (km_store m) n = vs_GetValue (km_store m) (du_net s)"
    if "vs_PutValue (km_store m) (lockDHTKey k) [] (du_net s) = (Inl e, n)" for n
    using assms(1) that by (fastforce simp: reliableStore_def)
  from assms(2) show ?thesis
    by (auto simp: ReleaseLock_def readS_inv bindS_Inl liftR_inv fail_ifS_def failS_inv retS_inv onStore_inv put
        split: if_splits option.splits)
qed

lemma lock_step_inv:
  assumes "reliableStore (km_store m)" "lockCodec m" "length k = 32" "lock_step m k p q" "grantsInv m k p"
  shows "grantsInv m k q"
  using assms(4,5)
proof (induction rule: lock_step.induct)
  case (acquired h ttl s t g)
  from AcquireLock_Inr [OF assms(1-3) acquired(1)] obtain l where
    "\<forall>l. getLock m k (du_net s) = Inr (Some l) \<longrightarrow> kl_ExpiresAt l > du_now s \<longrightarrow> kl_LockHolder l = h" "du_now t = du_now s"
    "getLock m k (du_net t) = Inr (Some l)" "kl_LockHolder l = h" "kl_ExpiresAt l = du_now s + lockTTL m ttl" by blast
  with others_ended [OF acquired(2)] show ?case by (intro grantsInv_grant [OF acquired(2)]) blast+
next
  case (extended h ttl s t g)
  from ExtendLock_Inr [OF assms(1-3) extended(1)] obtain l where
    "\<forall>l. getLock m k (du_net s) = Inr (Some l) \<longrightarrow> kl_LockHolder l = h" "du_now t = du_now s"
    "getLock m k (du_net t) = Inr (Some l)" "kl_LockHolder l = h" "kl_ExpiresAt l = du_now s + lockTTL m ttl" by blast
  with others_ended [OF extended(2)] show ?case by (intro grantsInv_grant [OF extended(2)]) blast+
next
  case (released h s t g)
  from ReleaseLock_Inr [OF assms(1) released(1)]
  have "kl_LockHolder l = h" if "getLock m k (du_net s) = Inr (Some l)" "kl_ExpiresAt l > du_now s" for l using that by fastforce
  with others_ended [OF released(2)] ReleaseLock_Inr [OF assms(1) released(1)] show ?case by (intro grantsInv_end [OF released(2)]) blast+
qed (auto intro: grantsInv_same getLock_cong dest!: AcquireLock_Inl [OF assms(1)] ExtendLock_Inl [OF assms(1)] ReleaseLock_Inl [OF assms(1)])

lemma lock_history_inv:
  assumes "reliableStore (km_store m)" "lockCodec m" "length k = 32" "lock_history m k p"
  shows "grantsInv m k p"
  using assms(4)
proof induction
  case (start s)
  show ?case by (simp add: grantsInv_def)
next
  case (step p q)
  then show ?case using lock_step_inv [OF assms(1-3)] by blast
qed

text \<open>C37. Along every history of acquisitions, extensions, releases and waits in which each operation finishes before the next begins,
  over a store that keeps what is put into it, no two holders have a key granted for overlapping times.\<close>

theorem lock_grants_disjoint:
  assumes "reliableStore (km_store m)" "lockCodec m" "length k = 32" "lock_history m k (s, g)"
    and "(h, since, until) \<in> set g" "(h', since', until') \<in> set g" "h \<noteq> h'"
  shows "until \<le> since' \<or> until' \<le> since"
  using grantsInv_apart [OF lock_history_inv [OF assms(1-4)] assms(5-7)] .


subsection \<open>Interleaved acquisitions\<close>

lemma acquireRead_free:
  assumes "getLock m k (du_net s) = Inr None"
  shows "acquireRead m k h ttl s = Inr \<lparr>kl_Key = k, kl_LockHolder = h, kl_AcquiredAt = du_now s,
    kl_ExpiresAt = du_now s + lockTTL m ttl, kl_Version = 0\<rparr>"
proof -
  have "\<not> IsZero k" using assms by (auto simp: getLock_def fail_if_def split: if_splits)
  then show ?thesis using assms by (simp add: acquireRead_def Let_def)
qed

lemma lockTTL_pos: "lockTTL m ttl > 0"
  by (simp add: lockTTL_def DefaultLockTTL_def)

text \<open>A read that fails counts as no lock, whoever holds the key.\<close>

lemma read_error_is_free:
  "\<not> IsZero k \<Longrightarrow> vs_GetValue (km_store m) (du_net s) (lockDHTKey k) = Inl e \<Longrightarrow> \<exists>l. acquireRead m k h ttl s = Inr l"
  by (simp add: acquireRead_free getLock_def)

text \<open>The read and the write of \<open>AcquireLock\<close> are not one step. Two callers that read a free key before either has written both
  succeed, although the second would be refused after the write of the first, and the lock of the first is overwritten.\<close>

theorem lock_race:
  assumes "reliableStore (km_store m)" "lockCodec m" "length k = 32" "getLock m k (du_net s) = Inr None" "a \<noteq> b"
    and "acquireRead m k a ttl s = Inr la" "acquireRead m k b ttl s = Inr lb"
    and "putLock m la s = (Inr (), t)" "putLock m lb t = (Inr (), u)"
  shows "AcquireLock m k a ttl s = (Inr (), t) \<and> (\<exists>e. acquireRead m k b ttl t = Inl e) \<and> IsLocked m k u = (True, b)"
proof -
  have la: "kl_Key la = k" "kl_LockHolder la = a" "kl_ExpiresAt la = du_now s + lockTTL m ttl"
    and lb: "kl_Key lb = k" "kl_LockHolder lb = b" "kl_ExpiresAt lb = du_now s + lockTTL m ttl"
    using assms(6,7) by (auto simp: acquireRead_free [OF assms(4)])
  have t: "du_now t = du_now s" "getLock m k (du_net t) = Inr (Some la)"
    using putLock_Inr [OF assms(1,2) _ assms(8)] la assms(3) by auto
  have u: "du_now u = du_now t" "getLock m k (du_net u) = Inr (Some lb)"
    using putLock_Inr [OF assms(1,2) _ assms(9)] lb assms(3) by auto
  have "AcquireLock m k a ttl s = (Inr (), t)" by (simp add: AcquireLock_def readS_def assms(6,8))
  moreover have "\<exists>e. acquireRead m k b ttl t = Inl e"
    using t la assms(5) lockTTL_pos [of m ttl] by (auto simp: acquireRead_def fail_if_def)
  moreover have "IsLocked m k u = (True, b)"
    using u t lb lockTTL_pos [of m ttl] by (auto simp: IsLocked_def)
  ultimately show ?thesis by blast
qed

subsection \<open>Retries end\<close>

lemma putLock_now: "putLock m l s = (r, t) \<Longrightarrow> du_now t = du_now s"
  by (auto simp: putLock_def fail_ifS_def failS_inv bindS_def liftR_def onStore_inv split: if_splits sum.splits)

lemma AcquireLock_now: "AcquireLock m k h ttl s = (r, t) \<Longrightarrow> du_now t = du_now s"
  unfolding AcquireLock_def readS_inv by (cases "acquireRead m k h ttl s") (auto dest: putLock_now)

lemma acquireLoop_ends:
  assumes "0 < backoff" "backoff \<le> B" "0 < maxB" "maxB \<le> B"
  shows "\<exists>r t. acquireLoop m c k h ttl deadline maxB backoff s = Some (r, t) \<and> du_now t \<le> max (du_now s) (deadline + B)"
  using assms(1,2)
proof (induction "nat (deadline + 1 - du_now s)" arbitrary: s backoff rule: less_induct)
  case less
  obtain r t where a: "AcquireLock m k h ttl s = (r, t)" by (cases "AcquireLock m k h ttl s")
  then have now: "du_now t = du_now s" by (rule AcquireLock_now)
  let ?u = "passTime c backoff t" and ?b = "if backoff * 2 > maxB then maxB else backoff * 2"
  show ?case
  proof (cases "\<exists>e. r = Inl e \<and> errors_Is e ErrLockHeldByAnother \<and> du_now t \<le> deadline \<and> \<not> lc_cancelled c (du_now ?u)")
    case True
    have u: "du_now ?u = du_now s + backoff" by (simp add: passTime_def now)
    then have "nat (deadline + 1 - du_now ?u) < nat (deadline + 1 - du_now s)" using True now less.prems by auto
    moreover have "0 < ?b" "?b \<le> B" using less.prems assms(3,4) by auto
    ultimately obtain r' t' where "acquireLoop m c k h ttl deadline maxB ?b ?u = Some (r', t')" "du_now t' \<le> max (du_now ?u) (deadline + B)"
      using less.hyps by blast
    with True a u now less.prems show ?thesis by (subst acquireLoop.simps) auto
  next
    case False
    with a now show ?thesis
      by (subst acquireLoop.simps) (use less.prems in \<open>auto simp: passTime_def Let_def split: sum.splits\<close>)
  qed
qed

text \<open>C38. Acquisition with retries ends, whatever the store answers and the other nodes do: at the latest one backoff after the
  timeout.\<close>

theorem lock_retry_ends:
  "\<exists>r t. AcquireLockWithRetry m c k h ttl cfg s = Some (r, t)
     \<and> du_now t \<le> du_now s + positiveOr (case cfg of None \<Rightarrow> 0 | Some cf \<Rightarrow> lr_Timeout cf) DefaultLockRetryTimeout
         + max (positiveOr (case cfg of None \<Rightarrow> 0 | Some cf \<Rightarrow> lr_InitialBackoff cf) DefaultLockRetryInitialBackoff)
               (positiveOr (case cfg of None \<Rightarrow> 0 | Some cf \<Rightarrow> lr_MaxBackoff cf) DefaultLockRetryMaxBackoff)"
proof -
  define cf where "cf = (case cfg of None \<Rightarrow> \<lparr>lr_InitialBackoff = 0, lr_MaxBackoff = 0, lr_Timeout = 0\<rparr> | Some cf \<Rightarrow> cf)"
  define i where "i = positiveOr (lr_InitialBackoff cf) DefaultLockRetryInitialBackoff"
  define b where "b = positiveOr (lr_MaxBackoff cf) DefaultLockRetryMaxBackoff"
  define d0 where "d0 = du_now s + positiveOr (lr_Timeout cf) DefaultLockRetryTimeout"
  define d where "d = (case lc_Deadline c of None \<Rightarrow> d0 | Some d \<Rightarrow> if d < d0 then d else d0)"
  have pos: "0 < i" "0 < b" "du_now s < d0" "d \<le> d0"
    by (auto simp: i_def b_def d0_def d_def positiveOr_def DefaultLockRetryInitialBackoff_def DefaultLockRetryMaxBackoff_def
        DefaultLockRetryTimeout_def split: option.splits)
  from acquireLoop_ends [of i "max i b" b m c k h ttl d s] pos
  obtain r t where "acquireLoop m c k h ttl d b i s = Some (r, t)" "du_now t \<le> max (du_now s) (d + max i b)" by auto
  moreover from this(2) pos have "du_now t \<le> d0 + max i b" by linarith
  moreover have "AcquireLockWithRetry m c k h ttl cfg s = acquireLoop m c k h ttl d b i s"
    unfolding AcquireLockWithRetry_def Let_def d_def d0_def i_def b_def cf_def by (rule refl)
  ultimately show ?thesis
    by (intro exI [of _ r] exI [of _ t]) (auto simp: cf_def i_def b_def d0_def split: option.splits)
qed

subsection \<open>Concrete runs\<close>

text \<open>The theorems on locks at a concrete manager over an association list, with a codec for a table of records.\<close>

definition exKey :: content_key where "exKey = replicate 32 (CHR ''k'')"

definition exLockJSON :: "string \<Rightarrow> int \<Rightarrow> int \<Rightarrow> int \<Rightarrow> keyLockJSON" where
  "exLockJSON h now ttl version = \<lparr>kj_Key = Key_String exKey, kj_LockHolder = h, kj_AcquiredAt = now, kj_ExpiresAt = now + ttl, kj_Version = version\<rparr>"

definition exLockTable :: "keyLockJSON list" where
  "exLockTable = [exLockJSON ''a'' 0 10 0, exLockJSON ''b'' 0 10 0, exLockJSON ''b'' 20 10 1]"

definition exLocks :: "(string \<times> bytes) list keyLockManager" where
  "exLocks = \<lparr>km_store = mapStore, km_DefaultTTL = 10, km_pidString = (\<lambda>p. p), km_pidDecode = Inr,
     km_Marshal = tableMarshal exLockTable, km_Unmarshal = tableUnmarshal exLockTable\<rparr>"

lemma exLocks_reliable: "reliableStore (km_store exLocks)"
  by (auto simp: reliableStore_def exLocks_def mapStore_def)

lemma exLocks_codec: "lockCodec exLocks"
proof -
  have "d \<noteq> [] \<and> tableUnmarshal exLockTable d = Inr j" if "tableMarshal exLockTable j = Inr d" for j d
    using that table_roundtrip [OF that] by (auto simp: tableMarshal_def exLockTable_def split: option.splits)
  then show ?thesis by (simp add: lockCodec_def exLocks_def)
qed

definition exFree :: "(string \<times> bytes) list clocked" where "exFree = \<lparr>du_now = 0, du_net = []\<rparr>"

definition exHeld :: "int \<Rightarrow> nat list \<Rightarrow> (string \<times> bytes) list clocked" where
  "exHeld now writes = \<lparr>du_now = now, du_net = map (\<lambda>i. (lockDHTKey exKey, [char_of i])) writes\<rparr>"

lemma exKey_length: "length exKey = 32"
  by (simp add: exKey_def)

lemma exKey_nonzero: "\<not> IsZero exKey"
  by code_simp

lemmas ex_eval = AcquireLock_def acquireRead_def getLock_def putLock_def readS_def onStore_def wrapR_def exKey_nonzero exKey_length exFree_def exHeld_def
  exLocks_def exLockTable_def exLockJSON_def mapStore_def tableMarshal_def tableUnmarshal_def KeyLock_Marshal_def KeyLock_Unmarshal_def
  ParseKey_String lockTTL_def Let_def upt_rec

lemma ex_acquireA: "AcquireLock exLocks exKey ''a'' 0 exFree = (Inr (), exHeld 0 [0])"
  by (simp add: ex_eval)

lemma ex_acquireB: "AcquireLock exLocks exKey ''b'' 0 (exHeld 20 [0]) = (Inr (), exHeld 20 [2, 0])"
  by (simp add: ex_eval)

lemma ex_history: "lock_history exLocks exKey (exHeld 20 [2, 0], [(''b'', 20, 30), (''a'', 0, 10)])"
proof -
  have ttl: "lockTTL exLocks 0 = 10" by (simp add: lockTTL_def exLocks_def)
  have "lock_history exLocks exKey (exFree, [])" by (rule lock_history.start)
  from lock_history.step [OF this lock_step.acquired [OF ex_acquireA, of "[]"]]
  have "lock_history exLocks exKey (exHeld 0 [0], [(''a'', 0, 10)])" by (simp add: ttl endGrants_def exFree_def)
  from lock_history.step [OF this lock_step.wait [of 20]]
  have "lock_history exLocks exKey (exHeld 20 [0], [(''a'', 0, 10)])" by (simp add: exHeld_def)
  from lock_history.step [OF this lock_step.acquired [OF ex_acquireB, of "[(''a'', 0, 10)]"]]
  show ?thesis by (simp add: ttl endGrants_def exHeld_def)
qed

theorem lock_grants_disjoint_witness:
  "lock_history exLocks exKey (exHeld 20 [2, 0], [(''b'', 20, 30), (''a'', 0, 10)]) \<and> ((30 :: int) \<le> 0 \<or> (10 :: int) \<le> 20)"
  using lock_grants_disjoint [OF exLocks_reliable exLocks_codec exKey_length ex_history, of "''b''" 20 30 "''a''" 0 10] ex_history
  by simp

lemma ex_free: "getLock exLocks exKey (du_net exFree) = Inr None"
  by (simp add: ex_eval)

lemma ex_planA:
  "putLock exLocks \<lparr>kl_Key = exKey, kl_LockHolder = ''a'', kl_AcquiredAt = 0, kl_ExpiresAt = 10, kl_Version = 0\<rparr> exFree = (Inr (), exHeld 0 [0])"
  by (simp add: ex_eval)

lemma ex_planB:
  "putLock exLocks \<lparr>kl_Key = exKey, kl_LockHolder = ''b'', kl_AcquiredAt = 0, kl_ExpiresAt = 10, kl_Version = 0\<rparr> (exHeld 0 [0]) = (Inr (), exHeld 0 [1, 0])"
  by (simp add: ex_eval)

lemma ex_read: "acquireRead exLocks exKey h 0 exFree = Inr \<lparr>kl_Key = exKey, kl_LockHolder = h, kl_AcquiredAt = 0, kl_ExpiresAt = 10, kl_Version = 0\<rparr>"
  using acquireRead_free [OF ex_free, of h 0] by (simp add: exFree_def lockTTL_def exLocks_def)

theorem lock_race_witness:
  "AcquireLock exLocks exKey ''a'' 0 exFree = (Inr (), exHeld 0 [0])
   \<and> (\<exists>e. acquireRead exLocks exKey ''b'' 0 (exHeld 0 [0]) = Inl e) \<and> IsLocked exLocks exKey (exHeld 0 [1, 0]) = (True, ''b'')"
  using lock_race [OF exLocks_reliable exLocks_codec exKey_length ex_free _ ex_read ex_read ex_planA ex_planB] by simp

end
