(* ===== verification/Storage_Stack_Props.thy ===== *)
theory Storage_Stack_Props
  imports Storage_Stack Storage_Lock_Props
begin

text \<open>
  A stored block is found under its key, by the node itself and by every node that fetches it, and a fetch returns only what hashes to the key.
\<close>

subsection \<open>The contract of the block store\<close>

definition blockStore :: "('c, 'd, 'b, 'n) stack_cfg \<Rightarrow> bool" where
  "blockStore K \<longleftrightarrow>
     (\<forall>c raw b r b'. sk_AddBlock K c raw b = (r, b') \<longrightarrow>
        (\<forall>c'. sk_GetBlock K b' c' = (if is_ok r \<and> c' = c then Inr raw else sk_GetBlock K b c')))"

definition cidCodec :: "('c, 'd, 'b, 'n) stack_cfg \<Rightarrow> bool" where
  "cidCodec K \<longleftrightarrow> (\<forall>c. sk_Decode K (sk_String K c) = Inr c)"

text \<open>The mapping from a key to its content identifier is written, and what has to fail for a put to go without it: the batch of the indexes
  and then the single write of the mapping.\<close>

definition mapped :: "('c, 'd, 'b, 'n) stack_cfg \<Rightarrow> content_key \<Rightarrow> 'c \<Rightarrow> ('c, 'd, 'b, 'n) stack_state \<Rightarrow> bool" where
  "mapped K k c s \<longleftrightarrow> ds_Get (sk_ds K) (ss_ds s) (keyToCIDNS @ Key_String k) = Inr (sk_String K c)"

definition mappingFails :: "('c, 'd, 'b, 'n) stack_cfg \<Rightarrow> content_key \<Rightarrow> 'c \<Rightarrow> bool" where
  "mappingFails K k c \<longleftrightarrow>
     (\<exists>d e d'. ds_Batch (sk_ds K) (putBlockIndexBatch K k c) d = (Inl e, d'))
     \<and> (\<exists>d e d'. ds_Put (sk_ds K) (keyToCIDNS @ Key_String k) (sk_String K c) d = (Inl e, d'))"

lemma mapped_found:
  assumes "cidCodec K" "\<not> IsZero k" "mapped K k c s" "sk_GetBlock K (ss_bs s) c = Inr data"
  shows "GetBlockByKey K k s = Inr (Some data)"
  using assms by (simp add: mapped_def GetBlockByKey_def GetCIDFromKey_def cidCodec_def)

lemma onBlocks_inv: "onBlocks f s = (r, t) \<longleftrightarrow> (\<exists>b. f (ss_bs s) = (r, b) \<and> t = s\<lparr>ss_bs := b\<rparr>)"
  by (auto simp: onBlocks_def split: prod.splits)

lemma onData_inv: "onData f s = (r, t) \<longleftrightarrow> (\<exists>d. f (ss_ds s) = (r, d) \<and> t = s\<lparr>ss_ds := d\<rparr>)"
  by (auto simp: onData_def split: prod.splits)

lemma PutRawBlock_Inr:
  assumes "blockStore K" "PutRawBlock K data s = (Inr c, t)"
  shows "c = sk_Cid K data \<and> sk_GetBlock K (ss_bs t) c = Inr data \<and> (\<exists>b. t = s\<lparr>ss_bs := b\<rparr>)"
  using assms unfolding PutRawBlock_def Let_def
  by (auto simp: op_inv onBlocks_inv blockStore_def split: sum.splits)

subsection \<open>Locks leave the indexes alone\<close>

lemma namespaces_differ: "lockDHTKey k \<noteq> keyToCIDNS @ x" "lockDHTKey k \<noteq> chunkIndexNS @ x" "lockDHTKey k \<noteq> manifestIndexNS @ x"
  by (simp_all add: lockDHTKey_def LockNamespace_def keyToCIDNS_def chunkIndexNS_def manifestIndexNS_def)

lemma ReleaseLock_other:
  assumes "datastore_contract D" "km_store m = dsLockStore D" "ReleaseLock m k h s = (r, t)" "key \<noteq> lockDHTKey k"
  shows "ds_Get D (du_net t) key = ds_Get D (du_net s) key"
proof -
  have "t = s \<or> (\<exists>q d. ds_Put D (lockDHTKey k) [] (du_net s) = (q, d) \<and> du_net t = d)"
    using assms(2,3) unfolding ReleaseLock_def
    by (auto simp: fail_ifS_def failS_def readS_def bindS_def liftR_def retS_def onStore_def dsLockStore_def
          split: if_splits sum.splits option.splits prod.splits)
  then show ?thesis using datastore_contract.Get_Put_other [OF assms(1)] assms(4) by auto
qed

lemma batch_index:
  assumes "datastore_contract (sk_ds K)" "\<not> IsZero k" "ds_Batch (sk_ds K) (putBlockIndexBatch K k c) d = (Inr (), d')"
  shows "ds_Get (sk_ds K) d' (keyToCIDNS @ Key_String k) = Inr (sk_String K c)"
  using datastore_contract.Get_after_Batch [OF assms(1,3), of "keyToCIDNS @ Key_String k"] assms(2) by (simp add: putBlockIndexBatch_def)

lemma StoreKeyToCIDMapping_index:
  assumes "datastore_contract (sk_ds K)" "\<not> IsZero k" "ignoreS (StoreKeyToCIDMapping K k (Some c)) s = (r, t)"
  shows "ss_bs t = ss_bs s \<and> (mapped K k c t \<or> (\<exists>d e d'. ds_Put (sk_ds K) (keyToCIDNS @ Key_String k) (sk_String K c) d = (Inl e, d')))"
proof -
  obtain q d where q: "ds_Put (sk_ds K) (keyToCIDNS @ Key_String k) (sk_String K c) (ss_ds s) = (q, d)" by fastforce
  then have t: "t = s\<lparr>ss_ds := d\<rparr>"
    using assms(2,3) by (auto simp: ignoreS_def tryS_def StoreKeyToCIDMapping_def onData_def retS_def split: prod.splits)
  show ?thesis
  proof (cases q)
    case (Inr x)
    then show ?thesis using q t datastore_contract.Get_after_Put [OF assms(1)] by (fastforce simp: mapped_def)
  qed (use q t in auto)
qed

lemma ignore_index_blocks:
  "ignoreS (IndexCID K c) s = (r, t) \<Longrightarrow> ss_bs t = ss_bs s" "ignoreS (Stack_IndexKey K k) s = (r, t) \<Longrightarrow> ss_bs t = ss_bs s"
  by (auto simp: ignoreS_def tryS_def IndexCID_def Stack_IndexKey_def onData_def retS_def split: prod.splits option.splits if_splits)

lemma putInner_index:
  assumes "blockStore K" "datastore_contract (sk_ds K)" "\<not> IsZero k" "putRawBlockIndexedInner K data k s = (Inr c, t)"
  shows "c = sk_Cid K data \<and> sk_GetBlock K (ss_bs t) c = Inr data \<and> (mapped K k c t \<or> mappingFails K k c)"
proof -
  obtain c' u where u: "PutRawBlock K data s = (Inr c', u)"
    using assms(4) by (auto simp: putRawBlockIndexedInner_def op_inv)
  note p = PutRawBlock_Inr [OF assms(1) u]
  obtain q d where d: "ds_Batch (sk_ds K) (putBlockIndexBatch K k c') (ss_ds u) = (q, d)" by fastforce
  show ?thesis
  proof (cases q)
    case (Inr x)
    then have "c = c'" "t = u\<lparr>ss_ds := d\<rparr>"
      using assms(4) u d by (auto simp: putRawBlockIndexedInner_def bindS_def tryS_def onData_def retS_def)
    with p batch_index [OF assms(2,3)] d Inr show ?thesis by (auto simp: mapped_def)
  next
    case (Inl e)
    obtain r1 v where v: "ignoreS (IndexCID K (Some c')) (u\<lparr>ss_ds := d\<rparr>) = (r1, v)" by fastforce
    obtain r2 w where w: "ignoreS (Stack_IndexKey K k) v = (r2, w)" by fastforce
    obtain r3 x where x: "ignoreS (StoreKeyToCIDMapping K k (Some c')) w = (r3, x)" by fastforce
    have "c = c'" "t = x" "r1 = Inr () \<and> r2 = Inr () \<and> r3 = Inr ()"
      using assms(4) u d Inl v w x by (auto simp: putRawBlockIndexedInner_def bindS_def tryS_def onData_def retS_def ignoreS_def split: sum.splits prod.splits)
    with p ignore_index_blocks(1) [OF v] ignore_index_blocks(2) [OF w] StoreKeyToCIDMapping_index [OF assms(2,3) x] d Inl
    show ?thesis by (auto simp: mappingFails_def)
  qed
qed

lemma PutRawBlockIndexed_found:
  assumes "blockStore K" "datastore_contract (sk_ds K)"
    and "\<forall>m. locks = Some m \<longrightarrow> km_store m = dsLockStore (sk_ds K)" "\<not> IsZero (KeyFromData (sk_Sum256 K) data)"
    and "PutRawBlockIndexed K data locks retry s = Some (Inr (k, c), t)"
  shows "k = KeyFromData (sk_Sum256 K) data \<and> c = sk_Cid K data \<and> sk_GetBlock K (ss_bs t) c = Inr data
    \<and> (mapped K k c t \<or> mappingFails K k c)"
proof -
  define h where "h = KeyFromData (sk_Sum256 K) data"
  have "\<exists>u v. putRawBlockIndexedInner K data h u = (Inr c, v) \<and> k = h
    \<and> ss_bs t = ss_bs v \<and> ds_Get (sk_ds K) (ss_ds t) (keyToCIDNS @ Key_String h) = ds_Get (sk_ds K) (ss_ds v) (keyToCIDNS @ Key_String h)"
  proof (cases "if sk_self K = [] then None else locks")
    case None
    then show ?thesis using assms(5)
      by (auto simp: PutRawBlockIndexed_def withLock_def h_def [symmetric] Let_def op_inv)
  next
    case (Some m)
    then have m: "km_store m = dsLockStore (sk_ds K)" using assms(3) by (auto split: if_splits)
    obtain u where r: "tryS (bindS (putRawBlockIndexedInner K data h) (\<lambda>c. retS (h, c)))
          (\<lambda>r. bindS (ignoreS (onLocks (ReleaseLock m h (sk_self K)))) (\<lambda>_. liftR r)) u = (Inr (k, c), t)"
      using assms(5) Some by (auto simp: PutRawBlockIndexed_def withLock_def h_def [symmetric] Let_def split: option.splits prod.splits sum.splits)
    obtain q v where v: "putRawBlockIndexedInner K data h u = (q, v)" by fastforce
    obtain w where "ReleaseLock m h (sk_self K) (lockView v) = w" by simp
    then have "q = Inr c" "k = h" and t: "t = v\<lparr>ss_now := du_now (snd w), ss_ds := du_net (snd w)\<rparr>"
      using r v by (auto simp: tryS_def bindS_def ignoreS_def onLocks_def liftR_def retS_def split: sum.splits prod.splits)
    moreover have "ds_Get (sk_ds K) (du_net (snd w)) (keyToCIDNS @ Key_String h) = ds_Get (sk_ds K) (ss_ds v) (keyToCIDNS @ Key_String h)"
      using ReleaseLock_other [OF assms(2) m, of h "sk_self K" "lockView v" "fst w" "snd w" "keyToCIDNS @ Key_String h"]
        \<open>ReleaseLock m h (sk_self K) (lockView v) = w\<close> namespaces_differ(1) [of h "Key_String h"]
      by (auto simp: lockView_def)
    ultimately show ?thesis using v by auto
  qed
  then obtain u v where "putRawBlockIndexedInner K data h u = (Inr c, v)" "k = h" "ss_bs t = ss_bs v"
    "ds_Get (sk_ds K) (ss_ds t) (keyToCIDNS @ Key_String h) = ds_Get (sk_ds K) (ss_ds v) (keyToCIDNS @ Key_String h)" by blast
  with putInner_index [OF assms(1,2), of h data u c v] assms(4) show ?thesis by (auto simp: h_def mapped_def)
qed

subsection \<open>Fetching\<close>

lemma readSized_Inr: "readSized x s = (Inr d, t) \<Longrightarrow> 0 < length d \<and> int (length d) \<le> MaxTransferBlockSize"
  unfolding readSized_def ReadFull_def by (auto simp: op_inv split: if_splits)

lemma fst_eq_ex: "fst p = x \<longleftrightarrow> (\<exists>t. p = (x, t))"
  by (cases p) auto

lemma fetchReply_Inr:
  assumes "fetchReply hash k reply = Inr data"
  shows "KeyFromData hash data = k \<and> (\<exists>x s t. readSized x s = (Inr data, t))"
proof -
  obtain t where "(bindS ReadLine (\<lambda>statusLine.
          fail_ifS (HasPrefix statusLine ''ERROR'') (ErrMsg ''fetch failed'')
          (bindS ReadLine (\<lambda>sizeLine.
           bindS (readSized (TrimSpace sizeLine)) (\<lambda>blockData.
           fail_ifS (KeyFromData hash blockData \<noteq> k) (ErrMsg ''key mismatch'') (retS blockData)))))) reply = (Inr data, t)"
    using assms unfolding fetchReply_def fst_eq_ex by blast
  then show ?thesis unfolding op_inv by blast
qed

text \<open>What a node that has a block under its key answers, and that the reply is read back.\<close>

lemma fetchReply_roundtrip:
  assumes "KeyFromData hash data = k" "data \<noteq> []" "int (length data) \<le> MaxTransferBlockSize"
  shows "fetchReply hash k (''OK'' @ [newline] @ dec (length data) @ [newline] @ data) = Inr data"
proof -
  have nl: "newline \<notin> set ''OK''" by (simp add: newline_def)
  have 1: "ReadLine (''OK'' @ [newline] @ dec (length data) @ [newline] @ data) = (Inr (''OK'' @ [newline]), dec (length data) @ newline # data)"
    using ReadLine_line [OF nl, of "dec (length data) @ newline # data"] by simp
  have 2: "ReadLine (dec (length data) @ newline # data) = (Inr (dec (length data) @ [newline]), data)"
    using dec_line by (intro ReadLine_line)
  have small: "length data < 2 ^ 63" using assms(3) by (simp add: MaxTransferBlockSize_def)
  have "readSized (TrimSpace (dec (length data) @ [newline])) data = (Inr data, [])"
    using assms Atoi_dec [OF small] TrimSpace_line [OF dec_line(2)]
    by (simp add: readSized_def bindS_def liftR_def fail_ifS_def ReadFull_def)
  with 1 2 show ?thesis using assms(1) by (simp add: fetchReply_def bindS_def HasPrefix_def newline_def retS_def)
qed

lemma handler_serves:
  assumes "length k = 32" "ResolvePayloadByKeyLocal K k s = Inr (Some data)" "data \<noteq> []" "KeyFromData (sk_Sum256 K) data = k"
  shows "HandleDirectFetchStream K s (Key_String k @ [newline]) = (''OK'' @ [newline] @ dec (length data) @ [newline] @ data, None)"
proof -
  have "fst (ReadLine (Key_String k @ [newline])) = Inr (Key_String k @ [newline])"
    using ReadLine_line [OF hex_line(1), of k "[]"] by (simp add: Key_String_def)
  moreover have "TrimSpace (Key_String k @ [newline]) = Key_String k" using TrimSpace_line [OF hex_line(2)] by (simp add: Key_String_def)
  ultimately show ?thesis using assms ParseKey_String [OF assms(1)] by (simp add: HandleDirectFetchStream_def)
qed

lemma resolve_block: "GetBlockByKey K k s = Inr (Some data) \<Longrightarrow> ResolvePayloadByKeyLocal K k s = Inr (Some data)"
  by (simp add: ResolvePayloadByKeyLocal_def)


lemma firstFetched_Inr: "firstFetched rs = Inr data \<Longrightarrow> Inr data \<in> set rs"
proof -
  assume "firstFetched rs = Inr data"
  then have "List.find is_ok rs = Some (Inr data)" by (auto simp: firstFetched_def split: option.splits sum.splits)
  then show ?thesis by (auto simp: find_Some_iff in_set_conv_nth)
qed

text \<open>C31. Whatever the peers of a token answer, a block that \<open>GetBlock\<close> returns is either the one the node itself has under the key, which is
  returned as it is, without a check of its hash, and only when the call is not restricted to remote peers, or it was fetched: then it
  hashes to the key that was asked for and is neither empty nor above the limit of transfers.\<close>

theorem remote_get_verified:
  assumes "Stack_GetBlock K dial order remoteOnly k s = Inr data"
  shows "\<not> remoteOnly \<and> GetBlockByKey K k s = Inr (Some data)
    \<or> KeyFromData (sk_Sum256 K) data = k \<and> data \<noteq> [] \<and> int (length data) \<le> MaxTransferBlockSize"
proof (cases "\<not> remoteOnly \<and> (\<exists>x. GetBlockByKey K k s = Inr (Some x))")
  case True
  with assms show ?thesis unfolding Stack_GetBlock_def by (auto simp: result_inv)
next
  case False
  then have "\<exists>token :: Token. firstFetched (map (\<lambda>loc. DirectFetch K dial loc k) (order (tk_Locations token))) = Inr data"
    using assms unfolding Stack_GetBlock_def
    by (auto simp: result_inv split: option.splits sum.splits if_splits)
  then obtain loc where "DirectFetch K dial loc k = Inr data" using firstFetched_Inr by fastforce
  then obtain reply where "fetchReply (sk_Sum256 K) k reply = Inr data" by (auto simp: DirectFetch_def result_inv)
  then show ?thesis using fetchReply_Inr readSized_Inr by fastforce
qed

end
