(* ===== verification/Storage_Replication_Props.thy ===== *)
theory Storage_Replication_Props
  imports Storage_Replication "HOL-Library.Multiset"
begin

text \<open>Properties of the placement: the targets add up in spite of rounding, and the chosen candidates are the best of their category.\<close>

subsection \<open>Targets\<close>

lemma int_of_float_floor: "0 \<le> x \<Longrightarrow> int_of_float x = \<lfloor>x\<rfloor>"
  by (simp add: int_of_float_def)

lemma totalWeight_lower:
  assumes "ws = [a, b, c]" "0 \<le> a" "0 \<le> b" "0 \<le> c"
  shows "(a + b + c) * (1 - ulp) ^ 3 \<le> totalWeight ws"
proof -
  let ?v = "1 - ulp"
  have v: "0 \<le> ?v" "?v \<le> 1" using ulp_bounds by auto
  have 1: "a * ?v \<le> fl a" using fl_lower assms(2) by simp
  have n1: "0 \<le> fl a" using fl_nonneg assms(2) by simp
  have 2: "(fl a + b) * ?v \<le> fl (fl a + b)" using fl_lower n1 assms(3) by simp
  have n2: "0 \<le> fl (fl a + b)" using fl_nonneg n1 assms(3) by simp
  have 3: "(fl (fl a + b) + c) * ?v \<le> fl (fl (fl a + b) + c)" using fl_lower n2 assms(4) by simp
  have b: "b * ?v \<le> b" "c * ?v ^ 2 \<le> c" using assms v by (auto intro!: mult_left_le power_le_one)
  have "(a + b) * ?v \<le> fl a + b" using 1 b by (simp add: distrib_right)
  then have "(a + b) * ?v * ?v \<le> fl (fl a + b)" using 2 v by (meson mult_right_mono order_trans)
  then have "(a + b + c) * ?v ^ 2 \<le> fl (fl a + b) + c" using b by (simp add: distrib_right power2_eq_square mult.assoc)
  then have "(a + b + c) * ?v ^ 2 * ?v \<le> fl (fl (fl a + b) + c)" using 3 v by (meson mult_right_mono order_trans)
  then show ?thesis by (simp add: assms(1) totalWeight_def fadd_def power3_eq_cube power2_eq_square mult.assoc)
qed

lemma exactShare_bounds:
  assumes "0 \<le> R" "0 < t" "0 \<le> w"
  shows "0 \<le> exactShare R t w" "exactShare R t w \<le> of_int R * w / t * (1 + ulp) ^ 3"
proof -
  let ?v = "1 + ulp"
  have v: "0 \<le> ?v" using ulp_bounds by auto
  have R: "0 \<le> fl (of_int R)" "fl (of_int R) \<le> of_int R * ?v" using assms fl_nonneg fl_upper by auto
  have m: "0 \<le> fl (fl (of_int R) * w)" "fl (fl (of_int R) * w) \<le> fl (of_int R) * w * ?v"
    using R assms fl_nonneg fl_upper by auto
  then have m2: "fl (fl (of_int R) * w) \<le> of_int R * ?v * w * ?v"
    using R(2) v assms(3) by (meson mult_right_mono order_trans)
  have d: "fl (fl (fl (of_int R) * w) / t) \<le> fl (fl (of_int R) * w) / t * ?v"
    using m assms by (intro fl_upper) simp
  also have "\<dots> \<le> of_int R * ?v * w * ?v / t * ?v"
    using m2 v assms by (intro mult_right_mono divide_right_mono) auto
  finally show "exactShare R t w \<le> of_int R * w / t * ?v ^ 3"
    by (simp add: exactShare_def fdiv_def fmul_def float_of_def power3_eq_cube ac_simps)
  show "0 \<le> exactShare R t w" using m assms by (simp add: exactShare_def fdiv_def fmul_def float_of_def fl_nonneg)
qed

text \<open>Six roundings do not move the sum of the shares up to the next number.\<close>

lemma rounding_room: "(R :: rat) * ((1 + ulp) ^ 3 / (1 - ulp) ^ 3) < R + 1" if "0 \<le> R" "R \<le> 2 ^ 32"
proof -
  have "(1 + ulp) ^ 3 / (1 - ulp) ^ 3 < 1 + 1 / 2 ^ 33" by (simp add: ulp_def power_divide)
  then have "R * ((1 + ulp) ^ 3 / (1 - ulp) ^ 3) \<le> R * (1 + 1 / 2 ^ 33)" using that by (intro mult_left_mono) simp_all
  also have "\<dots> < R + 1" using that by (simp add: distrib_left)
  finally show ?thesis .
qed

lemma shares_sum:
  assumes "0 < R" "R \<le> 2 ^ 32" "0 \<le> a" "0 \<le> b" "0 \<le> c" "t = totalWeight [a, b, c]" "0 < t"
  shows "\<lfloor>exactShare R t a\<rfloor> + \<lfloor>exactShare R t b\<rfloor> + \<lfloor>exactShare R t c\<rfloor> \<le> R"
proof -
  let ?k = "(1 + ulp) ^ 3" and ?v = "(1 - ulp) ^ 3" and ?w = "a + b + c"
  have v: "0 < ?v" "0 \<le> ?k" using ulp_bounds by auto
  have "?w * ?v \<le> t" using totalWeight_lower [OF refl assms(3-5)] assms(6) by simp
  then have "?w / t \<le> 1 / ?v" using v assms(7) by (simp add: field_simps)
  then have "of_int R * (?w / t) * ?k \<le> of_int R * (1 / ?v) * ?k" using assms(1) v by (intro mult_right_mono mult_left_mono) auto
  also have "\<dots> < of_int R + 1"
    using rounding_room [of "of_int R"] assms(1,2) of_int_le_iff [of R "2 ^ 32", where 'a = rat] by simp
  finally have "of_int R * (?w / t) * ?k < of_int R + 1" .
  moreover have "exactShare R t a + exactShare R t b + exactShare R t c \<le> of_int R * (?w / t) * ?k"
    using exactShare_bounds(2) [of R t a] exactShare_bounds(2) [of R t b] exactShare_bounds(2) [of R t c] assms
    by (simp add: add_divide_distrib distrib_left distrib_right)
  moreover have "of_int (\<lfloor>exactShare R t a\<rfloor> + \<lfloor>exactShare R t b\<rfloor> + \<lfloor>exactShare R t c\<rfloor>) \<le> exactShare R t a + exactShare R t b + exactShare R t c"
    unfolding of_int_add by (intro add_mono of_int_floor_le)
  ultimately have "of_int (\<lfloor>exactShare R t a\<rfloor> + \<lfloor>exactShare R t b\<rfloor> + \<lfloor>exactShare R t c\<rfloor>) < (of_int (R + 1) :: rat)" by simp
  then show ?thesis by (simp only: of_int_less_iff)
qed

lemma sum_list_bump: "i < length xs \<Longrightarrow> sum_list (xs[i := xs ! i + 1]) = sum_list xs + (1 :: int)"
  by (induction xs arbitrary: i) (auto split: nat.split)

lemma handOut_sum:
  assumes "set order = {0, 1, 2}" "length counts = 3"
  shows "length (handOut order n counts) = 3 \<and> sum_list (handOut order n counts) = sum_list counts + int n
    \<and> (\<forall>i < 3. counts ! i \<le> handOut order n counts ! i)"
proof (induction n)
  case (Suc n)
  let ?i = "order ! (n mod length order)"
  have "order \<noteq> []" using assms(1) by auto
  then have "?i \<in> set order" by simp
  then have i: "?i < 3" using assms(1) by auto
  with Suc show ?case by (auto simp: Let_def sum_list_bump nth_list_update intro: order_trans)
qed (use assms in simp)

lemma length3: "length xs = 3 \<longleftrightarrow> (\<exists>a b c. xs = [a, b, c])"
  by (auto simp: numeral_3_eq_3 length_Suc_conv)

lemma usedWeights_ok:
  obtains a b c t where "usedWeights v = ([a, b, c], t)" "0 \<le> a" "0 \<le> b" "0 \<le> c" "t = totalWeight [a, b, c]" "0 < t"
proof (cases "totalWeight (clampWeights v) \<le> 0")
  case True
  have "totalWeight [1, 0, 0] = 1" by code_simp
  with True show ?thesis using that [of 1 0 0 1] by (simp add: usedWeights_def)
next
  case False
  define g :: "rat \<Rightarrow> rat" where "g w = (if w < 0 then 0 else w)" for w
  from False show ?thesis
    by (intro that [of "g (rv_Near v)" "g (rv_Midrange v)" "g (rv_FarFlung v)"]) (simp_all add: usedWeights_def clampWeights_def Let_def g_def not_le)
qed

subsection \<open>Range\<close>

text \<open>The intermediate results of \<open>ReplicationTargets\<close>: the sums of the weights, the factor, the products and the shares.\<close>

definition intermediates :: "ReplicationVector \<Rightarrow> int \<Rightarrow> float64 list" where
  "intermediates v R =
     (case usedWeights v of (ws, t) \<Rightarrow>
        [fadd 0 (ws ! 0), fadd (fadd 0 (ws ! 0)) (ws ! 1), t, float_of R] @ map (fmul (float_of R)) ws @ map (exactShare R t) ws)"

text \<open>A weight that is set, and is neither tiny nor huge; zero and negative ones count as not set.\<close>

definition usualWeight :: "float64 \<Rightarrow> bool" where "usualWeight w \<longleftrightarrow> w \<le> 0 \<or> scaled (- 400) 400 w"

lemma usedWeights_scaled:
  assumes "usualWeight (rv_Near v)" "usualWeight (rv_Midrange v)" "usualWeight (rv_FarFlung v)"
    and "usedWeights v = ([a, b, c], t)"
  shows "scaled0 (- 400) 400 a" "scaled0 (- 400) 400 b" "scaled0 (- 400) 400 c"
proof -
  have one: "scaled (- 400) 400 1"
    using power_int_increasing [of "- 400" 0 "2 :: rat"] power_int_increasing [of 0 400 "2 :: rat"] by (simp add: scaled_def)
  show "scaled0 (- 400) 400 a" "scaled0 (- 400) 400 b" "scaled0 (- 400) 400 c"
    using assms one by (auto simp: usedWeights_def clampWeights_def Let_def usualWeight_def scaled0_def split: if_splits)
qed

lemma factor_scaled:
  assumes "0 < R" "R \<le> 2 ^ 32"
  shows "scaled (- 1) 33 (float_of R)"
proof -
  have "scaled 0 32 (of_int R)"
    using assms of_int_le_iff [of R "2 ^ 32", where 'a = rat] of_int_le_iff [of 1 R, where 'a = rat] by (simp add: scaled_def)
  from scaled_fl [OF this] show ?thesis by (simp add: float_of_def)
qed

lemma intermediates_inRange:
  assumes "0 < R" "R \<le> 2 ^ 32" "usualWeight (rv_Near v)" "usualWeight (rv_Midrange v)" "usualWeight (rv_FarFlung v)"
  shows "list_all inRange (intermediates v R)"
proof -
  obtain a b c t where w: "usedWeights v = ([a, b, c], t)" "t = totalWeight [a, b, c]" "0 < t" by (rule usedWeights_ok)
  note s = usedWeights_scaled [OF assms(3-5) w(1)]
  have s1: "scaled0 (- 401) 402 (fadd 0 a)" using scaled0_fadd [of "- 400" 400 0 a] s(1) by (simp add: scaled0_def)
  have s2: "scaled0 (- 402) 404 (fadd (fadd 0 a) b)"
    using scaled0_fadd [OF s1 scaled0_mono [OF s(2), of "- 401" 402]] by simp
  have "scaled0 (- 403) 406 (fadd (fadd (fadd 0 a) b) c)"
    using scaled0_fadd [OF s2 scaled0_mono [OF s(3), of "- 402" 404]] by simp
  then have t: "scaled (- 403) 406 t" using w(2,3) by (simp add: totalWeight_def scaled0_def)
  note r = factor_scaled [OF assms(1,2)]
  have p: "scaled0 (- 402) 434 (fmul (float_of R) x)" if "scaled0 (- 400) 400 x" for x using scaled0_fmul [OF r that] by simp
  have q: "scaled0 (- 809) 838 (exactShare R t x)" if "scaled0 (- 400) 400 x" for x
    using scaled0_fdiv [OF p [OF that] t] by (simp add: exactShare_def)
  have "inRange (fadd 0 a)" "inRange (fadd (fadd 0 a) b)" "inRange t" "inRange (float_of R)"
    using s1 s2 t r by (auto intro: scaled0_inRange scaled_inRange)
  moreover have "inRange (fmul (float_of R) x)" "inRange (exactShare R t x)" if "scaled0 (- 400) 400 x" for x
    using p [OF that] q [OF that] by (auto intro: scaled0_inRange)
  ultimately show ?thesis using s by (simp add: intermediates_def w(1) numeral_2_eq_2)
qed



definition exVector :: ReplicationVector where "exVector = \<lparr>rv_Near = 2, rv_Midrange = 1, rv_FarFlung = 1\<rparr>"

lemma ex_targets: "ReplicationTargets exVector 4 = (2, 1, 1)"
proof -
  have w: "usedWeights exVector = ([2, 1, 1], 4)"
    by (simp add: usedWeights_def clampWeights_def totalWeight_def exVector_def fadd_def fl_numeral)
  have s: "exactShare 4 4 2 = 2" "exactShare 4 4 1 = 1"
    by (simp_all add: exactShare_def float_of_def fmul_def fdiv_def fl_numeral fl_one)
  show ?thesis by (simp add: ReplicationTargets_def w s int_of_float_def)
qed

lemma ex_usual: "usualWeight (rv_Near exVector)" "usualWeight (rv_Midrange exVector)" "usualWeight (rv_FarFlung exVector)"
proof -
  have "(2 :: rat) powi (- 400) \<le> 1" "(2 :: rat) \<le> 2 powi 400"
    using power_int_increasing [of "- 400" 0 "2 :: rat"] power_int_increasing [of 1 400 "2 :: rat"] by simp_all
  then show "usualWeight (rv_Near exVector)" "usualWeight (rv_Midrange exVector)" "usualWeight (rv_FarFlung exVector)"
    unfolding usualWeight_def scaled_def exVector_def by auto
qed


subsection \<open>Candidates\<close>

locale weak_order =
  fixes lt :: "'a \<Rightarrow> 'a \<Rightarrow> bool"
  assumes asym: "lt a b \<Longrightarrow> \<not> lt b a"
    and cotrans: "lt a c \<Longrightarrow> lt a b \<or> lt b c"
begin

lemma insertBy_sorted: "sorted_wrt (\<lambda>a b. \<not> lt b a) xs \<Longrightarrow> sorted_wrt (\<lambda>a b. \<not> lt b a) (insertBy lt x xs)"
proof (induction xs)
  case (Cons y ys)
  have "set (insertBy lt x ys) = insert x (set ys)" using insertBy_mset [of lt x ys] by (metis set_mset_add_mset_insert set_mset_mset)
  with Cons show ?case using asym cotrans by auto blast
qed simp

text \<open>Nothing that is better than an entry comes after it.\<close>

lemma sortSlice_sorted: "sorted_wrt (\<lambda>a b. \<not> lt b a) (sortSlice lt xs)"
  by (induction xs) (auto simp: sortSlice_def intro: insertBy_sorted)

end

interpretation better: weak_order "betterCandidate pidString" for pidString
  by unfold_locales (auto simp: betterCandidate_def split: if_splits)

text \<open>The selection takes peers of the wanted category, as many as it may, and leaves out none that scores better than one it takes.\<close>

lemma SelectReplicaCandidates_best:
  assumes "res = SelectReplicaCandidates pidString cs desired criteria n"
  shows "set res \<subseteq> {c \<in> set cs. pc_DistanceCategory c = desired}"
    "length res = min (nat n) (length (filter (\<lambda>c. pc_DistanceCategory c = desired) cs))"
    "mset res \<subseteq># mset cs"
proof -
  let ?f = "filter (\<lambda>c. pc_DistanceCategory c = desired) cs"
  consider "res = []" "n \<le> 0 \<or> ?f = []"
    | g where "res = take (nat n) (map fst (sortSlice (betterCandidate pidString) (map (\<lambda>c. (c, g c)) ?f)))"
    using assms by (auto simp: SelectReplicaCandidates_def Let_def split: if_splits)
  note c = this
  have m: "mset (map fst (sortSlice (betterCandidate pidString) (map (\<lambda>c. (c, g c)) ?f))) = mset ?f" for g
    unfolding mset_map sortSlice_mset by (simp add: image_mset.compositionality comp_def)
  have t: "mset (take k xs) \<subseteq># mset xs" for k and xs :: "PeerCandidate list"
    by (metis append_take_drop_id mset_append mset_subset_eq_add_left)
  have f: "mset res \<subseteq># mset ?f" using c
  proof cases
    case (2 g)
    then show ?thesis using t [of "nat n" "map fst (sortSlice (betterCandidate pidString) (map (\<lambda>c. (c, g c)) ?f))"] m [of g] by simp
  qed simp
  show "mset res \<subseteq># mset cs"
    using f by (rule subset_mset.order_trans) (simp add: mset_filter)
  show "set res \<subseteq> {c \<in> set cs. pc_DistanceCategory c = desired}"
    using set_mset_mono [OF f] by simp
  show "length res = min (nat n) (length ?f)"
    using c by cases (auto simp: sortSlice_length)
qed

end
