(* ===== verification/Storage_Routing_Props.thy ===== *)
theory Storage_Routing_Props
  imports Storage_Routing Storage_Replication_Props
begin

text \<open>The routing table stays well-formed under every operation, and the verification of a key reports what it found.\<close>

subsection \<open>Routing table\<close>

text \<open>Entries stand under the text of their own key, once, and list each provider once.\<close>

definition entryOk :: "'c RoutingTableEntry \<Rightarrow> bool" where
  "entryOk e \<longleftrightarrow> \<not> IsZero (re_Key e) \<and> distinct (map pi_ProviderID (re_Providers e))"

definition tableOk :: "'c RoutingTable \<Rightarrow> bool" where
  "tableOk rt \<longleftrightarrow> distinct (map fst rt) \<and> (\<forall>(ks, e)\<in>set rt. ks = Key_String (re_Key e) \<and> entryOk e)"

inductive rtReach :: "'c RoutingTable \<Rightarrow> bool" where
  new: "rtReach NewRoutingTable"
| set: "rtReach rt \<Longrightarrow> rtReach (RT_Set now k p v c rt)"
| remove: "rtReach rt \<Longrightarrow> rtReach (RT_Remove k rt)"
| removeByCID: "rtReach rt \<Longrightarrow> rtReach (RT_RemoveByCID c rt)"
| repVector: "rtReach rt \<Longrightarrow> rtReach (UpdateRepVector k v rt)"
| provider: "rtReach rt \<Longrightarrow> rtReach (UpdateProviderID now k p rt)"
| add: "rtReach rt \<Longrightarrow> rtReach (RT_AddProvider now k p d rt)"
| removeProvider: "rtReach rt \<Longrightarrow> rtReach (RT_RemoveProvider k p rt)"

lemma tableOk_lookup:
  assumes "tableOk rt" "map_of rt (Key_String k) = Some e"
  shows "re_Key e = k" "entryOk e"
  using assms map_of_SomeD [OF assms(2)] by (auto simp: tableOk_def Key_String_def)

lemma tableOk_update:
  assumes "tableOk rt" "re_Key e = k" "entryOk e"
  shows "tableOk (AList.update (Key_String k) e rt)"
proof -
  have "x \<in> set rt \<or> x = (Key_String k, e)" if "x \<in> set (AList.update (Key_String k) e rt)" for x
    using that assms(1) by (induction rt) (auto split: if_splits simp: tableOk_def)
  then show ?thesis using assms by (fastforce simp: tableOk_def distinct_update)
qed

lemma tableOk_delete: "tableOk rt \<Longrightarrow> tableOk (AList.delete ks rt)"
  by (auto simp: tableOk_def AList.delete_eq distinct_map_filter split: prod.splits)

lemma tableOk_updateEntry:
  assumes "tableOk rt" "\<And>e. entryOk e \<Longrightarrow> re_Key (f e) = re_Key e \<and> entryOk (f e)"
  shows "tableOk (updateEntry k f rt)"
  using assms tableOk_lookup [OF assms(1)] by (auto simp: updateEntry_def tableOk_update split: option.split)

lemma tableOk_Set:
  assumes "tableOk rt"
  shows "tableOk (RT_Set now k p v c rt)"
proof (cases "IsZero k")
  case False
  let ?info = "\<lparr>pi_ProviderID = p, pi_DistanceCategory = DistanceMidrange, pi_AddedAt = now\<rparr>"
  show ?thesis
  proof (cases "map_of rt (Key_String k)")
    case None
    have "tableOk (AList.update (Key_String k) \<lparr>re_Key = k, re_CID = c, re_Providers = [?info], re_RepVector = v\<rparr> rt)"
      using assms False by (intro tableOk_update) (simp_all add: entryOk_def)
    with None False show ?thesis by (simp add: RT_Set_def)
  next
    case (Some e)
    note e = tableOk_lookup [OF assms Some]
    define f where "f = (if hasProvider p (re_Providers e) then e else e\<lparr>re_Providers := re_Providers e @ [?info]\<rparr>)\<lparr>re_RepVector := v\<rparr>"
    have f: "re_Key f = k" "entryOk f" using e by (auto simp: f_def entryOk_def hasProvider_def)
    then have "tableOk (AList.update (Key_String k) (if c \<noteq> None then f\<lparr>re_CID := c\<rparr> else f) rt)"
      using assms by (intro tableOk_update) (simp_all add: entryOk_def)
    moreover have "RT_Set now k p v c rt = AList.update (Key_String k) (if c \<noteq> None then f\<lparr>re_CID := c\<rparr> else f) rt"
      using Some False by (simp only: RT_Set_def f_def Let_def option.case if_False)
    ultimately show ?thesis by simp
  qed
qed (simp add: RT_Set_def assms)

lemma distinct_cutProvider: "distinct (map pi_ProviderID ps) \<Longrightarrow> distinct (map pi_ProviderID (cutProvider p ps)) \<and> set (cutProvider p ps) \<subseteq> set ps"
  by (induction ps) auto

text \<open>C35. Every table that the operations build is well-formed: an entry stands once, under the text of its own key, which is not zero, and
  names a provider once.\<close>

theorem routing_table_wellformed: "rtReach rt \<Longrightarrow> tableOk rt"
proof (induction rule: rtReach.induct)
  case (set rt now k p v c)
  then show ?case by (simp add: tableOk_Set)
next
  case (add rt now k p d)
  then show ?case using tableOk_lookup [OF add(2)]
    by (auto simp: RT_AddProvider_def Let_def entryOk_def hasProvider_def intro!: tableOk_update split: option.split)
next
  case (removeProvider rt k p)
  show ?case unfolding RT_RemoveProvider_def using removeProvider(2) by (rule tableOk_updateEntry) (auto simp: entryOk_def distinct_cutProvider)
qed (auto simp: NewRoutingTable_def RT_Remove_def RT_RemoveByCID_def UpdateRepVector_def UpdateProviderID_def tableOk_delete entryOk_def
       intro!: tableOk_updateEntry split: option.split, simp add: tableOk_def)

subsection \<open>Verification\<close>

definition countsOf :: "ProviderDistanceInfo list \<Rightarrow> ReplicaCounts" where
  "countsOf ps = foldl (\<lambda>n p. countReplica (pd_DistanceCategory p) n) zeroCounts ps"

definition ofCategory :: "DistanceCategory \<Rightarrow> ProviderDistanceInfo list \<Rightarrow> int" where
  "ofCategory d ps = int (length (filter (\<lambda>p. pd_DistanceCategory p = d) ps))"

lemma countsOf_exact:
  "countsOf ps = \<lparr>ct_Near = ofCategory DistanceNear ps, ct_Midrange = ofCategory DistanceMidrange ps,
     ct_FarFlung = ofCategory DistanceFarFlung ps, ct_Total = int (length ps), ct_Unknown = ofCategory DistanceUnknown ps\<rparr>"
  by (induction ps rule: rev_induct)
    (auto simp: countsOf_def zeroCounts_def ofCategory_def countReplica_def split: DistanceCategory.split)

definition idsOf :: "found \<Rightarrow> string set" where "idsOf v = pd_ProviderID ` set (fd_Providers v)"

definition answers :: "'s measurer option \<Rightarrow> string \<Rightarrow> bool" where
  "answers rttMeasurer pid \<longleftrightarrow> (case rttMeasurer of None \<Rightarrow> True | Some msr \<Rightarrow> \<exists>addr s rtt t. msr pid addr s = (Inr rtt, t) \<and> 0 < rtt)"

definition foundOk :: "'s measurer option \<Rightarrow> string \<Rightarrow> string set \<Rightarrow> found \<Rightarrow> bool" where
  "foundOk rttMeasurer self U v \<longleftrightarrow>
     fd_Counts v = countsOf (fd_Providers v) \<and> distinct (map pd_ProviderID (fd_Providers v)) \<and> distinct (fd_Unreachable v)
     \<and> idsOf v \<inter> set (fd_Unreachable v) = {} \<and> idsOf v \<union> set (fd_Unreachable v) = U \<and> self \<notin> set (fd_Unreachable v)
     \<and> (\<forall>pid\<in>idsOf v. pid = self \<or> answers rttMeasurer pid)"

lemma foundOk_provider:
  "foundOk m self U v \<Longrightarrow> pid \<notin> U \<Longrightarrow> pid = self \<or> answers m pid \<Longrightarrow> foundOk m self (insert pid U) (noteProvider pid d rtt v)"
  by (auto simp: foundOk_def noteProvider_def idsOf_def countsOf_def)

lemma foundOk_unreachable:
  "foundOk m self U v \<Longrightarrow> pid \<notin> U \<Longrightarrow> pid \<noteq> self \<Longrightarrow> foundOk m self (insert pid U) (noteUnreachable pid v)"
  by (auto simp: foundOk_def noteUnreachable_def idsOf_def)

lemma foundOk_probe:
  assumes "foundOk (Some msr) self U v" "pid \<notin> U" "pid \<noteq> self" "probe msr th pid addr (v, s) = (w, t)"
  shows "foundOk (Some msr) self (insert pid U) w"
proof -
  obtain r u where m: "msr pid addr s = (r, u)" by fastforce
  show ?thesis
  proof (cases "\<exists>rtt. r = Inr rtt \<and> 0 < rtt")
    case True
    then obtain rtt where r: "r = Inr rtt" "0 < rtt" by blast
    then have "answers (Some msr) pid" using m by (auto simp: answers_def)
    then show ?thesis using assms(4) m r foundOk_provider [OF assms(1,2)] by (auto simp: probe_def)
  next
    case False
    then show ?thesis using assms(4) m foundOk_unreachable [OF assms(1,2,3)] by (auto simp: probe_def split: sum.splits if_splits)
  qed
qed

lemma foundOk_location:
  assumes "foundOk m self U v" "lo_ProviderID loc \<notin> U" "verifyLocation m th self loc (v, s) = (w, t)"
  shows "foundOk m self (insert (lo_ProviderID loc) U) w"
proof (cases "lo_ProviderID loc = self")
  case True
  then show ?thesis using assms foundOk_provider [OF assms(1)] by (auto simp: verifyLocation_def)
next
  case False
  then show ?thesis
    using assms foundOk_provider [OF assms(1)] foundOk_probe [of _ self U v]
    by (cases m) (auto simp: verifyLocation_def answers_def)
qed

lemma foundOk_entry:
  assumes "foundOk m self U v" "verifyEntry m th self p (v, s) = (w, t)"
  shows "foundOk m self (insert (pi_ProviderID p) U) w"
proof (cases "pi_ProviderID p \<in> U")
  case True
  then have "w = v" using assms by (auto simp: verifyEntry_def foundOk_def idsOf_def)
  with True assms(1) show ?thesis by (simp add: insert_absorb)
next
  case False
  then have new: "pi_ProviderID p \<notin> pd_ProviderID ` set (fd_Providers v)" "pi_ProviderID p \<notin> set (fd_Unreachable v)"
    using assms(1) by (auto simp: foundOk_def idsOf_def)
  show ?thesis
  proof (cases "pi_ProviderID p = self")
    case True
    then show ?thesis using False new assms(2) foundOk_provider [OF assms(1)] by (auto simp: verifyEntry_def)
  next
    case other: False
    then show ?thesis
      using False new assms(2) foundOk_provider [OF assms(1) False] foundOk_probe [of _ self U v]  assms(1)
      by (cases m) (auto simp: verifyEntry_def answers_def)
  qed
qed

lemma foundOk_locations:
  "foundOk m self U v \<Longrightarrow> distinct (map lo_ProviderID ls) \<Longrightarrow> lo_ProviderID ` set ls \<inter> U = {} \<Longrightarrow>
     fold (verifyLocation m th self) ls (v, s) = (w, t) \<Longrightarrow> foundOk m self (lo_ProviderID ` set ls \<union> U) w"
proof (induction ls arbitrary: U v s)
  case (Cons l ls)
  obtain x y where 1: "verifyLocation m th self l (v, s) = (x, y)" by fastforce
  have "foundOk m self (insert (lo_ProviderID l) U) x" using foundOk_location [OF Cons.prems(1) _ 1] Cons.prems(3) by auto
  then show ?case using Cons.IH [of "insert (lo_ProviderID l) U" x y] Cons.prems 1 by auto
qed simp

lemma foundOk_entries:
  "foundOk m self U v \<Longrightarrow> fold (verifyEntry m th self) ps (v, s) = (w, t) \<Longrightarrow> foundOk m self (pi_ProviderID ` set ps \<union> U) w"
proof (induction ps arbitrary: U v s)
  case (Cons p ps)
  obtain x y where 1: "verifyEntry m th self p (v, s) = (x, y)" by fastforce
  show ?case using Cons.IH [OF foundOk_entry [OF Cons.prems(1) 1], of y] Cons.prems(2) 1 by auto
qed simp

definition tableProviders :: "'c RoutingTable option \<Rightarrow> content_key \<Rightarrow> ProviderInfo list" where
  "tableProviders rt k = (case tableEntry rt k of None \<Rightarrow> [] | Some e \<Rightarrow> re_Providers e)"

lemma verdict_simps [simp]:
  "vf_Providers (verdict k entry R v) = fd_Providers v" "vf_UnreachableProviders (verdict k entry R v) = fd_Unreachable v"
  "vf_ActualCounts (verdict k entry R v) = fd_Counts v" "vf_IsSynchronized (verdict k entry R v) \<longleftrightarrow> R \<le> ct_Total (fd_Counts v)"
  by (simp_all add: verdict_def Let_def split: prod.split)

text \<open>With a token that names each provider once, the verification sorts the providers of token and table into those that count and
  those that did not answer, once each: every one that counts is the node itself or answered a probe, the counts per category are exact,
  and the key is reported synchronized exactly when as many different providers as the replication factor count.\<close>

theorem verification_sound:
  assumes "VerifyKeyStateWithRepVector k rt store self rttMeasurer R th s = (Inr v, t)" "distinct (map lo_ProviderID (tokenLocations store k))"
  defines "ids \<equiv> pd_ProviderID ` set (vf_Providers v)"
  shows "ids \<union> set (vf_UnreachableProviders v) = lo_ProviderID ` set (tokenLocations store k) \<union> pi_ProviderID ` set (tableProviders rt k)
    \<and> ids \<inter> set (vf_UnreachableProviders v) = {} \<and> (\<forall>pid\<in>ids. pid = self \<or> answers rttMeasurer pid)
    \<and> vf_ActualCounts v = countsOf (vf_Providers v)
    \<and> (vf_IsSynchronized v \<longleftrightarrow> (if R \<le> 0 then 7 else R) \<le> int (card ids))"
proof -
  let ?v0 = "\<lparr>fd_Providers = [], fd_Counts = zeroCounts, fd_Unreachable = []\<rparr>"
  define ls where "ls = tokenLocations store k"
  define ps where "ps = tableProviders rt k"
  obtain a b where 1: "fold (verifyLocation rttMeasurer th self) ls (?v0, s) = (a, b)" by fastforce
  obtain c d where 2: "fold (verifyEntry rttMeasurer th self) ps (a, b) = (c, d)" by fastforce
  have v: "v = verdict k (tableEntry rt k) (if R \<le> 0 then 7 else R) c"
    using assms(1) 1 2 by (auto simp: VerifyKeyStateWithRepVector_def discover_def Let_def ls_def ps_def tableProviders_def split: if_splits)
  have "foundOk rttMeasurer self {} ?v0" by (simp add: foundOk_def idsOf_def countsOf_def)
  then have "foundOk rttMeasurer self (lo_ProviderID ` set ls \<union> {}) a" by (rule foundOk_locations [OF _ _ _ 1]) (use assms(2) in \<open>auto simp: ls_def\<close>)
  then have c: "foundOk rttMeasurer self (pi_ProviderID ` set ps \<union> (lo_ProviderID ` set ls \<union> {})) c" by (rule foundOk_entries [OF _ 2])
  then have "card ids = length (fd_Providers c)"
    unfolding ids_def v verdict_simps foundOk_def by (metis distinct_card length_map set_map)
  with c show ?thesis by (auto simp: v foundOk_def idsOf_def ids_def ls_def ps_def countsOf_exact)
qed

end
