(* ===== verification/Storage_Repair_Props.thy ===== *)
theory Storage_Repair_Props
  imports Storage_Repair Storage_Stack_Props Storage_Routing_Props
begin

text \<open>
  A repair creates no more replicas than are missing, at peers that had none, and counts one only when the peer returned a claim signed with its
  own key; the receiver that answered has the block. A peer is given up only after failures that are spread over the confirmation interval.
\<close>

subsection \<open>Time\<close>

text \<open>No operation of a repair turns the clock back, if pings take time.\<close>

definition pingsTakeTime :: "('c, 'd, 'b, 'n) repair_cfg \<Rightarrow> bool" where
  "pingsTakeTime R \<longleftrightarrow> (\<forall>p a n. 0 \<le> snd (rq_ping R p a n))"

abbreviation tokensFrom :: "int \<Rightarrow> 'n clocked \<Rightarrow> bool" where "tokensFrom T s \<equiv> T \<le> du_now s"
abbreviation stackFrom :: "int \<Rightarrow> ('c, 'd, 'b, 'n) stack_state \<Rightarrow> bool" where "stackFrom T s \<equiv> T \<le> ss_now s"
abbreviation repairFrom :: "int \<Rightarrow> ('c, 'd, 'b, 'n) repair_state \<Rightarrow> bool" where "repairFrom T s \<equiv> T \<le> rs_now s"

lemma clock_sleepToken: "0 \<le> d \<Longrightarrow> keeps (tokensFrom T) (sleepToken C d)"
  by (auto simp: keeps_def sleepToken_def)

lemma clock_PutToken: "keeps (tokensFrom T) (PutToken C k t)"
  unfolding PutToken_def by (intro pres_intro) (auto simp: keeps_def dhtPut_def split: prod.splits)

lemma clock_putLoop: "keeps (tokensFrom T) (putLoop C k m n new)"
  by (induction n arbitrary: new) (auto simp: Let_def intro!: pres_intro clock_PutToken clock_sleepToken)

lemma clock_PutTokenWithConflictResolution: "keeps (tokensFrom T) (PutTokenWithConflictResolution C k new m)"
  unfolding PutTokenWithConflictResolution_def Let_def by (intro pres_intro clock_putLoop)

lemma clock_updateLoop: "keeps (tokensFrom T) (updateLoop C k f m n)"
  by (induction n) (auto intro!: pres_intro clock_PutTokenWithConflictResolution clock_sleepToken)

lemma clock_SyncTokenOnReplication: "keeps (tokensFrom T) (SyncTokenOnReplication C k p a)"
  unfolding SyncTokenOnReplication_def SyncTokenOnReplications_def UpdateTokenWithConflictResolution_def Let_def
  by (intro pres_intro clock_updateLoop clock_PutTokenWithConflictResolution)

lemma clock_onTokens: "keeps (tokensFrom T) f \<Longrightarrow> keeps (stackFrom T) (onTokens f)"
  by (rule keepsI) (auto simp: onTokens_def split: prod.splits dest!: keepsD)

lemma clock_PublishReceived: "keeps (stackFrom T) (PublishReceivedProviderClaim K p k raw)"
proof -
  have "keeps (tokensFrom T) (\<lambda>s. case vs_PutValue dht key raw (du_net s) of (r, n) \<Rightarrow> (r, s\<lparr>du_net := n\<rparr>))" for dht key
    by (auto simp: keeps_def split: prod.splits)
  then show ?thesis unfolding PublishReceivedProviderClaim_def putClaim_def
    by (intro pres_intro keeps_modifyS clock_onTokens) (simp_all add: CacheProviderClaim_def)
qed

lemma clock_onStack: "keeps (stackFrom T) f \<Longrightarrow> keeps (repairFrom T) (onStack f)"
  by (rule keepsI) (auto simp: onStack_def split: prod.splits dest!: keepsD)

lemma clock_onBlocks: "keeps (stackFrom T) (onBlocks f)"
  by (auto simp: keeps_def onBlocks_def split: prod.splits)

lemma clock_replicateViaDirectStream: "keeps (repairFrom T) (replicateViaDirectStream R c p d sync)"
  unfolding replicateViaDirectStream_def Let_def
  by (intro pres_intro clock_onStack clock_PublishReceived clock_onTokens clock_SyncTokenOnReplication)

lemma clock_replicateToPeer: "keeps (repairFrom T) (replicateToPeerWithToken R c p d sync)"
  unfolding replicateToPeerWithToken_def PutRawBlock_def Let_def
  by (intro pres_intro clock_onStack clock_onBlocks clock_replicateViaDirectStream)

lemma evidence_now: "rs_now (snd (applyLivenessFailureEvidence R pid rtt e s)) = rs_now s"
  by (auto simp: applyLivenessFailureEvidence_def Let_def split: option.splits)

lemma probe_now: "rs_now (snd (probePeer R pid addr rtt s)) = rs_now s + snd (rq_ping R pid addr (rs_now s))"
  by (auto simp: probePeer_def Let_def evidence_now cacheRTT_def clearLivenessFailureEvidence_def split: prod.splits sum.splits)

lemma clock_measureRTT:
  assumes "pingsTakeTime R"
  shows "keeps (repairFrom T) (measureRTT R pid addr)"
proof (rule keepsI)
  fix s r t assume s: "repairFrom T s" "measureRTT R pid addr s = (r, t)"
  then have "t = s \<or> (\<exists>rtt. t = snd (probePeer R pid addr rtt s))"
    by (auto simp: measureRTT_def Let_def split: option.splits if_splits) (metis snd_conv)+
  with s(1) assms show "repairFrom T t" by (auto simp: pingsTakeTime_def probe_now) (smt (verit))
qed

lemma clock_checkOffer:
  assumes "pingsTakeTime R" "repairFrom T s"
  shows "repairFrom T (snd (checkOffer R desired excluded pid s))"
proof -
  have "keeps (repairFrom T) (offerToCandidate R offer)" for offer
    unfolding offerToCandidate_def MeasureRTT_def Let_def by (intro pres_intro clock_measureRTT assms(1))
  then show ?thesis using assms(2) unfolding checkOffer_def keeps_def
    by (auto split: sum.splits prod.splits)
qed

lemma clock_checkOffers:
  assumes "pingsTakeTime R"
  shows "repairFrom T s \<Longrightarrow> repairFrom T (snd (checkOffers R desired excluded ps s))"
proof (induction ps arbitrary: s)
  case (Cons p ps)
  from Cons.IH [OF clock_checkOffer [OF assms Cons.prems, of desired excluded p]] show ?case
    by (auto split: prod.splits)
qed simp

lemma clock_find:
  assumes "pingsTakeTime R" "findStorageAvailableCandidates R desired m excluded s = (found, t)"
  shows "rs_now s \<le> rs_now t"
  using clock_checkOffers [OF assms(1) order_refl, of s desired excluded] assms(2)
  by (auto simp: findStorageAvailableCandidates_def Let_def split: prod.splits if_splits) (metis snd_conv)+

subsection \<open>Acknowledgments\<close>

text \<open>The claim a peer has returned: it is in the reply of the stream to the peer to the message with the block, it names the key of the
  block, it is signed with the key of the peer, and it was valid at a time between the two.\<close>

definition claimReturned :: "('c, 'd, 'b, 'n) repair_cfg \<Rightarrow> 'c option \<Rightarrow> bytes \<Rightarrow> int \<Rightarrow> int \<Rightarrow> string \<Rightarrow> bool" where
  "claimReturned R c blockData since til pid \<longleftrightarrow>
     (\<exists>stream reply raw claim now. rq_NewStream R pid = Inr stream \<and> stream (repairMessage R c blockData) = Inr reply
        \<and> readAck R reply = Inr raw \<and> UnmarshalCanonical (claimC (sk_names (rq_stack R))) raw = Inr claim
        \<and> sk_PublicOf (rq_stack R) pid = Inr (pc_Provider claim) \<and> pc_ContentKey claim = KeyFromData (sk_Sum256 (rq_stack R)) blockData
        \<and> since \<le> now \<and> now \<le> til \<and> ProviderClaim_Validate (sk_names (rq_stack R)) now claim = Inr ())"

lemma claimReturned_mono: "claimReturned R c d since til pid \<Longrightarrow> since' \<le> since \<Longrightarrow> til \<le> til' \<Longrightarrow> claimReturned R c d since' til' pid"
  unfolding claimReturned_def by (meson order_trans)

lemma onStack_inv: "onStack f s = (r, t) \<longleftrightarrow> (\<exists>u. f (rs_stack s) = (r, u) \<and> t = s\<lparr>rs_stack := u\<rparr>)"
  by (auto simp: onStack_def split: prod.splits)

lemma PublishReceived_claimed:
  assumes "PublishReceivedProviderClaim K pid k raw s = (Inr (), t)"
  shows "\<exists>claim. UnmarshalCanonical (claimC (sk_names K)) raw = Inr claim \<and> sk_PublicOf K pid = Inr (pc_Provider claim)
    \<and> pc_ContentKey claim = k \<and> ProviderClaim_Validate (sk_names K) (ss_now s) claim = Inr ()"
proof -
  obtain pub claim u where "sk_PublicOf K pid = Inr pub" "UnmarshalCanonical (claimC (sk_names K)) raw = Inr claim"
    "pc_ContentKey claim = k" "pc_Provider claim = pub"
    and v: "ProviderClaimValidator_Validate (sk_names K) (ss_now s) (claimKey k pub) raw = Inr u"
    using assms unfolding PublishReceivedProviderClaim_def by (auto simp: op_inv result_inv)
  moreover have "ProviderClaim_Validate (sk_names K) (ss_now s) claim = Inr ()"
    using v calculation(2) by (auto simp: ProviderClaimValidator_Validate_def result_inv)
  ultimately show ?thesis by auto
qed

lemma replicateViaDirectStream_claimed:
  assumes "replicateViaDirectStream R c pid blockData syncToken s = (Inr (), t)"
  shows "claimReturned R c blockData (rs_now s) (rs_now s) pid"
proof -
  obtain stream reply raw v where "rq_NewStream R pid = Inr stream" "stream (repairMessage R c blockData) = Inr reply" "readAck R reply = Inr raw"
    and "PublishReceivedProviderClaim (rq_stack R) pid (KeyFromData (sk_Sum256 (rq_stack R)) blockData) raw (rs_stack s) = (Inr (), v)"
    using assms unfolding replicateViaDirectStream_def Let_def by (auto simp: op_inv result_inv onStack_inv)
  with PublishReceived_claimed show ?thesis unfolding claimReturned_def by blast
qed

lemma now_onBlocks: "keeps (\<lambda>u. ss_now u = n) (onBlocks f)"
  by (auto simp: keeps_def onBlocks_def split: prod.splits)

lemma PutRawBlock_now:
  assumes "PutRawBlock K data s = (r, t)"
  shows "ss_now t = ss_now s"
proof -
  have "keeps (\<lambda>u. ss_now u = ss_now s) (PutRawBlock K data)"
    unfolding PutRawBlock_def Let_def by (intro pres_intro now_onBlocks)
  from keepsD [OF this assms] show ?thesis by simp
qed

lemma replicateToPeer_claimed:
  assumes "replicateToPeerWithToken R c pid blockData syncToken s = (Inr (), t)"
  shows "claimReturned R c blockData (rs_now s) (rs_now t) pid"
proof -
  obtain u where u: "replicateViaDirectStream R c pid blockData syncToken u = (Inr (), t)" and s: "rs_now u = rs_now s"
    using assms unfolding replicateToPeerWithToken_def Let_def
    by (auto simp: op_inv onStack_inv split: if_splits) (use PutRawBlock_now in fastforce)+
  have "rs_now u \<le> rs_now t" using keepsD [OF clock_replicateViaDirectStream u order_refl] .
  with claimReturned_mono [OF replicateViaDirectStream_claimed [OF u]] s show ?thesis by simp
qed

subsection \<open>The bound of a repair\<close>

definition repairOk ::
    "('c, 'd, 'b, 'n) repair_cfg \<Rightarrow> 'c option \<Rightarrow> bytes \<Rightarrow> int \<Rightarrow> string set \<Rightarrow> int \<Rightarrow> 'c repair_vars \<times> ('c, 'd, 'b, 'n) repair_state \<Rightarrow> bool" where
  "repairOk R c blockData missing old since = (\<lambda>(v, s).
     let ps = rr_ReplicatedPeers (rv_result v) in
      rr_TotalReplicasCreated (rv_result v) = int (length ps) \<and> rv_remaining v + int (length ps) = missing \<and> 0 \<le> rv_remaining v
      \<and> distinct ps \<and> set ps \<inter> old = {} \<and> rv_existing v = old \<union> set ps \<and> sk_self (rq_stack R) \<notin> set ps \<and> since \<le> rs_now s
      \<and> (\<forall>p\<in>set ps. claimReturned R c blockData since (rs_now s) p))"

lemma addReplica_now [simp]: "rs_now (addReplica k cand s) = rs_now s"
  by (simp add: addReplica_def)

lemma repairOk_success:
  assumes "repairOk R c blockData missing old since (v, s)" "0 < rv_remaining v" "pc_PeerID cand \<noteq> sk_self (rq_stack R)" "pc_PeerID cand \<notin> rv_existing v"
    and "replicateToPeerWithToken R c (pc_PeerID cand) blockData True s = (Inr (), t)"
  shows "repairOk R c blockData missing old since (recordSuccess cand v, addReplica k cand t)"
proof -
  have "rs_now s \<le> rs_now t" using keepsD [OF clock_replicateToPeer assms(5) order_refl] .
  moreover have "claimReturned R c blockData since (rs_now t) (pc_PeerID cand)"
    using claimReturned_mono [OF replicateToPeer_claimed [OF assms(5)]] assms(1) by (simp add: repairOk_def Let_def)
  ultimately show ?thesis using assms(1-4) claimReturned_mono [of R c blockData since "rs_now s" _ since "rs_now t"]
    by (auto simp: repairOk_def recordSuccess_def Let_def)
qed

lemma repairOk_later:
  assumes "repairOk R c blockData missing old since (v, s)" "rs_now s \<le> rs_now t" "rv_remaining w = rv_remaining v" "rv_existing w = rv_existing v"
    "rr_ReplicatedPeers (rv_result w) = rr_ReplicatedPeers (rv_result v)"
    "rr_TotalReplicasCreated (rv_result w) = rr_TotalReplicasCreated (rv_result v)"
  shows "repairOk R c blockData missing old since (w, t)"
  using assms claimReturned_mono [of R c blockData since "rs_now s" _ since "rs_now t"] by (auto simp: repairOk_def Let_def)

lemma repairOk_candidate:
  assumes "repairOk R c blockData missing old since vs"
  shows "repairOk R c blockData missing old since (replicateCandidate R k c blockData cand vs)"
proof -
  obtain v s where vs: "vs = (v, s)" by fastforce
  obtain r t where r: "replicateToPeerWithToken R c (pc_PeerID cand) blockData True s = (r, t)" by fastforce
  have now: "rs_now s \<le> rs_now t" using keepsD [OF clock_replicateToPeer r order_refl] .
  show ?thesis
  proof (cases "rv_remaining v \<le> 0 \<or> pc_PeerID cand = [] \<or> pc_PeerID cand = sk_self (rq_stack R) \<or> pc_PeerID cand \<in> rv_existing v")
    case True
    then show ?thesis using assms vs by (simp add: replicateCandidate_def)
  next
    case False
    show ?thesis
    proof (cases r)
      case (Inl e)
      have "repairOk R c blockData missing old since (recordFailure (pidText R) (pc_PeerID cand) e v, t)"
        by (rule repairOk_later [OF _ now]) (use assms vs in \<open>simp_all add: recordFailure_def Let_def\<close>)
      then show ?thesis using vs r False Inl by (simp add: replicateCandidate_def)
    next
      case (Inr u)
      with repairOk_success [of R c blockData missing old since v s cand t k] assms vs r False
      show ?thesis by (simp add: replicateCandidate_def)
    qed
  qed
qed

lemma repairOk_until:
  "repairOk R c blockData missing old since vs \<Longrightarrow> repairOk R c blockData missing old since (replicateUntil R k c blockData stop cs vs)"
  by (induction cs arbitrary: vs) (auto simp: Let_def repairOk_candidate)

lemma repairOk_category:
  "repairOk R c blockData missing old since vs \<Longrightarrow> repairOk R c blockData missing old since (repairCategory R k c blockData pool d vs)"
  by (simp add: repairCategory_def Let_def repairOk_until)

lemma repairOk_categories:
  "repairOk R c blockData missing old since vs \<Longrightarrow> repairOk R c blockData missing old since (fold (repairCategory R k c blockData pool) ds vs)"
  by (induction ds arbitrary: vs) (auto simp: repairOk_category)

lemma repairOk_start:
  "0 \<le> m \<Longrightarrow> since \<le> rs_now s \<Longrightarrow>
   repairOk R c blockData m old since (\<lparr>rv_needed = f, rv_remaining = m, rv_existing = old, rv_result = noRepair k c\<rparr>, s)"
  by (simp add: repairOk_def noRepair_def)

lemma repairWith_ok:
  assumes "ct_Total (vf_ActualCounts v) \<le> ct_Total (vf_ExpectedCounts v)" "since \<le> rs_now s"
  shows "repairOk R c blockData (ct_Total (vf_ExpectedCounts v) - ct_Total (vf_ActualCounts v))
    (pd_ProviderID ` set (vf_Providers v) \<union> set (vf_UnreachableProviders v)) since (repairWith R k c v blockData pool s)"
proof -
  define v0 where "v0 = \<lparr>rv_needed = calculateNeededReplicas v, rv_remaining = ct_Total (vf_ExpectedCounts v) - ct_Total (vf_ActualCounts v),
    rv_existing = pd_ProviderID ` set (vf_Providers v) \<union> set (vf_UnreachableProviders v), rv_result = noRepair k c\<rparr>"
  define vs where "vs = fold (repairCategory R k c blockData pool) repairCategories (v0, s)"
  have "repairOk R c blockData (ct_Total (vf_ExpectedCounts v) - ct_Total (vf_ActualCounts v))
    (pd_ProviderID ` set (vf_Providers v) \<union> set (vf_UnreachableProviders v)) since vs"
    unfolding vs_def v0_def using assms by (intro repairOk_categories) (simp add: repairOk_start)
  then show ?thesis
    unfolding repairWith_def v0_def [symmetric] vs_def [symmetric] Let_def by (simp add: repairOk_until)
qed


subsection \<open>A transfer that is acknowledged\<close>

lemma receiveBlock_message:
  assumes "cidCodec K" "sk_String (rq_stack R) = sk_String K" "newline \<notin> set (sk_String K c)" "data \<noteq> []" "int (length data) \<le> MaxTransferBlockSize"
  shows "receiveBlock K (repairMessage R (Some c) data) = (Inr (c, data), [])"
proof -
  have 1: "ReadLine (repairMessage R (Some c) data) = (Inr (sk_String K c @ [newline]), dec (length data) @ newline # data)"
    using ReadLine_line [OF assms(3), of "dec (length data) @ newline # data"] assms(2) by (simp add: repairMessage_def)
  have 2: "ReadLine (dec (length data) @ newline # data) = (Inr (dec (length data) @ [newline]), data)"
    using dec_line by (intro ReadLine_line)
  have "length data < 2 ^ 63" using assms(5) by (simp add: MaxTransferBlockSize_def)
  then have 3: "Atoi (dec (length data)) = Inr (int (length data))" by (rule Atoi_dec)
  have 4: "sk_Decode K (sk_String K c) = Inr c" using assms(1) by (simp add: cidCodec_def)
  show ?thesis using 1 2 3 4 assms(4,5) by (simp add: receiveBlock_def ReadFull_def)
qed

lemma PutRawBlock_cid: "PutRawBlock K data s = (Inr c, t) \<Longrightarrow> c = sk_Cid K data"
  by (auto simp: PutRawBlock_def Let_def op_inv)

lemma recordReplica_stored [simp]: "ss_bs (recordReplica K h p c s) = ss_bs s" "mapped K k d (recordReplica K h p c s) = mapped K k d s"
  by (simp_all add: mapped_def recordReplica_def)

definition refusals :: "string list" where
  "refusals = [''read identifier'', ''invalid identifier'', ''read size'', ''invalid size'', ''invalid block size'', ''read block data'',
     ''store block'', ''key mismatch'', ''index block'', ''provider claim'']"

lemma refused_fields:
  assumes "\<forall>c\<in>set m. byte c < 0x80"
  shows "hd (Fields (refuseRepair m)) = ''ERROR:''"
proof -
  define step where "step = (\<lambda>seg (word, ws). if isSpaceRune (fst (decodeRune seg)) then ([], if word = [] then ws else word # ws) else (seg @ word, ws))"
  obtain word ws where w: "foldr step (map (\<lambda>c. [c]) (m @ [newline])) ([], []) = (word, ws)" by fastforce
  have "runeSegs (refuseRepair m) = map (\<lambda>c. [c]) ''ERROR: '' @ map (\<lambda>c. [c]) (m @ [newline])"
    using assms runeSegs_ascii [of "refuseRepair m"] by (simp add: refuseRepair_def newline_def)
  then have "foldr step (runeSegs (refuseRepair m)) ([], []) = foldr step (map (\<lambda>c. [c]) ''ERROR: '') (word, ws)"
    by (simp only: foldr_append w comp_apply)
  also have "\<dots> = (''ERROR:'', if word = [] then ws else word # ws)" by (simp add: step_def decodeRune_ascii isSpaceRune_def)
  finally show ?thesis by (simp add: Fields_def Let_def step_def)
qed

lemma refused_line: "list_all (\<lambda>m. newline \<notin> set (''ERROR: '' @ m) \<and> length m < 100 \<and> (\<forall>c\<in>set m. byte c < 0x80)) refusals"
  by (simp add: refusals_def newline_def)

lemma refused_ack:
  assumes "m \<in> set refusals"
  shows "readAck R (refuseRepair m) \<noteq> Inr claim"
proof -
  have nl: "newline \<notin> set (''ERROR: '' @ m)" and len: "length m < 100" and ascii: "\<forall>c\<in>set m. byte c < 0x80" using refused_line assms by (auto simp only: list_all_iff)
  have "take (16 * 2 ^ 10) (refuseRepair m) = refuseRepair m" using len by (simp add: refuseRepair_def)
  then have "fst (ReadLine (take (16 * 2 ^ 10) (refuseRepair m))) = Inr (refuseRepair m)"
    using ReadLine_line [OF nl, of "[]"] by (simp add: refuseRepair_def)
  moreover have "hd (Fields (refuseRepair m)) \<noteq> ''OK''" using refused_fields [OF ascii] by simp
  ultimately show ?thesis by (auto simp: readAck_def result_inv split: list.splits)
qed

lemma receiveBlock_refusal: "receiveBlock K inp = (Inl e, m) \<Longrightarrow> m \<in> set refusals"
  by (auto simp: receiveBlock_def refusals_def split: sum.splits prod.splits if_splits)

lemma HandleRepairStream_error:
  "HandleRepairStream R p inp s = Some (reply, Some e, t) \<Longrightarrow> \<exists>m\<in>set refusals. reply = refuseRepair m"
  using receiveBlock_refusal [of "rq_stack R" inp]
  by (auto simp: HandleRepairStream_def Let_def split: sum.splits prod.splits if_splits option.splits) (auto simp: refusals_def)

text \<open>The other end of a stream: the reply of the handler in the state the receiver is in.\<close>

definition repairPeer :: "('c, 'd, 'b, 'n) repair_cfg \<Rightarrow> string \<Rightarrow> ('c, 'd, 'b, 'n) stack_state \<Rightarrow> stream" where
  "repairPeer Q sourcePeer u msg =
     (case HandleRepairStream Q sourcePeer msg u of None \<Rightarrow> Inl (ErrMsg ''stream reset'') | Some (reply, _, _) \<Rightarrow> Inr reply)"

lemma HandleRepairStream_stores:
  assumes "blockStore (rq_stack Q)" "datastore_contract (sk_ds (rq_stack Q))"
    and "\<forall>m. sk_locks (rq_stack Q) = Some m \<longrightarrow> km_store m = dsLockStore (sk_ds (rq_stack Q))"
    and "receiveBlock (rq_stack Q) msg = (Inr (c, data), m)" "\<not> IsZero (KeyFromData (sk_Sum256 (rq_stack Q)) data)"
    and "HandleRepairStream Q sourcePeer msg u = Some (reply, None, v)"
  shows "c = sk_Cid (rq_stack Q) data \<and> sk_GetBlock (rq_stack Q) (ss_bs v) c = Inr data
    \<and> (mapped (rq_stack Q) (KeyFromData (sk_Sum256 (rq_stack Q)) data) c v \<or> mappingFails (rq_stack Q) (KeyFromData (sk_Sum256 (rq_stack Q)) data) c)"
proof -
  obtain t k c' w where "PutRawBlock (rq_stack Q) data u = (Inr c, t)" and p: "PutRawBlockIndexed (rq_stack Q) data (sk_locks (rq_stack Q)) None t = Some (Inr (k, c'), w)"
    and v: "v = recordReplica (rq_stack Q) k sourcePeer c' w"
    using assms(4,6) by (auto simp: HandleRepairStream_def Let_def split: sum.splits prod.splits if_splits option.splits)
  then have "c = sk_Cid (rq_stack Q) data" by (intro PutRawBlock_cid)
  with PutRawBlockIndexed_found [OF assms(1-3) assms(5) p] v show ?thesis by auto
qed


subsection \<open>Giving up a peer\<close>

text \<open>A run of the probes of a node: calls of \<open>measureRTT\<close> for any peers, with or without an address, and time that passes between them,
  in which the measurements that are cached may be those of other calls. The history of a peer holds the pings that were
  made to it with an address, the latest first, each with the time it ended and whether it was answered.\<close>

definition pinged :: "('c, 'd, 'b, 'n) repair_cfg \<Rightarrow> string \<Rightarrow> string option \<Rightarrow> ('c, 'd, 'b, 'n) repair_state \<Rightarrow> bool" where
  "pinged R pid addr s \<longleftrightarrow> rq_rttProbe R = None \<and> pid \<noteq> [] \<and> pid \<noteq> sk_self (rq_stack R)
     \<and> \<not> (\<exists>c. rs_rttCache s pid = Some c \<and> usableRTT c (rs_now s) addr)"

inductive probed :: "('c, 'd, 'b, 'n) repair_cfg \<Rightarrow> string \<Rightarrow> (int \<times> bool) list \<Rightarrow> ('c, 'd, 'b, 'n) repair_state \<Rightarrow> bool"
  for R :: "('c, 'd, 'b, 'n) repair_cfg" and pid :: string where
  start: "rs_livenessFailures s pid = None \<Longrightarrow> probed R pid [] s"
| call: "probed R pid h s \<Longrightarrow> measureRTT R q addr s = (r, t) \<Longrightarrow>
    probed R pid (if q = pid \<and> addr \<noteq> None \<and> pinged R pid addr s
                  then (rs_now t, is_ok (fst (rq_ping R pid addr (rs_now s)))) # h else h) t"
| wait: "probed R pid h s \<Longrightarrow> rs_now s \<le> rs_now u \<Longrightarrow> rs_livenessFailures u = rs_livenessFailures s \<Longrightarrow> probed R pid h u"

text \<open>The failed pings since the last answer.\<close>

definition failures :: "(int \<times> bool) list \<Rightarrow> (int \<times> bool) list" where
  "failures h = takeWhile (\<lambda>(_, answered). \<not> answered) h"

definition spread :: "('c, 'd, 'b, 'n) repair_cfg \<Rightarrow> string \<Rightarrow> (int \<times> bool) list \<Rightarrow> ('c, 'd, 'b, 'n) repair_state \<Rightarrow> bool" where
  "spread R pid h s \<longleftrightarrow>
     (case rs_livenessFailures s pid of
        None \<Rightarrow> failures h = []
      | Some e \<Rightarrow> failures h \<noteq> [] \<and> le_last e \<le> rs_now s \<and> fst (last (failures h)) \<le> le_last e
          \<and> fst (last (failures h)) + (le_count e - 1) * rq_livenessFailureConfirmationInterval R \<le> le_last e)"

lemma spread_evidence:
  assumes "spread R pid h s" "rs_livenessFailures u pid = rs_livenessFailures s pid" "rs_now s \<le> rs_now u"
  shows "spread R pid ((rs_now u, False) # h) (snd (applyLivenessFailureEvidence R pid rtt e u))"
proof (cases "rs_livenessFailures u pid")
  case None
  with assms show ?thesis by (auto simp: spread_def failures_def applyLivenessFailureEvidence_def Let_def)
next
  case (Some ev)
  let ?i = "rq_livenessFailureConfirmationInterval R"
  have "rs_livenessFailures s pid = Some ev" using Some assms(2) by simp
  with assms(1,3) have ev: "failures h \<noteq> []" "le_last ev \<le> rs_now u" "fst (last (failures h)) \<le> le_last ev"
    "fst (last (failures h)) + (le_count ev - 1) * ?i \<le> le_last ev" by (auto simp: spread_def)
  have more: "failures ((rs_now u, False) # h) \<noteq> []" "last (failures ((rs_now u, False) # h)) = last (failures h)"
    using ev(1) by (simp_all add: failures_def)
  have "fst (last (failures h)) + le_count ev * ?i \<le> rs_now u" if "?i \<le> 0 \<or> rs_now u - le_last ev \<ge> ?i"
    using that ev(2,4) by (auto simp: algebra_simps)
  with Some ev more show ?thesis
    by (simp add: spread_def applyLivenessFailureEvidence_def Let_def)
qed

lemma spread_probe:
  assumes "spread R pid h s" "pingsTakeTime R"
  shows "spread R pid (if addr \<noteq> None then (rs_now (snd (probePeer R pid addr rtt s)), is_ok (fst (rq_ping R pid addr (rs_now s)))) # h else h)
    (snd (probePeer R pid addr rtt s))"
proof -
  obtain r d where p: "rq_ping R pid addr (rs_now s) = (r, d)" by fastforce
  define u where "u = cacheRTT pid r (s\<lparr>rs_stack := (rs_stack s)\<lparr>ss_now := rs_now s + d\<rparr>\<rparr>)"
  have d: "0 \<le> d" using assms(2) p unfolding pingsTakeTime_def by (metis snd_conv)
  have u: "rs_now u = rs_now s + d" "rs_livenessFailures u = rs_livenessFailures s" by (simp_all add: u_def cacheRTT_def)
  have later: "spread R pid h u" using assms(1) d u by (auto simp: spread_def split: option.splits)
  show ?thesis
  proof (cases "addr = None")
    case True
    with later p show ?thesis by (simp add: probePeer_def Let_def u_def)
  next
    case False
    then obtain a where a: "addr = Some a" by blast
    show ?thesis
    proof (cases r)
      case (Inl e)
      then have "probePeer R pid addr rtt s = applyLivenessFailureEvidence R pid rtt e u" using p a by (simp add: probePeer_def Let_def u_def)
      moreover have "spread R pid ((rs_now u, False) # h) (snd (applyLivenessFailureEvidence R pid rtt e u))"
        by (rule spread_evidence [OF assms(1)]) (use u d in simp_all)
      ultimately show ?thesis using p a Inl by (simp add: evidence_now)
    next
      case (Inr x)
      then have "probePeer R pid addr rtt s = (Inr x, clearLivenessFailureEvidence pid u)" using p a by (simp add: probePeer_def Let_def u_def)
      then show ?thesis using p a Inr by (simp add: spread_def failures_def clearLivenessFailureEvidence_def)
    qed
  qed
qed

lemma probePeer_other: "q \<noteq> pid \<Longrightarrow> rs_livenessFailures (snd (probePeer R q addr rtt s)) pid = rs_livenessFailures s pid"
  by (auto simp: probePeer_def Let_def applyLivenessFailureEvidence_def cacheRTT_def clearLivenessFailureEvidence_def
      split: prod.splits sum.splits option.splits)

lemma measureRTT_cases:
  obtains "\<not> pinged R pid addr s" "snd (measureRTT R pid addr s) = s" "rq_rttProbe R = None \<Longrightarrow> pid \<noteq> [] \<Longrightarrow> addr \<noteq> None \<Longrightarrow> is_ok (fst (measureRTT R pid addr s))"
  | rtt where "pinged R pid addr s" "measureRTT R pid addr s = probePeer R pid addr rtt s"
proof (cases "pinged R pid addr s")
  case True
  then have "\<exists>rtt. measureRTT R pid addr s = probePeer R pid addr rtt s"
    by (auto simp: pinged_def measureRTT_def Let_def split: option.splits)
  with True that(2) show ?thesis by blast
next
  case False
  then have "snd (measureRTT R pid addr s) = s" "rq_rttProbe R = None \<Longrightarrow> pid \<noteq> [] \<Longrightarrow> addr \<noteq> None \<Longrightarrow> is_ok (fst (measureRTT R pid addr s))"
    by (auto simp: pinged_def measureRTT_def Let_def usableRTT_def split: option.splits)
  with False that(1) show ?thesis by blast
qed

lemma probed_spread:
  assumes "probed R pid h s" "pingsTakeTime R"
  shows "spread R pid h s"
  using assms(1)
proof induction
  case (start s)
  then show ?case by (simp add: spread_def failures_def)
next
  case (call h s q addr r t)
  then have t: "t = snd (measureRTT R q addr s)" by simp
  show ?case
  proof (cases "q = pid")
    case True
    show ?thesis
    proof (rule measureRTT_cases [of R pid addr s])
      fix rtt assume "pinged R pid addr s" "measureRTT R pid addr s = probePeer R pid addr rtt s"
      then show ?thesis using spread_probe [OF call.IH assms(2), of addr rtt] t True by auto
    qed (use call.IH t True in simp)
  next
    case False
    have "rs_now s \<le> rs_now t" using keepsD [OF clock_measureRTT [OF assms(2)] call.hyps(2) order_refl] .
    moreover have "rs_livenessFailures t pid = rs_livenessFailures s pid"
      by (rule measureRTT_cases [of R q addr s]) (use t probePeer_other [OF False] in auto)
    ultimately show ?thesis using call.IH False by (auto simp: spread_def split: option.splits)
  qed
next
  case (wait h s u)
  then show ?case by (auto simp: spread_def split: option.splits)
qed

text \<open>C34. A measurement of a peer at an address, by pings and not by an injected probe, reports an error, which takes the peer out of the
  replicas, only when it made a ping that failed and the first of the failures since the last answer at an address is at least the
  confirmation interval times one less than the threshold (two if it is not set) ago. A measurement without an address is no part of
  this: it is an error at its first failure. Pings are assumed not to take negative time.\<close>

theorem peer_given_up_late:
  assumes "probed R pid h s" "pingsTakeTime R" "rq_rttProbe R = None" "pid \<noteq> []" "MeasureRTTAt R pid (Some a) s = (Inl err, t)"
  defines "threshold \<equiv> if rq_livenessFailureThreshold R \<le> 0 then defaultLivenessFailureThreshold else rq_livenessFailureThreshold R"
  shows "\<not> is_ok (fst (rq_ping R pid (Some a) (rs_now s)))
    \<and> fst (last (failures ((rs_now t, False) # h))) + (threshold - 1) * rq_livenessFailureConfirmationInterval R \<le> rs_now t"
proof -
  note run = assms(5) [unfolded MeasureRTTAt_def]
  obtain rtt where ping: "pinged R pid (Some a) s" "probePeer R pid (Some a) rtt s = (Inl err, t)"
    by (rule measureRTT_cases [of R pid "Some a" s]) (use run assms(3,4) in auto)
  obtain r d where p: "rq_ping R pid (Some a) (rs_now s) = (r, d)" by fastforce
  define u where "u = cacheRTT pid r (s\<lparr>rs_stack := (rs_stack s)\<lparr>ss_now := rs_now s + d\<rparr>\<rparr>)"
  from ping(2) p obtain e where r: "r = Inl e" and ev: "applyLivenessFailureEvidence R pid rtt e u = (Inl err, t)"
    by (auto simp: probePeer_def Let_def u_def split: sum.splits)
  have "spread R pid ((rs_now t, False) # h) t"
    using spread_probe [OF probed_spread [OF assms(1,2)] assms(2), of "Some a" rtt] ping(2) p r by simp
  moreover obtain x where x: "rs_livenessFailures t pid = Some x" "threshold \<le> le_count x"
    using ev by (auto simp: threshold_def applyLivenessFailureEvidence_def Let_def split: option.splits if_splits)
  ultimately have s: "le_last x \<le> rs_now t" "fst (last (failures ((rs_now t, False) # h))) \<le> le_last x"
    "fst (last (failures ((rs_now t, False) # h))) + (le_count x - 1) * rq_livenessFailureConfirmationInterval R \<le> le_last x"
    by (auto simp: spread_def)
  show ?thesis
  proof (cases "0 < rq_livenessFailureConfirmationInterval R")
    case True
    then have "(threshold - 1) * rq_livenessFailureConfirmationInterval R \<le> (le_count x - 1) * rq_livenessFailureConfirmationInterval R"
      using x(2) by (intro mult_right_mono) auto
    with s p r show ?thesis by simp
  next
    case False
    then have "(threshold - 1) * rq_livenessFailureConfirmationInterval R \<le> 0"
      by (intro mult_nonneg_nonpos) (auto simp: threshold_def defaultLivenessFailureThreshold_def)
    with s p r show ?thesis by simp
  qed
qed

end
