(* ===== verification/Storage_Offers.thy ===== *)
theory Storage_Offers
  imports Storage_Repair Storage_Routing_Props Sync_IBLT
begin

text \<open>
  The advertisements of \<open>storage_available.go\<close> and the loops of \<open>repair.go\<close> that write and use them. The tuple space is a function that writes
  a named tuple, a function that takes one and the state they act on. A loop is the step between two of its timers.
\<close>

subsection \<open>Advertisements\<close>

definition Duration_Seconds :: "int \<Rightarrow> float64" where
  "Duration_Seconds d =
     fadd (float_of (sgn d * (\<bar>d\<bar> div 1000000000))) (fdiv (float_of (sgn d * (\<bar>d\<bar> mod 1000000000))) 1000000000)"

text \<open>The write is an atomic replacement where the tuple space has one, and a put otherwise.\<close>

definition AdvertiseStorageAvailable ::
    "(StorageAvailableOffer \<Rightarrow> bytes result) \<Rightarrow> (string \<Rightarrow> bytes \<Rightarrow> ('t, unit) op) option \<Rightarrow> (string \<Rightarrow> string) \<Rightarrow> int
     \<Rightarrow> string \<Rightarrow> u64 \<Rightarrow> u64 \<Rightarrow> float64 \<Rightarrow> int \<Rightarrow> ('t, unit) op" where
  "AdvertiseStorageAvailable marshal ts pidString now peerID committedStake storageAvailability reputationScore availabilityDuration =
     (case ts of
        None \<Rightarrow> failS (ErrMsg ''tuple space required'')
      | Some write \<Rightarrow>
          bindS (liftR (wrapR ''marshal offer'' (marshal
            \<lparr>of_PeerID = pidString peerID, of_CommittedStake = committedStake, of_StorageAvailability = storageAvailability,
             of_ReputationScore = reputationScore, of_AvailabilityDuration = int_of_float (Duration_Seconds availabilityDuration),
             of_Timestamp = now div 1000000000\<rparr>))) (\<lambda>data.
          tryS (write (StorageAvailableTuplePrefix @ pidString peerID) data) (\<lambda>r. liftR (wrapR ''tuple space put failed'' r))))"

definition WithdrawStorageAvailable :: "(string \<Rightarrow> ('t, bytes) op) option \<Rightarrow> (string \<Rightarrow> string) \<Rightarrow> string \<Rightarrow> ('t, unit) op" where
  "WithdrawStorageAvailable ts pidString peerID =
     (case ts of
        None \<Rightarrow> failS (ErrMsg ''tuple space required'')
      | Some get \<Rightarrow> tryS (get (StorageAvailableTuplePrefix @ pidString peerID)) (\<lambda>r.
          liftR (wrapR ''tuple space get failed'' (bindR r (\<lambda>_. Inr ())))))"

definition UpdateOffer ::
    "(StorageAvailableOffer \<Rightarrow> bytes result) \<Rightarrow> (string \<Rightarrow> bytes \<Rightarrow> ('t, unit) op) option \<Rightarrow> (string \<Rightarrow> string) \<Rightarrow> int
     \<Rightarrow> string \<Rightarrow> u64 \<Rightarrow> u64 \<Rightarrow> float64 \<Rightarrow> int \<Rightarrow> ('t, unit) op" where
  "UpdateOffer marshal ts pidString now peerID stake storage reputation d =
     AdvertiseStorageAvailable marshal ts pidString now peerID stake storage reputation d"

definition deterministicPeerJitter :: "string \<Rightarrow> int \<Rightarrow> int" where
  "deterministicPeerJitter pid window = (if window \<le> 0 then 0 else int (unat (fnv64a pid)) mod window)"

text \<open>One turn of the advertising loop: the result of the advertisement gives the delay before the next.\<close>

record advertising =
  ad_delay :: int
  ad_retry :: int
  ad_published :: bool
  ad_refreshFailed :: bool

definition startAdvertising :: "string \<Rightarrow> int \<Rightarrow> advertising" where
  "startAdvertising self window = \<lparr>ad_delay = deterministicPeerJitter self window, ad_retry = 500000000, ad_published = False, ad_refreshFailed = False\<rparr>"

definition advertiseTurn :: "string \<Rightarrow> unit result \<Rightarrow> advertising \<Rightarrow> advertising" where
  "advertiseTurn self r a =
     (case r of
        Inr _ \<Rightarrow> \<lparr>ad_delay = 30000000000 + deterministicPeerJitter self 30000000000, ad_retry = 500000000, ad_published = True, ad_refreshFailed = False\<rparr>
      | Inl _ \<Rightarrow> a\<lparr>ad_refreshFailed := ad_refreshFailed a \<or> ad_published a, ad_delay := ad_retry a, ad_retry := min (2 * ad_retry a) 30000000000\<rparr>)"

text \<open>The search by a pattern, for a tuple space that has no list of peers: at most twice as many reads as candidates are wanted.\<close>

fun patternCandidates ::
    "('c, 'd, 'b, 'n) repair_cfg \<Rightarrow> (nat \<Rightarrow> bytes result) \<Rightarrow> DistanceCategory option \<Rightarrow> int \<Rightarrow> string set \<Rightarrow> nat \<Rightarrow> nat \<Rightarrow> string set
     \<Rightarrow> PeerCandidate list \<Rightarrow> (('c, 'd, 'b, 'n) repair_state, PeerCandidate list) op" where
  "patternCandidates R reads desired maxCandidates excluded i 0 seen found s = (Inr found, s)"
| "patternCandidates R reads desired maxCandidates excluded i (Suc n) seen found s =
     (let continue = patternCandidates R reads desired maxCandidates excluded (Suc i) n in
      if maxCandidates > 0 \<and> int (length found) \<ge> maxCandidates then (Inr found, s)
      else case reads i of
        Inl e \<Rightarrow> if found = [] then (Inl (ErrWrap ''no storage-available offers found'' e), s) else (Inr found, s)
      | Inr raw \<Rightarrow>
          (case rq_UnmarshalOffer R raw of
             Inl _ \<Rightarrow> continue seen found s
           | Inr offer \<Rightarrow>
               if offerExpired offer (rs_now s) \<or> of_PeerID offer \<in> seen then continue seen found s
               else
                 (case tc_pidDecode (sk_tokens (rq_stack R)) (of_PeerID offer) of
                    Inl _ \<Rightarrow> continue (insert (of_PeerID offer) seen) found s
                  | Inr offerPeer \<Rightarrow>
                      if offerPeer \<in> excluded then continue (insert (of_PeerID offer) seen) found s
                      else
                        (case offerToCandidate R offer s of
                           (Inl _, t) \<Rightarrow> continue (insert (of_PeerID offer) seen) found t
                         | (Inr c, t) \<Rightarrow>
                             continue (insert (of_PeerID offer) seen)
                               (if desired = None \<or> desired = Some (pc_DistanceCategory c) then found @ [c] else found) t))))"

definition findByPattern ::
    "('c, 'd, 'b, 'n) repair_cfg \<Rightarrow> (nat \<Rightarrow> bytes result) \<Rightarrow> DistanceCategory option \<Rightarrow> int \<Rightarrow> string set
     \<Rightarrow> (('c, 'd, 'b, 'n) repair_state, PeerCandidate list) op" where
  "findByPattern R reads desired maxCandidates excluded =
     patternCandidates R reads desired maxCandidates excluded 0 (if maxCandidates \<le> 0 then 1024 else nat (maxCandidates * 2)) {} []"

subsection \<open>Laws\<close>

lemma jitter_bounds: "0 < window \<Longrightarrow> 0 \<le> deterministicPeerJitter pid window \<and> deterministicPeerJitter pid window < window"
  by (simp add: deterministicPeerJitter_def)

lemma advertise_delay:
  assumes "500000000 \<le> ad_retry a" "ad_retry a \<le> 30000000000"
  shows "500000000 \<le> ad_retry (advertiseTurn self r a) \<and> ad_retry (advertiseTurn self r a) \<le> 30000000000
    \<and> 500000000 \<le> ad_delay (advertiseTurn self r a) \<and> ad_delay (advertiseTurn self r a) < 60000000000"
  using assms jitter_bounds [of 30000000000 self] by (auto simp: advertiseTurn_def split: sum.splits)

lemma Duration_Seconds_whole:
  assumes "0 \<le> n" "n < 2 ^ 53"
  shows "Duration_Seconds (n * 1000000000) = of_int n"
proof -
  have "sgn (n * 1000000000) * (\<bar>n * 1000000000\<bar> div 1000000000) = n" using assms(1) by (cases "n = 0") (auto simp: sgn_mult)
  moreover have "\<bar>n * 1000000000\<bar> mod 1000000000 = 0" using assms(1) by (simp add: abs_mult)
  ultimately show ?thesis using fl_int [of n] assms by (auto simp: Duration_Seconds_def float_of_def fadd_def fdiv_def fl_def [of 0])
qed


text \<open>The refresh comes before an offer that was published runs out: the longest delay is half the lifetime of an offer.\<close>

lemma offer_lives:
  assumes "1 \<le> now div 1000000000" "0 < n" "n \<le> 9000000000" "of_Timestamp offer = now div 1000000000" "of_AvailabilityDuration offer = n"
    and "t < (now div 1000000000 + n) * 1000000000"
  shows "\<not> offerExpired offer t"
proof -
  have "wrap64 (n * 1000000000) = n * 1000000000" using assms(2,3) by (intro wrap64_small) simp_all
  then show ?thesis using assms by (simp add: offerExpired_def algebra_simps)
qed

text \<open>A node that has advertised storage for a number of seconds is a candidate for every node that reads its offer until they have passed.\<close>

theorem offer_found:
  assumes "AdvertiseStorageAvailable marshal (Some write) (tc_pidString T) now pid stake storage reputation (n * 1000000000) s0 = (Inr (), s1)"
    and "\<forall>name d u v. write name d u = (Inr (), v) \<longrightarrow> read v name = Inr d" "rq_TsRead R = read s1"
    and "\<forall>offer d. marshal offer = Inr d \<longrightarrow> rq_UnmarshalOffer R d = Inr offer"
    and "sk_tokens (rq_stack R) = T" "\<forall>p. tc_pidDecode T (tc_pidString T p) = Inr p"
    and "1000000000 \<le> now" "0 < n" "n \<le> 9000000000" "rs_now s < (now div 1000000000 + n) * 1000000000" "pid \<notin> excluded"
  shows "\<exists>c t. checkOffer R None excluded pid s = (Some c, t) \<and> pc_PeerID c = pid \<and> pc_StorageAvailability c = storage
    \<and> pc_CommittedStake c = stake"
proof -
  define offer where "offer = \<lparr>of_PeerID = tc_pidString T pid, of_CommittedStake = stake, of_StorageAvailability = storage,
    of_ReputationScore = reputation, of_AvailabilityDuration = n, of_Timestamp = now div 1000000000\<rparr>"
  have "n < 2 ^ 53" using assms(9) by (rule le_less_trans) simp
  then have "int_of_float (Duration_Seconds (n * 1000000000)) = n"
    using Duration_Seconds_whole [of n] assms(8) by (simp add: int_of_float_def)
  then obtain d where d: "marshal offer = Inr d" "write (StorageAvailableTuplePrefix @ tc_pidString T pid) d s0 = (Inr (), s1)"
    using assms(1) by (auto simp: AdvertiseStorageAvailable_def offer_def op_inv result_inv)
  have r: "rq_TsRead R (StorageAvailableTuplePrefix @ tc_pidString T pid) = Inr d" using assms(2,3) d(2) by metis
  have u: "rq_UnmarshalOffer R d = Inr offer" using assms(4) d(1) by blast
  have x: "\<not> offerExpired offer (rs_now s)"
    using offer_lives [of now n offer "rs_now s"] assms(7-10) by (simp add: offer_def zdiv_mono1)
  obtain m t where "MeasureRTT R pid s = (m, t)" by fastforce
  then obtain c where c: "offerToCandidate R offer s = (Inr c, t)" "pc_PeerID c = pid" "pc_StorageAvailability c = storage" "pc_CommittedStake c = stake"
    using assms(5,6) by (auto simp: offerToCandidate_def offer_def bindS_def liftR_def tryS_def retS_def Let_def)
  have "checkOffer R None excluded pid s = (Some c, t)"
    using r u x c assms(5,6,11) by (simp add: checkOffer_def offer_def)
  with c show ?thesis by blast
qed

end
