(* ===== verification/Storage_Token_Props.thy ===== *)
theory Storage_Token_Props
  imports Storage_Token "HOL-Library.Multiset"
begin

text \<open>
  Tokens over a store that keeps what is put into it and that nobody else changes during the operation. Merging keeps every provider
  of both tokens; a put loses a provider only when it is the successor of the stored version; after \<open>SyncTokenOnPut\<close> the node is
  among the providers; \<open>SyncTokenOnDelete\<close> takes exactly the node out, unless it is the last one: then it fails, because a token
  without locations does not validate.
\<close>

definition providers :: "Token \<Rightarrow> string set" where
  "providers t = lo_ProviderID ` set (tk_Locations t)"

definition tokenCodec :: "'n token_cfg \<Rightarrow> bool" where
  "tokenCodec C \<longleftrightarrow> (\<forall>j d. tc_Marshal C j = Inr d \<longrightarrow> d \<noteq> [] \<and> tc_Unmarshal C d = Inr j)
     \<and> (\<forall>p. tc_pidDecode C (tc_pidString C p) = Inr p)
     \<and> (\<forall>a b. tc_NewMultiaddr C a = Inr b \<longrightarrow> tc_NewMultiaddr C b = Inr b)"

text \<open>Tokens whose addresses are texts of parsed addresses.\<close>

definition wfToken :: "'n token_cfg \<Rightarrow> Token \<Rightarrow> bool" where
  "wfToken C t \<longleftrightarrow> length (tk_Key t) = 32 \<and> (\<forall>l\<in>set (tk_Locations t). tc_NewMultiaddr C (lo_Address l) = Inr (lo_Address l))"

definition quietToken :: "'n token_cfg \<Rightarrow> bool" where
  "quietToken C \<longleftrightarrow> reliableStore (tc_dht C) \<and> (\<forall>d n. vs_GetValue (tc_dht C) (tc_others C d n) = vs_GetValue (tc_dht C) n)"

subsection \<open>Round trips\<close>

lemma parse_print_locations:
  assumes "tokenCodec C" "\<forall>l\<in>set ls. tc_NewMultiaddr C (lo_Address l) = Inr (lo_Address l)"
  shows "parseLocations C (map (\<lambda>l. \<lparr>lj_ProviderID = tc_pidString C (lo_ProviderID l), lj_Address = lo_Address l, lj_RTT = lo_RTT l\<rparr>) ls) = Inr ls"
  using assms(2) by (induction ls) (use assms(1) in \<open>simp_all add: tokenCodec_def\<close>)

lemma Token_roundtrip:
  assumes "tokenCodec C" "wfToken C t" "Token_Marshal C t = Inr d"
  shows "d \<noteq> [] \<and> Token_Unmarshal C d = Inr t"
  using assms by (auto simp: Token_Marshal_def Token_Unmarshal_def wfToken_def tokenCodec_def ParseKey_String parse_print_locations [OF assms(1)])

lemma parseLocations_wf:
  assumes "tokenCodec C"
  shows "parseLocations C ljs = Inr ls \<Longrightarrow> \<forall>l\<in>set ls. tc_NewMultiaddr C (lo_Address l) = Inr (lo_Address l)"
  using assms by (induction ljs arbitrary: ls) (auto simp: result_inv tokenCodec_def)

lemma ParseKey_length: "ParseKey s = Inr k \<Longrightarrow> length k = 32"
  by (auto simp: ParseKey_def fail_if_def split: if_splits option.splits)

lemma GetToken_wf:
  assumes "tokenCodec C" "GetToken C k st = Inr t"
  shows "wfToken C t \<and> tk_Locations t \<noteq> [] \<and> \<not> IsZero (tk_Key t)"
proof -
  from assms(2) obtain d where "Token_Unmarshal C d = Inr t" "d \<noteq> []" "Token_Validate t = Inr ()"
    by (auto simp: GetToken_def result_inv)
  then show ?thesis using parseLocations_wf [OF assms(1)]
    by (auto simp: Token_Unmarshal_def Token_Validate_def wfToken_def result_inv dest: ParseKey_length)
qed

lemma GetToken_cong: "vs_GetValue (tc_dht C) n = vs_GetValue (tc_dht C) n' \<Longrightarrow> GetToken C k n = GetToken C k n'"
  by (simp add: GetToken_def)

lemma dhtPut_inv:
  "dhtPut C key d s = (r, u) \<longleftrightarrow>
     (\<exists>q n. vs_PutValue (tc_dht C) key d (du_net s) = (q, n) \<and> r = wrapR ''DHT put token failed'' q \<and> u = s\<lparr>du_net := n\<rparr>)"
  by (auto simp: dhtPut_def split: prod.splits)

lemma PutToken_Inr:
  assumes "reliableStore (tc_dht C)" "tokenCodec C" "wfToken C t" "PutToken C k t s = (Inr (), u)"
  shows "GetToken C k (du_net u) = Inr t"
proof -
  from assms(4) obtain d n where d: "Token_Marshal C t = Inr d" "\<not> IsZero k" "Token_Validate t = Inr ()"
    and n: "vs_PutValue (tc_dht C) (tokenDHTKey k) d (du_net s) = (Inr (), n)" "u = s\<lparr>du_net := n\<rparr>"
    by (auto simp: PutToken_def op_inv result_inv dhtPut_inv eq_commute [of "Inr _" "wrapR _ _"])
  then have "vs_GetValue (tc_dht C) (du_net u) (tokenDHTKey k) = Inr d" using reliableStore_Inr [OF assms(1) n(1)] by simp
  with d Token_roundtrip [OF assms(2,3) d(1)] show ?thesis by (simp add: GetToken_def)
qed

lemma wrapR_Inl: "wrapR m r = Inl e \<longleftrightarrow> (\<exists>e'. r = Inl e' \<and> e = ErrWrap m e')"
  by (cases r) auto

lemma PutToken_Inl:
  assumes "reliableStore (tc_dht C)" "PutToken C k t s = (Inl e, u)"
  shows "vs_GetValue (tc_dht C) (du_net u) = vs_GetValue (tc_dht C) (du_net s)"
proof -
  have "vs_GetValue (tc_dht C) (du_net u) = vs_GetValue (tc_dht C) (du_net s)" if "dhtPut C key d s = (Inl e, u)" for key d
    using that reliableStore_Inl [OF assms(1)] by (fastforce simp: dhtPut_inv eq_commute [of "Inl _" "wrapR _ _"] wrapR_Inl)
  with assms(2) show ?thesis
    by (auto simp: PutToken_def fail_ifS_def failS_inv bindS_Inl liftR_inv split: if_splits)
qed

subsection \<open>Merging\<close>

definition locMap :: "'n token_cfg \<Rightarrow> (string \<times> Location) list \<Rightarrow> bool" where
  "locMap C m \<longleftrightarrow> distinct (map fst m) \<and> (\<forall>(k, l)\<in>set m. k = tc_pidString C (lo_ProviderID l))"

lemma update_mem: "x \<in> set (AList.update k v m) \<Longrightarrow> x = (k, v) \<or> x \<in> set m"
  by (induction m) (auto split: if_splits)

lemma locMap_update: "locMap C m \<Longrightarrow> locMap C (AList.update (tc_pidString C (lo_ProviderID l)) l m)"
  unfolding locMap_def using update_mem by (fastforce simp: distinct_update)

lemma locMap_fold: "locMap C m \<Longrightarrow> locMap C (foldl (\<lambda>m l. AList.update (tc_pidString C (lo_ProviderID l)) l m) m ls)"
  by (induction ls arbitrary: m) (simp_all add: locMap_update)

lemma keys_fold:
  "fst ` set (foldl (\<lambda>m l. AList.update (tc_pidString C (lo_ProviderID l)) l m) m ls) = fst ` set m \<union> (tc_pidString C \<circ> lo_ProviderID) ` set ls"
  by (induction ls arbitrary: m) (auto simp: dom_update)

lemma fold_last:
  assumes "distinct (map (tc_pidString C \<circ> lo_ProviderID) ls)" "l \<in> set ls"
  shows "map_of (foldl (\<lambda>m l. AList.update (tc_pidString C (lo_ProviderID l)) l m) m ls) (tc_pidString C (lo_ProviderID l)) = Some l"
  using assms
proof (induction ls rule: rev_induct)
  case (snoc x ls)
  then show ?case by (cases "x = l") (auto simp: update_conv' rev_image_eqI)
qed simp

lemma pidString_inj: "tokenCodec C \<Longrightarrow> inj (tc_pidString C)"
  unfolding tokenCodec_def by (metis injI sum.inject(2))

definition addAll :: "'n token_cfg \<Rightarrow> (string \<times> Location) list \<Rightarrow> Location list \<Rightarrow> (string \<times> Location) list" where
  "addAll C m ls = foldl (\<lambda>m l. AList.update (tc_pidString C (lo_ProviderID l)) l m) m ls"

lemma mergeLocations_addAll: "mergeLocations C ls rs = map snd (sort_key (tc_rank C \<circ> fst) (addAll C (addAll C [] ls) rs))"
  by (simp add: mergeLocations_def addAll_def Let_def)

lemma addAll_keys: "fst ` set (addAll C m ls) = fst ` set m \<union> (\<lambda>l. tc_pidString C (lo_ProviderID l)) ` set ls"
  by (simp add: addAll_def keys_fold)

lemma addAll_locMap: "locMap C m \<Longrightarrow> locMap C (addAll C m ls)"
  by (simp add: addAll_def locMap_fold)

lemma addAll_last:
  "distinct (map (tc_pidString C \<circ> lo_ProviderID) ls) \<Longrightarrow> l \<in> set ls \<Longrightarrow>
     map_of (addAll C m ls) (tc_pidString C (lo_ProviderID l)) = Some l"
  by (simp add: addAll_def fold_last)

lemma addAll_subset: "snd ` set (addAll C m xs) \<subseteq> snd ` set m \<union> set xs"
proof (induction xs arbitrary: m)
  case (Cons x xs)
  have "snd ` set (AList.update (tc_pidString C (lo_ProviderID x)) x m) \<subseteq> insert x (snd ` set m)" by (auto dest!: update_mem)
  with Cons [of "AList.update (tc_pidString C (lo_ProviderID x)) x m"] show ?case by (auto simp: addAll_def)
qed (simp add: addAll_def)

lemma locMap_distinct: "locMap C m \<Longrightarrow> distinct (map (lo_ProviderID \<circ> snd) m)"
  by (induction m) (force simp: locMap_def)+

lemma locMap_keys: "locMap C m \<Longrightarrow> fst ` set m = tc_pidString C ` lo_ProviderID ` snd ` set m"
  by (force simp: locMap_def)

lemma distinct_sort_map: "distinct (map f (sort_key g m)) \<longleftrightarrow> distinct (map f m)"
  by (rule mset_eq_imp_distinct_iff) (simp only: mset_map mset_sort)

lemma mergeLocations_providers:
  assumes "tokenCodec C"
  shows "distinct (map lo_ProviderID (mergeLocations C ls rs))"
    and "lo_ProviderID ` set (mergeLocations C ls rs) = lo_ProviderID ` set ls \<union> lo_ProviderID ` set rs"
    and "set (mergeLocations C ls rs) \<subseteq> set ls \<union> set rs"
    and "distinct (map lo_ProviderID rs) \<Longrightarrow> set rs \<subseteq> set (mergeLocations C ls rs)"
proof -
  let ?m = "addAll C (addAll C [] ls) rs"
  note inj = pidString_inj [OF assms]
  have m: "locMap C ?m" by (intro addAll_locMap) (simp add: locMap_def)
  show "distinct (map lo_ProviderID (mergeLocations C ls rs))"
    unfolding mergeLocations_addAll map_map distinct_sort_map by (rule locMap_distinct [OF m])
  have "tc_pidString C ` lo_ProviderID ` snd ` set ?m = tc_pidString C ` (lo_ProviderID ` set ls \<union> lo_ProviderID ` set rs)"
    unfolding locMap_keys [OF m, symmetric] addAll_keys by (simp add: image_Un image_image)
  then show "lo_ProviderID ` set (mergeLocations C ls rs) = lo_ProviderID ` set ls \<union> lo_ProviderID ` set rs"
    using inj by (simp add: mergeLocations_addAll inj_image_eq_iff)
  show "set (mergeLocations C ls rs) \<subseteq> set ls \<union> set rs"
    using addAll_subset [of C "addAll C [] ls" rs] addAll_subset [of C "[]" ls] by (auto simp: mergeLocations_addAll)
  assume "distinct (map lo_ProviderID rs)"
  then have "distinct (map (tc_pidString C \<circ> lo_ProviderID) rs)"
    using inj by (auto simp: distinct_map comp_inj_on inj_on_subset)
  from addAll_last [OF this] show "set rs \<subseteq> set (mergeLocations C ls rs)"
    by (force simp: mergeLocations_addAll dest!: map_of_SomeD)
qed


text \<open>C39. The resolution of a conflict of two tokens of one key keeps every provider of both, once each, at an address one of them
  has, the remote one where both list the provider and the remote lists it once. Its version is the successor of the greater one as
  a 64-bit \<open>int\<close>: one above both, except when one of them is the largest \<open>int\<close>, where the version wraps to the smallest one and is
  below both. The text of a peer identifier is assumed to name one peer and marshalling to be undone by unmarshalling.\<close>

theorem token_merge:
  assumes "tokenCodec C" "tk_Key local = tk_Key remote" "goInt (tk_Version local)" "goInt (tk_Version remote)"
  shows "providers (ResolveTokenConflict C local remote) = providers local \<union> providers remote
    \<and> distinct (map lo_ProviderID (tk_Locations (ResolveTokenConflict C local remote)))
    \<and> set (tk_Locations (ResolveTokenConflict C local remote)) \<subseteq> set (tk_Locations local) \<union> set (tk_Locations remote)
    \<and> (distinct (map lo_ProviderID (tk_Locations remote)) \<longrightarrow>
         set (tk_Locations remote) \<subseteq> set (tk_Locations (ResolveTokenConflict C local remote)))
    \<and> (if max (tk_Version local) (tk_Version remote) < 2 ^ 63 - 1
       then tk_Version (ResolveTokenConflict C local remote) = max (tk_Version local) (tk_Version remote) + 1
       else tk_Version (ResolveTokenConflict C local remote) = - (2 ^ 63))"
proof -
  define v where "v = max (tk_Version local) (tk_Version remote)"
  have "goInt v" using assms(3,4) by (simp add: v_def max_def)
  then have "wrap64 (v + 1) = (if v < 2 ^ 63 - 1 then v + 1 else - (2 ^ 63))"
    using wrap64_succ [of v] by (auto simp: goInt_def)
  with mergeLocations_providers [OF assms(1)] assms(2) show ?thesis
    unfolding v_def [symmetric] by (simp add: ResolveTokenConflict_def providers_def v_def [symmetric])
qed

subsection \<open>Puts\<close>

lemma wf_resolve:
  assumes "tokenCodec C" "wfToken C a" "wfToken C b"
  shows "wfToken C (ResolveTokenConflict C a b)"
  using assms mergeLocations_providers(3) [OF assms(1), of "tk_Locations a" "tk_Locations b"]
  by (auto simp: wfToken_def ResolveTokenConflict_def)

lemma sleepToken_inv: "sleepToken C d s = (r, t) \<longleftrightarrow> r = Inr () \<and> t = s\<lparr>du_now := du_now s + d, du_net := tc_others C d (du_net s)\<rparr>"
  by (auto simp: sleepToken_def)

text \<open>What is stored after a successful put, given what was stored before.\<close>

definition putResult :: "'n token_cfg \<Rightarrow> Token \<Rightarrow> Token result \<Rightarrow> Token \<Rightarrow> bool" where
  "putResult C new before after \<longleftrightarrow>
     (case before of
        Inl _ \<Rightarrow> after\<lparr>tk_Timestamp := 0\<rparr> = new\<lparr>tk_Timestamp := 0\<rparr>
      | Inr cur \<Rightarrow>
          if tk_Version new = wrap64 (tk_Version cur + 1) then after\<lparr>tk_Timestamp := 0\<rparr> = new\<lparr>tk_Timestamp := 0\<rparr>
          else after = ResolveTokenConflict C new cur)"

lemma same_but_time:
  assumes "t\<lparr>tk_Timestamp := 0\<rparr> = t'\<lparr>tk_Timestamp := 0\<rparr>"
  shows "tk_Locations t = tk_Locations t' \<and> tk_Version t = tk_Version t'"
  using arg_cong [OF assms, of tk_Locations] arg_cong [OF assms, of tk_Version] by simp

lemma putLoop_result:
  assumes q: "quietToken C" and c: "tokenCodec C"
  shows "putLoop C k m n new s = (Inr (), u) \<Longrightarrow> wfToken C new \<Longrightarrow>
    \<exists>t. GetToken C k (du_net u) = Inr t \<and> putResult C new (GetToken C k (du_net s)) t"
proof (induction n arbitrary: new s)
  case 0
  then show ?case by (simp add: failS_def)
next
  case (Suc n)
  from q have r: "reliableStore (tc_dht C)" by (simp add: quietToken_def)
  show ?case
  proof (cases "GetToken C k (du_net s)")
    case (Inl e)
    with Suc.prems(1) have "PutToken C k new s = (Inr (), u)" by (simp add: readS_def)
    from PutToken_Inr [OF r c Suc.prems(2) this] Inl show ?thesis by (simp add: putResult_def)
  next
    case (Inr cur)
    define direct where "direct = (tk_Version new = wrap64 (tk_Version cur + 1))"
    define new' where "new' = (if direct then new\<lparr>tk_Timestamp := du_now s\<rparr> else new)"
    define cand where "cand = (if direct then new' else ResolveTokenConflict C new cur)"
    have wf: "wfToken C new'" "wfToken C cand"
      using Suc.prems(2) wf_resolve [OF c Suc.prems(2)] GetToken_wf [OF c Inr] by (auto simp: new'_def cand_def wfToken_def)
    obtain p v where put: "PutToken C k cand s = (p, v)" by (cases "PutToken C k cand s")
    have body: "putLoop C k m (Suc n) new s =
      (case p of Inr _ \<Rightarrow> retS ()
       | Inl e \<Rightarrow>
           if n > 0 then bindS (sleepToken C (50000000 * int (m - n))) (\<lambda>_. putLoop C k m n new')
           else failS (ErrWrap (if direct then ''put token failed after attempts'' else ''put resolved token failed after attempts'') e)) v"
      unfolding putLoop.simps readS_def tryS_def Inr prod.case sum.case Let_def direct_def [symmetric] new'_def [symmetric] cand_def [symmetric] put ..
    show ?thesis
    proof (cases p)
      case (Inr x)
      with Suc.prems(1) have "v = u" unfolding body by (simp add: retS_def)
      with PutToken_Inr [OF r c wf(2)] put Inr have "GetToken C k (du_net u) = Inr cand" by simp
      then show ?thesis using \<open>GetToken C k (du_net s) = Inr cur\<close> by (auto simp: putResult_def cand_def new'_def direct_def)
    next
      case (Inl e)
      let ?w = "v\<lparr>du_now := du_now v + 50000000 * int (m - n), du_net := tc_others C (50000000 * int (m - n)) (du_net v)\<rparr>"
      from Suc.prems(1) Inl have again: "putLoop C k m n new' ?w = (Inr (), u)"
        unfolding body by (simp add: failS_def bindS_def sleepToken_def split: if_splits)
      have "vs_GetValue (tc_dht C) (du_net ?w) = vs_GetValue (tc_dht C) (du_net s)"
        using q PutToken_Inl [OF r put [unfolded Inl]] by (simp add: quietToken_def)
      then have "GetToken C k (du_net ?w) = Inr cur" using GetToken_cong \<open>GetToken C k (du_net s) = Inr cur\<close> by metis
      with Suc.IH [OF again wf(1)] \<open>GetToken C k (du_net s) = Inr cur\<close> show ?thesis
        by (auto simp: putResult_def new'_def direct_def split: if_splits)
    qed
  qed
qed


lemma PutTokenWithConflictResolution_result:
  assumes "quietToken C" "tokenCodec C" "wfToken C new" "PutTokenWithConflictResolution C k new m s = (Inr (), u)"
  shows "\<exists>t. GetToken C k (du_net u) = Inr t \<and> putResult C new (GetToken C k (du_net s)) t"
  using putLoop_result [OF assms(1,2) _ assms(3)] assms(4)
  by (auto simp: PutTokenWithConflictResolution_def op_inv Let_def)

lemma put_keeps_providers:
  assumes "quietToken C" "tokenCodec C" "wfToken C new" "PutTokenWithConflictResolution C k new m s = (Inr (), u)"
  shows "\<exists>t. GetToken C k (du_net u) = Inr t \<and> providers new \<subseteq> providers t
    \<and> (\<forall>cur. GetToken C k (du_net s) = Inr cur \<longrightarrow> tk_Key cur = tk_Key new \<longrightarrow>
         (if tk_Version new = wrap64 (tk_Version cur + 1) then tk_Locations t = tk_Locations new else providers cur \<subseteq> providers t))"
proof -
  from PutTokenWithConflictResolution_result [OF assms]
  obtain t where t: "GetToken C k (du_net u) = Inr t" and p: "putResult C new (GetToken C k (du_net s)) t" by blast
  note same = same_but_time [of t new]
  show ?thesis
  proof (cases "GetToken C k (du_net s)")
    case (Inl e)
    with t p same show ?thesis by (auto simp: putResult_def providers_def)
  next
    case (Inr cur)
    have "providers new \<subseteq> providers (ResolveTokenConflict C new cur)"
      using mergeLocations_providers(2) [OF assms(2)] by (simp add: ResolveTokenConflict_def providers_def)
    moreover have "providers cur \<subseteq> providers (ResolveTokenConflict C new cur)" if "tk_Key cur = tk_Key new"
      using that mergeLocations_providers(2) [OF assms(2)] by (simp add: ResolveTokenConflict_def providers_def)
    ultimately show ?thesis using t p same Inr by (auto simp: putResult_def providers_def split: if_splits)
  qed
qed

text \<open>After a successful put the stored token lists every provider of the new token, and every provider of the token it found,
  unless the new token is the successor of the version it found, which is how a removal is written.\<close>

theorem token_put_keeps_providers:
  assumes "quietToken C" "tokenCodec C" "wfToken C new" "PutTokenWithConflictResolution C k new m s = (Inr (), u)"
  shows "\<exists>t. GetToken C k (du_net u) = Inr t \<and> providers new \<subseteq> providers t
    \<and> (\<forall>cur. GetToken C k (du_net s) = Inr cur \<longrightarrow> tk_Key cur = tk_Key new \<longrightarrow>
         (if tk_Version new = wrap64 (tk_Version cur + 1) then tk_Locations t = tk_Locations new else providers cur \<subseteq> providers t))"
  using assms by (rule put_keeps_providers)

subsection \<open>Updates\<close>

lemma PutTokenWithConflictResolution_failed:
  assumes "quietToken C" "PutTokenWithConflictResolution C k new 1 s = (Inl e, u)"
  shows "vs_GetValue (tc_dht C) (du_net u) = vs_GetValue (tc_dht C) (du_net s)"
proof (cases "GetToken C k (du_net s)")
  case (Inl e')
  with assms PutToken_Inl show ?thesis
    by (fastforce simp: PutTokenWithConflictResolution_def fail_ifS_def failS_inv readS_def quietToken_def split: if_splits)
next
  case (Inr cur)
  define cand where "cand = (if tk_Version new = wrap64 (tk_Version cur + 1) then new\<lparr>tk_Timestamp := du_now s\<rparr> else ResolveTokenConflict C new cur)"
  obtain p v where put: "PutToken C k cand s = (p, v)" by (cases "PutToken C k cand s")
  have r: "reliableStore (tc_dht C)" using assms(1) by (simp add: quietToken_def)
  show ?thesis
  proof (cases p)
    case (Inl e')
    with assms(2) put \<open>GetToken C k (du_net s) = Inr cur\<close> have "u = v \<or> u = s"
      by (auto simp: PutTokenWithConflictResolution_def cand_def fail_ifS_def failS_def readS_def tryS_def split: if_splits)
    with PutToken_Inl [OF r put [unfolded Inl]] show ?thesis by auto
  next
    case (Inr x)
    with assms(2) put \<open>GetToken C k (du_net s) = Inr cur\<close> show ?thesis
      by (auto simp: PutTokenWithConflictResolution_def cand_def fail_ifS_def failS_def retS_def readS_def tryS_def split: if_splits)
  qed
qed

lemma updateLoop_result:
  assumes q: "quietToken C" and c: "tokenCodec C" and wf: "\<And>t. wfToken C t \<Longrightarrow> wfToken C (f t)"
  shows "updateLoop C k f m n s = (Inr (), u) \<Longrightarrow>
    \<exists>cur t. GetToken C k (du_net s) = Inr cur \<and> GetToken C k (du_net u) = Inr t
      \<and> tk_Locations t = tk_Locations (f cur) \<and> tk_Version t = wrap64 (tk_Version cur + 1)"
proof (induction n arbitrary: s)
  case 0
  then show ?case by (simp add: failS_def)
next
  case (Suc n)
  then obtain cur where cur: "GetToken C k (du_net s) = Inr cur"
    by (cases "GetToken C k (du_net s)") (auto simp: readS_def failS_def)
  define new where "new = (f cur)\<lparr>tk_Version := wrap64 (tk_Version cur + 1), tk_Timestamp := du_now s\<rparr>"
  obtain p v where put: "PutTokenWithConflictResolution C k new 1 s = (p, v)" by (cases "PutTokenWithConflictResolution C k new 1 s")
  have body: "updateLoop C k f m (Suc n) s =
      (case p of Inr _ \<Rightarrow> retS ()
       | Inl e \<Rightarrow> if n > 0 then bindS (sleepToken C (50000000 * int (m - n))) (\<lambda>_. updateLoop C k f m n)
                  else failS (ErrWrap ''update token failed after attempts'' e)) v"
    unfolding updateLoop.simps readS_def tryS_def cur prod.case sum.case new_def [symmetric] put ..
  have "wfToken C new" using wf [of cur] GetToken_wf [OF c cur] by (simp add: new_def wfToken_def)
  show ?case
  proof (cases p)
    case (Inr x)
    with Suc.prems have "v = u" unfolding body by (simp add: retS_def)
    with put Inr have "PutTokenWithConflictResolution C k new 1 s = (Inr (), u)" by simp
    from PutTokenWithConflictResolution_result [OF q c \<open>wfToken C new\<close> this]
    obtain t where t: "GetToken C k (du_net u) = Inr t" "putResult C new (GetToken C k (du_net s)) t" by blast
    then have "t\<lparr>tk_Timestamp := 0\<rparr> = new\<lparr>tk_Timestamp := 0\<rparr>" by (simp add: putResult_def cur new_def)
    from same_but_time [OF this] t cur show ?thesis by (auto simp: new_def)
  next
    case (Inl e)
    let ?w = "v\<lparr>du_now := du_now v + 50000000 * int (m - n), du_net := tc_others C (50000000 * int (m - n)) (du_net v)\<rparr>"
    from Suc.prems Inl have again: "updateLoop C k f m n ?w = (Inr (), u)"
      unfolding body by (simp add: failS_def bindS_def sleepToken_def split: if_splits)
    have "vs_GetValue (tc_dht C) (du_net ?w) = vs_GetValue (tc_dht C) (du_net s)"
      using q PutTokenWithConflictResolution_failed [OF q put [unfolded Inl]] by (simp add: quietToken_def)
    then have "GetToken C k (du_net ?w) = Inr cur" using GetToken_cong cur by metis
    with Suc.IH [OF again] cur show ?thesis by auto
  qed
qed

lemma Update_result:
  assumes "quietToken C" "tokenCodec C" "\<And>t. wfToken C t \<Longrightarrow> wfToken C (f t)" "UpdateTokenWithConflictResolution C k f m s = (Inr (), u)"
  shows "\<exists>cur t. GetToken C k (du_net s) = Inr cur \<and> GetToken C k (du_net u) = Inr t
      \<and> tk_Locations t = tk_Locations (f cur) \<and> tk_Version t = wrap64 (tk_Version cur + 1)"
  using updateLoop_result [OF assms(1-3)] assms(4) by (auto simp: UpdateTokenWithConflictResolution_def op_inv Let_def)


subsection \<open>Storage operations\<close>

lemma wf_addLocation: "tc_NewMultiaddr C (lo_Address l) = Inr (lo_Address l) \<Longrightarrow> wfToken C t \<Longrightarrow> wfToken C (addLocation l t)"
  by (auto simp: wfToken_def addLocation_def)

lemma wf_dropLocation: "wfToken C t \<Longrightarrow> wfToken C (dropLocation p t)"
  by (auto simp: wfToken_def dropLocation_def)

lemma readToken_quiet:
  assumes "quietToken C"
  shows "readToken C k a n s = (r, u) \<Longrightarrow> r = Inr (GetToken C k (du_net s)) \<and> vs_GetValue (tc_dht C) (du_net u) = vs_GetValue (tc_dht C) (du_net s)"
proof (induction n arbitrary: a s)
  case 0
  then show ?case by (auto simp: readS_def retS_def)
next
  case (Suc n)
  show ?case
  proof (cases "\<exists>e. GetToken C k (du_net s) = Inl e \<and> \<not> isTokenAbsent e")
    case True
    let ?w = "s\<lparr>du_now := du_now s + 100000000 * 2 ^ a, du_net := tc_others C (100000000 * 2 ^ a) (du_net s)\<rparr>"
    from True Suc.prems have "readToken C k (Suc a) n ?w = (r, u)" by (auto simp: readS_def bindS_def sleepToken_def)
    moreover have "vs_GetValue (tc_dht C) (du_net ?w) = vs_GetValue (tc_dht C) (du_net s)" using assms by (simp add: quietToken_def)
    ultimately show ?thesis using Suc.IH [of "Suc a" ?w] GetToken_cong [of C "du_net ?w" "du_net s" k] by simp
  next
    case False
    with Suc.prems show ?thesis by (cases "GetToken C k (du_net s)") (auto simp: readS_def retS_def)
  qed
qed

text \<open>After \<open>SyncTokenOnPut\<close> the node is among the providers of the stored token, and no provider that was there is lost.\<close>

theorem token_sync_put:
  assumes "quietToken C" "tokenCodec C" "length k = 32" "\<forall>a\<in>set addrs. tc_NewMultiaddr C a = Inr a"
    and "SyncTokenOnPut C peerID addrs k s = (Inr (), u)"
  shows "\<exists>t. GetToken C k (du_net u) = Inr t \<and> peerID \<in> providers t
    \<and> (\<forall>cur. GetToken C k (du_net s) = Inr cur \<longrightarrow> providers t = insert peerID (providers cur) \<and> tk_Version t = wrap64 (tk_Version cur + 1))"
proof -
  define loc where "loc = \<lparr>lo_ProviderID = peerID, lo_Address = (case pickRoutableAddr addrs of None \<Rightarrow> hd addrs | Some a \<Rightarrow> a), lo_RTT = 0\<rparr>"
  from assms(5) have addrs: "addrs \<noteq> []" by (auto simp: SyncTokenOnPut_def op_inv)
  then have "lo_Address loc \<in> set addrs"
    by (auto simp: loc_def pickRoutableAddr_def find_Some_iff split: option.splits)
  then have wf: "tc_NewMultiaddr C (lo_Address loc) = Inr (lo_Address loc)" using assms(4) by blast
  obtain g v where rd: "readToken C k 0 4 s = (g, v)" by (cases "readToken C k 0 4 s")
  from readToken_quiet [OF assms(1) rd] have g: "g = Inr (GetToken C k (du_net s))"
    and "vs_GetValue (tc_dht C) (du_net v) = vs_GetValue (tc_dht C) (du_net s)" by blast+
  then have v: "GetToken C k (du_net v) = GetToken C k (du_net s)" by (intro GetToken_cong)
  show ?thesis
  proof (cases "GetToken C k (du_net s)")
    case (Inl e)
    with assms(5) rd g have "PutTokenWithConflictResolution C k \<lparr>tk_Key = k, tk_Locations = [loc], tk_Timestamp = du_now v, tk_Version = 1\<rparr> 3 v = (Inr (), u)"
      by (auto simp: SyncTokenOnPut_def fail_ifS_def failS_def bindS_def readS_def tryS_inv liftR_inv wrapR_Inr loc_def Let_def split: if_splits)
    from put_keeps_providers [OF assms(1,2) _ this] wf assms(3) Inl v show ?thesis
      by (auto simp: wfToken_def providers_def loc_def)
  next
    case (Inr cur)
    with assms(5) rd g have "UpdateTokenWithConflictResolution C k (addLocation loc) 3 v = (Inr (), u)"
      by (auto simp: SyncTokenOnPut_def fail_ifS_def failS_def bindS_def tryS_inv liftR_inv wrapR_Inr loc_def Let_def split: if_splits)
    from Update_result [OF assms(1,2) wf_addLocation [OF wf] this] v Inr
    obtain t where "GetToken C k (du_net u) = Inr t" "tk_Locations t = tk_Locations (addLocation loc cur)" "tk_Version t = wrap64 (tk_Version cur + 1)" by auto
    then show ?thesis using Inr by (auto simp: providers_def addLocation_def loc_def split: if_splits)
  qed
qed


lemma updateLoop_failed:
  assumes q: "quietToken C"
  shows "updateLoop C k f m n s = (Inl e, u) \<Longrightarrow> vs_GetValue (tc_dht C) (du_net u) = vs_GetValue (tc_dht C) (du_net s)"
proof (induction n arbitrary: s)
  case 0
  then show ?case by (simp add: failS_def)
next
  case (Suc n)
  show ?case
  proof (cases "GetToken C k (du_net s)")
    case (Inl e')
    with Suc.prems show ?thesis by (simp add: readS_def failS_def)
  next
    case (Inr cur)
    define new where "new = (f cur)\<lparr>tk_Version := wrap64 (tk_Version cur + 1), tk_Timestamp := du_now s\<rparr>"
    obtain p v where put: "PutTokenWithConflictResolution C k new 1 s = (p, v)" by (cases "PutTokenWithConflictResolution C k new 1 s")
    let ?w = "v\<lparr>du_now := du_now v + 50000000 * int (m - n), du_net := tc_others C (50000000 * int (m - n)) (du_net v)\<rparr>"
    have body: "updateLoop C k f m (Suc n) s =
        (case p of Inr _ \<Rightarrow> (Inr (), v)
         | Inl e \<Rightarrow> if n > 0 then updateLoop C k f m n ?w else (Inl (ErrWrap ''update token failed after attempts'' e), v))"
      unfolding updateLoop.simps readS_def tryS_def Inr prod.case sum.case new_def [symmetric] put
      by (simp add: bindS_def sleepToken_def failS_def retS_def split: sum.splits)
    from Suc.prems obtain e' where p: "p = Inl e'" unfolding body by (cases p) auto
    from PutTokenWithConflictResolution_failed [OF q put [unfolded p]]
    have v: "vs_GetValue (tc_dht C) (du_net v) = vs_GetValue (tc_dht C) (du_net s)" .
    have w: "vs_GetValue (tc_dht C) (du_net ?w) = vs_GetValue (tc_dht C) (du_net v)" using q by (simp add: quietToken_def)
    show ?thesis using Suc.prems Suc.IH [of ?w] v w unfolding body p by (simp split: if_splits)
  qed
qed

lemma Update_failed:
  assumes "quietToken C" "UpdateTokenWithConflictResolution C k f m s = (Inl e, u)"
  shows "vs_GetValue (tc_dht C) (du_net u) = vs_GetValue (tc_dht C) (du_net s)"
  using assms(2) updateLoop_failed [OF assms(1)]
  by (auto simp: UpdateTokenWithConflictResolution_def fail_ifS_def failS_def Let_def split: if_splits)

text \<open>When \<open>SyncTokenOnDelete\<close> succeeds on a stored token, the node is taken out of it and the other providers are as they were.\<close>

theorem token_sync_delete:
  assumes "quietToken C" "tokenCodec C" "GetToken C k (du_net s) = Inr cur" "SyncTokenOnDelete C peerID k s = (Inr (), u)"
  shows "\<exists>t. GetToken C k (du_net u) = Inr t \<and> tk_Locations t = filter (\<lambda>l. lo_ProviderID l \<noteq> peerID) (tk_Locations cur)"
proof -
  obtain r v where upd: "UpdateTokenWithConflictResolution C k (dropLocation peerID) 3 s = (r, v)"
    by (cases "UpdateTokenWithConflictResolution C k (dropLocation peerID) 3 s")
  show ?thesis
  proof (cases r)
    case (Inl e)
    from Update_failed [OF assms(1) upd [unfolded Inl]] have "GetToken C k (du_net v) = Inr cur" using assms(3) GetToken_cong by metis
    with assms(4) upd Inl show ?thesis
      by (auto simp: SyncTokenOnDelete_def fail_ifS_def failS_def tryS_def readS_def split: if_splits)
  next
    case (Inr x)
    with assms(4) upd have "UpdateTokenWithConflictResolution C k (dropLocation peerID) 3 s = (Inr (), u)"
      by (auto simp: SyncTokenOnDelete_def fail_ifS_def failS_def tryS_def retS_def split: if_splits)
    from Update_result [OF assms(1,2) wf_dropLocation this] assms(3) show ?thesis by (auto simp: dropLocation_def)
  qed
qed

lemma PutToken_empty:
  assumes "tk_Locations t = []"
  shows "\<exists>e. PutToken C k t s = (Inl e, s)"
proof -
  obtain e where "Token_Validate t = Inl e"
    using assms by (cases "IsZero (tk_Key t)") (auto simp: Token_Validate_def)
  then show ?thesis by (auto simp: PutToken_def fail_ifS_def failS_def bindS_def liftR_def)
qed

lemma update_to_empty:
  assumes q: "quietToken C" and get: "\<And>n. vs_GetValue (tc_dht C) n = vs_GetValue (tc_dht C) n0 \<Longrightarrow> GetToken C k n = Inr cur"
    and empty: "tk_Locations (f cur) = []" and z: "\<not> IsZero k"
  shows "vs_GetValue (tc_dht C) (du_net s) = vs_GetValue (tc_dht C) n0 \<Longrightarrow>
    \<exists>e u. updateLoop C k f m n s = (Inl e, u) \<and> vs_GetValue (tc_dht C) (du_net u) = vs_GetValue (tc_dht C) n0"
proof (induction n arbitrary: s)
  case 0
  then show ?case by (simp add: failS_def)
next
  case (Suc n)
  define new where "new = (f cur)\<lparr>tk_Version := wrap64 (tk_Version cur + 1), tk_Timestamp := du_now s\<rparr>"
  note cur = get [OF Suc.prems]
  from PutToken_empty [of "new\<lparr>tk_Timestamp := du_now s\<rparr>" C k s] empty
  obtain e where "PutToken C k (new\<lparr>tk_Timestamp := du_now s\<rparr>) s = (Inl e, s)" by (auto simp: new_def)
  then have "\<exists>e. PutTokenWithConflictResolution C k new 1 s = (Inl e, s)"
    using z cur by (simp add: PutTokenWithConflictResolution_def readS_def tryS_def failS_def new_def)
  then obtain e where put: "PutTokenWithConflictResolution C k new 1 s = (Inl e, s)" by blast
  let ?w = "s\<lparr>du_now := du_now s + 50000000 * int (m - n), du_net := tc_others C (50000000 * int (m - n)) (du_net s)\<rparr>"
  have body: "updateLoop C k f m (Suc n) s = (if n > 0 then updateLoop C k f m n ?w else (Inl (ErrWrap ''update token failed after attempts'' e), s))"
    unfolding updateLoop.simps readS_def tryS_def cur prod.case sum.case new_def [symmetric] put
    by (simp add: bindS_def sleepToken_def failS_def)
  have "vs_GetValue (tc_dht C) (du_net ?w) = vs_GetValue (tc_dht C) n0" using q Suc.prems by (simp add: quietToken_def)
  with Suc.IH [of ?w] Suc.prems show ?case unfolding body by auto
qed

text \<open>A node that is the last provider cannot take itself out of the token: the deletion reports an error and the token stays,
  still naming the node.\<close>

theorem token_last_provider_stays:
  assumes "quietToken C" "GetToken C k (du_net s) = Inr cur" "providers cur = {peerID}"
  shows "\<exists>e u. SyncTokenOnDelete C peerID k s = (Inl e, u) \<and> GetToken C k (du_net u) = Inr cur"
proof -
  have z: "\<not> IsZero k" using assms(2) by (auto simp: GetToken_def result_inv)
  have "tk_Locations (dropLocation peerID cur) = []" using assms(3) by (auto simp: dropLocation_def providers_def filter_empty_conv)
  from update_to_empty [where f = "dropLocation peerID", OF assms(1) _ this z, of "du_net s" s 3 3] assms(2) GetToken_cong
  obtain e u where u: "updateLoop C k (dropLocation peerID) 3 3 s = (Inl e, u)" "vs_GetValue (tc_dht C) (du_net u) = vs_GetValue (tc_dht C) (du_net s)"
    by metis
  with assms(2) have "GetToken C k (du_net u) = Inr cur" using GetToken_cong by metis
  with u z show ?thesis
    by (simp add: SyncTokenOnDelete_def UpdateTokenWithConflictResolution_def tryS_def readS_def failS_def)
qed

end
