(* ===== verification/Storage_Token_Witness.thy ===== *)
theory Storage_Token_Witness
  imports Storage_Token_Props Storage_Lock_Props
begin

text \<open>The theorems on tokens at a concrete store, an association list, with a codec for a table of tokens.\<close>

definition exLoc :: "string \<Rightarrow> Location" where
  "exLoc p = \<lparr>lo_ProviderID = p, lo_Address = ''/ip4/10.0.0.1/tcp/1'', lo_RTT = 0\<rparr>"

definition exToken :: "string list \<Rightarrow> int \<Rightarrow> Token" where
  "exToken ps v = \<lparr>tk_Key = exKey, tk_Locations = map exLoc ps, tk_Timestamp = 0, tk_Version = v\<rparr>"

definition exTokenJSON :: "string list \<Rightarrow> int \<Rightarrow> tokenJSON" where
  "exTokenJSON ps v = \<lparr>tj_Key = Key_String exKey, tj_Locations = map (\<lambda>p. \<lparr>lj_ProviderID = p, lj_Address = ''/ip4/10.0.0.1/tcp/1'', lj_RTT = 0\<rparr>) ps,
     tj_Timestamp = 0, tj_Version = v\<rparr>"

definition exTokenTable :: "tokenJSON list" where
  "exTokenTable = [exTokenJSON [''p''] 1, exTokenJSON [''p'', ''q''] 2, exTokenJSON [''p''] 3]"

definition exTokens :: "(string \<times> bytes) list token_cfg" where
  "exTokens = \<lparr>tc_dht = mapStore, tc_pidString = (\<lambda>p. p), tc_pidDecode = Inr, tc_NewMultiaddr = Inr,
     tc_Marshal = tableMarshal exTokenTable, tc_Unmarshal = tableUnmarshal exTokenTable, tc_rank = (\<lambda>_. 0), tc_others = (\<lambda>_ n. n)\<rparr>"

definition exTokenAt :: "nat list \<Rightarrow> (string \<times> bytes) list clocked" where
  "exTokenAt writes = \<lparr>du_now = 0, du_net = map (\<lambda>i. (tokenDHTKey exKey, [char_of i])) writes\<rparr>"

lemma exTokens_quiet: "quietToken exTokens"
  by (auto simp: quietToken_def reliableStore_def exTokens_def mapStore_def)

lemma exTokens_codec: "tokenCodec exTokens"
proof -
  have "d \<noteq> [] \<and> tableUnmarshal exTokenTable d = Inr j" if "tableMarshal exTokenTable j = Inr d" for j d
    using that table_roundtrip [OF that] by (auto simp: tableMarshal_def exTokenTable_def split: option.splits)
  then show ?thesis by (simp add: tokenCodec_def exTokens_def)
qed

lemma ex_fields: "providers (exToken ps v) = set ps" "tk_Key (exToken ps v) = exKey" "tk_Version (exToken ps v) = v"
  by (simp_all add: exToken_def providers_def exLoc_def image_image)

theorem token_merge_witness:
  "providers (ResolveTokenConflict exTokens (exToken [''p''] 2) (exToken [''p'', ''q''] 5)) = {''p'', ''q''}
   \<and> tk_Version (ResolveTokenConflict exTokens (exToken [''p''] 2) (exToken [''p'', ''q''] 5)) = 6
   \<and> tk_Version (ResolveTokenConflict exTokens (exToken [''p''] (2 ^ 63 - 1)) (exToken [''q''] 0)) = - (2 ^ 63)"
  using token_merge [OF exTokens_codec, of "exToken [''p''] 2" "exToken [''p'', ''q''] 5"]
    token_merge [OF exTokens_codec, of "exToken [''p''] (2 ^ 63 - 1)" "exToken [''q''] 0"]
  by (simp add: ex_fields insert_commute goInt_def)

lemmas ex_token_eval = GetToken_def PutToken_def dhtPut_def Token_Marshal_def Token_Unmarshal_def Token_Validate_def exTokens_def exTokenAt_def
  exTokenTable_def exTokenJSON_def mapStore_def tableMarshal_def tableUnmarshal_def exKey_nonzero exKey_length ParseKey_String upt_rec

lemma ex_get: "GetToken exTokens exKey (du_net (exTokenAt [0])) = Inr (exToken [''p''] 1)"
  "GetToken exTokens exKey (du_net (exTokenAt [1, 0])) = Inr (exToken [''p'', ''q''] 2)"
  by (simp_all add: ex_token_eval exToken_def exLoc_def)

lemma ex_put: "PutToken exTokens exKey (exToken [''p'', ''q''] 2) (exTokenAt [0]) = (Inr (), exTokenAt [1, 0])"
  "PutToken exTokens exKey (exToken [''p''] 3) (exTokenAt [1, 0]) = (Inr (), exTokenAt [2, 1, 0])"
  by (simp_all add: ex_token_eval exToken_def exLoc_def)

lemma ex_now: "du_now (exTokenAt ws) = 0"
  by (simp add: exTokenAt_def)

lemma ex_stamp: "(exToken ps v)\<lparr>tk_Timestamp := 0\<rparr> = exToken ps v" "tk_Version (exToken ps v) = v"
  by (simp_all add: exToken_def)

lemma ex_successor: "wrap64 2 = 2"
  by (simp add: wrap64_def)

lemma ex_sync_put: "SyncTokenOnPut exTokens ''q'' [''/ip4/10.0.0.1/tcp/1''] exKey (exTokenAt [0]) = (Inr (), exTokenAt [1, 0])"
proof -
  have loc: "\<lparr>lo_ProviderID = ''q'', lo_Address = (case pickRoutableAddr [''/ip4/10.0.0.1/tcp/1''] of None \<Rightarrow> hd [''/ip4/10.0.0.1/tcp/1''] | Some a \<Rightarrow> a), lo_RTT = 0\<rparr> = exLoc ''q''"
    by (simp add: pickRoutableAddr_def exLoc_def)
  have rd: "readToken exTokens exKey 0 4 (exTokenAt [0]) = (Inr (Inr (exToken [''p''] 1)), exTokenAt [0])"
    by (simp add: numeral_eq_Suc readS_def ex_get retS_def)
  have up: "(addLocation (exLoc ''q'') (exToken [''p''] 1))\<lparr>tk_Version := 2, tk_Timestamp := 0\<rparr> = exToken [''p'', ''q''] 2"
    by (simp add: addLocation_def exToken_def exLoc_def)
  have put: "PutTokenWithConflictResolution exTokens exKey (exToken [''p'', ''q''] 2) 1 (exTokenAt [0]) = (Inr (), exTokenAt [1, 0])"
    by (simp add: PutTokenWithConflictResolution_def exKey_nonzero readS_def ex_get ex_put ex_successor ex_now ex_stamp tryS_def retS_def)
  show ?thesis
    unfolding SyncTokenOnPut_def Let_def loc
    by (simp add: exKey_nonzero bindS_def rd UpdateTokenWithConflictResolution_def Let_def numeral_3_eq_3 readS_def ex_get ex_successor ex_now ex_stamp up put tryS_def retS_def liftR_def)
qed

theorem token_sync_put_witness:
  "SyncTokenOnPut exTokens ''q'' [''/ip4/10.0.0.1/tcp/1''] exKey (exTokenAt [0]) = (Inr (), exTokenAt [1, 0])
   \<and> (\<exists>t. GetToken exTokens exKey (du_net (exTokenAt [1, 0])) = Inr t \<and> providers t = {''q'', ''p''} \<and> tk_Version t = 2)"
  using token_sync_put [OF exTokens_quiet exTokens_codec exKey_length _ ex_sync_put] ex_sync_put ex_get(1)
  by (auto simp: exTokens_def ex_fields ex_successor)

theorem token_last_provider_stays_witness:
  "\<exists>e u. SyncTokenOnDelete exTokens ''p'' exKey (exTokenAt [0]) = (Inl e, u) \<and> GetToken exTokens exKey (du_net u) = Inr (exToken [''p''] 1)"
  by (rule token_last_provider_stays [OF exTokens_quiet ex_get(1)]) (simp add: providers_def exToken_def exLoc_def)

end
