(* ===== verification/Storage_Stack_Witness.thy ===== *)
theory Storage_Stack_Witness
  imports Storage_Stack_Props Storage_Routing_Props Storage_Token_Witness Names_Instance
begin

text \<open>The theorems on blocks and on the routing table at a concrete node: blocks are their own identifiers, and the lock of a key is a record
  in the map that is the datastore.\<close>

definition exData :: bytes where "exData = ''x''"
definition exHash :: content_key where "exHash = pad32 ''x''"

definition exNodeLocks :: "kv keyLockManager" where
  "exNodeLocks = \<lparr>km_store = dsLockStore map_datastore, km_DefaultTTL = 10, km_pidString = (\<lambda>p. p), km_pidDecode = Inr,
     km_Marshal = (\<lambda>j. Inr ''lock''),
     km_Unmarshal = (\<lambda>_. Inr \<lparr>kj_Key = Key_String exHash, kj_LockHolder = ''a'', kj_AcquiredAt = 0, kj_ExpiresAt = 10, kj_Version = 0\<rparr>)\<rparr>"

definition exStack :: "(bytes, kv, bytes \<Rightarrow> bytes option, (string \<times> bytes) list) stack_cfg" where
  "exStack = \<lparr>sk_Sum256 = Sum256 toy, sk_Cid = (\<lambda>d. d), sk_String = (\<lambda>c. c), sk_Decode = Inr, sk_ds = map_datastore,
     sk_GetBlock = (\<lambda>b c. case b c of None \<Rightarrow> Inl (ErrMsg ''missing'') | Some d \<Rightarrow> Inr d),
     sk_AddBlock = (\<lambda>c raw b. (Inr (), b(c \<mapsto> raw))), sk_DeleteBlock = (\<lambda>c b. (Inr (), b(c := None))),
     sk_Marshal = (\<lambda>_. Inl (ErrMsg ''no index'')), sk_Unmarshal = (\<lambda>_. Inl (ErrMsg ''no index'')),
     sk_self = ''a'', sk_Addrs = [''/ip4/10.0.0.1/tcp/1''], sk_locks = Some exNodeLocks,
     sk_lockCtx = \<lparr>lc_Deadline = None, lc_cancelled = (\<lambda>_. False), lc_others = (\<lambda>_ d. d)\<rparr>, sk_PutLockRetryConfig = None,
     sk_TokenStore = Some (tc_dht exTokens), sk_DHT = None, sk_tokens = exTokens, sk_names = toy, sk_PrivKey = None, sk_Nonce = [],
     sk_PublicOf = Inr\<rparr>"

definition exBoot :: "(bytes, kv, bytes \<Rightarrow> bytes option, (string \<times> bytes) list) stack_state" where
  "exBoot = \<lparr>ss_now = 0, ss_ds = (\<lambda>_. None), ss_bs = (\<lambda>_. None), ss_net = [], ss_ProviderRecords = None, ss_AnnounceQueue = None,
     ss_announced = 0, ss_RoutingTable = Some [], ss_providerClaims = (\<lambda>_. None)\<rparr>"

lemma exHash_facts: "KeyFromData (Sum256 toy) exData = exHash" "length exHash = 32" "\<not> IsZero exHash"
proof -
  have "hd exHash = CHR ''x''" by (simp add: exHash_def pad32_def)
  moreover have "hd zeroKey = CHR 0x00" by code_simp
  ultimately show "\<not> IsZero exHash" by (auto simp: IsZero_def)
qed (simp_all add: KeyFromData_def toy_def exData_def exHash_def)

lemma exStack_fields [simp]:
  "sk_Sum256 exStack = Sum256 toy" "sk_Cid exStack = (\<lambda>d. d)" "sk_ds exStack = map_datastore" "sk_self exStack = ''a''"
  "sk_locks exStack = Some exNodeLocks" "sk_PutLockRetryConfig exStack = None"
  by (simp_all add: exStack_def)

lemma exStack_contracts:
  "blockStore exStack" "cidCodec exStack" "datastore_contract (sk_ds exStack)"
  "\<forall>m. sk_locks exStack = Some m \<longrightarrow> km_store m = dsLockStore (sk_ds exStack)" "\<forall>m. length (sk_Sum256 exStack m) = 32"
  by (auto simp: blockStore_def cidCodec_def exStack_def exNodeLocks_def map_ds.datastore_contract_axioms toy_def)

lemma exStack_mapping: "\<not> mappingFails exStack k c"
  by (simp add: mappingFails_def exStack_def map_datastore_def)

lemma ex_acquire:
  "AcquireLock exNodeLocks exHash ''a'' 0 (lockView exBoot) = (Inr (), \<lparr>du_now = 0, du_net = [lockDHTKey exHash \<mapsto> ''lock'']\<rparr>)"
  by (simp add: AcquireLock_def acquireRead_def getLock_def putLock_def readS_def onStore_def exHash_facts lockView_def exBoot_def
      exNodeLocks_def dsLockStore_def map_datastore_def KeyLock_Marshal_def Let_def)

lemma ignoreS_ok: "\<exists>t. ignoreS f s = (Inr (), t)"
  by (auto simp: ignoreS_def tryS_def retS_def split: prod.split)

lemma ex_put_block: "\<exists>t. PutBlock exStack exData exBoot = Some (Inr (exHash, exData), t)"
proof -
  have l: "AcquireLockWithRetry exNodeLocks c exHash ''a'' 0 None (lockView exBoot)
      = Some (Inr (), \<lparr>du_now = 0, du_net = [lockDHTKey exHash \<mapsto> ''lock'']\<rparr>)" for c
    unfolding AcquireLockWithRetry_def Let_def by (subst acquireLoop.simps) (simp add: ex_acquire)
  have b: "\<exists>t. bindS (putRawBlockIndexedInner exStack exData exHash) (\<lambda>c. retS (exHash, c)) u = (Inr (exHash, exData), t)" for u
    by (simp add: putRawBlockIndexedInner_def PutRawBlock_def exStack_def bindS_def tryS_def retS_def onBlocks_def onData_def map_datastore_def)
  let ?u = "exBoot\<lparr>ss_now := 0, ss_ds := [lockDHTKey exHash \<mapsto> ''lock'']\<rparr>"
  obtain v where v: "bindS (putRawBlockIndexedInner exStack exData exHash) (\<lambda>c. retS (exHash, c)) ?u = (Inr (exHash, exData), v)" using b by blast
  obtain w where w: "ignoreS (onLocks (ReleaseLock exNodeLocks exHash ''a'')) v = (Inr (), w)" by (meson ignoreS_ok)
  have "tryS (bindS (putRawBlockIndexedInner exStack exData exHash) (\<lambda>c. retS (exHash, c)))
      (\<lambda>r. bindS (ignoreS (onLocks (ReleaseLock exNodeLocks exHash ''a''))) (\<lambda>_. liftR r)) ?u = (Inr (exHash, exData), w)"
    unfolding tryS_def v by (simp add: bindS_def w liftR_def)
  then show ?thesis using l by (simp add: PutBlock_def PutRawBlockIndexed_def withLock_def exHash_facts)
qed


text \<open>A node that has the token of another node's block, and a peer that serves it.\<close>

definition exReply :: bytes where "exReply = ''OK'' @ [newline] @ dec 1 @ [newline] @ exData"

lemma ex_remote_token: "GetToken exTokens exKey (du_net (exTokenAt [0])) = Inr (exToken [''p''] 1)" by (rule ex_get(1))

definition exFetcher :: "(bytes, kv, bytes \<Rightarrow> bytes option, (string \<times> bytes) list) stack_cfg" where
  "exFetcher = exStack\<lparr>sk_Sum256 := (\<lambda>_. exKey)\<rparr>"

lemma ex_fetch: "Stack_GetBlock exFetcher (\<lambda>_. Inr (\<lambda>_. Inr exReply)) (\<lambda>ls. ls) True exKey (exBoot\<lparr>ss_net := du_net (exTokenAt [0])\<rparr>) = Inr exData"
proof -
  have "fetchReply (\<lambda>_. exKey) exKey exReply = Inr exData"
    using fetchReply_roundtrip [of "\<lambda>_. exKey" exData exKey] by (simp add: exReply_def exData_def KeyFromData_def MaxTransferBlockSize_def)
  moreover have "tokenValueStore exFetcher = Some exTokens" by (simp add: tokenValueStore_def exFetcher_def exStack_def)
  ultimately show ?thesis using ex_remote_token exKey_nonzero
    by (simp add: Stack_GetBlock_def DirectFetch_def exFetcher_def firstFetched_def exToken_def)
qed

theorem remote_get_verified_witness:
  "Stack_GetBlock exFetcher (\<lambda>_. Inr (\<lambda>_. Inr exReply)) (\<lambda>ls. ls) True exKey (exBoot\<lparr>ss_net := du_net (exTokenAt [0])\<rparr>) = Inr exData
   \<and> KeyFromData (sk_Sum256 exFetcher) exData = exKey"
  using remote_get_verified [OF ex_fetch] ex_fetch by simp

subsection \<open>The routing table\<close>

definition exRouting :: "bytes RoutingTable" where
  "exRouting = RT_AddProvider 2 exKey ''q'' DistanceNear (RT_Set 1 exKey ''p'' DefaultReplicationVector (Some ''c'') NewRoutingTable)"

theorem routing_table_wellformed_witness: "rtReach exRouting \<and> tableOk exRouting"
proof -
  have "rtReach exRouting" unfolding exRouting_def by (intro rtReach.intros)
  with routing_table_wellformed show ?thesis by blast
qed

lemma ex_providers: "map pi_ProviderID (tableProviders (Some exRouting) exKey) = [''p'', ''q'']"
  using exKey_nonzero by (simp add: tableProviders_def tableEntry_def RT_Get_def exRouting_def RT_AddProvider_def RT_Set_def NewRoutingTable_def hasProvider_def)

text \<open>Of two providers in the table one answers a probe; the key has one replica of two.\<close>

theorem verification_sound_witness:
  "\<exists>v. VerifyKeyStateWithRepVector exKey (Some exRouting) (None :: (unit token_cfg \<times> unit) option) ''a''
        (Some (\<lambda>p _ s. (if p = ''p'' then Inr 1 else Inl (ErrMsg ''down''), s))) 2 None () = (Inr v, ())
     \<and> pd_ProviderID ` set (vf_Providers v) \<union> set (vf_UnreachableProviders v) = {''p'', ''q''}
     \<and> ''q'' \<notin> pd_ProviderID ` set (vf_Providers v)"
proof -
  let ?m = "\<lambda>p (_ :: string option) s. (if p = ''p'' then Inr 1 else Inl (ErrMsg ''down'') :: int result, s :: unit)"
  have "\<exists>v. VerifyKeyStateWithRepVector exKey (Some exRouting) (None :: (unit token_cfg \<times> unit) option) ''a'' (Some ?m) 2 None () = (Inr v, ())"
    using exKey_nonzero by (simp add: VerifyKeyStateWithRepVector_def Let_def split_beta)
  then obtain v where v: "VerifyKeyStateWithRepVector exKey (Some exRouting) (None :: (unit token_cfg \<times> unit) option) ''a'' (Some ?m) 2 None () = (Inr v, ())"
    by blast
  have "pi_ProviderID ` set (tableProviders (Some exRouting) exKey) = {''p'', ''q''}" using ex_providers by (metis empty_set list.set(2) set_map)
  moreover have "tokenLocations (None :: (unit token_cfg \<times> unit) option) exKey = []" by (simp add: tokenLocations_def)
  ultimately have all: "pd_ProviderID ` set (vf_Providers v) \<union> set (vf_UnreachableProviders v) = {''p'', ''q''}"
    and reach: "\<forall>pid\<in>pd_ProviderID ` set (vf_Providers v). pid = ''a'' \<or> answers (Some ?m) pid"
    using verification_sound [OF v] by simp_all
  have "\<not> answers (Some ?m) ''q''" by (simp add: answers_def)
  with reach have "''q'' \<notin> pd_ProviderID ` set (vf_Providers v)" by force
  with v all show ?thesis by blast
qed

end
