(* ===== verification/Storage_Repair_Witness.thy ===== *)
theory Storage_Repair_Witness
  imports Storage_Repair_Props Storage_Offers Storage_Stack_Witness
begin

text \<open>The theorems on repair at two nodes: the receiver stores the block and signs its claim, the sender checks the claim and counts the replica.\<close>

definition exPriv :: bytes where "exPriv = replicate 64 (CHR ''q'')"

definition exReceiverStack :: "(bytes, kv, bytes \<Rightarrow> bytes option, (string \<times> bytes) list) stack_cfg" where
  "exReceiverStack = exStack\<lparr>sk_self := ''q'', sk_locks := None, sk_PrivKey := Some exPriv, sk_Nonce := replicate 16 (CHR ''n'')\<rparr>"

definition exClaim :: ProviderClaim where
  "exClaim = \<lparr>pc_Version = FormatVersion, pc_ContentKey = exHash, pc_Provider = pad32 exPriv, pc_Address = ''/ip4/10.0.0.1/tcp/1'',
     pc_Expires = 1 + 48 * 3600000000000, pc_Timestamp = 1, pc_Nonce = replicate 16 (CHR ''n''), pc_Signature = []\<rparr>"

definition exSigned :: ProviderClaim where
  "exSigned = exClaim\<lparr>pc_Signature := pad32 exPriv @ pad32 (rev (ProviderClaimDomain @ CHR ''#'' # fst p_ProviderClaim exClaim))\<rparr>"

definition exClaimRaw :: bytes where "exClaimRaw = CHR ''#'' # fst p_ProviderClaim exSigned"

definition exOffer :: StorageAvailableOffer where
  "exOffer = \<lparr>of_PeerID = ''q'', of_CommittedStake = 0, of_StorageAvailability = 1, of_ReputationScore = 1, of_AvailabilityDuration = 3600, of_Timestamp = 1\<rparr>"

definition exReceiver :: "(bytes, kv, bytes \<Rightarrow> bytes option, (string \<times> bytes) list) repair_cfg" where
  "exReceiver = \<lparr>rq_stack = exReceiverStack, rq_criteria = DefaultSelectionCriteria False, rq_rttProbe = Some (\<lambda>_. Inr 1),
     rq_ping = (\<lambda>_ _ _. (Inr 1, 1)), rq_livenessFailureThreshold = 2, rq_livenessFailureConfirmationInterval = 10,
     rq_Has = (\<lambda>b c. Inr (\<exists>d. c = Some d \<and> b d \<noteq> None)), rq_UndefString = [], rq_Connected = (\<lambda>_. True), rq_PeerAddrs = (\<lambda>_. []),
     rq_Connect = (\<lambda>_ _. Inr ()), rq_NewStream = (\<lambda>_. Inl (ErrMsg ''no route'')), rq_RemoteAddr = (\<lambda>_. None),
     rq_TsRead = (\<lambda>_. Inr ''offer''), rq_UnmarshalOffer = (\<lambda>_. Inr exOffer), rq_PeerIDsToCheck = [''q''],
     rq_b64Encode = (\<lambda>_. ''c''), rq_b64Decode = (\<lambda>_. Inr exClaimRaw)\<rparr>"

definition exNow :: "(bytes, kv, bytes \<Rightarrow> bytes option, (string \<times> bytes) list) stack_state" where "exNow = exBoot\<lparr>ss_now := 1\<rparr>"

definition exSender :: "(bytes, kv, bytes \<Rightarrow> bytes option, (string \<times> bytes) list) repair_cfg" where
  "exSender = exReceiver\<lparr>rq_stack := exStack\<lparr>sk_TokenStore := None, sk_PublicOf := (\<lambda>_. Inr (pad32 exPriv))\<rparr>,
     rq_NewStream := (\<lambda>_. Inr (repairPeer exReceiver ''a'' exNow))\<rparr>"

definition exRepairing :: "(bytes, kv, bytes \<Rightarrow> bytes option, (string \<times> bytes) list) repair_state" where
  "exRepairing = \<lparr>rs_stack = exNow, rs_rttCache = (\<lambda>_. None), rs_livenessFailures = (\<lambda>_. None)\<rparr>"

subsection \<open>The transfer\<close>

lemma ex_sign: "BuildSignedProviderClaim exReceiverStack 1 exHash = Inr exClaimRaw"
proof -
  have p: "length exPriv = 64" by (simp add: exPriv_def)
  show ?thesis using exHash_facts p
    by (simp add: BuildSignedProviderClaim_def exReceiverStack_def exStack_def ProviderClaim_Sign_def ProviderClaim_unsigned_def signingBytes_def
        MarshalCanonical_def toy_def Let_def exClaimRaw_def exSigned_def exClaim_def)
qed

lemma ex_claim_decodes: "UnmarshalCanonical (claimC toy) exClaimRaw = Inr exSigned"
  unfolding exClaimRaw_def toy_codecs by (rule codec_of_unmarshal [OF pickles_ProviderClaim])

lemma ex_claim_valid: "ProviderClaimValidator_Validate toy 1 (claimKey exHash (pad32 exPriv)) exClaimRaw = Inr ()"
proof -
  have b: "\<not> blank ''/ip4/10.0.0.1/tcp/1''" by code_simp
  have u: "ProviderClaim_unsigned exSigned = exClaim" by (simp add: ProviderClaim_unsigned_def exSigned_def exClaim_def)
  have v: "ed_Verify toy = (\<lambda>pk m sig. sig = pk @ pad32 (rev m))" by (simp add: toy_def)
  have "ProviderClaim_Validate toy 1 exSigned = Inr ()"
    unfolding ProviderClaim_Validate_def u using exHash_facts(2) b v
    by (simp add: exSigned_def exClaim_def signingBytes_def MarshalCanonical_def)
  then show ?thesis using ex_claim_decodes
    by (simp add: ProviderClaimValidator_Validate_def Let_def claimKey_def exSigned_def exClaim_def)
qed

lemma ex_contracts:
  "blockStore exReceiverStack" "cidCodec exReceiverStack" "datastore_contract (sk_ds exReceiverStack)"
  "\<forall>m. sk_locks exReceiverStack = Some m \<longrightarrow> km_store m = dsLockStore (sk_ds exReceiverStack)"
  using exStack_contracts by (simp_all add: exReceiverStack_def blockStore_def cidCodec_def)

lemma ex_handled: "\<exists>t. HandleRepairStream exReceiver ''a'' (repairMessage exSender (Some exData) exData) exNow = Some (''OK c'' @ [newline], None, t)"
proof -
  have r: "receiveBlock exReceiverStack (repairMessage exSender (Some exData) exData) = (Inr (exData, exData), [])"
    by (rule receiveBlock_message [OF ex_contracts(2)])
      (simp_all add: exSender_def exReceiver_def exReceiverStack_def exStack_def exData_def newline_def MaxTransferBlockSize_def)
  have p: "\<exists>u. PutRawBlock exReceiverStack exData exNow = (Inr exData, u) \<and> ss_now u = 1"
    by (simp add: PutRawBlock_def Let_def exReceiverStack_def exStack_def bindS_def tryS_def retS_def onBlocks_def exNow_def)
  then obtain u where u: "PutRawBlock exReceiverStack exData exNow = (Inr exData, u)" "ss_now u = 1" by blast
  have "\<exists>v. PutRawBlockIndexed exReceiverStack exData None None u = Some (Inr (exHash, exData), v) \<and> ss_now v = 1"
    using exHash_facts u(2) by (simp add: PutRawBlockIndexed_def withLock_def putRawBlockIndexedInner_def PutRawBlock_def Let_def exReceiverStack_def
        exStack_def bindS_def tryS_def retS_def onBlocks_def onData_def map_datastore_def)
  then obtain v where v: "PutRawBlockIndexed exReceiverStack exData None None u = Some (Inr (exHash, exData), v)" "ss_now v = 1" by blast
  have n: "ss_now (recordReplica exReceiverStack exHash ''a'' exData v) = 1" using v(2) by (simp add: recordReplica_def)
  have q: "rq_stack exReceiver = exReceiverStack" "sk_locks exReceiverStack = None" "rq_b64Encode exReceiver = (\<lambda>_. ''c'')"
    by (simp_all add: exReceiver_def exReceiverStack_def)
  show ?thesis unfolding HandleRepairStream_def Let_def q r using u(1) v(1) n ex_sign by simp
qed

lemma ex_ack: "readAck exSender (''OK c'' @ [newline]) = Inr exClaimRaw"
proof -
  have "ReadLine (''OK c'' @ [newline]) = (Inr (''OK c'' @ [newline]), [])"
    using ReadLine_line [of "''OK c''" "[]"] by (simp add: newline_def)
  moreover have "Fields (''OK c'' @ [newline]) = [''OK'', ''c'']" by code_simp
  ultimately show ?thesis by (simp add: readAck_def exSender_def exReceiver_def)
qed

lemma ex_sender:
  "rq_stack exSender = exStack\<lparr>sk_TokenStore := None, sk_PublicOf := (\<lambda>_. Inr (pad32 exPriv))\<rparr>"
  "rq_NewStream exSender = (\<lambda>_. Inr (repairPeer exReceiver ''a'' exNow))"
  "rq_stack exReceiver = exReceiverStack"
  by (simp_all add: exSender_def exReceiver_def)

lemma ex_published:
  assumes "ss_now s = 1"
  shows "PublishReceivedProviderClaim (rq_stack exSender) ''q'' exHash exClaimRaw s = (Inr (), CacheProviderClaim (claimKey exHash (pad32 exPriv)) exClaimRaw s)"
proof -
  have "pc_ContentKey exSigned = exHash" "pc_Provider exSigned = pad32 exPriv" by (simp_all add: exSigned_def exClaim_def)
  then show ?thesis using exHash_facts(3) ex_claim_decodes ex_claim_valid assms
    by (simp add: PublishReceivedProviderClaim_def ex_sender exStack_def bindS_def liftR_def fail_ifS_def readS_def modifyS_def)
qed

lemma ex_sent:
  assumes "rs_now s = 1"
  shows "\<exists>t. replicateViaDirectStream exSender (Some exData) ''q'' exData syncToken s = (Inr (), t)"
proof -
  have "repairPeer exReceiver ''a'' exNow (repairMessage exSender (Some exData) exData) = Inr (''OK c'' @ [newline])"
    using ex_handled by (auto simp: repairPeer_def)
  moreover have "KeyFromData (sk_Sum256 (rq_stack exSender)) exData = exHash" using exHash_facts(1) by (simp add: ex_sender)
  moreover have "tokenValueStore (rq_stack exSender) = None" by (simp add: tokenValueStore_def ex_sender exStack_def)
  ultimately show ?thesis using ex_ack exHash_facts(3) ex_published [OF assms]
    by (simp add: replicateViaDirectStream_def Let_def ex_sender(2) bindS_def liftR_def fail_ifS_def onStack_def tryS_def retS_def)
qed

lemma exReceiver_mapping: "\<not> mappingFails (rq_stack exReceiver) k c"
  by (simp add: mappingFails_def exReceiver_def exReceiverStack_def exStack_def map_datastore_def)


subsection \<open>The repair\<close>

definition exMissing :: "bytes ReplicaStateVerification" where
  "exMissing = \<lparr>vf_Key = exHash, vf_CID = Some exData, vf_ExpectedRepVector = DefaultReplicationVector, vf_ActualCounts = zeroCounts,
     vf_ExpectedCounts = zeroCounts\<lparr>ct_Total := 1\<rparr>, vf_Providers = [], vf_UnreachableProviders = [''z''], vf_IsSynchronized = False,
     vf_MissingCategories = []\<rparr>"

definition exCandidate :: PeerCandidate where
  "exCandidate = \<lparr>pc_PeerID = ''q'', pc_RTT = 1, pc_DistanceCategory = DistanceNear, pc_CommittedStake = 0, pc_StorageAvailability = 1,
     pc_ReputationScore = 1\<rparr>"

lemma ex_found: "findStorageAvailableCandidates exSender None 0 {''z''} exRepairing = (Inr [exCandidate], exRepairing)"
proof -
  have "tc_pidDecode (sk_tokens exStack) = Inr" by (simp add: exStack_def exTokens_def)
  moreover have "\<not> offerExpired exOffer 1" by (simp add: offerExpired_def exOffer_def wrap64_def)
  moreover have "ClassifyDistanceByRTT 1 None = DistanceNear" by (simp add: ClassifyDistanceByRTT_def DefaultRTTThresholds_def)
  ultimately show ?thesis
    by (simp add: findStorageAvailableCandidates_def sortSlice_def checkOffer_def offerToCandidate_def MeasureRTT_def measureRTT_def exSender_def
        exReceiver_def exRepairing_def exNow_def exOffer_def bindS_def liftR_def tryS_def retS_def Let_def exCandidate_def)
qed

lemma ex_replicated: "\<exists>t. replicateToPeerWithToken exSender (Some exData) ''q'' exData True exRepairing = (Inr (), t)"
proof -
  define s where "s = exRepairing\<lparr>rs_stack := exNow\<lparr>ss_bs := [exData \<mapsto> exData]\<rparr>\<rparr>"
  have n: "rs_now s = 1" by (simp add: s_def exNow_def)
  have "rq_Has exSender (ss_bs (rs_stack exRepairing)) (Some exData) = Inr False"
    by (simp add: exSender_def exReceiver_def exRepairing_def exNow_def exBoot_def)
  moreover have "onStack (PutRawBlock (rq_stack exSender) exData) exRepairing = (Inr exData, s)"
    by (simp add: onStack_def PutRawBlock_def Let_def ex_sender exStack_def bindS_def tryS_def retS_def onBlocks_def s_def exRepairing_def exNow_def exBoot_def)
  moreover have "rq_Connected exSender ''q''" by (simp add: exSender_def exReceiver_def)
  moreover obtain t where "replicateViaDirectStream exSender (Some exData) ''q'' exData True s = (Inr (), t)" using ex_sent [OF n] by blast
  ultimately show ?thesis
    by (simp add: replicateToPeerWithToken_def Let_def readS_def bindS_def liftR_def tryS_def retS_def)
qed

lemma ex_repaired: "\<exists>res t. TriggerRepair exSender exHash exMissing exData exRepairing = (Inr res, t) \<and> rr_ReplicatedPeers res = [''q'']"
proof -
  obtain t where "replicateToPeerWithToken exSender (Some exData) ''q'' exData True exRepairing = (Inr (), t)" using ex_replicated by blast
  then have "replicateCandidate exSender exHash (Some exData) exData exCandidate (v, exRepairing) = (recordSuccess exCandidate v, addReplica exHash exCandidate t)"
    if "rv_remaining v = 1" "rv_existing v = {''z''}" for v
    using that by (simp add: replicateCandidate_def ex_sender exCandidate_def)
  then show ?thesis using exHash_facts(3) ex_found
    by (simp add: TriggerRepair_def Let_def exMissing_def zeroCounts_def repairCID_def repairWith_def repairCategories_def repairCategory_def
        calculateNeededReplicas_def sortSlice_def recordSuccess_def noRepair_def exCandidate_def exData_def)
qed


subsection \<open>A peer that does not answer\<close>

text \<open>A node whose pings all fail at once: the second failure, ten units of time after the first, makes the peer unreachable.\<close>

definition exProber :: "(bytes, kv, bytes \<Rightarrow> bytes option, (string \<times> bytes) list) repair_cfg" where
  "exProber = exReceiver\<lparr>rq_rttProbe := None, rq_ping := (\<lambda>_ _ _. (Inl (ErrMsg ''down''), 0))\<rparr>"

lemma exProber_fields: "rq_rttProbe exProber = None" "rq_ping exProber = (\<lambda>_ _ _. (Inl (ErrMsg ''down''), 0))"
  "sk_self (rq_stack exProber) = ''q''" "rq_livenessFailureThreshold exProber = 2" "rq_livenessFailureConfirmationInterval exProber = 10"
  by (simp_all add: exProber_def exReceiver_def exReceiverStack_def)

theorem peer_given_up_late_witness:
  "\<exists>s t. probed exProber ''p'' [(1, False)] s \<and> MeasureRTTAt exProber ''p'' (Some ''x'') s = (Inl (ErrMsg ''down''), t)
    \<and> 1 + (rq_livenessFailureThreshold exProber - 1) * rq_livenessFailureConfirmationInterval exProber \<le> rs_now t"
proof -
  define s where "s = snd (measureRTT exProber ''p'' (Some ''x'') exRepairing)"
  define u where "u = s\<lparr>rs_stack := exNow\<lparr>ss_now := 11\<rparr>\<rparr>"
  have s: "rs_now s = 1" "rs_livenessFailures s = [''p'' \<mapsto> \<lparr>le_count = 1, le_last = 1\<rparr>]"
    "rs_rttCache s ''p'' = Some \<lparr>cr_rtt = 0, cr_err = Some (ErrMsg ''down''), cr_measured = 1\<rparr>"
    by (simp_all add: s_def measureRTT_def probePeer_def applyLivenessFailureEvidence_def cacheRTT_def exProber_fields exRepairing_def exNow_def Let_def)
  have "pinged exProber ''p'' (Some ''x'') exRepairing" by (simp add: pinged_def exProber_fields exRepairing_def)
  moreover have "probed exProber ''p'' [] exRepairing" by (rule probed.start) (simp add: exRepairing_def)
  ultimately have "probed exProber ''p'' [(1, False)] s"
    using probed.call [OF _ prod.collapse [symmetric], of exProber "''p''" "[]" exRepairing "''p''" "Some ''x''"] s(1)
    by (simp add: s_def exProber_fields)
  then have h: "probed exProber ''p'' [(1, False)] u" by (rule probed.wait) (simp_all add: s u_def)
  obtain t where t: "MeasureRTTAt exProber ''p'' (Some ''x'') u = (Inl (ErrMsg ''down''), t)"
    using s by (simp add: MeasureRTTAt_def measureRTT_def probePeer_def applyLivenessFailureEvidence_def cacheRTT_def exProber_fields u_def Let_def usableRTT_def)
  have "pingsTakeTime exProber" by (simp add: pingsTakeTime_def exProber_fields)
  from peer_given_up_late [OF h this _ _ t] have "1 + (2 - 1) * 10 \<le> rs_now t"
    by (simp add: exProber_fields failures_def)
  with h t show ?thesis by (auto simp: exProber_fields)
qed

subsection \<open>An offer\<close>

text \<open>Over a tuple space with one place the sender finds the offer the receiver wrote three seconds before.\<close>

theorem offer_found_witness:
  "\<exists>c t. checkOffer (exSender\<lparr>rq_TsRead := (\<lambda>_. Inr ''offer''), rq_UnmarshalOffer := (\<lambda>_. Inr exOffer)\<rparr>) None {} ''q''
      (exRepairing\<lparr>rs_stack := exNow\<lparr>ss_now := 4000000000\<rparr>\<rparr>) = (Some c, t) \<and> pc_PeerID c = ''q''"
proof -
  let ?marshal = "\<lambda>offer. if offer = exOffer then Inr ''offer'' else Inl (ErrMsg ''no'')"
  let ?put = "\<lambda>(name :: string) (d :: bytes) (u :: bytes). (Inr () :: unit result, d)"
  let ?R = "exSender\<lparr>rq_TsRead := (\<lambda>_. Inr ''offer''), rq_UnmarshalOffer := (\<lambda>_. Inr exOffer)\<rparr>"
  let ?s = "exRepairing\<lparr>rs_stack := exNow\<lparr>ss_now := 4000000000\<rparr>\<rparr>"
  have T: "sk_tokens (rq_stack ?R) = exTokens" "tc_pidString exTokens = (\<lambda>p. p)" "tc_pidDecode exTokens = Inr"
    by (simp_all add: exSender_def exStack_def exTokens_def)
  have "Duration_Seconds (3600 * 1000000000) = of_int 3600" by (rule Duration_Seconds_whole) simp_all
  then have a: "AdvertiseStorageAvailable ?marshal (Some ?put) (tc_pidString exTokens) 1000000000 ''q'' 0 1 1 (3600 * 1000000000) [] = (Inr (), ''offer'')"
    using T(2) by (simp add: AdvertiseStorageAvailable_def exOffer_def int_of_float_def bindS_def liftR_def tryS_def)
  have m: "\<forall>offer d. ?marshal offer = Inr d \<longrightarrow> rq_UnmarshalOffer ?R d = Inr offer" by (auto split: if_splits)
  have "\<exists>c t. checkOffer ?R None {} ''q'' ?s = (Some c, t) \<and> pc_PeerID c = ''q'' \<and> pc_StorageAvailability c = 1 \<and> pc_CommittedStake c = 0"
    by (rule offer_found [where read = "\<lambda>u _. Inr u" and T = exTokens, OF a _ _ m T(1)]) (simp_all add: T(2,3))
  then show ?thesis by blast
qed

end
