(* ===== verification/Storage_Log.thy ===== *)
theory Storage_Log
  imports Go_Datastore Go_Trim
begin

text \<open>
  \<open>internal/storage/state.go\<close> and \<open>typed.go\<close>: the log of peers a node has seen, a chain of blocks linked by content identifiers,
  with its head and height in the datastore. The DAG-CBOR codec, the hash of a block, the text of an identifier, the datastore and
  the block service are parameters. An identifier may be undefined, which is \<open>None\<close>. The walk over the whole log is a partial
  function. When the deadline of a synchronization passes is an argument.
\<close>

subsection \<open>Events\<close>

datatype cbor_value = CStr string | CInt int | COther
datatype cbor_node = CMap "(string \<times> cbor_value) list" | CNoMap

record PeerAddedGo =
  pa_Type :: string
  pa_Ts :: int
  pa_Peer :: string
  pa_Prev :: "string option"

record ('c, 'd, 'b) log_cfg =
  ev_Encode :: "cbor_node \<Rightarrow> bytes result"
  ev_Decode :: "bytes \<Rightarrow> cbor_node result"
  ev_Sum :: "bytes \<Rightarrow> 'c result"
  ev_String :: "'c \<Rightarrow> string"
  ev_DecodeCid :: "string \<Rightarrow> 'c result"
  ev_ds :: "'d datastore"
  ev_GetBlock :: "'b \<Rightarrow> 'c \<Rightarrow> bytes result"
  ev_AddBlock :: "'c \<Rightarrow> bytes \<Rightarrow> ('b, unit) op"

record ('d, 'b) log_state =
  lg_ds :: 'd
  lg_bs :: 'b

definition computeCBORCID :: "('c, 'd, 'b) log_cfg \<Rightarrow> bytes \<Rightarrow> 'c result" where
  "computeCBORCID E raw = ev_Sum E raw"

definition encodePeerAddedToCBOR :: "('c, 'd, 'b) log_cfg \<Rightarrow> PeerAddedGo \<Rightarrow> (bytes \<times> 'c) result" where
  "encodePeerAddedToCBOR E pa =
     bindR (ev_Encode E (CMap ([(''type'', CStr (pa_Type pa)), (''ts'', CInt (pa_Ts pa)), (''peer'', CStr (pa_Peer pa))]
       @ (case pa_Prev pa of None \<Rightarrow> [] | Some p \<Rightarrow> if p = [] then [] else [(''prev'', CStr p)])))) (\<lambda>raw.
     bindR (computeCBORCID E raw) (\<lambda>c. Inr (raw, c)))"

fun setField :: "PeerAddedGo \<Rightarrow> string \<times> cbor_value \<Rightarrow> PeerAddedGo" where
  "setField out (ks, v) =
     (if ks = ''type'' then (case v of CStr s \<Rightarrow> out\<lparr>pa_Type := s\<rparr> | _ \<Rightarrow> out)
      else if ks = ''ts'' then (case v of CInt i \<Rightarrow> out\<lparr>pa_Ts := i\<rparr> | _ \<Rightarrow> out)
      else if ks = ''peer'' then (case v of CStr s \<Rightarrow> out\<lparr>pa_Peer := s\<rparr> | _ \<Rightarrow> out)
      else if ks = ''prev'' then (case v of CStr s \<Rightarrow> if s \<noteq> [] then out\<lparr>pa_Prev := Some s\<rparr> else out | _ \<Rightarrow> out)
      else out)"

definition decodePeerAddedFromCBOR :: "('c, 'd, 'b) log_cfg \<Rightarrow> bytes \<Rightarrow> PeerAddedGo option result" where
  "decodePeerAddedFromCBOR E raw =
     bindR (ev_Decode E raw) (\<lambda>n.
     Inr (case n of CNoMap \<Rightarrow> None
          | CMap m \<Rightarrow> Some (foldl setField \<lparr>pa_Type = [], pa_Ts = 0, pa_Peer = [], pa_Prev = None\<rparr> m)))"

definition getMapString :: "cbor_node \<Rightarrow> string \<Rightarrow> string" where
  "getMapString n key =
     (case n of CNoMap \<Rightarrow> []
      | CMap m \<Rightarrow> (case List.find (\<lambda>(k, v). k = key \<and> (\<exists>s. v = CStr s)) m of Some (_, CStr s) \<Rightarrow> s | _ \<Rightarrow> []))"

subsection \<open>Head and height\<close>

definition stateHeadKey :: string where "stateHeadKey = ''/gset/head''"
definition stateHeightKey :: string where "stateHeightKey = ''/gset/height''"

definition fmtInt64 :: "int \<Rightarrow> string" where
  "fmtInt64 n = (if n < 0 then CHR ''-'' # dec (nat (- n)) else dec (nat n))"

text \<open>\<open>Sscanf\<close> with \<open>%d\<close>, whose error leaves the zero: blanks, a sign, digits, of which underscores spoil the number.\<close>

definition parseInt64 :: "string \<Rightarrow> int" where
  "parseInt64 s =
     (let s = dropWhile (\<lambda>c. c = CHR '' '' \<or> byte c = 9 \<or> byte c = 13) s;
          (neg, s) = (case s of [] \<Rightarrow> (False, [])
                      | c # cs \<Rightarrow> if c = CHR ''-'' then (True, cs) else if c = CHR ''+'' then (False, cs) else (False, s));
          ds = takeWhile (\<lambda>c. isDecDigit c \<or> c = CHR ''_'') s;
          v = (if neg then - int (fromDec ds) else int (fromDec ds)) in
      if ds = [] \<or> CHR ''_'' \<in> set ds \<or> v < - (2 ^ 63) \<or> v \<ge> 2 ^ 63 then 0 else v)"

text \<open>\<open>GetHead\<close> returns what it has read beside the error.\<close>

definition GetHead :: "('c, 'd, 'b) log_cfg \<Rightarrow> 'd \<Rightarrow> 'c option \<times> int \<times> go_error option" where
  "GetHead E d =
     (case ds_Get (ev_ds E) d stateHeadKey of
        Inl e \<Rightarrow> if e \<noteq> DsNotFound then (None, 0, Some e) else
          (case ds_Get (ev_ds E) d stateHeightKey of
             Inl e \<Rightarrow> if e \<noteq> DsNotFound then (None, 0, Some e) else (None, parseInt64 [], None)
           | Inr b2 \<Rightarrow> (None, parseInt64 b2, None))
      | Inr b \<Rightarrow>
          (let head = (if b = [] then None else (case ev_DecodeCid E b of Inl _ \<Rightarrow> None | Inr c \<Rightarrow> Some c)) in
           case ds_Get (ev_ds E) d stateHeightKey of
             Inl e \<Rightarrow> if e \<noteq> DsNotFound then (head, 0, Some e) else (head, parseInt64 [], None)
           | Inr b2 \<Rightarrow> (head, parseInt64 b2, None)))"

definition onLogDs :: "('d, 'a) op \<Rightarrow> (('d, 'b) log_state, 'a) op" where
  "onLogDs f s = (case f (lg_ds s) of (r, d) \<Rightarrow> (r, s\<lparr>lg_ds := d\<rparr>))"

definition onLogBs :: "('b, 'a) op \<Rightarrow> (('d, 'b) log_state, 'a) op" where
  "onLogBs f s = (case f (lg_bs s) of (r, b) \<Rightarrow> (r, s\<lparr>lg_bs := b\<rparr>))"

definition SetHead :: "('c, 'd, 'b) log_cfg \<Rightarrow> 'c option \<Rightarrow> int \<Rightarrow> (('d, 'b) log_state, unit) op" where
  "SetHead E head height =
     bindS (case head of
              Some c \<Rightarrow> onLogDs (ds_Put (ev_ds E) stateHeadKey (ev_String E c))
            | None \<Rightarrow> tryS (onLogDs (ds_Delete (ev_ds E) stateHeadKey)) (\<lambda>r. if r = Inl DsNotFound then retS () else liftR r))
       (\<lambda>_. onLogDs (ds_Put (ev_ds E) stateHeightKey (fmtInt64 height)))"

subsection \<open>Appending\<close>

definition AppendPeerAdded :: "('c, 'd, 'b) log_cfg \<Rightarrow> int \<Rightarrow> string \<Rightarrow> (('d, 'b) log_state, 'c \<times> int) op" where
  "AppendPeerAdded E now peerID =
     readS (\<lambda>s. GetHead E (lg_ds s)) (\<lambda>(prev, height, _).
     bindS (liftR (encodePeerAddedToCBOR E
       \<lparr>pa_Type = ''peer_added'', pa_Ts = now, pa_Peer = peerID, pa_Prev = map_option (ev_String E) prev\<rparr>)) (\<lambda>(raw, c).
     bindS (tryS (onLogBs (ev_AddBlock E c raw)) (\<lambda>r. case r of Inr _ \<Rightarrow> retS () | Inl _ \<Rightarrow> onLogBs (ev_AddBlock E c raw))) (\<lambda>_.
     bindS (onLogDs (ds_Put (ev_ds E) stateHeadKey (ev_String E c))) (\<lambda>_.
     bindS (onLogDs (ds_Put (ev_ds E) stateHeightKey (fmtInt64 (height + 1)))) (\<lambda>_.
     retS (c, height + 1))))))"

text \<open>The block of an identifier, as an event.\<close>

definition fetchEvent :: "('c, 'd, 'b) log_cfg \<Rightarrow> 'b \<Rightarrow> 'c \<Rightarrow> (bytes \<times> PeerAddedGo option) result" where
  "fetchEvent E b c = bindR (ev_GetBlock E b c) (\<lambda>raw. bindR (decodePeerAddedFromCBOR E raw) (\<lambda>obj. Inr (raw, obj)))"

text \<open>The scan of \<open>AppendPeerAddedIfNew\<close>: whether the peer is found before the walk stops.\<close>

partial_function (option) scanLog :: "('c, 'd, 'b) log_cfg \<Rightarrow> 'b \<Rightarrow> string \<Rightarrow> 'c option \<Rightarrow> bool option" where
  "scanLog E b peerID cur =
     (case cur of
        None \<Rightarrow> Some False
      | Some c \<Rightarrow>
          (case fetchEvent E b c of
             Inl _ \<Rightarrow> Some False
           | Inr (_, obj) \<Rightarrow>
               (case obj of
                  None \<Rightarrow> Some False
                | Some ev \<Rightarrow>
                    if pa_Type ev = ''peer_added'' \<and> pa_Peer ev = peerID then Some True
                    else (case pa_Prev ev of
                            None \<Rightarrow> Some False
                          | Some p \<Rightarrow> if p = [] then Some False
                                      else (case ev_DecodeCid E p of Inl _ \<Rightarrow> Some False | Inr pc \<Rightarrow> scanLog E b peerID (Some pc))))))"

definition AppendPeerAddedIfNew ::
    "('c, 'd, 'b) log_cfg \<Rightarrow> int \<Rightarrow> string \<Rightarrow> ('d, 'b) log_state \<Rightarrow> (('c option \<times> int \<times> bool) result \<times> ('d, 'b) log_state) option" where
  "AppendPeerAddedIfNew E now peerID s =
     (case GetHead E (lg_ds s) of
        (_, _, Some e) \<Rightarrow> Some (Inl e, s)
      | (head, height, None) \<Rightarrow>
          (case scanLog E (lg_bs s) peerID head of
             None \<Rightarrow> None
           | Some True \<Rightarrow> Some (Inr (head, height, False), s)
           | Some False \<Rightarrow> Some (bindS (AppendPeerAdded E now peerID) (\<lambda>(c, h). retS (Some c, h, True)) s)))"

subsection \<open>Walking\<close>

text \<open>The loop of \<open>ApplyEventsFrom\<close>, with the steps that are left.\<close>

primrec applyWalk :: "('c, 'd, 'b) log_cfg \<Rightarrow> 'b \<Rightarrow> nat \<Rightarrow> 'c \<Rightarrow> int \<Rightarrow> int \<times> go_error option" where
  "applyWalk E b 0 cur count = (count, None)"
| "applyWalk E b (Suc n) cur count =
     (case bindR (ev_GetBlock E b cur) (\<lambda>raw. ev_Decode E raw) of
        Inl e \<Rightarrow> (count, Some e)
      | Inr node \<Rightarrow>
          (let prevStr = getMapString node ''prev'' in
           if prevStr = [] then (count, None)
           else (case ev_DecodeCid E prevStr of Inl e \<Rightarrow> (count, Some e) | Inr pc \<Rightarrow> applyWalk E b n pc (count + 1))))"

definition ApplyEventsFrom :: "('c, 'd, 'b) log_cfg \<Rightarrow> 'b \<Rightarrow> 'c option \<Rightarrow> int \<Rightarrow> int \<times> go_error option" where
  "ApplyEventsFrom E b start limit =
     (case start of None \<Rightarrow> (0, None) | Some c \<Rightarrow> if limit \<le> 0 then (0, None) else applyWalk E b (nat limit) c 0)"

primrec listWalk :: "('c, 'd, 'b) log_cfg \<Rightarrow> 'b \<Rightarrow> nat \<Rightarrow> 'c \<Rightarrow> ('c \<times> PeerAddedGo) list" where
  "listWalk E b 0 cur = []"
| "listWalk E b (Suc n) cur =
     (case fetchEvent E b cur of
        Inr (_, Some ev) \<Rightarrow>
          if pa_Type ev \<noteq> ''peer_added'' then []
          else (cur, ev) # (case pa_Prev ev of
                              None \<Rightarrow> []
                            | Some p \<Rightarrow> if p = [] then [] else (case ev_DecodeCid E p of Inl _ \<Rightarrow> [] | Inr pc \<Rightarrow> listWalk E b n pc))
      | _ \<Rightarrow> [])"

definition ListRecentFromHead :: "('c, 'd, 'b) log_cfg \<Rightarrow> int \<Rightarrow> ('d, 'b) log_state \<Rightarrow> ('c \<times> PeerAddedGo) list result" where
  "ListRecentFromHead E limit s =
     (if limit \<le> 0 then Inr []
      else (case GetHead E (lg_ds s) of
              (_, _, Some e) \<Rightarrow> Inl e
            | (None, _, None) \<Rightarrow> Inr []
            | (Some c, _, None) \<Rightarrow> Inr (listWalk E (lg_bs s) (nat limit) c)))"

subsection \<open>Synchronization\<close>

record SyncOptions =
  so_MaxDepth :: int
  so_MaxBlockBytes :: int

definition prevCid :: "('c, 'd, 'b) log_cfg \<Rightarrow> PeerAddedGo \<Rightarrow> 'c option result" where
  "prevCid E ev =
     (case pa_Prev ev of
        None \<Rightarrow> Inr None
      | Some p \<Rightarrow> if p = [] then Inr None else bindR (ev_DecodeCid E p) (\<lambda>pc. Inr (Some pc)))"

text \<open>
  The walk of \<open>SyncSuffix\<close> from the remote head, newest first, and whether the local head was met. \<open>late\<close> tells whether the deadline
  has passed when the walk has the given number of steps left.
\<close>

fun suffixWalk :: "('c, 'd, 'b) log_cfg \<Rightarrow> 'b \<Rightarrow> SyncOptions \<Rightarrow> (nat \<Rightarrow> bool) \<Rightarrow> 'c option \<Rightarrow> nat \<Rightarrow> 'c \<Rightarrow> ('c list \<times> bool) result" where
  "suffixWalk E b opts late local 0 cur = Inr ([], False)"
| "suffixWalk E b opts late local (Suc n) cur =
     (if late n then Inr ([], False)
      else bindR (ev_GetBlock E b cur) (\<lambda>raw.
        fail_if (so_MaxBlockBytes opts > 0 \<and> int (length raw) > so_MaxBlockBytes opts) (ErrMsg ''remote block exceeds size limit'')
        (bindR (decodePeerAddedFromCBOR E raw) (\<lambda>obj.
         (case obj of
            None \<Rightarrow> Inl (ErrMsg ''invalid event in remote chain'')
          | Some ev \<Rightarrow>
              fail_if (pa_Type ev \<noteq> ''peer_added'' \<or> pa_Peer ev = []) (ErrMsg ''invalid event in remote chain'')
              (bindR (prevCid E ev) (\<lambda>prev.
               if local = Some cur then Inr ([], True)
               else (case prev of
                       None \<Rightarrow> Inr ([cur], False)
                     | Some pc \<Rightarrow> bindR (suffixWalk E b opts late local n pc) (\<lambda>(rest, found). Inr (cur # rest, found))))))))))"

text \<open>The application of the suffix, oldest first.\<close>

fun advance :: "('c, 'd, 'b) log_cfg \<Rightarrow> 'c list \<Rightarrow> 'c option \<Rightarrow> int \<Rightarrow> (('d, 'b) log_state, 'c option \<times> int) op" where
  "advance E [] head height = retS (head, height)"
| "advance E (c # cs) head height = bindS (SetHead E (Some c) (height + 1)) (\<lambda>_. advance E cs (Some c) (height + 1))"

definition SyncSuffix ::
    "('c, 'd, 'b) log_cfg \<Rightarrow> (nat \<Rightarrow> bool) \<Rightarrow> 'c option \<Rightarrow> int \<Rightarrow> SyncOptions \<Rightarrow> (('d, 'b) log_state, int \<times> 'c option \<times> int) op" where
  "SyncSuffix E late remoteHead remoteHeight opts =
     (case remoteHead of
        None \<Rightarrow> failS (ErrMsg ''undefined remote head'')
      | Some rh \<Rightarrow>
          readS (\<lambda>s. (GetHead E (lg_ds s), lg_bs s)) (\<lambda>((localHead, localHeight, _), b).
          if remoteHeight \<le> localHeight then retS (0, localHead, localHeight)
          else bindS (liftR (suffixWalk E b opts late localHead (if so_MaxDepth opts \<le> 0 then 512 else nat (so_MaxDepth opts)) rh)) (\<lambda>(chain, found).
            fail_ifS (\<not> (found \<or> localHead = None)) (ErrMsg ''no common ancestor within sync limits'')
            (bindS (advance E (rev chain) localHead localHeight) (\<lambda>(head, height).
             retS (int (length chain), head, height))))))"

end
