(* ===== verification/Storage_Log_Props.thy ===== *)
theory Storage_Log_Props
  imports Storage_Log Tuple_Durable_Witness
begin

text \<open>
  The log is a chain from its head to a first event, as long as the stored height says (\<open>validLog\<close>). Appending extends it by one
  event; appending a peer that may be known ends, and keeps every peer once; synchronizing with a remote head puts the missing
  events on top of it and keeps the rest, when there is a local head. Without one, a walk that the limits cut short is taken for a
  whole chain.
\<close>

subsection \<open>Heights as text\<close>

lemma parse_fmt:
  assumes "0 \<le> n" "n < 2 ^ 63"
  shows "parseInt64 (fmtInt64 n) = n"
proof -
  let ?s = "dec (nat n)"
  obtain c cs where s: "?s = c # cs" using dec_not_Nil [of "nat n"] by (cases ?s) auto
  then have "isDecDigit c" using dec_digit [of c "nat n"] by simp
  then have c: "c \<noteq> CHR '' ''" "byte c \<noteq> 9" "byte c \<noteq> 13" "c \<noteq> CHR ''-''" "c \<noteq> CHR ''+''" by (auto simp: isDecDigit_def)
  have all: "takeWhile (\<lambda>c. isDecDigit c \<or> c = CHR ''_'') ?s = ?s" using dec_digit by (simp add: takeWhile_eq_all_conv)
  have u: "CHR ''_'' \<notin> set ?s" using dec_digit by (force simp: isDecDigit_def)
  have "fmtInt64 n = ?s" using assms by (simp add: fmtInt64_def)
  then show ?thesis
    using c all u assms fromDec_dec [of "nat n"] unfolding parseInt64_def s by (simp add: Let_def, linarith)
qed

lemma parse_empty: "parseInt64 [] = 0"
  by (simp add: parseInt64_def)

subsection \<open>What the log relies on\<close>

definition eventCodec :: "('c, 'd, 'b) log_cfg \<Rightarrow> bool" where
  "eventCodec E \<longleftrightarrow> (\<forall>n raw. ev_Encode E n = Inr raw \<longrightarrow> ev_Decode E raw = Inr n)
     \<and> (\<forall>c. ev_String E c \<noteq> [] \<and> ev_DecodeCid E (ev_String E c) = Inr c)"

text \<open>A block service that keeps the blocks it is given, and whose blocks have the identifiers of their contents.\<close>

definition contentStore :: "('c, 'd, 'b) log_cfg \<Rightarrow> bool" where
  "contentStore E \<longleftrightarrow>
     (\<forall>c raw b r b'. ev_AddBlock E c raw b = (r, b') \<longrightarrow>
        (case r of Inr _ \<Rightarrow> (\<forall>c'. ev_GetBlock E b' c' = (if c' = c then Inr raw else ev_GetBlock E b c')) | Inl _ \<Rightarrow> ev_GetBlock E b' = ev_GetBlock E b))
     \<and> (\<forall>b c raw. ev_GetBlock E b c = Inr raw \<longrightarrow> ev_Sum E raw = Inr c)
     \<and> (\<forall>raw raw' c. ev_Sum E raw = Inr c \<longrightarrow> ev_Sum E raw' = Inr c \<longrightarrow> raw = raw')"

lemma AddBlock_keeps:
  assumes "contentStore E" "ev_AddBlock E c raw b = (r, b')" "ev_Sum E raw = Inr c" "ev_GetBlock E b c' = Inr raw'"
  shows "ev_GetBlock E b' c' = Inr raw'"
  using assms unfolding contentStore_def by (cases r) (fastforce split: if_splits)+

lemma AddBlock_adds: "contentStore E \<Longrightarrow> ev_AddBlock E c raw b = (Inr u, b') \<Longrightarrow> ev_GetBlock E b' c = Inr raw"
  unfolding contentStore_def by fastforce

lemma decode_encode:
  assumes "eventCodec E" "encodePeerAddedToCBOR E pa = Inr (raw, c)" "pa_Prev pa \<noteq> Some []"
  shows "decodePeerAddedFromCBOR E raw = Inr (Some pa) \<and> ev_Sum E raw = Inr c"
  using assms by (cases "pa_Prev pa") (auto simp: encodePeerAddedToCBOR_def decodePeerAddedFromCBOR_def result_inv eventCodec_def computeCBORCID_def)

subsection \<open>Chains\<close>

text \<open>The peer and the predecessor an event names.\<close>

definition eventLink :: "('c, 'd, 'b) log_cfg \<Rightarrow> 'b \<Rightarrow> 'c \<Rightarrow> (string \<times> 'c option) option" where
  "eventLink E b c =
     (case fetchEvent E b c of
        Inr (_, Some ev) \<Rightarrow>
          if pa_Type ev \<noteq> ''peer_added'' \<or> pa_Peer ev = [] then None
          else (case pa_Prev ev of
                  None \<Rightarrow> Some (pa_Peer ev, None)
                | Some p \<Rightarrow> if p = [] then Some (pa_Peer ev, None)
                            else (case ev_DecodeCid E p of Inl _ \<Rightarrow> None | Inr pc \<Rightarrow> Some (pa_Peer ev, Some pc)))
      | _ \<Rightarrow> None)"

primrec logChain :: "('c, 'd, 'b) log_cfg \<Rightarrow> 'b \<Rightarrow> 'c option \<Rightarrow> ('c \<times> string) list \<Rightarrow> bool" where
  "logChain E b h [] \<longleftrightarrow> h = None"
| "logChain E b h (x # xs) \<longleftrightarrow> h = Some (fst x) \<and> (\<exists>prev. eventLink E b (fst x) = Some (snd x, prev) \<and> logChain E b prev xs)"

definition validLog :: "('c, 'd, 'b) log_cfg \<Rightarrow> ('d, 'b) log_state \<Rightarrow> ('c \<times> string) list \<Rightarrow> bool" where
  "validLog E s xs \<longleftrightarrow> (\<exists>h. GetHead E (lg_ds s) = (h, int (length xs), None) \<and> logChain E (lg_bs s) h xs)"

lemma eventLink_mono:
  assumes "eventLink E b c = Some l" "\<And>raw. ev_GetBlock E b c = Inr raw \<Longrightarrow> ev_GetBlock E b' c = Inr raw"
  shows "eventLink E b' c = Some l"
proof -
  from assms(1) obtain raw where "ev_GetBlock E b c = Inr raw"
    by (cases "ev_GetBlock E b c") (auto simp: eventLink_def fetchEvent_def)
  with assms show ?thesis by (simp add: eventLink_def fetchEvent_def)
qed

lemma logChain_mono:
  "logChain E b h xs \<Longrightarrow> (\<And>c raw. ev_GetBlock E b c = Inr raw \<Longrightarrow> ev_GetBlock E b' c = Inr raw) \<Longrightarrow> logChain E b' h xs"
proof (induction xs arbitrary: h)
  case (Cons x xs)
  then show ?case using eventLink_mono [of E b "fst x" _ b'] by auto
qed simp

subsection \<open>Appending\<close>

lemma GetHead_after:
  assumes "datastore_contract (ev_ds E)" "eventCodec E" "0 \<le> n" "n < 2 ^ 63"
    and "ds_Put (ev_ds E) stateHeadKey (ev_String E c) d = (Inr (), d1)" "ds_Put (ev_ds E) stateHeightKey (fmtInt64 n) d1 = (Inr (), d2)"
  shows "GetHead E d2 = (Some c, n, None)"
proof -
  have "stateHeadKey \<noteq> stateHeightKey" by (simp add: stateHeadKey_def stateHeightKey_def)
  then have "ds_Get (ev_ds E) d2 stateHeadKey = Inr (ev_String E c)" "ds_Get (ev_ds E) d2 stateHeightKey = Inr (fmtInt64 n)"
    using datastore_contract.Get_after_Put [OF assms(1,5)] datastore_contract.Get_after_Put [OF assms(1,6)] by simp_all
  then show ?thesis using assms(2) parse_fmt [OF assms(3,4)] by (simp add: GetHead_def eventCodec_def)
qed

lemma onLogDs_inv: "onLogDs f s = (r, t) \<longleftrightarrow> (\<exists>d. f (lg_ds s) = (r, d) \<and> t = s\<lparr>lg_ds := d\<rparr>)"
  by (auto simp: onLogDs_def split: prod.splits)

lemma onLogBs_inv: "onLogBs f s = (r, t) \<longleftrightarrow> (\<exists>b. f (lg_bs s) = (r, b) \<and> t = s\<lparr>lg_bs := b\<rparr>)"
  by (auto simp: onLogBs_def split: prod.splits)

lemma AddBlock_twice:
  assumes "contentStore E" "ev_Sum E raw = Inr c"
    and "tryS (onLogBs (ev_AddBlock E c raw)) (\<lambda>r. case r of Inr _ \<Rightarrow> retS () | Inl _ \<Rightarrow> onLogBs (ev_AddBlock E c raw)) s = (Inr (), t)"
  shows "lg_ds t = lg_ds s \<and> ev_GetBlock E (lg_bs t) c = Inr raw
    \<and> (\<forall>c' raw'. ev_GetBlock E (lg_bs s) c' = Inr raw' \<longrightarrow> ev_GetBlock E (lg_bs t) c' = Inr raw')"
proof -
  obtain r b where add: "ev_AddBlock E c raw (lg_bs s) = (r, b)" by (cases "ev_AddBlock E c raw (lg_bs s)")
  note keep = AddBlock_keeps [OF assms(1) _ assms(2)]
  show ?thesis
  proof (cases r)
    case (Inl e)
    with assms(3) add obtain b2 where add2: "ev_AddBlock E c raw b = (Inr (), b2)" "t = s\<lparr>lg_bs := b2\<rparr>"
      by (auto simp: tryS_def onLogBs_def split: prod.splits)
    with AddBlock_adds [OF assms(1) add2(1)] keep [OF add] keep [OF add2(1)] show ?thesis by auto
  next
    case (Inr u)
    with assms(3) add have "t = s\<lparr>lg_bs := b\<rparr>" by (auto simp: tryS_def onLogBs_def retS_def)
    with AddBlock_adds [OF assms(1) add [unfolded Inr]] keep [OF add] show ?thesis by auto
  qed
qed

lemma append_valid:
  assumes ds: "datastore_contract (ev_ds E)" and cd: "eventCodec E" and bs: "contentStore E"
    and log: "validLog E s xs" and len: "int (length xs) + 1 < 2 ^ 63" and p: "peerID \<noteq> []"
    and app: "AppendPeerAdded E now peerID s = (Inr (c, n), t)"
  shows "validLog E t ((c, peerID) # xs) \<and> n = int (length xs) + 1"
proof -
  from log obtain h where h: "GetHead E (lg_ds s) = (h, int (length xs), None)" "logChain E (lg_bs s) h xs" by (auto simp: validLog_def)
  let ?pa = "\<lparr>pa_Type = ''peer_added'', pa_Ts = now, pa_Peer = peerID, pa_Prev = map_option (ev_String E) h\<rparr>"
  from app h obtain raw u d1 d2 where enc: "encodePeerAddedToCBOR E ?pa = Inr (raw, c)"
    and add: "tryS (onLogBs (ev_AddBlock E c raw)) (\<lambda>r. case r of Inr _ \<Rightarrow> retS () | Inl _ \<Rightarrow> onLogBs (ev_AddBlock E c raw)) s = (Inr (), u)"
    and d1: "ds_Put (ev_ds E) stateHeadKey (ev_String E c) (lg_ds u) = (Inr (), d1)"
    and d2: "ds_Put (ev_ds E) stateHeightKey (fmtInt64 (int (length xs) + 1)) d1 = (Inr (), d2)"
    and t: "t = u\<lparr>lg_ds := d2\<rparr>" "n = int (length xs) + 1"
    by (auto simp: AppendPeerAdded_def readS_def op_inv onLogDs_inv)
  have dec: "decodePeerAddedFromCBOR E raw = Inr (Some ?pa)" "ev_Sum E raw = Inr c"
    using decode_encode [OF cd enc] cd by (auto simp: eventCodec_def)
  from AddBlock_twice [OF bs dec(2) add] have b: "ev_GetBlock E (lg_bs t) c = Inr raw"
    "\<And>c' raw'. ev_GetBlock E (lg_bs s) c' = Inr raw' \<Longrightarrow> ev_GetBlock E (lg_bs t) c' = Inr raw'" using t by auto
  have "eventLink E (lg_bs t) c = Some (peerID, h)"
    using b(1) dec(1) p cd by (cases h) (auto simp: eventLink_def fetchEvent_def eventCodec_def)
  moreover have "logChain E (lg_bs t) h xs" using logChain_mono [OF h(2) b(2)] .
  moreover have "GetHead E (lg_ds t) = (Some c, int (length xs) + 1, None)"
    using GetHead_after [OF ds cd _ len d1 d2] t by simp
  ultimately show ?thesis using t by (auto simp: validLog_def)
qed

lemma scan_chain: "logChain E b h xs \<Longrightarrow> scanLog E b peerID h = Some (peerID \<in> snd ` set xs)"
proof (induction xs arbitrary: h)
  case Nil
  then show ?case by (simp add: scanLog.simps)
next
  case (Cons x xs)
  then obtain prev where link: "eventLink E b (fst x) = Some (snd x, prev)" "logChain E b prev xs" "h = Some (fst x)" by auto
  note IH = Cons.IH [OF link(2)]
  from link(1) obtain raw ev where ev: "fetchEvent E b (fst x) = Inr (raw, Some ev)" "pa_Type ev = ''peer_added''" "pa_Peer ev = snd x"
    "prev = (case pa_Prev ev of None \<Rightarrow> None | Some p \<Rightarrow> if p = [] then None else (case ev_DecodeCid E p of Inl _ \<Rightarrow> None | Inr pc \<Rightarrow> Some pc))"
    "\<And>p. pa_Prev ev = Some p \<Longrightarrow> p \<noteq> [] \<Longrightarrow> \<exists>pc. ev_DecodeCid E p = Inr pc"
    by (auto simp: eventLink_def split: sum.splits option.splits if_splits)
  show ?case
  proof (cases "pa_Prev ev")
    case None
    with ev IH link show ?thesis by (subst scanLog.simps) (auto simp: scanLog.simps [of E b peerID None])
  next
    case (Some p)
    with ev IH link show ?thesis
      by (subst scanLog.simps) (auto simp: scanLog.simps [of E b peerID None] split: if_splits)
  qed
qed


text \<open>Adding a peer that may be known ends on every log that is a chain of its height. A peer in the log is not added again;
  another one becomes the new head, over the whole log as it was, with the height increased by one: the log names every peer once.\<close>

theorem append_if_new:
  assumes "datastore_contract (ev_ds E)" "eventCodec E" "contentStore E"
    and "validLog E s xs" "int (length xs) + 1 < 2 ^ 63" "peerID \<noteq> []" "distinct (map snd xs)"
  shows "\<exists>res t. AppendPeerAddedIfNew E now peerID s = Some (res, t)
    \<and> (\<forall>head n added. res = Inr (head, n, added) \<longrightarrow>
         added = (peerID \<notin> set (map snd xs))
         \<and> (\<exists>ys. validLog E t ys \<and> n = int (length ys) \<and> distinct (map snd ys) \<and> set (map snd ys) = insert peerID (set (map snd xs))
              \<and> (if added then \<exists>c. head = Some c \<and> ys = (c, peerID) # xs else t = s \<and> ys = xs)))"
proof -
  from assms(4) obtain h where h: "GetHead E (lg_ds s) = (h, int (length xs), None)" "logChain E (lg_bs s) h xs" by (auto simp: validLog_def)
  note scan = scan_chain [OF h(2), of peerID]
  show ?thesis
  proof (cases "peerID \<in> snd ` set xs")
    case True
    with scan h assms(4,7) show ?thesis by (auto simp: AppendPeerAddedIfNew_def intro!: exI [of _ xs])
  next
    case False
    obtain r t where app: "AppendPeerAdded E now peerID s = (r, t)" by (cases "AppendPeerAdded E now peerID s")
    show ?thesis
    proof (cases r)
      case (Inl e)
      with False scan h app show ?thesis by (auto simp: AppendPeerAddedIfNew_def bindS_def)
    next
      case (Inr cn)
      obtain c n where cn: "cn = (c, n)" by (cases cn)
      from append_valid [OF assms(1-6) app [unfolded Inr cn]]
      have "validLog E t ((c, peerID) # xs)" "n = int (length xs) + 1" by auto
      moreover have "AppendPeerAddedIfNew E now peerID s = Some (Inr (Some c, n, True), t)"
        using False scan h app Inr cn by (auto simp: AppendPeerAddedIfNew_def bindS_def retS_def)
      ultimately show ?thesis using False assms(7) by (auto intro!: exI [of _ "(c, peerID) # xs"])
    qed
  qed
qed

subsection \<open>Synchronizing\<close>

text \<open>Chains that end above a given identifier.\<close>

primrec chainTo :: "('c, 'd, 'b) log_cfg \<Rightarrow> 'b \<Rightarrow> 'c option \<Rightarrow> 'c option \<Rightarrow> ('c \<times> string) list \<Rightarrow> bool" where
  "chainTo E b stop h [] \<longleftrightarrow> h = stop"
| "chainTo E b stop h (x # xs) \<longleftrightarrow> h = Some (fst x) \<and> (\<exists>prev. eventLink E b (fst x) = Some (snd x, prev) \<and> chainTo E b stop prev xs)"

lemma chainTo_append: "chainTo E b stop h ys \<Longrightarrow> logChain E b stop xs \<Longrightarrow> logChain E b h (ys @ xs)"
  by (induction ys arbitrary: h) auto

lemma suffixWalk_step:
  assumes "suffixWalk E b opts late local (Suc n) cur = Inr (cs, found)" "\<not> late n"
  shows "\<exists>peer prev. eventLink E b cur = Some (peer, prev) \<and>
    (local = Some cur \<and> cs = [] \<and> found
     \<or> local \<noteq> Some cur \<and> prev = None \<and> cs = [cur] \<and> \<not> found
     \<or> local \<noteq> Some cur \<and> (\<exists>pc rest. prev = Some pc \<and> cs = cur # rest \<and> suffixWalk E b opts late local n pc = Inr (rest, found)))"
proof -
  let ?rest = "\<lambda>prev. if local = Some cur then Inr ([], True)
              else (case prev of None \<Rightarrow> Inr ([cur], False)
                    | Some pc \<Rightarrow> bindR (suffixWalk E b opts late local n pc) (\<lambda>(rest, found). Inr (cur # rest, found)))"
  from assms obtain raw obj where raw: "ev_GetBlock E b cur = Inr raw" "decodePeerAddedFromCBOR E raw = Inr obj"
    and obj: "(case obj of None \<Rightarrow> Inl (ErrMsg ''invalid event in remote chain'')
      | Some ev \<Rightarrow> fail_if (pa_Type ev \<noteq> ''peer_added'' \<or> pa_Peer ev = []) (ErrMsg ''invalid event in remote chain'')
          (bindR (prevCid E ev) ?rest)) = Inr (cs, found)"
    unfolding suffixWalk.simps if_not_P [OF assms(2)] bindR_Inr fail_if_Inr by blast
  from obj obtain ev where ev: "obj = Some ev" "pa_Type ev = ''peer_added''" "pa_Peer ev \<noteq> []" "bindR (prevCid E ev) ?rest = Inr (cs, found)"
    by (cases obj) (auto simp: fail_if_Inr)
  from ev(4) obtain prev where prev: "prevCid E ev = Inr prev" and cs: "?rest prev = Inr (cs, found)"
    unfolding bindR_Inr by blast
  have "eventLink E b cur = Some (pa_Peer ev, prev)"
    using raw ev prev by (cases "pa_Prev ev") (auto simp: eventLink_def fetchEvent_def prevCid_def result_inv split: if_splits)
  then show ?thesis using cs by (cases prev) (auto simp: result_inv split: if_splits)
qed

lemma suffixWalk_found:
  "suffixWalk E b opts late local n cur = Inr (cs, True) \<Longrightarrow> \<exists>ys. map fst ys = cs \<and> chainTo E b local (Some cur) ys"
proof (induction n arbitrary: cur cs)
  case (Suc n)
  then have "\<not> late n" by (auto split: if_splits)
  from suffixWalk_step [OF Suc.prems this] obtain peer prev where link: "eventLink E b cur = Some (peer, prev)"
    "local = Some cur \<and> cs = []
     \<or> (\<exists>pc rest. prev = Some pc \<and> cs = cur # rest \<and> suffixWalk E b opts late local n pc = Inr (rest, True))"
    by (simp only: simp_thms) (elim exE conjE disjE; simp)
  from link(2) show ?case
  proof
    assume "local = Some cur \<and> cs = []"
    then show ?thesis by (intro exI [of _ "[]"]) simp
  next
    assume "\<exists>pc rest. prev = Some pc \<and> cs = cur # rest \<and> suffixWalk E b opts late local n pc = Inr (rest, True)"
    then obtain pc rest where r: "prev = Some pc" "cs = cur # rest" "suffixWalk E b opts late local n pc = Inr (rest, True)" by blast
    from Suc.IH [OF r(3)] obtain ys where "map fst ys = rest" "chainTo E b local (Some pc) ys" by blast
    with link(1) r show ?thesis by (intro exI [of _ "(cur, peer) # ys"]) simp
  qed
qed simp

lemma suffixWalk_length: "suffixWalk E b opts late local n cur = Inr (cs, found) \<Longrightarrow> length cs \<le> n"
proof (induction n arbitrary: cur cs)
  case (Suc n)
  show ?case
  proof (cases "late n")
    case True
    with Suc.prems show ?thesis by simp
  next
    case False
    from suffixWalk_step [OF Suc.prems this] show ?thesis using Suc.IH by fastforce
  qed
qed simp

lemma SetHead_Some:
  assumes "datastore_contract (ev_ds E)" "eventCodec E" "0 \<le> n" "n < 2 ^ 63" "SetHead E (Some c) n s = (Inr (), t)"
  shows "lg_bs t = lg_bs s \<and> GetHead E (lg_ds t) = (Some c, n, None)"
proof -
  from assms(5) obtain d1 d2 where "ds_Put (ev_ds E) stateHeadKey (ev_String E c) (lg_ds s) = (Inr (), d1)"
    "ds_Put (ev_ds E) stateHeightKey (fmtInt64 n) d1 = (Inr (), d2)" "t = s\<lparr>lg_ds := d2\<rparr>"
    by (auto simp: SetHead_def op_inv onLogDs_inv)
  then show ?thesis using GetHead_after [OF assms(1-4)] by auto
qed

lemma advance_Inr:
  assumes "datastore_contract (ev_ds E)" "eventCodec E"
  shows "advance E cs head n s = (Inr (head', n'), t) \<Longrightarrow> 0 \<le> n \<Longrightarrow> n + int (length cs) < 2 ^ 63 \<Longrightarrow> GetHead E (lg_ds s) = (head, n, None) \<Longrightarrow>
     lg_bs t = lg_bs s \<and> n' = n + int (length cs) \<and> head' = (if cs = [] then head else Some (last cs)) \<and> GetHead E (lg_ds t) = (head', n', None)"
proof (induction cs arbitrary: head n s)
  case Nil
  then show ?case by (simp add: retS_def)
next
  case (Cons c cs)
  from Cons.prems(1) obtain u where u: "SetHead E (Some c) (n + 1) s = (Inr (), u)" "advance E cs (Some c) (n + 1) u = (Inr (head', n'), t)"
    by (auto simp: op_inv)
  from SetHead_Some [OF assms _ _ u(1)] Cons.prems have "lg_bs u = lg_bs s" "GetHead E (lg_ds u) = (Some c, n + 1, None)" by auto
  with Cons.IH [OF u(2)] Cons.prems show ?case by auto
qed

definition syncDepth :: "SyncOptions \<Rightarrow> nat" where
  "syncDepth opts = (if so_MaxDepth opts \<le> 0 then 512 else nat (so_MaxDepth opts))"

text \<open>C40. Synchronization of a valid log that is not empty, with heights and a depth limit below \<open>2 ^ 62\<close>, over a datastore whose reads
  answer with the last write and a codec of identifiers that inverts their text. When the remote height is not above the local one,
  the call changes nothing and reports no event, whatever the remote head is. When it is above and the call succeeds, the log that
  is left is valid, ends in the remote head and is the local log, whose events and order stay, with the reported number of events on
  top; its height counts them. A call that fails has changed nothing, unless the walk found the local head and a write of head or
  height failed while the suffix was applied: then a part of the suffix may be applied.\<close>

theorem sync_suffix_extends:
  assumes "datastore_contract (ev_ds E)" "eventCodec E" "validLog E s xs" "xs \<noteq> []" "remoteHeight < 2 ^ 62" "so_MaxDepth opts < 2 ^ 62"
    and "SyncSuffix E late (Some rh) remoteHeight opts s = (r, t)"
  shows "if remoteHeight \<le> int (length xs)
    then r = Inr (0, Some (fst (hd xs)), int (length xs)) \<and> t = s
    else (case r of
        Inr (n, head, height) \<Rightarrow> \<exists>ys. validLog E t (ys @ xs) \<and> fst (hd (ys @ xs)) = rh \<and> head = Some rh
          \<and> n = int (length ys) \<and> height = int (length (ys @ xs))
      | Inl e \<Rightarrow> t = s \<or> (\<exists>cs. suffixWalk E (lg_bs s) opts late (Some (fst (hd xs))) (syncDepth opts) rh = Inr (cs, True)
          \<and> advance E (rev cs) (Some (fst (hd xs))) (int (length xs)) s = (Inl e, t)))"
proof -
  from assms(3) obtain h where h: "GetHead E (lg_ds s) = (h, int (length xs), None)" "logChain E (lg_bs s) h xs" by (auto simp: validLog_def)
  with assms(4) have hd: "h = Some (fst (hd xs))" by (cases xs) auto
  note walk = assms(7) [unfolded SyncSuffix_def syncDepth_def [symmetric]]
  consider "remoteHeight \<le> int (length xs)" | e where "r = Inl e" "remoteHeight > int (length xs)"
    | n head height where "r = Inr (n, head, height)" "remoteHeight > int (length xs)"
    by (cases "remoteHeight \<le> int (length xs)"; cases r) (auto simp: not_le)
  then show ?thesis
  proof cases
    case 1
    with walk h hd show ?thesis by (auto simp: readS_def retS_def)
  next
    case 2
    with walk h hd show ?thesis
      by (cases "suffixWalk E (lg_bs s) opts late h (syncDepth opts) rh")
        (auto simp: readS_def op_inv bindS_def liftR_def retS_def failS_def fail_ifS_def split: if_splits prod.splits sum.splits)
  next
    case 3
    from 3 walk h hd obtain cs where cs: "suffixWalk E (lg_bs s) opts late h (syncDepth opts) rh = Inr (cs, True)" "n = int (length cs)"
      and adv: "advance E (rev cs) h (int (length xs)) s = (Inr (head, height), t)"
      by (auto simp: readS_def op_inv)
    from suffixWalk_found [OF cs(1)] obtain ys where ys: "map fst ys = cs" "chainTo E (lg_bs s) h (Some rh) ys" by blast
    have "length cs \<le> syncDepth opts" using cs(1) by (rule suffixWalk_length)
    then have "int (length xs) + int (length (rev cs)) < 2 ^ 63" using 3 assms(5,6) by (auto simp: syncDepth_def split: if_splits)
    from advance_Inr [OF assms(1,2) adv _ this h(1)]
    have a: "lg_bs t = lg_bs s" "height = int (length xs) + int (length cs)" "head = (if cs = [] then h else Some (hd cs))" "GetHead E (lg_ds t) = (head, height, None)"
      by (auto simp: last_rev)
    have head: "head = Some rh" using a(3) ys hd by (cases ys) auto
    moreover have "logChain E (lg_bs t) (Some rh) (ys @ xs)" using chainTo_append [OF ys(2) h(2)] a(1) by simp
    ultimately have "validLog E t (ys @ xs)" using a ys(1) by (auto simp: validLog_def)
    moreover have "fst (hd (ys @ xs)) = rh" using ys a(3) head hd by (cases ys) auto
    ultimately show ?thesis using a cs(2) ys(1) 3 head by auto
  qed
qed

subsection \<open>Concrete runs\<close>

text \<open>The theorems on the log at concrete logs: blocks are their own identifiers, and the codec is a table of two events.\<close>

definition exNode :: "string \<Rightarrow> (string \<times> cbor_value) list \<Rightarrow> cbor_node" where
  "exNode peer prev = CMap ([(''type'', CStr ''peer_added''), (''ts'', CInt 0), (''peer'', CStr peer)] @ prev)"

definition exB1 :: bytes where "exB1 = [char_of (0 :: nat)]"
definition exB2 :: bytes where "exB2 = [char_of (1 :: nat)]"

definition exNodes :: "cbor_node list" where
  "exNodes = [exNode ''x'' [], exNode ''y'' [(''prev'', CStr (CHR ''b'' # exB1))]]"

definition exLog :: "(bytes, kv, bytes list) log_cfg" where
  "exLog = \<lparr>ev_Encode = tableMarshal exNodes, ev_Decode = tableUnmarshal exNodes, ev_Sum = Inr, ev_String = (\<lambda>c. CHR ''b'' # c),
     ev_DecodeCid = (\<lambda>s. case s of [] \<Rightarrow> Inl (ErrMsg ''empty'') | b # c \<Rightarrow> if b = CHR ''b'' then Inr c else Inl (ErrMsg ''base'')),
     ev_ds = map_datastore, ev_GetBlock = (\<lambda>b c. if c \<in> set b then Inr c else Inl (ErrMsg ''missing'')),
     ev_AddBlock = (\<lambda>c raw b. if c = raw then (Inr (), raw # b) else (Inl (ErrMsg ''hash''), b))\<rparr>"

lemma exLog_ds: "datastore_contract (ev_ds exLog)"
  by (simp add: exLog_def map_ds.datastore_contract_axioms)

lemma exLog_codec: "eventCodec exLog"
proof -
  have "tableUnmarshal exNodes d = Inr n" if "tableMarshal exNodes n = Inr d" for n d
    using table_roundtrip [OF that] by (simp add: exNodes_def)
  then show ?thesis by (simp add: eventCodec_def exLog_def)
qed

lemma exLog_blocks: "contentStore exLog"
  by (auto simp: contentStore_def exLog_def split: if_splits)

definition exEmpty :: "(kv, bytes list) log_state" where "exEmpty = \<lparr>lg_ds = (\<lambda>_. None), lg_bs = [exB2, exB1]\<rparr>"

definition exOne :: "(kv, bytes list) log_state" where
  "exOne = \<lparr>lg_ds = [stateHeadKey \<mapsto> CHR ''b'' # exB1, stateHeightKey \<mapsto> ''1''], lg_bs = [exB2, exB1]\<rparr>"

lemmas ex_log_eval = exLog_def eventLink_def fetchEvent_def decodePeerAddedFromCBOR_def tableUnmarshal_def exNodes_def exNode_def exB1_def exB2_def

lemma ex_links: "eventLink exLog [exB2, exB1] exB1 = Some (''x'', None)" "eventLink exLog [exB2, exB1] exB2 = Some (''y'', Some exB1)"
  by (simp_all add: ex_log_eval)

lemma ex_digits: "fmtInt64 1 = ''1''" "fmtInt64 2 = ''2''"
  by code_simp+

lemma ex_parse: "parseInt64 ''1'' = 1"
  using parse_fmt [of 1] by (simp add: ex_digits)

lemma ex_empty_log: "validLog exLog exEmpty []"
  by (simp add: validLog_def exEmpty_def GetHead_def exLog_def map_datastore_def parse_empty)

lemma ex_one_log: "validLog exLog exOne [(exB1, ''x'')]"
proof -
  have "GetHead exLog (lg_ds exOne) = (Some exB1, 1, None)"
    by (simp add: exOne_def GetHead_def exLog_def map_datastore_def ex_parse stateHeadKey_def stateHeightKey_def)
  then show ?thesis using ex_links by (simp add: validLog_def exOne_def)
qed

theorem append_if_new_witness:
  "\<exists>res t. AppendPeerAddedIfNew exLog 0 ''x'' exOne = Some (res, t)
    \<and> (\<forall>head n added. res = Inr (head, n, added) \<longrightarrow>
         added = False
         \<and> (\<exists>ys. validLog exLog t ys \<and> n = int (length ys) \<and> distinct (map snd ys) \<and> set (map snd ys) = {''x''}
              \<and> (if added then \<exists>c. head = Some c \<and> ys = (c, ''x'') # [(exB1, ''x'')] else t = exOne \<and> ys = [(exB1, ''x'')])))"
  using append_if_new [OF exLog_ds exLog_codec exLog_blocks ex_one_log, of "''x''" 0] by simp

definition exOpts :: "int \<Rightarrow> SyncOptions" where "exOpts n = \<lparr>so_MaxDepth = n, so_MaxBlockBytes = 0\<rparr>"

definition exTwo :: "string \<Rightarrow> (kv, bytes list) log_state \<Rightarrow> (kv, bytes list) log_state" where
  "exTwo height s = s\<lparr>lg_ds := (lg_ds s)(stateHeadKey \<mapsto> CHR ''b'' # exB2, stateHeightKey \<mapsto> height)\<rparr>"

lemmas ex_walk_eval = prevCid_def exOpts_def ex_log_eval

lemma ex_sync: "SyncSuffix exLog (\<lambda>_. False) (Some exB2) 2 (exOpts 2) exOne = (Inr (1, Some exB2, 2), exTwo ''2'' exOne)"
proof -
  have "suffixWalk exLog [exB2, exB1] (exOpts 2) (\<lambda>_. False) (Some exB1) (Suc (Suc 0)) exB2 = Inr ([exB2], True)"
    by (simp add: ex_walk_eval)
  moreover have "GetHead exLog (lg_ds exOne) = (Some exB1, 1, None)"
    by (simp add: exOne_def GetHead_def exLog_def map_datastore_def ex_parse stateHeadKey_def stateHeightKey_def)
  moreover have "lg_bs exOne = [exB2, exB1]" by (simp add: exOne_def)
  moreover have "SetHead exLog (Some exB2) 2 exOne = (Inr (), exTwo ''2'' exOne)"
    by (simp add: SetHead_def bindS_def onLogDs_def exLog_def map_datastore_def exTwo_def ex_digits)
  ultimately show ?thesis by (simp add: SyncSuffix_def readS_def bindS_def liftR_def retS_def exOpts_def numeral_2_eq_2 del: suffixWalk.simps)
qed

theorem sync_suffix_extends_witness:
  "\<exists>y. validLog exLog (exTwo ''2'' exOne) [y, (exB1, ''x'')] \<and> fst y = exB2
   \<and> SyncSuffix exLog (\<lambda>_. False) (Some exB2) 2 (exOpts 2) exOne = (Inr (1, Some exB2, 2), exTwo ''2'' exOne)"
proof -
  from sync_suffix_extends [OF exLog_ds exLog_codec ex_one_log _ _ _ ex_sync]
  obtain ys where "validLog exLog (exTwo ''2'' exOne) (ys @ [(exB1, ''x'')])" "fst (hd (ys @ [(exB1, ''x'')])) = exB2" "1 = int (length ys)"
    by (auto simp: exOpts_def)
  then show ?thesis using ex_sync by (cases ys) auto
qed

lemma ex_sync_cut: "SyncSuffix exLog (\<lambda>_. False) (Some exB2) 2 (exOpts 1) exEmpty = (Inr (1, Some exB2, 1), exTwo ''1'' exEmpty)"
proof -
  have "suffixWalk exLog [exB2, exB1] (exOpts 1) (\<lambda>_. False) None (Suc 0) exB2 = Inr ([exB2], False)"
    by (simp add: ex_walk_eval)
  moreover have "GetHead exLog (lg_ds exEmpty) = (None, 0, None)"
    by (simp add: exEmpty_def GetHead_def exLog_def map_datastore_def parse_empty)
  moreover have "lg_bs exEmpty = [exB2, exB1]" by (simp add: exEmpty_def)
  moreover have "SetHead exLog (Some exB2) 1 exEmpty = (Inr (), exTwo ''1'' exEmpty)"
    by (simp add: SetHead_def bindS_def onLogDs_def exLog_def map_datastore_def exTwo_def ex_digits)
  ultimately show ?thesis by (simp add: SyncSuffix_def readS_def bindS_def liftR_def retS_def exOpts_def numeral_2_eq_2 del: suffixWalk.simps)
qed

text \<open>A node without a log takes a walk that its depth limit cut short for the whole chain: from a remote chain of two events and a
  limit of one it starts a log of height one whose head has a predecessor, so that height and chain disagree from then on.\<close>

theorem sync_truncated:
  "validLog exLog exEmpty [] \<and> logChain exLog (lg_bs exEmpty) (Some exB2) [(exB2, ''y''), (exB1, ''x'')]
   \<and> SyncSuffix exLog (\<lambda>_. False) (Some exB2) 2 (exOpts 1) exEmpty = (Inr (1, Some exB2, 1), exTwo ''1'' exEmpty)
   \<and> (\<nexists>xs. validLog exLog (exTwo ''1'' exEmpty) xs)"
proof -
  have bs: "lg_bs exEmpty = [exB2, exB1]" "lg_bs (exTwo ''1'' exEmpty) = [exB2, exB1]" by (simp_all add: exEmpty_def exTwo_def)
  have "GetHead exLog (lg_ds (exTwo ''1'' exEmpty)) = (Some exB2, 1, None)"
    by (simp add: exTwo_def GetHead_def exLog_def map_datastore_def ex_parse stateHeadKey_def stateHeightKey_def)
  then have "\<not> validLog exLog (exTwo ''1'' exEmpty) xs" for xs
    using ex_links bs by (cases xs; cases "List.tl xs") (auto simp: validLog_def)
  with ex_empty_log ex_sync_cut ex_links bs show ?thesis by auto
qed

end
