(* ===== verification/Spec2Isabelle.thy ===== *)
theory Spec2Isabelle
  imports Names_Lease_Witness Names_Content_Witness PHT_Props Tuple_Durable_Witness Tuple_Distributed_Props
    Index_Authority_Witness Net_Handshake_Witness Sync_Exchange_Witness Storage_Repair_Witness Storage_Log_Props
begin

text \<open>
  \<^bold>\<open>Tarsus: names, tuples and the peer network\<close>

  The program (Go, \<open>src/\<close>) is a node of a peer-to-peer storage network. A node keeps signed mutable names (\<open>internal/names\<close>),
  a prefix hash tree that indexes them and the tuple names (\<open>internal/pht\<close>), a tuple space whose exact names have a replicated,
  leased state (\<open>internal/tuplespace\<close>), content-addressed blocks with tokens that name their providers (\<open>internal/storage\<close>), catalogues that
  peers reconcile (\<open>internal/sync\<close>), and admits peers through a handshake (\<open>internal/net\<close>). These theories model the core logic of
  those packages as functions on explicit states and prove what makes them correct.

  \<^bold>\<open>Conventions.\<close> A Go struct is a record with a prefix per type, an enum or error is a datatype (\<open>go_error\<close> with
  \<open>errors_Is\<close>), a 64-bit integer is a \<open>64 word\<close> where wrap-around can matter and an \<open>int\<close> where the code works with
  times and sizes, bytes and strings are character lists. A fallible function returns \<open>go_error + 'a\<close>; a function with state
  has the type \<open>('s, 'a) op\<close>, that is \<open>'s \<Rightarrow> 'a result \<times> 's\<close>, composed with \<open>bindS\<close>, \<open>tryS\<close> and \<open>fail_ifS\<close> in the order of the code.
  Invariants are carried through such compositions with \<open>keeps\<close>. A mutex that is held over an operation makes it one step; where
  several nodes interleave, an \<open>inductive\<close> relation has one rule per step. Libraries that are not in \<open>src/\<close> (CBOR and JSON, hashes,
  signatures, ciphers, the value store of the DHT, datastores, resolvers, multiaddresses) are parameters, with the laws the
  code relies on as assumptions of locales (\<open>crypto_contract\<close>, \<open>datastore_contract\<close>, \<open>cas_contract\<close>, \<open>pht_store\<close> and others), each of which
  is interpreted on a model of its own.

  \<^bold>\<open>Shared theories.\<close> \<open>Tarsus_Prelude\<close>: errors, results, state operations and their inversion and preservation rules, selection
  loops. \<open>Go_Strings\<close>, \<open>Go_Binary\<close>, \<open>Go_Errors\<close>, \<open>Go_Datastore\<close>: the standard library as the code uses it, and the contracts of
  datastores, value stores and compare-and-swap authorities. \<open>Go_Trim\<close>: lines, spaces and decimal numbers; \<open>Go_Sort\<close>: \<open>sort.Slice\<close>; \<open>Go_Float\<close>:
  \<open>float64\<close> as rationals with rounding to 53 bits.

  \<^bold>\<open>Names\<close> (\<open>types.go, codec.go, record.go, validator.go, bft.go, store.go, content.go\<close>). \<open>Names_Data\<close> has the data types,
  \<open>Names_Types\<close> paths and policies, \<open>Names_Record\<close> signed records, capabilities and the successor rules, \<open>Names_Validator\<close> the
  validators of the DHT, \<open>Names_BFT\<close> votes, certificates and the vote journal and \<open>Names_Agreement\<close> the agreement proof: two certified
  records for one generation are equal while at most a third of the committee is faulty. \<open>Names_Store\<close> models
  create, update, delete, certified commit, write-back, rename and search; \<open>Names_History\<close> interleaves the handlers of several nodes at
  one authority and shows that heads form a hash chain; \<open>Names_Store_Props\<close> has the properties of the handlers. \<open>Names_Lease\<close> and
  \<open>Names_Registry\<close> do the same for leases: overlapping scopes are never held at once and fencing numbers grow. \<open>Names_Content\<close> and
  \<open>Names_Content_Props\<close> model manifests, chunks, encryption and reconstruction with their round trip. \<open>Names_Instance\<close> and the
  \<open>_Witness\<close> theories interpret the contracts and evaluate concrete runs.

  \<^bold>\<open>Prefix hash tree\<close> (\<open>bloom.go, tree.go, fence.go, dht.go, mutable.go, query.go\<close>). \<open>PHT_Bloom\<close>: filters and n-grams, without false
  negatives. \<open>PHT_Tree\<close>: nodes, splits, fences, records. \<open>PHT_Index\<close>: the mutable index over a value store with its cache; its retry
  loops are \<open>partial_function\<close>s and the theorems show that they return. \<open>PHT_Invariant\<close> relates the records of a store to the set of names
  they hold, and \<open>PHT_Build\<close>, \<open>PHT_Store\<close>, \<open>PHT_Insert\<close>, \<open>PHT_Delete\<close>, \<open>PHT_Adopt\<close> prove that every operation refines the operation on
  that set. \<open>PHT_Query\<close> and \<open>PHT_Query_Props\<close>: prefix and substring queries return exactly the matching names, with fuel for the
  descent of which some amount always suffices. \<open>PHT_Instance\<close> interprets the store's contract, \<open>PHT_Props\<close> states the results.

  \<^bold>\<open>Tuple space\<close> (\<open>native.go, tuple_durable.go, distributed.go, index_authority.go\<close>). \<open>Tuple_Native\<close>: the local space as a multiset and as a file of
  compare-and-swap registers. \<open>Tuple_Wait\<close>: the clock of a leased role; time passes only while the code waits, and the network may
  change meanwhile. \<open>Tuple_Durable\<close>: the replicated state of an exact name with fences, leases, failover, the window of 256
  results and the bounded cache. \<open>Tuple_Durable_Props\<close>: operations succeed only under their fence and after the store was seen to hold
  the committed state, a request is applied once across retries and changes of ownership, the cache keeps its bounds, and a failover
  does not wait for a lease that was extended meanwhile. \<open>Tuple_Route\<close> and \<open>Tuple_Distributed\<close>: requests on their way to the owner of
  a name over the connections of other nodes, the memo of the owner, the cache of fences; a request costs at most 64 messages and is performed
  once however many branches carry it, but the overlay loses the errors of the owner other than a missing tuple. \<open>Index_Authority\<close> and \<open>Index_Authority_Props\<close>: the leased writer of each index shard; fences
  that are returned are in force, claims follow the term they read, and mutations pass only under the own lease.

  \<^bold>\<open>Peers\<close> (\<open>replay.go, protection.go, handshake.go, handshake_gate.go\<close>). \<open>Net_Replay\<close>: the caches of nonces and hashes and the timestamp
  window. \<open>Net_Protection\<close> and \<open>Net_Protection_Props\<close>: limits per subnet, address buckets, token buckets, caps, scores and bans, with the bounds
  they keep in every run. \<open>Net_Handshake\<close> and \<open>Net_Handshake_Props\<close>: both sides of the exchange and the gate; no replay is accepted when the
  caches outlive the timestamp window (with the defaults one is), initiators check the responder's token, responders do not check the
  initiator's, and streams pass only for verified peers within their caps.

  \<^bold>\<open>Catalogue sync\<close> (\<open>iblt.go, reconcile.go, catalog.go\<close>, with \<open>providers.go\<close> and \<open>iblt_catalog.go\<close>). \<open>Sync_IBLT\<close> has the invertible table and the
  extraction of its keys, \<open>Sync_Exchange\<close> the messages and the exchange of two peers. The \<open>_Props\<close> theories show that a complete extraction
  gives exactly the difference, when the extraction ends, that a node that misses one item learns it, and a table on which it does not end.

  \<^bold>\<open>Storage.\<close> \<open>Storage_Key\<close> and \<open>Storage_Lock\<close> (\<open>key.go, key_lock.go\<close>): content keys and the lock of a key, whose grants over a store that keeps
  its writes do not overlap, though two nodes that read before either writes are both granted it. \<open>Storage_Token\<close> (\<open>token.go, token_sync.go\<close>
  and the conflict files): tokens, their merge and their publication. \<open>Storage_Log\<close> (\<open>state.go, typed.go\<close>): the log of peers stays a chain under appends
  and synchronization. \<open>Storage_Replication\<close> (\<open>replication.go\<close>): distance categories, integer targets that add up to the replication factor in
  spite of rounding, scores and selection. \<open>Storage_Routing\<close> (\<open>routing_table.go, announce_queue.go, verify.go\<close>): the table of providers with its
  type invariant, and the verification of a key's replicas. \<open>Storage_Stack\<close> (\<open>store.go, chunking.go, provider_claim.go\<close>): blocks with their
  indexes, the direct-fetch stream, provider claims; a block that was put is found here and by every peer that fetches it, and what
  a fetch returns has the key that was asked for. \<open>Storage_Repair\<close> and \<open>Storage_Offers\<close> (\<open>repair.go, storage_available.go\<close>): probes, offers, audit,
  repair and replication with the stream of a transfer; a transfer that is counted was stored, a repair creates no more than is missing, and a
  peer is given up only after failures over the confirmation interval.

  \<^bold>\<open>Bounds and fuel.\<close> Retry loops of the code with a fixed number of attempts are recursions on that number. \<open>commitPoll\<close> ends
  by its deadline and \<open>evictLoop\<close> by the size of the cache, both with a measure; a relayed request ends by its budget. \<open>InsertFenced\<close> and \<open>DeleteFenced\<close> are partial functions whose
  results are proved to exist; the adoption of a fence and the queries take fuel, and the theorems give the amount or its existence.
  The acquisition of a lock with retries, the scan of the peer log and the extraction from a table are partial functions too; the first is
  proved to return whatever the other nodes do, the second on valid logs, and the third under a condition on the difference. The batches of
  \<open>replicateBatches\<close> end because each takes candidates off the list. \<open>Go_Float\<close> leaves out the range of the exponent, infinities and NaN.

  \<^bold>\<open>Not modelled.\<close> The processes that wire the packages together (\<open>pkg/node\<close>, \<open>cmd\<close>, \<open>internal/control\<close>, \<open>internal/gateway\<close>), which are
  servers, flags and goroutines over the packages above; the coordinator and the fan-out of the indexed tuple space and the adapters
  around it (\<open>indexed.go, p2p_ts.go, router.go\<close>), the hosts, DHT set-up, peer stores and partition monitors of \<open>internal/net\<close>, directory
  blocks (\<open>internal/directory\<close>), and the ranking and the floating-point sizing of filters in \<open>internal/pht\<close>. Concurrent workers run one after the other
  in the order of the code's lists, timers are the steps between them, and contexts expire only where a parameter says so. Log lines,
  metrics and the texts of most wrapped errors are left out where nothing depends on them.
\<close>

end
